(* ===== verification/Prelude.thy ===== *)
theory Prelude
  imports Main "HOL-Library.List_Lexorder" "HOL-Library.Char_ord"
begin

text \<open>
  Shared vocabulary of the development: identifiers and instants, the error-carrying result
  (\<open>'e + 'a\<close>, left for a raised exception) with its sequencing \<open>bindE\<close>, and the list
  operations that stand for SQL on a table kept as a list of rows in insertion order.
\<close>

named_theorems res_simps "splitting of error-carrying results"
named_theorems row_simps "rows of a table after an insert or an update"

text \<open>
  A UUID is its 128-bit number: \<open>str(uuid)\<close> is fixed-width hexadecimal, so comparing the text
  (as SQLite does) and comparing the number agree. An instant is a UTC time in microseconds:
  every time the code stores is UTC, and the ISO text of UTC times sorts as the times do.
\<close>

type_synonym uuid = nat
type_synonym instant = int

definition seconds :: "int \<Rightarrow> int" where
  "seconds n = n * 1000000"

section \<open>Results that may be an exception\<close>

definition bindE :: "'e + 'a \<Rightarrow> ('a \<Rightarrow> 'e + 'b) \<Rightarrow> 'e + 'b" where
  "bindE r f = (case r of Inl e \<Rightarrow> Inl e | Inr x \<Rightarrow> f x)"

lemma bindE_simps [simp]:
  "bindE (Inl e) f = Inl e"
  "bindE (Inr x) f = f x"
  by (simp_all add: bindE_def)

lemma bindE_Inr_iff [res_simps]: "bindE r f = Inr y \<longleftrightarrow> (\<exists>x. r = Inr x \<and> f x = Inr y)"
  by (cases r) auto

lemma bindE_Inl_iff [res_simps]:
  "bindE r f = Inl e \<longleftrightarrow> r = Inl e \<or> (\<exists>x. r = Inr x \<and> f x = Inl e)"
  by (cases r) auto

lemma bindE_cong [fundef_cong]:
  "r = r' \<Longrightarrow> (\<And>x. r' = Inr x \<Longrightarrow> f x = g x) \<Longrightarrow> bindE r f = bindE r' g"
  by (cases r') auto

lemma bindE_elim:
  assumes "bindE r f = Inr y"
  obtains x where "r = Inr x" and "f x = Inr y"
  using assms by (auto simp: bindE_Inr_iff)

text \<open>\<open>guardE e b\<close> raises \<open>e\<close> unless \<open>b\<close> holds.\<close>

definition guardE :: "'e \<Rightarrow> bool \<Rightarrow> 'e + unit" where
  "guardE e b = (if b then Inr () else Inl e)"

lemma guardE_iff [simp]:
  "guardE e b = Inr u \<longleftrightarrow> b"
  "guardE e b = Inl e' \<longleftrightarrow> \<not> b \<and> e' = e"
  by (auto simp: guardE_def)

lemma guardE_True [simp]: "guardE e True = Inr ()"
  by (simp add: guardE_def)

lemma guardE_False [simp]: "guardE e False = Inl e"
  by (simp add: guardE_def)

text \<open>A Python loop whose body may raise: the first exception ends it.\<close>

fun mapE :: "('a \<Rightarrow> 'e + 'b) \<Rightarrow> 'a list \<Rightarrow> 'e + 'b list" where
  "mapE f [] = Inr []"
| "mapE f (x # xs) = bindE (f x) (\<lambda>y. bindE (mapE f xs) (\<lambda>ys. Inr (y # ys)))"

fun foldE :: "('a \<Rightarrow> 's \<Rightarrow> 'e + 's) \<Rightarrow> 'a list \<Rightarrow> 's \<Rightarrow> 'e + 's" where
  "foldE f [] s = Inr s"
| "foldE f (x # xs) s = bindE (f x s) (foldE f xs)"

lemma mapE_Inr_iff: "mapE f xs = Inr ys \<longleftrightarrow> list_all2 (\<lambda>x y. f x = Inr y) xs ys"
proof (induction xs arbitrary: ys)
  case Nil
  then show ?case by auto
next
  case (Cons x xs)
  then show ?case by (cases ys) (auto simp: bindE_Inr_iff)
qed

lemma mapE_Inr_length: "mapE f xs = Inr ys \<Longrightarrow> length ys = length xs"
  by (auto simp: mapE_Inr_iff dest: list_all2_lengthD)

lemma mapE_Inl: "mapE f xs = Inl e \<Longrightarrow> \<exists>x \<in> set xs. f x = Inl e"
  by (induction xs) (auto simp: bindE_Inl_iff)

lemma mapE_total: "(\<exists>ys. mapE f xs = Inr ys) \<longleftrightarrow> (\<forall>x \<in> set xs. \<exists>y. f x = Inr y)"
  by (induction xs) (auto simp: bindE_Inr_iff)

lemma mapE_all_Inr: "(\<And>x. x \<in> set xs \<Longrightarrow> f x = Inr (g x)) \<Longrightarrow> mapE f xs = Inr (map g xs)"
  by (induction xs) auto

lemma foldE_append: "foldE f (xs @ ys) s = bindE (foldE f xs s) (foldE f ys)"
proof (induction xs arbitrary: s)
  case Nil
  then show ?case by simp
next
  case (Cons x xs)
  then show ?case by (cases "f x s") auto
qed

lemma foldE_invariant:
  assumes "foldE f xs s = Inr s'" and "I s"
    and "\<And>x s s'. x \<in> set xs \<Longrightarrow> f x s = Inr s' \<Longrightarrow> I s \<Longrightarrow> I s'"
  shows "I s'"
  using assms
proof (induction xs arbitrary: s)
  case Nil
  then show ?case by simp
next
  case (Cons x xs)
  from Cons.prems(1) obtain t where t: "f x s = Inr t" "foldE f xs t = Inr s'"
    by (auto simp: bindE_Inr_iff)
  have "I t" using Cons.prems(2,3) t(1) by auto
  with Cons.IH [OF t(2)] Cons.prems(3) show ?case by (meson list.set_intros(2))
qed

section \<open>Tables as lists of rows\<close>

text \<open>
  \<open>find_row P\<close> is the first row a query \<open>SELECT ... WHERE P\<close> yields (\<open>fetchone\<close>),
  \<open>update_rows P f\<close> is \<open>UPDATE ... SET f WHERE P\<close>, \<open>page\<close> is
  \<open>LIMIT ? OFFSET ?\<close>.
\<close>

definition find_row :: "('r \<Rightarrow> bool) \<Rightarrow> 'r list \<Rightarrow> 'r option" where
  "find_row P rows = List.find P rows"

definition update_rows :: "('r \<Rightarrow> bool) \<Rightarrow> ('r \<Rightarrow> 'r) \<Rightarrow> 'r list \<Rightarrow> 'r list" where
  "update_rows P f rows = map (\<lambda>r. if P r then f r else r) rows"

definition page :: "nat \<Rightarrow> nat \<Rightarrow> 'r list \<Rightarrow> 'r list" where
  "page limit offset rows = take limit (drop offset rows)"

lemma find_row_Some: "find_row P rows = Some r \<Longrightarrow> r \<in> set rows \<and> P r"
  by (auto simp: find_row_def find_Some_iff)

lemma find_row_None: "find_row P rows = None \<longleftrightarrow> (\<forall>r \<in> set rows. \<not> P r)"
  by (auto simp: find_row_def find_None_iff)

lemma find_row_Nil [row_simps, simp]: "find_row P [] = None"
  by (simp add: find_row_def)

lemma find_row_Cons [row_simps]: "find_row P (r # rows) = (if P r then Some r else find_row P rows)"
  by (simp add: find_row_def)

lemma find_row_append [row_simps]:
  "find_row P (xs @ ys) = (case find_row P xs of None \<Rightarrow> find_row P ys | Some r \<Rightarrow> Some r)"
  by (induction xs) (auto simp: find_row_def)

lemma find_row_unique:
  assumes "distinct (map k rows)" and "r \<in> set rows" and "P r"
    and "\<And>s. s \<in> set rows \<Longrightarrow> P s \<Longrightarrow> k s = k r"
  shows "find_row P rows = Some r"
proof (cases "find_row P rows")
  case None
  with assms(2,3) show ?thesis by (simp add: find_row_None)
next
  case (Some s)
  then have s: "s \<in> set rows" "P s" by (auto dest: find_row_Some)
  then have "k s = k r" by (rule assms(4))
  with assms(1,2) s(1) have "s = r" by (auto simp: distinct_map dest: inj_onD)
  with Some show ?thesis by simp
qed

lemma find_row_cong:
  "(\<And>r. r \<in> set rows \<Longrightarrow> P r = Q r) \<Longrightarrow> find_row P rows = find_row Q rows"
  by (induction rows) (auto simp: find_row_Cons)

lemma set_update_rows: "set (update_rows P f rows) = (\<lambda>r. if P r then f r else r) ` set rows"
  by (auto simp: update_rows_def)

lemma length_update_rows [row_simps, simp]: "length (update_rows P f rows) = length rows"
  by (simp add: update_rows_def)

lemma update_rows_none: "(\<And>r. r \<in> set rows \<Longrightarrow> \<not> P r) \<Longrightarrow> update_rows P f rows = rows"
  by (auto simp: update_rows_def intro: map_idI)

lemma map_update_rows:
  "(\<And>r. r \<in> set rows \<Longrightarrow> P r \<Longrightarrow> k (f r) = k r) \<Longrightarrow> map k (update_rows P f rows) = map k rows"
  by (auto simp: update_rows_def)

lemma update_rows_find:
  assumes "\<And>r. r \<in> set rows \<Longrightarrow> Q (if P r then f r else r) = Q r"
  shows "find_row Q (update_rows P f rows) =
    map_option (\<lambda>r. if P r then f r else r) (find_row Q rows)"
  using assms by (induction rows) (auto simp: find_row_Cons update_rows_def)

lemma set_page: "set (page limit offset rows) \<subseteq> set rows"
  unfolding page_def by (meson order_trans set_drop_subset set_take_subset)

lemma length_page: "length (page limit offset rows) \<le> limit"
  by (simp add: page_def)

lemma distinct_singleton: "distinct xs \<Longrightarrow> set xs = {a} \<Longrightarrow> xs = [a]"
proof (cases xs)
  case (Cons x ys)
  assume "distinct xs" "set xs = {a}"
  with Cons have "x = a" "a \<notin> set ys" "set ys \<subseteq> {a}" by auto
  with Cons show ?thesis by (cases ys) auto
qed simp

lemma filter_unique:
  assumes "distinct (map k rows)" and "r \<in> set rows" and "P r"
    and "\<And>s. s \<in> set rows \<Longrightarrow> P s \<Longrightarrow> k s = k r"
  shows "filter P rows = [r]"
proof (rule distinct_singleton)
  show "distinct (filter P rows)" using assms(1) by (simp add: distinct_map)
  have "s = r" if "s \<in> set rows" "P s" for s
    using assms(1) assms(2) that(1) assms(4) [OF that] by (auto simp: distinct_map dest: inj_onD)
  then have "set (filter P rows) \<subseteq> {r}" by auto
  moreover have "r \<in> set (filter P rows)" using assms(2,3) by simp
  ultimately show "set (filter P rows) = {r}" by blast
qed

text \<open>Sorting for \<open>ORDER BY k DESC\<close>: the stable ascending sort on the keys, reversed.\<close>

definition sort_desc :: "('r \<Rightarrow> 'k::linorder) \<Rightarrow> 'r list \<Rightarrow> 'r list" where
  "sort_desc k rows = rev (sort_key k rows)"

lemma set_sort_desc [simp]: "set (sort_desc k rows) = set rows"
  by (simp add: sort_desc_def)

lemma length_sort_desc [simp]: "length (sort_desc k rows) = length rows"
  by (simp add: sort_desc_def)

end
