(* ===== verification/Json.thy ===== *)
theory Json
  imports Prelude
begin

text \<open>
  JSON values as the service sees them (\<open>dict[str, Any]\<close> after validation), Python's
  comparison operators on them, and \<open>json.dumps\<close> with sorted keys, compact separators,
  preserved Unicode and rejected non-finite numbers, the text every digest of the service is
  computed over. Strings are their UTF-8 bytes: \<open>str.encode("utf-8")\<close> is then the identity,
  and comparing bytes orders strings as comparing code points does.
  A finite double is \<open>JFloat m e\<close>, of value \<open>m * 2 ^ e\<close>; its shortest decimal text
  (\<open>float.__repr__\<close>) is the parameter \<open>fr\<close> of the printer.
\<close>

datatype json =
    JNull
  | JBool bool
  | JInt int
  | JFloat int int
  | JStr string
  | JArr "json list"
  | JObj "(string \<times> json) list"

section \<open>Python comparisons\<close>

text \<open>
  The numeric value of a bool, an int or a float, as a mantissa and a binary exponent
  (Python compares ints and floats exactly, and a bool is an int).
\<close>

fun num_value :: "json \<Rightarrow> (int \<times> int) option" where
  "num_value (JBool b) = Some (if b then 1 else 0, 0)"
| "num_value (JInt i) = Some (i, 0)"
| "num_value (JFloat m e) = Some (m, e)"
| "num_value _ = None"

definition num_scale :: "int \<times> int \<Rightarrow> int \<times> int \<Rightarrow> int \<times> int" where
  "num_scale a b = (let k = min (snd a) (snd b) in
     (fst a * 2 ^ nat (snd a - k), fst b * 2 ^ nat (snd b - k)))"

definition num_eq :: "int \<times> int \<Rightarrow> int \<times> int \<Rightarrow> bool" where
  "num_eq a b = (case num_scale a b of (x, y) \<Rightarrow> x = y)"

definition num_less :: "int \<times> int \<Rightarrow> int \<times> int \<Rightarrow> bool" where
  "num_less a b = (case num_scale a b of (x, y) \<Rightarrow> x < y)"

text \<open>
  \<open>a == b\<close>: numbers by value, strings and null by identity, lists element by element,
  dictionaries by their keys and the values under them, anything else unequal.
\<close>

fun py_eq :: "json \<Rightarrow> json \<Rightarrow> bool"
  and py_eq_list :: "json list \<Rightarrow> json list \<Rightarrow> bool"
  and py_eq_members :: "(string \<times> json) list \<Rightarrow> (string \<times> json) list \<Rightarrow> bool" where
  "py_eq (JArr xs) b = (case b of JArr ys \<Rightarrow> py_eq_list xs ys | _ \<Rightarrow> False)"
| "py_eq (JObj kvs) b =
     (case b of JObj kvs' \<Rightarrow> length kvs = length kvs' \<and> py_eq_members kvs kvs' | _ \<Rightarrow> False)"
| "py_eq (JStr s) b = (b = JStr s)"
| "py_eq JNull b = (b = JNull)"
| "py_eq (JBool x) b = (case num_value b of Some v \<Rightarrow> num_eq (if x then 1 else 0, 0) v | None \<Rightarrow> False)"
| "py_eq (JInt i) b = (case num_value b of Some v \<Rightarrow> num_eq (i, 0) v | None \<Rightarrow> False)"
| "py_eq (JFloat m e) b = (case num_value b of Some v \<Rightarrow> num_eq (m, e) v | None \<Rightarrow> False)"
| "py_eq_list [] ys = (ys = [])"
| "py_eq_list (x # xs) ys = (case ys of [] \<Rightarrow> False | y # ys' \<Rightarrow> py_eq x y \<and> py_eq_list xs ys')"
| "py_eq_members [] kvs' = True"
| "py_eq_members ((k, v) # kvs) kvs' =
     (case map_of kvs' k of None \<Rightarrow> False | Some w \<Rightarrow> py_eq v w \<and> py_eq_members kvs kvs')"

text \<open>
  \<open>a < b\<close>, \<open>None\<close> where Python raises TypeError: two numbers, two strings, or two lists
  (the first position where they differ decides, then the length).
\<close>

fun py_less :: "json \<Rightarrow> json \<Rightarrow> bool option"
  and py_less_list :: "json list \<Rightarrow> json list \<Rightarrow> bool option" where
  "py_less (JArr xs) b = (case b of JArr ys \<Rightarrow> py_less_list xs ys | _ \<Rightarrow> None)"
| "py_less (JStr s) b = (case b of JStr t \<Rightarrow> Some (s < t) | _ \<Rightarrow> None)"
| "py_less (JBool x) b =
     (case num_value b of Some v \<Rightarrow> Some (num_less (if x then 1 else 0, 0) v) | None \<Rightarrow> None)"
| "py_less (JInt i) b = (case num_value b of Some v \<Rightarrow> Some (num_less (i, 0) v) | None \<Rightarrow> None)"
| "py_less (JFloat m e) b =
     (case num_value b of Some v \<Rightarrow> Some (num_less (m, e) v) | None \<Rightarrow> None)"
| "py_less JNull b = None"
| "py_less (JObj kvs) b = None"
| "py_less_list [] ys = Some (ys \<noteq> [])"
| "py_less_list (x # xs) ys =
     (case ys of [] \<Rightarrow> Some False
      | y # ys' \<Rightarrow> if py_eq x y then py_less_list xs ys' else py_less x y)"

lemma num_less_swap: "num_less a b \<longleftrightarrow> \<not> num_less b a \<and> \<not> num_eq a b"
  by (auto simp: num_less_def num_eq_def num_scale_def Let_def min.commute)

lemma num_eq_refl [simp]: "num_eq a a"
  by (simp add: num_eq_def num_scale_def Let_def)

lemma num_eq_sym: "num_eq a b = num_eq b a"
  by (auto simp: num_eq_def num_scale_def Let_def min.commute)

section \<open>Printing JSON\<close>

definition digit_char :: "nat \<Rightarrow> char" where
  "digit_char d = char_of (48 + d)"

fun show_nat :: "nat \<Rightarrow> string" where
  "show_nat n = (if n < 10 then [digit_char n] else show_nat (n div 10) @ [digit_char (n mod 10)])"

declare show_nat.simps [simp del]

definition show_int :: "int \<Rightarrow> string" where
  "show_int i = (if i < 0 then CHR ''-'' # show_nat (nat (- i)) else show_nat (nat i))"

definition hex_char :: "nat \<Rightarrow> char" where
  "hex_char d = (if d < 10 then char_of (48 + d) else char_of (87 + d))"

text \<open>
  The escapes of \<open>json.dumps(..., ensure_ascii=False)\<close>: the quote, the backslash, the five
  named control characters, and \<open>\u00XX\<close> for the other control characters.
\<close>

definition escape_char :: "char \<Rightarrow> string" where
  "escape_char c =
     (if c = CHR 0x22 then [CHR 0x5C, CHR 0x22]
      else if c = CHR 0x5C then [CHR 0x5C, CHR 0x5C]
      else if c = CHR 0x0A then [CHR 0x5C, CHR ''n'']
      else if c = CHR 0x0D then [CHR 0x5C, CHR ''r'']
      else if c = CHR 0x09 then [CHR 0x5C, CHR ''t'']
      else if c = CHR 0x0C then [CHR 0x5C, CHR ''f'']
      else if c = CHR 0x08 then [CHR 0x5C, CHR ''b'']
      else if (of_char c :: nat) < 32 then
        [CHR 0x5C, CHR ''u'', CHR ''0'', CHR ''0'', hex_char (of_char c div 16), hex_char (of_char c mod 16)]
      else [c])"

definition print_string :: "string \<Rightarrow> string" where
  "print_string s = CHR 0x22 # concat (map escape_char s) @ [CHR 0x22]"

type_synonym float_text = "int \<Rightarrow> int \<Rightarrow> string"

fun print_json :: "float_text \<Rightarrow> json \<Rightarrow> string"
  and print_items :: "float_text \<Rightarrow> json list \<Rightarrow> string"
  and print_members :: "float_text \<Rightarrow> (string \<times> json) list \<Rightarrow> string" where
  "print_json fr JNull = ''null''"
| "print_json fr (JBool b) = (if b then ''true'' else ''false'')"
| "print_json fr (JInt i) = show_int i"
| "print_json fr (JFloat m e) = fr m e"
| "print_json fr (JStr s) = print_string s"
| "print_json fr (JArr []) = ''[]''"
| "print_json fr (JArr (x # xs)) = CHR ''['' # print_json fr x @ print_items fr xs"
| "print_json fr (JObj []) = ''{}''"
| "print_json fr (JObj ((k, v) # kvs)) =
     CHR ''{'' # print_string k @ CHR '':'' # print_json fr v @ print_members fr kvs"
| "print_items fr [] = '']''"
| "print_items fr (x # xs) = CHR '','' # print_json fr x @ print_items fr xs"
| "print_members fr [] = ''}''"
| "print_members fr ((k, v) # kvs) =
     CHR '','' # print_string k @ CHR '':'' # print_json fr v @ print_members fr kvs"

text \<open>\<open>sort_keys=True\<close>, at every depth.\<close>

fun sort_json :: "json \<Rightarrow> json" where
  "sort_json (JArr xs) = JArr (map sort_json xs)"
| "sort_json (JObj kvs) = JObj (sort_key fst (map (\<lambda>(k, v). (k, sort_json v)) kvs))"
| "sort_json j = j"

definition canonical_json :: "float_text \<Rightarrow> json \<Rightarrow> string" where
  "canonical_json fr j = print_json fr (sort_json j)"

end
