(* ===== verification/Errors.thy ===== *)
theory Errors
  imports Json
begin

text \<open>
  The exceptions the service raises, with the attributes the callers read (message texts,
  which no code inspects, are left out), and the \<open>HTTPException\<close> they become: its status
  code and the entries of its \<open>detail\<close> object but for \<open>message\<close>.
  \<open>IntegrityError\<close> is \<open>sqlite3.IntegrityError\<close>: a violated constraint or a trigger's
  \<open>RAISE(ABORT, ...)\<close>.
\<close>

datatype (plugins only: code size) exn =
    TypeError
  | ValueError string
  | ValidationError
  | RuntimeError string
  | IntegrityError
  | MissingPolicyContext string string
  | InvalidPolicyContext string string
  | DuplicatePolicyId string
  | PolicyVersionConflict string int int
  | PolicyVersionNotFound string int
  | PolicyVersionAlreadyCurrent string int
  | ApprovalNotFound uuid
  | ApprovalAlreadyResolved uuid string
  | ApprovalExpired uuid
  | InvalidExecutionGrant
  | ExecutionGrantAlreadyConsumed uuid
  | ExecutionGrantExpired uuid
  | ExecutionGrantMismatch uuid
  | DecisionIntegrityMigration uuid nat nat
  | EvidenceExportSizeLimit string int
  | WebhookSubscriptionNotFound uuid uuid
  | WebhookSubscriptionDisabled uuid
  | WebhookDeliveryNotFound uuid uuid
  | WebhookDeliveryNotRedeliverable uuid string
  | WebhookDeliveryState uuid string
  | WebhookTransportError string
  | HTTPException nat "(string \<times> json) list"

definition http_error :: "nat \<Rightarrow> string \<Rightarrow> (string \<times> json) list \<Rightarrow> exn" where
  "http_error status code extra = HTTPException status ((''code'', JStr code) # extra)"

text \<open>\<open>except E as exc: raise ... from exc\<close>: \<open>h\<close> says what an exception becomes.\<close>

definition catchE :: "exn + 'a \<Rightarrow> (exn \<Rightarrow> exn) \<Rightarrow> exn + 'a" where
  "catchE r h = (case r of Inl e \<Rightarrow> Inl (h e) | Inr x \<Rightarrow> Inr x)"

lemma catchE_simps [simp]:
  "catchE (Inl e) h = Inl (h e)"
  "catchE (Inr x) h = Inr x"
  by (simp_all add: catchE_def)

lemma catchE_Inr_iff [res_simps]: "catchE r h = Inr x \<longleftrightarrow> r = Inr x"
  by (cases r) auto

lemma catchE_Inl_iff [res_simps]: "catchE r h = Inl e \<longleftrightarrow> (\<exists>e'. r = Inl e' \<and> e = h e')"
  by (cases r) auto

end
