(* ===== verification/Policy_Engine.thy ===== *)
theory Policy_Engine
  imports Errors
begin

text \<open>
  The policy engine: the operators of \<open>app/operators.py\<close>, the policy model of
  \<open>app/policy_models.py\<close> and \<open>app/decision_models.py\<close>, and the evaluation loop of
  \<open>app/policy_engine.py\<close>. The lemmas show that a successful evaluation reports the first
  policy of the highest priority among the matching ones, with a complete trace, and that it
  fails on exactly the first missing or incompatible context field.
\<close>

section \<open>Policies\<close>

datatype decision = ALLOW | REQUIRE_APPROVAL | DENY

datatype operator = Greater_than | Less_than | Equals | Not_equals

datatype condition_match = Match_all | Match_any

record policy_condition =
  pc_field :: string
  pc_operator :: operator
  pc_value :: json

record policy =
  p_id :: string
  p_version :: int
  p_action :: string
  p_match :: condition_match
  p_conditions :: "policy_condition list"
  p_decision :: decision
  p_reason :: string

record condition_evidence =
  ce_field :: string
  ce_operator :: operator
  ce_actual :: json
  ce_expected :: json
  ce_matched :: bool

record policy_evidence =
  pe_match :: condition_match
  pe_conditions :: "condition_evidence list"

record trace_entry =
  te_policy :: string
  te_version :: int
  te_decision :: decision
  te_reason :: string
  te_matched :: bool
  te_evidence :: policy_evidence

record policy_evaluation =
  ev_decision :: decision
  ev_policy :: "string option"
  ev_version :: "int option"
  ev_reason :: string
  ev_evidence :: "policy_evidence option"
  ev_trace :: "trace_entry list"

type_synonym context_object = "(string \<times> json) list"

fun operator_text :: "operator \<Rightarrow> string" where
  "operator_text Greater_than = ''greater_than''"
| "operator_text Less_than = ''less_than''"
| "operator_text Equals = ''equals''"
| "operator_text Not_equals = ''not_equals''"

text \<open>The priority orders the decisions, as a linear order: \<open>DENY\<close> is the greatest.\<close>

fun DECISION_PRIORITY :: "decision \<Rightarrow> nat" where
  "DECISION_PRIORITY ALLOW = 0"
| "DECISION_PRIORITY REQUIRE_APPROVAL = 1"
| "DECISION_PRIORITY DENY = 2"

lemma DECISION_PRIORITY_inj: "DECISION_PRIORITY a = DECISION_PRIORITY b \<longleftrightarrow> a = b"
  by (cases a; cases b) auto

instantiation decision :: linorder
begin

definition less_eq_decision :: "decision \<Rightarrow> decision \<Rightarrow> bool" where
  "less_eq_decision a b \<longleftrightarrow> DECISION_PRIORITY a \<le> DECISION_PRIORITY b"

definition less_decision :: "decision \<Rightarrow> decision \<Rightarrow> bool" where
  "less_decision a b \<longleftrightarrow> DECISION_PRIORITY a < DECISION_PRIORITY b"

instance
  by standard (auto simp: less_eq_decision_def less_decision_def DECISION_PRIORITY_inj [symmetric])

end

lemma ALLOW_least [simp]: "ALLOW \<le> d"
  by (simp add: less_eq_decision_def)

lemma DENY_greatest [simp]: "d \<le> DENY"
  by (cases d) (simp_all add: less_eq_decision_def)

section \<open>Operators\<close>

text \<open>
  \<open>_values_have_compatible_types\<close>: a bool only with a bool, an int or a float with either,
  anything else with a value of its own type.
\<close>

fun values_have_compatible_types :: "json \<Rightarrow> json \<Rightarrow> bool" where
  "values_have_compatible_types (JBool _) b = (case b of JBool _ \<Rightarrow> True | _ \<Rightarrow> False)"
| "values_have_compatible_types a (JBool _) = False"
| "values_have_compatible_types (JInt _) b = (case b of JInt _ \<Rightarrow> True | JFloat _ _ \<Rightarrow> True | _ \<Rightarrow> False)"
| "values_have_compatible_types (JFloat _ _) b = (case b of JInt _ \<Rightarrow> True | JFloat _ _ \<Rightarrow> True | _ \<Rightarrow> False)"
| "values_have_compatible_types JNull b = (b = JNull)"
| "values_have_compatible_types (JStr _) b = (case b of JStr _ \<Rightarrow> True | _ \<Rightarrow> False)"
| "values_have_compatible_types (JArr _) b = (case b of JArr _ \<Rightarrow> True | _ \<Rightarrow> False)"
| "values_have_compatible_types (JObj _) b = (case b of JObj _ \<Rightarrow> True | _ \<Rightarrow> False)"

text \<open>\<open>actual > expected\<close> is \<open>expected < actual\<close>; an unordered pair raises TypeError.\<close>

definition ordered :: "bool option \<Rightarrow> exn + bool" where
  "ordered r = (case r of None \<Rightarrow> Inl TypeError | Some b \<Rightarrow> Inr b)"

definition evaluate_operator :: "string \<Rightarrow> json \<Rightarrow> json \<Rightarrow> exn + bool" where
  "evaluate_operator operator actual expected =
     (if \<not> values_have_compatible_types actual expected then Inl TypeError
      else if operator = ''greater_than'' then ordered (py_less expected actual)
      else if operator = ''less_than'' then ordered (py_less actual expected)
      else if operator = ''equals'' then Inr (py_eq actual expected)
      else if operator = ''not_equals'' then Inr (\<not> py_eq actual expected)
      else Inr False)"

section \<open>Evaluation\<close>

text \<open>One condition: \<open>context.get(field)\<close> yields None for an absent and for a null field.\<close>

definition check_condition :: "string \<Rightarrow> context_object \<Rightarrow> policy_condition \<Rightarrow> exn + condition_evidence" where
  "check_condition pid ctx c =
     (case map_of ctx (pc_field c) of
        None \<Rightarrow> Inl (MissingPolicyContext (pc_field c) pid)
      | Some actual \<Rightarrow>
          if actual = JNull then Inl (MissingPolicyContext (pc_field c) pid)
          else (case evaluate_operator (operator_text (pc_operator c)) actual (pc_value c) of
             Inl _ \<Rightarrow> Inl (InvalidPolicyContext (pc_field c) (operator_text (pc_operator c)))
           | Inr matches \<Rightarrow> Inr \<lparr>ce_field = pc_field c, ce_operator = pc_operator c,
               ce_actual = actual, ce_expected = pc_value c, ce_matched = matches\<rparr>))"

definition policy_matches :: "condition_match \<Rightarrow> condition_evidence list \<Rightarrow> bool" where
  "policy_matches m evidence =
     (case m of Match_all \<Rightarrow> list_all ce_matched evidence | Match_any \<Rightarrow> list_ex ce_matched evidence)"

text \<open>One turn of the loop over the applicable policies.\<close>

definition evaluate_one :: "context_object \<Rightarrow> policy \<Rightarrow> policy_evaluation \<Rightarrow> exn + policy_evaluation" where
  "evaluate_one ctx p s = bindE (mapE (check_condition (p_id p) ctx) (p_conditions p)) (\<lambda>evidence.
     let matches = policy_matches (p_match p) evidence;
         pe = \<lparr>pe_match = p_match p, pe_conditions = evidence\<rparr>;
         s' = s\<lparr>ev_trace := ev_trace s @ [\<lparr>te_policy = p_id p, te_version = p_version p,
           te_decision = p_decision p, te_reason = p_reason p, te_matched = matches,
           te_evidence = pe\<rparr>]\<rparr>
     in if \<not> matches then Inr s'
        else if DECISION_PRIORITY (p_decision p) > DECISION_PRIORITY (ev_decision s')
        then Inr (s'\<lparr>ev_decision := p_decision p, ev_policy := Some (p_id p),
          ev_version := Some (p_version p), ev_reason := p_reason p, ev_evidence := Some pe\<rparr>)
        else Inr s')"

definition initial_evaluation :: policy_evaluation where
  "initial_evaluation = \<lparr>ev_decision = ALLOW, ev_policy = None, ev_version = None,
     ev_reason = ''No policy required approval or denial.'', ev_evidence = None, ev_trace = []\<rparr>"

definition uncovered_evaluation :: "string \<Rightarrow> policy_evaluation" where
  "uncovered_evaluation action = \<lparr>ev_decision = DENY, ev_policy = None, ev_version = None,
     ev_reason = ''Action '' @ [CHR 0x27] @ action @ [CHR 0x27]
       @ '' is not covered by an active policy.'', ev_evidence = None, ev_trace = []\<rparr>"

definition evaluate_policy :: "string \<Rightarrow> context_object \<Rightarrow> policy list \<Rightarrow> exn + policy_evaluation" where
  "evaluate_policy action ctx policies =
     (let applicable = filter (\<lambda>p. p_action p = action) policies
      in if applicable = [] then Inr (uncovered_evaluation action)
         else foldE (evaluate_one ctx) applicable initial_evaluation)"

section \<open>What the loop computes\<close>

text \<open>
  The reading of one policy on its own: whether every field it reads is usable, the evidence
  it leaves, whether it matches.
\<close>

definition evidence_of :: "context_object \<Rightarrow> policy \<Rightarrow> exn + condition_evidence list" where
  "evidence_of ctx p = mapE (check_condition (p_id p) ctx) (p_conditions p)"

definition usable :: "context_object \<Rightarrow> policy \<Rightarrow> bool" where
  "usable ctx p \<longleftrightarrow> (\<forall>c \<in> set (p_conditions p). \<exists>v. map_of ctx (pc_field c) = Some v \<and> v \<noteq> JNull
     \<and> (\<exists>b. evaluate_operator (operator_text (pc_operator c)) v (pc_value c) = Inr b))"

definition matching :: "context_object \<Rightarrow> policy \<Rightarrow> bool" where
  "matching ctx p = (case evidence_of ctx p of Inl _ \<Rightarrow> False | Inr es \<Rightarrow> policy_matches (p_match p) es)"

definition trace_of :: "context_object \<Rightarrow> policy \<Rightarrow> trace_entry" where
  "trace_of ctx p = \<lparr>te_policy = p_id p, te_version = p_version p, te_decision = p_decision p,
     te_reason = p_reason p, te_matched = matching ctx p,
     te_evidence = \<lparr>pe_match = p_match p,
       pe_conditions = (case evidence_of ctx p of Inl _ \<Rightarrow> [] | Inr es \<Rightarrow> es)\<rparr>\<rparr>"

text \<open>
  The specification of the outcome: among the matching policies, the first one of the greatest
  decision, when that decision is above \<open>ALLOW\<close>.
\<close>

definition winner :: "policy list \<Rightarrow> policy option" where
  "winner ps = find_row (\<lambda>p. p_decision p \<noteq> ALLOW \<and> (\<forall>q \<in> set ps. p_decision q \<le> p_decision p)) ps"

definition reports :: "context_object \<Rightarrow> policy option \<Rightarrow> policy_evaluation \<Rightarrow> bool" where
  "reports ctx w ev = (case w of
     None \<Rightarrow> ev_decision ev = ALLOW \<and> ev_policy ev = None \<and> ev_version ev = None
       \<and> ev_reason ev = ev_reason initial_evaluation \<and> ev_evidence ev = None
   | Some p \<Rightarrow> ev_decision ev = p_decision p \<and> ev_policy ev = Some (p_id p)
       \<and> ev_version ev = Some (p_version p) \<and> ev_reason ev = p_reason p
       \<and> ev_evidence ev = Some (te_evidence (trace_of ctx p)))"

lemma check_condition_Inr:
  "check_condition pid ctx c = Inr e \<longleftrightarrow>
     (\<exists>v b. map_of ctx (pc_field c) = Some v \<and> v \<noteq> JNull
        \<and> evaluate_operator (operator_text (pc_operator c)) v (pc_value c) = Inr b
        \<and> e = \<lparr>ce_field = pc_field c, ce_operator = pc_operator c, ce_actual = v,
               ce_expected = pc_value c, ce_matched = b\<rparr>)"
  by (auto simp: check_condition_def split: option.splits sum.splits)

lemma usable_iff: "usable ctx p \<longleftrightarrow> (\<exists>es. evidence_of ctx p = Inr es)"
  by (auto simp: usable_def evidence_of_def mapE_total check_condition_Inr)

lemma evaluate_one_Inr:
  "evaluate_one ctx p s = Inr s' \<longleftrightarrow> usable ctx p \<and>
     s' = (let t = s\<lparr>ev_trace := ev_trace s @ [trace_of ctx p]\<rparr> in
       if matching ctx p \<and> ev_decision s < p_decision p
       then t\<lparr>ev_decision := p_decision p, ev_policy := Some (p_id p), ev_version := Some (p_version p),
          ev_reason := p_reason p, ev_evidence := Some (te_evidence (trace_of ctx p))\<rparr>
       else t)"
  unfolding usable_iff evaluate_one_def evidence_of_def [symmetric]
  by (cases "evidence_of ctx p") (auto simp: matching_def trace_of_def Let_def less_decision_def)

lemma evaluate_one_Inl:
  "evaluate_one ctx p s = Inl e \<longleftrightarrow> evidence_of ctx p = Inl e"
  unfolding evaluate_one_def evidence_of_def [symmetric]
  by (cases "evidence_of ctx p") (auto simp: Let_def)

lemma winner_Some: "winner ps = Some p \<Longrightarrow>
    p \<in> set ps \<and> p_decision p \<noteq> ALLOW \<and> (\<forall>q \<in> set ps. p_decision q \<le> p_decision p)"
  unfolding winner_def by (drule find_row_Some)

lemma winner_None: "winner ps = None \<longleftrightarrow> (\<forall>p \<in> set ps. p_decision p = ALLOW)"
proof
  assume none: "winner ps = None"
  show "\<forall>p \<in> set ps. p_decision p = ALLOW"
  proof (cases "ps = []")
    case False
    then have "Max (p_decision ` set ps) \<in> p_decision ` set ps" by (intro Max_in) auto
    then obtain m where m: "m \<in> set ps" "p_decision m = Max (p_decision ` set ps)" by auto
    then have max: "p_decision q \<le> p_decision m" if "q \<in> set ps" for q using that by simp
    with none m(1) have "p_decision m = ALLOW" by (auto simp: winner_def find_row_None)
    with max show ?thesis by (metis ALLOW_least order_antisym)
  qed simp
qed (auto simp: winner_def find_row_None)

text \<open>The running best decision of the loop.\<close>

definition best :: "policy list \<Rightarrow> decision" where
  "best ps = (case winner ps of None \<Rightarrow> ALLOW | Some q \<Rightarrow> p_decision q)"

lemma best_upper: "p \<in> set ps \<Longrightarrow> p_decision p \<le> best ps"
  by (auto simp: best_def winner_None dest: winner_Some split: option.splits)

lemma best_attained: "best ps = ALLOW \<or> (\<exists>p \<in> set ps. p_decision p = best ps)"
  by (auto simp: best_def dest: winner_Some split: option.splits)

lemma best_Max: "best ps = Max (insert ALLOW (p_decision ` set ps))"
proof (rule sym, rule Max_eqI)
  show "best ps \<in> insert ALLOW (p_decision ` set ps)" using best_attained [of ps] by force
qed (auto dest: best_upper)

lemma winner_snoc:
  "winner (ps @ [p]) = (if best ps < p_decision p then Some p else winner ps)"
proof (cases "best ps < p_decision p")
  case True
  then have "\<not> p_decision p \<le> p_decision r" if "r \<in> set ps" for r
    using best_upper [OF that] by auto
  moreover have "p_decision p \<noteq> ALLOW" using True ALLOW_least [of "best ps"] by (metis leD)
  moreover have "p_decision q \<le> p_decision p" if "q \<in> set ps" for q
    using best_upper [OF that] True by auto
  ultimately have "find_row (\<lambda>r. p_decision r \<noteq> ALLOW \<and> (\<forall>q \<in> set (ps @ [p]). p_decision q \<le> p_decision r)) ps = None"
    "p_decision p \<noteq> ALLOW \<and> (\<forall>q \<in> set (ps @ [p]). p_decision q \<le> p_decision p)"
    by (auto simp: find_row_None)
  with True show ?thesis unfolding winner_def by (simp add: find_row_append find_row_Cons)
next
  case False
  then have le: "p_decision p \<le> best ps" by simp
  show ?thesis
  proof (cases "winner ps")
    case None
    then have "p_decision p = ALLOW" using le by (simp add: best_def order_antisym)
    with None have "winner (ps @ [p]) = None" by (auto simp: winner_None)
    with False None show ?thesis by simp
  next
    case (Some w)
    have "find_row (\<lambda>r. p_decision r \<noteq> ALLOW \<and> (\<forall>q \<in> set (ps @ [p]). p_decision q \<le> p_decision r)) ps
        = winner ps"
      unfolding winner_def
    proof (rule find_row_cong)
      fix r assume "r \<in> set ps"
      have "p_decision p \<le> p_decision r" if "\<forall>q \<in> set ps. p_decision q \<le> p_decision r"
        using that winner_Some [OF Some] le Some by (auto simp: best_def)
      then show "(p_decision r \<noteq> ALLOW \<and> (\<forall>q \<in> set (ps @ [p]). p_decision q \<le> p_decision r))
          = (p_decision r \<noteq> ALLOW \<and> (\<forall>q \<in> set ps. p_decision q \<le> p_decision r))" by auto
    qed
    with Some False show ?thesis by (simp add: winner_def [of "ps @ [p]"] find_row_append)
  qed
qed

text \<open>The loop, from its start: what the accumulator holds after any prefix.\<close>

lemma evaluate_loop_reports:
  "foldE (evaluate_one ctx) ps initial_evaluation = Inr ev \<Longrightarrow>
     (\<forall>p \<in> set ps. usable ctx p) \<and> reports ctx (winner (filter (matching ctx) ps)) ev
       \<and> ev_trace ev = map (trace_of ctx) ps"
proof (induction ps arbitrary: ev rule: rev_induct)
  case Nil
  then show ?case by (auto simp: initial_evaluation_def reports_def winner_def)
next
  case (snoc p ps)
  let ?w = "winner (filter (matching ctx) ps)"
  from snoc.prems obtain s where s: "foldE (evaluate_one ctx) ps initial_evaluation = Inr s"
    and p: "evaluate_one ctx p s = Inr ev"
    by (auto simp: foldE_append bindE_Inr_iff)
  from snoc.IH [OF s] have IH: "\<forall>p \<in> set ps. usable ctx p" "reports ctx ?w s"
    "ev_trace s = map (trace_of ctx) ps" by auto
  have best: "ev_decision s = best (filter (matching ctx) ps)"
    using IH(2) by (auto simp: reports_def best_def split: option.splits)
  show ?case
  proof (cases "matching ctx p \<and> ev_decision s < p_decision p")
    case True
    with best have "winner (filter (matching ctx) (ps @ [p])) = Some p" by (simp add: winner_snoc)
    with True p IH show ?thesis by (auto simp: evaluate_one_Inr reports_def)
  next
    case False
    with best have "winner (filter (matching ctx) (ps @ [p])) = ?w" by (auto simp: winner_snoc)
    with False p IH show ?thesis
      by (auto simp: evaluate_one_Inr reports_def Let_def split: option.splits if_splits)
  qed
qed

lemma evaluate_loop_total:
  "(\<forall>p \<in> set ps. usable ctx p) \<Longrightarrow> \<exists>ev. foldE (evaluate_one ctx) ps s = Inr ev"
proof (induction ps arbitrary: s)
  case Nil
  then show ?case by simp
next
  case (Cons p ps)
  then obtain s' where "evaluate_one ctx p s = Inr s'" by (auto simp: evaluate_one_Inr)
  with Cons show ?case by simp
qed

text \<open>The loop fails with the error of the first policy that is not usable.\<close>

lemma evaluate_loop_error:
  "foldE (evaluate_one ctx) ps s = Inl e \<longleftrightarrow>
     (case find_row (\<lambda>p. \<not> usable ctx p) ps of None \<Rightarrow> False | Some p \<Rightarrow> evidence_of ctx p = Inl e)"
proof (induction ps arbitrary: s)
  case Nil
  then show ?case by simp
next
  case (Cons p ps)
  show ?case
  proof (cases "usable ctx p")
    case True
    then obtain s' where s': "evaluate_one ctx p s = Inr s'" by (auto simp: evaluate_one_Inr)
    with True Cons.IH [of s'] show ?thesis by (simp add: find_row_Cons)
  next
    case False
    then obtain e' where e': "evidence_of ctx p = Inl e'"
      by (auto simp: usable_iff) (metis sumE)
    with False evaluate_one_Inl [of ctx p s e'] show ?thesis by (auto simp: find_row_Cons)
  qed
qed

text \<open>The first failing condition of a policy gives its error.\<close>

lemma evidence_of_error:
  "evidence_of ctx p = Inl e \<longleftrightarrow>
     (case find_row (\<lambda>c. \<exists>x. check_condition (p_id p) ctx c = Inl x) (p_conditions p) of
        None \<Rightarrow> False | Some c \<Rightarrow> check_condition (p_id p) ctx c = Inl e)"
proof -
  have "mapE f cs = Inl e \<longleftrightarrow>
      (case find_row (\<lambda>c. \<exists>x. f c = Inl x) cs of None \<Rightarrow> False | Some c \<Rightarrow> f c = Inl e)"
    for f :: "policy_condition \<Rightarrow> exn + condition_evidence" and cs
  proof (induction cs)
    case Nil
    then show ?case by simp
  next
    case (Cons c cs)
    then show ?case by (cases "f c") (auto simp: find_row_Cons bindE_Inl_iff)
  qed
  then show ?thesis by (simp add: evidence_of_def)
qed

lemma check_condition_error:
  "check_condition pid ctx c = Inl e \<Longrightarrow>
     e = MissingPolicyContext (pc_field c) pid \<and> map_of ctx (pc_field c) \<in> {None, Some JNull}
   \<or> e = InvalidPolicyContext (pc_field c) (operator_text (pc_operator c))
     \<and> (\<exists>v. map_of ctx (pc_field c) = Some v \<and> v \<noteq> JNull)"
  by (auto simp: check_condition_def split: option.splits sum.splits if_splits)

text \<open>The decision of a policy set, and what adding policies does to it.\<close>

lemma reports_decision: "reports ctx (winner ps) ev \<Longrightarrow> ev_decision ev = best ps"
  by (auto simp: reports_def best_def split: option.splits)

lemma evaluate_policy_covered:
  assumes "evaluate_policy action ctx ps = Inr ev"
    and "filter (\<lambda>p. p_action p = action) ps \<noteq> []"
  shows "(\<forall>p \<in> set ps. p_action p = action \<longrightarrow> usable ctx p)"
    and "reports ctx (winner (filter (matching ctx) (filter (\<lambda>p. p_action p = action) ps))) ev"
    and "ev_trace ev = map (trace_of ctx) (filter (\<lambda>p. p_action p = action) ps)"
  using assms evaluate_loop_reports [of ctx "filter (\<lambda>p. p_action p = action) ps" ev]
  by (auto simp: evaluate_policy_def Let_def)

lemma best_mono: "set ps \<subseteq> set qs \<Longrightarrow> best ps \<le> best qs"
  by (metis ALLOW_least best_attained best_upper subsetD)

section \<open>Properties\<close>

text \<open>C4: a successful evaluation of an action no active policy covers is the DENY with an empty
  trace; of a covered action it reports the first matching policy of the greatest decision (DENY
  over REQUIRE_APPROVAL over ALLOW) with that policy's id, version, reason and evidence, or ALLOW
  when no matching policy restricts, its decision is the maximum over the matching policies, and
  the trace has one entry per applicable policy, in order, matched or not.\<close>

theorem evaluate_policy_outcome:
  assumes "evaluate_policy action ctx policies = Inr ev"
  defines "applicable \<equiv> filter (\<lambda>p. p_action p = action) policies"
  shows "if applicable = [] then ev = uncovered_evaluation action
    else reports ctx (winner (filter (matching ctx) applicable)) ev
      \<and> ev_decision ev = Max (insert ALLOW (p_decision ` {p \<in> set applicable. matching ctx p}))
      \<and> ev_trace ev = map (trace_of ctx) applicable"
proof (cases "applicable = []")
  case True
  with assms show ?thesis by (simp add: evaluate_policy_def Let_def)
next
  case False
  then have ne: "filter (\<lambda>p. p_action p = action) policies \<noteq> []" by (simp add: applicable_def)
  note cov = evaluate_policy_covered [OF assms(1) ne, folded applicable_def]
  from reports_decision [OF cov(2)] cov False show ?thesis by (simp add: best_Max)
qed

definition transfer_policy :: policy where
  "transfer_policy = \<lparr>p_id = ''large-transfer'', p_version = 1, p_action = ''bank_transfer'',
     p_match = Match_all, p_conditions = [\<lparr>pc_field = ''amount'', pc_operator = Greater_than,
       pc_value = JInt 10000\<rparr>], p_decision = REQUIRE_APPROVAL, p_reason = ''large''\<rparr>"

theorem evaluate_policy_outcome_witness:
  "\<exists>ev. evaluate_policy ''bank_transfer'' [(''amount'', JInt 25000)] [transfer_policy] = Inr ev
     \<and> ev_decision ev = Max (insert ALLOW (p_decision ` {p \<in> set [transfer_policy].
           matching [(''amount'', JInt 25000)] p}))"
proof -
  have "\<exists>ev. evaluate_policy ''bank_transfer'' [(''amount'', JInt 25000)] [transfer_policy] = Inr ev"
    by (simp add: evaluate_policy_def transfer_policy_def evaluate_one_def check_condition_def
        evaluate_operator_def ordered_def num_less_def num_scale_def policy_matches_def Let_def
        initial_evaluation_def)
  then obtain ev where ev: "evaluate_policy ''bank_transfer'' [(''amount'', JInt 25000)] [transfer_policy] = Inr ev"
    by blast
  from evaluate_policy_outcome [OF ev] ev show ?thesis by (auto simp: transfer_policy_def)
qed

text \<open>C5: evaluation fails on a covered action exactly when some applicable policy reads a context
  field that is absent, null or incompatible with the condition, and the error is the one of the
  first such condition of the first such policy; nothing is evaluated to a decision then.\<close>

theorem evaluate_policy_error:
  "evaluate_policy action ctx policies = Inl e \<longleftrightarrow>
     (case find_row (\<lambda>p. \<not> usable ctx p) (filter (\<lambda>p. p_action p = action) policies) of
        None \<Rightarrow> False
      | Some p \<Rightarrow> (case find_row (\<lambda>c. \<exists>x. check_condition (p_id p) ctx c = Inl x) (p_conditions p) of
          None \<Rightarrow> False
        | Some c \<Rightarrow> (if map_of ctx (pc_field c) \<in> {None, Some JNull}
             then e = MissingPolicyContext (pc_field c) (p_id p)
             else e = InvalidPolicyContext (pc_field c) (operator_text (pc_operator c)))))"
proof -
  have cond: "check_condition pid ctx c = Inl e \<longleftrightarrow> (if map_of ctx (pc_field c) \<in> {None, Some JNull}
       then e = MissingPolicyContext (pc_field c) pid
       else e = InvalidPolicyContext (pc_field c) (operator_text (pc_operator c)))"
    if "\<exists>x. check_condition pid ctx c = Inl x" for pid c
    using that by (auto simp: check_condition_def split: option.splits sum.splits)
  have pol: "evidence_of ctx p = Inl e \<longleftrightarrow>
      (case find_row (\<lambda>c. \<exists>x. check_condition (p_id p) ctx c = Inl x) (p_conditions p) of
          None \<Rightarrow> False
        | Some c \<Rightarrow> (if map_of ctx (pc_field c) \<in> {None, Some JNull}
             then e = MissingPolicyContext (pc_field c) (p_id p)
             else e = InvalidPolicyContext (pc_field c) (operator_text (pc_operator c))))" for p
  proof (cases "find_row (\<lambda>c. \<exists>x. check_condition (p_id p) ctx c = Inl x) (p_conditions p)")
    case None
    then show ?thesis by (simp add: evidence_of_error)
  next
    case (Some c)
    then have "\<exists>x. check_condition (p_id p) ctx c = Inl x" using find_row_Some by fast
    from cond [OF this] Some show ?thesis by (simp only: evidence_of_error option.case)
  qed
  show ?thesis
  proof (cases "filter (\<lambda>p. p_action p = action) policies = []")
    case True
    then show ?thesis by (simp add: evaluate_policy_def Let_def)
  next
    case False
    then show ?thesis by (simp only: evaluate_policy_def Let_def if_False evaluate_loop_error pol)
  qed
qed

text \<open>adding policies never weakens a decision: if an action covered by one policy set is
  evaluated under a set that contains it, the second decision is at least the first in the order
  ALLOW, REQUIRE_APPROVAL, DENY. In particular the decision does not depend on the order of the
  policies.\<close>

theorem evaluate_policy_monotone:
  assumes "evaluate_policy action ctx ps = Inr ev" and "evaluate_policy action ctx qs = Inr ev'"
    and "set ps \<subseteq> set qs" and "p \<in> set ps" and "p_action p = action"
  shows "ev_decision ev \<le> ev_decision ev'"
proof -
  let ?f = "filter (\<lambda>p. p_action p = action)"
  have "?f ps \<noteq> []" "?f qs \<noteq> []" using assms(3-5) by (auto simp: filter_empty_conv)
  from reports_decision [OF evaluate_policy_covered(2) [OF assms(1) this(1)]]
    reports_decision [OF evaluate_policy_covered(2) [OF assms(2) this(2)]]
  have dec: "ev_decision ev = best (filter (matching ctx) (?f ps))"
    "ev_decision ev' = best (filter (matching ctx) (?f qs))" by auto
  show ?thesis unfolding dec by (rule best_mono) (use assms(3) in auto)
qed

theorem evaluate_policy_monotone_witness:
  "\<exists>ev. evaluate_policy ''bank_transfer'' [(''amount'', JInt 5)] [transfer_policy] = Inr ev
     \<and> ev_decision ev \<le> ev_decision ev"
proof -
  have "\<exists>ev. evaluate_policy ''bank_transfer'' [(''amount'', JInt 5)] [transfer_policy] = Inr ev"
    by (simp add: evaluate_policy_def transfer_policy_def evaluate_one_def check_condition_def
        evaluate_operator_def ordered_def num_less_def num_scale_def policy_matches_def Let_def
        initial_evaluation_def)
  then obtain ev where ev: "evaluate_policy ''bank_transfer'' [(''amount'', JInt 5)] [transfer_policy] = Inr ev"
    by blast
  from evaluate_policy_monotone [OF ev ev, of transfer_policy] ev show ?thesis
    by (auto simp: transfer_policy_def)
qed

end
