(* ===== verification/Domain.thy ===== *)
theory Domain
  imports Policy_Engine
begin

text \<open>
  The data of the service: the Pydantic models of \<open>app/*_models.py\<close> as records, their JSON
  form (\<open>model_dump(mode="json")\<close>), and the database, one list of rows per table of
  \<open>app/storage/database.py\<close>. Rows that only restate a model are kept as that model.
  What lies outside the repository is gathered in the record \<open>externals\<close>.
\<close>

section \<open>Enumerations\<close>

datatype project_status = Project_ACTIVE | Project_DISABLED

datatype api_key_role = RUNTIME | REVIEWER

datatype approval_status = Approval_PENDING | Approval_APPROVED | Approval_REJECTED | Approval_EXPIRED

datatype grant_status = Grant_ACTIVE | Grant_CONSUMED | Grant_EXPIRED

datatype policy_change = Change_CREATED | Change_UPDATED | Change_ROLLBACK | Change_MIGRATED

datatype subscription_status = Subscription_ACTIVE | Subscription_DISABLED

datatype delivery_status =
  D_PENDING | D_PROCESSING | D_RETRY_SCHEDULED | D_DELIVERED | D_DEAD_LETTER | D_CANCELLED

datatype delivery_outcome = SUCCESS | HTTP_ERROR | NETWORK_ERROR

datatype actor_type = ADMIN | PROJECT | SYSTEM

datatype (plugins only: code size) audit_action =
    PROJECT_CREATED | PROJECT_STATUS_CHANGED | API_KEY_CREATED | API_KEY_REVOKED
  | POLICY_CREATED | POLICY_UPDATED | POLICY_DISABLED | POLICY_ROLLED_BACK
  | APPROVAL_RESOLVED | APPROVAL_EXPIRED
  | EXECUTION_GRANT_ISSUED | EXECUTION_GRANT_CONSUMED | EXECUTION_GRANT_EXPIRED
  | WEBHOOK_SUBSCRIPTION_CREATED | WEBHOOK_SUBSCRIPTION_DISABLED
  | WEBHOOK_SECRET_ROTATED | WEBHOOK_REDELIVERY_REQUESTED

datatype (plugins only: code size) resource_type =
    R_AUTHORIZATION_DECISION | R_APPROVAL | R_EXECUTION_GRANT | R_PROJECT | R_API_KEY | R_POLICY
  | R_WEBHOOK_SUBSCRIPTION | R_WEBHOOK_DELIVERY

datatype (plugins only: code size) event_type =
    E_authorization_created | E_approval_requested | E_approval_resolved | E_approval_expired
  | E_execution_grant_issued | E_execution_grant_consumed | E_execution_grant_expired
  | E_project_created | E_project_status_changed | E_api_key_created | E_api_key_revoked
  | E_policy_created | E_policy_updated | E_policy_disabled | E_policy_rolled_back
  | E_subscription_created | E_subscription_disabled | E_secret_rotated | E_redelivery_requested

datatype event_selector = Any_event | Only_event event_type

fun decision_text :: "decision \<Rightarrow> string" where
  "decision_text ALLOW = ''ALLOW''"
| "decision_text REQUIRE_APPROVAL = ''REQUIRE_APPROVAL''"
| "decision_text DENY = ''DENY''"

fun match_text :: "condition_match \<Rightarrow> string" where
  "match_text Match_all = ''all''"
| "match_text Match_any = ''any''"

fun project_status_text :: "project_status \<Rightarrow> string" where
  "project_status_text Project_ACTIVE = ''ACTIVE''"
| "project_status_text Project_DISABLED = ''DISABLED''"

fun role_text :: "api_key_role \<Rightarrow> string" where
  "role_text RUNTIME = ''RUNTIME''"
| "role_text REVIEWER = ''REVIEWER''"

fun approval_status_text :: "approval_status \<Rightarrow> string" where
  "approval_status_text Approval_PENDING = ''PENDING''"
| "approval_status_text Approval_APPROVED = ''APPROVED''"
| "approval_status_text Approval_REJECTED = ''REJECTED''"
| "approval_status_text Approval_EXPIRED = ''EXPIRED''"

fun grant_status_text :: "grant_status \<Rightarrow> string" where
  "grant_status_text Grant_ACTIVE = ''ACTIVE''"
| "grant_status_text Grant_CONSUMED = ''CONSUMED''"
| "grant_status_text Grant_EXPIRED = ''EXPIRED''"

fun subscription_status_text :: "subscription_status \<Rightarrow> string" where
  "subscription_status_text Subscription_ACTIVE = ''ACTIVE''"
| "subscription_status_text Subscription_DISABLED = ''DISABLED''"

fun delivery_status_text :: "delivery_status \<Rightarrow> string" where
  "delivery_status_text D_PENDING = ''PENDING''"
| "delivery_status_text D_PROCESSING = ''PROCESSING''"
| "delivery_status_text D_RETRY_SCHEDULED = ''RETRY_SCHEDULED''"
| "delivery_status_text D_DELIVERED = ''DELIVERED''"
| "delivery_status_text D_DEAD_LETTER = ''DEAD_LETTER''"
| "delivery_status_text D_CANCELLED = ''CANCELLED''"

fun actor_text :: "actor_type \<Rightarrow> string" where
  "actor_text ADMIN = ''ADMIN''"
| "actor_text PROJECT = ''PROJECT''"
| "actor_text SYSTEM = ''SYSTEM''"

fun action_text :: "audit_action \<Rightarrow> string" where
  "action_text PROJECT_CREATED = ''PROJECT_CREATED''"
| "action_text PROJECT_STATUS_CHANGED = ''PROJECT_STATUS_CHANGED''"
| "action_text API_KEY_CREATED = ''API_KEY_CREATED''"
| "action_text API_KEY_REVOKED = ''API_KEY_REVOKED''"
| "action_text POLICY_CREATED = ''POLICY_CREATED''"
| "action_text POLICY_UPDATED = ''POLICY_UPDATED''"
| "action_text POLICY_DISABLED = ''POLICY_DISABLED''"
| "action_text POLICY_ROLLED_BACK = ''POLICY_ROLLED_BACK''"
| "action_text APPROVAL_RESOLVED = ''APPROVAL_RESOLVED''"
| "action_text APPROVAL_EXPIRED = ''APPROVAL_EXPIRED''"
| "action_text EXECUTION_GRANT_ISSUED = ''EXECUTION_GRANT_ISSUED''"
| "action_text EXECUTION_GRANT_CONSUMED = ''EXECUTION_GRANT_CONSUMED''"
| "action_text EXECUTION_GRANT_EXPIRED = ''EXECUTION_GRANT_EXPIRED''"
| "action_text WEBHOOK_SUBSCRIPTION_CREATED = ''WEBHOOK_SUBSCRIPTION_CREATED''"
| "action_text WEBHOOK_SUBSCRIPTION_DISABLED = ''WEBHOOK_SUBSCRIPTION_DISABLED''"
| "action_text WEBHOOK_SECRET_ROTATED = ''WEBHOOK_SECRET_ROTATED''"
| "action_text WEBHOOK_REDELIVERY_REQUESTED = ''WEBHOOK_REDELIVERY_REQUESTED''"

fun resource_text :: "resource_type \<Rightarrow> string" where
  "resource_text R_AUTHORIZATION_DECISION = ''AUTHORIZATION_DECISION''"
| "resource_text R_APPROVAL = ''APPROVAL''"
| "resource_text R_EXECUTION_GRANT = ''EXECUTION_GRANT''"
| "resource_text R_PROJECT = ''PROJECT''"
| "resource_text R_API_KEY = ''API_KEY''"
| "resource_text R_POLICY = ''POLICY''"
| "resource_text R_WEBHOOK_SUBSCRIPTION = ''WEBHOOK_SUBSCRIPTION''"
| "resource_text R_WEBHOOK_DELIVERY = ''WEBHOOK_DELIVERY''"

fun event_text :: "event_type \<Rightarrow> string" where
  "event_text E_authorization_created = ''authorization.created''"
| "event_text E_approval_requested = ''approval.requested''"
| "event_text E_approval_resolved = ''approval.resolved''"
| "event_text E_approval_expired = ''approval.expired''"
| "event_text E_execution_grant_issued = ''execution_grant.issued''"
| "event_text E_execution_grant_consumed = ''execution_grant.consumed''"
| "event_text E_execution_grant_expired = ''execution_grant.expired''"
| "event_text E_project_created = ''project.created''"
| "event_text E_project_status_changed = ''project.status_changed''"
| "event_text E_api_key_created = ''api_key.created''"
| "event_text E_api_key_revoked = ''api_key.revoked''"
| "event_text E_policy_created = ''policy.created''"
| "event_text E_policy_updated = ''policy.updated''"
| "event_text E_policy_disabled = ''policy.disabled''"
| "event_text E_policy_rolled_back = ''policy.rolled_back''"
| "event_text E_subscription_created = ''webhook.subscription.created''"
| "event_text E_subscription_disabled = ''webhook.subscription.disabled''"
| "event_text E_secret_rotated = ''webhook.subscription.secret_rotated''"
| "event_text E_redelivery_requested = ''webhook.delivery.redelivery_requested''"

fun selector_text :: "event_selector \<Rightarrow> string" where
  "selector_text Any_event = ''*''"
| "selector_text (Only_event e) = event_text e"

section \<open>Models\<close>

record project =
  pr_id :: uuid
  pr_name :: string
  pr_status :: project_status
  pr_created_at :: instant
  pr_updated_at :: instant

record api_key =
  ak_id :: uuid
  ak_project :: uuid
  ak_prefix :: string
  ak_hash :: string
  ak_role :: api_key_role
  ak_created_at :: instant
  ak_revoked_at :: "instant option"

text \<open>\<open>ProjectApiKeyMetadata\<close>: the key without its verifier; and the principal of a request.\<close>

record api_key_metadata =
  km_id :: uuid
  km_project :: uuid
  km_prefix :: string
  km_role :: api_key_role
  km_created_at :: instant
  km_revoked_at :: "instant option"

record principal =
  pl_key :: uuid
  pl_role :: api_key_role
  pl_project :: project

record authorization_request =
  rq_agent :: string
  rq_action :: string
  rq_context :: context_object

record authorization =
  au_id :: uuid
  au_project :: uuid
  au_evaluated_at :: instant
  au_decision :: decision
  au_policy :: "string option"
  au_version :: "int option"
  au_reason :: string
  au_evidence :: "policy_evidence option"
  au_agent :: string
  au_action :: string
  au_context :: context_object
  au_trace :: "trace_entry list"

record integrity_proof =
  ip_decision :: uuid
  ip_project :: uuid
  ip_sequence :: int
  ip_previous :: "string option"
  ip_payload_hash :: string
  ip_record_hash :: string
  ip_algorithm :: string
  ip_schema :: int
  ip_created_at :: instant

record approval =
  ap_decision :: uuid
  ap_status :: approval_status
  ap_requested_at :: instant
  ap_expires_at :: "instant option"
  ap_resolved_at :: "instant option"
  ap_resolved_by :: "string option"

record grant_payload =
  gr_version :: int
  gr_id :: uuid
  gr_decision :: uuid
  gr_project :: uuid
  gr_fingerprint :: string
  gr_issued_at :: instant
  gr_expires_at :: instant

record grant = grant_payload +
  gr_status :: grant_status
  gr_token_hash :: string
  gr_consumed_at :: "instant option"
  gr_consumed_by :: "string option"

record idempotency_record =
  im_project :: uuid
  im_key :: string
  im_fingerprint :: string
  im_decision :: uuid
  im_created_at :: instant

record policy_configuration =
  pp_project :: uuid
  pp_policy :: policy
  pp_enabled :: bool
  pp_updated_at :: instant

record policy_version =
  pv_project :: uuid
  pv_policy :: policy
  pv_change :: policy_change
  pv_source :: "int option"
  pv_created_at :: instant

record audit_context =
  ac_type :: actor_type
  ac_actor :: string
  ac_reason :: "string option"

record audit_event =
  ae_id :: uuid
  ae_occurred_at :: instant
  ae_project :: uuid
  ae_actor_type :: actor_type
  ae_actor :: string
  ae_action :: audit_action
  ae_resource_type :: resource_type
  ae_resource :: string
  ae_reason :: "string option"
  ae_before :: "json option"
  ae_after :: "json option"
  ae_metadata :: "(string \<times> json) list"

record subscription =
  su_id :: uuid
  su_project :: uuid
  su_url :: string
  su_events :: "event_selector list"
  su_status :: subscription_status
  su_secret_version :: int
  su_created_at :: instant
  su_updated_at :: instant
  su_disabled_at :: "instant option"

record webhook_event =
  we_id :: uuid
  we_project :: uuid
  we_type :: event_type
  we_occurred_at :: instant
  we_resource_type :: resource_type
  we_resource :: string
  we_data :: "(string \<times> json) list"

record event_row =
  er_event :: webhook_event
  er_payload :: string

record delivery =
  de_id :: uuid
  de_event :: uuid
  de_subscription :: uuid
  de_project :: uuid
  de_status :: delivery_status
  de_attempts :: int
  de_failures :: int
  de_redeliveries :: int
  de_next_attempt :: "instant option"
  de_lease :: "instant option"
  de_delivered_at :: "instant option"
  de_last_attempt :: "instant option"
  de_last_code :: "int option"
  de_last_error :: "string option"
  de_created_at :: instant
  de_updated_at :: instant

record attempt =
  at_id :: uuid
  at_delivery :: uuid
  at_number :: int
  at_attempted_at :: instant
  at_completed_at :: instant
  at_outcome :: delivery_outcome
  at_code :: "int option"
  at_error :: "string option"

end
