(* ===== verification/Tables.thy ===== *)
theory Tables
  imports Errors
begin

text \<open>
  Guarded tables. SQLite runs the \<open>BEFORE UPDATE\<close> triggers and the \<open>CHECK\<close>
  constraints of a table on every row an \<open>UPDATE\<close> changes and raises IntegrityError when
  one refuses; \<open>update_table ok P f\<close> is \<open>UPDATE ... SET f WHERE P\<close> on a table whose
  triggers allow the changes in \<open>ok\<close>. The locale \<open>lifecycle\<close> states what the triggers
  of a lifecycle table promise (identity columns fixed, a terminal row never changed, a change
  ends in a terminal row) and derives what holds of the table over any sequence of inserts and
  updates.
\<close>

definition update_table ::
  "('r \<Rightarrow> 'r \<Rightarrow> bool) \<Rightarrow> ('r \<Rightarrow> bool) \<Rightarrow> ('r \<Rightarrow> 'r) \<Rightarrow> 'r list \<Rightarrow> exn + 'r list" where
  "update_table ok P f rows =
     (if list_all (\<lambda>r. P r \<longrightarrow> ok r (f r)) rows then Inr (update_rows P f rows) else Inl IntegrityError)"

text \<open>\<open>cursor.rowcount\<close> of that statement.\<close>

definition row_count :: "('r \<Rightarrow> bool) \<Rightarrow> 'r list \<Rightarrow> nat" where
  "row_count P rows = length (filter P rows)"

lemma row_count_0: "row_count P rows = 0 \<longleftrightarrow> find_row P rows = None"
  by (auto simp: row_count_def find_row_None filter_empty_conv)

lemma update_table_Inr:
  "update_table ok P f rows = Inr rows' \<longleftrightarrow>
     (\<forall>r \<in> set rows. P r \<longrightarrow> ok r (f r)) \<and> rows' = update_rows P f rows"
  by (auto simp: update_table_def list_all_iff)

lemma update_table_Inl:
  "update_table ok P f rows = Inl e \<Longrightarrow> e = IntegrityError"
  by (auto simp: update_table_def split: if_splits)

text \<open>
  \<open>evolved ok rows rows'\<close>: the old rows are still there, in their places, each untouched or
  changed once as \<open>ok\<close> allows, and new rows follow.
\<close>

definition evolved :: "('r \<Rightarrow> 'r \<Rightarrow> bool) \<Rightarrow> 'r list \<Rightarrow> 'r list \<Rightarrow> bool" where
  "evolved ok rows rows' \<longleftrightarrow>
     length rows \<le> length rows' \<and> (\<forall>i < length rows. rows' ! i = rows ! i \<or> ok (rows ! i) (rows' ! i))"

lemma evolved_refl [simp]: "evolved ok rows rows"
  by (simp add: evolved_def)

lemma evolved_append: "evolved ok rows (rows @ new)"
  by (simp add: evolved_def nth_append)

lemma evolved_update:
  "update_table ok P f rows = Inr rows' \<Longrightarrow> evolved ok rows rows'"
  by (auto simp: update_table_Inr evolved_def update_rows_def)

locale lifecycle =
  fixes ok :: "'r \<Rightarrow> 'r \<Rightarrow> bool"
    and key :: "'r \<Rightarrow> 'k"
    and terminal :: "'r \<Rightarrow> bool"
  assumes keeps_key: "ok r r' \<Longrightarrow> key r' = key r"
    and only_live: "ok r r' \<Longrightarrow> \<not> terminal r"
    and ends_terminal: "ok r r' \<Longrightarrow> terminal r'"
begin

lemma evolved_trans:
  assumes "evolved ok a b" and "evolved ok b c"
  shows "evolved ok a c"
proof -
  have "c ! i = a ! i \<or> ok (a ! i) (c ! i)" if i: "i < length a" for i
  proof -
    from i assms have "b ! i = a ! i \<or> ok (a ! i) (b ! i)" "c ! i = b ! i \<or> ok (b ! i) (c ! i)"
      by (auto simp: evolved_def)
    then show ?thesis using only_live ends_terminal by metis
  qed
  with assms show ?thesis by (auto simp: evolved_def)
qed

lemma terminal_persists:
  assumes "evolved ok rows rows'" and "r \<in> set rows" and "terminal r"
  shows "r \<in> set rows'"
proof -
  from assms(2) obtain i where i: "i < length rows" "rows ! i = r" by (auto simp: in_set_conv_nth)
  with assms(1,3) have "rows' ! i = r" using only_live by (auto simp: evolved_def)
  with i assms(1) show ?thesis by (auto simp: evolved_def in_set_conv_nth intro!: exI [of _ i])
qed

lemma row_persists:
  assumes "evolved ok rows rows'" and "r \<in> set rows"
  shows "\<exists>r' \<in> set rows'. key r' = key r \<and> (r' = r \<or> ok r r')"
proof -
  from assms(2) obtain i where i: "i < length rows" "rows ! i = r" by (auto simp: in_set_conv_nth)
  with assms(1) have "rows' ! i = r \<or> ok r (rows' ! i)" "rows' ! i \<in> set rows'"
    by (auto simp: evolved_def)
  then show ?thesis using keeps_key by (intro bexI [of _ "rows' ! i"]) auto
qed

lemma update_keys:
  "update_table ok P f rows = Inr rows' \<Longrightarrow> map key rows' = map key rows"
  by (auto simp: update_table_Inr update_rows_def keeps_key)

lemma lookup_terminal:
  assumes "evolved ok rows rows'" and "distinct (map key rows')"
    and "r \<in> set rows" and "terminal r"
  shows "find_row (\<lambda>s. key s = key r) rows' = Some r"
  by (rule find_row_unique [OF assms(2) terminal_persists [OF assms(1,3,4)]]) auto

end

text \<open>
  An append-only table is the lifecycle in which every row is terminal: its triggers refuse
  every update.
\<close>

definition no_update :: "'r \<Rightarrow> 'r \<Rightarrow> bool" where
  "no_update r r' = False"

interpretation append_only: lifecycle no_update "\<lambda>r. r" "\<lambda>r. True"
  by unfold_locales (simp_all add: no_update_def)

lemma evolved_no_update: "evolved no_update rows rows' \<longleftrightarrow> (\<exists>new. rows' = rows @ new)"
proof
  assume ev: "evolved no_update rows rows'"
  have "take (length rows) rows' = rows"
    using ev by (intro nth_equalityI) (auto simp: evolved_def no_update_def)
  then show "\<exists>new. rows' = rows @ new" by (metis append_take_drop_id)
qed (auto simp: evolved_append)

end
