(* ===== verification/Database.thy ===== *)
theory Database
  imports Domain Tables
begin

text \<open>
  The database of \<open>app/storage/database.py\<close>: one list of rows per table, with the primary
  keys, unique columns, foreign keys, \<open>CHECK\<close> constraints and triggers of the schema as the
  conditions under which an insert or an update is accepted. \<open>t_uuids\<close> is not a table: it is
  the sequence of values \<open>uuid4()\<close> will return, so that every random identifier is arbitrary
  but explicit. Columns stored as JSON text keep the value.
\<close>

record db =
  t_projects :: "project list"
  t_api_keys :: "api_key list"
  t_decisions :: "authorization list"
  t_integrity :: "integrity_proof list"
  t_approvals :: "approval list"
  t_grants :: "grant list"
  t_idempotency :: "idempotency_record list"
  t_policies :: "policy_configuration list"
  t_versions :: "policy_version list"
  t_audit :: "audit_event list"
  t_subscriptions :: "subscription list"
  t_events :: "event_row list"
  t_deliveries :: "delivery list"
  t_attempts :: "attempt list"
  t_uuids :: "nat \<Rightarrow> uuid"

definition empty_db :: "(nat \<Rightarrow> uuid) \<Rightarrow> db" where
  "empty_db uuids = \<lparr>t_projects = [], t_api_keys = [], t_decisions = [], t_integrity = [],
     t_approvals = [], t_grants = [], t_idempotency = [], t_policies = [], t_versions = [],
     t_audit = [], t_subscriptions = [], t_events = [], t_deliveries = [], t_attempts = [],
     t_uuids = uuids\<rparr>"

definition uuid4 :: "db \<Rightarrow> uuid \<times> db" where
  "uuid4 d = (t_uuids d 0, d\<lparr>t_uuids := (\<lambda>n. t_uuids d (Suc n))\<rparr>)"

section \<open>Transactions\<close>

text \<open>
  \<open>with self.database.connect() as connection:\<close> commits when its block ends and rolls back
  when it raises. A block is a function from the database to an exception or a value and the new
  database; a store operation, one or more blocks in a row, always has a resulting database.
\<close>

type_synonym 'a block = "db \<Rightarrow> exn + 'a \<times> db"
type_synonym 'a operation = "db \<Rightarrow> (exn + 'a) \<times> db"

definition transaction :: "'a block \<Rightarrow> 'a operation" where
  "transaction b d = (case b d of Inl e \<Rightarrow> (Inl e, d) | Inr (x, d') \<Rightarrow> (Inr x, d'))"

definition andThen :: "'a operation \<Rightarrow> ('a \<Rightarrow> 'b operation) \<Rightarrow> 'b operation" where
  "andThen m f d = (case m d of (Inl e, d') \<Rightarrow> (Inl e, d') | (Inr x, d') \<Rightarrow> f x d')"

definition raising :: "exn \<Rightarrow> 'a operation" where
  "raising e d = (Inl e, d)"

definition returning :: "'a \<Rightarrow> 'a operation" where
  "returning x d = (Inr x, d)"

section \<open>Constraints\<close>

text \<open>\<open>length(h) = 64 AND h NOT GLOB '*[^0-9a-f]*'\<close>.\<close>

definition is_sha256_text :: "string \<Rightarrow> bool" where
  "is_sha256_text h \<longleftrightarrow> length h = 64 \<and>
     list_all (\<lambda>c. 48 \<le> (of_char c :: nat) \<and> (of_char c :: nat) \<le> 57
       \<or> 97 \<le> (of_char c :: nat) \<and> (of_char c :: nat) \<le> 102) h"

definition project_exists :: "db \<Rightarrow> uuid \<Rightarrow> bool" where
  "project_exists d pid \<longleftrightarrow> list_ex (\<lambda>p. pr_id p = pid) (t_projects d)"

definition decision_exists :: "db \<Rightarrow> uuid \<Rightarrow> bool" where
  "decision_exists d did \<longleftrightarrow> list_ex (\<lambda>a. au_id a = did) (t_decisions d)"

definition project_row_ok :: "db \<Rightarrow> project \<Rightarrow> bool" where
  "project_row_ok d p \<longleftrightarrow> \<not> project_exists d (pr_id p)"

definition api_key_row_ok :: "db \<Rightarrow> api_key \<Rightarrow> bool" where
  "api_key_row_ok d k \<longleftrightarrow> project_exists d (ak_project k)
     \<and> list_all (\<lambda>j. ak_id j \<noteq> ak_id k \<and> ak_hash j \<noteq> ak_hash k \<and> ak_prefix j \<noteq> ak_prefix k) (t_api_keys d)"

definition decision_row_ok :: "db \<Rightarrow> authorization \<Rightarrow> bool" where
  "decision_row_ok d a \<longleftrightarrow> \<not> decision_exists d (au_id a)"

definition integrity_row_ok :: "db \<Rightarrow> integrity_proof \<Rightarrow> bool" where
  "integrity_row_ok d p \<longleftrightarrow>
     1 \<le> ip_sequence p \<and> is_sha256_text (ip_payload_hash p) \<and> is_sha256_text (ip_record_hash p)
     \<and> ip_algorithm p = ''SHA-256'' \<and> ip_schema p = 1
     \<and> list_all (\<lambda>q. ip_decision q \<noteq> ip_decision p \<and> ip_record_hash q \<noteq> ip_record_hash p
          \<and> \<not> (ip_project q = ip_project p \<and> ip_sequence q = ip_sequence p)) (t_integrity d)
     \<and> (case ip_previous p of None \<Rightarrow> ip_sequence p = 1
        | Some h \<Rightarrow> 1 < ip_sequence p \<and> is_sha256_text h)
     \<and> list_ex (\<lambda>a. au_id a = ip_decision p \<and> au_project a = ip_project p) (t_decisions d)"

definition approval_check :: "approval \<Rightarrow> bool" where
  "approval_check a \<longleftrightarrow>
     (if ap_status a = Approval_PENDING then ap_resolved_at a = None \<and> ap_resolved_by a = None
      else ap_resolved_at a \<noteq> None \<and> ap_resolved_by a \<noteq> None)
     \<and> (case ap_expires_at a of None \<Rightarrow> True | Some t \<Rightarrow> ap_requested_at a < t)"

definition approval_row_ok :: "db \<Rightarrow> approval \<Rightarrow> bool" where
  "approval_row_ok d a \<longleftrightarrow> decision_exists d (ap_decision a) \<and> approval_check a
     \<and> list_all (\<lambda>b. ap_decision b \<noteq> ap_decision a) (t_approvals d)"

text \<open>The trigger \<open>protect_approval_lifecycle\<close>, with the table's own CHECK.\<close>

definition approval_change_ok :: "approval \<Rightarrow> approval \<Rightarrow> bool" where
  "approval_change_ok old new \<longleftrightarrow>
     ap_decision new = ap_decision old \<and> ap_requested_at new = ap_requested_at old
     \<and> ap_expires_at new = ap_expires_at old \<and> ap_status old = Approval_PENDING
     \<and> ap_status new \<noteq> Approval_PENDING \<and> approval_check new"

text \<open>The trigger \<open>require_execution_grant_for_approval\<close>.\<close>

definition approval_grant_ok :: "grant list \<Rightarrow> approval \<Rightarrow> approval \<Rightarrow> bool" where
  "approval_grant_ok grants old new \<longleftrightarrow>
     (ap_status old = Approval_PENDING \<and> ap_status new = Approval_APPROVED \<longrightarrow>
        list_ex (\<lambda>g. gr_decision g = ap_decision new \<and> gr_status g = Grant_ACTIVE) grants)"

definition grant_check :: "grant \<Rightarrow> bool" where
  "grant_check g \<longleftrightarrow> is_sha256_text (gr_fingerprint g) \<and> is_sha256_text (gr_token_hash g)
     \<and> gr_issued_at g < gr_expires_at g
     \<and> (if gr_status g = Grant_CONSUMED then gr_consumed_at g \<noteq> None \<and> gr_consumed_by g \<noteq> None
        else gr_consumed_at g = None \<and> gr_consumed_by g = None)"

text \<open>The table constraints of a grant and the trigger \<open>enforce_execution_grant_scope\<close>.\<close>

definition grant_row_ok :: "db \<Rightarrow> grant \<Rightarrow> bool" where
  "grant_row_ok d g \<longleftrightarrow> grant_check g \<and> project_exists d (gr_project g)
     \<and> list_all (\<lambda>h. gr_id h \<noteq> gr_id g \<and> gr_decision h \<noteq> gr_decision g
          \<and> gr_token_hash h \<noteq> gr_token_hash g) (t_grants d)
     \<and> gr_status g = Grant_ACTIVE
     \<and> list_ex (\<lambda>a. au_id a = gr_decision g \<and> au_project a = gr_project g
          \<and> au_decision a = REQUIRE_APPROVAL) (t_decisions d)
     \<and> list_ex (\<lambda>a. ap_decision a = gr_decision g \<and> ap_status a = Approval_PENDING
          \<and> ap_requested_at a \<le> gr_issued_at g
          \<and> (case ap_expires_at a of None \<Rightarrow> True | Some t \<Rightarrow> gr_issued_at g < t)) (t_approvals d)"

text \<open>The trigger \<open>protect_execution_grant_lifecycle\<close>, with the table's own CHECK.\<close>

definition grant_change_ok :: "grant \<Rightarrow> grant \<Rightarrow> bool" where
  "grant_change_ok old new \<longleftrightarrow>
     gr_id new = gr_id old \<and> gr_decision new = gr_decision old \<and> gr_project new = gr_project old
     \<and> gr_fingerprint new = gr_fingerprint old \<and> gr_token_hash new = gr_token_hash old
     \<and> gr_issued_at new = gr_issued_at old \<and> gr_expires_at new = gr_expires_at old
     \<and> gr_status old = Grant_ACTIVE \<and> gr_status new \<noteq> Grant_ACTIVE \<and> grant_check new"

definition idempotency_row_ok :: "db \<Rightarrow> idempotency_record \<Rightarrow> bool" where
  "idempotency_row_ok d r \<longleftrightarrow> decision_exists d (im_decision r)
     \<and> list_all (\<lambda>s. im_decision s \<noteq> im_decision r
          \<and> \<not> (im_project s = im_project r \<and> im_key s = im_key r)) (t_idempotency d)"

definition policy_row_ok :: "db \<Rightarrow> policy_configuration \<Rightarrow> bool" where
  "policy_row_ok d c \<longleftrightarrow> project_exists d (pp_project c) \<and> 1 \<le> p_version (pp_policy c)
     \<and> list_all (\<lambda>b. \<not> (pp_project b = pp_project c \<and> p_id (pp_policy b) = p_id (pp_policy c))) (t_policies d)"

definition version_row_ok :: "db \<Rightarrow> policy_version \<Rightarrow> bool" where
  "version_row_ok d v \<longleftrightarrow> project_exists d (pv_project v) \<and> 1 \<le> p_version (pv_policy v)
     \<and> (pv_change v = Change_ROLLBACK \<longleftrightarrow> pv_source v \<noteq> None)
     \<and> list_all (\<lambda>w. \<not> (pv_project w = pv_project v \<and> p_id (pv_policy w) = p_id (pv_policy v)
          \<and> p_version (pv_policy w) = p_version (pv_policy v))) (t_versions d)"

definition audit_row_ok :: "db \<Rightarrow> audit_event \<Rightarrow> bool" where
  "audit_row_ok d e \<longleftrightarrow> project_exists d (ae_project e) \<and> list_all (\<lambda>f. ae_id f \<noteq> ae_id e) (t_audit d)"

definition subscription_check :: "subscription \<Rightarrow> bool" where
  "subscription_check s \<longleftrightarrow> 1 \<le> su_secret_version s
     \<and> (su_status s = Subscription_ACTIVE \<longleftrightarrow> su_disabled_at s = None)"

definition subscription_row_ok :: "db \<Rightarrow> subscription \<Rightarrow> bool" where
  "subscription_row_ok d s \<longleftrightarrow> project_exists d (su_project s) \<and> subscription_check s
     \<and> list_all (\<lambda>t. su_id t \<noteq> su_id s) (t_subscriptions d)"

text \<open>The trigger \<open>protect_webhook_subscription_identity\<close>, with the table's own CHECK.\<close>

definition subscription_change_ok :: "subscription \<Rightarrow> subscription \<Rightarrow> bool" where
  "subscription_change_ok old new \<longleftrightarrow>
     su_id new = su_id old \<and> su_project new = su_project old \<and> su_url new = su_url old
     \<and> su_events new = su_events old \<and> su_created_at new = su_created_at old \<and> subscription_check new"

definition event_row_ok :: "db \<Rightarrow> webhook_event \<Rightarrow> bool" where
  "event_row_ok d e \<longleftrightarrow> project_exists d (we_project e)
     \<and> list_all (\<lambda>r. we_id (er_event r) \<noteq> we_id e) (t_events d)"

definition status_code_ok :: "int option \<Rightarrow> bool" where
  "status_code_ok c \<longleftrightarrow> (case c of None \<Rightarrow> True | Some n \<Rightarrow> 100 \<le> n \<and> n \<le> 599)"

definition delivery_check :: "delivery \<Rightarrow> bool" where
  "delivery_check v \<longleftrightarrow> 0 \<le> de_attempts v \<and> 0 \<le> de_failures v \<and> 0 \<le> de_redeliveries v
     \<and> status_code_ok (de_last_code v)"

text \<open>The table constraints of a delivery and the trigger \<open>enforce_webhook_delivery_project\<close>.\<close>

definition delivery_row_ok :: "db \<Rightarrow> delivery \<Rightarrow> bool" where
  "delivery_row_ok d v \<longleftrightarrow> delivery_check v \<and> project_exists d (de_project v)
     \<and> list_all (\<lambda>w. de_id w \<noteq> de_id v
          \<and> \<not> (de_event w = de_event v \<and> de_subscription w = de_subscription v)) (t_deliveries d)
     \<and> list_ex (\<lambda>r. we_id (er_event r) = de_event v \<and> we_project (er_event r) = de_project v) (t_events d)
     \<and> list_ex (\<lambda>s. su_id s = de_subscription v \<and> su_project s = de_project v) (t_subscriptions d)"

text \<open>The trigger \<open>protect_webhook_delivery_identity\<close>, with the table's own CHECKs.\<close>

definition delivery_change_ok :: "delivery \<Rightarrow> delivery \<Rightarrow> bool" where
  "delivery_change_ok old new \<longleftrightarrow>
     de_id new = de_id old \<and> de_event new = de_event old \<and> de_subscription new = de_subscription old
     \<and> de_project new = de_project old \<and> de_created_at new = de_created_at old \<and> delivery_check new"

definition attempt_row_ok :: "db \<Rightarrow> attempt \<Rightarrow> bool" where
  "attempt_row_ok d a \<longleftrightarrow> 1 \<le> at_number a \<and> status_code_ok (at_code a)
     \<and> list_ex (\<lambda>v. de_id v = at_delivery a) (t_deliveries d)
     \<and> list_all (\<lambda>b. at_id b \<noteq> at_id a
          \<and> \<not> (at_delivery b = at_delivery a \<and> at_number b = at_number a)) (t_attempts d)"

end
