(* ===== verification/Storage.thy ===== *)
theory Storage
  imports Database
begin

text \<open>
  The \<open>INSERT\<close> statements of the repositories (\<open>app/storage/*.py\<close>) over the constraints
  of \<open>Database\<close>, and the two facts every statement of the service satisfies: the constraints
  keep the database well formed (\<open>db_ok\<close>: unique keys, valid references), and the database
  only evolves (\<open>db_evolved\<close>: append-only tables grow at the end, lifecycle rows change once
  and as their triggers allow, keys stay).
\<close>

section \<open>Insert statements\<close>

definition insert_project :: "project \<Rightarrow> db \<Rightarrow> exn + db" where
  "insert_project p d = (if project_row_ok d p
     then Inr (d\<lparr>t_projects := t_projects d @ [p]\<rparr>) else Inl IntegrityError)"

definition insert_api_key :: "api_key \<Rightarrow> db \<Rightarrow> exn + db" where
  "insert_api_key k d = (if api_key_row_ok d k
     then Inr (d\<lparr>t_api_keys := t_api_keys d @ [k]\<rparr>) else Inl IntegrityError)"

definition insert_decision :: "authorization \<Rightarrow> db \<Rightarrow> exn + db" where
  "insert_decision a d = (if decision_row_ok d a
     then Inr (d\<lparr>t_decisions := t_decisions d @ [a]\<rparr>) else Inl IntegrityError)"

definition insert_proof :: "integrity_proof \<Rightarrow> db \<Rightarrow> exn + db" where
  "insert_proof p d = (if integrity_row_ok d p
     then Inr (d\<lparr>t_integrity := t_integrity d @ [p]\<rparr>) else Inl IntegrityError)"

definition insert_approval :: "approval \<Rightarrow> db \<Rightarrow> exn + db" where
  "insert_approval a d = (if approval_row_ok d a
     then Inr (d\<lparr>t_approvals := t_approvals d @ [a]\<rparr>) else Inl IntegrityError)"

definition insert_grant :: "grant \<Rightarrow> db \<Rightarrow> exn + db" where
  "insert_grant g d = (if grant_row_ok d g
     then Inr (d\<lparr>t_grants := t_grants d @ [g]\<rparr>) else Inl IntegrityError)"

definition insert_idempotency :: "idempotency_record \<Rightarrow> db \<Rightarrow> exn + db" where
  "insert_idempotency r d = (if idempotency_row_ok d r
     then Inr (d\<lparr>t_idempotency := t_idempotency d @ [r]\<rparr>) else Inl IntegrityError)"

definition insert_policy_row :: "policy_configuration \<Rightarrow> db \<Rightarrow> exn + db" where
  "insert_policy_row c d = (if policy_row_ok d c
     then Inr (d\<lparr>t_policies := t_policies d @ [c]\<rparr>) else Inl IntegrityError)"

definition insert_version_row :: "policy_version \<Rightarrow> db \<Rightarrow> exn + db" where
  "insert_version_row v d = (if version_row_ok d v
     then Inr (d\<lparr>t_versions := t_versions d @ [v]\<rparr>) else Inl IntegrityError)"

definition insert_audit :: "audit_event \<Rightarrow> db \<Rightarrow> exn + db" where
  "insert_audit e d = (if audit_row_ok d e
     then Inr (d\<lparr>t_audit := t_audit d @ [e]\<rparr>) else Inl IntegrityError)"

definition insert_subscription :: "subscription \<Rightarrow> db \<Rightarrow> exn + db" where
  "insert_subscription s d = (if subscription_row_ok d s
     then Inr (d\<lparr>t_subscriptions := t_subscriptions d @ [s]\<rparr>) else Inl IntegrityError)"

definition insert_event :: "webhook_event \<Rightarrow> string \<Rightarrow> db \<Rightarrow> exn + db" where
  "insert_event e payload d = (if event_row_ok d e
     then Inr (d\<lparr>t_events := t_events d @ [\<lparr>er_event = e, er_payload = payload\<rparr>]\<rparr>)
     else Inl IntegrityError)"

definition insert_delivery :: "delivery \<Rightarrow> db \<Rightarrow> exn + db" where
  "insert_delivery v d = (if delivery_row_ok d v
     then Inr (d\<lparr>t_deliveries := t_deliveries d @ [v]\<rparr>) else Inl IntegrityError)"

definition insert_attempt :: "attempt \<Rightarrow> db \<Rightarrow> exn + db" where
  "insert_attempt a d = (if attempt_row_ok d a
     then Inr (d\<lparr>t_attempts := t_attempts d @ [a]\<rparr>) else Inl IntegrityError)"

lemmas insert_defs = insert_project_def insert_api_key_def insert_decision_def insert_proof_def
  insert_approval_def insert_grant_def insert_idempotency_def insert_policy_row_def
  insert_version_row_def insert_audit_def insert_subscription_def insert_event_def
  insert_delivery_def insert_attempt_def

text \<open>The \<open>UPDATE\<close> statements of each table, with the triggers it runs.\<close>

definition update_approvals :: "(approval \<Rightarrow> bool) \<Rightarrow> (approval \<Rightarrow> approval) \<Rightarrow> db \<Rightarrow> exn + db" where
  "update_approvals P f d =
     bindE (update_table (\<lambda>old new. approval_change_ok old new \<and> approval_grant_ok (t_grants d) old new)
       P f (t_approvals d)) (\<lambda>rows. Inr (d\<lparr>t_approvals := rows\<rparr>))"

definition update_grants :: "(grant \<Rightarrow> bool) \<Rightarrow> (grant \<Rightarrow> grant) \<Rightarrow> db \<Rightarrow> exn + db" where
  "update_grants P f d =
     bindE (update_table grant_change_ok P f (t_grants d)) (\<lambda>rows. Inr (d\<lparr>t_grants := rows\<rparr>))"

definition update_subscriptions :: "(subscription \<Rightarrow> bool) \<Rightarrow> (subscription \<Rightarrow> subscription) \<Rightarrow> db \<Rightarrow> exn + db" where
  "update_subscriptions P f d =
     bindE (update_table subscription_change_ok P f (t_subscriptions d))
       (\<lambda>rows. Inr (d\<lparr>t_subscriptions := rows\<rparr>))"

definition update_deliveries :: "(delivery \<Rightarrow> bool) \<Rightarrow> (delivery \<Rightarrow> delivery) \<Rightarrow> db \<Rightarrow> exn + db" where
  "update_deliveries P f d =
     bindE (update_table delivery_change_ok P f (t_deliveries d)) (\<lambda>rows. Inr (d\<lparr>t_deliveries := rows\<rparr>))"

section \<open>Lifecycles of the tables\<close>

interpretation approvals: lifecycle approval_change_ok ap_decision "\<lambda>a. ap_status a \<noteq> Approval_PENDING"
  by unfold_locales (simp_all add: approval_change_ok_def)

interpretation grants: lifecycle grant_change_ok gr_id "\<lambda>g. gr_status g \<noteq> Grant_ACTIVE"
  by unfold_locales (simp_all add: grant_change_ok_def)

text \<open>A key row changes at most once, by its revocation (\<open>COALESCE(revoked_at, ?)\<close>).\<close>

definition key_change_ok :: "api_key \<Rightarrow> api_key \<Rightarrow> bool" where
  "key_change_ok k k' \<longleftrightarrow> ak_revoked_at k = None \<and> (\<exists>t. k' = k\<lparr>ak_revoked_at := Some t\<rparr>)"

interpretation key_table: lifecycle key_change_ok ak_id "\<lambda>k. ak_revoked_at k \<noteq> None"
  by unfold_locales (auto simp: key_change_ok_def)

definition keys_kept :: "('r \<Rightarrow> 'k) \<Rightarrow> 'r list \<Rightarrow> 'r list \<Rightarrow> bool" where
  "keys_kept k rows rows' \<longleftrightarrow> (\<exists>new. map k rows' = map k rows @ new)"

lemma keys_kept_refl [simp]: "keys_kept k rows rows"
  by (simp add: keys_kept_def)

lemma keys_kept_append: "keys_kept k rows (rows @ new)"
  by (simp add: keys_kept_def)

lemma keys_kept_trans: "keys_kept k a b \<Longrightarrow> keys_kept k b c \<Longrightarrow> keys_kept k a c"
  by (auto simp: keys_kept_def)

lemma keys_kept_map: "map k rows' = map k rows \<Longrightarrow> keys_kept k rows rows'"
  by (simp add: keys_kept_def)

lemma keys_kept_in:
  assumes "keys_kept k rows rows'" and "r \<in> set rows"
  shows "\<exists>r' \<in> set rows'. k r' = k r"
proof -
  from assms(1) obtain new where "map k rows' = map k rows @ new" by (auto simp: keys_kept_def)
  then have "k ` set rows' = k ` set rows \<union> set new" by (metis list.set_map set_append)
  then have "k r \<in> k ` set rows'" using assms(2) by blast
  then show ?thesis by force
qed

definition db_evolved :: "db \<Rightarrow> db \<Rightarrow> bool" where
  "db_evolved d d' \<longleftrightarrow>
     evolved no_update (t_decisions d) (t_decisions d')
     \<and> evolved no_update (t_integrity d) (t_integrity d')
     \<and> evolved approval_change_ok (t_approvals d) (t_approvals d')
     \<and> evolved grant_change_ok (t_grants d) (t_grants d')
     \<and> evolved no_update (t_idempotency d) (t_idempotency d')
     \<and> evolved no_update (t_versions d) (t_versions d')
     \<and> evolved no_update (t_audit d) (t_audit d')
     \<and> evolved no_update (t_events d) (t_events d')
     \<and> evolved no_update (t_attempts d) (t_attempts d')
     \<and> keys_kept pr_id (t_projects d) (t_projects d')
     \<and> evolved key_change_ok (t_api_keys d) (t_api_keys d')
     \<and> keys_kept (\<lambda>c. (pp_project c, p_id (pp_policy c))) (t_policies d) (t_policies d')
     \<and> keys_kept (\<lambda>s. (su_id s, su_project s)) (t_subscriptions d) (t_subscriptions d')
     \<and> keys_kept (\<lambda>v. (de_id v, de_event v, de_subscription v, de_project v)) (t_deliveries d) (t_deliveries d')"

named_theorems evolved_intros "statements that only let the database evolve"

lemma db_evolved_refl [simp]: "db_evolved d d"
  by (simp add: db_evolved_def)

lemma db_evolved_trans:
  assumes "db_evolved a b" and "db_evolved b c"
  shows "db_evolved a c"
  using assms unfolding db_evolved_def
  by (simp add: append_only.evolved_trans [of _ "t_decisions b"] append_only.evolved_trans [of _ "t_integrity b"]
      append_only.evolved_trans [of _ "t_idempotency b"] append_only.evolved_trans [of _ "t_versions b"]
      append_only.evolved_trans [of _ "t_audit b"] append_only.evolved_trans [of _ "t_events b"]
      append_only.evolved_trans [of _ "t_attempts b"] approvals.evolved_trans [of _ "t_approvals b"]
      grants.evolved_trans [of _ "t_grants b"] keys_kept_trans [of _ _ "t_projects b"]
      key_table.evolved_trans [of _ "t_api_keys b"] keys_kept_trans [of _ _ "t_policies b"]
      keys_kept_trans [of _ _ "t_subscriptions b"] keys_kept_trans [of _ _ "t_deliveries b"])

lemma insert_project_evolved [evolved_intros]: "insert_project p d = Inr d' \<Longrightarrow> db_evolved d d'"
  by (auto simp: insert_project_def db_evolved_def evolved_append keys_kept_append split: if_splits)

lemma insert_api_key_evolved [evolved_intros]: "insert_api_key k d = Inr d' \<Longrightarrow> db_evolved d d'"
  by (auto simp: insert_api_key_def db_evolved_def evolved_append keys_kept_append split: if_splits)

lemma insert_decision_evolved [evolved_intros]: "insert_decision a d = Inr d' \<Longrightarrow> db_evolved d d'"
  by (auto simp: insert_decision_def db_evolved_def evolved_append keys_kept_append split: if_splits)

lemma insert_proof_evolved [evolved_intros]: "insert_proof ip d = Inr d' \<Longrightarrow> db_evolved d d'"
  by (auto simp: insert_proof_def db_evolved_def evolved_append keys_kept_append split: if_splits)

lemma insert_approval_evolved [evolved_intros]: "insert_approval ap d = Inr d' \<Longrightarrow> db_evolved d d'"
  by (auto simp: insert_approval_def db_evolved_def evolved_append keys_kept_append split: if_splits)

lemma insert_grant_evolved [evolved_intros]: "insert_grant g d = Inr d' \<Longrightarrow> db_evolved d d'"
  by (auto simp: insert_grant_def db_evolved_def evolved_append keys_kept_append split: if_splits)

lemma insert_idempotency_evolved [evolved_intros]: "insert_idempotency im d = Inr d' \<Longrightarrow> db_evolved d d'"
  by (auto simp: insert_idempotency_def db_evolved_def evolved_append keys_kept_append split: if_splits)

lemma insert_policy_row_evolved [evolved_intros]: "insert_policy_row c d = Inr d' \<Longrightarrow> db_evolved d d'"
  by (auto simp: insert_policy_row_def db_evolved_def evolved_append keys_kept_append split: if_splits)

lemma insert_version_row_evolved [evolved_intros]: "insert_version_row v d = Inr d' \<Longrightarrow> db_evolved d d'"
  by (auto simp: insert_version_row_def db_evolved_def evolved_append keys_kept_append split: if_splits)

lemma insert_audit_evolved [evolved_intros]: "insert_audit ae d = Inr d' \<Longrightarrow> db_evolved d d'"
  by (auto simp: insert_audit_def db_evolved_def evolved_append keys_kept_append split: if_splits)

lemma insert_subscription_evolved [evolved_intros]: "insert_subscription s d = Inr d' \<Longrightarrow> db_evolved d d'"
  by (auto simp: insert_subscription_def db_evolved_def evolved_append keys_kept_append split: if_splits)

lemma insert_event_evolved [evolved_intros]: "insert_event we payload d = Inr d' \<Longrightarrow> db_evolved d d'"
  by (auto simp: insert_event_def db_evolved_def evolved_append keys_kept_append split: if_splits)

lemma insert_delivery_evolved [evolved_intros]: "insert_delivery dv d = Inr d' \<Longrightarrow> db_evolved d d'"
  by (auto simp: insert_delivery_def db_evolved_def evolved_append keys_kept_append split: if_splits)

lemma insert_attempt_evolved [evolved_intros]: "insert_attempt at d = Inr d' \<Longrightarrow> db_evolved d d'"
  by (auto simp: insert_attempt_def db_evolved_def evolved_append keys_kept_append split: if_splits)

lemma update_approvals_Inr:
  "update_approvals P f d = Inr d' \<longleftrightarrow>
     (\<forall>a \<in> set (t_approvals d). P a \<longrightarrow>
        approval_change_ok a (f a) \<and> approval_grant_ok (t_grants d) a (f a))
     \<and> d' = d\<lparr>t_approvals := update_rows P f (t_approvals d)\<rparr>"
  by (auto simp: update_approvals_def bindE_Inr_iff update_table_Inr)

lemma update_grants_Inr:
  "update_grants P f d = Inr d' \<longleftrightarrow>
     (\<forall>g \<in> set (t_grants d). P g \<longrightarrow> grant_change_ok g (f g))
     \<and> d' = d\<lparr>t_grants := update_rows P f (t_grants d)\<rparr>"
  by (auto simp: update_grants_def bindE_Inr_iff update_table_Inr)

lemma update_subscriptions_Inr:
  "update_subscriptions P f d = Inr d' \<longleftrightarrow>
     (\<forall>s \<in> set (t_subscriptions d). P s \<longrightarrow> subscription_change_ok s (f s))
     \<and> d' = d\<lparr>t_subscriptions := update_rows P f (t_subscriptions d)\<rparr>"
  by (auto simp: update_subscriptions_def bindE_Inr_iff update_table_Inr)

lemma update_deliveries_Inr:
  "update_deliveries P f d = Inr d' \<longleftrightarrow>
     (\<forall>v \<in> set (t_deliveries d). P v \<longrightarrow> delivery_change_ok v (f v))
     \<and> d' = d\<lparr>t_deliveries := update_rows P f (t_deliveries d)\<rparr>"
  by (auto simp: update_deliveries_def bindE_Inr_iff update_table_Inr)

lemmas update_Inr = update_approvals_Inr update_grants_Inr update_subscriptions_Inr update_deliveries_Inr

lemma evolved_update_rows:
  "(\<And>r. r \<in> set rows \<Longrightarrow> P r \<Longrightarrow> ok r (f r)) \<Longrightarrow> evolved ok rows (update_rows P f rows)"
  by (auto simp: evolved_def update_rows_def)

lemma keys_kept_update_rows:
  "(\<And>r. r \<in> set rows \<Longrightarrow> P r \<Longrightarrow> k (f r) = k r) \<Longrightarrow> keys_kept k rows (update_rows P f rows)"
  by (rule keys_kept_map) (rule map_update_rows)

lemma update_evolved [evolved_intros]:
  "update_approvals PA fA d = Inr d' \<Longrightarrow> db_evolved d d'"
  "update_grants PG fG d = Inr d' \<Longrightarrow> db_evolved d d'"
  "update_subscriptions PS fS d = Inr d' \<Longrightarrow> db_evolved d d'"
  "update_deliveries PD fD d = Inr d' \<Longrightarrow> db_evolved d d'"
  by (auto simp: update_Inr db_evolved_def subscription_change_ok_def delivery_change_ok_def
      intro!: evolved_update_rows keys_kept_update_rows)

lemma uuid4_evolved [evolved_intros]: "uuid4 d = (u, d') \<Longrightarrow> db_evolved d d'"
  by (auto simp: uuid4_def db_evolved_def)

lemma transaction_evolved:
  "transaction b d = (r, d') \<Longrightarrow> (\<And>x d'. b d = Inr (x, d') \<Longrightarrow> db_evolved d d') \<Longrightarrow> db_evolved d d'"
  by (auto simp: transaction_def split: sum.splits)

section \<open>Well-formed databases\<close>

text \<open>
  What the schema guarantees of every database it accepts: primary keys and unique columns are
  distinct, the row checks hold, and a row's references exist.
\<close>

definition unique_by :: "('r \<Rightarrow> 'k) \<Rightarrow> 'r list \<Rightarrow> bool" where
  "unique_by k rows \<longleftrightarrow> distinct (map k rows)"

definition refers :: "('r \<Rightarrow> 'k) \<Rightarrow> 'r list \<Rightarrow> ('s \<Rightarrow> 'k) \<Rightarrow> 's list \<Rightarrow> bool" where
  "refers f rows k targets \<longleftrightarrow> set (map f rows) \<subseteq> set (map k targets)"

lemma refers_Nil [simp]: "refers f [] k targets"
  by (simp add: refers_def)

lemma refers_row [simp]: "refers f (rows @ [r]) k targets \<longleftrightarrow> refers f rows k targets \<and> f r \<in> set (map k targets)"
  by (auto simp: refers_def)

lemma refers_target [simp]: "refers f rows k targets \<Longrightarrow> refers f rows k (targets @ [t])"
  by (auto simp: refers_def)

lemma refers_same: "map f rows' = map f rows \<Longrightarrow> map k targets' = map k targets \<Longrightarrow>
    refers f rows k targets \<Longrightarrow> refers f rows' k targets'"
  by (simp only: refers_def)

definition references_ok :: "db \<Rightarrow> bool" where
  "references_ok d \<longleftrightarrow>
     refers ak_project (t_api_keys d) pr_id (t_projects d)
     \<and> refers ip_decision (t_integrity d) au_id (t_decisions d)
     \<and> refers ap_decision (t_approvals d) au_id (t_decisions d)
     \<and> refers gr_project (t_grants d) pr_id (t_projects d)
     \<and> refers gr_decision (t_grants d) au_id (t_decisions d)
     \<and> refers im_decision (t_idempotency d) au_id (t_decisions d)
     \<and> refers pp_project (t_policies d) pr_id (t_projects d)
     \<and> refers pv_project (t_versions d) pr_id (t_projects d)
     \<and> refers ae_project (t_audit d) pr_id (t_projects d)
     \<and> refers su_project (t_subscriptions d) pr_id (t_projects d)
     \<and> refers (\<lambda>r. we_project (er_event r)) (t_events d) pr_id (t_projects d)
     \<and> refers de_event (t_deliveries d) (\<lambda>r. we_id (er_event r)) (t_events d)
     \<and> refers de_subscription (t_deliveries d) su_id (t_subscriptions d)
     \<and> refers at_delivery (t_attempts d) de_id (t_deliveries d)"

definition db_ok :: "db \<Rightarrow> bool" where
  "db_ok d \<longleftrightarrow> references_ok d \<and>
     unique_by pr_id (t_projects d)
     \<and> unique_by ak_id (t_api_keys d) \<and> unique_by ak_prefix (t_api_keys d)
     \<and> unique_by au_id (t_decisions d)
     \<and> unique_by ip_decision (t_integrity d)
     \<and> unique_by ap_decision (t_approvals d) \<and> list_all approval_check (t_approvals d)
     \<and> unique_by gr_id (t_grants d) \<and> unique_by gr_decision (t_grants d)
     \<and> unique_by gr_token_hash (t_grants d) \<and> list_all grant_check (t_grants d)
     \<and> unique_by (\<lambda>r. (im_project r, im_key r)) (t_idempotency d)
     \<and> unique_by (\<lambda>c. (pp_project c, p_id (pp_policy c))) (t_policies d)
     \<and> unique_by (\<lambda>v. (pv_project v, p_id (pv_policy v), p_version (pv_policy v))) (t_versions d)
     \<and> unique_by ae_id (t_audit d)
     \<and> unique_by su_id (t_subscriptions d) \<and> list_all subscription_check (t_subscriptions d)
     \<and> unique_by (\<lambda>r. we_id (er_event r)) (t_events d)
     \<and> unique_by de_id (t_deliveries d) \<and> list_all delivery_check (t_deliveries d)
     \<and> unique_by (\<lambda>a. (at_delivery a, at_number a)) (t_attempts d)"

lemma unique_by_Nil [simp]: "unique_by k []"
  by (simp add: unique_by_def)

lemma unique_by_snoc: "unique_by k (rows @ [r]) \<longleftrightarrow> unique_by k rows \<and> list_all (\<lambda>s. k s \<noteq> k r) rows"
  by (auto simp: unique_by_def list_all_iff image_iff; metis)

lemma unique_by_find:
  "unique_by k rows \<Longrightarrow> r \<in> set rows \<Longrightarrow> find_row (\<lambda>s. k s = k r) rows = Some r"
  by (rule find_row_unique [where k = k]) (auto simp: unique_by_def)

lemma unique_by_eq: "unique_by k rows \<Longrightarrow> r \<in> set rows \<Longrightarrow> s \<in> set rows \<Longrightarrow> k r = k s \<Longrightarrow> r = s"
  by (auto simp: unique_by_def distinct_map dest: inj_onD)

lemma unique_by_map: "map k rows' = map k rows \<Longrightarrow> unique_by k rows' = unique_by k rows"
  by (simp add: unique_by_def)

named_theorems ok_intros "statements that keep the database well formed"

lemma empty_db_ok [simp]: "db_ok (empty_db uuids)"
  by (simp add: db_ok_def references_ok_def empty_db_def)

lemma list_all_update_rows:
  "list_all Q rows \<Longrightarrow> (\<And>r. r \<in> set rows \<Longrightarrow> P r \<Longrightarrow> Q (f r)) \<Longrightarrow> list_all Q (update_rows P f rows)"
  by (auto simp: list_all_iff set_update_rows)

lemma list_ex_key: "list_ex (\<lambda>r. k r = x) rows \<longleftrightarrow> x \<in> set (map k rows)"
  by (auto simp: list_ex_iff)

lemma list_ex_key_conj: "list_ex (\<lambda>r. k r = x \<and> P r) rows \<Longrightarrow> x \<in> set (map k rows)"
  by (auto simp: list_ex_iff)

lemma project_exists_iff: "project_exists d pid \<longleftrightarrow> pid \<in> set (map pr_id (t_projects d))"
  unfolding project_exists_def by (rule list_ex_key)

lemma decision_exists_iff: "decision_exists d did \<longleftrightarrow> did \<in> set (map au_id (t_decisions d))"
  unfolding decision_exists_def by (rule list_ex_key)

text \<open>Inserts keep the references: a new row refers to rows that are there.\<close>

lemma insert_project_references: "insert_project p d = Inr d' \<Longrightarrow> references_ok d \<Longrightarrow> references_ok d'"
  by (auto simp: insert_project_def project_row_ok_def references_ok_def project_exists_iff decision_exists_iff list_ex_key
      split: if_splits simp del: set_map)

lemma insert_api_key_references: "insert_api_key k d = Inr d' \<Longrightarrow> references_ok d \<Longrightarrow> references_ok d'"
  by (auto simp: insert_api_key_def api_key_row_ok_def references_ok_def project_exists_iff decision_exists_iff list_ex_key
      split: if_splits simp del: set_map)

lemma insert_decision_references: "insert_decision a d = Inr d' \<Longrightarrow> references_ok d \<Longrightarrow> references_ok d'"
  by (auto simp: insert_decision_def decision_row_ok_def references_ok_def project_exists_iff decision_exists_iff list_ex_key
      split: if_splits simp del: set_map)

lemma insert_proof_references: "insert_proof ip d = Inr d' \<Longrightarrow> references_ok d \<Longrightarrow> references_ok d'"
  using list_ex_key_conj [of au_id "ip_decision ip" "\<lambda>a. au_project a = ip_project ip" "t_decisions d"]
  by (auto simp: insert_proof_def integrity_row_ok_def references_ok_def
      project_exists_iff split: if_splits simp del: set_map)

lemma insert_approval_references: "insert_approval ap d = Inr d' \<Longrightarrow> references_ok d \<Longrightarrow> references_ok d'"
  by (auto simp: insert_approval_def approval_row_ok_def references_ok_def project_exists_iff decision_exists_iff list_ex_key
      split: if_splits simp del: set_map)

lemma insert_grant_references: "insert_grant g d = Inr d' \<Longrightarrow> references_ok d \<Longrightarrow> references_ok d'"
  using list_ex_key_conj [of au_id "gr_decision g" "\<lambda>a. au_project a = gr_project g \<and> au_decision a = REQUIRE_APPROVAL" "t_decisions d"]
  by (auto simp: insert_grant_def grant_row_ok_def references_ok_def
      project_exists_iff split: if_splits simp del: set_map)

lemma insert_idempotency_references: "insert_idempotency im d = Inr d' \<Longrightarrow> references_ok d \<Longrightarrow> references_ok d'"
  by (auto simp: insert_idempotency_def idempotency_row_ok_def references_ok_def project_exists_iff decision_exists_iff list_ex_key
      split: if_splits simp del: set_map)

lemma insert_policy_row_references: "insert_policy_row c d = Inr d' \<Longrightarrow> references_ok d \<Longrightarrow> references_ok d'"
  by (auto simp: insert_policy_row_def policy_row_ok_def references_ok_def project_exists_iff decision_exists_iff list_ex_key
      split: if_splits simp del: set_map)

lemma insert_version_row_references: "insert_version_row v d = Inr d' \<Longrightarrow> references_ok d \<Longrightarrow> references_ok d'"
  by (auto simp: insert_version_row_def version_row_ok_def references_ok_def project_exists_iff decision_exists_iff list_ex_key
      split: if_splits simp del: set_map)

lemma insert_audit_references: "insert_audit ae d = Inr d' \<Longrightarrow> references_ok d \<Longrightarrow> references_ok d'"
  by (auto simp: insert_audit_def audit_row_ok_def references_ok_def project_exists_iff decision_exists_iff list_ex_key
      split: if_splits simp del: set_map)

lemma insert_subscription_references: "insert_subscription s d = Inr d' \<Longrightarrow> references_ok d \<Longrightarrow> references_ok d'"
  by (auto simp: insert_subscription_def subscription_row_ok_def references_ok_def project_exists_iff decision_exists_iff list_ex_key
      split: if_splits simp del: set_map)

lemma insert_event_references: "insert_event we payload d = Inr d' \<Longrightarrow> references_ok d \<Longrightarrow> references_ok d'"
  by (auto simp: insert_event_def event_row_ok_def references_ok_def project_exists_iff decision_exists_iff list_ex_key
      split: if_splits simp del: set_map)

lemma insert_delivery_references: "insert_delivery dv d = Inr d' \<Longrightarrow> references_ok d \<Longrightarrow> references_ok d'"
  using list_ex_key_conj [of "\<lambda>r. we_id (er_event r)" "de_event dv" "\<lambda>r. we_project (er_event r) = de_project dv" "t_events d"]
    list_ex_key_conj [of su_id "de_subscription dv" "\<lambda>s. su_project s = de_project dv" "t_subscriptions d"]
  by (auto simp: insert_delivery_def delivery_row_ok_def references_ok_def
      project_exists_iff split: if_splits simp del: set_map)

lemma insert_attempt_references: "insert_attempt at d = Inr d' \<Longrightarrow> references_ok d \<Longrightarrow> references_ok d'"
  by (auto simp: insert_attempt_def attempt_row_ok_def references_ok_def project_exists_iff decision_exists_iff list_ex_key
      split: if_splits simp del: set_map)

text \<open>So do updates that keep the referring columns and the keys.\<close>

lemma update_references:
  "map ap_decision rows = map ap_decision (t_approvals d) \<Longrightarrow> references_ok (d\<lparr>t_approvals := rows\<rparr>) = references_ok d"
  "map gr_project grs = map gr_project (t_grants d) \<Longrightarrow> map gr_decision grs = map gr_decision (t_grants d) \<Longrightarrow>
    references_ok (d\<lparr>t_grants := grs\<rparr>) = references_ok d"
  "map su_project sus = map su_project (t_subscriptions d) \<Longrightarrow> map su_id sus = map su_id (t_subscriptions d) \<Longrightarrow>
    references_ok (d\<lparr>t_subscriptions := sus\<rparr>) = references_ok d"
  "map de_event des = map de_event (t_deliveries d) \<Longrightarrow> map de_subscription des = map de_subscription (t_deliveries d) \<Longrightarrow>
    map de_id des = map de_id (t_deliveries d) \<Longrightarrow> references_ok (d\<lparr>t_deliveries := des\<rparr>) = references_ok d"
  "map pr_id prs = map pr_id (t_projects d) \<Longrightarrow> references_ok (d\<lparr>t_projects := prs\<rparr>) = references_ok d"
  "map ak_project aks = map ak_project (t_api_keys d) \<Longrightarrow> references_ok (d\<lparr>t_api_keys := aks\<rparr>) = references_ok d"
  "map pp_project pps = map pp_project (t_policies d) \<Longrightarrow> references_ok (d\<lparr>t_policies := pps\<rparr>) = references_ok d"
  "references_ok (d\<lparr>t_uuids := us\<rparr>) = references_ok d"
  unfolding references_ok_def refers_def by (simp_all del: set_map)

lemma insert_project_ok [ok_intros]: "insert_project p d = Inr d' \<Longrightarrow> db_ok d \<Longrightarrow> db_ok d'"
  using insert_project_references [of p d d']
  by (auto simp: insert_project_def db_ok_def unique_by_snoc project_row_ok_def project_exists_def list_ex_iff list_all_iff split: if_splits)

lemma insert_api_key_ok [ok_intros]: "insert_api_key k d = Inr d' \<Longrightarrow> db_ok d \<Longrightarrow> db_ok d'"
  using insert_api_key_references [of k d d']
  by (auto simp: insert_api_key_def db_ok_def unique_by_snoc api_key_row_ok_def list_ex_iff list_all_iff split: if_splits)

lemma insert_decision_ok [ok_intros]: "insert_decision a d = Inr d' \<Longrightarrow> db_ok d \<Longrightarrow> db_ok d'"
  using insert_decision_references [of a d d']
  by (auto simp: insert_decision_def db_ok_def unique_by_snoc decision_row_ok_def decision_exists_def list_ex_iff list_all_iff split: if_splits)

lemma insert_proof_ok [ok_intros]: "insert_proof ip d = Inr d' \<Longrightarrow> db_ok d \<Longrightarrow> db_ok d'"
  using insert_proof_references [of ip d d']
  by (auto simp: insert_proof_def db_ok_def unique_by_snoc integrity_row_ok_def list_ex_iff list_all_iff split: if_splits)

lemma insert_approval_ok [ok_intros]: "insert_approval ap d = Inr d' \<Longrightarrow> db_ok d \<Longrightarrow> db_ok d'"
  using insert_approval_references [of ap d d']
  by (auto simp: insert_approval_def db_ok_def unique_by_snoc approval_row_ok_def list_ex_iff list_all_iff split: if_splits)

lemma insert_grant_ok [ok_intros]: "insert_grant g d = Inr d' \<Longrightarrow> db_ok d \<Longrightarrow> db_ok d'"
  using insert_grant_references [of g d d']
  by (auto simp: insert_grant_def db_ok_def unique_by_snoc grant_row_ok_def list_ex_iff list_all_iff split: if_splits)

lemma insert_idempotency_ok [ok_intros]: "insert_idempotency im d = Inr d' \<Longrightarrow> db_ok d \<Longrightarrow> db_ok d'"
  using insert_idempotency_references [of im d d']
  by (auto simp: insert_idempotency_def db_ok_def unique_by_snoc idempotency_row_ok_def list_ex_iff list_all_iff split: if_splits)

lemma insert_policy_row_ok [ok_intros]: "insert_policy_row c d = Inr d' \<Longrightarrow> db_ok d \<Longrightarrow> db_ok d'"
  using insert_policy_row_references [of c d d']
  by (auto simp: insert_policy_row_def db_ok_def unique_by_snoc policy_row_ok_def list_ex_iff list_all_iff split: if_splits)

lemma insert_version_row_ok [ok_intros]: "insert_version_row v d = Inr d' \<Longrightarrow> db_ok d \<Longrightarrow> db_ok d'"
  using insert_version_row_references [of v d d']
  by (auto simp: insert_version_row_def db_ok_def unique_by_snoc version_row_ok_def list_ex_iff list_all_iff split: if_splits)

lemma insert_audit_ok [ok_intros]: "insert_audit ae d = Inr d' \<Longrightarrow> db_ok d \<Longrightarrow> db_ok d'"
  using insert_audit_references [of ae d d']
  by (auto simp: insert_audit_def db_ok_def unique_by_snoc audit_row_ok_def list_ex_iff list_all_iff split: if_splits)

lemma insert_subscription_ok [ok_intros]: "insert_subscription s d = Inr d' \<Longrightarrow> db_ok d \<Longrightarrow> db_ok d'"
  using insert_subscription_references [of s d d']
  by (auto simp: insert_subscription_def db_ok_def unique_by_snoc subscription_row_ok_def list_ex_iff list_all_iff split: if_splits)

lemma insert_event_ok [ok_intros]: "insert_event we payload d = Inr d' \<Longrightarrow> db_ok d \<Longrightarrow> db_ok d'"
  using insert_event_references [of we payload d d']
  by (auto simp: insert_event_def db_ok_def unique_by_snoc event_row_ok_def list_ex_iff list_all_iff split: if_splits)

lemma insert_delivery_ok [ok_intros]: "insert_delivery dv d = Inr d' \<Longrightarrow> db_ok d \<Longrightarrow> db_ok d'"
  using insert_delivery_references [of dv d d']
  by (auto simp: insert_delivery_def db_ok_def unique_by_snoc delivery_row_ok_def list_ex_iff list_all_iff split: if_splits)

lemma insert_attempt_ok [ok_intros]: "insert_attempt at d = Inr d' \<Longrightarrow> db_ok d \<Longrightarrow> db_ok d'"
  using insert_attempt_references [of at d d']
  by (auto simp: insert_attempt_def db_ok_def unique_by_snoc attempt_row_ok_def list_ex_iff list_all_iff split: if_splits)

lemma update_approvals_ok [ok_intros]:
  assumes "update_approvals P f d = Inr d'" and "db_ok d" shows "db_ok d'"
proof -
  from assms(1) have ok: "\<And>a. a \<in> set (t_approvals d) \<Longrightarrow> P a \<Longrightarrow> approval_change_ok a (f a)"
    and d': "d' = d\<lparr>t_approvals := update_rows P f (t_approvals d)\<rparr>" by (auto simp: update_Inr)
  have "map ap_decision (update_rows P f (t_approvals d)) = map ap_decision (t_approvals d)"
    by (rule map_update_rows) (use ok in \<open>auto simp: approval_change_ok_def\<close>)
  moreover have "list_all approval_check (update_rows P f (t_approvals d))"
    by (rule list_all_update_rows) (use ok assms(2) in \<open>auto simp: approval_change_ok_def db_ok_def\<close>)
  ultimately show ?thesis using assms(2) by (simp add: d' db_ok_def unique_by_def update_references)
qed

lemma update_grants_ok [ok_intros]:
  assumes "update_grants P f d = Inr d'" and "db_ok d" shows "db_ok d'"
proof -
  from assms(1) have ok: "\<And>g. g \<in> set (t_grants d) \<Longrightarrow> P g \<Longrightarrow> grant_change_ok g (f g)"
    and d': "d' = d\<lparr>t_grants := update_rows P f (t_grants d)\<rparr>" by (auto simp: update_Inr)
  have "map gr_id (update_rows P f (t_grants d)) = map gr_id (t_grants d)"
    "map gr_decision (update_rows P f (t_grants d)) = map gr_decision (t_grants d)"
    "map gr_token_hash (update_rows P f (t_grants d)) = map gr_token_hash (t_grants d)"
    "map gr_project (update_rows P f (t_grants d)) = map gr_project (t_grants d)"
    using ok by (auto intro!: map_update_rows simp: grant_change_ok_def)
  moreover have "list_all grant_check (update_rows P f (t_grants d))"
    by (rule list_all_update_rows) (use ok assms(2) in \<open>auto simp: grant_change_ok_def db_ok_def\<close>)
  ultimately show ?thesis using assms(2) by (simp add: d' db_ok_def unique_by_def update_references)
qed

lemma update_subscriptions_ok [ok_intros]:
  assumes "update_subscriptions P f d = Inr d'" and "db_ok d" shows "db_ok d'"
proof -
  from assms(1) have ok: "\<And>s. s \<in> set (t_subscriptions d) \<Longrightarrow> P s \<Longrightarrow> subscription_change_ok s (f s)"
    and d': "d' = d\<lparr>t_subscriptions := update_rows P f (t_subscriptions d)\<rparr>" by (auto simp: update_Inr)
  have "map su_id (update_rows P f (t_subscriptions d)) = map su_id (t_subscriptions d)"
    "map su_project (update_rows P f (t_subscriptions d)) = map su_project (t_subscriptions d)"
    using ok by (auto intro!: map_update_rows simp: subscription_change_ok_def)
  moreover have "list_all subscription_check (update_rows P f (t_subscriptions d))"
    by (rule list_all_update_rows) (use ok assms(2) in \<open>auto simp: subscription_change_ok_def db_ok_def\<close>)
  ultimately show ?thesis using assms(2) by (simp add: d' db_ok_def unique_by_def update_references)
qed

lemma update_deliveries_ok [ok_intros]:
  assumes "update_deliveries P f d = Inr d'" and "db_ok d" shows "db_ok d'"
proof -
  from assms(1) have ok: "\<And>v. v \<in> set (t_deliveries d) \<Longrightarrow> P v \<Longrightarrow> delivery_change_ok v (f v)"
    and d': "d' = d\<lparr>t_deliveries := update_rows P f (t_deliveries d)\<rparr>" by (auto simp: update_Inr)
  have "map de_id (update_rows P f (t_deliveries d)) = map de_id (t_deliveries d)"
    "map de_event (update_rows P f (t_deliveries d)) = map de_event (t_deliveries d)"
    "map de_subscription (update_rows P f (t_deliveries d)) = map de_subscription (t_deliveries d)"
    using ok by (auto intro!: map_update_rows simp: delivery_change_ok_def)
  moreover have "list_all delivery_check (update_rows P f (t_deliveries d))"
    by (rule list_all_update_rows) (use ok assms(2) in \<open>auto simp: delivery_change_ok_def db_ok_def\<close>)
  ultimately show ?thesis using assms(2) by (simp add: d' db_ok_def unique_by_def update_references)
qed

lemma uuid4_ok [ok_intros]: "uuid4 d = (u, d') \<Longrightarrow> db_ok d \<Longrightarrow> db_ok d'"
  by (auto simp: uuid4_def db_ok_def update_references)

lemma transaction_ok:
  "transaction b d = (r, d') \<Longrightarrow> db_ok d \<Longrightarrow> (\<And>x d'. b d = Inr (x, d') \<Longrightarrow> db_ok d') \<Longrightarrow> db_ok d'"
  by (auto simp: transaction_def split: sum.splits)

end
