(* ===== verification/Snapshots.thy ===== *)
theory Snapshots
  imports Storage "HOL-Library.Product_Lexorder"
begin

text \<open>
  The JSON forms of the models (\<open>model_dump(mode="json")\<close>), the text of identifiers and
  times, and the record \<open>externals\<close> of what the service takes from outside the repository:
  the shortest text of a float, Pydantic's JSON text of a time, its \<open>strip_whitespace\<close> and
  its validation of a decoded grant, and the digests SHA-256, HMAC-SHA-256 and scrypt, which stay
  arbitrary functions: no lemma assumes that they are injective.
\<close>

record externals =
  x_float :: float_text
  x_time :: "instant \<Rightarrow> string"
  x_strip :: "string \<Rightarrow> string"
  x_sha256 :: "string \<Rightarrow> string"
  x_hmac :: "string \<Rightarrow> string \<Rightarrow> string"
  x_scrypt :: "string \<Rightarrow> string \<Rightarrow> string"
  x_load_grant :: "string \<Rightarrow> grant_payload option"

section \<open>Text of identifiers and times\<close>

text \<open>\<open>hex_pad w n\<close>: \<open>n\<close> in hexadecimal, on \<open>w\<close> digits.\<close>

fun hex_pad :: "nat \<Rightarrow> nat \<Rightarrow> string" where
  "hex_pad 0 n = []"
| "hex_pad (Suc w) n = hex_pad w (n div 16) @ [hex_char (n mod 16)]"

lemma length_hex_pad [simp]: "length (hex_pad w n) = w"
  by (induction w arbitrary: n) auto

lemma hex_pad_inj: "hex_pad w m = hex_pad w n \<Longrightarrow> m < 16 ^ w \<Longrightarrow> n < 16 ^ w \<Longrightarrow> m = n"
proof (induction w arbitrary: m n)
  case 0
  then show ?case by simp
next
  case (Suc w)
  from Suc.prems(1) have hi: "hex_pad w (m div 16) = hex_pad w (n div 16)"
    and lo: "hex_char (m mod 16) = hex_char (n mod 16)" by auto
  have "m div 16 = n div 16" using Suc.prems(2,3) by (intro Suc.IH [OF hi]) auto
  moreover have "m mod 16 = n mod 16"
  proof -
    have "hex_char a = hex_char b \<Longrightarrow> a < 16 \<Longrightarrow> b < 16 \<Longrightarrow> a = b" for a b
    proof -
      assume "hex_char a = hex_char b" "a < 16" "b < 16"
      then have "(of_char (hex_char a) :: nat) = of_char (hex_char b)" by simp
      with \<open>a < 16\<close> \<open>b < 16\<close> show "a = b" by (auto simp: hex_char_def split: if_splits)
    qed
    from this [OF lo] show ?thesis by simp
  qed
  ultimately show ?case by (metis div_mult_mod_eq)
qed

definition uuid_text :: "uuid \<Rightarrow> string" where
  "uuid_text u = (let h = hex_pad 32 u in
     take 8 h @ ''-'' @ take 4 (drop 8 h) @ ''-'' @ take 4 (drop 12 h) @ ''-''
       @ take 4 (drop 16 h) @ ''-'' @ drop 20 h)"

lemma length_uuid_text [simp]: "length (uuid_text u) = 36"
  by (simp add: uuid_text_def Let_def)

definition without_dashes :: "string \<Rightarrow> string" where
  "without_dashes s = take 8 s @ take 4 (drop 9 s) @ take 4 (drop 14 s) @ take 4 (drop 19 s) @ drop 24 s"

lemma without_dashes_uuid_text: "without_dashes (uuid_text u) = hex_pad 32 u"
proof -
  let ?h = "hex_pad 32 u"
  have "drop 16 ?h = take 4 (drop 16 ?h) @ drop 20 ?h"
    using append_take_drop_id [of 4 "drop 16 ?h"] by simp
  moreover have "drop 12 ?h = take 4 (drop 12 ?h) @ drop 16 ?h"
    using append_take_drop_id [of 4 "drop 12 ?h"] by simp
  moreover have "drop 8 ?h = take 4 (drop 8 ?h) @ drop 12 ?h"
    using append_take_drop_id [of 4 "drop 8 ?h"] by simp
  moreover have "?h = take 8 ?h @ drop 8 ?h" by simp
  ultimately have "?h = take 8 ?h @ take 4 (drop 8 ?h) @ take 4 (drop 12 ?h) @ take 4 (drop 16 ?h) @ drop 20 ?h"
    by metis
  then show ?thesis by (simp add: without_dashes_def uuid_text_def Let_def del: hex_pad.simps)
qed

lemma uuid_text_inj: "uuid_text u = uuid_text v \<Longrightarrow> u < 2 ^ 128 \<Longrightarrow> v < 2 ^ 128 \<Longrightarrow> u = v"
  by (rule hex_pad_inj [of 32]) (metis without_dashes_uuid_text, simp_all)

text \<open>
  \<open>datetime.isoformat()\<close> of a UTC time: the proleptic Gregorian date of the day, the time of
  the day, the microseconds when there are any, and the offset.
\<close>

definition civil_date :: "int \<Rightarrow> int \<times> int \<times> int" where
  "civil_date days =
     (let z = days + 719468; era = z div 146097; doe = z mod 146097;
          yoe = (doe - doe div 1460 + doe div 36524 - doe div 146096) div 365;
          doy = doe - (365 * yoe + yoe div 4 - yoe div 100);
          mp = (5 * doy + 2) div 153;
          m = (if mp < 10 then mp + 3 else mp - 9)
      in (yoe + era * 400 + (if m \<le> 2 then 1 else 0), m, doy - (153 * mp + 2) div 5 + 1))"

fun pad :: "nat \<Rightarrow> int \<Rightarrow> string" where
  "pad 0 n = []"
| "pad (Suc w) n = pad w (n div 10) @ [digit_char (nat (n mod 10))]"

definition isoformat :: "instant \<Rightarrow> string" where
  "isoformat t =
     (let s = t div 1000000; us = t mod 1000000; tod = s mod 86400 in
      case civil_date (s div 86400) of (y, m, day) \<Rightarrow>
        pad 4 y @ ''-'' @ pad 2 m @ ''-'' @ pad 2 day @ ''T'' @ pad 2 (tod div 3600) @ '':''
          @ pad 2 (tod mod 3600 div 60) @ '':'' @ pad 2 (tod mod 60)
          @ (if us = 0 then [] else ''.'' @ pad 6 us) @ ''+00:00'')"

section \<open>JSON forms\<close>

definition opt_json :: "('a \<Rightarrow> json) \<Rightarrow> 'a option \<Rightarrow> json" where
  "opt_json f v = (case v of None \<Rightarrow> JNull | Some x \<Rightarrow> f x)"

definition uuid_json :: "uuid \<Rightarrow> json" where
  "uuid_json u = JStr (uuid_text u)"

definition time_json :: "externals \<Rightarrow> instant \<Rightarrow> json" where
  "time_json X t = JStr (x_time X t)"

definition condition_json :: "policy_condition \<Rightarrow> json" where
  "condition_json c = JObj [(''field'', JStr (pc_field c)),
     (''operator'', JStr (operator_text (pc_operator c))), (''value'', pc_value c)]"

definition policy_json :: "policy \<Rightarrow> json" where
  "policy_json p = JObj [(''id'', JStr (p_id p)), (''version'', JInt (p_version p)),
     (''action'', JStr (p_action p)), (''match'', JStr (match_text (p_match p))),
     (''conditions'', JArr (map condition_json (p_conditions p))),
     (''decision'', JStr (decision_text (p_decision p))), (''reason'', JStr (p_reason p))]"

definition condition_evidence_json :: "condition_evidence \<Rightarrow> json" where
  "condition_evidence_json c = JObj [(''field'', JStr (ce_field c)),
     (''operator'', JStr (operator_text (ce_operator c))), (''actual_value'', ce_actual c),
     (''expected_value'', ce_expected c), (''matched'', JBool (ce_matched c))]"

definition evidence_json :: "policy_evidence \<Rightarrow> json" where
  "evidence_json e = JObj [(''match'', JStr (match_text (pe_match e))),
     (''conditions'', JArr (map condition_evidence_json (pe_conditions e)))]"

definition trace_json :: "trace_entry \<Rightarrow> json" where
  "trace_json t = JObj [(''policy_id'', JStr (te_policy t)), (''policy_version'', JInt (te_version t)),
     (''decision'', JStr (decision_text (te_decision t))), (''reason'', JStr (te_reason t)),
     (''matched'', JBool (te_matched t)), (''evidence'', evidence_json (te_evidence t))]"

definition request_json :: "authorization_request \<Rightarrow> json" where
  "request_json r = JObj [(''agent'', JStr (rq_agent r)), (''action'', JStr (rq_action r)),
     (''context'', JObj (rq_context r))]"

definition authorization_json :: "externals \<Rightarrow> authorization \<Rightarrow> json" where
  "authorization_json X a = JObj [(''decision_id'', uuid_json (au_id a)),
     (''project_id'', uuid_json (au_project a)), (''evaluated_at'', time_json X (au_evaluated_at a)),
     (''decision'', JStr (decision_text (au_decision a))), (''policy'', opt_json JStr (au_policy a)),
     (''policy_version'', opt_json JInt (au_version a)), (''reason'', JStr (au_reason a)),
     (''evidence'', opt_json evidence_json (au_evidence a)), (''agent'', JStr (au_agent a)),
     (''action'', JStr (au_action a)), (''context'', JObj (au_context a)),
     (''trace'', JArr (map trace_json (au_trace a)))]"

definition approval_members :: "externals \<Rightarrow> approval \<Rightarrow> (string \<times> json) list" where
  "approval_members X a = [(''decision_id'', uuid_json (ap_decision a)),
     (''status'', JStr (approval_status_text (ap_status a))),
     (''requested_at'', time_json X (ap_requested_at a)),
     (''expires_at'', opt_json (time_json X) (ap_expires_at a)),
     (''resolved_at'', opt_json (time_json X) (ap_resolved_at a)),
     (''resolved_by'', opt_json JStr (ap_resolved_by a))]"

definition grant_payload_json :: "externals \<Rightarrow> grant_payload \<Rightarrow> json" where
  "grant_payload_json X g = JObj [(''version'', JInt (gr_version g)), (''grant_id'', uuid_json (gr_id g)),
     (''decision_id'', uuid_json (gr_decision g)), (''project_id'', uuid_json (gr_project g)),
     (''request_fingerprint'', JStr (gr_fingerprint g)), (''issued_at'', time_json X (gr_issued_at g)),
     (''expires_at'', time_json X (gr_expires_at g))]"

text \<open>A grant's snapshot leaves out the two fields declared \<open>exclude=True\<close>.\<close>

definition grant_json :: "externals \<Rightarrow> grant \<Rightarrow> json" where
  "grant_json X g = JObj [(''version'', JInt (gr_version g)), (''grant_id'', uuid_json (gr_id g)),
     (''decision_id'', uuid_json (gr_decision g)), (''project_id'', uuid_json (gr_project g)),
     (''issued_at'', time_json X (gr_issued_at g)), (''expires_at'', time_json X (gr_expires_at g)),
     (''status'', JStr (grant_status_text (gr_status g))),
     (''consumed_at'', opt_json (time_json X) (gr_consumed_at g)),
     (''consumed_by'', opt_json JStr (gr_consumed_by g))]"

definition project_json :: "externals \<Rightarrow> project \<Rightarrow> json" where
  "project_json X p = JObj [(''project_id'', uuid_json (pr_id p)), (''name'', JStr (pr_name p)),
     (''status'', JStr (project_status_text (pr_status p))), (''created_at'', time_json X (pr_created_at p)),
     (''updated_at'', time_json X (pr_updated_at p))]"

definition api_key_metadata_json :: "externals \<Rightarrow> api_key_metadata \<Rightarrow> json" where
  "api_key_metadata_json X k = JObj [(''api_key_id'', uuid_json (km_id k)),
     (''project_id'', uuid_json (km_project k)), (''key_prefix'', JStr (km_prefix k)),
     (''role'', JStr (role_text (km_role k))), (''created_at'', time_json X (km_created_at k)),
     (''revoked_at'', opt_json (time_json X) (km_revoked_at k))]"

definition configuration_json :: "externals \<Rightarrow> policy_configuration \<Rightarrow> json" where
  "configuration_json X c = JObj [(''project_id'', uuid_json (pp_project c)),
     (''policy'', policy_json (pp_policy c)), (''enabled'', JBool (pp_enabled c)),
     (''updated_at'', time_json X (pp_updated_at c))]"

definition subscription_json :: "externals \<Rightarrow> subscription \<Rightarrow> json" where
  "subscription_json X s = JObj [(''subscription_id'', uuid_json (su_id s)),
     (''project_id'', uuid_json (su_project s)), (''url'', JStr (su_url s)),
     (''event_types'', JArr (map (\<lambda>e. JStr (selector_text e)) (su_events s))),
     (''status'', JStr (subscription_status_text (su_status s))),
     (''secret_version'', JInt (su_secret_version s)),
     (''created_at'', time_json X (su_created_at s)), (''updated_at'', time_json X (su_updated_at s)),
     (''disabled_at'', opt_json (time_json X) (su_disabled_at s))]"

definition delivery_json :: "externals \<Rightarrow> delivery \<Rightarrow> json" where
  "delivery_json X v = JObj [(''delivery_id'', uuid_json (de_id v)), (''event_id'', uuid_json (de_event v)),
     (''subscription_id'', uuid_json (de_subscription v)), (''project_id'', uuid_json (de_project v)),
     (''status'', JStr (delivery_status_text (de_status v))),
     (''attempt_count'', JInt (de_attempts v)), (''failure_count'', JInt (de_failures v)),
     (''redelivery_count'', JInt (de_redeliveries v)),
     (''next_attempt_at'', opt_json (time_json X) (de_next_attempt v)),
     (''lease_expires_at'', opt_json (time_json X) (de_lease v)),
     (''delivered_at'', opt_json (time_json X) (de_delivered_at v)),
     (''last_attempt_at'', opt_json (time_json X) (de_last_attempt v)),
     (''last_status_code'', opt_json JInt (de_last_code v)), (''last_error'', opt_json JStr (de_last_error v)),
     (''created_at'', time_json X (de_created_at v)), (''updated_at'', time_json X (de_updated_at v))]"

definition audit_event_json :: "externals \<Rightarrow> audit_event \<Rightarrow> json" where
  "audit_event_json X e = JObj [(''event_id'', uuid_json (ae_id e)),
     (''occurred_at'', time_json X (ae_occurred_at e)), (''project_id'', uuid_json (ae_project e)),
     (''actor_type'', JStr (actor_text (ae_actor_type e))), (''actor_id'', JStr (ae_actor e)),
     (''action'', JStr (action_text (ae_action e))),
     (''resource_type'', JStr (resource_text (ae_resource_type e))),
     (''resource_id'', JStr (ae_resource e)), (''reason'', opt_json JStr (ae_reason e)),
     (''before'', opt_json (\<lambda>j. j) (ae_before e)), (''after'', opt_json (\<lambda>j. j) (ae_after e)),
     (''metadata'', JObj (ae_metadata e))]"

definition event_json :: "externals \<Rightarrow> webhook_event \<Rightarrow> json" where
  "event_json X e = JObj [(''event_id'', uuid_json (we_id e)), (''project_id'', uuid_json (we_project e)),
     (''event_type'', JStr (event_text (we_type e))), (''occurred_at'', time_json X (we_occurred_at e)),
     (''resource_type'', JStr (resource_text (we_resource_type e))),
     (''resource_id'', JStr (we_resource e)), (''data'', JObj (we_data e)),
     (''schema_version'', JInt 1)]"

lemma sha256_hex_pad [simp]: "is_sha256_text (hex_pad 64 n)"
proof -
  have "list_all (\<lambda>c. 48 \<le> (of_char c :: nat) \<and> (of_char c :: nat) \<le> 57
      \<or> 97 \<le> (of_char c :: nat) \<and> (of_char c :: nat) \<le> 102) (hex_pad w n)" for w
  proof (induction w arbitrary: n)
    case (Suc w)
    have "n mod 16 < 16" by simp
    then have "48 \<le> (of_char (hex_char (n mod 16)) :: nat) \<and> (of_char (hex_char (n mod 16)) :: nat) \<le> 57
      \<or> 97 \<le> (of_char (hex_char (n mod 16)) :: nat) \<and> (of_char (hex_char (n mod 16)) :: nat) \<le> 102"
      by (auto simp: hex_char_def)
    with Suc show ?case by simp
  qed simp
  from this [of 64] show ?thesis by (simp only: is_sha256_text_def length_hex_pad simp_thms)
qed

end
