(* ===== verification/Outbox.thy ===== *)
theory Outbox
  imports Snapshots
begin

text \<open>
  The administrative audit trail and the transactional outbox of webhooks: \<open>app/audit.py\<close>,
  the event builders of \<open>app/webhooks.py\<close>, \<open>insert_event_with_deliveries\<close> of
  \<open>app/storage/webhooks.py\<close> and the two helpers of \<open>app/evidence_store.py\<close> every state
  change goes through. An audit event and its webhook event are written in the transaction of the
  change itself. The lemmas say what such a write does to the database (it only appends audit
  events, webhook events and pending deliveries) and which subscriptions get a delivery.
\<close>

section \<open>Building events\<close>

text \<open>The number of characters of a text: its bytes that do not continue a UTF-8 sequence.\<close>

definition text_length :: "string \<Rightarrow> nat" where
  "text_length s = length (filter (\<lambda>c. (of_char c :: nat) < 128 \<or> 192 \<le> (of_char c :: nat)) s)"

text \<open>\<open>AuditResourceIdentifier\<close>: stripped, then between 1 and 200 characters.\<close>

definition resource_identifier :: "externals \<Rightarrow> string \<Rightarrow> exn + string" where
  "resource_identifier X s = (let t = x_strip X s in
     if 1 \<le> text_length t \<and> text_length t \<le> 200 then Inr t else Inl ValidationError)"

definition build_audit_event ::
  "externals \<Rightarrow> instant \<Rightarrow> uuid \<Rightarrow> audit_context \<Rightarrow> audit_action \<Rightarrow> resource_type \<Rightarrow> string
    \<Rightarrow> json option \<Rightarrow> json option \<Rightarrow> (string \<times> json) list \<Rightarrow> audit_event block" where
  "build_audit_event X occurred_at pid ctx action rtype rid before after metadata d =
     (case uuid4 d of (u, d1) \<Rightarrow>
        bindE (resource_identifier X rid) (\<lambda>resource.
          Inr (\<lparr>ae_id = u, ae_occurred_at = occurred_at, ae_project = pid,
             ae_actor_type = ac_type ctx, ae_actor = ac_actor ctx, ae_action = action,
             ae_resource_type = rtype, ae_resource = resource, ae_reason = ac_reason ctx,
             ae_before = before, ae_after = after, ae_metadata = metadata\<rparr>, d1)))"

fun AUDIT_WEBHOOK_EVENT_TYPES :: "audit_action \<Rightarrow> event_type" where
  "AUDIT_WEBHOOK_EVENT_TYPES PROJECT_CREATED = E_project_created"
| "AUDIT_WEBHOOK_EVENT_TYPES PROJECT_STATUS_CHANGED = E_project_status_changed"
| "AUDIT_WEBHOOK_EVENT_TYPES API_KEY_CREATED = E_api_key_created"
| "AUDIT_WEBHOOK_EVENT_TYPES API_KEY_REVOKED = E_api_key_revoked"
| "AUDIT_WEBHOOK_EVENT_TYPES POLICY_CREATED = E_policy_created"
| "AUDIT_WEBHOOK_EVENT_TYPES POLICY_UPDATED = E_policy_updated"
| "AUDIT_WEBHOOK_EVENT_TYPES POLICY_DISABLED = E_policy_disabled"
| "AUDIT_WEBHOOK_EVENT_TYPES POLICY_ROLLED_BACK = E_policy_rolled_back"
| "AUDIT_WEBHOOK_EVENT_TYPES APPROVAL_RESOLVED = E_approval_resolved"
| "AUDIT_WEBHOOK_EVENT_TYPES APPROVAL_EXPIRED = E_approval_expired"
| "AUDIT_WEBHOOK_EVENT_TYPES EXECUTION_GRANT_ISSUED = E_execution_grant_issued"
| "AUDIT_WEBHOOK_EVENT_TYPES EXECUTION_GRANT_CONSUMED = E_execution_grant_consumed"
| "AUDIT_WEBHOOK_EVENT_TYPES EXECUTION_GRANT_EXPIRED = E_execution_grant_expired"
| "AUDIT_WEBHOOK_EVENT_TYPES WEBHOOK_SUBSCRIPTION_CREATED = E_subscription_created"
| "AUDIT_WEBHOOK_EVENT_TYPES WEBHOOK_SUBSCRIPTION_DISABLED = E_subscription_disabled"
| "AUDIT_WEBHOOK_EVENT_TYPES WEBHOOK_SECRET_ROTATED = E_secret_rotated"
| "AUDIT_WEBHOOK_EVENT_TYPES WEBHOOK_REDELIVERY_REQUESTED = E_redelivery_requested"

definition build_webhook_event ::
  "uuid \<Rightarrow> event_type \<Rightarrow> instant \<Rightarrow> resource_type \<Rightarrow> string \<Rightarrow> (string \<times> json) list
    \<Rightarrow> webhook_event block" where
  "build_webhook_event pid etype occurred_at rtype rid data d =
     (case uuid4 d of (u, d1) \<Rightarrow>
        if 1 \<le> text_length rid \<and> text_length rid \<le> 200
        then Inr (\<lparr>we_id = u, we_project = pid, we_type = etype, we_occurred_at = occurred_at,
               we_resource_type = rtype, we_resource = rid, we_data = data\<rparr>, d1)
        else Inl ValidationError)"

text \<open>\<open>AUDIT_WEBHOOK_RESOURCE_TYPES\<close> keeps the name of every resource an audit event can have.\<close>

definition build_webhook_event_from_audit :: "externals \<Rightarrow> audit_event \<Rightarrow> webhook_event block" where
  "build_webhook_event_from_audit X e =
     build_webhook_event (ae_project e) (AUDIT_WEBHOOK_EVENT_TYPES (ae_action e)) (ae_occurred_at e)
       (ae_resource_type e) (ae_resource e) [(''audit_event'', audit_event_json X e)]"

definition canonical_webhook_payload :: "externals \<Rightarrow> webhook_event \<Rightarrow> string" where
  "canonical_webhook_payload X e = canonical_json (x_float X) (event_json X e)"

section \<open>The outbox\<close>

text \<open>\<open>"*" in subscription.event_types or event.event_type in subscription.event_types\<close>.\<close>

definition selects :: "webhook_event \<Rightarrow> subscription \<Rightarrow> bool" where
  "selects e s \<longleftrightarrow> Any_event \<in> set (su_events s) \<or> Only_event (we_type e) \<in> set (su_events s)"

definition new_delivery :: "uuid \<Rightarrow> webhook_event \<Rightarrow> subscription \<Rightarrow> delivery" where
  "new_delivery u e s = \<lparr>de_id = u, de_event = we_id e, de_subscription = su_id s,
     de_project = we_project e, de_status = D_PENDING, de_attempts = 0, de_failures = 0,
     de_redeliveries = 0, de_next_attempt = Some (we_occurred_at e), de_lease = None,
     de_delivered_at = None, de_last_attempt = None, de_last_code = None, de_last_error = None,
     de_created_at = we_occurred_at e, de_updated_at = we_occurred_at e\<rparr>"

definition active_subscriptions :: "db \<Rightarrow> uuid \<Rightarrow> subscription list" where
  "active_subscriptions d pid =
     sort_key (\<lambda>s. (su_created_at s, su_id s))
       (filter (\<lambda>s. su_project s = pid \<and> su_status s = Subscription_ACTIVE) (t_subscriptions d))"

definition deliver_to :: "webhook_event \<Rightarrow> subscription \<Rightarrow> delivery list \<times> db \<Rightarrow> exn + delivery list \<times> db" where
  "deliver_to e s acc = (case acc of (deliveries, d) \<Rightarrow>
     if \<not> selects e s then Inr (deliveries, d)
     else (case uuid4 d of (u, d1) \<Rightarrow>
       bindE (insert_delivery (new_delivery u e s) d1) (\<lambda>d2.
         Inr (deliveries @ [new_delivery u e s], d2))))"

definition insert_event_with_deliveries :: "externals \<Rightarrow> webhook_event \<Rightarrow> delivery list block" where
  "insert_event_with_deliveries X e d =
     bindE (insert_event e (canonical_webhook_payload X e) d) (\<lambda>d1.
       foldE (deliver_to e) (active_subscriptions d1 (we_project e)) ([], d1))"

definition enqueue_webhook_event :: "externals \<Rightarrow> webhook_event \<Rightarrow> db \<Rightarrow> exn + db" where
  "enqueue_webhook_event X e d =
     (if \<not> project_exists d (we_project e) then Inr d
      else bindE (insert_event_with_deliveries X e d) (\<lambda>(_, d1). Inr d1))"

definition record_administrative_change :: "externals \<Rightarrow> audit_event \<Rightarrow> db \<Rightarrow> exn + db" where
  "record_administrative_change X e d =
     bindE (insert_audit e d) (\<lambda>d1.
     bindE (build_webhook_event_from_audit X e d1) (\<lambda>(w, d2).
       enqueue_webhook_event X w d2))"

text \<open>\<open>build_audit_event\<close> and \<open>_record_administrative_change\<close> in a row, as every operation calls them.\<close>

definition audit_change ::
  "externals \<Rightarrow> instant \<Rightarrow> uuid \<Rightarrow> audit_context \<Rightarrow> audit_action \<Rightarrow> resource_type \<Rightarrow> string
    \<Rightarrow> json option \<Rightarrow> json option \<Rightarrow> (string \<times> json) list \<Rightarrow> db \<Rightarrow> exn + db" where
  "audit_change X occurred_at pid ctx action rtype rid before after metadata d =
     bindE (build_audit_event X occurred_at pid ctx action rtype rid before after metadata d) (\<lambda>(e, d1).
       record_administrative_change X e d1)"

definition announce ::
  "externals \<Rightarrow> uuid \<Rightarrow> event_type \<Rightarrow> instant \<Rightarrow> resource_type \<Rightarrow> string \<Rightarrow> (string \<times> json) list
    \<Rightarrow> db \<Rightarrow> exn + db" where
  "announce X pid etype occurred_at rtype rid data d =
     bindE (build_webhook_event pid etype occurred_at rtype rid data d) (\<lambda>(w, d1).
       enqueue_webhook_event X w d1)"

section \<open>What a write of the outbox does\<close>

definition outbox_only :: "db \<Rightarrow> db \<Rightarrow> bool" where
  "outbox_only d d' \<longleftrightarrow> (\<exists>au ev de us. d' = d\<lparr>t_audit := t_audit d @ au, t_events := t_events d @ ev,
     t_deliveries := t_deliveries d @ de, t_uuids := us\<rparr>)"

lemma outbox_onlyI:
  "d' = d\<lparr>t_audit := t_audit d @ au, t_events := t_events d @ ev, t_deliveries := t_deliveries d @ de,
     t_uuids := us\<rparr> \<Longrightarrow> outbox_only d d'"
  unfolding outbox_only_def by blast

lemma outbox_only_refl [simp]: "outbox_only d d"
  by (rule outbox_onlyI [where au = "[]" and ev = "[]" and de = "[]" and us = "t_uuids d"]) simp

lemma outbox_only_trans:
  assumes "outbox_only a b" and "outbox_only b c"
  shows "outbox_only a c"
proof -
  from assms(1) obtain au ev de us where "b = a\<lparr>t_audit := t_audit a @ au,
    t_events := t_events a @ ev, t_deliveries := t_deliveries a @ de, t_uuids := us\<rparr>"
    unfolding outbox_only_def by blast
  moreover from assms(2) obtain au' ev' de' us' where "c = b\<lparr>t_audit := t_audit b @ au',
    t_events := t_events b @ ev', t_deliveries := t_deliveries b @ de', t_uuids := us'\<rparr>"
    unfolding outbox_only_def by blast
  ultimately show ?thesis
    by (intro outbox_onlyI [where au = "au @ au'" and ev = "ev @ ev'" and de = "de @ de'" and us = us']) simp
qed

lemma outbox_only_uuid4: "uuid4 d = (u, d') \<Longrightarrow> outbox_only d d'"
  by (rule outbox_onlyI [where au = "[]" and ev = "[]" and de = "[]" and us = "t_uuids d'"]) (auto simp: uuid4_def)

lemma insert_audit_only: "insert_audit e d = Inr d' \<Longrightarrow> outbox_only d d'"
  by (rule outbox_onlyI [where au = "[e]" and ev = "[]" and de = "[]" and us = "t_uuids d"]) (auto simp: insert_audit_def split: if_splits)

lemma insert_event_only: "insert_event e payload d = Inr d' \<Longrightarrow> outbox_only d d'"
  by (rule outbox_onlyI [where au = "[]" and ev = "[\<lparr>er_event = e, er_payload = payload\<rparr>]" and de = "[]" and us = "t_uuids d"])
    (auto simp: insert_event_def split: if_splits)

lemma insert_delivery_only: "insert_delivery v d = Inr d' \<Longrightarrow> outbox_only d d'"
  by (rule outbox_onlyI [where au = "[]" and ev = "[]" and de = "[v]" and us = "t_uuids d"]) (auto simp: insert_delivery_def split: if_splits)

text \<open>
  A write of the outbox: it leaves every other table alone and keeps the database well formed.
  The operations of the store use the four writes below only through this contract.
\<close>

locale outbox_write =
  fixes put :: "db \<Rightarrow> exn + db"
  assumes only: "put d = Inr d' \<Longrightarrow> outbox_only d d'"
    and keeps_ok: "put d = Inr d' \<Longrightarrow> db_ok d \<Longrightarrow> db_ok d'"
begin

lemma frame:
  assumes "put d = Inr d'"
  shows "t_projects d' = t_projects d" "t_api_keys d' = t_api_keys d" "t_decisions d' = t_decisions d"
    "t_integrity d' = t_integrity d" "t_approvals d' = t_approvals d" "t_grants d' = t_grants d"
    "t_idempotency d' = t_idempotency d" "t_policies d' = t_policies d" "t_versions d' = t_versions d"
    "t_subscriptions d' = t_subscriptions d" "t_attempts d' = t_attempts d"
  using only [OF assms] by (auto simp: outbox_only_def)

lemma evolves: "put d = Inr d' \<Longrightarrow> db_evolved d d'"
  by (drule only) (auto simp: outbox_only_def db_evolved_def evolved_append keys_kept_append)

lemma keeps_project: "put d = Inr d' \<Longrightarrow> project_exists d' pid = project_exists d pid"
  by (simp add: project_exists_def frame)

lemma keeps_decision: "put d = Inr d' \<Longrightarrow> decision_exists d' did = decision_exists d did"
  by (simp add: decision_exists_def frame)

lemma grows:
  assumes "put d = Inr d'"
  shows "\<exists>au. t_audit d' = t_audit d @ au" "\<exists>ev. t_events d' = t_events d @ ev"
    "\<exists>de. t_deliveries d' = t_deliveries d @ de"
  using only [OF assms] by (auto simp: outbox_only_def)

end

lemma deliver_to_only:
  "foldE (deliver_to e) subs (ds, d) = Inr (ds', d') \<Longrightarrow> outbox_only d d' \<and> (db_ok d \<longrightarrow> db_ok d')"
proof (induction subs arbitrary: ds d)
  case Nil
  then show ?case by simp
next
  case (Cons s subs)
  from Cons.prems obtain ds1 d1 where step: "deliver_to e s (ds, d) = Inr (ds1, d1)"
    and rest: "foldE (deliver_to e) subs (ds1, d1) = Inr (ds', d')"
    by (auto simp: bindE_Inr_iff)
  have "outbox_only d d1 \<and> (db_ok d \<longrightarrow> db_ok d1)"
  proof (cases "selects e s")
    case False
    with step show ?thesis by (simp add: deliver_to_def)
  next
    case True
    obtain u d2 where u: "uuid4 d = (u, d2)" by force
    with True step have ins: "insert_delivery (new_delivery u e s) d2 = Inr d1"
      by (auto simp: deliver_to_def bindE_Inr_iff)
    show ?thesis
      using outbox_only_trans [OF outbox_only_uuid4 [OF u] insert_delivery_only [OF ins]]
        insert_delivery_ok [OF ins] uuid4_ok [OF u] by blast
  qed
  with Cons.IH [OF rest] show ?case using outbox_only_trans by blast
qed

lemma enqueue_write:
  assumes "enqueue_webhook_event X e d = Inr d'"
  shows "outbox_only d d' \<and> (db_ok d \<longrightarrow> db_ok d')"
proof (cases "project_exists d (we_project e)")
  case False
  with assms show ?thesis by (simp add: enqueue_webhook_event_def)
next
  case True
  with assms obtain d1 ds where ins: "insert_event e (canonical_webhook_payload X e) d = Inr d1"
    and rest: "foldE (deliver_to e) (active_subscriptions d1 (we_project e)) ([], d1) = Inr (ds, d')"
    by (auto simp: enqueue_webhook_event_def insert_event_with_deliveries_def bindE_Inr_iff)
  show ?thesis
    using deliver_to_only [OF rest] insert_event_only [OF ins] insert_event_ok [OF ins] outbox_only_trans
    by blast
qed

interpretation enqueue: outbox_write "enqueue_webhook_event X e" for X e
  by unfold_locales (auto dest: enqueue_write)

lemma record_write:
  assumes "record_administrative_change X e d = Inr d'"
  shows "outbox_only d d' \<and> (db_ok d \<longrightarrow> db_ok d')"
proof -
  from assms obtain d1 w d2 where ins: "insert_audit e d = Inr d1"
    and built: "build_webhook_event_from_audit X e d1 = Inr (w, d2)"
    and enq: "enqueue_webhook_event X w d2 = Inr d'"
    by (auto simp: record_administrative_change_def bindE_Inr_iff)
  from built have u: "uuid4 d1 = (fst (uuid4 d1), d2)"
    by (auto simp: build_webhook_event_from_audit_def build_webhook_event_def split: prod.splits if_splits)
  show ?thesis
    using enqueue_write [OF enq] insert_audit_only [OF ins] insert_audit_ok [OF ins]
      outbox_only_uuid4 [OF u] uuid4_ok [OF u] outbox_only_trans
    by blast
qed

interpretation change: outbox_write "record_administrative_change X e" for X e
  by unfold_locales (auto dest: record_write)

lemma build_audit_event_uuid:
  "build_audit_event X t pid ctx action rtype rid before after metadata d = Inr (e, d') \<Longrightarrow>
    uuid4 d = (ae_id e, d')"
  by (auto simp: build_audit_event_def bindE_Inr_iff split: prod.splits)

interpretation audit: outbox_write "audit_change X t pid ctx action rtype rid before after metadata"
  for X t pid ctx action rtype rid before after metadata
proof
  fix d d' assume "audit_change X t pid ctx action rtype rid before after metadata d = Inr d'"
  then obtain e d1 where built: "build_audit_event X t pid ctx action rtype rid before after metadata d = Inr (e, d1)"
    and rec: "record_administrative_change X e d1 = Inr d'"
    by (auto simp: audit_change_def bindE_Inr_iff)
  note u = build_audit_event_uuid [OF built]
  show "outbox_only d d'" using outbox_only_trans [OF outbox_only_uuid4 [OF u]] record_write [OF rec] by blast
  show "db_ok d \<Longrightarrow> db_ok d'" using record_write [OF rec] uuid4_ok [OF u] by blast
qed

interpretation announcement: outbox_write "announce X pid etype t rtype rid data"
  for X pid etype t rtype rid data
proof
  fix d d' assume "announce X pid etype t rtype rid data d = Inr d'"
  then obtain w d1 where built: "build_webhook_event pid etype t rtype rid data d = Inr (w, d1)"
    and enq: "enqueue_webhook_event X w d1 = Inr d'"
    by (auto simp: announce_def bindE_Inr_iff)
  from built have u: "uuid4 d = (fst (uuid4 d), d1)"
    by (auto simp: build_webhook_event_def split: prod.splits if_splits)
  show "outbox_only d d'" using outbox_only_trans [OF outbox_only_uuid4 [OF u]] enqueue_write [OF enq] by blast
  show "db_ok d \<Longrightarrow> db_ok d'" using enqueue_write [OF enq] uuid4_ok [OF u] by blast
qed

section \<open>Which deliveries an event gets\<close>

fun new_deliveries :: "webhook_event \<Rightarrow> subscription list \<Rightarrow> (nat \<Rightarrow> uuid) \<Rightarrow> delivery list" where
  "new_deliveries e [] us = []"
| "new_deliveries e (s # ss) us =
     (if selects e s then new_delivery (us 0) e s # new_deliveries e ss (\<lambda>n. us (Suc n))
      else new_deliveries e ss us)"

lemma new_deliveries_subscriptions:
  "map de_subscription (new_deliveries e ss us) = map su_id (filter (selects e) ss)"
  by (induction ss arbitrary: us) (auto simp: new_delivery_def)

lemma new_deliveries_pending:
  "list_all (\<lambda>v. de_status v = D_PENDING \<and> de_event v = we_id e \<and> de_project v = we_project e
     \<and> de_next_attempt v = Some (we_occurred_at e) \<and> de_attempts v = 0) (new_deliveries e ss us)"
  by (induction ss arbitrary: us) (auto simp: new_delivery_def)

lemma deliver_to_made:
  "foldE (deliver_to e) subs (ds, d) = Inr (ds', d') \<Longrightarrow>
    ds' = ds @ new_deliveries e subs (t_uuids d)
    \<and> t_deliveries d' = t_deliveries d @ new_deliveries e subs (t_uuids d)
    \<and> t_audit d' = t_audit d \<and> t_events d' = t_events d"
proof (induction subs arbitrary: ds d)
  case Nil
  then show ?case by simp
next
  case (Cons s subs)
  then obtain ds1 d1 where step: "deliver_to e s (ds, d) = Inr (ds1, d1)"
    and rest: "foldE (deliver_to e) subs (ds1, d1) = Inr (ds', d')"
    by (auto simp: bindE_Inr_iff)
  from step have "if selects e s
    then ds1 = ds @ [new_delivery (t_uuids d 0) e s]
      \<and> d1 = d\<lparr>t_uuids := (\<lambda>n. t_uuids d (Suc n)),
             t_deliveries := t_deliveries d @ [new_delivery (t_uuids d 0) e s]\<rparr>
    else ds1 = ds \<and> d1 = d"
    by (auto simp: deliver_to_def uuid4_def bindE_Inr_iff insert_delivery_def split: if_splits)
  with Cons.IH [OF rest] show ?case by (auto split: if_splits)
qed

lemma enqueue_made:
  assumes "enqueue_webhook_event X w d = Inr d'" and "project_exists d (we_project w)"
  shows "t_audit d' = t_audit d
    \<and> t_events d' = t_events d @ [\<lparr>er_event = w, er_payload = canonical_webhook_payload X w\<rparr>]
    \<and> t_deliveries d' = t_deliveries d
        @ new_deliveries w (active_subscriptions d (we_project w)) (t_uuids d)"
proof -
  from assms obtain d1 ds where ins: "insert_event w (canonical_webhook_payload X w) d = Inr d1"
    and rest: "foldE (deliver_to w) (active_subscriptions d1 (we_project w)) ([], d1) = Inr (ds, d')"
    by (auto simp: enqueue_webhook_event_def insert_event_with_deliveries_def bindE_Inr_iff)
  from ins have "d1 = d\<lparr>t_events := t_events d @ [\<lparr>er_event = w, er_payload = canonical_webhook_payload X w\<rparr>]\<rparr>"
    by (auto simp: insert_event_def split: if_splits)
  with deliver_to_made [OF rest] show ?thesis by (simp add: active_subscriptions_def)
qed

section \<open>When a write of the outbox succeeds\<close>

text \<open>
  \<open>fresh_ids\<close>: \<open>uuid4\<close> returns distinct identifiers that nothing in the database bears yet.
\<close>

definition known_ids :: "db \<Rightarrow> uuid set" where
  "known_ids d = pr_id ` set (t_projects d) \<union> ak_id ` set (t_api_keys d) \<union> au_id ` set (t_decisions d)
     \<union> gr_id ` set (t_grants d) \<union> ae_id ` set (t_audit d) \<union> su_id ` set (t_subscriptions d)
     \<union> (\<lambda>r. we_id (er_event r)) ` set (t_events d) \<union> de_id ` set (t_deliveries d)
     \<union> de_event ` set (t_deliveries d) \<union> at_id ` set (t_attempts d)"

definition fresh_ids :: "db \<Rightarrow> bool" where
  "fresh_ids d \<longleftrightarrow> inj (t_uuids d) \<and> (\<forall>n. t_uuids d n \<notin> known_ids d)"

lemma fresh_uuid4:
  assumes "fresh_ids d" and "uuid4 d = (u, d1)"
  shows "u \<notin> known_ids d" and "known_ids d1 = known_ids d" and "fresh_ids d1"
proof -
  from assms(2) have u: "u = t_uuids d 0" "d1 = d\<lparr>t_uuids := (\<lambda>n. t_uuids d (Suc n))\<rparr>"
    by (simp_all add: uuid4_def)
  from assms(1) have inj: "inj (t_uuids d)" and new: "\<And>n. t_uuids d n \<notin> known_ids d"
    by (simp_all add: fresh_ids_def)
  show same: "known_ids d1 = known_ids d" by (simp add: u known_ids_def)
  show "u \<notin> known_ids d" using new u by simp
  have "inj (t_uuids d1)" by (rule injI) (use inj u in \<open>auto dest: injD\<close>)
  moreover have "t_uuids d1 n \<notin> known_ids d1" for n using new [of "Suc n"] same u by simp
  ultimately show "fresh_ids d1" by (simp add: fresh_ids_def)
qed

text \<open>After the identifier drawn last has been used, the others are still fresh.\<close>

lemma fresh_used:
  assumes "fresh_ids d" and "uuid4 d = (u, d1)" and "t_uuids d2 = t_uuids d1"
    and "known_ids d2 \<subseteq> insert u (known_ids d1)"
  shows "fresh_ids d2"
proof -
  from assms(1,2) have u: "t_uuids d1 = (\<lambda>n. t_uuids d (Suc n))" "u = t_uuids d 0"
    by (auto simp: uuid4_def)
  have "t_uuids d2 n \<notin> known_ids d2" for n
  proof -
    have "t_uuids d (Suc n) \<noteq> t_uuids d 0" using assms(1) by (auto simp: fresh_ids_def inj_on_def)
    moreover have "t_uuids d1 n \<notin> known_ids d1" using fresh_uuid4(3) [OF assms(1,2)] by (simp add: fresh_ids_def)
    ultimately show ?thesis using assms(3,4) u by auto
  qed
  moreover have "inj (t_uuids d2)" using fresh_uuid4(3) [OF assms(1,2)] assms(3) by (simp add: fresh_ids_def)
  ultimately show ?thesis by (simp add: fresh_ids_def)
qed

lemma fresh_same:
  "fresh_ids d \<Longrightarrow> t_uuids d' = t_uuids d \<Longrightarrow> known_ids d' = known_ids d \<Longrightarrow> fresh_ids d'"
  by (simp add: fresh_ids_def)

lemma deliver_to_total:
  assumes "fresh_ids d" and "project_exists d (we_project e)"
    and "\<exists>r \<in> set (t_events d). er_event r = e"
    and "\<And>s. s \<in> set subs \<Longrightarrow> s \<in> set (t_subscriptions d) \<and> su_project s = we_project e"
    and "\<And>v s. v \<in> set (t_deliveries d) \<Longrightarrow> s \<in> set subs \<Longrightarrow> \<not> (de_event v = we_id e \<and> de_subscription v = su_id s)"
    and "distinct (map su_id subs)"
  shows "\<exists>ds' d'. foldE (deliver_to e) subs (ds, d) = Inr (ds', d') \<and> fresh_ids d'"
  using assms
proof (induction subs arbitrary: ds d)
  case Nil
  then show ?case by simp
next
  case (Cons s subs)
  show ?case
  proof (cases "selects e s")
    case False
    have "\<exists>ds' d'. foldE (deliver_to e) subs (ds, d) = Inr (ds', d') \<and> fresh_ids d'"
      by (rule Cons.IH) (use Cons.prems in auto)
    moreover have "deliver_to e s (ds, d) = Inr (ds, d)" using False by (simp add: deliver_to_def)
    ultimately show ?thesis by simp
  next
    case True
    obtain u d1 where u: "uuid4 d = (u, d1)" by force
    let ?v = "new_delivery u e s" and ?d2 = "d1\<lparr>t_deliveries := t_deliveries d1 @ [new_delivery u e s]\<rparr>"
    note fresh = fresh_uuid4 [OF Cons.prems(1) u]
    from u have same: "t_deliveries d1 = t_deliveries d" "t_events d1 = t_events d"
      "t_subscriptions d1 = t_subscriptions d" "t_projects d1 = t_projects d" by (auto simp: uuid4_def)
    have "delivery_row_ok d1 ?v"
      unfolding delivery_row_ok_def list_all_iff list_ex_iff
    proof (intro conjI)
      show "project_exists d1 (de_project ?v)"
        using Cons.prems(2) same by (simp add: new_delivery_def project_exists_def)
      show "delivery_check ?v" by (simp add: delivery_check_def status_code_ok_def new_delivery_def)
      show "\<forall>w\<in>set (t_deliveries d1). de_id w \<noteq> de_id ?v
          \<and> \<not> (de_event w = de_event ?v \<and> de_subscription w = de_subscription ?v)"
        using Cons.prems(5) fresh(1) same by (auto simp: new_delivery_def known_ids_def)
      show "\<exists>r\<in>set (t_events d1). we_id (er_event r) = de_event ?v \<and> we_project (er_event r) = de_project ?v"
        using Cons.prems(3) same by (auto simp: new_delivery_def)
      show "\<exists>t\<in>set (t_subscriptions d1). su_id t = de_subscription ?v \<and> su_project t = de_project ?v"
        using Cons.prems(4) [of s] same by (auto simp: new_delivery_def)
    qed
    then have step: "deliver_to e s (ds, d) = Inr (ds @ [?v], ?d2)"
      using True u by (simp add: deliver_to_def insert_delivery_def)
    have "we_id e \<in> known_ids d1" using Cons.prems(3) same by (auto simp: known_ids_def)
    then have "fresh_ids ?d2"
      by (intro fresh_used [OF Cons.prems(1) u]) (auto simp: known_ids_def new_delivery_def)
    moreover have "\<not> (de_event v = we_id e \<and> de_subscription v = su_id t)"
      if "v \<in> set (t_deliveries ?d2)" "t \<in> set subs" for v t
      using that Cons.prems(5) [of v t] Cons.prems(6) same by (auto simp: new_delivery_def)
    ultimately have "\<exists>ds' d'. foldE (deliver_to e) subs (ds @ [?v], ?d2) = Inr (ds', d') \<and> fresh_ids d'"
      by (intro Cons.IH) (use Cons.prems same in \<open>auto simp: project_exists_def\<close>)
    with step show ?thesis by simp
  qed
qed

lemma enqueue_total:
  assumes "db_ok d" and "fresh_ids d" and "project_exists d (we_project w)"
    and "we_id w \<notin> known_ids d" and "\<And>n. t_uuids d n \<noteq> we_id w"
  shows "\<exists>d'. enqueue_webhook_event X w d = Inr d' \<and> fresh_ids d'"
proof -
  let ?row = "\<lparr>er_event = w, er_payload = canonical_webhook_payload X w\<rparr>"
  let ?d1 = "d\<lparr>t_events := t_events d @ [?row]\<rparr>"
  let ?subs = "active_subscriptions ?d1 (we_project w)"
  have "\<forall>r \<in> set (t_events d). we_id w \<noteq> we_id (er_event r)"
    using assms(4) by (auto simp: known_ids_def image_iff)
  then have "event_row_ok d w"
    using assms(3) by (simp add: event_row_ok_def list_all_iff) metis
  then have ins: "insert_event w (canonical_webhook_payload X w) d = Inr ?d1"
    by (simp add: insert_event_def)
  have "known_ids ?d1 = insert (we_id w) (known_ids d)" by (auto simp: known_ids_def)
  then have fresh: "fresh_ids ?d1" using assms(2,5) by (simp add: fresh_ids_def)
  have subs: "su_project s = we_project w" "s \<in> set (t_subscriptions d)" if "s \<in> set ?subs" for s
    using that by (auto simp: active_subscriptions_def)
  have "distinct (map su_id (filter P (t_subscriptions d)))" for P
    using assms(1) by (auto simp: db_ok_def unique_by_def distinct_map inj_on_def)
  then have "distinct (map su_id ?subs)"
    by (auto simp: active_subscriptions_def distinct_map distinct_sort)
  moreover have "de_event v \<noteq> we_id w" if "v \<in> set (t_deliveries d)" for v
  proof -
    have "de_event v \<in> known_ids d" using that by (simp add: known_ids_def)
    with assms(4) show ?thesis by metis
  qed
  ultimately have "\<exists>ds' d'. foldE (deliver_to w) ?subs ([], ?d1) = Inr (ds', d') \<and> fresh_ids d'"
    using assms(3) subs fresh by (intro deliver_to_total) (auto simp: project_exists_def)
  with ins assms(3) show ?thesis
    by (auto simp: enqueue_webhook_event_def insert_event_with_deliveries_def)
qed

lemma announce_total:
  assumes "db_ok d" and "fresh_ids d" and "project_exists d pid"
    and "1 \<le> text_length rid" and "text_length rid \<le> 200"
  shows "\<exists>d'. announce X pid etype t rtype rid data d = Inr d' \<and> fresh_ids d'"
proof -
  obtain u d1 where u: "uuid4 d = (u, d1)" by force
  note fresh = fresh_uuid4 [OF assms(2) u]
  let ?w = "\<lparr>we_id = u, we_project = pid, we_type = etype, we_occurred_at = t,
    we_resource_type = rtype, we_resource = rid, we_data = data\<rparr>"
  have "t_uuids d1 n \<noteq> u" for n using u assms(2) by (auto simp: uuid4_def fresh_ids_def dest: injD)
  then have "\<exists>d'. enqueue_webhook_event X ?w d1 = Inr d' \<and> fresh_ids d'"
    using assms(3) fresh u
    by (intro enqueue_total uuid4_ok [OF u assms(1)]) (auto simp: uuid4_def project_exists_def)
  with u assms(4,5) show ?thesis by (auto simp: announce_def build_webhook_event_def)
qed

lemma audit_total:
  assumes "db_ok d" and "fresh_ids d" and "project_exists d pid" and "resource_identifier X rid = Inr r"
  shows "\<exists>d'. audit_change X t pid ctx action rtype rid before after metadata d = Inr d' \<and> fresh_ids d'"
proof -
  obtain u d1 where u: "uuid4 d = (u, d1)" by force
  note fresh = fresh_uuid4 [OF assms(2) u]
  from u have same: "t_projects d1 = t_projects d" "t_audit d1 = t_audit d" by (auto simp: uuid4_def)
  let ?e = "\<lparr>ae_id = u, ae_occurred_at = t, ae_project = pid, ae_actor_type = ac_type ctx,
    ae_actor = ac_actor ctx, ae_action = action, ae_resource_type = rtype, ae_resource = r,
    ae_reason = ac_reason ctx, ae_before = before, ae_after = after, ae_metadata = metadata\<rparr>"
  let ?d2 = "d1\<lparr>t_audit := t_audit d1 @ [?e]\<rparr>"
  have built: "build_audit_event X t pid ctx action rtype rid before after metadata d = Inr (?e, d1)"
    using u assms(4) by (simp add: build_audit_event_def)
  have ok: "audit_row_ok d1 ?e"
    using assms(3) fresh(1,2) same by (auto simp: audit_row_ok_def project_exists_def known_ids_def list_all_iff)
  then have ins: "insert_audit ?e d1 = Inr ?d2" by (simp add: insert_audit_def)
  have fresh2: "fresh_ids ?d2"
    by (rule fresh_used [OF assms(2) u]) (auto simp: known_ids_def)
  have "1 \<le> text_length r \<and> text_length r \<le> 200"
    using assms(4) by (auto simp: resource_identifier_def Let_def split: if_splits)
  then obtain d' where "announce X pid (AUDIT_WEBHOOK_EVENT_TYPES action) t rtype r
      [(''audit_event'', audit_event_json X ?e)] ?d2 = Inr d'" "fresh_ids d'"
    using announce_total [OF insert_audit_ok [OF ins uuid4_ok [OF u assms(1)]] fresh2, of pid r X]
      assms(3) same by (force simp: project_exists_def)
  then have "record_administrative_change X ?e d1 = Inr d'"
    using ins by (simp add: record_administrative_change_def build_webhook_event_from_audit_def announce_def)
  with built \<open>fresh_ids d'\<close> show ?thesis by (simp add: audit_change_def)
qed

text \<open>An identifier that neither the database nor the generator knows stays so.\<close>

definition unused :: "uuid \<Rightarrow> db \<Rightarrow> bool" where
  "unused u d \<longleftrightarrow> u \<notin> known_ids d \<and> u \<notin> range (t_uuids d)"

lemma unused_uuid4: "unused u d \<Longrightarrow> uuid4 d = (v, d') \<Longrightarrow> unused u d' \<and> u \<noteq> v"
  by (auto simp: unused_def uuid4_def known_ids_def)

lemma unused_add:
  assumes "unused u d" and "t_uuids d' = t_uuids d" and "known_ids d' \<subseteq> known_ids d \<union> V" and "u \<notin> V"
  shows "unused u d'"
  using assms by (auto simp: unused_def)

lemma deliver_to_unused:
  "foldE (deliver_to e) subs (ds, d) = Inr (ds', d') \<Longrightarrow> unused u d \<Longrightarrow> u \<noteq> we_id e \<Longrightarrow> unused u d'"
proof (induction subs arbitrary: ds d)
  case Nil
  then show ?case by simp
next
  case (Cons s subs)
  from Cons.prems(1) obtain ds1 d1 where step: "deliver_to e s (ds, d) = Inr (ds1, d1)"
    and rest: "foldE (deliver_to e) subs (ds1, d1) = Inr (ds', d')"
    by (auto simp: bindE_Inr_iff)
  have "unused u d1"
  proof (cases "selects e s")
    case False
    with step Cons.prems(2) show ?thesis by (simp add: deliver_to_def)
  next
    case True
    obtain v d2 where v: "uuid4 d = (v, d2)" by force
    with True step have d1: "d1 = d2\<lparr>t_deliveries := t_deliveries d2 @ [new_delivery v e s]\<rparr>"
      by (auto simp: deliver_to_def bindE_Inr_iff insert_delivery_def split: if_splits)
    note un = unused_uuid4 [OF Cons.prems(2) v]
    show ?thesis
      by (rule unused_add [of u d2 _ "{v, we_id e}"])
        (use un Cons.prems(3) in \<open>auto simp: d1 known_ids_def new_delivery_def\<close>)
  qed
  with Cons.IH [OF rest] Cons.prems(3) show ?case by blast
qed

lemma enqueue_unused:
  assumes "enqueue_webhook_event X w d = Inr d'" and "unused u d" and "u \<noteq> we_id w"
  shows "unused u d'"
proof (cases "project_exists d (we_project w)")
  case False
  with assms show ?thesis by (simp add: enqueue_webhook_event_def)
next
  case True
  with assms(1) obtain d1 ds where ins: "insert_event w (canonical_webhook_payload X w) d = Inr d1"
    and rest: "foldE (deliver_to w) (active_subscriptions d1 (we_project w)) ([], d1) = Inr (ds, d')"
    by (auto simp: enqueue_webhook_event_def insert_event_with_deliveries_def bindE_Inr_iff)
  have "unused u d1"
    by (rule unused_add [of u d _ "{we_id w}"])
      (use ins assms(2,3) in \<open>auto simp: insert_event_def known_ids_def split: if_splits\<close>)
  then show ?thesis by (rule deliver_to_unused [OF rest _ assms(3)])
qed

lemma announce_unused:
  assumes "announce X pid etype t rtype rid data d = Inr d'" and "unused u d"
  shows "unused u d'"
proof -
  obtain v d1 where v: "uuid4 d = (v, d1)" by force
  then show ?thesis
    using assms(1) unused_uuid4 [OF assms(2) v]
    by (auto simp: announce_def build_webhook_event_def split: if_splits elim!: enqueue_unused)
qed

lemma audit_unused:
  assumes "audit_change X t pid ctx action rtype rid before after metadata d = Inr d'" and "unused u d"
  shows "unused u d'"
proof -
  obtain v d1 where v: "uuid4 d = (v, d1)" by force
  note un = unused_uuid4 [OF assms(2) v]
  from assms(1) v obtain e d2 where ins: "insert_audit e d1 = Inr d2" and e: "ae_id e = v"
    and rest: "announce X (ae_project e) (AUDIT_WEBHOOK_EVENT_TYPES (ae_action e)) (ae_occurred_at e)
      (ae_resource_type e) (ae_resource e) [(''audit_event'', audit_event_json X e)] d2 = Inr d'"
    by (auto simp: audit_change_def build_audit_event_def record_administrative_change_def
        build_webhook_event_from_audit_def announce_def bindE_Inr_iff)
  have "unused u d2"
    by (rule unused_add [of u d1 _ "{v}"])
      (use ins e un in \<open>auto simp: insert_audit_def known_ids_def split: if_splits\<close>)
  then show ?thesis by (rule announce_unused [OF rest])
qed

text \<open>\<open>strip_whitespace\<close> leaves the text of an identifier, which has no whitespace, as it is.\<close>

definition strips_only_whitespace :: "externals \<Rightarrow> bool" where
  "strips_only_whitespace X \<longleftrightarrow> (\<forall>u. x_strip X (uuid_text u) = uuid_text u)"

lemma text_length_ascii: "list_all (\<lambda>c. (of_char c :: nat) < 128) s \<Longrightarrow> text_length s = length s"
  by (induction s) (auto simp: text_length_def)

lemma hex_pad_ascii: "list_all (\<lambda>c. (of_char c :: nat) < 128) (hex_pad w n)"
proof (induction w arbitrary: n)
  case (Suc w)
  have "n mod 16 < 16" by simp
  then have "(of_char (hex_char (n mod 16)) :: nat) < 128" by (auto simp: hex_char_def)
  with Suc show ?case by simp
qed simp

lemma uuid_text_length [simp]: "text_length (uuid_text u) = 36"
proof -
  have "list_all (\<lambda>c. (of_char c :: nat) < 128) (take k (drop j (hex_pad 32 u)))" for k j
    using hex_pad_ascii [of 32 u] by (auto simp: list_all_iff dest: in_set_takeD in_set_dropD)
  from this [of 8 0] this [of 4 8] this [of 4 12] this [of 4 16] this [of 12 20]
  have "list_all (\<lambda>c. (of_char c :: nat) < 128) (uuid_text u)"
    by (simp add: uuid_text_def Let_def del: hex_pad.simps)
  then show ?thesis by (simp add: text_length_ascii)
qed

lemma resource_identifier_uuid [simp]:
  "strips_only_whitespace X \<Longrightarrow> resource_identifier X (uuid_text u) = Inr (uuid_text u)"
  by (simp add: resource_identifier_def strips_only_whitespace_def)

section \<open>The outbox contract\<close>

lemma audit_change_made:
  assumes "audit_change X t pid ctx action rtype rid before after metadata d = Inr d'"
  shows "\<exists>e w ds.
    d' = d\<lparr>t_audit := t_audit d @ [e],
           t_events := t_events d @ [\<lparr>er_event = w, er_payload = canonical_webhook_payload X w\<rparr>],
           t_deliveries := t_deliveries d @ ds, t_uuids := t_uuids d'\<rparr>
    \<and> ae_project e = pid \<and> resource_identifier X rid = Inr (ae_resource e) \<and> ae_action e = action \<and> ae_occurred_at e = t
    \<and> ae_actor e = ac_actor ctx \<and> ae_resource_type e = rtype \<and> ae_before e = before \<and> ae_after e = after
    \<and> we_project w = pid \<and> we_type w = AUDIT_WEBHOOK_EVENT_TYPES action \<and> we_occurred_at w = t
    \<and> we_data w = [(''audit_event'', audit_event_json X e)]
    \<and> map de_subscription ds = map su_id (filter (selects w) (active_subscriptions d pid))
    \<and> list_all (\<lambda>v. de_status v = D_PENDING \<and> de_event v = we_id w \<and> de_project v = pid
         \<and> de_next_attempt v = Some t \<and> de_attempts v = 0) ds"
proof -
  from assms obtain e d1 d2 w d3
    where built: "build_audit_event X t pid ctx action rtype rid before after metadata d = Inr (e, d1)"
      and ins: "insert_audit e d1 = Inr d2"
      and hook: "build_webhook_event_from_audit X e d2 = Inr (w, d3)"
      and enq: "enqueue_webhook_event X w d3 = Inr d'"
    by (auto simp: audit_change_def record_administrative_change_def bindE_Inr_iff)
  have e: "ae_project e = pid \<and> resource_identifier X rid = Inr (ae_resource e) \<and> ae_action e = action \<and> ae_occurred_at e = t
      \<and> ae_actor e = ac_actor ctx \<and> ae_resource_type e = rtype \<and> ae_before e = before \<and> ae_after e = after"
    using built by (auto simp: build_audit_event_def uuid4_def bindE_Inr_iff)
  obtain us1 where d1: "d1 = d\<lparr>t_uuids := us1\<rparr>"
    using built by (auto simp: build_audit_event_def uuid4_def bindE_Inr_iff)
  have d2: "d2 = d1\<lparr>t_audit := t_audit d1 @ [e]\<rparr>" and row: "project_exists d1 pid"
    using ins e by (auto simp: insert_audit_def audit_row_ok_def split: if_splits)
  have w: "we_project w = pid \<and> we_type w = AUDIT_WEBHOOK_EVENT_TYPES action \<and> we_occurred_at w = t
      \<and> we_data w = [(''audit_event'', audit_event_json X e)]"
    using hook e by (auto simp: build_webhook_event_from_audit_def build_webhook_event_def uuid4_def
        split: if_splits)
  obtain us3 where d3: "d3 = d2\<lparr>t_uuids := us3\<rparr>"
    using hook by (auto simp: build_webhook_event_from_audit_def build_webhook_event_def uuid4_def
        split: if_splits)
  let ?ds = "new_deliveries w (active_subscriptions d3 pid) (t_uuids d3)"
  have base: "d3 = d\<lparr>t_audit := t_audit d @ [e], t_uuids := us3\<rparr>" by (simp add: d3 d2 d1)
  then have same: "t_audit d3 = t_audit d @ [e]" "t_events d3 = t_events d" "t_deliveries d3 = t_deliveries d"
    "t_subscriptions d3 = t_subscriptions d" "t_projects d3 = t_projects d"
    by simp_all
  have projects: "t_projects d3 = t_projects d1" by (simp add: d3 d2)
  have made: "t_audit d' = t_audit d3
      \<and> t_events d' = t_events d3 @ [\<lparr>er_event = w, er_payload = canonical_webhook_payload X w\<rparr>]
      \<and> t_deliveries d' = t_deliveries d3 @ ?ds"
    using enqueue_made [OF enq] row w projects by (simp add: project_exists_def)
  have "d' = d3\<lparr>t_audit := t_audit d', t_events := t_events d', t_deliveries := t_deliveries d',
      t_uuids := t_uuids d'\<rparr>"
    using enqueue.only [OF enq] by (auto simp: outbox_only_def)
  then have d': "d' = d\<lparr>t_audit := t_audit d @ [e],
      t_events := t_events d @ [\<lparr>er_event = w, er_payload = canonical_webhook_payload X w\<rparr>],
      t_deliveries := t_deliveries d @ ?ds, t_uuids := t_uuids d'\<rparr>"
    using made same base by simp
  have "active_subscriptions d3 pid = active_subscriptions d pid"
    by (simp add: active_subscriptions_def same)
  then have "map de_subscription ?ds = map su_id (filter (selects w) (active_subscriptions d pid))"
    by (simp add: new_deliveries_subscriptions)
  moreover have "list_all (\<lambda>v. de_status v = D_PENDING \<and> de_event v = we_id w \<and> de_project v = pid
      \<and> de_next_attempt v = Some t \<and> de_attempts v = 0) ?ds"
    using new_deliveries_pending [of w] w by simp
  ultimately show ?thesis using d' e w by blast
qed

text \<open>
  An administrative change that commits appends exactly one audit event, exactly one webhook
  event that carries it (with the type its action stands for), and one pending delivery, due at
  once, for each active subscription of the project that selects the type, in the order of their
  creation; it touches no other table.
\<close>

theorem audit_change_outbox:
  assumes "audit_change X t pid ctx action rtype rid before after metadata d = Inr d'"
  shows "\<exists>e w ds.
    d' = d\<lparr>t_audit := t_audit d @ [e],
           t_events := t_events d @ [\<lparr>er_event = w, er_payload = canonical_webhook_payload X w\<rparr>],
           t_deliveries := t_deliveries d @ ds, t_uuids := t_uuids d'\<rparr>
    \<and> ae_project e = pid \<and> resource_identifier X rid = Inr (ae_resource e) \<and> ae_action e = action \<and> ae_occurred_at e = t
    \<and> ae_actor e = ac_actor ctx \<and> ae_resource_type e = rtype \<and> ae_before e = before \<and> ae_after e = after
    \<and> we_project w = pid \<and> we_type w = AUDIT_WEBHOOK_EVENT_TYPES action \<and> we_occurred_at w = t
    \<and> we_data w = [(''audit_event'', audit_event_json X e)]
    \<and> map de_subscription ds = map su_id (filter (selects w) (active_subscriptions d pid))
    \<and> list_all (\<lambda>v. de_status v = D_PENDING \<and> de_event v = we_id w \<and> de_project v = pid
         \<and> de_next_attempt v = Some t \<and> de_attempts v = 0) ds"
  by (rule audit_change_made [OF assms])

section \<open>A sample instance\<close>

text \<open>
  Instances of the parameters and a small database, at which the theorems are applied: identifiers
  come from a counter, and the digests are toy functions.
\<close>

definition sample_externals :: externals where
  "sample_externals = \<lparr>x_float = (\<lambda>m e. show_int m @ ''e'' @ show_int e), x_time = isoformat,
     x_strip = (\<lambda>s. s),
     x_sha256 = (\<lambda>s. hex_pad 64 (foldl (\<lambda>h c. (h * 31 + of_char c) mod 1000003) 7 s)),
     x_hmac = (\<lambda>k s. take 32 (hex_pad 64 (foldl (\<lambda>h c. (h * 37 + of_char c) mod 1000003) 7 (k @ s)))),
     x_scrypt = (\<lambda>s salt. take 32 (salt @ s)), x_load_grant = (\<lambda>s. None)\<rparr>"

lemma sample_strips [simp]: "strips_only_whitespace sample_externals"
  by (simp add: strips_only_whitespace_def sample_externals_def)

definition sample_project :: project where
  "sample_project = \<lparr>pr_id = 2, pr_name = ''Default Project'', pr_status = Project_ACTIVE,
     pr_created_at = 0, pr_updated_at = 0\<rparr>"

definition sample_subscription :: "uuid \<Rightarrow> event_selector list \<Rightarrow> instant \<Rightarrow> subscription" where
  "sample_subscription u events t = \<lparr>su_id = u, su_project = 2, su_url = ''https://hooks.example.org/'',
     su_events = events, su_status = Subscription_ACTIVE, su_secret_version = 1,
     su_created_at = t, su_updated_at = t, su_disabled_at = None\<rparr>"

definition sample_db :: db where
  "sample_db = (empty_db (\<lambda>n. n + 1000))\<lparr>t_projects := [sample_project],
     t_subscriptions := [sample_subscription 11 [Only_event E_approval_resolved] 5,
       sample_subscription 12 [Only_event E_project_created] 4,
       sample_subscription 13 [Any_event] 3]\<rparr>"

definition sample_context :: audit_context where
  "sample_context = \<lparr>ac_type = ADMIN, ac_actor = ''admin'', ac_reason = None\<rparr>"

lemma sample_db_ok [simp]: "db_ok sample_db" "fresh_ids sample_db" "project_exists sample_db 2"
  by (auto simp: db_ok_def references_ok_def refers_def sample_db_def empty_db_def unique_by_def sample_subscription_def
      subscription_check_def fresh_ids_def known_ids_def sample_project_def project_exists_def inj_on_def)

theorem audit_change_outbox_witness:
  "\<exists>d' e w ds. audit_change sample_externals 7 2 sample_context APPROVAL_RESOLVED R_APPROVAL (uuid_text 5)
      None None [] sample_db = Inr d'
    \<and> t_audit d' = [e] \<and> ae_action e = APPROVAL_RESOLVED
    \<and> map er_event (t_events d') = [w] \<and> we_type w = E_approval_resolved
    \<and> t_deliveries d' = ds \<and> map de_subscription ds = [13, 11]"
proof -
  obtain d' where d': "audit_change sample_externals 7 2 sample_context APPROVAL_RESOLVED R_APPROVAL
      (uuid_text 5) None None [] sample_db = Inr d'"
    using audit_total [OF sample_db_ok(1,2,3) resource_identifier_uuid [OF sample_strips]] by blast
  have subs: "active_subscriptions sample_db 2 = [sample_subscription 13 [Any_event] 3,
      sample_subscription 12 [Only_event E_project_created] 4,
      sample_subscription 11 [Only_event E_approval_resolved] 5]"
    by (simp add: active_subscriptions_def sample_db_def sample_subscription_def)
  have empty: "t_audit sample_db = []" "t_events sample_db = []" "t_deliveries sample_db = []"
    by (simp_all add: sample_db_def empty_db_def)
  from audit_change_outbox [OF d'] obtain e w ds where
    eq: "d' = sample_db\<lparr>t_audit := t_audit sample_db @ [e],
           t_events := t_events sample_db @ [\<lparr>er_event = w,
             er_payload = canonical_webhook_payload sample_externals w\<rparr>],
           t_deliveries := t_deliveries sample_db @ ds, t_uuids := t_uuids d'\<rparr>"
    and e: "ae_action e = APPROVAL_RESOLVED" and w: "we_type w = E_approval_resolved"
    and ds: "map de_subscription ds = map su_id (filter (selects w) (active_subscriptions sample_db 2))"
    by (elim exE conjE) simp
  have "t_audit d' = [e]" "map er_event (t_events d') = [w]" "t_deliveries d' = ds"
    by (subst eq, simp add: empty)+
  with d' show ?thesis
    by (intro exI [of _ d'] exI [of _ e] exI [of _ w] exI [of _ ds])
      (simp add: e w ds subs selects_def sample_subscription_def)
qed

end
