(* ===== verification/Contracts.thy ===== *)
theory Contracts
  imports Outbox
begin

text \<open>
  What every operation of the store promises, whatever it does: the database stays well formed,
  it only evolves, and no table outside those the operation is about changes
  (\<open>accepted\<close>). The locales state the promise for a block and for an operation; a
  transaction gives one from the other. The theory also holds the reading of the rows of
  approvals and of execution grants, whose validators say more than the schema, and the invariant
  \<open>store_ok\<close> that ties the two tables to the decisions.
\<close>

section \<open>Tables an operation may change\<close>

datatype (plugins only: code size) table =
    Projects | Api_Keys | Decisions | Ledger | Approval_Requests | Execution_Grants | Idempotency
  | Policies | Versions | Subscriptions | Attempts | Deliveries | Trail

definition kept :: "table set \<Rightarrow> table \<Rightarrow> (db \<Rightarrow> 'c) \<Rightarrow> db \<Rightarrow> db \<Rightarrow> bool" where
  "kept S T column d d' \<longleftrightarrow> T \<in> S \<or> column d' = column d"

lemma kept_refl [simp]: "kept S T column d d"
  by (simp add: kept_def)

lemma kept_trans: "kept S T column a b \<Longrightarrow> kept S T column b c \<Longrightarrow> kept S T column a c"
  by (auto simp: kept_def)

lemma kept_mono: "S \<subseteq> S' \<Longrightarrow> kept S T column a b \<Longrightarrow> kept S' T column a b"
  by (auto simp: kept_def)

definition touches :: "table set \<Rightarrow> db \<Rightarrow> db \<Rightarrow> bool" where
  "touches S d d' \<longleftrightarrow>
     kept S Projects t_projects d d'
     \<and> kept S Api_Keys t_api_keys d d'
     \<and> kept S Decisions t_decisions d d'
     \<and> kept S Ledger t_integrity d d'
     \<and> kept S Approval_Requests t_approvals d d'
     \<and> kept S Execution_Grants t_grants d d'
     \<and> kept S Idempotency t_idempotency d d'
     \<and> kept S Policies t_policies d d'
     \<and> kept S Versions t_versions d d'
     \<and> kept S Subscriptions t_subscriptions d d'
     \<and> kept S Attempts t_attempts d d'
     \<and> kept S Deliveries t_deliveries d d'
     \<and> kept S Trail t_audit d d'
     \<and> kept S Trail t_events d d'"

lemma touches_refl [simp]: "touches S d d"
  by (simp add: touches_def)

lemma touches_trans: "touches S a b \<Longrightarrow> touches S b c \<Longrightarrow> touches S a c"
  unfolding touches_def by (elim conjE, intro conjI; erule (1) kept_trans)

lemma touches_mono: "touches S a b \<Longrightarrow> S \<subseteq> S' \<Longrightarrow> touches S' a b"
  unfolding touches_def by (elim conjE, intro conjI; erule (1) kept_mono [rotated])

definition accepted :: "table set \<Rightarrow> db \<Rightarrow> db \<Rightarrow> bool" where
  "accepted S d d' \<longleftrightarrow> db_evolved d d' \<and> (db_ok d \<longrightarrow> db_ok d') \<and> touches S d d'"

lemma accepted_refl [simp]: "accepted S d d"
  by (simp add: accepted_def)

lemma accepted_trans [trans]: "accepted S a b \<Longrightarrow> accepted S b c \<Longrightarrow> accepted S a c"
  unfolding accepted_def using db_evolved_trans touches_trans by blast

lemma accepted_mono: "accepted S a b \<Longrightarrow> S \<subseteq> S' \<Longrightarrow> accepted S' a b"
  unfolding accepted_def using touches_mono by blast

lemma accepted_ok: "accepted S a b \<Longrightarrow> db_ok a \<Longrightarrow> db_ok b"
  by (simp add: accepted_def)

lemma accepted_evolved: "accepted S a b \<Longrightarrow> db_evolved a b"
  by (simp add: accepted_def)

lemma accepted_frame:
  "accepted S d d' \<Longrightarrow> Projects \<notin> S \<Longrightarrow> t_projects d' = t_projects d"
  "accepted S d d' \<Longrightarrow> Api_Keys \<notin> S \<Longrightarrow> t_api_keys d' = t_api_keys d"
  "accepted S d d' \<Longrightarrow> Decisions \<notin> S \<Longrightarrow> t_decisions d' = t_decisions d"
  "accepted S d d' \<Longrightarrow> Ledger \<notin> S \<Longrightarrow> t_integrity d' = t_integrity d"
  "accepted S d d' \<Longrightarrow> Approval_Requests \<notin> S \<Longrightarrow> t_approvals d' = t_approvals d"
  "accepted S d d' \<Longrightarrow> Execution_Grants \<notin> S \<Longrightarrow> t_grants d' = t_grants d"
  "accepted S d d' \<Longrightarrow> Idempotency \<notin> S \<Longrightarrow> t_idempotency d' = t_idempotency d"
  "accepted S d d' \<Longrightarrow> Policies \<notin> S \<Longrightarrow> t_policies d' = t_policies d"
  "accepted S d d' \<Longrightarrow> Versions \<notin> S \<Longrightarrow> t_versions d' = t_versions d"
  "accepted S d d' \<Longrightarrow> Subscriptions \<notin> S \<Longrightarrow> t_subscriptions d' = t_subscriptions d"
  "accepted S d d' \<Longrightarrow> Attempts \<notin> S \<Longrightarrow> t_attempts d' = t_attempts d"
  "accepted S d d' \<Longrightarrow> Deliveries \<notin> S \<Longrightarrow> t_deliveries d' = t_deliveries d"
  "accepted S d d' \<Longrightarrow> Trail \<notin> S \<Longrightarrow> t_audit d' = t_audit d"
  "accepted S d d' \<Longrightarrow> Trail \<notin> S \<Longrightarrow> t_events d' = t_events d"
  unfolding accepted_def touches_def kept_def by simp_all

named_theorems accepts "statements and blocks that keep the promise"

text \<open>The tables of the outbox.\<close>

abbreviation outbox_tables :: "table set" where
  "outbox_tables \<equiv> {Trail, Deliveries}"

lemma outbox_only_accepted:
  assumes "outbox_only d d'" and "db_ok d \<Longrightarrow> db_ok d'"
  shows "accepted outbox_tables d d'"
proof -
  from assms(1) obtain au ev de us where d': "d' = d\<lparr>t_audit := t_audit d @ au,
    t_events := t_events d @ ev, t_deliveries := t_deliveries d @ de, t_uuids := us\<rparr>"
    unfolding outbox_only_def by blast
  have "db_evolved d d'" by (simp add: d' db_evolved_def evolved_append keys_kept_append)
  moreover have "touches outbox_tables d d'" by (simp add: d' touches_def kept_def)
  ultimately show ?thesis using assms(2) by (simp add: accepted_def)
qed

context outbox_write
begin

lemma accepted_put:
  assumes "put d = Inr d'" and "outbox_tables \<subseteq> S"
  shows "accepted S d d'"
  by (rule accepted_mono [OF outbox_only_accepted [OF only [OF assms(1)] keeps_ok [OF assms(1)]] assms(2)])

end

lemma audit_accepted [accepts]:
  "audit_change X t pid ctx action rtype rid before after metadata d = Inr d' \<Longrightarrow> outbox_tables \<subseteq> S
    \<Longrightarrow> accepted S d d'"
  by (rule audit.accepted_put)

lemma announce_accepted [accepts]:
  "announce X pid etype t rtype rid data d = Inr d' \<Longrightarrow> outbox_tables \<subseteq> S \<Longrightarrow> accepted S d d'"
  by (rule announcement.accepted_put)

text \<open>Most operations write their audit event only when they are given a context.\<close>

definition audit_option ::
  "externals \<Rightarrow> instant \<Rightarrow> uuid \<Rightarrow> audit_context option \<Rightarrow> audit_action \<Rightarrow> resource_type \<Rightarrow> string
    \<Rightarrow> json option \<Rightarrow> json option \<Rightarrow> (string \<times> json) list \<Rightarrow> db \<Rightarrow> exn + db" where
  "audit_option X t pid ctx action rtype rid before after metadata d =
     (case ctx of None \<Rightarrow> Inr d | Some c \<Rightarrow> audit_change X t pid c action rtype rid before after metadata d)"

interpretation optional_audit: outbox_write "audit_option X t pid ctx action rtype rid before after metadata"
  for X t pid ctx action rtype rid before after metadata
  by unfold_locales (auto simp: audit_option_def dest: audit.only audit.keeps_ok split: option.splits)

lemma audit_option_accepted [accepts]:
  "audit_option X t pid ctx action rtype rid before after metadata d = Inr d' \<Longrightarrow> outbox_tables \<subseteq> S
    \<Longrightarrow> accepted S d d'"
  by (rule optional_audit.accepted_put)

lemma audit_option_total:
  assumes "db_ok d" and "fresh_ids d" and "project_exists d pid" and "resource_identifier X rid = Inr r"
  shows "\<exists>d'. audit_option X t pid ctx action rtype rid before after metadata d = Inr d' \<and> fresh_ids d'"
  using assms(2) audit_total [OF assms] by (auto simp: audit_option_def split: option.split)

text \<open>The single statements.\<close>

lemma insert_project_accepted [accepts]: "insert_project p d = Inr d' \<Longrightarrow> Projects \<in> S \<Longrightarrow> accepted S d d'"
  using insert_project_evolved [of p d d'] insert_project_ok [of p d d']
  by (simp add: accepted_def) (auto simp: insert_project_def touches_def kept_def split: if_splits)

lemma insert_api_key_accepted [accepts]: "insert_api_key k d = Inr d' \<Longrightarrow> Api_Keys \<in> S \<Longrightarrow> accepted S d d'"
  using insert_api_key_evolved [of k d d'] insert_api_key_ok [of k d d']
  by (simp add: accepted_def) (auto simp: insert_api_key_def touches_def kept_def split: if_splits)

lemma insert_decision_accepted [accepts]: "insert_decision a d = Inr d' \<Longrightarrow> Decisions \<in> S \<Longrightarrow> accepted S d d'"
  using insert_decision_evolved [of a d d'] insert_decision_ok [of a d d']
  by (simp add: accepted_def) (auto simp: insert_decision_def touches_def kept_def split: if_splits)

lemma insert_proof_accepted [accepts]: "insert_proof ip d = Inr d' \<Longrightarrow> Ledger \<in> S \<Longrightarrow> accepted S d d'"
  using insert_proof_evolved [of ip d d'] insert_proof_ok [of ip d d']
  by (simp add: accepted_def) (auto simp: insert_proof_def touches_def kept_def split: if_splits)

lemma insert_approval_accepted [accepts]: "insert_approval ap d = Inr d' \<Longrightarrow> Approval_Requests \<in> S \<Longrightarrow> accepted S d d'"
  using insert_approval_evolved [of ap d d'] insert_approval_ok [of ap d d']
  by (simp add: accepted_def) (auto simp: insert_approval_def touches_def kept_def split: if_splits)

lemma insert_grant_accepted [accepts]: "insert_grant g d = Inr d' \<Longrightarrow> Execution_Grants \<in> S \<Longrightarrow> accepted S d d'"
  using insert_grant_evolved [of g d d'] insert_grant_ok [of g d d']
  by (simp add: accepted_def) (auto simp: insert_grant_def touches_def kept_def split: if_splits)

lemma insert_idempotency_accepted [accepts]: "insert_idempotency im d = Inr d' \<Longrightarrow> Idempotency \<in> S \<Longrightarrow> accepted S d d'"
  using insert_idempotency_evolved [of im d d'] insert_idempotency_ok [of im d d']
  by (simp add: accepted_def) (auto simp: insert_idempotency_def touches_def kept_def split: if_splits)

lemma insert_policy_row_accepted [accepts]: "insert_policy_row c d = Inr d' \<Longrightarrow> Policies \<in> S \<Longrightarrow> accepted S d d'"
  using insert_policy_row_evolved [of c d d'] insert_policy_row_ok [of c d d']
  by (simp add: accepted_def) (auto simp: insert_policy_row_def touches_def kept_def split: if_splits)

lemma insert_version_row_accepted [accepts]: "insert_version_row v d = Inr d' \<Longrightarrow> Versions \<in> S \<Longrightarrow> accepted S d d'"
  using insert_version_row_evolved [of v d d'] insert_version_row_ok [of v d d']
  by (simp add: accepted_def) (auto simp: insert_version_row_def touches_def kept_def split: if_splits)

lemma insert_subscription_accepted [accepts]: "insert_subscription s d = Inr d' \<Longrightarrow> Subscriptions \<in> S \<Longrightarrow> accepted S d d'"
  using insert_subscription_evolved [of s d d'] insert_subscription_ok [of s d d']
  by (simp add: accepted_def) (auto simp: insert_subscription_def touches_def kept_def split: if_splits)

lemma insert_delivery_accepted [accepts]: "insert_delivery dv d = Inr d' \<Longrightarrow> Deliveries \<in> S \<Longrightarrow> accepted S d d'"
  using insert_delivery_evolved [of dv d d'] insert_delivery_ok [of dv d d']
  by (simp add: accepted_def) (auto simp: insert_delivery_def touches_def kept_def split: if_splits)

lemma insert_attempt_accepted [accepts]: "insert_attempt at d = Inr d' \<Longrightarrow> Attempts \<in> S \<Longrightarrow> accepted S d d'"
  using insert_attempt_evolved [of at d d'] insert_attempt_ok [of at d d']
  by (simp add: accepted_def) (auto simp: insert_attempt_def touches_def kept_def split: if_splits)

lemma update_approvals_accepted [accepts]: "update_approvals P f d = Inr d' \<Longrightarrow> Approval_Requests \<in> S \<Longrightarrow> accepted S d d'"
  using update_evolved(1) [of P f d d'] update_approvals_ok [of P f d d']
  by (simp add: accepted_def) (auto simp: update_Inr touches_def kept_def)

lemma update_grants_accepted [accepts]: "update_grants P f d = Inr d' \<Longrightarrow> Execution_Grants \<in> S \<Longrightarrow> accepted S d d'"
  using update_evolved(2) [of P f d d'] update_grants_ok [of P f d d']
  by (simp add: accepted_def) (auto simp: update_Inr touches_def kept_def)

lemma update_subscriptions_accepted [accepts]: "update_subscriptions P f d = Inr d' \<Longrightarrow> Subscriptions \<in> S \<Longrightarrow> accepted S d d'"
  using update_evolved(3) [of P f d d'] update_subscriptions_ok [of P f d d']
  by (simp add: accepted_def) (auto simp: update_Inr touches_def kept_def)

lemma update_deliveries_accepted [accepts]: "update_deliveries P f d = Inr d' \<Longrightarrow> Deliveries \<in> S \<Longrightarrow> accepted S d d'"
  using update_evolved(4) [of P f d d'] update_deliveries_ok [of P f d d']
  by (simp add: accepted_def) (auto simp: update_Inr touches_def kept_def)

section \<open>Blocks and operations\<close>

locale store_operation =
  fixes S :: "table set" and run :: "'a operation"
  assumes accepted_run: "run d = (r, d') \<Longrightarrow> accepted S d d'"
begin

lemma keeps_ok: "run d = (r, d') \<Longrightarrow> db_ok d \<Longrightarrow> db_ok d'"
  by (blast dest: accepted_run accepted_ok)

lemma evolves: "run d = (r, d') \<Longrightarrow> db_evolved d d'"
  by (blast dest: accepted_run accepted_evolved)

lemma terminal_approvals_stay:
  assumes "run d = (r, d')" and "a \<in> set (t_approvals d)" and "ap_status a \<noteq> Approval_PENDING"
  shows "a \<in> set (t_approvals d')"
  using evolves [OF assms(1)] assms(2,3) by (auto simp: db_evolved_def intro: approvals.terminal_persists)

lemma terminal_grants_stay:
  assumes "run d = (r, d')" and "g \<in> set (t_grants d)" and "gr_status g \<noteq> Grant_ACTIVE"
  shows "g \<in> set (t_grants d')"
  using evolves [OF assms(1)] assms(2,3) by (auto simp: db_evolved_def intro: grants.terminal_persists)

lemma weaken: "S \<subseteq> S' \<Longrightarrow> store_operation S' run"
  by unfold_locales (blast dest: accepted_run accepted_mono)

end

locale store_block =
  fixes S :: "table set" and body :: "'a block"
  assumes accepted_body: "body d = Inr (x, d') \<Longrightarrow> accepted S d d'"

sublocale store_block \<subseteq> store_operation S "transaction body"
  by unfold_locales (auto simp: transaction_def dest: accepted_body split: sum.splits)

lemma andThen_operation:
  assumes "store_operation S m" and "\<And>x. store_operation S (f x)"
  shows "store_operation S (andThen m f)"
proof
  fix d r d' assume run: "andThen m f d = (r, d')"
  obtain r1 d1 where m: "m d = (r1, d1)" by force
  show "accepted S d d'"
  proof (cases r1)
    case (Inl e)
    with run m show ?thesis using assms(1) by (auto simp: andThen_def store_operation_def)
  next
    case (Inr x)
    with run m have "f x d1 = (r, d')" by (simp add: andThen_def)
    then have "accepted S d1 d'" using assms(2) by (auto simp: store_operation_def)
    moreover have "accepted S d d1" using m assms(1) by (auto simp: store_operation_def)
    ultimately show ?thesis by (rule accepted_trans [rotated])
  qed
qed

lemma raising_operation [simp]: "store_operation S (raising e)"
  by unfold_locales (simp add: raising_def)

lemma returning_operation [simp]: "store_operation S (returning x)"
  by unfold_locales (simp add: returning_def)

text \<open>A block that only reads.\<close>

definition reading :: "(db \<Rightarrow> exn + 'a) \<Rightarrow> 'a operation" where
  "reading q d = (q d, d)"

lemma reading_operation [simp]: "store_operation S (reading q)"
  by unfold_locales (simp add: reading_def)

lemma transaction_operation: "store_block S b \<Longrightarrow> store_operation S (transaction b)"
  by (auto simp: store_block_def store_operation_def transaction_def split: sum.splits)

section \<open>Approvals and grants\<close>

text \<open>\<open>ApprovalRecord.validate_lifecycle\<close>, and the reading of a row, which runs it.\<close>

definition approval_valid :: "approval \<Rightarrow> bool" where
  "approval_valid a \<longleftrightarrow>
     (case ap_expires_at a of None \<Rightarrow> True | Some t \<Rightarrow> ap_requested_at a < t)
     \<and> (if ap_status a = Approval_PENDING then ap_resolved_at a = None \<and> ap_resolved_by a = None
        else ap_resolved_at a \<noteq> None \<and> ap_resolved_by a \<noteq> None)
     \<and> (case ap_resolved_at a of None \<Rightarrow> True | Some r \<Rightarrow> ap_requested_at a \<le> r
          \<and> (ap_status a = Approval_EXPIRED \<longrightarrow>
               (case ap_expires_at a of None \<Rightarrow> True | Some t \<Rightarrow> t \<le> r)))"

definition row_to_approval :: "approval \<Rightarrow> exn + approval" where
  "row_to_approval a = (if approval_valid a then Inr a else Inl ValidationError)"

text \<open>The validators of \<open>ExecutionGrantRecord\<close>.\<close>

definition grant_valid :: "grant \<Rightarrow> bool" where
  "grant_valid g \<longleftrightarrow> gr_issued_at g < gr_expires_at g
     \<and> is_sha256_text (gr_fingerprint g) \<and> is_sha256_text (gr_token_hash g)
     \<and> (if gr_status g = Grant_CONSUMED
        then gr_consumed_by g \<noteq> None
          \<and> (case gr_consumed_at g of None \<Rightarrow> False | Some t \<Rightarrow> t < gr_expires_at g)
        else gr_consumed_at g = None \<and> gr_consumed_by g = None)"

definition row_to_grant :: "grant \<Rightarrow> exn + grant" where
  "row_to_grant g = (if grant_valid g then Inr g else Inl ValidationError)"

text \<open>
  The tables of approvals and grants agree: a decision has a grant exactly when its approval is
  APPROVED, and it is then a REQUIRE_APPROVAL decision of the grant's project.
\<close>

definition grants_agree :: "db \<Rightarrow> bool" where
  "grants_agree d \<longleftrightarrow>
     (\<forall>did. (\<exists>g \<in> set (t_grants d). gr_decision g = did)
        \<longleftrightarrow> (\<exists>a \<in> set (t_approvals d). ap_decision a = did \<and> ap_status a = Approval_APPROVED))
     \<and> (\<forall>g \<in> set (t_grants d). \<exists>r \<in> set (t_decisions d).
          au_id r = gr_decision g \<and> au_project r = gr_project g \<and> au_decision r = REQUIRE_APPROVAL)"

definition store_ok :: "db \<Rightarrow> bool" where
  "store_ok d \<longleftrightarrow> db_ok d \<and> list_all approval_valid (t_approvals d) \<and> list_all grant_valid (t_grants d)
     \<and> grants_agree d"

lemma empty_store_ok [simp]: "store_ok (empty_db uuids)"
  by (simp add: store_ok_def grants_agree_def empty_db_def) (simp add: empty_db_def [symmetric])

text \<open>An operation that changes neither table keeps \<open>store_ok\<close>: decisions are only added.\<close>

lemma store_ok_untouched:
  assumes "accepted S d d'" and "Approval_Requests \<notin> S" and "Execution_Grants \<notin> S" and "store_ok d"
  shows "store_ok d'"
proof -
  have "evolved no_update (t_decisions d) (t_decisions d')"
    using assms(1) by (simp add: accepted_def db_evolved_def)
  then obtain new where "t_decisions d' = t_decisions d @ new" by (auto simp: evolved_no_update)
  moreover have "t_approvals d' = t_approvals d" "t_grants d' = t_grants d"
    using accepted_frame [OF assms(1)] assms(2,3) by auto
  ultimately show ?thesis
    using assms(4) accepted_ok [OF assms(1)] by (auto simp: store_ok_def grants_agree_def)
qed

end
