(* ===== verification/Api_Keys.thy ===== *)
theory Api_Keys
  imports Contracts
begin

text \<open>
  API keys: \<open>app/api_keys.py\<close> and \<open>app/storage/api_keys.py\<close>. A key is a public selector and a
  secret; the database keeps the selector and a salted scrypt verifier in hexadecimal. The locale
  \<open>byte_codec\<close> states the round trip of a text form of bytes; its interpretation on the
  hexadecimal form shows that a key is accepted by the verifier made from it, and what a key that
  is accepted must share with it. scrypt itself is a parameter (\<open>x_scrypt\<close>), of which only
  the requested length of 32 bytes is assumed.
\<close>

section \<open>Text forms of bytes\<close>

locale byte_codec =
  fixes encode :: "string \<Rightarrow> string" and decode :: "string \<Rightarrow> string option"
  assumes decode_encode: "decode (encode s) = Some s"
begin

lemma encode_inj: "encode s = encode t \<longleftrightarrow> s = t"
  by (metis decode_encode option.inject)

end

definition hex_byte :: "char \<Rightarrow> string" where
  "hex_byte c = hex_pad 2 (of_char c)"

text \<open>\<open>bytes.hex()\<close> and \<open>bytes.fromhex\<close> on the digits the patterns allow.\<close>

definition hex_text :: "string \<Rightarrow> string" where
  "hex_text s = concat (map hex_byte s)"

definition hex_digit :: "char \<Rightarrow> nat option" where
  "hex_digit c = find_row (\<lambda>n. hex_char n = c) [0..<16]"

fun from_hex :: "string \<Rightarrow> string option" where
  "from_hex [] = Some []"
| "from_hex [c] = None"
| "from_hex (c # e # s) = (case (hex_digit c, hex_digit e, from_hex s) of
     (Some m, Some n, Some t) \<Rightarrow> Some (char_of (16 * m + n) # t)
   | _ \<Rightarrow> None)"

lemma hex_digit_char: "n < 16 \<Longrightarrow> hex_digit (hex_char n) = Some n"
proof -
  assume "n < 16"
  moreover have "m = n" if "hex_char m = hex_char n" "m < 16" for m
    using hex_pad_inj [of 1 m n] that \<open>n < 16\<close> by simp
  ultimately show ?thesis
    unfolding hex_digit_def by (intro find_row_unique [where k = "\<lambda>x. x"]) auto
qed

lemma from_hex_byte: "from_hex (hex_byte c @ s) = map_option ((#) c) (from_hex s)"
proof -
  have div: "(of_char c :: nat) div 16 < 16" by (rule less_mult_imp_div_less) simp
  have "16 * ((of_char c :: nat) div 16) + of_char c mod 16 = of_char c" by simp
  with div show ?thesis
    by (simp add: hex_byte_def numeral_2_eq_2 hex_digit_char split: option.split)
qed

lemma from_hex_text [simp]: "from_hex (hex_text s) = Some s"
  by (induction s) (simp_all add: hex_text_def from_hex_byte)

interpretation hex: byte_codec hex_text from_hex
  by unfold_locales simp

section \<open>Keys and verifiers\<close>

definition is_hex_digit :: "char \<Rightarrow> bool" where
  "is_hex_digit c \<longleftrightarrow> 48 \<le> (of_char c :: nat) \<and> (of_char c :: nat) \<le> 57
     \<or> 97 \<le> (of_char c :: nat) \<and> (of_char c :: nat) \<le> 102"

definition is_urlsafe :: "char \<Rightarrow> bool" where
  "is_urlsafe c \<longleftrightarrow> 48 \<le> (of_char c :: nat) \<and> (of_char c :: nat) \<le> 57
     \<or> 65 \<le> (of_char c :: nat) \<and> (of_char c :: nat) \<le> 90
     \<or> 97 \<le> (of_char c :: nat) \<and> (of_char c :: nat) \<le> 122 \<or> c = CHR ''_'' \<or> c = CHR ''-''"

text \<open>\<open>API_KEY_PATTERN\<close>: \<open>dak_[0-9a-f]{16}\.[A-Za-z0-9_-]{43}\<close>, matched in full.\<close>

definition API_KEY_PATTERN :: "string \<Rightarrow> bool" where
  "API_KEY_PATTERN s \<longleftrightarrow> length s = 64 \<and> take 4 s = ''dak_'' \<and> list_all is_hex_digit (take 16 (drop 4 s))
     \<and> take 1 (drop 20 s) = ''.'' \<and> list_all is_urlsafe (drop 21 s)"

definition HASH_PREFIX :: string where
  "HASH_PREFIX = ''scrypt$16384$8$5$''"

text \<open>\<open>API_KEY_HASH_PATTERN\<close>: the prefix, 32 digits, a dollar sign, 64 digits.\<close>

definition API_KEY_HASH_PATTERN :: "string \<Rightarrow> bool" where
  "API_KEY_HASH_PATTERN v \<longleftrightarrow> length v = 114 \<and> take 17 v = HASH_PREFIX
     \<and> list_all is_hex_digit (take 32 (drop 17 v)) \<and> take 1 (drop 49 v) = ''$''
     \<and> list_all is_hex_digit (drop 50 v)"

text \<open>\<open>secrets.token_hex(8)\<close> and \<open>secrets.token_urlsafe(32)\<close> are arguments.\<close>

definition generate_project_api_key :: "string \<Rightarrow> string \<Rightarrow> string" where
  "generate_project_api_key selector secret = ''dak_'' @ selector @ ''.'' @ secret"

definition hash_api_key :: "externals \<Rightarrow> string \<Rightarrow> string \<Rightarrow> exn + string" where
  "hash_api_key X salt key =
     (if key = [] then Inl (ValueError ''API key cannot be empty.'')
      else Inr (HASH_PREFIX @ hex_text salt @ ''$'' @ hex_text (x_scrypt X key salt)))"

definition verify_api_key :: "externals \<Rightarrow> string \<Rightarrow> string \<Rightarrow> bool" where
  "verify_api_key X key verifier =
     (if key = [] \<or> \<not> API_KEY_HASH_PATTERN verifier then False
      else (case (from_hex (take 32 (drop 17 verifier)), from_hex (drop 50 verifier)) of
          (Some salt, Some expected) \<Rightarrow> x_scrypt X key salt = expected
        | _ \<Rightarrow> False))"

definition get_api_key_prefix :: "string \<Rightarrow> exn + string" where
  "get_api_key_prefix key =
     (if \<not> API_KEY_PATTERN key then Inl (ValueError ''API key must use the current selector.secret format.'')
      else Inr (takeWhile (\<lambda>c. c \<noteq> CHR ''.'') key))"

lemma length_hex_text [simp]: "length (hex_text s) = 2 * length s"
  by (induction s) (simp_all add: hex_text_def hex_byte_def del: hex_pad.simps)

lemma hex_char_digit: "n < 16 \<Longrightarrow> is_hex_digit (hex_char n)"
proof -
  assume "n < 16"
  then have "n \<in> {0..<16}" by simp
  then show ?thesis
    by (auto simp: is_hex_digit_def hex_char_def)
qed

lemma hex_text_digits: "list_all is_hex_digit (hex_text s)"
proof (induction s)
  case (Cons c s)
  have "(of_char c :: nat) div 16 < 16" by (rule less_mult_imp_div_less) simp
  with Cons show ?case by (simp add: hex_text_def hex_byte_def numeral_2_eq_2 hex_char_digit)
qed (simp add: hex_text_def)

text \<open>The parts of a verifier made by \<open>hash_api_key\<close>.\<close>

lemma hash_parts:
  assumes "length salt = 16" and "length derived = 32"
  defines "v \<equiv> HASH_PREFIX @ hex_text salt @ ''$'' @ hex_text derived"
  shows "API_KEY_HASH_PATTERN v" and "take 32 (drop 17 v) = hex_text salt" and "drop 50 v = hex_text derived"
proof -
  have prefix: "length HASH_PREFIX = 17" by (simp add: HASH_PREFIX_def)
  show salt: "take 32 (drop 17 v) = hex_text salt" and derived: "drop 50 v = hex_text derived"
    using assms(1) by (simp_all add: v_def prefix)
  have "take 1 (drop 49 v) = ''$''" "take 17 v = HASH_PREFIX" "length v = 114"
    using assms(1,2) by (simp_all add: v_def prefix)
  with salt derived show "API_KEY_HASH_PATTERN v" by (simp add: API_KEY_HASH_PATTERN_def hex_text_digits)
qed

lemma hashed_key_verifies:
  assumes "length salt = 16" and "length (x_scrypt X key salt) = 32" and "hash_api_key X salt key = Inr v"
  shows "verify_api_key X k v \<longleftrightarrow> k \<noteq> [] \<and> x_scrypt X k salt = x_scrypt X key salt"
proof -
  have v: "v = HASH_PREFIX @ hex_text salt @ ''$'' @ hex_text (x_scrypt X key salt)"
    using assms(3) by (simp add: hash_api_key_def split: if_splits)
  from hash_parts [OF assms(1,2), folded v] show ?thesis by (simp add: verify_api_key_def)
qed

lemma generated_key_pattern:
  assumes "length selector = 16" and "list_all is_hex_digit selector"
    and "length secret = 43" and "list_all is_urlsafe secret"
  shows "API_KEY_PATTERN (generate_project_api_key selector secret)"
    and "get_api_key_prefix (generate_project_api_key selector secret) = Inr (''dak_'' @ selector)"
proof -
  show pattern: "API_KEY_PATTERN (generate_project_api_key selector secret)"
    using assms by (simp add: API_KEY_PATTERN_def generate_project_api_key_def)
  have "c \<noteq> CHR ''.''" if "c \<in> set (''dak_'' @ selector)" for c
    using that assms(2) by (auto simp: list_all_iff is_hex_digit_def)
  then have "takeWhile (\<lambda>c. c \<noteq> CHR ''.'') ((''dak_'' @ selector) @ ''.'' @ secret) = ''dak_'' @ selector"
    by (subst takeWhile_append2) auto
  with pattern show "get_api_key_prefix (generate_project_api_key selector secret) = Inr (''dak_'' @ selector)"
    by (simp add: get_api_key_prefix_def generate_project_api_key_def)
qed

section \<open>The repository\<close>

text \<open>
  A key row was validated when its record was built, and the validators of its metadata and of its
  project are idempotent, so reading a row gives the record back. \<open>metadata_of\<close> is
  \<open>ProjectApiKeyMetadata\<close>: the row without the verifier.
\<close>

definition metadata_of :: "api_key \<Rightarrow> api_key_metadata" where
  "metadata_of k = \<lparr>km_id = ak_id k, km_project = ak_project k, km_prefix = ak_prefix k, km_role = ak_role k,
     km_created_at = ak_created_at k, km_revoked_at = ak_revoked_at k\<rparr>"

definition key_row :: "uuid \<Rightarrow> uuid \<Rightarrow> db \<Rightarrow> api_key option" where
  "key_row pid kid d = find_row (\<lambda>k. ak_project k = pid \<and> ak_id k = kid) (t_api_keys d)"

definition get_key_metadata :: "uuid \<Rightarrow> uuid \<Rightarrow> db \<Rightarrow> api_key_metadata option" where
  "get_key_metadata pid kid d = map_option metadata_of (key_row pid kid d)"

definition list_api_keys :: "uuid \<Rightarrow> nat \<Rightarrow> nat \<Rightarrow> db \<Rightarrow> api_key_metadata list" where
  "list_api_keys pid limit offset d = map metadata_of (page limit offset
     (sort_desc (\<lambda>k. (ak_created_at k, ak_id k)) (filter (\<lambda>k. ak_project k = pid) (t_api_keys d))))"

definition count_api_keys :: "uuid \<Rightarrow> db \<Rightarrow> nat" where
  "count_api_keys pid d = row_count (\<lambda>k. ak_project k = pid) (t_api_keys d)"

text \<open>\<open>SET revoked_at = COALESCE(revoked_at, ?)\<close>.\<close>

definition revoked_key :: "instant \<Rightarrow> api_key \<Rightarrow> api_key" where
  "revoked_key t k = k\<lparr>ak_revoked_at := Some (case ak_revoked_at k of None \<Rightarrow> t | Some r \<Rightarrow> r)\<rparr>"

definition revoke_key :: "uuid \<Rightarrow> uuid \<Rightarrow> instant \<Rightarrow> api_key_metadata option block" where
  "revoke_key pid kid revoked_at d =
     (let d1 = d\<lparr>t_api_keys := update_rows (\<lambda>k. ak_project k = pid \<and> ak_id k = kid) (revoked_key revoked_at)
            (t_api_keys d)\<rparr>
      in Inr (get_key_metadata pid kid d1, d1))"

text \<open>The join of \<open>get_active_principal_by_api_key\<close>, and its second look.\<close>

definition active_key_row :: "string \<Rightarrow> db \<Rightarrow> (project \<times> api_key) option" where
  "active_key_row key_prefix d =
     find_row (\<lambda>(p, k). ak_project k = pr_id p \<and> ak_prefix k = key_prefix \<and> ak_revoked_at k = None
        \<and> pr_status p = Project_ACTIVE) (List.product (t_projects d) (t_api_keys d))"

definition still_active :: "uuid \<Rightarrow> string \<Rightarrow> db \<Rightarrow> bool" where
  "still_active kid key_hash d \<longleftrightarrow>
     list_ex (\<lambda>(k, p). ak_project k = pr_id p \<and> ak_id k = kid \<and> ak_hash k = key_hash \<and> ak_revoked_at k = None
        \<and> pr_status p = Project_ACTIVE) (List.product (t_api_keys d) (t_projects d))"

text \<open>
  The key derivation runs between two connections: \<open>d\<close> is the database of the first, \<open>d'\<close>
  of the second, in which a revocation may have happened.
\<close>

definition get_active_principal_by_api_key :: "externals \<Rightarrow> string \<Rightarrow> db \<Rightarrow> db \<Rightarrow> principal option" where
  "get_active_principal_by_api_key X key d d' =
     (case get_api_key_prefix key of
        Inl _ \<Rightarrow> None
      | Inr key_prefix \<Rightarrow>
          (case active_key_row key_prefix d of
             None \<Rightarrow> None
           | Some (p, k) \<Rightarrow>
               if \<not> verify_api_key X key (ak_hash k) then None
               else if \<not> still_active (ak_id k) (ak_hash k) d' then None
               else Some \<lparr>pl_key = ak_id k, pl_role = ak_role k, pl_project = p\<rparr>))"

definition get_active_project_by_api_key :: "externals \<Rightarrow> string \<Rightarrow> db \<Rightarrow> db \<Rightarrow> project option" where
  "get_active_project_by_api_key X key d d' =
     map_option pl_project (get_active_principal_by_api_key X key d d')"

lemma revoke_key_evolved:
  assumes "revoke_key pid kid t d = Inr (r, d')"
  shows "evolved key_change_ok (t_api_keys d) (t_api_keys d')"
proof -
  have change: "revoked_key t k = k \<or> key_change_ok k (revoked_key t k)" for k
    by (cases k; cases "ak_revoked_at k") (auto simp: revoked_key_def key_change_ok_def)
  have "t_api_keys d' = update_rows (\<lambda>k. ak_project k = pid \<and> ak_id k = kid) (revoked_key t) (t_api_keys d)"
    using assms by (auto simp: revoke_key_def Let_def)
  then have "t_api_keys d' ! i = t_api_keys d ! i \<or> key_change_ok (t_api_keys d ! i) (t_api_keys d' ! i)"
    if "i < length (t_api_keys d)" for i
    using change [of "t_api_keys d ! i"] that by (auto simp: update_rows_def)
  moreover have "length (t_api_keys d') = length (t_api_keys d)" using \<open>t_api_keys d' = _\<close> by simp
  ultimately show ?thesis by (simp add: evolved_def)
qed

lemma revoke_key_accepted [accepts]:
  assumes "revoke_key pid kid t d = Inr (r, d')" and "Api_Keys \<in> S"
  shows "accepted S d d'"
proof -
  have d': "d' = d\<lparr>t_api_keys := update_rows (\<lambda>k. ak_project k = pid \<and> ak_id k = kid) (revoked_key t) (t_api_keys d)\<rparr>"
    using assms(1) by (simp add: revoke_key_def Let_def)
  have "map f (update_rows P (revoked_key t) rows) = map f rows"
    if "f \<in> {ak_id, ak_project}" for P rows and f :: "api_key \<Rightarrow> uuid"
    by (rule map_update_rows) (use that in \<open>auto simp: revoked_key_def\<close>)
  moreover have "map ak_prefix (update_rows P (revoked_key t) rows) = map ak_prefix rows" for P rows
    by (rule map_update_rows) (simp add: revoked_key_def)
  moreover have "evolved key_change_ok (t_api_keys d) (t_api_keys d')" by (rule revoke_key_evolved [OF assms(1)])
  ultimately have "db_evolved d d'" "db_ok d \<Longrightarrow> db_ok d'"
    by (simp_all add: d' db_evolved_def db_ok_def unique_by_def update_references)
  moreover have "touches S d d'" using assms(2) by (simp add: d' touches_def kept_def)
  ultimately show ?thesis by (simp add: accepted_def)
qed

section \<open>What authenticates\<close>

lemma still_active_key:
  assumes "still_active kid h d"
  obtains k p where "k \<in> set (t_api_keys d)" and "ak_id k = kid" and "ak_hash k = h" and "ak_revoked_at k = None"
    and "p \<in> set (t_projects d)" and "pr_id p = ak_project k" and "pr_status p = Project_ACTIVE"
proof -
  from assms obtain kp where "kp \<in> set (List.product (t_api_keys d) (t_projects d))"
    and "case kp of (k, p) \<Rightarrow> ak_project k = pr_id p \<and> ak_id k = kid \<and> ak_hash k = h \<and> ak_revoked_at k = None
      \<and> pr_status p = Project_ACTIVE"
    unfolding still_active_def list_ex_iff by blast
  moreover obtain k p where kp: "kp = (k, p)" by force
  ultimately have "k \<in> set (t_api_keys d)" "p \<in> set (t_projects d)"
    "ak_project k = pr_id p \<and> ak_id k = kid \<and> ak_hash k = h \<and> ak_revoked_at k = None \<and> pr_status p = Project_ACTIVE"
    by simp_all
  then show thesis using that by metis
qed

text \<open>What an authenticated key is: selected by its public part, verified, active at the second look.\<close>

definition authenticates :: "externals \<Rightarrow> string \<Rightarrow> api_key \<Rightarrow> db \<Rightarrow> bool" where
  "authenticates X key k d \<longleftrightarrow> verify_api_key X key (ak_hash k) \<and> get_api_key_prefix key = Inr (ak_prefix k)
     \<and> (\<exists>k' \<in> set (t_api_keys d). ak_id k' = ak_id k \<and> ak_hash k' = ak_hash k \<and> ak_revoked_at k' = None
         \<and> (\<exists>p \<in> set (t_projects d). pr_id p = ak_project k' \<and> pr_status p = Project_ACTIVE))"

lemma principal_key:
  assumes "get_active_principal_by_api_key X key d d' = Some pr"
  obtains k where "k \<in> set (t_api_keys d)" and "pl_project pr \<in> set (t_projects d)" and "ak_revoked_at k = None"
    and "pl_key pr = ak_id k" and "pl_role pr = ak_role k" and "pr_id (pl_project pr) = ak_project k"
    and "pr_status (pl_project pr) = Project_ACTIVE" and "authenticates X key k d'"
proof -
  from assms obtain q p k where q: "get_api_key_prefix key = Inr q" and row: "active_key_row q d = Some (p, k)"
    and ok: "verify_api_key X key (ak_hash k)" "still_active (ak_id k) (ak_hash k) d'"
    and pr: "pr = \<lparr>pl_key = ak_id k, pl_role = ak_role k, pl_project = p\<rparr>"
    by (auto simp: get_active_principal_by_api_key_def split: sum.splits option.splits if_splits)
  have k: "k \<in> set (t_api_keys d)" "p \<in> set (t_projects d)" "ak_project k = pr_id p" "ak_prefix k = q"
    "ak_revoked_at k = None" "pr_status p = Project_ACTIVE"
    using find_row_Some [OF row [unfolded active_key_row_def]] by auto
  have "authenticates X key k d'"
    using still_active_key [OF ok(2)] ok(1) q k(4) unfolding authenticates_def by metis
  with k pr that show thesis by simp
qed

section \<open>Properties\<close>

text \<open>
  The verifier stored for a key has the stored format and accepts the key; it accepts another text
  only if scrypt gives both the same bytes under the stored salt.
\<close>

theorem api_key_verifier_roundtrip:
  assumes "length salt = 16" and "length (x_scrypt X key salt) = 32" and "key \<noteq> []"
  shows "\<exists>v. hash_api_key X salt key = Inr v \<and> API_KEY_HASH_PATTERN v \<and> verify_api_key X key v
    \<and> (\<forall>k. verify_api_key X k v \<longleftrightarrow> k \<noteq> [] \<and> x_scrypt X k salt = x_scrypt X key salt)"
proof -
  obtain v where v: "hash_api_key X salt key = Inr v" "v = HASH_PREFIX @ hex_text salt @ ''$'' @ hex_text (x_scrypt X key salt)"
    using assms(3) by (simp add: hash_api_key_def)
  have "API_KEY_HASH_PATTERN v" using hash_parts(1) [OF assms(1,2)] v(2) by simp
  with hashed_key_verifies [OF assms(1,2) v(1)] assms(3) v(1) show ?thesis by auto
qed

definition sample_key :: string where
  "sample_key = generate_project_api_key (replicate 16 (CHR ''a'')) (replicate 43 (CHR ''B''))"

definition sample_verifier :: string where
  "sample_verifier = HASH_PREFIX @ hex_text (replicate 16 (CHR ''s'')) @ ''$''
     @ hex_text (x_scrypt sample_externals sample_key (replicate 16 (CHR ''s'')))"

lemma sample_scrypt: "x_scrypt sample_externals s salt = take 32 (salt @ s)"
  by (simp add: sample_externals_def)

lemma sample_key_parts:
  "sample_key \<noteq> []" "length (x_scrypt sample_externals sample_key (replicate 16 (CHR ''s''))) = 32"
  "get_api_key_prefix sample_key = Inr (''dak_'' @ replicate 16 (CHR ''a''))"
proof -
  have "length sample_key = 64" unfolding sample_key_def generate_project_api_key_def by (simp only: length_append length_replicate) simp
  then show "sample_key \<noteq> []" "length (x_scrypt sample_externals sample_key (replicate 16 (CHR ''s''))) = 32"
    unfolding sample_scrypt by (auto simp del: replicate_Suc)
  show "get_api_key_prefix sample_key = Inr (''dak_'' @ replicate 16 (CHR ''a''))"
    unfolding sample_key_def by (rule generated_key_pattern(2)) (simp_all add: list_all_iff is_hex_digit_def is_urlsafe_def)
qed

theorem api_key_verifier_roundtrip_witness:
  "verify_api_key sample_externals sample_key sample_verifier
   \<and> \<not> verify_api_key sample_externals ''wrong'' sample_verifier"
proof -
  have len: "length (replicate 16 (CHR ''s'')) = 16" by simp
  obtain v where v: "hash_api_key sample_externals (replicate 16 (CHR ''s'')) sample_key = Inr v"
    and accepts: "verify_api_key sample_externals sample_key v"
    and only: "\<forall>k. verify_api_key sample_externals k v \<longleftrightarrow> k \<noteq> []
      \<and> x_scrypt sample_externals k (replicate 16 (CHR ''s'')) = x_scrypt sample_externals sample_key (replicate 16 (CHR ''s''))"
    using api_key_verifier_roundtrip [OF len sample_key_parts(2,1)] by metis
  have v': "v = sample_verifier" using v sample_key_parts(1) unfolding hash_api_key_def sample_verifier_def by simp
  have "length (x_scrypt sample_externals ''wrong'' (replicate 16 (CHR ''s''))) \<noteq> 32"
    by (simp add: sample_scrypt)
  then have "x_scrypt sample_externals ''wrong'' (replicate 16 (CHR ''s'')) \<noteq> x_scrypt sample_externals sample_key (replicate 16 (CHR ''s''))"
    using sample_key_parts(2) by metis
  then have "\<not> verify_api_key sample_externals ''wrong'' v" using only by metis
  with accepts v' show ?thesis by simp
qed

text \<open>
  Authentication. A key authenticates only as a stored key of its selector whose verifier accepts
  it and that was not revoked, in a project that was ACTIVE; and at the second look, after the key
  derivation, the key is still not revoked and its project still ACTIVE, so a revocation that
  happened meanwhile is not ignored. The principal has the role and the project of that key.
\<close>

theorem authentication_sound:
  assumes "get_active_principal_by_api_key X key d d' = Some pr"
  shows "\<exists>k \<in> set (t_api_keys d). pl_key pr = ak_id k \<and> pl_role pr = ak_role k \<and> ak_revoked_at k = None
    \<and> get_api_key_prefix key = Inr (ak_prefix k) \<and> verify_api_key X key (ak_hash k)
    \<and> pl_project pr \<in> set (t_projects d) \<and> pr_id (pl_project pr) = ak_project k
    \<and> pr_status (pl_project pr) = Project_ACTIVE
    \<and> (\<exists>k' \<in> set (t_api_keys d'). ak_id k' = ak_id k \<and> ak_hash k' = ak_hash k \<and> ak_revoked_at k' = None
         \<and> (\<exists>p \<in> set (t_projects d'). pr_id p = ak_project k' \<and> pr_status p = Project_ACTIVE))"
  using principal_key [OF assms] unfolding authenticates_def by metis

definition sample_key_row :: "instant option \<Rightarrow> api_key" where
  "sample_key_row revoked = \<lparr>ak_id = 30, ak_project = 2, ak_prefix = ''dak_'' @ replicate 16 (CHR ''a''),
     ak_hash = sample_verifier, ak_role = RUNTIME, ak_created_at = 5, ak_revoked_at = revoked\<rparr>"

definition key_db :: "instant option \<Rightarrow> db" where
  "key_db revoked = sample_db\<lparr>t_api_keys := [sample_key_row revoked]\<rparr>"

lemma sample_key_authenticates:
  "get_active_principal_by_api_key sample_externals sample_key (key_db None) (key_db r) =
    (if r = None then Some \<lparr>pl_key = 30, pl_role = RUNTIME, pl_project = sample_project\<rparr> else None)"
  if "verify_api_key sample_externals sample_key sample_verifier"
  using that by (simp add: get_active_principal_by_api_key_def sample_key_parts(3) active_key_row_def row_simps
      key_db_def sample_db_def empty_db_def sample_key_row_def sample_project_def still_active_def)

theorem authentication_sound_witness:
  "get_active_principal_by_api_key sample_externals sample_key (key_db None) (key_db None)
      = Some \<lparr>pl_key = 30, pl_role = RUNTIME, pl_project = sample_project\<rparr>
   \<and> pr_status sample_project = Project_ACTIVE
   \<and> get_active_principal_by_api_key sample_externals sample_key (key_db None) (key_db (Some 9)) = None"
proof -
  have "verify_api_key sample_externals sample_key sample_verifier"
    using hashed_key_verifies [OF _ sample_key_parts(2)] sample_key_parts(1)
    by (simp add: hash_api_key_def sample_verifier_def)
  note auth = sample_key_authenticates [OF this]
  then have "get_active_principal_by_api_key sample_externals sample_key (key_db None) (key_db None)
      = Some \<lparr>pl_key = 30, pl_role = RUNTIME, pl_project = sample_project\<rparr>" by simp
  from authentication_sound [OF this] this auth show ?thesis by auto
qed

end
