(* ===== verification/Base64.thy ===== *)
theory Base64
  imports Api_Keys
begin

text \<open>
  URL-safe Base64 without padding, as \<open>app/execution_grants.py\<close> and \<open>app/webhooks.py\<close>
  use it: \<open>base64.urlsafe_b64encode(value).rstrip("=")\<close> and the strict decoder that accepts
  exactly the texts of the encoder. The interpretation of \<open>byte_codec\<close> gives its laws.
\<close>

section \<open>Encoding\<close>

definition b64_char :: "nat \<Rightarrow> char" where
  "b64_char n = (if n < 26 then char_of (65 + n) else if n < 52 then char_of (71 + n)
     else if n < 62 then char_of (n - 4) else if n = 62 then CHR ''-'' else CHR ''_'')"

abbreviation byte :: "char \<Rightarrow> nat" where
  "byte c \<equiv> of_char c"

fun urlsafe_b64encode :: "string \<Rightarrow> string" where
  "urlsafe_b64encode [] = []"
| "urlsafe_b64encode [a] = [b64_char (byte a div 4), b64_char (byte a mod 4 * 16), CHR ''='', CHR ''='']"
| "urlsafe_b64encode [a, b] = [b64_char (byte a div 4), b64_char (byte a mod 4 * 16 + byte b div 16),
     b64_char (byte b mod 16 * 4), CHR ''='']"
| "urlsafe_b64encode (a # b # c # s) = b64_char (byte a div 4) # b64_char (byte a mod 4 * 16 + byte b div 16)
     # b64_char (byte b mod 16 * 4 + byte c div 64) # b64_char (byte c mod 64) # urlsafe_b64encode s"

definition rstrip_padding :: "string \<Rightarrow> string" where
  "rstrip_padding s = rev (dropWhile (\<lambda>c. c = CHR ''='') (rev s))"

definition base64url_encode :: "string \<Rightarrow> string" where
  "base64url_encode s = rstrip_padding (urlsafe_b64encode s)"

section \<open>Decoding\<close>

text \<open>
  \<open>base64.b64decode(value + padding, altchars=b"-_", validate=True)\<close>: the two standard
  characters stay accepted beside their replacements, one leftover digit is an error and leftover
  bits are dropped.
\<close>

definition b64_index :: "char \<Rightarrow> nat option" where
  "b64_index c = (if 65 \<le> byte c \<and> byte c \<le> 90 then Some (byte c - 65)
     else if 97 \<le> byte c \<and> byte c \<le> 122 then Some (byte c - 71)
     else if 48 \<le> byte c \<and> byte c \<le> 57 then Some (byte c + 4)
     else if c = CHR ''-'' \<or> c = CHR ''+'' then Some 62
     else if c = CHR ''_'' \<or> c = CHR ''/'' then Some 63 else None)"

fun b64_groups :: "nat list \<Rightarrow> string option" where
  "b64_groups [] = Some []"
| "b64_groups [a] = None"
| "b64_groups [a, b] = Some [char_of (a * 4 + b div 16)]"
| "b64_groups [a, b, c] = Some [char_of (a * 4 + b div 16), char_of (b mod 16 * 16 + c div 4)]"
| "b64_groups (a # b # c # e # s) = map_option (\<lambda>t. char_of (a * 4 + b div 16)
     # char_of (b mod 16 * 16 + c div 4) # char_of (c mod 4 * 64 + e) # t) (b64_groups s)"

definition b64decode :: "string \<Rightarrow> string option" where
  "b64decode s = Option.bind (those (map b64_index s)) b64_groups"

definition base64url_decode :: "string \<Rightarrow> exn + string" where
  "base64url_decode value =
     (if value = [] \<or> CHR ''='' \<in> set value then Inl InvalidExecutionGrant
      else (case b64decode value of
          None \<Rightarrow> Inl InvalidExecutionGrant
        | Some decoded \<Rightarrow>
            if base64url_encode decoded \<noteq> value then Inl InvalidExecutionGrant else Inr decoded))"

section \<open>Round trip\<close>

lemma b64_index_char: "n < 64 \<Longrightarrow> b64_index (b64_char n) = Some n"
proof -
  have "list_all (\<lambda>n. b64_index (b64_char n) = Some n) [0..<64]"
    by (simp add: upt_rec b64_index_def b64_char_def)
  then show "n < 64 \<Longrightarrow> b64_index (b64_char n) = Some n" by (simp add: list_all_iff)
qed

lemma b64_char_not_padding: "n < 64 \<Longrightarrow> b64_char n \<noteq> CHR ''=''"
  using b64_index_char [of n] by (auto simp: b64_index_def)

lemma byte_parts: "byte c div 4 < 64" "byte c div 16 < 16" "byte c div 64 < 4"
  by (rule less_mult_imp_div_less, simp)+

lemma byte_bounds:
  "byte c div 4 < 64" "byte c mod 4 * 16 < 64" "byte c mod 16 * 4 < 64" "byte c mod 64 < 64"
  "byte a mod 4 * 16 + byte b div 16 < 64" "byte b mod 16 * 4 + byte c div 64 < 64"
proof -
  have m: "byte x mod 4 < 4" "byte x mod 16 < 16" for x by simp_all
  show "byte c div 4 < 64" by (rule byte_parts)
  show "byte c mod 64 < 64" by simp
  show "byte c mod 4 * 16 < 64" using m(1) [of c] by linarith
  show "byte c mod 16 * 4 < 64" using m(2) [of c] by linarith
  show "byte a mod 4 * 16 + byte b div 16 < 64" using m(1) [of a] byte_parts(2) [of b] by linarith
  show "byte b mod 16 * 4 + byte c div 64 < 64" using m(2) [of b] byte_parts(3) [of c] by linarith
qed

lemma join_parts:
  fixes x y :: nat
  shows "y < 16 \<Longrightarrow> (x * 16 + y) div 16 = x" "y < 16 \<Longrightarrow> (x * 16 + y) mod 16 = y"
    "y < 4 \<Longrightarrow> (x * 4 + y) div 4 = x" "y < 4 \<Longrightarrow> (x * 4 + y) mod 4 = y"
  by simp_all

lemma byte_joins:
  "byte a div 4 * 4 + (byte a mod 4 * 16 + byte b div 16) div 16 = byte a"
  "(byte a mod 4 * 16 + byte b div 16) mod 16 * 16 + byte b mod 16 = byte b"
  "(byte b mod 16 * 4 + byte c div 64) div 4 = byte b mod 16"
  "(byte b mod 16 * 4 + byte c div 64) mod 4 * 64 + byte c mod 64 = byte c"
proof -
  have "(byte a mod 4 * 16 + byte b div 16) div 16 = byte a mod 4" by (rule join_parts(1) [OF byte_parts(2)])
  then show "byte a div 4 * 4 + (byte a mod 4 * 16 + byte b div 16) div 16 = byte a" by (simp only: div_mult_mod_eq)
  have "(byte a mod 4 * 16 + byte b div 16) mod 16 = byte b div 16" by (rule join_parts(2) [OF byte_parts(2)])
  then show "(byte a mod 4 * 16 + byte b div 16) mod 16 * 16 + byte b mod 16 = byte b" by (simp only: div_mult_mod_eq)
  show "(byte b mod 16 * 4 + byte c div 64) div 4 = byte b mod 16" by (rule join_parts(3) [OF byte_parts(3)])
  have "(byte b mod 16 * 4 + byte c div 64) mod 4 = byte c div 64" by (rule join_parts(4) [OF byte_parts(3)])
  then show "(byte b mod 16 * 4 + byte c div 64) mod 4 * 64 + byte c mod 64 = byte c" by (simp only: div_mult_mod_eq)
qed

lemma dropWhile_absent: "c \<notin> set ys \<Longrightarrow> dropWhile (\<lambda>x. x = c) ys = ys"
  by (cases ys) auto

lemma rstrip_padding_append: "CHR ''='' \<notin> set xs \<Longrightarrow> rstrip_padding (xs @ ys) = xs @ rstrip_padding ys"
proof (induction ys rule: rev_induct)
  case Nil
  then show ?case by (simp add: rstrip_padding_def dropWhile_absent)
next
  case (snoc y ys)
  from snoc.IH [OF snoc.prems] show ?case
    by (cases "y = CHR ''=''") (simp_all only: rstrip_padding_def append_assoc [symmetric] rev_append rev.simps append.simps
        dropWhile.simps if_True if_False rev_rev_ident simp_thms)
qed

lemma base64url_simps [simp]:
  "base64url_encode [] = []"
  "base64url_encode [a] = [b64_char (byte a div 4), b64_char (byte a mod 4 * 16)]"
  "base64url_encode [a, b] = [b64_char (byte a div 4), b64_char (byte a mod 4 * 16 + byte b div 16),
     b64_char (byte b mod 16 * 4)]"
  "base64url_encode (a # b # c # s) = b64_char (byte a div 4) # b64_char (byte a mod 4 * 16 + byte b div 16)
     # b64_char (byte b mod 16 * 4 + byte c div 64) # b64_char (byte c mod 64) # base64url_encode s"
proof -
  show "base64url_encode [] = []" by (simp add: base64url_encode_def rstrip_padding_def)
  show "base64url_encode [a] = [b64_char (byte a div 4), b64_char (byte a mod 4 * 16)]"
    using b64_char_not_padding [OF byte_bounds(2), of a]
    by (simp add: base64url_encode_def rstrip_padding_def)
  show "base64url_encode [a, b] = [b64_char (byte a div 4), b64_char (byte a mod 4 * 16 + byte b div 16),
     b64_char (byte b mod 16 * 4)]"
    using b64_char_not_padding [OF byte_bounds(3), of b]
    by (simp add: base64url_encode_def rstrip_padding_def)
  show "base64url_encode (a # b # c # s) = b64_char (byte a div 4) # b64_char (byte a mod 4 * 16 + byte b div 16)
     # b64_char (byte b mod 16 * 4 + byte c div 64) # b64_char (byte c mod 64) # base64url_encode s"
    using rstrip_padding_append [of "[b64_char (byte a div 4), b64_char (byte a mod 4 * 16 + byte b div 16),
        b64_char (byte b mod 16 * 4 + byte c div 64), b64_char (byte c mod 64)]" "urlsafe_b64encode s"]
      b64_char_not_padding [OF byte_bounds(1), of a] b64_char_not_padding [OF byte_bounds(5), of a b]
      b64_char_not_padding [OF byte_bounds(6), of b c] b64_char_not_padding [OF byte_bounds(4), of c]
    by (simp add: base64url_encode_def)
qed

lemma b64decode_groups:
  "list_all (\<lambda>n. n < 64) ns \<Longrightarrow> b64decode (map b64_char ns) = b64_groups ns"
proof -
  assume "list_all (\<lambda>n. n < 64) ns"
  then have "those (map b64_index (map b64_char ns)) = Some ns"
    by (induction ns) (simp_all add: b64_index_char)
  then show ?thesis by (simp add: b64decode_def)
qed

text \<open>The digits of the encoding, as numbers.\<close>

fun b64_digits :: "string \<Rightarrow> nat list" where
  "b64_digits [] = []"
| "b64_digits [a] = [byte a div 4, byte a mod 4 * 16]"
| "b64_digits [a, b] = [byte a div 4, byte a mod 4 * 16 + byte b div 16, byte b mod 16 * 4]"
| "b64_digits (a # b # c # s) = (byte a div 4) # (byte a mod 4 * 16 + byte b div 16)
     # (byte b mod 16 * 4 + byte c div 64) # (byte c mod 64) # b64_digits s"

lemma base64url_digits: "base64url_encode s = map b64_char (b64_digits s)"
  by (induction s rule: b64_digits.induct) simp_all

lemma b64_digits_bound: "list_all (\<lambda>n. n < 64) (b64_digits s)"
  by (induction s rule: b64_digits.induct) (simp_all only: b64_digits.simps list.pred_inject byte_bounds simp_thms)

lemma b64_groups_digits: "b64_groups (b64_digits s) = Some s"
proof (induction s rule: b64_digits.induct)
  case (2 a)
  have "byte a div 4 * 4 + byte a mod 4 * 16 div 16 = byte a"
    by (simp only: nonzero_mult_div_cancel_right div_mult_mod_eq zero_neq_numeral not_False_eq_True)
  then show ?case by (simp only: b64_digits.simps b64_groups.simps char_of_char)
next
  case (3 a b)
  have "byte b mod 16 * 4 div 4 = byte b mod 16" by simp
  then show ?case by (simp only: b64_digits.simps b64_groups.simps byte_joins char_of_char)
next
  case (4 a b c s)
  then show ?case by (simp only: b64_digits.simps b64_groups.simps byte_joins char_of_char option.map)
qed simp

lemma b64decode_encode: "b64decode (base64url_encode s) = Some s"
  unfolding base64url_digits by (simp add: b64decode_groups b64_digits_bound b64_groups_digits)

interpretation base64url: byte_codec base64url_encode b64decode
  by unfold_locales (rule b64decode_encode)

lemma base64url_plain: "CHR ''='' \<notin> set (base64url_encode s)" "CHR ''.'' \<notin> set (base64url_encode s)"
proof -
  have index: "b64_index c \<noteq> None" if "c \<in> set (base64url_encode s)" for c
    using that b64_digits_bound [of s] by (auto simp: base64url_digits list_all_iff b64_index_char)
  show "CHR ''='' \<notin> set (base64url_encode s)" using index [of "CHR ''=''"] by (auto simp: b64_index_def)
  show "CHR ''.'' \<notin> set (base64url_encode s)" using index [of "CHR ''.''"] by (auto simp: b64_index_def)
qed

lemma base64url_Nil_iff: "base64url_encode s = [] \<longleftrightarrow> s = []"
  by (cases s rule: urlsafe_b64encode.cases) simp_all

text \<open>The decoder accepts exactly the texts of the encoder, and gives back what was encoded.\<close>

lemma base64url_decode_iff: "base64url_decode t = Inr s \<longleftrightarrow> s \<noteq> [] \<and> t = base64url_encode s"
proof
  assume "base64url_decode t = Inr s"
  then show "s \<noteq> [] \<and> t = base64url_encode s" by (auto simp: base64url_decode_def split: if_splits option.splits)
next
  assume "s \<noteq> [] \<and> t = base64url_encode s"
  then show "base64url_decode t = Inr s"
    using base64url_plain(1) [of s] by (simp add: base64url_decode_def base64url_Nil_iff b64decode_encode)
qed

lemma base64url_decode_error: "base64url_decode t = Inl e \<Longrightarrow> e = InvalidExecutionGrant"
  by (auto simp: base64url_decode_def split: if_splits option.splits)

end
