(* ===== verification/Json_Canonical.thy ===== *)
theory Json_Canonical
  imports Json
begin

text \<open>
  The canonical JSON text determines the value: two values with the same text are equal up to
  the order of object members. Everything the service hashes or signs (request fingerprints,
  decision payloads, integrity envelopes, webhook bodies, grant payloads) is such a text.
\<close>

section \<open>Numbers\<close>

definition is_digit :: "char \<Rightarrow> bool" where
  "is_digit c \<longleftrightarrow> 48 \<le> (of_char c :: nat) \<and> (of_char c :: nat) \<le> 57"

definition is_number_char :: "char \<Rightarrow> bool" where
  "is_number_char c \<longleftrightarrow> is_digit c \<or> c \<in> {CHR ''-'', CHR ''+'', CHR ''.'', CHR ''e''}"

lemma digit_char_inj: "d < 10 \<Longrightarrow> d' < 10 \<Longrightarrow> digit_char d = digit_char d' \<Longrightarrow> d = d'"
  unfolding digit_char_def by (drule arg_cong [where f = "of_char :: char \<Rightarrow> nat"]) simp

lemma digit_char_is_digit: "d < 10 \<Longrightarrow> is_digit (digit_char d)"
  by (simp add: is_digit_def digit_char_def)

lemma show_nat_neq_Nil [simp]: "show_nat n \<noteq> []"
  by (subst show_nat.simps) simp

lemma show_nat_digits: "c \<in> set (show_nat n) \<Longrightarrow> is_digit c"
proof (induction n rule: show_nat.induct)
  case (1 n)
  then show ?case
    by (cases "n < 10") (auto simp: show_nat.simps [of n] digit_char_is_digit)
qed

lemma show_nat_inj: "show_nat m = show_nat n \<Longrightarrow> m = n"
proof (induction m arbitrary: n rule: show_nat.induct)
  case (1 m)
  show ?case
  proof (cases "m < 10 \<or> n < 10")
    case True
    with "1.prems" show ?thesis
      by (auto simp: show_nat.simps [of m] show_nat.simps [of n] append_eq_Cons_conv Cons_eq_append_conv
        dest: digit_char_inj split: if_splits)
  next
    case False
    with "1.prems" have eq: "show_nat (m div 10) = show_nat (n div 10)"
      "digit_char (m mod 10) = digit_char (n mod 10)"
      by (auto simp: show_nat.simps [of m] show_nat.simps [of n])
    have "m div 10 = n div 10" using "1.IH" False eq(1) by blast
    moreover have "m mod 10 = n mod 10" using eq(2) by (auto dest!: digit_char_inj [rotated 2])
    ultimately show ?thesis by (metis div_mult_mod_eq)
  qed
qed

lemma show_int_chars: "c \<in> set (show_int i) \<Longrightarrow> is_digit c \<or> c = CHR ''-''"
  by (auto simp: show_int_def split: if_splits dest: show_nat_digits)

lemma not_digit_minus: "\<not> is_digit (CHR ''-'')"
  by (simp add: is_digit_def)

lemma show_nat_not_minus: "show_nat n \<noteq> CHR ''-'' # s"
  using show_nat_digits [of "CHR ''-''" n] not_digit_minus by auto

lemma show_int_inj: "show_int i = show_int j \<Longrightarrow> i = j"
  by (auto simp: show_int_def show_nat_not_minus show_nat_not_minus [symmetric]
    split: if_splits dest: show_nat_inj)

lemma show_int_neq_Nil [simp]: "show_int i \<noteq> []"
  by (auto simp: show_int_def)

text \<open>
  What the code relies on of \<open>float.__repr__\<close>: the text is a number, is not the text of an
  integer (it has a point or an exponent), and determines the float.
\<close>

definition float_text_ok :: "float_text \<Rightarrow> bool" where
  "float_text_ok fr \<longleftrightarrow>
     (\<forall>m e. list_all is_number_char (fr m e)
        \<and> (CHR ''.'' \<in> set (fr m e) \<or> CHR ''e'' \<in> set (fr m e))
        \<and> (\<exists>c s. fr m e = c # s \<and> (is_digit c \<or> c = CHR ''-'')))
     \<and> (\<forall>m e m' e'. fr m e = fr m' e' \<longrightarrow> m = m' \<and> e = e')"

lemma float_text_okD:
  assumes "float_text_ok fr"
  shows "list_all is_number_char (fr m e)"
    and "\<exists>c s. fr m e = c # s \<and> (is_digit c \<or> c = CHR ''-'')"
    and "fr m e \<noteq> show_int i"
    and "fr m e = fr m' e' \<Longrightarrow> m = m' \<and> e = e'"
proof -
  show "list_all is_number_char (fr m e)" "\<exists>c s. fr m e = c # s \<and> (is_digit c \<or> c = CHR ''-'')"
    "fr m e = fr m' e' \<Longrightarrow> m = m' \<and> e = e'"
    using assms by (auto simp: float_text_ok_def)
  have "CHR ''.'' \<in> set (fr m e) \<or> CHR ''e'' \<in> set (fr m e)"
    using assms by (auto simp: float_text_ok_def)
  moreover have "CHR ''.'' \<notin> set (show_int i)" "CHR ''e'' \<notin> set (show_int i)"
    by (auto dest!: show_int_chars simp: is_digit_def)
  ultimately show "fr m e \<noteq> show_int i" by auto
qed

section \<open>Strings\<close>

definition hex_value :: "char \<Rightarrow> nat" where
  "hex_value c = (if of_char c < (58 :: nat) then of_char c - 48 else of_char c - 87)"

lemma hex_value_hex_char [simp]: "d < 16 \<Longrightarrow> hex_value (hex_char d) = d"
  by (auto simp: hex_value_def hex_char_def)

lemma escape_char_neq_Nil [simp]: "escape_char c \<noteq> []"
  by (simp add: escape_char_def)

lemma escape_char_hd: "escape_char c = x # xs \<Longrightarrow> x \<noteq> CHR 0x22"
  by (auto simp: escape_char_def split: if_splits)

text \<open>One escaped character is read back, which makes escaping a prefix code.\<close>

definition unescape :: "string \<Rightarrow> char \<times> string" where
  "unescape s =
     (if hd s \<noteq> CHR 0x5C then (hd s, tl s)
      else if s ! 1 = CHR ''n'' then (CHR 0x0A, drop 2 s)
      else if s ! 1 = CHR ''r'' then (CHR 0x0D, drop 2 s)
      else if s ! 1 = CHR ''t'' then (CHR 0x09, drop 2 s)
      else if s ! 1 = CHR ''f'' then (CHR 0x0C, drop 2 s)
      else if s ! 1 = CHR ''b'' then (CHR 0x08, drop 2 s)
      else if s ! 1 = CHR ''u'' then (char_of (16 * hex_value (s ! 4) + hex_value (s ! 5)), drop 6 s)
      else (s ! 1, drop 2 s))"

lemma unescape_escape_char: "unescape (escape_char c @ x) = (c, x)"
proof -
  have "(of_char c :: nat) < 32 \<Longrightarrow> of_char c div 16 < (16 :: nat)" by auto
  then show ?thesis
    unfolding escape_char_def unescape_def
    by (auto simp: Let_def split del: if_split split: if_split)
qed

lemma escape_char_unique:
  assumes "escape_char c @ x = escape_char d @ y"
  shows "c = d \<and> x = y"
proof -
  have "unescape (escape_char c @ x) = unescape (escape_char d @ y)"
    by (rule arg_cong [OF assms])
  then show ?thesis by (simp add: unescape_escape_char)
qed

lemma print_string_unique_aux:
  "concat (map escape_char s) @ CHR 0x22 # x = concat (map escape_char t) @ CHR 0x22 # y
     \<Longrightarrow> s = t \<and> x = y"
proof (induction s arbitrary: t)
  case Nil
  show ?case
  proof (cases t)
    case Nil
    with Nil.prems show ?thesis by simp
  next
    case (Cons d t')
    then show ?thesis using Nil.prems escape_char_hd [of d] by (cases "escape_char d") auto
  qed
next
  case (Cons c s)
  show ?case
  proof (cases t)
    case Nil
    then show ?thesis using Cons.prems escape_char_hd [of c] by (cases "escape_char c") auto
  next
    case (Cons d t')
    with Cons.prems have "escape_char c @ (concat (map escape_char s) @ CHR 0x22 # x)
      = escape_char d @ (concat (map escape_char t') @ CHR 0x22 # y)" by simp
    from escape_char_unique [OF this] have "c = d"
      "concat (map escape_char s) @ CHR 0x22 # x = concat (map escape_char t') @ CHR 0x22 # y"
      by auto
    with Cons.IH [OF this(2)] Cons show ?thesis by simp
  qed
qed

lemma print_string_unique: "print_string s @ x = print_string t @ y \<Longrightarrow> s = t \<and> x = y"
  by (rule print_string_unique_aux) (simp add: print_string_def)

section \<open>Values\<close>

text \<open>The first character of a text tells the kind of the value.\<close>

fun json_kind :: "json \<Rightarrow> nat" where
  "json_kind JNull = 0"
| "json_kind (JBool b) = (if b then 1 else 2)"
| "json_kind (JInt i) = 3"
| "json_kind (JFloat m e) = 3"
| "json_kind (JStr s) = 4"
| "json_kind (JArr xs) = 5"
| "json_kind (JObj kvs) = 6"

definition char_kind :: "char \<Rightarrow> nat" where
  "char_kind c = (if c = CHR ''n'' then 0 else if c = CHR ''t'' then 1 else if c = CHR ''f'' then 2
     else if c = CHR 0x22 then 4 else if c = CHR ''['' then 5 else if c = CHR ''{'' then 6
     else if is_digit c \<or> c = CHR ''-'' then 3 else 7)"

lemma char_kind_number: "is_digit c \<or> c = CHR ''-'' \<Longrightarrow> char_kind c = 3"
  by (auto simp: char_kind_def is_digit_def)

lemma show_int_kind: "char_kind (hd (show_int i @ r)) = 3"
proof -
  obtain c s where "show_int i = c # s" by (cases "show_int i") auto
  then show ?thesis using show_int_chars [of c i] by (auto intro: char_kind_number)
qed

lemma print_json_kind:
  assumes "float_text_ok fr"
  shows "char_kind (hd (print_json fr v @ r)) = json_kind v"
proof (cases v)
  case (JInt i)
  then show ?thesis using show_int_kind [of i r] by simp
next
  case (JFloat m e)
  then show ?thesis using float_text_okD(2) [OF assms, of m e] by (auto intro: char_kind_number)
next
  case (JArr xs)
  then show ?thesis by (cases xs) (auto simp: char_kind_def)
next
  case (JObj kvs)
  then show ?thesis by (cases kvs) (auto simp: char_kind_def)
qed (auto simp: char_kind_def print_string_def)

lemma print_json_same_kind:
  assumes "float_text_ok fr" and "print_json fr v @ r = print_json fr w @ s"
  shows "json_kind v = json_kind w"
  by (metis assms print_json_kind)

definition delimited :: "string \<Rightarrow> bool" where
  "delimited r = (case r of [] \<Rightarrow> True | c # _ \<Rightarrow> \<not> is_number_char c)"

lemma number_unique:
  assumes "list_all is_number_char a" "list_all is_number_char b" "delimited r" "delimited s"
    and "a @ r = b @ s"
  shows "a = b \<and> r = s"
proof -
  have *: "takeWhile is_number_char (c @ t) = c" if "list_all is_number_char c" "delimited t" for c t
    using that by (induction c) (auto simp: delimited_def split: list.splits)
  have "takeWhile is_number_char (a @ r) = takeWhile is_number_char (b @ s)"
    by (simp add: assms(5))
  then have "a = b" using * assms(1-4) by simp
  with assms(5) show ?thesis by simp
qed

lemma show_int_number: "list_all is_number_char (show_int i)"
  by (auto simp: list_all_iff is_number_char_def dest!: show_int_chars)

lemma print_tail_delimited:
  "delimited (print_items fr xs @ r)" "delimited (print_members fr kvs @ r)"
  by (cases xs; simp add: delimited_def is_number_char_def is_digit_def)
     (cases kvs; auto simp: delimited_def is_number_char_def is_digit_def)

definition value_unique :: "float_text \<Rightarrow> json \<Rightarrow> bool" where
  "value_unique fr v \<longleftrightarrow> (\<forall>w r s. float_text_ok fr \<longrightarrow> print_json fr v @ r = print_json fr w @ s
     \<longrightarrow> delimited r \<longrightarrow> delimited s \<longrightarrow> v = w \<and> r = s)"

definition items_unique :: "float_text \<Rightarrow> json list \<Rightarrow> bool" where
  "items_unique fr xs \<longleftrightarrow> (\<forall>ys r s. float_text_ok fr \<longrightarrow> print_items fr xs @ r = print_items fr ys @ s
     \<longrightarrow> xs = ys \<and> r = s)"

definition members_unique :: "float_text \<Rightarrow> (string \<times> json) list \<Rightarrow> bool" where
  "members_unique fr xs \<longleftrightarrow> (\<forall>ys r s. float_text_ok fr \<longrightarrow>
     print_members fr xs @ r = print_members fr ys @ s \<longrightarrow> xs = ys \<and> r = s)"

lemma value_uniqueI:
  assumes "\<And>w r s. float_text_ok fr \<Longrightarrow> print_json fr v @ r = print_json fr w @ s \<Longrightarrow> delimited r
     \<Longrightarrow> delimited s \<Longrightarrow> json_kind v = json_kind w \<Longrightarrow> v = w \<and> r = s"
  shows "value_unique fr v"
  using assms print_json_same_kind unfolding value_unique_def by blast

lemma value_uniqueD:
  assumes "value_unique fr v" "float_text_ok fr" "print_json fr v @ r = print_json fr w @ s"
    "delimited r" "delimited s"
  shows "v = w" "r = s"
  using assms unfolding value_unique_def by blast+

lemma print_json_hd:
  assumes "float_text_ok fr"
  shows "print_json fr w @ s \<noteq> CHR '']'' # t" "print_json fr w @ s \<noteq> CHR ''}'' # t"
proof -
  have "char_kind (hd (print_json fr w @ s)) \<noteq> 7"
    using print_json_kind [OF assms, of w s] by (cases w) auto
  moreover have "char_kind (CHR '']'') = 7" "char_kind (CHR ''}'') = 7"
    by (simp_all add: char_kind_def is_digit_def)
  ultimately show "print_json fr w @ s \<noteq> CHR '']'' # t" "print_json fr w @ s \<noteq> CHR ''}'' # t"
    by (metis list.sel(1))+
qed

lemma number_value_unique:
  assumes "float_text_ok fr" "print_json fr v @ r = print_json fr w @ s" "delimited r" "delimited s"
    "json_kind v = 3" "json_kind w = 3"
  shows "v = w \<and> r = s"
proof -
  have num: "list_all is_number_char (print_json fr u)" if "json_kind u = 3" for u
    using that float_text_okD(1) [OF assms(1)] by (cases u) (auto simp: show_int_number split: if_splits)
  have eq: "print_json fr v = print_json fr w \<and> r = s"
    by (rule number_unique [OF num [OF assms(5)] num [OF assms(6)] assms(3,4,2)])
  have "v = w"
    using eq assms(5,6) float_text_okD(3,4) [OF assms(1)]
    by (cases v; cases w) (auto split: if_splits dest: show_int_inj, metis)
  with eq show ?thesis by simp
qed

lemma member_unique:
  assumes "value_unique fr v" "members_unique fr kvs" "float_text_ok fr"
    and "print_string k @ CHR '':'' # print_json fr v @ print_members fr kvs @ r
       = print_string l @ CHR '':'' # print_json fr w @ print_members fr lws @ s"
  shows "k = l \<and> v = w \<and> kvs = lws \<and> r = s"
proof -
  have k: "k = l" "print_json fr v @ (print_members fr kvs @ r) = print_json fr w @ (print_members fr lws @ s)"
    using print_string_unique [OF assms(4)] by auto
  note v = value_uniqueD [OF assms(1,3) k(2) print_tail_delimited(2) print_tail_delimited(2)]
  with assms(2,3) k(1) show ?thesis unfolding members_unique_def by blast
qed

lemma item_unique:
  assumes "value_unique fr v" "items_unique fr xs" "float_text_ok fr"
    and "print_json fr v @ print_items fr xs @ r = print_json fr w @ print_items fr ys @ s"
  shows "v = w \<and> xs = ys \<and> r = s"
proof -
  note v = value_uniqueD [OF assms(1,3,4) print_tail_delimited(1) print_tail_delimited(1)]
  with assms(2,3) show ?thesis unfolding items_unique_def by blast
qed

lemma print_unique: "value_unique fr v" "items_unique fr xs" "members_unique fr kvs"
proof (induction fr v and fr xs and fr kvs rule: print_json_print_items_print_members.induct)
  case (1 fr)
  show ?case by (rule value_uniqueI) (auto elim!: json_kind.elims split: if_splits)
next
  case (2 fr b)
  show ?case
  proof (rule value_uniqueI)
    fix w r s
    assume "print_json fr (JBool b) @ r = print_json fr w @ s" "json_kind (JBool b) = json_kind w"
    then show "JBool b = w \<and> r = s" by (cases w) (auto split: if_splits)
  qed
next
  case (3 fr i)
  show ?case by (rule value_uniqueI) (rule number_value_unique, auto)
next
  case (4 fr m e)
  show ?case by (rule value_uniqueI) (rule number_value_unique, auto)
next
  case (5 fr t)
  show ?case
  proof (rule value_uniqueI)
    fix w r s
    assume "print_json fr (JStr t) @ r = print_json fr w @ s" "json_kind (JStr t) = json_kind w"
    then show "JStr t = w \<and> r = s" by (cases w) (auto dest: print_string_unique split: if_splits)
  qed
next
  case (6 fr)
  show ?case
  proof (rule value_uniqueI)
    fix w r s
    assume *: "float_text_ok fr" "print_json fr (JArr []) @ r = print_json fr w @ s"
      "json_kind (JArr []) = json_kind w"
    then obtain ys where w: "w = JArr ys" by (cases w) (auto split: if_splits)
    show "JArr [] = w \<and> r = s"
    proof (cases ys)
      case (Cons y ys')
      with * w have "print_json fr y @ (print_items fr ys' @ s) = CHR '']'' # r" by simp
      then show ?thesis using print_json_hd(1) [OF *(1)] by metis
    qed (use * w in auto)
  qed
next
  case (7 fr x xs)
  show ?case
  proof (rule value_uniqueI)
    fix w r s
    assume *: "float_text_ok fr" "print_json fr (JArr (x # xs)) @ r = print_json fr w @ s"
      "json_kind (JArr (x # xs)) = json_kind w"
    then obtain ys where w: "w = JArr ys" by (cases w) (auto split: if_splits)
    show "JArr (x # xs) = w \<and> r = s"
    proof (cases ys)
      case Nil
      with * w have "print_json fr x @ (print_items fr xs @ r) = CHR '']'' # s" by simp
      then show ?thesis using print_json_hd(1) [OF *(1)] by metis
    next
      case (Cons y ys')
      with * w show ?thesis using item_unique [OF 7 *(1), of r y ys' s] by simp
    qed
  qed
next
  case (8 fr)
  show ?case
  proof (rule value_uniqueI)
    fix w r s
    assume *: "print_json fr (JObj []) @ r = print_json fr w @ s" "json_kind (JObj []) = json_kind w"
    then obtain ys where w: "w = JObj ys" by (cases w) (auto split: if_splits)
    with * show "JObj [] = w \<and> r = s" by (cases ys) (auto simp: print_string_def)
  qed
next
  case (9 fr k v kvs)
  show ?case
  proof (rule value_uniqueI)
    fix w r s
    assume *: "float_text_ok fr" "print_json fr (JObj ((k, v) # kvs)) @ r = print_json fr w @ s"
      "json_kind (JObj ((k, v) # kvs)) = json_kind w"
    then obtain ys where w: "w = JObj ys" by (cases w) (auto split: if_splits)
    show "JObj ((k, v) # kvs) = w \<and> r = s"
    proof (cases ys)
      case Nil
      with * w show ?thesis by (simp add: print_string_def)
    next
      case (Cons y ys')
      obtain l u where "y = (l, u)" by (cases y)
      with * w Cons show ?thesis using member_unique [OF 9 *(1), of k r l u ys' s] by simp
    qed
  qed
next
  case (10 fr)
  show ?case unfolding items_unique_def
  proof (intro allI impI)
    fix ys r s assume "print_items fr [] @ r = print_items fr ys @ s"
    then show "[] = ys \<and> r = s" by (cases ys) auto
  qed
next
  case (11 fr x xs)
  show ?case unfolding items_unique_def
  proof (intro allI impI)
    fix ys r s assume *: "float_text_ok fr" "print_items fr (x # xs) @ r = print_items fr ys @ s"
    then obtain y ys' where "ys = y # ys'" by (cases ys) auto
    with * show "x # xs = ys \<and> r = s" using item_unique [OF 11 *(1), of r y ys' s] by simp
  qed
next
  case (12 fr)
  show ?case unfolding members_unique_def
  proof (intro allI impI)
    fix ys r s assume "print_members fr [] @ r = print_members fr ys @ s"
    then show "[] = ys \<and> r = s" by (cases ys) auto
  qed
next
  case (13 fr k v kvs)
  show ?case unfolding members_unique_def
  proof (intro allI impI)
    fix ys r s assume *: "float_text_ok fr" "print_members fr ((k, v) # kvs) @ r = print_members fr ys @ s"
    then obtain l u ys' where "ys = (l, u) # ys'" by (cases ys) auto
    with * show "(k, v) # kvs = ys \<and> r = s" using member_unique [OF 13 *(1), of k r l u ys' s] by simp
  qed
qed

text \<open>The text of a value determines it.\<close>

lemma print_json_inj:
  assumes "float_text_ok fr" and "print_json fr v = print_json fr w"
  shows "v = w"
  using value_uniqueD(1) [OF print_unique(1) assms(1), of v "[]" w "[]"] assms(2)
  by (simp add: delimited_def)

lemma canonical_json_inj:
  "float_text_ok fr \<Longrightarrow> canonical_json fr v = canonical_json fr w \<Longrightarrow> sort_json v = sort_json w"
  unfolding canonical_json_def by (rule print_json_inj)

text \<open>Sorting members keeps what every key maps to.\<close>

lemma map_of_map_pair: "map_of (map (\<lambda>(k, v). (k, f v)) kvs) k = map_option f (map_of kvs k)"
  by (induction kvs) auto

lemma map_of_sort_key:
  assumes "distinct (map fst kvs)"
  shows "map_of (sort_key fst kvs) k = map_of kvs k"
proof -
  have d: "distinct (map fst (sort_key fst kvs))"
    using assms by (simp add: distinct_map)
  have "map_of (sort_key fst kvs) k = Some v \<longleftrightarrow> map_of kvs k = Some v" for v
    using assms d by (simp only: map_of_eq_Some_iff set_sort)
  then show ?thesis by (metis not_None_eq)
qed

lemma sort_json_members:
  assumes "sort_json (JObj kvs) = sort_json (JObj lws)"
    and "distinct (map fst kvs)" "distinct (map fst lws)"
  shows "map_option sort_json (map_of kvs k) = map_option sort_json (map_of lws k)"
proof -
  let ?s = "map (\<lambda>(k, v). (k, sort_json v))"
  have d: "distinct (map fst (?s m))" if "distinct (map fst m)" for m :: "(string \<times> json) list"
    using that by (simp add: comp_def case_prod_beta')
  have "sort_key fst (?s kvs) = sort_key fst (?s lws)" using assms(1) by simp
  then have "map_of (sort_key fst (?s kvs)) k = map_of (sort_key fst (?s lws)) k" by simp
  then have "map_of (?s kvs) k = map_of (?s lws) k"
    by (simp only: map_of_sort_key [OF d [OF assms(2)]] map_of_sort_key [OF d [OF assms(3)]])
  then show ?thesis by (simp only: map_of_map_pair)
qed

end
