(* ===== verification/Ledger.thy ===== *)
theory Ledger
  imports Contracts Json_Canonical
begin

text \<open>
  The integrity ledger: \<open>app/integrity.py\<close> and \<open>app/storage/integrity.py\<close>. Every decision of
  a project has one record; the record holds the digest of the decision's canonical payload, the
  record digest of its predecessor and its own digest over both. A verification recomputes the
  whole chain. The locale \<open>hash_chain\<close> says what any chain of that shape guarantees; its
  interpretation on the service's records gives the theorems: records built by the service verify,
  a verified ledger is exactly the chain of the project's decisions, and a checkpoint pins down
  every decision before it up to an explicit collision of the digest.
\<close>

section \<open>Records\<close>

definition evidence_payload_v1 :: "policy_evidence \<Rightarrow> json" where
  "evidence_payload_v1 e = JObj [(''match'', JStr (match_text (pe_match e))),
     (''conditions'', JArr (map (\<lambda>c. JObj [(''field'', JStr (ce_field c)),
        (''operator'', JStr (operator_text (ce_operator c))), (''actual_value'', ce_actual c),
        (''expected_value'', ce_expected c), (''matched'', JBool (ce_matched c))]) (pe_conditions e)))]"

definition authorization_payload_v1 :: "externals \<Rightarrow> authorization \<Rightarrow> json" where
  "authorization_payload_v1 X a = JObj [(''decision_id'', uuid_json (au_id a)),
     (''project_id'', uuid_json (au_project a)), (''evaluated_at'', time_json X (au_evaluated_at a)),
     (''decision'', JStr (decision_text (au_decision a))), (''policy'', opt_json JStr (au_policy a)),
     (''policy_version'', opt_json JInt (au_version a)), (''reason'', JStr (au_reason a)),
     (''evidence'', opt_json evidence_payload_v1 (au_evidence a)), (''agent'', JStr (au_agent a)),
     (''action'', JStr (au_action a)), (''context'', JObj (au_context a)),
     (''trace'', JArr (map (\<lambda>t. JObj [(''policy_id'', JStr (te_policy t)),
        (''policy_version'', JInt (te_version t)), (''decision'', JStr (decision_text (te_decision t))),
        (''reason'', JStr (te_reason t)), (''matched'', JBool (te_matched t)),
        (''evidence'', evidence_payload_v1 (te_evidence t))]) (au_trace a)))]"

definition digest_json :: "externals \<Rightarrow> json \<Rightarrow> string" where
  "digest_json X j = x_sha256 X (canonical_json (x_float X) j)"

definition payload_hash_of :: "externals \<Rightarrow> authorization \<Rightarrow> string" where
  "payload_hash_of X a = digest_json X (authorization_payload_v1 X a)"

definition integrity_record_envelope ::
  "string \<Rightarrow> string \<Rightarrow> uuid \<Rightarrow> string \<Rightarrow> string option \<Rightarrow> uuid \<Rightarrow> int \<Rightarrow> int \<Rightarrow> json" where
  "integrity_record_envelope algorithm created_at did payload_hash previous_hash pid schema_version sequence_number =
     JObj [(''algorithm'', JStr algorithm), (''created_at'', JStr created_at), (''decision_id'', uuid_json did),
       (''payload_hash'', JStr payload_hash), (''previous_hash'', opt_json JStr previous_hash),
       (''project_id'', uuid_json pid), (''schema_version'', JInt schema_version),
       (''sequence_number'', JInt sequence_number)]"

definition record_envelope :: "externals \<Rightarrow> authorization \<Rightarrow> int \<Rightarrow> string option \<Rightarrow> string \<Rightarrow> json" where
  "record_envelope X a n previous payload_hash =
     integrity_record_envelope ''SHA-256'' (x_time X (au_evaluated_at a)) (au_id a) payload_hash previous
       (au_project a) 1 n"

definition calculate_integrity_record_hash ::
  "externals \<Rightarrow> authorization \<Rightarrow> int \<Rightarrow> string option \<Rightarrow> string \<Rightarrow> string" where
  "calculate_integrity_record_hash X a n previous payload_hash =
     digest_json X (record_envelope X a n previous payload_hash)"

definition build_decision_integrity_proof ::
  "externals \<Rightarrow> authorization \<Rightarrow> int \<Rightarrow> string option \<Rightarrow> integrity_proof" where
  "build_decision_integrity_proof X a n previous =
     \<lparr>ip_decision = au_id a, ip_project = au_project a, ip_sequence = n, ip_previous = previous,
      ip_payload_hash = payload_hash_of X a,
      ip_record_hash = calculate_integrity_record_hash X a n previous (payload_hash_of X a),
      ip_algorithm = ''SHA-256'', ip_schema = 1, ip_created_at = au_evaluated_at a\<rparr>"

section \<open>The repository\<close>

text \<open>The records of a project by sequence number.\<close>

definition project_chain :: "db \<Rightarrow> uuid \<Rightarrow> integrity_proof list" where
  "project_chain d pid = sort_key ip_sequence (filter (\<lambda>p. ip_project p = pid) (t_integrity d))"

definition project_decisions :: "db \<Rightarrow> uuid \<Rightarrow> authorization list" where
  "project_decisions d pid = filter (\<lambda>a. au_project a = pid) (t_decisions d)"

definition ledger_insert :: "externals \<Rightarrow> authorization \<Rightarrow> integrity_proof block" where
  "ledger_insert X a d =
     (let chain = project_chain d (au_project a);
          proof_row = (if chain = [] then build_decision_integrity_proof X a 1 None
            else build_decision_integrity_proof X a (ip_sequence (last chain) + 1)
              (Some (ip_record_hash (last chain))))
      in bindE (insert_proof proof_row d) (\<lambda>d1. Inr (proof_row, d1)))"

definition backfill_one :: "externals \<Rightarrow> authorization \<Rightarrow> (int \<times> string option) \<times> db
    \<Rightarrow> exn + (int \<times> string option) \<times> db" where
  "backfill_one X a acc = (case acc of ((n, previous), d) \<Rightarrow>
     let proof_row = build_decision_integrity_proof X a n previous in
     bindE (insert_proof proof_row d) (\<lambda>d1. Inr ((n + 1, Some (ip_record_hash proof_row)), d1)))"

definition backfill_project :: "externals \<Rightarrow> uuid \<Rightarrow> db \<Rightarrow> exn + db" where
  "backfill_project X pid d =
     (let decisions = project_decisions d pid;
          integrity_count = length (filter (\<lambda>p. ip_project p = pid) (t_integrity d)) in
      if integrity_count = length decisions then Inr d
      else if integrity_count \<noteq> 0
      then Inl (DecisionIntegrityMigration pid (length decisions) integrity_count)
      else bindE (foldE (backfill_one X) (sort_key (\<lambda>a. (au_evaluated_at a, au_id a)) decisions) ((1, None), d))
        (\<lambda>(_, d1). Inr d1))"

definition backfill_existing_decisions :: "externals \<Rightarrow> unit operation" where
  "backfill_existing_decisions X = transaction (\<lambda>d.
     bindE (foldE (backfill_project X) (sort (remdups (map au_project (t_decisions d)))) d)
       (\<lambda>d1. Inr ((), d1)))"

definition ledger_get :: "uuid \<Rightarrow> uuid \<Rightarrow> db \<Rightarrow> integrity_proof option" where
  "ledger_get did pid d = find_row (\<lambda>p. ip_decision p = did \<and> ip_project p = pid) (t_integrity d)"

definition ledger_list :: "uuid \<Rightarrow> nat \<Rightarrow> nat \<Rightarrow> db \<Rightarrow> integrity_proof list" where
  "ledger_list pid limit offset d =
     page limit offset (sort_desc ip_sequence (filter (\<lambda>p. ip_project p = pid) (t_integrity d)))"

definition ledger_count :: "uuid \<Rightarrow> db \<Rightarrow> nat" where
  "ledger_count pid d = row_count (\<lambda>p. ip_project p = pid) (t_integrity d)"

section \<open>Verification\<close>

datatype failure_code =
    Record_count_mismatch | Sequence_mismatch | Previous_hash_mismatch | Payload_hash_mismatch
  | Record_hash_mismatch | Algorithm_mismatch | Schema_version_mismatch | Created_at_mismatch
  | Head_hash_mismatch

record integrity_failure =
  if_code :: failure_code
  if_decision :: "uuid option"
  if_sequence :: "int option"
  if_expected :: "string option"
  if_actual :: "string option"

record verification =
  vf_project :: uuid
  vf_verified :: bool
  vf_total :: nat
  vf_checked :: nat
  vf_head :: "string option"
  vf_failure :: "integrity_failure option"

definition failed :: "uuid \<Rightarrow> nat \<Rightarrow> nat \<Rightarrow> string option \<Rightarrow> integrity_failure \<Rightarrow> verification" where
  "failed pid amount checked head failure = \<lparr>vf_project = pid, vf_verified = False, vf_total = amount,
     vf_checked = checked, vf_head = head, vf_failure = Some failure\<rparr>"

text \<open>The checks of one row, in the code's order: the first that fails.\<close>

definition check_row :: "externals \<Rightarrow> int \<Rightarrow> string option \<Rightarrow> integrity_proof \<times> authorization
    \<Rightarrow> integrity_failure option" where
  "check_row X n previous row = (case row of (p, a) \<Rightarrow>
     let fail = (\<lambda>code expected actual. Some \<lparr>if_code = code, if_decision = Some (au_id a),
           if_sequence = Some n, if_expected = expected, if_actual = actual\<rparr>);
         payload_hash = payload_hash_of X a;
         record_hash = calculate_integrity_record_hash X a n previous payload_hash in
     if ip_sequence p \<noteq> n then fail Sequence_mismatch (Some (show_int n)) (Some (show_int (ip_sequence p)))
     else if ip_previous p \<noteq> previous then fail Previous_hash_mismatch previous (ip_previous p)
     else if ip_algorithm p \<noteq> ''SHA-256'' then
       fail Algorithm_mismatch (Some ''SHA-256'') (Some (ip_algorithm p))
     else if ip_schema p \<noteq> 1 then fail Schema_version_mismatch (Some ''1'') (Some (show_int (ip_schema p)))
     else if ip_created_at p \<noteq> au_evaluated_at a then
       fail Created_at_mismatch (Some (isoformat (au_evaluated_at a))) (Some (isoformat (ip_created_at p)))
     else if ip_payload_hash p \<noteq> payload_hash then
       fail Payload_hash_mismatch (Some payload_hash) (Some (ip_payload_hash p))
     else if ip_record_hash p \<noteq> record_hash then
       fail Record_hash_mismatch (Some record_hash) (Some (ip_record_hash p))
     else None)"

fun verify_rows :: "externals \<Rightarrow> uuid \<Rightarrow> nat \<Rightarrow> string option \<Rightarrow> (integrity_proof \<times> authorization) list
    \<Rightarrow> int \<Rightarrow> string option \<Rightarrow> nat \<Rightarrow> bool \<Rightarrow> verification" where
  "verify_rows X pid amount expected_head [] n previous checked seen =
     (if expected_head \<noteq> None \<and> \<not> seen
      then failed pid amount checked previous \<lparr>if_code = Head_hash_mismatch, if_decision = None,
             if_sequence = None, if_expected = expected_head, if_actual = previous\<rparr>
      else \<lparr>vf_project = pid, vf_verified = True, vf_total = amount, vf_checked = checked,
            vf_head = previous, vf_failure = None\<rparr>)"
| "verify_rows X pid amount expected_head (row # rows) n previous checked seen =
     (case check_row X n previous row of
        Some failure \<Rightarrow> failed pid amount checked None failure
      | None \<Rightarrow> verify_rows X pid amount expected_head rows (n + 1) (Some (ip_record_hash (fst row)))
          (checked + 1) (seen \<or> Some (ip_record_hash (fst row)) = expected_head))"

definition unmatched :: "db \<Rightarrow> uuid \<Rightarrow> uuid option" where
  "unmatched d pid =
     (case find_row (\<lambda>a. au_project a = pid
          \<and> \<not> list_ex (\<lambda>p. ip_decision p = au_id a \<and> ip_project p = au_project a) (t_integrity d)) (t_decisions d) of
        Some a \<Rightarrow> Some (au_id a)
      | None \<Rightarrow> map_option ip_decision (find_row (\<lambda>p. ip_project p = pid
          \<and> \<not> list_ex (\<lambda>a. au_id a = ip_decision p \<and> au_project a = ip_project p) (t_decisions d)) (t_integrity d)))"

text \<open>The join of \<open>_iter_verification_rows\<close>.\<close>

definition verification_rows :: "db \<Rightarrow> uuid \<Rightarrow> (integrity_proof \<times> authorization) list" where
  "verification_rows d pid =
     concat (map (\<lambda>p. map (Pair p)
       (filter (\<lambda>a. au_id a = ip_decision p \<and> au_project a = ip_project p) (t_decisions d)))
     (project_chain d pid))"

definition ledger_verify :: "externals \<Rightarrow> uuid \<Rightarrow> string option \<Rightarrow> db \<Rightarrow> verification" where
  "ledger_verify X pid expected_head d =
     (let amount = length (project_decisions d pid);
          integrity_count = length (filter (\<lambda>p. ip_project p = pid) (t_integrity d)) in
      if integrity_count \<noteq> amount \<or> unmatched d pid \<noteq> None
      then failed pid amount 0 None \<lparr>if_code = Record_count_mismatch, if_decision = unmatched d pid,
             if_sequence = None, if_expected = Some (show_nat amount), if_actual = Some (show_nat integrity_count)\<rparr>
      else verify_rows X pid amount expected_head (verification_rows d pid) 1 None 0 (expected_head = None))"

section \<open>Hash chains\<close>

text \<open>The records of a list of entries, each built on the digest of the one before it.\<close>

fun chain_of ::
  "('a \<Rightarrow> int \<Rightarrow> string option \<Rightarrow> 'r) \<Rightarrow> ('r \<Rightarrow> string) \<Rightarrow> 'a list \<Rightarrow> int \<Rightarrow> string option \<Rightarrow> 'r list" where
  "chain_of build digest [] n previous = []"
| "chain_of build digest (a # as) n previous =
     (let r = build a n previous in r # chain_of build digest as (n + 1) (Some (digest r)))"

definition chain_head :: "('r \<Rightarrow> string) \<Rightarrow> 'r list \<Rightarrow> string option \<Rightarrow> string option" where
  "chain_head digest rs previous = (if rs = [] then previous else Some (digest (last rs)))"

lemma length_chain_of [simp]: "length (chain_of build digest as n previous) = length as"
  by (induction as arbitrary: n previous) (auto simp: Let_def)

lemma chain_of_Nil_iff [simp]: "chain_of build digest as n previous = [] \<longleftrightarrow> as = []"
  by (cases as) (simp_all add: Let_def)

lemma chain_of_append:
  "chain_of build digest (as @ bs) n previous =
    chain_of build digest as n previous @
    chain_of build digest bs (n + int (length as)) (chain_head digest (chain_of build digest as n previous) previous)"
  by (induction as arbitrary: n previous) (auto simp: Let_def chain_head_def algebra_simps)

definition previous_at :: "('r \<Rightarrow> string) \<Rightarrow> 'r list \<Rightarrow> string option \<Rightarrow> nat \<Rightarrow> string option" where
  "previous_at digest rs previous i = (if i = 0 then previous else Some (digest (rs ! (i - 1))))"

lemma chain_of_nth:
  "i < length as \<Longrightarrow> chain_of build digest as n previous ! i =
    build (as ! i) (n + int i) (previous_at digest (chain_of build digest as n previous) previous i)"
proof (induction as arbitrary: n previous i)
  case Nil
  then show ?case by simp
next
  case (Cons a as)
  show ?case
  proof (cases i)
    case 0
    then show ?thesis by (simp add: Let_def previous_at_def)
  next
    case (Suc j)
    with Cons.prems Cons.IH [of j "n + 1" "Some (digest (build a n previous))"] show ?thesis
      by (cases j) (simp_all add: Let_def previous_at_def algebra_simps)
  qed
qed

text \<open>The texts digested for the records of a chain, and a collision of the digest among texts.\<close>

definition chain_texts ::
  "('a \<Rightarrow> int \<Rightarrow> string option \<Rightarrow> 'r) \<Rightarrow> ('r \<Rightarrow> string) \<Rightarrow> ('a \<Rightarrow> int \<Rightarrow> string option \<Rightarrow> string set)
    \<Rightarrow> 'a list \<Rightarrow> int \<Rightarrow> string option \<Rightarrow> string set" where
  "chain_texts build digest texts as n previous = (\<Union>i < length as.
     texts (as ! i) (n + int i) (previous_at digest (chain_of build digest as n previous) previous i))"

definition collides :: "(string \<Rightarrow> string) \<Rightarrow> string set \<Rightarrow> bool" where
  "collides hash S \<longleftrightarrow> (\<exists>x \<in> S. \<exists>y \<in> S. x \<noteq> y \<and> hash x = hash y)"

lemma collides_mono: "collides hash S \<Longrightarrow> S \<subseteq> T \<Longrightarrow> collides hash T"
  unfolding collides_def by blast

lemma not_collides: "\<not> collides hash S \<Longrightarrow> x \<in> S \<Longrightarrow> y \<in> S \<Longrightarrow> hash x = hash y \<Longrightarrow> x = y"
  unfolding collides_def by blast

text \<open>
  The law of a record's digest: equal digests come from the same place in the chain, the same
  predecessor and entries of the same content, unless two of the texts behind them collide.
  \<open>readable\<close> says that the digested texts are unambiguous.
\<close>

locale hash_chain =
  fixes build :: "'a \<Rightarrow> int \<Rightarrow> string option \<Rightarrow> 'r"
    and digest :: "'r \<Rightarrow> string"
    and same :: "'a \<Rightarrow> 'a \<Rightarrow> bool"
    and hash :: "string \<Rightarrow> string"
    and texts :: "'a \<Rightarrow> int \<Rightarrow> string option \<Rightarrow> string set"
    and readable :: bool
  assumes pinned: "readable \<Longrightarrow> digest (build a n p) = digest (build b m q) \<Longrightarrow>
    collides hash (texts a n p \<union> texts b m q) \<or> same a b \<and> n = m \<and> p = q"
begin

lemma place_pinned:
  assumes readable and apart: "\<not> collides hash (chain_texts build digest texts as n p \<union> chain_texts build digest texts bs n q)"
    and "i < length as" and "j < length bs"
    and "digest (chain_of build digest as n p ! i) = digest (chain_of build digest bs n q ! j)"
  shows "i = j \<and> same (as ! i) (bs ! j)
    \<and> previous_at digest (chain_of build digest as n p) p i = previous_at digest (chain_of build digest bs n q) q j"
proof -
  let ?P = "previous_at digest (chain_of build digest as n p) p i"
  let ?Q = "previous_at digest (chain_of build digest bs n q) q j"
  have "texts (as ! i) (n + int i) ?P \<union> texts (bs ! j) (n + int j) ?Q
      \<subseteq> chain_texts build digest texts as n p \<union> chain_texts build digest texts bs n q"
    using assms(3,4) unfolding chain_texts_def by blast
  then have "\<not> collides hash (texts (as ! i) (n + int i) ?P \<union> texts (bs ! j) (n + int j) ?Q)"
    using apart collides_mono by blast
  with pinned [OF assms(1) assms(5) [unfolded chain_of_nth [OF assms(3)] chain_of_nth [OF assms(4)]]]
  have "same (as ! i) (bs ! j) \<and> n + int i = n + int j \<and> ?P = ?Q" by blast
  then show ?thesis by auto
qed

lemma prefix_pinned:
  assumes readable and apart: "\<not> collides hash (chain_texts build digest texts as n p \<union> chain_texts build digest texts bs n q)"
    and "i < length as" and "j < length bs"
    and "digest (chain_of build digest as n p ! i) = digest (chain_of build digest bs n q ! j)"
  shows "i = j \<and> (\<forall>k \<le> i. same (as ! k) (bs ! k)
    \<and> digest (chain_of build digest as n p ! k) = digest (chain_of build digest bs n q ! k))"
  using assms(3-5)
proof (induction i arbitrary: j)
  case 0
  with place_pinned [OF assms(1) apart 0] show ?case by auto
next
  case (Suc i)
  from place_pinned [OF assms(1) apart Suc.prems] have j: "j = Suc i" and same: "same (as ! Suc i) (bs ! j)"
    and prev: "digest (chain_of build digest as n p ! i) = digest (chain_of build digest bs n q ! i)"
    by (auto simp: previous_at_def)
  have "\<forall>k \<le> i. same (as ! k) (bs ! k)
      \<and> digest (chain_of build digest as n p ! k) = digest (chain_of build digest bs n q ! k)"
    using Suc.IH [of i] Suc.prems(1,2) prev j by auto
  with same j Suc.prems(3) show ?case by (auto simp: le_Suc_eq)
qed

end

section \<open>The service's chain\<close>

definition same_payload :: "externals \<Rightarrow> authorization \<Rightarrow> authorization \<Rightarrow> bool" where
  "same_payload X a b \<longleftrightarrow> sort_json (authorization_payload_v1 X a) = sort_json (authorization_payload_v1 X b)"

text \<open>The two texts digested for a record: the decision's payload and the record's envelope.\<close>

definition record_texts :: "externals \<Rightarrow> authorization \<Rightarrow> int \<Rightarrow> string option \<Rightarrow> string set" where
  "record_texts X a n previous = {canonical_json (x_float X) (authorization_payload_v1 X a),
     canonical_json (x_float X) (record_envelope X a n previous (payload_hash_of X a))}"

lemma opt_str_inj [simp]: "opt_json JStr p = opt_json JStr q \<longleftrightarrow> p = q"
  by (auto simp: opt_json_def split: option.splits)

lemma opt_int_inj [simp]: "opt_json JInt p = opt_json JInt q \<longleftrightarrow> p = q"
  by (auto simp: opt_json_def split: option.splits)

lemma sort_opt_str [simp]: "sort_json (opt_json JStr p) = opt_json JStr p"
  by (simp add: opt_json_def split: option.split)

lemma sort_opt_int [simp]: "sort_json (opt_json JInt p) = opt_json JInt p"
  by (simp add: opt_json_def split: option.split)

lemma envelope_eq:
  assumes "sort_json (record_envelope X a n p h) = sort_json (record_envelope X b m q k)"
  shows "n = m \<and> p = q \<and> h = k"
proof -
  note mem = sort_json_members [OF assms [unfolded record_envelope_def integrity_record_envelope_def]]
  from mem [of "''sequence_number''"] mem [of "''previous_hash''"] mem [of "''payload_hash''"]
  show ?thesis by simp
qed

lemma record_hash_pinned:
  assumes float: "float_text_ok (x_float X)"
    and hash: "ip_record_hash (build_decision_integrity_proof X a n p)
      = ip_record_hash (build_decision_integrity_proof X b m q)"
    and apart: "\<not> collides (x_sha256 X) (record_texts X a n p \<union> record_texts X b m q)"
  shows "same_payload X a b \<and> n = m \<and> p = q"
proof -
  have "canonical_json (x_float X) (record_envelope X a n p (payload_hash_of X a))
      = canonical_json (x_float X) (record_envelope X b m q (payload_hash_of X b))"
    by (rule not_collides [OF apart]) (use hash in \<open>simp_all add: record_texts_def
      build_decision_integrity_proof_def calculate_integrity_record_hash_def digest_json_def\<close>)
  from envelope_eq [OF canonical_json_inj [OF float this]]
  have places: "n = m" "p = q" and digests: "x_sha256 X (canonical_json (x_float X) (authorization_payload_v1 X a))
      = x_sha256 X (canonical_json (x_float X) (authorization_payload_v1 X b))"
    by (simp_all add: payload_hash_of_def digest_json_def)
  have "canonical_json (x_float X) (authorization_payload_v1 X a)
      = canonical_json (x_float X) (authorization_payload_v1 X b)"
    by (rule not_collides [OF apart _ _ digests]) (simp_all add: record_texts_def)
  then have "same_payload X a b" unfolding same_payload_def by (rule canonical_json_inj [OF float])
  with places show ?thesis by simp
qed

interpretation ledger: hash_chain "build_decision_integrity_proof X" ip_record_hash "same_payload X"
  "x_sha256 X" "record_texts X" "float_text_ok (x_float X)" for X
  by unfold_locales (use record_hash_pinned in blast)

abbreviation proofs_of :: "externals \<Rightarrow> authorization list \<Rightarrow> int \<Rightarrow> string option \<Rightarrow> integrity_proof list" where
  "proofs_of X \<equiv> chain_of (build_decision_integrity_proof X) ip_record_hash"

text \<open>What the payload determines.\<close>

lemma decision_text_inj [simp]: "decision_text a = decision_text b \<longleftrightarrow> a = b"
  by (cases a; cases b) simp_all

lemma same_payload_fields:
  assumes "same_payload X a b"
  shows "au_decision a = au_decision b \<and> au_agent a = au_agent b \<and> au_action a = au_action b
    \<and> au_reason a = au_reason b \<and> au_policy a = au_policy b \<and> au_version a = au_version b
    \<and> uuid_text (au_id a) = uuid_text (au_id b)
    \<and> sort_json (JObj (au_context a)) = sort_json (JObj (au_context b))"
proof -
  note mem = sort_json_members [OF assms [unfolded same_payload_def authorization_payload_v1_def]]
  from mem [of "''decision''"] mem [of "''agent''"] mem [of "''action''"] mem [of "''reason''"]
    mem [of "''policy''"] mem [of "''policy_version''"] mem [of "''decision_id''"] mem [of "''context''"]
  show ?thesis by (simp add: uuid_json_def del: sort_json.simps(2))
qed

section \<open>What a verification means\<close>

text \<open>A valid ledger: the records of a project are the chain of exactly its decisions.\<close>

definition ledger_valid :: "externals \<Rightarrow> db \<Rightarrow> uuid \<Rightarrow> bool" where
  "ledger_valid X d pid \<longleftrightarrow> (\<exists>as. project_chain d pid = proofs_of X as 1 None
     \<and> distinct as \<and> set as = set (project_decisions d pid))"

lemma check_row_None:
  "check_row X n previous (p, a) = None \<longleftrightarrow> ip_sequence p = n \<and> ip_previous p = previous
    \<and> ip_algorithm p = ''SHA-256'' \<and> ip_schema p = 1 \<and> ip_created_at p = au_evaluated_at a
    \<and> ip_payload_hash p = payload_hash_of X a
    \<and> ip_record_hash p = calculate_integrity_record_hash X a n previous (payload_hash_of X a)"
  by (simp add: check_row_def Let_def)

lemma build_eq_iff:
  "p = build_decision_integrity_proof X a n previous \<longleftrightarrow>
    ip_decision p = au_id a \<and> ip_project p = au_project a \<and> check_row X n previous (p, a) = None"
  by (cases p) (auto simp: build_decision_integrity_proof_def check_row_None)

lemma failed_unverified [simp]: "\<not> vf_verified (failed pid amount checked head failure)"
  by (simp add: failed_def)

lemma verify_rows_verified:
  assumes "\<forall>(p, a) \<in> set rows. ip_decision p = au_id a \<and> ip_project p = au_project a"
  shows "vf_verified (verify_rows X pid amount expected rows n previous checked seen) \<longleftrightarrow>
    map fst rows = proofs_of X (map snd rows) n previous
    \<and> (expected = None \<or> seen \<or> expected \<in> Some ` ip_record_hash ` set (map fst rows))"
  using assms
proof (induction rows arbitrary: n previous checked seen)
  case Nil
  then show ?case by (auto simp: failed_def)
next
  case (Cons row rows)
  obtain p a where row: "row = (p, a)" by force
  from Cons.prems row have ids: "ip_decision p = au_id a" "ip_project p = au_project a" by auto
  note IH = Cons.IH [of "n + 1" "Some (ip_record_hash p)" "Suc checked" "seen \<or> Some (ip_record_hash p) = expected"]
  show ?case
  proof (cases "check_row X n previous (p, a)")
    case None
    then have p: "p = build_decision_integrity_proof X a n previous" using ids by (simp add: build_eq_iff)
    then show ?thesis using None IH Cons.prems row by (auto simp: Let_def)
  next
    case (Some f)
    then have "p \<noteq> build_decision_integrity_proof X a n previous" by (auto simp: build_eq_iff)
    then show ?thesis using Some row by (simp add: failed_def Let_def)
  qed
qed

lemma verify_rows_values:
  "vf_verified (verify_rows X pid amount expected rows n previous checked seen) \<Longrightarrow>
    verify_rows X pid amount expected rows n previous checked seen =
    \<lparr>vf_project = pid, vf_verified = True, vf_total = amount, vf_checked = checked + length rows,
     vf_head = chain_head ip_record_hash (map fst rows) previous, vf_failure = None\<rparr>"
proof (induction rows arbitrary: n previous checked seen)
  case Nil
  then show ?case by (auto simp: chain_head_def split: if_splits)
next
  case (Cons row rows)
  let ?h = "Some (ip_record_hash (fst row))"
  have step: "verify_rows X pid amount expected (row # rows) n previous checked seen =
      verify_rows X pid amount expected rows (n + 1) ?h (checked + 1) (seen \<or> ?h = expected)"
    using Cons.prems by (cases "check_row X n previous row") simp_all
  then have "vf_verified (verify_rows X pid amount expected rows (n + 1) ?h (checked + 1) (seen \<or> ?h = expected))"
    using Cons.prems by simp
  from Cons.IH [OF this] step show ?case by (simp add: chain_head_def last_map)
qed

lemma unmatched_None:
  "unmatched d pid = None \<longleftrightarrow>
    (\<forall>a \<in> set (t_decisions d). au_project a = pid \<longrightarrow>
       (\<exists>p \<in> set (t_integrity d). ip_decision p = au_id a \<and> ip_project p = pid))
    \<and> (\<forall>p \<in> set (t_integrity d). ip_project p = pid \<longrightarrow>
       (\<exists>a \<in> set (t_decisions d). au_id a = ip_decision p \<and> au_project a = pid))"
  by (auto simp: unmatched_def find_row_None list_ex_iff split: option.splits dest!: find_row_Some)

section \<open>Verified means valid\<close>

lemma decision_rows_of:
  assumes "unique_by au_id (t_decisions d)" and "a \<in> set (t_decisions d)"
  shows "filter (\<lambda>b. au_id b = au_id a \<and> au_project b = au_project a) (t_decisions d) = [a]"
proof -
  have "distinct (t_decisions d)" using assms(1) by (simp add: unique_by_def distinct_map)
  moreover have "set (filter (\<lambda>b. au_id b = au_id a \<and> au_project b = au_project a) (t_decisions d)) = {a}"
    using assms unique_by_eq [OF assms(1) _ assms(2)] by auto
  ultimately show ?thesis by (intro distinct_singleton) simp_all
qed

lemma project_chain_set: "set (project_chain d pid) = {p \<in> set (t_integrity d). ip_project p = pid}"
  by (auto simp: project_chain_def)

lemma verification_rows_of_proofs:
  assumes "unique_by au_id (t_decisions d)" and "set as \<subseteq> set (t_decisions d)"
    and "list_all2 (\<lambda>p a. ip_decision p = au_id a \<and> ip_project p = au_project a) ps as"
  shows "concat (map (\<lambda>p. map (Pair p)
       (filter (\<lambda>a. au_id a = ip_decision p \<and> au_project a = ip_project p) (t_decisions d))) ps) = zip ps as"
  using assms(3,2)
proof (induction rule: list_all2_induct)
  case Nil
  then show ?case by simp
next
  case (Cons p ps a as)
  then show ?case using decision_rows_of [OF assms(1), of a] by simp
qed

lemma proofs_decisions:
  "list_all2 (\<lambda>p a. ip_decision p = au_id a \<and> ip_project p = au_project a) (proofs_of X as n previous) as"
  by (induction as arbitrary: n previous) (auto simp: Let_def build_decision_integrity_proof_def)

lemma unmatched_partner:
  assumes "unmatched d pid = None" and "unique_by au_id (t_decisions d)"
  obtains as where "list_all2 (\<lambda>p a. ip_decision p = au_id a \<and> ip_project p = au_project a) (project_chain d pid) as"
    and "set as \<subseteq> set (project_decisions d pid)"
proof -
  have "\<exists>as. list_all2 (\<lambda>p a. ip_decision p = au_id a \<and> ip_project p = au_project a) ps as
      \<and> set as \<subseteq> set (project_decisions d pid)"
    if "set ps \<subseteq> set (project_chain d pid)" for ps
    using that
  proof (induction ps)
    case (Cons p ps)
    then obtain as where as: "list_all2 (\<lambda>p a. ip_decision p = au_id a \<and> ip_project p = au_project a) ps as"
        "set as \<subseteq> set (project_decisions d pid)" by auto
    have "p \<in> set (t_integrity d)" "ip_project p = pid" using Cons.prems by (auto simp: project_chain_set)
    then obtain a where "a \<in> set (t_decisions d)" "au_id a = ip_decision p" "au_project a = pid"
      using assms(1) by (auto simp: unmatched_None)
    with as \<open>ip_project p = pid\<close> show ?case
      by (intro exI [of _ "a # as"]) (auto simp: project_decisions_def)
  qed simp
  from this [of "project_chain d pid"] that show thesis by blast
qed

lemma distinct_project_chain:
  "db_ok d \<Longrightarrow> distinct (map ip_decision (project_chain d pid))"
  by (auto simp: project_chain_def db_ok_def unique_by_def distinct_map inj_on_def distinct_sort)

abbreviation marked :: "db \<Rightarrow> uuid \<Rightarrow> string option \<Rightarrow> bool" where
  "marked d pid expected \<equiv>
     (case expected of None \<Rightarrow> True | Some h \<Rightarrow> h \<in> ip_record_hash ` set (project_chain d pid))"

abbreviation partners :: "integrity_proof list \<Rightarrow> authorization list \<Rightarrow> bool" where
  "partners \<equiv> list_all2 (\<lambda>p a. ip_decision p = au_id a \<and> ip_project p = au_project a)"

lemma partner_decisions:
  assumes un: "unmatched d pid = None" and ok: "db_ok d"
    and as: "partners (project_chain d pid) as" and sub: "set as \<subseteq> set (project_decisions d pid)"
  shows "distinct as \<and> set as = set (project_decisions d pid)"
proof -
  have unique: "unique_by au_id (t_decisions d)" using ok by (simp add: db_ok_def)
  have au: "map au_id as = map ip_decision (project_chain d pid)"
    using as by (auto simp: list_all2_conv_all_nth intro: nth_equalityI)
  then have dist: "distinct as"
    using distinct_project_chain [OF ok, of pid] by (metis distinct_map)
  have "a \<in> set as" if "a \<in> set (project_decisions d pid)" for a
  proof -
    from that have a: "a \<in> set (t_decisions d)" "au_project a = pid" by (auto simp: project_decisions_def)
    with un obtain p where "p \<in> set (t_integrity d)" "ip_decision p = au_id a" "ip_project p = pid"
      by (auto simp: unmatched_None)
    then have "au_id a \<in> set (map au_id as)" unfolding au by (force simp: project_chain_set)
    then obtain b where "b \<in> set as" "au_id b = au_id a" by auto
    moreover from this sub have "b \<in> set (t_decisions d)" by (auto simp: project_decisions_def)
    ultimately show ?thesis using unique_by_eq [OF unique _ a(1)] by metis
  qed
  with sub dist show ?thesis by auto
qed

lemma partner_rows:
  assumes ok: "db_ok d" and as: "partners (project_chain d pid) as"
    and sub: "set as \<subseteq> set (project_decisions d pid)"
  shows "verification_rows d pid = zip (project_chain d pid) as"
    and "length as = length (project_chain d pid)"
    and "\<forall>(p, a) \<in> set (verification_rows d pid). ip_decision p = au_id a \<and> ip_project p = au_project a"
proof -
  have unique: "unique_by au_id (t_decisions d)" using ok by (simp add: db_ok_def)
  show zip: "verification_rows d pid = zip (project_chain d pid) as"
    unfolding verification_rows_def
    by (rule verification_rows_of_proofs [OF unique _ as]) (use sub in \<open>auto simp: project_decisions_def\<close>)
  show "length as = length (project_chain d pid)" using as by (auto dest: list_all2_lengthD)
  show "\<forall>(p, a) \<in> set (verification_rows d pid). ip_decision p = au_id a \<and> ip_project p = au_project a"
    using as by (auto simp: zip list_all2_iff)
qed

lemma verified_ledger_valid:
  assumes ok: "db_ok d" and v: "vf_verified (ledger_verify X pid expected d)"
  shows "ledger_valid X d pid \<and> marked d pid expected"
proof -
  have unique: "unique_by au_id (t_decisions d)" using ok by (simp add: db_ok_def)
  from v have un: "unmatched d pid = None" and rows: "vf_verified (verify_rows X pid
      (length (project_decisions d pid)) expected (verification_rows d pid) 1 None 0 (expected = None))"
    by (auto simp: ledger_verify_def Let_def split: if_splits)
  obtain as where as: "partners (project_chain d pid) as" and sub: "set as \<subseteq> set (project_decisions d pid)"
    using unmatched_partner [OF un unique] by blast
  note pr = partner_rows [OF ok as sub]
  have "project_chain d pid = proofs_of X as 1 None \<and> marked d pid expected"
    using rows unfolding verify_rows_verified [OF pr(3)]
    by (auto simp: pr(1,2) split: option.splits)
  with partner_decisions [OF un ok as sub] show ?thesis by (auto simp: ledger_valid_def)
qed

lemma partner_unmatched:
  assumes as: "partners (project_chain d pid) as" and set: "set as = set (project_decisions d pid)"
  shows "unmatched d pid = None"
  unfolding unmatched_None
proof (intro conjI ballI impI)
  have len: "length (project_chain d pid) = length as" using as by (rule list_all2_lengthD)
  {
    fix a assume "a \<in> set (t_decisions d)" "au_project a = pid"
    then have "a \<in> set as" using set by (simp add: project_decisions_def)
    then obtain i where i: "i < length as" "as ! i = a" by (auto simp: in_set_conv_nth)
    then have "ip_decision (project_chain d pid ! i) = au_id a" "project_chain d pid ! i \<in> set (project_chain d pid)"
      using as len by (auto simp: list_all2_conv_all_nth)
    then show "\<exists>p \<in> set (t_integrity d). ip_decision p = au_id a \<and> ip_project p = pid"
      by (auto simp: project_chain_set)
  next
    fix p assume "p \<in> set (t_integrity d)" "ip_project p = pid"
    then have "p \<in> set (project_chain d pid)" by (simp add: project_chain_set)
    then obtain i where i: "i < length as" "project_chain d pid ! i = p" by (auto simp: in_set_conv_nth len)
    then have "as ! i \<in> set (project_decisions d pid)" "au_id (as ! i) = ip_decision p"
      using as set nth_mem [of i as] by (auto simp: list_all2_conv_all_nth)
    then show "\<exists>a \<in> set (t_decisions d). au_id a = ip_decision p \<and> au_project a = pid"
      by (auto simp: project_decisions_def)
  }
qed

lemma valid_count:
  assumes ok: "db_ok d" and v: "ledger_valid X d pid"
  shows "length (filter (\<lambda>p. ip_project p = pid) (t_integrity d)) = length (project_decisions d pid)"
proof -
  from v obtain as where chain: "project_chain d pid = proofs_of X as 1 None" and dist: "distinct as"
    and set: "set as = set (project_decisions d pid)" by (auto simp: ledger_valid_def)
  have "distinct (project_decisions d pid)"
    using ok by (simp add: project_decisions_def unique_by_def distinct_map db_ok_def)
  then have "length (project_chain d pid) = length (project_decisions d pid)"
    using dist set chain by (metis distinct_card length_chain_of)
  then show ?thesis by (simp add: project_chain_def)
qed

lemma valid_ledger_verified:
  assumes ok: "db_ok d" and v: "ledger_valid X d pid" and marked: "marked d pid expected"
  shows "ledger_verify X pid expected d =
    \<lparr>vf_project = pid, vf_verified = True, vf_total = length (project_decisions d pid),
     vf_checked = length (project_decisions d pid),
     vf_head = chain_head ip_record_hash (project_chain d pid) None, vf_failure = None\<rparr>"
proof -
  from v obtain as where chain: "project_chain d pid = proofs_of X as 1 None"
    and set: "set as = set (project_decisions d pid)" by (auto simp: ledger_valid_def)
  have as: "partners (project_chain d pid) as" unfolding chain by (rule proofs_decisions)
  note pr = partner_rows [OF ok as equalityD1 [OF set]]
  note count = valid_count [OF ok v]
  then have total: "length as = length (project_decisions d pid)" using pr(2) by (simp add: project_chain_def)
  have "vf_verified (verify_rows X pid (length (project_decisions d pid)) expected (verification_rows d pid)
      1 None 0 (expected = None))"
    unfolding verify_rows_verified [OF pr(3)] using marked chain pr(2) by (auto simp: pr(1) split: option.splits)
  from verify_rows_values [OF this] count partner_unmatched [OF as set] total show ?thesis
    by (simp add: ledger_verify_def Let_def pr(1,2))
qed

lemma ledger_verify_valid:
  assumes "db_ok d"
  shows "vf_verified (ledger_verify X pid expected d) \<longleftrightarrow> ledger_valid X d pid \<and> marked d pid expected"
proof
  assume "ledger_valid X d pid \<and> marked d pid expected"
  then show "vf_verified (ledger_verify X pid expected d)"
    by (elim conjE) (drule (1) valid_ledger_verified [OF assms], simp)
qed (rule verified_ledger_valid [OF assms])

section \<open>A new record\<close>

lemma sort_key_snoc:
  assumes "\<forall>x \<in> set xs. k x \<le> k y"
  shows "sort_key k (xs @ [y]) = sort_key k xs @ [y]"
proof -
  have last: "insort_key k x (zs @ [y]) = insort_key k x zs @ [y]" if "k x \<le> k y" for x zs
    using that by (induction zs) auto
  have "foldr (insort_key k) xs [y] = foldr (insort_key k) xs [] @ [y]"
    using assms by (induction xs) (simp_all add: last)
  then show ?thesis by (simp add: sort_key_def)
qed

lemma proofs_of_nth:
  assumes "i < length as"
  shows "ip_sequence (proofs_of X as n previous ! i) = n + int i"
    and "ip_previous (proofs_of X as n previous ! i)
      = previous_at ip_record_hash (proofs_of X as n previous) previous i"
    and "ip_decision (proofs_of X as n previous ! i) = au_id (as ! i)"
  by (simp_all add: chain_of_nth [OF assms] build_decision_integrity_proof_def)

lemma last_sequence: "as \<noteq> [] \<Longrightarrow> ip_sequence (last (proofs_of X as 1 None)) = int (length as)"
  using proofs_of_nth(1) [of "length as - 1" as X 1 None] by (simp add: last_conv_nth of_nat_diff Suc_le_eq)

lemma project_chain_sequence:
  assumes "project_chain d pid = proofs_of X as 1 None" and "p \<in> set (t_integrity d)" and "ip_project p = pid"
  shows "ip_sequence p \<le> int (length as)"
proof -
  from assms(2,3) have "p \<in> set (project_chain d pid)" by (simp add: project_chain_set)
  then have "p \<in> set (proofs_of X as 1 None)" by (simp add: assms(1))
  then obtain i where "i < length as" "p = proofs_of X as 1 None ! i" by (auto simp: in_set_conv_nth)
  then show ?thesis using proofs_of_nth(1) [of i as X 1 None] by simp
qed

lemma project_chain_snoc:
  assumes "project_chain d pid = proofs_of X as 1 None" and "t_integrity d' = t_integrity d @ [p]"
    and "ip_project p = pid" and "int (length as) \<le> ip_sequence p"
  shows "project_chain d' pid = proofs_of X as 1 None @ [p]"
proof -
  have "sort_key ip_sequence (filter (\<lambda>q. ip_project q = pid) (t_integrity d) @ [p])
      = sort_key ip_sequence (filter (\<lambda>q. ip_project q = pid) (t_integrity d)) @ [p]"
    by (rule sort_key_snoc) (use project_chain_sequence [OF assms(1)] assms(4) in \<open>auto intro: order_trans\<close>)
  then show ?thesis using assms(1-3) by (simp add: project_chain_def)
qed

lemma proofs_of_snoc:
  "proofs_of X (as @ [a]) 1 None = proofs_of X as 1 None @
    [build_decision_integrity_proof X a (1 + int (length as)) (chain_head ip_record_hash (proofs_of X as 1 None) None)]"
  by (simp add: chain_of_append Let_def)

text \<open>The record \<open>ledger_insert\<close> makes is the next one of the chain.\<close>

lemma ledger_insert_next:
  assumes "project_chain d (au_project a) = proofs_of X as 1 None" and "ledger_insert X a d = Inr (p, d')"
  shows "p = build_decision_integrity_proof X a (1 + int (length as))
      (chain_head ip_record_hash (proofs_of X as 1 None) None)
    \<and> d' = d\<lparr>t_integrity := t_integrity d @ [p]\<rparr>"
proof -
  have "p = (if as = [] then build_decision_integrity_proof X a 1 None
      else build_decision_integrity_proof X a (ip_sequence (last (proofs_of X as 1 None)) + 1)
        (Some (ip_record_hash (last (proofs_of X as 1 None)))))
    \<and> d' = d\<lparr>t_integrity := t_integrity d @ [p]\<rparr>"
    using assms by (auto simp: ledger_insert_def Let_def bindE_Inr_iff insert_proof_def split: if_splits)
  then show ?thesis by (auto simp: chain_head_def last_sequence add.commute)
qed

lemma ledger_insert_valid:
  assumes valid: "ledger_valid X d pid" and new: "a \<notin> set (t_decisions d)"
    and rows: "t_decisions d1 = t_decisions d @ [a]" "t_integrity d1 = t_integrity d"
    and ins: "ledger_insert X a d1 = Inr (p, d2)"
  shows "ledger_valid X d2 pid"
proof -
  from valid obtain as where chain: "project_chain d pid = proofs_of X as 1 None" and "distinct as"
    and set: "set as = set (project_decisions d pid)" by (auto simp: ledger_valid_def)
  from rows have chain1: "project_chain d1 pid = proofs_of X as 1 None" using chain by (simp add: project_chain_def)
  from ins have d2: "d2 = d1\<lparr>t_integrity := t_integrity d1 @ [p]\<rparr>" and at: "ip_project p = au_project a"
    by (auto simp: ledger_insert_def Let_def bindE_Inr_iff insert_proof_def build_decision_integrity_proof_def split: if_splits)
  show ?thesis
  proof (cases "au_project a = pid")
    case False
    then have "project_chain d2 pid = proofs_of X as 1 None" "project_decisions d2 pid = project_decisions d pid"
      using chain1 d2 at rows by (simp_all add: project_chain_def project_decisions_def)
    with \<open>distinct as\<close> set show ?thesis by (auto simp: ledger_valid_def)
  next
    case True
    with ins chain1 have p: "p = build_decision_integrity_proof X a (1 + int (length as))
        (chain_head ip_record_hash (proofs_of X as 1 None) None)"
      using ledger_insert_next by metis
    have "project_chain d2 pid = proofs_of X as 1 None @ [p]"
      by (rule project_chain_snoc [OF chain1]) (use d2 at True p in \<open>simp_all add: build_decision_integrity_proof_def\<close>)
    then have "project_chain d2 pid = proofs_of X (as @ [a]) 1 None" by (simp add: proofs_of_snoc p)
    moreover have "distinct (as @ [a])" using \<open>distinct as\<close> set new by (auto simp: project_decisions_def)
    moreover have "set (as @ [a]) = set (project_decisions d2 pid)"
      using set d2 rows True by (auto simp: project_decisions_def)
    ultimately show ?thesis unfolding ledger_valid_def by blast
  qed
qed

text \<open>A record that violates no constraint is accepted.\<close>

lemma ledger_insert_total:
  assumes chain: "project_chain d (au_project a) = proofs_of X as 1 None"
    and digests: "\<forall>s. is_sha256_text (x_sha256 X s)" and stored: "a \<in> set (t_decisions d)"
    and unrecorded: "\<forall>q \<in> set (t_integrity d). ip_decision q \<noteq> au_id a"
    and new: "ip_record_hash (build_decision_integrity_proof X a (1 + int (length as))
      (chain_head ip_record_hash (proofs_of X as 1 None) None)) \<notin> ip_record_hash ` set (t_integrity d)"
  shows "\<exists>p d'. ledger_insert X a d = Inr (p, d')"
proof -
  let ?p = "build_decision_integrity_proof X a (1 + int (length as))
      (chain_head ip_record_hash (proofs_of X as 1 None) None)"
  have sequence: "ip_sequence q < 1 + int (length as)"
    if "q \<in> set (t_integrity d)" "ip_project q = au_project a" for q
    using project_chain_sequence [OF chain that] by simp
  have heads: "is_sha256_text h" if "chain_head ip_record_hash (proofs_of X as 1 None) None = Some h" for h
  proof -
    have "as \<noteq> []" using that by (auto simp: chain_head_def)
    then have "h = ip_record_hash (proofs_of X as 1 None ! (length as - 1))"
      using that by (simp add: chain_head_def last_conv_nth)
    also have "\<dots> = x_sha256 X (canonical_json (x_float X) (record_envelope X (as ! (length as - 1))
        (1 + int (length as - 1)) (previous_at ip_record_hash (proofs_of X as 1 None) None (length as - 1))
        (payload_hash_of X (as ! (length as - 1)))))"
      using \<open>as \<noteq> []\<close> chain_of_nth [of "length as - 1" as "build_decision_integrity_proof X" ip_record_hash 1 None]
      by (simp add: build_decision_integrity_proof_def calculate_integrity_record_hash_def digest_json_def)
    finally show ?thesis using digests by simp
  qed
  have apart: "list_all (\<lambda>q. ip_decision q \<noteq> ip_decision ?p \<and> ip_record_hash q \<noteq> ip_record_hash ?p
      \<and> \<not> (ip_project q = ip_project ?p \<and> ip_sequence q = ip_sequence ?p)) (t_integrity d)"
    unfolding list_all_iff
  proof
    fix q assume q: "q \<in> set (t_integrity d)"
    then have "ip_record_hash q \<noteq> ip_record_hash ?p" using new by (metis image_eqI)
    with q unrecorded sequence [of q] show "ip_decision q \<noteq> ip_decision ?p \<and> ip_record_hash q \<noteq> ip_record_hash ?p
        \<and> \<not> (ip_project q = ip_project ?p \<and> ip_sequence q = ip_sequence ?p)"
      by (auto simp: build_decision_integrity_proof_def)
  qed
  have "is_sha256_text (ip_payload_hash ?p)" "is_sha256_text (ip_record_hash ?p)"
    using digests by (simp_all add: build_decision_integrity_proof_def payload_hash_of_def digest_json_def
        calculate_integrity_record_hash_def)
  moreover have "case ip_previous ?p of None \<Rightarrow> ip_sequence ?p = 1 | Some h \<Rightarrow> 1 < ip_sequence ?p \<and> is_sha256_text h"
    using heads by (simp add: build_decision_integrity_proof_def chain_head_def split: option.split)
  moreover have "list_ex (\<lambda>b. au_id b = ip_decision ?p \<and> au_project b = ip_project ?p) (t_decisions d)"
    using stored by (auto simp: build_decision_integrity_proof_def list_ex_iff)
  ultimately have "integrity_row_ok d ?p"
    using apart unfolding integrity_row_ok_def
    by (simp only: simp_thms) (simp add: build_decision_integrity_proof_def split: option.split)
  then have "insert_proof ?p d = Inr (d\<lparr>t_integrity := t_integrity d @ [?p]\<rparr>)" by (simp add: insert_proof_def)
  then show ?thesis
    by (cases "as = []") (simp_all add: ledger_insert_def chain Let_def chain_head_def add.commute last_sequence)
qed

section \<open>The promise of the store\<close>

lemma ledger_insert_accepted [accepts]:
  "ledger_insert X a d = Inr (p, d') \<Longrightarrow> Ledger \<in> S \<Longrightarrow> accepted S d d'"
  by (auto simp: ledger_insert_def Let_def bindE_Inr_iff intro: insert_proof_accepted split: if_splits)

lemma backfill_rows_accepted:
  "foldE (backfill_one X) as (np, d) = Inr (np', d') \<Longrightarrow> accepted {Ledger} d d'"
proof (induction as arbitrary: np d)
  case Nil
  then show ?case by simp
next
  case (Cons a as)
  then obtain np1 d1 where step: "backfill_one X a (np, d) = Inr (np1, d1)"
    and rest: "foldE (backfill_one X) as (np1, d1) = Inr (np', d')" by (auto simp: bindE_Inr_iff)
  have "accepted {Ledger} d d1" using step
    by (auto simp: backfill_one_def Let_def bindE_Inr_iff intro: insert_proof_accepted split: prod.splits)
  then show ?case using Cons.IH [OF rest] by (rule accepted_trans)
qed

lemma backfill_project_accepted:
  "backfill_project X pid d = Inr d' \<Longrightarrow> accepted {Ledger} d d'"
  by (auto simp: backfill_project_def Let_def bindE_Inr_iff intro: backfill_rows_accepted split: if_splits)

lemma backfill_projects_accepted:
  "foldE (backfill_project X) pids d = Inr d' \<Longrightarrow> accepted {Ledger} d d'"
proof (induction pids arbitrary: d)
  case (Cons pid pids)
  then show ?case by (auto simp: bindE_Inr_iff intro: accepted_trans dest: backfill_project_accepted)
qed simp

interpretation backfilling: store_operation "{Ledger}" "backfill_existing_decisions X" for X
  unfolding backfill_existing_decisions_def
  by (rule transaction_operation, unfold_locales) (auto simp: bindE_Inr_iff dest: backfill_projects_accepted)

section \<open>What a checkpoint proves\<close>

text \<open>The texts a verification of a project digests.\<close>

definition digested :: "externals \<Rightarrow> db \<Rightarrow> uuid \<Rightarrow> string set" where
  "digested X d pid = (\<Union>(p, a) \<in> set (verification_rows d pid). record_texts X a (ip_sequence p) (ip_previous p))"

lemma digested_chain:
  assumes "verification_rows d pid = zip (project_chain d pid) as" and "project_chain d pid = proofs_of X as 1 None"
  shows "digested X d pid =
    chain_texts (build_decision_integrity_proof X) ip_record_hash (record_texts X) as 1 None"
proof -
  have "set (zip (proofs_of X as 1 None) as) = (\<lambda>i. (proofs_of X as 1 None ! i, as ! i)) ` {..<length as}"
    by (auto simp: set_zip)
  then show ?thesis
    unfolding digested_def chain_texts_def assms by (simp add: proofs_of_nth)
qed

lemma ledger_rows:
  assumes ok: "db_ok d" and valid: "ledger_valid X d pid"
  obtains as where "project_chain d pid = proofs_of X as 1 None"
    and "verification_rows d pid = zip (proofs_of X as 1 None) as"
    and "distinct as" and "set as = set (project_decisions d pid)"
proof -
  from valid obtain as where chain: "project_chain d pid = proofs_of X as 1 None" and "distinct as"
    and set: "set as = set (project_decisions d pid)" by (auto simp: ledger_valid_def)
  moreover have "partners (project_chain d pid) as" unfolding chain by (rule proofs_decisions)
  from partner_rows(1) [OF ok this] set chain have "verification_rows d pid = zip (proofs_of X as 1 None) as" by simp
  ultimately show thesis using that by blast
qed

lemma pinned_history:
  assumes float: "float_text_ok (x_float X)" and ok: "db_ok d" "db_ok d'"
    and valid: "ledger_valid X d pid" "ledger_valid X d' pid"
    and head: "chain_head ip_record_hash (project_chain d pid) None = Some h"
    and marked: "h \<in> ip_record_hash ` set (project_chain d' pid)"
    and apart: "\<not> collides (x_sha256 X) (digested X d pid \<union> digested X d' pid)"
  shows "length (verification_rows d pid) \<le> length (verification_rows d' pid)
    \<and> (\<forall>i < length (verification_rows d pid).
         let (p, a) = verification_rows d pid ! i; (q, b) = verification_rows d' pid ! i
         in ip_record_hash p = ip_record_hash q \<and> ip_sequence p = ip_sequence q \<and> same_payload X a b)"
proof -
  from ledger_rows [OF ok(1) valid(1)] obtain as where chain: "project_chain d pid = proofs_of X as 1 None"
    and rows: "verification_rows d pid = zip (proofs_of X as 1 None) as" by metis
  from ledger_rows [OF ok(2) valid(2)] obtain bs where chain': "project_chain d' pid = proofs_of X bs 1 None"
    and rows': "verification_rows d' pid = zip (proofs_of X bs 1 None) bs" by metis
  have "as \<noteq> []" and last: "h = ip_record_hash (proofs_of X as 1 None ! (length as - 1))"
    using head chain by (auto simp: chain_head_def last_conv_nth split: if_splits)
  from marked chain' obtain j where j: "j < length bs" "h = ip_record_hash (proofs_of X bs 1 None ! j)"
    by (auto simp: in_set_conv_nth)
  have "\<not> collides (x_sha256 X) (chain_texts (build_decision_integrity_proof X) ip_record_hash (record_texts X) as 1 None
      \<union> chain_texts (build_decision_integrity_proof X) ip_record_hash (record_texts X) bs 1 None)"
    using apart digested_chain [of d pid as X] digested_chain [of d' pid bs X] rows rows' chain chain' by simp
  from ledger.prefix_pinned [OF float this, of "length as - 1" j] \<open>as \<noteq> []\<close> j last
  have pinned: "length as - 1 = j" "\<forall>k \<le> length as - 1. same_payload X (as ! k) (bs ! k)
      \<and> ip_record_hash (proofs_of X as 1 None ! k) = ip_record_hash (proofs_of X bs 1 None ! k)"
    by auto
  have "length as \<le> length bs" using pinned(1) j(1) by simp
  moreover have "ip_record_hash (proofs_of X as 1 None ! i) = ip_record_hash (proofs_of X bs 1 None ! i)
      \<and> same_payload X (as ! i) (bs ! i)" if "i < length as" for i
    using pinned(2) that by auto
  ultimately show ?thesis
    by (simp add: rows rows' proofs_of_nth(1))
qed

section \<open>What a failure reports\<close>

text \<open>Where a chain of rows breaks: the first \<open>k\<close> are as they should be.\<close>

definition breaks_at :: "externals \<Rightarrow> (integrity_proof \<times> authorization) list \<Rightarrow> int \<Rightarrow> string option
    \<Rightarrow> integrity_failure \<Rightarrow> nat \<Rightarrow> bool" where
  "breaks_at X rows n previous f k \<longleftrightarrow>
     map fst (take k rows) = proofs_of X (map snd (take k rows)) n previous
     \<and> (k = length rows \<and> if_code f = Head_hash_mismatch
        \<or> k < length rows \<and> check_row X (n + int k) (chain_head ip_record_hash (map fst (take k rows)) previous)
            (rows ! k) = Some f)"

lemma breaks_at_Cons:
  assumes "fst row = build_decision_integrity_proof X (snd row) n previous"
  shows "breaks_at X (row # rows) n previous f (Suc k)
    = breaks_at X rows (n + 1) (Some (ip_record_hash (fst row))) f k"
proof -
  have "chain_head ip_record_hash (map fst (take (Suc k) (row # rows))) previous
      = chain_head ip_record_hash (map fst (take k rows)) (Some (ip_record_hash (fst row)))"
    by (simp add: chain_head_def)
  then show ?thesis using assms unfolding breaks_at_def by (simp add: Let_def add.assoc)
qed

lemma verify_rows_failure:
  assumes "vf_failure (verify_rows X pid amount expected rows n previous checked seen) = Some f"
    and "\<forall>(p, a) \<in> set rows. ip_decision p = au_id a \<and> ip_project p = au_project a"
  shows "\<exists>k. vf_checked (verify_rows X pid amount expected rows n previous checked seen) = checked + k
      \<and> breaks_at X rows n previous f k"
  using assms
proof (induction rows arbitrary: n previous checked seen)
  case Nil
  then show ?case by (intro exI [of _ 0]) (auto simp: failed_def breaks_at_def split: if_splits)
next
  case (Cons row rows)
  show ?case
  proof (cases "check_row X n previous row")
    case (Some g)
    with Cons.prems(1) show ?thesis
      by (intro exI [of _ 0]) (simp add: failed_def chain_head_def breaks_at_def)
  next
    case None
    then have p: "fst row = build_decision_integrity_proof X (snd row) n previous"
      using Cons.prems(2) by (cases row) (simp add: build_eq_iff)
    let ?h = "Some (ip_record_hash (fst row))"
    let ?r = "verify_rows X pid amount expected rows (n + 1) ?h (checked + 1) (seen \<or> ?h = expected)"
    have same: "verify_rows X pid amount expected (row # rows) n previous checked seen = ?r"
      using None by simp
    have failure: "vf_failure ?r = Some f" using Cons.prems(1) unfolding same .
    have "\<forall>(p, a) \<in> set rows. ip_decision p = au_id a \<and> ip_project p = au_project a"
      using Cons.prems(2) by simp
    from Cons.IH [OF failure this] obtain k where k: "vf_checked ?r = checked + 1 + k"
      "breaks_at X rows (n + 1) ?h f k" by blast
    then show ?thesis unfolding same
      by (intro exI [of _ "Suc k"]) (simp add: breaks_at_Cons [OF p])
  qed
qed

section \<open>Backfilling\<close>

lemma backfill_one_step:
  "backfill_one X a ((n, previous), d) = bindE (insert_proof (build_decision_integrity_proof X a n previous) d)
     (\<lambda>d1. Inr ((n + 1, Some (ip_record_hash (build_decision_integrity_proof X a n previous))), d1))"
  by (simp add: backfill_one_def Let_def)

lemma backfill_rows:
  "foldE (backfill_one X) as ((n, previous), d) = Inr (np, d') \<Longrightarrow>
    d' = d\<lparr>t_integrity := t_integrity d @ proofs_of X as n previous\<rparr>"
proof (induction as arbitrary: n previous d)
  case Nil
  then show ?case by simp
next
  case (Cons a as)
  let ?p = "build_decision_integrity_proof X a n previous"
  from Cons.prems have "insert_proof ?p d = Inr (d\<lparr>t_integrity := t_integrity d @ [?p]\<rparr>)"
    and "foldE (backfill_one X) as ((n + 1, Some (ip_record_hash ?p)), d\<lparr>t_integrity := t_integrity d @ [?p]\<rparr>) = Inr (np, d')"
    by (auto simp: bindE_Inr_iff backfill_one_step insert_proof_def split: if_splits)
  from Cons.IH [OF this(2)] show ?case by (simp add: Let_def)
qed

definition recordable :: "externals \<Rightarrow> db \<Rightarrow> uuid \<Rightarrow> bool" where
  "recordable X d pid \<longleftrightarrow> ledger_valid X d pid \<or> (\<forall>p \<in> set (t_integrity d). ip_project p \<noteq> pid)"

lemma ledger_valid_cong:
  "filter (\<lambda>p. ip_project p = q) (t_integrity d') = filter (\<lambda>p. ip_project p = q) (t_integrity d) \<Longrightarrow>
   t_decisions d' = t_decisions d \<Longrightarrow> ledger_valid X d' q = ledger_valid X d q"
  by (simp add: ledger_valid_def project_chain_def project_decisions_def)

lemma proofs_of_project:
  "\<forall>a \<in> set as. au_project a = pid \<Longrightarrow> \<forall>p \<in> set (proofs_of X as n previous). ip_project p = pid"
  by (induction as arbitrary: n previous) (auto simp: Let_def build_decision_integrity_proof_def)

lemma sorted_proofs: "sorted (map ip_sequence (proofs_of X as n previous))"
  by (simp add: sorted_iff_nth_mono proofs_of_nth)

lemma backfill_project_step:
  assumes ok: "db_ok d" and run: "backfill_project X pid d = Inr d'"
  shows "(ledger_valid X d q \<longrightarrow> ledger_valid X d' q) \<and> (recordable X d q \<longrightarrow> recordable X d' q)
    \<and> (recordable X d pid \<longrightarrow> ledger_valid X d' pid) \<and> t_decisions d' = t_decisions d"
proof (cases "filter (\<lambda>p. ip_project p = pid) (t_integrity d) = [] \<and> project_decisions d pid \<noteq> []")
  case False
  with run have same: "d' = d" by (auto simp: backfill_project_def Let_def split: if_splits)
  have "ledger_valid X d pid" if "\<forall>p \<in> set (t_integrity d). ip_project p \<noteq> pid"
  proof -
    from that have none: "filter (\<lambda>p. ip_project p = pid) (t_integrity d) = []" by simp
    with False have "project_decisions d pid = []" by blast
    with none show ?thesis unfolding ledger_valid_def by (intro exI [of _ "[]"]) (simp add: project_chain_def)
  qed
  with same show ?thesis by (auto simp: recordable_def)
next
  case True
  let ?as = "sort_key (\<lambda>a. (au_evaluated_at a, au_id a)) (project_decisions d pid)"
  from True have none: "filter (\<lambda>p. ip_project p = pid) (t_integrity d) = []" and some: "project_decisions d pid \<noteq> []"
    by blast+
  from run none some obtain np where "foldE (backfill_one X) ?as ((1, None), d) = Inr (np, d')"
    by (auto simp: backfill_project_def Let_def bindE_Inr_iff)
  then have d': "d' = d\<lparr>t_integrity := t_integrity d @ proofs_of X ?as 1 None\<rparr>" by (rule backfill_rows)
  have of: "\<forall>p \<in> set (proofs_of X ?as 1 None). ip_project p = pid"
    by (rule proofs_of_project) (simp add: project_decisions_def)
  have "project_chain d' pid = sort_key ip_sequence (proofs_of X ?as 1 None)"
    using of none by (simp add: project_chain_def d')
  then have "project_chain d' pid = proofs_of X ?as 1 None"
    using sorted_proofs by (simp add: sort_key_id_if_sorted)
  moreover have "distinct ?as" using ok by (simp add: project_decisions_def db_ok_def unique_by_def distinct_map)
  moreover have "set ?as = set (project_decisions d' pid)" by (simp add: d' project_decisions_def)
  ultimately have valid: "ledger_valid X d' pid" unfolding ledger_valid_def by blast
  have "ledger_valid X d' q = ledger_valid X d q" if "q \<noteq> pid"
    by (rule ledger_valid_cong) (use of that in \<open>auto simp: d' filter_empty_conv\<close>)
  moreover have "recordable X d' q = recordable X d q" if "q \<noteq> pid"
    using calculation [OF that] of that by (auto simp: recordable_def d')
  ultimately show ?thesis using valid by (cases "q = pid") (auto simp: recordable_def d')
qed

lemma backfill_projects_step:
  "db_ok d \<Longrightarrow> foldE (backfill_project X) pids d = Inr d' \<Longrightarrow>
    (ledger_valid X d q \<longrightarrow> ledger_valid X d' q) \<and> (recordable X d q \<longrightarrow> recordable X d' q)
    \<and> (recordable X d q \<and> q \<in> set pids \<longrightarrow> ledger_valid X d' q) \<and> t_decisions d' = t_decisions d"
proof (induction pids arbitrary: d)
  case Nil
  then show ?case by simp
next
  case (Cons pid pids)
  then obtain d1 where step: "backfill_project X pid d = Inr d1" and rest: "foldE (backfill_project X) pids d1 = Inr d'"
    by (auto simp: bindE_Inr_iff)
  have "db_ok d1" using backfill_project_accepted [OF step] Cons.prems(1) by (rule accepted_ok)
  from Cons.IH [OF this rest] backfill_project_step [OF Cons.prems(1) step, of q] show ?case by auto
qed

lemma recordable_backfilled:
  assumes ok: "db_ok d" and run: "backfill_existing_decisions X d = (Inr (), d')" and "recordable X d q"
  shows "ledger_valid X d' q"
proof -
  from run have fold: "foldE (backfill_project X) (sort (remdups (map au_project (t_decisions d)))) d = Inr d'"
    by (auto simp: backfill_existing_decisions_def transaction_def bindE_Inr_iff split: sum.splits)
  note step = backfill_projects_step [OF ok fold, of q]
  show ?thesis
  proof (cases "q \<in> set (sort (remdups (map au_project (t_decisions d))))")
    case True
    with step assms(3) show ?thesis by blast
  next
    case False
    then have "project_decisions d q = []" by (auto simp: project_decisions_def filter_empty_conv)
    moreover have "filter (\<lambda>p. ip_project p = q) (t_integrity d) = []" if "\<forall>p \<in> set (t_integrity d). ip_project p \<noteq> q"
      using that by simp
    ultimately have "ledger_valid X d q"
      using assms(3) by (auto simp: recordable_def ledger_valid_def project_chain_def intro!: exI [of _ "[]"])
    with step show ?thesis by blast
  qed
qed

section \<open>A sample ledger\<close>

lemma sample_float_ok: "float_text_ok (\<lambda>m e. show_int m @ ''e'' @ show_int e)"
proof -
  have e: "CHR ''e'' \<notin> set (show_int i)" for i by (auto dest!: show_int_chars simp: is_digit_def)
  have "m = m' \<and> k = k'" if "show_int m @ ''e'' @ show_int k = show_int m' @ ''e'' @ show_int k'" for m k m' k'
  proof -
    have "takeWhile (\<lambda>c. c \<noteq> CHR ''e'') (show_int i @ ''e'' @ s) = show_int i" for i s
      using e [of i] by (subst takeWhile_append2) auto
    from this [of m "show_int k"] this [of m' "show_int k'"] that have "show_int m = show_int m'" by simp
    with that show ?thesis by (auto dest: show_int_inj)
  qed
  moreover have "\<exists>c s. show_int m @ ''e'' @ show_int k = c # s \<and> (is_digit c \<or> c = CHR ''-'')" for m k
  proof (cases "show_int m")
    case (Cons c s)
    then show ?thesis using show_int_chars [of c m] by simp
  qed simp
  moreover have "list_all is_number_char (show_int m @ ''e'' @ show_int k)" for m k
    by (auto simp: list_all_iff is_number_char_def dest!: show_int_chars)
  ultimately show ?thesis unfolding float_text_ok_def by simp
qed

text \<open>The sample project with only these decisions, all recorded.\<close>

definition ledger_db :: "externals \<Rightarrow> authorization list \<Rightarrow> db" where
  "ledger_db X as = sample_db\<lparr>t_decisions := as, t_integrity := proofs_of X as 1 None\<rparr>"

lemma ledger_db_ok:
  assumes "distinct (map au_id as)"
  shows "db_ok (ledger_db X as)"
proof -
  have "map ip_decision (proofs_of X as 1 None) = map au_id as"
    by (rule nth_equalityI) (simp_all add: proofs_of_nth)
  with assms show ?thesis
    by (simp add: db_ok_def ledger_db_def sample_db_def empty_db_def unique_by_def sample_subscription_def
        subscription_check_def references_ok_def refers_def sample_project_def)
qed

lemma ledger_db_chain:
  assumes "\<forall>a \<in> set as. au_project a = pid"
  shows "project_chain (ledger_db X as) pid = proofs_of X as 1 None" and "project_decisions (ledger_db X as) pid = as"
  using proofs_of_project [OF assms, of X 1 None] sorted_proofs [of X as 1 None] assms
  by (simp_all add: project_chain_def project_decisions_def ledger_db_def sort_key_id_if_sorted filter_id_conv)

lemma ledger_db_valid:
  "distinct (map au_id as) \<Longrightarrow> \<forall>a \<in> set as. au_project a = pid \<Longrightarrow> ledger_valid X (ledger_db X as) pid"
  unfolding ledger_valid_def by (intro exI [of _ as]) (simp add: ledger_db_chain distinct_map)

definition sample_recorded :: "uuid \<Rightarrow> authorization" where
  "sample_recorded u = \<lparr>au_id = u, au_project = 2, au_evaluated_at = 10, au_decision = ALLOW,
     au_policy = None, au_version = None, au_reason = ''ok'', au_evidence = None,
     au_agent = ''agent'', au_action = ''read'', au_context = [(''amount'', JInt 900)], au_trace = []\<rparr>"

lemma recorded_decision_chain:
  assumes ok: "db_ok d" and valid: "ledger_valid X d pid"
    and dec: "insert_decision a d = Inr d1" and ins: "ledger_insert X a d1 = Inr (p, d2)"
  shows "ledger_valid X d2 pid
    \<and> project_chain d2 pid = project_chain d pid @ (if au_project a = pid then [p] else [])
    \<and> vf_verified (ledger_verify X pid (chain_head ip_record_hash (project_chain d pid) None) d2)"
proof -
  from dec have d1: "d1 = d\<lparr>t_decisions := t_decisions d @ [a]\<rparr>" and new: "a \<notin> set (t_decisions d)"
    by (auto simp: insert_decision_def decision_row_ok_def decision_exists_def list_ex_iff split: if_splits)
  have valid2: "ledger_valid X d2 pid" by (rule ledger_insert_valid [OF valid new _ _ ins]) (simp_all add: d1)
  from valid obtain as where chain: "project_chain d pid = proofs_of X as 1 None" by (auto simp: ledger_valid_def)
  then have chain1: "project_chain d1 pid = proofs_of X as 1 None" by (simp add: d1 project_chain_def)
  have d2: "d2 = d1\<lparr>t_integrity := t_integrity d1 @ [p]\<rparr>" and at: "ip_project p = au_project a"
    using ins by (auto simp: ledger_insert_def Let_def bindE_Inr_iff insert_proof_def
        build_decision_integrity_proof_def split: if_splits)
  have grown: "project_chain d2 pid = project_chain d pid @ (if au_project a = pid then [p] else [])"
  proof (cases "au_project a = pid")
    case True
    with ledger_insert_next [of d1 a X as p d2] ins chain1 have "int (length as) \<le> ip_sequence p"
      by (auto simp: build_decision_integrity_proof_def)
    with project_chain_snoc [OF chain1, of d2 p] d2 at True chain show ?thesis by simp
  qed (use d1 d2 at in \<open>simp add: project_chain_def\<close>)
  have "db_ok d2"
    using insert_decision_ok [OF dec ok] ledger_insert_accepted [OF ins, of "{Ledger}"] accepted_ok by simp
  moreover have "marked d2 pid (chain_head ip_record_hash (project_chain d pid) None)"
    by (simp add: grown chain_head_def)
  ultimately have "vf_verified (ledger_verify X pid (chain_head ip_record_hash (project_chain d pid) None) d2)"
    using ledger_verify_valid valid2 by blast
  with valid2 grown show ?thesis by blast
qed

lemma sample_digests: "is_sha256_text (x_sha256 sample_externals s)"
  by (simp add: sample_externals_def del: hex_pad.simps)

section \<open>Properties\<close>

text \<open>
  C6: A verification of a project succeeds exactly when its records are the hash chain of exactly
  its decisions, each once, and the expected checkpoint, if one is given, is the digest of one of
  them; it then reports the number of decisions and the digest of the last record.
\<close>

theorem verify_exactly_valid:
  assumes "db_ok d"
  shows "(vf_verified (ledger_verify X pid expected d) \<longleftrightarrow> ledger_valid X d pid
      \<and> (case expected of None \<Rightarrow> True | Some h \<Rightarrow> h \<in> ip_record_hash ` set (project_chain d pid)))
    \<and> (vf_verified (ledger_verify X pid expected d) \<longrightarrow> ledger_verify X pid expected d =
      \<lparr>vf_project = pid, vf_verified = True, vf_total = length (project_decisions d pid),
       vf_checked = length (project_decisions d pid),
       vf_head = chain_head ip_record_hash (project_chain d pid) None, vf_failure = None\<rparr>)"
proof (intro conjI impI)
  show "vf_verified (ledger_verify X pid expected d) \<longleftrightarrow> ledger_valid X d pid \<and> marked d pid expected"
    by (rule ledger_verify_valid [OF assms])
  assume "vf_verified (ledger_verify X pid expected d)"
  from verified_ledger_valid [OF assms this] show "ledger_verify X pid expected d =
      \<lparr>vf_project = pid, vf_verified = True, vf_total = length (project_decisions d pid),
       vf_checked = length (project_decisions d pid),
       vf_head = chain_head ip_record_hash (project_chain d pid) None, vf_failure = None\<rparr>"
    by (intro valid_ledger_verified [OF assms]) simp_all
qed

theorem verify_exactly_valid_witness:
  "vf_verified (ledger_verify sample_externals 2 None (ledger_db sample_externals [sample_recorded 5, sample_recorded 6]))
   \<and> vf_total (ledger_verify sample_externals 2 None (ledger_db sample_externals [sample_recorded 5, sample_recorded 6])) = 2
   \<and> \<not> vf_verified (ledger_verify sample_externals 2 (Some ''nothing'')
        ((ledger_db sample_externals [])\<lparr>t_decisions := [sample_recorded 5]\<rparr>))"
proof -
  let ?d = "ledger_db sample_externals [sample_recorded 5, sample_recorded 6]"
  have d: "db_ok ?d" by (rule ledger_db_ok) (simp add: sample_recorded_def)
  have pid: "\<forall>a \<in> set [sample_recorded 5, sample_recorded 6]. au_project a = 2" by (simp add: sample_recorded_def)
  have "ledger_valid sample_externals ?d 2"
    by (rule ledger_db_valid [OF _ pid]) (simp add: sample_recorded_def)
  then have v: "vf_verified (ledger_verify sample_externals 2 None ?d)"
    using verify_exactly_valid [OF d, of sample_externals 2 None] by simp
  from verify_exactly_valid [OF d, of sample_externals 2 None] v have "vf_total (ledger_verify sample_externals 2 None ?d) = 2"
    by (simp add: ledger_db_chain(2) [OF pid])
  moreover have "db_ok ((ledger_db sample_externals [])\<lparr>t_decisions := [sample_recorded 5]\<rparr>)"
    using ledger_db_ok [of "[]" sample_externals] by (auto simp: db_ok_def unique_by_def ledger_db_def references_ok_def refers_def)
  from verify_exactly_valid [OF this, of sample_externals 2 "Some ''nothing''"]
  have "\<not> vf_verified (ledger_verify sample_externals 2 (Some ''nothing'')
      ((ledger_db sample_externals [])\<lparr>t_decisions := [sample_recorded 5]\<rparr>))"
    by (simp add: project_chain_def ledger_db_def)
  ultimately show ?thesis using v by blast
qed

text \<open>
  A verification that fails says where. Either the numbers of records and decisions differ, or a
  decision or a record has no partner, and nothing was checked; or every record before the reported
  position is as it should be and the one at that position fails exactly the reported check; or all
  records are right and the expected checkpoint is none of them.
\<close>

theorem verify_failure_place:
  assumes "vf_failure (ledger_verify X pid expected d) = Some f"
  shows "if length (filter (\<lambda>p. ip_project p = pid) (t_integrity d)) \<noteq> length (project_decisions d pid)
      \<or> unmatched d pid \<noteq> None
    then if_code f = Record_count_mismatch \<and> if_decision f = unmatched d pid
      \<and> vf_checked (ledger_verify X pid expected d) = 0
    else breaks_at X (verification_rows d pid) 1 None f (vf_checked (ledger_verify X pid expected d))"
proof (cases "length (filter (\<lambda>p. ip_project p = pid) (t_integrity d)) \<noteq> length (project_decisions d pid)
    \<or> unmatched d pid \<noteq> None")
  case True
  with assms show ?thesis by (auto simp: ledger_verify_def Let_def failed_def)
next
  case False
  then have run: "ledger_verify X pid expected d = verify_rows X pid (length (project_decisions d pid)) expected
      (verification_rows d pid) 1 None 0 (expected = None)"
    by (simp add: ledger_verify_def Let_def)
  have "\<forall>(p, a) \<in> set (verification_rows d pid). ip_decision p = au_id a \<and> ip_project p = au_project a"
    by (auto simp: verification_rows_def)
  from verify_rows_failure [OF assms [unfolded run] this] False show ?thesis unfolding run by auto
qed

theorem verify_failure_place_witness:
  "if_code (the (vf_failure (ledger_verify sample_externals 2 None
     ((ledger_db sample_externals [])\<lparr>t_decisions := [sample_recorded 5]\<rparr>)))) = Record_count_mismatch"
proof -
  let ?d = "(ledger_db sample_externals [])\<lparr>t_decisions := [sample_recorded 5]\<rparr>"
  have counts: "length (filter (\<lambda>p. ip_project p = 2) (t_integrity ?d)) \<noteq> length (project_decisions ?d 2)"
    by (simp add: ledger_db_def project_decisions_def sample_recorded_def)
  then obtain f where f: "vf_failure (ledger_verify sample_externals 2 None ?d) = Some f"
    by (auto simp: ledger_verify_def Let_def failed_def)
  from verify_failure_place [OF this] counts f show ?thesis by simp
qed

text \<open>
  C8: Recording a new decision keeps every ledger: the records of its project are extended by the
  returned record, the chains of the other projects are untouched, and every verification that
  succeeded before succeeds after it, with the old head as expected checkpoint as well.
\<close>

theorem recorded_decision_extends_ledger:
  assumes "db_ok d" and "ledger_valid X d pid"
    and "insert_decision a d = Inr d1" and "ledger_insert X a d1 = Inr (p, d2)"
  shows "ledger_valid X d2 pid
    \<and> project_chain d2 pid = project_chain d pid @ (if au_project a = pid then [p] else [])
    \<and> vf_verified (ledger_verify X pid (chain_head ip_record_hash (project_chain d pid) None) d2)"
  using recorded_decision_chain [OF assms] by blast

theorem recorded_decision_extends_ledger_witness:
  "\<exists>d1 p d2. insert_decision (sample_recorded 5) (ledger_db sample_externals []) = Inr d1
    \<and> ledger_insert sample_externals (sample_recorded 5) d1 = Inr (p, d2)
    \<and> project_chain d2 2 = [p] \<and> vf_verified (ledger_verify sample_externals 2 None d2)"
proof -
  have ok: "db_ok (ledger_db sample_externals [])" by (rule ledger_db_ok) simp
  have valid: "ledger_valid sample_externals (ledger_db sample_externals []) 2" by (rule ledger_db_valid) simp_all
  let ?d1 = "(ledger_db sample_externals [])\<lparr>t_decisions := [sample_recorded 5]\<rparr>"
  have ins: "insert_decision (sample_recorded 5) (ledger_db sample_externals []) = Inr ?d1"
    by (simp add: insert_decision_def decision_row_ok_def decision_exists_def ledger_db_def)
  have rows: "t_integrity ?d1 = []" by (simp add: ledger_db_def)
  have "project_chain ?d1 (au_project (sample_recorded 5)) = proofs_of sample_externals [] 1 None"
    by (simp add: project_chain_def rows)
  then obtain p d2 where run: "ledger_insert sample_externals (sample_recorded 5) ?d1 = Inr (p, d2)"
    using ledger_insert_total [of ?d1 "sample_recorded 5" sample_externals "[]"] sample_digests
    by (auto simp: rows)
  have "au_project (sample_recorded 5) = 2" "project_chain (ledger_db sample_externals []) 2 = []"
    by (simp_all add: sample_recorded_def project_chain_def ledger_db_def)
  with recorded_decision_extends_ledger [OF ok valid ins run] ins run show ?thesis
    by (auto simp: chain_head_def)
qed

text \<open>
  C7: A checkpoint pins down history. If a ledger verified with some head and, in any other
  database, a verification that expects this head succeeds, then every record of the
  first is still the record at its position and the decision it stands for still says the same, up
  to the order of the keys of JSON objects, unless two of the texts the two verifications
  digested have the same digest.
\<close>

theorem checkpoint_pins_history:
  assumes "float_text_ok (x_float X)" and "db_ok d" and "db_ok d'"
    and "vf_verified (ledger_verify X pid None d)" and "vf_head (ledger_verify X pid None d) = Some h"
    and "vf_verified (ledger_verify X pid (Some h) d')"
    and "\<not> collides (x_sha256 X) (digested X d pid \<union> digested X d' pid)"
  shows "length (verification_rows d pid) \<le> length (verification_rows d' pid)
    \<and> (\<forall>i < length (verification_rows d pid).
         let (p, a) = verification_rows d pid ! i; (q, b) = verification_rows d' pid ! i
         in ip_record_hash p = ip_record_hash q \<and> ip_sequence p = ip_sequence q \<and> same_payload X a b)"
proof -
  from verified_ledger_valid [OF assms(2,4)] have valid: "ledger_valid X d pid" by simp
  from verified_ledger_valid [OF assms(3,6)] have valid': "ledger_valid X d' pid"
    "h \<in> ip_record_hash ` set (project_chain d' pid)" by simp_all
  have "chain_head ip_record_hash (project_chain d pid) None = Some h"
    using valid_ledger_verified [OF assms(2) valid, of None] assms(5) by simp
  from pinned_history [OF assms(1-3) valid valid'(1) this valid'(2) assms(7)] show ?thesis .
qed

text \<open>A digest without collisions: the text itself.\<close>

definition plain_externals :: externals where
  "plain_externals = sample_externals\<lparr>x_sha256 := (\<lambda>s. s)\<rparr>"

theorem checkpoint_pins_history_witness:
  "same_payload plain_externals (sample_recorded 5) (sample_recorded 5)
   \<and> length (verification_rows (ledger_db plain_externals [sample_recorded 5]) 2)
     \<le> length (verification_rows (ledger_db plain_externals [sample_recorded 5, sample_recorded 6]) 2)"
proof -
  let ?X = plain_externals
  let ?d = "ledger_db ?X [sample_recorded 5]" and ?d' = "ledger_db ?X [sample_recorded 5, sample_recorded 6]"
  have float: "float_text_ok (x_float ?X)"
    using sample_float_ok by (simp add: plain_externals_def sample_externals_def)
  have ok: "db_ok ?d" "db_ok ?d'" by (rule ledger_db_ok; simp add: sample_recorded_def)+
  have valid: "ledger_valid ?X ?d 2" "ledger_valid ?X ?d' 2" by (rule ledger_db_valid; simp add: sample_recorded_def)+
  have pid: "\<forall>a \<in> set [sample_recorded 5]. au_project a = 2"
    "\<forall>a \<in> set [sample_recorded 5, sample_recorded 6]. au_project a = 2" by (simp_all add: sample_recorded_def)
  let ?h = "ip_record_hash (build_decision_integrity_proof ?X (sample_recorded 5) 1 None)"
  note chains = ledger_db_chain(1) [OF pid(1), of ?X] ledger_db_chain(1) [OF pid(2), of ?X]
  have "vf_verified (ledger_verify ?X 2 None ?d)" "vf_head (ledger_verify ?X 2 None ?d) = Some ?h"
    using valid_ledger_verified [OF ok(1) valid(1), of None] chains by (simp_all add: chain_head_def Let_def)
  moreover have "vf_verified (ledger_verify ?X 2 (Some ?h) ?d')"
    using valid_ledger_verified [OF ok(2) valid(2), of "Some ?h"] chains by (simp add: Let_def)
  moreover have "\<not> collides (x_sha256 ?X) (digested ?X ?d 2 \<union> digested ?X ?d' 2)"
    by (simp add: collides_def plain_externals_def)
  ultimately have "length (verification_rows ?d 2) \<le> length (verification_rows ?d' 2)"
    using checkpoint_pins_history [OF float ok] by blast
  then show ?thesis by (simp add: same_payload_def)
qed

text \<open>
  The backfill of decisions made before the ledger existed makes the ledger of every project
  that had none valid, and keeps the valid ones valid.
\<close>

theorem backfill_makes_valid:
  assumes "db_ok d" and "backfill_existing_decisions X d = (Inr (), d')"
    and "ledger_valid X d pid \<or> (\<forall>p \<in> set (t_integrity d). ip_project p \<noteq> pid)"
  shows "ledger_valid X d' pid \<and> vf_verified (ledger_verify X pid None d')"
proof -
  have "ledger_valid X d' pid"
    by (rule recordable_backfilled [OF assms(1,2)]) (use assms(3) in \<open>simp add: recordable_def\<close>)
  moreover have "db_ok d'" by (rule backfilling.keeps_ok [OF assms(2,1)])
  ultimately show ?thesis by (simp add: ledger_verify_valid)
qed

theorem backfill_makes_valid_witness:
  "\<exists>d'. backfill_existing_decisions sample_externals ((ledger_db sample_externals [])\<lparr>t_decisions := [sample_recorded 5]\<rparr>)
      = (Inr (), d') \<and> vf_verified (ledger_verify sample_externals 2 None d')"
proof -
  let ?d = "(ledger_db sample_externals [])\<lparr>t_decisions := [sample_recorded 5]\<rparr>"
  let ?p = "build_decision_integrity_proof sample_externals (sample_recorded 5) 1 None"
  have rows: "t_integrity ?d = []" by (simp add: ledger_db_def)
  have ok: "db_ok ?d" using ledger_db_ok [of "[]" sample_externals] by (auto simp: db_ok_def unique_by_def ledger_db_def references_ok_def refers_def)
  have "integrity_row_ok ?d ?p"
    using sample_digests by (simp add: integrity_row_ok_def build_decision_integrity_proof_def payload_hash_of_def
        digest_json_def calculate_integrity_record_hash_def rows)
  then have "insert_proof ?p ?d = Inr (?d\<lparr>t_integrity := [?p]\<rparr>)" by (simp add: insert_proof_def rows)
  moreover have "au_project (sample_recorded 5) = 2" by (simp add: sample_recorded_def)
  ultimately have "backfill_project sample_externals 2 ?d = Inr (?d\<lparr>t_integrity := [?p]\<rparr>)"
    by (simp add: backfill_project_def project_decisions_def rows backfill_one_step Let_def)
  then have run: "backfill_existing_decisions sample_externals ?d = (Inr (), ?d\<lparr>t_integrity := [?p]\<rparr>)"
    by (simp add: backfill_existing_decisions_def transaction_def sample_recorded_def)
  have "\<forall>p \<in> set (t_integrity ?d). ip_project p \<noteq> 2" by (simp add: rows)
  with backfill_makes_valid [OF ok run, of 2] run show ?thesis by blast
qed

end
