(* ===== verification/Approvals.thy ===== *)
theory Approvals
  imports Contracts
begin

text \<open>
  Approval requests: \<open>app/approval_models.py\<close>, \<open>app/storage/approvals.py\<close> and the operations
  \<open>expire_due_approvals\<close>, \<open>get_approval\<close>, \<open>resolve_approval\<close>, \<open>list_approvals\<close> and
  \<open>count_approvals\<close> of \<open>app/evidence_store.py\<close>. An approval is PENDING until it is approved,
  rejected or found past its expiry; each operation first sweeps the due requests of the project.
  The lemmas give the functional behaviour of the sweep and of a resolution on every branch.
\<close>

section \<open>The repository\<close>

definition decided_in :: "db \<Rightarrow> uuid \<Rightarrow> uuid \<Rightarrow> bool" where
  "decided_in d did pid \<longleftrightarrow> list_ex (\<lambda>r. au_id r = did \<and> au_project r = pid) (t_decisions d)"

definition approvals_get :: "uuid \<Rightarrow> uuid \<Rightarrow> db \<Rightarrow> exn + approval option" where
  "approvals_get did pid d =
     (case find_row (\<lambda>a. ap_decision a = did \<and> decided_in d (ap_decision a) pid) (t_approvals d) of
        None \<Rightarrow> Inr None
      | Some a \<Rightarrow> bindE (row_to_approval a) (\<lambda>r. Inr (Some r)))"

definition resolvable :: "db \<Rightarrow> uuid \<Rightarrow> uuid \<Rightarrow> instant \<Rightarrow> approval \<Rightarrow> bool" where
  "resolvable d did pid t a \<longleftrightarrow> ap_decision a = did \<and> ap_status a = Approval_PENDING
     \<and> (case ap_expires_at a of None \<Rightarrow> True | Some e \<Rightarrow> t < e) \<and> decided_in d (ap_decision a) pid"

definition resolved_as :: "approval_status \<Rightarrow> string \<Rightarrow> instant \<Rightarrow> approval \<Rightarrow> approval" where
  "resolved_as status resolver t a =
     a\<lparr>ap_status := status, ap_resolved_at := Some t, ap_resolved_by := Some resolver\<rparr>"

definition approvals_resolve ::
  "uuid \<Rightarrow> uuid \<Rightarrow> approval_status \<Rightarrow> string \<Rightarrow> instant \<Rightarrow> approval block" where
  "approvals_resolve did pid status resolver t d =
     bindE (update_approvals (resolvable d did pid t) (resolved_as status resolver t) d) (\<lambda>d1.
     if row_count (resolvable d did pid t) (t_approvals d) = 0 then
       bindE (approvals_get did pid d1) (\<lambda>current.
         case current of
           None \<Rightarrow> Inl (ApprovalNotFound did)
         | Some a \<Rightarrow>
             if ap_status a = Approval_PENDING
               \<and> (case ap_expires_at a of None \<Rightarrow> False | Some e \<Rightarrow> e \<le> t)
             then Inl (ApprovalExpired did)
             else Inl (ApprovalAlreadyResolved did (approval_status_text (ap_status a))))
     else
       bindE (approvals_get did pid d1) (\<lambda>resolved.
         case resolved of None \<Rightarrow> Inl (ApprovalNotFound did) | Some a \<Rightarrow> Inr (a, d1)))"

definition is_due :: "instant \<Rightarrow> approval \<Rightarrow> bool" where
  "is_due t a \<longleftrightarrow> ap_status a = Approval_PENDING
     \<and> (case ap_expires_at a of None \<Rightarrow> False | Some e \<Rightarrow> e \<le> t)"

definition due_approvals :: "db \<Rightarrow> uuid \<Rightarrow> instant \<Rightarrow> approval list" where
  "due_approvals d pid t =
     sort_key (\<lambda>a. (the (ap_expires_at a), ap_decision a))
       (filter (\<lambda>a. decided_in d (ap_decision a) pid \<and> is_due t a) (t_approvals d))"

text \<open>One turn of the loop of \<open>expire_due_with_connection\<close>.\<close>

definition expire_one ::
  "uuid \<Rightarrow> instant \<Rightarrow> string \<Rightarrow> approval \<Rightarrow> (approval \<times> approval) list \<times> db
    \<Rightarrow> exn + (approval \<times> approval) list \<times> db" where
  "expire_one pid t resolver row acc = (case acc of (expired, d) \<Rightarrow>
     bindE (row_to_approval row) (\<lambda>previous.
       let P = (\<lambda>a. ap_decision a = ap_decision previous \<and> is_due t a) in
       bindE (update_approvals P (resolved_as Approval_EXPIRED resolver t) d) (\<lambda>d1.
         if row_count P (t_approvals d) = 0 then Inr (expired, d1)
         else bindE (approvals_get (ap_decision previous) pid d1) (\<lambda>current.
           case current of None \<Rightarrow> Inr (expired, d1) | Some a \<Rightarrow> Inr (expired @ [(previous, a)], d1)))))"

definition approvals_expire_due :: "uuid \<Rightarrow> instant \<Rightarrow> string \<Rightarrow> (approval \<times> approval) list block" where
  "approvals_expire_due pid t resolver d = foldE (expire_one pid t resolver) (due_approvals d pid t) ([], d)"

definition approvals_list ::
  "uuid \<Rightarrow> approval_status option \<Rightarrow> nat \<Rightarrow> nat \<Rightarrow> db \<Rightarrow> exn + approval list" where
  "approvals_list pid status limit offset d =
     mapE row_to_approval
       (page limit offset (sort_desc (\<lambda>a. (ap_requested_at a, ap_decision a))
         (filter (\<lambda>a. decided_in d (ap_decision a) pid
            \<and> (case status of None \<Rightarrow> True | Some s \<Rightarrow> ap_status a = s)) (t_approvals d))))"

definition approvals_count :: "uuid \<Rightarrow> approval_status option \<Rightarrow> db \<Rightarrow> nat" where
  "approvals_count pid status d =
     row_count (\<lambda>a. decided_in d (ap_decision a) pid
       \<and> (case status of None \<Rightarrow> True | Some s \<Rightarrow> ap_status a = s)) (t_approvals d)"

section \<open>Store operations\<close>

definition expiration_context :: "string \<Rightarrow> audit_context" where
  "expiration_context reason = \<lparr>ac_type = SYSTEM, ac_actor = ''decaustrum-expiration'', ac_reason = Some reason\<rparr>"

definition audit_expired :: "externals \<Rightarrow> uuid \<Rightarrow> instant \<Rightarrow> approval \<times> approval \<Rightarrow> db \<Rightarrow> exn + db" where
  "audit_expired X pid t pr d = (case pr of (previous, expired) \<Rightarrow>
     audit_change X t pid (expiration_context ''Approval validity period elapsed.'') APPROVAL_EXPIRED
       R_APPROVAL (uuid_text (ap_decision expired))
       (Some (JObj (approval_members X previous))) (Some (JObj (approval_members X expired)))
       [(''expires_at'', opt_json (\<lambda>e. JStr (isoformat e)) (ap_expires_at expired))] d)"

definition expire_due_block :: "externals \<Rightarrow> uuid \<Rightarrow> instant \<Rightarrow> approval list block" where
  "expire_due_block X pid t d =
     bindE (approvals_expire_due pid t ''decaustrum-expiration'' d) (\<lambda>(pairs, d1).
     bindE (foldE (audit_expired X pid t) pairs d1) (\<lambda>d2. Inr (map snd pairs, d2)))"

definition expire_due_approvals :: "externals \<Rightarrow> uuid \<Rightarrow> instant \<Rightarrow> approval list operation" where
  "expire_due_approvals X pid t = transaction (expire_due_block X pid t)"

definition get_approval :: "externals \<Rightarrow> instant \<Rightarrow> uuid \<Rightarrow> uuid \<Rightarrow> approval option operation" where
  "get_approval X now did pid =
     andThen (expire_due_approvals X pid now) (\<lambda>_. reading (approvals_get did pid))"

definition list_approvals ::
  "externals \<Rightarrow> instant \<Rightarrow> uuid \<Rightarrow> approval_status option \<Rightarrow> nat \<Rightarrow> nat \<Rightarrow> approval list operation" where
  "list_approvals X now pid status limit offset =
     andThen (expire_due_approvals X pid now) (\<lambda>_. reading (approvals_list pid status limit offset))"

definition count_approvals :: "externals \<Rightarrow> instant \<Rightarrow> uuid \<Rightarrow> approval_status option \<Rightarrow> nat operation" where
  "count_approvals X now pid status =
     andThen (expire_due_approvals X pid now) (\<lambda>_. reading (\<lambda>d. Inr (approvals_count pid status d)))"

definition resolve_approval_block ::
  "externals \<Rightarrow> uuid \<Rightarrow> uuid \<Rightarrow> approval_status \<Rightarrow> string \<Rightarrow> instant \<Rightarrow> audit_context option
    \<Rightarrow> approval block" where
  "resolve_approval_block X did pid status resolver t ctx d =
     bindE (approvals_get did pid d) (\<lambda>previous.
       if (case previous of None \<Rightarrow> False | Some a \<Rightarrow> ap_status a = Approval_EXPIRED)
       then Inl (ApprovalExpired did)
       else bindE (approvals_resolve did pid status resolver t d) (\<lambda>(resolved, d1).
         case ctx of
           None \<Rightarrow> Inr (resolved, d1)
         | Some c \<Rightarrow>
             bindE (audit_change X t pid c APPROVAL_RESOLVED R_APPROVAL (uuid_text did)
                 (map_option (\<lambda>a. JObj (approval_members X a)) previous)
                 (Some (JObj (approval_members X resolved)))
                 [(''resolution'', JStr (approval_status_text status))] d1)
               (\<lambda>d2. Inr (resolved, d2))))"

definition resolve_approval ::
  "externals \<Rightarrow> uuid \<Rightarrow> uuid \<Rightarrow> approval_status \<Rightarrow> string \<Rightarrow> instant \<Rightarrow> audit_context option
    \<Rightarrow> approval operation" where
  "resolve_approval X did pid status resolver t ctx =
     andThen (expire_due_approvals X pid t) (\<lambda>_.
       if status = Approval_APPROVED
       then raising (ValueError ''Approvals must be approved with an execution grant.'')
       else transaction (resolve_approval_block X did pid status resolver t ctx))"

section \<open>Contracts of the operations\<close>

lemma approvals_resolve_accepted [accepts]:
  "approvals_resolve did pid status resolver t d = Inr (a, d') \<Longrightarrow> Approval_Requests \<in> S \<Longrightarrow> accepted S d d'"
  by (auto simp: approvals_resolve_def bindE_Inr_iff split: if_splits option.splits intro: accepts)

lemma expire_one_accepted:
  assumes "expire_one pid t resolver row (acc, d) = Inr (acc', d')" and "Approval_Requests \<in> S"
  shows "accepted S d d'"
  using assms
  by (auto simp: expire_one_def Let_def bindE_Inr_iff split: if_splits option.splits intro: accepts)

lemma approvals_expire_due_accepted [accepts]:
  assumes "approvals_expire_due pid t resolver d = Inr (pairs, d')" and "Approval_Requests \<in> S"
  shows "accepted S d d'"
proof -
  have "accepted S d (snd (pairs, d'))"
    by (rule foldE_invariant [where I = "\<lambda>s. accepted S d (snd s)", OF assms(1) [unfolded approvals_expire_due_def]])
      (use assms(2) in \<open>auto elim!: accepted_trans dest: expire_one_accepted\<close>)
  then show ?thesis by simp
qed

lemma audit_expired_accepted:
  assumes "foldE (audit_expired X pid t) pairs d = Inr d'" and "outbox_tables \<subseteq> S"
  shows "accepted S d d'"
proof (rule foldE_invariant [where I = "accepted S d", OF assms(1)])
  fix pr s s' assume "audit_expired X pid t pr s = Inr s'" "accepted S d s"
  then show "accepted S d s'"
    using assms(2) by (cases pr) (auto simp: audit_expired_def intro: accepted_trans accepts)
qed simp

abbreviation approval_tables :: "table set" where
  "approval_tables \<equiv> {Approval_Requests, Trail, Deliveries}"

interpretation expire_due: store_block approval_tables "expire_due_block X pid t" for X pid t
proof
  fix d d' xs assume "expire_due_block X pid t d = Inr (xs, d')"
  then obtain pairs d1 where "approvals_expire_due pid t ''decaustrum-expiration'' d = Inr (pairs, d1)"
      "foldE (audit_expired X pid t) pairs d1 = Inr d'"
    by (auto simp: expire_due_block_def bindE_Inr_iff)
  then show "accepted approval_tables d d'"
    by (blast intro: accepted_trans approvals_expire_due_accepted audit_expired_accepted)
qed

lemma expire_due_operation: "store_operation approval_tables (expire_due_approvals X pid t)"
  unfolding expire_due_approvals_def by (rule expire_due.store_operation_axioms)

interpretation getting: store_operation approval_tables "get_approval X now did pid" for X now did pid
  unfolding get_approval_def by (rule andThen_operation [OF expire_due_operation reading_operation])

interpretation listing: store_operation approval_tables "list_approvals X now pid status limit offset"
  for X now pid status limit offset
  unfolding list_approvals_def by (rule andThen_operation [OF expire_due_operation reading_operation])

interpretation counting: store_operation approval_tables "count_approvals X now pid status"
  for X now pid status
  unfolding count_approvals_def by (rule andThen_operation [OF expire_due_operation reading_operation])

interpretation resolve_body: store_block approval_tables
  "resolve_approval_block X did pid status resolver t ctx" for X did pid status resolver t ctx
proof
  fix d d' a assume run: "resolve_approval_block X did pid status resolver t ctx d = Inr (a, d')"
  then obtain d1 where res: "approvals_resolve did pid status resolver t d = Inr (a, d1)"
    and rest: "d' = d1 \<or> accepted approval_tables d1 d'"
    by (auto simp: resolve_approval_block_def bindE_Inr_iff split: if_splits option.splits
        dest: audit_accepted [where S = approval_tables])
  have "accepted approval_tables d d1" by (rule approvals_resolve_accepted [OF res]) simp
  with rest show "accepted approval_tables d d'" by (auto intro: accepted_trans)
qed

interpretation resolving: store_operation approval_tables "resolve_approval X did pid status resolver t ctx"
  for X did pid status resolver t ctx
  unfolding resolve_approval_def
  by (rule andThen_operation [OF expire_due_operation])
    (simp add: transaction_operation [OF resolve_body.store_block_axioms])

section \<open>Consistency with the grants\<close>

lemma store_ok_resolved:
  assumes "update_approvals P f d = Inr d'" and "store_ok d"
    and "\<And>a. a \<in> set (t_approvals d) \<Longrightarrow> P a \<Longrightarrow> ap_status (f a) \<noteq> Approval_APPROVED \<and> approval_valid (f a)"
  shows "store_ok d'"
proof -
  from assms(1) have ok: "\<And>a. a \<in> set (t_approvals d) \<Longrightarrow> P a \<Longrightarrow> approval_change_ok a (f a)"
    and d': "d' = d\<lparr>t_approvals := update_rows P f (t_approvals d)\<rparr>" by (auto simp: update_Inr)
  have "(\<exists>a \<in> set (t_approvals d'). ap_decision a = did \<and> ap_status a = Approval_APPROVED)
      = (\<exists>a \<in> set (t_approvals d). ap_decision a = did \<and> ap_status a = Approval_APPROVED)" for did
    using ok assms(3) by (auto simp: d' set_update_rows approval_change_ok_def)
  then have "grants_agree d'" using assms(2) by (auto simp: store_ok_def grants_agree_def d')
  moreover have "list_all approval_valid (t_approvals d')"
    unfolding d' using assms(2,3) by (auto simp: store_ok_def intro: list_all_update_rows)
  ultimately show ?thesis
    using assms(2) update_approvals_ok [OF assms(1)] by (simp add: store_ok_def d')
qed

lemma expired_valid:
  "approval_valid a \<Longrightarrow> is_due t a \<Longrightarrow> approval_valid (resolved_as Approval_EXPIRED resolver t a)"
  by (auto simp: approval_valid_def is_due_def resolved_as_def split: option.splits)

lemma expire_one_store_ok:
  assumes "expire_one pid t resolver row (acc, d) = Inr (acc', d')" and "store_ok d"
  shows "store_ok d'"
proof -
  let ?P = "\<lambda>a. ap_decision a = ap_decision row \<and> is_due t a"
  have "update_approvals ?P (resolved_as Approval_EXPIRED resolver t) d = Inr d'"
    using assms(1)
    by (auto simp: expire_one_def row_to_approval_def Let_def bindE_Inr_iff split: if_splits option.splits)
  then show ?thesis
  proof (rule store_ok_resolved [OF _ assms(2)])
    fix a assume "a \<in> set (t_approvals d)" "?P a"
    then have "approval_valid a" using assms(2) by (auto simp: store_ok_def list_all_iff)
    with \<open>?P a\<close> show "ap_status (resolved_as Approval_EXPIRED resolver t a) \<noteq> Approval_APPROVED
        \<and> approval_valid (resolved_as Approval_EXPIRED resolver t a)"
      by (simp add: expired_valid) (simp add: resolved_as_def)
  qed
qed

lemma expire_due_store_ok:
  assumes "expire_due_approvals X pid t d = (r, d')" and "store_ok d"
  shows "store_ok d'"
proof (cases "expire_due_block X pid t d")
  case (Inl e)
  with assms show ?thesis by (simp add: expire_due_approvals_def transaction_def)
next
  case (Inr xd)
  with assms(1) obtain xs where "expire_due_block X pid t d = Inr (xs, d')"
    by (cases xd) (simp add: expire_due_approvals_def transaction_def)
  then obtain pairs d1 where sweep: "approvals_expire_due pid t ''decaustrum-expiration'' d = Inr (pairs, d1)"
      and trail: "foldE (audit_expired X pid t) pairs d1 = Inr d'"
    by (auto simp: expire_due_block_def bindE_Inr_iff)
  have "store_ok (snd (pairs, d1))"
    by (rule foldE_invariant [where I = "\<lambda>s. store_ok (snd s)", OF sweep [unfolded approvals_expire_due_def]])
      (use assms(2) expire_one_store_ok in auto)
  moreover have "accepted outbox_tables d1 d'" by (rule audit_expired_accepted [OF trail]) simp
  ultimately show ?thesis by (auto intro: store_ok_untouched)
qed

section \<open>The sweep\<close>

lemma approvals_get_row:
  assumes "unique_by ap_decision (t_approvals d)" and "a \<in> set (t_approvals d)"
    and "decided_in d (ap_decision a) pid"
  shows "approvals_get (ap_decision a) pid d = bindE (row_to_approval a) (\<lambda>r. Inr (Some r))"
proof -
  have "find_row (\<lambda>b. ap_decision b = ap_decision a \<and> decided_in d (ap_decision b) pid) (t_approvals d) = Some a"
    by (rule find_row_unique [where k = ap_decision]) (use assms in \<open>auto simp: unique_by_def\<close>)
  then show ?thesis by (simp add: approvals_get_def)
qed

lemma update_rows_cong:
  "(\<And>r. r \<in> set rows \<Longrightarrow> P r = Q r) \<Longrightarrow> update_rows P f rows = update_rows Q f rows"
  by (auto simp: update_rows_def)

lemma resolved_as_decision [simp]: "ap_decision (resolved_as status resolver t a) = ap_decision a"
  by (simp add: resolved_as_def)

lemma map_decision_update [simp]:
  "map ap_decision (update_rows P (resolved_as status resolver t) rows) = map ap_decision rows"
  by (simp add: map_update_rows)

lemma expire_one_step:
  fixes d and t and resolver
  defines "f \<equiv> resolved_as Approval_EXPIRED resolver t"
  assumes "unique_by ap_decision (t_approvals d)" and "a \<in> set (t_approvals d)" and "is_due t a"
    and "decided_in d (ap_decision a) pid" and "approval_valid a"
  shows "expire_one pid t resolver a (acc, d) =
    Inr (acc @ [(a, f a)], d\<lparr>t_approvals := update_rows (\<lambda>b. ap_decision b = ap_decision a) f (t_approvals d)\<rparr>)"
proof -
  let ?P = "\<lambda>b. ap_decision b = ap_decision a \<and> is_due t b"
  let ?d1 = "d\<lparr>t_approvals := update_rows ?P f (t_approvals d)\<rparr>"
  have only: "b = a" if "b \<in> set (t_approvals d)" "ap_decision b = ap_decision a" for b
    using unique_by_eq [OF assms(2) that(1) assms(3) that(2)] .
  have valid: "approval_valid (f a)" unfolding f_def by (rule expired_valid [OF assms(6,4)])
  have "approval_change_ok a (f a) \<and> approval_grant_ok (t_grants d) a (f a)"
    using assms(4,6) valid
    by (auto simp: approval_change_ok_def approval_grant_ok_def approval_check_def f_def resolved_as_def
        is_due_def approval_valid_def)
  then have upd: "update_approvals ?P f d = Inr ?d1" using only by (auto simp: update_approvals_Inr)
  have count: "row_count ?P (t_approvals d) \<noteq> 0"
    using assms(3,4) by (auto simp: row_count_0 find_row_None)
  have "approvals_get (ap_decision (f a)) pid ?d1 = bindE (row_to_approval (f a)) (\<lambda>r. Inr (Some r))"
  proof (rule approvals_get_row)
    show "unique_by ap_decision (t_approvals ?d1)"
      using assms(2) by (simp add: unique_by_def f_def)
    show "f a \<in> set (t_approvals ?d1)" using assms(3,4) by (force simp: set_update_rows)
    show "decided_in ?d1 (ap_decision (f a)) pid" using assms(5) by (simp add: decided_in_def f_def)
  qed
  then have "approvals_get (ap_decision a) pid ?d1 = Inr (Some (f a))"
    using valid by (simp add: row_to_approval_def f_def)
  moreover have "update_rows ?P f (t_approvals d) = update_rows (\<lambda>b. ap_decision b = ap_decision a) f (t_approvals d)"
    by (rule update_rows_cong) (use only assms(4) in auto)
  ultimately show ?thesis
    using assms(6) upd count by (simp add: expire_one_def row_to_approval_def f_def Let_def)
qed

lemma expire_all:
  fixes d and t and resolver
  defines "f \<equiv> resolved_as Approval_EXPIRED resolver t"
  assumes "unique_by ap_decision (t_approvals d)"
    and "\<And>a. a \<in> set rows \<Longrightarrow> a \<in> set (t_approvals d) \<and> is_due t a \<and> decided_in d (ap_decision a) pid
      \<and> approval_valid a"
    and "distinct (map ap_decision rows)"
  shows "foldE (expire_one pid t resolver) rows (acc, d) =
    Inr (acc @ map (\<lambda>a. (a, f a)) rows,
      d\<lparr>t_approvals := update_rows (\<lambda>b. ap_decision b \<in> ap_decision ` set rows) f (t_approvals d)\<rparr>)"
  using assms(2-4)
proof (induction rows arbitrary: acc d)
  case Nil
  then show ?case by (simp add: update_rows_none)
next
  case (Cons a rows)
  let ?d1 = "d\<lparr>t_approvals := update_rows (\<lambda>b. ap_decision b = ap_decision a) f (t_approvals d)\<rparr>"
  have step: "expire_one pid t resolver a (acc, d) = Inr (acc @ [(a, f a)], ?d1)"
    unfolding f_def by (rule expire_one_step) (use Cons.prems in auto)
  have "foldE (expire_one pid t resolver) rows (acc @ [(a, f a)], ?d1) =
    Inr ((acc @ [(a, f a)]) @ map (\<lambda>a. (a, f a)) rows,
      ?d1\<lparr>t_approvals := update_rows (\<lambda>b. ap_decision b \<in> ap_decision ` set rows) f (t_approvals ?d1)\<rparr>)"
  proof (rule Cons.IH)
    show "unique_by ap_decision (t_approvals ?d1)"
      using Cons.prems(1) by (simp add: unique_by_def f_def)
    fix b assume b: "b \<in> set rows"
    then have "b \<in> set (t_approvals d)" using Cons.prems(2) by auto
    moreover have "ap_decision b \<in> ap_decision ` set rows" using b by simp
    then have "ap_decision b \<noteq> ap_decision a" using Cons.prems(3) by (metis distinct.simps(2) list.simps(9) set_map)
    ultimately have "b \<in> set (t_approvals d)" "ap_decision b \<noteq> ap_decision a" .
    then have "b \<in> set (t_approvals ?d1)" by (force simp: set_update_rows)
    with Cons.prems(2) [of b] b show "b \<in> set (t_approvals ?d1) \<and> is_due t b
        \<and> decided_in ?d1 (ap_decision b) pid \<and> approval_valid b"
      by (simp add: decided_in_def)
  next
    show "distinct (map ap_decision rows)" using Cons.prems(3) by simp
  qed
  moreover have "update_rows (\<lambda>b. ap_decision b \<in> ap_decision ` set rows) f
      (update_rows (\<lambda>b. ap_decision b = ap_decision a) f (t_approvals d))
    = update_rows (\<lambda>b. ap_decision b \<in> ap_decision ` set (a # rows)) f (t_approvals d)"
    using Cons.prems(3) by (auto simp: update_rows_def f_def)
  ultimately show ?case using step by simp
qed

lemma expire_due_sweep:
  assumes "store_ok d"
  shows "approvals_expire_due pid t resolver d =
    Inr (map (\<lambda>a. (a, resolved_as Approval_EXPIRED resolver t a)) (due_approvals d pid t),
      d\<lparr>t_approvals := update_rows (\<lambda>b. decided_in d (ap_decision b) pid \<and> is_due t b)
          (resolved_as Approval_EXPIRED resolver t) (t_approvals d)\<rparr>)"
proof -
  let ?due = "due_approvals d pid t"
  have unique: "unique_by ap_decision (t_approvals d)" using assms by (simp add: store_ok_def db_ok_def)
  have "distinct (map ap_decision (filter P (t_approvals d)))" for P
    using unique by (auto simp: unique_by_def distinct_map inj_on_def)
  then have dist: "distinct (map ap_decision ?due)"
    by (auto simp: due_approvals_def distinct_map distinct_sort)
  have mem: "a \<in> set (t_approvals d) \<and> is_due t a \<and> decided_in d (ap_decision a) pid \<and> approval_valid a"
    if "a \<in> set ?due" for a
    using that assms by (auto simp: due_approvals_def store_ok_def list_all_iff)
  have "ap_decision b \<in> ap_decision ` set ?due \<longleftrightarrow> decided_in d (ap_decision b) pid \<and> is_due t b"
    if "b \<in> set (t_approvals d)" for b
  proof
    assume "ap_decision b \<in> ap_decision ` set ?due"
    then obtain a where a: "a \<in> set ?due" "ap_decision b = ap_decision a" by auto
    with mem [OF a(1)] have "b = a" using unique_by_eq [OF unique that] by simp
    with mem [OF a(1)] show "decided_in d (ap_decision b) pid \<and> is_due t b" by simp
  qed (use that in \<open>simp add: due_approvals_def\<close>)
  then have "update_rows (\<lambda>b. ap_decision b \<in> ap_decision ` set ?due) g (t_approvals d)
    = update_rows (\<lambda>b. decided_in d (ap_decision b) pid \<and> is_due t b) g (t_approvals d)" for g
    by (rule update_rows_cong)
  with expire_all [OF unique mem dist, of resolver "[]"] show ?thesis
    by (simp add: approvals_expire_due_def)
qed

lemma audit_expired_total:
  assumes "db_ok d" and "fresh_ids d" and "project_exists d pid" and "strips_only_whitespace X"
  shows "\<exists>d'. foldE (audit_expired X pid t) pairs d = Inr d' \<and> fresh_ids d'
    \<and> (\<exists>es. t_audit d' = t_audit d @ es
        \<and> map (\<lambda>e. (ae_action e, ae_resource e)) es
          = map (\<lambda>p. (APPROVAL_EXPIRED, uuid_text (ap_decision (snd p)))) pairs)"
  using assms(1-3)
proof (induction pairs arbitrary: d)
  case Nil
  then show ?case by simp
next
  case (Cons p pairs)
  obtain previous expired where p: "p = (previous, expired)" by force
  obtain d1 where d1: "audit_expired X pid t p d = Inr d1" "fresh_ids d1"
    using audit_total [OF Cons.prems resource_identifier_uuid [OF assms(4)]]
    unfolding audit_expired_def p by (auto, blast)
  then have acc: "accepted outbox_tables d d1" by (auto simp: audit_expired_def p intro: accepts)
  obtain e where e: "t_audit d1 = t_audit d @ [e]" "ae_action e = APPROVAL_EXPIRED"
      "ae_resource e = uuid_text (ap_decision expired)"
  proof -
    from d1(1) [unfolded audit_expired_def p, simplified, THEN audit_change_made]
    obtain e w ds where eq: "d1 = d\<lparr>t_audit := t_audit d @ [e],
        t_events := t_events d @ [\<lparr>er_event = w, er_payload = canonical_webhook_payload X w\<rparr>],
        t_deliveries := t_deliveries d @ ds, t_uuids := t_uuids d1\<rparr>"
      and e: "ae_action e = APPROVAL_EXPIRED"
        "resource_identifier X (uuid_text (ap_decision expired)) = Inr (ae_resource e)"
      by blast
    have "t_audit d1 = t_audit d @ [e]" by (subst eq) simp
    with e assms(4) that show ?thesis by simp
  qed
  obtain d' es where "foldE (audit_expired X pid t) pairs d1 = Inr d'" "fresh_ids d'"
      "t_audit d' = t_audit d1 @ es"
      "map (\<lambda>e. (ae_action e, ae_resource e)) es
        = map (\<lambda>p. (APPROVAL_EXPIRED, uuid_text (ap_decision (snd p)))) pairs"
    using Cons.IH [OF accepted_ok [OF acc Cons.prems(1)] d1(2)] Cons.prems(3)
      accepted_frame(1) [OF acc] by (auto simp: project_exists_def)
  with d1 e show ?case by (intro exI [of _ d'] conjI exI [of _ "e # es"]) (simp_all add: p)
qed

lemma expire_due_done:
  assumes "store_ok d" and "fresh_ids d" and "project_exists d pid" and "strips_only_whitespace X"
  shows "\<exists>d'. expire_due_approvals X pid t d =
      (Inr (map (resolved_as Approval_EXPIRED ''decaustrum-expiration'' t) (due_approvals d pid t)), d')
    \<and> t_approvals d' = update_rows (\<lambda>b. decided_in d (ap_decision b) pid \<and> is_due t b)
        (resolved_as Approval_EXPIRED ''decaustrum-expiration'' t) (t_approvals d)
    \<and> touches approval_tables d d' \<and> fresh_ids d'
    \<and> (\<exists>es. t_audit d' = t_audit d @ es
        \<and> map (\<lambda>e. (ae_action e, ae_resource e)) es
          = map (\<lambda>a. (APPROVAL_EXPIRED, uuid_text (ap_decision a))) (due_approvals d pid t))"
proof -
  let ?f = "resolved_as Approval_EXPIRED ''decaustrum-expiration'' t"
  let ?pairs = "map (\<lambda>a. (a, ?f a)) (due_approvals d pid t)"
  let ?d1 = "d\<lparr>t_approvals := update_rows (\<lambda>b. decided_in d (ap_decision b) pid \<and> is_due t b) ?f (t_approvals d)\<rparr>"
  note sweep = expire_due_sweep [OF assms(1), of pid t "''decaustrum-expiration''"]
  have "accepted {Approval_Requests} d ?d1" by (rule approvals_expire_due_accepted [OF sweep]) simp
  then have "db_ok ?d1" using assms(1) by (auto simp: store_ok_def intro: accepted_ok)
  moreover have "fresh_ids ?d1" by (rule fresh_same [OF assms(2)]) (simp_all add: known_ids_def)
  moreover have "project_exists ?d1 pid" using assms(3) by (simp add: project_exists_def)
  ultimately obtain d' es where d': "foldE (audit_expired X pid t) ?pairs ?d1 = Inr d'" "fresh_ids d'"
      "t_audit d' = t_audit ?d1 @ es"
      "map (\<lambda>e. (ae_action e, ae_resource e)) es = map (\<lambda>p. (APPROVAL_EXPIRED, uuid_text (ap_decision (snd p)))) ?pairs"
    using audit_expired_total [OF _ _ _ assms(4), of ?d1 pid t ?pairs] by blast
  then have block: "expire_due_block X pid t d = Inr (map snd ?pairs, d')"
    by (simp add: expire_due_block_def sweep)
  have "accepted outbox_tables ?d1 d'" by (rule audit_expired_accepted [OF d'(1)]) simp
  then have same: "t_approvals d' = t_approvals ?d1" by (rule accepted_frame) simp
  have "touches approval_tables d d'"
    using expire_due.accepted_body [OF block] by (simp add: accepted_def)
  moreover have "expire_due_approvals X pid t d = (Inr (map ?f (due_approvals d pid t)), d')"
    using block by (simp add: expire_due_approvals_def transaction_def comp_def)
  ultimately show ?thesis
    using same d'(2-4) by (intro exI [of _ d']) (auto simp: comp_def)
qed

text \<open>
  The expiry sweep of a project turns exactly its pending approvals whose deadline has been
  reached into EXPIRED ones, in one transaction, returns them in the order of their deadlines,
  writes one APPROVAL_EXPIRED audit event for each, and leaves none due.
\<close>

theorem expire_due_outcome:
  assumes "store_ok d" and "fresh_ids d" and "project_exists d pid" and "strips_only_whitespace X"
  shows "\<exists>d'. expire_due_approvals X pid t d =
      (Inr (map (resolved_as Approval_EXPIRED ''decaustrum-expiration'' t) (due_approvals d pid t)), d')
    \<and> t_approvals d' = update_rows (\<lambda>b. decided_in d (ap_decision b) pid \<and> is_due t b)
        (resolved_as Approval_EXPIRED ''decaustrum-expiration'' t) (t_approvals d)
    \<and> touches approval_tables d d'
    \<and> (\<exists>es. t_audit d' = t_audit d @ es
        \<and> map (\<lambda>e. (ae_action e, ae_resource e)) es
          = map (\<lambda>a. (APPROVAL_EXPIRED, uuid_text (ap_decision a))) (due_approvals d pid t))
    \<and> due_approvals d' pid t = []"
proof -
  obtain d' where d': "expire_due_approvals X pid t d =
      (Inr (map (resolved_as Approval_EXPIRED ''decaustrum-expiration'' t) (due_approvals d pid t)), d')"
    and rows: "t_approvals d' = update_rows (\<lambda>b. decided_in d (ap_decision b) pid \<and> is_due t b)
        (resolved_as Approval_EXPIRED ''decaustrum-expiration'' t) (t_approvals d)"
    and tables: "touches approval_tables d d'"
    and trail: "\<exists>es. t_audit d' = t_audit d @ es
        \<and> map (\<lambda>e. (ae_action e, ae_resource e)) es
          = map (\<lambda>a. (APPROVAL_EXPIRED, uuid_text (ap_decision a))) (due_approvals d pid t)"
    using expire_due_done [OF assms] by blast
  have "t_decisions d' = t_decisions d" using tables by (simp add: touches_def kept_def)
  then have dec: "decided_in d' did pid = decided_in d did pid" for did by (simp add: decided_in_def)
  have "\<not> (decided_in d' (ap_decision a) pid \<and> is_due t a)" if "a \<in> set (t_approvals d')" for a
    using that by (auto simp: rows set_update_rows dec) (auto simp: is_due_def resolved_as_def)
  then have "filter (\<lambda>a. decided_in d' (ap_decision a) pid \<and> is_due t a) (t_approvals d') = []"
    by (simp add: filter_empty_conv)
  then have "due_approvals d' pid t = []" by (simp add: due_approvals_def)
  with d' rows tables trail show ?thesis by blast
qed

section \<open>Resolution\<close>

text \<open>\<open>approval_of d did pid\<close>: the approval of a decision, as its own project sees it.\<close>

definition approval_of :: "db \<Rightarrow> uuid \<Rightarrow> uuid \<Rightarrow> approval option" where
  "approval_of d did pid = find_row (\<lambda>a. ap_decision a = did \<and> decided_in d (ap_decision a) pid) (t_approvals d)"

lemma approval_of_Some:
  "approval_of d did pid = Some a \<Longrightarrow> a \<in> set (t_approvals d) \<and> ap_decision a = did \<and> decided_in d did pid"
  by (auto simp: approval_of_def dest: find_row_Some)

definition approvals_ok :: "db \<Rightarrow> bool" where
  "approvals_ok d \<longleftrightarrow> unique_by ap_decision (t_approvals d) \<and> list_all approval_valid (t_approvals d)"

lemma store_ok_approvals [simp]: "store_ok d \<Longrightarrow> approvals_ok d"
  by (simp add: store_ok_def db_ok_def approvals_ok_def)

lemma approvals_get_of:
  "approvals_ok d \<Longrightarrow> approvals_get did pid d = Inr (approval_of d did pid)"
  by (auto simp: approvals_get_def approval_of_def row_to_approval_def approvals_ok_def list_all_iff
      split: option.splits dest: find_row_Some)

lemma pending_not_due:
  "ap_status a = Approval_PENDING \<Longrightarrow>
    (case ap_expires_at a of None \<Rightarrow> True | Some e \<Rightarrow> t < e) \<longleftrightarrow> \<not> is_due t a"
  by (auto simp: is_due_def split: option.splits)

lemma resolved_valid:
  assumes "approval_valid a" and "ap_status a = Approval_PENDING"
    and "status = Approval_APPROVED \<or> status = Approval_REJECTED"
  shows "approval_valid (resolved_as status resolver t a) \<longleftrightarrow> ap_requested_at a \<le> t"
  using assms by (auto simp: approval_valid_def resolved_as_def split: option.splits)

text \<open>
  A resolution at the repository: \<open>active\<close> says that the trigger on APPROVED, which asks for an
  active grant, is satisfied.
\<close>

lemma approvals_resolve_done:
  assumes "approvals_ok d" and "status = Approval_APPROVED \<or> status = Approval_REJECTED"
    and active: "status = Approval_APPROVED \<Longrightarrow>
      \<exists>g \<in> set (t_grants d). gr_decision g = did \<and> gr_status g = Grant_ACTIVE"
  shows "approvals_resolve did pid status resolver t d =
    (case approval_of d did pid of
       None \<Rightarrow> Inl (ApprovalNotFound did)
     | Some a \<Rightarrow>
         if ap_status a \<noteq> Approval_PENDING
         then Inl (ApprovalAlreadyResolved did (approval_status_text (ap_status a)))
         else if is_due t a then Inl (ApprovalExpired did)
         else if t < ap_requested_at a then Inl ValidationError
         else Inr (resolved_as status resolver t a,
           d\<lparr>t_approvals := update_rows (\<lambda>b. ap_decision b = did) (resolved_as status resolver t) (t_approvals d)\<rparr>))"
proof -
  let ?P = "resolvable d did pid t" and ?f = "resolved_as status resolver t"
  have unique: "unique_by ap_decision (t_approvals d)" using assms(1) by (simp add: approvals_ok_def)
  have valid: "approval_valid a" if "a \<in> set (t_approvals d)" for a
    using assms(1) that by (auto simp: approvals_ok_def list_all_iff)
  have change: "approval_change_ok a (?f a) \<and> approval_grant_ok (t_grants d) a (?f a)"
    if "a \<in> set (t_approvals d)" "?P a" for a
    using valid [OF that(1)] that(2) assms(2) active
    by (auto simp: approval_change_ok_def approval_grant_ok_def approval_check_def resolvable_def
        resolved_as_def approval_valid_def list_ex_iff split: option.splits)
  then have upd: "update_approvals ?P ?f d = Inr (d\<lparr>t_approvals := update_rows ?P ?f (t_approvals d)\<rparr>)"
    by (simp add: update_approvals_Inr)
  show ?thesis
  proof (cases "find_row ?P (t_approvals d)")
    case None
    then have none: "\<not> ?P a" if "a \<in> set (t_approvals d)" for a using that by (simp add: find_row_None)
    then have "update_rows ?P ?f (t_approvals d) = t_approvals d" by (rule update_rows_none)
    with upd have upd': "update_approvals ?P ?f d = Inr d" by simp
    have count: "row_count ?P (t_approvals d) = 0" using None by (simp add: row_count_0)
    have "is_due t a" if "approval_of d did pid = Some a" "ap_status a = Approval_PENDING" for a
      using approval_of_Some [OF that(1)] none [of a] that(2) pending_not_due [OF that(2), of t]
      by (auto simp: resolvable_def)
    then show ?thesis
      unfolding approvals_resolve_def upd' count
      by (auto simp: approvals_get_of [OF assms(1)] is_due_def split: option.splits)
  next
    case (Some a)
    then have a: "a \<in> set (t_approvals d)" "?P a" by (auto dest: find_row_Some)
    then have did: "ap_decision a = did" "decided_in d did pid" "ap_status a = Approval_PENDING"
      and live: "\<not> is_due t a" using pending_not_due [of a t] by (auto simp: resolvable_def)
    have of: "approval_of d did pid = Some a"
      unfolding approval_of_def
      by (rule find_row_unique [where k = ap_decision]) (use unique a did in \<open>auto simp: unique_by_def\<close>)
    have only: "b = a" if "b \<in> set (t_approvals d)" "ap_decision b = did" for b
      using unique_by_eq [OF unique that(1) a(1)] that(2) did(1) by simp
    have rows: "update_rows ?P ?f (t_approvals d) = update_rows (\<lambda>b. ap_decision b = did) ?f (t_approvals d)"
    proof (rule update_rows_cong)
      fix b assume b: "b \<in> set (t_approvals d)"
      show "?P b = (ap_decision b = did)"
      proof
        assume "ap_decision b = did"
        with only [OF b] a(2) show "?P b" by simp
      qed (simp add: resolvable_def)
    qed
    let ?d1 = "d\<lparr>t_approvals := update_rows (\<lambda>b. ap_decision b = did) ?f (t_approvals d)\<rparr>"
    have "approvals_get (ap_decision (?f a)) pid ?d1 = bindE (row_to_approval (?f a)) (\<lambda>r. Inr (Some r))"
    proof (rule approvals_get_row)
      show "unique_by ap_decision (t_approvals ?d1)" using unique by (simp add: unique_by_def)
      show "?f a \<in> set (t_approvals ?d1)" using a did(1) by (force simp: set_update_rows)
      show "decided_in ?d1 (ap_decision (?f a)) pid" using did by (simp add: decided_in_def)
    qed
    then have get: "approvals_get did pid ?d1 =
        (if ap_requested_at a \<le> t then Inr (Some (?f a)) else Inl ValidationError)"
      using resolved_valid [OF valid [OF a(1)] did(3) assms(2)] did(1)
      by (simp add: row_to_approval_def)
    have count: "row_count ?P (t_approvals d) \<noteq> 0" using Some by (simp add: row_count_0)
    show ?thesis
      unfolding approvals_resolve_def upd rows using count
      by (simp add: get of did live not_le)
  qed
qed

lemma approval_of_swept:
  assumes "t_decisions d' = t_decisions d"
    and "t_approvals d' = update_rows (\<lambda>b. decided_in d (ap_decision b) pid \<and> is_due t b)
        (resolved_as Approval_EXPIRED resolver t) (t_approvals d)"
  shows "approval_of d' did pid = map_option (\<lambda>a. if is_due t a then resolved_as Approval_EXPIRED resolver t a else a)
    (approval_of d did pid)"
proof -
  have dec: "decided_in d' x pid = decided_in d x pid" for x by (simp add: decided_in_def assms(1))
  have "approval_of d' did pid = map_option (\<lambda>a. if decided_in d (ap_decision a) pid \<and> is_due t a
      then resolved_as Approval_EXPIRED resolver t a else a) (approval_of d did pid)"
    unfolding approval_of_def assms(2) dec by (rule update_rows_find) simp
  also have "\<dots> = map_option (\<lambda>a. if is_due t a then resolved_as Approval_EXPIRED resolver t a else a)
      (approval_of d did pid)"
    by (auto simp: map_option_case dest: approval_of_Some split: option.splits)
  finally show ?thesis .
qed

lemma resolve_block_done:
  assumes "store_ok d" and "fresh_ids d" and "project_exists d pid" and "strips_only_whitespace X"
    and "approval_of d did pid = Some a" and "ap_status a = Approval_PENDING" and "\<not> is_due t a"
    and "ap_requested_at a \<le> t"
  shows "\<exists>d'. resolve_approval_block X did pid Approval_REJECTED resolver t ctx d =
      Inr (resolved_as Approval_REJECTED resolver t a, d')
    \<and> t_approvals d' = update_rows (\<lambda>b. ap_decision b = did) (resolved_as Approval_REJECTED resolver t) (t_approvals d)
    \<and> t_decisions d' = t_decisions d"
proof -
  let ?f = "resolved_as Approval_REJECTED resolver t"
  let ?d1 = "d\<lparr>t_approvals := update_rows (\<lambda>b. ap_decision b = did) ?f (t_approvals d)\<rparr>"
  have res: "approvals_resolve did pid Approval_REJECTED resolver t d = Inr (?f a, ?d1)"
    by (subst approvals_resolve_done [OF store_ok_approvals [OF assms(1)]]) (use assms(5-8) in simp_all)
  have get: "approvals_get did pid d = Inr (Some a)" by (simp add: approvals_get_of [OF store_ok_approvals [OF assms(1)]] assms(5))
  have "accepted {Approval_Requests} d ?d1" by (rule approvals_resolve_accepted [OF res]) simp
  then have ok: "db_ok ?d1" using assms(1) by (auto simp: store_ok_def intro: accepted_ok)
  have fresh: "fresh_ids ?d1" by (rule fresh_same [OF assms(2)]) (simp_all add: known_ids_def)
  have proj: "project_exists ?d1 pid" using assms(3) by (simp add: project_exists_def)
  show ?thesis
  proof (cases ctx)
    case None
    then show ?thesis
      by (intro exI [of _ ?d1]) (simp add: resolve_approval_block_def get res assms(6))
  next
    case (Some c)
    obtain d' where d': "audit_change X t pid c APPROVAL_RESOLVED R_APPROVAL (uuid_text did)
        (Some (JObj (approval_members X a))) (Some (JObj (approval_members X (?f a))))
        [(''resolution'', JStr (approval_status_text Approval_REJECTED))] ?d1 = Inr d'"
      using audit_total [OF ok fresh proj resource_identifier_uuid [OF assms(4)]] by blast
    have "t_approvals d' = t_approvals ?d1" "t_decisions d' = t_decisions ?d1"
      by (rule audit.frame [OF d'])+
    with d' Some show ?thesis
      by (intro exI [of _ d']) (simp add: resolve_approval_block_def get res assms(6))
  qed
qed

text \<open>
  Rejecting an approval, on every branch: an unknown decision (or one of another project) is
  not found, an approval past its deadline or already expired is reported expired, a resolved one
  is reported with its status, and a pending one becomes REJECTED with the resolver and the time,
  in the reply and in the database. (A clock that stands before the request makes the row invalid,
  and the change is rolled back.)
\<close>

theorem resolve_approval_outcome:
  assumes "store_ok d" and "fresh_ids d" and "project_exists d pid" and "strips_only_whitespace X"
  shows "case resolve_approval X did pid Approval_REJECTED resolver t ctx d of (r, d') \<Rightarrow>
    r = (case approval_of d did pid of
           None \<Rightarrow> Inl (ApprovalNotFound did)
         | Some a \<Rightarrow>
             if is_due t a \<or> ap_status a = Approval_EXPIRED then Inl (ApprovalExpired did)
             else if ap_status a \<noteq> Approval_PENDING
             then Inl (ApprovalAlreadyResolved did (approval_status_text (ap_status a)))
             else if t < ap_requested_at a then Inl ValidationError
             else Inr (resolved_as Approval_REJECTED resolver t a))
    \<and> approval_of d' did pid = (case r of
           Inr a \<Rightarrow> Some a
         | Inl _ \<Rightarrow> map_option (\<lambda>a. if is_due t a
             then resolved_as Approval_EXPIRED ''decaustrum-expiration'' t a else a) (approval_of d did pid))"
proof -
  let ?e = "resolved_as Approval_EXPIRED ''decaustrum-expiration'' t"
  obtain d1 xs where sweep: "expire_due_approvals X pid t d = (Inr xs, d1)"
    and rows: "t_approvals d1 = update_rows (\<lambda>b. decided_in d (ap_decision b) pid \<and> is_due t b) ?e (t_approvals d)"
    and tables: "touches approval_tables d d1" and fresh: "fresh_ids d1"
    using expire_due_done [OF assms, of t] by blast
  have ok: "store_ok d1" by (rule expire_due_store_ok [OF sweep assms(1)])
  have same: "t_decisions d1 = t_decisions d" "t_projects d1 = t_projects d"
    using tables by (simp_all add: touches_def kept_def)
  have proj: "project_exists d1 pid" using assms(3) same by (simp add: project_exists_def)
  have of: "approval_of d1 did pid = map_option (\<lambda>a. if is_due t a then ?e a else a) (approval_of d did pid)"
    by (rule approval_of_swept [OF same(1) rows])
  let ?run = "transaction (resolve_approval_block X did pid Approval_REJECTED resolver t ctx) d1"
  have run: "resolve_approval X did pid Approval_REJECTED resolver t ctx d = ?run"
    by (simp add: resolve_approval_def andThen_def sweep)
  have get: "approvals_get did pid d1 = Inr (approval_of d1 did pid)" by (rule approvals_get_of [OF store_ok_approvals [OF ok]])
  note resolve = approvals_resolve_done [OF store_ok_approvals [OF ok], of Approval_REJECTED did pid resolver t, simplified]
  show ?thesis
  proof (cases "approval_of d did pid")
    case None
    then have "resolve_approval_block X did pid Approval_REJECTED resolver t ctx d1 = Inl (ApprovalNotFound did)"
      using of by (simp add: resolve_approval_block_def get resolve)
    then show ?thesis using None of by (simp add: run transaction_def)
  next
    case (Some a)
    show ?thesis
    proof (cases "is_due t a \<or> ap_status a \<noteq> Approval_PENDING \<or> t < ap_requested_at a")
      case True
      have "resolve_approval_block X did pid Approval_REJECTED resolver t ctx d1 =
        (if is_due t a \<or> ap_status a = Approval_EXPIRED then Inl (ApprovalExpired did)
         else if ap_status a \<noteq> Approval_PENDING
         then Inl (ApprovalAlreadyResolved did (approval_status_text (ap_status a)))
         else Inl ValidationError)"
        using Some of True
        by (cases "is_due t a"; cases "ap_status a = Approval_PENDING")
          (simp_all add: resolve_approval_block_def get resolve, simp_all add: resolved_as_def)
      then show ?thesis using Some of True by (auto simp: run transaction_def)
    next
      case False
      then have live: "approval_of d1 did pid = Some a" using of Some by simp
      obtain d' where d': "resolve_approval_block X did pid Approval_REJECTED resolver t ctx d1 =
            Inr (resolved_as Approval_REJECTED resolver t a, d')"
          "t_approvals d' = update_rows (\<lambda>b. ap_decision b = did) (resolved_as Approval_REJECTED resolver t) (t_approvals d1)"
          "t_decisions d' = t_decisions d1"
        using resolve_block_done [OF ok fresh proj assms(4) live, of t resolver ctx] False by auto
      have dec: "decided_in d' x pid = decided_in d1 x pid" for x by (simp add: decided_in_def d'(3))
      have "approval_of d' did pid = map_option (\<lambda>a. if ap_decision a = did
          then resolved_as Approval_REJECTED resolver t a else a) (approval_of d1 did pid)"
        unfolding approval_of_def d'(2) dec by (rule update_rows_find) simp
      then have "approval_of d' did pid = Some (resolved_as Approval_REJECTED resolver t a)"
        using live approval_of_Some [OF live] by simp
      then show ?thesis using d'(1) Some False by (auto simp: run transaction_def)
    qed
  qed
qed

lemma resolve_store_ok:
  assumes "resolve_approval X did pid status resolver t ctx d = (r, d')" and "store_ok d"
    and "status = Approval_APPROVED \<or> status = Approval_REJECTED"
  shows "store_ok d'"
proof -
  obtain r1 d1 where sweep: "expire_due_approvals X pid t d = (r1, d1)" by force
  have ok: "store_ok d1" by (rule expire_due_store_ok [OF sweep assms(2)])
  consider "d' = d1" | a where "status = Approval_REJECTED"
      "resolve_approval_block X did pid Approval_REJECTED resolver t ctx d1 = Inr (a, d')"
    using assms(1,3) sweep
    by (auto simp: resolve_approval_def andThen_def transaction_def raising_def split: sum.splits if_splits)
  then show ?thesis
  proof cases
    case 1
    with ok show ?thesis by simp
  next
    case 2
    then obtain d2 where res: "approvals_resolve did pid Approval_REJECTED resolver t d1 = Inr (a, d2)"
      and rest: "d' = d2 \<or> accepted outbox_tables d2 d'"
      by (auto simp: resolve_approval_block_def bindE_Inr_iff split: if_splits option.splits
          dest: audit_accepted [where S = outbox_tables])
    let ?f = "resolved_as Approval_REJECTED resolver t"
    from res obtain b where b: "approval_of d1 did pid = Some b" "ap_status b = Approval_PENDING"
        "ap_requested_at b \<le> t"
      and d2: "d2 = d1\<lparr>t_approvals := update_rows (\<lambda>b. ap_decision b = did) ?f (t_approvals d1)\<rparr>"
      by (subst (asm) approvals_resolve_done [OF store_ok_approvals [OF ok]]) (auto split: option.splits if_splits)
    have upd: "update_approvals (resolvable d1 did pid t) ?f d1 = Inr d2"
      using res d2 by (auto simp: approvals_resolve_def bindE_Inr_iff split: if_splits option.splits)
    have "store_ok d2"
    proof (rule store_ok_resolved [OF upd ok])
      fix x assume x: "x \<in> set (t_approvals d1)" "resolvable d1 did pid t x"
      have "x = b"
        using unique_by_eq [of ap_decision "t_approvals d1" x b] x approval_of_Some [OF b(1)] ok
        by (auto simp: store_ok_def db_ok_def resolvable_def)
      moreover have "approval_valid x" using x(1) ok by (auto simp: store_ok_def list_all_iff)
      ultimately show "ap_status (?f x) \<noteq> Approval_APPROVED \<and> approval_valid (?f x)"
        using b resolved_valid [of b Approval_REJECTED resolver t] by (simp add: resolved_as_def)
    qed
    with rest show ?thesis by (auto intro: store_ok_untouched)
  qed
qed

text \<open>A status that only the grant-issuing operation may set is refused.\<close>

lemma resolve_approved_refused:
  "\<exists>e. fst (resolve_approval X did pid Approval_APPROVED resolver t ctx d) = Inl e"
  by (auto simp: resolve_approval_def andThen_def raising_def split: prod.splits sum.splits)

lemma expire_due_unused:
  assumes "expire_due_approvals X pid t d = (r, d')" and "unused u d"
  shows "unused u d'"
proof (cases "expire_due_block X pid t d")
  case (Inl e)
  with assms show ?thesis by (simp add: expire_due_approvals_def transaction_def)
next
  case (Inr xd)
  with assms(1) obtain pairs d1 where sweep: "approvals_expire_due pid t ''decaustrum-expiration'' d = Inr (pairs, d1)"
      and trail: "foldE (audit_expired X pid t) pairs d1 = Inr d'"
    by (cases xd) (auto simp: expire_due_approvals_def transaction_def expire_due_block_def bindE_Inr_iff)
  have ids: "known_ids d' = known_ids d \<and> t_uuids d' = t_uuids d"
    if "update_approvals P f d = Inr d'" for P f d d'
    using that by (auto simp: update_approvals_Inr known_ids_def)
  have "unused u (snd (pairs, d1))"
    by (rule foldE_invariant [where I = "\<lambda>s. unused u (snd s)", OF sweep [unfolded approvals_expire_due_def]])
      (use assms(2) in \<open>auto simp: expire_one_def Let_def bindE_Inr_iff unused_def
        split: if_splits option.splits dest!: ids\<close>)
  then have "unused u d1" by simp
  show ?thesis
    by (rule foldE_invariant [where I = "unused u", OF trail \<open>unused u d1\<close>])
      (auto simp: audit_expired_def split: prod.splits intro: audit_unused)
qed

section \<open>A sample database with approvals\<close>

definition sample_decision :: "uuid \<Rightarrow> authorization" where
  "sample_decision u = \<lparr>au_id = u, au_project = 2, au_evaluated_at = 10, au_decision = REQUIRE_APPROVAL,
     au_policy = Some ''transfers'', au_version = Some 1, au_reason = ''Large transfer.'', au_evidence = None,
     au_agent = ''agent'', au_action = ''transfer'', au_context = [(''amount'', JInt 900)], au_trace = []\<rparr>"

definition sample_approval :: "uuid \<Rightarrow> instant \<Rightarrow> approval" where
  "sample_approval u t = \<lparr>ap_decision = u, ap_status = Approval_PENDING, ap_requested_at = 10,
     ap_expires_at = Some t, ap_resolved_at = None, ap_resolved_by = None\<rparr>"

definition approval_db :: db where
  "approval_db = sample_db\<lparr>t_decisions := [sample_decision 5, sample_decision 6, sample_decision 7],
     t_approvals := [sample_approval 5 100, sample_approval 6 50, sample_approval 7 40]\<rparr>"

lemma approval_db_ok [simp]: "store_ok approval_db" "fresh_ids approval_db" "project_exists approval_db 2"
  by (auto simp: store_ok_def grants_agree_def db_ok_def references_ok_def refers_def approval_db_def sample_db_def empty_db_def
      unique_by_def sample_subscription_def subscription_check_def fresh_ids_def known_ids_def
      sample_project_def project_exists_def inj_on_def sample_decision_def sample_approval_def
      approval_valid_def approval_check_def)

theorem expire_due_outcome_witness:
  "\<exists>d'. expire_due_approvals sample_externals 2 60 approval_db =
      (Inr [resolved_as Approval_EXPIRED ''decaustrum-expiration'' 60 (sample_approval 7 40),
            resolved_as Approval_EXPIRED ''decaustrum-expiration'' 60 (sample_approval 6 50)], d')
    \<and> map ap_status (t_approvals d') = [Approval_PENDING, Approval_EXPIRED, Approval_EXPIRED]
    \<and> due_approvals d' 2 60 = []"
proof -
  have due: "due_approvals approval_db 2 60 = [sample_approval 7 40, sample_approval 6 50]"
    by (simp add: due_approvals_def approval_db_def sample_approval_def is_due_def decided_in_def
        sample_decision_def)
  obtain d' where "expire_due_approvals sample_externals 2 60 approval_db =
      (Inr (map (resolved_as Approval_EXPIRED ''decaustrum-expiration'' 60) (due_approvals approval_db 2 60)), d')"
    and rows: "t_approvals d' = update_rows (\<lambda>b. decided_in approval_db (ap_decision b) 2 \<and> is_due 60 b)
        (resolved_as Approval_EXPIRED ''decaustrum-expiration'' 60) (t_approvals approval_db)"
    and "due_approvals d' 2 60 = []"
    using expire_due_outcome [OF approval_db_ok sample_strips, of 60] by blast
  moreover have "map ap_status (t_approvals d') = [Approval_PENDING, Approval_EXPIRED, Approval_EXPIRED]"
    by (simp add: rows update_rows_def approval_db_def sample_approval_def is_due_def decided_in_def
        sample_decision_def resolved_as_def)
  ultimately show ?thesis by (auto simp: due)
qed

theorem resolve_approval_outcome_witness:
  "fst (resolve_approval sample_externals 5 2 Approval_REJECTED ''reviewer'' 60 (Some sample_context) approval_db)
      = Inr (resolved_as Approval_REJECTED ''reviewer'' 60 (sample_approval 5 100))
   \<and> fst (resolve_approval sample_externals 6 2 Approval_REJECTED ''reviewer'' 60 None approval_db)
      = Inl (ApprovalExpired 6)
   \<and> fst (resolve_approval sample_externals 9 2 Approval_REJECTED ''reviewer'' 60 None approval_db)
      = Inl (ApprovalNotFound 9)"
proof -
  note outcome = resolve_approval_outcome [OF approval_db_ok sample_strips]
  have "approval_of approval_db 5 2 = Some (sample_approval 5 100)"
    "approval_of approval_db 6 2 = Some (sample_approval 6 50)" "approval_of approval_db 9 2 = None"
    by (simp_all add: approval_of_def approval_db_def sample_approval_def decided_in_def sample_decision_def
        find_row_Cons)
  then show ?thesis
    using outcome [where did = 5 and resolver = "''reviewer''" and t = 60 and ctx = "Some sample_context"] outcome [where did = 6 and resolver = "''reviewer''" and t = 60 and ctx = None]
      outcome [where did = 9 and resolver = "''reviewer''" and t = 60 and ctx = None]
    by (auto simp: sample_approval_def is_due_def split: prod.splits)
qed

end
