(* ===== verification/Grants.thy ===== *)
theory Grants
  imports Approvals
begin

text \<open>
  Execution grants: \<open>app/storage/execution_grants.py\<close> and the operations
  \<open>approve_approval_with_grant\<close> and \<open>consume_execution_grant\<close> of \<open>app/evidence_store.py\<close>.
  An approval is granted together with a single-use grant, bound to the decision, the project,
  the request's fingerprint and the token's digest; a grant is ACTIVE until it is consumed once or
  found past its expiry. The lemmas give the exact conditions under which a grant is consumed,
  the error on every other path, and that a consumed grant stays consumed for ever.
\<close>

section \<open>The repository\<close>

definition grants_get :: "uuid \<Rightarrow> uuid \<Rightarrow> db \<Rightarrow> exn + grant option" where
  "grants_get gid pid d =
     (case find_row (\<lambda>g. gr_id g = gid \<and> gr_project g = pid) (t_grants d) of
        None \<Rightarrow> Inr None
      | Some g \<Rightarrow> bindE (row_to_grant g) (\<lambda>r. Inr (Some r)))"

definition grants_get_by_decision :: "uuid \<Rightarrow> uuid \<Rightarrow> db \<Rightarrow> exn + grant option" where
  "grants_get_by_decision did pid d =
     (case find_row (\<lambda>g. gr_decision g = did \<and> gr_project g = pid) (t_grants d) of
        None \<Rightarrow> Inr None
      | Some g \<Rightarrow> bindE (row_to_grant g) (\<lambda>r. Inr (Some r)))"

definition consumable :: "uuid \<Rightarrow> uuid \<Rightarrow> string \<Rightarrow> instant \<Rightarrow> grant \<Rightarrow> bool" where
  "consumable gid pid token_hash t g \<longleftrightarrow> gr_id g = gid \<and> gr_project g = pid \<and> gr_token_hash g = token_hash
     \<and> gr_status g = Grant_ACTIVE \<and> t < gr_expires_at g"

definition consumed_by :: "instant \<Rightarrow> string \<Rightarrow> grant \<Rightarrow> grant" where
  "consumed_by t consumer g =
     g\<lparr>gr_status := Grant_CONSUMED, gr_consumed_at := Some t, gr_consumed_by := Some consumer\<rparr>"

definition grants_consume ::
  "uuid \<Rightarrow> uuid \<Rightarrow> string \<Rightarrow> instant \<Rightarrow> string \<Rightarrow> grant option block" where
  "grants_consume gid pid token_hash t consumer d =
     bindE (update_grants (consumable gid pid token_hash t) (consumed_by t consumer) d) (\<lambda>d1.
     if row_count (consumable gid pid token_hash t) (t_grants d) = 0 then Inr (None, d1)
     else bindE (grants_get gid pid d1) (\<lambda>g. Inr (g, d1)))"

definition expirable :: "uuid \<Rightarrow> uuid \<Rightarrow> instant \<Rightarrow> grant \<Rightarrow> bool" where
  "expirable gid pid t g \<longleftrightarrow> gr_id g = gid \<and> gr_project g = pid \<and> gr_status g = Grant_ACTIVE
     \<and> gr_expires_at g \<le> t"

definition expired_grant :: "grant \<Rightarrow> grant" where
  "expired_grant g = g\<lparr>gr_status := Grant_EXPIRED\<rparr>"

definition grants_expire :: "uuid \<Rightarrow> uuid \<Rightarrow> instant \<Rightarrow> grant option block" where
  "grants_expire gid pid t d =
     bindE (update_grants (expirable gid pid t) expired_grant d) (\<lambda>d1.
     if row_count (expirable gid pid t) (t_grants d) = 0 then Inr (None, d1)
     else bindE (grants_get gid pid d1) (\<lambda>g. Inr (g, d1)))"

definition decisions_get :: "uuid \<Rightarrow> uuid \<Rightarrow> db \<Rightarrow> authorization option" where
  "decisions_get did pid d = find_row (\<lambda>r. au_id r = did \<and> au_project r = pid) (t_decisions d)"

section \<open>Granting an approval\<close>

definition approve_block ::
  "externals \<Rightarrow> uuid \<Rightarrow> uuid \<Rightarrow> string \<Rightarrow> instant \<Rightarrow> grant \<Rightarrow> audit_context
    \<Rightarrow> (approval \<times> grant) block" where
  "approve_block X did pid resolver t g ctx d =
     bindE (approvals_get did pid d) (\<lambda>found.
     case found of
       None \<Rightarrow> Inl (ApprovalNotFound did)
     | Some previous \<Rightarrow>
         if ap_status previous = Approval_EXPIRED then Inl (ApprovalExpired did)
         else if ap_status previous = Approval_APPROVED then
           bindE (grants_get_by_decision did pid d) (\<lambda>existing.
             case existing of
               None \<Rightarrow> Inl (RuntimeError ''Approved request has no execution grant.'')
             | Some h \<Rightarrow> Inr ((previous, h), d))
         else if ap_status previous \<noteq> Approval_PENDING then
           Inl (ApprovalAlreadyResolved did (approval_status_text (ap_status previous)))
         else if (case decisions_get did pid d of None \<Rightarrow> True | Some r \<Rightarrow> au_decision r \<noteq> REQUIRE_APPROVAL) then
           Inl (RuntimeError ''Approval references an invalid authorization.'')
         else
           bindE (insert_grant g d) (\<lambda>d1.
           bindE (approvals_resolve did pid Approval_APPROVED resolver t d1) (\<lambda>(approved, d2).
           bindE (audit_change X t pid ctx APPROVAL_RESOLVED R_APPROVAL (uuid_text did)
               (Some (JObj (approval_members X previous))) (Some (JObj (approval_members X approved)))
               [(''resolution'', JStr ''APPROVED'')] d2) (\<lambda>d3.
           bindE (audit_change X (gr_issued_at g) pid ctx EXECUTION_GRANT_ISSUED R_EXECUTION_GRANT
               (uuid_text (gr_id g)) None (Some (grant_json X g))
               [(''decision_id'', uuid_json did), (''expires_at'', JStr (isoformat (gr_expires_at g)))] d3)
             (\<lambda>d4. Inr ((approved, g), d4))))))"

definition approve_approval_with_grant ::
  "externals \<Rightarrow> uuid \<Rightarrow> uuid \<Rightarrow> string \<Rightarrow> instant \<Rightarrow> grant \<Rightarrow> audit_context
    \<Rightarrow> (approval \<times> grant) operation" where
  "approve_approval_with_grant X did pid resolver t g ctx =
     andThen (expire_due_approvals X pid t) (\<lambda>_.
       if gr_decision g \<noteq> did \<or> gr_project g \<noteq> pid
       then raising (ValueError ''Execution grant scope must match the approval.'')
       else transaction (approve_block X did pid resolver t g ctx))"

section \<open>Consuming a grant\<close>

text \<open>
  The block commits an expiry before the error it stands for is raised, so its value is itself a
  result: an expiry error to raise after the commit, or the consumed grant.
\<close>

definition consume_block ::
  "externals \<Rightarrow> grant_payload \<Rightarrow> uuid \<Rightarrow> string \<Rightarrow> string \<Rightarrow> instant \<Rightarrow> string \<Rightarrow> audit_context
    \<Rightarrow> (exn + grant) block" where
  "consume_block X payload pid token_hash fingerprint t consumer ctx d =
     bindE (grants_get (gr_id payload) pid d) (\<lambda>found.
     case found of
       None \<Rightarrow> Inl InvalidExecutionGrant
     | Some current \<Rightarrow>
         if gr_token_hash current \<noteq> token_hash then Inl InvalidExecutionGrant
         else if gr_decision current \<noteq> gr_decision payload \<or> gr_project current \<noteq> gr_project payload
           \<or> gr_issued_at current \<noteq> gr_issued_at payload \<or> gr_expires_at current \<noteq> gr_expires_at payload
           \<or> gr_fingerprint current \<noteq> gr_fingerprint payload then Inl InvalidExecutionGrant
         else if gr_fingerprint current \<noteq> fingerprint then Inl (ExecutionGrantMismatch (gr_id payload))
         else if gr_status current = Grant_CONSUMED then Inl (ExecutionGrantAlreadyConsumed (gr_id payload))
         else if gr_status current = Grant_EXPIRED then Inl (ExecutionGrantExpired (gr_id payload))
         else if gr_expires_at current \<le> t then
           bindE (grants_expire (gr_id payload) pid t d) (\<lambda>(expired, d1).
             case expired of
               None \<Rightarrow> Inl (RuntimeError ''Execution grant expiration failed.'')
             | Some e \<Rightarrow>
                 bindE (audit_change X t pid
                     (expiration_context ''Execution grant validity period elapsed.'')
                     EXECUTION_GRANT_EXPIRED R_EXECUTION_GRANT (uuid_text (gr_id payload))
                     (Some (grant_json X current)) (Some (grant_json X e))
                     [(''decision_id'', uuid_json (gr_decision payload))] d1)
                   (\<lambda>d2. Inr (Inl (ExecutionGrantExpired (gr_id payload)), d2)))
         else
           bindE (grants_consume (gr_id payload) pid token_hash t consumer d) (\<lambda>(consumed, d1).
             case consumed of
               None \<Rightarrow>
                 bindE (grants_get (gr_id payload) pid d1) (\<lambda>latest.
                   case latest of
                     None \<Rightarrow> Inl InvalidExecutionGrant
                   | Some l \<Rightarrow>
                       if gr_status l = Grant_CONSUMED then Inl (ExecutionGrantAlreadyConsumed (gr_id payload))
                       else if gr_status l = Grant_EXPIRED then Inl (ExecutionGrantExpired (gr_id payload))
                       else Inl (RuntimeError ''Execution grant atomic update failed.''))
             | Some c \<Rightarrow>
                 bindE (audit_change X t pid ctx EXECUTION_GRANT_CONSUMED R_EXECUTION_GRANT
                     (uuid_text (gr_id payload)) (Some (grant_json X current)) (Some (grant_json X c))
                     [(''decision_id'', uuid_json (gr_decision payload))] d1)
                   (\<lambda>d2. Inr (Inr c, d2))))"

definition consume_execution_grant ::
  "externals \<Rightarrow> grant_payload \<Rightarrow> uuid \<Rightarrow> string \<Rightarrow> string \<Rightarrow> instant \<Rightarrow> string \<Rightarrow> audit_context
    \<Rightarrow> grant operation" where
  "consume_execution_grant X payload pid token_hash fingerprint t consumer ctx =
     (if gr_project payload \<noteq> pid then raising InvalidExecutionGrant
      else andThen (transaction (consume_block X payload pid token_hash fingerprint t consumer ctx))
        (\<lambda>r. case r of Inl e \<Rightarrow> raising e | Inr g \<Rightarrow> returning g))"

section \<open>Contracts\<close>

abbreviation grant_tables :: "table set" where
  "grant_tables \<equiv> {Execution_Grants, Trail, Deliveries}"

lemma grants_consume_accepted [accepts]:
  "grants_consume gid pid h t consumer d = Inr (g, d') \<Longrightarrow> Execution_Grants \<in> S \<Longrightarrow> accepted S d d'"
  by (auto simp: grants_consume_def bindE_Inr_iff split: if_splits intro: accepts)

lemma grants_expire_accepted [accepts]:
  "grants_expire gid pid t d = Inr (g, d') \<Longrightarrow> Execution_Grants \<in> S \<Longrightarrow> accepted S d d'"
  by (auto simp: grants_expire_def bindE_Inr_iff split: if_splits intro: accepts)

text \<open>The checks a presented grant must pass before its state matters.\<close>

definition binds :: "grant_payload \<Rightarrow> string \<Rightarrow> string \<Rightarrow> grant \<Rightarrow> bool" where
  "binds payload token_hash fingerprint g \<longleftrightarrow> gr_token_hash g = token_hash
     \<and> gr_decision g = gr_decision payload \<and> gr_project g = gr_project payload
     \<and> gr_issued_at g = gr_issued_at payload \<and> gr_expires_at g = gr_expires_at payload
     \<and> gr_fingerprint g = gr_fingerprint payload \<and> gr_fingerprint g = fingerprint"

text \<open>The two ways in which the block commits.\<close>

lemma consume_block_elim:
  assumes "consume_block X payload pid h fp t consumer ctx d = Inr (r, d')"
  obtains (expires) g e d1 where "grants_get (gr_id payload) pid d = Inr (Some g)"
      "binds payload h fp g" "gr_status g = Grant_ACTIVE" "gr_expires_at g \<le> t"
      "grants_expire (gr_id payload) pid t d = Inr (Some e, d1)"
      "accepted outbox_tables d1 d'" "r = Inl (ExecutionGrantExpired (gr_id payload))"
  | (consumes) g c d1 where "grants_get (gr_id payload) pid d = Inr (Some g)"
      "binds payload h fp g" "gr_status g = Grant_ACTIVE" "t < gr_expires_at g"
      "grants_consume (gr_id payload) pid h t consumer d = Inr (Some c, d1)"
      "accepted outbox_tables d1 d'" "r = Inr c"
proof -
  from assms obtain found where get: "grants_get (gr_id payload) pid d = Inr found"
    by (auto simp: consume_block_def bindE_Inr_iff)
  obtain g where found: "found = Some g"
    using assms by (cases found) (simp_all add: consume_block_def get)
  note run = assms [unfolded consume_block_def, simplified get found, simplified]
  have binds: "binds payload h fp g"
    using run by (simp add: binds_def split: if_split_asm)
  have active: "gr_status g = Grant_ACTIVE"
    using run by (cases "gr_status g") (simp_all split: if_split_asm)
  note run = run [simplified active, simplified binds [unfolded binds_def], simplified]
  show thesis
  proof (cases "gr_expires_at g \<le> t")
    case True
    with run binds obtain e d1 where "grants_expire (gr_id payload) pid t d = Inr (Some e, d1)"
        "accepted outbox_tables d1 d'" "r = Inl (ExecutionGrantExpired (gr_id payload))"
      by (auto simp: binds_def bindE_Inr_iff split: option.splits
          dest!: audit_accepted [where S = outbox_tables])
    with get found binds active True show thesis by (intro expires) auto
  next
    case False
    with run binds obtain c d1 where "grants_consume (gr_id payload) pid h t consumer d = Inr (Some c, d1)"
        "accepted outbox_tables d1 d'" "r = Inr c"
      by (auto simp: binds_def bindE_Inr_iff split: option.splits if_splits
          dest!: audit_accepted [where S = outbox_tables])
    with get found binds active False show thesis by (intro consumes) auto
  qed
qed

interpretation consume_body: store_block grant_tables "consume_block X payload pid h fp t consumer ctx"
  for X payload pid h fp t consumer ctx
proof
  fix d d' r assume "consume_block X payload pid h fp t consumer ctx d = Inr (r, d')"
  then obtain d1 where "accepted grant_tables d d1" "accepted outbox_tables d1 d'"
    by (cases rule: consume_block_elim) (auto dest: grants_expire_accepted [where S = grant_tables]
        grants_consume_accepted [where S = grant_tables])
  then show "accepted grant_tables d d'" by (blast intro: accepted_trans accepted_mono)
qed

interpretation consuming: store_operation grant_tables
  "consume_execution_grant X payload pid h fp t consumer ctx" for X payload pid h fp t consumer ctx
proof (cases "gr_project payload = pid")
  case True
  have "store_operation grant_tables (case r of Inl e \<Rightarrow> raising e | Inr g \<Rightarrow> returning g)"
    for r :: "exn + grant" by (cases r) simp_all
  then have "store_operation grant_tables (andThen (transaction (consume_block X payload pid h fp t consumer ctx))
      (\<lambda>r. case r of Inl e \<Rightarrow> raising e | Inr g \<Rightarrow> returning g))"
    by (intro andThen_operation consume_body.store_operation_axioms)
  with True show "store_operation grant_tables (consume_execution_grant X payload pid h fp t consumer ctx)"
    by (simp add: consume_execution_grant_def)
qed (simp add: consume_execution_grant_def)

abbreviation approval_grant_tables :: "table set" where
  "approval_grant_tables \<equiv> {Approval_Requests, Execution_Grants, Trail, Deliveries}"

interpretation approve_body: store_block approval_grant_tables "approve_block X did pid resolver t g ctx"
  for X did pid resolver t g ctx
proof
  fix d d' r assume run: "approve_block X did pid resolver t g ctx d = Inr (r, d')"
  then consider "d' = d" | d1 d2 d3 a where "insert_grant g d = Inr d1"
      "approvals_resolve did pid Approval_APPROVED resolver t d1 = Inr (a, d2)"
      "accepted outbox_tables d2 d3" "accepted outbox_tables d3 d'"
    by (auto simp: approve_block_def bindE_Inr_iff split: if_splits option.splits
        dest!: audit_accepted [where S = outbox_tables])
  then show "accepted approval_grant_tables d d'"
  proof cases
    case 2
    have "accepted approval_grant_tables d d1" by (rule insert_grant_accepted [OF 2(1)]) simp
    moreover have "accepted approval_grant_tables d1 d2" by (rule approvals_resolve_accepted [OF 2(2)]) simp
    moreover have "accepted approval_grant_tables d2 d'"
      by (rule accepted_mono [OF accepted_trans [OF 2(3,4)]]) simp
    ultimately show ?thesis by (blast intro: accepted_trans)
  qed simp
qed

interpretation approving: store_operation approval_grant_tables
  "approve_approval_with_grant X did pid resolver t g ctx" for X did pid resolver t g ctx
proof -
  have "store_operation approval_grant_tables (expire_due_approvals X pid t)"
    by (rule store_operation.weaken [OF expire_due_operation]) simp
  then show "store_operation approval_grant_tables (approve_approval_with_grant X did pid resolver t g ctx)"
    unfolding approve_approval_with_grant_def
    by (rule andThen_operation) (simp add: approve_body.store_operation_axioms)
qed

section \<open>The behaviour of consumption\<close>

definition grant_of :: "db \<Rightarrow> uuid \<Rightarrow> uuid \<Rightarrow> grant option" where
  "grant_of d gid pid = find_row (\<lambda>g. gr_id g = gid \<and> gr_project g = pid) (t_grants d)"

lemma grant_of_Some: "grant_of d gid pid = Some g \<Longrightarrow> g \<in> set (t_grants d) \<and> gr_id g = gid \<and> gr_project g = pid"
  by (auto simp: grant_of_def dest: find_row_Some)

lemma grant_of_cong: "t_grants d' = t_grants d \<Longrightarrow> grant_of d' gid pid = grant_of d gid pid"
  by (simp add: grant_of_def)

lemma grants_get_of: "store_ok d \<Longrightarrow> grants_get gid pid d = Inr (grant_of d gid pid)"
  by (auto simp: grants_get_def grant_of_def row_to_grant_def store_ok_def list_all_iff
      split: option.splits dest: find_row_Some)

text \<open>A statement that changes the one row of a grant, read back through the validators.\<close>

lemma update_one_grant:
  assumes "store_ok d" and "grant_of d gid pid = Some g" and "P g"
    and "\<And>h. P h \<Longrightarrow> gr_id h = gid \<and> gr_project h = pid"
    and "gr_id (f g) = gid" and "gr_project (f g) = pid" and "grant_change_ok g (f g)" and "grant_valid (f g)"
  defines "d1 \<equiv> d\<lparr>t_grants := update_rows P f (t_grants d)\<rparr>"
  shows "update_grants P f d = Inr d1" and "row_count P (t_grants d) \<noteq> 0"
    and "grants_get gid pid d1 = Inr (Some (f g))" and "grant_of d1 gid pid = Some (f g)"
    and "store_ok d1"
proof -
  have g: "g \<in> set (t_grants d)" "gr_id g = gid" "gr_project g = pid"
    using grant_of_Some [OF assms(2)] by auto
  have unique: "unique_by gr_id (t_grants d)" using assms(1) by (simp add: store_ok_def db_ok_def)
  have only: "h = g" if "h \<in> set (t_grants d)" "gr_id h = gid" for h
    by (rule unique_by_eq [OF unique that(1) g(1)]) (simp add: that(2) g(2))
  have onlyP: "h = g" if "h \<in> set (t_grants d)" "P h" for h using only [OF that(1)] assms(4) [OF that(2)] by simp
  have change: "\<forall>h \<in> set (t_grants d). P h \<longrightarrow> grant_change_ok h (f h)"
    using onlyP assms(7) by blast
  then show upd: "update_grants P f d = Inr d1" by (simp add: update_grants_Inr d1_def)
  show "row_count P (t_grants d) \<noteq> 0" using g(1) assms(3) by (auto simp: row_count_0 find_row_None)
  have "f g \<in> set (t_grants d1)"
    using g(1) assms(3) by (simp add: d1_def set_update_rows rev_image_eqI [of g])
  moreover have "db_ok d1" using update_grants_ok [OF upd] assms(1) by (simp add: store_ok_def)
  then have "distinct (map gr_id (t_grants d1))" by (simp add: db_ok_def unique_by_def)
  ultimately show of: "grant_of d1 gid pid = Some (f g)"
    unfolding grant_of_def by (intro find_row_unique [where k = gr_id]) (use assms(5,6) in auto)
  then show "grants_get gid pid d1 = Inr (Some (f g))"
    using assms(8) by (simp add: grants_get_def grant_of_def row_to_grant_def)
  have keys: "\<And>h. h \<in> set (t_grants d) \<Longrightarrow> P h \<Longrightarrow> gr_decision (f h) = gr_decision h \<and> gr_project (f h) = gr_project h"
    using change by (auto simp: grant_change_ok_def)
  have "grants_agree d1"
  proof -
    have "(\<exists>h \<in> set (t_grants d1). gr_decision h = did) = (\<exists>h \<in> set (t_grants d). gr_decision h = did)" for did
      using keys by (auto simp: d1_def set_update_rows)
    moreover have "\<exists>r \<in> set (t_decisions d1). au_id r = gr_decision h \<and> au_project r = gr_project h
        \<and> au_decision r = REQUIRE_APPROVAL" if "h \<in> set (t_grants d1)" for h
      using that keys assms(1) by (auto simp: d1_def set_update_rows store_ok_def grants_agree_def)
    ultimately show ?thesis using assms(1) by (simp add: store_ok_def grants_agree_def d1_def)
  qed
  moreover have "list_all grant_valid (t_grants d1)"
    unfolding d1_def using assms(1,8) onlyP by (auto simp: store_ok_def intro!: list_all_update_rows)
  ultimately show "store_ok d1"
    using \<open>db_ok d1\<close> assms(1) by (simp add: store_ok_def d1_def)
qed

lemma consumed_change:
  "grant_valid g \<Longrightarrow> gr_status g = Grant_ACTIVE \<Longrightarrow> t < gr_expires_at g
    \<Longrightarrow> grant_change_ok g (consumed_by t consumer g) \<and> grant_valid (consumed_by t consumer g)"
  by (auto simp: grant_valid_def grant_change_ok_def grant_check_def consumed_by_def)

lemma expired_change:
  "grant_valid g \<Longrightarrow> gr_status g = Grant_ACTIVE
    \<Longrightarrow> grant_change_ok g (expired_grant g) \<and> grant_valid (expired_grant g)"
  by (auto simp: grant_valid_def grant_change_ok_def grant_check_def expired_grant_def)

text \<open>
  The specification of a consumption on the row of the grant alone: the result, and the row
  afterwards.
\<close>

definition consume_spec ::
  "grant_payload \<Rightarrow> string \<Rightarrow> string \<Rightarrow> instant \<Rightarrow> string \<Rightarrow> grant option \<Rightarrow> (exn + grant) \<times> grant option" where
  "consume_spec payload h fp t consumer row =
     (case row of
        None \<Rightarrow> (Inl InvalidExecutionGrant, None)
      | Some g \<Rightarrow>
          if \<not> binds payload h (gr_fingerprint g) g then (Inl InvalidExecutionGrant, Some g)
          else if gr_fingerprint g \<noteq> fp then (Inl (ExecutionGrantMismatch (gr_id payload)), Some g)
          else (case gr_status g of
              Grant_CONSUMED \<Rightarrow> (Inl (ExecutionGrantAlreadyConsumed (gr_id payload)), Some g)
            | Grant_EXPIRED \<Rightarrow> (Inl (ExecutionGrantExpired (gr_id payload)), Some g)
            | Grant_ACTIVE \<Rightarrow>
                if gr_expires_at g \<le> t
                then (Inl (ExecutionGrantExpired (gr_id payload)), Some (expired_grant g))
                else (Inr (consumed_by t consumer g), Some (consumed_by t consumer g))))"

lemma audit_after_grant:
  assumes "store_ok d1" and "t_uuids d1 = t_uuids d" and "known_ids d1 = known_ids d" and "fresh_ids d"
    and "project_exists d1 pid" and "strips_only_whitespace X"
  shows "\<exists>d'. audit_change X t pid ctx action rtype (uuid_text u) before after metadata d1 = Inr d'
    \<and> t_grants d' = t_grants d1 \<and> fresh_ids d'"
proof -
  have "db_ok d1" using assms(1) by (simp add: store_ok_def)
  then obtain d' where d': "audit_change X t pid ctx action rtype (uuid_text u) before after metadata d1 = Inr d'"
      "fresh_ids d'"
    using audit_total [OF _ fresh_same [OF assms(4,2,3)] assms(5) resource_identifier_uuid [OF assms(6)]]
    by blast
  with audit.frame(6) [OF d'(1)] show ?thesis by blast
qed

lemma consume_block_active:
  assumes "store_ok d" and "fresh_ids d" and "project_exists d pid" and "strips_only_whitespace X"
    and "grant_of d (gr_id payload) pid = Some g" and "binds payload h fp g" and "gr_status g = Grant_ACTIVE"
  shows "\<exists>d'. consume_block X payload pid h fp t consumer ctx d =
      Inr (fst (consume_spec payload h fp t consumer (Some g)), d')
    \<and> grant_of d' (gr_id payload) pid = snd (consume_spec payload h fp t consumer (Some g))"
proof -
  note get = grants_get_of [OF assms(1), of "gr_id payload" pid, unfolded assms(5)]
  have g: "g \<in> set (t_grants d)" "gr_id g = gr_id payload" "gr_project g = pid"
    using grant_of_Some [OF assms(5)] by auto
  have valid: "grant_valid g" using assms(1) g(1) by (auto simp: store_ok_def list_all_iff)
  have b: "binds payload h (gr_fingerprint g) g" "gr_fingerprint g = fp"
    using assms(6) by (auto simp: binds_def)
  have ids: "gr_id ` set (update_rows P f (t_grants d)) = gr_id ` set (t_grants d)"
    if "\<And>x. x \<in> set (t_grants d) \<Longrightarrow> P x \<Longrightarrow> gr_id (f x) = gr_id x" for P f
    using map_update_rows [of "t_grants d" P gr_id f] that by (metis list.set_map)
  show ?thesis
  proof (cases "gr_expires_at g \<le> t")
    case True
    let ?P = "expirable (gr_id payload) pid t"
    let ?d1 = "d\<lparr>t_grants := update_rows ?P expired_grant (t_grants d)\<rparr>"
    have P: "?P g" "\<And>x. ?P x \<Longrightarrow> gr_id x = gr_id payload \<and> gr_project x = pid"
      using True g assms(7) by (auto simp: expirable_def)
    have row: "gr_id (expired_grant g) = gr_id payload" "gr_project (expired_grant g) = pid"
      using g by (simp_all add: expired_grant_def)
    note upd = update_one_grant [where P = ?P and f = expired_grant, OF assms(1,5) P row expired_change [OF valid assms(7), THEN conjunct1]
      expired_change [OF valid assms(7), THEN conjunct2]]
    have ex: "grants_expire (gr_id payload) pid t d = Inr (Some (expired_grant g), ?d1)"
      using upd(1-3) by (simp add: grants_expire_def)
    have "known_ids ?d1 = known_ids d" by (simp add: known_ids_def ids expired_grant_def)
    then obtain d' where d': "audit_change X t pid (expiration_context ''Execution grant validity period elapsed.'')
        EXECUTION_GRANT_EXPIRED R_EXECUTION_GRANT (uuid_text (gr_id payload)) (Some (grant_json X g))
        (Some (grant_json X (expired_grant g))) [(''decision_id'', uuid_json (gr_decision payload))] ?d1 = Inr d'"
        "t_grants d' = t_grants ?d1"
      using audit_after_grant [OF upd(5) _ _ assms(2) _ assms(4), of pid] assms(3)
      by (force simp: project_exists_def)
    moreover have "grant_of d' (gr_id payload) pid = Some (expired_grant g)"
      using grant_of_cong [OF d'(2)] upd(4) by simp
    ultimately show ?thesis
      using True ex b assms(6,7) get
      by (intro exI [of _ d']) (simp add: consume_block_def consume_spec_def binds_def)
  next
    case False
    let ?P = "consumable (gr_id payload) pid h t" and ?f = "consumed_by t consumer"
    let ?d1 = "d\<lparr>t_grants := update_rows ?P ?f (t_grants d)\<rparr>"
    have live: "t < gr_expires_at g" using False by simp
    have P: "?P g" "\<And>x. ?P x \<Longrightarrow> gr_id x = gr_id payload \<and> gr_project x = pid"
      using live g assms(6,7) by (auto simp: consumable_def binds_def)
    have row: "gr_id (?f g) = gr_id payload" "gr_project (?f g) = pid"
      using g by (simp_all add: consumed_by_def)
    note upd = update_one_grant [where P = ?P and f = ?f, OF assms(1,5) P row consumed_change [OF valid assms(7) live, THEN conjunct1]
      consumed_change [OF valid assms(7) live, THEN conjunct2]]
    have ex: "grants_consume (gr_id payload) pid h t consumer d = Inr (Some (?f g), ?d1)"
      using upd(1-3) by (simp add: grants_consume_def)
    have "known_ids ?d1 = known_ids d" by (simp add: known_ids_def ids consumed_by_def)
    then obtain d' where d': "audit_change X t pid ctx
        EXECUTION_GRANT_CONSUMED R_EXECUTION_GRANT (uuid_text (gr_id payload)) (Some (grant_json X g))
        (Some (grant_json X (?f g))) [(''decision_id'', uuid_json (gr_decision payload))] ?d1 = Inr d'"
        "t_grants d' = t_grants ?d1"
      using audit_after_grant [OF upd(5) _ _ assms(2) _ assms(4), of pid] assms(3)
      by (force simp: project_exists_def)
    moreover have "grant_of d' (gr_id payload) pid = Some (?f g)"
      using grant_of_cong [OF d'(2)] upd(4) by simp
    ultimately show ?thesis
      using live ex b assms(6,7) get
      by (intro exI [of _ d']) (simp add: consume_block_def consume_spec_def binds_def)
  qed
qed

text \<open>
  C1: Consuming a grant does to the database and returns what the specification says on the row of
  the presented grant: it is refused when the project, the token's digest, the decision, the times
  or the fingerprint differ, when the presented request is not the one that was approved, and when
  the grant has been consumed or has expired; the first use after the deadline commits the expiry
  and then fails; only an active, unexpired grant that matches in every respect is consumed, and
  then the row records by whom and when.
\<close>

theorem consume_refines_spec:
  assumes "store_ok d" and "fresh_ids d" and "project_exists d pid" and "strips_only_whitespace X"
  shows "\<exists>d'. consume_execution_grant X payload pid h fp t consumer ctx d =
      (if gr_project payload \<noteq> pid then (Inl InvalidExecutionGrant, d)
       else (fst (consume_spec payload h fp t consumer (grant_of d (gr_id payload) pid)), d'))
    \<and> (gr_project payload \<noteq> pid \<or> grant_of d' (gr_id payload) pid
        = snd (consume_spec payload h fp t consumer (grant_of d (gr_id payload) pid)))"
proof (cases "gr_project payload = pid")
  case False
  then show ?thesis by (simp add: consume_execution_grant_def raising_def)
next
  case True
  note get = grants_get_of [OF assms(1), of "gr_id payload" pid]
  have run: "consume_execution_grant X payload pid h fp t consumer ctx d =
      (case consume_block X payload pid h fp t consumer ctx d of
         Inl e \<Rightarrow> (Inl e, d) | Inr (r, d') \<Rightarrow> (r, d'))"
    using True
    by (auto simp: consume_execution_grant_def andThen_def transaction_def raising_def returning_def
        split: sum.splits)
  show ?thesis
  proof (cases "\<exists>g. grant_of d (gr_id payload) pid = Some g \<and> binds payload h fp g \<and> gr_status g = Grant_ACTIVE")
    case active: True
    then obtain g where g: "grant_of d (gr_id payload) pid = Some g" "binds payload h fp g"
      "gr_status g = Grant_ACTIVE" by blast
    obtain d' where "consume_block X payload pid h fp t consumer ctx d =
        Inr (fst (consume_spec payload h fp t consumer (Some g)), d')"
      "grant_of d' (gr_id payload) pid = snd (consume_spec payload h fp t consumer (Some g))"
      using consume_block_active [OF assms g] by blast
    then show ?thesis using True run g(1) by (intro exI [of _ d']) simp
  next
    case refused: False
    have "consume_block X payload pid h fp t consumer ctx d =
        Inl (projl (fst (consume_spec payload h fp t consumer (grant_of d (gr_id payload) pid))))
      \<and> isl (fst (consume_spec payload h fp t consumer (grant_of d (gr_id payload) pid)))
      \<and> snd (consume_spec payload h fp t consumer (grant_of d (gr_id payload) pid)) = grant_of d (gr_id payload) pid"
    proof (cases "grant_of d (gr_id payload) pid")
      case None
      then show ?thesis by (simp add: consume_block_def get consume_spec_def)
    next
      case (Some g)
      with refused show ?thesis
        by (cases "gr_status g") (auto simp: consume_block_def get consume_spec_def binds_def)
    qed
    then show ?thesis using True run by (intro exI [of _ d]) simp
  qed
qed

text \<open>What a committed consumption did to the row.\<close>

lemma consume_block_row:
  assumes run: "consume_block X payload pid h fp t consumer ctx d = Inr (r, d')" and ok: "store_ok d"
  shows "store_ok d'" and "\<exists>g. grant_of d (gr_id payload) pid = Some g \<and> gr_status g = Grant_ACTIVE
    \<and> binds payload h fp g \<and> grant_of d' (gr_id payload) pid = snd (consume_spec payload h fp t consumer (Some g))
    \<and> r = fst (consume_spec payload h fp t consumer (Some g))"
proof -
  have "store_ok d' \<and> (\<exists>g. grant_of d (gr_id payload) pid = Some g \<and> gr_status g = Grant_ACTIVE
    \<and> binds payload h fp g \<and> grant_of d' (gr_id payload) pid = snd (consume_spec payload h fp t consumer (Some g))
    \<and> r = fst (consume_spec payload h fp t consumer (Some g)))"
    using run
  proof (cases rule: consume_block_elim)
    case (expires g e d1)
    let ?P = "expirable (gr_id payload) pid t"
    have of: "grant_of d (gr_id payload) pid = Some g" using expires(1) grants_get_of [OF ok] by simp
    note g = grant_of_Some [OF of]
    have valid: "grant_valid g" using ok g by (auto simp: store_ok_def list_all_iff)
    have P: "?P g" "\<And>x. ?P x \<Longrightarrow> gr_id x = gr_id payload \<and> gr_project x = pid"
      using expires g by (auto simp: expirable_def)
    have row: "gr_id (expired_grant g) = gr_id payload" "gr_project (expired_grant g) = pid"
      using g by (simp_all add: expired_grant_def)
    note upd = update_one_grant [where P = ?P and f = expired_grant, OF ok of P row
      expired_change [OF valid expires(3), THEN conjunct1] expired_change [OF valid expires(3), THEN conjunct2]]
    have "d1 = d\<lparr>t_grants := update_rows ?P expired_grant (t_grants d)\<rparr>"
      using expires(5) upd(1-3) by (simp add: grants_expire_def)
    with upd(4,5) have "grant_of d1 (gr_id payload) pid = Some (expired_grant g)" "store_ok d1" by simp_all
    moreover have "t_grants d' = t_grants d1" by (rule accepted_frame [OF expires(6)]) simp
    ultimately show ?thesis
      using of expires store_ok_untouched [OF expires(6)] grant_of_cong [of d' d1]
      by (auto simp: consume_spec_def binds_def)
  next
    case (consumes g c d1)
    let ?P = "consumable (gr_id payload) pid h t" and ?f = "consumed_by t consumer"
    have of: "grant_of d (gr_id payload) pid = Some g" using consumes(1) grants_get_of [OF ok] by simp
    note g = grant_of_Some [OF of]
    have valid: "grant_valid g" using ok g by (auto simp: store_ok_def list_all_iff)
    have P: "?P g" "\<And>x. ?P x \<Longrightarrow> gr_id x = gr_id payload \<and> gr_project x = pid"
      using consumes g by (auto simp: consumable_def binds_def)
    have row: "gr_id (?f g) = gr_id payload" "gr_project (?f g) = pid"
      using g by (simp_all add: consumed_by_def)
    note upd = update_one_grant [where P = ?P and f = ?f, OF ok of P row
      consumed_change [OF valid consumes(3,4), THEN conjunct1] consumed_change [OF valid consumes(3,4), THEN conjunct2]]
    have d1: "d1 = d\<lparr>t_grants := update_rows ?P ?f (t_grants d)\<rparr>" and c: "c = ?f g"
      using consumes(5) upd(1-3) by (simp_all add: grants_consume_def)
    with upd(4,5) have "grant_of d1 (gr_id payload) pid = Some (?f g)" "store_ok d1" by simp_all
    moreover have "t_grants d' = t_grants d1" by (rule accepted_frame [OF consumes(6)]) simp
    ultimately show ?thesis
      using of consumes c store_ok_untouched [OF consumes(6)] grant_of_cong [of d' d1]
      by (auto simp: consume_spec_def binds_def)
  qed
  then show "store_ok d'" and "\<exists>g. grant_of d (gr_id payload) pid = Some g \<and> gr_status g = Grant_ACTIVE
    \<and> binds payload h fp g \<and> grant_of d' (gr_id payload) pid = snd (consume_spec payload h fp t consumer (Some g))
    \<and> r = fst (consume_spec payload h fp t consumer (Some g))" by blast+
qed

lemma consume_run:
  "consume_execution_grant X payload pid h fp t consumer ctx d =
     (if gr_project payload \<noteq> pid then (Inl InvalidExecutionGrant, d)
      else case consume_block X payload pid h fp t consumer ctx d of
         Inl e \<Rightarrow> (Inl e, d) | Inr (r, d') \<Rightarrow> (r, d'))"
  by (auto simp: consume_execution_grant_def andThen_def transaction_def raising_def returning_def
      split: sum.splits)

lemma consume_store_ok:
  "consume_execution_grant X payload pid h fp t consumer ctx d = (r, d') \<Longrightarrow> store_ok d \<Longrightarrow> store_ok d'"
  by (auto simp: consume_run split: sum.splits if_splits dest: consume_block_row(1))

lemma consumed_row:
  assumes "consume_execution_grant X payload pid h fp t consumer ctx d = (Inr g, d')" and "store_ok d"
  shows "g \<in> set (t_grants d')" and "gr_status g = Grant_CONSUMED" and "gr_id g = gr_id payload"
    and "gr_project g = pid" and "binds payload h fp g"
proof -
  from assms(1) have run: "consume_block X payload pid h fp t consumer ctx d = Inr (Inr g, d')"
    by (auto simp: consume_run split: sum.splits if_splits)
  obtain g0 where g0: "grant_of d (gr_id payload) pid = Some g0" "gr_status g0 = Grant_ACTIVE"
      "binds payload h fp g0" "grant_of d' (gr_id payload) pid = snd (consume_spec payload h fp t consumer (Some g0))"
      "Inr g = fst (consume_spec payload h fp t consumer (Some g0))"
    using consume_block_row(2) [OF run assms(2)] by blast
  then have g: "g = consumed_by t consumer g0" "grant_of d' (gr_id payload) pid = Some g"
    by (auto simp: consume_spec_def binds_def split: if_splits)
  show "g \<in> set (t_grants d')" "gr_id g = gr_id payload" "gr_project g = pid"
    using grant_of_Some [OF g(2)] by auto
  show "gr_status g = Grant_CONSUMED" "binds payload h fp g"
    using g(1) g0(3) by (auto simp: consumed_by_def binds_def)
qed

text \<open>
  C2: A grant is consumed at most once. After a successful consumption, in every later state of
  the database, presenting the grant again is answered with "already consumed" and changes
  nothing, and no presentation of that grant, by whomever and with whatever token, succeeds.
\<close>

theorem grant_consumed_once:
  assumes "consume_execution_grant X payload pid h fp t consumer ctx d = (Inr g, d1)" and "store_ok d"
    and "db_evolved d1 d2" and "store_ok d2"
  shows "consume_execution_grant X payload pid h fp t' consumer' ctx' d2 =
      (Inl (ExecutionGrantAlreadyConsumed (gr_id payload)), d2)
    \<and> (gr_id payload' = gr_id payload \<longrightarrow>
      isl (fst (consume_execution_grant X payload' pid' h' fp' t' consumer' ctx' d2)))"
proof -
  note row = consumed_row [OF assms(1,2)]
  have unique: "unique_by gr_id (t_grants d2)" using assms(4) by (simp add: store_ok_def db_ok_def)
  have "find_row (\<lambda>s. gr_id s = gr_id g) (t_grants d2) = Some g"
    using assms(3) unique row(1,2)
    by (intro grants.lookup_terminal) (auto simp: db_evolved_def unique_by_def)
  then have mem: "g \<in> set (t_grants d2)" by (auto dest: find_row_Some)
  have only: "x = g" if "grant_of d2 (gr_id payload) p = Some x" for x p
    using unique_by_eq [OF unique _ mem] grant_of_Some [OF that] row(3) by simp
  have of: "grant_of d2 (gr_id payload) pid = Some g"
    unfolding grant_of_def
    by (rule find_row_unique [where k = gr_id]) (use unique mem row in \<open>auto simp: unique_by_def\<close>)
  have proj: "gr_project payload = pid"
    using assms(1) by (auto simp: consume_run split: if_splits)
  have again: "consume_execution_grant X payload pid h fp t' consumer' ctx' d2 =
      (Inl (ExecutionGrantAlreadyConsumed (gr_id payload)), d2)"
    using row proj by (auto simp: consume_run consume_block_def grants_get_of [OF assms(4)] of binds_def)
  have "isl (fst (consume_execution_grant X payload' pid' h' fp' t' consumer' ctx' d2))"
    if id: "gr_id payload' = gr_id payload"
  proof (rule ccontr)
    assume "\<not> isl (fst (consume_execution_grant X payload' pid' h' fp' t' consumer' ctx' d2))"
    then obtain c d3 where "consume_execution_grant X payload' pid' h' fp' t' consumer' ctx' d2 = (Inr c, d3)"
      by (metis isl_def old.prod.exhaust prod.sel(1) sum.collapse(2))
    then have run: "consume_block X payload' pid' h' fp' t' consumer' ctx' d2 = Inr (Inr c, d3)"
      by (auto simp: consume_run split: sum.splits if_splits)
    obtain x where "grant_of d2 (gr_id payload) pid' = Some x" "gr_status x = Grant_ACTIVE"
      using consume_block_row(2) [OF run assms(4)] id by auto
    with only row(2) show False by auto
  qed
  with again show ?thesis by blast
qed

section \<open>The behaviour of an approval\<close>

definition grant_for :: "db \<Rightarrow> uuid \<Rightarrow> uuid \<Rightarrow> grant option" where
  "grant_for d did pid = find_row (\<lambda>g. gr_decision g = did \<and> gr_project g = pid) (t_grants d)"

lemma grants_get_by_decision_of: "store_ok d \<Longrightarrow> grants_get_by_decision did pid d = Inr (grant_for d did pid)"
  by (auto simp: grants_get_by_decision_def grant_for_def row_to_grant_def store_ok_def list_all_iff
      split: option.splits dest: find_row_Some)

text \<open>A grant the service may issue for a decision at time \<open>t\<close>: new, valid, for a decision to approve.\<close>

definition issuable :: "db \<Rightarrow> uuid \<Rightarrow> uuid \<Rightarrow> instant \<Rightarrow> grant \<Rightarrow> bool" where
  "issuable d did pid t g \<longleftrightarrow> gr_decision g = did \<and> gr_project g = pid \<and> gr_status g = Grant_ACTIVE
     \<and> gr_issued_at g = t \<and> grant_valid g \<and> unused (gr_id g) d
     \<and> list_all (\<lambda>h. gr_token_hash h \<noteq> gr_token_hash g) (t_grants d)
     \<and> (case decisions_get did pid d of None \<Rightarrow> False | Some r \<Rightarrow> au_decision r = REQUIRE_APPROVAL)"

lemma store_ok_granted:
  assumes ins: "insert_grant g d = Inr d1"
    and res: "approvals_resolve (gr_decision g) pid Approval_APPROVED resolver t d1 = Inr (a, d2)"
    and ok: "store_ok d" and valid: "grant_valid g" and pid: "gr_project g = pid"
  shows "store_ok d2" and "approval_of d2 (gr_decision g) pid = Some a" and "t_grants d2 = t_grants d @ [g]"
proof -
  let ?did = "gr_decision g" and ?f = "resolved_as Approval_APPROVED resolver t"
  let ?P = "resolvable d1 ?did pid t"
  have row: "grant_row_ok d g" and d1: "d1 = d\<lparr>t_grants := t_grants d @ [g]\<rparr>"
    using ins by (auto simp: insert_grant_def split: if_splits)
  from res have upd: "update_approvals ?P ?f d1 = Inr d2"
    and count: "row_count ?P (t_approvals d1) \<noteq> 0" and get: "approvals_get ?did pid d2 = Inr (Some a)"
    by (auto simp: approvals_resolve_def bindE_Inr_iff split: if_splits option.splits)
  have d2: "d2 = d1\<lparr>t_approvals := update_rows ?P ?f (t_approvals d1)\<rparr>"
    using upd by (auto simp: update_approvals_Inr)
  have dbok: "db_ok d2"
    using ok insert_grant_ok [OF ins] update_approvals_ok [OF upd] by (simp add: store_ok_def)
  have unique: "unique_by ap_decision (t_approvals d)" using ok by (simp add: store_ok_def db_ok_def)
  obtain b where b: "b \<in> set (t_approvals d)" "?P b"
    using count by (auto simp: row_count_0 find_row_None d1)
  then have did: "ap_decision b = ?did" "ap_status b = Approval_PENDING" by (auto simp: resolvable_def)
  have only: "x = b" if "x \<in> set (t_approvals d)" "ap_decision x = ?did" for x
    using unique_by_eq [OF unique that(1) b(1)] that(2) did(1) by simp
  have fb: "?f b \<in> set (t_approvals d2)"
    using b by (simp add: d2 d1 set_update_rows rev_image_eqI [of b])
  have a: "a \<in> set (t_approvals d2)" "ap_decision a = ?did" "approval_valid a"
    using get by (auto simp: approvals_get_def row_to_approval_def bindE_Inr_iff
        split: option.splits if_splits dest: find_row_Some)
  have "a = ?f b"
    using unique_by_eq [of ap_decision "t_approvals d2" a "?f b"] a fb dbok did(1)
    by (simp add: db_ok_def)
  show "approval_of d2 ?did pid = Some a"
    using get by (auto simp: approvals_get_def approval_of_def row_to_approval_def bindE_Inr_iff
        split: option.splits if_splits)
  show "t_grants d2 = t_grants d @ [g]" by (simp add: d2 d1)
  have approvals: "x \<in> set (t_approvals d2) \<longleftrightarrow> x = ?f b \<or> x \<in> set (t_approvals d) \<and> ap_decision x \<noteq> ?did" for x
  proof
    assume "x \<in> set (t_approvals d2)"
    then obtain y where y: "y \<in> set (t_approvals d)" "x = (if ?P y then ?f y else y)"
      by (auto simp: d2 d1 set_update_rows)
    show "x = ?f b \<or> x \<in> set (t_approvals d) \<and> ap_decision x \<noteq> ?did"
    proof (cases "ap_decision y = ?did")
      case True
      with only y(1) have "y = b" by blast
      with y(2) b(2) show ?thesis by simp
    next
      case False
      then have "\<not> ?P y" by (simp add: resolvable_def)
      with y False show ?thesis by simp
    qed
  next
    assume "x = ?f b \<or> x \<in> set (t_approvals d) \<and> ap_decision x \<noteq> ?did"
    then show "x \<in> set (t_approvals d2)"
    proof
      assume x: "x \<in> set (t_approvals d) \<and> ap_decision x \<noteq> ?did"
      then have "\<not> ?P x" by (simp add: resolvable_def)
      with x show ?thesis by (simp add: d2 d1 set_update_rows rev_image_eqI [of x])
    qed (use fb in simp)
  qed
  have "list_all approval_valid (t_approvals d2)"
    using ok a(3) \<open>a = ?f b\<close> by (auto simp: approvals store_ok_def list_all_iff)
  moreover have "list_all grant_valid (t_grants d2)"
    using ok valid by (simp add: d2 d1 store_ok_def)
  moreover have "grants_agree d2"
  proof -
    have old: "(\<exists>h \<in> set (t_grants d). gr_decision h = did)
        \<longleftrightarrow> (\<exists>x \<in> set (t_approvals d). ap_decision x = did \<and> ap_status x = Approval_APPROVED)" for did
      using ok by (simp add: store_ok_def grants_agree_def)
    have "(\<exists>h \<in> set (t_grants d2). gr_decision h = did)
        \<longleftrightarrow> (\<exists>x \<in> set (t_approvals d2). ap_decision x = did \<and> ap_status x = Approval_APPROVED)" for did
    proof (cases "did = ?did")
      case True
      have "\<exists>x \<in> set (t_approvals d2). ap_decision x = ?did \<and> ap_status x = Approval_APPROVED"
        using fb did(1) by (intro bexI [of _ "?f b"]) (auto simp: resolved_as_def)
      moreover have "\<exists>h \<in> set (t_grants d2). gr_decision h = ?did" by (simp add: d2 d1)
      ultimately show ?thesis using True by simp
    next
      case False
      then have "(\<exists>h \<in> set (t_grants d2). gr_decision h = did) \<longleftrightarrow> (\<exists>h \<in> set (t_grants d). gr_decision h = did)"
        by (simp add: d2 d1)
      moreover have "(\<exists>x \<in> set (t_approvals d2). ap_decision x = did \<and> ap_status x = Approval_APPROVED)
          \<longleftrightarrow> (\<exists>x \<in> set (t_approvals d). ap_decision x = did \<and> ap_status x = Approval_APPROVED)"
        using False did(1) by (auto simp: approvals)
      ultimately show ?thesis using old by simp
    qed
    moreover have "\<exists>r \<in> set (t_decisions d). au_id r = gr_decision h \<and> au_project r = gr_project h
        \<and> au_decision r = REQUIRE_APPROVAL" if "h \<in> set (t_grants d @ [g])" for h
      using that ok row by (auto simp: store_ok_def grants_agree_def grant_row_ok_def list_ex_iff)
    ultimately show ?thesis by (simp add: grants_agree_def d2 d1)
  qed
  ultimately show "store_ok d2" using dbok by (simp add: store_ok_def)
qed

lemma approve_store_ok:
  assumes "approve_approval_with_grant X did pid resolver t g ctx d = (r, d')" and "store_ok d" and "grant_valid g"
  shows "store_ok d'"
proof -
  obtain r1 d1 where sweep: "expire_due_approvals X pid t d = (r1, d1)" by force
  have ok: "store_ok d1" by (rule expire_due_store_ok [OF sweep assms(2)])
  consider "d' = d1" | x where "approve_block X did pid resolver t g ctx d1 = Inr (x, d')"
      "gr_decision g = did" "gr_project g = pid"
    using assms(1) sweep
    by (auto simp: approve_approval_with_grant_def andThen_def transaction_def raising_def split: sum.splits if_splits)
  then show ?thesis
  proof cases
    case 1
    with ok show ?thesis by simp
  next
    case 2
    then consider "d' = d1" | d2 d3 d4 a where "insert_grant g d1 = Inr d2"
        "approvals_resolve did pid Approval_APPROVED resolver t d2 = Inr (a, d3)"
        "accepted outbox_tables d3 d4" "accepted outbox_tables d4 d'"
      by (auto simp: approve_block_def bindE_Inr_iff split: if_splits option.splits
          dest!: audit_accepted [where S = outbox_tables])
    then show ?thesis
    proof cases
      case 1
      with ok show ?thesis by simp
    next
      case steps: 2
      have "store_ok d3" using store_ok_granted(1) [OF steps(1) _ ok assms(3)] steps(2) 2 by simp
      then show ?thesis using store_ok_untouched [OF accepted_trans [OF steps(3,4)]] by simp
    qed
  qed
qed

lemma approve_block_pending:
  assumes ok: "store_ok d" and "fresh_ids d" and "project_exists d pid" and "strips_only_whitespace X"
    and of: "approval_of d did pid = Some a" and pending: "ap_status a = Approval_PENDING"
    and live: "\<not> is_due t a" and time: "ap_requested_at a \<le> t" and issue: "issuable d did pid t g"
  shows "\<exists>d'. approve_block X did pid resolver t g ctx d =
      Inr ((resolved_as Approval_APPROVED resolver t a, g), d')
    \<and> t_grants d' = t_grants d @ [g]
    \<and> approval_of d' did pid = Some (resolved_as Approval_APPROVED resolver t a)"
proof -
  let ?f = "resolved_as Approval_APPROVED resolver t"
  let ?d1 = "d\<lparr>t_grants := t_grants d @ [g]\<rparr>"
  let ?d2 = "?d1\<lparr>t_approvals := update_rows (\<lambda>b. ap_decision b = did) ?f (t_approvals ?d1)\<rparr>"
  have a: "a \<in> set (t_approvals d)" "ap_decision a = did" using approval_of_Some [OF of] by auto
  have unique: "unique_by ap_decision (t_approvals d)" using ok by (simp add: store_ok_def db_ok_def)
  have g: "gr_decision g = did" "gr_project g = pid" "gr_status g = Grant_ACTIVE" "gr_issued_at g = t"
      "grant_valid g" "unused (gr_id g) d"
    using issue by (auto simp: issuable_def)
  obtain r where r: "decisions_get did pid d = Some r" "au_decision r = REQUIRE_APPROVAL"
    using issue by (auto simp: issuable_def split: option.splits)
  have none: "gr_decision h \<noteq> did" if "h \<in> set (t_grants d)" for h
  proof
    assume "gr_decision h = did"
    with that ok obtain b where b: "b \<in> set (t_approvals d)" "ap_decision b = did" "ap_status b = Approval_APPROVED"
      by (auto simp: store_ok_def grants_agree_def)
    have "b = a" using unique_by_eq [OF unique b(1) a(1)] b(2) a(2) by simp
    with b(3) pending show False by simp
  qed
  have ids: "gr_id h \<noteq> gr_id g" if "h \<in> set (t_grants d)" for h
  proof -
    have "gr_id h \<in> known_ids d" using that by (simp add: known_ids_def)
    with g(6) show ?thesis by (auto simp: unused_def)
  qed
  have "grant_row_ok d g"
    unfolding grant_row_ok_def
  proof (intro conjI)
    show "grant_check g" using g by (auto simp: grant_valid_def grant_check_def)
    show "project_exists d (gr_project g)" using assms(3) g by simp
    show "list_all (\<lambda>h. gr_id h \<noteq> gr_id g \<and> gr_decision h \<noteq> gr_decision g \<and> gr_token_hash h \<noteq> gr_token_hash g) (t_grants d)"
      using none ids issue g by (auto simp: issuable_def list_all_iff)
    show "list_ex (\<lambda>r. au_id r = gr_decision g \<and> au_project r = gr_project g \<and> au_decision r = REQUIRE_APPROVAL) (t_decisions d)"
      using r g by (auto simp: decisions_get_def list_ex_iff dest: find_row_Some)
    show "list_ex (\<lambda>x. ap_decision x = gr_decision g \<and> ap_status x = Approval_PENDING
        \<and> ap_requested_at x \<le> gr_issued_at g
        \<and> (case ap_expires_at x of None \<Rightarrow> True | Some e \<Rightarrow> gr_issued_at g < e)) (t_approvals d)"
      using a g pending live time pending_not_due [OF pending, of t] by (auto simp: list_ex_iff intro!: bexI [of _ a])
  qed (use g in simp)
  then have ins: "insert_grant g d = Inr ?d1" by (simp add: insert_grant_def)
  have of1: "approval_of ?d1 did pid = Some a"
    using of by (simp add: approval_of_def decided_in_def)
  have aok: "approvals_ok ?d1" using ok by (simp add: approvals_ok_def store_ok_def db_ok_def)
  have res: "approvals_resolve did pid Approval_APPROVED resolver t ?d1 = Inr (?f a, ?d2)"
    by (subst approvals_resolve_done [OF aok]) (use of1 pending live time g in auto)
  note granted = store_ok_granted [OF ins res [folded g(1)] ok g(5,2)]
  have "known_ids ?d2 = insert (gr_id g) (known_ids d)" by (auto simp: known_ids_def)
  moreover have "t_uuids d n \<noteq> gr_id g" for n using g(6) by (metis rangeI unused_def)
  ultimately have fresh2: "fresh_ids ?d2" using assms(2) by (simp add: fresh_ids_def)
  have proj2: "project_exists ?d2 pid" using assms(3) by (simp add: project_exists_def)
  have ok2: "db_ok ?d2" using granted(1) g(1) by (simp add: store_ok_def)
  obtain d3 where d3: "audit_change X t pid ctx APPROVAL_RESOLVED R_APPROVAL (uuid_text did)
      (Some (JObj (approval_members X a))) (Some (JObj (approval_members X (?f a))))
      [(''resolution'', JStr ''APPROVED'')] ?d2 = Inr d3" "fresh_ids d3"
    using audit_total [OF ok2 fresh2 proj2 resource_identifier_uuid [OF assms(4)]] by blast
  have ok3: "db_ok d3" by (rule audit.keeps_ok [OF d3(1) ok2])
  have proj3: "project_exists d3 pid" using audit.keeps_project [OF d3(1)] proj2 by simp
  obtain d4 where d4: "audit_change X t pid ctx EXECUTION_GRANT_ISSUED R_EXECUTION_GRANT
      (uuid_text (gr_id g)) None (Some (grant_json X g))
      [(''decision_id'', uuid_json did), (''expires_at'', JStr (isoformat (gr_expires_at g)))] d3 = Inr d4"
    using audit_total [OF ok3 d3(2) proj3 resource_identifier_uuid [OF assms(4)]] by blast
  have run: "approve_block X did pid resolver t g ctx d = Inr ((?f a, g), d4)"
    using ins res d3(1) d4 pending r g(4)
    by (simp add: approve_block_def approvals_get_of [OF store_ok_approvals [OF ok]] of)
  have "t_grants d4 = t_grants ?d2" "t_approvals d4 = t_approvals ?d2" "t_decisions d4 = t_decisions ?d2"
    using audit.frame [OF d4] audit.frame [OF d3(1)] by auto
  then have "t_grants d4 = t_grants d @ [g]" "approval_of d4 did pid = Some (?f a)"
    using granted(2,3) g(1) by (auto simp: approval_of_def decided_in_def)
  with run show ?thesis by blast
qed


section \<open>Sample grants\<close>

definition sample_payload :: grant_payload where
  "sample_payload = \<lparr>gr_version = 1, gr_id = 500, gr_decision = 5, gr_project = 2,
     gr_fingerprint = hex_pad 64 1, gr_issued_at = 20, gr_expires_at = 80\<rparr>"

definition sample_grant :: grant where
  "sample_grant = grant_payload.extend sample_payload (grant.fields Grant_ACTIVE (hex_pad 64 2) None None)"

lemma sample_grant_fields [simp]:
  "gr_version sample_grant = 1" "gr_id sample_grant = 500" "gr_decision sample_grant = 5"
  "gr_project sample_grant = 2" "gr_fingerprint sample_grant = hex_pad 64 1" "gr_issued_at sample_grant = 20"
  "gr_expires_at sample_grant = 80" "gr_status sample_grant = Grant_ACTIVE"
  "gr_token_hash sample_grant = hex_pad 64 2" "gr_consumed_at sample_grant = None"
  "gr_consumed_by sample_grant = None"
  by (simp_all add: sample_grant_def sample_payload_def grant_payload.defs grant.defs)

lemma sample_payload_fields [simp]:
  "gr_id sample_payload = 500" "gr_decision sample_payload = 5"
  "gr_project sample_payload = 2" "gr_fingerprint sample_payload = hex_pad 64 1" "gr_issued_at sample_payload = 20"
  "gr_expires_at sample_payload = 80"
  by (simp_all add: sample_payload_def)

lemma sample_grant_valid [simp]: "grant_valid sample_grant" "grant_check sample_grant"
  by (simp_all add: grant_valid_def grant_check_def del: hex_pad.simps)

lemma sample_issuable [simp]: "issuable approval_db 5 2 20 sample_grant"
  by (auto simp: issuable_def unused_def known_ids_def approval_db_def sample_db_def empty_db_def
      sample_project_def sample_decision_def sample_subscription_def decisions_get_def find_row_Cons)

lemma sample_approval_of [simp]: "approval_of approval_db 5 2 = Some (sample_approval 5 100)"
  by (simp add: approval_of_def approval_db_def sample_approval_def decided_in_def sample_decision_def find_row_Cons)


definition grant_db :: db where
  "grant_db = approval_db\<lparr>
     t_approvals := [resolved_as Approval_APPROVED ''reviewer'' 20 (sample_approval 5 100),
       sample_approval 6 50, sample_approval 7 40],
     t_grants := [sample_grant]\<rparr>"

lemma grant_db_fields [simp]:
  "t_grants grant_db = [sample_grant]" "t_decisions grant_db = t_decisions approval_db"
  by (simp_all add: grant_db_def)

lemma grant_db_ok [simp]: "store_ok grant_db" "fresh_ids grant_db" "project_exists grant_db 2"
proof -
  have "db_ok grant_db"
    using approval_db_ok(1)
    by (simp add: store_ok_def db_ok_def grant_db_def)
      (auto simp: unique_by_def sample_approval_def resolved_as_def approval_check_def references_ok_def
        refers_def approval_db_def sample_decision_def sample_project_def sample_db_def)
  moreover have "list_all approval_valid (t_approvals grant_db)"
    by (simp add: grant_db_def sample_approval_def resolved_as_def approval_valid_def)
  moreover have "grants_agree grant_db"
    by (auto simp: grants_agree_def grant_db_def sample_approval_def resolved_as_def approval_db_def
        sample_decision_def)
  ultimately show "store_ok grant_db" by (simp add: store_ok_def)
  have "t_uuids grant_db = t_uuids approval_db" "known_ids grant_db = insert 500 (known_ids approval_db)"
    by (auto simp: grant_db_def known_ids_def approval_db_def sample_db_def empty_db_def)
  then show "fresh_ids grant_db"
    using approval_db_ok(2) by (simp add: fresh_ids_def approval_db_def sample_db_def empty_db_def)
  show "project_exists grant_db 2" by (simp add: grant_db_def project_exists_def approval_db_def
      sample_db_def sample_project_def)
qed

lemma sample_grant_of [simp]: "grant_of grant_db 500 2 = Some sample_grant"
  by (simp add: grant_of_def find_row_Cons)

theorem consume_refines_spec_witness:
  "(\<exists>d'. consume_execution_grant sample_externals sample_payload 2 (hex_pad 64 2) (hex_pad 64 1) 30 ''worker''
        sample_context grant_db = (Inr (consumed_by 30 ''worker'' sample_grant), d')
      \<and> grant_of d' 500 2 = Some (consumed_by 30 ''worker'' sample_grant))
  \<and> (\<exists>d'. consume_execution_grant sample_externals sample_payload 2 (hex_pad 64 2) (hex_pad 64 1) 90 ''worker''
        sample_context grant_db = (Inl (ExecutionGrantExpired 500), d')
      \<and> grant_of d' 500 2 = Some (expired_grant sample_grant))"
  using consume_refines_spec [OF grant_db_ok sample_strips, of sample_payload "hex_pad 64 2" "hex_pad 64 1" 30]
    consume_refines_spec [OF grant_db_ok sample_strips, of sample_payload "hex_pad 64 2" "hex_pad 64 1" 90]
  by (simp_all add: consume_spec_def binds_def del: hex_pad.simps)

theorem grant_consumed_once_witness:
  "\<exists>d1. consume_execution_grant sample_externals sample_payload 2 (hex_pad 64 2) (hex_pad 64 1) 30 ''worker''
        sample_context grant_db = (Inr (consumed_by 30 ''worker'' sample_grant), d1)
    \<and> consume_execution_grant sample_externals sample_payload 2 (hex_pad 64 2) (hex_pad 64 1) 31 ''worker''
        sample_context d1 = (Inl (ExecutionGrantAlreadyConsumed 500), d1)"
proof -
  obtain d1 where "consume_block sample_externals sample_payload 2 (hex_pad 64 2) (hex_pad 64 1) 30 ''worker''
      sample_context grant_db = Inr (Inr (consumed_by 30 ''worker'' sample_grant), d1)"
    using consume_block_active [OF grant_db_ok sample_strips, of sample_payload sample_grant "hex_pad 64 2"
        "hex_pad 64 1" 30 "''worker''" sample_context]
    by (auto simp: consume_spec_def binds_def simp del: hex_pad.simps)
  then have run: "consume_execution_grant sample_externals sample_payload 2 (hex_pad 64 2) (hex_pad 64 1) 30
      ''worker'' sample_context grant_db = (Inr (consumed_by 30 ''worker'' sample_grant), d1)"
    by (simp add: consume_run del: hex_pad.simps)
  have "store_ok d1" by (rule consume_store_ok [OF run grant_db_ok(1)])
  with grant_consumed_once [OF run grant_db_ok(1) db_evolved_refl this, of 31 "''worker''" sample_context] run
  show ?thesis by auto
qed

end
