(* ===== verification/Policies.thy ===== *)
theory Policies
  imports Contracts
begin

text \<open>
  The policies of a project: \<open>app/storage/policies.py\<close>, the policy operations of
  \<open>app/evidence_store.py\<close> and \<open>app/services/policies.py\<close>. A project has one current
  configuration per policy identifier and an append-only history of its versions. The invariant
  \<open>histories_ok\<close> says what the two tables mean together: the versions of a policy are
  consecutive, the last one is the current one and holds the same policy.
\<close>

section \<open>Rows\<close>

text \<open>The validators of \<open>Policy\<close> and of \<open>ProjectPolicyVersion\<close>.\<close>

definition policy_valid :: "policy \<Rightarrow> bool" where
  "policy_valid p \<longleftrightarrow> 1 \<le> p_version p \<and> p_conditions p \<noteq> []"

definition row_to_configuration :: "policy_configuration \<Rightarrow> exn + policy_configuration" where
  "row_to_configuration c = (if policy_valid (pp_policy c) then Inr c else Inl ValidationError)"

definition version_valid :: "policy_version \<Rightarrow> bool" where
  "version_valid v \<longleftrightarrow> policy_valid (pv_policy v)
     \<and> (case pv_source v of None \<Rightarrow> True | Some n \<Rightarrow> 1 \<le> n)
     \<and> (pv_change v = Change_ROLLBACK \<longleftrightarrow> pv_source v \<noteq> None)"

definition row_to_version :: "policy_version \<Rightarrow> exn + policy_version" where
  "row_to_version v = (if version_valid v then Inr v else Inl ValidationError)"

abbreviation is_policy :: "uuid \<Rightarrow> string \<Rightarrow> policy_configuration \<Rightarrow> bool" where
  "is_policy pid i c \<equiv> pp_project c = pid \<and> p_id (pp_policy c) = i"

abbreviation is_version_of :: "uuid \<Rightarrow> string \<Rightarrow> policy_version \<Rightarrow> bool" where
  "is_version_of pid i v \<equiv> pv_project v = pid \<and> p_id (pv_policy v) = i"

text \<open>\<open>UPDATE project_policies\<close>, with the table's CHECK.\<close>

definition update_policies ::
  "(policy_configuration \<Rightarrow> bool) \<Rightarrow> (policy_configuration \<Rightarrow> policy_configuration) \<Rightarrow> db \<Rightarrow> exn + db" where
  "update_policies P f d =
     bindE (update_table (\<lambda>old new. 1 \<le> p_version (pp_policy new)) P f (t_policies d))
       (\<lambda>rows. Inr (d\<lparr>t_policies := rows\<rparr>))"

section \<open>The repository\<close>

definition insert_version ::
  "uuid \<Rightarrow> policy \<Rightarrow> policy_change \<Rightarrow> instant \<Rightarrow> int option \<Rightarrow> db \<Rightarrow> exn + db" where
  "insert_version pid p change created_at source d =
     insert_version_row \<lparr>pv_project = pid, pv_policy = p, pv_change = change, pv_source = source,
       pv_created_at = created_at\<rparr> d"

definition enabled_configuration :: "uuid \<Rightarrow> policy \<Rightarrow> instant \<Rightarrow> policy_configuration" where
  "enabled_configuration pid p t =
     \<lparr>pp_project = pid, pp_policy = p, pp_enabled = True, pp_updated_at = t\<rparr>"

text \<open>\<open>INSERT OR IGNORE\<close>: a taken key or a failing CHECK leaves the table as it is.\<close>

definition insert_seed :: "uuid \<Rightarrow> instant \<Rightarrow> policy \<Rightarrow> db \<Rightarrow> exn + db" where
  "insert_seed pid updated_at p d =
     (if list_ex (is_policy pid (p_id p)) (t_policies d) \<or> p_version p < 1 then Inr d
      else bindE (insert_policy_row (enabled_configuration pid p updated_at) d)
        (insert_version pid p Change_CREATED updated_at None))"

definition list_configurations :: "uuid \<Rightarrow> db \<Rightarrow> exn + policy_configuration list" where
  "list_configurations pid d =
     mapE row_to_configuration (sort_key (\<lambda>c. p_id (pp_policy c)) (filter (\<lambda>c. pp_project c = pid) (t_policies d)))"

definition list_active :: "uuid \<Rightarrow> db \<Rightarrow> exn + policy list" where
  "list_active pid d = bindE (list_configurations pid d) (\<lambda>cs. Inr (map pp_policy (filter pp_enabled cs)))"

definition get_configuration :: "uuid \<Rightarrow> string \<Rightarrow> db \<Rightarrow> exn + policy_configuration option" where
  "get_configuration pid i d =
     (case find_row (is_policy pid i) (t_policies d) of
        None \<Rightarrow> Inr None
      | Some c \<Rightarrow> bindE (row_to_configuration c) (\<lambda>r. Inr (Some r)))"

definition get_active :: "uuid \<Rightarrow> string \<Rightarrow> db \<Rightarrow> exn + policy option" where
  "get_active pid i d = bindE (get_configuration pid i d) (\<lambda>r. case r of
     None \<Rightarrow> Inr None
   | Some c \<Rightarrow> Inr (if pp_enabled c then Some (pp_policy c) else None))"

text \<open>\<open>SELECT version FROM project_policies\<close>.\<close>

definition current_version :: "uuid \<Rightarrow> string \<Rightarrow> db \<Rightarrow> int option" where
  "current_version pid i d = map_option (\<lambda>c. p_version (pp_policy c)) (find_row (is_policy pid i) (t_policies d))"

definition next_version :: "int option \<Rightarrow> int" where
  "next_version current = (case current of None \<Rightarrow> 1 | Some n \<Rightarrow> n + 1)"

definition create_configuration :: "uuid \<Rightarrow> policy \<Rightarrow> instant \<Rightarrow> db \<Rightarrow> exn + db" where
  "create_configuration pid p updated_at d =
     (case insert_policy_row (enabled_configuration pid p updated_at) d of
        Inl IntegrityError \<Rightarrow>
          (case current_version pid (p_id p) d of
             None \<Rightarrow> Inl IntegrityError
           | Some n \<Rightarrow> Inl (PolicyVersionConflict (p_id p) (n + 1) (p_version p)))
      | r \<Rightarrow> r)"

definition replace_configuration :: "uuid \<Rightarrow> policy \<Rightarrow> instant \<Rightarrow> int \<Rightarrow> db \<Rightarrow> exn + db" where
  "replace_configuration pid p updated_at version d =
     (let here = (\<lambda>c. is_policy pid (p_id p) c \<and> p_version (pp_policy c) = version) in
      bindE (update_policies here
          (\<lambda>c. c\<lparr>pp_policy := p, pp_enabled := True, pp_updated_at := updated_at\<rparr>) d) (\<lambda>d1.
        if row_count here (t_policies d) \<noteq> 1
        then Inl (PolicyVersionConflict (p_id p) (next_version (current_version pid (p_id p) d1)) (p_version p))
        else Inr d1))"

definition save_policy ::
  "uuid \<Rightarrow> policy \<Rightarrow> instant \<Rightarrow> policy_change \<Rightarrow> int option \<Rightarrow> policy_configuration block" where
  "save_policy pid p updated_at change source d =
     (let current = current_version pid (p_id p) d in
      if p_version p \<noteq> next_version current
      then Inl (PolicyVersionConflict (p_id p) (next_version current) (p_version p))
      else
        let effective = (if current = None then Change_CREATED else change) in
        bindE (case current of
            None \<Rightarrow> create_configuration pid p updated_at d
          | Some n \<Rightarrow> replace_configuration pid p updated_at n d) (\<lambda>d1.
        bindE (insert_version pid p effective updated_at
            (if effective = Change_ROLLBACK then source else None) d1) (\<lambda>d2.
        bindE (get_configuration pid (p_id p) d2) (\<lambda>r. case r of
            None \<Rightarrow> Inl TypeError
          | Some c \<Rightarrow> Inr (c, d2)))))"

definition list_versions :: "uuid \<Rightarrow> string \<Rightarrow> nat \<Rightarrow> nat \<Rightarrow> db \<Rightarrow> exn + policy_version list" where
  "list_versions pid i limit offset d =
     mapE row_to_version (page limit offset
       (sort_desc (\<lambda>v. p_version (pv_policy v)) (filter (is_version_of pid i) (t_versions d))))"

definition count_versions :: "uuid \<Rightarrow> string \<Rightarrow> db \<Rightarrow> nat" where
  "count_versions pid i d = row_count (is_version_of pid i) (t_versions d)"

definition version_row :: "uuid \<Rightarrow> string \<Rightarrow> int \<Rightarrow> db \<Rightarrow> policy_version option" where
  "version_row pid i n d = find_row (\<lambda>v. is_version_of pid i v \<and> p_version (pv_policy v) = n) (t_versions d)"

definition get_version :: "uuid \<Rightarrow> string \<Rightarrow> int \<Rightarrow> db \<Rightarrow> exn + policy_version option" where
  "get_version pid i n d = (case version_row pid i n d of
     None \<Rightarrow> Inr None
   | Some v \<Rightarrow> bindE (row_to_version v) (\<lambda>r. Inr (Some r)))"

definition rollback_policy_version :: "uuid \<Rightarrow> string \<Rightarrow> int \<Rightarrow> instant \<Rightarrow> policy_configuration block" where
  "rollback_policy_version pid i source updated_at d =
     (case version_row pid i source d of
        None \<Rightarrow> Inl (PolicyVersionNotFound i source)
      | Some historical \<Rightarrow>
          (case current_version pid i d of
             None \<Rightarrow> Inl (PolicyVersionNotFound i source)
           | Some n \<Rightarrow>
               if source = n then Inl (PolicyVersionAlreadyCurrent i source)
               else bindE (row_to_version historical) (\<lambda>h.
                 save_policy pid ((pv_policy h)\<lparr>p_version := n + 1\<rparr>) updated_at Change_ROLLBACK (Some source) d)))"

definition disable_configuration :: "uuid \<Rightarrow> string \<Rightarrow> instant \<Rightarrow> policy_configuration option block" where
  "disable_configuration pid i updated_at d =
     bindE (get_configuration pid i d) (\<lambda>existing. case existing of
       None \<Rightarrow> Inr (None, d)
     | Some _ \<Rightarrow>
         bindE (update_policies (is_policy pid i)
             (\<lambda>c. c\<lparr>pp_enabled := False, pp_updated_at := (if pp_enabled c then updated_at else pp_updated_at c)\<rparr>) d)
           (\<lambda>d1. bindE (get_configuration pid i d1) (\<lambda>r. Inr (r, d1))))"

section \<open>Store operations\<close>

definition seed_policy :: "externals \<Rightarrow> uuid \<Rightarrow> instant \<Rightarrow> audit_context option \<Rightarrow> policy \<Rightarrow> db \<Rightarrow> exn + db" where
  "seed_policy X pid seeded_at ctx p d =
     bindE (get_configuration pid (p_id p) d) (\<lambda>previous.
     bindE (insert_seed pid seeded_at p d) (\<lambda>d1.
       if ctx = None \<or> previous \<noteq> None then Inr d1
       else bindE (get_configuration pid (p_id p) d1) (\<lambda>created.
         audit_option X seeded_at pid ctx POLICY_CREATED R_POLICY (p_id p) None
           (map_option (configuration_json X) created) [(''source'', JStr ''template'')] d1)))"

definition seed_project_policies ::
  "externals \<Rightarrow> uuid \<Rightarrow> policy list \<Rightarrow> instant \<Rightarrow> audit_context option \<Rightarrow> unit operation" where
  "seed_project_policies X pid policies seeded_at ctx = transaction (\<lambda>d.
     bindE (foldE (seed_policy X pid seeded_at ctx) policies d) (\<lambda>d1. Inr ((), d1)))"

definition save_project_policy ::
  "externals \<Rightarrow> uuid \<Rightarrow> policy \<Rightarrow> instant \<Rightarrow> audit_context option \<Rightarrow> policy_configuration operation" where
  "save_project_policy X pid p updated_at ctx = transaction (\<lambda>d.
     bindE (get_configuration pid (p_id p) d) (\<lambda>previous.
     bindE (save_policy pid p updated_at Change_UPDATED None d) (\<lambda>(saved, d1).
     bindE (audit_option X updated_at pid ctx (if previous = None then POLICY_CREATED else POLICY_UPDATED)
         R_POLICY (p_id p) (map_option (configuration_json X) previous) (Some (configuration_json X saved))
         [(''new_version'', JInt (p_version (pp_policy saved))),
          (''previous_version'', opt_json (\<lambda>c. JInt (p_version (pp_policy c))) previous)] d1) (\<lambda>d2.
       Inr (saved, d2)))))"

definition rollback_project_policy ::
  "externals \<Rightarrow> uuid \<Rightarrow> string \<Rightarrow> int \<Rightarrow> instant \<Rightarrow> audit_context option \<Rightarrow> policy_configuration operation" where
  "rollback_project_policy X pid i source updated_at ctx = transaction (\<lambda>d.
     bindE (get_configuration pid i d) (\<lambda>previous.
     bindE (rollback_policy_version pid i source updated_at d) (\<lambda>(restored, d1).
     bindE (audit_option X updated_at pid ctx POLICY_ROLLED_BACK R_POLICY i
         (map_option (configuration_json X) previous) (Some (configuration_json X restored))
         [(''source_version'', JInt source), (''new_version'', JInt (p_version (pp_policy restored)))] d1) (\<lambda>d2.
       Inr (restored, d2)))))"

definition audit_disabled ::
  "externals \<Rightarrow> uuid \<Rightarrow> string \<Rightarrow> instant \<Rightarrow> audit_context option \<Rightarrow> policy_configuration option
    \<Rightarrow> policy_configuration option \<Rightarrow> db \<Rightarrow> exn + db" where
  "audit_disabled X pid i updated_at ctx previous disabled d =
     (if previous \<noteq> None \<and> pp_enabled (the previous) \<and> disabled \<noteq> None
      then audit_option X updated_at pid ctx POLICY_DISABLED R_POLICY i
        (map_option (configuration_json X) previous) (map_option (configuration_json X) disabled) [] d
      else Inr d)"

definition disable_project_policy ::
  "externals \<Rightarrow> uuid \<Rightarrow> string \<Rightarrow> instant \<Rightarrow> audit_context option \<Rightarrow> policy_configuration option operation" where
  "disable_project_policy X pid i updated_at ctx = transaction (\<lambda>d.
     bindE (get_configuration pid i d) (\<lambda>previous.
     bindE (disable_configuration pid i updated_at d) (\<lambda>(disabled, d1).
     bindE (audit_disabled X pid i updated_at ctx previous disabled d1) (\<lambda>d2. Inr (disabled, d2)))))"

section \<open>The promise of the store\<close>

lemma update_policies_Inr:
  "update_policies P f d = Inr d' \<longleftrightarrow> (\<forall>c \<in> set (t_policies d). P c \<longrightarrow> 1 \<le> p_version (pp_policy (f c)))
     \<and> d' = d\<lparr>t_policies := update_rows P f (t_policies d)\<rparr>"
  by (auto simp: update_policies_def bindE_Inr_iff update_table_Inr)

lemma update_policies_accepted:
  assumes "update_policies P f d = Inr d'" and "Policies \<in> S"
    and keys: "\<And>c. P c \<Longrightarrow> pp_project (f c) = pp_project c \<and> p_id (pp_policy (f c)) = p_id (pp_policy c)"
  shows "accepted S d d'"
proof -
  have d': "d' = d\<lparr>t_policies := update_rows P f (t_policies d)\<rparr>" using assms(1) by (simp add: update_policies_Inr)
  have "map (\<lambda>c. (pp_project c, p_id (pp_policy c))) (update_rows P f (t_policies d))
      = map (\<lambda>c. (pp_project c, p_id (pp_policy c))) (t_policies d)"
    "map pp_project (update_rows P f (t_policies d)) = map pp_project (t_policies d)"
    by (rule map_update_rows, use keys in simp)+
  then have "db_evolved d d'" "db_ok d \<Longrightarrow> db_ok d'"
    by (simp_all add: d' db_evolved_def db_ok_def keys_kept_map unique_by_def update_references)
  moreover have "touches S d d'" using assms(2) by (simp add: d' touches_def kept_def)
  ultimately show ?thesis by (simp add: accepted_def)
qed

abbreviation policy_tables :: "table set" where
  "policy_tables \<equiv> {Policies, Versions}"

lemma insert_version_accepted [accepts]:
  "insert_version pid p change t source d = Inr d' \<Longrightarrow> Versions \<in> S \<Longrightarrow> accepted S d d'"
  unfolding insert_version_def by (rule insert_version_row_accepted)

lemma insert_seed_accepted [accepts]:
  "insert_seed pid t p d = Inr d' \<Longrightarrow> policy_tables \<subseteq> S \<Longrightarrow> accepted S d d'"
  by (auto simp: insert_seed_def bindE_Inr_iff split: if_splits
      intro: accepted_trans insert_policy_row_accepted insert_version_accepted)

lemma create_configuration_Inr:
  "create_configuration pid p t d = Inr d' \<longleftrightarrow> insert_policy_row (enabled_configuration pid p t) d = Inr d'"
  by (auto simp: create_configuration_def insert_policy_row_def split: option.splits)

lemma save_policy_accepted [accepts]:
  assumes "save_policy pid p t change source d = Inr (c, d')" and "policy_tables \<subseteq> S"
  shows "accepted S d d'"
proof -
  from assms(1) obtain d1 effective origin where
    conf: "(case current_version pid (p_id p) d of None \<Rightarrow> create_configuration pid p t d
      | Some n \<Rightarrow> replace_configuration pid p t n d) = Inr d1"
    and ver: "insert_version pid p effective t origin d1 = Inr d'"
    by (auto simp: save_policy_def Let_def bindE_Inr_iff split: if_splits option.splits)
  have "accepted S d d1"
  proof (cases "current_version pid (p_id p) d")
    case None
    with conf assms(2) show ?thesis by (auto simp: create_configuration_Inr intro: insert_policy_row_accepted)
  next
    case (Some n)
    with conf have "update_policies (\<lambda>c. is_policy pid (p_id p) c \<and> p_version (pp_policy c) = n)
        (\<lambda>c. c\<lparr>pp_policy := p, pp_enabled := True, pp_updated_at := t\<rparr>) d = Inr d1"
      by (auto simp: replace_configuration_def Let_def bindE_Inr_iff split: if_splits)
    then show ?thesis by (rule update_policies_accepted) (use assms(2) in auto)
  qed
  then show ?thesis
    by (rule accepted_trans) (use ver assms(2) in \<open>auto intro: insert_version_accepted\<close>)
qed

lemma rollback_policy_version_accepted [accepts]:
  "rollback_policy_version pid i n t d = Inr (c, d') \<Longrightarrow> policy_tables \<subseteq> S \<Longrightarrow> accepted S d d'"
  by (auto simp: rollback_policy_version_def bindE_Inr_iff intro: save_policy_accepted split: option.splits if_splits)

lemma disable_configuration_accepted [accepts]:
  "disable_configuration pid i t d = Inr (c, d') \<Longrightarrow> policy_tables \<subseteq> S \<Longrightarrow> accepted S d d'"
  by (auto simp: disable_configuration_def bindE_Inr_iff intro: update_policies_accepted split: option.splits)

abbreviation policy_scope :: "table set" where
  "policy_scope \<equiv> policy_tables \<union> outbox_tables"

lemma seed_policy_accepted [accepts]:
  assumes "seed_policy X pid t ctx p d = Inr d'" and "policy_scope \<subseteq> S"
  shows "accepted S d d'"
  using assms
  by (auto simp: seed_policy_def bindE_Inr_iff split: if_splits
      intro: accepted_trans insert_seed_accepted audit_option_accepted)

lemma seed_policies_accepted:
  "foldE (seed_policy X pid t ctx) ps d = Inr d' \<Longrightarrow> accepted policy_scope d d'"
proof (induction ps arbitrary: d)
  case (Cons p ps)
  then show ?case by (auto simp: bindE_Inr_iff intro: accepted_trans seed_policy_accepted)
qed simp

interpretation seeding: store_operation policy_scope "seed_project_policies X pid ps t ctx" for X pid ps t ctx
  unfolding seed_project_policies_def
  by (rule transaction_operation, unfold_locales) (auto simp: bindE_Inr_iff dest: seed_policies_accepted)

interpretation saving: store_operation policy_scope "save_project_policy X pid p t ctx" for X pid p t ctx
  unfolding save_project_policy_def
  by (rule transaction_operation, unfold_locales)
    (auto simp: bindE_Inr_iff intro: accepted_trans save_policy_accepted audit_option_accepted)

interpretation rolling_back: store_operation policy_scope "rollback_project_policy X pid i n t ctx" for X pid i n t ctx
  unfolding rollback_project_policy_def
  by (rule transaction_operation, unfold_locales)
    (auto simp: bindE_Inr_iff intro: accepted_trans rollback_policy_version_accepted audit_option_accepted)

lemma audit_disabled_accepted [accepts]:
  "audit_disabled X pid i t ctx previous disabled d = Inr d' \<Longrightarrow> outbox_tables \<subseteq> S \<Longrightarrow> accepted S d d'"
  by (auto simp: audit_disabled_def intro: audit_option_accepted split: if_splits)

interpretation disabling: store_operation policy_scope "disable_project_policy X pid i t ctx" for X pid i t ctx
  unfolding disable_project_policy_def
  by (rule transaction_operation, unfold_locales)
    (auto simp: bindE_Inr_iff intro: accepted_trans disable_configuration_accepted audit_disabled_accepted)

section \<open>Histories\<close>

definition current_policy :: "db \<Rightarrow> uuid \<Rightarrow> string \<Rightarrow> policy option" where
  "current_policy d pid i = map_option pp_policy (find_row (is_policy pid i) (t_policies d))"

definition versions_of :: "db \<Rightarrow> uuid \<Rightarrow> string \<Rightarrow> policy_version list" where
  "versions_of d pid i = filter (is_version_of pid i) (t_versions d)"

text \<open>The versions of a policy: consecutive numbers up to the current one, whose policy is in force.\<close>

definition consecutive :: "policy option \<Rightarrow> policy_version list \<Rightarrow> bool" where
  "consecutive current vs \<longleftrightarrow> (case current of
     None \<Rightarrow> vs = []
   | Some p \<Rightarrow> vs \<noteq> [] \<and> pv_policy (last vs) = p \<and> 1 \<le> p_version (pv_policy (hd vs))
       \<and> map (\<lambda>v. p_version (pv_policy v)) vs = [p_version (pv_policy (hd vs))..p_version p])"

lemma consecutive_snoc:
  assumes "consecutive current vs"
    and "case current of None \<Rightarrow> 1 \<le> p_version (pv_policy v) | Some p \<Rightarrow> p_version (pv_policy v) = p_version p + 1"
  shows "consecutive (Some (pv_policy v)) (vs @ [v])"
proof (cases current)
  case None
  with assms show ?thesis by (simp add: consecutive_def)
next
  case (Some p)
  let ?a = "p_version (pv_policy (hd vs))"
  have old: "vs \<noteq> []" "1 \<le> ?a" "map (\<lambda>v. p_version (pv_policy v)) vs = [?a..p_version p]"
    using assms(1) Some by (simp_all add: consecutive_def)
  have "[?a..p_version p] \<noteq> []" unfolding old(3) [symmetric] using old(1) by simp
  then have "[?a..p_version p + 1] = [?a..p_version p] @ [p_version p + 1]" by (simp add: upto_rec2)
  with old assms(2) Some show ?thesis by (simp add: consecutive_def)
qed

definition history_ok :: "db \<Rightarrow> uuid \<Rightarrow> string \<Rightarrow> bool" where
  "history_ok d pid i \<longleftrightarrow> consecutive (current_policy d pid i) (versions_of d pid i)"

definition histories_ok :: "db \<Rightarrow> bool" where
  "histories_ok d \<longleftrightarrow> (\<forall>pid i. history_ok d pid i)"

lemma current_version_policy: "current_version pid i d = map_option p_version (current_policy d pid i)"
  by (simp add: current_version_def current_policy_def option.map_comp comp_def)

lemma current_policy_id: "current_policy d pid i = Some p \<Longrightarrow> p_id p = i"
  by (auto simp: current_policy_def dest: find_row_Some)

lemma histories_same:
  assumes "\<And>pid i. current_policy d' pid i = current_policy d pid i" and "t_versions d' = t_versions d"
    and "histories_ok d"
  shows "histories_ok d'"
  using assms by (simp add: histories_ok_def history_ok_def versions_of_def)

text \<open>A new version is the next one of its policy, or the first, and the one in force afterwards.\<close>

lemma history_extended:
  assumes ok: "histories_ok d" and rows: "t_versions d' = t_versions d @ [v]"
    and force: "\<And>q j. current_policy d' q j =
      (if q = pv_project v \<and> j = p_id (pv_policy v) then Some (pv_policy v) else current_policy d q j)"
    and number: "case current_policy d (pv_project v) (p_id (pv_policy v)) of
      None \<Rightarrow> 1 \<le> p_version (pv_policy v) | Some p \<Rightarrow> p_version (pv_policy v) = p_version p + 1"
  shows "histories_ok d'"
  unfolding histories_ok_def
proof (intro allI)
  fix pid i
  have "consecutive (current_policy d pid i) (versions_of d pid i)"
    using ok by (simp add: histories_ok_def history_ok_def)
  then show "history_ok d' pid i"
    using consecutive_snoc [OF _ number] rows force unfolding history_ok_def versions_of_def
    by (cases "pid = pv_project v \<and> i = p_id (pv_policy v)") auto
qed

definition policies_ok :: "db \<Rightarrow> bool" where
  "policies_ok d \<longleftrightarrow> histories_ok d \<and> list_all (\<lambda>c. policy_valid (pp_policy c)) (t_policies d)
     \<and> list_all version_valid (t_versions d)"

lemma policies_ok_untouched:
  "policies_ok d \<Longrightarrow> t_policies d' = t_policies d \<Longrightarrow> t_versions d' = t_versions d \<Longrightarrow> policies_ok d'"
  by (auto simp: policies_ok_def current_policy_def intro: histories_same)

lemma empty_policies_ok [simp]: "policies_ok (empty_db uuids)"
  by (simp add: policies_ok_def histories_ok_def history_ok_def current_policy_def versions_of_def consecutive_def
      empty_db_def)

lemma get_configuration_ok:
  "list_all (\<lambda>c. policy_valid (pp_policy c)) (t_policies d) \<Longrightarrow>
    get_configuration pid i d = Inr (find_row (is_policy pid i) (t_policies d))"
  by (auto simp: get_configuration_def row_to_configuration_def list_all_iff split: option.splits dest: find_row_Some)

lemma current_policy_snoc:
  assumes "find_row (is_policy (pp_project c) (p_id (pp_policy c))) rows = None"
  shows "map_option pp_policy (find_row (is_policy q j) (rows @ [c])) =
    (if q = pp_project c \<and> j = p_id (pp_policy c) then Some (pp_policy c)
     else map_option pp_policy (find_row (is_policy q j) rows))"
  using assms by (auto simp: row_simps split: option.split)

lemma current_policy_update:
  assumes found: "find_row (is_policy pid (p_id p)) rows = Some c" and "P c"
    and here: "\<And>r. P r \<Longrightarrow> is_policy pid (p_id p) r \<and> is_policy pid (p_id p) (f r) \<and> pp_policy (f r) = p"
  shows "map_option pp_policy (find_row (is_policy q j) (update_rows P f rows)) =
    (if q = pid \<and> j = p_id p then Some p else map_option pp_policy (find_row (is_policy q j) rows))"
proof -
  have upd: "find_row (is_policy q j) (update_rows P f rows) =
      map_option (\<lambda>r. if P r then f r else r) (find_row (is_policy q j) rows)"
  proof (rule update_rows_find)
    fix r show "is_policy q j (if P r then f r else r) = is_policy q j r"
      using here [of r] by (cases "P r") auto
  qed
  show ?thesis
  proof (cases "q = pid \<and> j = p_id p")
    case True
    with found \<open>P c\<close> here [of c] upd show ?thesis by simp
  next
    case False
    have "\<not> P r" if "find_row (is_policy q j) rows = Some r" for r
      using find_row_Some [OF that] False here [of r] by blast
    then have "map_option (\<lambda>r. if P r then f r else r) (find_row (is_policy q j) rows) = find_row (is_policy q j) rows"
      by (cases "find_row (is_policy q j) rows") simp_all
    with upd False show ?thesis by auto
  qed
qed

text \<open>The configuration is in its place and in force; the others are as they were.\<close>

definition placed :: "uuid \<Rightarrow> policy \<Rightarrow> instant \<Rightarrow> db \<Rightarrow> db \<Rightarrow> bool" where
  "placed pid p t d d1 \<longleftrightarrow> t_versions d1 = t_versions d
     \<and> find_row (is_policy pid (p_id p)) (t_policies d1) = Some (enabled_configuration pid p t)
     \<and> (\<forall>q j. current_policy d1 q j = (if q = pid \<and> j = p_id p then Some p else current_policy d q j))
     \<and> set (t_policies d1) \<subseteq> insert (enabled_configuration pid p t) (set (t_policies d))"

lemma create_placed:
  assumes "create_configuration pid p t d = Inr d1" and "current_version pid (p_id p) d = None"
  shows "placed pid p t d d1"
proof -
  have none: "find_row (is_policy pid (p_id p)) (t_policies d) = None" using assms(2) by (simp add: current_version_def)
  have d1: "d1 = d\<lparr>t_policies := t_policies d @ [enabled_configuration pid p t]\<rparr>"
    using assms(1) by (auto simp: create_configuration_Inr insert_policy_row_def split: if_splits)
  have key: "pp_project (enabled_configuration pid p t) = pid" "pp_policy (enabled_configuration pid p t) = p"
    by (simp_all add: enabled_configuration_def)
  have "current_policy d1 q j = (if q = pid \<and> j = p_id p then Some p else current_policy d q j)" for q j
    using current_policy_snoc [of "enabled_configuration pid p t" "t_policies d" q j] none
    by (simp add: current_policy_def d1 key)
  then show ?thesis using none by (simp add: placed_def d1 row_simps key)
qed

lemma replace_placed:
  assumes "replace_configuration pid p t n d = Inr d1" and "current_version pid (p_id p) d = Some n"
  shows "placed pid p t d d1"
proof -
  let ?P = "\<lambda>c. is_policy pid (p_id p) c \<and> p_version (pp_policy c) = n"
  let ?f = "\<lambda>c. c\<lparr>pp_policy := p, pp_enabled := True, pp_updated_at := t\<rparr>"
  from assms(1) have "update_policies ?P ?f d = Inr d1"
    by (auto simp: replace_configuration_def Let_def bindE_Inr_iff split: if_splits)
  then have d1: "d1 = d\<lparr>t_policies := update_rows ?P ?f (t_policies d)\<rparr>" by (simp add: update_policies_Inr)
  from assms(2) obtain c0 where c0: "find_row (is_policy pid (p_id p)) (t_policies d) = Some c0" "?P c0"
    by (auto simp: current_version_def dest: find_row_Some)
  have new: "?f r = enabled_configuration pid p t" if "?P r" for r
    using that by (cases r) (simp add: enabled_configuration_def)
  have "find_row (is_policy pid (p_id p)) (update_rows ?P ?f (t_policies d)) =
      map_option (\<lambda>r. if ?P r then ?f r else r) (find_row (is_policy pid (p_id p)) (t_policies d))"
    by (rule update_rows_find) auto
  then have "find_row (is_policy pid (p_id p)) (t_policies d1) = Some (enabled_configuration pid p t)"
    using c0 new [OF c0(2)] by (simp add: d1)
  moreover have "current_policy d1 q j = (if q = pid \<and> j = p_id p then Some p else current_policy d q j)" for q j
    using current_policy_update [where P = ?P and f = ?f, OF c0, of q j] by (simp add: current_policy_def d1)
  moreover have "set (t_policies d1) \<subseteq> insert (enabled_configuration pid p t) (set (t_policies d))"
    using new by (auto simp: d1 set_update_rows)
  ultimately show ?thesis by (simp add: placed_def d1)
qed

text \<open>What a successful save has done.\<close>

definition new_version_row :: "uuid \<Rightarrow> policy \<Rightarrow> instant \<Rightarrow> policy_change \<Rightarrow> int option \<Rightarrow> db \<Rightarrow> policy_version" where
  "new_version_row pid p t change source d =
     (let effective = (if current_policy d pid (p_id p) = None then Change_CREATED else change) in
      \<lparr>pv_project = pid, pv_policy = p, pv_change = effective,
       pv_source = (if effective = Change_ROLLBACK then source else None), pv_created_at = t\<rparr>)"

lemma save_policy_steps:
  "save_policy pid p t change source d = Inr (c, d') \<longleftrightarrow>
    p_version p = next_version (current_version pid (p_id p) d)
    \<and> (\<exists>d1. (case current_version pid (p_id p) d of None \<Rightarrow> create_configuration pid p t d
        | Some n \<Rightarrow> replace_configuration pid p t n d) = Inr d1
      \<and> insert_version_row (new_version_row pid p t change source d) d1 = Inr d'
      \<and> get_configuration pid (p_id p) d' = Inr (Some c))"
  by (auto simp: save_policy_def Let_def bindE_Inr_iff insert_version_def new_version_row_def
      current_version_policy split: if_splits option.splits)

lemma save_policy_done:
  assumes "save_policy pid p t change source d = Inr (c, d')"
  shows "c = enabled_configuration pid p t" and "policy_valid p"
    and "p_version p = next_version (current_version pid (p_id p) d)"
    and "t_versions d' = t_versions d @ [new_version_row pid p t change source d]"
    and "\<And>q j. current_policy d' q j = (if q = pid \<and> j = p_id p then Some p else current_policy d q j)"
    and "set (t_policies d') \<subseteq> insert c (set (t_policies d))"
    and "pv_change (new_version_row pid p t change source d) = Change_ROLLBACK
      \<longleftrightarrow> pv_source (new_version_row pid p t change source d) \<noteq> None"
proof -
  from assms obtain d1 where number: "p_version p = next_version (current_version pid (p_id p) d)"
    and conf: "(case current_version pid (p_id p) d of None \<Rightarrow> create_configuration pid p t d
      | Some n \<Rightarrow> replace_configuration pid p t n d) = Inr d1"
    and ver: "insert_version_row (new_version_row pid p t change source d) d1 = Inr d'"
    and get: "get_configuration pid (p_id p) d' = Inr (Some c)"
    by (auto simp: save_policy_steps)
  have placed: "placed pid p t d d1"
    using conf by (auto split: option.splits intro: create_placed replace_placed)
  have d': "d' = d1\<lparr>t_versions := t_versions d1 @ [new_version_row pid p t change source d]\<rparr>"
    and row: "version_row_ok d1 (new_version_row pid p t change source d)"
    using ver by (simp_all add: insert_version_row_def split: if_splits)
  show c: "c = enabled_configuration pid p t" and "policy_valid p"
    using get placed by (auto simp: d' get_configuration_def row_to_configuration_def bindE_Inr_iff placed_def
        enabled_configuration_def split: if_splits)
  show "p_version p = next_version (current_version pid (p_id p) d)" by (rule number)
  show "t_versions d' = t_versions d @ [new_version_row pid p t change source d]"
    using placed by (simp add: d' placed_def)
  show "current_policy d' q j = (if q = pid \<and> j = p_id p then Some p else current_policy d q j)" for q j
    using placed by (simp add: d' placed_def current_policy_def)
  show "set (t_policies d') \<subseteq> insert c (set (t_policies d))"
    using placed c by (simp add: d' placed_def)
  show "pv_change (new_version_row pid p t change source d) = Change_ROLLBACK
      \<longleftrightarrow> pv_source (new_version_row pid p t change source d) \<noteq> None"
    using row by (simp add: version_row_ok_def)
qed

lemma save_policy_policies_ok:
  assumes ok: "policies_ok d" and run: "save_policy pid p t change source d = Inr (c, d')"
    and source: "case source of None \<Rightarrow> True | Some n \<Rightarrow> 1 \<le> n"
  shows "policies_ok d'"
proof -
  note made = save_policy_done [OF run]
  let ?v = "new_version_row pid p t change source d"
  have v: "pv_project ?v = pid" "pv_policy ?v = p" by (simp_all add: new_version_row_def Let_def)
  have "histories_ok d'"
  proof (rule history_extended [OF _ made(4)])
    show "histories_ok d" using ok by (simp add: policies_ok_def)
    show "current_policy d' q j = (if q = pv_project ?v \<and> j = p_id (pv_policy ?v) then Some (pv_policy ?v)
        else current_policy d q j)" for q j
      using made(5) by (simp add: v)
    show "case current_policy d (pv_project ?v) (p_id (pv_policy ?v)) of None \<Rightarrow> 1 \<le> p_version (pv_policy ?v)
        | Some r \<Rightarrow> p_version (pv_policy ?v) = p_version r + 1"
      using made(2,3) by (simp add: v current_version_policy next_version_def policy_valid_def split: option.splits)
  qed
  moreover have "list_all (\<lambda>c. policy_valid (pp_policy c)) (t_policies d')"
    using made(1,2,6) ok by (auto simp: list_all_iff policies_ok_def enabled_configuration_def)
  moreover have "version_valid ?v"
    using made(2,7) source by (auto simp: version_valid_def v) (auto simp: new_version_row_def Let_def split: if_splits)
  ultimately show ?thesis using ok made(4) by (simp add: policies_ok_def)
qed

lemma insert_seed_policies_ok:
  assumes ok: "policies_ok d" and run: "insert_seed pid t p d = Inr d'" and "policy_valid p"
  shows "policies_ok d'"
proof (cases "list_ex (is_policy pid (p_id p)) (t_policies d)")
  case True
  with run ok show ?thesis by (simp add: insert_seed_def)
next
  case False
  let ?c = "enabled_configuration pid p t"
  let ?v = "\<lparr>pv_project = pid, pv_policy = p, pv_change = Change_CREATED, pv_source = None, pv_created_at = t\<rparr>"
  have none: "find_row (is_policy pid (p_id p)) (t_policies d) = None"
    using False by (auto simp: find_row_None list_ex_iff)
  have key: "pp_project ?c = pid" "pp_policy ?c = p" by (simp_all add: enabled_configuration_def)
  have d': "d' = d\<lparr>t_policies := t_policies d @ [?c], t_versions := t_versions d @ [?v]\<rparr>"
    using run False assms(3)
    by (auto simp: insert_seed_def bindE_Inr_iff insert_policy_row_def insert_version_def insert_version_row_def
        policy_valid_def split: if_splits)
  have "histories_ok d'"
  proof (rule history_extended [where v = ?v])
    show "histories_ok d" using ok by (simp add: policies_ok_def)
    show "t_versions d' = t_versions d @ [?v]" by (simp add: d')
    show "current_policy d' q j = (if q = pv_project ?v \<and> j = p_id (pv_policy ?v) then Some (pv_policy ?v)
        else current_policy d q j)" for q j
      using current_policy_snoc [of ?c "t_policies d" q j] none by (simp add: current_policy_def d' key)
    show "case current_policy d (pv_project ?v) (p_id (pv_policy ?v)) of None \<Rightarrow> 1 \<le> p_version (pv_policy ?v)
        | Some r \<Rightarrow> p_version (pv_policy ?v) = p_version r + 1"
      using none assms(3) by (simp add: current_policy_def policy_valid_def)
  qed
  then show ?thesis using ok assms(3) by (simp add: policies_ok_def d' key version_valid_def)
qed

lemma disable_configuration_policies_ok:
  assumes ok: "policies_ok d" and run: "disable_configuration pid i t d = Inr (c, d')"
  shows "policies_ok d'"
proof (cases "find_row (is_policy pid i) (t_policies d)")
  case None
  with run ok show ?thesis by (simp add: disable_configuration_def get_configuration_def)
next
  case (Some r)
  let ?f = "\<lambda>c. c\<lparr>pp_enabled := False, pp_updated_at := (if pp_enabled c then t else pp_updated_at c)\<rparr>"
  from run Some have "update_policies (is_policy pid i) ?f d = Inr d'"
    by (auto simp: disable_configuration_def get_configuration_def bindE_Inr_iff split: option.splits)
  then have d': "d' = d\<lparr>t_policies := update_rows (is_policy pid i) ?f (t_policies d)\<rparr>" by (simp add: update_policies_Inr)
  have "current_policy d' q j = current_policy d q j" for q j
  proof -
    have "find_row (is_policy q j) (update_rows (is_policy pid i) ?f (t_policies d)) =
        map_option (\<lambda>r. if is_policy pid i r then ?f r else r) (find_row (is_policy q j) (t_policies d))"
      by (rule update_rows_find) auto
    then show ?thesis by (cases "find_row (is_policy q j) (t_policies d)") (auto simp: current_policy_def d')
  qed
  then have "histories_ok d'" using ok by (intro histories_same [of d' d]) (simp_all add: d' policies_ok_def)
  moreover have "list_all (\<lambda>c. policy_valid (pp_policy c)) (t_policies d')"
    using ok by (auto simp: d' policies_ok_def list_all_iff set_update_rows)
  ultimately show ?thesis using ok by (simp add: policies_ok_def d')
qed

lemma version_row_positive:
  assumes "policies_ok d" and "version_row pid i n d = Some v"
  shows "1 \<le> n \<and> p_version (pv_policy v) = n \<and> version_valid v \<and> p_id (pv_policy v) = i"
proof -
  from find_row_Some [OF assms(2) [unfolded version_row_def]] assms(1) have "version_valid v" "p_version (pv_policy v) = n"
    "p_id (pv_policy v) = i"
    by (auto simp: policies_ok_def list_all_iff)
  then show ?thesis by (simp add: version_valid_def policy_valid_def)
qed

lemma rollback_steps:
  assumes "rollback_policy_version pid i n t d = Inr (c, d')"
  shows "\<exists>v m. version_row pid i n d = Some v \<and> current_version pid i d = Some m \<and> n \<noteq> m
    \<and> save_policy pid ((pv_policy v)\<lparr>p_version := m + 1\<rparr>) t Change_ROLLBACK (Some n) d = Inr (c, d')"
proof (cases "version_row pid i n d")
  case None
  with assms show ?thesis by (simp add: rollback_policy_version_def)
next
  case (Some v)
  then show ?thesis using assms
    by (cases "current_version pid i d")
      (auto simp: rollback_policy_version_def bindE_Inr_iff row_to_version_def split: if_splits)
qed

lemma rollback_policies_ok:
  assumes ok: "policies_ok d" and run: "rollback_policy_version pid i n t d = Inr (c, d')"
  shows "policies_ok d'"
proof -
  from rollback_steps [OF run] obtain v m where v: "version_row pid i n d = Some v"
    and save: "save_policy pid ((pv_policy v)\<lparr>p_version := m + 1\<rparr>) t Change_ROLLBACK (Some n) d = Inr (c, d')"
    by blast
  from save_policy_policies_ok [OF ok save] version_row_positive [OF ok v] show ?thesis by simp
qed

lemma transaction_policies_ok:
  assumes "transaction b d = (r, d')" and "policies_ok d"
    and "\<And>x d1. b d = Inr (x, d1) \<Longrightarrow> policies_ok d1"
  shows "policies_ok d'"
  using assms by (auto simp: transaction_def split: sum.splits)

lemma outbox_policies_ok:
  assumes "accepted outbox_tables d d'" and "policies_ok d"
  shows "policies_ok d'"
  by (rule policies_ok_untouched [OF assms(2)]) (simp_all add: accepted_frame [OF assms(1)])

lemma seed_policy_policies_ok:
  assumes "seed_policy X pid t ctx p d = Inr d'" and "policies_ok d" and "policy_valid p"
  shows "policies_ok d'"
proof -
  from assms(1) obtain d1 where seed: "insert_seed pid t p d = Inr d1"
    and rest: "d' = d1 \<or> (\<exists>created. audit_option X t pid ctx POLICY_CREATED R_POLICY (p_id p) None
      (map_option (configuration_json X) created) [(''source'', JStr ''template'')] d1 = Inr d')"
    by (auto simp: seed_policy_def bindE_Inr_iff split: if_splits)
  have "policies_ok d1" by (rule insert_seed_policies_ok [OF assms(2) seed assms(3)])
  with rest show ?thesis by (auto intro: outbox_policies_ok audit_option_accepted)
qed

lemma seed_policies_policies_ok:
  "foldE (seed_policy X pid t ctx) ps d = Inr d' \<Longrightarrow> policies_ok d \<Longrightarrow> list_all policy_valid ps \<Longrightarrow> policies_ok d'"
proof (induction ps arbitrary: d)
  case (Cons p ps)
  then obtain d1 where "seed_policy X pid t ctx p d = Inr d1" "foldE (seed_policy X pid t ctx) ps d1 = Inr d'"
    by (auto simp: bindE_Inr_iff)
  with Cons.IH [OF this(2)] Cons.prems show ?case by (auto intro: seed_policy_policies_ok)
qed simp

lemma save_project_policy_ok:
  assumes "save_project_policy X pid p t ctx d = (r, d')" and "policies_ok d"
  shows "policies_ok d'"
  using assms(1) unfolding save_project_policy_def
  by (rule transaction_policies_ok [OF _ assms(2)])
    (auto simp: bindE_Inr_iff intro: outbox_policies_ok audit_option_accepted save_policy_policies_ok [OF assms(2), where source = None, simplified])

lemma rollback_project_policy_ok:
  assumes "rollback_project_policy X pid i n t ctx d = (r, d')" and "policies_ok d"
  shows "policies_ok d'"
  using assms(1) unfolding rollback_project_policy_def
  by (rule transaction_policies_ok [OF _ assms(2)])
    (auto simp: bindE_Inr_iff intro: outbox_policies_ok audit_option_accepted rollback_policies_ok [OF assms(2)])

lemma disable_project_policy_ok:
  assumes "disable_project_policy X pid i t ctx d = (r, d')" and "policies_ok d"
  shows "policies_ok d'"
  using assms(1) unfolding disable_project_policy_def
  by (rule transaction_policies_ok [OF _ assms(2)])
    (auto simp: bindE_Inr_iff intro: outbox_policies_ok audit_disabled_accepted
      disable_configuration_policies_ok [OF assms(2)])

lemma seed_project_policies_ok:
  assumes "seed_project_policies X pid ps t ctx d = (r, d')" and "policies_ok d" and "list_all policy_valid ps"
  shows "policies_ok d'"
  using assms(1) unfolding seed_project_policies_def
  by (rule transaction_policies_ok [OF _ assms(2)])
    (auto simp: bindE_Inr_iff intro: seed_policies_policies_ok [OF _ assms(2,3)])

section \<open>When a save succeeds\<close>

lemma consecutive_no_next:
  assumes "consecutive current vs" and "v \<in> set vs"
  shows "p_version (pv_policy v) \<noteq> next_version (map_option p_version current)"
proof (cases current)
  case None
  with assms show ?thesis by (simp add: consecutive_def)
next
  case (Some p)
  with assms(1) have "map (\<lambda>v. p_version (pv_policy v)) vs = [p_version (pv_policy (hd vs))..p_version p]"
    by (simp add: consecutive_def)
  then have "(\<lambda>v. p_version (pv_policy v)) ` set vs = {p_version (pv_policy (hd vs))..p_version p}"
    by (metis list.set_map set_upto)
  with assms(2) have "p_version (pv_policy v) \<le> p_version p" by auto
  with Some show ?thesis by (simp add: next_version_def)
qed

lemma save_policy_total:
  assumes ok: "policies_ok d" "db_ok d" and project: "project_exists d pid" and valid: "policy_valid p"
    and number: "p_version p = next_version (current_version pid (p_id p) d)"
    and change: "change = Change_ROLLBACK \<longleftrightarrow> source \<noteq> None"
  shows "\<exists>d'. save_policy pid p t change source d = Inr (enabled_configuration pid p t, d')"
proof -
  have key: "pp_project (enabled_configuration pid p t) = pid" "pp_policy (enabled_configuration pid p t) = p"
    by (simp_all add: enabled_configuration_def)
  have "\<exists>d1. (case current_version pid (p_id p) d of None \<Rightarrow> create_configuration pid p t d
      | Some n \<Rightarrow> replace_configuration pid p t n d) = Inr d1 \<and> t_projects d1 = t_projects d"
  proof (cases "find_row (is_policy pid (p_id p)) (t_policies d)")
    case None
    then have "policy_row_ok d (enabled_configuration pid p t)"
      using project valid by (auto simp: policy_row_ok_def key policy_valid_def find_row_None list_all_iff)
    with None show ?thesis
      by (auto simp: current_version_def create_configuration_Inr insert_policy_row_def)
  next
    case (Some c)
    let ?P = "\<lambda>b. is_policy pid (p_id p) b \<and> p_version (pp_policy b) = p_version (pp_policy c)"
    have c: "c \<in> set (t_policies d)" "is_policy pid (p_id p) c" using find_row_Some [OF Some] by blast+
    have "filter ?P (t_policies d) = [c]"
      by (rule filter_unique [where k = "\<lambda>c. (pp_project c, p_id (pp_policy c))"])
        (use ok(2) c in \<open>auto simp: db_ok_def unique_by_def\<close>)
    then have "row_count ?P (t_policies d) = 1" by (simp add: row_count_def)
    with valid have "replace_configuration pid p t (p_version (pp_policy c)) d = Inr (d\<lparr>t_policies :=
        update_rows ?P (\<lambda>c. c\<lparr>pp_policy := p, pp_enabled := True, pp_updated_at := t\<rparr>) (t_policies d)\<rparr>)"
      by (simp add: replace_configuration_def Let_def update_policies_def update_table_def policy_valid_def list_all_iff)
    with Some show ?thesis by (simp add: current_version_def)
  qed
  then obtain d1 where conf: "(case current_version pid (p_id p) d of None \<Rightarrow> create_configuration pid p t d
      | Some n \<Rightarrow> replace_configuration pid p t n d) = Inr d1" and projects: "t_projects d1 = t_projects d" by blast
  have placed: "placed pid p t d d1" using conf by (auto split: option.splits intro: create_placed replace_placed)
  let ?v = "new_version_row pid p t change source d"
  have v: "pv_project ?v = pid" "pv_policy ?v = p" by (simp_all add: new_version_row_def Let_def)
  have "p_version (pv_policy w) \<noteq> p_version p" if "w \<in> set (t_versions d)" "is_version_of pid (p_id p) w" for w
    unfolding number current_version_policy
    by (rule consecutive_no_next [where vs = "versions_of d pid (p_id p)"])
      (use that ok(1) in \<open>simp_all add: policies_ok_def histories_ok_def history_ok_def versions_of_def\<close>)
  moreover have "pv_change ?v = Change_ROLLBACK \<longleftrightarrow> pv_source ?v \<noteq> None"
    using change by (simp add: new_version_row_def Let_def)
  ultimately have "version_row_ok d1 ?v"
    using placed project projects valid
    by (auto simp: version_row_ok_def v placed_def project_exists_def policy_valid_def list_all_iff)
  then have "insert_version_row ?v d1 = Inr (d1\<lparr>t_versions := t_versions d1 @ [?v]\<rparr>)" by (simp add: insert_version_row_def)
  moreover have "get_configuration pid (p_id p) (d1\<lparr>t_versions := t_versions d1 @ [?v]\<rparr>)
      = Inr (Some (enabled_configuration pid p t))"
    using placed valid by (simp add: get_configuration_def placed_def row_to_configuration_def key)
  ultimately show ?thesis using number conf by (auto simp: save_policy_steps)
qed

lemma save_policy_same:
  assumes "save_policy pid p t change source d = Inr (c, d')"
  obtains ps vs where "d' = d\<lparr>t_policies := ps, t_versions := vs\<rparr>"
proof -
  from assms obtain d1 where conf: "(case current_version pid (p_id p) d of None \<Rightarrow> create_configuration pid p t d
      | Some n \<Rightarrow> replace_configuration pid p t n d) = Inr d1"
    and ver: "insert_version_row (new_version_row pid p t change source d) d1 = Inr d'"
    by (auto simp: save_policy_steps)
  have "\<exists>ps. d1 = d\<lparr>t_policies := ps\<rparr>"
    using conf by (auto simp: create_configuration_Inr insert_policy_row_def replace_configuration_def Let_def
        bindE_Inr_iff update_policies_Inr split: option.splits if_splits)
  then show thesis using that ver by (auto simp: insert_version_row_def split: if_splits)
qed

section \<open>Outcomes\<close>

text \<open>After a save the audit event can be written, and it leaves the policies as the save did.\<close>

lemma saved_and_audited:
  assumes save: "save_policy pid p t change source d = Inr (c, d1)"
    and ok: "db_ok d" and fresh: "fresh_ids d" and project: "project_exists d pid"
    and rid: "resource_identifier X i = Inr rid"
  shows "\<exists>d2. audit_option X t pid ctx action R_POLICY i before after metadata d1 = Inr d2
    \<and> versions_of d2 pid (p_id p) = versions_of d pid (p_id p) @ [new_version_row pid p t change source d]
    \<and> (\<forall>q j. current_policy d2 q j = (if q = pid \<and> j = p_id p then Some p else current_policy d q j))"
proof -
  note made = save_policy_done [OF save]
  obtain ps vs where d1: "d1 = d\<lparr>t_policies := ps, t_versions := vs\<rparr>" using save_policy_same [OF save] .
  have same: "t_uuids d1 = t_uuids d" "known_ids d1 = known_ids d" and project1: "project_exists d1 pid"
    using project by (simp_all add: d1 known_ids_def project_exists_def)
  have "db_ok d1" using save_policy_accepted [OF save, of policy_tables] accepted_ok ok by blast
  moreover have "fresh_ids d1" by (rule fresh_same [OF fresh same])
  ultimately obtain d2 where audit: "audit_option X t pid ctx action R_POLICY i before after metadata d1 = Inr d2"
    using audit_option_total [OF _ _ project1 rid] by blast
  note kept = optional_audit.frame [OF audit]
  have "versions_of d2 pid (p_id p) = versions_of d pid (p_id p) @ [new_version_row pid p t change source d]"
    by (simp add: versions_of_def kept made(4)) (simp add: new_version_row_def Let_def)
  moreover have "current_policy d2 q j = (if q = pid \<and> j = p_id p then Some p else current_policy d q j)" for q j
    using made(5) by (simp add: current_policy_def kept)
  ultimately show ?thesis using audit by blast
qed

lemma get_configuration_policies:
  "policies_ok d \<Longrightarrow> get_configuration pid i d = Inr (find_row (is_policy pid i) (t_policies d))"
  by (rule get_configuration_ok) (simp add: policies_ok_def)

lemma save_project_policy_done:
  assumes ok: "policies_ok d" "db_ok d" and fresh: "fresh_ids d" and project: "project_exists d pid"
    and valid: "policy_valid p" and rid: "resource_identifier X (p_id p) = Inr rid"
  shows "if p_version p \<noteq> next_version (current_version pid (p_id p) d)
    then save_project_policy X pid p t ctx d
      = (Inl (PolicyVersionConflict (p_id p) (next_version (current_version pid (p_id p) d)) (p_version p)), d)
    else \<exists>d'. save_project_policy X pid p t ctx d = (Inr (enabled_configuration pid p t), d')
      \<and> (\<forall>q j. current_policy d' q j = (if q = pid \<and> j = p_id p then Some p else current_policy d q j))
      \<and> versions_of d' pid (p_id p) = versions_of d pid (p_id p) @ [new_version_row pid p t Change_UPDATED None d]"
proof (cases "p_version p = next_version (current_version pid (p_id p) d)")
  case False
  then show ?thesis
    by (simp add: save_project_policy_def transaction_def get_configuration_policies [OF ok(1)] save_policy_def Let_def)
next
  case True
  from save_policy_total [OF ok project valid True, of Change_UPDATED None t] obtain d1
    where save: "save_policy pid p t Change_UPDATED None d = Inr (enabled_configuration pid p t, d1)" by auto
  obtain d2 where audit: "audit_option X t pid ctx
      (if find_row (is_policy pid (p_id p)) (t_policies d) = None then POLICY_CREATED else POLICY_UPDATED)
      R_POLICY (p_id p) (map_option (configuration_json X) (find_row (is_policy pid (p_id p)) (t_policies d)))
      (Some (configuration_json X (enabled_configuration pid p t)))
      [(''new_version'', JInt (p_version (pp_policy (enabled_configuration pid p t)))),
       (''previous_version'', opt_json (\<lambda>c. JInt (p_version (pp_policy c)))
         (find_row (is_policy pid (p_id p)) (t_policies d)))] d1 = Inr d2"
    and effect: "versions_of d2 pid (p_id p) = versions_of d pid (p_id p) @ [new_version_row pid p t Change_UPDATED None d]"
      "\<forall>q j. current_policy d2 q j = (if q = pid \<and> j = p_id p then Some p else current_policy d q j)"
    using saved_and_audited [OF save ok(2) fresh project rid] by blast
  have "save_project_policy X pid p t ctx d = (Inr (enabled_configuration pid p t), d2)"
    by (simp add: save_project_policy_def transaction_def get_configuration_policies [OF ok(1)] save audit)
  with effect True show ?thesis by simp
qed

lemma version_row_current:
  assumes "policies_ok d" and "version_row pid i n d = Some v"
  shows "\<exists>m. current_version pid i d = Some m"
proof -
  have "v \<in> set (versions_of d pid i)"
    using find_row_Some [OF assms(2) [unfolded version_row_def]] by (simp add: versions_of_def)
  moreover have "consecutive (current_policy d pid i) (versions_of d pid i)"
    using assms(1) by (simp add: policies_ok_def histories_ok_def history_ok_def)
  ultimately show ?thesis by (auto simp: consecutive_def current_version_policy split: option.splits)
qed

lemma rollback_project_policy_done:
  assumes ok: "policies_ok d" "db_ok d" and fresh: "fresh_ids d" and project: "project_exists d pid"
    and rid: "resource_identifier X i = Inr rid"
  shows "case version_row pid i n d of
      None \<Rightarrow> rollback_project_policy X pid i n t ctx d = (Inl (PolicyVersionNotFound i n), d)
    | Some v \<Rightarrow> if current_version pid i d = Some n
        then rollback_project_policy X pid i n t ctx d = (Inl (PolicyVersionAlreadyCurrent i n), d)
        else \<exists>d' p. p = (pv_policy v)\<lparr>p_version := next_version (current_version pid i d)\<rparr>
          \<and> rollback_project_policy X pid i n t ctx d = (Inr (enabled_configuration pid p t), d')
          \<and> (\<forall>q j. current_policy d' q j = (if q = pid \<and> j = i then Some p else current_policy d q j))
          \<and> versions_of d' pid i = versions_of d pid i
              @ [\<lparr>pv_project = pid, pv_policy = p, pv_change = Change_ROLLBACK, pv_source = Some n, pv_created_at = t\<rparr>]"
proof (cases "version_row pid i n d")
  case None
  then show ?thesis
    by (simp add: rollback_project_policy_def transaction_def get_configuration_policies [OF ok(1)]
        rollback_policy_version_def)
next
  case (Some v)
  note v = version_row_positive [OF ok(1) Some]
  obtain m where m: "current_version pid i d = Some m" using version_row_current [OF ok(1) Some] by blast
  show ?thesis
  proof (cases "n = m")
    case True
    with Some m show ?thesis
      by (simp add: rollback_project_policy_def transaction_def get_configuration_policies [OF ok(1)]
          rollback_policy_version_def)
  next
    case False
    let ?p = "(pv_policy v)\<lparr>p_version := m + 1\<rparr>"
    have p: "p_id ?p = i" "p_version ?p = next_version (current_version pid (p_id ?p) d)"
      using v m by (simp_all add: next_version_def)
    have "0 \<le> m"
    proof -
      from m ok(1) obtain c where "c \<in> set (t_policies d)" "m = p_version (pp_policy c)"
        by (auto simp: current_version_def dest: find_row_Some)
      with ok(1) show ?thesis by (auto simp: policies_ok_def list_all_iff policy_valid_def)
    qed
    with v have valid: "policy_valid ?p" by (simp add: policy_valid_def version_valid_def)
    from save_policy_total [OF ok project valid p(2), of Change_ROLLBACK "Some n" t] obtain d1
      where save: "save_policy pid ?p t Change_ROLLBACK (Some n) d = Inr (enabled_configuration pid ?p t, d1)" by auto
    have row: "new_version_row pid ?p t Change_ROLLBACK (Some n) d = \<lparr>pv_project = pid, pv_policy = ?p,
        pv_change = Change_ROLLBACK, pv_source = Some n, pv_created_at = t\<rparr>"
      using m v by (auto simp: new_version_row_def current_version_policy)
    obtain d2 where audit: "audit_option X t pid ctx POLICY_ROLLED_BACK R_POLICY i
        (map_option (configuration_json X) (find_row (is_policy pid i) (t_policies d)))
        (Some (configuration_json X (enabled_configuration pid ?p t)))
        [(''source_version'', JInt n), (''new_version'', JInt (p_version (pp_policy (enabled_configuration pid ?p t))))] d1
        = Inr d2"
      and effect: "versions_of d2 pid i = versions_of d pid i @ [\<lparr>pv_project = pid, pv_policy = ?p,
          pv_change = Change_ROLLBACK, pv_source = Some n, pv_created_at = t\<rparr>]"
        "\<forall>q j. current_policy d2 q j = (if q = pid \<and> j = i then Some ?p else current_policy d q j)"
      using saved_and_audited [OF save ok(2) fresh project rid, unfolded row p(1)] by blast
    have "rollback_project_policy X pid i n t ctx d = (Inr (enabled_configuration pid ?p t), d2)"
      using Some m False v save audit
      by (simp add: rollback_project_policy_def transaction_def get_configuration_policies [OF ok(1)]
          rollback_policy_version_def row_to_version_def)
    with effect m Some False show ?thesis by (auto simp: next_version_def)
  qed
qed

lemma sort_key_map: "(\<And>x. k (f x) = k x) \<Longrightarrow> sort_key k (map f xs) = map f (sort_key k xs)"
proof -
  assume keep: "\<And>x. k (f x) = k x"
  have "insort_key k (f x) (map f ys) = map f (insort_key k x ys)" for x ys
    by (induction ys) (auto simp: keep)
  then show ?thesis by (induction xs) simp_all
qed

lemma list_active_ok:
  assumes "policies_ok d"
  shows "list_active pid d = Inr (map pp_policy (filter pp_enabled
    (sort_key (\<lambda>c. p_id (pp_policy c)) (filter (\<lambda>c. pp_project c = pid) (t_policies d)))))"
proof -
  have "list_configurations pid d =
      Inr (map (\<lambda>c. c) (sort_key (\<lambda>c. p_id (pp_policy c)) (filter (\<lambda>c. pp_project c = pid) (t_policies d))))"
    unfolding list_configurations_def
    by (rule mapE_all_Inr) (use assms in \<open>auto simp: row_to_configuration_def policies_ok_def list_all_iff\<close>)
  then show ?thesis by (simp add: list_active_def)
qed

lemma disabled_active:
  assumes "policies_ok d"
    and d': "t_policies d' = update_rows (is_policy pid i)
      (\<lambda>c. c\<lparr>pp_enabled := False, pp_updated_at := (if pp_enabled c then t else pp_updated_at c)\<rparr>) (t_policies d)"
    and "policies_ok d'" and active: "list_active q d = Inr ps"
  shows "list_active q d' = Inr (if q = pid then filter (\<lambda>p. p_id p \<noteq> i) ps else ps)"
proof -
  let ?f = "\<lambda>c. if is_policy pid i c then c\<lparr>pp_enabled := False, pp_updated_at := (if pp_enabled c then t else pp_updated_at c)\<rparr> else c"
  let ?cs = "sort_key (\<lambda>c. p_id (pp_policy c)) (filter (\<lambda>c. pp_project c = q) (t_policies d))"
  have "filter (\<lambda>c. pp_project c = q) (t_policies d') = map ?f (filter (\<lambda>c. pp_project c = q) (t_policies d))"
    unfolding d' update_rows_def by (induction "t_policies d" rule: list.induct) (auto simp: filter_map comp_def intro!: map_cong filter_cong)
  then have "sort_key (\<lambda>c. p_id (pp_policy c)) (filter (\<lambda>c. pp_project c = q) (t_policies d')) = map ?f ?cs"
    by (simp add: sort_key_map)
  moreover have "map pp_policy (filter pp_enabled (map ?f cs)) =
      (if q = pid then filter (\<lambda>p. p_id p \<noteq> i) (map pp_policy (filter pp_enabled cs)) else map pp_policy (filter pp_enabled cs))"
    if "\<forall>c \<in> set cs. pp_project c = q" for cs
    using that by (induction cs) auto
  from this [of ?cs] have "map pp_policy (filter pp_enabled (map ?f ?cs)) =
      (if q = pid then filter (\<lambda>p. p_id p \<noteq> i) (map pp_policy (filter pp_enabled ?cs)) else map pp_policy (filter pp_enabled ?cs))"
    by simp
  moreover have "ps = map pp_policy (filter pp_enabled ?cs)" using active list_active_ok [OF assms(1), of q] by simp
  ultimately show ?thesis using list_active_ok [OF assms(3), of q] by simp
qed

lemma disable_project_policy_done:
  assumes ok: "policies_ok d" "db_ok d" and fresh: "fresh_ids d" and project: "project_exists d pid"
    and rid: "resource_identifier X i = Inr rid" and row: "find_row (is_policy pid i) (t_policies d) = Some c"
  shows "\<exists>d'. disable_project_policy X pid i t ctx d =
      (Inr (Some (c\<lparr>pp_enabled := False, pp_updated_at := (if pp_enabled c then t else pp_updated_at c)\<rparr>)), d')
    \<and> t_versions d' = t_versions d
    \<and> (\<forall>q ps. list_active q d = Inr ps \<longrightarrow>
         list_active q d' = Inr (if q = pid then filter (\<lambda>p. p_id p \<noteq> i) ps else ps))"
proof -
  let ?f = "\<lambda>c. c\<lparr>pp_enabled := False, pp_updated_at := (if pp_enabled c then t else pp_updated_at c)\<rparr>"
  let ?d1 = "d\<lparr>t_policies := update_rows (is_policy pid i) ?f (t_policies d)\<rparr>"
  have valid: "\<forall>c \<in> set (t_policies d). policy_valid (pp_policy c)" using ok(1) by (simp add: policies_ok_def list_all_iff)
  then have upd: "update_policies (is_policy pid i) ?f d = Inr ?d1"
    by (auto simp: update_policies_Inr policy_valid_def)
  have "find_row (is_policy pid i) (update_rows (is_policy pid i) ?f (t_policies d)) =
      map_option (\<lambda>r. if is_policy pid i r then ?f r else r) (find_row (is_policy pid i) (t_policies d))"
    by (rule update_rows_find) auto
  then have found: "find_row (is_policy pid i) (t_policies ?d1) = Some (?f c)"
    using row find_row_Some [OF row] by simp
  have get1: "get_configuration pid i ?d1 = Inr (Some (?f c))"
    using found find_row_Some [OF row] valid by (simp add: get_configuration_def row_to_configuration_def)
  have disabled: "disable_configuration pid i t d = Inr (Some (?f c), ?d1)"
    using row upd get1 by (simp add: disable_configuration_def get_configuration_policies [OF ok(1)])
  have ok1: "policies_ok ?d1" by (rule disable_configuration_policies_ok [OF ok(1) disabled])
  have "db_ok ?d1" using disable_configuration_accepted [OF disabled, of policy_tables] accepted_ok ok(2) by blast
  moreover have "fresh_ids ?d1" by (rule fresh_same [OF fresh]) (simp_all add: known_ids_def)
  moreover have "project_exists ?d1 pid" using project by (simp add: project_exists_def)
  ultimately have "\<exists>d2. audit_option X t pid ctx POLICY_DISABLED R_POLICY i (map_option (configuration_json X) (Some c))
      (map_option (configuration_json X) (Some (?f c))) [] ?d1 = Inr d2"
    using audit_option_total [OF _ _ _ rid] by blast
  then obtain d2 where audit: "audit_disabled X pid i t ctx (Some c) (Some (?f c)) ?d1 = Inr d2"
    unfolding audit_disabled_def by (cases "pp_enabled c") auto
  have "accepted outbox_tables ?d1 d2" by (rule audit_disabled_accepted [OF audit]) simp
  note kept = accepted_frame [OF this]
  have policies: "t_policies d2 = update_rows (is_policy pid i) ?f (t_policies d)" and "t_versions d2 = t_versions d"
    using kept by simp_all
  have "policies_ok d2" by (rule policies_ok_untouched [OF ok1]) (use kept in simp_all)
  then have "list_active q d2 = Inr (if q = pid then filter (\<lambda>p. p_id p \<noteq> i) ps else ps)"
    if "list_active q d = Inr ps" for q ps
    by (rule disabled_active [OF ok(1) policies _ that])
  moreover have "disable_project_policy X pid i t ctx d = (Inr (Some (?f c)), d2)"
    by (simp add: disable_project_policy_def transaction_def get_configuration_policies [OF ok(1)] row disabled audit)
  ultimately show ?thesis using \<open>t_versions d2 = t_versions d\<close> by blast
qed

section \<open>A sample project with a policy\<close>

definition sample_policy :: "int \<Rightarrow> policy" where
  "sample_policy n = \<lparr>p_id = ''transfers'', p_version = n, p_action = ''transfer'', p_match = Match_all,
     p_conditions = [\<lparr>pc_field = ''amount'', pc_operator = Greater_than, pc_value = JInt 500\<rparr>],
     p_decision = REQUIRE_APPROVAL, p_reason = ''Large transfer.''\<rparr>"

definition policy_db :: db where
  "policy_db = sample_db\<lparr>t_policies := [enabled_configuration 2 (sample_policy 2) 5],
     t_versions := [\<lparr>pv_project = 2, pv_policy = sample_policy 1, pv_change = Change_CREATED, pv_source = None,
         pv_created_at = 4\<rparr>,
       \<lparr>pv_project = 2, pv_policy = sample_policy 2, pv_change = Change_UPDATED, pv_source = None,
         pv_created_at = 5\<rparr>]\<rparr>"

lemma sample_policy_simps [simp]:
  "p_id (sample_policy n) = ''transfers''" "p_version (sample_policy n) = n"
  "policy_valid (sample_policy n) \<longleftrightarrow> 1 \<le> n" "p_version_update (\<lambda>_. m) (sample_policy n) = sample_policy m"
  by (simp_all add: sample_policy_def policy_valid_def)

lemma sample_resource [simp]: "resource_identifier sample_externals ''transfers'' = Inr ''transfers''"
  by (simp add: resource_identifier_def sample_externals_def text_length_def)

lemma policy_db_ok [simp]: "db_ok policy_db" "fresh_ids policy_db" "project_exists policy_db 2"
  by (auto simp: db_ok_def references_ok_def refers_def policy_db_def sample_db_def empty_db_def unique_by_def sample_subscription_def
      subscription_check_def fresh_ids_def known_ids_def sample_project_def project_exists_def inj_on_def enabled_configuration_def)

lemma policy_db_policies_ok [simp]: "policies_ok policy_db"
proof -
  have "history_ok policy_db pid i" for pid i
  proof (cases "pid = 2 \<and> i = ''transfers''")
    case True
    have "[1..2] = [1, 2 :: int]" by (simp add: upto.simps)
    with True show ?thesis
      by (simp add: history_ok_def consecutive_def current_policy_def versions_of_def policy_db_def row_simps
          enabled_configuration_def)
  next
    case False
    then show ?thesis
      by (auto simp: history_ok_def consecutive_def current_policy_def versions_of_def policy_db_def row_simps
          enabled_configuration_def)
  qed
  then show ?thesis
    by (simp add: policies_ok_def histories_ok_def policy_db_def enabled_configuration_def version_valid_def)
qed

section \<open>Properties\<close>

text \<open>
  Saving a policy. Unless its version is the next one of the policy (1 for a new one) the save is
  a version conflict that names the expected version and changes nothing. Otherwise the policy is the
  one in force, every other policy is as it was, and its history has one more version, CREATED for a
  new policy and UPDATED for an existing one.
\<close>

theorem policy_save_outcome:
  assumes "policies_ok d" and "db_ok d" and "fresh_ids d" and "project_exists d pid"
    and "policy_valid p" and "resource_identifier X (p_id p) = Inr rid"
  shows "if p_version p \<noteq> next_version (current_version pid (p_id p) d)
    then save_project_policy X pid p t ctx d
      = (Inl (PolicyVersionConflict (p_id p) (next_version (current_version pid (p_id p) d)) (p_version p)), d)
    else \<exists>d'. save_project_policy X pid p t ctx d = (Inr (enabled_configuration pid p t), d')
      \<and> (\<forall>q j. current_policy d' q j = (if q = pid \<and> j = p_id p then Some p else current_policy d q j))
      \<and> versions_of d' pid (p_id p) = versions_of d pid (p_id p) @ [new_version_row pid p t Change_UPDATED None d]"
  by (rule save_project_policy_done [OF assms])

theorem policy_save_outcome_witness:
  "save_project_policy sample_externals 2 (sample_policy 5) 9 (Some sample_context) policy_db
      = (Inl (PolicyVersionConflict ''transfers'' 3 5), policy_db)
   \<and> (\<exists>d'. save_project_policy sample_externals 2 (sample_policy 3) 9 (Some sample_context) policy_db
      = (Inr (enabled_configuration 2 (sample_policy 3) 9), d')
    \<and> current_policy d' 2 ''transfers'' = Some (sample_policy 3))"
proof -
  have now: "current_version 2 ''transfers'' policy_db = Some 2"
    by (simp add: current_version_def policy_db_def row_simps enabled_configuration_def)
  note save = policy_save_outcome [OF policy_db_policies_ok policy_db_ok, of "sample_policy n" sample_externals "''transfers''" for n]
  show ?thesis using save [of 5 9 "Some sample_context"] save [of 3 9 "Some sample_context"]
    by (auto simp: now next_version_def)
qed

text \<open>
  Rolling a policy back, on every branch. A version that does not exist is not found, the current
  one is already current. Any other version comes into force again under the next version number; the
  history keeps every earlier version and records which one was restored.
\<close>

theorem policy_rollback_outcome:
  assumes "policies_ok d" and "db_ok d" and "fresh_ids d" and "project_exists d pid"
    and "resource_identifier X i = Inr rid"
  shows "case version_row pid i n d of
      None \<Rightarrow> rollback_project_policy X pid i n t ctx d = (Inl (PolicyVersionNotFound i n), d)
    | Some v \<Rightarrow> if current_version pid i d = Some n
        then rollback_project_policy X pid i n t ctx d = (Inl (PolicyVersionAlreadyCurrent i n), d)
        else \<exists>d' p. p = (pv_policy v)\<lparr>p_version := next_version (current_version pid i d)\<rparr>
          \<and> rollback_project_policy X pid i n t ctx d = (Inr (enabled_configuration pid p t), d')
          \<and> (\<forall>q j. current_policy d' q j = (if q = pid \<and> j = i then Some p else current_policy d q j))
          \<and> versions_of d' pid i = versions_of d pid i
              @ [\<lparr>pv_project = pid, pv_policy = p, pv_change = Change_ROLLBACK, pv_source = Some n, pv_created_at = t\<rparr>]"
  by (rule rollback_project_policy_done [OF assms])

theorem policy_rollback_outcome_witness:
  "rollback_project_policy sample_externals 2 ''transfers'' 7 9 None policy_db
      = (Inl (PolicyVersionNotFound ''transfers'' 7), policy_db)
   \<and> rollback_project_policy sample_externals 2 ''transfers'' 2 9 None policy_db
      = (Inl (PolicyVersionAlreadyCurrent ''transfers'' 2), policy_db)
   \<and> (\<exists>d'. rollback_project_policy sample_externals 2 ''transfers'' 1 9 None policy_db
      = (Inr (enabled_configuration 2 (sample_policy 3) 9), d'))"
proof -
  have now: "current_version 2 ''transfers'' policy_db = Some 2"
    by (simp add: current_version_def policy_db_def row_simps enabled_configuration_def)
  have rows: "version_row 2 ''transfers'' 7 policy_db = None"
    "\<exists>v. version_row 2 ''transfers'' 2 policy_db = Some v"
    "\<exists>v. version_row 2 ''transfers'' 1 policy_db = Some v \<and> pv_policy v = sample_policy 1"
    by (simp_all add: version_row_def policy_db_def row_simps)
  note roll = policy_rollback_outcome [OF policy_db_policies_ok policy_db_ok sample_resource, of n 9 None for n]
  show ?thesis using roll [of 7] roll [of 2] roll [of 1] rows by (auto simp: now next_version_def)
qed

text \<open>
  C14: Every operation on policies keeps the histories: the versions of a policy are consecutive numbers
  that end with the current one, the last of them is the policy in force, and every row is valid.
\<close>

theorem policy_histories_kept:
  assumes "policies_ok d" and "list_all policy_valid ps"
  shows "policies_ok (snd (seed_project_policies X pid ps t ctx d))
    \<and> policies_ok (snd (save_project_policy X pid p t ctx d))
    \<and> policies_ok (snd (rollback_project_policy X pid i n t ctx d))
    \<and> policies_ok (snd (disable_project_policy X pid i t ctx d))"
  using seed_project_policies_ok [OF prod.collapse [symmetric] assms]
    save_project_policy_ok [OF prod.collapse [symmetric] assms(1)]
    rollback_project_policy_ok [OF prod.collapse [symmetric] assms(1)]
    disable_project_policy_ok [OF prod.collapse [symmetric] assms(1)]
  by blast

theorem policy_histories_kept_witness:
  "policies_ok (snd (seed_project_policies sample_externals 2 [sample_policy 4] 9 None policy_db))"
  using policy_histories_kept [OF policy_db_policies_ok, of "[sample_policy 4]"] by simp

text \<open>
  Disabling a policy takes exactly it out of the active policies of its project, leaves the active
  policies of every other project alone and keeps the whole history.
\<close>

theorem policy_disable_outcome:
  assumes "policies_ok d" and "db_ok d" and "fresh_ids d" and "project_exists d pid"
    and "resource_identifier X i = Inr rid" and "find_row (is_policy pid i) (t_policies d) = Some c"
  shows "\<exists>d'. disable_project_policy X pid i t ctx d =
      (Inr (Some (c\<lparr>pp_enabled := False, pp_updated_at := (if pp_enabled c then t else pp_updated_at c)\<rparr>)), d')
    \<and> t_versions d' = t_versions d
    \<and> (\<forall>q ps. list_active q d = Inr ps \<longrightarrow>
         list_active q d' = Inr (if q = pid then filter (\<lambda>p. p_id p \<noteq> i) ps else ps))"
  by (rule disable_project_policy_done [OF assms])

theorem policy_disable_outcome_witness:
  "list_active 2 policy_db = Inr [sample_policy 2]
   \<and> (\<exists>d'. disable_project_policy sample_externals 2 ''transfers'' 9 (Some sample_context) policy_db
      = (Inr (Some ((enabled_configuration 2 (sample_policy 2) 5)\<lparr>pp_enabled := False, pp_updated_at := 9\<rparr>)), d')
    \<and> list_active 2 d' = Inr [])"
proof -
  have row: "find_row (is_policy 2 ''transfers'') (t_policies policy_db) = Some (enabled_configuration 2 (sample_policy 2) 5)"
    by (simp add: policy_db_def row_simps enabled_configuration_def)
  have now: "list_active 2 policy_db = Inr [sample_policy 2]"
    by (subst list_active_ok [OF policy_db_policies_ok]) (simp add: policy_db_def enabled_configuration_def)
  have "pp_enabled (enabled_configuration 2 (sample_policy 2) 5)" by (simp add: enabled_configuration_def)
  with policy_disable_outcome [OF policy_db_policies_ok policy_db_ok sample_resource row, of 9 "Some sample_context"] now
  show ?thesis by auto
qed

text \<open>
  The model of a policy bounds neither end of its identifier, the audit event does: an audited save
  of a valid policy with the right version, whose identifier the event refuses, ends in an unhandled
  ValidationError and stores nothing.
\<close>

theorem unbounded_policy_id_rejected:
  assumes ok: "policies_ok d" "db_ok d" and project: "project_exists d pid" and valid: "policy_valid p"
    and number: "p_version p = next_version (current_version pid (p_id p) d)"
    and refused: "resource_identifier X (p_id p) = Inl e"
  shows "save_project_policy X pid p t (Some ctx) d = (Inl ValidationError, d)"
proof -
  have e: "e = ValidationError" using refused by (auto simp: resource_identifier_def Let_def split: if_splits)
  from save_policy_total [OF ok project valid number, of Change_UPDATED None t] obtain d1
    where "save_policy pid p t Change_UPDATED None d = Inr (enabled_configuration pid p t, d1)" by auto
  moreover have "audit_option X t pid (Some ctx) action rtype (p_id p) before after metadata d1 = Inl ValidationError"
    for action rtype before after metadata
    using refused e by (simp add: audit_option_def audit_change_def build_audit_event_def split: prod.split)
  ultimately show ?thesis
    by (simp add: save_project_policy_def transaction_def get_configuration_policies [OF ok(1)])
qed

theorem unbounded_policy_id_rejected_witness:
  "save_project_policy sample_externals 2 ((sample_policy 1)\<lparr>p_id := []\<rparr>) 9 (Some sample_context) policy_db
    = (Inl ValidationError, policy_db)"
proof -
  have "policy_valid ((sample_policy 1)\<lparr>p_id := []\<rparr>)" by (simp add: policy_valid_def sample_policy_def)
  moreover have "p_version ((sample_policy 1)\<lparr>p_id := []\<rparr>)
      = next_version (current_version 2 (p_id ((sample_policy 1)\<lparr>p_id := []\<rparr>)) policy_db)"
    by (simp add: next_version_def current_version_def policy_db_def row_simps enabled_configuration_def)
  moreover have "resource_identifier sample_externals (p_id ((sample_policy 1)\<lparr>p_id := []\<rparr>)) = Inl ValidationError"
    by (simp add: resource_identifier_def sample_externals_def text_length_def)
  ultimately show ?thesis
    by (rule unbounded_policy_id_rejected [OF policy_db_policies_ok policy_db_ok(1,3)])
qed

end
