(* ===== verification/Projects_Admin.thy ===== *)
theory Projects_Admin
  imports Policies Api_Keys
begin

text \<open>
  Projects: \<open>app/storage/projects.py\<close>, the project and key operations of
  \<open>app/evidence_store.py\<close> and \<open>app/services/projects.py\<close>. The properties compose the
  theories of policies and of API keys: a created project has its templates in force and a key that
  authenticates, a revoked key never authenticates again, and the keys of a disabled project do not
  while it is disabled.
\<close>

section \<open>The repository\<close>

text \<open>
  A project row was validated when its record was built and the validators of \<open>Project\<close> are
  idempotent, so reading a row gives the record back.
\<close>

definition get_project :: "uuid \<Rightarrow> db \<Rightarrow> project option" where
  "get_project pid d = find_row (\<lambda>p. pr_id p = pid) (t_projects d)"

abbreviation status_is :: "project_status option \<Rightarrow> project \<Rightarrow> bool" where
  "status_is status p \<equiv> (case status of None \<Rightarrow> True | Some s \<Rightarrow> pr_status p = s)"

definition list_projects :: "project_status option \<Rightarrow> nat \<Rightarrow> nat \<Rightarrow> db \<Rightarrow> project list" where
  "list_projects status limit offset d =
     page limit offset (sort_desc (\<lambda>p. (pr_created_at p, pr_id p)) (filter (status_is status) (t_projects d)))"

definition count_projects :: "project_status option \<Rightarrow> db \<Rightarrow> nat" where
  "count_projects status d = row_count (status_is status) (t_projects d)"

definition with_status :: "project_status \<Rightarrow> instant \<Rightarrow> project \<Rightarrow> project" where
  "with_status status t p =
     p\<lparr>pr_updated_at := (if pr_status p \<noteq> status then t else pr_updated_at p), pr_status := status\<rparr>"

definition update_status :: "uuid \<Rightarrow> project_status \<Rightarrow> instant \<Rightarrow> project option block" where
  "update_status pid status updated_at d =
     (let d1 = d\<lparr>t_projects := update_rows (\<lambda>p. pr_id p = pid) (with_status status updated_at) (t_projects d)\<rparr>
      in Inr (get_project pid d1, d1))"

section \<open>Store operations\<close>

definition audit_status_change ::
  "externals \<Rightarrow> uuid \<Rightarrow> instant \<Rightarrow> audit_context option \<Rightarrow> project option \<Rightarrow> project option \<Rightarrow> db \<Rightarrow> exn + db" where
  "audit_status_change X pid t ctx previous updated d =
     (case (previous, updated) of
        (Some p, Some q) \<Rightarrow>
          if pr_status p \<noteq> pr_status q
          then audit_option X t pid ctx PROJECT_STATUS_CHANGED R_PROJECT (uuid_text pid)
            (Some (project_json X p)) (Some (project_json X q)) [] d
          else Inr d
      | _ \<Rightarrow> Inr d)"

definition update_project_status ::
  "externals \<Rightarrow> uuid \<Rightarrow> project_status \<Rightarrow> instant \<Rightarrow> audit_context option \<Rightarrow> project option operation" where
  "update_project_status X pid status updated_at ctx = transaction (\<lambda>d.
     bindE (update_status pid status updated_at d) (\<lambda>(updated, d1).
     bindE (audit_status_change X pid updated_at ctx (get_project pid d) updated d1) (\<lambda>d2.
       Inr (updated, d2))))"

definition audit_key_created :: "externals \<Rightarrow> audit_context option \<Rightarrow> api_key \<Rightarrow> db \<Rightarrow> exn + db" where
  "audit_key_created X ctx k =
     audit_option X (ak_created_at k) (ak_project k) ctx API_KEY_CREATED R_API_KEY (uuid_text (ak_id k))
       None (Some (api_key_metadata_json X (metadata_of k))) []"

definition audit_template :: "externals \<Rightarrow> project \<Rightarrow> audit_context option \<Rightarrow> policy \<Rightarrow> db \<Rightarrow> exn + db" where
  "audit_template X p ctx policy =
     audit_option X (pr_created_at p) (pr_id p) ctx POLICY_CREATED R_POLICY (p_id policy)
       None (Some (configuration_json X (enabled_configuration (pr_id p) policy (pr_created_at p))))
       [(''source'', JStr ''template'')]"

definition save_project_with_api_key ::
  "externals \<Rightarrow> project \<Rightarrow> api_key \<Rightarrow> policy list \<Rightarrow> audit_context option \<Rightarrow> unit operation" where
  "save_project_with_api_key X p k policies ctx =
     (if ak_project k \<noteq> pr_id p then raising (ValueError ''API key project_id must match project project_id.'')
      else transaction (\<lambda>d.
        bindE (insert_project p d) (\<lambda>d1.
        bindE (insert_api_key k d1) (\<lambda>d2.
        bindE (foldE (insert_seed (pr_id p) (pr_created_at p)) policies d2) (\<lambda>d3.
        bindE (audit_option X (pr_created_at p) (pr_id p) ctx PROJECT_CREATED R_PROJECT (uuid_text (pr_id p))
            None (Some (project_json X p)) [(''seeded_policy_count'', JInt (int (length policies)))] d3) (\<lambda>d4.
        bindE (audit_key_created X ctx k d4) (\<lambda>d5.
        bindE (foldE (audit_template X p ctx) policies d5) (\<lambda>d6.
          Inr ((), d6)))))))))"

definition save_project_api_key :: "externals \<Rightarrow> api_key \<Rightarrow> audit_context option \<Rightarrow> unit operation" where
  "save_project_api_key X k ctx = transaction (\<lambda>d.
     bindE (insert_api_key k d) (\<lambda>d1.
     bindE (audit_key_created X ctx k d1) (\<lambda>d2. Inr ((), d2))))"

definition audit_revocation ::
  "externals \<Rightarrow> uuid \<Rightarrow> uuid \<Rightarrow> instant \<Rightarrow> audit_context option \<Rightarrow> api_key_metadata option
    \<Rightarrow> api_key_metadata option \<Rightarrow> db \<Rightarrow> exn + db" where
  "audit_revocation X pid kid t ctx previous revoked d =
     (case (previous, revoked) of
        (Some k, Some r) \<Rightarrow>
          if km_revoked_at k = None
          then audit_option X t pid ctx API_KEY_REVOKED R_API_KEY (uuid_text kid)
            (Some (api_key_metadata_json X k)) (Some (api_key_metadata_json X r)) [] d
          else Inr d
      | _ \<Rightarrow> Inr d)"

definition revoke_project_api_key ::
  "externals \<Rightarrow> uuid \<Rightarrow> uuid \<Rightarrow> instant \<Rightarrow> audit_context option \<Rightarrow> api_key_metadata option operation" where
  "revoke_project_api_key X pid kid revoked_at ctx = transaction (\<lambda>d.
     bindE (revoke_key pid kid revoked_at d) (\<lambda>(revoked, d1).
     bindE (audit_revocation X pid kid revoked_at ctx (get_key_metadata pid kid d) revoked d1) (\<lambda>d2.
       Inr (revoked, d2))))"

section \<open>Services\<close>

text \<open>
  \<open>uuid4()\<close> outside a transaction. The random parts of a key (selector, secret, salt) and the
  current time are arguments.
\<close>

definition new_uuid :: "uuid operation" where
  "new_uuid d = (case uuid4 d of (u, d') \<Rightarrow> (Inr u, d'))"

definition DEFAULT_PROJECT_ID :: uuid where
  "DEFAULT_PROJECT_ID = 1"

definition get_project_or_404 :: "uuid \<Rightarrow> project operation" where
  "get_project_or_404 pid d =
     (case get_project pid d of
        None \<Rightarrow> (Inl (http_error 404 ''project_not_found'' []), d)
      | Some p \<Rightarrow> (Inr p, d))"

text \<open>\<open>ProjectApiKeyRecord(...)\<close> of a new key: its selector and verifier may refuse.\<close>

definition new_key_record ::
  "externals \<Rightarrow> uuid \<Rightarrow> uuid \<Rightarrow> api_key_role \<Rightarrow> instant \<Rightarrow> string \<Rightarrow> string \<Rightarrow> exn + api_key" where
  "new_key_record X kid pid role created_at key salt =
     bindE (get_api_key_prefix key) (\<lambda>prefix.
     bindE (hash_api_key X salt key) (\<lambda>verifier.
       Inr \<lparr>ak_id = kid, ak_project = pid, ak_prefix = prefix, ak_hash = verifier, ak_role = role,
            ak_created_at = created_at, ak_revoked_at = None\<rparr>))"

definition create_project ::
  "externals \<Rightarrow> string \<Rightarrow> policy list \<Rightarrow> audit_context \<Rightarrow> instant \<Rightarrow> string \<Rightarrow> string \<Rightarrow> string
    \<Rightarrow> (project \<times> string) operation" where
  "create_project X name templates ctx created_at selector secret salt =
     andThen new_uuid (\<lambda>pid. andThen new_uuid (\<lambda>kid.
       let project = \<lparr>pr_id = pid, pr_name = name, pr_status = Project_ACTIVE, pr_created_at = created_at,
                      pr_updated_at = created_at\<rparr>;
           key = generate_project_api_key selector secret
       in (case new_key_record X kid pid RUNTIME created_at key salt of
             Inl e \<Rightarrow> raising e
           | Inr k \<Rightarrow> andThen (save_project_with_api_key X project k templates (Some ctx)) (\<lambda>_.
               returning (project, key)))))"

definition create_project_api_key ::
  "externals \<Rightarrow> uuid \<Rightarrow> api_key_role \<Rightarrow> audit_context \<Rightarrow> instant \<Rightarrow> string \<Rightarrow> string \<Rightarrow> string
    \<Rightarrow> (api_key_metadata \<times> string) operation" where
  "create_project_api_key X pid role ctx created_at selector secret salt =
     andThen (get_project_or_404 pid) (\<lambda>project.
       if pr_status project \<noteq> Project_ACTIVE then raising (http_error 409 ''project_disabled'' [])
       else
         let key = generate_project_api_key selector secret in
         andThen new_uuid (\<lambda>kid.
           (case new_key_record X kid pid role created_at key salt of
              Inl e \<Rightarrow> raising e
            | Inr k \<Rightarrow> andThen (save_project_api_key X k (Some ctx)) (\<lambda>_. returning (metadata_of k, key)))))"

definition change_project_status ::
  "externals \<Rightarrow> uuid \<Rightarrow> project_status \<Rightarrow> audit_context \<Rightarrow> instant \<Rightarrow> project operation" where
  "change_project_status X pid status ctx t =
     (if pid = DEFAULT_PROJECT_ID \<and> status = Project_DISABLED
      then raising (http_error 409 ''default_project_protected'' [])
      else andThen (update_project_status X pid status t (Some ctx)) (\<lambda>project. case project of
          None \<Rightarrow> raising (http_error 404 ''project_not_found'' [])
        | Some p \<Rightarrow> returning p))"

definition revoke_api_key :: "externals \<Rightarrow> uuid \<Rightarrow> uuid \<Rightarrow> audit_context \<Rightarrow> instant \<Rightarrow> api_key_metadata operation" where
  "revoke_api_key X pid kid ctx t =
     andThen (get_project_or_404 pid) (\<lambda>_.
     andThen (revoke_project_api_key X pid kid t (Some ctx)) (\<lambda>revoked. case revoked of
         None \<Rightarrow> raising (http_error 404 ''api_key_not_found'' [])
       | Some k \<Rightarrow> returning k))"

section \<open>The promise of the operations\<close>

lemma update_status_accepted [accepts]:
  assumes "update_status pid status t d = Inr (p, d')" and "Projects \<in> S"
  shows "accepted S d d'"
proof -
  have d': "d' = d\<lparr>t_projects := update_rows (\<lambda>p. pr_id p = pid) (with_status status t) (t_projects d)\<rparr>"
    using assms(1) by (simp add: update_status_def Let_def)
  have "map pr_id (update_rows P (with_status status t) rows) = map pr_id rows" for P rows
    by (rule map_update_rows) (simp add: with_status_def)
  then have "db_evolved d d'" "db_ok d \<Longrightarrow> db_ok d'"
    by (simp_all add: d' db_evolved_def db_ok_def keys_kept_map unique_by_def update_references)
  moreover have "touches S d d'" using assms(2) by (simp add: d' touches_def kept_def)
  ultimately show ?thesis by (simp add: accepted_def)
qed

lemma audit_status_change_accepted [accepts]:
  "audit_status_change X pid t ctx p q d = Inr d' \<Longrightarrow> outbox_tables \<subseteq> S \<Longrightarrow> accepted S d d'"
  by (auto simp: audit_status_change_def intro: audit_option_accepted split: option.splits if_splits)

lemma audit_key_created_accepted [accepts]:
  "audit_key_created X ctx k d = Inr d' \<Longrightarrow> outbox_tables \<subseteq> S \<Longrightarrow> accepted S d d'"
  by (auto simp: audit_key_created_def intro: audit_option_accepted)

lemma audit_revocation_accepted [accepts]:
  "audit_revocation X pid kid t ctx p q d = Inr d' \<Longrightarrow> outbox_tables \<subseteq> S \<Longrightarrow> accepted S d d'"
  by (auto simp: audit_revocation_def intro: audit_option_accepted split: option.splits if_splits)

lemma audit_templates_accepted [accepts]:
  "foldE (audit_template X p ctx) ps d = Inr d' \<Longrightarrow> outbox_tables \<subseteq> S \<Longrightarrow> accepted S d d'"
  by (erule foldE_invariant [where I = "accepted S d"])
    (auto simp: audit_template_def intro: accepted_trans audit_option_accepted)

lemma seeds_accepted [accepts]:
  "foldE (insert_seed pid t) ps d = Inr d' \<Longrightarrow> policy_tables \<subseteq> S \<Longrightarrow> accepted S d d'"
  by (erule foldE_invariant [where I = "accepted S d"]) (auto intro: accepted_trans insert_seed_accepted)

abbreviation key_scope :: "table set" where
  "key_scope \<equiv> insert Api_Keys outbox_tables"

abbreviation project_scope :: "table set" where
  "project_scope \<equiv> {Projects, Api_Keys} \<union> policy_scope"

lemma new_uuid_operation [simp]: "store_operation S new_uuid"
  by unfold_locales
    (auto simp: new_uuid_def uuid4_def accepted_def touches_def kept_def db_evolved_def db_ok_def update_references)

lemma get_project_or_404_operation [simp]: "store_operation S (get_project_or_404 pid)"
  by unfold_locales (auto simp: get_project_or_404_def split: option.splits)

interpretation changing_status: store_operation "insert Projects outbox_tables" "update_project_status X pid status t ctx"
  for X pid status t ctx
  unfolding update_project_status_def
  by (rule transaction_operation, unfold_locales)
    (auto simp: bindE_Inr_iff intro: accepted_trans update_status_accepted audit_status_change_accepted)

interpretation adding_project: store_operation project_scope "save_project_with_api_key X p k policies ctx"
  for X p k policies ctx
proof (cases "ak_project k \<noteq> pr_id p")
  case True
  then show "store_operation project_scope (save_project_with_api_key X p k policies ctx)"
    by (simp add: save_project_with_api_key_def)
next
  case False
  have "accepted project_scope d d6"
    if "insert_project p d = Inr d1" "insert_api_key k d1 = Inr d2"
      "foldE (insert_seed (pr_id p) (pr_created_at p)) policies d2 = Inr d3"
      "audit_option X t q ctx a r i b f m d3 = Inr d4" "audit_key_created X ctx k d4 = Inr d5"
      "foldE (audit_template X p ctx) policies d5 = Inr d6"
    for d d1 d2 d3 d4 d5 d6 t q a r i b f m
  proof -
    have "accepted project_scope d d1" by (rule insert_project_accepted [OF that(1)]) simp
    also have "accepted project_scope d1 d2" by (rule insert_api_key_accepted [OF that(2)]) simp
    also have "accepted project_scope d2 d3" by (rule seeds_accepted [OF that(3)]) simp
    also have "accepted project_scope d3 d4" by (rule audit_option_accepted [OF that(4)]) simp
    also have "accepted project_scope d4 d5" by (rule audit_key_created_accepted [OF that(5)]) simp
    also have "accepted project_scope d5 d6" by (rule audit_templates_accepted [OF that(6)]) simp
    finally show ?thesis .
  qed
  then have "store_block project_scope (\<lambda>d. bindE (insert_project p d) (\<lambda>d1.
        bindE (insert_api_key k d1) (\<lambda>d2.
        bindE (foldE (insert_seed (pr_id p) (pr_created_at p)) policies d2) (\<lambda>d3.
        bindE (audit_option X (pr_created_at p) (pr_id p) ctx PROJECT_CREATED R_PROJECT (uuid_text (pr_id p))
            None (Some (project_json X p)) [(''seeded_policy_count'', JInt (int (length policies)))] d3) (\<lambda>d4.
        bindE (audit_key_created X ctx k d4) (\<lambda>d5.
        bindE (foldE (audit_template X p ctx) policies d5) (\<lambda>d6.
          Inr ((), d6))))))))" (is "store_block _ ?b")
    by (intro store_block.intro) (auto simp: bindE_Inr_iff)
  then show "store_operation project_scope (save_project_with_api_key X p k policies ctx)"
    using False by (simp add: save_project_with_api_key_def transaction_operation)
qed

interpretation adding_key: store_operation key_scope "save_project_api_key X k ctx" for X k ctx
  unfolding save_project_api_key_def
  by (rule transaction_operation, unfold_locales)
    (auto simp: bindE_Inr_iff intro: accepted_trans insert_api_key_accepted audit_key_created_accepted)

interpretation revoking: store_operation key_scope "revoke_project_api_key X pid kid t ctx" for X pid kid t ctx
  unfolding revoke_project_api_key_def
  by (rule transaction_operation, unfold_locales)
    (auto simp: bindE_Inr_iff intro: accepted_trans revoke_key_accepted audit_revocation_accepted)

section \<open>Created projects\<close>

lemma find_row_only:
  assumes "r \<in> set rows" and "P r" and "\<And>s. s \<in> set rows \<Longrightarrow> P s \<Longrightarrow> s = r"
  shows "find_row P rows = Some r"
proof (cases "find_row P rows")
  case None
  with assms(1,2) show ?thesis by (simp add: find_row_None)
next
  case (Some s)
  then show ?thesis using assms(3) [of s] find_row_Some [OF Some] by simp
qed

lemma enabled_configuration_fields [simp]:
  "pp_project (enabled_configuration pid p t) = pid" "pp_policy (enabled_configuration pid p t) = p"
  "pp_enabled (enabled_configuration pid p t)" "pp_updated_at (enabled_configuration pid p t) = t"
  by (simp_all add: enabled_configuration_def)

text \<open>A stored, unrevoked key of an ACTIVE project authenticates.\<close>

lemma stored_key_authenticates:
  assumes ok: "db_ok d" and k: "k \<in> set (t_api_keys d)" and p: "p \<in> set (t_projects d)" "ak_project k = pr_id p"
    and live: "ak_revoked_at k = None" "pr_status p = Project_ACTIVE"
    and key: "get_api_key_prefix key = Inr (ak_prefix k)" "verify_api_key X key (ak_hash k)"
  shows "get_active_principal_by_api_key X key d d = Some \<lparr>pl_key = ak_id k, pl_role = ak_role k, pl_project = p\<rparr>"
proof -
  have unique: "unique_by ak_prefix (t_api_keys d)" "unique_by pr_id (t_projects d)"
    using ok by (simp_all add: db_ok_def)
  have "active_key_row (ak_prefix k) d = Some (p, k)"
    unfolding active_key_row_def
  proof (rule find_row_only)
    show "s = (p, k)" if "s \<in> set (List.product (t_projects d) (t_api_keys d))"
      "case s of (p, k') \<Rightarrow> ak_project k' = pr_id p \<and> ak_prefix k' = ak_prefix k \<and> ak_revoked_at k' = None
        \<and> pr_status p = Project_ACTIVE" for s
    proof -
      obtain p' k' where s: "s = (p', k')" by force
      with that have "k' = k" using unique_by_eq [OF unique(1), of k' k] k by auto
      moreover have "p' = p" using that s p unique_by_eq [OF unique(2), of p' p] \<open>k' = k\<close> by auto
      ultimately show ?thesis using s by simp
    qed
  qed (use k p live in auto)
  moreover have "still_active (ak_id k) (ak_hash k) d"
    using k p live by (auto simp: still_active_def list_ex_iff)
  ultimately show ?thesis using key by (simp add: get_active_principal_by_api_key_def)
qed

definition seed_version :: "uuid \<Rightarrow> instant \<Rightarrow> policy \<Rightarrow> policy_version" where
  "seed_version pid t p = \<lparr>pv_project = pid, pv_policy = p, pv_change = Change_CREATED, pv_source = None, pv_created_at = t\<rparr>"

lemma seed_version_fields [simp]:
  "pv_project (seed_version pid t p) = pid" "pv_policy (seed_version pid t p) = p"
  "pv_change (seed_version pid t p) = Change_CREATED" "pv_source (seed_version pid t p) = None"
  by (simp_all add: seed_version_def)

lemma seeds_run:
  assumes "project_exists d pid" and "list_all policy_valid ps" and "distinct (map p_id ps)"
    and "\<And>c. c \<in> set (t_policies d) \<Longrightarrow> pp_project c = pid \<Longrightarrow> p_id (pp_policy c) \<notin> p_id ` set ps"
    and "\<And>v. v \<in> set (t_versions d) \<Longrightarrow> pv_project v = pid \<Longrightarrow> p_id (pv_policy v) \<notin> p_id ` set ps"
  shows "foldE (insert_seed pid t) ps d = Inr (d\<lparr>t_policies := t_policies d @ map (\<lambda>p. enabled_configuration pid p t) ps,
    t_versions := t_versions d @ map (seed_version pid t) ps\<rparr>)"
  using assms
proof (induction ps arbitrary: d)
  case (Cons p ps)
  let ?c = "enabled_configuration pid p t" and ?v = "seed_version pid t p"
  let ?d1 = "d\<lparr>t_policies := t_policies d @ [?c], t_versions := t_versions d @ [?v]\<rparr>"
  have "\<not> list_ex (is_policy pid (p_id p)) (t_policies d)" using Cons.prems(4) by (auto simp: list_ex_iff)
  moreover have "policy_row_ok d ?c"
    using Cons.prems(1,2,4) by (auto simp: policy_row_ok_def policy_valid_def list_all_iff)
  moreover have "version_row_ok (d\<lparr>t_policies := t_policies d @ [?c]\<rparr>) ?v"
    using Cons.prems(1,2,5) by (auto simp: version_row_ok_def policy_valid_def list_all_iff project_exists_def)
  ultimately have "insert_seed pid t p d = Inr ?d1"
    using Cons.prems(2) by (simp add: insert_seed_def insert_policy_row_def insert_version_def insert_version_row_def
        policy_valid_def seed_version_def)
  moreover have "foldE (insert_seed pid t) ps ?d1 = Inr (?d1\<lparr>
      t_policies := t_policies ?d1 @ map (\<lambda>p. enabled_configuration pid p t) ps,
      t_versions := t_versions ?d1 @ map (seed_version pid t) ps\<rparr>)"
  proof (rule Cons.IH)
    show "project_exists ?d1 pid" using Cons.prems(1) by (simp add: project_exists_def)
    show "p_id (pp_policy c) \<notin> p_id ` set ps" if c: "c \<in> set (t_policies ?d1)" "pp_project c = pid" for c
    proof -
      have "c \<in> set (t_policies d) \<or> pp_policy c = p" using c(1) by auto
      then show ?thesis using c(2) Cons.prems(3,4) by auto
    qed
    show "p_id (pv_policy v) \<notin> p_id ` set ps" if v: "v \<in> set (t_versions ?d1)" "pv_project v = pid" for v
    proof -
      have "v \<in> set (t_versions d) \<or> pv_policy v = p" using v(1) by auto
      then show ?thesis using v(2) Cons.prems(3,5) by auto
    qed
  qed (use Cons.prems(2,3) in simp_all)
  ultimately show ?case by simp
qed simp

lemma audit_templates_total:
  assumes "db_ok d" and "fresh_ids d" and "project_exists d (pr_id p)"
    and "\<And>q. q \<in> set ps \<Longrightarrow> \<exists>r. resource_identifier X (p_id q) = Inr r"
  shows "\<exists>d'. foldE (audit_template X p ctx) ps d = Inr d'"
  using assms
proof (induction ps arbitrary: d)
  case (Cons q ps)
  obtain r where r: "resource_identifier X (p_id q) = Inr r" using Cons.prems(4) [of q] by auto
  obtain d1 where d1: "audit_template X p ctx q d = Inr d1" "fresh_ids d1"
    using audit_option_total [OF Cons.prems(1,2,3) r] unfolding audit_template_def by blast
  have acc: "accepted outbox_tables d d1"
    by (rule audit_option_accepted [OF d1(1) [unfolded audit_template_def]]) simp
  have "db_ok d1" "project_exists d1 (pr_id p)"
    using accepted_ok [OF acc] accepted_frame(1) [OF acc] Cons.prems by (auto simp: project_exists_def)
  with Cons.IH [OF _ d1(2)] Cons.prems(4) d1(1) show ?case by simp
qed simp

lemma save_project_done:
  assumes ok: "db_ok d" and fresh: "fresh_ids d" and new: "unused (pr_id p) d" "unused (ak_id k) d"
    and own: "ak_project k = pr_id p"
    and free: "list_all (\<lambda>j. ak_prefix j \<noteq> ak_prefix k \<and> ak_hash j \<noteq> ak_hash k) (t_api_keys d)"
    and strip: "strips_only_whitespace X"
    and ps: "list_all policy_valid ps" "distinct (map p_id ps)"
      "\<And>q. q \<in> set ps \<Longrightarrow> \<exists>r. resource_identifier X (p_id q) = Inr r"
  shows "\<exists>d'. save_project_with_api_key X p k ps ctx d = (Inr (), d')
    \<and> t_projects d' = t_projects d @ [p] \<and> t_api_keys d' = t_api_keys d @ [k]
    \<and> t_policies d' = t_policies d @ map (\<lambda>q. enabled_configuration (pr_id p) q (pr_created_at p)) ps
    \<and> t_versions d' = t_versions d @ map (seed_version (pr_id p) (pr_created_at p)) ps"
proof -
  let ?d2 = "d\<lparr>t_projects := t_projects d @ [p], t_api_keys := t_api_keys d @ [k]\<rparr>"
  let ?d3 = "?d2\<lparr>t_policies := t_policies d @ map (\<lambda>q. enabled_configuration (pr_id p) q (pr_created_at p)) ps,
    t_versions := t_versions d @ map (seed_version (pr_id p) (pr_created_at p)) ps\<rparr>"
  have tenants: "pp_project ` set (t_policies d) \<subseteq> pr_id ` set (t_projects d)"
    "pv_project ` set (t_versions d) \<subseteq> pr_id ` set (t_projects d)"
    using ok by (simp_all add: db_ok_def references_ok_def refers_def)
  have p_new: "pr_id p \<notin> pr_id ` set (t_projects d)" using new(1) by (auto simp: unused_def known_ids_def)
  have ins1: "insert_project p d = Inr (d\<lparr>t_projects := t_projects d @ [p]\<rparr>)"
    using p_new by (auto simp: insert_project_def project_row_ok_def project_exists_iff)
  have "ak_id k \<notin> ak_id ` set (t_api_keys d)" using new(2) by (auto simp: unused_def known_ids_def)
  then have "ak_id j \<noteq> ak_id k" if "j \<in> set (t_api_keys d)" for j using that by (metis imageI)
  then have "api_key_row_ok (d\<lparr>t_projects := t_projects d @ [p]\<rparr>) k"
    using free own by (auto simp: api_key_row_ok_def project_exists_def list_all_iff)
  then have ins2: "insert_api_key k (d\<lparr>t_projects := t_projects d @ [p]\<rparr>) = Inr ?d2" by (simp add: insert_api_key_def)
  have none: "pp_project c \<noteq> pr_id p" if "c \<in> set (t_policies d)" for c
    using tenants p_new that by (metis imageI subsetD)
  have none': "pv_project v \<noteq> pr_id p" if "v \<in> set (t_versions d)" for v
    using tenants p_new that by (metis imageI subsetD)
  have seeds: "foldE (insert_seed (pr_id p) (pr_created_at p)) ps ?d2 = Inr ?d3"
    using seeds_run [of ?d2 "pr_id p" ps "pr_created_at p"] ps(1,2) none none'
    by (simp add: project_exists_def)
  have "accepted project_scope d ?d3"
  proof -
    have "accepted project_scope d (d\<lparr>t_projects := t_projects d @ [p]\<rparr>)"
      by (rule insert_project_accepted [OF ins1]) simp
    also have "accepted project_scope (d\<lparr>t_projects := t_projects d @ [p]\<rparr>) ?d2"
      by (rule insert_api_key_accepted [OF ins2]) simp
    also have "accepted project_scope ?d2 ?d3" by (rule seeds_accepted [OF seeds]) simp
    finally show ?thesis .
  qed
  then have ok3: "db_ok ?d3" using ok by (rule accepted_ok)
  have "known_ids ?d3 = insert (pr_id p) (insert (ak_id k) (known_ids d))" by (auto simp: known_ids_def)
  moreover have "t_uuids d n \<noteq> pr_id p" "t_uuids d n \<noteq> ak_id k" for n
    using new unfolding unused_def by (metis rangeI)+
  ultimately have fresh3: "fresh_ids ?d3" using fresh by (simp add: fresh_ids_def)
  have here: "project_exists ?d3 (pr_id p)" by (simp add: project_exists_def)
  obtain d4 where d4: "audit_option X (pr_created_at p) (pr_id p) ctx PROJECT_CREATED R_PROJECT (uuid_text (pr_id p))
      None (Some (project_json X p)) [(''seeded_policy_count'', JInt (int (length ps)))] ?d3 = Inr d4" "fresh_ids d4"
    using audit_option_total [OF ok3 fresh3 here resource_identifier_uuid [OF strip]] by blast
  have a4: "accepted outbox_tables ?d3 d4" by (rule audit_option_accepted [OF d4(1)]) simp
  have ok4: "db_ok d4" "project_exists d4 (ak_project k)"
    using accepted_ok [OF a4 ok3] accepted_frame(1) [OF a4] own by (auto simp: project_exists_def)
  obtain d5 where d5: "audit_key_created X ctx k d4 = Inr d5" "fresh_ids d5"
    using audit_option_total [OF ok4(1) d4(2) ok4(2) resource_identifier_uuid [OF strip]]
    unfolding audit_key_created_def by blast
  have a5: "accepted outbox_tables d4 d5" by (rule audit_key_created_accepted [OF d5(1)]) simp
  have ok5: "db_ok d5" "project_exists d5 (pr_id p)"
    using accepted_ok [OF a5 ok4(1)] accepted_frame(1) [OF a5] ok4(2) own by (auto simp: project_exists_def)
  obtain d6 where d6: "foldE (audit_template X p ctx) ps d5 = Inr d6"
    using audit_templates_total [OF ok5(1) d5(2) ok5(2) ps(3)] by blast
  have "accepted outbox_tables d5 d6" by (rule audit_templates_accepted [OF d6]) simp
  then have "accepted outbox_tables ?d3 d6" using a4 a5 accepted_trans by blast
  note same = accepted_frame [OF this]
  have "save_project_with_api_key X p k ps ctx d = (Inr (), d6)"
    by (simp add: save_project_with_api_key_def own transaction_def ins1 ins2 seeds d4(1) d5(1) d6)
  then show ?thesis using same by (intro exI [of _ d6]) simp
qed

lemma new_uuids:
  assumes "fresh_ids d" and "u = t_uuids d 0" and "v = t_uuids d 1"
    and "d2 = d\<lparr>t_uuids := (\<lambda>n. t_uuids d (Suc (Suc n)))\<rparr>"
  shows "new_uuid d = (Inr u, d\<lparr>t_uuids := (\<lambda>n. t_uuids d (Suc n))\<rparr>)"
    and "new_uuid (d\<lparr>t_uuids := (\<lambda>n. t_uuids d (Suc n))\<rparr>) = (Inr v, d2)"
    and "unused u d2" and "unused v d2" and "fresh_ids d2" and "known_ids d2 = known_ids d"
proof -
  show known: "known_ids d2 = known_ids d" by (simp add: assms(4) known_ids_def)
  have ids: "inj (t_uuids d)" "\<And>n. t_uuids d n \<notin> known_ids d" using assms(1) by (simp_all add: fresh_ids_def)
  show "unused u d2" "unused v d2"
    using ids unfolding unused_def known by (auto simp: assms(2-4) dest: injD)
  show "fresh_ids d2" using ids unfolding fresh_ids_def known by (auto simp: assms(4) inj_on_def)
  show "new_uuid d = (Inr u, d\<lparr>t_uuids := (\<lambda>n. t_uuids d (Suc n))\<rparr>)"
    and "new_uuid (d\<lparr>t_uuids := (\<lambda>n. t_uuids d (Suc n))\<rparr>) = (Inr v, d2)"
    by (simp_all add: new_uuid_def uuid4_def assms(2-4))
qed

lemma sort_key_map_eq: "(\<And>x. k (f x) = l x) \<Longrightarrow> sort_key k (map f xs) = map f (sort_key l xs)"
proof -
  assume keep: "\<And>x. k (f x) = l x"
  have "insort_key k (f x) (map f ys) = map f (insort_key l x ys)" for x ys
    by (induction ys) (auto simp: keep)
  then show ?thesis by (induction xs) simp_all
qed

lemma seeded_policies_ok:
  assumes "policies_ok d" and "db_ok d" and "pid \<notin> pr_id ` set (t_projects d)" and "list_all policy_valid ps"
    and "distinct (map p_id ps)"
    and rows: "t_policies d' = t_policies d @ map (\<lambda>q. enabled_configuration pid q t) ps"
      "t_versions d' = t_versions d @ map (seed_version pid t) ps"
  shows "policies_ok d'" and "list_active pid d' = Inr (sort_key p_id ps)"
    and "q \<noteq> pid \<Longrightarrow> list_active q d' = list_active q d"
proof -
  have tenants: "pp_project ` set (t_policies d) \<subseteq> pr_id ` set (t_projects d)"
    "pv_project ` set (t_versions d) \<subseteq> pr_id ` set (t_projects d)"
    using assms(2) by (simp_all add: db_ok_def references_ok_def refers_def)
  have none: "pp_project c \<noteq> pid" if "c \<in> set (t_policies d)" for c
    using tenants assms(3) that by (metis imageI subsetD)
  have none': "pv_project v \<noteq> pid" if "v \<in> set (t_versions d)" for v
    using tenants assms(3) that by (metis imageI subsetD)
  let ?p = "\<lparr>pr_id = pid, pr_name = [], pr_status = Project_ACTIVE, pr_created_at = 0, pr_updated_at = 0\<rparr>"
  let ?d1 = "d\<lparr>t_projects := t_projects d @ [?p]\<rparr>"
  have ok1: "policies_ok ?d1" by (rule policies_ok_untouched [OF assms(1)]) simp_all
  have "foldE (insert_seed pid t) ps ?d1 = Inr (?d1\<lparr>t_policies := t_policies d', t_versions := t_versions d'\<rparr>)"
    using seeds_run [of ?d1 pid ps t] assms(4,5) none none' by (simp add: project_exists_def rows)
  then have "policies_ok (?d1\<lparr>t_policies := t_policies d', t_versions := t_versions d'\<rparr>)"
    by (rule foldE_invariant [where I = policies_ok, OF _ ok1])
      (use assms(4) in \<open>auto simp: list_all_iff intro: insert_seed_policies_ok\<close>)
  then show ok': "policies_ok d'" by (rule policies_ok_untouched) simp_all
  have mine: "filter (\<lambda>c. pp_project c = pid) (t_policies d) = []" using none by (auto simp: filter_empty_conv)
  have "filter (\<lambda>c. pp_project c = pid) (map (\<lambda>q. enabled_configuration pid q t) ps) = map (\<lambda>q. enabled_configuration pid q t) ps"
    by (auto simp: filter_map comp_def)
  moreover have "sort_key (\<lambda>c. p_id (pp_policy c)) (map (\<lambda>q. enabled_configuration pid q t) ps)
      = map (\<lambda>q. enabled_configuration pid q t) (sort_key p_id ps)"
    by (rule sort_key_map_eq) simp
  ultimately show "list_active pid d' = Inr (sort_key p_id ps)"
    unfolding list_active_ok [OF ok'] by (simp add: rows mine filter_map comp_def)
  show "list_active q d' = list_active q d" if "q \<noteq> pid"
    unfolding list_active_ok [OF ok'] list_active_ok [OF assms(1)] using that by (simp add: rows filter_map comp_def)
qed

lemma create_project_done:
  assumes ok: "db_ok d" "policies_ok d" and fresh: "fresh_ids d" and strip: "strips_only_whitespace X"
    and lengths: "length selector = 16" "length secret = 43" "length salt = 16"
      "length (x_scrypt X (generate_project_api_key selector secret) salt) = 32"
    and chars: "list_all is_hex_digit selector" "list_all is_urlsafe secret"
    and ps: "list_all policy_valid ps" "distinct (map p_id ps)"
      "\<And>q. q \<in> set ps \<Longrightarrow> \<exists>r. resource_identifier X (p_id q) = Inr r"
  shows "let key = generate_project_api_key selector secret;
      taken = list_ex (\<lambda>j. ak_prefix j = ''dak_'' @ selector \<or> hash_api_key X salt key = Inr (ak_hash j)) (t_api_keys d)
    in if taken
      then \<exists>us. create_project X name ps ctx t selector secret salt d = (Inl IntegrityError, d\<lparr>t_uuids := us\<rparr>)
      else \<exists>p kid d'. create_project X name ps ctx t selector secret salt d = (Inr (p, key), d')
        \<and> get_project (pr_id p) d = None \<and> get_project (pr_id p) d' = Some p
        \<and> pr_name p = name \<and> pr_status p = Project_ACTIVE
        \<and> get_active_principal_by_api_key X key d' d' = Some \<lparr>pl_key = kid, pl_role = RUNTIME, pl_project = p\<rparr>
        \<and> list_active (pr_id p) d' = Inr (sort_key p_id ps)
        \<and> (\<forall>q. q \<noteq> pr_id p \<longrightarrow> list_active q d' = list_active q d)"
proof -
  let ?key = "generate_project_api_key selector secret"
  let ?pid = "t_uuids d 0" and ?kid = "t_uuids d 1"
  let ?d2 = "d\<lparr>t_uuids := (\<lambda>n. t_uuids d (Suc (Suc n)))\<rparr>"
  note u = new_uuids [OF fresh refl refl refl]
  let ?p = "\<lparr>pr_id = ?pid, pr_name = name, pr_status = Project_ACTIVE, pr_created_at = t, pr_updated_at = t\<rparr>"
  obtain v where v: "hash_api_key X salt ?key = Inr v" by (auto simp: hash_api_key_def generate_project_api_key_def)
  let ?k = "\<lparr>ak_id = ?kid, ak_project = ?pid, ak_prefix = ''dak_'' @ selector, ak_hash = v, ak_role = RUNTIME,
    ak_created_at = t, ak_revoked_at = None\<rparr>"
  note prefix = generated_key_pattern(2) [OF lengths(1) chars(1) lengths(2) chars(2)]
  have rec: "new_key_record X ?kid ?pid RUNTIME t ?key salt = Inr ?k"
    by (simp add: new_key_record_def prefix v)
  have run: "create_project X name ps ctx t selector secret salt d =
      andThen (save_project_with_api_key X ?p ?k ps (Some ctx)) (\<lambda>_. returning (?p, ?key)) ?d2"
    using u(1,2) rec by (simp add: create_project_def andThen_def Let_def)
  have ok2: "db_ok ?d2" "policies_ok ?d2"
    using ok by (simp_all add: db_ok_def update_references) (auto intro: policies_ok_untouched)
  have new: "?pid \<notin> pr_id ` set (t_projects d)" using u(3,6) by (auto simp: unused_def known_ids_def)
  show ?thesis
  proof (cases "list_ex (\<lambda>j. ak_prefix j = ''dak_'' @ selector \<or> ak_hash j = v) (t_api_keys d)")
    case True
    have "\<not> api_key_row_ok (?d2\<lparr>t_projects := t_projects d @ [?p]\<rparr>) ?k"
      using True by (auto simp: api_key_row_ok_def list_ex_iff list_all_iff)
    moreover have "insert_project ?p ?d2 = Inr (?d2\<lparr>t_projects := t_projects d @ [?p]\<rparr>)"
      using new by (auto simp: insert_project_def project_row_ok_def project_exists_iff)
    ultimately have "save_project_with_api_key X ?p ?k ps (Some ctx) ?d2 = (Inl IntegrityError, ?d2)"
      by (simp add: save_project_with_api_key_def transaction_def insert_api_key_def)
    then have "create_project X name ps ctx t selector secret salt d = (Inl IntegrityError, ?d2)"
      by (simp add: run andThen_def)
    moreover have "list_ex (\<lambda>j. ak_prefix j = ''dak_'' @ selector \<or> hash_api_key X salt ?key = Inr (ak_hash j)) (t_api_keys d)"
      using True v by (auto simp: list_ex_iff)
    ultimately show ?thesis unfolding Let_def by (simp only: if_True) blast
  next
    case False
    then have free: "list_all (\<lambda>j. ak_prefix j \<noteq> ak_prefix ?k \<and> ak_hash j \<noteq> ak_hash ?k) (t_api_keys ?d2)"
      by (auto simp: list_ex_iff list_all_iff)
    obtain d' where d': "save_project_with_api_key X ?p ?k ps (Some ctx) ?d2 = (Inr (), d')"
      "t_projects d' = t_projects d @ [?p]" "t_api_keys d' = t_api_keys d @ [?k]"
      "t_policies d' = t_policies d @ map (\<lambda>q. enabled_configuration ?pid q t) ps"
      "t_versions d' = t_versions d @ map (seed_version ?pid t) ps"
      using save_project_done [OF ok2(1) u(5), of ?p ?k X ps "Some ctx"] u(3,4) free strip ps by auto
    have ok': "db_ok d'" by (rule adding_project.keeps_ok [OF d'(1) ok2(1)])
    have "verify_api_key X ?key v"
      using hashed_key_verifies [OF lengths(3,4) v] by (simp add: generate_project_api_key_def)
    then have auth: "get_active_principal_by_api_key X ?key d' d' = Some \<lparr>pl_key = ?kid, pl_role = RUNTIME, pl_project = ?p\<rparr>"
      using stored_key_authenticates [OF ok', of ?k ?p ?key X] d' prefix by simp
    note active = seeded_policies_ok [OF ok(2,1) new ps(1,2) d'(4,5)]
    have "pr_id r \<noteq> ?pid" if "r \<in> set (t_projects d)" for r using new that by (metis imageI)
    then have "get_project ?pid d = None" "get_project ?pid d' = Some ?p"
      using d'(2) by (simp_all add: get_project_def find_row_None [THEN iffD2] row_simps)
    moreover have "create_project X name ps ctx t selector secret salt d = (Inr (?p, ?key), d')"
      unfolding run andThen_def d'(1) by (simp add: returning_def)
    moreover have "\<not> list_ex (\<lambda>j. ak_prefix j = ''dak_'' @ selector \<or> hash_api_key X salt ?key = Inr (ak_hash j)) (t_api_keys d)"
      using False v by (auto simp: list_ex_iff)
    ultimately show ?thesis using auth active(2,3)
      unfolding Let_def by (simp only: if_False) (intro exI [of _ ?p] exI [of _ ?kid] exI [of _ d'], simp)
  qed
qed

section \<open>Status changes and revocation\<close>

lemma audit_event_appended:
  assumes "audit_change X t pid ctx action rtype rid before after metadata d = Inr d'"
  shows "\<exists>e. t_audit d' = t_audit d @ [e] \<and> ae_project e = pid \<and> ae_action e = action \<and> ae_actor e = ac_actor ctx
    \<and> ae_before e = before \<and> ae_after e = after"
proof -
  from audit_change_made [OF assms] obtain e w ds where eq: "d' = d\<lparr>t_audit := t_audit d @ [e],
      t_events := t_events d @ [\<lparr>er_event = w, er_payload = canonical_webhook_payload X w\<rparr>],
      t_deliveries := t_deliveries d @ ds, t_uuids := t_uuids d'\<rparr>"
    and e: "ae_project e = pid" "ae_action e = action" "ae_actor e = ac_actor ctx" "ae_before e = before" "ae_after e = after"
    by (elim exE conjE) simp
  have "t_audit d' = t_audit d @ [e]" by (subst eq) simp
  with e show ?thesis by blast
qed

lemma with_status_same: "pr_status p = status \<Longrightarrow> with_status status t p = p"
  by (simp add: with_status_def)

lemma get_project_updated:
  "get_project q (d\<lparr>t_projects := update_rows (\<lambda>p. pr_id p = pid) (with_status status t) (t_projects d)\<rparr>)
    = map_option (\<lambda>p. if pr_id p = pid then with_status status t p else p) (get_project q d)"
  unfolding get_project_def db.simps by (simp, rule update_rows_find) (simp add: with_status_def)

lemma change_project_status_done:
  assumes ok: "db_ok d" and fresh: "fresh_ids d" and strip: "strips_only_whitespace X"
  shows "if pid = DEFAULT_PROJECT_ID \<and> status = Project_DISABLED
    then change_project_status X pid status ctx t d = (Inl (http_error 409 ''default_project_protected'' []), d)
    else (case get_project pid d of
        None \<Rightarrow> change_project_status X pid status ctx t d = (Inl (http_error 404 ''project_not_found'' []), d)
      | Some p \<Rightarrow> \<exists>d'. change_project_status X pid status ctx t d = (Inr (with_status status t p), d')
          \<and> (\<forall>q. get_project q d' = (if q = pid then Some (with_status status t p) else get_project q d))
          \<and> (if pr_status p = status then d' = d
             else \<exists>e. t_audit d' = t_audit d @ [e] \<and> ae_action e = PROJECT_STATUS_CHANGED
               \<and> ae_before e = Some (project_json X p) \<and> ae_after e = Some (project_json X (with_status status t p))))"
proof (cases "pid = DEFAULT_PROJECT_ID \<and> status = Project_DISABLED")
  case True
  then show ?thesis by (simp add: change_project_status_def raising_def)
next
  case False
  let ?d1 = "d\<lparr>t_projects := update_rows (\<lambda>p. pr_id p = pid) (with_status status t) (t_projects d)\<rparr>"
  have up: "update_status pid status t d = Inr (get_project pid ?d1, ?d1)" by (simp add: update_status_def Let_def)
  have run: "change_project_status X pid status ctx t d = andThen (update_project_status X pid status t (Some ctx))
      (\<lambda>project. case project of None \<Rightarrow> raising (http_error 404 ''project_not_found'' []) | Some p \<Rightarrow> returning p) d"
    unfolding change_project_status_def if_not_P [OF False] ..
  have "case get_project pid d of
        None \<Rightarrow> change_project_status X pid status ctx t d = (Inl (http_error 404 ''project_not_found'' []), d)
      | Some p \<Rightarrow> \<exists>d'. change_project_status X pid status ctx t d = (Inr (with_status status t p), d')
          \<and> (\<forall>q. get_project q d' = (if q = pid then Some (with_status status t p) else get_project q d))
          \<and> (if pr_status p = status then d' = d
             else \<exists>e. t_audit d' = t_audit d @ [e] \<and> ae_action e = PROJECT_STATUS_CHANGED
               \<and> ae_before e = Some (project_json X p) \<and> ae_after e = Some (project_json X (with_status status t p)))"
  proof (cases "get_project pid d")
    case None
    then have "update_rows (\<lambda>p. pr_id p = pid) (with_status status t) (t_projects d) = t_projects d"
      by (intro update_rows_none) (simp add: get_project_def find_row_None)
    with None up show ?thesis
      by (simp add: run andThen_def update_project_status_def transaction_def
          audit_status_change_def raising_def get_project_updated)
  next
    case (Some p)
    then have p: "p \<in> set (t_projects d)" "pr_id p = pid" by (auto simp: get_project_def dest: find_row_Some)
    have got: "get_project q ?d1 = (if q = pid then Some (with_status status t p) else get_project q d)" for q
      using Some p(2) unfolding get_project_updated
      by (cases "get_project q d") (auto simp: get_project_def dest: find_row_Some)
    show ?thesis
    proof (cases "pr_status p = status")
      case same: True
      have only: "r = p" if "r \<in> set (t_projects d)" "pr_id r = pid" for r
        using unique_by_eq [of pr_id "t_projects d" r p] that p ok by (simp add: db_ok_def)
      have "update_rows (\<lambda>p. pr_id p = pid) (with_status status t) (t_projects d) = t_projects d"
        unfolding update_rows_def by (rule map_idI) (use only with_status_same [OF same] in auto)
      then have "?d1 = d" by simp
      with up got Some same show ?thesis
        by (simp add: run andThen_def update_project_status_def transaction_def
            audit_status_change_def returning_def with_status_same)
    next
      case change: False
      have acc: "accepted {Projects} d ?d1" by (rule update_status_accepted [OF up]) simp
      have ids: "map pr_id (t_projects ?d1) = map pr_id (t_projects d)"
        by (simp, rule map_update_rows) (simp add: with_status_def)
      have fresh1: "fresh_ids ?d1"
      proof (rule fresh_same [OF fresh])
        have "pr_id ` set (t_projects ?d1) = pr_id ` set (t_projects d)" using ids by (metis list.set_map)
        then show "known_ids ?d1 = known_ids d" by (simp add: known_ids_def)
      qed simp
      have here: "project_exists ?d1 pid" unfolding project_exists_iff ids using p by auto
      obtain d2 where d2: "audit_option X t pid (Some ctx) PROJECT_STATUS_CHANGED R_PROJECT (uuid_text pid)
          (Some (project_json X p)) (Some (project_json X (with_status status t p))) [] ?d1 = Inr d2"
        using audit_option_total [OF accepted_ok [OF acc ok] fresh1 here resource_identifier_uuid [OF strip]] by blast
      then have change_made: "audit_change X t pid ctx PROJECT_STATUS_CHANGED R_PROJECT (uuid_text pid)
          (Some (project_json X p)) (Some (project_json X (with_status status t p))) [] ?d1 = Inr d2"
        by (simp add: audit_option_def)
      obtain e where e: "t_audit d2 = t_audit d @ [e]" "ae_action e = PROJECT_STATUS_CHANGED"
        "ae_before e = Some (project_json X p)" "ae_after e = Some (project_json X (with_status status t p))"
        using audit_event_appended [OF change_made] by auto
      have rows: "t_projects d2 = t_projects ?d1" by (rule audit.frame(1) [OF change_made])
      have "get_project q d2 = get_project q ?d1" for q unfolding get_project_def rows ..
      moreover have "change_project_status X pid status ctx t d = (Inr (with_status status t p), d2)"
        using up got Some change d2
        by (simp add: run andThen_def update_project_status_def transaction_def
            audit_status_change_def returning_def with_status_def [of status t p])
      ultimately show ?thesis using Some change got e by auto
    qed
  qed
  then show ?thesis unfolding if_not_P [OF False] .
qed

lemma revoked_row:
  assumes "revoke_api_key X pid kid ctx t d = (Inr m, d1)"
  shows "\<exists>k \<in> set (t_api_keys d1). ak_id k = kid \<and> ak_project k = pid \<and> ak_revoked_at k \<noteq> None
    \<and> m = metadata_of k"
proof -
  let ?P = "\<lambda>k. ak_project k = pid \<and> ak_id k = kid"
  let ?rows = "update_rows ?P (revoked_key t) (t_api_keys d)"
  obtain r d' where run: "revoke_project_api_key X pid kid t (Some ctx) d = (r, d')" by force
  from assms obtain p where "get_project pid d = Some p"
    by (cases "get_project pid d") (simp_all add: revoke_api_key_def andThen_def get_project_or_404_def)
  with assms run have "r = Inr (Some m)" "d' = d1"
    by (simp_all add: revoke_api_key_def andThen_def get_project_or_404_def raising_def returning_def
        split: sum.splits option.splits)
  with run have got: "get_key_metadata pid kid (d\<lparr>t_api_keys := ?rows\<rparr>) = Some m"
    and audit: "audit_revocation X pid kid t (Some ctx) (get_key_metadata pid kid d) (Some m) (d\<lparr>t_api_keys := ?rows\<rparr>) = Inr d1"
    by (auto simp: revoke_project_api_key_def transaction_def bindE_Inr_iff revoke_key_def Let_def split: sum.splits)
  from got obtain k where k: "find_row ?P ?rows = Some k" "m = metadata_of k"
    by (auto simp: get_key_metadata_def key_row_def)
  have hit: "k \<in> set ?rows" "?P k" using find_row_Some [OF k(1)] by simp_all
  then obtain j where "k = (if ?P j then revoked_key t j else j)" unfolding set_update_rows by (elim imageE)
  with hit(2) have "ak_revoked_at k \<noteq> None" by (cases "?P j") (auto simp: revoked_key_def)
  moreover have "t_api_keys d1 = ?rows"
    using accepted_frame(2) [OF audit_revocation_accepted [OF audit order.refl]] by simp
  ultimately show ?thesis using k(2) hit by (intro bexI [of _ k]) simp_all
qed

lemma principal_row:
  assumes "get_active_principal_by_api_key X key d0 d2 = Some pr"
  shows "\<exists>k \<in> set (t_api_keys d2). ak_id k = pl_key pr \<and> ak_revoked_at k = None
    \<and> (\<exists>p \<in> set (t_projects d2). pr_id p = ak_project k \<and> pr_status p = Project_ACTIVE)"
proof -
  from principal_key [OF assms] obtain k where "pl_key pr = ak_id k" "authenticates X key k d2" by metis
  then show ?thesis unfolding authenticates_def by metis
qed

lemma revoked_never_authenticates:
  assumes row: "k \<in> set (t_api_keys d1)" "ak_revoked_at k \<noteq> None" and later: "db_evolved d1 d2" and ok: "db_ok d2"
    and auth: "get_active_principal_by_api_key X key d0 d2 = Some pr"
  shows "pl_key pr \<noteq> ak_id k"
proof
  assume same: "pl_key pr = ak_id k"
  from principal_row [OF auth] obtain k' where k': "k' \<in> set (t_api_keys d2)" "ak_id k' = ak_id k" "ak_revoked_at k' = None"
    using same by auto
  have "k \<in> set (t_api_keys d2)"
    by (rule key_table.terminal_persists [OF _ row]) (use later in \<open>simp add: db_evolved_def\<close>)
  then have "k' = k" using unique_by_eq [of ak_id "t_api_keys d2" k' k] k' ok by (simp add: db_ok_def)
  with k' row(2) show False by simp
qed

text \<open>The project of a principal is the project of its key, then and later.\<close>

lemma principal_project:
  assumes auth: "get_active_principal_by_api_key X key d0 d2 = Some pr" and later: "db_evolved d0 d2" and ok: "db_ok d2"
  shows "\<exists>p \<in> set (t_projects d2). pr_id p = pr_id (pl_project pr) \<and> pr_status p = Project_ACTIVE"
proof -
  from principal_key [OF auth] obtain k where k: "k \<in> set (t_api_keys d0)" "pl_key pr = ak_id k"
    "pr_id (pl_project pr) = ak_project k" by metis
  have "evolved key_change_ok (t_api_keys d0) (t_api_keys d2)" using later by (simp add: db_evolved_def)
  from key_table.row_persists [OF this k(1)] obtain k2 where k2: "k2 \<in> set (t_api_keys d2)" "ak_id k2 = ak_id k"
    "k2 = k \<or> key_change_ok k k2" by auto
  then have own: "ak_project k2 = ak_project k" by (auto simp: key_change_ok_def)
  from principal_row [OF auth] obtain k' p where "k' \<in> set (t_api_keys d2)" "ak_id k' = ak_id k"
    "p \<in> set (t_projects d2)" "pr_id p = ak_project k'" "pr_status p = Project_ACTIVE"
    using k(2) by auto
  moreover from this have "k' = k2"
    using unique_by_eq [of ak_id "t_api_keys d2" k' k2] k2 ok by (simp add: db_ok_def)
  ultimately show ?thesis using own k(3) by auto
qed

section \<open>Properties\<close>

text \<open>
  Creating a project. When the new selector or verifier is already stored, the creation is an
  integrity error that stores nothing. Otherwise a new ACTIVE project is stored with every template
  in force, no other project's policies change, and the returned key authenticates as a RUNTIME
  principal of the new project.
\<close>

theorem project_creation_outcome:
  assumes "db_ok d" and "policies_ok d" and "fresh_ids d" and "strips_only_whitespace X"
    and "length selector = 16" and "length secret = 43" and "length salt = 16"
    and "length (x_scrypt X (generate_project_api_key selector secret) salt) = 32"
    and "list_all is_hex_digit selector" and "list_all is_urlsafe secret"
    and "list_all policy_valid ps" and "distinct (map p_id ps)"
    and "\<And>q. q \<in> set ps \<Longrightarrow> \<exists>r. resource_identifier X (p_id q) = Inr r"
  shows "let key = generate_project_api_key selector secret;
      taken = list_ex (\<lambda>j. ak_prefix j = ''dak_'' @ selector \<or> hash_api_key X salt key = Inr (ak_hash j)) (t_api_keys d)
    in if taken
      then \<exists>us. create_project X name ps ctx t selector secret salt d = (Inl IntegrityError, d\<lparr>t_uuids := us\<rparr>)
      else \<exists>p kid d'. create_project X name ps ctx t selector secret salt d = (Inr (p, key), d')
        \<and> get_project (pr_id p) d = None \<and> get_project (pr_id p) d' = Some p
        \<and> pr_name p = name \<and> pr_status p = Project_ACTIVE
        \<and> get_active_principal_by_api_key X key d' d' = Some \<lparr>pl_key = kid, pl_role = RUNTIME, pl_project = p\<rparr>
        \<and> list_active (pr_id p) d' = Inr (sort_key p_id ps)
        \<and> (\<forall>q. q \<noteq> pr_id p \<longrightarrow> list_active q d' = list_active q d)"
  by (rule create_project_done [OF assms])

lemma sample_key_taken:
  "(ak_prefix (sample_key_row r) = ''dak_'' @ replicate 16 (CHR ''a''))" "t_api_keys (key_db r) = [sample_key_row r]"
  by (simp_all add: sample_key_row_def key_db_def)

lemma sample_lengths:
  "length (x_scrypt sample_externals (generate_project_api_key (replicate 16 c) (replicate 43 e)) (replicate 16 (CHR ''s''))) = 32"
proof -
  have "length (generate_project_api_key (replicate 16 c) (replicate 43 e)) = 64"
    unfolding generate_project_api_key_def by (simp only: length_append length_replicate) simp
  then show ?thesis by (simp add: sample_scrypt del: replicate_Suc)
qed

theorem project_creation_outcome_witness:
  "\<exists>p kid d'. create_project sample_externals ''Pilot'' [sample_policy 1] sample_context 50
      (replicate 16 (CHR ''c'')) (replicate 43 (CHR ''B'')) (replicate 16 (CHR ''s'')) policy_db
      = (Inr (p, generate_project_api_key (replicate 16 (CHR ''c'')) (replicate 43 (CHR ''B''))), d')
    \<and> pr_name p = ''Pilot'' \<and> list_active (pr_id p) d' = Inr [sample_policy 1]"
proof -
  have empty: "t_api_keys policy_db = []" by (simp add: policy_db_def sample_db_def empty_db_def)
  have len: "length (replicate 16 (CHR ''c'')) = 16" "length (replicate 43 (CHR ''B'')) = 43"
    "length (replicate 16 (CHR ''s'')) = 16" by (simp_all only: length_replicate)
  have chars: "list_all is_hex_digit (replicate 16 (CHR ''c''))" "list_all is_urlsafe (replicate 43 (CHR ''B''))"
    by (simp_all add: list_all_iff is_hex_digit_def is_urlsafe_def)
  have ps: "list_all policy_valid [sample_policy 1]" "distinct (map p_id [sample_policy 1])"
    "\<And>q. q \<in> set [sample_policy 1] \<Longrightarrow> \<exists>r. resource_identifier sample_externals (p_id q) = Inr r" by auto
  from project_creation_outcome [OF policy_db_ok(1) policy_db_policies_ok policy_db_ok(2) sample_strips len
      sample_lengths chars ps, of "''Pilot''" sample_context 50]
  show ?thesis unfolding Let_def empty by (simp only: list_ex_iff list.set) auto
qed

text \<open>
  Changing the status of a project, on every branch. The default project cannot be disabled, an
  unknown project is not found. Otherwise the project has the requested status, no other project
  changes; the update time moves and one audit event is written exactly when the status did change.
\<close>

theorem project_status_outcome:
  assumes "db_ok d" and "fresh_ids d" and "strips_only_whitespace X"
  shows "if pid = DEFAULT_PROJECT_ID \<and> status = Project_DISABLED
    then change_project_status X pid status ctx t d = (Inl (http_error 409 ''default_project_protected'' []), d)
    else (case get_project pid d of
        None \<Rightarrow> change_project_status X pid status ctx t d = (Inl (http_error 404 ''project_not_found'' []), d)
      | Some p \<Rightarrow> \<exists>d'. change_project_status X pid status ctx t d = (Inr (with_status status t p), d')
          \<and> (\<forall>q. get_project q d' = (if q = pid then Some (with_status status t p) else get_project q d))
          \<and> (if pr_status p = status then d' = d
             else \<exists>e. t_audit d' = t_audit d @ [e] \<and> ae_action e = PROJECT_STATUS_CHANGED
               \<and> ae_before e = Some (project_json X p) \<and> ae_after e = Some (project_json X (with_status status t p))))"
  by (rule change_project_status_done [OF assms])

theorem project_status_outcome_witness:
  "change_project_status sample_externals 1 Project_DISABLED sample_context 9 policy_db
      = (Inl (http_error 409 ''default_project_protected'' []), policy_db)
   \<and> change_project_status sample_externals 2 Project_ACTIVE sample_context 9 policy_db = (Inr sample_project, policy_db)
   \<and> (\<exists>d'. change_project_status sample_externals 2 Project_DISABLED sample_context 9 policy_db
        = (Inr (sample_project\<lparr>pr_status := Project_DISABLED, pr_updated_at := 9\<rparr>), d'))"
proof -
  note change = project_status_outcome [OF policy_db_ok(1,2) sample_strips, of pid status sample_context 9 for pid status]
  have get: "get_project 2 policy_db = Some sample_project"
    by (simp add: get_project_def policy_db_def sample_db_def sample_project_def row_simps)
  have same: "with_status Project_ACTIVE 9 sample_project = sample_project"
    "with_status Project_DISABLED 9 sample_project = sample_project\<lparr>pr_status := Project_DISABLED, pr_updated_at := 9\<rparr>"
    by (simp_all add: with_status_def sample_project_def)
  have active: "pr_status sample_project = Project_ACTIVE" by (simp add: sample_project_def)
  have "change_project_status sample_externals 1 Project_DISABLED sample_context 9 policy_db
      = (Inl (http_error 409 ''default_project_protected'' []), policy_db)"
    using change [of 1 Project_DISABLED] by (simp add: DEFAULT_PROJECT_ID_def)
  moreover have "change_project_status sample_externals 2 Project_ACTIVE sample_context 9 policy_db = (Inr sample_project, policy_db)"
    using change [of 2 Project_ACTIVE] by (auto simp: get same active)
  moreover have "\<exists>d'. change_project_status sample_externals 2 Project_DISABLED sample_context 9 policy_db
        = (Inr (sample_project\<lparr>pr_status := Project_DISABLED, pr_updated_at := 9\<rparr>), d')"
    using change [of 2 Project_DISABLED] unfolding get option.simps active
    by (simp add: DEFAULT_PROJECT_ID_def same(2) del: project.update_convs) blast
  ultimately show ?thesis by blast
qed

text \<open>
  C13: Revocation is final. Once a key has been revoked, no request authenticates with it in any later
  state of the database, whatever the state at the first look was: a revocation during the key
  derivation is not ignored.
\<close>

theorem revocation_is_final:
  assumes "revoke_api_key X pid kid ctx t d = (Inr m, d1)" and "db_evolved d1 d2" and "db_ok d2"
    and "get_active_principal_by_api_key X key d0 d2 = Some pr"
  shows "pl_key pr \<noteq> kid"
  using revoked_row [OF assms(1)] revoked_never_authenticates [OF _ _ assms(2-4)] by metis

definition old_key_row :: api_key where
  "old_key_row = \<lparr>ak_id = 31, ak_project = 2, ak_prefix = ''dak_'' @ replicate 16 (CHR ''b''),
     ak_hash = ''retired'', ak_role = REVIEWER, ak_created_at = 3, ak_revoked_at = Some 4\<rparr>"

definition tenants_db :: db where
  "tenants_db = sample_db\<lparr>t_projects := [sample_project, sample_project\<lparr>pr_id := 3, pr_status := Project_DISABLED\<rparr>],
     t_api_keys := [sample_key_row None, old_key_row]\<rparr>"

lemma tenants_db_ok [simp]: "db_ok tenants_db"
  by (auto simp: db_ok_def references_ok_def refers_def tenants_db_def sample_db_def empty_db_def unique_by_def
      sample_subscription_def subscription_check_def sample_project_def sample_key_row_def old_key_row_def)

lemma tenants_authenticate:
  "get_active_principal_by_api_key sample_externals sample_key tenants_db tenants_db
     = Some \<lparr>pl_key = 30, pl_role = RUNTIME, pl_project = sample_project\<rparr>"
proof -
  have "verify_api_key sample_externals sample_key sample_verifier"
    using hashed_key_verifies [OF _ sample_key_parts(2)] sample_key_parts(1)
    by (simp add: hash_api_key_def sample_verifier_def)
  then show ?thesis
    using stored_key_authenticates [OF tenants_db_ok, of "sample_key_row None" sample_project sample_key sample_externals]
      sample_key_parts(3)
    by (simp add: tenants_db_def sample_key_row_def sample_project_def)
qed

theorem revocation_is_final_witness:
  "\<exists>m. revoke_api_key sample_externals 2 31 sample_context 9 tenants_db = (Inr m, tenants_db)
    \<and> get_active_principal_by_api_key sample_externals sample_key tenants_db tenants_db
        = Some \<lparr>pl_key = 30, pl_role = RUNTIME, pl_project = sample_project\<rparr> \<and> (30 :: nat) \<noteq> 31"
proof -
  have same: "update_rows (\<lambda>k. ak_project k = 2 \<and> ak_id k = 31) (revoked_key 9) (t_api_keys tenants_db) = t_api_keys tenants_db"
    by (simp add: update_rows_def tenants_db_def sample_key_row_def old_key_row_def revoked_key_def)
  have row: "key_row 2 31 tenants_db = Some old_key_row"
    by (simp add: key_row_def tenants_db_def row_simps sample_key_row_def old_key_row_def)
  have project: "get_project 2 tenants_db = Some sample_project"
    by (simp add: get_project_def tenants_db_def row_simps sample_project_def)
  have "revoke_key 2 31 9 tenants_db = Inr (Some (metadata_of old_key_row), tenants_db)"
    by (simp add: revoke_key_def Let_def same get_key_metadata_def row)
  moreover have "audit_revocation sample_externals 2 31 9 (Some sample_context) (Some (metadata_of old_key_row))
      (Some (metadata_of old_key_row)) tenants_db = Inr tenants_db"
    by (simp add: audit_revocation_def metadata_of_def old_key_row_def)
  ultimately have run: "revoke_api_key sample_externals 2 31 sample_context 9 tenants_db
      = (Inr (metadata_of old_key_row), tenants_db)"
    by (simp add: revoke_api_key_def andThen_def get_project_or_404_def project revoke_project_api_key_def
        transaction_def get_key_metadata_def row returning_def)
  from revocation_is_final [OF run db_evolved_refl tenants_db_ok tenants_authenticate] run tenants_authenticate
  show ?thesis by simp
qed

text \<open>
  A disabled project is closed: while a project is DISABLED no key of it authenticates, even when
  the first look saw the project ACTIVE.
\<close>

theorem disabled_project_closed:
  assumes "get_project pid d2 = Some p" and "pr_status p = Project_DISABLED" and "db_evolved d0 d2" and "db_ok d2"
    and "get_active_principal_by_api_key X key d0 d2 = Some pr"
  shows "pr_id (pl_project pr) \<noteq> pid"
proof
  assume same: "pr_id (pl_project pr) = pid"
  from principal_project [OF assms(5,3,4)] obtain q where "q \<in> set (t_projects d2)" "pr_id q = pid" "pr_status q = Project_ACTIVE"
    using same by auto
  moreover have "p \<in> set (t_projects d2)" "pr_id p = pid"
    using assms(1) by (auto simp: get_project_def dest: find_row_Some)
  ultimately show False
    using unique_by_eq [of pr_id "t_projects d2" p q] assms(2,4) by (simp add: db_ok_def)
qed

theorem disabled_project_closed_witness:
  "get_project 3 tenants_db = Some (sample_project\<lparr>pr_id := 3, pr_status := Project_DISABLED\<rparr>)
   \<and> pr_id sample_project \<noteq> 3"
proof -
  have p: "get_project 3 tenants_db = Some (sample_project\<lparr>pr_id := 3, pr_status := Project_DISABLED\<rparr>)"
    by (simp add: get_project_def tenants_db_def row_simps sample_project_def)
  from disabled_project_closed [OF p _ db_evolved_refl tenants_db_ok tenants_authenticate] p show ?thesis by simp
qed

end
