(* ===== verification/Authorize.thy ===== *)
theory Authorize
  imports Ledger Grants Projects_Admin "HOL-Library.Sublist"
begin

text \<open>
  The authorization of a request: \<open>app/services/authorization.py\<close>, \<open>app/idempotency.py\<close>,
  \<open>app/storage/idempotency.py\<close>, the queries of \<open>app/storage/decisions.py\<close> and
  \<open>EvidenceStore.save_authorization_with_approval\<close>. One transaction stores the decision, its
  ledger record, its pending approval, its idempotency record and its events. The theory composes
  the policy engine, the policies, the ledger, the approvals and the outbox: \<open>service_ok\<close> is
  the invariant of all of them, and every authorization keeps it.
\<close>

section \<open>Queries over decisions\<close>

datatype approval_filter = No_approval | With_status approval_status

record decision_filters =
  fl_decision :: "decision option"
  fl_agent :: "string option"
  fl_action :: "string option"
  fl_policy :: "string option"
  fl_has_policy :: "bool option"
  fl_approval :: "approval_filter option"
  fl_after :: "instant option"
  fl_before :: "instant option"
  fl_query :: "string option"
  fl_ascending :: bool

text \<open>SQLite's \<open>lower\<close> changes ASCII letters only; \<open>instr(x, y) > 0\<close> is a substring test.\<close>

definition lower_char :: "char \<Rightarrow> char" where
  "lower_char c = (if 65 \<le> (of_char c :: nat) \<and> (of_char c :: nat) \<le> 90 then char_of ((of_char c :: nat) + 32) else c)"

definition contains_text :: "string \<Rightarrow> string \<Rightarrow> bool" where
  "contains_text x y \<longleftrightarrow> sublist (map lower_char y) (map lower_char x)"

definition equals_filter :: "'a option \<Rightarrow> 'a option \<Rightarrow> bool" where
  "equals_filter wanted actual \<longleftrightarrow> wanted = None \<or> actual = wanted"

text \<open>
  \<open>_search_where\<close>. The left join yields the decision's approval, or none: an approval's key is
  its decision.
\<close>

definition search_where :: "uuid \<Rightarrow> decision_filters \<Rightarrow> authorization \<Rightarrow> approval option \<Rightarrow> bool" where
  "search_where pid f a approval \<longleftrightarrow> au_project a = pid
     \<and> equals_filter (fl_decision f) (Some (au_decision a))
     \<and> equals_filter (fl_agent f) (Some (au_agent a))
     \<and> equals_filter (fl_action f) (Some (au_action a))
     \<and> equals_filter (fl_policy f) (au_policy a)
     \<and> (case fl_has_policy f of None \<Rightarrow> True | Some b \<Rightarrow> (au_policy a \<noteq> None) = b)
     \<and> (case fl_approval f of None \<Rightarrow> True
        | Some No_approval \<Rightarrow> approval = None
        | Some (With_status s) \<Rightarrow> map_option ap_status approval = Some s)
     \<and> (case fl_after f of None \<Rightarrow> True | Some t \<Rightarrow> t \<le> au_evaluated_at a)
     \<and> (case fl_before f of None \<Rightarrow> True | Some t \<Rightarrow> au_evaluated_at a \<le> t)
     \<and> (case fl_query f of None \<Rightarrow> True | Some q \<Rightarrow>
          contains_text (au_agent a) q \<or> contains_text (au_action a) q
          \<or> contains_text (case au_policy a of None \<Rightarrow> [] | Some p \<Rightarrow> p) q \<or> contains_text (au_reason a) q)"

definition searched :: "uuid \<Rightarrow> decision_filters \<Rightarrow> db \<Rightarrow> authorization list" where
  "searched pid f d =
     filter (\<lambda>a. search_where pid f a (find_row (\<lambda>p. ap_decision p = au_id a) (t_approvals d))) (t_decisions d)"

definition decisions_search :: "uuid \<Rightarrow> decision_filters \<Rightarrow> nat \<Rightarrow> nat \<Rightarrow> db \<Rightarrow> authorization list" where
  "decisions_search pid f limit offset d =
     (let key = (\<lambda>a. (au_evaluated_at a, au_id a)) in
      page limit offset (if fl_ascending f then sort_key key (searched pid f d) else sort_desc key (searched pid f d)))"

definition decisions_count_search :: "uuid \<Rightarrow> decision_filters \<Rightarrow> db \<Rightarrow> nat" where
  "decisions_count_search pid f d = length (searched pid f d)"

definition decisions_list :: "uuid \<Rightarrow> nat \<Rightarrow> nat \<Rightarrow> db \<Rightarrow> authorization list" where
  "decisions_list pid limit offset d =
     page limit offset (sort_desc (\<lambda>a. (au_evaluated_at a, au_id a)) (filter (\<lambda>a. au_project a = pid) (t_decisions d)))"

definition decisions_count :: "uuid \<Rightarrow> db \<Rightarrow> nat" where
  "decisions_count pid d = row_count (\<lambda>a. au_project a = pid) (t_decisions d)"

text \<open>Every search of the store first expires the approvals that are due.\<close>

definition search_decisions ::
  "externals \<Rightarrow> uuid \<Rightarrow> instant \<Rightarrow> decision_filters \<Rightarrow> nat \<Rightarrow> nat \<Rightarrow> authorization list operation" where
  "search_decisions X pid now f limit offset =
     andThen (expire_due_approvals X pid now) (\<lambda>_. reading (\<lambda>d. Inr (decisions_search pid f limit offset d)))"

definition count_searched_decisions :: "externals \<Rightarrow> uuid \<Rightarrow> instant \<Rightarrow> decision_filters \<Rightarrow> nat operation" where
  "count_searched_decisions X pid now f =
     andThen (expire_due_approvals X pid now) (\<lambda>_. reading (\<lambda>d. Inr (decisions_count_search pid f d)))"

section \<open>Idempotency\<close>

definition build_request_fingerprint :: "externals \<Rightarrow> authorization_request \<Rightarrow> string" where
  "build_request_fingerprint X r = x_sha256 X (canonical_json (x_float X) (request_json r))"

definition get_idempotency_record :: "uuid \<Rightarrow> string \<Rightarrow> db \<Rightarrow> idempotency_record option" where
  "get_idempotency_record pid key d = find_row (\<lambda>r. im_project r = pid \<and> im_key r = key) (t_idempotency d)"

definition get_idempotent_authorization ::
  "string \<Rightarrow> string \<Rightarrow> uuid \<Rightarrow> authorization option operation" where
  "get_idempotent_authorization key fingerprint pid = reading (\<lambda>d.
     (case get_idempotency_record pid key d of
        None \<Rightarrow> Inr None
      | Some r \<Rightarrow>
          if im_fingerprint r \<noteq> fingerprint then Inl (http_error 409 ''idempotency_key_conflict'' [])
          else (case decisions_get (im_decision r) pid d of
              None \<Rightarrow> Inl (RuntimeError ''Idempotency record references a missing authorization decision.'')
            | Some a \<Rightarrow> Inr (Some a))))"

section \<open>Saving an authorization\<close>

definition announce_authorization :: "externals \<Rightarrow> authorization \<Rightarrow> db \<Rightarrow> exn + db" where
  "announce_authorization X a =
     announce X (au_project a) E_authorization_created (au_evaluated_at a) R_AUTHORIZATION_DECISION
       (uuid_text (au_id a)) [(''authorization'', authorization_json X a)]"

definition announce_approval :: "externals \<Rightarrow> uuid \<Rightarrow> approval \<Rightarrow> db \<Rightarrow> exn + db" where
  "announce_approval X pid ap =
     announce X pid E_approval_requested (ap_requested_at ap) R_APPROVAL (uuid_text (ap_decision ap))
       [(''approval'', JObj (approval_members X ap))]"

definition optionally :: "('a \<Rightarrow> db \<Rightarrow> exn + db) \<Rightarrow> 'a option \<Rightarrow> db \<Rightarrow> exn + db" where
  "optionally f v d = (case v of None \<Rightarrow> Inr d | Some x \<Rightarrow> f x d)"

text \<open>\<open>EvidenceStore.save\<close>.\<close>

definition save_decision :: "externals \<Rightarrow> authorization \<Rightarrow> unit operation" where
  "save_decision X a = transaction (\<lambda>d.
     bindE (insert_decision a d) (\<lambda>d1.
     bindE (ledger_insert X a d1) (\<lambda>(_, d2).
     bindE (announce_authorization X a d2) (\<lambda>d3. Inr ((), d3)))))"

definition save_authorization_block ::
  "externals \<Rightarrow> authorization \<Rightarrow> approval option \<Rightarrow> idempotency_record option \<Rightarrow> unit block" where
  "save_authorization_block X a approval idem d =
     bindE (insert_decision a d) (\<lambda>d1.
     bindE (ledger_insert X a d1) (\<lambda>(_, d2).
     bindE (optionally insert_approval approval d2) (\<lambda>d3.
     bindE (optionally insert_idempotency idem d3) (\<lambda>d4.
     bindE (announce_authorization X a d4) (\<lambda>d5.
     bindE (optionally (announce_approval X (au_project a)) approval d5) (\<lambda>d6. Inr ((), d6)))))))"

definition save_authorization_with_approval ::
  "externals \<Rightarrow> authorization \<Rightarrow> approval option \<Rightarrow> idempotency_record option \<Rightarrow> unit operation" where
  "save_authorization_with_approval X a approval idem =
     (if (case approval of None \<Rightarrow> False | Some ap \<Rightarrow> ap_decision ap \<noteq> au_id a)
      then raising (ValueError ''Approval decision_id must match authorization decision_id.'')
      else if (case idem of None \<Rightarrow> False | Some im \<Rightarrow> im_project im \<noteq> au_project a)
      then raising (ValueError ''Idempotency record project_id must match authorization project_id.'')
      else if (case idem of None \<Rightarrow> False | Some im \<Rightarrow> im_decision im \<noteq> au_id a)
      then raising (ValueError ''Idempotency record decision_id must match authorization decision_id.'')
      else transaction (save_authorization_block X a approval idem))"

section \<open>The service\<close>

definition policy_http_error :: "exn \<Rightarrow> exn" where
  "policy_http_error e = (case e of
     InvalidPolicyContext field operator \<Rightarrow>
       http_error 422 ''invalid_policy_context'' [(''field'', JStr field), (''operator'', JStr operator)]
   | MissingPolicyContext field policy \<Rightarrow>
       http_error 422 ''missing_policy_context'' [(''field'', JStr field), (''policy'', JStr policy)]
   | _ \<Rightarrow> e)"

definition evaluate_request :: "authorization_request \<Rightarrow> uuid \<Rightarrow> db \<Rightarrow> exn + policy_evaluation" where
  "evaluate_request request pid d =
     catchE (bindE (list_active pid d) (evaluate_policy (rq_action request) (rq_context request))) policy_http_error"

definition new_authorization ::
  "uuid \<Rightarrow> uuid \<Rightarrow> instant \<Rightarrow> authorization_request \<Rightarrow> policy_evaluation \<Rightarrow> authorization" where
  "new_authorization u pid t request ev =
     \<lparr>au_id = u, au_project = pid, au_evaluated_at = t, au_decision = ev_decision ev, au_policy = ev_policy ev,
      au_version = ev_version ev, au_reason = ev_reason ev, au_evidence = ev_evidence ev, au_agent = rq_agent request,
      au_action = rq_action request, au_context = rq_context request, au_trace = ev_trace ev\<rparr>"

text \<open>\<open>ApprovalRecord(...)\<close> runs its validator.\<close>

definition new_approval :: "authorization \<Rightarrow> int \<Rightarrow> exn + approval option" where
  "new_approval a ttl =
     (if au_decision a = REQUIRE_APPROVAL
      then bindE (row_to_approval \<lparr>ap_decision = au_id a, ap_status = Approval_PENDING,
          ap_requested_at = au_evaluated_at a, ap_expires_at = Some (au_evaluated_at a + seconds ttl),
          ap_resolved_at = None, ap_resolved_by = None\<rparr>) (\<lambda>ap. Inr (Some ap))
      else Inr None)"

definition new_idempotency :: "string option \<Rightarrow> string \<Rightarrow> authorization \<Rightarrow> idempotency_record option" where
  "new_idempotency key fingerprint a =
     map_option (\<lambda>k. \<lparr>im_project = au_project a, im_key = k, im_fingerprint = fingerprint,
       im_decision = au_id a, im_created_at = au_evaluated_at a\<rparr>) key"

text \<open>\<open>except sqlite3.IntegrityError\<close>: another request with the key may have come first.\<close>

definition save_or_reuse ::
  "externals \<Rightarrow> authorization \<Rightarrow> approval option \<Rightarrow> string option \<Rightarrow> string \<Rightarrow> authorization operation" where
  "save_or_reuse X a approval key fingerprint d =
     (case save_authorization_with_approval X a approval (new_idempotency key fingerprint a) d of
        (Inr _, d') \<Rightarrow> (Inr a, d')
      | (Inl e, d') \<Rightarrow>
          if e \<noteq> IntegrityError then (Inl e, d')
          else (case key of
              None \<Rightarrow> (Inl IntegrityError, d')
            | Some k \<Rightarrow>
                andThen (get_idempotent_authorization k fingerprint (au_project a)) (\<lambda>existing. case existing of
                    None \<Rightarrow> raising IntegrityError
                  | Some b \<Rightarrow> returning b) d'))"

definition authorize_request ::
  "externals \<Rightarrow> authorization_request \<Rightarrow> string option \<Rightarrow> project \<Rightarrow> instant \<Rightarrow> int \<Rightarrow> authorization operation" where
  "authorize_request X request key project now ttl =
     (let pid = pr_id project; fingerprint = build_request_fingerprint X request in
      andThen (case key of None \<Rightarrow> returning None | Some k \<Rightarrow> get_idempotent_authorization k fingerprint pid)
        (\<lambda>existing. case existing of
           Some a \<Rightarrow> returning a
         | None \<Rightarrow>
             andThen (reading (evaluate_request request pid)) (\<lambda>ev.
             andThen new_uuid (\<lambda>u.
               let a = new_authorization u pid now request ev in
               (case new_approval a ttl of
                  Inl e \<Rightarrow> raising e
                | Inr approval \<Rightarrow> save_or_reuse X a approval key fingerprint)))))"

section \<open>The promise of the operations\<close>

abbreviation authorization_scope :: "table set" where
  "authorization_scope \<equiv> {Decisions, Ledger, Approval_Requests, Idempotency} \<union> outbox_tables"

lemma announce_authorization_accepted [accepts]:
  "announce_authorization X a d = Inr d' \<Longrightarrow> outbox_tables \<subseteq> S \<Longrightarrow> accepted S d d'"
  unfolding announce_authorization_def by (rule announce_accepted)

lemma announce_approval_accepted [accepts]:
  "announce_approval X pid ap d = Inr d' \<Longrightarrow> outbox_tables \<subseteq> S \<Longrightarrow> accepted S d d'"
  unfolding announce_approval_def by (rule announce_accepted)

lemma optionally_accepted:
  assumes "optionally f v d = Inr d'" and "\<And>x. f x d = Inr d' \<Longrightarrow> accepted S d d'"
  shows "accepted S d d'"
  using assms by (cases v) (auto simp: optionally_def)

text \<open>The states of the transaction, one per statement.\<close>

lemma save_steps:
  assumes "save_authorization_block X a approval idem d = Inr (u, d6)"
  obtains d1 p d2 d3 d4 d5 where "insert_decision a d = Inr d1" and "ledger_insert X a d1 = Inr (p, d2)"
    and "optionally insert_approval approval d2 = Inr d3" and "optionally insert_idempotency idem d3 = Inr d4"
    and "announce_authorization X a d4 = Inr d5"
    and "optionally (announce_approval X (au_project a)) approval d5 = Inr d6"
  using assms by (auto simp: save_authorization_block_def bindE_Inr_iff)

lemma save_block_accepted:
  assumes "save_authorization_block X a approval idem d = Inr (u, d')"
  shows "accepted authorization_scope d d'"
proof -
  from save_steps [OF assms] obtain d1 p d2 d3 d4 d5 where s: "insert_decision a d = Inr d1"
    "ledger_insert X a d1 = Inr (p, d2)" "optionally insert_approval approval d2 = Inr d3"
    "optionally insert_idempotency idem d3 = Inr d4" "announce_authorization X a d4 = Inr d5"
    "optionally (announce_approval X (au_project a)) approval d5 = Inr d'" .
  have "accepted authorization_scope d d1" by (rule insert_decision_accepted [OF s(1)]) simp
  also have "accepted authorization_scope d1 d2" by (rule ledger_insert_accepted [OF s(2)]) simp
  also have "accepted authorization_scope d2 d3"
    by (rule optionally_accepted [OF s(3)]) (erule insert_approval_accepted, simp)
  also have "accepted authorization_scope d3 d4"
    by (rule optionally_accepted [OF s(4)]) (erule insert_idempotency_accepted, simp)
  also have "accepted authorization_scope d4 d5" by (rule announce_authorization_accepted [OF s(5)]) simp
  also have "accepted authorization_scope d5 d'"
    by (rule optionally_accepted [OF s(6)]) (erule announce_approval_accepted, simp)
  finally show ?thesis .
qed

interpretation saving_authorization: store_operation authorization_scope
  "save_authorization_with_approval X a approval idem" for X a approval idem
  unfolding save_authorization_with_approval_def
  by (auto intro!: transaction_operation store_block.intro dest: save_block_accepted)

interpretation looking_up: store_operation S "get_idempotent_authorization key fp pid" for S key fp pid
  unfolding get_idempotent_authorization_def by (rule reading_operation)

lemma save_or_reuse_operation: "store_operation authorization_scope (save_or_reuse X a approval key fp)"
proof
  fix d r d' assume run: "save_or_reuse X a approval key fp d = (r, d')"
  obtain r1 d1 where s: "save_authorization_with_approval X a approval (new_idempotency key fp a) d = (r1, d1)" by force
  have "d' = d1"
    using run s by (auto simp: save_or_reuse_def andThen_def get_idempotent_authorization_def reading_def raising_def
        returning_def split: sum.splits if_splits option.splits)
  then show "accepted authorization_scope d d'" using saving_authorization.accepted_run [OF s] by simp
qed

interpretation authorizing: store_operation authorization_scope "authorize_request X request key project now ttl"
  for X request key project now ttl
  unfolding authorize_request_def Let_def
  by (intro andThen_operation) (auto intro!: andThen_operation save_or_reuse_operation [simplified] looking_up.store_operation_axioms
      split: option.split sum.split)

section \<open>The invariant of the service\<close>

definition request_of :: "authorization \<Rightarrow> authorization_request" where
  "request_of a = \<lparr>rq_agent = au_agent a, rq_action = au_action a, rq_context = au_context a\<rparr>"

text \<open>An idempotency record names a stored decision of its project and the fingerprint of its request.\<close>

definition idempotency_ok :: "externals \<Rightarrow> db \<Rightarrow> bool" where
  "idempotency_ok X d \<longleftrightarrow> (\<forall>r \<in> set (t_idempotency d). \<exists>a \<in> set (t_decisions d).
     au_id a = im_decision r \<and> au_project a = im_project r \<and> im_fingerprint r = build_request_fingerprint X (request_of a))"

definition ledgers_valid :: "externals \<Rightarrow> db \<Rightarrow> bool" where
  "ledgers_valid X d \<longleftrightarrow> (\<forall>pid. ledger_valid X d pid)"

definition service_ok :: "externals \<Rightarrow> db \<Rightarrow> bool" where
  "service_ok X d \<longleftrightarrow> store_ok d \<and> policies_ok d \<and> idempotency_ok X d \<and> ledgers_valid X d"

lemma service_ok_db: "service_ok X d \<Longrightarrow> db_ok d"
  by (simp add: service_ok_def store_ok_def)

lemma ledgers_valid_same:
  "t_integrity d' = t_integrity d \<Longrightarrow> t_decisions d' = t_decisions d \<Longrightarrow> ledgers_valid X d' = ledgers_valid X d"
  by (simp add: ledgers_valid_def ledger_valid_def project_chain_def project_decisions_def)

lemma idempotency_ok_grows:
  assumes "idempotency_ok X d" and "t_idempotency d' = t_idempotency d" and "set (t_decisions d) \<subseteq> set (t_decisions d')"
  shows "idempotency_ok X d'"
  using assms by (fastforce simp: idempotency_ok_def)

lemma empty_service_ok [simp]: "service_ok X (empty_db us)"
proof -
  have rows: "t_idempotency (empty_db us) = []" "t_integrity (empty_db us) = []" "t_decisions (empty_db us) = []"
    by (simp_all add: empty_db_def)
  show ?thesis
    by (auto simp: service_ok_def idempotency_ok_def ledgers_valid_def ledger_valid_def project_chain_def
        project_decisions_def rows intro!: exI [of _ "[]"])
qed

definition opt_list :: "'a option \<Rightarrow> 'a list" where
  "opt_list v = (case v of None \<Rightarrow> [] | Some x \<Rightarrow> [x])"

lemma save_tables:
  assumes run: "save_authorization_block X a approval idem d = Inr (u, d')"
  shows "t_decisions d' = t_decisions d @ [a]"
    and "t_approvals d' = t_approvals d @ opt_list approval"
    and "t_idempotency d' = t_idempotency d @ opt_list idem"
    and "\<exists>p d1 d2. insert_decision a d = Inr d1 \<and> ledger_insert X a d1 = Inr (p, d2)
      \<and> t_integrity d' = t_integrity d2 \<and> t_decisions d2 = t_decisions d @ [a]"
proof -
  from save_steps [OF run] obtain d1 p d2 d3 d4 d5 where s: "insert_decision a d = Inr d1"
    "ledger_insert X a d1 = Inr (p, d2)" "optionally insert_approval approval d2 = Inr d3"
    "optionally insert_idempotency idem d3 = Inr d4" "announce_authorization X a d4 = Inr d5"
    "optionally (announce_approval X (au_project a)) approval d5 = Inr d'" .
  have d1: "d1 = d\<lparr>t_decisions := t_decisions d @ [a]\<rparr>" using s(1) by (auto simp: insert_decision_def split: if_splits)
  have d2: "d2 = d1\<lparr>t_integrity := t_integrity d1 @ [p]\<rparr>"
    using s(2) by (auto simp: ledger_insert_def Let_def bindE_Inr_iff insert_proof_def split: if_splits)
  have d3: "d3 = d2\<lparr>t_approvals := t_approvals d2 @ opt_list approval\<rparr>"
    using s(3) by (cases approval) (auto simp: optionally_def opt_list_def insert_approval_def split: if_splits)
  have d4: "d4 = d3\<lparr>t_idempotency := t_idempotency d3 @ opt_list idem\<rparr>"
    using s(4) by (cases idem) (auto simp: optionally_def opt_list_def insert_idempotency_def split: if_splits)
  have "accepted outbox_tables d4 d5" by (rule announce_authorization_accepted [OF s(5)]) simp
  also have "accepted outbox_tables d5 d'"
    by (rule optionally_accepted [OF s(6)]) (erule announce_approval_accepted, simp)
  finally have last: "accepted outbox_tables d4 d'" .
  note same = accepted_frame [OF last]
  show "t_decisions d' = t_decisions d @ [a]" "t_approvals d' = t_approvals d @ opt_list approval"
    "t_idempotency d' = t_idempotency d @ opt_list idem"
    using same by (simp_all add: d4 d3 d2 d1)
  show "\<exists>p d1 d2. insert_decision a d = Inr d1 \<and> ledger_insert X a d1 = Inr (p, d2)
      \<and> t_integrity d' = t_integrity d2 \<and> t_decisions d2 = t_decisions d @ [a]"
    using s(1,2) same by (intro exI [of _ p] exI [of _ d1] exI [of _ d2]) (simp add: d4 d3 d2 d1)
qed

lemma save_block_service_ok:
  assumes ok: "service_ok X d" and run: "save_authorization_block X a approval idem d = Inr (u, d')"
    and pending: "\<And>ap. approval = Some ap \<Longrightarrow> ap_status ap = Approval_PENDING \<and> approval_valid ap"
    and idem: "\<And>im. idem = Some im \<Longrightarrow> im_project im = au_project a \<and> im_decision im = au_id a
      \<and> im_fingerprint im = build_request_fingerprint X (request_of a)"
  shows "service_ok X d'"
proof -
  note acc = save_block_accepted [OF run] and tables = save_tables [OF run]
  note frame = accepted_frame [OF acc]
  from ok have dbok: "db_ok d" and store: "store_ok d" and pol: "policies_ok d" and idok: "idempotency_ok X d"
    and led: "ledgers_valid X d" by (simp_all add: service_ok_def store_ok_def)
  have dbok': "db_ok d'" by (rule accepted_ok [OF acc dbok])
  have grants: "t_grants d' = t_grants d" using frame by simp
  have "grants_agree d'"
  proof -
    have same: "(\<exists>x \<in> set (t_approvals d @ opt_list approval). ap_decision x = did \<and> ap_status x = Approval_APPROVED)
        \<longleftrightarrow> (\<exists>x \<in> set (t_approvals d). ap_decision x = did \<and> ap_status x = Approval_APPROVED)" for did
      using pending by (cases approval) (auto simp: opt_list_def)
    have agree: "(\<exists>g \<in> set (t_grants d). gr_decision g = did)
        \<longleftrightarrow> (\<exists>x \<in> set (t_approvals d). ap_decision x = did \<and> ap_status x = Approval_APPROVED)" for did
      using store by (simp add: store_ok_def grants_agree_def)
    have scope: "\<exists>r \<in> set (t_decisions d). au_id r = gr_decision g \<and> au_project r = gr_project g \<and> au_decision r = REQUIRE_APPROVAL"
      if "g \<in> set (t_grants d)" for g
      using store that by (simp add: store_ok_def grants_agree_def)
    show ?thesis unfolding grants_agree_def grants tables(1,2)
    proof (intro conjI allI ballI)
      show "(\<exists>g \<in> set (t_grants d). gr_decision g = did)
        \<longleftrightarrow> (\<exists>x \<in> set (t_approvals d @ opt_list approval). ap_decision x = did \<and> ap_status x = Approval_APPROVED)" for did
        unfolding same by (rule agree)
      show "\<exists>r \<in> set (t_decisions d @ [a]). au_id r = gr_decision g \<and> au_project r = gr_project g \<and> au_decision r = REQUIRE_APPROVAL"
        if "g \<in> set (t_grants d)" for g using scope [OF that] by auto
    qed
  qed
  moreover have "list_all approval_valid (t_approvals d')"
    using store pending by (auto simp: tables(2) store_ok_def opt_list_def split: option.splits)
  ultimately have "store_ok d'" using dbok' store by (simp add: store_ok_def grants)
  moreover have "policies_ok d'" by (rule policies_ok_untouched [OF pol]) (use frame in simp_all)
  moreover have "idempotency_ok X d'"
    using idok idem by (fastforce simp: idempotency_ok_def tables(1,3) opt_list_def split: option.splits)
  moreover have "ledger_valid X d' pid" for pid
  proof -
    from tables(4) obtain p d1 d2 where t: "insert_decision a d = Inr d1" "ledger_insert X a d1 = Inr (p, d2)"
      "t_integrity d' = t_integrity d2" "t_decisions d2 = t_decisions d @ [a]" by blast
    have "ledger_valid X d2 pid"
      using recorded_decision_chain [OF dbok _ t(1,2), of pid] led by (simp add: ledgers_valid_def)
    then show ?thesis using ledger_valid_cong [of pid d' d2 X] t(3,4) tables(1) by simp
  qed
  ultimately show ?thesis by (simp add: service_ok_def ledgers_valid_def)
qed

section \<open>Operations that keep an invariant\<close>

definition keeps :: "(db \<Rightarrow> bool) \<Rightarrow> 'a operation \<Rightarrow> bool" where
  "keeps I m \<longleftrightarrow> (\<forall>d r d'. m d = (r, d') \<longrightarrow> I d \<longrightarrow> I d')"

lemma keepsD: "keeps I m \<Longrightarrow> m d = (r, d') \<Longrightarrow> I d \<Longrightarrow> I d'"
  by (auto simp: keeps_def)

named_theorems keeps_intros "operations that keep an invariant"

lemma keeps_reading [keeps_intros]: "keeps I (reading q)"
  by (simp add: keeps_def reading_def)

lemma keeps_raising [keeps_intros]: "keeps I (raising e)"
  by (simp add: keeps_def raising_def)

lemma keeps_returning [keeps_intros]: "keeps I (returning x)"
  by (simp add: keeps_def returning_def)

lemma keeps_andThen [keeps_intros]: "keeps I m \<Longrightarrow> (\<And>x. keeps I (f x)) \<Longrightarrow> keeps I (andThen m f)"
  unfolding keeps_def andThen_def
  by (intro allI impI) (auto split: prod.splits sum.splits)

lemma keeps_if [keeps_intros]: "keeps I m \<Longrightarrow> keeps I n \<Longrightarrow> keeps I (if b then m else n)"
  by simp

lemma keeps_transaction [keeps_intros]:
  "(\<And>d x d'. b d = Inr (x, d') \<Longrightarrow> I d \<Longrightarrow> I d') \<Longrightarrow> keeps I (transaction b)"
  by (auto simp: keeps_def transaction_def split: sum.splits)

lemma service_ok_uuids [simp]: "service_ok X (d\<lparr>t_uuids := us\<rparr>) = service_ok X d"
proof -
  have "db_ok (d\<lparr>t_uuids := us\<rparr>) = db_ok d" by (simp add: db_ok_def update_references)
  moreover have "policies_ok (d\<lparr>t_uuids := us\<rparr>) = policies_ok d"
    by (simp add: policies_ok_def histories_ok_def history_ok_def current_policy_def versions_of_def)
  ultimately show ?thesis
    by (simp add: service_ok_def store_ok_def grants_agree_def idempotency_ok_def ledgers_valid_def ledger_valid_def
        project_chain_def project_decisions_def)
qed

lemma keeps_new_uuid [keeps_intros]: "keeps (service_ok X) new_uuid"
  by (auto simp: keeps_def new_uuid_def uuid4_def)

lemma keeps_get_idempotent [keeps_intros]: "keeps I (get_idempotent_authorization key fp pid)"
  unfolding get_idempotent_authorization_def by (rule keeps_reading)

lemma save_or_reuse_state:
  assumes "save_or_reuse X a approval key fp d = (r, d')"
  obtains r1 where "save_authorization_with_approval X a approval (new_idempotency key fp a) d = (r1, d')"
proof -
  obtain r1 d1 where s: "save_authorization_with_approval X a approval (new_idempotency key fp a) d = (r1, d1)" by force
  have "d' = d1"
    using assms s by (auto simp: save_or_reuse_def andThen_def get_idempotent_authorization_def reading_def raising_def
        returning_def split: sum.splits if_splits option.splits)
  with s that show thesis by simp
qed

lemma new_approval_pending:
  assumes "new_approval a ttl = Inr (Some ap)"
  shows "ap_decision ap = au_id a \<and> ap_status ap = Approval_PENDING \<and> approval_valid ap"
  using assms by (auto simp: new_approval_def row_to_approval_def bindE_Inr_iff split: if_splits)

lemma save_or_reuse_keeps:
  assumes "new_approval a ttl = Inr approval" and fp: "fp = build_request_fingerprint X (request_of a)"
  shows "keeps (service_ok X) (save_or_reuse X a approval key fp)"
  unfolding keeps_def
proof (intro allI impI)
  fix d r d' assume run: "save_or_reuse X a approval key fp d = (r, d')" and ok: "service_ok X d"
  from save_or_reuse_state [OF run] obtain r1
    where s: "save_authorization_with_approval X a approval (new_idempotency key fp a) d = (r1, d')" .
  have "keeps (service_ok X) (save_authorization_with_approval X a approval (new_idempotency key fp a))"
  proof -
    have block: "service_ok X d2" if "save_authorization_block X a approval (new_idempotency key fp a) d1 = Inr (u, d2)"
      "service_ok X d1" for d1 d2 u
    proof (rule save_block_service_ok [OF that(2,1)])
      show "ap_status ap = Approval_PENDING \<and> approval_valid ap" if "approval = Some ap" for ap
        using new_approval_pending [of a ttl ap] assms(1) that by simp
      show "im_project im = au_project a \<and> im_decision im = au_id a
          \<and> im_fingerprint im = build_request_fingerprint X (request_of a)" if "new_idempotency key fp a = Some im" for im
      proof (cases key)
        case (Some k)
        with that have "im = \<lparr>im_project = au_project a, im_key = k, im_fingerprint = fp, im_decision = au_id a,
            im_created_at = au_evaluated_at a\<rparr>" by (simp add: new_idempotency_def)
        with fp show ?thesis by simp
      qed (use that in \<open>simp add: new_idempotency_def\<close>)
    qed
    show ?thesis unfolding save_authorization_with_approval_def
      by (intro keeps_intros) (erule (1) block)
  qed
  from keepsD [OF this s ok] show "service_ok X d'" .
qed

lemma request_of_new [simp]: "request_of (new_authorization u pid t request ev) = request"
  by (simp add: request_of_def new_authorization_def)

lemma authorize_keeps: "keeps (service_ok X) (authorize_request X request key project now ttl)"
proof -
  have "keeps (service_ok X) (case new_approval (new_authorization u (pr_id project) now request ev) ttl of
      Inl e \<Rightarrow> raising e
    | Inr approval \<Rightarrow> save_or_reuse X (new_authorization u (pr_id project) now request ev) approval key
        (build_request_fingerprint X request))" for u ev
  proof (cases "new_approval (new_authorization u (pr_id project) now request ev) ttl")
    case (Inr approval)
    have "keeps (service_ok X) (save_or_reuse X (new_authorization u (pr_id project) now request ev) approval key
        (build_request_fingerprint X request))"
      by (rule save_or_reuse_keeps [OF Inr]) simp
    with Inr show ?thesis by simp
  qed (simp add: keeps_raising)
  then show ?thesis unfolding authorize_request_def Let_def
    by (intro keeps_intros) (auto intro!: keeps_intros split: option.split)
qed

section \<open>When an authorization is stored\<close>

definition next_proof :: "externals \<Rightarrow> db \<Rightarrow> authorization \<Rightarrow> integrity_proof" where
  "next_proof X d a = (let chain = project_chain d (au_project a) in
     if chain = [] then build_decision_integrity_proof X a 1 None
     else build_decision_integrity_proof X a (ip_sequence (last chain) + 1) (Some (ip_record_hash (last chain))))"

lemma next_proof_chain:
  "project_chain d (au_project a) = proofs_of X as 1 None \<Longrightarrow>
    next_proof X d a = build_decision_integrity_proof X a (1 + int (length as))
      (chain_head ip_record_hash (proofs_of X as 1 None) None)"
  by (cases "as = []") (simp_all add: next_proof_def Let_def chain_head_def add.commute last_sequence)

lemma ledger_insert_next_proof: "ledger_insert X a d = bindE (insert_proof (next_proof X d a) d) (\<lambda>d1. Inr (next_proof X d a, d1))"
  by (simp add: ledger_insert_def next_proof_def Let_def)

lemma save_block_done:
  assumes ok: "db_ok d" and valid: "ledger_valid X d (au_project a)" and fresh: "fresh_ids d"
    and new: "unused (au_id a) d" and project: "project_exists d (au_project a)"
    and digests: "\<forall>s. is_sha256_text (x_sha256 X s)"
    and pending: "\<And>ap. approval = Some ap \<Longrightarrow> ap_decision ap = au_id a \<and> approval_check ap"
    and idem: "\<And>im. idem = Some im \<Longrightarrow> im_decision im = au_id a
      \<and> list_all (\<lambda>r. \<not> (im_project r = im_project im \<and> im_key r = im_key im)) (t_idempotency d)"
  shows "if ip_record_hash (next_proof X d a) \<in> ip_record_hash ` set (t_integrity d)
    then save_authorization_block X a approval idem d = Inl IntegrityError
    else \<exists>d'. save_authorization_block X a approval idem d = Inr ((), d')
      \<and> t_integrity d' = t_integrity d @ [next_proof X d a]"
proof -
  let ?d1 = "d\<lparr>t_decisions := t_decisions d @ [a]\<rparr>"
  let ?p = "next_proof X d a"
  have refs: "ip_decision ` set (t_integrity d) \<subseteq> au_id ` set (t_decisions d)"
    "ap_decision ` set (t_approvals d) \<subseteq> au_id ` set (t_decisions d)"
    "im_decision ` set (t_idempotency d) \<subseteq> au_id ` set (t_decisions d)"
    using ok by (simp_all add: db_ok_def references_ok_def refers_def)
  have un: "au_id a \<notin> au_id ` set (t_decisions d)" using new by (auto simp: unused_def known_ids_def)
  have apart: "ip_decision q \<noteq> au_id a" if "q \<in> set (t_integrity d)" for q
    using refs(1) un that by (metis imageI subsetD)
  have apart': "ap_decision q \<noteq> au_id a" if "q \<in> set (t_approvals d)" for q
    using refs(2) un that by (metis imageI subsetD)
  have apart'': "im_decision q \<noteq> au_id a" if "q \<in> set (t_idempotency d)" for q
    using refs(3) un that by (metis imageI subsetD)
  have s1: "insert_decision a d = Inr ?d1"
    using un by (auto simp: insert_decision_def decision_row_ok_def decision_exists_iff)
  have next1: "next_proof X ?d1 a = ?p" by (simp add: next_proof_def project_chain_def)
  show ?thesis
  proof (cases "ip_record_hash ?p \<in> ip_record_hash ` set (t_integrity d)")
    case True
    then have "\<not> integrity_row_ok ?d1 ?p" by (auto simp: integrity_row_ok_def list_all_iff)
    then have "ledger_insert X a ?d1 = Inl IntegrityError" by (simp add: ledger_insert_next_proof next1 insert_proof_def)
    with True s1 show ?thesis by (simp add: save_authorization_block_def)
  next
    case False
    from valid obtain as where chain: "project_chain ?d1 (au_project a) = proofs_of X as 1 None"
      by (auto simp: ledger_valid_def project_chain_def)
    have "\<exists>p d'. ledger_insert X a ?d1 = Inr (p, d')"
    proof (rule ledger_insert_total [OF chain digests])
      show "\<forall>q \<in> set (t_integrity ?d1). ip_decision q \<noteq> au_id a" using apart by simp
      show "ip_record_hash (build_decision_integrity_proof X a (1 + int (length as))
          (chain_head ip_record_hash (proofs_of X as 1 None) None)) \<notin> ip_record_hash ` set (t_integrity ?d1)"
        unfolding next_proof_chain [OF chain, symmetric] next1 using False by simp
    qed simp
    then have s2: "ledger_insert X a ?d1 = Inr (?p, ?d1\<lparr>t_integrity := t_integrity d @ [?p]\<rparr>)"
      by (auto simp: ledger_insert_next_proof next1 bindE_Inr_iff insert_proof_def split: if_splits)
    let ?d2 = "?d1\<lparr>t_integrity := t_integrity d @ [?p]\<rparr>"
    let ?d3 = "?d2\<lparr>t_approvals := t_approvals d @ opt_list approval\<rparr>"
    let ?d4 = "?d3\<lparr>t_idempotency := t_idempotency d @ opt_list idem\<rparr>"
    have here: "decision_exists ?d2 (au_id a)" "decision_exists ?d3 (au_id a)"
      by (simp_all add: decision_exists_def)
    have s3: "optionally insert_approval approval ?d2 = Inr ?d3"
    proof (cases approval)
      case (Some ap)
      have "approval_row_ok ?d2 ap"
        using pending [OF Some] here(1) apart' by (simp add: approval_row_ok_def list_all_iff)
      with Some show ?thesis by (simp add: optionally_def insert_approval_def opt_list_def)
    qed (simp add: optionally_def opt_list_def)
    have s4: "optionally insert_idempotency idem ?d3 = Inr ?d4"
    proof (cases idem)
      case (Some im)
      have "idempotency_row_ok ?d3 im"
        using idem [OF Some] here(2) apart'' by (simp add: idempotency_row_ok_def list_all_iff)
      with Some show ?thesis by (simp add: optionally_def insert_idempotency_def opt_list_def)
    qed (simp add: optionally_def opt_list_def)
    have "accepted authorization_scope d ?d1" by (rule insert_decision_accepted [OF s1]) simp
    also have "accepted authorization_scope ?d1 ?d2" by (rule ledger_insert_accepted [OF s2]) simp
    also have "accepted authorization_scope ?d2 ?d3"
      by (rule optionally_accepted [OF s3]) (erule insert_approval_accepted, simp)
    also have "accepted authorization_scope ?d3 ?d4"
      by (rule optionally_accepted [OF s4]) (erule insert_idempotency_accepted, simp)
    finally have ok4: "db_ok ?d4" using ok by (rule accepted_ok)
    have "known_ids ?d4 = insert (au_id a) (known_ids d)" by (auto simp: known_ids_def)
    moreover have "t_uuids d n \<noteq> au_id a" for n using new unfolding unused_def by (metis rangeI)
    ultimately have fresh4: "fresh_ids ?d4" using fresh by (simp add: fresh_ids_def)
    have project4: "project_exists ?d4 (au_project a)" using project by (simp add: project_exists_def)
    have len: "1 \<le> text_length (uuid_text v)" "text_length (uuid_text v) \<le> 200" for v by simp_all
    obtain d5 where s5: "announce_authorization X a ?d4 = Inr d5" and fresh5: "fresh_ids d5"
      using announce_total [OF ok4 fresh4 project4 len] unfolding announce_authorization_def by blast
    have acc5: "accepted outbox_tables ?d4 d5" by (rule announce_authorization_accepted [OF s5]) simp
    have ok5: "db_ok d5" "project_exists d5 (au_project a)"
      using accepted_ok [OF acc5 ok4] accepted_frame(1) [OF acc5] project by (simp_all add: project_exists_def)
    obtain d6 where s6: "optionally (announce_approval X (au_project a)) approval d5 = Inr d6"
    proof (cases approval)
      case (Some ap)
      have "\<exists>d6. announce_approval X (au_project a) ap d5 = Inr d6"
        using announce_total [OF ok5(1) fresh5 ok5(2) len] unfolding announce_approval_def by blast
      with Some that show ?thesis by (auto simp: optionally_def)
    qed (use that in \<open>simp add: optionally_def\<close>)
    have acc6: "accepted outbox_tables d5 d6"
      by (rule optionally_accepted [OF s6]) (erule announce_approval_accepted, simp)
    have "save_authorization_block X a approval idem d = Inr ((), d6)"
      by (simp add: save_authorization_block_def s1 s2 s3 s4 s5 s6)
    moreover have "t_integrity d6 = t_integrity d @ [?p]"
      using accepted_frame(4) [OF acc6] accepted_frame(4) [OF acc5] by simp
    ultimately show ?thesis using False by auto
  qed
qed

section \<open>Outcomes\<close>

definition known_request :: "db \<Rightarrow> uuid \<Rightarrow> string option \<Rightarrow> idempotency_record option" where
  "known_request d pid key = (case key of None \<Rightarrow> None | Some k \<Rightarrow> get_idempotency_record pid k d)"

definition pending_approval :: "authorization \<Rightarrow> int \<Rightarrow> approval" where
  "pending_approval a ttl = \<lparr>ap_decision = au_id a, ap_status = Approval_PENDING, ap_requested_at = au_evaluated_at a,
     ap_expires_at = Some (au_evaluated_at a + seconds ttl), ap_resolved_at = None, ap_resolved_by = None\<rparr>"

lemma new_approval_made:
  "0 < ttl \<Longrightarrow> new_approval a ttl = Inr (if au_decision a = REQUIRE_APPROVAL then Some (pending_approval a ttl) else None)"
  by (simp add: new_approval_def row_to_approval_def approval_valid_def pending_approval_def seconds_def)

lemma pending_approval_check: "0 < ttl \<Longrightarrow> approval_check (pending_approval a ttl)"
  by (simp add: approval_check_def pending_approval_def seconds_def)

lemma idempotent_authorization_known:
  assumes ok: "service_ok X d" and r: "get_idempotency_record pid k d = Some r"
  shows "if im_fingerprint r = fp
    then \<exists>a \<in> set (t_decisions d). au_id a = im_decision r \<and> au_project a = pid
      \<and> build_request_fingerprint X (request_of a) = fp \<and> get_idempotent_authorization k fp pid d = (Inr (Some a), d)
    else get_idempotent_authorization k fp pid d = (Inl (http_error 409 ''idempotency_key_conflict'' []), d)"
proof (cases "im_fingerprint r = fp")
  case True
  have "r \<in> set (t_idempotency d)" "im_project r = pid"
    using r by (auto simp: get_idempotency_record_def dest: find_row_Some)
  then obtain a where a: "a \<in> set (t_decisions d)" "au_id a = im_decision r" "au_project a = pid"
    "im_fingerprint r = build_request_fingerprint X (request_of a)"
    using ok by (auto simp: service_ok_def idempotency_ok_def)
  have "decisions_get (im_decision r) pid d = Some a"
    unfolding decisions_get_def
    by (rule find_row_unique [where k = au_id]) (use a service_ok_db [OF ok] in \<open>auto simp: db_ok_def unique_by_def\<close>)
  with r True a show ?thesis by (auto simp: get_idempotent_authorization_def reading_def)
qed (simp add: get_idempotent_authorization_def reading_def r)

lemma authorize_known:
  assumes ok: "service_ok X d" and r: "known_request d (pr_id project) key = Some r"
  shows "if im_fingerprint r = build_request_fingerprint X request
    then \<exists>a \<in> set (t_decisions d). au_id a = im_decision r \<and> au_project a = pr_id project
      \<and> build_request_fingerprint X (request_of a) = build_request_fingerprint X request
      \<and> authorize_request X request key project now ttl d = (Inr a, d)
    else authorize_request X request key project now ttl d = (Inl (http_error 409 ''idempotency_key_conflict'' []), d)"
proof -
  from r obtain k where k: "key = Some k" "get_idempotency_record (pr_id project) k d = Some r"
    by (auto simp: known_request_def split: option.splits)
  show ?thesis
  proof (cases "im_fingerprint r = build_request_fingerprint X request")
    case True
    with idempotent_authorization_known [OF ok k(2), of "build_request_fingerprint X request"] obtain a
      where a: "a \<in> set (t_decisions d)" "au_id a = im_decision r" "au_project a = pr_id project"
        "build_request_fingerprint X (request_of a) = build_request_fingerprint X request"
        and run: "get_idempotent_authorization k (build_request_fingerprint X request) (pr_id project) d = (Inr (Some a), d)"
      by auto
    have "authorize_request X request key project now ttl d = (Inr a, d)"
      by (simp add: authorize_request_def Let_def k(1) andThen_def run returning_def)
    with True a show ?thesis by auto
  next
    case False
    with idempotent_authorization_known [OF ok k(2), of "build_request_fingerprint X request"]
    have "get_idempotent_authorization k (build_request_fingerprint X request) (pr_id project) d
        = (Inl (http_error 409 ''idempotency_key_conflict'' []), d)" by simp
    with False show ?thesis by (simp add: authorize_request_def Let_def k(1) andThen_def)
  qed
qed

text \<open>What is stored with a new authorization.\<close>

definition stored_with :: "externals \<Rightarrow> authorization \<Rightarrow> string option \<Rightarrow> string \<Rightarrow> int \<Rightarrow> db \<Rightarrow> db \<Rightarrow> bool" where
  "stored_with X a key fingerprint ttl d d' \<longleftrightarrow>
     t_decisions d' = t_decisions d @ [a] \<and> t_integrity d' = t_integrity d @ [next_proof X d a]
     \<and> t_approvals d' = t_approvals d @ (if au_decision a = REQUIRE_APPROVAL then [pending_approval a ttl] else [])
     \<and> t_idempotency d' = t_idempotency d @ opt_list (new_idempotency key fingerprint a)
     \<and> t_grants d' = t_grants d \<and> t_policies d' = t_policies d"

lemma authorize_new:
  assumes ok: "service_ok X d" and fresh: "fresh_ids d" and project: "project_exists d (pr_id project)"
    and digests: "\<forall>s. is_sha256_text (x_sha256 X s)" and ttl: "0 < ttl"
    and unknown: "known_request d (pr_id project) key = None"
  shows "case evaluate_request request (pr_id project) d of
      Inl e \<Rightarrow> authorize_request X request key project now ttl d = (Inl e, d)
    | Inr ev \<Rightarrow> (let a = new_authorization (t_uuids d 0) (pr_id project) now request ev in
        if ip_record_hash (next_proof X d a) \<in> ip_record_hash ` set (t_integrity d)
        then \<exists>us. authorize_request X request key project now ttl d = (Inl IntegrityError, d\<lparr>t_uuids := us\<rparr>)
        else \<exists>d'. authorize_request X request key project now ttl d = (Inr a, d')
          \<and> stored_with X a key (build_request_fingerprint X request) ttl d d')"
proof -
  let ?fp = "build_request_fingerprint X request" and ?pid = "pr_id project"
  let ?d1 = "d\<lparr>t_uuids := (\<lambda>n. t_uuids d (Suc n))\<rparr>"
  have no_key: "(case key of None \<Rightarrow> returning None | Some k \<Rightarrow> get_idempotent_authorization k ?fp ?pid) d = (Inr None, d)"
    using unknown by (auto simp: known_request_def returning_def get_idempotent_authorization_def reading_def
        split: option.splits)
  show ?thesis
  proof (cases "evaluate_request request ?pid d")
    case (Inl e)
    then show ?thesis by (simp add: authorize_request_def Let_def andThen_def no_key reading_def)
  next
    case (Inr ev)
    let ?u = "t_uuids d 0"
    let ?a = "new_authorization ?u ?pid now request ev"
    let ?approval = "if au_decision ?a = REQUIRE_APPROVAL then Some (pending_approval ?a ttl) else None"
    let ?idem = "new_idempotency key ?fp ?a"
    have fields: "au_project ?a = ?pid" "au_id ?a = ?u" by (simp_all add: new_authorization_def)
    have u: "uuid4 d = (?u, ?d1)" by (simp add: uuid4_def)
    note fresh1 = fresh_uuid4 [OF fresh u]
    have un: "unused ?u ?d1"
      using fresh1(1,2) fresh by (auto simp: unused_def fresh_ids_def dest: injD)
    have run: "authorize_request X request key project now ttl d = save_or_reuse X ?a ?approval key ?fp ?d1"
      by (simp add: authorize_request_def Let_def andThen_def no_key reading_def Inr new_uuid_def u
          new_approval_made [OF ttl])
    have "service_ok X ?d1" using ok by simp
    then have ok1: "db_ok ?d1" "ledger_valid X ?d1 (au_project ?a)"
      by (simp_all only: service_ok_def store_ok_def ledgers_valid_def)
    have idem: "im_decision im = au_id ?a
        \<and> list_all (\<lambda>r. \<not> (im_project r = im_project im \<and> im_key r = im_key im)) (t_idempotency ?d1)"
      if "?idem = Some im" for im
      using that unknown fields by (cases key)
        (auto simp: new_idempotency_def known_request_def get_idempotency_record_def find_row_None list_all_iff)
    have pending: "ap_decision ap = au_id ?a \<and> approval_check ap" if "?approval = Some ap" for ap
      using that pending_approval_check [OF ttl, of ?a] by (auto simp: pending_approval_def split: if_splits)
    have project1: "project_exists ?d1 (au_project ?a)" using project by (simp add: project_exists_def fields)
    have saved: "if ip_record_hash (next_proof X ?d1 ?a) \<in> ip_record_hash ` set (t_integrity ?d1)
      then save_authorization_block X ?a ?approval ?idem ?d1 = Inl IntegrityError
      else \<exists>d'. save_authorization_block X ?a ?approval ?idem ?d1 = Inr ((), d')
        \<and> t_integrity d' = t_integrity ?d1 @ [next_proof X ?d1 ?a]"
    proof (rule save_block_done)
      show "db_ok ?d1" "ledger_valid X ?d1 (au_project ?a)" by (fact ok1)+
      show "fresh_ids ?d1" by (fact fresh1(3))
      show "unused (au_id ?a) ?d1" unfolding fields by (fact un)
      show "project_exists ?d1 (au_project ?a)" by (fact project1)
      show "\<forall>s. is_sha256_text (x_sha256 X s)" by (fact digests)
    qed (fact pending, fact idem)
    have same: "next_proof X ?d1 ?a = next_proof X d ?a" by (simp add: next_proof_def project_chain_def)
    have guards: "save_authorization_with_approval X ?a ?approval ?idem = transaction (save_authorization_block X ?a ?approval ?idem)"
      by (auto simp: save_authorization_with_approval_def pending_approval_def new_idempotency_def split: option.split)
    show ?thesis
    proof (cases "ip_record_hash (next_proof X d ?a) \<in> ip_record_hash ` set (t_integrity d)")
      case True
      with saved same have "save_authorization_block X ?a ?approval ?idem ?d1 = Inl IntegrityError" by simp
      then have "save_authorization_with_approval X ?a ?approval ?idem ?d1 = (Inl IntegrityError, ?d1)"
        by (simp only: guards transaction_def) simp
      moreover have "get_idempotent_authorization k ?fp ?pid ?d1 = (Inr None, ?d1)" if "key = Some k" for k
        using unknown that by (simp add: known_request_def get_idempotent_authorization_def reading_def
            get_idempotency_record_def)
      ultimately have "save_or_reuse X ?a ?approval key ?fp ?d1 = (Inl IntegrityError, ?d1)"
        by (cases key) (simp_all add: save_or_reuse_def andThen_def raising_def fields)
      with run Inr True show ?thesis by (auto simp: Let_def)
    next
      case False
      with saved same obtain d' where block: "save_authorization_block X ?a ?approval ?idem ?d1 = Inr ((), d')"
        and integrity: "t_integrity d' = t_integrity d @ [next_proof X d ?a]" by auto
      then have "save_authorization_with_approval X ?a ?approval ?idem ?d1 = (Inr (), d')"
        by (simp only: guards transaction_def) simp
      then have "authorize_request X request key project now ttl d = (Inr ?a, d')"
        unfolding run by (simp add: save_or_reuse_def)
      moreover have "stored_with X ?a key ?fp ttl d d'"
        using save_tables(1-3) [OF block] accepted_frame(6,8) [OF save_block_accepted [OF block]] integrity
        by (simp add: stored_with_def opt_list_def)
      ultimately show ?thesis using Inr False by (auto simp: Let_def)
    qed
  qed
qed

text \<open>A success with a key leaves the key's record, with the fingerprint of the request and the decision returned.\<close>

lemma success_recorded:
  assumes ok: "service_ok X d" and run: "authorize_request X request (Some k) project now ttl d = (Inr a, d')"
  shows "a \<in> set (t_decisions d') \<and> (\<exists>r \<in> set (t_idempotency d'). im_project r = pr_id project \<and> im_key r = k
    \<and> im_fingerprint r = build_request_fingerprint X request \<and> im_decision r = au_id a \<and> au_project a = pr_id project)"
proof (cases "get_idempotency_record (pr_id project) k d")
  case (Some r)
  then have known: "known_request d (pr_id project) (Some k) = Some r" by (simp add: known_request_def)
  have r: "r \<in> set (t_idempotency d)" "im_project r = pr_id project" "im_key r = k"
    using Some by (auto simp: get_idempotency_record_def dest: find_row_Some)
  show ?thesis
    using authorize_known [OF ok known, of request now ttl] run r by (auto split: if_splits)
next
  case None
  let ?fp = "build_request_fingerprint X request" and ?pid = "pr_id project"
  have miss: "get_idempotent_authorization k ?fp ?pid d1 = (Inr None, d1)"
    if "t_idempotency d1 = t_idempotency d" for d1
    using None that by (simp add: get_idempotent_authorization_def reading_def get_idempotency_record_def)
  let ?d1 = "d\<lparr>t_uuids := (\<lambda>n. t_uuids d (Suc n))\<rparr>"
  obtain ev where ev: "evaluate_request request ?pid d = Inr ev"
    using run by (cases "evaluate_request request ?pid d")
      (simp_all add: authorize_request_def Let_def andThen_def miss reading_def)
  let ?a = "new_authorization (t_uuids d 0) ?pid now request ev"
  obtain approval where approval: "new_approval ?a ttl = Inr approval"
    using run by (cases "new_approval ?a ttl")
      (simp_all add: authorize_request_def Let_def andThen_def miss reading_def ev new_uuid_def uuid4_def raising_def)
  have run': "save_or_reuse X ?a approval (Some k) ?fp ?d1 = (Inr a, d')"
    using run by (simp add: authorize_request_def Let_def andThen_def miss reading_def ev new_uuid_def uuid4_def approval)
  have own: "au_project ?a = ?pid" by (simp add: new_authorization_def)
  let ?save = "save_authorization_with_approval X ?a approval (new_idempotency (Some k) ?fp ?a)"
  obtain r1 d2 where s: "?save ?d1 = (r1, d2)" by force
  show ?thesis
  proof (cases r1)
    case (Inl e)
    then have "d2 = ?d1"
      using s by (auto simp: save_authorization_with_approval_def raising_def transaction_def split: if_splits sum.splits)
    with s Inl run' have False
      by (simp add: save_or_reuse_def andThen_def own miss raising_def split: if_splits)
    then show ?thesis ..
  next
    case (Inr u)
    with s run' have a: "a = ?a" "d' = d2" by (simp_all add: save_or_reuse_def)
    from s Inr have "save_authorization_block X ?a approval (new_idempotency (Some k) ?fp ?a) ?d1 = Inr (u, d2)"
      by (auto simp: save_authorization_with_approval_def raising_def transaction_def split: if_splits sum.splits)
    from save_tables(1,3) [OF this] show ?thesis using a own by (simp add: opt_list_def new_idempotency_def)
  qed
qed

lemma retried_request:
  assumes ok: "service_ok X d" and run: "authorize_request X request (Some k) project now ttl d = (Inr a, d')"
    and later: "db_evolved d' d2" and ok2: "service_ok X d2"
  shows "if build_request_fingerprint X request2 = build_request_fingerprint X request
    then authorize_request X request2 (Some k) project now2 ttl2 d2 = (Inr a, d2)
    else authorize_request X request2 (Some k) project now2 ttl2 d2 = (Inl (http_error 409 ''idempotency_key_conflict'' []), d2)"
proof -
  from success_recorded [OF ok run] obtain r where a: "a \<in> set (t_decisions d')" and r: "r \<in> set (t_idempotency d')"
    "im_project r = pr_id project" "im_key r = k" "im_fingerprint r = build_request_fingerprint X request"
    "im_decision r = au_id a" "au_project a = pr_id project" by auto
  have kept: "a \<in> set (t_decisions d2)" "r \<in> set (t_idempotency d2)"
    using later a r(1) by (auto simp: db_evolved_def evolved_no_update)
  have dbok: "db_ok d2" by (rule service_ok_db [OF ok2])
  have "get_idempotency_record (pr_id project) k d2 = Some r"
    unfolding get_idempotency_record_def
    by (rule find_row_unique [where k = "\<lambda>r. (im_project r, im_key r)"])
      (use dbok kept(2) r in \<open>auto simp: db_ok_def unique_by_def\<close>)
  then have known: "known_request d2 (pr_id project) (Some k) = Some r" by (simp add: known_request_def)
  have unique: "b = a" if "b \<in> set (t_decisions d2)" "au_id b = im_decision r" for b
    using unique_by_eq [of au_id "t_decisions d2" b a] that kept(1) r(5) dbok by (simp add: db_ok_def)
  show ?thesis
    using authorize_known [OF ok2 known, of request2 now2 ttl2] unique r(4) by (auto split: if_splits)
qed

lemma evaluate_request_decision:
  assumes active: "list_active pid d = Inr ps" and ev: "evaluate_request request pid d = Inr ev"
  shows "ev_decision ev = (if \<forall>p \<in> set ps. p_action p \<noteq> rq_action request then DENY
    else Max (insert ALLOW (p_decision ` {p \<in> set ps. p_action p = rq_action request \<and> matching (rq_context request) p})))"
proof -
  let ?ps = "filter (\<lambda>p. p_action p = rq_action request) ps"
  from ev active have run: "evaluate_policy (rq_action request) (rq_context request) ps = Inr ev"
    by (simp add: evaluate_request_def catchE_Inr_iff)
  show ?thesis
  proof (cases "?ps = []")
    case True
    then have none: "\<forall>p \<in> set ps. p_action p \<noteq> rq_action request" by (auto simp: filter_empty_conv)
    from run True have "ev = uncovered_evaluation (rq_action request)" by (simp add: evaluate_policy_def)
    with none show ?thesis by (simp add: uncovered_evaluation_def)
  next
    case False
    then have some: "\<not> (\<forall>p \<in> set ps. p_action p \<noteq> rq_action request)" by (auto simp: filter_empty_conv)
    have "ev_decision ev = best (filter (matching (rq_context request)) ?ps)"
      by (rule reports_decision [OF evaluate_policy_covered(2) [OF run False]])
    also have "\<dots> = Max (insert ALLOW (p_decision ` {p \<in> set ps. p_action p = rq_action request \<and> matching (rq_context request) p}))"
      by (simp add: best_Max conj_assoc)
    finally show ?thesis unfolding if_not_P [OF some] .
  qed
qed

section \<open>A sample request\<close>

definition sample_request :: "int \<Rightarrow> authorization_request" where
  "sample_request amount = \<lparr>rq_agent = ''agent'', rq_action = ''transfer'', rq_context = [(''amount'', JInt amount)]\<rparr>"

lemma policy_db_service_ok [simp]: "service_ok sample_externals policy_db"
proof -
  have rows: "t_idempotency policy_db = []" "t_integrity policy_db = []" "t_decisions policy_db = []"
    "t_grants policy_db = []" "t_approvals policy_db = []"
    by (simp_all add: policy_db_def sample_db_def empty_db_def)
  show ?thesis
    by (auto simp: service_ok_def store_ok_def grants_agree_def idempotency_ok_def ledgers_valid_def ledger_valid_def
        project_chain_def project_decisions_def rows intro!: exI [of _ "[]"])
qed

lemma sample_active: "list_active 2 policy_db = Inr [sample_policy 2]"
  by (subst list_active_ok [OF policy_db_policies_ok]) (simp add: policy_db_def enabled_configuration_def)

lemma sample_evaluation:
  "\<exists>ev. evaluate_request (sample_request 900) 2 policy_db = Inr ev \<and> ev_decision ev = REQUIRE_APPROVAL"
  by (simp add: evaluate_request_def sample_active sample_request_def evaluate_policy_def sample_policy_def
      evaluate_one_def check_condition_def evaluate_operator_def ordered_def num_less_def num_scale_def
      policy_matches_def Let_def initial_evaluation_def)

lemma sample_missing:
  "evaluate_request ((sample_request 900)\<lparr>rq_context := []\<rparr>) 2 policy_db
    = Inl (http_error 422 ''missing_policy_context'' [(''field'', JStr ''amount''), (''policy'', JStr ''transfers'')])"
  by (simp add: evaluate_request_def sample_active sample_request_def evaluate_policy_def sample_policy_def
      evaluate_one_def check_condition_def policy_http_error_def)

lemma sample_authorized:
  "\<exists>ev d'. evaluate_request (sample_request 900) 2 policy_db = Inr ev \<and> ev_decision ev = REQUIRE_APPROVAL
    \<and> authorize_request sample_externals (sample_request 900) (Some ''k1'') sample_project 20 60 policy_db
      = (Inr (new_authorization 1000 2 20 (sample_request 900) ev), d')
    \<and> stored_with sample_externals (new_authorization 1000 2 20 (sample_request 900) ev) (Some ''k1'')
        (build_request_fingerprint sample_externals (sample_request 900)) 60 policy_db d'"
proof -
  obtain ev where ev: "evaluate_request (sample_request 900) 2 policy_db = Inr ev" "ev_decision ev = REQUIRE_APPROVAL"
    using sample_evaluation by blast
  have rows: "t_idempotency policy_db = []" "t_integrity policy_db = []" "t_uuids policy_db 0 = 1000"
    by (simp_all add: policy_db_def sample_db_def empty_db_def)
  have id: "pr_id sample_project = 2" by (simp add: sample_project_def)
  have "known_request policy_db (pr_id sample_project) (Some ''k1'') = None"
    by (simp add: known_request_def get_idempotency_record_def rows)
  from authorize_new [OF policy_db_service_ok policy_db_ok(2) _ _ _ this, of 60 "sample_request 900" 20]
  show ?thesis using ev by (auto simp: id rows Let_def sample_digests)
qed

section \<open>Properties\<close>

text \<open>
  C9: Authorizing a request, on every branch. With a key that was used before, the stored decision is
  returned when the fingerprints agree, and the request is a conflict otherwise; nothing changes. A
  request the policies cannot evaluate is refused and nothing changes. Any other request is stored with
  its ledger record, its idempotency record and, exactly when approval is required, a pending approval
  that expires after the configured time; if the record's hash is already in the ledger nothing is stored.
\<close>

theorem authorization_outcome:
  assumes "service_ok X d" and "fresh_ids d" and "project_exists d (pr_id project)"
    and "\<forall>s. is_sha256_text (x_sha256 X s)" and "0 < ttl"
  shows "case known_request d (pr_id project) key of
      Some r \<Rightarrow> if im_fingerprint r = build_request_fingerprint X request
        then \<exists>a \<in> set (t_decisions d). au_id a = im_decision r \<and> au_project a = pr_id project
          \<and> build_request_fingerprint X (request_of a) = build_request_fingerprint X request
          \<and> authorize_request X request key project now ttl d = (Inr a, d)
        else authorize_request X request key project now ttl d = (Inl (http_error 409 ''idempotency_key_conflict'' []), d)
    | None \<Rightarrow> (case evaluate_request request (pr_id project) d of
        Inl e \<Rightarrow> authorize_request X request key project now ttl d = (Inl e, d)
      | Inr ev \<Rightarrow> (let a = new_authorization (t_uuids d 0) (pr_id project) now request ev in
          if ip_record_hash (next_proof X d a) \<in> ip_record_hash ` set (t_integrity d)
          then \<exists>us. authorize_request X request key project now ttl d = (Inl IntegrityError, d\<lparr>t_uuids := us\<rparr>)
          else \<exists>d'. authorize_request X request key project now ttl d = (Inr a, d')
            \<and> stored_with X a key (build_request_fingerprint X request) ttl d d'))"
proof (cases "known_request d (pr_id project) key")
  case None
  show ?thesis unfolding None option.case by (rule authorize_new [OF assms None])
next
  case (Some r)
  show ?thesis unfolding Some option.case by (rule authorize_known [OF assms(1) Some])
qed

theorem authorization_outcome_witness:
  "authorize_request sample_externals ((sample_request 900)\<lparr>rq_context := []\<rparr>) None sample_project 20 60 policy_db
    = (Inl (http_error 422 ''missing_policy_context'' [(''field'', JStr ''amount''), (''policy'', JStr ''transfers'')]), policy_db)
   \<and> (\<exists>a d'. authorize_request sample_externals (sample_request 900) (Some ''k1'') sample_project 20 60 policy_db = (Inr a, d')
      \<and> au_decision a = REQUIRE_APPROVAL \<and> t_approvals d' = [pending_approval a 60])"
proof -
  have rows: "t_idempotency policy_db = []" "t_integrity policy_db = []" "t_approvals policy_db = []"
    by (simp_all add: policy_db_def sample_db_def empty_db_def)
  have id: "pr_id sample_project = 2" by (simp add: sample_project_def)
  have new: "known_request policy_db 2 key = None" for key
    by (simp add: known_request_def get_idempotency_record_def rows split: option.split)
  have digests: "\<forall>s. is_sha256_text (x_sha256 sample_externals s)" by (simp add: sample_digests)
  note out = authorization_outcome [OF policy_db_service_ok policy_db_ok(2) _ digests, of sample_project 60, unfolded id new option.case,
      OF policy_db_ok(3)]
  have "authorize_request sample_externals ((sample_request 900)\<lparr>rq_context := []\<rparr>) None sample_project 20 60 policy_db
    = (Inl (http_error 422 ''missing_policy_context'' [(''field'', JStr ''amount''), (''policy'', JStr ''transfers'')]), policy_db)"
    using out [of "(sample_request 900)\<lparr>rq_context := []\<rparr>" None 20] by (simp add: sample_missing)
  moreover obtain ev where ev: "evaluate_request (sample_request 900) 2 policy_db = Inr ev" "ev_decision ev = REQUIRE_APPROVAL"
    using sample_evaluation by blast
  let ?a = "new_authorization (t_uuids policy_db 0) 2 20 (sample_request 900) ev"
  have "\<exists>d'. authorize_request sample_externals (sample_request 900) (Some ''k1'') sample_project 20 60 policy_db = (Inr ?a, d')
      \<and> stored_with sample_externals ?a (Some ''k1'') (build_request_fingerprint sample_externals (sample_request 900)) 60 policy_db d'"
    using out [of "sample_request 900" "Some ''k1''" 20] by (simp add: ev rows Let_def)
  moreover have "au_decision ?a = REQUIRE_APPROVAL" using ev by (simp add: new_authorization_def)
  ultimately show ?thesis by (auto simp: stored_with_def rows)
qed

text \<open>
  C10: Retries are safe. Once a request with a key was authorized, the same request with the same key
  returns the same decision in every later state and changes nothing, whatever the policies have become;
  the key with a request of another fingerprint is a conflict.
\<close>

theorem retry_returns_same_decision:
  assumes "service_ok X d" and "authorize_request X request (Some k) project now ttl d = (Inr a, d')"
    and "db_evolved d' d2" and "service_ok X d2"
  shows "if build_request_fingerprint X request2 = build_request_fingerprint X request
    then authorize_request X request2 (Some k) project now2 ttl2 d2 = (Inr a, d2)
    else authorize_request X request2 (Some k) project now2 ttl2 d2 = (Inl (http_error 409 ''idempotency_key_conflict'' []), d2)"
  by (rule retried_request [OF assms])

theorem retry_returns_same_decision_witness:
  "\<exists>a d'. authorize_request sample_externals (sample_request 900) (Some ''k1'') sample_project 20 60 policy_db = (Inr a, d')
    \<and> authorize_request sample_externals (sample_request 900) (Some ''k1'') sample_project 30 60 d' = (Inr a, d')"
proof -
  obtain a d' where run: "authorize_request sample_externals (sample_request 900) (Some ''k1'') sample_project 20 60 policy_db = (Inr a, d')"
    using sample_authorized by blast
  have "service_ok sample_externals d'" by (rule keepsD [OF authorize_keeps run policy_db_service_ok])
  from retry_returns_same_decision [OF policy_db_service_ok run db_evolved_refl this, of "sample_request 900"] run
  show ?thesis by auto
qed

text \<open>
  C12: Every authorization keeps the invariant of the service, whatever its outcome: grants agree with
  approvals, rows are valid, policy histories are consecutive, idempotency records name decisions of
  their project with their fingerprint, and every ledger is the hash chain of its project's decisions.
\<close>

theorem authorization_keeps_service:
  assumes "service_ok X d"
  shows "service_ok X (snd (authorize_request X request key project now ttl d))"
  by (rule keepsD [OF authorize_keeps prod.collapse [symmetric] assms])

theorem authorization_keeps_service_witness:
  "service_ok sample_externals (snd (authorize_request sample_externals (sample_request 900) (Some ''k1'') sample_project 20 60 policy_db))"
  by (rule authorization_keeps_service [OF policy_db_service_ok])

text \<open>
  C11: Default deny and the most restrictive policy: a new decision on an action that no active policy of
  the project covers is DENY; on a covered action it is the most restrictive decision among the active
  policies of the action whose conditions the context meets, ALLOW only if none of them restricts.
\<close>

theorem authorization_decides_by_policies:
  assumes "known_request d (pr_id project) key = None" and "list_active (pr_id project) d = Inr ps"
    and "service_ok X d" and "fresh_ids d" and "project_exists d (pr_id project)"
    and "\<forall>s. is_sha256_text (x_sha256 X s)" and "0 < ttl"
    and "authorize_request X request key project now ttl d = (Inr a, d')"
  shows "au_decision a = (if \<forall>p \<in> set ps. p_action p \<noteq> rq_action request then DENY
      else Max (insert ALLOW (p_decision ` {p \<in> set ps. p_action p = rq_action request \<and> matching (rq_context request) p})))
    \<and> request_of a = request \<and> au_project a = pr_id project"
proof -
  note new = authorize_new [OF assms(3-7) assms(1), of request now]
  obtain ev where ev: "evaluate_request request (pr_id project) d = Inr ev"
    using new assms(8) by (cases "evaluate_request request (pr_id project) d") auto
  have "a = new_authorization (t_uuids d 0) (pr_id project) now request ev"
    using new assms(8) unfolding ev by (auto simp: Let_def split: if_splits)
  then have a: "au_decision a = ev_decision ev" "request_of a = request" "au_project a = pr_id project"
    by (simp_all add: new_authorization_def request_of_def)
  show ?thesis unfolding a(1) evaluate_request_decision [OF assms(2) ev] using a(2,3) by simp
qed

theorem authorization_decides_by_policies_witness:
  "\<exists>a d'. authorize_request sample_externals (sample_request 900) (Some ''k1'') sample_project 20 60 policy_db = (Inr a, d')
    \<and> au_decision a = Max (insert ALLOW (p_decision ` {p \<in> set [sample_policy 2]. p_action p = ''transfer''
        \<and> matching [(''amount'', JInt 900)] p}))"
proof -
  have rows: "t_idempotency policy_db = []" by (simp add: policy_db_def sample_db_def empty_db_def)
  have id: "pr_id sample_project = 2" by (simp add: sample_project_def)
  have new: "known_request policy_db (pr_id sample_project) (Some ''k1'') = None"
    by (simp add: known_request_def get_idempotency_record_def rows)
  have digests: "\<forall>s. is_sha256_text (x_sha256 sample_externals s)" by (simp add: sample_digests)
  have active: "list_active (pr_id sample_project) policy_db = Inr [sample_policy 2]" by (simp add: id sample_active)
  have project: "project_exists policy_db (pr_id sample_project)" by (simp add: id)
  obtain a d' where run: "authorize_request sample_externals (sample_request 900) (Some ''k1'') sample_project 20 60 policy_db = (Inr a, d')"
    using sample_authorized by blast
  have action: "p_action (sample_policy 2) = ''transfer''" "rq_action (sample_request 900) = ''transfer''"
    "rq_context (sample_request 900) = [(''amount'', JInt 900)]"
    by (simp_all add: sample_policy_def sample_request_def)
  from authorization_decides_by_policies [OF new active policy_db_service_ok policy_db_ok(2) project digests _ run]
  show ?thesis using run action by auto
qed

end
