(* ===== verification/Triples.thy ===== *)
theory Triples
  imports Authorize
begin

text \<open>
  Composing store operations: exception handlers, loops that thread a value through operations, and
  the rules for what an operation that returns a value has established (\<open>ensures\<close>), beside
  the invariants every operation keeps (\<open>keeps\<close>).
\<close>

text \<open>\<open>try: ... except\<close> around an operation: the handler runs on the database it left.\<close>

definition catching :: "'a operation \<Rightarrow> (exn \<Rightarrow> 'a operation) \<Rightarrow> 'a operation" where
  "catching m h d = (case m d of (Inl e, d') \<Rightarrow> h e d' | (Inr x, d') \<Rightarrow> (Inr x, d'))"

text \<open>\<open>for x in xs:\<close> with an accumulator: the first exception ends the loop.\<close>

fun fold_op :: "('a \<Rightarrow> 's \<Rightarrow> 's operation) \<Rightarrow> 'a list \<Rightarrow> 's \<Rightarrow> 's operation" where
  "fold_op f [] s = returning s"
| "fold_op f (x # xs) s = andThen (f x s) (fold_op f xs)"

definition ensures :: "(db \<Rightarrow> bool) \<Rightarrow> 'a operation \<Rightarrow> ('a \<Rightarrow> db \<Rightarrow> bool) \<Rightarrow> bool" where
  "ensures P m Q \<longleftrightarrow> (\<forall>d x d'. P d \<longrightarrow> m d = (Inr x, d') \<longrightarrow> Q x d')"

named_theorems ensures_intros "what an operation that returns a value has established"

lemma ensuresD: "ensures P m Q \<Longrightarrow> m d = (Inr x, d') \<Longrightarrow> P d \<Longrightarrow> Q x d'"
  by (auto simp: ensures_def)

lemma ensures_returning: "(\<And>d. P d \<Longrightarrow> Q x d) \<Longrightarrow> ensures P (returning x) Q"
  by (simp add: ensures_def returning_def)

lemma ensures_raising [ensures_intros]: "ensures P (raising e) Q"
  by (simp add: ensures_def raising_def)

lemma ensures_reading: "(\<And>d x. P d \<Longrightarrow> q d = Inr x \<Longrightarrow> Q x d) \<Longrightarrow> ensures P (reading q) Q"
  by (simp add: ensures_def reading_def)

lemma ensures_andThen:
  "ensures P m R \<Longrightarrow> (\<And>x. ensures (R x) (f x) Q) \<Longrightarrow> ensures P (andThen m f) Q"
  unfolding ensures_def andThen_def by (auto split: prod.splits sum.splits)

lemma ensures_transaction:
  "(\<And>d x d'. P d \<Longrightarrow> b d = Inr (x, d') \<Longrightarrow> Q x d') \<Longrightarrow> ensures P (transaction b) Q"
  by (auto simp: ensures_def transaction_def split: sum.splits)

lemma ensures_weaken: "ensures P m Q \<Longrightarrow> (\<And>d. P' d \<Longrightarrow> P d) \<Longrightarrow> (\<And>x d. Q x d \<Longrightarrow> Q' x d) \<Longrightarrow> ensures P' m Q'"
  unfolding ensures_def by blast

lemma ensures_catching:
  assumes "keeps P m" and "ensures P m Q" and "\<And>e. ensures P (h e) Q"
  shows "ensures P (catching m h) Q"
  unfolding ensures_def
proof (intro allI impI)
  fix d x d' assume P: "P d" and run: "catching m h d = (Inr x, d')"
  obtain r d1 where m: "m d = (r, d1)" by force
  show "Q x d'"
  proof (cases r)
    case (Inl e)
    have "P d1" by (rule keepsD [OF assms(1) m P])
    moreover have "h e d1 = (Inr x, d')" using run m Inl by (simp add: catching_def)
    ultimately show ?thesis using ensuresD [OF assms(3)] by blast
  next
    case (Inr y)
    with run m have "m d = (Inr x, d')" by (simp add: catching_def)
    then show ?thesis by (rule ensuresD [OF assms(2) _ P])
  qed
qed

lemma ensures_keeps: "keeps P m \<Longrightarrow> ensures P m (\<lambda>_. P)"
  by (auto simp: ensures_def keeps_def)

lemma keeps_catching [keeps_intros]: "keeps I m \<Longrightarrow> (\<And>e. keeps I (h e)) \<Longrightarrow> keeps I (catching m h)"
  unfolding keeps_def catching_def by (auto split: prod.splits sum.splits)

lemma keeps_fold_op: "(\<And>x s. x \<in> set xs \<Longrightarrow> keeps I (f x s)) \<Longrightarrow> keeps I (fold_op f xs s)"
proof (induction xs arbitrary: s)
  case Nil
  then show ?case by (simp add: keeps_returning)
next
  case (Cons x xs)
  show ?case unfolding fold_op.simps by (intro keeps_andThen Cons.IH Cons.prems) auto
qed

lemma catching_operation: "store_operation S m \<Longrightarrow> (\<And>e. store_operation S (h e)) \<Longrightarrow> store_operation S (catching m h)"
proof
  fix d r d' assume m: "store_operation S m" and h: "\<And>e. store_operation S (h e)" and run: "catching m h d = (r, d')"
  obtain r1 d1 where m1: "m d = (r1, d1)" by force
  then have a: "accepted S d d1" using m by (auto simp: store_operation_def)
  show "accepted S d d'"
  proof (cases r1)
    case (Inl e)
    then have "h e d1 = (r, d')" using run m1 by (simp add: catching_def)
    then have "accepted S d1 d'" using h by (auto simp: store_operation_def)
    with a show ?thesis by (rule accepted_trans)
  next
    case (Inr x)
    with a run m1 show ?thesis by (simp add: catching_def)
  qed
qed

lemma fold_operation: "(\<And>x s. store_operation S (f x s)) \<Longrightarrow> store_operation S (fold_op f xs s)"
  by (induction xs arbitrary: s) (simp_all add: andThen_operation)

end
