(* ===== verification/Grant_Tokens.thy ===== *)
theory Grant_Tokens
  imports Base64 Triples
begin

text \<open>
  The tokens of execution grants, \<open>app/execution_grants.py\<close>, and the services that issue and
  redeem them, \<open>app/services/approvals.py\<close> and \<open>app/services/execution_grants.py\<close>. The
  first section shows that the tokens the service accepts are exactly the ones it builds; the last
  one composes both services: the token of an approval executes the approved request and nothing
  else, once, before it expires.
\<close>

section \<open>Tokens\<close>

definition EXECUTION_GRANT_PREFIX :: string where
  "EXECUTION_GRANT_PREFIX = ''dag_exec_v1''"

definition validate_secret :: "string \<Rightarrow> exn + string" where
  "validate_secret secret =
     (if length secret < 32 then Inl (ValueError ''Execution grant secret must contain at least 32 bytes.'')
      else Inr secret)"

text \<open>The validators of \<open>ExecutionGrantPayload\<close>.\<close>

definition payload_valid :: "'a grant_payload_scheme \<Rightarrow> bool" where
  "payload_valid p \<longleftrightarrow> gr_version p = 1 \<and> is_sha256_text (gr_fingerprint p) \<and> gr_issued_at p < gr_expires_at p"

definition payload_segment :: "externals \<Rightarrow> grant_payload \<Rightarrow> string" where
  "payload_segment X p = base64url_encode (canonical_json (x_float X) (grant_payload_json X p))"

definition build_execution_grant_token :: "externals \<Rightarrow> 'a grant_payload_scheme \<Rightarrow> string \<Rightarrow> exn + string" where
  "build_execution_grant_token X payload secret =
     bindE (validate_secret secret) (\<lambda>key.
       if \<not> payload_valid payload then Inl ValidationError
       else
         let signing_input = EXECUTION_GRANT_PREFIX @ ''.'' @ payload_segment X (grant_payload.truncate payload)
         in Inr (signing_input @ ''.'' @ base64url_encode (x_hmac X key signing_input)))"

text \<open>\<open>token.split(".")\<close>.\<close>

fun split_dots :: "string \<Rightarrow> string list" where
  "split_dots [] = [[]]"
| "split_dots (c # s) =
     (if c = CHR ''.'' then [] # split_dots s
      else (case split_dots s of [] \<Rightarrow> [[c]] | p # ps \<Rightarrow> (c # p) # ps))"

definition is_ascii :: "string \<Rightarrow> bool" where
  "is_ascii s \<longleftrightarrow> list_all (\<lambda>c. (of_char c :: nat) < 128) s"

text \<open>
  \<open>.encode("ascii")\<close> raises a \<open>UnicodeEncodeError\<close>, a ValueError. \<open>x_load_grant\<close> is
  \<open>ExecutionGrantPayload.model_validate(json.loads(...))\<close>, None for the exceptions it raises.
\<close>

definition parse_execution_grant_token :: "externals \<Rightarrow> string \<Rightarrow> string \<Rightarrow> exn + grant_payload" where
  "parse_execution_grant_token X token secret =
     bindE (validate_secret secret) (\<lambda>key.
       case split_dots token of
         [p0, p1, p2] \<Rightarrow>
           if p0 \<noteq> EXECUTION_GRANT_PREFIX then Inl InvalidExecutionGrant
           else let signing_input = p0 @ ''.'' @ p1 in
             if \<not> is_ascii signing_input then Inl (ValueError ''ascii'')
             else bindE (base64url_decode p2) (\<lambda>actual_signature.
               if x_hmac X key signing_input \<noteq> actual_signature then Inl InvalidExecutionGrant
               else bindE (base64url_decode p1) (\<lambda>raw_payload.
                 case x_load_grant X raw_payload of
                   None \<Rightarrow> Inl InvalidExecutionGrant
                 | Some payload \<Rightarrow>
                     if payload_segment X payload \<noteq> p1 then Inl InvalidExecutionGrant else Inr payload))
       | _ \<Rightarrow> Inl InvalidExecutionGrant)"

definition hash_execution_grant_token :: "externals \<Rightarrow> string \<Rightarrow> string" where
  "hash_execution_grant_token X token = x_sha256 X token"

section \<open>Issuing\<close>

definition project_context :: "string \<Rightarrow> string option \<Rightarrow> audit_context" where
  "project_context actor reason = \<lparr>ac_type = PROJECT, ac_actor = actor, ac_reason = reason\<rparr>"

definition already_resolved :: "approval_status \<Rightarrow> exn" where
  "already_resolved status =
     http_error 409 ''approval_already_resolved'' [(''current_status'', JStr (approval_status_text status))]"

fun approval_http_error :: "exn \<Rightarrow> exn" where
  "approval_http_error (ApprovalNotFound u) = http_error 404 ''approval_not_found'' []"
| "approval_http_error (ApprovalAlreadyResolved u status) =
     http_error 409 ''approval_already_resolved'' [(''current_status'', JStr status)]"
| "approval_http_error (ApprovalExpired u) = http_error 409 ''approval_expired'' []"
| "approval_http_error e = e"

definition resolve_approval_request ::
  "externals \<Rightarrow> uuid \<Rightarrow> string option \<Rightarrow> string \<Rightarrow> approval_status \<Rightarrow> uuid \<Rightarrow> instant \<Rightarrow> approval operation" where
  "resolve_approval_request X did reason resolver status pid now =
     catching (resolve_approval X did pid status resolver now (Some (project_context resolver reason)))
       (\<lambda>e. raising (approval_http_error e))"

record grant_response =
  gs_approval :: approval
  gs_token :: string
  gs_grant :: uuid
  gs_expires_at :: instant

definition new_payload :: "externals \<Rightarrow> uuid \<Rightarrow> uuid \<Rightarrow> uuid \<Rightarrow> authorization \<Rightarrow> instant \<Rightarrow> int \<Rightarrow> grant_payload" where
  "new_payload X gid did pid a t ttl = \<lparr>gr_version = 1, gr_id = gid, gr_decision = did, gr_project = pid,
     gr_fingerprint = build_request_fingerprint X (request_of a), gr_issued_at = t,
     gr_expires_at = t + seconds ttl\<rparr>"

text \<open>\<open>ExecutionGrantRecord(**payload.model_dump(), ...)\<close>.\<close>

definition new_grant :: "grant_payload \<Rightarrow> string \<Rightarrow> grant" where
  "new_grant p token_hash = grant_payload.extend p (grant.fields Grant_ACTIVE token_hash None None)"

definition with_token :: "externals \<Rightarrow> string \<Rightarrow> approval \<Rightarrow> grant \<Rightarrow> grant_response operation" where
  "with_token X secret a g =
     (case build_execution_grant_token X g secret of
        Inl e \<Rightarrow> raising e
      | Inr token \<Rightarrow> returning \<lparr>gs_approval = a, gs_token = token, gs_grant = gr_id g, gs_expires_at = gr_expires_at g\<rparr>)"

text \<open>What a failed approval becomes; an IntegrityError is a concurrent one, looked at again.\<close>

definition approval_failed ::
  "externals \<Rightarrow> uuid \<Rightarrow> uuid \<Rightarrow> instant \<Rightarrow> instant \<Rightarrow> exn \<Rightarrow> (approval \<times> grant) operation" where
  "approval_failed X did pid t now e =
     (if e \<noteq> IntegrityError then raising (approval_http_error e)
      else andThen (get_approval X now did pid) (\<lambda>concurrent_approval.
        andThen (reading (grants_get_by_decision did pid)) (\<lambda>concurrent_grant.
          case concurrent_approval of
            None \<Rightarrow> raising IntegrityError
          | Some a \<Rightarrow>
              if ap_status a = Approval_EXPIRED then raising (http_error 409 ''approval_expired'' [])
              else (case concurrent_grant of
                  None \<Rightarrow> raising (already_resolved (ap_status a))
                | Some g \<Rightarrow>
                    if ap_status a \<noteq> Approval_APPROVED \<or> gr_status g \<noteq> Grant_ACTIVE \<or> gr_expires_at g \<le> t
                    then raising (already_resolved (ap_status a))
                    else returning (a, g)))))"

text \<open>The response: the token of the stored grant, if it can be built again.\<close>

definition persisted_response :: "externals \<Rightarrow> string \<Rightarrow> approval \<Rightarrow> grant \<Rightarrow> grant_response operation" where
  "persisted_response X secret approved g =
     (case build_execution_grant_token X g secret of
        Inl e \<Rightarrow> raising e
      | Inr persisted_token \<Rightarrow>
          if gr_token_hash g \<noteq> hash_execution_grant_token X persisted_token
          then raising (RuntimeError ''Persisted execution grant cannot be regenerated.'')
          else returning \<lparr>gs_approval = approved, gs_token = persisted_token, gs_grant = gr_id g,
            gs_expires_at = gr_expires_at g\<rparr>)"

text \<open>
  \<open>now\<close> and \<open>now'\<close> are the clock readings of the two \<open>get_approval\<close> calls, \<open>t\<close> the
  effective time of the approval.
\<close>

definition issue_grant ::
  "externals \<Rightarrow> uuid \<Rightarrow> string option \<Rightarrow> string \<Rightarrow> uuid \<Rightarrow> string \<Rightarrow> int \<Rightarrow> instant \<Rightarrow> instant
    \<Rightarrow> authorization \<Rightarrow> grant_response operation" where
  "issue_grant X did reason resolver pid secret ttl t now' authorization =
     andThen new_uuid (\<lambda>gid.
       let payload = new_payload X gid did pid authorization t ttl in
       if \<not> payload_valid payload then raising ValidationError
       else (case build_execution_grant_token X payload secret of
           Inl e \<Rightarrow> raising e
         | Inr token \<Rightarrow>
             let grant = new_grant payload (hash_execution_grant_token X token) in
             if \<not> grant_valid grant then raising ValidationError
             else andThen (catching
                 (approve_approval_with_grant X did pid resolver t grant (project_context resolver reason))
                 (approval_failed X did pid t now')) (\<lambda>(approved, persisted_grant).
               persisted_response X secret approved persisted_grant)))"

definition approve_approval_request ::
  "externals \<Rightarrow> uuid \<Rightarrow> string option \<Rightarrow> string \<Rightarrow> uuid \<Rightarrow> string \<Rightarrow> int \<Rightarrow> instant \<Rightarrow> instant \<Rightarrow> instant
    \<Rightarrow> grant_response operation" where
  "approve_approval_request X did reason resolver pid secret ttl t now now' =
     andThen (get_approval X now did pid) (\<lambda>approval.
       case approval of
         None \<Rightarrow> raising (http_error 404 ''approval_not_found'' [])
       | Some a \<Rightarrow>
           if ap_status a = Approval_EXPIRED then raising (http_error 409 ''approval_expired'' [])
           else if ap_status a = Approval_APPROVED then
             andThen (reading (grants_get_by_decision did pid)) (\<lambda>existing_grant.
               case existing_grant of
                 Some g \<Rightarrow>
                   if gr_status g = Grant_ACTIVE \<and> t < gr_expires_at g then with_token X secret a g
                   else raising (already_resolved Approval_APPROVED)
               | None \<Rightarrow> raising (already_resolved Approval_APPROVED))
           else if ap_status a \<noteq> Approval_PENDING then raising (already_resolved (ap_status a))
           else andThen (reading (\<lambda>d. Inr (decisions_get did pid d))) (\<lambda>authorization.
             case authorization of
               None \<Rightarrow> raising (RuntimeError ''Approval references a missing authorization decision.'')
             | Some r \<Rightarrow> issue_grant X did reason resolver pid secret ttl t now' r))"

section \<open>Redeeming\<close>

definition invalid_grant :: exn where
  "invalid_grant = http_error 401 ''invalid_execution_grant'' []"

fun consumption_http_error :: "exn \<Rightarrow> exn" where
  "consumption_http_error InvalidExecutionGrant = invalid_grant"
| "consumption_http_error (ExecutionGrantMismatch u) = http_error 409 ''execution_grant_mismatch'' []"
| "consumption_http_error (ExecutionGrantAlreadyConsumed u) = http_error 409 ''execution_grant_already_consumed'' []"
| "consumption_http_error (ExecutionGrantExpired u) = http_error 409 ''execution_grant_expired'' []"
| "consumption_http_error e = e"

text \<open>\<open>ValidationError\<close> is a \<open>ValueError\<close> in Pydantic.\<close>

fun is_value_error :: "exn \<Rightarrow> bool" where
  "is_value_error (ValueError m) = True"
| "is_value_error ValidationError = True"
| "is_value_error e = False"

record consumption_response =
  cr_grant :: uuid
  cr_decision :: uuid
  cr_consumed_at :: instant
  cr_consumed_by :: string
  cr_agent :: string
  cr_action :: string

definition consume_execution_grant_request ::
  "externals \<Rightarrow> string \<Rightarrow> authorization_request \<Rightarrow> string \<Rightarrow> project \<Rightarrow> string \<Rightarrow> instant
    \<Rightarrow> consumption_response operation" where
  "consume_execution_grant_request X token request consumer project secret t =
     (case parse_execution_grant_token X token secret of
        Inl e \<Rightarrow> if e = InvalidExecutionGrant \<or> is_value_error e then raising invalid_grant else raising e
      | Inr payload \<Rightarrow>
          if gr_project payload \<noteq> pr_id project then raising invalid_grant
          else andThen (reading (\<lambda>d. Inr (decisions_get (gr_decision payload) (pr_id project) d))) (\<lambda>authorization.
            case authorization of
              None \<Rightarrow> raising invalid_grant
            | Some a \<Rightarrow>
                if build_request_fingerprint X (request_of a) \<noteq> gr_fingerprint payload then raising invalid_grant
                else andThen (catching (consume_execution_grant X payload (pr_id project)
                      (hash_execution_grant_token X token) (build_request_fingerprint X request) t consumer
                      (project_context consumer (Some ''Approved action execution consumed.'')))
                    (\<lambda>e. raising (consumption_http_error e))) (\<lambda>consumed.
                  case (gr_consumed_at consumed, gr_consumed_by consumed) of
                    (Some at, Some by) \<Rightarrow> returning \<lparr>cr_grant = gr_id consumed, cr_decision = gr_decision consumed,
                      cr_consumed_at = at, cr_consumed_by = by, cr_agent = rq_agent request, cr_action = rq_action request\<rparr>
                  | _ \<Rightarrow> raising (RuntimeError ''Consumed execution grant is missing resolution metadata.''))))"

section \<open>The tokens the service accepts are the ones it builds\<close>

fun join_dots :: "string list \<Rightarrow> string" where
  "join_dots [] = []"
| "join_dots [p] = p"
| "join_dots (p # q # ps) = p @ ''.'' @ join_dots (q # ps)"

lemma split_dots_neq_Nil [simp]: "split_dots s \<noteq> []"
  by (induction s) (auto split: list.split)

lemma join_split_dots: "join_dots (split_dots s) = s"
proof (induction s)
  case Nil
  then show ?case by simp
next
  case (Cons c s)
  then show ?case
    by (cases "split_dots s" rule: join_dots.cases) auto
qed

lemma split_dots_plain: "CHR ''.'' \<notin> set p \<Longrightarrow> split_dots p = [p]"
  by (induction p) auto

lemma split_dots_prefix: "CHR ''.'' \<notin> set p \<Longrightarrow> split_dots (p @ CHR ''.'' # s) = p # split_dots s"
  by (induction p) auto

lemma split_three: "split_dots t = [a, b, c] \<Longrightarrow> t = a @ ''.'' @ b @ ''.'' @ c"
  using join_split_dots [of t] by simp

definition token_of :: "externals \<Rightarrow> grant_payload \<Rightarrow> string \<Rightarrow> string" where
  "token_of X p secret = (let s = EXECUTION_GRANT_PREFIX @ ''.'' @ payload_segment X p
     in s @ ''.'' @ base64url_encode (x_hmac X secret s))"

lemma build_token_iff:
  "build_execution_grant_token X g secret = Inr t \<longleftrightarrow>
     32 \<le> length secret \<and> payload_valid g \<and> t = token_of X (grant_payload.truncate g) secret"
  by (auto simp: build_execution_grant_token_def validate_secret_def token_of_def Let_def)

lemma base64url_ascii: "is_ascii (base64url_encode s)"
proof -
  have "(of_char (b64_char n) :: nat) < 128" if "n < 64" for n
    using b64_index_char [OF that] by (auto simp: b64_index_def split: if_splits)
  then show ?thesis using b64_digits_bound [of s] by (simp add: base64url_digits is_ascii_def list_all_iff)
qed

lemma prefix_plain: "CHR ''.'' \<notin> set EXECUTION_GRANT_PREFIX" "is_ascii EXECUTION_GRANT_PREFIX"
  by (simp_all add: EXECUTION_GRANT_PREFIX_def is_ascii_def)

lemma split_token:
  "split_dots (token_of X p secret) = [EXECUTION_GRANT_PREFIX, payload_segment X p,
     base64url_encode (x_hmac X secret (EXECUTION_GRANT_PREFIX @ ''.'' @ payload_segment X p))]"
  using base64url_plain(2) prefix_plain(1)
  by (simp add: token_of_def Let_def split_dots_prefix payload_segment_def split_dots_plain)

lemma payload_text_neq_Nil: "canonical_json ft (grant_payload_json X p) \<noteq> []"
  by (simp add: grant_payload_json_def canonical_json_def)

lemma parse_built:
  assumes "32 \<le> length secret" and "x_hmac X secret (EXECUTION_GRANT_PREFIX @ ''.'' @ payload_segment X p) \<noteq> []"
  shows "parse_execution_grant_token X (token_of X p secret) secret =
    (case x_load_grant X (canonical_json (x_float X) (grant_payload_json X p)) of
       None \<Rightarrow> Inl InvalidExecutionGrant
     | Some q \<Rightarrow> if payload_segment X q \<noteq> payload_segment X p then Inl InvalidExecutionGrant else Inr q)"
proof -
  have "is_ascii (EXECUTION_GRANT_PREFIX @ ''.'' @ payload_segment X p)"
    using base64url_ascii [of "canonical_json (x_float X) (grant_payload_json X p)"] prefix_plain(2)
    by (simp add: is_ascii_def payload_segment_def)
  moreover have "base64url_decode (base64url_encode (x_hmac X secret (EXECUTION_GRANT_PREFIX @ ''.'' @ payload_segment X p)))
      = Inr (x_hmac X secret (EXECUTION_GRANT_PREFIX @ ''.'' @ payload_segment X p))"
    using assms(2) by (simp add: base64url_decode_iff)
  moreover have "base64url_decode (payload_segment X p) = Inr (canonical_json (x_float X) (grant_payload_json X p))"
    by (simp add: base64url_decode_iff payload_segment_def payload_text_neq_Nil)
  ultimately show ?thesis
    using assms(1) unfolding parse_execution_grant_token_def split_token
    by (simp add: validate_secret_def Let_def cong: option.case_cong)
qed

lemma parse_accepts:
  assumes "parse_execution_grant_token X t secret = Inr p"
  shows "32 \<le> length secret \<and> t = token_of X p secret
    \<and> x_load_grant X (canonical_json (x_float X) (grant_payload_json X p)) = Some p"
proof -
  from assms have len: "32 \<le> length secret" by (simp add: parse_execution_grant_token_def validate_secret_def split: if_splits)
  obtain p1 p2 where t: "split_dots t = [EXECUTION_GRANT_PREFIX, p1, p2]"
    and rest: "bindE (base64url_decode p2) (\<lambda>actual.
       if x_hmac X secret (EXECUTION_GRANT_PREFIX @ ''.'' @ p1) \<noteq> actual then Inl InvalidExecutionGrant
       else bindE (base64url_decode p1) (\<lambda>raw. case x_load_grant X raw of None \<Rightarrow> Inl InvalidExecutionGrant
         | Some q \<Rightarrow> if payload_segment X q \<noteq> p1 then Inl InvalidExecutionGrant else Inr q)) = Inr p"
    using assms len
    by (auto simp: parse_execution_grant_token_def validate_secret_def Let_def split: list.splits if_splits)
  from rest obtain raw where sig: "base64url_decode p2 = Inr (x_hmac X secret (EXECUTION_GRANT_PREFIX @ ''.'' @ p1))"
    and raw: "base64url_decode p1 = Inr raw" "x_load_grant X raw = Some p" "payload_segment X p = p1"
    by (auto simp: bindE_Inr_iff split: if_splits option.splits)
  have p2: "p2 = base64url_encode (x_hmac X secret (EXECUTION_GRANT_PREFIX @ ''.'' @ p1))"
    using sig by (simp add: base64url_decode_iff)
  have "base64url_encode raw = base64url_encode (canonical_json (x_float X) (grant_payload_json X p))"
    using raw(1,3) by (simp add: base64url_decode_iff payload_segment_def)
  then have "raw = canonical_json (x_float X) (grant_payload_json X p)" by (simp only: base64url.encode_inj)
  then show ?thesis
    using len raw(2,3) split_three [OF t] p2 by (simp add: token_of_def Let_def)
qed

text \<open>Decoding the JSON text of a payload gives the payload back (Pydantic and \<open>json\<close>).\<close>

definition loads_back :: "externals \<Rightarrow> grant_payload \<Rightarrow> bool" where
  "loads_back X p \<longleftrightarrow> x_load_grant X (canonical_json (x_float X) (grant_payload_json X p)) = Some p"

lemma parse_built_valid:
  assumes "32 \<le> length secret" and "\<forall>m. x_hmac X secret m \<noteq> []" and "loads_back X p"
  shows "parse_execution_grant_token X (token_of X p secret) secret = Inr p"
  using parse_built [OF assms(1), of X p] assms by (simp add: loads_back_def)

section \<open>The grants of the service\<close>

text \<open>
  Every grant was issued by the service under the configured secret: its digest is the one of its
  token, and its fingerprint the one of the request of its decision.
\<close>

definition issued :: "externals \<Rightarrow> string \<Rightarrow> db \<Rightarrow> grant \<Rightarrow> bool" where
  "issued X secret d g \<longleftrightarrow> gr_version g = 1
     \<and> gr_token_hash g = hash_execution_grant_token X (token_of X (grant_payload.truncate g) secret)
     \<and> (\<exists>a \<in> set (t_decisions d). au_id a = gr_decision g \<and> au_project a = gr_project g
          \<and> gr_fingerprint g = build_request_fingerprint X (request_of a))"

definition grants_issued :: "externals \<Rightarrow> string \<Rightarrow> db \<Rightarrow> bool" where
  "grants_issued X secret d \<longleftrightarrow> store_ok d \<and> list_all (issued X secret d) (t_grants d)"

lemma empty_grants_issued [simp]: "grants_issued X secret (empty_db us)"
  by (simp add: grants_issued_def) (simp add: empty_db_def)

lemma grants_issued_same:
  "t_grants d' = t_grants d \<Longrightarrow> set (t_decisions d) \<subseteq> set (t_decisions d') \<Longrightarrow> store_ok d' \<Longrightarrow>
    grants_issued X secret d \<Longrightarrow> grants_issued X secret d'"
  by (fastforce simp: grants_issued_def list_all_iff issued_def)

lemma expire_due_keeps [keeps_intros]: "keeps (grants_issued X secret) (expire_due_approvals X' pid t)"
  unfolding keeps_def
proof (intro allI impI)
  fix d r d' assume run: "expire_due_approvals X' pid t d = (r, d')" and I: "grants_issued X secret d"
  have acc: "accepted approval_tables d d'" using expire_due_operation run by (auto simp: store_operation_def)
  have "store_ok d'" using expire_due_store_ok [OF run] I by (simp add: grants_issued_def)
  then show "grants_issued X secret d'"
    using accepted_frame [OF acc] I by (intro grants_issued_same [of d' d]) auto
qed

lemma get_approval_keeps [keeps_intros]: "keeps (grants_issued X secret) (get_approval X' t did pid)"
  unfolding get_approval_def by (intro keeps_intros)

lemma approve_block_grants:
  assumes "approve_block X did pid resolver t g ctx d = Inr ((a, h), d')" and "store_ok d"
  shows "(h = g \<and> t_grants d' = t_grants d @ [g]
      \<or> t_grants d' = t_grants d \<and> h \<in> set (t_grants d) \<and> gr_decision h = did \<and> gr_project h = pid)
    \<and> t_decisions d' = t_decisions d"
proof -
  obtain previous where previous: "approvals_get did pid d = Inr (Some previous)"
    using assms(1) by (auto simp: approve_block_def bindE_Inr_iff split: option.splits)
  note run = assms(1) [unfolded approve_block_def previous bindE_simps option.case]
  have expired: "ap_status previous \<noteq> Approval_EXPIRED" using run by auto
  consider (same) "d' = d" "grants_get_by_decision did pid d = Inr (Some h)"
    | (new) d1 d2 d3 b where "insert_grant g d = Inr d1" "h = g"
        "approvals_resolve did pid Approval_APPROVED resolver t d1 = Inr (b, d2)"
        "accepted outbox_tables d2 d3" "accepted outbox_tables d3 d'"
  proof (cases "ap_status previous = Approval_APPROVED")
    case True
    with run have "d' = d \<and> grants_get_by_decision did pid d = Inr (Some h)"
      by (auto simp: bindE_Inr_iff split: option.split_asm)
    then show ?thesis using same by blast
  next
    case False
    with run expired obtain d1 d2 d3 b where "insert_grant g d = Inr d1" "h = g"
        "approvals_resolve did pid Approval_APPROVED resolver t d1 = Inr (b, d2)"
        "accepted outbox_tables d2 d3" "accepted outbox_tables d3 d'"
      by (auto simp: bindE_Inr_iff split: if_split_asm dest!: audit_accepted [where S = outbox_tables])
    then show ?thesis by (rule new)
  qed
  then show ?thesis
  proof cases
    case same
    then have "grant_for d did pid = Some h" using grants_get_by_decision_of [OF assms(2), of did pid] by simp
    then show ?thesis using same(1) by (auto simp: grant_for_def dest: find_row_Some)
  next
    case new
    have "t_grants d1 = t_grants d @ [g]" "t_decisions d1 = t_decisions d"
      using new(1) by (auto simp: insert_grant_def split: if_splits)
    moreover have "t_grants d2 = t_grants d1" "t_decisions d2 = t_decisions d1"
      using new(3) by (auto simp: approvals_resolve_def bindE_Inr_iff update_approvals_Inr split: if_splits option.splits)
    moreover have "t_grants d' = t_grants d2" "t_decisions d' = t_decisions d2"
      using accepted_frame(6) [OF new(4)] accepted_frame(6) [OF new(5)] accepted_frame(3) [OF new(4)]
        accepted_frame(3) [OF new(5)] by simp_all
    ultimately show ?thesis using new(2) by simp
  qed
qed

text \<open>The grant a new payload becomes.\<close>

lemma new_grant_fields [simp]:
  "gr_version (new_grant p h) = gr_version p" "gr_id (new_grant p h) = gr_id p" "gr_decision (new_grant p h) = gr_decision p"
  "gr_project (new_grant p h) = gr_project p" "gr_fingerprint (new_grant p h) = gr_fingerprint p"
  "gr_issued_at (new_grant p h) = gr_issued_at p" "gr_expires_at (new_grant p h) = gr_expires_at p"
  "gr_status (new_grant p h) = Grant_ACTIVE" "gr_token_hash (new_grant p h) = h"
  "gr_consumed_at (new_grant p h) = None" "gr_consumed_by (new_grant p h) = None"
  "grant_payload.truncate (new_grant p h) = p"
  by (simp_all add: new_grant_def grant_payload.defs grant.defs)

lemma truncate_fields [simp]:
  "gr_version (grant_payload.truncate g) = gr_version g" "gr_id (grant_payload.truncate g) = gr_id g"
  "gr_decision (grant_payload.truncate g) = gr_decision g" "gr_project (grant_payload.truncate g) = gr_project g"
  "gr_fingerprint (grant_payload.truncate g) = gr_fingerprint g" "gr_issued_at (grant_payload.truncate g) = gr_issued_at g"
  "gr_expires_at (grant_payload.truncate g) = gr_expires_at g"
  by (simp_all add: grant_payload.truncate_def)

text \<open>
  \<open>granted X secret did pid r d\<close>: the response carries the token of a stored grant of the decision.
\<close>

definition granted :: "externals \<Rightarrow> string \<Rightarrow> uuid \<Rightarrow> uuid \<Rightarrow> grant \<Rightarrow> db \<Rightarrow> bool" where
  "granted X secret did pid g d \<longleftrightarrow> grants_issued X secret d \<and> g \<in> set (t_grants d) \<and> gr_decision g = did \<and> gr_project g = pid"

lemma approving_ensures:
  assumes "grant_valid g" and "gr_decision g = did" and "gr_project g = pid"
  shows "ensures (\<lambda>d. grants_issued X secret d \<and> issued X secret d g)
      (approve_approval_with_grant X did pid resolver t g ctx) (\<lambda>(a, h). granted X secret did pid h)"
    and "keeps (\<lambda>d. grants_issued X secret d \<and> issued X secret d g)
      (approve_approval_with_grant X did pid resolver t g ctx)"
proof -
  let ?I = "\<lambda>d. grants_issued X secret d \<and> issued X secret d g"
  have run: "?I d' \<and> (\<forall>a h. r = Inr (a, h) \<longrightarrow> granted X secret did pid h d')"
    if op: "approve_approval_with_grant X did pid resolver t g ctx d = (r, d')" and I: "?I d" for r d d'
  proof -
    obtain r1 d1 where sweep: "expire_due_approvals X pid t d = (r1, d1)" by force
    have I1: "grants_issued X secret d1" using keepsD [OF expire_due_keeps sweep] I by blast
    have "accepted approval_tables d d1" using expire_due_operation sweep by (auto simp: store_operation_def)
    then have "t_decisions d1 = t_decisions d" by (rule accepted_frame(3)) simp
    then have g1: "issued X secret d1 g" using I by (simp add: issued_def)
    have ok': "store_ok d'" using approve_store_ok [OF op _ assms(1)] I by (simp add: grants_issued_def)
    consider (raised) e where "r = Inl e" "d' = d1" | (done_block) a h where "r = Inr (a, h)"
        "approve_block X did pid resolver t g ctx d1 = Inr ((a, h), d')"
      using op sweep by (auto simp: approve_approval_with_grant_def andThen_def transaction_def raising_def
          split: sum.splits if_splits)
    then show ?thesis
    proof cases
      case raised
      then show ?thesis using I1 g1 by simp
    next
      case done_block
      have "store_ok d1" using I1 by (simp add: grants_issued_def)
      note b = approve_block_grants [OF done_block(2) this]
      have "issued X secret d' x = issued X secret d1 x" for x using b by (simp add: issued_def)
      then have "grants_issued X secret d' \<and> issued X secret d' g"
        using I1 g1 ok' b by (auto simp: grants_issued_def list_all_iff)
      moreover have "h \<in> set (t_grants d') \<and> gr_decision h = did \<and> gr_project h = pid"
        using b assms(2,3) by auto
      ultimately show ?thesis using done_block(1) by (auto simp: granted_def)
    qed
  qed
  then show "keeps ?I (approve_approval_with_grant X did pid resolver t g ctx)" by (auto simp: keeps_def)
  from run show "ensures ?I (approve_approval_with_grant X did pid resolver t g ctx) (\<lambda>(a, h). granted X secret did pid h)"
    by (fastforce simp: ensures_def)
qed

lemma grants_issued_uuids: "grants_issued X secret (d\<lparr>t_uuids := us\<rparr>) = grants_issued X secret d"
proof -
  have "issued X secret (d\<lparr>t_uuids := us\<rparr>) = issued X secret d" by (simp add: issued_def fun_eq_iff)
  moreover have "store_ok (d\<lparr>t_uuids := us\<rparr>) = store_ok d"
    by (simp add: store_ok_def db_ok_def update_references grants_agree_def)
  ultimately show ?thesis by (simp add: grants_issued_def)
qed

lemma grant_for_granted:
  "grants_issued X secret d \<Longrightarrow> grant_for d did pid = Some g \<Longrightarrow> granted X secret did pid g d"
  by (auto simp: granted_def grant_for_def dest: find_row_Some)

text \<open>What a response of the approval service says.\<close>

definition responds :: "externals \<Rightarrow> string \<Rightarrow> uuid \<Rightarrow> uuid \<Rightarrow> grant_response \<Rightarrow> db \<Rightarrow> bool" where
  "responds X secret did pid r d \<longleftrightarrow> (\<exists>g. granted X secret did pid g d \<and> 32 \<le> length secret \<and> payload_valid g
     \<and> gs_token r = token_of X (grant_payload.truncate g) secret \<and> gs_grant r = gr_id g
     \<and> gs_expires_at r = gr_expires_at g)"

lemma respondsI:
  "granted X secret did pid g d \<Longrightarrow> build_execution_grant_token X g secret = Inr token \<Longrightarrow> gs_token r = token
    \<Longrightarrow> gs_grant r = gr_id g \<Longrightarrow> gs_expires_at r = gr_expires_at g \<Longrightarrow> responds X secret did pid r d"
  unfolding responds_def build_token_iff by blast

lemma with_token_responds: "ensures (granted X secret did pid g) (with_token X secret a g) (responds X secret did pid)"
proof (cases "build_execution_grant_token X g secret")
  case (Inl e)
  then show ?thesis by (simp add: with_token_def ensures_raising)
next
  case (Inr token)
  then show ?thesis
    by (auto simp: with_token_def intro!: ensures_returning respondsI [OF _ Inr])
qed

lemma looked_up_grant:
  "ensures (grants_issued X secret) (reading (grants_get_by_decision did pid))
     (\<lambda>found d. grants_issued X secret d \<and> (\<forall>g. found = Some g \<longrightarrow> granted X secret did pid g d))"
proof (rule ensures_reading)
  fix d found assume I: "grants_issued X secret d" and get: "grants_get_by_decision did pid d = Inr found"
  have "found = grant_for d did pid" using grants_get_by_decision_of [of d did pid] I get by (simp add: grants_issued_def)
  then show "grants_issued X secret d \<and> (\<forall>g. found = Some g \<longrightarrow> granted X secret did pid g d)"
    using I by (auto intro: grant_for_granted)
qed

lemma approval_failed_ensures:
  "ensures (grants_issued X secret) (approval_failed X' did pid t now e) (\<lambda>(a, g). granted X secret did pid g)"
proof (cases "e = IntegrityError")
  case False
  then show ?thesis by (simp add: approval_failed_def ensures_raising)
next
  case True
  show ?thesis
    unfolding approval_failed_def True simp_thms if_False
  proof (rule ensures_andThen [OF ensures_keeps [OF get_approval_keeps] ensures_andThen [OF looked_up_grant]])
    fix approval :: "approval option" and found :: "grant option"
    let ?P = "\<lambda>d. grants_issued X secret d \<and> (\<forall>g. found = Some g \<longrightarrow> granted X secret did pid g d)"
    show "ensures ?P (case approval of None \<Rightarrow> raising IntegrityError
        | Some a \<Rightarrow> if ap_status a = Approval_EXPIRED then raising (http_error 409 ''approval_expired'' [])
            else (case found of None \<Rightarrow> raising (already_resolved (ap_status a))
              | Some g \<Rightarrow> if ap_status a \<noteq> Approval_APPROVED \<or> gr_status g \<noteq> Grant_ACTIVE \<or> gr_expires_at g \<le> t
                  then raising (already_resolved (ap_status a)) else returning (a, g)))
      (\<lambda>(a, g). granted X secret did pid g)"
      by (cases approval; cases found) (auto intro: ensures_raising ensures_returning)
  qed
qed

lemma persisted_responds:
  "ensures (granted X secret did pid g) (persisted_response X secret a g) (responds X secret did pid)"
proof (cases "build_execution_grant_token X g secret")
  case (Inl e)
  then show ?thesis by (simp add: persisted_response_def ensures_raising)
next
  case (Inr token)
  then show ?thesis
    by (auto simp: persisted_response_def intro!: ensures_raising ensures_returning respondsI [OF _ Inr])
qed

lemma issue_grant_responds:
  "ensures (\<lambda>d. grants_issued X secret d \<and> a \<in> set (t_decisions d) \<and> au_id a = did \<and> au_project a = pid)
     (issue_grant X did reason resolver pid secret ttl t now' a) (responds X secret did pid)"
  unfolding issue_grant_def
proof (rule ensures_andThen [OF ensures_keeps])
  let ?P = "\<lambda>d. grants_issued X secret d \<and> a \<in> set (t_decisions d) \<and> au_id a = did \<and> au_project a = pid"
  show "keeps ?P new_uuid" by (auto simp: keeps_def new_uuid_def uuid4_def grants_issued_uuids)
  fix gid
  let ?p = "new_payload X gid did pid a t ttl"
  let ?approve = "\<lambda>g. andThen (catching
                 (approve_approval_with_grant X did pid resolver t g (project_context resolver reason))
                 (approval_failed X did pid t now')) (\<lambda>(approved, persisted_grant).
               persisted_response X secret approved persisted_grant)"
  show "ensures ?P (let payload = ?p in
       if \<not> payload_valid payload then raising ValidationError
       else (case build_execution_grant_token X payload secret of
           Inl e \<Rightarrow> raising e
         | Inr token \<Rightarrow>
             let grant = new_grant payload (hash_execution_grant_token X token) in
             if \<not> grant_valid grant then raising ValidationError else ?approve grant))
      (responds X secret did pid)"
  proof (cases "build_execution_grant_token X ?p secret")
    case (Inl e)
    then show ?thesis by (simp add: Let_def ensures_raising)
  next
    case (Inr token)
    let ?g = "new_grant ?p (hash_execution_grant_token X token)"
    let ?I = "\<lambda>d. grants_issued X secret d \<and> issued X secret d ?g"
    have token: "token = token_of X ?p secret"
      using Inr by (simp add: build_token_iff grant_payload.truncate_def new_payload_def)
    have "ensures ?P (?approve ?g) (responds X secret did pid)" if valid: "grant_valid ?g"
    proof (rule ensures_weaken [OF ensures_andThen [OF ensures_catching]])
      have scope: "gr_decision ?g = did" "gr_project ?g = pid" by (simp_all add: new_payload_def)
      note app = approving_ensures [OF valid scope, of X secret]
      show "keeps ?I (approve_approval_with_grant X did pid resolver t ?g (project_context resolver reason))" by (rule app(2))
      show "ensures ?I (approve_approval_with_grant X did pid resolver t ?g (project_context resolver reason))
        (\<lambda>(a, h). granted X secret did pid h)" by (rule app(1))
      show "ensures ?I (approval_failed X did pid t now' e) (\<lambda>(a, h). granted X secret did pid h)" for e
        by (rule ensures_weaken [OF approval_failed_ensures]) auto
      show "ensures ((\<lambda>(a, h). granted X secret did pid h) r) (case r of (approved, persisted_grant) \<Rightarrow>
          persisted_response X secret approved persisted_grant) (responds X secret did pid)" for r
        by (cases r) (simp add: persisted_responds)
      show "?I d" if "?P d" for d using that by (auto simp: issued_def token new_payload_def)
    qed
    with Inr show ?thesis by (auto simp: Let_def ensures_raising)
  qed
qed

lemma approve_request_responds:
  "ensures (grants_issued X secret) (approve_approval_request X did reason resolver pid secret ttl t now now')
     (responds X secret did pid)"
  unfolding approve_approval_request_def
proof (rule ensures_andThen [OF ensures_keeps [OF get_approval_keeps]])
  fix approval :: "approval option"
  let ?I = "grants_issued X secret" and ?R = "responds X secret did pid"
  have existing: "ensures ?I (andThen (reading (grants_get_by_decision did pid)) (\<lambda>existing_grant.
               case existing_grant of
                 Some g \<Rightarrow>
                   if gr_status g = Grant_ACTIVE \<and> t < gr_expires_at g then with_token X secret a g
                   else raising (already_resolved Approval_APPROVED)
               | None \<Rightarrow> raising (already_resolved Approval_APPROVED))) ?R" for a
  proof (rule ensures_andThen [OF looked_up_grant])
    fix found :: "grant option"
    let ?P = "\<lambda>d. grants_issued X secret d \<and> (\<forall>g. found = Some g \<longrightarrow> granted X secret did pid g d)"
    have "ensures ?P (with_token X secret a g) ?R" if "found = Some g" for g
      by (rule ensures_weaken [OF with_token_responds]) (use that in auto)
    then show "ensures ?P (case found of
                 Some g \<Rightarrow>
                   if gr_status g = Grant_ACTIVE \<and> t < gr_expires_at g then with_token X secret a g
                   else raising (already_resolved Approval_APPROVED)
               | None \<Rightarrow> raising (already_resolved Approval_APPROVED)) ?R"
      by (cases found) (simp_all add: ensures_raising)
  qed
  have fresh: "ensures ?I (andThen (reading (\<lambda>d. Inr (decisions_get did pid d))) (\<lambda>authorization.
             case authorization of
               None \<Rightarrow> raising (RuntimeError ''Approval references a missing authorization decision.'')
             | Some r \<Rightarrow> issue_grant X did reason resolver pid secret ttl t now' r)) ?R"
  proof (rule ensures_andThen [OF ensures_reading])
    show "grants_issued X secret d \<and> (\<forall>r. x = Some r \<longrightarrow> r \<in> set (t_decisions d) \<and> au_id r = did \<and> au_project r = pid)"
      if "grants_issued X secret d" "Inr (decisions_get did pid d) = Inr x" for d x
      using that by (auto simp: decisions_get_def dest: find_row_Some)
    fix found :: "authorization option"
    let ?P = "\<lambda>d. grants_issued X secret d \<and> (\<forall>r. found = Some r \<longrightarrow> r \<in> set (t_decisions d) \<and> au_id r = did \<and> au_project r = pid)"
    have "ensures ?P (issue_grant X did reason resolver pid secret ttl t now' r) ?R" if "found = Some r" for r
      by (rule ensures_weaken [OF issue_grant_responds]) (use that in auto)
    then show "ensures ?P (case found of
               None \<Rightarrow> raising (RuntimeError ''Approval references a missing authorization decision.'')
             | Some r \<Rightarrow> issue_grant X did reason resolver pid secret ttl t now' r) ?R"
      by (cases found) (simp_all add: ensures_raising)
  qed
  show "ensures ?I (case approval of
         None \<Rightarrow> raising (http_error 404 ''approval_not_found'' [])
       | Some a \<Rightarrow>
           if ap_status a = Approval_EXPIRED then raising (http_error 409 ''approval_expired'' [])
           else if ap_status a = Approval_APPROVED then
             andThen (reading (grants_get_by_decision did pid)) (\<lambda>existing_grant.
               case existing_grant of
                 Some g \<Rightarrow>
                   if gr_status g = Grant_ACTIVE \<and> t < gr_expires_at g then with_token X secret a g
                   else raising (already_resolved Approval_APPROVED)
               | None \<Rightarrow> raising (already_resolved Approval_APPROVED))
           else if ap_status a \<noteq> Approval_PENDING then raising (already_resolved (ap_status a))
           else andThen (reading (\<lambda>d. Inr (decisions_get did pid d))) (\<lambda>authorization.
             case authorization of
               None \<Rightarrow> raising (RuntimeError ''Approval references a missing authorization decision.'')
             | Some r \<Rightarrow> issue_grant X did reason resolver pid secret ttl t now' r)) ?R"
    by (cases approval) (simp_all add: ensures_raising existing fresh)
qed

section \<open>Redeeming a token\<close>

lemma consume_bound:
  assumes "store_ok d" and "fresh_ids d" and "project_exists d pid" and "strips_only_whitespace X"
    and of: "grant_of d (gr_id p) pid = Some g" and bound: "binds p h (gr_fingerprint g) g" and pid: "gr_project p = pid"
  shows "fst (consume_execution_grant X p pid h fp t consumer ctx d) = fst (consume_spec p h fp t consumer (Some g))"
proof (cases "gr_fingerprint g = fp \<and> gr_status g = Grant_ACTIVE")
  case True
  then have "binds p h fp g" using bound by simp
  then obtain d' where "consume_block X p pid h fp t consumer ctx d = Inr (fst (consume_spec p h fp t consumer (Some g)), d')"
    using consume_block_active [OF assms(1-4) of] True by blast
  with pid show ?thesis by (simp add: consume_run)
next
  case False
  then show ?thesis
    using pid bound
    by (cases "gr_status g") (auto simp: consume_run consume_block_def grants_get_of [OF assms(1)] of binds_def consume_spec_def)
qed

text \<open>The row of a grant in a later database: the same grant, perhaps consumed or expired.\<close>

lemma granted_later:
  assumes "granted X secret did pid g d" and "db_evolved d d'" and "store_ok d'"
  obtains g' where "grant_of d' (gr_id g) pid = Some g'" and "binds (grant_payload.truncate g) (gr_token_hash g) (gr_fingerprint g) g'"
    and "gr_fingerprint g' = gr_fingerprint g" and "gr_id g' = gr_id g" and "gr_decision g' = did" and "g' \<in> set (t_grants d')"
    and "gr_expires_at g' = gr_expires_at g"
proof -
  have g: "g \<in> set (t_grants d)" "gr_decision g = did" "gr_project g = pid" using assms(1) by (auto simp: granted_def)
  obtain g' where g': "g' \<in> set (t_grants d')" "gr_id g' = gr_id g" "g' = g \<or> grant_change_ok g g'"
    using grants.row_persists [OF _ g(1), of "t_grants d'"] assms(2) by (auto simp: db_evolved_def)
  then have same: "gr_decision g' = did" "gr_project g' = pid" "gr_token_hash g' = gr_token_hash g"
    "gr_fingerprint g' = gr_fingerprint g" "gr_issued_at g' = gr_issued_at g" "gr_expires_at g' = gr_expires_at g"
    using g by (auto simp: grant_change_ok_def)
  have "unique_by gr_id (t_grants d')" using assms(3) by (simp add: store_ok_def db_ok_def)
  then have "grant_of d' (gr_id g) pid = Some g'"
    unfolding grant_of_def using g'(1,2) same(2)
    by (intro find_row_unique [where k = gr_id]) (auto simp: unique_by_def)
  moreover have "binds (grant_payload.truncate g) (gr_token_hash g) (gr_fingerprint g) g'" using same g by (simp add: binds_def)
  ultimately show ?thesis using that g'(1,2) same by blast
qed

lemma redeemed:
  assumes ensured: "responds X secret did (pr_id project) r d1" and ev: "db_evolved d1 d2" and ok: "store_ok d2" "fresh_ids d2"
    and X: "strips_only_whitespace X" "\<forall>g \<in> set (t_grants d1). loads_back X (grant_payload.truncate g)" "\<forall>m. x_hmac X secret m \<noteq> []"
    and proj: "project_exists d2 (pr_id project)"
  shows "\<exists>g a. g \<in> set (t_grants d2) \<and> gr_id g = gs_grant r \<and> a \<in> set (t_decisions d2) \<and> au_id a = did
    \<and> au_project a = pr_id project
    \<and> fst (consume_execution_grant_request X (gs_token r) request consumer project secret t d2) =
       (if build_request_fingerprint X request \<noteq> build_request_fingerprint X (request_of a)
        then Inl (http_error 409 ''execution_grant_mismatch'' [])
        else case gr_status g of
          Grant_CONSUMED \<Rightarrow> Inl (http_error 409 ''execution_grant_already_consumed'' [])
        | Grant_EXPIRED \<Rightarrow> Inl (http_error 409 ''execution_grant_expired'' [])
        | Grant_ACTIVE \<Rightarrow>
            if gs_expires_at r \<le> t then Inl (http_error 409 ''execution_grant_expired'' [])
            else Inr \<lparr>cr_grant = gs_grant r, cr_decision = did, cr_consumed_at = t, cr_consumed_by = consumer,
              cr_agent = rq_agent request, cr_action = rq_action request\<rparr>)"
proof -
  let ?pid = "pr_id project"
  from ensured obtain g0 where g0: "granted X secret did ?pid g0 d1" and len: "32 \<le> length secret" and valid: "payload_valid g0"
    and r: "gs_token r = token_of X (grant_payload.truncate g0) secret" "gs_grant r = gr_id g0" "gs_expires_at r = gr_expires_at g0"
    by (auto simp: responds_def)
  let ?p = "grant_payload.truncate g0"
  from granted_later [OF g0 ev ok(1)] obtain g where g: "grant_of d2 (gr_id g0) ?pid = Some g"
    "binds (grant_payload.truncate g0) (gr_token_hash g0) (gr_fingerprint g0) g" "gr_fingerprint g = gr_fingerprint g0" "gr_id g = gr_id g0"
    "gr_decision g = did" "g \<in> set (t_grants d2)" "gr_expires_at g = gr_expires_at g0" by metis
  have "issued X secret d1 g0" using g0 by (auto simp: granted_def grants_issued_def list_all_iff)
  then obtain a where hash: "gr_token_hash g0 = hash_execution_grant_token X (gs_token r)"
    and a: "a \<in> set (t_decisions d1)" "au_id a = did" "au_project a = ?pid" "gr_fingerprint g0 = build_request_fingerprint X (request_of a)"
    using g0 by (auto simp: issued_def r granted_def)
  have a2: "a \<in> set (t_decisions d2)"
    using ev a(1) by (auto simp: db_evolved_def evolved_no_update)
  have "unique_by au_id (t_decisions d2)" using ok(1) by (simp add: store_ok_def db_ok_def)
  then have get: "decisions_get did ?pid d2 = Some a"
    unfolding decisions_get_def using a2 a(2,3) by (intro find_row_unique [where k = au_id]) (auto simp: unique_by_def)
  have loads: "loads_back X ?p" using X(2) g0 by (simp add: granted_def)
  have parse: "parse_execution_grant_token X (gs_token r) secret = Inr ?p"
    unfolding r(1) by (rule parse_built_valid [OF len X(3) loads])
  have fields: "gr_project ?p = ?pid" "gr_decision ?p = did" "gr_fingerprint ?p = build_request_fingerprint X (request_of a)"
    using g0 a(4) by (simp_all add: granted_def)
  let ?h = "hash_execution_grant_token X (gs_token r)" and ?fp = "build_request_fingerprint X request"
    and ?ctx = "project_context consumer (Some ''Approved action execution consumed.'')"
  have of: "grant_of d2 (gr_id ?p) ?pid = Some g" using g(1) by simp
  have bound: "binds ?p ?h (gr_fingerprint g) g" using g(2,3) hash by (simp add: binds_def)
  have spec: "fst (consume_execution_grant X ?p ?pid ?h ?fp t consumer ?ctx d2) = fst (consume_spec ?p ?h ?fp t consumer (Some g))"
    by (rule consume_bound [OF ok proj X(1) of bound fields(1)])
  have "fst (consume_execution_grant_request X (gs_token r) request consumer project secret t d2) =
    (case fst (consume_spec ?p ?h ?fp t consumer (Some g)) of
       Inl e \<Rightarrow> Inl (consumption_http_error e)
     | Inr c \<Rightarrow> (case (gr_consumed_at c, gr_consumed_by c) of
          (Some at, Some by) \<Rightarrow> Inr \<lparr>cr_grant = gr_id c, cr_decision = gr_decision c,
                      cr_consumed_at = at, cr_consumed_by = by, cr_agent = rq_agent request, cr_action = rq_action request\<rparr>
        | _ \<Rightarrow> Inl (RuntimeError ''Consumed execution grant is missing resolution metadata.'')))"
    unfolding consume_execution_grant_request_def parse sum.case fields get spec [symmetric]
    by (auto simp: andThen_def reading_def get catching_def raising_def returning_def split: prod.splits sum.splits option.splits)
  also have "\<dots> = (if ?fp \<noteq> build_request_fingerprint X (request_of a)
        then Inl (http_error 409 ''execution_grant_mismatch'' [])
        else case gr_status g of
          Grant_CONSUMED \<Rightarrow> Inl (http_error 409 ''execution_grant_already_consumed'' [])
        | Grant_EXPIRED \<Rightarrow> Inl (http_error 409 ''execution_grant_expired'' [])
        | Grant_ACTIVE \<Rightarrow>
            if gs_expires_at r \<le> t then Inl (http_error 409 ''execution_grant_expired'' [])
            else Inr \<lparr>cr_grant = gs_grant r, cr_decision = did, cr_consumed_at = t, cr_consumed_by = consumer,
              cr_agent = rq_agent request, cr_action = rq_action request\<rparr>)"
    using bound g(3-5,7) a(4) by (cases "gr_status g") (auto simp: consume_spec_def r consumed_by_def)
  finally show ?thesis using g(4,6) a2 a(2,3) r(2) by (intro exI [of _ g] exI [of _ a]) simp
qed

section \<open>A sample instance\<close>

definition token_secret :: string where
  "token_secret = replicate 32 (CHR ''k'')"

definition issued_payload :: grant_payload where
  "issued_payload = sample_payload\<lparr>gr_fingerprint := build_request_fingerprint sample_externals (request_of (sample_decision 5))\<rparr>"

definition token_externals :: externals where
  "token_externals = sample_externals\<lparr>x_load_grant := (\<lambda>s.
     if s = canonical_json (x_float sample_externals) (grant_payload_json sample_externals issued_payload)
     then Some issued_payload else None)\<rparr>"

definition issued_grant :: grant where
  "issued_grant = new_grant issued_payload
     (hash_execution_grant_token token_externals (token_of token_externals issued_payload token_secret))"

definition issued_db :: db where
  "issued_db = grant_db\<lparr>t_grants := [issued_grant]\<rparr>"

lemma token_externals_fields [simp]:
  "x_float token_externals = x_float sample_externals" "x_time token_externals = x_time sample_externals"
  "x_strip token_externals = x_strip sample_externals" "x_sha256 token_externals = x_sha256 sample_externals"
  "x_hmac token_externals = x_hmac sample_externals"
  by (simp_all add: token_externals_def)

lemma token_externals_same [simp]:
  "strips_only_whitespace token_externals" "grant_payload_json token_externals = grant_payload_json sample_externals"
  "build_request_fingerprint token_externals = build_request_fingerprint sample_externals"
  using sample_strips
  by (simp_all add: strips_only_whitespace_def token_externals_def grant_payload_json_def fun_eq_iff time_json_def
      build_request_fingerprint_def)

lemma issued_payload_fields [simp]:
  "gr_version issued_payload = 1" "gr_id issued_payload = 500" "gr_decision issued_payload = 5" "gr_project issued_payload = 2"
  "gr_issued_at issued_payload = 20" "gr_expires_at issued_payload = 80"
  "gr_fingerprint issued_payload = build_request_fingerprint sample_externals (request_of (sample_decision 5))"
  by (simp_all add: issued_payload_def sample_payload_def)

lemma issued_payload_loads: "loads_back token_externals issued_payload"
  by (simp add: loads_back_def) (simp add: token_externals_def)

lemma sample_hmac_length: "length (x_hmac sample_externals k m) = 32"
  by (simp add: sample_externals_def del: hex_pad.simps)

lemma token_secret_ok: "32 \<le> length token_secret" "x_hmac token_externals token_secret m \<noteq> []"
proof -
  show "32 \<le> length token_secret" by (simp add: token_secret_def)
  show "x_hmac token_externals token_secret m \<noteq> []"
    using sample_hmac_length [of token_secret m] by (auto simp del: length_greater_0_conv)
qed

lemma issued_grant_valid: "grant_valid issued_grant" "grant_check issued_grant" "payload_valid issued_grant"
proof -
  have digests: "is_sha256_text (gr_fingerprint issued_grant)" "is_sha256_text (gr_token_hash issued_grant)"
    by (simp_all only: issued_grant_def new_grant_fields issued_payload_fields hash_execution_grant_token_def
        build_request_fingerprint_def token_externals_fields sample_digests)
  have fields: "gr_version issued_grant = 1" "gr_issued_at issued_grant = 20" "gr_expires_at issued_grant = 80"
    "gr_status issued_grant = Grant_ACTIVE" "gr_consumed_at issued_grant = None" "gr_consumed_by issued_grant = None"
    by (simp_all only: issued_grant_def new_grant_fields issued_payload_fields)
  show "grant_valid issued_grant" "grant_check issued_grant" "payload_valid issued_grant"
    using digests by (simp_all add: fields grant_valid_def grant_check_def payload_valid_def)
qed

lemma issued_db_ok [simp]: "grants_issued token_externals token_secret issued_db" "fresh_ids issued_db"
  "project_exists issued_db 2"
proof -
  have fields: "gr_decision issued_grant = 5" "gr_project issued_grant = 2" "gr_id issued_grant = 500"
    by (simp_all add: issued_grant_def)
  have "db_ok issued_db"
    using grant_db_ok(1)
    by (simp add: store_ok_def db_ok_def issued_db_def issued_grant_valid)
      (auto simp: unique_by_def references_ok_def refers_def fields)
  moreover have "grants_agree issued_db"
    by (auto simp: grants_agree_def issued_db_def grant_db_def sample_approval_def resolved_as_def approval_db_def
        sample_decision_def fields)
  ultimately have ok: "store_ok issued_db"
    using grant_db_ok(1) by (simp add: store_ok_def issued_db_def issued_grant_valid)
  have "issued token_externals token_secret issued_db issued_grant"
    by (simp add: issued_def issued_db_def)
      (simp add: issued_grant_def grant_db_def approval_db_def sample_decision_def)
  with ok show "grants_issued token_externals token_secret issued_db"
    by (simp add: grants_issued_def) (simp add: issued_db_def)
  have "t_uuids issued_db = t_uuids grant_db" "known_ids issued_db = known_ids grant_db"
    by (simp_all add: issued_db_def known_ids_def fields)
  then show "fresh_ids issued_db" using grant_db_ok(2) by (simp add: fresh_ids_def)
  show "project_exists issued_db 2" using grant_db_ok(3) by (simp add: issued_db_def project_exists_def)
qed

section \<open>Properties\<close>

text \<open>
  the service accepts a token exactly when it is the token it builds, under the same secret,
  for the payload that the token's text decodes to: no other text, not even another encoding of the
  same payload, is accepted, and every token it builds is accepted as the payload it was built from.
\<close>

theorem token_accepted_iff:
  assumes "\<forall>m. x_hmac X secret m \<noteq> []"
  shows "parse_execution_grant_token X t secret = Inr p \<longleftrightarrow>
    32 \<le> length secret \<and> t = token_of X p secret \<and> loads_back X p"
  using parse_accepts [of X t secret p] parse_built_valid [of secret X p] assms
  by (auto simp: loads_back_def)

theorem token_accepted_iff_witness:
  "parse_execution_grant_token token_externals (token_of token_externals issued_payload token_secret) token_secret = Inr issued_payload"
  using token_accepted_iff [of token_externals token_secret] token_secret_ok issued_payload_loads by blast

text \<open>
  C15: an approval's token executes the approved request and nothing else, once and before it expires.
  Whatever the approval service returned for a decision, in every later database the token it
  returned is answered as follows when a caller of that project presents it with a request: a request
  with another fingerprint than the decision's is refused as a mismatch, a consumed or expired
  grant as such, and otherwise the execution is authorised and recorded for the caller at that
  time. All grants of the database were issued under the configured secret.
\<close>

theorem approved_token_executes:
  assumes "approve_approval_request X did reason resolver (pr_id project) secret ttl t0 now now' d = (Inr r, d1)"
    and "grants_issued X secret d" and "db_evolved d1 d2" and "store_ok d2" and "fresh_ids d2"
    and "strips_only_whitespace X" and "\<forall>g \<in> set (t_grants d1). loads_back X (grant_payload.truncate g)"
    and "\<forall>m. x_hmac X secret m \<noteq> []" and "project_exists d2 (pr_id project)"
  shows "\<exists>g a. g \<in> set (t_grants d2) \<and> gr_id g = gs_grant r \<and> a \<in> set (t_decisions d2) \<and> au_id a = did
    \<and> au_project a = pr_id project
    \<and> fst (consume_execution_grant_request X (gs_token r) request consumer project secret t d2) =
       (if build_request_fingerprint X request \<noteq> build_request_fingerprint X (request_of a)
        then Inl (http_error 409 ''execution_grant_mismatch'' [])
        else case gr_status g of
          Grant_CONSUMED \<Rightarrow> Inl (http_error 409 ''execution_grant_already_consumed'' [])
        | Grant_EXPIRED \<Rightarrow> Inl (http_error 409 ''execution_grant_expired'' [])
        | Grant_ACTIVE \<Rightarrow>
            if gs_expires_at r \<le> t then Inl (http_error 409 ''execution_grant_expired'' [])
            else Inr \<lparr>cr_grant = gs_grant r, cr_decision = did, cr_consumed_at = t, cr_consumed_by = consumer,
              cr_agent = rq_agent request, cr_action = rq_action request\<rparr>)"
  by (rule redeemed [OF ensuresD [OF approve_request_responds assms(1,2)] assms(3-9)])

theorem approved_token_executes_witness:
  "\<exists>r d1. approve_approval_request token_externals 5 None ''reviewer'' 2 token_secret 60 30 30 30 issued_db = (Inr r, d1)
    \<and> fst (consume_execution_grant_request token_externals (gs_token r) (request_of (sample_decision 5)) ''worker''
        sample_project token_secret 40 d1)
      = Inr \<lparr>cr_grant = 500, cr_decision = 5, cr_consumed_at = 40, cr_consumed_by = ''worker'',
          cr_agent = ''agent'', cr_action = ''transfer''\<rparr>"
proof -
  let ?X = token_externals
  have ok: "store_ok issued_db" using issued_db_ok(1) by (simp add: grants_issued_def)
  obtain xs d1 where sweep: "expire_due_approvals ?X 2 30 issued_db = (Inr xs, d1)"
    and rows: "t_approvals d1 = update_rows (\<lambda>b. decided_in issued_db (ap_decision b) 2 \<and> is_due 30 b)
        (resolved_as Approval_EXPIRED ''decaustrum-expiration'' 30) (t_approvals issued_db)"
    and touched: "touches approval_tables issued_db d1" and fresh: "fresh_ids d1"
    using expire_due_done [OF ok issued_db_ok(2,3), of ?X 30] by auto
  have same: "t_decisions d1 = t_decisions issued_db" "t_grants d1 = [issued_grant]" "t_projects d1 = t_projects issued_db"
    using touched by (simp_all add: touches_def kept_def issued_db_def)
  let ?a = "resolved_as Approval_APPROVED ''reviewer'' 20 (sample_approval 5 100)"
  have ok1: "store_ok d1" by (rule expire_due_store_ok [OF sweep ok])
  have got: "approvals_get 5 2 d1 = Inr (Some ?a)"
    by (simp add: approvals_get_def rows same issued_db_def grant_db_def update_rows_def find_row_Cons decided_in_def
        approval_db_def sample_decision_def sample_approval_def resolved_as_def is_due_def row_to_approval_def approval_valid_def)
  have "grant_for d1 5 2 = Some issued_grant" by (simp add: grant_for_def same find_row_Cons) (simp add: issued_grant_def)
  then have grant: "grants_get_by_decision 5 2 d1 = Inr (Some issued_grant)" using grants_get_by_decision_of [OF ok1] by simp
  let ?token = "token_of ?X (grant_payload.truncate issued_grant) token_secret"
  let ?r = "\<lparr>gs_approval = ?a, gs_token = ?token, gs_grant = 500, gs_expires_at = 80\<rparr>"
  have "build_execution_grant_token ?X issued_grant token_secret = Inr ?token"
    using token_secret_ok(1) issued_grant_valid(3) by (simp only: build_token_iff simp_thms)
  then have token: "with_token ?X token_secret ?a issued_grant = returning ?r"
    by (simp add: with_token_def) (simp add: issued_grant_def)
  have live: "gr_status issued_grant = Grant_ACTIVE \<and> 30 < gr_expires_at issued_grant" by (simp add: issued_grant_def)
  have status: "ap_status ?a = Approval_APPROVED" by (simp add: resolved_as_def)
  have run: "approve_approval_request ?X 5 None ''reviewer'' 2 token_secret 60 30 30 30 issued_db = (Inr ?r, d1)"
    by (simp add: approve_approval_request_def get_approval_def andThen_def sweep reading_def got grant status live token
        returning_def del: token_externals_same)
  have project: "pr_id sample_project = 2" by (simp add: sample_project_def)
  have later: "\<exists>g a. g \<in> set (t_grants d1) \<and> gr_id g = gs_grant ?r \<and> a \<in> set (t_decisions d1) \<and> au_id a = 5
    \<and> au_project a = pr_id sample_project
    \<and> fst (consume_execution_grant_request ?X (gs_token ?r) (request_of (sample_decision 5)) ''worker'' sample_project token_secret 40 d1) =
       (if build_request_fingerprint ?X (request_of (sample_decision 5)) \<noteq> build_request_fingerprint ?X (request_of a)
        then Inl (http_error 409 ''execution_grant_mismatch'' [])
        else case gr_status g of
          Grant_CONSUMED \<Rightarrow> Inl (http_error 409 ''execution_grant_already_consumed'' [])
        | Grant_EXPIRED \<Rightarrow> Inl (http_error 409 ''execution_grant_expired'' [])
        | Grant_ACTIVE \<Rightarrow>
            if gs_expires_at ?r \<le> 40 then Inl (http_error 409 ''execution_grant_expired'' [])
            else Inr \<lparr>cr_grant = gs_grant ?r, cr_decision = 5, cr_consumed_at = 40, cr_consumed_by = ''worker'',
              cr_agent = rq_agent (request_of (sample_decision 5)), cr_action = rq_action (request_of (sample_decision 5))\<rparr>)"
  proof (rule approved_token_executes [OF _ issued_db_ok(1) db_evolved_refl ok1 fresh token_externals_same(1)])
    show "approve_approval_request ?X 5 None ''reviewer'' (pr_id sample_project) token_secret 60 30 30 30 issued_db = (Inr ?r, d1)"
      unfolding project by (rule run)
    show "\<forall>g \<in> set (t_grants d1). loads_back ?X (grant_payload.truncate g)"
      using issued_payload_loads by (simp add: same issued_grant_def)
    show "\<forall>m. x_hmac ?X token_secret m \<noteq> []" using token_secret_ok(2) by blast
    show "project_exists d1 (pr_id sample_project)" using issued_db_ok(3) by (simp add: project project_exists_def same)
  qed
  then obtain a where "a \<in> set (t_decisions issued_db)" "au_id a = 5"
    and out: "fst (consume_execution_grant_request ?X ?token (request_of (sample_decision 5)) ''worker'' sample_project token_secret 40 d1) =
       (if build_request_fingerprint ?X (request_of (sample_decision 5)) \<noteq> build_request_fingerprint ?X (request_of a)
        then Inl (http_error 409 ''execution_grant_mismatch'' [])
        else Inr \<lparr>cr_grant = 500, cr_decision = 5, cr_consumed_at = 40, cr_consumed_by = ''worker'',
              cr_agent = rq_agent (request_of (sample_decision 5)), cr_action = rq_action (request_of (sample_decision 5))\<rparr>)"
    using live by (auto simp: same)
  then have "a = sample_decision 5" by (auto simp: issued_db_def approval_db_def sample_decision_def)
  then have "fst (consume_execution_grant_request ?X ?token (request_of (sample_decision 5)) ''worker'' sample_project token_secret 40 d1)
      = Inr \<lparr>cr_grant = 500, cr_decision = 5, cr_consumed_at = 40, cr_consumed_by = ''worker'',
              cr_agent = ''agent'', cr_action = ''transfer''\<rparr>"
    using out by (simp add: request_of_def sample_decision_def)
  then show ?thesis by (intro exI [of _ ?r] exI [of _ d1]) (simp add: run)
qed

end
