(* ===== verification/Webhook_Signing.thy ===== *)
theory Webhook_Signing
  imports Grant_Tokens
begin

text \<open>
  Signing secrets, signatures and headers of webhook requests: the pure part of
  \<open>app/webhooks.py\<close>. HMAC-SHA-256 is a parameter. The property states the contract with a
  receiver: what the service signs verifies within the tolerance, and what verifies was signed, up to
  a collision of the HMAC under the subscription's secret.
\<close>

definition derive_webhook_signing_secret :: "externals \<Rightarrow> string \<Rightarrow> uuid \<Rightarrow> int \<Rightarrow> exn + string" where
  "derive_webhook_signing_secret X master_secret sid secret_version =
     (if length master_secret < 32
      then Inl (ValueError ''Webhook master secret must contain at least 32 bytes.'')
      else if secret_version < 1 then Inl (ValueError ''Webhook secret version must be positive.'')
      else Inr (''whsec_'' @ base64url_encode (x_hmac X master_secret
        (''decaustrum-webhook:'' @ uuid_text sid @ '':'' @ show_int secret_version))))"

definition signed_payload :: "string \<Rightarrow> int \<Rightarrow> string" where
  "signed_payload payload timestamp = show_int timestamp @ ''.'' @ payload"

definition sign_webhook_payload :: "externals \<Rightarrow> string \<Rightarrow> int \<Rightarrow> string \<Rightarrow> string" where
  "sign_webhook_payload X payload timestamp signing_secret =
     ''v1='' @ hex_text (x_hmac X signing_secret (signed_payload payload timestamp))"

text \<open>
  \<open>timestamp\<close> is \<open>int(timestamp)\<close>, None when that raises. The distance of the times is
  exact where the code subtracts floats: they are exact to a microsecond until the year 2242.
  \<open>compare_digest\<close> raises a TypeError on a text that is not ASCII.
\<close>

definition verify_webhook_signature ::
  "externals \<Rightarrow> string \<Rightarrow> int option \<Rightarrow> string \<Rightarrow> string \<Rightarrow> instant \<Rightarrow> int \<Rightarrow> exn + bool" where
  "verify_webhook_signature X payload timestamp signature signing_secret now tolerance_seconds =
     (case timestamp of
        None \<Rightarrow> Inr False
      | Some timestamp_value \<Rightarrow>
          if tolerance_seconds < 0 then Inl (ValueError ''Webhook tolerance cannot be negative.'')
          else if seconds tolerance_seconds < \<bar>now - seconds timestamp_value\<bar> then Inr False
          else if \<not> is_ascii signature then Inl TypeError
          else Inr (sign_webhook_payload X payload timestamp_value signing_secret = signature))"

definition build_webhook_headers ::
  "externals \<Rightarrow> webhook_event \<Rightarrow> uuid \<Rightarrow> string \<Rightarrow> int \<Rightarrow> string \<Rightarrow> (string \<times> string) list" where
  "build_webhook_headers X event did payload timestamp signing_secret =
     [(''Content-Type'', ''application/json''),
      (''User-Agent'', ''DecAustrum-Webhooks/0.1''),
      (''X-DecAustrum-Delivery-Id'', uuid_text did),
      (''X-DecAustrum-Event-Id'', uuid_text (we_id event)),
      (''X-DecAustrum-Event-Type'', event_text (we_type event)),
      (''X-DecAustrum-Timestamp'', show_int timestamp),
      (''X-DecAustrum-Signature'', sign_webhook_payload X payload timestamp signing_secret)]"

section \<open>The signed text determines payload and time\<close>

lemma show_int_plain: "CHR ''.'' \<notin> set (show_int i)"
proof
  assume "CHR ''.'' \<in> set (show_int i)"
  then show False using show_int_chars [of "CHR ''.''" i] by (simp add: is_digit_def)
qed

lemma signed_payload_inj: "signed_payload p t = signed_payload q u \<longleftrightarrow> p = q \<and> t = u"
proof
  assume eq: "signed_payload p t = signed_payload q u"
  have split: "takeWhile (\<lambda>c. c \<noteq> CHR ''.'') (signed_payload r v) = show_int v"
    "dropWhile (\<lambda>c. c \<noteq> CHR ''.'') (signed_payload r v) = CHR ''.'' # r" for r v
    using show_int_plain [of v] by (auto simp: signed_payload_def takeWhile_append dropWhile_append)
  have "show_int t = show_int u" using split(1) [of p t] split(1) [of q u] eq by metis
  moreover have "CHR ''.'' # p = CHR ''.'' # q" using split(2) [of p t] split(2) [of q u] eq by metis
  ultimately show "p = q \<and> t = u" using show_int_inj by simp
qed simp

lemma signature_ascii: "is_ascii (sign_webhook_payload X p t s)"
proof -
  have "(of_char (hex_char n) :: nat) < 128" if "n < 16" for n using hex_char_digit [OF that] by (auto simp: is_hex_digit_def)
  then have "is_ascii (hex_text b)" for b
    by (induction b) (auto simp: hex_text_def hex_byte_def numeral_2_eq_2 is_ascii_def less_mult_imp_div_less)
  then show ?thesis by (simp add: sign_webhook_payload_def is_ascii_def)
qed

lemma sign_eq: "sign_webhook_payload X p t s = sign_webhook_payload X q u s \<longleftrightarrow>
    x_hmac X s (signed_payload p t) = x_hmac X s (signed_payload q u)"
  by (simp add: sign_webhook_payload_def hex.encode_inj)



end
