(* ===== verification/Webhook_Store.thy ===== *)
theory Webhook_Store
  imports Authorize "HOL-Library.Option_ord"
begin

text \<open>
  The webhook repository, \<open>app/storage/webhooks.py\<close>, and its operations in
  \<open>app/evidence_store.py\<close>: subscriptions, the queries over events and deliveries, the claim of
  due deliveries under a lease, the recording of attempts with retries and dead letters, cancellation
  and redelivery. \<open>deliveries_ok\<close> is the type of the delivery table: what a row's status says
  of its other columns, and that its attempts are numbered without gaps.
\<close>

section \<open>Subscriptions\<close>

text \<open>
  A subscription row was validated when its record was built; its updates keep it valid, so reading
  a row gives the record back.
\<close>

definition get_subscription :: "uuid \<Rightarrow> uuid \<Rightarrow> db \<Rightarrow> subscription option" where
  "get_subscription pid sid d = find_row (\<lambda>s. su_project s = pid \<and> su_id s = sid) (t_subscriptions d)"

definition subscription_filters :: "uuid \<Rightarrow> subscription_status option \<Rightarrow> subscription \<Rightarrow> bool" where
  "subscription_filters pid status s \<longleftrightarrow> su_project s = pid
     \<and> (case status of None \<Rightarrow> True | Some st \<Rightarrow> su_status s = st)"

definition list_subscriptions ::
  "uuid \<Rightarrow> subscription_status option \<Rightarrow> nat \<Rightarrow> nat \<Rightarrow> db \<Rightarrow> subscription list" where
  "list_subscriptions pid status limit offset d =
     page limit offset (sort_desc (\<lambda>s. (su_created_at s, su_id s))
       (filter (subscription_filters pid status) (t_subscriptions d)))"

definition count_subscriptions :: "uuid \<Rightarrow> subscription_status option \<Rightarrow> db \<Rightarrow> nat" where
  "count_subscriptions pid status d = row_count (subscription_filters pid status) (t_subscriptions d)"

definition DISABLED_REASON :: string where
  "DISABLED_REASON = ''Webhook subscription was disabled.''"

text \<open>The columns a cancellation sets.\<close>

definition cancelled :: "instant \<Rightarrow> string \<Rightarrow> delivery \<Rightarrow> delivery" where
  "cancelled t reason v = v\<lparr>de_status := D_CANCELLED, de_next_attempt := None, de_lease := None,
     de_last_error := Some reason, de_updated_at := t\<rparr>"

definition disabled_subscription :: "instant \<Rightarrow> subscription \<Rightarrow> subscription" where
  "disabled_subscription t s = s\<lparr>su_status := Subscription_DISABLED, su_updated_at := t, su_disabled_at := Some t\<rparr>"

definition disable_subscription_with_connection :: "uuid \<Rightarrow> uuid \<Rightarrow> instant \<Rightarrow> subscription block" where
  "disable_subscription_with_connection pid sid disabled_at d =
     (case get_subscription pid sid d of
        None \<Rightarrow> Inl (WebhookSubscriptionNotFound pid sid)
      | Some current \<Rightarrow>
          if su_status current = Subscription_DISABLED then Inr (current, d)
          else
            bindE (update_subscriptions (\<lambda>s. su_project s = pid \<and> su_id s = sid \<and> su_status s = Subscription_ACTIVE)
                (disabled_subscription disabled_at) d) (\<lambda>d1.
            bindE (update_deliveries (\<lambda>v. de_project v = pid \<and> de_subscription v = sid
                  \<and> (de_status v = D_PENDING \<or> de_status v = D_RETRY_SCHEDULED))
                (cancelled disabled_at DISABLED_REASON) d1) (\<lambda>d2.
            (case get_subscription pid sid d2 of
               None \<Rightarrow> Inl (WebhookSubscriptionNotFound pid sid)
             | Some updated \<Rightarrow> Inr (updated, d2)))))"

definition rotated_subscription :: "instant \<Rightarrow> subscription \<Rightarrow> subscription" where
  "rotated_subscription t s = s\<lparr>su_secret_version := su_secret_version s + 1, su_updated_at := t\<rparr>"

definition rotate_subscription_secret_with_connection :: "uuid \<Rightarrow> uuid \<Rightarrow> instant \<Rightarrow> subscription block" where
  "rotate_subscription_secret_with_connection pid sid rotated_at d =
     (case get_subscription pid sid d of
        None \<Rightarrow> Inl (WebhookSubscriptionNotFound pid sid)
      | Some current \<Rightarrow>
          if su_status current \<noteq> Subscription_ACTIVE then Inl (WebhookSubscriptionDisabled sid)
          else
            bindE (update_subscriptions (\<lambda>s. su_project s = pid \<and> su_id s = sid \<and> su_status s = Subscription_ACTIVE)
                (rotated_subscription rotated_at) d) (\<lambda>d1.
            (case get_subscription pid sid d1 of
               None \<Rightarrow> Inl (WebhookSubscriptionNotFound pid sid)
             | Some updated \<Rightarrow> Inr (updated, d1))))"

section \<open>Events and deliveries\<close>

definition get_event :: "uuid \<Rightarrow> uuid \<Rightarrow> db \<Rightarrow> webhook_event option" where
  "get_event pid eid d =
     map_option er_event (find_row (\<lambda>r. we_project (er_event r) = pid \<and> we_id (er_event r) = eid) (t_events d))"

definition event_filters :: "uuid \<Rightarrow> event_type option \<Rightarrow> event_row \<Rightarrow> bool" where
  "event_filters pid etype r \<longleftrightarrow> we_project (er_event r) = pid
     \<and> (case etype of None \<Rightarrow> True | Some e \<Rightarrow> we_type (er_event r) = e)"

definition list_events :: "uuid \<Rightarrow> event_type option \<Rightarrow> nat \<Rightarrow> nat \<Rightarrow> db \<Rightarrow> webhook_event list" where
  "list_events pid etype limit offset d =
     map er_event (page limit offset (sort_desc (\<lambda>r. (we_occurred_at (er_event r), we_id (er_event r)))
       (filter (event_filters pid etype) (t_events d))))"

definition count_events :: "uuid \<Rightarrow> event_type option \<Rightarrow> db \<Rightarrow> nat" where
  "count_events pid etype d = row_count (event_filters pid etype) (t_events d)"

text \<open>
  \<open>WebhookDelivery.model_validate\<close> of a row: beyond the table's own CHECKs it bounds the text
  of the last error, which updates write.
\<close>

definition delivery_valid :: "delivery \<Rightarrow> bool" where
  "delivery_valid v \<longleftrightarrow> delivery_check v
     \<and> (case de_last_error v of None \<Rightarrow> True | Some e \<Rightarrow> text_length e \<le> 1000)"

definition row_to_delivery :: "delivery \<Rightarrow> exn + delivery" where
  "row_to_delivery v = (if delivery_valid v then Inr v else Inl ValidationError)"

definition delivery_row :: "uuid \<Rightarrow> uuid \<Rightarrow> db \<Rightarrow> delivery option" where
  "delivery_row pid did d = find_row (\<lambda>v. de_project v = pid \<and> de_id v = did) (t_deliveries d)"

definition get_delivery_with_connection :: "uuid \<Rightarrow> uuid \<Rightarrow> db \<Rightarrow> exn + delivery option" where
  "get_delivery_with_connection pid did d =
     (case delivery_row pid did d of
        None \<Rightarrow> Inr None
      | Some v \<Rightarrow> bindE (row_to_delivery v) (\<lambda>w. Inr (Some w)))"

definition delivery_filters ::
  "uuid \<Rightarrow> delivery_status option \<Rightarrow> uuid option \<Rightarrow> uuid option \<Rightarrow> delivery \<Rightarrow> bool" where
  "delivery_filters pid status sid eid v \<longleftrightarrow> de_project v = pid
     \<and> (case status of None \<Rightarrow> True | Some st \<Rightarrow> de_status v = st)
     \<and> (case sid of None \<Rightarrow> True | Some s \<Rightarrow> de_subscription v = s)
     \<and> (case eid of None \<Rightarrow> True | Some e \<Rightarrow> de_event v = e)"

definition list_deliveries ::
  "uuid \<Rightarrow> delivery_status option \<Rightarrow> uuid option \<Rightarrow> uuid option \<Rightarrow> nat \<Rightarrow> nat \<Rightarrow> db \<Rightarrow> exn + delivery list" where
  "list_deliveries pid status sid eid limit offset d =
     mapE row_to_delivery (page limit offset (sort_desc (\<lambda>v. (de_created_at v, de_id v))
       (filter (delivery_filters pid status sid eid) (t_deliveries d))))"

definition count_deliveries ::
  "uuid \<Rightarrow> delivery_status option \<Rightarrow> uuid option \<Rightarrow> uuid option \<Rightarrow> db \<Rightarrow> nat" where
  "count_deliveries pid status sid eid d = row_count (delivery_filters pid status sid eid) (t_deliveries d)"

definition attempt_valid :: "attempt \<Rightarrow> bool" where
  "attempt_valid a \<longleftrightarrow> 1 \<le> at_number a \<and> status_code_ok (at_code a)
     \<and> (case at_error a of None \<Rightarrow> True | Some e \<Rightarrow> text_length e \<le> 1000)"

definition row_to_attempt :: "attempt \<Rightarrow> exn + attempt" where
  "row_to_attempt a = (if attempt_valid a then Inr a else Inl ValidationError)"

definition attempts_of :: "uuid \<Rightarrow> db \<Rightarrow> attempt list" where
  "attempts_of did d = filter (\<lambda>a. at_delivery a = did) (t_attempts d)"

definition list_attempts :: "uuid \<Rightarrow> db \<Rightarrow> exn + attempt list" where
  "list_attempts did d = mapE row_to_attempt (sort_key at_number (attempts_of did d))"

section \<open>Claiming\<close>

definition subscription_has :: "subscription_status \<Rightarrow> db \<Rightarrow> delivery \<Rightarrow> bool" where
  "subscription_has status d v \<longleftrightarrow>
     list_ex (\<lambda>s. su_id s = de_subscription v \<and> su_status s = status) (t_subscriptions d)"

text \<open>A time of the row that has come; a missing time has not (SQL's NULL).\<close>

definition reached :: "instant option \<Rightarrow> instant \<Rightarrow> bool" where
  "reached t now = (case t of None \<Rightarrow> False | Some x \<Rightarrow> x \<le> now)"

definition lapsed :: "instant \<Rightarrow> db \<Rightarrow> delivery \<Rightarrow> bool" where
  "lapsed now d v \<longleftrightarrow> de_status v = D_PROCESSING \<and> reached (de_lease v) now
     \<and> subscription_has Subscription_DISABLED d v"

definition due :: "instant \<Rightarrow> db \<Rightarrow> delivery \<Rightarrow> bool" where
  "due now d v \<longleftrightarrow> subscription_has Subscription_ACTIVE d v
     \<and> ((de_status v = D_PENDING \<or> de_status v = D_RETRY_SCHEDULED) \<and> reached (de_next_attempt v) now
        \<or> de_status v = D_PROCESSING \<and> reached (de_lease v) now)"

text \<open>\<open>COALESCE(next_attempt_at, lease_expires_at)\<close>, then the identifier.\<close>

definition due_order :: "delivery \<Rightarrow> instant option \<times> uuid" where
  "due_order v = (case de_next_attempt v of None \<Rightarrow> de_lease v | Some t \<Rightarrow> Some t, de_id v)"

definition due_ids :: "instant \<Rightarrow> nat \<Rightarrow> db \<Rightarrow> uuid list" where
  "due_ids now limit d = map de_id (take limit (sort_key due_order (filter (due now d) (t_deliveries d))))"

definition leased :: "instant \<Rightarrow> instant \<Rightarrow> delivery \<Rightarrow> delivery" where
  "leased now lease_expires_at v =
     v\<lparr>de_status := D_PROCESSING, de_lease := Some lease_expires_at, de_updated_at := now\<rparr>"

definition claimed_rows :: "uuid list \<Rightarrow> db \<Rightarrow> delivery list" where
  "claimed_rows ids d =
     sort_key (\<lambda>v. (de_created_at v, de_id v)) (filter (\<lambda>v. de_id v \<in> set ids) (t_deliveries d))"

definition claim_block :: "instant \<Rightarrow> nat \<Rightarrow> int \<Rightarrow> delivery list block" where
  "claim_block now limit lease_seconds d =
     bindE (update_deliveries (lapsed now d) (cancelled now DISABLED_REASON) d) (\<lambda>d1.
       let ids = due_ids now limit d1 in
       if ids = [] then Inr ([], d1)
       else bindE (update_deliveries (\<lambda>v. de_id v \<in> set ids) (leased now (now + seconds lease_seconds)) d1) (\<lambda>d2.
         Inr (claimed_rows ids d2, d2)))"

text \<open>The rows become records after the transaction has committed.\<close>

definition claim_due_deliveries :: "instant \<Rightarrow> nat \<Rightarrow> int \<Rightarrow> delivery list operation" where
  "claim_due_deliveries now limit lease_seconds =
     andThen (transaction (claim_block now limit lease_seconds)) (\<lambda>rows.
       reading (\<lambda>_. mapE row_to_delivery rows))"

section \<open>Recording\<close>

record dispatch_item =
  di_delivery :: delivery
  di_event :: webhook_event
  di_subscription :: subscription
  di_payload :: string

definition get_dispatch_item :: "delivery \<Rightarrow> dispatch_item operation" where
  "get_dispatch_item v = reading (\<lambda>d.
     case (find_row (\<lambda>r. we_id (er_event r) = de_event v \<and> we_project (er_event r) = de_project v) (t_events d),
           get_subscription (de_project v) (de_subscription v) d) of
       (Some r, Some s) \<Rightarrow> Inr \<lparr>di_delivery = v, di_event = er_event r, di_subscription = s, di_payload = er_payload r\<rparr>
     | _ \<Rightarrow> Inl (RuntimeError ''Webhook delivery references missing data.''))"

text \<open>\<open>text[:n]\<close>: the first \<open>n\<close> characters of a text given by its bytes.\<close>

fun text_take :: "nat \<Rightarrow> string \<Rightarrow> string" where
  "text_take n [] = []"
| "text_take n (c # s) =
     (if (of_char c :: nat) < 128 \<or> 192 \<le> (of_char c :: nat)
      then (case n of 0 \<Rightarrow> [] | Suc m \<Rightarrow> c # text_take m s)
      else c # text_take n s)"

definition cancel_processing_delivery :: "uuid \<Rightarrow> uuid \<Rightarrow> instant \<Rightarrow> string \<Rightarrow> delivery operation" where
  "cancel_processing_delivery pid did cancelled_at reason =
     andThen (transaction (\<lambda>d.
       bindE (update_deliveries (\<lambda>v. de_project v = pid \<and> de_id v = did \<and> de_status v = D_PROCESSING)
           (cancelled cancelled_at (text_take 1000 reason)) d) (\<lambda>d1.
       bindE (get_delivery_with_connection pid did d1) (\<lambda>row. Inr (row, d1)))))
     (\<lambda>row. case row of
        None \<Rightarrow> raising (WebhookDeliveryNotFound pid did)
      | Some v \<Rightarrow> returning v)"

text \<open>What an attempt's outcome makes of the delivery: its status, failures and next attempt.\<close>

definition after_attempt ::
  "delivery_outcome \<Rightarrow> delivery \<Rightarrow> subscription option \<Rightarrow> instant \<Rightarrow> int \<Rightarrow> int \<Rightarrow> int
    \<Rightarrow> delivery_status \<times> int \<times> instant option" where
  "after_attempt outcome current subscription completed_at max_attempts base_retry_seconds max_retry_seconds =
     (if outcome = SUCCESS then (D_DELIVERED, 0, None)
      else
        let failure_count = de_failures current + 1 in
        if (case subscription of None \<Rightarrow> True | Some s \<Rightarrow> su_status s = Subscription_DISABLED)
        then (D_CANCELLED, failure_count, None)
        else if max_attempts \<le> failure_count then (D_DEAD_LETTER, failure_count, None)
        else (D_RETRY_SCHEDULED, failure_count,
              Some (completed_at + seconds (min (base_retry_seconds * 2 ^ nat (failure_count - 1)) max_retry_seconds))))"

definition recorded ::
  "delivery_status \<times> int \<times> instant option \<Rightarrow> int \<Rightarrow> instant \<Rightarrow> int option \<Rightarrow> string option
    \<Rightarrow> delivery \<Rightarrow> delivery" where
  "recorded result attempt_number completed_at status_code error v =
     (case result of (new_status, failure_count, next_attempt_at) \<Rightarrow>
        v\<lparr>de_status := new_status, de_attempts := attempt_number, de_failures := failure_count,
          de_next_attempt := next_attempt_at, de_lease := None,
          de_delivered_at := (if new_status = D_DELIVERED then Some completed_at else None),
          de_last_attempt := Some completed_at, de_last_code := status_code,
          de_last_error := error, de_updated_at := completed_at\<rparr>)"

definition record_block ::
  "uuid \<Rightarrow> uuid \<Rightarrow> instant \<Rightarrow> instant \<Rightarrow> delivery_outcome \<Rightarrow> int option \<Rightarrow> string option
    \<Rightarrow> int \<Rightarrow> int \<Rightarrow> int \<Rightarrow> delivery option block" where
  "record_block pid did attempted_at completed_at outcome status_code error
       max_attempts base_retry_seconds max_retry_seconds d =
     bindE (get_delivery_with_connection pid did d) (\<lambda>row.
       case row of
         None \<Rightarrow> Inl (WebhookDeliveryNotFound pid did)
       | Some current \<Rightarrow>
           if de_status current \<noteq> D_PROCESSING
           then Inl (WebhookDeliveryState did (delivery_status_text (de_status current)))
           else (case uuid4 d of (u, d1) \<Rightarrow>
             let attempt_number = de_attempts current + 1;
                 normalized_error = map_option (text_take 1000) error in
             bindE (insert_attempt \<lparr>at_id = u, at_delivery = did, at_number = attempt_number,
                 at_attempted_at = attempted_at, at_completed_at = completed_at, at_outcome = outcome,
                 at_code = status_code, at_error = normalized_error\<rparr> d1) (\<lambda>d2.
             bindE (update_deliveries (\<lambda>v. de_project v = pid \<and> de_id v = did \<and> de_status v = D_PROCESSING)
                 (recorded (after_attempt outcome current (get_subscription pid (de_subscription current) d2)
                     completed_at max_attempts base_retry_seconds max_retry_seconds)
                   attempt_number completed_at status_code normalized_error) d2) (\<lambda>d3.
             bindE (get_delivery_with_connection pid did d3) (\<lambda>updated. Inr (updated, d3))))))"

definition record_delivery_result ::
  "uuid \<Rightarrow> uuid \<Rightarrow> instant \<Rightarrow> instant \<Rightarrow> delivery_outcome \<Rightarrow> int option \<Rightarrow> string option
    \<Rightarrow> int \<Rightarrow> int \<Rightarrow> int \<Rightarrow> delivery operation" where
  "record_delivery_result pid did attempted_at completed_at outcome status_code error
       max_attempts base_retry_seconds max_retry_seconds =
     andThen (transaction (record_block pid did attempted_at completed_at outcome status_code error
         max_attempts base_retry_seconds max_retry_seconds)) (\<lambda>row. case row of
        None \<Rightarrow> raising (WebhookDeliveryNotFound pid did)
      | Some v \<Rightarrow> returning v)"

definition requeued :: "instant \<Rightarrow> delivery \<Rightarrow> delivery" where
  "requeued t v = v\<lparr>de_status := D_PENDING, de_failures := 0, de_redeliveries := de_redeliveries v + 1,
     de_next_attempt := Some t, de_lease := None, de_delivered_at := None, de_last_error := None,
     de_updated_at := t\<rparr>"

definition request_redelivery_with_connection :: "uuid \<Rightarrow> uuid \<Rightarrow> instant \<Rightarrow> delivery block" where
  "request_redelivery_with_connection pid did requested_at d =
     bindE (get_delivery_with_connection pid did d) (\<lambda>row.
       case row of
         None \<Rightarrow> Inl (WebhookDeliveryNotFound pid did)
       | Some current \<Rightarrow>
           if de_status current \<noteq> D_DEAD_LETTER
           then Inl (WebhookDeliveryNotRedeliverable did (delivery_status_text (de_status current)))
           else (case get_subscription pid (de_subscription current) d of
               None \<Rightarrow> Inl (WebhookSubscriptionNotFound pid (de_subscription current))
             | Some s \<Rightarrow>
                 if su_status s \<noteq> Subscription_ACTIVE then Inl (WebhookSubscriptionDisabled (su_id s))
                 else bindE (update_deliveries (\<lambda>v. de_project v = pid \<and> de_id v = did \<and> de_status v = D_DEAD_LETTER)
                     (requeued requested_at) d) (\<lambda>d1.
                   bindE (get_delivery_with_connection pid did d1) (\<lambda>updated.
                     case updated of
                       None \<Rightarrow> Inl (WebhookDeliveryNotFound pid did)
                     | Some v \<Rightarrow> Inr (v, d1)))))"

section \<open>Store operations\<close>

definition save_webhook_subscription :: "externals \<Rightarrow> subscription \<Rightarrow> audit_context \<Rightarrow> unit operation" where
  "save_webhook_subscription X s ctx = transaction (\<lambda>d.
     bindE (insert_subscription s d) (\<lambda>d1.
     bindE (audit_change X (su_created_at s) (su_project s) ctx WEBHOOK_SUBSCRIPTION_CREATED R_WEBHOOK_SUBSCRIPTION
         (uuid_text (su_id s)) None (Some (subscription_json X s)) [] d1) (\<lambda>d2. Inr ((), d2))))"

definition disable_webhook_subscription ::
  "externals \<Rightarrow> uuid \<Rightarrow> uuid \<Rightarrow> instant \<Rightarrow> audit_context \<Rightarrow> subscription operation" where
  "disable_webhook_subscription X pid sid disabled_at ctx = transaction (\<lambda>d.
     let previous = get_subscription pid sid d in
     bindE (disable_subscription_with_connection pid sid disabled_at d) (\<lambda>(disabled, d1).
       case previous of
         Some p \<Rightarrow>
           if su_status p = Subscription_ACTIVE
           then bindE (audit_change X disabled_at pid ctx WEBHOOK_SUBSCRIPTION_DISABLED R_WEBHOOK_SUBSCRIPTION
               (uuid_text sid) (Some (subscription_json X p)) (Some (subscription_json X disabled)) [] d1)
             (\<lambda>d2. Inr (disabled, d2))
           else Inr (disabled, d1)
       | None \<Rightarrow> Inr (disabled, d1)))"

definition rotate_webhook_secret ::
  "externals \<Rightarrow> uuid \<Rightarrow> uuid \<Rightarrow> instant \<Rightarrow> audit_context \<Rightarrow> subscription operation" where
  "rotate_webhook_secret X pid sid rotated_at ctx = transaction (\<lambda>d.
     bindE (rotate_subscription_secret_with_connection pid sid rotated_at d) (\<lambda>(rotated, d1).
     bindE (audit_change X rotated_at pid ctx WEBHOOK_SECRET_ROTATED R_WEBHOOK_SUBSCRIPTION (uuid_text sid)
         (map_option (subscription_json X) (get_subscription pid sid d)) (Some (subscription_json X rotated))
         [(''secret_version'', JInt (su_secret_version rotated))] d1) (\<lambda>d2.
       Inr (rotated, d2))))"

definition request_webhook_redelivery_store ::
  "externals \<Rightarrow> uuid \<Rightarrow> uuid \<Rightarrow> instant \<Rightarrow> audit_context \<Rightarrow> delivery operation" where
  "request_webhook_redelivery_store X pid did requested_at ctx = transaction (\<lambda>d.
     bindE (get_delivery_with_connection pid did d) (\<lambda>previous.
     bindE (request_redelivery_with_connection pid did requested_at d) (\<lambda>(redelivery, d1).
     bindE (audit_change X requested_at pid ctx WEBHOOK_REDELIVERY_REQUESTED R_WEBHOOK_DELIVERY (uuid_text did)
         (map_option (delivery_json X) previous) (Some (delivery_json X redelivery))
         [(''event_id'', uuid_json (de_event redelivery)),
          (''subscription_id'', uuid_json (de_subscription redelivery))] d1) (\<lambda>d2.
       Inr (redelivery, d2)))))"

section \<open>Texts\<close>

lemma text_length_take [simp]: "text_length (text_take n s) \<le> n"
proof (induction n s rule: text_take.induct)
  case (2 n c s)
  then show ?case by (cases n) (auto simp: text_length_def)
qed (simp add: text_length_def)

lemma text_take_short: "text_length s \<le> n \<Longrightarrow> text_take n s = s"
proof (induction n s rule: text_take.induct)
  case (2 n c s)
  then show ?case by (cases n) (auto simp: text_length_def)
qed simp

lemma text_take_disabled [simp]: "text_take 1000 DISABLED_REASON = DISABLED_REASON"
  by (rule text_take_short) (simp add: DISABLED_REASON_def text_length_def)

lemma text_length_disabled [simp]: "text_length DISABLED_REASON \<le> 1000"
  by (simp add: DISABLED_REASON_def text_length_def)

section \<open>The type of the delivery table\<close>

definition live_status :: "delivery_status \<Rightarrow> bool" where
  "live_status st \<longleftrightarrow> st = D_PENDING \<or> st = D_RETRY_SCHEDULED \<or> st = D_PROCESSING"

text \<open>What the status of a delivery says of its other columns.\<close>

definition delivery_state_ok :: "delivery \<Rightarrow> bool" where
  "delivery_state_ok v \<longleftrightarrow> delivery_valid v \<and> de_failures v \<le> de_attempts v
     \<and> (de_lease v \<noteq> None \<longleftrightarrow> de_status v = D_PROCESSING)
     \<and> (de_next_attempt v \<noteq> None \<longleftrightarrow> live_status (de_status v))
     \<and> (de_delivered_at v \<noteq> None \<longleftrightarrow> de_status v = D_DELIVERED)
     \<and> (de_status v = D_DELIVERED \<longrightarrow> de_failures v = 0)"

definition deliveries_ok :: "db \<Rightarrow> bool" where
  "deliveries_ok d \<longleftrightarrow> list_all delivery_state_ok (t_deliveries d) \<and> list_all attempt_valid (t_attempts d)
     \<and> list_all (\<lambda>v. map at_number (attempts_of (de_id v) d) = [1..de_attempts v]) (t_deliveries d)"

lemma empty_deliveries_ok [simp]: "deliveries_ok (empty_db us)"
  by (simp add: deliveries_ok_def empty_db_def)

lemma deliveries_okD:
  assumes "deliveries_ok d" and "v \<in> set (t_deliveries d)"
  shows "delivery_state_ok v" and "map at_number (attempts_of (de_id v) d) = [1..de_attempts v]"
    and "delivery_valid v"
  using assms by (auto simp: deliveries_ok_def list_all_iff delivery_state_ok_def)

lemma deliveries_ok_same:
  "t_deliveries d' = t_deliveries d \<Longrightarrow> t_attempts d' = t_attempts d \<Longrightarrow> deliveries_ok d' = deliveries_ok d"
  by (simp add: deliveries_ok_def attempts_of_def)

lemma row_to_delivery_valid [simp]: "delivery_valid v \<Longrightarrow> row_to_delivery v = Inr v"
  by (simp add: row_to_delivery_def)

lemma rows_to_deliveries: "list_all delivery_valid rows \<Longrightarrow> mapE row_to_delivery rows = Inr rows"
  by (induction rows) simp_all

lemma delivery_row_in: "delivery_row pid did d = Some v \<Longrightarrow> v \<in> set (t_deliveries d) \<and> de_project v = pid \<and> de_id v = did"
  unfolding delivery_row_def by (auto dest: find_row_Some)

lemma delivery_row_unique:
  assumes "db_ok d" and "v \<in> set (t_deliveries d)"
  shows "delivery_row (de_project v) (de_id v) d = Some v"
  unfolding delivery_row_def
  by (rule find_row_unique [where k = de_id]) (use assms in \<open>auto simp: db_ok_def unique_by_def\<close>)

lemma get_delivery_ok:
  "deliveries_ok d \<Longrightarrow> get_delivery_with_connection pid did d = Inr (delivery_row pid did d)"
  by (auto simp: get_delivery_with_connection_def split: option.split dest!: delivery_row_in dest: deliveries_okD(3))

lemma update_deliveries_deliveries_ok:
  assumes "update_deliveries P f d = Inr d'" and "deliveries_ok d"
    and "\<And>v. v \<in> set (t_deliveries d) \<Longrightarrow> P v \<Longrightarrow> delivery_state_ok v \<Longrightarrow>
      delivery_state_ok (f v) \<and> de_id (f v) = de_id v \<and> de_attempts (f v) = de_attempts v"
  shows "deliveries_ok d'"
  using assms(2,3) assms(1)
  by (auto simp: update_Inr deliveries_ok_def list_all_iff set_update_rows attempts_of_def)

text \<open>New pending rows under identifiers no row bears keep the type: no attempt refers to them.\<close>

lemma new_rows_deliveries_ok:
  assumes "db_ok d'" and "references_ok d" and "deliveries_ok d"
    and rows: "t_deliveries d' = t_deliveries d @ new" and "t_attempts d' = t_attempts d"
    and new: "list_all (\<lambda>v. delivery_state_ok v \<and> de_attempts v = 0) new"
  shows "deliveries_ok d'"
proof -
  have "attempts_of (de_id v) d = []" if "v \<in> set new" for v
  proof -
    have "unique_by de_id (t_deliveries d')" using assms(1) by (simp add: db_ok_def)
    then have "de_id v \<notin> set (map de_id (t_deliveries d))" using that by (auto simp: rows unique_by_def)
    moreover have "set (map at_delivery (t_attempts d)) \<subseteq> set (map de_id (t_deliveries d))"
      using assms(2) by (simp add: references_ok_def refers_def)
    ultimately have "at_delivery a \<noteq> de_id v" if "a \<in> set (t_attempts d)" for a
      using that by (metis imageI list.set_map subsetD)
    then show ?thesis by (simp add: attempts_of_def filter_empty_conv)
  qed
  with assms show ?thesis by (auto simp: deliveries_ok_def list_all_iff attempts_of_def)
qed

lemma new_delivery_state_ok: "delivery_state_ok (new_delivery u e s)"
  by (simp add: delivery_state_ok_def new_delivery_def delivery_valid_def delivery_check_def status_code_ok_def live_status_def)

lemma new_deliveries_state_ok:
  "list_all (\<lambda>v. delivery_state_ok v \<and> de_attempts v = 0) (new_deliveries e ss us)"
  by (induction ss arbitrary: us) (auto simp: new_delivery_state_ok, auto simp: new_delivery_def)

section \<open>The outbox keeps the delivery table\<close>

lemma audit_change_rows:
  assumes "audit_change X t pid ctx action rtype rid before after metadata d = Inr d'"
  obtains new where "t_deliveries d' = t_deliveries d @ new"
    and "list_all (\<lambda>v. delivery_state_ok v \<and> de_attempts v = 0) new"
    and "t_attempts d' = t_attempts d" and "t_subscriptions d' = t_subscriptions d"
proof -
  from assms obtain e d1 d2 w d3 where e: "build_audit_event X t pid ctx action rtype rid before after metadata d = Inr (e, d1)"
    and i: "insert_audit e d1 = Inr d2" and w: "build_webhook_event_from_audit X e d2 = Inr (w, d3)"
    and q: "enqueue_webhook_event X w d3 = Inr d'"
    by (auto simp: audit_change_def record_administrative_change_def bindE_Inr_iff)
  have same: "t_deliveries d3 = t_deliveries d" "t_attempts d' = t_attempts d" "t_subscriptions d' = t_subscriptions d"
    using e i w enqueue.only [OF q]
    by (auto simp: build_audit_event_def insert_audit_def build_webhook_event_from_audit_def build_webhook_event_def
        uuid4_def bindE_Inr_iff outbox_only_def split: if_splits)
  show ?thesis
  proof (cases "project_exists d3 (we_project w)")
    case True
    from enqueue_made [OF q True] same show ?thesis
      by (intro that [of "new_deliveries w (active_subscriptions d3 (we_project w)) (t_uuids d3)"])
        (simp_all add: new_deliveries_state_ok)
  next
    case False
    with q have "d' = d3" by (simp add: enqueue_webhook_event_def)
    with same show ?thesis by (intro that [of "[]"]) auto
  qed
qed

lemma audit_change_deliveries_ok:
  assumes "audit_change X t pid ctx action rtype rid before after metadata d = Inr d'" and "db_ok d" and "deliveries_ok d"
  shows "deliveries_ok d'"
proof -
  obtain new where new: "t_deliveries d' = t_deliveries d @ new"
    "list_all (\<lambda>v. delivery_state_ok v \<and> de_attempts v = 0) new" "t_attempts d' = t_attempts d"
    using audit_change_rows [OF assms(1)] by metis
  have "db_ok d'" using audit.keeps_ok [OF assms(1)] assms(2) by blast
  then show ?thesis
    by (rule new_rows_deliveries_ok [OF _ _ assms(3) new(1,3,2)]) (use assms(2) in \<open>simp add: db_ok_def\<close>)
qed

section \<open>Rows the operations write\<close>

lemma cancelled_fields [simp]:
  "de_id (cancelled t r v) = de_id v" "de_event (cancelled t r v) = de_event v"
  "de_subscription (cancelled t r v) = de_subscription v" "de_project (cancelled t r v) = de_project v"
  "de_created_at (cancelled t r v) = de_created_at v" "de_attempts (cancelled t r v) = de_attempts v"
  "de_status (cancelled t r v) = D_CANCELLED" "de_failures (cancelled t r v) = de_failures v"
  by (simp_all add: cancelled_def)

lemma leased_fields [simp]:
  "de_id (leased t u v) = de_id v" "de_event (leased t u v) = de_event v"
  "de_subscription (leased t u v) = de_subscription v" "de_project (leased t u v) = de_project v"
  "de_created_at (leased t u v) = de_created_at v" "de_attempts (leased t u v) = de_attempts v"
  "de_status (leased t u v) = D_PROCESSING" "de_failures (leased t u v) = de_failures v"
  "de_lease (leased t u v) = Some u" "de_next_attempt (leased t u v) = de_next_attempt v"
  by (simp_all add: leased_def)

lemma recorded_fields [simp]:
  "de_id (recorded r n t c e v) = de_id v" "de_event (recorded r n t c e v) = de_event v"
  "de_subscription (recorded r n t c e v) = de_subscription v" "de_project (recorded r n t c e v) = de_project v"
  "de_created_at (recorded r n t c e v) = de_created_at v" "de_attempts (recorded r n t c e v) = n"
  "de_status (recorded r n t c e v) = fst r" "de_failures (recorded r n t c e v) = fst (snd r)"
  "de_next_attempt (recorded r n t c e v) = snd (snd r)" "de_lease (recorded r n t c e v) = None"
  "de_redeliveries (recorded r n t c e v) = de_redeliveries v" "de_last_code (recorded r n t c e v) = c"
  "de_last_error (recorded r n t c e v) = e"
  "de_delivered_at (recorded r n t c e v) = (if fst r = D_DELIVERED then Some t else None)"
  by (simp_all add: recorded_def split: prod.split)

lemma requeued_fields [simp]:
  "de_id (requeued t v) = de_id v" "de_event (requeued t v) = de_event v"
  "de_subscription (requeued t v) = de_subscription v" "de_project (requeued t v) = de_project v"
  "de_created_at (requeued t v) = de_created_at v" "de_attempts (requeued t v) = de_attempts v"
  "de_status (requeued t v) = D_PENDING" "de_failures (requeued t v) = 0"
  by (simp_all add: requeued_def)

lemma delivery_change_okI:
  "delivery_state_ok w \<Longrightarrow> de_id w = de_id v \<Longrightarrow> de_event w = de_event v \<Longrightarrow> de_subscription w = de_subscription v
    \<Longrightarrow> de_project w = de_project v \<Longrightarrow> de_created_at w = de_created_at v \<Longrightarrow> delivery_change_ok v w"
  by (simp add: delivery_change_ok_def delivery_state_ok_def delivery_valid_def)

lemma cancelled_state_ok:
  "delivery_state_ok v \<Longrightarrow> text_length r \<le> 1000 \<Longrightarrow> de_status v \<noteq> D_DELIVERED \<Longrightarrow> delivery_state_ok (cancelled t r v)"
  by (auto simp: delivery_state_ok_def delivery_valid_def delivery_check_def cancelled_def live_status_def)

lemma leased_state_ok:
  "delivery_state_ok v \<Longrightarrow> live_status (de_status v) \<Longrightarrow> delivery_state_ok (leased t u v)"
  by (auto simp: delivery_state_ok_def delivery_valid_def delivery_check_def leased_def live_status_def)

lemma requeued_state_ok: "delivery_state_ok v \<Longrightarrow> delivery_state_ok (requeued t v)"
  by (auto simp: delivery_state_ok_def delivery_valid_def delivery_check_def requeued_def live_status_def)

lemma after_attempt_cases:
  "after_attempt outcome v s t m b x =
    (if outcome = SUCCESS then (D_DELIVERED, 0, None)
     else if \<not> (\<exists>sub. s = Some sub \<and> su_status sub = Subscription_ACTIVE) then (D_CANCELLED, de_failures v + 1, None)
     else if m \<le> de_failures v + 1 then (D_DEAD_LETTER, de_failures v + 1, None)
     else (D_RETRY_SCHEDULED, de_failures v + 1, Some (t + seconds (min (b * 2 ^ nat (de_failures v)) x))))"
  by (auto simp: after_attempt_def Let_def split: option.splits; metis subscription_status.exhaust)

lemma recorded_state_ok:
  assumes "delivery_state_ok v" and "status_code_ok code" and "\<forall>e. error = Some e \<longrightarrow> text_length e \<le> 1000"
  shows "delivery_state_ok (recorded (after_attempt outcome v s t m b x) (de_attempts v + 1) t code error v)"
  using assms
  by (auto simp: delivery_state_ok_def delivery_valid_def delivery_check_def after_attempt_cases live_status_def
      split: option.split)

section \<open>What a claim does\<close>

lemma update_deliveries_done:
  assumes "deliveries_ok d"
    and "\<And>v. v \<in> set (t_deliveries d) \<Longrightarrow> P v \<Longrightarrow> delivery_state_ok v \<Longrightarrow> delivery_state_ok (f v)
      \<and> de_id (f v) = de_id v \<and> de_event (f v) = de_event v \<and> de_subscription (f v) = de_subscription v
      \<and> de_project (f v) = de_project v \<and> de_created_at (f v) = de_created_at v \<and> de_attempts (f v) = de_attempts v"
  shows "update_deliveries P f d = Inr (d\<lparr>t_deliveries := update_rows P f (t_deliveries d)\<rparr>)"
    and "deliveries_ok (d\<lparr>t_deliveries := update_rows P f (t_deliveries d)\<rparr>)"
proof -
  show run: "update_deliveries P f d = Inr (d\<lparr>t_deliveries := update_rows P f (t_deliveries d)\<rparr>)"
    unfolding update_Inr
  proof (intro conjI ballI impI refl)
    fix v assume v: "v \<in> set (t_deliveries d)" "P v"
    show "delivery_change_ok v (f v)"
      using assms(2) [OF v deliveries_okD(1) [OF assms(1) v(1)]] by (intro delivery_change_okI) simp_all
  qed
  show "deliveries_ok (d\<lparr>t_deliveries := update_rows P f (t_deliveries d)\<rparr>)"
    by (rule update_deliveries_deliveries_ok [OF run assms(1)]) (use assms(2) in blast)
qed

lemma subscription_has_unique:
  assumes "db_ok d" and "subscription_has st d v" and "subscription_has st' d v"
  shows "st = st'"
proof -
  from assms(2,3) obtain s t where "s \<in> set (t_subscriptions d)" "su_id s = de_subscription v" "su_status s = st"
    "t \<in> set (t_subscriptions d)" "su_id t = de_subscription v" "su_status t = st'"
    by (auto simp: subscription_has_def list_ex_iff)
  moreover have "unique_by su_id (t_subscriptions d)" using assms(1) by (simp add: db_ok_def)
  ultimately show ?thesis using unique_by_eq [of su_id "t_subscriptions d" s t] by simp
qed

lemma due_live: "due now d v \<Longrightarrow> live_status (de_status v)"
  by (auto simp: due_def live_status_def)

lemma due_ids_due:
  assumes "db_ok d" and "v \<in> set (t_deliveries d)" and "de_id v \<in> set (due_ids now limit d)"
  shows "due now d v"
proof -
  from assms(3) obtain w where "w \<in> set (take limit (sort_key due_order (filter (due now d) (t_deliveries d))))"
    and id: "de_id w = de_id v" by (auto simp: due_ids_def)
  then have "w \<in> set (t_deliveries d)" "due now d w" by (auto dest!: in_set_takeD)
  moreover have "unique_by de_id (t_deliveries d)" using assms(1) by (simp add: db_ok_def)
  ultimately show ?thesis using unique_by_eq assms(2) id by metis
qed

lemma distinct_due_ids: "db_ok d \<Longrightarrow> distinct (due_ids now limit d)"
proof -
  assume "db_ok d"
  then have "distinct (map de_id (t_deliveries d))" by (simp add: db_ok_def unique_by_def)
  then have "distinct (map de_id (filter (due now d) (t_deliveries d)))"
    by (rule distinct_map_filter)
  then have "distinct (map de_id (sort_key due_order (filter (due now d) (t_deliveries d))))"
    by (simp add: distinct_map)
  then show ?thesis unfolding due_ids_def take_map [symmetric] by (rule distinct_take)
qed

text \<open>The deliveries after a claim: cancelled if lapsed, leased if claimed.\<close>

definition after_cancelling :: "instant \<Rightarrow> db \<Rightarrow> db" where
  "after_cancelling now d =
     d\<lparr>t_deliveries := update_rows (lapsed now d) (cancelled now DISABLED_REASON) (t_deliveries d)\<rparr>"

definition after_claim :: "instant \<Rightarrow> nat \<Rightarrow> int \<Rightarrow> db \<Rightarrow> db" where
  "after_claim now limit lease d =
     (let d1 = after_cancelling now d
      in d1\<lparr>t_deliveries := update_rows (\<lambda>v. de_id v \<in> set (due_ids now limit d))
          (leased now (now + seconds lease)) (t_deliveries d1)\<rparr>)"

lemma due_ids_after_cancelling:
  assumes "db_ok d"
  shows "due_ids now limit (after_cancelling now d) = due_ids now limit d"
proof -
  have due_eq: "due now (after_cancelling now d) v = due now d v" for v
    by (simp add: due_def after_cancelling_def subscription_has_def)
  have "filter (due now d) (update_rows (lapsed now d) (cancelled now DISABLED_REASON) rows) = filter (due now d) rows" for rows
  proof (induction rows)
    case Nil
    then show ?case by (simp add: update_rows_def)
  next
    case (Cons v rows)
    have "\<not> due now d v \<and> \<not> due now d (cancelled now DISABLED_REASON v)" if "lapsed now d v"
      using that subscription_has_unique [OF assms] by (auto simp: lapsed_def due_def)
    with Cons show ?case by (simp add: update_rows_def)
  qed
  then have "filter (due now d) (t_deliveries (after_cancelling now d)) = filter (due now d) (t_deliveries d)"
    by (simp add: after_cancelling_def)
  then show ?thesis unfolding due_ids_def due_eq by simp
qed

lemma after_cancelling_done:
  assumes "db_ok d" and "deliveries_ok d"
  shows "update_deliveries (lapsed now d) (cancelled now DISABLED_REASON) d = Inr (after_cancelling now d)"
    and "deliveries_ok (after_cancelling now d)" and "db_ok (after_cancelling now d)"
proof -
  have row: "delivery_state_ok (cancelled now DISABLED_REASON v)" if "lapsed now d v" "delivery_state_ok v" for v
    by (rule cancelled_state_ok [OF that(2)]) (use that(1) in \<open>auto simp: lapsed_def\<close>)
  show run: "update_deliveries (lapsed now d) (cancelled now DISABLED_REASON) d = Inr (after_cancelling now d)"
    unfolding after_cancelling_def by (rule update_deliveries_done(1) [OF assms(2)]) (simp add: row)
  show "deliveries_ok (after_cancelling now d)"
    unfolding after_cancelling_def by (rule update_deliveries_done(2) [OF assms(2)]) (simp add: row)
  show "db_ok (after_cancelling now d)" by (rule update_deliveries_ok [OF run assms(1)])
qed

lemma claim_block_done:
  assumes "db_ok d" and "deliveries_ok d"
  shows "claim_block now limit lease d
    = Inr (claimed_rows (due_ids now limit d) (after_claim now limit lease d), after_claim now limit lease d)"
    and "deliveries_ok (after_claim now limit lease d)"
proof -
  let ?d1 = "after_cancelling now d" and ?ids = "due_ids now limit d"
  note c = after_cancelling_done [OF assms]
  have row: "delivery_state_ok (leased now u v)"
    if "v \<in> set (t_deliveries ?d1)" "de_id v \<in> set ?ids" "delivery_state_ok v" for u v
  proof -
    have "de_id v \<in> set (due_ids now limit ?d1)"
      using that(2) by (simp add: due_ids_after_cancelling [OF assms(1)])
    then have "live_status (de_status v)" using due_live due_ids_due [OF c(3) that(1)] by blast
    with that(3) show ?thesis by (rule leased_state_ok)
  qed
  have run: "update_deliveries (\<lambda>v. de_id v \<in> set ?ids) (leased now (now + seconds lease)) ?d1
      = Inr (after_claim now limit lease d)"
    unfolding after_claim_def Let_def by (rule update_deliveries_done(1) [OF c(2)]) (simp add: row)
  show "deliveries_ok (after_claim now limit lease d)"
    unfolding after_claim_def Let_def by (rule update_deliveries_done(2) [OF c(2)]) (simp add: row)
  have none: "after_claim now limit lease d = ?d1 \<and> claimed_rows [] ?d1 = []" if "?ids = []"
    using that by (simp add: after_claim_def claimed_rows_def update_rows_def)
  show "claim_block now limit lease d = Inr (claimed_rows ?ids (after_claim now limit lease d), after_claim now limit lease d)"
    unfolding claim_block_def c(1) bindE_simps Let_def due_ids_after_cancelling [OF assms(1)] run
    using none by simp
qed

lemma claimed_rows_valid: "deliveries_ok d \<Longrightarrow> list_all delivery_valid (claimed_rows ids d)"
  by (auto simp: claimed_rows_def list_all_iff dest: deliveries_okD(3))

lemma claim_done:
  assumes "db_ok d" and "deliveries_ok d"
  shows "claim_due_deliveries now limit lease d
    = (Inr (claimed_rows (due_ids now limit d) (after_claim now limit lease d)), after_claim now limit lease d)"
  using claim_block_done [OF assms, of now limit lease]
  by (simp add: claim_due_deliveries_def andThen_def transaction_def reading_def
      rows_to_deliveries [OF claimed_rows_valid])

lemma after_claim_rows:
  "t_deliveries (after_claim now limit lease d) = map (\<lambda>v.
     (\<lambda>w. if de_id v \<in> set (due_ids now limit d) then leased now (now + seconds lease) w else w)
       (if lapsed now d v then cancelled now DISABLED_REASON v else v)) (t_deliveries d)"
  by (simp add: after_claim_def after_cancelling_def update_rows_def Let_def comp_def)

text \<open>A row after the claim: claimed, cancelled or unchanged.\<close>

lemma after_claim_row:
  assumes "db_ok d" and "v \<in> set (t_deliveries d)"
  shows "(if de_id v \<in> set (due_ids now limit d) then leased now (now + seconds lease) v
     else if lapsed now d v then cancelled now DISABLED_REASON v else v) \<in> set (t_deliveries (after_claim now limit lease d))"
proof -
  have "\<not> lapsed now d v" if "de_id v \<in> set (due_ids now limit d)"
    using due_ids_due [OF assms that] subscription_has_unique [OF assms(1)] by (auto simp: due_def lapsed_def)
  with assms(2) show ?thesis by (auto simp: after_claim_rows intro!: image_eqI [of _ _ v])
qed

lemma set_map_due_ids: "set (due_ids now limit d) \<subseteq> set (map de_id (t_deliveries d))"
  by (auto simp: due_ids_def dest!: in_set_takeD)

lemma claimed_rows_ids:
  assumes "db_ok d" and "set ids \<subseteq> set (map de_id (t_deliveries d))" and "distinct ids"
  shows "set (map de_id (claimed_rows ids d)) = set ids" and "distinct (map de_id (claimed_rows ids d))"
    and "length (claimed_rows ids d) = length ids"
proof -
  let ?rows = "filter (\<lambda>v. de_id v \<in> set ids) (t_deliveries d)"
  show same: "set (map de_id (claimed_rows ids d)) = set ids"
    using assms(2) by (auto simp: claimed_rows_def)
  have "distinct (map de_id ?rows)"
    by (rule distinct_map_filter) (use assms(1) in \<open>simp add: db_ok_def unique_by_def\<close>)
  then show dist: "distinct (map de_id (claimed_rows ids d))"
    by (simp add: claimed_rows_def distinct_map)
  have "card (set (map de_id (claimed_rows ids d))) = length (claimed_rows ids d)"
    using distinct_card [OF dist] by simp
  then show "length (claimed_rows ids d) = length ids"
    using same distinct_card [OF assms(3)] by simp
qed

lemma after_claim_ids: "map de_id (t_deliveries (after_claim now limit lease d)) = map de_id (t_deliveries d)"
  by (simp add: after_claim_rows)

lemma after_claim_frame [simp]:
  "t_subscriptions (after_claim now limit lease d) = t_subscriptions d"
  "t_events (after_claim now limit lease d) = t_events d"
  "t_attempts (after_claim now limit lease d) = t_attempts d"
  "t_uuids (after_claim now limit lease d) = t_uuids d"
  by (simp_all add: after_claim_def after_cancelling_def Let_def)

section \<open>The promise of the operations\<close>

lemma claim_block_accepted:
  assumes "claim_block now limit lease d = Inr (rows, d')"
  shows "accepted {Deliveries} d d'"
proof -
  from assms obtain d1 where u: "update_deliveries (lapsed now d) (cancelled now DISABLED_REASON) d = Inr d1"
    and rest: "d' = d1 \<or> update_deliveries (\<lambda>v. de_id v \<in> set (due_ids now limit d1))
      (leased now (now + seconds lease)) d1 = Inr d'"
    by (auto simp: claim_block_def bindE_Inr_iff Let_def split: if_splits)
  have "accepted {Deliveries} d d1" using u by (rule update_deliveries_accepted) simp
  moreover have "accepted {Deliveries} d1 d'"
    using rest by (auto intro: update_deliveries_accepted)
  ultimately show ?thesis by (rule accepted_trans)
qed

interpretation claiming: store_operation "{Deliveries}" "claim_due_deliveries now limit lease" for now limit lease
  unfolding claim_due_deliveries_def
  by (intro andThen_operation transaction_operation reading_operation) (unfold_locales, rule claim_block_accepted)

interpretation cancelling: store_operation "{Deliveries}" "cancel_processing_delivery pid did t reason" for pid did t reason
  unfolding cancel_processing_delivery_def
proof (intro andThen_operation transaction_operation)
  show "store_block {Deliveries} (\<lambda>d. bindE (update_deliveries (\<lambda>v. de_project v = pid \<and> de_id v = did
      \<and> de_status v = D_PROCESSING) (cancelled t (text_take 1000 reason)) d) (\<lambda>d1.
    bindE (get_delivery_with_connection pid did d1) (\<lambda>row. Inr (row, d1))))"
    by unfold_locales (auto simp: bindE_Inr_iff intro: update_deliveries_accepted)
qed (auto split: option.split)

abbreviation attempt_row :: "uuid \<Rightarrow> uuid \<Rightarrow> delivery \<Rightarrow> instant \<Rightarrow> instant \<Rightarrow> delivery_outcome \<Rightarrow> int option
    \<Rightarrow> string option \<Rightarrow> attempt" where
  "attempt_row u did current t0 t outcome code error \<equiv> \<lparr>at_id = u, at_delivery = did, at_number = de_attempts current + 1,
     at_attempted_at = t0, at_completed_at = t, at_outcome = outcome, at_code = code,
     at_error = map_option (text_take 1000) error\<rparr>"

abbreviation processing_row :: "uuid \<Rightarrow> uuid \<Rightarrow> delivery \<Rightarrow> bool" where
  "processing_row pid did v \<equiv> de_project v = pid \<and> de_id v = did \<and> de_status v = D_PROCESSING"

text \<open>The steps of a recording that goes through.\<close>

lemma record_block_current:
  assumes "get_delivery_with_connection pid did d = Inr (Some current)" and "de_status current = D_PROCESSING"
  shows "record_block pid did t0 t outcome code error m b x d =
    bindE (insert_attempt (attempt_row (fst (uuid4 d)) did current t0 t outcome code error) (snd (uuid4 d))) (\<lambda>d2.
    bindE (update_deliveries (processing_row pid did)
        (recorded (after_attempt outcome current (get_subscription pid (de_subscription current) d2) t m b x)
          (de_attempts current + 1) t code (map_option (text_take 1000) error)) d2) (\<lambda>d3.
    bindE (get_delivery_with_connection pid did d3) (\<lambda>updated. Inr (updated, d3))))"
  by (simp add: record_block_def assms Let_def case_prod_beta)

lemma record_block_steps:
  assumes "record_block pid did t0 t outcome code error m b x d = Inr (r, d')"
  obtains current d2 f where "get_delivery_with_connection pid did d = Inr (Some current)"
    and "de_status current = D_PROCESSING"
    and "insert_attempt (attempt_row (fst (uuid4 d)) did current t0 t outcome code error) (snd (uuid4 d)) = Inr d2"
    and "update_deliveries (processing_row pid did) f d2 = Inr d'"
proof -
  obtain row where row: "get_delivery_with_connection pid did d = Inr row"
    using assms by (auto simp: record_block_def bindE_Inr_iff)
  then obtain current where current: "row = Some current" "de_status current = D_PROCESSING"
    using assms by (cases row) (auto simp: record_block_def split: if_splits)
  with row have row: "get_delivery_with_connection pid did d = Inr (Some current)" by simp
  from assms show ?thesis
    unfolding record_block_current [OF row current(2)] bindE_Inr_iff
    by (elim exE conjE) (rule that [OF row current(2)], auto)
qed

lemma record_block_accepted:
  assumes "record_block pid did t0 t outcome code error m b x d = Inr (r, d')"
  shows "accepted {Deliveries, Attempts} d d'"
proof -
  from assms obtain current d2 f where
    i: "insert_attempt (attempt_row (fst (uuid4 d)) did current t0 t outcome code error) (snd (uuid4 d)) = Inr d2"
    and w: "update_deliveries (processing_row pid did) f d2 = Inr d'" by (rule record_block_steps)
  have u: "uuid4 d = (fst (uuid4 d), snd (uuid4 d))" by simp
  have "accepted {Deliveries, Attempts} d (snd (uuid4 d))"
    using uuid4_evolved [OF u] uuid4_ok [OF u] by (auto simp: accepted_def touches_def kept_def uuid4_def)
  also have "accepted {Deliveries, Attempts} (snd (uuid4 d)) d2" using i by (rule insert_attempt_accepted) simp
  also have "accepted {Deliveries, Attempts} d2 d'" using w by (rule update_deliveries_accepted) simp
  finally show ?thesis .
qed

interpretation recording: store_operation "{Deliveries, Attempts}"
  "record_delivery_result pid did t0 t outcome code error m b x" for pid did t0 t outcome code error m b x
  unfolding record_delivery_result_def
proof (intro andThen_operation transaction_operation)
  show "store_block {Deliveries, Attempts} (record_block pid did t0 t outcome code error m b x)"
    by unfold_locales (rule record_block_accepted)
qed (auto split: option.split)

section \<open>What a recording does\<close>

text \<open>The database after the attempt \<open>a\<close> of the delivery \<open>did\<close> was recorded as \<open>v'\<close>.\<close>

definition after_recording :: "uuid \<Rightarrow> attempt \<Rightarrow> delivery \<Rightarrow> db \<Rightarrow> db" where
  "after_recording did a v' d = d\<lparr>t_uuids := (\<lambda>n. t_uuids d (Suc n)), t_attempts := t_attempts d @ [a],
     t_deliveries := update_rows (\<lambda>v. de_id v = did) (\<lambda>_. v') (t_deliveries d)\<rparr>"

lemma after_recording_deliveries_ok:
  assumes "deliveries_ok d" and "v \<in> set (t_deliveries d)" and "delivery_state_ok v'"
    and "de_id v' = de_id v" and "de_attempts v' = de_attempts v + 1"
    and "attempt_valid a" and "at_delivery a = de_id v" and "at_number a = de_attempts v + 1"
  shows "deliveries_ok (after_recording (de_id v) a v' d)"
proof -
  let ?d' = "after_recording (de_id v) a v' d"
  have at: "attempts_of u ?d' = attempts_of u d @ (if u = de_id v then [a] else [])" for u
    using assms(7) by (simp add: attempts_of_def after_recording_def)
  have nonneg: "0 \<le> de_attempts v"
    using deliveries_okD(1) [OF assms(1,2)] by (simp add: delivery_state_ok_def delivery_valid_def delivery_check_def)
  have "[1..de_attempts v + 1] = [1..de_attempts v] @ [de_attempts v + 1]"
    using nonneg by (simp add: upto_rec2)
  with deliveries_okD(2) [OF assms(1,2)] have "map at_number (attempts_of (de_id v') ?d') = [1..de_attempts v']"
    by (simp add: at assms)
  moreover have "map at_number (attempts_of (de_id w) ?d') = [1..de_attempts w]"
    if "w \<in> set (t_deliveries d)" "de_id w \<noteq> de_id v" for w
    using deliveries_okD(2) [OF assms(1) that(1)] that(2) by (simp add: at)
  ultimately have "list_all (\<lambda>w. map at_number (attempts_of (de_id w) ?d') = [1..de_attempts w]) (t_deliveries ?d')"
    by (auto simp: list_all_iff after_recording_def set_update_rows)
  moreover have "list_all delivery_state_ok (t_deliveries ?d')"
    using assms(1,3) by (auto simp: deliveries_ok_def list_all_iff after_recording_def set_update_rows)
  moreover have "list_all attempt_valid (t_attempts ?d')"
    using assms(1,6) by (simp add: deliveries_ok_def after_recording_def)
  ultimately show ?thesis by (simp add: deliveries_ok_def)
qed

lemma update_rows_same:
  "(\<And>r. r \<in> set rows \<Longrightarrow> (if P r then f r else r) = (if Q r then g r else r)) \<Longrightarrow> update_rows P f rows = update_rows Q g rows"
  by (simp add: update_rows_def)

definition recorded_row ::
  "delivery_outcome \<Rightarrow> delivery \<Rightarrow> subscription option \<Rightarrow> instant \<Rightarrow> int option \<Rightarrow> string option
    \<Rightarrow> int \<Rightarrow> int \<Rightarrow> int \<Rightarrow> delivery" where
  "recorded_row outcome v s t code error m b x =
     recorded (after_attempt outcome v s t m b x) (de_attempts v + 1) t code (map_option (text_take 1000) error) v"

lemma recorded_row_fields [simp]:
  "de_id (recorded_row outcome v s t code error m b x) = de_id v"
  "de_project (recorded_row outcome v s t code error m b x) = de_project v"
  "de_subscription (recorded_row outcome v s t code error m b x) = de_subscription v"
  "de_event (recorded_row outcome v s t code error m b x) = de_event v"
  "de_created_at (recorded_row outcome v s t code error m b x) = de_created_at v"
  "de_attempts (recorded_row outcome v s t code error m b x) = de_attempts v + 1"
  "de_lease (recorded_row outcome v s t code error m b x) = None"
  by (simp_all add: recorded_row_def)

lemma recorded_row_state_ok:
  "delivery_state_ok v \<Longrightarrow> status_code_ok code \<Longrightarrow> delivery_state_ok (recorded_row outcome v s t code error m b x)"
  unfolding recorded_row_def by (rule recorded_state_ok) auto

lemma record_block_done:
  assumes ok: "db_ok d" "deliveries_ok d" and row: "delivery_row pid did d = Some v" and live: "de_status v = D_PROCESSING"
    and code: "status_code_ok code" and fresh: "t_uuids d 0 \<notin> at_id ` set (t_attempts d)"
    and v'_def: "v' = recorded_row outcome v (get_subscription pid (de_subscription v) d) t code error m b x"
    and a_def: "a = attempt_row (t_uuids d 0) did v t0 t outcome code error"
  shows "record_block pid did t0 t outcome code error m b x d = Inr (Some v', after_recording did a v' d)"
    and "deliveries_ok (after_recording did a v' d)"
proof -
  note v = delivery_row_in [OF row, THEN conjunct1] delivery_row_in [OF row, THEN conjunct2, THEN conjunct1]
    delivery_row_in [OF row, THEN conjunct2, THEN conjunct2]
  let ?d1 = "d\<lparr>t_uuids := (\<lambda>n. t_uuids d (Suc n))\<rparr>" and ?d2 = "d\<lparr>t_uuids := (\<lambda>n. t_uuids d (Suc n)), t_attempts := t_attempts d @ [a]\<rparr>"
  let ?f = "recorded (after_attempt outcome v (get_subscription pid (de_subscription v) d) t m b x)
          (de_attempts v + 1) t code (map_option (text_take 1000) error)"
  have get: "get_delivery_with_connection pid did d = Inr (Some v)" using get_delivery_ok [OF ok(2)] row by simp
  have vok: "delivery_state_ok v" using deliveries_okD(1) [OF ok(2) v(1)] .
  have nonneg: "0 \<le> de_attempts v" using vok by (simp add: delivery_state_ok_def delivery_valid_def delivery_check_def)
  have v'ok: "delivery_state_ok v'" unfolding v'_def by (rule recorded_row_state_ok [OF vok code])
  have numbers: "at_number b \<noteq> de_attempts v + 1" if "b \<in> set (t_attempts d)" "at_delivery b = did" for b
  proof -
    have "at_number b \<in> set (map at_number (attempts_of did d))" using that by (simp add: attempts_of_def)
    then have "at_number b \<in> set [1..de_attempts v]"
      using deliveries_okD(2) [OF ok(2) v(1)] by (simp only: v(3))
    then show ?thesis by simp
  qed
  have "at_id b \<noteq> t_uuids d 0" if "b \<in> set (t_attempts d)" for b using fresh that by (metis imageI)
  then have "insert_attempt a ?d1 = Inr ?d2"
    using numbers code v(1,3) nonneg
    by (auto simp: insert_attempt_def attempt_row_ok_def a_def list_all_iff list_ex_iff)
  then have ins: "insert_attempt (attempt_row (fst (uuid4 d)) did v t0 t outcome code error) (snd (uuid4 d)) = Inr ?d2"
    by (simp add: uuid4_def a_def)
  have same: "w = v" if "w \<in> set (t_deliveries d)" "de_id w = did" for w
    using ok(1) unique_by_eq [of de_id "t_deliveries d" w v] that v by (simp add: db_ok_def)
  have rows: "update_rows (processing_row pid did) ?f (t_deliveries d)
      = update_rows (\<lambda>v. de_id v = did) (\<lambda>_. v') (t_deliveries d)"
  proof (rule update_rows_same)
    fix w assume w: "w \<in> set (t_deliveries d)"
    have "?f v = v'" by (simp only: v'_def recorded_row_def)
    moreover have "w = v" if "de_id w = did" using same w that by blast
    moreover have "processing_row pid did v" using live v by simp
    ultimately show "(if processing_row pid did w then ?f w else w) = (if de_id w = did then v' else w)"
      by (cases "de_id w = did") auto
  qed
  have sub: "get_subscription pid (de_subscription v) ?d2 = get_subscription pid (de_subscription v) d"
    by (simp add: get_subscription_def)
  have upd: "update_deliveries (processing_row pid did) ?f ?d2 = Inr (after_recording did a v' d)"
    unfolding update_Inr
  proof (intro conjI ballI impI)
    fix w assume "w \<in> set (t_deliveries ?d2)" "processing_row pid did w"
    then have "w = v" using same by simp
    then show "delivery_change_ok w (?f w)"
      using v'ok by (intro delivery_change_okI) (simp_all add: v'_def recorded_row_def)
  next
    show "after_recording did a v' d = ?d2\<lparr>t_deliveries := update_rows (processing_row pid did) ?f (t_deliveries ?d2)\<rparr>"
      by (simp add: after_recording_def rows)
  qed
  show dok: "deliveries_ok (after_recording did a v' d)"
    unfolding v(3) [symmetric]
    by (rule after_recording_deliveries_ok [OF ok(2) v(1) v'ok])
      (use code nonneg v(3) in \<open>auto simp: v'_def a_def attempt_valid_def split: option.split\<close>)
  have upd': "update_deliveries (processing_row pid did) (recorded (after_attempt outcome v
          (get_subscription pid (de_subscription v) ?d2) t m b x) (de_attempts v + 1) t code
          (map_option (text_take 1000) error)) ?d2 = Inr (after_recording did a v' d)"
    unfolding sub by (rule upd)
  have "accepted {Deliveries, Attempts} d (after_recording did a v' d)"
  proof (rule record_block_accepted)
    show "record_block pid did t0 t outcome code error m b x d
      = Inr (delivery_row pid did (after_recording did a v' d), after_recording did a v' d)"
      unfolding record_block_current [OF get live] ins bindE_simps upd' get_delivery_ok [OF dok] by simp
  qed
  then have "db_ok (after_recording did a v' d)" using ok(1) by (rule accepted_ok)
  moreover have "v' \<in> set (t_deliveries (after_recording did a v' d))"
    using v by (auto simp: after_recording_def set_update_rows)
  ultimately have "delivery_row pid did (after_recording did a v' d) = Some v'"
    using delivery_row_unique [of "after_recording did a v' d" v'] v by (simp add: v'_def)
  then show "record_block pid did t0 t outcome code error m b x d = Inr (Some v', after_recording did a v' d)"
    unfolding record_block_current [OF get live] ins bindE_simps upd' get_delivery_ok [OF dok] by simp
qed

lemma record_done:
  assumes "db_ok d" and "deliveries_ok d" and "delivery_row pid did d = Some v" and "de_status v = D_PROCESSING"
    and "status_code_ok code" and "t_uuids d 0 \<notin> at_id ` set (t_attempts d)"
    and "v' = recorded_row outcome v (get_subscription pid (de_subscription v) d) t code error m b x"
    and "a = attempt_row (t_uuids d 0) did v t0 t outcome code error"
  shows "record_delivery_result pid did t0 t outcome code error m b x d = (Inr v', after_recording did a v' d)"
  using record_block_done(1) [OF assms]
  by (simp add: record_delivery_result_def andThen_def transaction_def returning_def)

lemma record_refused:
  assumes "deliveries_ok d"
  shows "delivery_row pid did d = None \<Longrightarrow>
      record_delivery_result pid did t0 t outcome code error m b x d = (Inl (WebhookDeliveryNotFound pid did), d)"
    and "delivery_row pid did d = Some v \<Longrightarrow> de_status v \<noteq> D_PROCESSING \<Longrightarrow>
      record_delivery_result pid did t0 t outcome code error m b x d
        = (Inl (WebhookDeliveryState did (delivery_status_text (de_status v))), d)"
    and "delivery_row pid did d = Some v \<Longrightarrow> de_status v = D_PROCESSING \<Longrightarrow> \<not> status_code_ok code \<Longrightarrow>
      record_delivery_result pid did t0 t outcome code error m b x d = (Inl IntegrityError, d)"
proof -
  let ?run = "record_delivery_result pid did t0 t outcome code error m b x d"
  note get = get_delivery_ok [OF assms, of pid did]
  show "?run = (Inl (WebhookDeliveryNotFound pid did), d)" if "delivery_row pid did d = None"
    using get that by (simp add: record_delivery_result_def andThen_def transaction_def record_block_def)
  show "?run = (Inl (WebhookDeliveryState did (delivery_status_text (de_status v))), d)"
    if "delivery_row pid did d = Some v" "de_status v \<noteq> D_PROCESSING"
    using get that by (simp add: record_delivery_result_def andThen_def transaction_def record_block_def)
  show "?run = (Inl IntegrityError, d)"
    if "delivery_row pid did d = Some v" "de_status v = D_PROCESSING" "\<not> status_code_ok code"
  proof -
    have "get_delivery_with_connection pid did d = Inr (Some v)" using get that(1) by simp
    note current = record_block_current [OF this that(2)]
    show ?thesis
      unfolding record_delivery_result_def andThen_def transaction_def current
      using that(3) by (simp add: insert_attempt_def attempt_row_ok_def)
  qed
qed

section \<open>A sample instance\<close>

definition sample_webhook_event :: webhook_event where
  "sample_webhook_event = \<lparr>we_id = 40, we_project = 2, we_type = E_project_created, we_occurred_at = 10,
     we_resource_type = R_PROJECT, we_resource = ''2'', we_data = []\<rparr>"

definition webhook_db :: db where
  "webhook_db = sample_db\<lparr>t_events := [\<lparr>er_event = sample_webhook_event, er_payload = ''{}''\<rparr>],
     t_deliveries := [new_delivery 50 sample_webhook_event (sample_subscription 13 [Any_event] 3),
       new_delivery 51 sample_webhook_event (sample_subscription 12 [Only_event E_project_created] 4)]\<rparr>"

lemma webhook_db_ok [simp]: "db_ok webhook_db" "deliveries_ok webhook_db"
proof -
  show "db_ok webhook_db"
    by (simp add: webhook_db_def sample_db_def empty_db_def db_ok_def references_ok_def refers_def unique_by_def
        sample_subscription_def subscription_check_def sample_project_def new_delivery_def sample_webhook_event_def
        delivery_check_def status_code_ok_def)
  show "deliveries_ok webhook_db"
    by (simp add: deliveries_ok_def webhook_db_def sample_db_def empty_db_def new_delivery_state_ok)
      (simp add: attempts_of_def new_delivery_def)
qed

text \<open>The same after both deliveries were claimed at time 20 for 30 seconds.\<close>

definition claimed_db :: db where
  "claimed_db = webhook_db\<lparr>t_deliveries := map (leased 20 (20 + seconds 30)) (t_deliveries webhook_db)\<rparr>"

lemma webhook_due: "due_ids 20 5 webhook_db = [50, 51]"
  by (simp add: due_ids_def webhook_db_def sample_db_def sample_subscription_def new_delivery_def due_order_def
      sample_webhook_event_def due_def subscription_has_def reached_def)

lemma webhook_claimed: "after_claim 20 5 30 webhook_db = claimed_db"
  unfolding after_claim_def Let_def webhook_due
  by (simp add: claimed_db_def after_cancelling_def webhook_db_def update_rows_def lapsed_def new_delivery_def leased_def)

lemma claimed_db_ok [simp]: "db_ok claimed_db" "deliveries_ok claimed_db"
proof -
  have "claim_due_deliveries 20 5 30 webhook_db = (Inr (claimed_rows [50, 51] claimed_db), claimed_db)"
    using claim_done [OF webhook_db_ok, of 20 5 30] by (simp add: webhook_claimed webhook_due)
  then show "db_ok claimed_db" using claiming.keeps_ok webhook_db_ok(1) by blast
  show "deliveries_ok claimed_db" using claim_block_done(2) [OF webhook_db_ok, of 20 5 30] by (simp add: webhook_claimed)
qed

section \<open>Properties\<close>

text \<open>
  what a claim does to a database of consistent deliveries. It never fails. It takes the due
  deliveries (of active subscriptions; never tried or with their retry time come, or with an
  expired lease), at most the given limit of them, each once, and none that is not claimed is due
  before one that is. In the database, exactly these rows are leased until the end of the lease,
  the processing rows of disabled subscriptions whose lease has expired are cancelled, and the
  others are unchanged.
\<close>

theorem claim_outcome:
  assumes "db_ok d" and "deliveries_ok d"
  shows "\<exists>rows d'. claim_due_deliveries now limit lease d = (Inr rows, d')
    \<and> distinct (map de_id rows) \<and> length rows = min limit (length (filter (due now d) (t_deliveries d)))
    \<and> (\<forall>v \<in> set (t_deliveries d). de_id v \<in> de_id ` set rows \<longrightarrow> due now d v)
    \<and> (\<forall>v \<in> set (t_deliveries d). \<forall>w \<in> set (t_deliveries d). de_id v \<in> de_id ` set rows \<longrightarrow> due now d w
         \<longrightarrow> de_id w \<notin> de_id ` set rows \<longrightarrow> due_order v \<le> due_order w)
    \<and> t_deliveries d' = map (\<lambda>v. if de_id v \<in> de_id ` set rows then leased now (now + seconds lease) v
         else if lapsed now d v then cancelled now DISABLED_REASON v else v) (t_deliveries d)
    \<and> set rows \<subseteq> set (t_deliveries d')"
proof -
  let ?ids = "due_ids now limit d" and ?d' = "after_claim now limit lease d"
  let ?rows = "claimed_rows ?ids ?d'" and ?sorted = "sort_key due_order (filter (due now d) (t_deliveries d))"
  have run: "claim_due_deliveries now limit lease d = (Inr ?rows, ?d')" by (rule claim_done [OF assms])
  have ok': "db_ok ?d'" using claiming.keeps_ok [OF run assms(1)] .
  have sub: "set ?ids \<subseteq> set (map de_id (t_deliveries ?d'))"
    unfolding after_claim_ids by (rule set_map_due_ids)
  note rows = claimed_rows_ids [OF ok' sub distinct_due_ids [OF assms(1)]]
  have ids: "de_id ` set ?rows = set ?ids" using rows(1) by simp
  have len: "length ?rows = min limit (length (filter (due now d) (t_deliveries d)))"
    unfolding rows(3) by (simp add: due_ids_def)
  have is_due: "due now d v" if "v \<in> set (t_deliveries d)" "de_id v \<in> set ?ids" for v
    using that by (rule due_ids_due [OF assms(1)])
  have earliest: "due_order v \<le> due_order w"
    if v: "v \<in> set (t_deliveries d)" "de_id v \<in> set ?ids" and w: "w \<in> set (t_deliveries d)" "due now d w" "de_id w \<notin> set ?ids" for v w
  proof -
    obtain v2 where v2: "v2 \<in> set (take limit ?sorted)" "de_id v2 = de_id v" using v(2) by (auto simp: due_ids_def)
    have "v2 \<in> set (t_deliveries d)" using v2(1) by (auto dest!: in_set_takeD)
    then have "v2 = v" using unique_by_eq [of de_id "t_deliveries d" v2 v] v(1) v2(2) assms(1) by (simp add: db_ok_def)
    have "w \<notin> set (take limit ?sorted)" using w(3) by (auto simp: due_ids_def)
    moreover have "w \<in> set ?sorted" using w by simp
    ultimately have "w \<in> set (drop limit ?sorted)" by (metis Un_iff append_take_drop_id set_append)
    moreover have "sorted (map due_order (take limit ?sorted @ drop limit ?sorted))" by simp
    ultimately show ?thesis using v2(1) \<open>v2 = v\<close> by (auto simp only: map_append sorted_append set_map)
  qed
  have "\<not> lapsed now d v" if "v \<in> set (t_deliveries d)" "de_id v \<in> set ?ids" for v
    using is_due [OF that] subscription_has_unique [OF assms(1)] by (auto simp: due_def lapsed_def)
  then have del: "t_deliveries ?d' = map (\<lambda>v. if de_id v \<in> set ?ids then leased now (now + seconds lease) v
         else if lapsed now d v then cancelled now DISABLED_REASON v else v) (t_deliveries d)"
    by (simp add: after_claim_rows)
  have "set ?rows \<subseteq> set (t_deliveries ?d')" by (auto simp: claimed_rows_def)
  then show ?thesis
    using run rows(2) len is_due earliest del unfolding ids [symmetric]
    by (intro exI [of _ ?rows] exI [of _ ?d'] conjI ballI impI) auto
qed

theorem claim_outcome_witness:
  "\<exists>rows d'. claim_due_deliveries 20 5 30 webhook_db = (Inr rows, d') \<and> length rows = 2"
proof -
  have "length (filter (due 20 webhook_db) (t_deliveries webhook_db)) = 2"
    using webhook_due by (simp add: due_ids_def webhook_db_def sample_db_def sample_subscription_def new_delivery_def due_order_def
      sample_webhook_event_def due_def subscription_has_def reached_def)
  then show ?thesis using claim_outcome [OF webhook_db_ok, of 20 5 30] by auto
qed

text \<open>Several workers polling, one after the other: each claim has its own time, limit and lease.\<close>

fun run_claims :: "(instant \<times> nat \<times> int) list \<Rightarrow> delivery list list operation" where
  "run_claims [] = returning []"
| "run_claims ((now, limit, lease) # polls) =
     andThen (claim_due_deliveries now limit lease) (\<lambda>rows.
     andThen (run_claims polls) (\<lambda>rest. returning (rows # rest)))"

definition held :: "uuid \<Rightarrow> instant \<Rightarrow> db \<Rightarrow> bool" where
  "held did until d \<longleftrightarrow> (\<exists>v \<in> set (t_deliveries d). de_id v = did \<and> de_status v = D_PROCESSING \<and> de_lease v = Some until)"

lemma held_claim:
  assumes ok: "db_ok d" "deliveries_ok d" and held: "held did until d" and now: "now < until"
  shows "held did until (after_claim now limit lease d)" and "did \<notin> set (due_ids now limit d)"
proof -
  from held obtain v where v: "v \<in> set (t_deliveries d)" "de_id v = did" "de_status v = D_PROCESSING" "de_lease v = Some until"
    by (auto simp: held_def)
  have "\<not> due now d v" "\<not> lapsed now d v" using v now by (auto simp: due_def lapsed_def reached_def)
  moreover then show "did \<notin> set (due_ids now limit d)" using due_ids_due [OF ok(1) v(1)] v(2) by blast
  ultimately have "v \<in> set (t_deliveries (after_claim now limit lease d))"
    using after_claim_row [OF ok(1) v(1), of now limit lease] v(2) by simp
  with v show "held did until (after_claim now limit lease d)" by (auto simp: held_def)
qed

lemma held_claims:
  assumes "run_claims polls d = (Inr rs, d')" and "db_ok d" and "deliveries_ok d" and "held did until d"
    and "\<forall>(now, limit, lease) \<in> set polls. now < until"
  shows "\<forall>rows \<in> set rs. did \<notin> de_id ` set rows"
  using assms
proof (induction polls arbitrary: d rs)
  case Nil
  then show ?case by (simp add: returning_def)
next
  case (Cons poll polls)
  obtain now limit lease where poll: "poll = (now, limit, lease)" by (cases poll)
  let ?d1 = "after_claim now limit lease d" and ?rows = "claimed_rows (due_ids now limit d) (after_claim now limit lease d)"
  have run: "claim_due_deliveries now limit lease d = (Inr ?rows, ?d1)" by (rule claim_done [OF Cons.prems(2,3)])
  then obtain rest where rs: "rs = ?rows # rest" "run_claims polls ?d1 = (Inr rest, d')"
    using Cons.prems(1) by (auto simp: poll andThen_def returning_def split: prod.splits sum.splits)
  have now: "now < until" using Cons.prems(5) by (simp add: poll)
  note h = held_claim [OF Cons.prems(2,3,4) now]
  have "did \<notin> de_id ` set ?rows" using h(2) by (auto simp: claimed_rows_def)
  moreover have "\<forall>rows \<in> set rest. did \<notin> de_id ` set rows"
  proof (rule Cons.IH [OF rs(2)])
    show "db_ok ?d1" using claiming.keeps_ok [OF run Cons.prems(2)] .
    show "deliveries_ok ?d1" by (rule claim_block_done(2) [OF Cons.prems(2,3)])
  qed (use h(1) Cons.prems(5) in auto)
  ultimately show ?case by (simp add: rs(1))
qed

text \<open>
  C17: no delivery is claimed twice under a live lease. Whatever workers poll, and however
  often, before the lease of a claim ends, none of them receives a delivery of that claim, as
  long as its result is not recorded.
\<close>

theorem claims_exclusive:
  assumes "db_ok d" and "deliveries_ok d" and "claim_due_deliveries now limit lease d = (Inr rows, d1)"
    and "run_claims polls d1 = (Inr rs, d2)"
    and "\<forall>(t, l, s) \<in> set polls. t < now + seconds lease"
  shows "\<forall>v \<in> set rows. \<forall>others \<in> set rs. de_id v \<notin> de_id ` set others"
proof
  fix v assume v: "v \<in> set rows"
  note run = assms(3) [unfolded claim_done [OF assms(1,2)] prod.inject sum.inject]
  have d1: "d1 = after_claim now limit lease d" using run by simp
  have rows: "rows = claimed_rows (due_ids now limit d) d1" using run d1 by simp
  have "v \<in> set (t_deliveries d1)" "de_id v \<in> set (due_ids now limit d)" using v by (auto simp: rows claimed_rows_def)
  then have live: "held (de_id v) (now + seconds lease) d1"
    unfolding held_def d1 after_claim_rows by (intro bexI [of _ v]) (auto simp: d1 after_claim_rows)
  show "\<forall>others \<in> set rs. de_id v \<notin> de_id ` set others"
  proof (rule held_claims [OF assms(4) _ _ live assms(5)])
    show "db_ok d1" using claiming.keeps_ok [OF assms(3,1)] .
    show "deliveries_ok d1" unfolding d1 by (rule claim_block_done(2) [OF assms(1,2)])
  qed
qed

theorem claims_exclusive_witness:
  "\<exists>rows d1 rs d2. claim_due_deliveries 20 5 30 webhook_db = (Inr rows, d1) \<and> length rows = 2
    \<and> run_claims [(21, 5, 30), (seconds 30, 100, 30)] d1 = (Inr rs, d2)
    \<and> (\<forall>v \<in> set rows. \<forall>others \<in> set rs. de_id v \<notin> de_id ` set others)"
proof -
  let ?rows = "claimed_rows [50, 51] claimed_db"
  have c: "claim_due_deliveries 20 5 30 webhook_db = (Inr ?rows, claimed_db)"
    using claim_done [OF webhook_db_ok, of 20 5 30] by (simp add: webhook_claimed webhook_due)
  have two: "length ?rows = 2"
    by (simp add: claimed_rows_def claimed_db_def webhook_db_def new_delivery_def leased_def)
  have polled: "\<exists>rs d2. run_claims polls d = (Inr rs, d2)" if "db_ok d" "deliveries_ok d" for polls d
    using that
  proof (induction polls arbitrary: d)
    case (Cons poll polls)
    obtain t l s where "poll = (t, l, s)" by (cases poll)
    then show ?case
      using Cons.IH [of "after_claim t l s d"] claim_done [OF Cons.prems, of t l s] claim_block_done(2) [OF Cons.prems, of t l s]
        claiming.keeps_ok [OF claim_done [OF Cons.prems, of t l s] Cons.prems(1)]
      by (auto simp: andThen_def returning_def)
  qed (simp add: returning_def)
  obtain rs d2 where r: "run_claims [(21, 5, 30), (seconds 30, 100, 30)] claimed_db = (Inr rs, d2)"
    using polled [OF claimed_db_ok] by blast
  have "\<forall>v \<in> set ?rows. \<forall>others \<in> set rs. de_id v \<notin> de_id ` set others"
    by (rule claims_exclusive [OF webhook_db_ok c r]) (simp add: seconds_def)
  with c two r show ?thesis by blast
qed

definition subscription_active :: "uuid \<Rightarrow> uuid \<Rightarrow> db \<Rightarrow> bool" where
  "subscription_active pid sid d \<longleftrightarrow> (\<exists>s. get_subscription pid sid d = Some s \<and> su_status s = Subscription_ACTIVE)"

text \<open>
  C18: recording the result of an attempt on every branch. An unknown delivery, one that is not
  being processed, and a status code outside 100 to 599 are refused and nothing changes.
  Otherwise the attempt gets the next number, the lease ends, and the delivery is delivered after a
  success; after a failure it is cancelled when its subscription is not active, dead when this
  was its last attempt, and else waits until its next one.
\<close>

theorem delivery_result_outcome:
  assumes "db_ok d" and "deliveries_ok d" and "t_uuids d 0 \<notin> at_id ` set (t_attempts d)"
  shows "let run = record_delivery_result pid did t0 t outcome code error m b x d in
    case delivery_row pid did d of
      None \<Rightarrow> run = (Inl (WebhookDeliveryNotFound pid did), d)
    | Some v \<Rightarrow>
        if de_status v \<noteq> D_PROCESSING
        then run = (Inl (WebhookDeliveryState did (delivery_status_text (de_status v))), d)
        else if \<not> status_code_ok code then run = (Inl IntegrityError, d)
        else \<exists>v'. run = (Inr v', d\<lparr>t_uuids := (\<lambda>n. t_uuids d (Suc n)),
              t_attempts := t_attempts d @ [attempt_row (t_uuids d 0) did v t0 t outcome code error],
              t_deliveries := map (\<lambda>w. if de_id w = did then v' else w) (t_deliveries d)\<rparr>)
          \<and> de_id v' = did \<and> de_attempts v' = de_attempts v + 1 \<and> de_lease v' = None \<and> de_last_code v' = code
          \<and> (de_status v', de_failures v', de_next_attempt v', de_delivered_at v') =
             (if outcome = SUCCESS then (D_DELIVERED, 0, None, Some t)
              else if \<not> subscription_active pid (de_subscription v) d then (D_CANCELLED, de_failures v + 1, None, None)
              else if m \<le> de_failures v + 1 then (D_DEAD_LETTER, de_failures v + 1, None, None)
              else (D_RETRY_SCHEDULED, de_failures v + 1,
                    Some (t + seconds (min (b * 2 ^ nat (de_failures v)) x)), None))"
proof (cases "\<exists>v. delivery_row pid did d = Some v \<and> de_status v = D_PROCESSING \<and> status_code_ok code")
  case True
  then obtain v where v: "delivery_row pid did d = Some v" "de_status v = D_PROCESSING" "status_code_ok code" by blast
  let ?v' = "recorded_row outcome v (get_subscription pid (de_subscription v) d) t code error m b x"
  let ?a = "attempt_row (t_uuids d 0) did v t0 t outcome code error"
  have "record_delivery_result pid did t0 t outcome code error m b x d = (Inr ?v', after_recording did ?a ?v' d)"
    by (rule record_done [OF assms(1,2) v assms(3) refl refl])
  moreover have "de_id v = did" using delivery_row_in [OF v(1)] by simp
  ultimately show ?thesis
    using v by (simp add: Let_def after_recording_def update_rows_def)
      (simp add: recorded_row_def after_attempt_cases subscription_active_def)
next
  case False
  then show ?thesis
    using record_refused [OF assms(2), where pid = pid and did = did and ?t0.0 = t0 and t = t and outcome = outcome
        and code = code and error = error and m = m and b = b and x = x]
    by (auto simp: Let_def split: option.split)
qed

theorem delivery_result_outcome_witness:
  "\<exists>v'. fst (record_delivery_result 2 50 20 20 HTTP_ERROR (Some 503) (Some ''unavailable'') 5 30 3600 claimed_db) = Inr v'
    \<and> de_status v' = D_RETRY_SCHEDULED \<and> de_failures v' = 1 \<and> de_next_attempt v' = Some (20 + seconds 30)"
proof -
  have fresh: "t_uuids claimed_db 0 \<notin> at_id ` set (t_attempts claimed_db)"
    by (simp add: claimed_db_def webhook_db_def sample_db_def empty_db_def)
  let ?v = "leased 20 (20 + seconds 30) (new_delivery 50 sample_webhook_event (sample_subscription 13 [Any_event] 3))"
  have row: "delivery_row 2 50 claimed_db = Some ?v"
    by (simp add: delivery_row_def claimed_db_def webhook_db_def find_row_Cons new_delivery_def sample_webhook_event_def leased_def)
  have active: "subscription_active 2 (de_subscription ?v) claimed_db"
    by (simp add: subscription_active_def get_subscription_def claimed_db_def webhook_db_def sample_db_def find_row_Cons
        sample_subscription_def new_delivery_def)
  have fails: "de_failures ?v = 0" by (simp add: new_delivery_def)
  have "status_code_ok (Some 503)" "de_status ?v = D_PROCESSING" by (simp_all add: status_code_ok_def)
  with delivery_result_outcome [OF claimed_db_ok fresh, where pid = 2 and did = 50 and ?t0.0 = 20 and t = 20
      and outcome = HTTP_ERROR and code = "Some 503" and error = "Some ''unavailable''" and m = 5 and b = 30 and x = 3600]
  obtain v' r where run: "record_delivery_result 2 50 20 20 HTTP_ERROR (Some 503) (Some ''unavailable'') 5 30 3600 claimed_db = (Inr v', r)"
    and v': "(de_status v', de_failures v', de_next_attempt v', de_delivered_at v')
      = (D_RETRY_SCHEDULED, 1, Some (20 + seconds 30), None)"
    unfolding Let_def row option.case by (simp add: active fails del: leased_fields) blast
  show ?thesis by (intro exI [of _ v']) (use v' in \<open>simp add: run\<close>)
qed

end
