(* ===== verification/Webhook_Service.thy ===== *)
theory Webhook_Service
  imports Webhook_Signing Webhook_Store
begin

text \<open>
  The webhook services, \<open>app/services/webhooks.py\<close>: administration of subscriptions and
  redeliveries with their HTTP errors, and the dispatcher that claims due deliveries, signs and sends
  them and records the results. Every operation keeps the type of the delivery table.
\<close>

definition WEBHOOK_MAX_ATTEMPTS :: int where "WEBHOOK_MAX_ATTEMPTS = 5"
definition WEBHOOK_BASE_RETRY_SECONDS :: int where "WEBHOOK_BASE_RETRY_SECONDS = 30"
definition WEBHOOK_MAX_RETRY_SECONDS :: int where "WEBHOOK_MAX_RETRY_SECONDS = 3600"
definition WEBHOOK_LEASE_SECONDS :: int where "WEBHOOK_LEASE_SECONDS = 30"

section \<open>Administration\<close>

definition subscription_not_found :: exn where
  "subscription_not_found = http_error 404 ''webhook_subscription_not_found'' []"

definition subscription_disabled :: exn where
  "subscription_disabled = http_error 409 ''webhook_subscription_disabled'' []"

definition get_webhook_subscription_or_404 :: "uuid \<Rightarrow> uuid \<Rightarrow> subscription operation" where
  "get_webhook_subscription_or_404 pid sid = reading (\<lambda>d.
     case get_subscription pid sid d of None \<Rightarrow> Inl subscription_not_found | Some s \<Rightarrow> Inr s)"

definition create_webhook_subscription ::
  "externals \<Rightarrow> uuid \<Rightarrow> string \<Rightarrow> event_selector list \<Rightarrow> string \<Rightarrow> audit_context \<Rightarrow> instant
    \<Rightarrow> (subscription \<times> string) operation" where
  "create_webhook_subscription X pid url event_types master_secret ctx created_at =
     andThen (get_project_or_404 pid) (\<lambda>project.
       if pr_status project \<noteq> Project_ACTIVE then raising (http_error 409 ''project_disabled'' [])
       else andThen new_uuid (\<lambda>sid.
         let subscription = \<lparr>su_id = sid, su_project = pid, su_url = url, su_events = event_types,
               su_status = Subscription_ACTIVE, su_secret_version = 1, su_created_at = created_at,
               su_updated_at = created_at, su_disabled_at = None\<rparr>
         in andThen (save_webhook_subscription X subscription ctx) (\<lambda>_.
           case derive_webhook_signing_secret X master_secret (su_id subscription) (su_secret_version subscription) of
             Inl e \<Rightarrow> raising e
           | Inr secret \<Rightarrow> returning (subscription, secret))))"

fun webhook_http_error :: "exn \<Rightarrow> exn" where
  "webhook_http_error (WebhookSubscriptionNotFound p s) = subscription_not_found"
| "webhook_http_error (WebhookSubscriptionDisabled s) = subscription_disabled"
| "webhook_http_error e = e"

definition disable_webhook_subscription_service ::
  "externals \<Rightarrow> uuid \<Rightarrow> uuid \<Rightarrow> audit_context \<Rightarrow> instant \<Rightarrow> subscription operation" where
  "disable_webhook_subscription_service X pid sid ctx now =
     andThen (get_project_or_404 pid) (\<lambda>_.
       catching (disable_webhook_subscription X pid sid now ctx) (\<lambda>e.
         raising (case e of WebhookSubscriptionNotFound p s \<Rightarrow> subscription_not_found | _ \<Rightarrow> e)))"

definition rotate_webhook_subscription_secret ::
  "externals \<Rightarrow> uuid \<Rightarrow> uuid \<Rightarrow> string \<Rightarrow> audit_context \<Rightarrow> instant \<Rightarrow> (subscription \<times> string) operation" where
  "rotate_webhook_subscription_secret X pid sid master_secret ctx now =
     andThen (get_project_or_404 pid) (\<lambda>_.
     andThen (catching (rotate_webhook_secret X pid sid now ctx) (\<lambda>e. raising (webhook_http_error e))) (\<lambda>subscription.
       case derive_webhook_signing_secret X master_secret (su_id subscription) (su_secret_version subscription) of
         Inl e \<Rightarrow> raising e
       | Inr secret \<Rightarrow> returning (subscription, secret)))"

definition get_webhook_event_or_404 :: "uuid \<Rightarrow> uuid \<Rightarrow> webhook_event operation" where
  "get_webhook_event_or_404 pid eid = reading (\<lambda>d.
     case get_event pid eid d of None \<Rightarrow> Inl (http_error 404 ''webhook_event_not_found'' []) | Some e \<Rightarrow> Inr e)"

record delivery_detail =
  dd_delivery :: delivery
  dd_event :: webhook_event
  dd_subscription :: subscription
  dd_attempts :: "attempt list"

definition get_webhook_delivery_detail_or_404 :: "uuid \<Rightarrow> uuid \<Rightarrow> delivery_detail operation" where
  "get_webhook_delivery_detail_or_404 pid did =
     andThen (reading (get_delivery_with_connection pid did)) (\<lambda>delivery.
       case delivery of
         None \<Rightarrow> raising (http_error 404 ''webhook_delivery_not_found'' [])
       | Some v \<Rightarrow>
           andThen (get_webhook_event_or_404 pid (de_event v)) (\<lambda>event.
           andThen (get_webhook_subscription_or_404 pid (de_subscription v)) (\<lambda>subscription.
           andThen (reading (list_attempts did)) (\<lambda>attempts.
             returning \<lparr>dd_delivery = v, dd_event = event, dd_subscription = subscription, dd_attempts = attempts\<rparr>))))"

fun redelivery_http_error :: "exn \<Rightarrow> exn" where
  "redelivery_http_error (WebhookDeliveryNotFound p v) = http_error 404 ''webhook_delivery_not_found'' []"
| "redelivery_http_error (WebhookDeliveryNotRedeliverable v status) =
     http_error 409 ''webhook_delivery_not_redeliverable'' [(''current_status'', JStr status)]"
| "redelivery_http_error (WebhookSubscriptionDisabled s) = subscription_disabled"
| "redelivery_http_error e = e"

definition request_webhook_redelivery :: "externals \<Rightarrow> uuid \<Rightarrow> uuid \<Rightarrow> audit_context \<Rightarrow> instant \<Rightarrow> delivery operation" where
  "request_webhook_redelivery X pid did ctx now =
     andThen (get_project_or_404 pid) (\<lambda>_.
       catching (request_webhook_redelivery_store X pid did now ctx) (\<lambda>e. raising (redelivery_http_error e)))"

section \<open>Dispatch\<close>

text \<open>
  \<open>transport.send(url, body, headers)\<close> returns a status code or raises; it is an operation, since
  the database may change while the request is under way.
\<close>

type_synonym transport = "string \<Rightarrow> string \<Rightarrow> (string \<times> string) list \<Rightarrow> int operation"

text \<open>The \<open>try\<close> around the call: what is recorded of it, other exceptions propagate.\<close>

definition sent :: "int operation \<Rightarrow> (delivery_outcome \<times> int option \<times> string option) operation" where
  "sent call = catching
     (andThen call (\<lambda>status_code. returning
        (if 200 \<le> status_code \<and> status_code < 300 then (SUCCESS, Some status_code, None)
         else (HTTP_ERROR, Some status_code,
               Some (''Webhook endpoint returned HTTP '' @ show_int status_code @ ''.'')))))
     (\<lambda>e. case e of WebhookTransportError message \<Rightarrow> returning (NETWORK_ERROR, None, Some message) | _ \<Rightarrow> raising e)"

record dispatch_settings =
  ds_master_secret :: string
  ds_limit :: nat
  ds_max_attempts :: int
  ds_lease_seconds :: int
  ds_base_retry_seconds :: int
  ds_max_retry_seconds :: int

record counters =
  ct_delivered :: nat
  ct_retry_scheduled :: nat
  ct_dead_lettered :: nat
  ct_cancelled :: nat

definition zero_counters :: counters where
  "zero_counters = \<lparr>ct_delivered = 0, ct_retry_scheduled = 0, ct_dead_lettered = 0, ct_cancelled = 0\<rparr>"

fun counted :: "delivery_status \<Rightarrow> counters \<Rightarrow> counters" where
  "counted D_DELIVERED c = c\<lparr>ct_delivered := ct_delivered c + 1\<rparr>"
| "counted D_RETRY_SCHEDULED c = c\<lparr>ct_retry_scheduled := ct_retry_scheduled c + 1\<rparr>"
| "counted D_DEAD_LETTER c = c\<lparr>ct_dead_lettered := ct_dead_lettered c + 1\<rparr>"
| "counted D_CANCELLED c = c\<lparr>ct_cancelled := ct_cancelled c + 1\<rparr>"
| "counted st c = c"

text \<open>\<open>int(dispatch_time.timestamp())\<close>: truncation towards zero.\<close>

definition epoch_seconds :: "instant \<Rightarrow> int" where
  "epoch_seconds t = (if 0 \<le> t then t div 1000000 else - (- t div 1000000))"

definition send_item ::
  "externals \<Rightarrow> transport \<Rightarrow> dispatch_settings \<Rightarrow> instant \<Rightarrow> delivery \<Rightarrow> dispatch_item \<Rightarrow> counters \<Rightarrow> counters operation" where
  "send_item X send s now delivery item c =
     (case derive_webhook_signing_secret X (ds_master_secret s) (su_id (di_subscription item))
         (su_secret_version (di_subscription item)) of
        Inl e \<Rightarrow> raising e
      | Inr signing_secret \<Rightarrow>
          andThen (sent (send (su_url (di_subscription item)) (di_payload item)
              (build_webhook_headers X (di_event item) (de_id delivery) (di_payload item) (epoch_seconds now) signing_secret)))
            (\<lambda>(outcome, status_code, error).
          andThen (record_delivery_result (de_project delivery) (de_id delivery) now now outcome status_code error
              (ds_max_attempts s) (ds_base_retry_seconds s) (ds_max_retry_seconds s)) (\<lambda>completed.
            returning (counted (de_status completed) c))))"

definition dispatch_one ::
  "externals \<Rightarrow> transport \<Rightarrow> dispatch_settings \<Rightarrow> instant \<Rightarrow> delivery \<Rightarrow> counters \<Rightarrow> counters operation" where
  "dispatch_one X send s now delivery c =
     andThen (get_dispatch_item delivery) (\<lambda>item.
       if su_status (di_subscription item) \<noteq> Subscription_ACTIVE
       then andThen (cancel_processing_delivery (de_project delivery) (de_id delivery) now DISABLED_REASON)
         (\<lambda>_. returning (counted D_CANCELLED c))
       else send_item X send s now delivery item c)"

definition dispatch_pending_webhooks ::
  "externals \<Rightarrow> transport \<Rightarrow> dispatch_settings \<Rightarrow> instant \<Rightarrow> (nat \<times> counters) operation" where
  "dispatch_pending_webhooks X send s now =
     andThen (claim_due_deliveries now (ds_limit s) (ds_lease_seconds s)) (\<lambda>claimed.
     andThen (fold_op (dispatch_one X send s now) claimed zero_counters) (\<lambda>c.
       returning (length claimed, c)))"

text \<open>The defaults of the service.\<close>

definition default_settings :: "string \<Rightarrow> nat \<Rightarrow> dispatch_settings" where
  "default_settings master_secret limit = \<lparr>ds_master_secret = master_secret, ds_limit = limit,
     ds_max_attempts = WEBHOOK_MAX_ATTEMPTS, ds_lease_seconds = WEBHOOK_LEASE_SECONDS,
     ds_base_retry_seconds = WEBHOOK_BASE_RETRY_SECONDS, ds_max_retry_seconds = WEBHOOK_MAX_RETRY_SECONDS\<rparr>"

section \<open>Every operation keeps the type of the delivery table\<close>

definition deliveries_typed :: "db \<Rightarrow> bool" where
  "deliveries_typed d \<longleftrightarrow> db_ok d \<and> deliveries_ok d"

named_theorems webhook_keeps "webhook operations that keep the delivery table"

lemma typedI: "db_ok d \<Longrightarrow> deliveries_ok d \<Longrightarrow> deliveries_typed d"
  by (simp add: deliveries_typed_def)

lemma keeps_new_uuid_typed [webhook_keeps]: "keeps deliveries_typed new_uuid"
  by (auto simp: keeps_def new_uuid_def deliveries_typed_def uuid4_def db_ok_def update_references
      intro: deliveries_ok_same [THEN iffD2])

lemma keeps_project_or_404 [webhook_keeps]: "keeps I (get_project_or_404 pid)"
  by (auto simp: keeps_def get_project_or_404_def split: option.splits)

lemma keeps_claim [webhook_keeps]: "keeps deliveries_typed (claim_due_deliveries now limit lease)"
  unfolding keeps_def
proof (intro allI impI)
  fix d r d' assume run: "claim_due_deliveries now limit lease d = (r, d')" and I: "deliveries_typed d"
  then have ok: "db_ok d" "deliveries_ok d" by (auto simp: deliveries_typed_def)
  have "d' = after_claim now limit lease d" using run unfolding claim_done [OF ok] by simp
  then show "deliveries_typed d'"
    using claim_block_done(2) [OF ok] claiming.keeps_ok [OF run ok(1)] by (simp add: deliveries_typed_def)
qed

lemma cancel_row_ok:
  assumes "deliveries_ok d" and "update_deliveries P (cancelled t reason) d = Inr d'" and "text_length reason \<le> 1000"
    and "\<And>v. P v \<Longrightarrow> de_status v \<noteq> D_DELIVERED"
  shows "deliveries_ok d'"
  by (rule update_deliveries_deliveries_ok [OF assms(2,1)]) (use assms(3,4) cancelled_state_ok in auto)

lemma keeps_cancel [webhook_keeps]: "keeps deliveries_typed (cancel_processing_delivery pid did t reason)"
  unfolding keeps_def
proof (intro allI impI)
  fix d r d' assume run: "cancel_processing_delivery pid did t reason d = (r, d')" and I: "deliveries_typed d"
  then have "d' = d \<or> update_deliveries (processing_row pid did) (cancelled t (text_take 1000 reason)) d = Inr d'"
    by (auto simp: cancel_processing_delivery_def andThen_def transaction_def bindE_def raising_def returning_def
        split: sum.splits option.splits)
  then have "deliveries_ok d'"
    using I by (auto simp: deliveries_typed_def intro: cancel_row_ok)
  then show "deliveries_typed d'" using cancelling.keeps_ok [OF run] I by (simp add: deliveries_typed_def)
qed

lemma keeps_record [webhook_keeps]:
  "keeps deliveries_typed (record_delivery_result pid did t0 t outcome code error m b x)"
  unfolding keeps_def
proof (intro allI impI)
  fix d r d' assume run: "record_delivery_result pid did t0 t outcome code error m b x d = (r, d')" and I: "deliveries_typed d"
  then have ok: "db_ok d" "deliveries_ok d" by (auto simp: deliveries_typed_def)
  consider "d' = d" | row where "record_block pid did t0 t outcome code error m b x d = Inr (row, d')"
    using run by (auto simp: record_delivery_result_def andThen_def transaction_def raising_def returning_def
        split: sum.splits option.splits)
  then have "deliveries_ok d'"
  proof cases
    case 2
    from 2 obtain v d2 f where get: "get_delivery_with_connection pid did d = Inr (Some v)" and live: "de_status v = D_PROCESSING"
      and ins: "insert_attempt (attempt_row (fst (uuid4 d)) did v t0 t outcome code error) (snd (uuid4 d)) = Inr d2"
      by (rule record_block_steps)
    have row: "delivery_row pid did d = Some v" using get get_delivery_ok [OF ok(2)] by simp
    have cf: "status_code_ok code" "t_uuids d 0 \<notin> at_id ` set (t_attempts d)"
      using ins by (auto simp: insert_attempt_def attempt_row_ok_def uuid4_def list_all_iff split: if_splits)
    note done' = record_block_done [OF ok row live cf refl refl, where t=t and m=m and b=b and x=x and outcome=outcome
        and error=error and ?t0.0=t0]
    show ?thesis using 2 done'(2) unfolding done'(1) by simp
  qed (use ok in simp)
  then show "deliveries_typed d'" using recording.keeps_ok [OF run ok(1)] by (simp add: deliveries_typed_def)
qed

text \<open>An audited change of subscriptions or deliveries.\<close>

lemma audited_typed:
  assumes "audit_change X t pid ctx action rtype rid before after metadata d1 = Inr d2" and "deliveries_typed d1"
  shows "deliveries_typed d2"
  using assms audit.keeps_ok [OF assms(1)] audit_change_deliveries_ok [OF assms(1)] by (simp add: deliveries_typed_def)

lemma update_subscriptions_typed:
  "update_subscriptions P f d = Inr d' \<Longrightarrow> deliveries_typed d \<Longrightarrow> deliveries_typed d'"
  using update_subscriptions_ok [of P f d d'] deliveries_ok_same [of d' d]
  by (auto simp: deliveries_typed_def update_subscriptions_Inr)

lemma insert_subscription_typed: "insert_subscription s d = Inr d' \<Longrightarrow> deliveries_typed d \<Longrightarrow> deliveries_typed d'"
  using insert_subscription_ok [of s d d'] deliveries_ok_same [of d' d]
  by (auto simp: deliveries_typed_def insert_subscription_def split: if_splits)

lemma disable_block_typed:
  assumes "disable_subscription_with_connection pid sid t d = Inr (s, d')" and "deliveries_typed d"
  shows "deliveries_typed d'"
proof -
  obtain current where get: "get_subscription pid sid d = Some current"
    using assms(1) by (auto simp: disable_subscription_with_connection_def split: option.splits)
  note run = assms(1) [unfolded disable_subscription_with_connection_def get option.case]
  show ?thesis
  proof (cases "su_status current = Subscription_DISABLED")
    case True
    with run assms(2) show ?thesis by simp
  next
    case False
    with run obtain d1 where u: "update_subscriptions (\<lambda>s. su_project s = pid \<and> su_id s = sid \<and> su_status s = Subscription_ACTIVE)
        (disabled_subscription t) d = Inr d1"
      and v: "update_deliveries (\<lambda>v. de_project v = pid \<and> de_subscription v = sid
          \<and> (de_status v = D_PENDING \<or> de_status v = D_RETRY_SCHEDULED)) (cancelled t DISABLED_REASON) d1 = Inr d'"
      by (auto simp: bindE_Inr_iff split: option.split_asm)
    have d1: "deliveries_typed d1" by (rule update_subscriptions_typed [OF u assms(2)])
    have "deliveries_ok d'" by (rule cancel_row_ok [OF _ v]) (use d1 in \<open>auto simp: deliveries_typed_def\<close>)
    moreover have "db_ok d'" using update_deliveries_ok [OF v] d1 by (simp add: deliveries_typed_def)
    ultimately show ?thesis by (rule typedI [rotated])
  qed
qed

lemma rotate_block_typed:
  "rotate_subscription_secret_with_connection pid sid t d = Inr (s, d') \<Longrightarrow> deliveries_typed d \<Longrightarrow> deliveries_typed d'"
  by (auto simp: rotate_subscription_secret_with_connection_def bindE_Inr_iff intro: update_subscriptions_typed
      split: option.split_asm if_split_asm)

lemma redelivery_block_typed:
  assumes "request_redelivery_with_connection pid did t d = Inr (v, d')" and "deliveries_typed d"
  shows "deliveries_typed d'"
proof -
  obtain row where get: "get_delivery_with_connection pid did d = Inr row"
    using assms(1) by (auto simp: request_redelivery_with_connection_def bindE_Inr_iff)
  then obtain current s where "row = Some current" "get_subscription pid (de_subscription current) d = Some s"
    using assms(1) by (auto simp: request_redelivery_with_connection_def split: option.split_asm if_split_asm)
  then have u: "update_deliveries (\<lambda>v. de_project v = pid \<and> de_id v = did \<and> de_status v = D_DEAD_LETTER) (requeued t) d = Inr d'"
    using assms(1) get by (auto simp: request_redelivery_with_connection_def bindE_Inr_iff split: option.split_asm if_split_asm)
  have "deliveries_ok d'"
    by (rule update_deliveries_deliveries_ok [OF u]) (use assms(2) requeued_state_ok in \<open>auto simp: deliveries_typed_def\<close>)
  then show ?thesis using update_deliveries_ok [OF u] assms(2) by (simp add: deliveries_typed_def)
qed

lemma keeps_save_subscription [webhook_keeps]: "keeps deliveries_typed (save_webhook_subscription X s ctx)"
  unfolding save_webhook_subscription_def
  by (rule keeps_transaction) (auto simp: bindE_Inr_iff intro: audited_typed insert_subscription_typed)

lemma keeps_disable [webhook_keeps]: "keeps deliveries_typed (disable_webhook_subscription X pid sid t ctx)"
  unfolding disable_webhook_subscription_def Let_def
proof (rule keeps_transaction)
  fix d r d' assume I: "deliveries_typed d"
    and run: "bindE (disable_subscription_with_connection pid sid t d) (\<lambda>(disabled, d1).
       case get_subscription pid sid d of
         Some p \<Rightarrow>
           if su_status p = Subscription_ACTIVE
           then bindE (audit_change X t pid ctx WEBHOOK_SUBSCRIPTION_DISABLED R_WEBHOOK_SUBSCRIPTION
               (uuid_text sid) (Some (subscription_json X p)) (Some (subscription_json X disabled)) [] d1)
             (\<lambda>d2. Inr (disabled, d2))
           else Inr (disabled, d1)
       | None \<Rightarrow> Inr (disabled, d1)) = Inr (r, d')"
  then obtain disabled d1 where b: "disable_subscription_with_connection pid sid t d = Inr (disabled, d1)"
    by (auto simp: bindE_Inr_iff)
  have "deliveries_typed d1" by (rule disable_block_typed [OF b I])
  then show "deliveries_typed d'"
    using run by (auto simp: b bindE_Inr_iff intro: audited_typed split: option.split_asm if_split_asm)
qed

lemma keeps_rotate [webhook_keeps]: "keeps deliveries_typed (rotate_webhook_secret X pid sid t ctx)"
  unfolding rotate_webhook_secret_def
  by (rule keeps_transaction) (auto simp: bindE_Inr_iff intro: audited_typed rotate_block_typed)

lemma keeps_redelivery [webhook_keeps]: "keeps deliveries_typed (request_webhook_redelivery_store X pid did t ctx)"
  unfolding request_webhook_redelivery_store_def
  by (rule keeps_transaction) (auto simp: bindE_Inr_iff intro: audited_typed redelivery_block_typed)

lemma keeps_case_option: "keeps I m \<Longrightarrow> (\<And>x. keeps I (f x)) \<Longrightarrow> keeps I (case v of None \<Rightarrow> m | Some x \<Rightarrow> f x)"
  by (cases v) auto

lemma keeps_case_sum: "(\<And>e. keeps I (f e)) \<Longrightarrow> (\<And>x. keeps I (g x)) \<Longrightarrow> keeps I (case v of Inl e \<Rightarrow> f e | Inr x \<Rightarrow> g x)"
  by (cases v) auto

lemmas service_keeps = webhook_keeps keeps_intros keeps_case_option keeps_case_sum

lemma keeps_create [webhook_keeps]:
  "keeps deliveries_typed (create_webhook_subscription X pid url events master ctx t)"
  unfolding create_webhook_subscription_def Let_def by (intro service_keeps)

lemma keeps_disable_service [webhook_keeps]:
  "keeps deliveries_typed (disable_webhook_subscription_service X pid sid ctx t)"
  unfolding disable_webhook_subscription_service_def by (intro service_keeps)

lemma keeps_rotate_service [webhook_keeps]:
  "keeps deliveries_typed (rotate_webhook_subscription_secret X pid sid master ctx t)"
  unfolding rotate_webhook_subscription_secret_def by (intro service_keeps)

lemma keeps_redelivery_service [webhook_keeps]: "keeps deliveries_typed (request_webhook_redelivery X pid did ctx t)"
  unfolding request_webhook_redelivery_def by (intro service_keeps)

lemma keeps_sent: "keeps I call \<Longrightarrow> keeps I (sent call)"
  unfolding sent_def by (intro keeps_intros) (auto intro: keeps_intros split: exn.split)

lemma keeps_dispatch_one [webhook_keeps]:
  assumes "\<And>u b h. keeps deliveries_typed (send u b h)"
  shows "keeps deliveries_typed (dispatch_one X send s now v c)"
  unfolding dispatch_one_def get_dispatch_item_def send_item_def
  by (intro service_keeps) (auto intro: service_keeps keeps_sent assms split: prod.split sum.split)

lemma keeps_dispatch [webhook_keeps]:
  assumes "\<And>u b h. keeps deliveries_typed (send u b h)"
  shows "keeps deliveries_typed (dispatch_pending_webhooks X send s now)"
  unfolding dispatch_pending_webhooks_def
  by (intro service_keeps keeps_fold_op keeps_dispatch_one assms)

end
