(* ===== verification/Webhook_Lifecycle.thy ===== *)
theory Webhook_Lifecycle
  imports Webhook_Service
begin

text \<open>
  The lifecycle of a webhook delivery as a state machine, and the administration and dispatch of
  webhooks as a system of requests: every request moves each delivery along the machine. From that
  follow the type of the delivery table in every state the requests reach, the finality of delivered
  and cancelled deliveries, and the bound on the attempts a subscriber receives.
\<close>

section \<open>The state machine\<close>

abbreviation attempt_result :: "dispatch_settings \<Rightarrow> delivery_outcome \<Rightarrow> delivery \<Rightarrow> subscription option \<Rightarrow> instant
    \<Rightarrow> int option \<Rightarrow> string option \<Rightarrow> delivery" where
  "attempt_result cfg outcome v s t code error \<equiv> recorded_row outcome v s t code error
     (ds_max_attempts cfg) (ds_base_retry_seconds cfg) (ds_max_retry_seconds cfg)"

text \<open>The steps of a row, under the settings of the dispatcher.\<close>

inductive delivery_step :: "dispatch_settings \<Rightarrow> delivery \<Rightarrow> delivery \<Rightarrow> bool" for cfg where
  lease: "live_status (de_status v) \<Longrightarrow> delivery_step cfg v (leased t u v)"
| cancel: "live_status (de_status v) \<Longrightarrow> delivery_step cfg v (cancelled t reason v)"
| attempt: "de_status v = D_PROCESSING \<Longrightarrow> delivery_step cfg v (attempt_result cfg outcome v s t code error)"
| requeue: "de_status v = D_DEAD_LETTER \<Longrightarrow> delivery_step cfg v (requeued t v)"

inductive_cases delivery_stepE: "delivery_step cfg v w"

inductive_simps delivery_step_iff: "delivery_step cfg v w"

abbreviation moves :: "dispatch_settings \<Rightarrow> delivery \<Rightarrow> delivery \<Rightarrow> bool" where
  "moves cfg \<equiv> (delivery_step cfg)\<^sup>*\<^sup>*"

lemma delivery_moves:
  "live_status (de_status v) \<Longrightarrow> moves cfg v (leased t u v)"
  "live_status (de_status v) \<Longrightarrow> moves cfg v (cancelled t reason v)"
  "de_status v = D_PROCESSING \<Longrightarrow> moves cfg v (attempt_result cfg outcome v s t code error)"
  "de_status v = D_DEAD_LETTER \<Longrightarrow> moves cfg v (requeued t v)"
  by (rule r_into_rtranclp, erule delivery_step.intros)+

lemma live_statuses [simp]:
  "live_status D_PENDING" "live_status D_RETRY_SCHEDULED" "live_status D_PROCESSING"
  by (simp_all add: live_status_def)

lemma step_identity:
  "delivery_step cfg v w \<Longrightarrow> de_id w = de_id v \<and> de_event w = de_event v \<and> de_subscription w = de_subscription v
    \<and> de_project w = de_project v \<and> de_created_at w = de_created_at v \<and> de_attempts v \<le> de_attempts w"
  by (erule delivery_stepE) simp_all

lemma moves_identity:
  "moves cfg v w \<Longrightarrow> de_id w = de_id v \<and> de_event w = de_event v \<and> de_subscription w = de_subscription v
    \<and> de_project w = de_project v \<and> de_created_at w = de_created_at v \<and> de_attempts v \<le> de_attempts w"
proof (induction rule: rtranclp_induct)
  case (step w z)
  with step_identity [OF step.hyps(2)] show ?case by auto
qed simp

text \<open>A delivered or cancelled delivery takes no further step.\<close>

definition settled_status :: "delivery_status \<Rightarrow> bool" where
  "settled_status st \<longleftrightarrow> st = D_DELIVERED \<or> st = D_CANCELLED"

lemma settled_moves: "moves cfg v w \<Longrightarrow> settled_status (de_status v) \<Longrightarrow> w = v"
proof (induction rule: rtranclp_induct)
  case (step w z)
  then show ?case by (auto simp: settled_status_def live_status_def elim: delivery_stepE)
qed simp

text \<open>
  The counters of a row under the attempt limit: a delivery that may still be attempted has fewer
  failures than the limit since it was last requeued, and there are at most that many attempts per
  requeueing. A retry waits for exactly the delay of its failures.
\<close>

definition retry_delay :: "dispatch_settings \<Rightarrow> int \<Rightarrow> int" where
  "retry_delay cfg failures = min (ds_base_retry_seconds cfg * 2 ^ nat (failures - 1)) (ds_max_retry_seconds cfg)"

definition attempts_within :: "dispatch_settings \<Rightarrow> delivery \<Rightarrow> bool" where
  "attempts_within cfg v \<longleftrightarrow> 0 \<le> de_failures v \<and> 0 \<le> de_redeliveries v
     \<and> (if live_status (de_status v)
        then de_failures v < ds_max_attempts cfg
          \<and> de_attempts v \<le> ds_max_attempts cfg * de_redeliveries v + de_failures v
        else de_failures v \<le> ds_max_attempts cfg
          \<and> de_attempts v \<le> ds_max_attempts cfg * (de_redeliveries v + 1))
     \<and> (de_status v = D_RETRY_SCHEDULED \<longrightarrow> 1 \<le> de_failures v
         \<and> (\<exists>t. de_last_attempt v = Some t \<and> de_next_attempt v = Some (t + seconds (retry_delay cfg (de_failures v)))))"

lemma new_delivery_within: "1 \<le> ds_max_attempts cfg \<Longrightarrow> attempts_within cfg (new_delivery u e s)"
  by (simp add: attempts_within_def new_delivery_def)

lemma delivery_step_within:
  assumes "delivery_step cfg v w" and "attempts_within cfg v" and "1 \<le> ds_max_attempts cfg"
  shows "attempts_within cfg w"
  using assms(1)
proof cases
  case (lease t u)
  then show ?thesis using assms by (simp add: attempts_within_def leased_def)
next
  case (cancel t reason)
  then show ?thesis using assms by (simp add: attempts_within_def live_status_def cancelled_def algebra_simps)
next
  case (attempt outcome s t code error)
  let ?m = "ds_max_attempts cfg"
  have v: "0 \<le> de_failures v" "0 \<le> de_redeliveries v" "de_failures v < ?m"
    "de_attempts v \<le> ?m * de_redeliveries v + de_failures v"
    using assms(2) attempt by (simp_all add: attempts_within_def)
  have "de_last_attempt (attempt_result cfg outcome v s t code error) = Some t"
    by (simp add: recorded_row_def recorded_def split: prod.split)
  then show ?thesis
    using v assms(3) unfolding attempt(1)
    by (auto simp: attempts_within_def recorded_row_def after_attempt_cases live_status_def retry_delay_def algebra_simps)
next
  case (requeue t)
  then show ?thesis using assms
    by (simp add: attempts_within_def requeued_def live_status_def algebra_simps)
qed

lemma moves_within: "moves cfg v w \<Longrightarrow> attempts_within cfg v \<Longrightarrow> 1 \<le> ds_max_attempts cfg \<Longrightarrow> attempts_within cfg w"
  by (induction rule: rtranclp_induct) (auto intro: delivery_step_within)

section \<open>Progress of a table\<close>

definition rows_progress :: "dispatch_settings \<Rightarrow> delivery list \<Rightarrow> delivery list \<Rightarrow> bool" where
  "rows_progress cfg rows rows' \<longleftrightarrow> (\<exists>old new. rows' = old @ new \<and> list_all2 (moves cfg) rows old
     \<and> list_all (\<lambda>w. \<exists>u e s. moves cfg (new_delivery u e s) w) new)"

lemma progress_refl [simp]: "rows_progress cfg rows rows"
  unfolding rows_progress_def by (intro exI [of _ rows] exI [of _ "[]"]) (simp add: list_all2_refl)

lemma progress_trans:
  assumes "rows_progress cfg r1 r2" and "rows_progress cfg r2 r3"
  shows "rows_progress cfg r1 r3"
proof -
  from assms(1) obtain o1 n1 where 1: "r2 = o1 @ n1" "list_all2 (moves cfg) r1 o1"
    "list_all (\<lambda>w. \<exists>u e s. moves cfg (new_delivery u e s) w) n1" by (auto simp: rows_progress_def)
  from assms(2) obtain o2 n2 where 2: "r3 = o2 @ n2" "list_all2 (moves cfg) r2 o2"
    "list_all (\<lambda>w. \<exists>u e s. moves cfg (new_delivery u e s) w) n2" by (auto simp: rows_progress_def)
  from 2(2) 1(1) obtain a b where ab: "o2 = a @ b" "list_all2 (moves cfg) o1 a" "list_all2 (moves cfg) n1 b"
    by (auto simp: list_all2_append1)
  have "list_all2 (moves cfg) r1 a"
    by (rule list_all2_trans [OF rtranclp_trans 1(2) ab(2)])
  moreover have "list_all (\<lambda>w. \<exists>u e s. moves cfg (new_delivery u e s) w) b"
    using ab(3) 1(3) by (induction rule: list_all2_induct) (auto intro: rtranclp_trans)
  ultimately show ?thesis
    unfolding rows_progress_def by (intro exI [of _ a] exI [of _ "b @ n2"]) (simp add: 2(1,3) ab(1))
qed

lemma progress_update:
  assumes "\<And>v. v \<in> set rows \<Longrightarrow> P v \<Longrightarrow> moves cfg v (f v)"
  shows "rows_progress cfg rows (update_rows P f rows)"
proof -
  have "list_all2 (moves cfg) rows (update_rows P f rows)"
    using assms by (auto simp: update_rows_def list_all2_conv_all_nth)
  then show ?thesis unfolding rows_progress_def by (intro exI [of _ "update_rows P f rows"] exI [of _ "[]"]) simp
qed

lemma progress_append:
  "list_all (\<lambda>w. \<exists>u e s. w = new_delivery u e s) new \<Longrightarrow> rows_progress cfg rows (rows @ new)"
  unfolding rows_progress_def
  by (rule exI [of _ rows], rule exI [of _ new]) (fastforce simp: list_all2_refl list_all_iff)

lemma progress_within:
  assumes "rows_progress cfg rows rows'" and "list_all (attempts_within cfg) rows" and "1 \<le> ds_max_attempts cfg"
  shows "list_all (attempts_within cfg) rows'"
proof -
  from assms(1) obtain old new where r: "rows' = old @ new" "list_all2 (moves cfg) rows old"
    "list_all (\<lambda>w. \<exists>u e s. moves cfg (new_delivery u e s) w) new" by (auto simp: rows_progress_def)
  have "list_all (attempts_within cfg) old"
    using r(2) assms(2) by (induction rule: list_all2_induct) (auto intro: moves_within assms(3))
  moreover have "list_all (attempts_within cfg) new"
    using r(3) moves_within [OF _ new_delivery_within] assms(3) by (fastforce simp: list_all_iff)
  ultimately show ?thesis by (simp add: r(1))
qed

section \<open>Every operation makes progress\<close>

definition traced :: "dispatch_settings \<Rightarrow> delivery list \<Rightarrow> db \<Rightarrow> bool" where
  "traced cfg rows d \<longleftrightarrow> deliveries_typed d \<and> rows_progress cfg rows (t_deliveries d)"

named_theorems webhook_traces "webhook operations that move deliveries along their lifecycle"

lemma keeps_traced:
  assumes "keeps deliveries_typed f"
    and "\<And>d r d'. f d = (r, d') \<Longrightarrow> deliveries_typed d \<Longrightarrow> rows_progress cfg (t_deliveries d) (t_deliveries d')"
  shows "keeps (traced cfg rows) f"
  using assms unfolding keeps_def traced_def by (blast intro: progress_trans)

lemma transaction_traced:
  assumes "keeps deliveries_typed (transaction b)"
    and "\<And>d x d'. b d = Inr (x, d') \<Longrightarrow> deliveries_typed d \<Longrightarrow> rows_progress cfg (t_deliveries d) (t_deliveries d')"
  shows "keeps (traced cfg rows) (transaction b)"
  by (rule keeps_traced [OF assms(1)]) (auto simp: transaction_def intro: assms(2) split: sum.splits)

lemma update_progress:
  assumes "update_deliveries P f d = Inr d'" and "\<And>v. v \<in> set (t_deliveries d) \<Longrightarrow> P v \<Longrightarrow> moves cfg v (f v)"
  shows "rows_progress cfg (t_deliveries d) (t_deliveries d')"
  using assms progress_update [of "t_deliveries d" P cfg f] by (simp add: update_Inr)

lemma audited_progress:
  assumes "audit_change X t pid ctx action rtype rid before after metadata d = Inr d'"
  shows "rows_progress cfg (t_deliveries d) (t_deliveries d')"
proof -
  from assms obtain e d1 d2 w d3 where e: "build_audit_event X t pid ctx action rtype rid before after metadata d = Inr (e, d1)"
    and i: "insert_audit e d1 = Inr d2" and w: "build_webhook_event_from_audit X e d2 = Inr (w, d3)"
    and q: "enqueue_webhook_event X w d3 = Inr d'"
    by (auto simp: audit_change_def record_administrative_change_def bindE_Inr_iff)
  have same: "t_deliveries d3 = t_deliveries d"
    using e i w by (auto simp: build_audit_event_def insert_audit_def build_webhook_event_from_audit_def
        build_webhook_event_def uuid4_def bindE_Inr_iff split: if_splits)
  have new: "list_all (\<lambda>v. \<exists>u e s. v = new_delivery u e s) (new_deliveries w ss us)" for ss us
    by (induction ss arbitrary: us) auto
  show ?thesis
  proof (cases "project_exists d3 (we_project w)")
    case True
    with enqueue_made [OF q True] same show ?thesis by (simp add: progress_append new)
  next
    case False
    with q have "d' = d3" by (simp add: enqueue_webhook_event_def)
    with same show ?thesis by simp
  qed
qed

lemma new_uuid_traced [webhook_traces]: "keeps (traced cfg rows) new_uuid"
  by (rule keeps_traced [OF keeps_new_uuid_typed]) (auto simp: new_uuid_def uuid4_def)

lemma project_traced [webhook_traces]: "keeps (traced cfg rows) (get_project_or_404 pid)"
  by (rule keeps_project_or_404)

lemma claim_traced [webhook_traces]: "keeps (traced cfg rows) (claim_due_deliveries now limit lease)"
proof (rule keeps_traced [OF keeps_claim])
  fix d r d' assume run: "claim_due_deliveries now limit lease d = (r, d')" and I: "deliveries_typed d"
  then have ok: "db_ok d" "deliveries_ok d" by (auto simp: deliveries_typed_def)
  have d': "d' = after_claim now limit lease d" using run unfolding claim_done [OF ok] by simp
  have "rows_progress cfg (t_deliveries d) (t_deliveries (after_cancelling now d))"
    unfolding after_cancelling_def
    by (simp, rule progress_update) (auto simp: lapsed_def intro: delivery_moves)
  moreover have "rows_progress cfg (t_deliveries (after_cancelling now d)) (t_deliveries d')"
  proof -
    have "moves cfg v (leased now (now + seconds lease) v)"
      if v: "v \<in> set (t_deliveries (after_cancelling now d))" "de_id v \<in> set (due_ids now limit d)" for v
    proof -
      have "due now (after_cancelling now d) v"
        by (rule due_ids_due [OF after_cancelling_done(3) [OF ok] v(1), where limit = limit])
          (use v(2) in \<open>simp add: due_ids_after_cancelling [OF ok(1)]\<close>)
      then show ?thesis by (intro delivery_moves due_live)
    qed
    then show ?thesis unfolding d' after_claim_def Let_def by (simp, intro progress_update) auto
  qed
  ultimately show "rows_progress cfg (t_deliveries d) (t_deliveries d')" by (rule progress_trans)
qed

lemma cancel_traced [webhook_traces]: "keeps (traced cfg rows) (cancel_processing_delivery pid did t reason)"
proof (rule keeps_traced [OF keeps_cancel])
  fix d r d' assume run: "cancel_processing_delivery pid did t reason d = (r, d')"
  then have "d' = d \<or> update_deliveries (processing_row pid did) (cancelled t (text_take 1000 reason)) d = Inr d'"
    by (auto simp: cancel_processing_delivery_def andThen_def transaction_def bindE_def raising_def returning_def
        split: sum.splits option.splits)
  then show "rows_progress cfg (t_deliveries d) (t_deliveries d')"
  proof
    assume u: "update_deliveries (processing_row pid did) (cancelled t (text_take 1000 reason)) d = Inr d'"
    show "rows_progress cfg (t_deliveries d) (t_deliveries d')" by (rule update_progress [OF u]) (auto intro: delivery_moves)
  qed simp
qed

lemma record_traced [webhook_traces]:
  "keeps (traced cfg rows) (record_delivery_result pid did t0 t outcome code error
    (ds_max_attempts cfg) (ds_base_retry_seconds cfg) (ds_max_retry_seconds cfg))"
proof (rule keeps_traced [OF keeps_record])
  fix d r d' assume run: "record_delivery_result pid did t0 t outcome code error
      (ds_max_attempts cfg) (ds_base_retry_seconds cfg) (ds_max_retry_seconds cfg) d = (r, d')" and I: "deliveries_typed d"
  then have ok: "db_ok d" "deliveries_ok d" by (auto simp: deliveries_typed_def)
  consider "d' = d" | row where "record_block pid did t0 t outcome code error
      (ds_max_attempts cfg) (ds_base_retry_seconds cfg) (ds_max_retry_seconds cfg) d = Inr (row, d')"
    using run by (auto simp: record_delivery_result_def andThen_def transaction_def raising_def returning_def
        split: sum.splits option.splits)
  then show "rows_progress cfg (t_deliveries d) (t_deliveries d')"
  proof cases
    case 2
    from 2 obtain v d2 f where get: "get_delivery_with_connection pid did d = Inr (Some v)" and live: "de_status v = D_PROCESSING"
      and ins: "insert_attempt (attempt_row (fst (uuid4 d)) did v t0 t outcome code error) (snd (uuid4 d)) = Inr d2"
      by (rule record_block_steps)
    have row: "delivery_row pid did d = Some v" using get get_delivery_ok [OF ok(2)] by simp
    have cf: "status_code_ok code" "t_uuids d 0 \<notin> at_id ` set (t_attempts d)"
      using ins by (auto simp: insert_attempt_def attempt_row_ok_def uuid4_def list_all_iff split: if_splits)
    note recorded = record_block_done [OF ok row live cf refl refl, where t=t and m="ds_max_attempts cfg"
        and b="ds_base_retry_seconds cfg" and x="ds_max_retry_seconds cfg" and outcome=outcome and error=error and ?t0.0=t0]
    have "w = v" if "w \<in> set (t_deliveries d)" "de_id w = did" for w
      using unique_by_eq [of de_id "t_deliveries d" w v] that delivery_row_in [OF row] ok(1) by (simp add: db_ok_def)
    then have "rows_progress cfg (t_deliveries d)
        (update_rows (\<lambda>w. de_id w = did) (\<lambda>_. attempt_result cfg outcome v (get_subscription pid (de_subscription v) d) t code error)
          (t_deliveries d))"
      by (intro progress_update) (auto intro: delivery_moves live)
    then show ?thesis using 2 unfolding recorded(1) by (auto simp: after_recording_def)
  qed simp
qed

lemma disable_block_progress:
  assumes "disable_subscription_with_connection pid sid t d = Inr (s, d')"
  shows "rows_progress cfg (t_deliveries d) (t_deliveries d')"
proof -
  obtain current where get: "get_subscription pid sid d = Some current"
    using assms by (auto simp: disable_subscription_with_connection_def split: option.splits)
  note run = assms [unfolded disable_subscription_with_connection_def get option.case]
  show ?thesis
  proof (cases "su_status current = Subscription_DISABLED")
    case True
    with run show ?thesis by simp
  next
    case False
    with run obtain d1 where u: "update_subscriptions (\<lambda>s. su_project s = pid \<and> su_id s = sid \<and> su_status s = Subscription_ACTIVE)
        (disabled_subscription t) d = Inr d1"
      and v: "update_deliveries (\<lambda>v. de_project v = pid \<and> de_subscription v = sid
          \<and> (de_status v = D_PENDING \<or> de_status v = D_RETRY_SCHEDULED)) (cancelled t DISABLED_REASON) d1 = Inr d'"
      by (auto simp: bindE_Inr_iff split: option.split_asm)
    have "t_deliveries d1 = t_deliveries d" using u by (auto simp: update_subscriptions_Inr)
    moreover have "rows_progress cfg (t_deliveries d1) (t_deliveries d')"
      by (rule update_progress [OF v]) (auto intro: delivery_moves)
    ultimately show ?thesis by simp
  qed
qed

lemma rotate_block_deliveries:
  "rotate_subscription_secret_with_connection pid sid t d = Inr (s, d') \<Longrightarrow> t_deliveries d' = t_deliveries d"
  by (auto simp: rotate_subscription_secret_with_connection_def bindE_Inr_iff update_subscriptions_Inr
      split: option.split_asm if_split_asm)

lemma redelivery_block_progress:
  assumes "request_redelivery_with_connection pid did t d = Inr (v, d')"
  shows "rows_progress cfg (t_deliveries d) (t_deliveries d')"
proof -
  obtain row where get: "get_delivery_with_connection pid did d = Inr row"
    using assms by (auto simp: request_redelivery_with_connection_def bindE_Inr_iff)
  then obtain current s where "row = Some current" "get_subscription pid (de_subscription current) d = Some s"
    using assms by (auto simp: request_redelivery_with_connection_def split: option.split_asm if_split_asm)
  then have u: "update_deliveries (\<lambda>v. de_project v = pid \<and> de_id v = did \<and> de_status v = D_DEAD_LETTER) (requeued t) d = Inr d'"
    using assms get by (auto simp: request_redelivery_with_connection_def bindE_Inr_iff split: option.split_asm if_split_asm)
  show ?thesis by (rule update_progress [OF u]) (auto intro: delivery_moves)
qed

lemma save_traced [webhook_traces]: "keeps (traced cfg rows) (save_webhook_subscription X s ctx)"
  unfolding save_webhook_subscription_def
proof (rule transaction_traced [OF keeps_save_subscription [unfolded save_webhook_subscription_def]])
  fix d x d' assume "bindE (insert_subscription s d) (\<lambda>d1.
     bindE (audit_change X (su_created_at s) (su_project s) ctx WEBHOOK_SUBSCRIPTION_CREATED R_WEBHOOK_SUBSCRIPTION
         (uuid_text (su_id s)) None (Some (subscription_json X s)) [] d1) (\<lambda>d2. Inr ((), d2))) = Inr (x, d')"
  then obtain d1 where "insert_subscription s d = Inr d1" and a: "audit_change X (su_created_at s) (su_project s) ctx
      WEBHOOK_SUBSCRIPTION_CREATED R_WEBHOOK_SUBSCRIPTION (uuid_text (su_id s)) None (Some (subscription_json X s)) [] d1 = Inr d'"
    by (auto simp: bindE_Inr_iff)
  then have "t_deliveries d1 = t_deliveries d" by (auto simp: insert_subscription_def split: if_splits)
  with audited_progress [OF a] show "rows_progress cfg (t_deliveries d) (t_deliveries d')" by simp
qed

lemma disable_traced [webhook_traces]: "keeps (traced cfg rows) (disable_webhook_subscription X pid sid t ctx)"
  unfolding disable_webhook_subscription_def
proof (rule transaction_traced [OF keeps_disable [unfolded disable_webhook_subscription_def]])
  fix d r d' assume run: "(let previous = get_subscription pid sid d in
     bindE (disable_subscription_with_connection pid sid t d) (\<lambda>(disabled, d1).
       case previous of
         Some p \<Rightarrow>
           if su_status p = Subscription_ACTIVE
           then bindE (audit_change X t pid ctx WEBHOOK_SUBSCRIPTION_DISABLED R_WEBHOOK_SUBSCRIPTION
               (uuid_text sid) (Some (subscription_json X p)) (Some (subscription_json X disabled)) [] d1)
             (\<lambda>d2. Inr (disabled, d2))
           else Inr (disabled, d1)
       | None \<Rightarrow> Inr (disabled, d1))) = Inr (r, d')"
  then obtain disabled d1 where b: "disable_subscription_with_connection pid sid t d = Inr (disabled, d1)"
    by (auto simp: bindE_Inr_iff Let_def)
  have "rows_progress cfg (t_deliveries d1) (t_deliveries d')"
    using run by (auto simp: Let_def b bindE_Inr_iff intro: audited_progress split: option.split_asm if_split_asm)
  then show "rows_progress cfg (t_deliveries d) (t_deliveries d')" by (rule progress_trans [OF disable_block_progress [OF b]])
qed

lemma rotate_traced [webhook_traces]: "keeps (traced cfg rows) (rotate_webhook_secret X pid sid t ctx)"
  unfolding rotate_webhook_secret_def
  by (rule transaction_traced [OF keeps_rotate [unfolded rotate_webhook_secret_def]])
    (auto simp: bindE_Inr_iff dest!: rotate_block_deliveries audited_progress [where cfg = cfg])

lemma redelivery_traced [webhook_traces]: "keeps (traced cfg rows) (request_webhook_redelivery_store X pid did t ctx)"
  unfolding request_webhook_redelivery_store_def
  by (rule transaction_traced [OF keeps_redelivery [unfolded request_webhook_redelivery_store_def]])
    (auto simp: bindE_Inr_iff dest!: redelivery_block_progress [where cfg = cfg] audited_progress [where cfg = cfg] intro: progress_trans)

lemmas service_traces = webhook_traces keeps_intros keeps_case_option keeps_case_sum

section \<open>Requests\<close>

text \<open>
  What the administration API and the worker ask for. Every request brings its own context and time;
  the settings of the dispatcher are those of the deployment.
\<close>

datatype webhook_request =
  Create_subscription uuid string "event_selector list"
| Disable_subscription uuid uuid
| Rotate_secret uuid uuid
| Request_redelivery uuid uuid
| Dispatch_pending

definition answered :: "'a operation \<Rightarrow> unit operation" where
  "answered m = andThen m (\<lambda>_. returning ())"

fun perform_webhook ::
  "externals \<Rightarrow> transport \<Rightarrow> dispatch_settings \<Rightarrow> audit_context \<Rightarrow> instant \<Rightarrow> webhook_request \<Rightarrow> unit operation" where
  "perform_webhook X send s ctx now (Create_subscription pid url events) =
     answered (create_webhook_subscription X pid url events (ds_master_secret s) ctx now)"
| "perform_webhook X send s ctx now (Disable_subscription pid sid) =
     answered (disable_webhook_subscription_service X pid sid ctx now)"
| "perform_webhook X send s ctx now (Rotate_secret pid sid) =
     answered (rotate_webhook_subscription_secret X pid sid (ds_master_secret s) ctx now)"
| "perform_webhook X send s ctx now (Request_redelivery pid did) =
     answered (request_webhook_redelivery X pid did ctx now)"
| "perform_webhook X send s ctx now Dispatch_pending = answered (dispatch_pending_webhooks X send s now)"

lemma answered_traced: "keeps I m \<Longrightarrow> keeps I (answered m)"
  unfolding answered_def by (intro keeps_intros)

lemma dispatch_one_traced [webhook_traces]:
  assumes "\<And>u b h. keeps (traced s rows) (send u b h)"
  shows "keeps (traced s rows) (dispatch_one X send s now v c)"
  unfolding dispatch_one_def get_dispatch_item_def send_item_def
  by (intro service_traces) (auto intro: service_traces keeps_sent assms split: prod.split sum.split)

lemma dispatch_traced [webhook_traces]:
  assumes "\<And>u b h. keeps (traced s rows) (send u b h)"
  shows "keeps (traced s rows) (dispatch_pending_webhooks X send s now)"
  unfolding dispatch_pending_webhooks_def
  by (intro service_traces keeps_fold_op dispatch_one_traced assms)

lemma perform_traced:
  assumes "\<And>u b h. keeps (traced s rows) (send u b h)"
  shows "keeps (traced s rows) (perform_webhook X send s ctx now req)"
proof (cases req)
  case (Create_subscription pid url events)
  then show ?thesis
    by (auto simp: create_webhook_subscription_def Let_def intro!: answered_traced service_traces)
next
  case (Disable_subscription pid sid)
  then show ?thesis
    by (auto simp: disable_webhook_subscription_service_def intro!: answered_traced service_traces)
next
  case (Rotate_secret pid sid)
  then show ?thesis
    by (auto simp: rotate_webhook_subscription_secret_def intro!: answered_traced service_traces)
next
  case (Request_redelivery pid did)
  then show ?thesis
    by (auto simp: request_webhook_redelivery_def intro!: answered_traced service_traces)
next
  case Dispatch_pending
  then show ?thesis by (auto intro!: answered_traced dispatch_traced assms)
qed

section \<open>The states the requests reach\<close>

text \<open>
  Whatever other parties do to the database while a request is under way is progress of the
  deliveries as well.
\<close>

definition transport_fair :: "dispatch_settings \<Rightarrow> transport \<Rightarrow> bool" where
  "transport_fair cfg send \<longleftrightarrow> (\<forall>rows u b h. keeps (traced cfg rows) (send u b h))"

lemma quiet_transport_fair: "(\<And>u b h d. snd (send u b h d) = d) \<Longrightarrow> transport_fair cfg send"
  unfolding transport_fair_def keeps_def by (metis snd_conv)

text \<open>Requests in any order, whatever they answer, and events other services put into the outbox.\<close>

inductive webhooks_reach :: "externals \<Rightarrow> transport \<Rightarrow> dispatch_settings \<Rightarrow> db \<Rightarrow> db \<Rightarrow> bool" for X send cfg d0 where
  initial: "webhooks_reach X send cfg d0 d0"
| request: "webhooks_reach X send cfg d0 d \<Longrightarrow> perform_webhook X send cfg ctx now req d = (r, d')
    \<Longrightarrow> webhooks_reach X send cfg d0 d'"
| outbox: "webhooks_reach X send cfg d0 d \<Longrightarrow> enqueue_webhook_event X e d = Inr d' \<Longrightarrow> webhooks_reach X send cfg d0 d'"

lemma new_deliveries_new: "list_all (\<lambda>v. \<exists>u e s. v = new_delivery u e s) (new_deliveries w ss us)"
  by (induction ss arbitrary: us) auto

lemma enqueue_traced:
  assumes "enqueue_webhook_event X w d = Inr d'" and "traced cfg rows d"
  shows "traced cfg rows d'"
proof (cases "project_exists d (we_project w)")
  case True
  note made = enqueue_made [OF assms(1) True]
  let ?new = "new_deliveries w (active_subscriptions d (we_project w)) (t_uuids d)"
  have I: "db_ok d" "deliveries_ok d" and p: "rows_progress cfg rows (t_deliveries d)"
    using assms(2) by (simp_all add: traced_def deliveries_typed_def)
  have "db_ok d'" by (rule enqueue.keeps_ok [OF assms(1) I(1)])
  moreover have "t_attempts d' = t_attempts d" using enqueue.only [OF assms(1)] by (auto simp: outbox_only_def)
  ultimately have "deliveries_ok d'"
    using new_rows_deliveries_ok [of d' d ?new] I made new_deliveries_state_ok by (simp add: db_ok_def)
  moreover have "rows_progress cfg rows (t_deliveries d')"
    using made progress_trans [OF p progress_append] new_deliveries_new by simp
  ultimately show ?thesis using \<open>db_ok d'\<close> by (simp add: traced_def deliveries_typed_def)
next
  case False
  with assms show ?thesis by (simp add: enqueue_webhook_event_def)
qed

lemma reach_traced:
  assumes "webhooks_reach X send cfg d0 d" and "transport_fair cfg send" and "deliveries_typed d0"
  shows "traced cfg (t_deliveries d0) d"
  using assms(1)
proof (induction rule: webhooks_reach.induct)
  case initial
  show ?case using assms(3) by (simp add: traced_def)
next
  case (request d ctx now req r d')
  show ?case
    by (rule keepsD [OF perform_traced request.hyps(2) request.IH]) (use assms(2) in \<open>simp add: transport_fair_def\<close>)
next
  case (outbox d e d')
  from outbox.hyps(2) outbox.IH show ?case by (rule enqueue_traced)
qed

text \<open>
  C20: the delivery table stays well typed in every state the service reaches: whatever requests
  arrive, whatever subscribers answer and whenever other services publish events, the status of a
  delivery agrees with its lease, its next attempt, its delivery time and its failures, and its
  attempts are numbered from 1 without gaps.
\<close>

theorem deliveries_stay_typed:
  assumes "webhooks_reach X send cfg d0 d" and "transport_fair cfg send" and "db_ok d0" and "deliveries_ok d0"
  shows "db_ok d \<and> deliveries_ok d"
  using reach_traced [OF assms(1,2)] assms(3,4) by (simp add: traced_def deliveries_typed_def)

theorem deliveries_stay_typed_witness:
  "deliveries_ok (snd (perform_webhook sample_externals (\<lambda>u b h. returning 503) (default_settings ''secret'' 5)
     sample_context 20 Dispatch_pending webhook_db))"
proof -
  let ?send = "\<lambda>u b h. returning 503" and ?cfg = "default_settings ''secret'' 5"
  obtain r d where run: "perform_webhook sample_externals ?send ?cfg sample_context 20 Dispatch_pending webhook_db = (r, d)"
    by force
  have "webhooks_reach sample_externals ?send ?cfg webhook_db d"
    by (rule webhooks_reach.request [OF webhooks_reach.initial run])
  moreover have "transport_fair ?cfg ?send" by (rule quiet_transport_fair) (simp add: returning_def)
  ultimately show ?thesis
    using deliveries_stay_typed [of sample_externals ?send ?cfg webhook_db d] run by simp
qed

text \<open>
  a subscriber receives at most the configured number of attempts, and as many again for every
  redelivery an operator requested, in every state the service reaches. A delivery that may
  still be attempted has failed fewer times than that, and a retry waits for the doubled delay of
  its failures: at least the base delay or the maximum, and never more than the maximum.
\<close>

theorem attempts_bounded:
  assumes "webhooks_reach X send cfg d0 d" and "transport_fair cfg send" and "db_ok d0" and "deliveries_ok d0"
    and "1 \<le> ds_max_attempts cfg" and "0 \<le> ds_base_retry_seconds cfg" and "list_all (attempts_within cfg) (t_deliveries d0)"
    and "v \<in> set (t_deliveries d)"
  shows "int (length (attempts_of (de_id v) d)) \<le> ds_max_attempts cfg * (de_redeliveries v + 1)
    \<and> (live_status (de_status v) \<longrightarrow> de_failures v < ds_max_attempts cfg)
    \<and> (de_status v = D_RETRY_SCHEDULED \<longrightarrow> (\<exists>last wait. de_last_attempt v = Some last \<and> de_next_attempt v = Some (last + wait)
         \<and> wait = seconds (min (ds_base_retry_seconds cfg * 2 ^ nat (de_failures v - 1)) (ds_max_retry_seconds cfg))
         \<and> seconds (min (ds_base_retry_seconds cfg) (ds_max_retry_seconds cfg)) \<le> wait
         \<and> wait \<le> seconds (ds_max_retry_seconds cfg)))"
proof -
  have t: "traced cfg (t_deliveries d0) d"
    by (rule reach_traced [OF assms(1,2)]) (simp add: deliveries_typed_def assms(3,4))
  then have "list_all (attempts_within cfg) (t_deliveries d)"
    using progress_within assms(5,7) by (auto simp: traced_def)
  then have v: "attempts_within cfg v" using assms(8) by (simp add: list_all_iff)
  have ok: "deliveries_ok d" using t by (simp add: traced_def deliveries_typed_def)
  have "0 \<le> de_attempts v"
    using deliveries_okD(3) [OF ok assms(8)] by (simp add: delivery_valid_def delivery_check_def)
  moreover have "length (attempts_of (de_id v) d) = length [1..de_attempts v]"
    by (metis deliveries_okD(2) [OF ok assms(8)] length_map)
  ultimately have n: "int (length (attempts_of (de_id v) d)) = de_attempts v" by simp
  have total: "de_attempts v \<le> ds_max_attempts cfg * (de_redeliveries v + 1)"
    using v by (auto simp: attempts_within_def algebra_simps split: if_splits)
  have "ds_base_retry_seconds cfg \<le> ds_base_retry_seconds cfg * 2 ^ k" for k
    using assms(6) mult_left_mono [of 1 "2 ^ k" "ds_base_retry_seconds cfg"] by simp
  then have low: "min (ds_base_retry_seconds cfg) (ds_max_retry_seconds cfg) \<le> retry_delay cfg f" for f
    unfolding retry_delay_def by (rule min.mono) simp_all
  have "retry_delay cfg f \<le> ds_max_retry_seconds cfg" for f by (simp add: retry_delay_def)
  with v n total low show ?thesis
    by (auto simp: attempts_within_def seconds_def retry_delay_def [symmetric])
qed

theorem attempts_bounded_witness:
  "list_all (\<lambda>v. \<not> (live_status (de_status v) \<and> 5 \<le> de_failures v))
     (t_deliveries (snd (perform_webhook sample_externals (\<lambda>u b h. returning 503) (default_settings ''secret'' 5)
       sample_context 20 Dispatch_pending webhook_db)))"
  unfolding list_all_iff
proof
  let ?send = "\<lambda>u b h. returning 503" and ?cfg = "default_settings ''secret'' 5"
  obtain r d where run: "perform_webhook sample_externals ?send ?cfg sample_context 20 Dispatch_pending webhook_db = (r, d)"
    by force
  fix v assume "v \<in> set (t_deliveries (snd (perform_webhook sample_externals ?send ?cfg sample_context 20 Dispatch_pending webhook_db)))"
  then have v: "v \<in> set (t_deliveries d)" unfolding run by simp
  have reach: "webhooks_reach sample_externals ?send ?cfg webhook_db d"
    by (rule webhooks_reach.request [OF webhooks_reach.initial run])
  have fair: "transport_fair ?cfg ?send" by (rule quiet_transport_fair) (simp add: returning_def)
  have "list_all (attempts_within ?cfg) (t_deliveries webhook_db)"
    by (simp add: webhook_db_def new_delivery_within default_settings_def WEBHOOK_MAX_ATTEMPTS_def)
  then show "\<not> (live_status (de_status v) \<and> 5 \<le> de_failures v)"
    using attempts_bounded [OF reach fair webhook_db_ok _ _ _ v]
    by (auto simp: default_settings_def WEBHOOK_MAX_ATTEMPTS_def WEBHOOK_BASE_RETRY_SECONDS_def)
qed

end
