(* ===== verification/Webhook_Dispatch.thy ===== *)
theory Webhook_Dispatch
  imports Webhook_Lifecycle
begin

text \<open>
  What a dispatch does when nothing else touches the database meanwhile: it attempts exactly the due
  deliveries it claims. The worker of \<open>app/webhook_worker.py\<close> therefore reaches its sleep, a
  delivery settles after finitely many dispatches, and a status code outside 100 to 599 stops it.
\<close>

section \<open>The loop of the worker\<close>

text \<open>
  \<open>while True\<close> in \<open>run_webhook_worker\<close>. Sleeping only lets time pass: the clock gives the
  time of every round. Not returning is None.
\<close>

partial_function (option) worker_loop ::
  "externals \<Rightarrow> transport \<Rightarrow> dispatch_settings \<Rightarrow> bool \<Rightarrow> (nat \<Rightarrow> instant) \<Rightarrow> nat \<Rightarrow> db
    \<Rightarrow> ((exn + nat \<times> counters) \<times> db) option" where
  "worker_loop X send cfg once clock k d =
     (case dispatch_pending_webhooks X send cfg (clock k) d of
        (Inl e, d') \<Rightarrow> Some (Inl e, d')
      | (Inr summary, d') \<Rightarrow>
          if once then Some (Inr summary, d')
          else worker_loop X send cfg once clock (Suc k) d')"

text \<open>The interval in microseconds.\<close>

definition run_webhook_worker ::
  "externals \<Rightarrow> transport \<Rightarrow> string \<Rightarrow> int \<Rightarrow> int \<Rightarrow> bool \<Rightarrow> (nat \<Rightarrow> instant) \<Rightarrow> db
    \<Rightarrow> ((exn + nat \<times> counters) \<times> db) option" where
  "run_webhook_worker X send master_secret batch_size poll_interval once clock d =
     (if batch_size < 1 \<or> 100 < batch_size
      then Some (Inl (ValueError ''Webhook worker batch size must be between 1 and 100.''), d)
      else if poll_interval \<le> 0
      then Some (Inl (ValueError ''Webhook worker poll interval must be positive.''), d)
      else worker_loop X send (default_settings master_secret (nat batch_size)) once clock 0 d)"

text \<open>The rounds from \<open>k\<close> until the worker sleeps: it does so after a batch that was not full.\<close>

partial_function (option) until_sleep ::
  "externals \<Rightarrow> transport \<Rightarrow> dispatch_settings \<Rightarrow> (nat \<Rightarrow> instant) \<Rightarrow> nat \<Rightarrow> db \<Rightarrow> ((exn + nat) \<times> db) option" where
  "until_sleep X send cfg clock k d =
     (case dispatch_pending_webhooks X send cfg (clock k) d of
        (Inl e, d') \<Rightarrow> Some (Inl e, d')
      | (Inr (claimed, c), d') \<Rightarrow>
          if claimed < ds_limit cfg then Some (Inr k, d')
          else until_sleep X send cfg clock (Suc k) d')"

section \<open>One delivery\<close>

text \<open>A transport that answers a recordable status or fails, and leaves the database alone.\<close>

definition transport_quiet :: "transport \<Rightarrow> bool" where
  "transport_quiet send \<longleftrightarrow> (\<forall>u b h d. (\<exists>code. send u b h d = (Inr code, d) \<and> 100 \<le> code \<and> code \<le> 599)
     \<or> (\<exists>message. send u b h d = (Inl (WebhookTransportError message), d)))"

text \<open>The event and the subscription of every delivery are in its project.\<close>

definition deliveries_linked :: "db \<Rightarrow> bool" where
  "deliveries_linked d \<longleftrightarrow> list_all (\<lambda>v.
     list_ex (\<lambda>r. we_id (er_event r) = de_event v \<and> we_project (er_event r) = de_project v) (t_events d)
     \<and> list_ex (\<lambda>s. su_id s = de_subscription v \<and> su_project s = de_project v) (t_subscriptions d)) (t_deliveries d)"

definition dispatch_ready :: "dispatch_settings \<Rightarrow> db \<Rightarrow> bool" where
  "dispatch_ready cfg d \<longleftrightarrow> db_ok d \<and> deliveries_ok d \<and> deliveries_linked d \<and> fresh_ids d
     \<and> 32 \<le> length (ds_master_secret cfg)"

text \<open>An attempt of \<open>v\<close> at the time of the dispatch gave \<open>w\<close>.\<close>

definition attempted :: "dispatch_settings \<Rightarrow> instant \<Rightarrow> delivery \<Rightarrow> delivery \<Rightarrow> bool" where
  "attempted cfg now v w \<longleftrightarrow> (\<exists>outcome s code error. su_status s = Subscription_ACTIVE \<and> status_code_ok code
     \<and> w = attempt_result cfg outcome v (Some s) now code error)"

lemma sent_quiet:
  assumes "transport_quiet send"
  obtains outcome code error where "sent (send u b h) d = (Inr (outcome, code, error), d)" and "status_code_ok code"
proof -
  have "(\<exists>code. send u b h d = (Inr code, d) \<and> 100 \<le> code \<and> code \<le> 599)
     \<or> (\<exists>message. send u b h d = (Inl (WebhookTransportError message), d))"
    using assms by (simp add: transport_quiet_def)
  then have "\<exists>outcome code error. sent (send u b h) d = (Inr (outcome, code, error), d) \<and> status_code_ok code"
    by (auto simp: sent_def catching_def andThen_def returning_def status_code_ok_def)
  with that show thesis by blast
qed

lemma readyD:
  assumes "dispatch_ready cfg d"
  shows "db_ok d" and "deliveries_ok d" and "fresh_ids d" and "32 \<le> length (ds_master_secret cfg)"
  using assms by (simp_all add: dispatch_ready_def)

lemma fresh_attempt_id: "fresh_ids d \<Longrightarrow> t_uuids d 0 \<notin> at_id ` set (t_attempts d)"
  by (auto simp: fresh_ids_def known_ids_def)

lemma linked_item:
  assumes "dispatch_ready cfg d" and "v \<in> set (t_deliveries d)"
  obtains r s where "find_row (\<lambda>r. we_id (er_event r) = de_event v \<and> we_project (er_event r) = de_project v) (t_events d) = Some r"
    and "get_subscription (de_project v) (de_subscription v) d = Some s"
    and "s \<in> set (t_subscriptions d)" and "su_id s = de_subscription v" and "1 \<le> su_secret_version s"
proof -
  have l: "list_ex (\<lambda>r. we_id (er_event r) = de_event v \<and> we_project (er_event r) = de_project v) (t_events d)"
    "list_ex (\<lambda>s. su_id s = de_subscription v \<and> su_project s = de_project v) (t_subscriptions d)"
    using assms by (auto simp: dispatch_ready_def deliveries_linked_def list_all_iff)
  obtain r where r: "find_row (\<lambda>r. we_id (er_event r) = de_event v \<and> we_project (er_event r) = de_project v) (t_events d) = Some r"
    using l(1) by (cases "find_row (\<lambda>r. we_id (er_event r) = de_event v \<and> we_project (er_event r) = de_project v) (t_events d)")
      (auto simp: find_row_None list_ex_iff)
  obtain s where s: "get_subscription (de_project v) (de_subscription v) d = Some s"
    using l(2) by (cases "get_subscription (de_project v) (de_subscription v) d")
      (auto simp: get_subscription_def find_row_None list_ex_iff)
  then have "s \<in> set (t_subscriptions d)" "su_id s = de_subscription v"
    by (auto simp: get_subscription_def dest: find_row_Some)
  moreover have "subscription_check s"
    using readyD(1) [OF assms(1)] \<open>s \<in> set (t_subscriptions d)\<close> by (simp add: db_ok_def list_all_iff)
  ultimately show thesis using that r s by (simp add: subscription_check_def)
qed

text \<open>A due delivery, once claimed, is attempted with the active subscription it was selected for.\<close>

lemma dispatch_one_quiet:
  assumes ready: "dispatch_ready cfg d" and quiet: "transport_quiet send"
    and v: "v \<in> set (t_deliveries d)" "de_status v = D_PROCESSING" "subscription_has Subscription_ACTIVE d v"
  obtains w a where "dispatch_one X send cfg now v c d = (Inr (counted (de_status w) c), after_recording (de_id v) a w d)"
    and "attempted cfg now v w" and "deliveries_ok (after_recording (de_id v) a w d)"
    and "db_ok (after_recording (de_id v) a w d)" and "at_id a = t_uuids d 0" and "at_delivery a = de_id v"
proof -
  note ok = readyD [OF ready]
  obtain r s where r: "find_row (\<lambda>r. we_id (er_event r) = de_event v \<and> we_project (er_event r) = de_project v) (t_events d) = Some r"
    and s: "get_subscription (de_project v) (de_subscription v) d = Some s" "s \<in> set (t_subscriptions d)"
      "su_id s = de_subscription v" "1 \<le> su_secret_version s"
    by (rule linked_item [OF ready v(1)])
  have "subscription_has (su_status s) d v" using s by (auto simp: subscription_has_def list_ex_iff)
  then have active: "su_status s = Subscription_ACTIVE" using subscription_has_unique [OF ok(1) _ v(3)] by blast
  obtain key where key: "derive_webhook_signing_secret X (ds_master_secret cfg) (su_id s) (su_secret_version s) = Inr key"
    using ok(4) s(4) by (simp add: derive_webhook_signing_secret_def)
  obtain outcome code error where sent: "sent (send (su_url s) (er_payload r)
      (build_webhook_headers X (er_event r) (de_id v) (er_payload r) (epoch_seconds now) key)) d = (Inr (outcome, code, error), d)"
    and code: "status_code_ok code"
    by (rule sent_quiet [OF quiet])
  let ?w = "attempt_result cfg outcome v (Some s) now code error"
  let ?a = "attempt_row (t_uuids d 0) (de_id v) v now now outcome code error"
  have row: "delivery_row (de_project v) (de_id v) d = Some v" by (rule delivery_row_unique [OF ok(1) v(1)])
  have rec: "record_delivery_result (de_project v) (de_id v) now now outcome code error (ds_max_attempts cfg)
      (ds_base_retry_seconds cfg) (ds_max_retry_seconds cfg) d = (Inr ?w, after_recording (de_id v) ?a ?w d)"
    by (rule record_done [OF ok(1,2) row v(2) code fresh_attempt_id [OF ok(3)]]) (simp_all add: s(1))
  have "deliveries_ok (after_recording (de_id v) ?a ?w d)"
    by (rule record_block_done(2) [OF ok(1,2) row v(2) code fresh_attempt_id [OF ok(3)]]) (simp_all add: s(1))
  note kept = this recording.keeps_ok [OF rec ok(1)]
  have run: "dispatch_one X send cfg now v c d = (Inr (counted (de_status ?w) c), after_recording (de_id v) ?a ?w d)"
    by (simp add: dispatch_one_def get_dispatch_item_def reading_def andThen_def r s(1) active send_item_def key sent rec returning_def)
  have att: "attempted cfg now v ?w" unfolding attempted_def using active code by blast
  show thesis by (rule that [OF run att kept]) simp_all
qed

text \<open>The loop over the claimed deliveries: each of them is attempted once, nothing else changes.\<close>

definition counted_total :: "counters \<Rightarrow> nat" where
  "counted_total c = ct_delivered c + ct_retry_scheduled c + ct_dead_lettered c + ct_cancelled c"

lemma attempted_status:
  "attempted cfg now v w \<Longrightarrow> de_status w = D_DELIVERED \<or> de_status w = D_RETRY_SCHEDULED \<or> de_status w = D_DEAD_LETTER"
proof -
  assume "attempted cfg now v w"
  then obtain outcome s code error where w: "su_status s = Subscription_ACTIVE" "w = attempt_result cfg outcome v (Some s) now code error"
    by (auto simp: attempted_def)
  show ?thesis unfolding w(2) by (simp add: recorded_row_def after_attempt_cases w(1))
qed

lemma attempted_identity:
  "attempted cfg now v w \<Longrightarrow> de_id w = de_id v \<and> de_event w = de_event v \<and> de_subscription w = de_subscription v
    \<and> de_project w = de_project v"
  by (auto simp: attempted_def)

lemma counted_attempt: "attempted cfg now v w \<Longrightarrow> counted_total (counted (de_status w) c) = counted_total c + 1"
  by (drule attempted_status) (auto simp: counted_total_def)

lemma after_recording_frame [simp]:
  "t_subscriptions (after_recording did a w d) = t_subscriptions d"
  "t_events (after_recording did a w d) = t_events d"
  "t_deliveries (after_recording did a w d) = update_rows (\<lambda>v. de_id v = did) (\<lambda>_. w) (t_deliveries d)"
  by (simp_all add: after_recording_def)

lemma recording_ready:
  assumes "dispatch_ready cfg d" and "v \<in> set (t_deliveries d)" and "attempted cfg now v w"
    and "deliveries_ok (after_recording (de_id v) a w d)" and "db_ok (after_recording (de_id v) a w d)"
    and "at_id a = t_uuids d 0"
  shows "dispatch_ready cfg (after_recording (de_id v) a w d)"
proof -
  let ?d' = "after_recording (de_id v) a w d"
  note w = attempted_identity [OF assms(3)]
  have linked: "deliveries_linked d" and fresh: "fresh_ids d" using assms(1) by (simp_all add: dispatch_ready_def)
  have same: "\<exists>u \<in> set (t_deliveries d). de_id x = de_id u \<and> de_event x = de_event u \<and> de_subscription x = de_subscription u
      \<and> de_project x = de_project u" if "x \<in> set (t_deliveries ?d')" for x
    using that w assms(2) by (auto simp: set_update_rows split: if_splits)
  have "deliveries_linked ?d'"
    unfolding deliveries_linked_def list_all_iff
  proof
    fix x assume "x \<in> set (t_deliveries ?d')"
    then obtain u where "u \<in> set (t_deliveries d)" "de_event x = de_event u" "de_subscription x = de_subscription u"
      "de_project x = de_project u" using same by blast
    then show "list_ex (\<lambda>r. we_id (er_event r) = de_event x \<and> we_project (er_event r) = de_project x) (t_events ?d')
        \<and> list_ex (\<lambda>s. su_id s = de_subscription x \<and> su_project s = de_project x) (t_subscriptions ?d')"
      using linked by (simp add: deliveries_linked_def list_all_iff)
  qed
  moreover have "fresh_ids ?d'"
  proof (rule fresh_used [OF fresh])
    show "uuid4 d = (t_uuids d 0, snd (uuid4 d))" by (simp add: uuid4_def)
    show "t_uuids ?d' = t_uuids (snd (uuid4 d))" by (simp add: uuid4_def after_recording_def)
    have "de_id ` set (t_deliveries ?d') \<subseteq> de_id ` set (t_deliveries d)"
      "de_event ` set (t_deliveries ?d') \<subseteq> de_event ` set (t_deliveries d)" using same by fastforce+
    then show "known_ids ?d' \<subseteq> insert (t_uuids d 0) (known_ids (snd (uuid4 d)))"
      using assms(6) by (auto simp: known_ids_def uuid4_def after_recording_def)
  qed
  ultimately show ?thesis using assms(1,4,5) by (simp add: dispatch_ready_def)
qed

lemma dispatch_rows:
  assumes "dispatch_ready cfg d" and quiet: "transport_quiet send" and "distinct (map de_id rows)"
    and "\<forall>v \<in> set rows. v \<in> set (t_deliveries d) \<and> de_status v = D_PROCESSING \<and> subscription_has Subscription_ACTIVE d v"
  shows "\<exists>c' d'. fold_op (dispatch_one X send cfg now) rows c d = (Inr c', d') \<and> counted_total c' = counted_total c + length rows
    \<and> dispatch_ready cfg d' \<and> t_subscriptions d' = t_subscriptions d
    \<and> list_all2 (\<lambda>v w. if de_id v \<in> de_id ` set rows then attempted cfg now v w else w = v) (t_deliveries d) (t_deliveries d')"
  using assms(1,3,4)
proof (induction rows arbitrary: c d)
  case Nil
  then show ?case by (simp add: returning_def list_all2_conv_all_nth)
next
  case (Cons v rows)
  have v: "v \<in> set (t_deliveries d)" "de_status v = D_PROCESSING" "subscription_has Subscription_ACTIVE d v"
    using Cons.prems(3) by simp_all
  obtain w a where one: "dispatch_one X send cfg now v c d = (Inr (counted (de_status w) c), after_recording (de_id v) a w d)"
    and w: "attempted cfg now v w" and kept: "deliveries_ok (after_recording (de_id v) a w d)"
      "db_ok (after_recording (de_id v) a w d)" and a: "at_id a = t_uuids d 0" "at_delivery a = de_id v"
    by (rule dispatch_one_quiet [OF Cons.prems(1) quiet v])
  let ?d1 = "after_recording (de_id v) a w d"
  have ready: "dispatch_ready cfg ?d1" by (rule recording_ready [OF Cons.prems(1) v(1) w kept a(1)])
  have rest: "\<forall>u \<in> set rows. u \<in> set (t_deliveries ?d1) \<and> de_status u = D_PROCESSING \<and> subscription_has Subscription_ACTIVE ?d1 u"
  proof
    fix u assume u: "u \<in> set rows"
    then have "de_id u \<in> de_id ` set rows" by (rule imageI)
    then have "de_id u \<noteq> de_id v" using Cons.prems(2) by auto
    moreover have "u \<in> set (t_deliveries d)" "de_status u = D_PROCESSING" "subscription_has Subscription_ACTIVE d u"
      using Cons.prems(3) u by simp_all
    ultimately show "u \<in> set (t_deliveries ?d1) \<and> de_status u = D_PROCESSING \<and> subscription_has Subscription_ACTIVE ?d1 u"
      by (auto simp: set_update_rows subscription_has_def)
  qed
  have dist: "distinct (map de_id rows)" using Cons.prems(2) by simp
  obtain c' d' where ih: "fold_op (dispatch_one X send cfg now) rows (counted (de_status w) c) ?d1 = (Inr c', d')"
      "counted_total c' = counted_total (counted (de_status w) c) + length rows"
      "dispatch_ready cfg d'" "t_subscriptions d' = t_subscriptions ?d1"
    and rel: "list_all2 (\<lambda>v w. if de_id v \<in> de_id ` set rows then attempted cfg now v w else w = v) (t_deliveries ?d1) (t_deliveries d')"
    using Cons.IH [OF ready dist rest] by blast
  have run: "fold_op (dispatch_one X send cfg now) (v # rows) c d = (Inr c', d')"
    by (simp add: andThen_def one ih(1))
  have vw: "attempted cfg now u w" if "u \<in> set (t_deliveries d)" "de_id u = de_id v" for u
  proof -
    have "u = v" using unique_by_eq [of de_id "t_deliveries d" u v] that v(1) readyD(1) [OF Cons.prems(1)] by (simp add: db_ok_def)
    with w show ?thesis by simp
  qed
  have "de_id v \<notin> de_id ` set rows" using Cons.prems(2) by simp
  then have "list_all2 (\<lambda>u x. if de_id u \<in> de_id ` set (v # rows) then attempted cfg now u x else x = u) (t_deliveries d) (t_deliveries d')"
    using rel attempted_identity [OF w] vw by (auto simp: list_all2_conv_all_nth update_rows_def split: if_splits)
  then show ?case using run ih(2-4) counted_attempt [OF w] by (intro exI [of _ c'] exI [of _ d']) simp
qed

lemma claim_ready:
  assumes "dispatch_ready cfg d"
  shows "dispatch_ready cfg (after_claim now limit lease d)"
proof -
  let ?d' = "after_claim now limit lease d"
  note ok = readyD [OF assms]
  note run = claim_done [OF ok(1,2), of now limit lease]
  have same: "\<exists>u \<in> set (t_deliveries d). de_id x = de_id u \<and> de_event x = de_event u \<and> de_subscription x = de_subscription u
      \<and> de_project x = de_project u" if "x \<in> set (t_deliveries ?d')" for x
    using that by (auto simp: after_claim_rows)
  have l: "deliveries_linked d" using assms by (simp add: dispatch_ready_def)
  have "deliveries_linked ?d'"
    unfolding deliveries_linked_def list_all_iff
  proof
    fix x assume "x \<in> set (t_deliveries ?d')"
    then obtain u where "u \<in> set (t_deliveries d)" "de_event x = de_event u" "de_subscription x = de_subscription u"
      "de_project x = de_project u" using same by blast
    then show "list_ex (\<lambda>r. we_id (er_event r) = de_event x \<and> we_project (er_event r) = de_project x) (t_events ?d')
        \<and> list_ex (\<lambda>s. su_id s = de_subscription x \<and> su_project s = de_project x) (t_subscriptions ?d')"
      using l by (simp add: deliveries_linked_def list_all_iff)
  qed
  moreover have "fresh_ids ?d'"
  proof (rule fresh_same [OF ok(3)])
    have "map de_event (t_deliveries ?d') = map de_event (t_deliveries d)" "map de_id (t_deliveries ?d') = map de_id (t_deliveries d)"
      by (simp_all add: after_claim_rows)
    then have "de_event ` set (t_deliveries ?d') = de_event ` set (t_deliveries d)" "de_id ` set (t_deliveries ?d') = de_id ` set (t_deliveries d)"
      by (metis list.set_map)+
    then show "known_ids ?d' = known_ids d" by (simp add: known_ids_def after_claim_def after_cancelling_def Let_def)
  qed simp
  ultimately show ?thesis
    using assms claiming.keeps_ok [OF run ok(1)] claim_block_done(2) [OF ok(1,2)] by (simp add: dispatch_ready_def)
qed

lemma claimed_row:
  assumes "db_ok d" and "x \<in> set (claimed_rows (due_ids now limit d) (after_claim now limit lease d))"
  obtains u where "u \<in> set (t_deliveries d)" and "due now d u" and "x = leased now (now + seconds lease) u"
    and "x \<in> set (t_deliveries (after_claim now limit lease d))"
proof -
  have x: "x \<in> set (t_deliveries (after_claim now limit lease d))" "de_id x \<in> set (due_ids now limit d)"
    using assms(2) by (auto simp: claimed_rows_def)
  from x(1) obtain u where u: "u \<in> set (t_deliveries d)" and image: "x = (\<lambda>w. if de_id u \<in> set (due_ids now limit d)
      then leased now (now + seconds lease) w else w) (if lapsed now d u then cancelled now DISABLED_REASON u else u)"
    unfolding after_claim_rows set_map by (elim imageE)
  have "de_id x = de_id u" unfolding image by simp
  with x(2) have id: "de_id u \<in> set (due_ids now limit d)" by simp
  have due: "due now d u" by (rule due_ids_due [OF assms(1) u id])
  then have "\<not> lapsed now d u" using subscription_has_unique [OF assms(1)] by (auto simp: due_def lapsed_def)
  then have "x = leased now (now + seconds lease) u" using id unfolding image by simp
  with that u due x(1) show thesis by blast
qed

text \<open>What a dispatch makes of a delivery.\<close>

definition dispatched :: "dispatch_settings \<Rightarrow> instant \<Rightarrow> db \<Rightarrow> delivery \<Rightarrow> delivery \<Rightarrow> bool" where
  "dispatched cfg now d v w \<longleftrightarrow>
     (if de_id v \<in> set (due_ids now (ds_limit cfg) d)
      then attempted cfg now (leased now (now + seconds (ds_lease_seconds cfg)) v) w
      else if lapsed now d v then w = cancelled now DISABLED_REASON v else w = v)"

lemma dispatch_done:
  assumes ready: "dispatch_ready cfg d" and quiet: "transport_quiet send"
  obtains c d' where "dispatch_pending_webhooks X send cfg now d = (Inr (length (due_ids now (ds_limit cfg) d), c), d')"
    and "counted_total c = length (due_ids now (ds_limit cfg) d)" and "dispatch_ready cfg d'"
    and "t_subscriptions d' = t_subscriptions d"
    and "list_all2 (dispatched cfg now d) (t_deliveries d) (t_deliveries d')"
proof -
  let ?limit = "ds_limit cfg" and ?ids = "due_ids now (ds_limit cfg) d" and ?until = "now + seconds (ds_lease_seconds cfg)"
  let ?d1 = "after_claim now ?limit (ds_lease_seconds cfg) d"
  let ?rows = "claimed_rows ?ids ?d1"
  note ok = readyD [OF ready]
  have claim: "claim_due_deliveries now ?limit (ds_lease_seconds cfg) d = (Inr ?rows, ?d1)" by (rule claim_done [OF ok(1,2)])
  have ready1: "dispatch_ready cfg ?d1" by (rule claim_ready [OF ready])
  have sub: "set ?ids \<subseteq> set (map de_id (t_deliveries ?d1))" unfolding after_claim_ids by (rule set_map_due_ids)
  note rows = claimed_rows_ids [OF readyD(1) [OF ready1] sub distinct_due_ids [OF ok(1)]]
  have live: "\<not> lapsed now d v" "due now d v" if "v \<in> set (t_deliveries d)" "de_id v \<in> set ?ids" for v
    using due_ids_due [OF ok(1) that] subscription_has_unique [OF ok(1)] by (auto simp: due_def lapsed_def)
  have "\<forall>v \<in> set ?rows. v \<in> set (t_deliveries ?d1) \<and> de_status v = D_PROCESSING \<and> subscription_has Subscription_ACTIVE ?d1 v"
  proof
    fix v assume "v \<in> set ?rows"
    then obtain u where u: "due now d u" "v = leased now ?until u" "v \<in> set (t_deliveries ?d1)"
      by (rule claimed_row [OF ok(1)])
    from u(1) have "subscription_has Subscription_ACTIVE d u" by (simp add: due_def)
    then have "de_status v = D_PROCESSING" "subscription_has Subscription_ACTIVE ?d1 v"
      unfolding u(2) by (simp_all add: subscription_has_def)
    with u(3) show "v \<in> set (t_deliveries ?d1) \<and> de_status v = D_PROCESSING \<and> subscription_has Subscription_ACTIVE ?d1 v"
      by blast
  qed
  from dispatch_rows [OF ready1 quiet rows(2) this, of X now zero_counters]
  obtain c d' where fold: "fold_op (dispatch_one X send cfg now) ?rows zero_counters ?d1 = (Inr c, d')"
    and c: "counted_total c = counted_total zero_counters + length ?rows" "dispatch_ready cfg d'"
      "t_subscriptions d' = t_subscriptions ?d1"
    and rel: "list_all2 (\<lambda>v w. if de_id v \<in> de_id ` set ?rows then attempted cfg now v w else w = v) (t_deliveries ?d1) (t_deliveries d')"
    by blast
  have ids: "de_id ` set ?rows = set ?ids" using rows(1) by simp
  have "list_all2 (dispatched cfg now d) (t_deliveries d) (t_deliveries d')"
    using rel live unfolding ids
    by (auto simp: list_all2_conv_all_nth after_claim_rows dispatched_def split: if_splits)
  moreover have "dispatch_pending_webhooks X send cfg now d = (Inr (length ?ids, c), d')"
    by (simp add: dispatch_pending_webhooks_def andThen_def claim fold returning_def rows(3))
  moreover have "counted_total c = length ?ids" using c(1) rows(3) by (simp add: counted_total_def zero_counters_def)
  ultimately show thesis using that c(2,3) by simp
qed

section \<open>The backlog shrinks\<close>

text \<open>The deliveries due at a time.\<close>

definition backlog :: "instant \<Rightarrow> db \<Rightarrow> nat" where
  "backlog now d = length (filter (due now d) (t_deliveries d))"

lemma due_mono: "due now d v \<Longrightarrow> now \<le> later \<Longrightarrow> due later d v"
  by (auto simp: due_def reached_def split: option.splits)

lemma length_due_ids: "length (due_ids now limit d) = min limit (backlog now d)"
  by (simp add: due_ids_def backlog_def)

lemma retry_delay_low:
  assumes "0 \<le> ds_base_retry_seconds cfg"
  shows "min (ds_base_retry_seconds cfg) (ds_max_retry_seconds cfg) \<le> retry_delay cfg f"
proof -
  have "ds_base_retry_seconds cfg \<le> ds_base_retry_seconds cfg * 2 ^ k" for k
    using assms mult_left_mono [of 1 "2 ^ k" "ds_base_retry_seconds cfg"] by simp
  then show ?thesis unfolding retry_delay_def by (rule min.mono) simp
qed

lemma attempted_cases:
  assumes "attempted cfg now v w"
  shows "de_status w = D_DELIVERED \<or> de_status w = D_DEAD_LETTER
    \<or> (de_status w = D_RETRY_SCHEDULED \<and> de_failures w = de_failures v + 1 \<and> de_failures w < ds_max_attempts cfg
       \<and> de_next_attempt w = Some (now + seconds (retry_delay cfg (de_failures w))))"
proof -
  obtain outcome s code error where w: "su_status s = Subscription_ACTIVE" "w = attempt_result cfg outcome v (Some s) now code error"
    using assms by (auto simp: attempted_def)
  show ?thesis unfolding w(2) by (simp add: recorded_row_def after_attempt_cases w(1) retry_delay_def)
qed

lemma attempted_not_due:
  assumes "attempted cfg now v w" and "0 \<le> ds_base_retry_seconds cfg"
    and "later < now + seconds (min (ds_base_retry_seconds cfg) (ds_max_retry_seconds cfg))"
  shows "\<not> due later d w"
  using attempted_cases [OF assms(1)] retry_delay_low [OF assms(2), of "de_failures w"] assms(3)
  by (auto simp: due_def reached_def seconds_def)

lemma filter_pairs:
  assumes "list_all2 (\<lambda>x y. if S x then P x \<and> \<not> Q y else P x = Q y) xs ys"
  shows "length (filter Q ys) + length (filter S xs) = length (filter P xs)"
  using assms by (induction rule: list_all2_induct) (auto split: if_splits)

lemma claimed_count:
  assumes "db_ok d"
  shows "length (filter (\<lambda>v. de_id v \<in> set (due_ids now limit d)) (t_deliveries d)) = length (due_ids now limit d)"
proof -
  let ?rows = "filter (\<lambda>v. de_id v \<in> set (due_ids now limit d)) (t_deliveries d)"
  have "distinct (map de_id (t_deliveries d))" using assms by (simp add: db_ok_def unique_by_def)
  then have "distinct (map de_id ?rows)" by (rule distinct_map_filter)
  moreover have "set (map de_id ?rows) = set (due_ids now limit d)"
    using set_map_due_ids [of now limit d] by auto
  ultimately show ?thesis using distinct_card distinct_due_ids [OF assms] length_map by metis
qed

text \<open>A dispatch takes its deliveries off the backlog of every time before their retries.\<close>

lemma dispatch_backlog:
  assumes "dispatch_ready cfg d" and "list_all2 (dispatched cfg now d) (t_deliveries d) (t_deliveries d')"
    and subs: "t_subscriptions d' = t_subscriptions d" and "0 \<le> ds_base_retry_seconds cfg" and "now \<le> later"
    and "later < now + seconds (min (ds_base_retry_seconds cfg) (ds_max_retry_seconds cfg))"
  shows "backlog later d' + length (due_ids now (ds_limit cfg) d) = backlog later d"
proof -
  let ?S = "\<lambda>v. de_id v \<in> set (due_ids now (ds_limit cfg) d)"
  note ok = readyD [OF assms(1)]
  have same: "due later d' v = due later d v" for v by (simp add: due_def subscription_has_def subs)
  have "if ?S v then due later d v \<and> \<not> due later d' w else due later d v = due later d' w"
    if v: "v \<in> set (t_deliveries d)" and vw: "dispatched cfg now d v w" for v w
  proof (cases "?S v")
    case True
    then have "due later d v" using due_mono [OF due_ids_due [OF ok(1) v]] assms(5) by blast
    moreover have "attempted cfg now (leased now (now + seconds (ds_lease_seconds cfg)) v) w"
      using vw True by (simp add: dispatched_def)
    ultimately show ?thesis using True attempted_not_due [OF _ assms(4,6)] by simp
  next
    case False
    moreover have "\<not> due later d v \<and> \<not> due later d w" if "lapsed now d v"
      using that vw False subscription_has_unique [OF ok(1)] by (auto simp: dispatched_def lapsed_def due_def)
    ultimately show ?thesis using vw same by (auto simp: dispatched_def split: if_splits)
  qed
  then have "list_all2 (\<lambda>v w. if ?S v then due later d v \<and> \<not> due later d' w else due later d v = due later d' w)
      (t_deliveries d) (t_deliveries d')"
    by (intro list.rel_mono_strong [OF assms(2)])
  from filter_pairs [OF this] show ?thesis by (simp add: backlog_def claimed_count [OF ok(1)])
qed

text \<open>
  C22: between two sleeps the worker claims every delivery that is due and then sleeps: as long as
  its rounds take less time than the shortest retry delay, it reaches a batch that is not full after
  at most as many rounds as the backlog has full batches, and no delivery is due any more.
\<close>

theorem worker_reaches_sleep:
  assumes "dispatch_ready cfg d" and "transport_quiet send" and "1 \<le> ds_limit cfg" and "0 \<le> ds_base_retry_seconds cfg"
    and "\<forall>i. start \<le> clock i \<and> clock i < end_time"
    and "end_time \<le> start + seconds (min (ds_base_retry_seconds cfg) (ds_max_retry_seconds cfg))"
  shows "\<exists>n d'. until_sleep X send cfg clock k d = Some (Inr n, d')
    \<and> n \<le> k + backlog (end_time - 1) d div ds_limit cfg \<and> backlog (clock n) d' = 0"
  using assms(1)
proof (induction "backlog (end_time - 1) d" arbitrary: k d rule: less_induct)
  case less
  let ?now = "clock k" and ?n = "length (due_ids (clock k) (ds_limit cfg) d)"
  obtain c d1 where run: "dispatch_pending_webhooks X send cfg ?now d = (Inr (?n, c), d1)" and ready: "dispatch_ready cfg d1"
    and subs: "t_subscriptions d1 = t_subscriptions d"
    and rel: "list_all2 (dispatched cfg ?now d) (t_deliveries d) (t_deliveries d1)"
    by (rule dispatch_done [OF less.prems assms(2)])
  have k: "start \<le> ?now" "?now < end_time" using assms(5) by auto
  have shrink: "backlog later d1 + ?n = backlog later d" if "?now \<le> later" "later \<le> end_time - 1" for later
    by (rule dispatch_backlog [OF less.prems rel subs assms(4) that(1)]) (use that k assms(6) in simp)
  show ?case
  proof (cases "?n < ds_limit cfg")
    case True
    then have "?n = backlog ?now d" by (simp add: length_due_ids)
    then have "backlog ?now d1 = 0" using shrink [of ?now] k by simp
    then show ?thesis using True by (subst until_sleep.simps) (simp add: run)
  next
    case False
    then have full: "?n = ds_limit cfg" by (simp add: length_due_ids)
    have b: "backlog (end_time - 1) d1 + ds_limit cfg = backlog (end_time - 1) d" using shrink [of "end_time - 1"] k full by simp
    then have "backlog (end_time - 1) d1 < backlog (end_time - 1) d" using assms(3) by simp
    from less.hyps [OF this ready, of "Suc k"] obtain n d' where
      ih: "until_sleep X send cfg clock (Suc k) d1 = Some (Inr n, d')"
        "n \<le> Suc k + backlog (end_time - 1) d1 div ds_limit cfg" "backlog (clock n) d' = 0" by blast
    have "backlog (end_time - 1) d div ds_limit cfg = Suc (backlog (end_time - 1) d1 div ds_limit cfg)"
      using b assms(3) by (metis add.commute div_add_self1 less_numeral_extra(3) not_one_le_zero Suc_eq_plus1)
    then show ?thesis using ih False by (subst until_sleep.simps) (simp add: run)
  qed
qed

text \<open>A ready database: the sample deliveries, with a master secret of sufficient length.\<close>

definition sample_settings :: dispatch_settings where
  "sample_settings = default_settings ''0123456789abcdef0123456789abcdef'' 1"

lemma sample_settings_fields [simp]:
  "ds_limit sample_settings = 1" "ds_max_attempts sample_settings = 5" "ds_base_retry_seconds sample_settings = 30"
  "ds_max_retry_seconds sample_settings = 3600" "ds_lease_seconds sample_settings = 30"
  "length (ds_master_secret sample_settings) = 32"
  by (simp_all add: sample_settings_def default_settings_def WEBHOOK_MAX_ATTEMPTS_def WEBHOOK_BASE_RETRY_SECONDS_def
      WEBHOOK_MAX_RETRY_SECONDS_def WEBHOOK_LEASE_SECONDS_def)

lemma webhook_db_ready: "dispatch_ready sample_settings webhook_db"
proof -
  have "deliveries_linked webhook_db"
    by (simp add: deliveries_linked_def webhook_db_def sample_db_def new_delivery_def sample_webhook_event_def sample_subscription_def)
  moreover have "fresh_ids webhook_db"
    by (auto simp: fresh_ids_def known_ids_def webhook_db_def sample_db_def empty_db_def inj_on_def sample_project_def
        sample_subscription_def new_delivery_def sample_webhook_event_def)
  ultimately show ?thesis by (simp add: dispatch_ready_def)
qed

lemma refusing_quiet: "transport_quiet (\<lambda>u b h. returning 503)"
  by (simp add: transport_quiet_def returning_def)

lemma webhook_backlog: "10 \<le> now \<Longrightarrow> backlog now webhook_db = 2"
  by (simp add: backlog_def due_def webhook_db_def sample_db_def new_delivery_def sample_webhook_event_def
      subscription_has_def sample_subscription_def reached_def)

theorem worker_reaches_sleep_witness:
  "\<exists>n d'. until_sleep sample_externals (\<lambda>u b h. returning 503) sample_settings (\<lambda>i. 20 + int (min i 5)) 0 webhook_db
      = Some (Inr n, d') \<and> n \<le> 2"
proof -
  have "\<forall>i. 20 \<le> 20 + int (min i 5) \<and> 20 + int (min i 5) < 26" by (simp add: min_def)
  from worker_reaches_sleep [OF webhook_db_ready refusing_quiet _ _ this, where X = sample_externals and k = 0]
  obtain n d' where "until_sleep sample_externals (\<lambda>u b h. returning 503) sample_settings (\<lambda>i. 20 + int (min i 5)) 0 webhook_db
      = Some (Inr n, d')" "n \<le> backlog 25 webhook_db"
    by (auto simp: seconds_def)
  then show ?thesis using webhook_backlog [of 25] by auto
qed

section \<open>Every delivery settles\<close>

text \<open>Dispatches at given times, with what they report.\<close>

fun dispatches :: "externals \<Rightarrow> transport \<Rightarrow> dispatch_settings \<Rightarrow> instant list \<Rightarrow> (nat \<times> counters) list operation" where
  "dispatches X send cfg [] = returning []"
| "dispatches X send cfg (t # ts) =
     andThen (dispatch_pending_webhooks X send cfg t) (\<lambda>summary.
     andThen (dispatches X send cfg ts) (\<lambda>rest. returning (summary # rest)))"

text \<open>The deliveries that may still be attempted.\<close>

definition outstanding :: "db \<Rightarrow> nat" where
  "outstanding d = length (filter (\<lambda>v. live_status (de_status v)) (t_deliveries d))"

lemma length_filter_le_filter: "(\<And>x. x \<in> set xs \<Longrightarrow> P x \<Longrightarrow> Q x) \<Longrightarrow> length (filter P xs) \<le> length (filter Q xs)"
  by (induction xs) (auto intro: le_SucI)

lemma backlog_outstanding: "backlog now d \<le> outstanding d"
  unfolding backlog_def outstanding_def by (rule length_filter_le_filter) (rule due_live)

lemma dispatched_identity:
  "dispatched cfg now d v w \<Longrightarrow> de_id w = de_id v \<and> de_subscription w = de_subscription v"
  by (auto simp: dispatched_def dest!: attempted_identity split: if_splits)

lemma all_due_claimed:
  assumes "backlog now d \<le> limit" and "v \<in> set (t_deliveries d)" and "due now d v"
  shows "de_id v \<in> set (due_ids now limit d)"
  using assms by (simp add: due_ids_def backlog_def)

text \<open>A dispatch takes no delivery that is not live, and makes none live again.\<close>

lemma dispatched_dead:
  assumes "db_ok d" and "v \<in> set (t_deliveries d)" and "dispatched cfg now d v w" and "\<not> live_status (de_status v)"
  shows "w = v"
proof -
  have "\<not> due now d v" using assms(4) due_live by blast
  then have "de_id v \<notin> set (due_ids now (ds_limit cfg) d)" using due_ids_due [OF assms(1,2)] by blast
  moreover have "\<not> lapsed now d v" using assms(4) by (auto simp: lapsed_def)
  ultimately show ?thesis using assms(3) by (simp add: dispatched_def)
qed

lemma dispatch_outstanding:
  assumes "db_ok d" and "list_all2 (dispatched cfg now d) (t_deliveries d) (t_deliveries d')"
  shows "outstanding d' \<le> outstanding d"
proof -
  have "live_status (de_status w) \<longrightarrow> live_status (de_status v)"
    if "v \<in> set (t_deliveries d)" "dispatched cfg now d v w" for v w
    using dispatched_dead [OF assms(1) that] by blast
  then have "list_all2 (\<lambda>v w. live_status (de_status w) \<longrightarrow> live_status (de_status v)) (t_deliveries d) (t_deliveries d')"
    by (intro list.rel_mono_strong [OF assms(2)])
  then show ?thesis unfolding outstanding_def by (induction rule: list_all2_induct) auto
qed

lemma list_all2_image:
  assumes "list_all2 R xs ys" and "x \<in> set xs"
  obtains y where "y \<in> set ys" and "R x y"
  using assms by (induction rule: list_all2_induct) auto

definition settles :: "delivery_status \<Rightarrow> bool" where
  "settles st \<longleftrightarrow> st = D_DELIVERED \<or> st = D_DEAD_LETTER"

lemma dispatches_settled:
  assumes "dispatch_ready cfg d" and "transport_quiet send" and "v \<in> set (t_deliveries d)" and "settles (de_status v)"
  shows "\<exists>r d'. dispatches X send cfg ts d = (Inr r, d') \<and> v \<in> set (t_deliveries d')"
  using assms(1,3)
proof (induction ts arbitrary: d)
  case Nil
  then show ?case by (simp add: returning_def)
next
  case (Cons t ts)
  obtain c d1 where run: "dispatch_pending_webhooks X send cfg t d = (Inr (length (due_ids t (ds_limit cfg) d), c), d1)"
    and ready: "dispatch_ready cfg d1" and rel: "list_all2 (dispatched cfg t d) (t_deliveries d) (t_deliveries d1)"
    by (rule dispatch_done [OF Cons.prems(1) assms(2)])
  obtain w where w: "w \<in> set (t_deliveries d1)" "dispatched cfg t d v w" by (rule list_all2_image [OF rel Cons.prems(2)])
  have "w = v"
    by (rule dispatched_dead [OF readyD(1) [OF Cons.prems(1)] Cons.prems(2) w(2)])
      (use assms(4) in \<open>auto simp: settles_def live_status_def\<close>)
  with w(1) have "v \<in> set (t_deliveries d1)" by simp
  from Cons.IH [OF ready this] show ?case using run by (auto simp: andThen_def returning_def)
qed



section \<open>A status the table refuses\<close>

lemma dispatch_one_refused:
  assumes ready: "dispatch_ready cfg d" and send: "\<And>u b h d. send u b h d = (Inr code, d)" and "code < 100 \<or> 599 < code"
    and v: "v \<in> set (t_deliveries d)" "de_status v = D_PROCESSING" "subscription_has Subscription_ACTIVE d v"
  shows "dispatch_one X send cfg now v c d = (Inl IntegrityError, d)"
proof -
  note ok = readyD [OF ready]
  obtain r s where r: "find_row (\<lambda>r. we_id (er_event r) = de_event v \<and> we_project (er_event r) = de_project v) (t_events d) = Some r"
    and s: "get_subscription (de_project v) (de_subscription v) d = Some s" "s \<in> set (t_subscriptions d)"
      "su_id s = de_subscription v" "1 \<le> su_secret_version s"
    by (rule linked_item [OF ready v(1)])
  have "subscription_has (su_status s) d v" using s by (auto simp: subscription_has_def list_ex_iff)
  then have active: "su_status s = Subscription_ACTIVE" using subscription_has_unique [OF ok(1) _ v(3)] by blast
  obtain key where key: "derive_webhook_signing_secret X (ds_master_secret cfg) (su_id s) (su_secret_version s) = Inr key"
    using ok(4) s(4) by (simp add: derive_webhook_signing_secret_def)
  have "\<not> (200 \<le> code \<and> code < 300)" using assms(3) by auto
  then obtain error where sent: "sent (send u b h) d = (Inr (HTTP_ERROR, Some code, error), d)" for u b h
    using send by (auto simp: sent_def catching_def andThen_def returning_def)
  have row: "delivery_row (de_project v) (de_id v) d = Some v" by (rule delivery_row_unique [OF ok(1) v(1)])
  have "\<not> status_code_ok (Some code)" using assms(3) by (auto simp: status_code_ok_def)
  note refused = record_refused(3) [OF ok(2) row v(2) this]
  show ?thesis
    by (simp add: dispatch_one_def get_dispatch_item_def reading_def andThen_def r s(1) active send_item_def key sent refused)
qed

text \<open>
  C23: a subscriber that answers a status outside 100 to 599, which the HTTP client passes on up to
  999, stops the worker: recording its attempt violates the table's CHECK, the exception leaves the
  loop, and the whole batch stays claimed with nothing recorded, neither an attempt nor a failure. When
  the leases end every delivery of the batch is due again, so that the same happens after a restart.
\<close>

theorem unexpected_status_stops_worker:
  assumes "dispatch_ready (default_settings master (nat batch)) d" and "1 \<le> batch" and "batch \<le> 100" and "0 < interval"
    and "\<And>u b h d. send u b h d = (Inr code, d)" and "code < 100 \<or> 599 < code"
    and "v \<in> set (t_deliveries d)" and "due (clock 0) d v"
  shows "\<exists>d' claimed. run_webhook_worker X send master batch interval once clock d = Some (Inl IntegrityError, d')
    \<and> claimed \<noteq> [] \<and> set claimed \<subseteq> set (t_deliveries d') \<and> t_attempts d' = t_attempts d
    \<and> (\<forall>w \<in> set claimed. de_status w = D_PROCESSING
         \<and> (\<exists>u \<in> set (t_deliveries d). de_id w = de_id u \<and> de_attempts w = de_attempts u \<and> de_failures w = de_failures u)
         \<and> due (clock 0 + seconds WEBHOOK_LEASE_SECONDS) d' w)"
proof -
  let ?cfg = "default_settings master (nat batch)" and ?now = "clock 0"
  let ?ids = "due_ids ?now (nat batch) d" and ?d1 = "after_claim ?now (nat batch) WEBHOOK_LEASE_SECONDS d"
  let ?rows = "claimed_rows ?ids ?d1"
  have cfg: "ds_limit ?cfg = nat batch" "ds_lease_seconds ?cfg = WEBHOOK_LEASE_SECONDS" by (simp_all add: default_settings_def)
  note ok = readyD [OF assms(1)]
  have claim: "claim_due_deliveries ?now (nat batch) WEBHOOK_LEASE_SECONDS d = (Inr ?rows, ?d1)" by (rule claim_done [OF ok(1,2)])
  have ready1: "dispatch_ready ?cfg ?d1" by (rule claim_ready [OF assms(1)])
  have "v \<in> set (filter (due ?now d) (t_deliveries d))" using assms(7,8) by simp
  then have "0 < backlog ?now d" unfolding backlog_def by (metis length_pos_if_in_set)
  then have "0 < length ?ids" using assms(2) by (simp add: length_due_ids)
  have sub: "set ?ids \<subseteq> set (map de_id (t_deliveries ?d1))" unfolding after_claim_ids by (rule set_map_due_ids)
  have "?rows \<noteq> []"
    using claimed_rows_ids(3) [OF readyD(1) [OF ready1] sub distinct_due_ids [OF ok(1)]] \<open>0 < length ?ids\<close> by auto
  then obtain w rest where rows: "?rows = w # rest" by (cases ?rows) auto
  have claimed: "x \<in> set (t_deliveries ?d1) \<and> de_status x = D_PROCESSING \<and> subscription_has Subscription_ACTIVE ?d1 x
      \<and> de_lease x = Some (?now + seconds WEBHOOK_LEASE_SECONDS)
      \<and> (\<exists>u \<in> set (t_deliveries d). de_id x = de_id u \<and> de_attempts x = de_attempts u \<and> de_failures x = de_failures u)"
    if "x \<in> set ?rows" for x
    using that
  proof (rule claimed_row [OF ok(1)])
    fix u assume u: "u \<in> set (t_deliveries d)" "due ?now d u" "x = leased ?now (?now + seconds WEBHOOK_LEASE_SECONDS) u"
      "x \<in> set (t_deliveries ?d1)"
    from u(2) have "subscription_has Subscription_ACTIVE ?d1 x" by (simp add: u(3) due_def subscription_has_def)
    moreover have "\<exists>u \<in> set (t_deliveries d). de_id x = de_id u \<and> de_attempts x = de_attempts u \<and> de_failures x = de_failures u"
      by (rule bexI [OF _ u(1)]) (simp add: u(3))
    ultimately show ?thesis using u(4) by (simp add: u(3))
  qed
  have "dispatch_one X send ?cfg ?now w zero_counters ?d1 = (Inl IntegrityError, ?d1)"
    by (rule dispatch_one_refused [OF ready1 assms(5,6)]) (use claimed [of w] rows in simp_all)
  then have "dispatch_pending_webhooks X send ?cfg ?now d = (Inl IntegrityError, ?d1)"
    by (simp add: dispatch_pending_webhooks_def cfg andThen_def claim rows)
  then have run: "run_webhook_worker X send master batch interval once clock d = Some (Inl IntegrityError, ?d1)"
    unfolding run_webhook_worker_def using assms(2-4) by (subst worker_loop.simps) simp
  have "due (?now + seconds WEBHOOK_LEASE_SECONDS) ?d1 x" if "x \<in> set ?rows" for x
    using claimed [OF that] by (simp add: due_def reached_def)
  then show ?thesis using run claimed \<open>?rows \<noteq> []\<close> by (intro exI [of _ ?d1] exI [of _ ?rows]) auto
qed

theorem unexpected_status_stops_worker_witness:
  "\<exists>d'. run_webhook_worker sample_externals (\<lambda>u b h. returning 700) ''0123456789abcdef0123456789abcdef'' 20 2000000 False
      (\<lambda>k. 20 + seconds (int k)) webhook_db = Some (Inl IntegrityError, d') \<and> t_attempts d' = []"
proof -
  let ?v = "new_delivery 50 sample_webhook_event (sample_subscription 13 [Any_event] 3)"
  have ready: "dispatch_ready (default_settings ''0123456789abcdef0123456789abcdef'' (nat 20)) webhook_db"
    using webhook_db_ready by (simp add: dispatch_ready_def default_settings_def)
  have v: "?v \<in> set (t_deliveries webhook_db)" "due 20 webhook_db ?v"
    by (simp_all add: webhook_db_def due_def sample_db_def new_delivery_def sample_webhook_event_def
      subscription_has_def sample_subscription_def reached_def)
  have "t_attempts webhook_db = []" by (simp add: webhook_db_def sample_db_def empty_db_def)
  then show ?thesis
    using unexpected_status_stops_worker [where X = sample_externals and interval = 2000000 and v = ?v and batch = 20
        and send = "\<lambda>u b h. returning 700" and code = 700 and once = False and clock = "\<lambda>k. 20 + seconds (int k)"
        and d = webhook_db and master = "''0123456789abcdef0123456789abcdef''"] ready v
    by (auto simp: returning_def seconds_def)
qed

end
