(* ===== verification/Json_Parse.thy ===== *)
theory Json_Parse
  imports Json_Canonical "HOL-Library.AList"
begin

text \<open>
  \<open>json.loads\<close> on UTF-8 text, up to the non-finite constants, which are no values of
  \<open>json\<close>. \<open>None\<close> is a \<open>JSONDecodeError\<close>. The text of a float is read by the parameter
  \<open>rd\<close>. The theorem at the end reads every canonical text back.
\<close>

section \<open>Lexical elements\<close>

definition is_space :: "char \<Rightarrow> bool" where
  "is_space c \<longleftrightarrow> c = CHR 0x20 \<or> c = CHR 0x09 \<or> c = CHR 0x0A \<or> c = CHR 0x0D"

definition skip_ws :: "string \<Rightarrow> string" where
  "skip_ws = dropWhile is_space"

definition hex_digit :: "char \<Rightarrow> nat option" where
  "hex_digit c = (let n = (of_char c :: nat) in
     if 48 \<le> n \<and> n \<le> 57 then Some (n - 48)
     else if 97 \<le> n \<and> n \<le> 102 then Some (n - 87)
     else if 65 \<le> n \<and> n \<le> 70 then Some (n - 55) else None)"

text \<open>The four digits of a \<open>\u\<close> escape.\<close>

definition hex_quad :: "char \<Rightarrow> char \<Rightarrow> char \<Rightarrow> char \<Rightarrow> nat option" where
  "hex_quad a b c d = (case (hex_digit a, hex_digit b, hex_digit c, hex_digit d) of
     (Some w, Some x, Some y, Some z) \<Rightarrow> Some (4096 * w + 256 * x + 16 * y + z) | _ \<Rightarrow> None)"

definition utf8_encode :: "nat \<Rightarrow> string" where
  "utf8_encode n =
     (if n < 128 then [char_of n]
      else if n < 2048 then [char_of (192 + n div 64), char_of (128 + n mod 64)]
      else if n < 65536 then [char_of (224 + n div 4096), char_of (128 + n div 64 mod 64), char_of (128 + n mod 64)]
      else [char_of (240 + n div 262144), char_of (128 + n div 4096 mod 64), char_of (128 + n div 64 mod 64),
            char_of (128 + n mod 64)])"

definition named_escape :: "char \<Rightarrow> char option" where
  "named_escape c =
     (if c = CHR 0x22 then Some (CHR 0x22) else if c = CHR 0x5C then Some (CHR 0x5C)
      else if c = CHR ''/'' then Some (CHR ''/'') else if c = CHR ''b'' then Some (CHR 0x08)
      else if c = CHR ''f'' then Some (CHR 0x0C) else if c = CHR ''n'' then Some (CHR 0x0A)
      else if c = CHR ''r'' then Some (CHR 0x0D) else if c = CHR ''t'' then Some (CHR 0x09) else None)"

text \<open>
  A code from a \<open>\u\<close> escape: a high surrogate takes a following escaped low surrogate with it.
\<close>

fun surrogate_pair :: "nat \<Rightarrow> string \<Rightarrow> nat \<times> string" where
  "surrogate_pair n (q # u # a # b # c # d # s) =
     (if 55296 \<le> n \<and> n < 56320 \<and> q = CHR 0x5C \<and> u = CHR ''u''
      then (case hex_quad a b c d of
          Some m \<Rightarrow> if 56320 \<le> m \<and> m < 57344 then (65536 + (n - 55296) * 1024 + (m - 56320), s)
            else (n, q # u # a # b # c # d # s)
        | None \<Rightarrow> (n, q # u # a # b # c # d # s))
      else (n, q # u # a # b # c # d # s))"
| "surrogate_pair n s = (n, s)"

lemma surrogate_pair_shorter [simp]: "length (snd (surrogate_pair n s)) \<le> length s"
  by (induction n s rule: surrogate_pair.induct) (auto split: option.split)

text \<open>The rest of a string after its opening quote.\<close>

function parse_string :: "string \<Rightarrow> (string \<times> string) option" where
  "parse_string [] = None"
| "parse_string (c # s) =
     (if c = CHR 0x22 then Some ([], s)
      else if c = CHR 0x5C then
        (case s of
           [] \<Rightarrow> None
         | e # t \<Rightarrow>
             if e = CHR ''u''
             then (case t of
                 a # b # c' # d # t' \<Rightarrow> (case hex_quad a b c' d of
                     None \<Rightarrow> None
                   | Some n \<Rightarrow> map_option (apfst ((@) (utf8_encode (fst (surrogate_pair n t')))))
                       (parse_string (snd (surrogate_pair n t'))))
               | _ \<Rightarrow> None)
             else (case named_escape e of
                 None \<Rightarrow> None
               | Some x \<Rightarrow> map_option (apfst (Cons x)) (parse_string t)))
      else if (of_char c :: nat) < 32 then None
      else map_option (apfst (Cons c)) (parse_string s))"
  by pat_completeness auto
termination
  by (relation "measure length") (auto simp: le_imp_less_Suc le_SucI)

declare parse_string.simps [simp del]

section \<open>Numbers\<close>

definition digits :: "string \<Rightarrow> string" where
  "digits = takeWhile is_digit"

definition read_nat :: "string \<Rightarrow> nat" where
  "read_nat = foldl (\<lambda>n c. 10 * n + (of_char c - 48)) 0"

text \<open>The fraction and the exponent of a number, if it has them.\<close>

definition fraction_text :: "string \<Rightarrow> string" where
  "fraction_text s = (case s of
     c # t \<Rightarrow> if c = CHR ''.'' \<and> digits t \<noteq> [] then c # digits t else []
   | [] \<Rightarrow> [])"

definition exponent_text :: "string \<Rightarrow> string" where
  "exponent_text s = (case s of
     c # t \<Rightarrow>
       if c = CHR ''e'' \<or> c = CHR ''E''
       then (if digits t \<noteq> [] then c # digits t
             else (case t of
                 sign # u \<Rightarrow> if (sign = CHR ''+'' \<or> sign = CHR ''-'') \<and> digits u \<noteq> [] then c # sign # digits u else []
               | [] \<Rightarrow> []))
       else []
   | [] \<Rightarrow> [])"

type_synonym float_reader = "string \<Rightarrow> (int \<times> int) option"

text \<open>The integer part has no leading zeros: a zero is read alone.\<close>

definition parse_number :: "float_reader \<Rightarrow> string \<Rightarrow> (json \<times> string) option" where
  "parse_number rd s =
     (let sign = (case s of c # _ \<Rightarrow> if c = CHR ''-'' then [c] else [] | [] \<Rightarrow> []);
          s1 = drop (length sign) s;
          whole = (case s1 of c # _ \<Rightarrow> if c = CHR ''0'' then [c] else digits s1 | [] \<Rightarrow> []);
          s2 = drop (length whole) s1;
          fraction = fraction_text s2;
          s3 = drop (length fraction) s2;
          exponent = exponent_text s3;
          rest = drop (length exponent) s3
      in if whole = [] then None
         else if fraction = [] \<and> exponent = []
         then Some (JInt (if sign = [] then int (read_nat whole) else - int (read_nat whole)), rest)
         else map_option (\<lambda>(m, e). (JFloat m e, rest)) (rd (sign @ whole @ fraction @ exponent)))"

section \<open>Values\<close>

text \<open>A dictionary filled from its members: a repeated key keeps its place and takes the last value.\<close>

definition dict_of :: "(string \<times> json) list \<Rightarrow> (string \<times> json) list" where
  "dict_of kvs = fold (\<lambda>(k, v). AList.update k v) kvs []"

definition literal :: "string \<Rightarrow> json \<Rightarrow> string \<Rightarrow> (json \<times> string) option" where
  "literal text v s = (if take (length text) s = text then Some (v, drop (length text) s) else None)"

text \<open>
  The fuel bounds the calls: reading a value or an element takes at most two of it and consumes a
  character, so that twice the length of the text is enough.
\<close>

fun parse_value :: "float_reader \<Rightarrow> nat \<Rightarrow> string \<Rightarrow> (json \<times> string) option"
  and parse_items :: "float_reader \<Rightarrow> nat \<Rightarrow> string \<Rightarrow> (json list \<times> string) option"
  and parse_members :: "float_reader \<Rightarrow> nat \<Rightarrow> string \<Rightarrow> ((string \<times> json) list \<times> string) option" where
  "parse_value rd 0 s = None"
| "parse_value rd (Suc n) s =
     (case s of
        [] \<Rightarrow> None
      | c # t \<Rightarrow>
          if c = CHR 0x22 then map_option (apfst JStr) (parse_string t)
          else if c = CHR ''['' then
            (case skip_ws t of
               [] \<Rightarrow> None
             | d # u \<Rightarrow> if d = CHR '']'' then Some (JArr [], u) else map_option (apfst JArr) (parse_items rd n (d # u)))
          else if c = CHR ''{'' then
            (case skip_ws t of
               [] \<Rightarrow> None
             | d # u \<Rightarrow> if d = CHR ''}'' then Some (JObj [], u)
                 else map_option (apfst (\<lambda>kvs. JObj (dict_of kvs))) (parse_members rd n (d # u)))
          else if c = CHR ''n'' then literal ''null'' JNull s
          else if c = CHR ''t'' then literal ''true'' (JBool True) s
          else if c = CHR ''f'' then literal ''false'' (JBool False) s
          else parse_number rd s)"
| "parse_items rd 0 s = None"
| "parse_items rd (Suc n) s =
     (case parse_value rd n s of
        None \<Rightarrow> None
      | Some (x, r) \<Rightarrow>
          (case skip_ws r of
             [] \<Rightarrow> None
           | c # t \<Rightarrow> if c = CHR '']'' then Some ([x], t)
               else if c = CHR '','' then map_option (apfst (Cons x)) (parse_items rd n (skip_ws t))
               else None))"
| "parse_members rd 0 s = None"
| "parse_members rd (Suc n) s =
     (case s of
        [] \<Rightarrow> None
      | q # s1 \<Rightarrow>
          if q \<noteq> CHR 0x22 then None
          else (case parse_string s1 of
             None \<Rightarrow> None
           | Some (k, s2) \<Rightarrow>
               (case skip_ws s2 of
                  [] \<Rightarrow> None
                | c # s3 \<Rightarrow>
                    if c \<noteq> CHR '':'' then None
                    else (case parse_value rd n (skip_ws s3) of
                       None \<Rightarrow> None
                     | Some (v, s4) \<Rightarrow>
                         (case skip_ws s4 of
                            [] \<Rightarrow> None
                          | e # t \<Rightarrow> if e = CHR ''}'' then Some ([(k, v)], t)
                              else if e = CHR '','' then map_option (apfst (Cons (k, v))) (parse_members rd n (skip_ws t))
                              else None)))))"

declare parse_value.simps [simp del] and parse_items.simps [simp del] and parse_members.simps [simp del]

lemmas value_step = parse_value.simps(2)

definition json_loads :: "float_reader \<Rightarrow> string \<Rightarrow> json option" where
  "json_loads rd s = (case parse_value rd (Suc (2 * length s)) (skip_ws s) of
     None \<Rightarrow> None | Some (v, r) \<Rightarrow> if skip_ws r = [] then Some v else None)"

section \<open>Reading canonical texts\<close>

lemma hex_digit_hex_char: "d < 16 \<Longrightarrow> hex_digit (hex_char d) = Some d"
  by (auto simp: hex_digit_def hex_char_def Let_def)

lemma surrogate_pair_plain: "n < 55296 \<Longrightarrow> surrogate_pair n s = (n, s)"
  by (induction n s rule: surrogate_pair.induct) auto

lemma escape_char_cases:
  obtains (plain) "escape_char c = [c]" "c \<noteq> CHR 0x22" "c \<noteq> CHR 0x5C" "32 \<le> (of_char c :: nat)"
  | (named) e where "escape_char c = [CHR 0x5C, e]" "named_escape e = Some c" "e \<noteq> CHR ''u''"
  | (control) "(of_char c :: nat) < 32"
      "escape_char c = [CHR 0x5C, CHR ''u'', CHR ''0'', CHR ''0'', hex_char (of_char c div 16), hex_char (of_char c mod 16)]"
proof -
  let ?named = "[(CHR 0x22, CHR 0x22), (CHR 0x5C, CHR 0x5C), (CHR 0x0A, CHR ''n''), (CHR 0x0D, CHR ''r''),
    (CHR 0x09, CHR ''t''), (CHR 0x0C, CHR ''f''), (CHR 0x08, CHR ''b'')]"
  have all: "list_all (\<lambda>(c, e). escape_char c = [CHR 0x5C, e] \<and> named_escape e = Some c \<and> e \<noteq> CHR ''u'') ?named"
    by (simp add: escape_char_def named_escape_def)
  show thesis
  proof (cases "c \<in> fst ` set ?named")
    case True
    then obtain e where "(c, e) \<in> set ?named" by force
    with all have "escape_char c = [CHR 0x5C, e] \<and> named_escape e = Some c \<and> e \<noteq> CHR ''u''" by (auto simp: list_all_iff)
    then show thesis by (intro named) auto
  next
    case False
    then have "c \<noteq> CHR 0x22" "c \<noteq> CHR 0x5C" "c \<noteq> CHR 0x0A" "c \<noteq> CHR 0x0D" "c \<noteq> CHR 0x09" "c \<noteq> CHR 0x0C" "c \<noteq> CHR 0x08"
      by simp_all
    then have "escape_char c = (if (of_char c :: nat) < 32
        then [CHR 0x5C, CHR ''u'', CHR ''0'', CHR ''0'', hex_char (of_char c div 16), hex_char (of_char c mod 16)] else [c])"
      by (simp add: escape_char_def)
    then show thesis using control plain \<open>c \<noteq> CHR 0x22\<close> \<open>c \<noteq> CHR 0x5C\<close>
      by (cases "(of_char c :: nat) < 32") simp_all
  qed
qed

lemma parse_escaped: "parse_string (escape_char c @ x) = map_option (apfst (Cons c)) (parse_string x)"
proof (cases c rule: escape_char_cases)
  case plain
  then show ?thesis by (simp add: parse_string.simps(2))
next
  case named
  then show ?thesis by (simp add: parse_string.simps(2))
next
  case control
  let ?n = "of_char c :: nat"
  have "hex_digit (CHR ''0'') = Some 0" by (simp add: hex_digit_def)
  moreover have "hex_digit (hex_char (?n div 16)) = Some (?n div 16)" "hex_digit (hex_char (?n mod 16)) = Some (?n mod 16)"
    using control(1) by (auto intro!: hex_digit_hex_char)
  ultimately have "hex_quad (CHR ''0'') (CHR ''0'') (hex_char (?n div 16)) (hex_char (?n mod 16)) = Some ?n"
    by (simp add: hex_quad_def)
  moreover have "surrogate_pair ?n x = (?n, x)" by (rule surrogate_pair_plain) (use control(1) in simp)
  moreover have "utf8_encode ?n = [c]" using control(1) by (simp add: utf8_encode_def)
  ultimately show ?thesis by (simp add: control(2) parse_string.simps(2) apfst_def map_prod_def)
qed

lemma parse_printed_string: "parse_string (concat (map escape_char s) @ CHR 0x22 # r) = Some (s, r)"
proof (induction s)
  case Nil
  then show ?case by (simp add: parse_string.simps(2))
next
  case (Cons c s)
  then show ?case by (simp add: parse_escaped)
qed

lemma parse_print_string: "print_string s @ r = CHR 0x22 # (concat (map escape_char s) @ CHR 0x22 # r)"
  by (simp add: print_string_def)

text \<open>What follows a value in a canonical text.\<close>

definition ends_value :: "string \<Rightarrow> bool" where
  "ends_value r \<longleftrightarrow> (case r of [] \<Rightarrow> True | c # _ \<Rightarrow> c = CHR '','' \<or> c = CHR '']'' \<or> c = CHR ''}'' \<or> is_space c)"

lemma digits_show_nat: "digits r = [] \<Longrightarrow> digits (show_nat n @ r) = show_nat n"
  using show_nat_digits [of _ n] by (simp add: digits_def takeWhile_append)

lemma digits_ending: "ends_value r \<Longrightarrow> digits r = []"
  by (cases r) (auto simp: ends_value_def digits_def is_digit_def is_space_def)

lemma read_show_nat: "read_nat (show_nat n) = n"
proof (induction n rule: show_nat.induct)
  case (1 n)
  have digit: "(of_char (digit_char d) :: nat) - 48 = d" if "d < 10" for d using that by (simp add: digit_char_def)
  show ?case
  proof (cases "n < 10")
    case True
    then show ?thesis by (simp add: show_nat.simps [of n] read_nat_def digit)
  next
    case False
    then show ?thesis using 1 by (simp add: show_nat.simps [of n] read_nat_def digit)
  qed
qed

lemma show_nat_leading: "hd (show_nat n) = CHR ''0'' \<Longrightarrow> show_nat n = ''0''"
proof (induction n rule: show_nat.induct)
  case (1 n)
  show ?case
  proof (cases "n < 10")
    case True
    then show ?thesis using 1(2) by (simp add: show_nat.simps [of n])
  next
    case False
    then have "hd (show_nat (n div 10)) = CHR ''0''" using 1(2) by (simp add: show_nat.simps [of n])
    then have "show_nat (n div 10) = ''0''" using 1(1) False by simp
    then have "n div 10 = 0" using read_show_nat [of "n div 10"] by (simp add: read_nat_def)
    with False show ?thesis by simp
  qed
qed

lemma ending_parts: "ends_value r \<Longrightarrow> fraction_text r = [] \<and> exponent_text r = []"
  by (cases r) (auto simp: ends_value_def is_space_def fraction_text_def exponent_text_def)

lemma parse_nat_part:
  assumes "digits r = []"
  shows "(case show_nat n @ r of c # _ \<Rightarrow> if c = CHR ''0'' then [c] else digits (show_nat n @ r) | [] \<Rightarrow> []) = show_nat n"
proof (cases "show_nat n")
  case (Cons c s)
  then show ?thesis using digits_show_nat [OF assms, of n] show_nat_leading [of n] by simp
qed simp

text \<open>A number starts with an integer that no digit follows.\<close>

lemma parse_number_start:
  assumes "digits r = []"
  shows "parse_number rd (show_int i @ r) =
    (let fraction = fraction_text r; s = drop (length fraction) r; exponent = exponent_text s; rest = drop (length exponent) s
     in if fraction = [] \<and> exponent = [] then Some (JInt i, rest)
        else map_option (\<lambda>(m, e). (JFloat m e, rest)) (rd (show_int i @ fraction @ exponent)))"
proof -
  note part = parse_nat_part [OF assms]
  show ?thesis
  proof (cases "i < 0")
    case True
    then show ?thesis
      unfolding parse_number_def Let_def show_int_def
      by (simp only: if_True append_Cons list.case simp_thms list.size One_nat_def drop_Suc_Cons drop0 part
        show_nat_neq_Nil append_Nil list.distinct read_show_nat if_False drop_append diff_self_eq_0
        drop_all le_refl add_0 plus_nat.add_0) (simp split del: if_split cong: if_cong)
  next
    case False
    have sign: "(case show_nat (nat i) @ r of c # x \<Rightarrow> if c = CHR ''-'' then [c] else [] | [] \<Rightarrow> []) = []"
      using show_nat_not_minus [of "nat i"] by (cases "show_nat (nat i)") auto
    from False show ?thesis
      unfolding parse_number_def Let_def show_int_def
      by (simp only: if_False sign list.size drop0 part show_nat_neq_Nil append_Nil simp_thms if_True
        read_show_nat drop_append diff_self_eq_0 drop_all le_refl) (simp split del: if_split cong: if_cong)
  qed
qed

lemma parse_show_int: "ends_value r \<Longrightarrow> parse_number rd (show_int i @ r) = Some (JInt i, r)"
  using ending_parts [of r] by (simp add: parse_number_start digits_ending Let_def)

text \<open>
  What the code relies on of \<open>float\<close>: where a value ends, the text \<open>float.__repr__\<close>
  gave is a number and is read as the float it is the text of.
\<close>

definition float_reads :: "float_reader \<Rightarrow> float_text \<Rightarrow> bool" where
  "float_reads rd fr \<longleftrightarrow> (\<forall>m e r. ends_value r \<longrightarrow> parse_number rd (fr m e @ r) = Some (JFloat m e, r))"

text \<open>Objects whose keys are distinct at every depth: what a dictionary is.\<close>

fun json_wf :: "json \<Rightarrow> bool" where
  "json_wf (JArr xs) = list_all json_wf xs"
| "json_wf (JObj kvs) = (distinct (map fst kvs) \<and> list_all (\<lambda>kv. json_wf (snd kv)) kvs)"
| "json_wf j = True"

lemma update_new_key: "k \<notin> fst ` set kvs \<Longrightarrow> AList.update k v kvs = kvs @ [(k, v)]"
  by (induction kvs) auto

lemma dict_of_distinct: "distinct (map fst kvs) \<Longrightarrow> dict_of kvs = kvs"
proof -
  have "fold (\<lambda>(k, v). AList.update k v) kvs acc = acc @ kvs" if "distinct (map fst (acc @ kvs))" for acc
    using that by (induction kvs arbitrary: acc) (auto simp: update_new_key split: prod.splits)
  from this [of "[]"] show "distinct (map fst kvs) \<Longrightarrow> dict_of kvs = kvs" by (simp add: dict_of_def)
qed

definition starts_value :: "char \<Rightarrow> bool" where
  "starts_value c \<longleftrightarrow> \<not> is_space c \<and> c \<noteq> CHR '']'' \<and> c \<noteq> CHR ''}''"

lemma print_json_starts:
  assumes "float_text_ok fr"
  shows "\<exists>c s. print_json fr v = c # s \<and> starts_value c"
proof (cases v)
  case (JInt i)
  then show ?thesis using show_int_chars [of "hd (show_int i)" i]
    by (cases "show_int i") (auto simp: starts_value_def is_space_def is_digit_def)
next
  case (JFloat m e)
  then show ?thesis using float_text_okD(2) [OF assms, of m e]
    by (auto simp: starts_value_def is_space_def is_digit_def)
next
  case (JArr xs)
  then show ?thesis by (cases xs) (auto simp: starts_value_def is_space_def)
next
  case (JObj kvs)
  then show ?thesis by (cases kvs) (auto simp: starts_value_def is_space_def)
qed (auto simp: starts_value_def is_space_def print_string_def)

lemma skip_printed:
  assumes "float_text_ok fr"
  shows "skip_ws (print_json fr v @ r) = print_json fr v @ r"
proof -
  obtain c s where v: "print_json fr v = c # s" and "starts_value c" using print_json_starts [OF assms, of v] by metis
  then have "\<not> is_space c" by (simp add: starts_value_def)
  with v show ?thesis by (simp add: skip_ws_def)
qed

lemma skip_empty: "skip_ws [] = []"
  by (simp add: skip_ws_def)

lemma skip_plain: "\<not> is_space c \<Longrightarrow> skip_ws (c # s) = c # s"
  by (simp add: skip_ws_def)

lemma print_tail_ends: "ends_value (print_items fr xs @ r)" "ends_value (print_members fr kvs @ r)"
  by (cases xs; simp add: ends_value_def) (cases kvs; auto simp: ends_value_def)

definition value_reads :: "float_reader \<Rightarrow> float_text \<Rightarrow> json \<Rightarrow> bool" where
  "value_reads rd fr v \<longleftrightarrow> (float_text_ok fr \<longrightarrow> float_reads rd fr \<longrightarrow> json_wf v \<longrightarrow>
     (\<forall>r n. ends_value r \<longrightarrow> 2 * length (print_json fr v) \<le> n \<longrightarrow> parse_value rd n (print_json fr v @ r) = Some (v, r)))"

definition items_read :: "float_reader \<Rightarrow> float_text \<Rightarrow> json list \<Rightarrow> bool" where
  "items_read rd fr xs \<longleftrightarrow> (\<forall>x k s. float_text_ok fr \<longrightarrow> float_reads rd fr \<longrightarrow> value_reads rd fr x \<longrightarrow> list_all json_wf (x # xs) \<longrightarrow>
     2 * (length (print_json fr x) + length (print_items fr xs)) \<le> k \<longrightarrow>
     parse_items rd k (print_json fr x @ print_items fr xs @ s) = Some (x # xs, s))"

definition members_read :: "float_reader \<Rightarrow> float_text \<Rightarrow> (string \<times> json) list \<Rightarrow> bool" where
  "members_read rd fr kvs \<longleftrightarrow> (\<forall>k x n s. float_text_ok fr \<longrightarrow> float_reads rd fr \<longrightarrow> value_reads rd fr x \<longrightarrow>
     list_all (\<lambda>kv. json_wf (snd kv)) ((k, x) # kvs) \<longrightarrow>
     2 * (length (print_string k) + length (print_json fr x) + length (print_members fr kvs)) \<le> n \<longrightarrow>
     parse_members rd n (print_string k @ CHR '':'' # print_json fr x @ print_members fr kvs @ s) = Some ((k, x) # kvs, s))"

lemma value_readsI:
  assumes "\<And>r n. float_text_ok fr \<Longrightarrow> float_reads rd fr \<Longrightarrow> json_wf v \<Longrightarrow> ends_value r \<Longrightarrow> 2 * length (print_json fr v) \<le> Suc n
    \<Longrightarrow> parse_value rd (Suc n) (print_json fr v @ r) = Some (v, r)"
  shows "value_reads rd fr v"
  unfolding value_reads_def
proof (intro allI impI)
  fix r n assume h: "float_text_ok fr" "float_reads rd fr" "json_wf v" "ends_value r" "2 * length (print_json fr v) \<le> n"
  have "print_json fr v \<noteq> []" using print_json_starts [OF h(1), of v] by auto
  then obtain k where "n = Suc k" using h(5) by (cases n) auto
  with assms h show "parse_value rd n (print_json fr v @ r) = Some (v, r)" by simp
qed

lemma value_readsD:
  "value_reads rd fr v \<Longrightarrow> float_text_ok fr \<Longrightarrow> float_reads rd fr \<Longrightarrow> json_wf v \<Longrightarrow> ends_value r
    \<Longrightarrow> 2 * length (print_json fr v) \<le> n \<Longrightarrow> parse_value rd n (print_json fr v @ r) = Some (v, r)"
  by (simp add: value_reads_def)

lemma number_starts:
  assumes "is_digit c \<or> c = CHR ''-''"
  shows "parse_value rd (Suc n) (c # s) = parse_number rd (c # s)"
proof -
  have "c \<noteq> CHR 0x22" "c \<noteq> CHR ''[''" "c \<noteq> CHR ''{''" "c \<noteq> CHR ''n''" "c \<noteq> CHR ''t''" "c \<noteq> CHR ''f''"
    using assms by (auto simp: is_digit_def)
  then show ?thesis by (simp add: value_step)
qed

lemma parse_items_step:
  assumes fr: "float_text_ok fr" "float_reads rd fr" and x: "value_reads rd fr x" "json_wf x"
    and n: "2 * length (print_json fr x) \<le> n" and ends: "ends_value (c # t)" "\<not> is_space c"
  shows "parse_items rd (Suc n) (print_json fr x @ c # t) =
    (if c = CHR '']'' then Some ([x], t)
     else if c = CHR '','' then map_option (apfst (Cons x)) (parse_items rd n (skip_ws t)) else None)"
proof -
  have "parse_value rd n (print_json fr x @ c # t) = Some (x, c # t)" by (rule value_readsD [OF x(1) fr x(2) ends(1) n])
  moreover note ends(2)
  ultimately show ?thesis by (simp add: parse_items.simps(2) skip_plain)
qed

lemma parse_members_step:
  assumes fr: "float_text_ok fr" "float_reads rd fr" and x: "value_reads rd fr x" "json_wf x"
    and n: "2 * length (print_json fr x) \<le> n" and ends: "ends_value (c # t)" "\<not> is_space c"
  shows "parse_members rd (Suc n) (print_string k @ CHR '':'' # print_json fr x @ c # t) =
    (if c = CHR ''}'' then Some ([(k, x)], t)
     else if c = CHR '','' then map_option (apfst (Cons (k, x))) (parse_members rd n (skip_ws t)) else None)"
proof -
  have v: "parse_value rd n (print_json fr x @ c # t) = Some (x, c # t)" by (rule value_readsD [OF x(1) fr x(2) ends(1) n])
  have s: "skip_ws (print_json fr x @ c # t) = print_json fr x @ c # t" by (rule skip_printed [OF fr(1)])
  have colon: "skip_ws (CHR '':'' # u) = CHR '':'' # u" for u by (simp add: skip_plain is_space_def)
  show ?thesis
    unfolding parse_print_string append_Cons append_assoc
    by (simp add: parse_members.simps(2) parse_printed_string colon s v skip_plain [OF ends(2)])
qed

lemma reads_printed: "value_reads rd fr v" "items_read rd fr xs" "members_read rd fr kvs"
proof (induction fr v and fr xs and fr kvs rule: print_json_print_items_print_members.induct)
  case (1 fr)
  show ?case by (rule value_readsI) (simp add: value_step literal_def)
next
  case (2 fr b)
  show ?case by (rule value_readsI) (simp add: value_step literal_def)
next
  case (3 fr i)
  show ?case
  proof (rule value_readsI)
    fix r n assume "ends_value r"
    moreover obtain c s where "show_int i = c # s" "is_digit c \<or> c = CHR ''-''"
      using show_int_chars [of "hd (show_int i)" i] by (cases "show_int i") auto
    ultimately show "parse_value rd (Suc n) (print_json fr (JInt i) @ r) = Some (JInt i, r)"
      using parse_show_int [of r rd i] number_starts [of c rd n "s @ r"] by simp
  qed
next
  case (4 fr m e)
  show ?case
  proof (rule value_readsI)
    fix r n assume fr: "float_text_ok fr" "float_reads rd fr" and "ends_value r"
    moreover obtain c s where "fr m e = c # s" "is_digit c \<or> c = CHR ''-''" using float_text_okD(2) [OF fr(1)] by blast
    ultimately show "parse_value rd (Suc n) (print_json fr (JFloat m e) @ r) = Some (JFloat m e, r)"
      using number_starts [of c rd n "s @ r"] unfolding float_reads_def by (metis append_Cons print_json.simps(4))
  qed
next
  case (5 fr t)
  show ?case by (rule value_readsI) (simp add: value_step parse_print_string parse_printed_string)
next
  case (6 fr)
  show ?case by (rule value_readsI) (simp add: value_step skip_plain is_space_def)
next
  case (7 fr x xs)
  show ?case
  proof (rule value_readsI)
    fix r n assume fr: "float_text_ok fr" "float_reads rd fr" and wf: "json_wf (JArr (x # xs))"
      and n: "2 * length (print_json fr (JArr (x # xs))) \<le> Suc n"
    have items: "parse_items rd n (print_json fr x @ print_items fr xs @ r) = Some (x # xs, r)"
      using 7 fr wf n by (simp add: items_read_def)
    obtain c s where x: "print_json fr x = c # s" and "starts_value c" using print_json_starts [OF fr(1), of x] by metis
    then have c: "\<not> is_space c" "c \<noteq> CHR '']''" by (simp_all add: starts_value_def)
    show "parse_value rd (Suc n) (print_json fr (JArr (x # xs)) @ r) = Some (JArr (x # xs), r)"
      using items c by (simp add: value_step x skip_plain)
  qed
next
  case (8 fr)
  show ?case by (rule value_readsI) (simp add: value_step skip_plain is_space_def)
next
  case (9 fr k v kvs)
  show ?case
  proof (rule value_readsI)
    fix r n assume fr: "float_text_ok fr" "float_reads rd fr" and wf: "json_wf (JObj ((k, v) # kvs))"
      and n: "2 * length (print_json fr (JObj ((k, v) # kvs))) \<le> Suc n"
    have members: "parse_members rd n (print_string k @ CHR '':'' # print_json fr v @ print_members fr kvs @ r) = Some ((k, v) # kvs, r)"
      using 9 fr wf n by (simp add: members_read_def)
    moreover have "dict_of ((k, v) # kvs) = (k, v) # kvs" by (rule dict_of_distinct) (use wf in simp)
    ultimately show "parse_value rd (Suc n) (print_json fr (JObj ((k, v) # kvs)) @ r) = Some (JObj ((k, v) # kvs), r)"
      by (simp add: value_step parse_print_string skip_plain is_space_def)
  qed
next
  case (10 fr)
  show ?case
    unfolding items_read_def
  proof (intro allI impI)
    fix x k s assume h: "float_text_ok fr" "float_reads rd fr" "value_reads rd fr x" "list_all json_wf [x]"
      "2 * (length (print_json fr x) + length (print_items fr [])) \<le> k"
    then obtain n where "k = Suc n" "2 * length (print_json fr x) \<le> n" by (cases k) auto
    with parse_items_step [OF h(1-3), of n "CHR '']''" s] h(4)
    show "parse_items rd k (print_json fr x @ print_items fr [] @ s) = Some ([x], s)" by (simp add: ends_value_def is_space_def)
  qed
next
  case (11 fr y ys)
  show ?case
    unfolding items_read_def
  proof (intro allI impI)
    fix x k s assume h: "float_text_ok fr" "float_reads rd fr" "value_reads rd fr x" "list_all json_wf (x # y # ys)"
      "2 * (length (print_json fr x) + length (print_items fr (y # ys))) \<le> k"
    then obtain n where n: "k = Suc n" "2 * length (print_json fr x) \<le> n"
      "2 * (length (print_json fr y) + length (print_items fr ys)) \<le> n" by (cases k) auto
    have rest: "parse_items rd n (print_json fr y @ print_items fr ys @ s) = Some (y # ys, s)"
      using 11 h n(3) by (simp add: items_read_def)
    have "skip_ws (print_json fr y @ print_items fr ys @ s) = print_json fr y @ print_items fr ys @ s"
      by (rule skip_printed [OF h(1)])
    with parse_items_step [OF h(1-3) _ n(2), of "CHR '',''" "print_json fr y @ print_items fr ys @ s"] h(4) n(1) rest
    show "parse_items rd k (print_json fr x @ print_items fr (y # ys) @ s) = Some (x # y # ys, s)"
      by (simp add: ends_value_def is_space_def)
  qed
next
  case (12 fr)
  show ?case
    unfolding members_read_def
  proof (intro allI impI)
    fix k x n s assume h: "float_text_ok fr" "float_reads rd fr" "value_reads rd fr x" "list_all (\<lambda>kv. json_wf (snd kv)) [(k, x)]"
      "2 * (length (print_string k) + length (print_json fr x) + length (print_members fr [])) \<le> n"
    then obtain l where "n = Suc l" "2 * length (print_json fr x) \<le> l" by (cases n) auto
    with parse_members_step [OF h(1-3), of l "CHR ''}''" s k] h(4)
    show "parse_members rd n (print_string k @ CHR '':'' # print_json fr x @ print_members fr [] @ s) = Some ([(k, x)], s)"
      by (simp add: ends_value_def is_space_def)
  qed
next
  case (13 fr l y kvs)
  show ?case
    unfolding members_read_def
  proof (intro allI impI)
    fix k x n s assume h: "float_text_ok fr" "float_reads rd fr" "value_reads rd fr x"
      "list_all (\<lambda>kv. json_wf (snd kv)) ((k, x) # (l, y) # kvs)"
      "2 * (length (print_string k) + length (print_json fr x) + length (print_members fr ((l, y) # kvs))) \<le> n"
    then obtain j where n: "n = Suc j" "2 * length (print_json fr x) \<le> j"
      "2 * (length (print_string l) + length (print_json fr y) + length (print_members fr kvs)) \<le> j" by (cases n) auto
    let ?rest = "print_string l @ CHR '':'' # print_json fr y @ print_members fr kvs @ s"
    have rest: "parse_members rd j ?rest = Some ((l, y) # kvs, s)" using 13 h n(3) by (simp add: members_read_def)
    have "skip_ws ?rest = ?rest" by (simp add: parse_print_string skip_plain is_space_def)
    with parse_members_step [OF h(1-3) _ n(2), of "CHR '',''" ?rest k] h(4) n(1) rest
    show "parse_members rd n (print_string k @ CHR '':'' # print_json fr x @ print_members fr ((l, y) # kvs) @ s)
        = Some ((k, x) # (l, y) # kvs, s)"
      by (simp add: ends_value_def is_space_def)
  qed
qed

text \<open>Sorting keeps a well-formed value well formed.\<close>

lemma sort_json_wf: "json_wf v \<Longrightarrow> json_wf (sort_json v)"
proof (induction v rule: sort_json.induct)
  case (1 xs)
  then show ?case by (auto simp: list_all_iff)
next
  case (2 kvs)
  have keys: "map fst (map (\<lambda>(k, v). (k, sort_json v)) kvs) = map fst kvs" by (induction kvs) auto
  have "distinct (map fst (map (\<lambda>(k, v). (k, sort_json v)) kvs))" unfolding keys using 2(2) by simp
  then have "distinct (map fst (sort_key fst (map (\<lambda>(k, v). (k, sort_json v)) kvs)))"
    by (simp only: distinct_map distinct_sort set_sort simp_thms)
  moreover have "json_wf (sort_json v)" if "(k, v) \<in> set kvs" for k v
    using 2(1) [OF that] 2(2) that by (auto simp: list_all_iff)
  ultimately show ?case by (auto simp: list_all_iff)
qed simp_all

lemma loads_canonical_ws:
  assumes "float_text_ok fr" and "float_reads rd fr" and "json_wf v" and "list_all is_space r"
  shows "json_loads rd (canonical_json fr v @ r) = Some (sort_json v)"
proof -
  let ?s = "print_json fr (sort_json v)"
  have "skip_ws (?s @ r) = ?s @ r" by (rule skip_printed [OF assms(1)])
  moreover have "parse_value rd (Suc (2 * length (?s @ r))) (?s @ r) = Some (sort_json v, r)"
    by (rule value_readsD [OF reads_printed(1) assms(1,2) sort_json_wf [OF assms(3)]])
      (use assms(4) in \<open>cases r; simp add: ends_value_def\<close>, simp)
  moreover have "skip_ws r = []" using assms(4) by (auto simp: skip_ws_def list_all_iff)
  ultimately show ?thesis by (simp add: json_loads_def canonical_json_def)
qed

lemma loads_canonical:
  "float_text_ok fr \<Longrightarrow> float_reads rd fr \<Longrightarrow> json_wf v \<Longrightarrow> json_loads rd (canonical_json fr v) = Some (sort_json v)"
  using loads_canonical_ws [of fr rd v "[]"] by simp

end
