(* ===== verification/Text_Lines.thy ===== *)
theory Text_Lines
  imports Json_Parse
begin

text \<open>
  Python's string operations on UTF-8 text: decoding, \<open>str.splitlines\<close>, \<open>str.isspace\<close> and
  \<open>str.lstrip\<close>. Canonical JSON escapes the control characters but keeps the other Unicode line
  breaks (NEL, LS and PS), which is where a text stops being one line.
\<close>

section \<open>Decoding\<close>

definition continuation :: "char \<Rightarrow> bool" where
  "continuation c \<longleftrightarrow> 128 \<le> (of_char c :: nat) \<and> (of_char c :: nat) < 192"

text \<open>What \<open>bytes.decode("utf-8")\<close> accepts.\<close>

fun utf8_ok :: "string \<Rightarrow> bool" where
  "utf8_ok [] = True"
| "utf8_ok (c # s) =
     (let n = (of_char c :: nat) in
      if n < 128 then utf8_ok s
      else if n < 194 then False
      else if n < 224 then (case s of a # t \<Rightarrow> continuation a \<and> utf8_ok t | _ \<Rightarrow> False)
      else if n < 240 then
        (case s of
           a # b # t \<Rightarrow> continuation a \<and> continuation b \<and> (n = 224 \<longrightarrow> 160 \<le> (of_char a :: nat))
             \<and> (n = 237 \<longrightarrow> (of_char a :: nat) < 160) \<and> utf8_ok t
         | _ \<Rightarrow> False)
      else if n < 245 then
        (case s of
           a # b # d # t \<Rightarrow> continuation a \<and> continuation b \<and> continuation d
             \<and> (n = 240 \<longrightarrow> 144 \<le> (of_char a :: nat)) \<and> (n = 244 \<longrightarrow> (of_char a :: nat) < 144) \<and> utf8_ok t
         | _ \<Rightarrow> False)
      else False)"

declare utf8_ok.simps(2) [simp del]

section \<open>Lines\<close>

text \<open>The number of bytes of the Unicode line break other than a control character at the start of a text.\<close>

fun separator :: "string \<Rightarrow> nat" where
  "separator (a # b # s) =
     (if a = CHR 0xC2 \<and> b = CHR 0x85 then 2
      else if a = CHR 0xE2 \<and> b = CHR 0x80 \<and> (case s of c # _ \<Rightarrow> c = CHR 0xA8 \<or> c = CHR 0xA9 | [] \<Rightarrow> False) then 3
      else 0)"
| "separator s = 0"

definition line_break :: "string \<Rightarrow> nat" where
  "line_break s = (case s of
     [] \<Rightarrow> 0
   | c # t \<Rightarrow>
       if c = CHR 0x0D then (case t of d # _ \<Rightarrow> if d = CHR 0x0A then 2 else 1 | [] \<Rightarrow> 1)
       else if c \<in> {CHR 0x0A, CHR 0x0B, CHR 0x0C, CHR 0x1C, CHR 0x1D, CHR 0x1E} then 1
       else separator s)"

lemma separator_bound: "separator s \<le> length s"
  by (induction s rule: separator.induct) (auto split: list.split)

text \<open>The lines of a text; \<open>line\<close> is what has been read of the current one.\<close>

function split_lines :: "string \<Rightarrow> string \<Rightarrow> string list" where
  "split_lines line [] = (if line = [] then [] else [line])"
| "split_lines line (c # s) =
     (if line_break (c # s) = 0 then split_lines (line @ [c]) s
      else line # split_lines [] (drop (line_break (c # s)) (c # s)))"
  by pat_completeness auto
termination
  by (relation "measure (\<lambda>(line, s). length s)") auto

declare split_lines.simps(2) [simp del]

definition splitlines :: "string \<Rightarrow> string list" where
  "splitlines s = split_lines [] s"

section \<open>White space\<close>

text \<open>The number of bytes of the white space character at the start of a text.\<close>

definition space_length :: "string \<Rightarrow> nat" where
  "space_length s = (case s of
     [] \<Rightarrow> 0
   | a # t \<Rightarrow>
       let n = (of_char a :: nat) in
       if 9 \<le> n \<and> n \<le> 13 \<or> 28 \<le> n \<and> n \<le> 32 then 1
       else (case t of
           [] \<Rightarrow> 0
         | b # u \<Rightarrow>
             if a = CHR 0xC2 \<and> (b = CHR 0x85 \<or> b = CHR 0xA0) then 2
             else (case u of
                 [] \<Rightarrow> 0
               | c # _ \<Rightarrow>
                   let m = (of_char c :: nat) in
                   if a = CHR 0xE1 \<and> b = CHR 0x9A \<and> c = CHR 0x80
                     \<or> a = CHR 0xE2 \<and> b = CHR 0x80 \<and> (128 \<le> m \<and> m \<le> 138 \<or> m = 168 \<or> m = 169 \<or> m = 175)
                     \<or> a = CHR 0xE2 \<and> b = CHR 0x81 \<and> c = CHR 0x9F
                     \<or> a = CHR 0xE3 \<and> b = CHR 0x80 \<and> c = CHR 0x80
                   then 3 else 0)))"

lemma space_length_bound: "space_length s \<le> length s"
  by (simp add: space_length_def Let_def split: list.split)

function lstrip :: "string \<Rightarrow> string" where
  "lstrip s = (if space_length s = 0 then s else lstrip (drop (space_length s) s))"
  by pat_completeness auto
termination
proof (relation "measure length")
  fix s assume "space_length s \<noteq> 0"
  then show "(drop (space_length s) s, s) \<in> measure length" using space_length_bound [of s] by simp
qed simp

declare lstrip.simps [simp del]

definition blank :: "string \<Rightarrow> bool" where
  "blank s \<longleftrightarrow> lstrip s = []"

lemma lstrip_no_space: "space_length (lstrip s) = 0"
  by (induction s rule: lstrip.induct) (subst lstrip.simps, auto)

lemma blank_Nil [simp]: "blank []"
  by (simp add: blank_def lstrip.simps [of "[]"] space_length_def)

lemma not_blank: "32 < (of_char c :: nat) \<Longrightarrow> (of_char c :: nat) < 128 \<Longrightarrow> \<not> blank (c # s)"
proof -
  assume c: "32 < (of_char c :: nat)" "(of_char c :: nat) < 128"
  then have "c \<noteq> CHR 0xC2" "c \<noteq> CHR 0xE1" "c \<noteq> CHR 0xE2" "c \<noteq> CHR 0xE3" by auto
  with c have "space_length (c # s) = 0" by (simp add: space_length_def Let_def split: list.split)
  then show ?thesis by (simp add: blank_def lstrip.simps [of "c # s"])
qed

section \<open>The lines of canonical texts\<close>

text \<open>Strings without NEL, LS and PS, and texts without any line break.\<close>

fun separator_free :: "string \<Rightarrow> bool" where
  "separator_free [] = True"
| "separator_free (c # s) = (separator (c # s) = 0 \<and> separator_free s)"

fun breaks_free :: "string \<Rightarrow> bool" where
  "breaks_free [] = True"
| "breaks_free (c # s) = (line_break (c # s) = 0 \<and> breaks_free s)"

text \<open>A predicate of every string of a value, the keys included.\<close>

fun json_texts :: "(string \<Rightarrow> bool) \<Rightarrow> json \<Rightarrow> bool" where
  "json_texts P (JStr s) = P s"
| "json_texts P (JArr xs) = list_all (json_texts P) xs"
| "json_texts P (JObj kvs) = list_all (\<lambda>kv. P (fst kv) \<and> json_texts P (snd kv)) kvs"
| "json_texts P j = True"

definition printable :: "char \<Rightarrow> bool" where
  "printable c \<longleftrightarrow> 32 \<le> (of_char c :: nat) \<and> (of_char c :: nat) < 128"

lemma separator_printable: "printable c \<Longrightarrow> separator (c # s) = 0"
  by (cases s) (auto simp: printable_def)

lemma line_break_ordinary: "32 \<le> (of_char c :: nat) \<Longrightarrow> line_break (c # s) = separator (c # s)"
proof -
  assume "32 \<le> (of_char c :: nat)"
  then have "c \<noteq> CHR 0x0D" "c \<noteq> CHR 0x0A" "c \<noteq> CHR 0x0B" "c \<noteq> CHR 0x0C" "c \<noteq> CHR 0x1C" "c \<noteq> CHR 0x1D" "c \<noteq> CHR 0x1E"
    by auto
  then show ?thesis by (simp add: line_break_def)
qed

lemma printable_bounds: "printable c \<Longrightarrow> 32 \<le> (of_char c :: nat) \<and> (of_char c :: nat) < 128"
  by (simp add: printable_def)

declare breaks_free.simps(2) [simp del]

lemma breaks_free_printable [simp]:
  assumes "printable c"
  shows "breaks_free (c # s) \<longleftrightarrow> breaks_free s"
  using line_break_ordinary [of c s] printable_bounds [OF assms] separator_printable [OF assms, of s]
  by (simp only: breaks_free.simps(2) simp_thms)

lemma breaks_free_plain: "list_all printable a \<Longrightarrow> breaks_free (a @ s) \<longleftrightarrow> breaks_free s"
  by (induction a) auto

lemma utf8_printable [simp]: "printable c \<Longrightarrow> utf8_ok (c # s) \<longleftrightarrow> utf8_ok s"
  using printable_bounds [of c] by (simp only: utf8_ok.simps(2) Let_def if_True)

lemma utf8_plain: "list_all printable a \<Longrightarrow> utf8_ok (a @ s) \<longleftrightarrow> utf8_ok s"
  by (induction a) auto

lemma named_escape_low: "named_escape e = Some c \<Longrightarrow> printable e \<and> (of_char c :: nat) < 128"
  by (simp add: named_escape_def printable_def split: if_splits) auto

lemma escape_high: "128 \<le> (of_char c :: nat) \<Longrightarrow> escape_char c = [c]"
  by (cases c rule: escape_char_cases) (use named_escape_low in fastforce)+

lemma escape_low: "(of_char c :: nat) < 128 \<Longrightarrow> list_all printable (escape_char c)"
proof (cases c rule: escape_char_cases)
  case named
  from named_escape_low [OF named(2)] show ?thesis by (simp add: named(1)) (simp add: printable_def)
next
  case control
  have "printable (hex_char d)" if "d < 16" for d using that by (auto simp: printable_def hex_char_def)
  moreover have "(of_char c :: nat) div 16 < 16" using control(1) by auto
  ultimately show ?thesis by (simp add: control(2) printable_def)
qed (simp add: printable_def)

lemma number_plain: "is_number_char c \<Longrightarrow> printable c"
  by (auto simp: is_number_char_def is_digit_def printable_def)

lemma show_int_printable: "list_all printable (show_int i)"
  using show_int_number [of i] number_plain by (auto simp: list_all_iff)

lemma float_plain: "float_text_ok fr \<Longrightarrow> list_all printable (fr m e)"
  using float_text_okD(1) [of fr m e] number_plain by (auto simp: list_all_iff)

section \<open>Where the strings of a text end\<close>

text \<open>What follows a high byte in an escaped string is what follows it in the string.\<close>

lemma escaped_hd:
  "separator (c # concat (map escape_char s) @ CHR 0x22 # r) = separator (c # s)"
proof (cases s)
  case (Cons d t)
  show ?thesis
  proof (cases "(of_char d :: nat) < 128")
    case True
    then obtain x u where "escape_char d = x # u" and x: "printable x" using escape_low [of d] by (cases "escape_char d") auto
    moreover have "x \<noteq> CHR 0x85" "x \<noteq> CHR 0x80" "d \<noteq> CHR 0x85" "d \<noteq> CHR 0x80" using True printable_bounds [OF x] by auto
    ultimately show ?thesis by (simp add: Cons)
  next
    case False
    then have d: "escape_char d = [d]" by (simp add: escape_high)
    show ?thesis
    proof (cases t)
      case (Cons e u)
      then show ?thesis
      proof (cases "(of_char e :: nat) < 128")
        case True
        then obtain x v where "escape_char e = x # v" and x: "printable x" using escape_low [of e] by (cases "escape_char e") auto
        moreover have "x \<noteq> CHR 0xA8" "x \<noteq> CHR 0xA9" "e \<noteq> CHR 0xA8" "e \<noteq> CHR 0xA9" using True printable_bounds [OF x] by auto
        ultimately show ?thesis by (simp add: \<open>s = d # t\<close> d Cons)
      qed (simp add: \<open>s = d # t\<close> d Cons escape_high)
    qed (simp add: \<open>s = d # t\<close> d)
  qed
qed simp

lemma printable_quote [simp]: "printable (CHR 0x22)" by (simp add: printable_def)

lemma breaks_free_escaped:
  "breaks_free (concat (map escape_char s) @ CHR 0x22 # r) \<longleftrightarrow> separator_free s \<and> breaks_free r"
proof (induction s)
  case (Cons c s)
  let ?rest = "concat (map escape_char s) @ CHR 0x22 # r"
  show ?case
  proof (cases "(of_char c :: nat) < 128")
    case True
    have "separator (c # s) = 0" using True by (cases s) auto
    then show ?thesis using Cons breaks_free_plain [OF escape_low [OF True], of ?rest] by simp
  next
    case False
    then have "line_break (c # ?rest) = separator (c # s)" using escaped_hd by (simp add: line_break_ordinary)
    then show ?thesis using Cons False by (simp add: escape_high breaks_free.simps(2))
  qed
qed simp

lemma breaks_free_string: "breaks_free (print_string s @ r) \<longleftrightarrow> separator_free s \<and> breaks_free r"
  unfolding parse_print_string using breaks_free_escaped by simp

lemma printable_marks [simp]:
  "printable (CHR ''['')" "printable (CHR '']'')" "printable (CHR ''{'')" "printable (CHR ''}'')"
  "printable (CHR '','')" "printable (CHR '':'')"
  by (simp_all add: printable_def)

lemma literals_plain: "list_all printable ''null''" "list_all printable ''true''" "list_all printable ''false''"
  by (simp_all add: printable_def)

text \<open>
  A property of texts that looks through printable characters and asks something of each string
  asks it of every string of a printed value.
\<close>

locale text_property =
  fixes Q :: "string \<Rightarrow> bool" and P :: "string \<Rightarrow> bool"
  assumes plain: "printable c \<Longrightarrow> c \<noteq> CHR 0x22 \<Longrightarrow> Q (c # s) \<longleftrightarrow> Q s"
    and quoted: "Q (print_string t @ s) \<longleftrightarrow> P t \<and> Q s"
begin

lemma plain_text: "list_all (\<lambda>c. printable c \<and> c \<noteq> CHR 0x22) a \<Longrightarrow> Q (a @ s) \<longleftrightarrow> Q s"
  by (induction a) (simp_all add: plain)

lemma number_text: "list_all is_number_char a \<Longrightarrow> Q (a @ s) \<longleftrightarrow> Q s"
proof (rule plain_text)
  assume "list_all is_number_char a"
  moreover have "\<not> is_number_char (CHR 0x22)" by (simp add: is_number_char_def is_digit_def)
  ultimately show "list_all (\<lambda>c. printable c \<and> c \<noteq> CHR 0x22) a"
    using number_plain by (auto simp: list_all_iff)
qed

lemma items_text:
  assumes "\<And>x s. x \<in> set xs \<Longrightarrow> Q (print_json fr x @ s) \<longleftrightarrow> json_texts P x \<and> Q s"
  shows "Q (print_items fr xs @ s) \<longleftrightarrow> list_all (json_texts P) xs \<and> Q s"
  using assms by (induction xs) (simp_all add: plain)

lemma members_text:
  assumes "\<And>k x s. (k, x) \<in> set kvs \<Longrightarrow> Q (print_json fr x @ s) \<longleftrightarrow> json_texts P x \<and> Q s"
  shows "Q (print_members fr kvs @ s) \<longleftrightarrow> list_all (\<lambda>kv. P (fst kv) \<and> json_texts P (snd kv)) kvs \<and> Q s"
  using assms
proof (induction kvs arbitrary: s)
  case (Cons kv kvs)
  obtain k x where kv: "kv = (k, x)" by (cases kv)
  have "Q (print_members fr kvs @ s) \<longleftrightarrow> list_all (\<lambda>kv. P (fst kv) \<and> json_texts P (snd kv)) kvs \<and> Q s" for s
    by (rule Cons.IH) (use Cons.prems in force)
  moreover have "Q (print_json fr x @ s) \<longleftrightarrow> json_texts P x \<and> Q s" for s
    by (rule Cons.prems [of k]) (simp add: kv)
  ultimately show ?case by (simp add: kv plain quoted)
qed (simp add: plain)

lemma printed_text:
  assumes "float_text_ok fr"
  shows "Q (print_json fr v @ s) \<longleftrightarrow> json_texts P v \<and> Q s"
proof (induction v arbitrary: s)
  case JNull
  show ?case using plain_text [of "''null''" s] by (simp add: printable_def)
next
  case (JBool b)
  show ?case using plain_text [of "''true''" s] plain_text [of "''false''" s] by (simp add: printable_def)
next
  case (JInt i)
  show ?case using number_text [OF show_int_number] by simp
next
  case (JFloat m e)
  show ?case using number_text [OF float_text_okD(1) [OF assms]] by simp
next
  case (JStr t)
  show ?case by (simp add: quoted)
next
  case (JArr xs)
  then show ?case using items_text [of "tl xs"] by (cases xs) (simp_all add: plain)
next
  case (JObj kvs)
  have kvs: "Q (print_json fr x @ s) \<longleftrightarrow> json_texts P x \<and> Q s" if "(k, x) \<in> set kvs" for k x s
    by (rule JObj [OF that]) simp
  show ?case
  proof (cases kvs)
    case (Cons kv rest)
    obtain k x where kv: "kv = (k, x)" by (cases kv)
    have "Q (print_members fr rest @ s) \<longleftrightarrow> list_all (\<lambda>kv. P (fst kv) \<and> json_texts P (snd kv)) rest \<and> Q s" for s
      by (rule members_text) (use kvs Cons in force)
    moreover have "Q (print_json fr x @ s) \<longleftrightarrow> json_texts P x \<and> Q s" for s
      by (rule kvs [of k]) (simp add: Cons kv)
    ultimately show ?thesis by (simp add: Cons kv plain quoted)
  qed (simp add: plain)
qed

lemma canonical_text:
  assumes "float_text_ok fr"
  shows "Q (canonical_json fr v @ s) \<longleftrightarrow> json_texts P (sort_json v) \<and> Q s"
  unfolding canonical_json_def by (rule printed_text [OF assms])

end

lemma sorted_texts: "json_texts P (sort_json v) \<longleftrightarrow> json_texts P v"
proof (induction v rule: sort_json.induct)
  case (2 kvs)
  then show ?case by (auto simp: list_all_iff split_beta)
qed (auto simp: list_all_iff)

interpretation one_line: text_property breaks_free separator_free
  by unfold_locales (simp_all add: breaks_free_string)

text \<open>The next byte of a character is read from the escaped string as from the string itself.\<close>

lemma escaped_continuation:
  fixes t r
  defines "e \<equiv> \<lambda>s. concat (map escape_char s) @ CHR 0x22 # r"
  obtains (stop) x w where "e t = x # w" "\<not> continuation x" "\<And>a u. t = a # u \<Longrightarrow> \<not> continuation a"
  | (go) a u where "t = a # u" "continuation a" "e t = a # e u"
proof (cases t)
  case Nil
  then show thesis by (intro stop [of "CHR 0x22" r]) (simp_all add: e_def continuation_def)
next
  case (Cons a u)
  show thesis
  proof (cases "(of_char a :: nat) < 128")
    case True
    then obtain x w where x: "escape_char a = x # w" "printable x" using escape_low [of a] by (cases "escape_char a") auto
    with True show thesis
      using printable_bounds [OF x(2)] by (intro stop [of x "w @ e u"]) (simp_all add: Cons e_def continuation_def)
  next
    case False
    then have "escape_char a = [a]" by (simp add: escape_high)
    then show thesis using stop [of a "e u"] go [of a u] by (cases "continuation a") (simp_all add: Cons e_def)
  qed
qed

lemma utf8_escaped: "utf8_ok (concat (map escape_char s) @ CHR 0x22 # r) \<longleftrightarrow> utf8_ok s \<and> utf8_ok r"
proof (induction s rule: length_induct)
  case (1 s)
  define e where "e s = concat (map escape_char s) @ CHR 0x22 # r" for s
  from 1 have IH: "utf8_ok (e t) \<longleftrightarrow> utf8_ok t \<and> utf8_ok r" if "length t < length s" for t
    using that by (simp add: e_def)
  note next_byte = escaped_continuation [where r = r, folded e_def]
  have "utf8_ok (e s) \<longleftrightarrow> utf8_ok s \<and> utf8_ok r"
  proof (cases s)
    case Nil
    then show ?thesis by (simp add: e_def)
  next
    case (Cons c t)
    have step: "utf8_ok (e u) \<longleftrightarrow> utf8_ok u \<and> utf8_ok r" if "length u \<le> length t" for u
      using IH [of u] that by (simp add: Cons)
    show ?thesis
    proof (cases "(of_char c :: nat) < 128")
      case True
      have "utf8_ok (c # t) \<longleftrightarrow> utf8_ok t" by (simp only: utf8_ok.simps(2) Let_def True if_True)
      moreover have "utf8_ok (e s) \<longleftrightarrow> utf8_ok (e t)"
        using utf8_plain [OF escape_low [OF True], of "e t"] by (simp add: e_def Cons)
      ultimately show ?thesis using step [of t] Cons by simp
    next
      case False
      then have es: "e s = c # e t" by (simp add: e_def Cons escape_high)
      have ec: "utf8_ok (e s) = utf8_ok (c # e t)" by (simp add: es)
      show ?thesis
      proof (rule next_byte [where t = t])
        fix x w assume "e t = x # w" "\<not> continuation x" and t: "\<And>a u. t = a # u \<Longrightarrow> \<not> continuation a"
        then show ?thesis unfolding ec unfolding Cons utf8_ok.simps(2) using False
          by (cases t) (simp_all add: Let_def split: list.split)
      next
        fix a u assume a: "t = a # u" "continuation a" "e t = a # e u"
        note u = step [of u, unfolded a(1), simplified]
        show ?thesis
        proof (rule next_byte [where t = u])
          fix x w assume "e u = x # w" "\<not> continuation x" and t: "\<And>a v. u = a # v \<Longrightarrow> \<not> continuation a"
          then show ?thesis unfolding ec unfolding Cons utf8_ok.simps(2) using False a u
            by (cases u) (simp_all add: Let_def split: list.split)
        next
          fix b v assume b: "u = b # v" "continuation b" "e u = b # e v"
          note v = step [of v, unfolded a(1) b(1), simplified]
          show ?thesis
          proof (rule next_byte [where t = v])
            fix x w assume "e v = x # w" "\<not> continuation x" and t: "\<And>a w. v = a # w \<Longrightarrow> \<not> continuation a"
            then show ?thesis unfolding ec unfolding Cons utf8_ok.simps(2) using False a b u v
              by (cases v) (simp_all add: Let_def)
          next
            fix d w assume d: "v = d # w" "continuation d" "e v = d # e w"
            show ?thesis unfolding ec unfolding Cons utf8_ok.simps(2)
              using False a b d u v step [of w] by (simp add: Let_def)
          qed
        qed
      qed
    qed
  qed
  then show ?case by (simp add: e_def)
qed

lemma utf8_string: "utf8_ok (print_string s @ r) \<longleftrightarrow> utf8_ok s \<and> utf8_ok r"
  unfolding parse_print_string using utf8_escaped by simp

interpretation decodable: text_property utf8_ok utf8_ok
  by unfold_locales (simp_all add: utf8_string)

section \<open>Reading lines back\<close>

lemma split_lines_Cons:
  "line_break (c # s) = 0 \<Longrightarrow> split_lines l (c # s) = split_lines (l @ [c]) s"
  "line_break (c # s) \<noteq> 0 \<Longrightarrow> split_lines l (c # s) = l # splitlines (drop (line_break (c # s)) (c # s))"
  by (simp_all add: split_lines.simps(2) splitlines_def)

text \<open>A line end after a text does not make a break inside of it.\<close>

lemma line_break_line_end: "line_break (c # s) = 0 \<Longrightarrow> line_break (c # s @ CHR 0x0A # r) = 0"
proof -
  assume s: "line_break (c # s) = 0"
  then have "c \<noteq> CHR 0x0D" by (auto simp: line_break_def split: list.splits if_splits)
  moreover from s this have c: "c \<notin> {CHR 0x0A, CHR 0x0B, CHR 0x0C, CHR 0x1C, CHR 0x1D, CHR 0x1E}" "separator (c # s) = 0"
    by (simp_all add: line_break_def split: if_splits)
  have "separator (c # s @ CHR 0x0A # r) = 0"
  proof (cases s)
    case (Cons d t)
    with c(2) show ?thesis by (cases t) (simp_all split: if_splits)
  qed simp
  ultimately show ?thesis using c(1) by (simp add: line_break_def)
qed

lemma split_one_line: "breaks_free s \<Longrightarrow> split_lines l (s @ CHR 0x0A # r) = (l @ s) # splitlines r"
proof (induction s arbitrary: l)
  case Nil
  then show ?case by (simp add: split_lines_Cons line_break_def)
next
  case (Cons c s)
  then have "line_break (c # s) = 0" "breaks_free s" by (simp_all add: breaks_free.simps(2))
  with Cons.IH line_break_line_end [of c s r] show ?case by (simp add: split_lines_Cons)
qed

lemma splitlines_joined:
  "list_all breaks_free ls \<Longrightarrow> splitlines (concat (map (\<lambda>l. l @ [CHR 0x0A]) ls) @ r) = ls @ splitlines r"
proof (induction ls)
  case (Cons l ls)
  then show ?case using split_one_line [of l "[]"] by (simp add: splitlines_def)
qed simp

lemma splitlines_Nil [simp]: "splitlines [] = []" by (simp add: splitlines_def)

text \<open>A text with a break is split where its first one is.\<close>

lemma line_break_found: "line_break (c # s) \<noteq> 0 \<Longrightarrow> line_break (c # s @ r) \<noteq> 0"
proof -
  assume s: "line_break (c # s) \<noteq> 0"
  show ?thesis
  proof (cases "c \<in> {CHR 0x0D, CHR 0x0A, CHR 0x0B, CHR 0x0C, CHR 0x1C, CHR 0x1D, CHR 0x1E}")
    case True
    then show ?thesis by (auto simp: line_break_def split: list.split)
  next
    case False
    then have "separator (c # s) \<noteq> 0" using s by (simp add: line_break_def)
    then obtain d t where "s = d # t" by (cases s) auto
    with \<open>separator (c # s) \<noteq> 0\<close> have "separator (c # s @ r) \<noteq> 0" by (cases t) (auto split: if_splits)
    with False show ?thesis by (simp add: line_break_def)
  qed
qed

lemma split_at_break:
  assumes "\<not> breaks_free s"
  shows "\<exists>p x q. s = p @ x # q \<and> line_break (x # q) \<noteq> 0
    \<and> (\<forall>l. \<exists>rest. split_lines l (s @ CHR 0x0A # r) = (l @ p) # rest)"
  using assms
proof (induction s)
  case (Cons c s)
  show ?case
  proof (cases "line_break (c # s) = 0")
    case False
    then have "split_lines l (c # s @ CHR 0x0A # r) = l # splitlines (drop (line_break (c # s @ CHR 0x0A # r)) (c # s @ CHR 0x0A # r))" for l
      by (intro split_lines_Cons line_break_found)
    with False show ?thesis by (intro exI [of _ "[]"] exI [of _ c] exI [of _ s]) simp
  next
    case True
    then have "\<not> breaks_free s" using Cons.prems by (simp add: breaks_free.simps(2))
    then obtain p x q where s: "s = p @ x # q" "line_break (x # q) \<noteq> 0"
      and rest: "\<And>l. \<exists>rest. split_lines l (s @ CHR 0x0A # r) = (l @ p) # rest" using Cons.IH by blast
    have "\<exists>rest. split_lines l ((c # s) @ CHR 0x0A # r) = (l @ c # p) # rest" for l
      using rest [of "l @ [c]"] line_break_line_end [OF True] by (simp add: split_lines_Cons)
    with s show ?thesis by (intro exI [of _ "c # p"] exI [of _ x] exI [of _ q]) simp
  qed
qed simp

section \<open>Inside strings\<close>

text \<open>A scan of a JSON text that knows strings only.\<close>

datatype scan_state = Outside | Within | Escaped

fun scan_char :: "scan_state \<Rightarrow> char \<Rightarrow> scan_state" where
  "scan_char Outside c = (if c = CHR 0x22 then Within else Outside)"
| "scan_char Within c = (if c = CHR 0x22 then Outside else if c = CHR 0x5C then Escaped else Within)"
| "scan_char Escaped c = Within"

definition scan :: "scan_state \<Rightarrow> string \<Rightarrow> scan_state" where
  "scan = foldl scan_char"

lemma scan_simps [simp]:
  "scan q [] = q" "scan q (c # s) = scan (scan_char q c) s" "scan q (s @ t) = scan (scan q s) t"
  by (simp_all add: scan_def)

lemma scan_outside: "CHR 0x22 \<notin> set a \<Longrightarrow> scan Outside a = Outside"
  by (induction a) auto

lemma scan_prefix:
  assumes "take (length a) s = a" and "CHR 0x22 \<notin> set a"
  shows "scan Outside (drop (length a) s) = scan Outside s"
  using scan_simps(3) [of Outside a "drop (length a) s"] scan_outside [OF assms(2)] assms(1)
  by (metis append_take_drop_id)

lemma scan_skip: "scan Outside (skip_ws s) = scan Outside s"
  by (induction s) (auto simp: skip_ws_def is_space_def)

lemma hex_digit_mark: "hex_digit x = Some n \<Longrightarrow> x \<noteq> CHR 0x22 \<and> x \<noteq> CHR 0x5C"
  by (auto simp: hex_digit_def)

lemma scan_hex_quad: "hex_quad a b c d = Some m \<Longrightarrow> scan Within (a # b # c # d # s) = scan Within s"
  by (simp add: hex_quad_def hex_digit_mark split: option.splits)

lemma scan_surrogate: "scan Within (snd (surrogate_pair n s)) = scan Within s"
proof (induction n s rule: surrogate_pair.induct)
  case (1 n q u a b c d s)
  show ?case
  proof (cases "55296 \<le> n \<and> n < 56320 \<and> q = CHR 0x5C \<and> u = CHR ''u''")
    case True
    then show ?thesis
    proof (cases "hex_quad a b c d")
      case (Some m)
      have "scan Within (q # u # a # b # c # d # s) = scan Within (a # b # c # d # s)" using True by simp
      also have "\<dots> = scan Within s" by (rule scan_hex_quad [OF Some])
      finally show ?thesis using True Some by simp
    qed simp
  qed auto
qed simp_all

lemma scan_string: "parse_string s = Some (x, r) \<Longrightarrow> scan Within s = scan Outside r"
proof (induction s arbitrary: x r rule: parse_string.induct)
  case (2 c s)
  consider (stop) "c = CHR 0x22" | (escape) "c = CHR 0x5C" | (char) "c \<noteq> CHR 0x22" "c \<noteq> CHR 0x5C" by blast
  then show ?case
  proof cases
    case stop
    with 2(4) show ?thesis by (simp add: parse_string.simps(2))
  next
    case escape
    with 2(4) obtain e t where s: "s = e # t" by (cases s) (auto simp: parse_string.simps(2))
    show ?thesis
    proof (cases "e = CHR ''u''")
      case True
      with 2(4) escape s obtain a b c' d t' n y where t: "t = a # b # c' # d # t'" and n: "hex_quad a b c' d = Some n"
        and y: "parse_string (snd (surrogate_pair n t')) = Some (y, r)"
        by (auto simp: parse_string.simps(2) split: list.splits option.splits)
      have "scan Within (snd (surrogate_pair n t')) = scan Outside r"
        by (rule 2(1) [OF _ escape s True t refl refl refl n y]) (use escape in simp)
      then show ?thesis using scan_hex_quad [OF n, of t'] by (simp add: escape s True t scan_surrogate)
    next
      case False
      with 2(4) escape s obtain z y where z: "named_escape e = Some z" and y: "parse_string t = Some (y, r)"
        by (auto simp: parse_string.simps(2) split: option.splits)
      have "scan Within t = scan Outside r"
        by (rule 2(2) [OF _ escape s False z y]) (use escape in simp)
      then show ?thesis by (simp add: escape s)
    qed
  next
    case char
    with 2(4) obtain y where "\<not> (of_char c :: nat) < 32" "parse_string s = Some (y, r)"
      by (auto simp: parse_string.simps(2) split: if_splits)
    with 2(3) char show ?thesis by simp
  qed
qed (simp add: parse_string.simps(1))

lemma digits_prefix: "take (length (digits s)) s = digits s" "CHR 0x22 \<notin> set (digits s)"
proof -
  show "take (length (digits s)) s = digits s" unfolding digits_def by (rule takeWhile_eq_take [symmetric])
  show "CHR 0x22 \<notin> set (digits s)" by (auto simp: digits_def is_digit_def dest: set_takeWhileD)
qed

lemma fraction_prefix: "take (length (fraction_text s)) s = fraction_text s" "CHR 0x22 \<notin> set (fraction_text s)"
  using digits_prefix by (simp_all add: fraction_text_def split: list.split)

lemma exponent_prefix: "take (length (exponent_text s)) s = exponent_text s \<and> CHR 0x22 \<notin> set (exponent_text s)"
proof (cases s)
  case (Cons c t)
  show ?thesis
  proof (cases "c = CHR ''e'' \<or> c = CHR ''E''")
    case True
    then have c: "c \<noteq> CHR 0x22" by auto
    show ?thesis
    proof (cases "digits t = []")
      case no_digits: True
      show ?thesis
      proof (cases t)
        case (Cons d u)
        show ?thesis
        proof (cases "(d = CHR ''+'' \<or> d = CHR ''-'') \<and> digits u \<noteq> []")
          case signed: True
          then have "exponent_text s = c # d # digits u" "d \<noteq> CHR 0x22"
            using True no_digits by (auto simp: exponent_text_def \<open>s = c # t\<close> Cons)
          then show ?thesis using digits_prefix [of u] c by (simp add: \<open>s = c # t\<close> Cons)
        next
          case False
          then have "exponent_text s = []"
            using no_digits by (simp only: exponent_text_def \<open>s = c # t\<close> Cons list.case if_False if_cancel simp_thms if_True)
          then show ?thesis by simp
        qed
      qed (simp add: exponent_text_def Cons digits_def)
    next
      case False
      then have "exponent_text s = c # digits t" using True by (simp only: exponent_text_def Cons list.case if_True simp_thms)
      then show ?thesis using digits_prefix [of t] c by (simp add: Cons)
    qed
  next
    case False
    then have "exponent_text s = []" by (simp only: exponent_text_def Cons list.case if_False)
    then show ?thesis by simp
  qed
qed (simp add: exponent_text_def)

lemma scan_number: "parse_number rd s = Some (v, r) \<Longrightarrow> scan Outside s = scan Outside r"
proof -
  assume number: "parse_number rd s = Some (v, r)"
  define sign where "sign = (case s of c # _ \<Rightarrow> if c = CHR ''-'' then [c] else [] | [] \<Rightarrow> [])"
  define s1 where "s1 = drop (length sign) s"
  define whole where "whole = (case s1 of c # _ \<Rightarrow> if c = CHR ''0'' then [c] else digits s1 | [] \<Rightarrow> [])"
  define s2 where "s2 = drop (length whole) s1"
  define s3 where "s3 = drop (length (fraction_text s2)) s2"
  have r: "r = drop (length (exponent_text s3)) s3"
    using number unfolding parse_number_def Let_def sign_def [symmetric] s1_def [symmetric] whole_def [symmetric]
      s2_def [symmetric] s3_def [symmetric]
    by (auto split: if_splits)
  have "take (length sign) s = sign" "CHR 0x22 \<notin> set sign" by (simp_all add: sign_def split: list.split)
  then have "scan Outside s1 = scan Outside s" unfolding s1_def by (rule scan_prefix)
  moreover have "take (length whole) s1 = whole" "CHR 0x22 \<notin> set whole"
    using digits_prefix [of s1] by (cases s1; simp add: whole_def)+
  then have "scan Outside s2 = scan Outside s1" unfolding s2_def by (rule scan_prefix)
  moreover have "scan Outside s3 = scan Outside s2" unfolding s3_def by (rule scan_prefix [OF fraction_prefix])
  moreover have "scan Outside r = scan Outside s3" unfolding r by (rule scan_prefix) (use exponent_prefix in auto)
  ultimately show ?thesis by simp
qed

lemma scan_literal: "literal t v s = Some (w, r) \<Longrightarrow> CHR 0x22 \<notin> set t \<Longrightarrow> scan Outside s = scan Outside r"
  using scan_prefix [of t s] by (auto simp: literal_def split: if_splits)

lemma scan_value:
  "parse_value rd n s = Some (v, r) \<Longrightarrow> scan Outside s = scan Outside r"
  "parse_items rd n s = Some (vs, r) \<Longrightarrow> scan Outside s = scan Outside r"
  "parse_members rd n s = Some (kvs, r) \<Longrightarrow> scan Outside s = scan Outside r"
proof (induction rd n s and rd n s and rd n s arbitrary: v r and vs r and kvs r rule: parse_value_parse_items_parse_members.induct)
  case (2 rd n s)
  obtain c t where s: "s = c # t" using 2(3) by (cases s) (auto simp: parse_value.simps)
  consider (str) "c = CHR 0x22" | (arr) "c = CHR ''[''" | (obj) "c = CHR ''{''" | (null) "c = CHR ''n''" | (true) "c = CHR ''t''"
    | (false) "c = CHR ''f''" | (number) "c \<noteq> CHR 0x22" "c \<noteq> CHR ''[''" "c \<noteq> CHR ''{''" "c \<noteq> CHR ''n''" "c \<noteq> CHR ''t''" "c \<noteq> CHR ''f''"
    by blast
  then show ?case
  proof cases
    case str
    with 2(3) s show ?thesis by (auto simp: value_step dest: scan_string)
  next
    case arr
    with 2(3) s obtain d u where u: "skip_ws t = d # u" by (cases "skip_ws t") (auto simp: value_step)
    have "scan Outside (d # u) = scan Outside r"
    proof (cases "d = CHR '']''")
      case False
      with 2(3) s arr u obtain xs where "parse_items rd n (d # u) = Some (xs, r)" by (auto simp: value_step)
      then show ?thesis using 2(1) [OF s _ arr u False] arr by simp
    qed (use 2(3) s arr u in \<open>simp add: value_step\<close>)
    then show ?thesis using scan_skip [of t] by (simp add: s arr u)
  next
    case obj
    with 2(3) s obtain d u where u: "skip_ws t = d # u" by (cases "skip_ws t") (auto simp: value_step)
    have "scan Outside (d # u) = scan Outside r"
    proof (cases "d = CHR ''}''")
      case False
      with 2(3) s obj u obtain xs where "parse_members rd n (d # u) = Some (xs, r)" by (auto simp: value_step)
      then show ?thesis using 2(2) [OF s _ _ obj u False] obj by simp
    qed (use 2(3) s obj u in \<open>simp add: value_step\<close>)
    then show ?thesis using scan_skip [of t] by (simp add: s obj u)
  next
    case number
    with 2(3) s show ?thesis using scan_number [of rd s v r] by (simp add: value_step)
  next
    case null
    with 2(3) s have "literal ''null'' JNull s = Some (v, r)" by (simp add: value_step)
    then show ?thesis by (rule scan_literal) simp
  next
    case true
    with 2(3) s have "literal ''true'' (JBool True) s = Some (v, r)" by (simp add: value_step)
    then show ?thesis by (rule scan_literal) simp
  next
    case false
    with 2(3) s have "literal ''false'' (JBool False) s = Some (v, r)" by (simp add: value_step)
    then show ?thesis by (rule scan_literal) simp
  qed
next
  case (4 rd n s)
  then obtain x q c t where x: "parse_value rd n s = Some (x, q)" and q: "skip_ws q = c # t"
    by (auto simp: parse_items.simps split: option.splits list.splits)
  have "scan Outside (c # t) = scan Outside r"
  proof (cases "c = CHR '']''")
    case False
    with 4(3) x q obtain ys where "c = CHR '',''" "parse_items rd n (skip_ws t) = Some (ys, r)"
      by (auto simp: parse_items.simps split: if_splits)
    then show ?thesis using 4(2) [OF x refl q False] scan_skip [of t] by simp
  qed (use 4(3) x q in \<open>simp add: parse_items.simps\<close>)
  then show ?case using 4(1) [OF x] scan_skip [of q] by (simp add: q)
next
  case (6 rd n s)
  then obtain s1 where s: "s = CHR 0x22 # s1" by (auto simp: parse_members.simps split: list.splits if_splits)
  with 6(3) obtain k s2 where k: "parse_string s1 = Some (k, s2)" by (auto simp: parse_members.simps split: option.splits)
  with 6(3) s obtain s3 where s3: "skip_ws s2 = CHR '':'' # s3" by (auto simp: parse_members.simps split: list.splits if_splits)
  with 6(3) s k obtain w s4 where w: "parse_value rd n (skip_ws s3) = Some (w, s4)" by (auto simp: parse_members.simps split: option.splits)
  with 6(3) s k s3 obtain e t where e: "skip_ws s4 = e # t" by (auto simp: parse_members.simps split: list.splits)
  have "scan Outside (e # t) = scan Outside r"
  proof (cases "e = CHR ''}''")
    case False
    with 6(3) s k s3 w e obtain ys where "e = CHR '',''" "parse_members rd n (skip_ws t) = Some (ys, r)"
      by (auto simp: parse_members.simps split: if_splits)
    then show ?thesis using 6(2) [OF s _ k refl s3 _ w refl e False] scan_skip [of t] by simp
  qed (use 6(3) s k s3 w e in \<open>simp add: parse_members.simps\<close>)
  moreover have "scan Outside (skip_ws s3) = scan Outside s4" using 6(1) [OF s _ k refl s3 _ w] by simp
  ultimately show ?case
    using scan_string [OF k] scan_skip [of s2] scan_skip [of s3] scan_skip [of s4] by (simp add: s s3 e)
qed (simp_all only: parse_value.simps(1) parse_items.simps(1) parse_members.simps(1) option.distinct)

text \<open>A text that is JSON does not end inside a string.\<close>

lemma loads_outside:
  assumes "json_loads rd s = Some v"
  shows "scan Outside s = Outside"
proof -
  from assms obtain r where r: "parse_value rd (Suc (2 * length s)) (skip_ws s) = Some (v, r)" "skip_ws r = []"
    by (auto simp: json_loads_def split: option.splits if_splits)
  from scan_value(1) [OF r(1)] scan_skip [of s] scan_skip [of r] r(2) show ?thesis by simp
qed

text \<open>In a printed text every byte is at least a space, and other than ASCII inside strings only.\<close>

fun high_inside :: "scan_state \<Rightarrow> string \<Rightarrow> bool" where
  "high_inside q [] = True"
| "high_inside q (c # s) = (32 \<le> (of_char c :: nat) \<and> (128 \<le> (of_char c :: nat) \<longrightarrow> q = Within)
     \<and> high_inside (scan_char q c) s)"

declare high_inside.simps(2) [simp del]

lemma high_inside_printable:
  assumes "printable c"
  shows "high_inside q (c # s) \<longleftrightarrow> high_inside (scan_char q c) s"
proof -
  have "32 \<le> (of_char c :: nat)" "\<not> 128 \<le> (of_char c :: nat)" using printable_bounds [OF assms] by simp_all
  then show ?thesis by (simp only: high_inside.simps(2) simp_thms)
qed

lemma hex_char_plain: "d < 16 \<Longrightarrow> printable (hex_char d) \<and> hex_char d \<noteq> CHR 0x22 \<and> hex_char d \<noteq> CHR 0x5C"
proof -
  assume d: "d < 16"
  then have "hex_char d \<noteq> CHR 0x22 \<and> hex_char d \<noteq> CHR 0x5C"
    using hex_digit_hex_char [OF d] hex_digit_mark [of "hex_char d" d] by blast
  with d show ?thesis by (auto simp: printable_def hex_char_def)
qed

lemma high_inside_escaped: "high_inside Within (escape_char c @ s) \<longleftrightarrow> high_inside Within s"
proof (cases c rule: escape_char_cases)
  case plain
  then show ?thesis by (simp add: high_inside.simps(2))
next
  case (named e)
  have "printable (CHR 0x5C)" by (simp add: printable_def)
  with named named_escape_low [OF named(2)] show ?thesis by (simp add: high_inside_printable)
next
  case control
  let ?a = "hex_char (of_char c div 16)" and ?b = "hex_char (of_char c mod 16)"
  have a: "printable ?a \<and> ?a \<noteq> CHR 0x22 \<and> ?a \<noteq> CHR 0x5C" by (rule hex_char_plain) (use control(1) in auto)
  have b: "printable ?b \<and> ?b \<noteq> CHR 0x22 \<and> ?b \<noteq> CHR 0x5C" by (rule hex_char_plain) simp
  have "printable (CHR 0x5C)" "printable (CHR ''u'')" "printable (CHR ''0'')" by (simp_all add: printable_def)
  with a b show ?thesis by (simp add: control(2) high_inside_printable)
qed

lemma high_inside_string: "high_inside Outside (print_string t @ s) \<longleftrightarrow> high_inside Outside s"
proof -
  have "high_inside Within (concat (map escape_char t) @ CHR 0x22 # s) \<longleftrightarrow> high_inside Outside s"
    by (induction t) (simp_all add: high_inside_printable high_inside_escaped)
  then show ?thesis unfolding parse_print_string by (simp add: high_inside_printable)
qed

interpretation quoted_high: text_property "high_inside Outside" "\<lambda>_. True"
  by unfold_locales (simp_all add: high_inside_string high_inside_printable)

lemma json_texts_True: "json_texts (\<lambda>_. True) v"
  by (induction v) (auto simp: list_all_iff)

lemma canonical_high_inside: "float_text_ok fr \<Longrightarrow> high_inside Outside (canonical_json fr v)"
  using quoted_high.canonical_text [of fr v "[]"] by (simp add: json_texts_True)

lemma high_inside_at:
  "high_inside q (p @ c # s) \<Longrightarrow> 32 \<le> (of_char c :: nat) \<and> (128 \<le> (of_char c :: nat) \<longrightarrow> scan q p = Within)"
  by (induction p arbitrary: q) (auto simp: high_inside.simps(2))

lemma canonical_one_line:
  assumes "float_text_ok fr"
  shows "breaks_free (canonical_json fr v) \<longleftrightarrow> json_texts separator_free v"
  using one_line.canonical_text [OF assms, of v "[]"] by (simp add: sorted_texts)

lemma canonical_decodable:
  assumes "float_text_ok fr"
  shows "utf8_ok (canonical_json fr v @ s) \<longleftrightarrow> json_texts utf8_ok v \<and> utf8_ok s"
  using decodable.canonical_text [OF assms, of v s] by (simp add: sorted_texts)

lemma canonical_object: "\<exists>s. canonical_json fr (JObj kvs) = CHR ''{'' # s"
  by (cases "sort_key fst (map (\<lambda>(k, v). (k, sort_json v)) kvs)") (auto simp: canonical_json_def)

text \<open>
  An object with a separator in one of its strings is not read back as one line: its first line ends
  inside the string and is not JSON.
\<close>

lemma separator_splits:
  assumes fr: "float_text_ok fr" and v: "\<not> json_texts separator_free (JObj kvs)"
  obtains p rest where "splitlines (canonical_json fr (JObj kvs) @ CHR 0x0A # r) = p # rest"
    "json_loads rd p = None" "\<not> blank p"
proof -
  let ?t = "canonical_json fr (JObj kvs)"
  have "\<not> breaks_free ?t" using v canonical_one_line [OF fr] by simp
  from split_at_break [OF this] obtain p x q where t: "?t = p @ x # q" and x: "line_break (x # q) \<noteq> 0"
    and rest: "\<forall>l. \<exists>rest. split_lines l (?t @ CHR 0x0A # r) = (l @ p) # rest" by blast
  have at: "32 \<le> (of_char x :: nat)" "128 \<le> (of_char x :: nat) \<longrightarrow> scan Outside p = Within"
    using high_inside_at [of Outside p x q] canonical_high_inside [OF fr, of "JObj kvs"] unfolding t by auto
  have "separator (x # q) \<noteq> 0" using x line_break_ordinary [OF at(1)] by simp
  then have "\<not> printable x" using separator_printable [of x q] by auto
  then have inside: "scan Outside p = Within" using at by (simp add: printable_def)
  then have none: "json_loads rd p = None" using loads_outside [of rd p] by (cases "json_loads rd p") auto
  obtain s where "?t = CHR ''{'' # s" using canonical_object by blast
  moreover have "p \<noteq> []" using inside by auto
  ultimately obtain s' where "p = CHR ''{'' # s'" using t by (cases p) auto
  then have "\<not> blank p" by (simp add: not_blank)
  moreover obtain more where "split_lines [] (?t @ CHR 0x0A # r) = p # more" using rest [rule_format, of "[]"] by auto
  ultimately show thesis using none that by (simp add: splitlines_def)
qed

end
