(* ===== verification/Text_Ops.thy ===== *)
theory Text_Ops
  imports Text_Lines
begin

text \<open>
  More of Python's string operations: \<open>strip\<close>, \<open>lower\<close>, \<open>upper\<close>, \<open>split\<close>, \<open>partition\<close>-like
  splits and \<open>int\<close> of a text. Header values are Latin-1 and configuration values practically ASCII:
  letters are folded in these, and digits of other scripts are not numbers here.
\<close>

section \<open>Stripping and folding\<close>

fun rstrip :: "string \<Rightarrow> string" where
  "rstrip [] = []"
| "rstrip (c # s) = (if blank (c # s) then [] else c # rstrip s)"

definition strip :: "string \<Rightarrow> string" where
  "strip s = rstrip (lstrip s)"

definition ascii_upper :: "char \<Rightarrow> bool" where
  "ascii_upper c \<longleftrightarrow> 65 \<le> (of_char c :: nat) \<and> (of_char c :: nat) \<le> 90"

definition ascii_lower :: "char \<Rightarrow> bool" where
  "ascii_lower c \<longleftrightarrow> 97 \<le> (of_char c :: nat) \<and> (of_char c :: nat) \<le> 122"

text \<open>\<open>str.lower\<close> on ASCII and Latin-1 letters.\<close>

fun py_lower :: "string \<Rightarrow> string" where
  "py_lower [] = []"
| "py_lower (c # s) =
     (if ascii_upper c then char_of ((of_char c :: nat) + 32) # py_lower s
      else if c = CHR 0xC3 then
        (case s of
           [] \<Rightarrow> [c]
         | d # t \<Rightarrow> c # (if 128 \<le> (of_char d :: nat) \<and> (of_char d :: nat) \<le> 158 \<and> d \<noteq> CHR 0x97
             then char_of ((of_char d :: nat) + 32) else d) # py_lower t)
      else c # py_lower s)"

text \<open>\<open>str.upper\<close> on ASCII letters.\<close>

definition py_upper :: "string \<Rightarrow> string" where
  "py_upper = map (\<lambda>c. if ascii_lower c then char_of ((of_char c :: nat) - 32) else c)"

definition rstrip_char :: "char \<Rightarrow> string \<Rightarrow> string" where
  "rstrip_char c s = rev (dropWhile (\<lambda>d. d = c) (rev s))"

section \<open>Splitting\<close>

text \<open>\<open>str.split(c)\<close>; the result is never empty.\<close>

fun split_char :: "char \<Rightarrow> string \<Rightarrow> string list" where
  "split_char c [] = [[]]"
| "split_char c (d # s) =
     (if d = c then [] # split_char c s
      else (case split_char c s of [] \<Rightarrow> [[d]] | w # ws \<Rightarrow> (d # w) # ws))"

definition starts_with :: "string \<Rightarrow> string \<Rightarrow> bool" where
  "starts_with prefix s \<longleftrightarrow> take (length prefix) s = prefix"

definition ends_with :: "string \<Rightarrow> string \<Rightarrow> bool" where
  "ends_with suffix s \<longleftrightarrow> length suffix \<le> length s \<and> drop (length s - length suffix) s = suffix"

text \<open>\<open>str.partition\<close> and \<open>str.rpartition\<close>: before, whether found, after.\<close>

fun partition_char :: "char \<Rightarrow> string \<Rightarrow> string \<times> bool \<times> string" where
  "partition_char c [] = ([], False, [])"
| "partition_char c (d # s) =
     (if d = c then ([], True, s) else (case partition_char c s of (a, found, b) \<Rightarrow> (d # a, found, b)))"

definition rpartition_char :: "char \<Rightarrow> string \<Rightarrow> string \<times> bool \<times> string" where
  "rpartition_char c s = (case partition_char c (rev s) of
     (b, found, a) \<Rightarrow> if found then (rev a, True, rev b) else ([], False, s))"

text \<open>\<open>sep.join(texts)\<close> and \<open>str.replace\<close> of one character.\<close>

fun join_with :: "string \<Rightarrow> string list \<Rightarrow> string" where
  "join_with sep [] = []"
| "join_with sep [s] = s"
| "join_with sep (s # t # ts) = s @ sep @ join_with sep (t # ts)"

definition replace_char :: "char \<Rightarrow> string \<Rightarrow> string \<Rightarrow> string" where
  "replace_char c by s = concat (map (\<lambda>d. if d = c then by else [d]) s)"

lemma replace_char_simps [simp]:
  "replace_char c t [] = []"
  "replace_char c t (d # s) = (if d = c then t else [d]) @ replace_char c t s"
  "replace_char c t (s @ u) = replace_char c t s @ replace_char c t u"
  by (simp_all add: replace_char_def)

section \<open>Numbers\<close>

text \<open>Digits, each pair possibly with an underscore between: what \<open>int\<close> takes after the sign.\<close>

fun underscored :: "string \<Rightarrow> string option" where
  "underscored [] = None"
| "underscored [c] = (if is_digit c then Some [c] else None)"
| "underscored (c # d # s) =
     (if \<not> is_digit c then None
      else if d = CHR ''_'' then map_option (Cons c) (underscored s)
      else map_option (Cons c) (underscored (d # s)))"

text \<open>\<open>str.isdigit\<close>; the superscript digits of Latin-1 count.\<close>

fun digits_only :: "string \<Rightarrow> bool" where
  "digits_only [] = True"
| "digits_only (c # s) =
     (if is_digit c then digits_only s
      else c = CHR 0xC2 \<and> (case s of [] \<Rightarrow> False | d # t \<Rightarrow> d \<in> {CHR 0xB2, CHR 0xB3, CHR 0xB9} \<and> digits_only t))"

definition is_digits :: "string \<Rightarrow> bool" where
  "is_digits s \<longleftrightarrow> s \<noteq> [] \<and> digits_only s"

text \<open>More than 4300 digits are refused.\<close>

definition digits_value :: "string \<Rightarrow> int option" where
  "digits_value s = (case underscored s of
     None \<Rightarrow> None
   | Some ds \<Rightarrow> if 4300 < length ds then None else Some (int (read_nat ds)))"

definition python_int :: "string \<Rightarrow> int option" where
  "python_int text = (case strip text of
     [] \<Rightarrow> None
   | c # s \<Rightarrow>
       if c = CHR ''-'' then map_option uminus (digits_value s)
       else if c = CHR ''+'' then digits_value s
       else digits_value (c # s))"

end
