(* ===== verification/Urls.thy ===== *)
theory Urls
  imports Text_Ops Errors
begin

text \<open>
  \<open>urllib.parse.urlsplit\<close> and the host, port and user of its result, which the code
  validates origins and webhook destinations with. What a URL is checked for beyond ASCII syntax, the
  address in brackets and the Unicode normalization of a host, are parameters.
\<close>

record url_library =
  ul_bracketed_ok :: "string \<Rightarrow> bool"
  ul_normalized_ok :: "string \<Rightarrow> bool"

record split_url =
  su_scheme :: string
  su_netloc :: string
  su_path :: string
  su_query :: string
  su_fragment :: string

definition is_ascii_alpha :: "char \<Rightarrow> bool" where
  "is_ascii_alpha c \<longleftrightarrow> ascii_upper c \<or> ascii_lower c"

definition scheme_char :: "char \<Rightarrow> bool" where
  "scheme_char c \<longleftrightarrow> is_ascii_alpha c \<or> is_digit c \<or> c \<in> {CHR ''+'', CHR ''-'', CHR ''.''}"

definition without_controls :: "string \<Rightarrow> string" where
  "without_controls s = filter (\<lambda>c. c \<notin> {CHR 0x09, CHR 0x0A, CHR 0x0D}) (dropWhile (\<lambda>c. (of_char c :: nat) \<le> 32) s)"

definition split_scheme :: "string \<Rightarrow> string \<times> string" where
  "split_scheme s = (case partition_char (CHR '':'') s of
     (scheme, found, rest) \<Rightarrow>
       if found \<and> scheme \<noteq> [] \<and> is_ascii_alpha (hd scheme) \<and> list_all scheme_char scheme
       then (py_lower scheme, rest) else ([], s))"

definition split_netloc :: "string \<Rightarrow> string \<times> string" where
  "split_netloc s =
     (if take 2 s = ''//'' then
        (let plain = (\<lambda>c. c \<noteq> CHR ''/'' \<and> c \<noteq> CHR ''?'' \<and> c \<noteq> CHR ''#'') in
         (takeWhile plain (drop 2 s), dropWhile plain (drop 2 s)))
      else ([], s))"

definition urlsplit :: "url_library \<Rightarrow> string \<Rightarrow> exn + split_url" where
  "urlsplit U url =
     (let (scheme, s) = split_scheme (without_controls url);
          (netloc, s) = split_netloc s;
          opens = CHR ''['' \<in> set netloc;
          closes = CHR '']'' \<in> set netloc;
          (s, _, fragment) = partition_char (CHR ''#'') s;
          (path, _, query) = partition_char (CHR ''?'') s
      in if opens \<noteq> closes then Inl (ValueError ''Invalid IPv6 URL'')
         else if opens \<and> \<not> ul_bracketed_ok U netloc then Inl (ValueError ''Invalid IPv6 URL'')
         else if \<not> list_all (\<lambda>c. (of_char c :: nat) < 128) netloc \<and> \<not> ul_normalized_ok U netloc
         then Inl (ValueError ''invalid characters under NFKC normalization'')
         else Inr \<lparr>su_scheme = scheme, su_netloc = netloc, su_path = path, su_query = query, su_fragment = fragment\<rparr>)"

definition url_userinfo :: "split_url \<Rightarrow> string option \<times> string option" where
  "url_userinfo u = (case rpartition_char (CHR ''@'') (su_netloc u) of
     (userinfo, found, _) \<Rightarrow>
       if found then
         (case partition_char (CHR '':'') userinfo of
            (username, have_password, password) \<Rightarrow> (Some username, if have_password then Some password else None))
       else (None, None))"

definition url_hostinfo :: "split_url \<Rightarrow> string \<times> string option" where
  "url_hostinfo u =
     (let hostinfo = snd (snd (rpartition_char (CHR ''@'') (su_netloc u)));
          (_, bracket, bracketed) = partition_char (CHR ''['') hostinfo;
          (hostname, port) =
            (if bracket then
               (let (h, _, rest) = partition_char (CHR '']'') bracketed in (h, snd (snd (partition_char (CHR '':'') rest))))
             else (let (h, _, p) = partition_char (CHR '':'') hostinfo in (h, p)))
      in (hostname, if port = [] then None else Some port))"

text \<open>The zone of a scoped address keeps its case.\<close>

definition url_hostname :: "split_url \<Rightarrow> string option" where
  "url_hostname u =
     (let hostname = fst (url_hostinfo u) in
      if hostname = [] then None
      else (case partition_char (CHR ''%'') hostname of
        (h, percent, zone) \<Rightarrow> Some (py_lower h @ (if percent then CHR ''%'' # zone else []))))"

definition url_port :: "split_url \<Rightarrow> exn + int option" where
  "url_port u = (case snd (url_hostinfo u) of
     None \<Rightarrow> Inr None
   | Some port \<Rightarrow>
       if \<not> list_all is_digit port \<or> 4300 < length port then Inl (ValueError ''Port'')
       else if 65535 < read_nat port then Inl (ValueError ''Port out of range 0-65535'')
       else Inr (Some (int (read_nat port))))"

lemma url_port_bounds: "url_port u = Inr (Some p) \<Longrightarrow> 0 \<le> p \<and> p \<le> 65535"
  by (auto simp: url_port_def split: option.splits if_splits)

end
