(* ===== verification/Webhook_Transport.thy ===== *)
theory Webhook_Transport
  imports Webhook_Dispatch Urls
begin

text \<open>
  The HTTPS transport of the webhooks, \<open>UrllibWebhookTransport\<close> in \<open>app/webhooks.py\<close>, and the check
  of their URLs, \<open>validate_webhook_url\<close> in \<open>app/webhook_models.py\<close>. Name resolution, the sockets
  and the answers of the hosts are the parameter \<open>network\<close>: the answer of the resolver depends
  on how often it has been asked, so a name may be rebound between two questions. The classification
  of IP addresses is a parameter as well. What the transport does to the network is its \<open>wire\<close>.
\<close>

record socket_address =
  sa_family :: int
  sa_socket_type :: int
  sa_protocol :: int
  sa_host :: string
  sa_rest :: "int list"

text \<open>One connection attempt: the address connected to, the name TLS verifies, and the request.\<close>

record contact =
  co_address :: socket_address
  co_server_hostname :: string
  co_port :: int
  co_verb :: string
  co_target :: string
  co_body :: string
  co_headers :: "(string \<times> string) list"

text \<open>A caught error is an \<open>OSError\<close>, a timeout or an \<open>HTTPException\<close>.\<close>

datatype answer = Answered int | Caught_error | Uncaught exn

record network =
  nw_resolve :: "nat \<Rightarrow> string \<Rightarrow> int \<Rightarrow> socket_address list option"
  nw_answer :: "nat \<Rightarrow> contact \<Rightarrow> answer"

record address_library =
  al_is_global :: "string \<Rightarrow> bool option"

record wire =
  wr_resolutions :: "(string \<times> int) list"
  wr_contacts :: "contact list"

definition quiet :: wire where
  "quiet = \<lparr>wr_resolutions = [], wr_contacts = []\<rparr>"

section \<open>The URL of a subscription\<close>

text \<open>\<open>al_is_global\<close> is \<open>None\<close> where \<open>ip_address\<close> raises a \<open>ValueError\<close>.\<close>

definition validate_webhook_url :: "url_library \<Rightarrow> address_library \<Rightarrow> string \<Rightarrow> exn + string" where
  "validate_webhook_url U A url =
     bindE (urlsplit U url) (\<lambda>parsed.
       if py_lower (su_scheme parsed) \<noteq> ''https'' then Inl (ValueError ''Webhook URL must use HTTPS.'')
       else (case url_hostname parsed of
         None \<Rightarrow> Inl (ValueError ''Webhook URL must include a host.'')
       | Some hostname \<Rightarrow>
           if fst (url_userinfo parsed) \<noteq> None \<or> snd (url_userinfo parsed) \<noteq> None
           then Inl (ValueError ''Webhook URL cannot include credentials.'')
           else if su_fragment parsed \<noteq> [] then Inl (ValueError ''Webhook URL cannot include a fragment.'')
           else if py_lower hostname = ''localhost'' \<or> ends_with ''.localhost'' (py_lower hostname)
           then Inl (ValueError ''Webhook URL cannot target localhost.'')
           else if al_is_global A (py_lower hostname) = Some False
           then Inl (ValueError ''Webhook URL cannot target a private or reserved address.'')
           else (case url_port parsed of
             Inl _ \<Rightarrow> Inl (ValueError ''Webhook URL contains an invalid port.'')
           | Inr _ \<Rightarrow> Inr url)))"

section \<open>The transport\<close>

definition resolve_public_webhook_destination ::
  "url_library \<Rightarrow> address_library \<Rightarrow> network \<Rightarrow> string \<Rightarrow> wire \<Rightarrow> (exn + string \<times> int \<times> socket_address list) \<times> wire" where
  "resolve_public_webhook_destination U A N url w =
     (case validate_webhook_url U A url of
        Inl _ \<Rightarrow> (Inl (WebhookTransportError ''Webhook destination is not a safe HTTPS URL.''), w)
      | Inr _ \<Rightarrow>
     (case urlsplit U url of
        Inl e \<Rightarrow> (Inl e, w)
      | Inr parsed \<Rightarrow>
     (case url_hostname parsed of
        None \<Rightarrow> (Inl (WebhookTransportError ''Webhook destination has no host.''), w)
      | Some hostname \<Rightarrow>
     (case url_port parsed of
        Inl _ \<Rightarrow> (Inl (WebhookTransportError ''Webhook destination has an invalid port.''), w)
      | Inr port_option \<Rightarrow>
          let port = (case port_option of None \<Rightarrow> 443 | Some p \<Rightarrow> if p = 0 then 443 else p);
              w1 = w\<lparr>wr_resolutions := wr_resolutions w @ [(hostname, port)]\<rparr>
          in (case nw_resolve N (length (wr_resolutions w)) hostname port of
             None \<Rightarrow> (Inl (WebhookTransportError ''Webhook destination could not be resolved.''), w1)
           | Some address_info \<Rightarrow>
               if list_ex (\<lambda>a. al_is_global A (sa_host a) = None) address_info
               then (Inl (WebhookTransportError ''Webhook destination returned an invalid address.''), w1)
               else if address_info = [] \<or> list_ex (\<lambda>a. al_is_global A (sa_host a) = Some False) address_info
               then (Inl (WebhookTransportError ''Webhook destination resolved to a private or reserved address.''), w1)
               else (Inr (hostname, port, address_info), w1))))))"

definition ensure_public_webhook_destination ::
  "url_library \<Rightarrow> address_library \<Rightarrow> network \<Rightarrow> string \<Rightarrow> wire \<Rightarrow> (exn + unit) \<times> wire" where
  "ensure_public_webhook_destination U A N url w = (case resolve_public_webhook_destination U A N url w of
     (Inl e, w') \<Rightarrow> (Inl e, w') | (Inr _, w') \<Rightarrow> (Inr (), w'))"

text \<open>The pinned connection to one address, and the request on it.\<close>

definition pinned_request :: "string \<Rightarrow> int \<Rightarrow> string \<Rightarrow> string \<Rightarrow> (string \<times> string) list \<Rightarrow> socket_address \<Rightarrow> contact" where
  "pinned_request hostname port target body headers address =
     \<lparr>co_address = address, co_server_hostname = hostname, co_port = port, co_verb = ''POST'', co_target = target,
      co_body = body, co_headers = headers\<rparr>"

fun try_addresses :: "network \<Rightarrow> (socket_address \<Rightarrow> contact) \<Rightarrow> socket_address list \<Rightarrow> wire \<Rightarrow> (exn + int) \<times> wire" where
  "try_addresses N request [] w =
     (Inl (WebhookTransportError ''Webhook request failed before receiving an HTTP response.''), w)"
| "try_addresses N request (address # addresses) w =
     (let w1 = w\<lparr>wr_contacts := wr_contacts w @ [request address]\<rparr> in
      case nw_answer N (length (wr_contacts w)) (request address) of
        Answered status \<Rightarrow> (Inr status, w1)
      | Caught_error \<Rightarrow> try_addresses N request addresses w1
      | Uncaught e \<Rightarrow> (Inl e, w1))"

definition webhook_send :: "url_library \<Rightarrow> address_library \<Rightarrow> network \<Rightarrow> string \<Rightarrow> string \<Rightarrow> (string \<times> string) list
    \<Rightarrow> wire \<Rightarrow> (exn + int) \<times> wire" where
  "webhook_send U A N url body headers w =
     (case resolve_public_webhook_destination U A N url w of
        (Inl e, w1) \<Rightarrow> (Inl e, w1)
      | (Inr (hostname, port, addresses), w1) \<Rightarrow>
          (case urlsplit U url of
             Inl e \<Rightarrow> (Inl e, w1)
           | Inr parsed \<Rightarrow>
               let target = (if su_path parsed = [] then ''/'' else su_path parsed);
                   target = (if su_query parsed = [] then target else target @ ''?'' @ su_query parsed)
               in try_addresses N (pinned_request hostname port target body headers) addresses w1))"

text \<open>The transport of the dispatcher; sending does not touch the database.\<close>

definition urllib_transport :: "url_library \<Rightarrow> address_library \<Rightarrow> network \<Rightarrow> transport" where
  "urllib_transport U A N url body headers = (\<lambda>d. (fst (webhook_send U A N url body headers quiet), d))"

section \<open>Only public addresses are contacted\<close>

lemma resolved_public:
  assumes "resolve_public_webhook_destination U A N url w = (Inr (hostname, port, addresses), w')"
  obtains parsed where "urlsplit U url = Inr parsed" and "py_lower (su_scheme parsed) = ''https''"
    and "url_hostname parsed = Some hostname" and "url_userinfo parsed = (None, None)"
    and "nw_resolve N (length (wr_resolutions w)) hostname port = Some addresses"
    and "addresses \<noteq> []" and "list_all (\<lambda>a. al_is_global A (sa_host a) = Some True) addresses"
    and "w' = w\<lparr>wr_resolutions := wr_resolutions w @ [(hostname, port)]\<rparr>" and "0 < port \<and> port \<le> 65535"
proof -
  have all: "list_all (\<lambda>a. al_is_global A (sa_host a) = Some True) as"
    if "\<not> list_ex (\<lambda>a. al_is_global A (sa_host a) = None) as" "\<not> list_ex (\<lambda>a. al_is_global A (sa_host a) = Some False) as"
    for as :: "socket_address list"
    using that by (induction as) auto
  obtain v where valid: "validate_webhook_url U A url = Inr v"
    using assms by (cases "validate_webhook_url U A url") (simp_all add: resolve_public_webhook_destination_def)
  obtain parsed where url: "urlsplit U url = Inr parsed"
    using valid by (cases "urlsplit U url") (simp_all add: validate_webhook_url_def)
  obtain h where h: "url_hostname parsed = Some h"
    using assms by (cases "url_hostname parsed") (simp_all add: resolve_public_webhook_destination_def valid url)
  obtain p where p: "url_port parsed = Inr p"
    using assms by (cases "url_port parsed") (simp_all add: resolve_public_webhook_destination_def valid url h)
  let ?port = "case p of None \<Rightarrow> 443 | Some p \<Rightarrow> if p = 0 then 443 else p"
  obtain as where as: "nw_resolve N (length (wr_resolutions w)) h ?port = Some as"
    using assms by (cases "nw_resolve N (length (wr_resolutions w)) h ?port")
      (simp_all add: resolve_public_webhook_destination_def valid url h p Let_def)
  have known: "\<not> list_ex (\<lambda>a. al_is_global A (sa_host a) = None) as"
    using assms by (rule contrapos_pn) (simp add: resolve_public_webhook_destination_def valid url h p as Let_def)
  have public: "\<not> (as = [] \<or> list_ex (\<lambda>a. al_is_global A (sa_host a) = Some False) as)"
    using assms by (rule contrapos_pn) (simp add: resolve_public_webhook_destination_def valid url h p as known Let_def)
  have result: "hostname = h" "port = ?port" "addresses = as" "w' = w\<lparr>wr_resolutions := wr_resolutions w @ [(h, ?port)]\<rparr>"
  proof -
    have "resolve_public_webhook_destination U A N url w
        = (Inr (h, ?port, as), w\<lparr>wr_resolutions := wr_resolutions w @ [(h, ?port)]\<rparr>)"
      using public by (simp add: resolve_public_webhook_destination_def valid url h p as known Let_def)
    note same = trans [OF assms [symmetric] this, unfolded prod.inject sum.inject]
    show "hostname = h" "port = ?port" "addresses = as" "w' = w\<lparr>wr_resolutions := wr_resolutions w @ [(h, ?port)]\<rparr>"
      using same by blast+
  qed
  have "0 < ?port \<and> ?port \<le> 65535" using url_port_bounds [of parsed] p by (auto split: option.split)
  moreover have "py_lower (su_scheme parsed) = ''https''" "url_userinfo parsed = (None, None)"
    using valid by (auto simp: validate_webhook_url_def url h prod_eq_iff split: if_splits)
  ultimately show thesis using that [OF url] h as public all [OF known] unfolding result by simp
qed

lemma resolve_quiet:
  "wr_contacts (snd (resolve_public_webhook_destination U A N url w)) = wr_contacts w
   \<and> length (wr_resolutions (snd (resolve_public_webhook_destination U A N url w))) \<le> Suc (length (wr_resolutions w))"
  by (auto simp: resolve_public_webhook_destination_def Let_def split: sum.split option.split)

lemma try_addresses_wire:
  "\<exists>n. snd (try_addresses N request addresses w) = w\<lparr>wr_contacts := wr_contacts w @ map request (take n addresses)\<rparr>
     \<and> (\<forall>k < n - 1. nw_answer N (length (wr_contacts w) + k) (request (addresses ! k)) = Caught_error) \<and> n \<le> length addresses
     \<and> (fst (try_addresses N request addresses w) =
          (if n = 0 \<or> nw_answer N (length (wr_contacts w) + (n - 1)) (request (addresses ! (n - 1))) = Caught_error
           then Inl (WebhookTransportError ''Webhook request failed before receiving an HTTP response.'')
           else (case nw_answer N (length (wr_contacts w) + (n - 1)) (request (addresses ! (n - 1))) of
                   Answered status \<Rightarrow> Inr status | Uncaught e \<Rightarrow> Inl e)))"
proof (induction addresses arbitrary: w)
  case Nil
  show ?case by (intro exI [of _ 0]) simp
next
  case (Cons a addresses)
  let ?w1 = "w\<lparr>wr_contacts := wr_contacts w @ [request a]\<rparr>"
  show ?case
  proof (cases "nw_answer N (length (wr_contacts w)) (request a)")
    case Caught_error
    obtain n where n: "snd (try_addresses N request addresses ?w1) = ?w1\<lparr>wr_contacts := wr_contacts ?w1 @ map request (take n addresses)\<rparr>"
      "\<forall>k < n - 1. nw_answer N (length (wr_contacts ?w1) + k) (request (addresses ! k)) = Caught_error" "n \<le> length addresses"
      "fst (try_addresses N request addresses ?w1) =
          (if n = 0 \<or> nw_answer N (length (wr_contacts ?w1) + (n - 1)) (request (addresses ! (n - 1))) = Caught_error
           then Inl (WebhookTransportError ''Webhook request failed before receiving an HTTP response.'')
           else (case nw_answer N (length (wr_contacts ?w1) + (n - 1)) (request (addresses ! (n - 1))) of
                   Answered status \<Rightarrow> Inr status | Uncaught e \<Rightarrow> Inl e))"
      using Cons.IH [of ?w1] by blast
    have "nw_answer N (length (wr_contacts w) + k) (request ((a # addresses) ! k)) = Caught_error" if "k < n" for k
      using that n(2) Caught_error by (cases k) auto
    then show ?thesis using n Caught_error
      by (intro exI [of _ "Suc n"]) (cases n; simp add: Let_def)
  qed (intro exI [of _ 1], simp add: Let_def)+
qed

text \<open>
  C33: Whatever the resolver says from one question to the next, a webhook is sent after at most one
  resolution of the host of an HTTPS URL without credentials, and only when every address of this
  resolution is global; the contacts are POST requests to these addresses in their order, with the
  host verified by TLS, each but the last having failed, and a status is the answer of the last.
\<close>

theorem contacts_only_public:
  "let (result, w) = webhook_send U A N url body headers quiet in
     length (wr_resolutions w) \<le> 1
     \<and> (wr_contacts w = [] \<and> (\<exists>e. result = Inl e)
        \<or> (\<exists>parsed hostname port addresses target n.
             urlsplit U url = Inr parsed \<and> py_lower (su_scheme parsed) = ''https'' \<and> url_userinfo parsed = (None, None)
             \<and> url_hostname parsed = Some hostname \<and> wr_resolutions w = [(hostname, port)] \<and> 0 < port \<and> port \<le> 65535
             \<and> nw_resolve N 0 hostname port = Some addresses
             \<and> list_all (\<lambda>a. al_is_global A (sa_host a) = Some True) addresses
             \<and> 0 < n \<and> n \<le> length addresses
             \<and> wr_contacts w = map (pinned_request hostname port target body headers) (take n addresses)
             \<and> list_all (\<lambda>k. nw_answer N k (wr_contacts w ! k) = Caught_error) [0..<n - 1]
             \<and> (case result of Inr status \<Rightarrow> nw_answer N (n - 1) (last (wr_contacts w)) = Answered status | Inl _ \<Rightarrow> True)))"
proof -
  obtain r w1 where resolved: "resolve_public_webhook_destination U A N url quiet = (r, w1)" by fastforce
  show ?thesis
  proof (cases r)
    case (Inl e)
    then show ?thesis using resolve_quiet [of U A N url quiet] resolved by (simp add: webhook_send_def quiet_def)
  next
    case (Inr x)
    obtain hostname port addresses where x: "x = (hostname, port, addresses)" by (metis prod_cases3)
    obtain parsed where url: "urlsplit U url = Inr parsed" "py_lower (su_scheme parsed) = ''https''"
        "url_hostname parsed = Some hostname" "url_userinfo parsed = (None, None)"
      and asked: "nw_resolve N 0 hostname port = Some addresses" and some: "addresses \<noteq> []"
      and public: "list_all (\<lambda>a. al_is_global A (sa_host a) = Some True) addresses"
      and w1: "w1 = quiet\<lparr>wr_resolutions := [(hostname, port)]\<rparr>" and port: "0 < port \<and> port \<le> 65535"
      using resolved_public [OF resolved [unfolded Inr x]] by (auto simp: quiet_def)
    obtain target where send: "webhook_send U A N url body headers quiet
        = try_addresses N (pinned_request hostname port target body headers) addresses w1"
      using resolved Inr x url(1) by (simp add: webhook_send_def Let_def)
    let ?request = "pinned_request hostname port target body headers"
    have c1: "wr_contacts w1 = []" by (simp add: w1 quiet_def)
    obtain n where n: "snd (try_addresses N ?request addresses w1) = w1\<lparr>wr_contacts := map ?request (take n addresses)\<rparr>"
      "\<forall>k < n - 1. nw_answer N k (?request (addresses ! k)) = Caught_error" "n \<le> length addresses"
      "fst (try_addresses N ?request addresses w1) =
          (if n = 0 \<or> nw_answer N (n - 1) (?request (addresses ! (n - 1))) = Caught_error
           then Inl (WebhookTransportError ''Webhook request failed before receiving an HTTP response.'')
           else (case nw_answer N (n - 1) (?request (addresses ! (n - 1))) of
                   Answered status \<Rightarrow> Inr status | Uncaught e \<Rightarrow> Inl e))"
      using try_addresses_wire [of N ?request addresses w1] by (auto simp: c1)
    obtain result w where rw: "try_addresses N ?request addresses w1 = (result, w)" by fastforce
    have w: "w = w1\<lparr>wr_contacts := map ?request (take n addresses)\<rparr>" using n(1) rw by simp
    show ?thesis
    proof (cases "n = 0")
      case True
      then show ?thesis using n(4) rw w w1 send by (simp add: quiet_def)
    next
      case False
      have nth: "map ?request (take n addresses) ! k = ?request (addresses ! k)" if "k < n" for k using that n(3) by simp
      have last: "last (map ?request (take n addresses)) = ?request (addresses ! (n - 1))"
        using False n(3) some by (simp add: last_conv_nth)
      have contacts: "wr_contacts w = map ?request (take n addresses)" and asked_once: "wr_resolutions w = [(hostname, port)]"
        by (simp_all add: w w1 quiet_def)
      have failed: "list_all (\<lambda>k. nw_answer N k (wr_contacts w ! k) = Caught_error) [0..<n - 1]"
        unfolding contacts using n(2) nth by (simp add: list_all_iff)
      have answer: "case result of Inr status \<Rightarrow> nw_answer N (n - 1) (last (wr_contacts w)) = Answered status | Inl _ \<Rightarrow> True"
        unfolding contacts using n(4) rw False last by (auto split: if_splits answer.splits sum.splits)
      have once: "length (wr_resolutions w) \<le> 1" and pos: "0 < n" "0 < port" "port \<le> 65535" using asked_once False port by simp_all
      show ?thesis
        unfolding send rw Let_def prod.case
        by (intro conjI disjI2 exI [of _ parsed] exI [of _ hostname] exI [of _ port] exI [of _ addresses] exI [of _ target]
            exI [of _ n]; fact once url asked_once pos asked public n(3) contacts failed answer)
    qed
  qed
qed

text \<open>A dispatcher over this transport, when no host answers outside 100 to 599 and no other exception escapes.\<close>

lemma urllib_transport_quiet:
  assumes "\<And>k c. case nw_answer N k c of Answered status \<Rightarrow> 100 \<le> status \<and> status \<le> 599 | Caught_error \<Rightarrow> True | Uncaught _ \<Rightarrow> False"
  shows "transport_quiet (urllib_transport U A N)"
proof -
  have attempts: "(\<exists>code. fst (try_addresses N request addresses w) = Inr code \<and> 100 \<le> code \<and> code \<le> 599)
      \<or> (\<exists>m. fst (try_addresses N request addresses w) = Inl (WebhookTransportError m))" for request addresses w
  proof (induction addresses arbitrary: w)
    case (Cons a addresses)
    then show ?case using assms [of "length (wr_contacts w)" "request a"]
      by (cases "nw_answer N (length (wr_contacts w)) (request a)") (simp_all add: Let_def)
  qed simp
  have "(\<exists>code. fst (webhook_send U A N u b h quiet) = Inr code \<and> 100 \<le> code \<and> code \<le> 599)
      \<or> (\<exists>m. fst (webhook_send U A N u b h quiet) = Inl (WebhookTransportError m))" for u b h
  proof (cases "fst (resolve_public_webhook_destination U A N u quiet)")
    case (Inl e)
    then have "\<exists>m. e = WebhookTransportError m"
      by (auto simp: resolve_public_webhook_destination_def validate_webhook_url_def bindE_def Let_def
          split: sum.splits option.splits if_splits)
    then show ?thesis using Inl by (auto simp: webhook_send_def split: prod.splits)
  next
    case (Inr x)
    obtain hostname port addresses where x: "x = (hostname, port, addresses)" by (metis prod_cases3)
    with Inr obtain w1 where resolved: "resolve_public_webhook_destination U A N u quiet = (Inr (hostname, port, addresses), w1)"
      by (metis prod.collapse)
    obtain parsed where "urlsplit U u = Inr parsed" by (rule resolved_public [OF resolved])
    then show ?thesis using attempts by (simp add: webhook_send_def resolved Let_def)
  qed
  then show ?thesis by (fastforce simp: transport_quiet_def urllib_transport_def)
qed

end
