(* ===== verification/Runtime_Config.thy ===== *)
theory Runtime_Config
  imports Urls
begin

text \<open>
  The settings of the service, \<open>app/runtime_config.py\<close>: read from the environment variables and
  validated when they are made, and the checks of the secrets. An environment maps names to texts;
  \<open>RuntimeConfigurationError\<close>, a \<open>RuntimeError\<close>, carries the variable or the check that failed.
\<close>

type_synonym environment = "string \<Rightarrow> string option"

definition compare_digest_str :: "string \<Rightarrow> string \<Rightarrow> exn + bool" where
  "compare_digest_str a b =
     (if list_all (\<lambda>c. (of_char c :: nat) < 128) a \<and> list_all (\<lambda>c. (of_char c :: nat) < 128) b
      then Inr (a = b) else Inl TypeError)"

section \<open>Reading variables\<close>

definition validate_webhook_master_secret ::
  "string \<Rightarrow> string option \<Rightarrow> string option \<Rightarrow> string option \<Rightarrow> exn + unit" where
  "validate_webhook_master_secret secret project_api_key admin_api_key execution_grant_secret =
     (if length secret < 32 then Inl (RuntimeError ''DECAUSTRUM_WEBHOOK_MASTER_SECRET'')
      else foldE (\<lambda>other_secret _.
          if other_secret = Some secret then Inl (RuntimeError ''secrets must be different'') else Inr ())
        [project_api_key, admin_api_key, execution_grant_secret] ())"

definition parse_bool :: "environment \<Rightarrow> string \<Rightarrow> bool \<Rightarrow> exn + bool" where
  "parse_bool environment name fallback = (case environment name of
     None \<Rightarrow> Inr fallback
   | Some raw_value \<Rightarrow>
       let normalized = py_lower (strip raw_value) in
       if normalized \<in> {''1'', ''true'', ''yes'', ''on''} then Inr True
       else if normalized \<in> {''0'', ''false'', ''no'', ''off''} then Inr False
       else Inl (RuntimeError name))"

definition parse_int :: "environment \<Rightarrow> string \<Rightarrow> int \<Rightarrow> int \<Rightarrow> int \<Rightarrow> exn + int" where
  "parse_int environment name fallback minimum maximum = (case environment name of
     None \<Rightarrow> Inr fallback
   | Some raw_value \<Rightarrow>
       (case python_int raw_value of
          None \<Rightarrow> Inl (RuntimeError name)
        | Some value \<Rightarrow> if value < minimum \<or> value > maximum then Inl (RuntimeError name) else Inr value))"

text \<open>\<open>tuple(dict.fromkeys(values))\<close> keeps the first of equal values.\<close>

fun from_keys :: "'a list \<Rightarrow> 'a list" where
  "from_keys [] = []"
| "from_keys (x # xs) = x # filter (\<lambda>y. y \<noteq> x) (from_keys xs)"

definition parse_csv :: "environment \<Rightarrow> string \<Rightarrow> string list \<Rightarrow> string list" where
  "parse_csv environment name fallback = (case environment name of
     None \<Rightarrow> fallback
   | Some raw_value \<Rightarrow> from_keys [strip item. item \<leftarrow> split_char (CHR '','') raw_value, strip item \<noteq> []])"

section \<open>Settings\<close>

record runtime_settings =
  rs_environment :: string
  rs_trusted_hosts :: "string list"
  rs_cors_allowed_origins :: "string list"
  rs_enforce_https :: bool
  rs_expose_docs :: bool
  rs_rate_limit_enabled :: bool
  rs_max_request_body_bytes :: int
  rs_rate_limit_window_seconds :: int
  rs_authorization_rate_limit :: int
  rs_tenant_rate_limit :: int
  rs_admin_rate_limit :: int
  rs_approval_ttl_seconds :: int
  rs_execution_grant_ttl_seconds :: int
  rs_log_level :: string

definition default_hosts :: "string list" where
  "default_hosts = [''localhost'', ''127.0.0.1'', ''::1'', ''testserver'']"

definition LEVEL_NAMES :: "string list" where
  "LEVEL_NAMES = [''CRITICAL'', ''FATAL'', ''ERROR'', ''WARN'', ''WARNING'', ''INFO'', ''DEBUG'', ''NOTSET'']"

definition validate_origin :: "url_library \<Rightarrow> runtime_settings \<Rightarrow> string \<Rightarrow> exn + unit" where
  "validate_origin U s origin =
     (if origin = ''*'' then Inl (RuntimeError ''Wildcard CORS origins'')
      else bindE (urlsplit U origin) (\<lambda>parsed.
        if su_scheme parsed \<notin> {''http'', ''https''} \<or> url_hostname parsed = None
          \<or> fst (url_userinfo parsed) \<noteq> None \<or> snd (url_userinfo parsed) \<noteq> None
          \<or> su_path parsed \<notin> {'''', ''/''} \<or> su_query parsed \<noteq> [] \<or> su_fragment parsed \<noteq> []
        then Inl (RuntimeError ''Invalid CORS origin'')
        else if su_scheme parsed = ''http''
          \<and> \<not> (rs_environment s \<noteq> ''production''
               \<and> url_hostname parsed \<in> {Some ''localhost'', Some ''127.0.0.1'', Some ''::1''})
        then Inl (RuntimeError ''CORS origins must use HTTPS'')
        else Inr ()))"

definition host_pattern_ok :: "string \<Rightarrow> bool" where
  "host_pattern_ok host \<longleftrightarrow> \<not> (host = [] \<or> host = ''*'' \<or> CHR ''/'' \<in> set host \<or> CHR '' '' \<in> set host
     \<or> host = ''*.'' \<or> CHR ''*'' \<in> set host \<and> \<not> starts_with ''*.'' host)"

definition validate_settings :: "url_library \<Rightarrow> runtime_settings \<Rightarrow> exn + unit" where
  "validate_settings U s =
     (if rs_environment s \<notin> {''development'', ''test'', ''production''}
      then Inl (RuntimeError ''DECAUSTRUM_ENVIRONMENT'')
      else if rs_trusted_hosts s = [] then Inl (RuntimeError ''DECAUSTRUM_TRUSTED_HOSTS'')
      else bindE (foldE (\<lambda>host _. guardE (RuntimeError ''Invalid trusted host pattern'') (host_pattern_ok host))
          (rs_trusted_hosts s) ()) (\<lambda>_.
        bindE (foldE (\<lambda>origin _. validate_origin U s origin) (rs_cors_allowed_origins s) ()) (\<lambda>_.
        if rs_environment s = ''production'' \<and> \<not> rs_enforce_https s
        then Inl (RuntimeError ''DECAUSTRUM_ENFORCE_HTTPS'')
        else if \<not> (1 \<le> rs_max_request_body_bytes s \<and> rs_max_request_body_bytes s \<le> 100 * 1024 * 1024)
        then Inl (RuntimeError ''Maximum request body size'')
        else bindE (foldE (\<lambda>(name, value, maximum) _. if value < 1 \<or> value > maximum then Inl (RuntimeError name) else Inr ())
            [(''rate_limit_window_seconds'', rs_rate_limit_window_seconds s, 3600),
             (''authorization_rate_limit'', rs_authorization_rate_limit s, 1000000),
             (''tenant_rate_limit'', rs_tenant_rate_limit s, 1000000),
             (''admin_rate_limit'', rs_admin_rate_limit s, 1000000),
             (''approval_ttl_seconds'', rs_approval_ttl_seconds s, 2592000),
             (''execution_grant_ttl_seconds'', rs_execution_grant_ttl_seconds s, 3600)] ()) (\<lambda>_.
          if \<not> (60 \<le> rs_approval_ttl_seconds s \<and> rs_approval_ttl_seconds s \<le> 2592000)
          then Inl (RuntimeError ''approval_ttl_seconds'')
          else if \<not> (30 \<le> rs_execution_grant_ttl_seconds s \<and> rs_execution_grant_ttl_seconds s \<le> 3600)
          then Inl (RuntimeError ''execution_grant_ttl_seconds'')
          else if rs_log_level s \<notin> set LEVEL_NAMES then Inl (RuntimeError ''DECAUSTRUM_LOG_LEVEL'')
          else Inr ()))))"

text \<open>The keyword arguments are evaluated in their order; the constructor validates.\<close>

definition from_environment :: "url_library \<Rightarrow> environment \<Rightarrow> exn + runtime_settings" where
  "from_environment U env =
     (let runtime_environment = py_lower (strip (case env ''DECAUSTRUM_ENVIRONMENT'' of
            None \<Rightarrow> ''development'' | Some v \<Rightarrow> v));
          hosts = (if runtime_environment = ''production'' then [] else default_hosts) in
      bindE (parse_bool env ''DECAUSTRUM_ENFORCE_HTTPS'' (runtime_environment = ''production'')) (\<lambda>https.
      bindE (parse_bool env ''DECAUSTRUM_EXPOSE_DOCS'' (runtime_environment \<noteq> ''production'')) (\<lambda>docs.
      bindE (parse_bool env ''DECAUSTRUM_RATE_LIMIT_ENABLED'' True) (\<lambda>rate.
      bindE (parse_int env ''DECAUSTRUM_MAX_REQUEST_BODY_BYTES'' 1048576 1 (100 * 1024 * 1024)) (\<lambda>body.
      bindE (parse_int env ''DECAUSTRUM_RATE_LIMIT_WINDOW_SECONDS'' 60 1 3600) (\<lambda>window.
      bindE (parse_int env ''DECAUSTRUM_AUTHORIZATION_RATE_LIMIT'' 300 1 1000000) (\<lambda>authorization.
      bindE (parse_int env ''DECAUSTRUM_TENANT_RATE_LIMIT'' 600 1 1000000) (\<lambda>tenant.
      bindE (parse_int env ''DECAUSTRUM_ADMIN_RATE_LIMIT'' 300 1 1000000) (\<lambda>admin.
      bindE (parse_int env ''DECAUSTRUM_APPROVAL_TTL_SECONDS'' 86400 60 2592000) (\<lambda>approval_ttl.
      bindE (parse_int env ''DECAUSTRUM_EXECUTION_GRANT_TTL_SECONDS'' 300 30 3600) (\<lambda>grant_ttl.
      let s = \<lparr>rs_environment = runtime_environment,
          rs_trusted_hosts = parse_csv env ''DECAUSTRUM_TRUSTED_HOSTS'' hosts,
          rs_cors_allowed_origins = parse_csv env ''DECAUSTRUM_CORS_ALLOWED_ORIGINS'' [],
          rs_enforce_https = https, rs_expose_docs = docs, rs_rate_limit_enabled = rate,
          rs_max_request_body_bytes = body, rs_rate_limit_window_seconds = window,
          rs_authorization_rate_limit = authorization, rs_tenant_rate_limit = tenant,
          rs_admin_rate_limit = admin, rs_approval_ttl_seconds = approval_ttl,
          rs_execution_grant_ttl_seconds = grant_ttl,
          rs_log_level = py_upper (strip (case env ''DECAUSTRUM_LOG_LEVEL'' of None \<Rightarrow> ''INFO'' | Some v \<Rightarrow> v))\<rparr>
      in bindE (validate_settings U s) (\<lambda>_. Inr s))))))))))))"

definition validate_secrets ::
  "runtime_settings \<Rightarrow> string option \<Rightarrow> string option \<Rightarrow> string option \<Rightarrow> string option \<Rightarrow> exn + unit" where
  "validate_secrets s project_api_key admin_api_key execution_grant_secret webhook_master_secret =
     (if rs_environment s \<noteq> ''production'' then Inr ()
      else if project_api_key \<noteq> None then Inl (RuntimeError ''DECAUSTRUM_API_KEY'')
      else (case admin_api_key of
        None \<Rightarrow> Inl (RuntimeError ''DECAUSTRUM_ADMIN_API_KEY'')
      | Some admin \<Rightarrow>
          if length admin < 32 then Inl (RuntimeError ''DECAUSTRUM_ADMIN_API_KEY'')
          else (case execution_grant_secret of
            None \<Rightarrow> Inl (RuntimeError ''DECAUSTRUM_EXECUTION_GRANT_SECRET'')
          | Some grant \<Rightarrow>
              if length grant < 32 then Inl (RuntimeError ''DECAUSTRUM_EXECUTION_GRANT_SECRET'')
              else bindE (compare_digest_str grant admin) (\<lambda>same.
                if same then Inl (RuntimeError ''secrets must be different'')
                else (case webhook_master_secret of
                  None \<Rightarrow> Inr ()
                | Some webhook \<Rightarrow>
                    validate_webhook_master_secret webhook project_api_key admin_api_key execution_grant_secret)))))"

section \<open>What validated settings are\<close>

lemma foldE_unit: "foldE (\<lambda>x _. f x) xs () = Inr () \<longleftrightarrow> list_all (\<lambda>x. f x = Inr ()) xs"
  by (induction xs) (auto simp: bindE_Inr_iff)

definition numbers_valid :: "runtime_settings \<Rightarrow> bool" where
  "numbers_valid s \<longleftrightarrow> 1 \<le> rs_max_request_body_bytes s \<and> rs_max_request_body_bytes s \<le> 104857600
     \<and> 1 \<le> rs_rate_limit_window_seconds s \<and> rs_rate_limit_window_seconds s \<le> 3600
     \<and> 1 \<le> rs_authorization_rate_limit s \<and> rs_authorization_rate_limit s \<le> 1000000
     \<and> 1 \<le> rs_tenant_rate_limit s \<and> rs_tenant_rate_limit s \<le> 1000000
     \<and> 1 \<le> rs_admin_rate_limit s \<and> rs_admin_rate_limit s \<le> 1000000
     \<and> 60 \<le> rs_approval_ttl_seconds s \<and> rs_approval_ttl_seconds s \<le> 2592000
     \<and> 30 \<le> rs_execution_grant_ttl_seconds s \<and> rs_execution_grant_ttl_seconds s \<le> 3600"

lemma validate_settings_iff:
  "validate_settings U s = Inr () \<longleftrightarrow>
     rs_environment s \<in> {''development'', ''test'', ''production''}
     \<and> rs_trusted_hosts s \<noteq> [] \<and> list_all host_pattern_ok (rs_trusted_hosts s)
     \<and> list_all (\<lambda>origin. validate_origin U s origin = Inr ()) (rs_cors_allowed_origins s)
     \<and> (rs_environment s = ''production'' \<longrightarrow> rs_enforce_https s)
     \<and> numbers_valid s \<and> rs_log_level s \<in> set LEVEL_NAMES"
  unfolding validate_settings_def numbers_valid_def
  by (auto simp: bindE_Inr_iff foldE_unit simp del: list.pred_set)

lemma from_environment_valid: "from_environment U env = Inr s \<Longrightarrow> validate_settings U s = Inr ()"
  unfolding from_environment_def Let_def by (auto simp: bindE_Inr_iff)

end
