(* ===== verification/Rate_Limit.thy ===== *)
theory Rate_Limit
  imports Snapshots Complex_Main
begin

text \<open>
  The fixed-window rate limiter, \<open>app/rate_limit.py\<close>. A clock reading is a rational number, which
  every double is; the state is the table of windows and counts. A check is one step: the lock
  makes it atomic, but its clock is read before the lock is taken, so the readings of successive
  checks may be out of order. The theorems say what the limiter guarantees while they are not, and
  that one late reading is enough to exceed the limit.
\<close>

section \<open>The limiter\<close>

record rate_decision =
  rd_allowed :: bool
  rd_limit :: int
  rd_remaining :: int
  rd_reset_at :: int
  rd_retry_after :: int

type_synonym rate_key = "string \<times> string"

record limiter =
  rl_entries :: "rate_key \<Rightarrow> (int \<times> int) option"
  rl_checks :: int

definition new_limiter :: limiter where
  "new_limiter = \<lparr>rl_entries = (\<lambda>_. None), rl_checks = 0\<rparr>"

text \<open>\<open>int(x)\<close> of a float cuts its fraction off.\<close>

definition truncated :: "rat \<Rightarrow> int" where
  "truncated t = (if 0 \<le> t then \<lfloor>t\<rfloor> else \<lceil>t\<rceil>)"

definition window_of :: "int \<Rightarrow> rat \<Rightarrow> int" where
  "window_of window_seconds t = truncated t div window_seconds * window_seconds"

definition remove_expired :: "int \<Rightarrow> limiter \<Rightarrow> limiter" where
  "remove_expired current_window l = l\<lparr>rl_entries := (\<lambda>key.
     case rl_entries l key of
       None \<Rightarrow> None
     | Some (window_start, count) \<Rightarrow> if window_start < current_window then None else Some (window_start, count))\<rparr>"

definition check_rate :: "string \<Rightarrow> string \<Rightarrow> int \<Rightarrow> int \<Rightarrow> rat \<Rightarrow> limiter \<Rightarrow> exn + rate_decision \<times> limiter" where
  "check_rate policy_name subject limit window_seconds now l =
     (if limit < 1 then Inl (ValueError ''Rate limit must be positive.'')
      else if window_seconds < 1 then Inl (ValueError ''Rate limit window must be positive.'')
      else
        let window_start = window_of window_seconds now;
            reset_at = window_start + window_seconds;
            key = (policy_name, subject);
            (stored_window, stored) = (case rl_entries l key of None \<Rightarrow> (window_start, 0) | Some e \<Rightarrow> e);
            count = (if stored_window \<noteq> window_start then 0 else stored);
            allowed = count < limit;
            l1 = (if allowed then l\<lparr>rl_entries := (rl_entries l)(key \<mapsto> (window_start, count + 1))\<rparr> else l);
            l2 = l1\<lparr>rl_checks := rl_checks l1 + 1\<rparr>;
            l3 = (if rl_checks l2 mod 1024 = 0 then remove_expired window_start l2 else l2)
        in Inr (\<lparr>rd_allowed = allowed, rd_limit = limit,
             rd_remaining = max 0 (limit - (if allowed then count + 1 else count)),
             rd_reset_at = reset_at, rd_retry_after = max 1 \<lceil>of_int reset_at - now\<rceil>\<rparr>, l3))"

definition clear_limiter :: "limiter \<Rightarrow> limiter" where
  "clear_limiter l = l\<lparr>rl_entries := (\<lambda>_. None), rl_checks := 0\<rparr>"

definition rate_limit_subject :: "externals \<Rightarrow> string option \<Rightarrow> string option \<Rightarrow> string" where
  "rate_limit_subject X credential client_host =
     x_sha256 X (case credential of
         Some (c # cs) \<Rightarrow> ''credential:'' @ c # cs
       | _ \<Rightarrow> ''anonymous:'' @ (case client_host of Some (h # hs) \<Rightarrow> h # hs | _ \<Rightarrow> ''unknown''))"

section \<open>Runs of checks\<close>

record rate_check =
  rc_policy :: string
  rc_subject :: string
  rc_now :: rat

abbreviation rc_key :: "rate_check \<Rightarrow> rate_key" where
  "rc_key c \<equiv> (rc_policy c, rc_subject c)"

text \<open>Checks in the order of the lock, each policy with its limit.\<close>

fun run_checks :: "(string \<Rightarrow> int) \<Rightarrow> int \<Rightarrow> rate_check list \<Rightarrow> limiter \<Rightarrow> exn + rate_decision list \<times> limiter" where
  "run_checks limits w [] l = Inr ([], l)"
| "run_checks limits w (c # cs) l =
     bindE (check_rate (rc_policy c) (rc_subject c) (limits (rc_policy c)) w (rc_now c) l) (\<lambda>(d, l1).
     bindE (run_checks limits w cs l1) (\<lambda>(ds, l2). Inr (d # ds, l2)))"

text \<open>How often a key was checked in a window, and how much of it the table has counted.\<close>

definition checked_in :: "int \<Rightarrow> rate_check list \<Rightarrow> rate_key \<Rightarrow> int \<Rightarrow> int" where
  "checked_in w cs key window = int (length (filter (\<lambda>c. rc_key c = key \<and> window_of w (rc_now c) = window) cs))"

definition counted_in :: "limiter \<Rightarrow> rate_key \<Rightarrow> int \<Rightarrow> int" where
  "counted_in l key window = (case rl_entries l key of None \<Rightarrow> 0 | Some (v, n) \<Rightarrow> if v = window then n else 0)"

lemma window_of_mono: "0 < w \<Longrightarrow> s \<le> t \<Longrightarrow> window_of w s \<le> window_of w t"
proof -
  assume w: "0 < w" and st: "s \<le> t"
  have "truncated s \<le> truncated t"
  proof (cases "0 \<le> s")
    case True
    then show ?thesis using st by (simp add: truncated_def floor_mono)
  next
    case False
    then have "\<lceil>s\<rceil> \<le> 0" by (simp add: ceiling_le_zero)
    moreover have "0 \<le> t \<Longrightarrow> 0 \<le> \<lfloor>t\<rfloor>" by simp
    ultimately show ?thesis using False st by (cases "0 \<le> t") (simp_all add: truncated_def ceiling_mono del: zero_le_floor ceiling_le_zero)
  qed
  then show ?thesis using w by (simp add: window_of_def zdiv_mono1)
qed

lemma window_of_bounds:
  assumes "0 < w" and "0 \<le> t"
  shows "of_int (window_of w t) \<le> t" and "t < of_int (window_of w t + w)"
proof -
  have m: "window_of w t = \<lfloor>t\<rfloor> - \<lfloor>t\<rfloor> mod w" using assms(2) by (simp add: window_of_def truncated_def minus_mod_eq_div_mult)
  have low: "window_of w t \<le> \<lfloor>t\<rfloor>" and high: "\<lfloor>t\<rfloor> + 1 \<le> window_of w t + w"
    using pos_mod_bound [OF assms(1), of "\<lfloor>t\<rfloor>"] pos_mod_sign [OF assms(1), of "\<lfloor>t\<rfloor>"] by (simp_all add: m)
  show "of_int (window_of w t) \<le> t" using low by (simp add: le_floor_iff)
  have "t < of_int (\<lfloor>t\<rfloor> + 1)" using floor_correct [of t] by simp
  also have "\<dots> \<le> of_int (window_of w t + w)" using high of_int_le_iff by blast
  finally show "t < of_int (window_of w t + w)" .
qed

definition stored_by :: "int \<Rightarrow> limiter \<Rightarrow> bool" where
  "stored_by window l \<longleftrightarrow> (\<forall>key v n. rl_entries l key = Some (v, n) \<longrightarrow> v \<le> window)"

definition the_decision :: "int \<Rightarrow> int \<Rightarrow> rat \<Rightarrow> int \<Rightarrow> rate_decision" where
  "the_decision limit w t n = \<lparr>rd_allowed = n < limit, rd_limit = limit, rd_remaining = max 0 (limit - n - 1),
     rd_reset_at = window_of w t + w, rd_retry_after = max 1 \<lceil>of_int (window_of w t + w) - t\<rceil>\<rparr>"

lemma counted_remove:
  "window \<le> v \<Longrightarrow> counted_in (remove_expired window l) key v = counted_in l key v"
  by (auto simp: counted_in_def remove_expired_def split: option.split)

lemma stored_remove: "stored_by window l \<Longrightarrow> stored_by window (remove_expired u l)"
  by (auto simp: stored_by_def remove_expired_def split: option.splits if_splits)

lemma counted_checks [simp]: "counted_in (l\<lparr>rl_checks := k\<rparr>) key v = counted_in l key v"
  by (simp add: counted_in_def)

lemma stored_checks [simp]: "stored_by u (l\<lparr>rl_checks := k\<rparr>) = stored_by u l"
  by (simp add: stored_by_def)

text \<open>One check, by what the table has counted for its key.\<close>

lemma check_rate_step:
  assumes "1 \<le> limit" and "1 \<le> w" and stored: "stored_by (window_of w t) l"
  obtains l' where "check_rate p s limit w t l
      = Inr (the_decision limit w t (counted_in l (p, s) (window_of w t)), l')"
    and "stored_by (window_of w t) l'"
    and "\<And>key v. window_of w t \<le> v \<Longrightarrow> counted_in l' key v = counted_in l key v
      + (if key = (p, s) \<and> v = window_of w t \<and> counted_in l (p, s) (window_of w t) < limit then 1 else 0)"
proof -
  let ?W = "window_of w t" and ?n = "counted_in l (p, s) (window_of w t)"
  obtain v0 n0 where e: "(case rl_entries l (p, s) of None \<Rightarrow> (?W, 0) | Some e \<Rightarrow> e) = (v0, n0)" by fastforce
  have n: "(if v0 \<noteq> ?W then 0 else n0) = ?n"
    using e by (auto simp: counted_in_def split: option.splits)
  define l1 where "l1 = (if ?n < limit then l\<lparr>rl_entries := (rl_entries l)((p, s) \<mapsto> (?W, ?n + 1))\<rparr> else l)"
  define l2 where "l2 = l1\<lparr>rl_checks := rl_checks l1 + 1\<rparr>"
  define l3 where "l3 = (if rl_checks l2 mod 1024 = 0 then remove_expired ?W l2 else l2)"
  have s1: "stored_by ?W l1" using stored by (simp add: l1_def stored_by_def)
  have higher: "counted_in l key v = 0" if "?W < v" for key v
  proof (cases "rl_entries l key")
    case (Some e)
    obtain a n where "e = (a, n)" by (cases e)
    with Some stored have "a \<le> ?W" unfolding stored_by_def by blast
    with Some \<open>e = (a, n)\<close> that show ?thesis by (simp add: counted_in_def)
  qed (simp add: counted_in_def)
  have c1: "counted_in l1 key v = counted_in l key v
      + (if key = (p, s) \<and> v = ?W \<and> ?n < limit then 1 else 0)" if "?W \<le> v" for key v
    using that higher [of v key] by (auto simp: l1_def counted_in_def)
  have "stored_by ?W l3" using s1 by (simp add: l3_def l2_def stored_remove)
  moreover have "counted_in l3 key v = counted_in l1 key v" if "?W \<le> v" for key v
    using counted_remove [OF that, of l2 key] by (simp add: l3_def l2_def)
  moreover have "check_rate p s limit w t l = Inr (the_decision limit w t ?n, l3)"
    using assms(1,2) unfolding check_rate_def Let_def e prod.case n l1_def [symmetric] l2_def [symmetric] l3_def [symmetric]
    by (simp add: the_decision_def)
  ultimately show thesis using c1 that by simp
qed

lemma checked_in_Cons:
  "checked_in w (cs @ [c]) key v = checked_in w cs key v + (if rc_key c = key \<and> window_of w (rc_now c) = v then 1 else 0)"
  by (simp add: checked_in_def)

lemma run_checks_counted:
  assumes "\<And>p. 1 \<le> limits p" and "1 \<le> w"
    and "sorted (map rc_now (past @ cs))"
    and "stored_by u l" and "\<And>c. c \<in> set cs \<Longrightarrow> u \<le> window_of w (rc_now c)"
    and "\<And>key v. u \<le> v \<Longrightarrow> counted_in l key v = min (limits (fst key)) (checked_in w past key v)"
  shows "\<exists>ds l'. run_checks limits w cs l = Inr (ds, l') \<and> length ds = length cs
    \<and> (\<forall>i < length cs. ds ! i = the_decision (limits (rc_policy (cs ! i))) w (rc_now (cs ! i))
         (min (limits (rc_policy (cs ! i)))
            (checked_in w (past @ take i cs) (rc_key (cs ! i)) (window_of w (rc_now (cs ! i))))))"
  using assms(3-)
proof (induction cs arbitrary: past l u)
  case (Cons c cs)
  let ?W = "window_of w (rc_now c)" and ?lim = "limits (rc_policy c)"
  have uW: "u \<le> ?W" using Cons.prems(3) by simp
  have stored: "stored_by ?W l" using Cons.prems(2) uW order_trans unfolding stored_by_def by blast
  obtain l1 where step: "check_rate (rc_policy c) (rc_subject c) ?lim w (rc_now c) l
      = Inr (the_decision ?lim w (rc_now c) (counted_in l (rc_key c) ?W), l1)"
    and stored1: "stored_by ?W l1"
    and count1: "\<And>key v. ?W \<le> v \<Longrightarrow> counted_in l1 key v = counted_in l key v
      + (if key = rc_key c \<and> v = ?W \<and> counted_in l (rc_key c) ?W < ?lim then 1 else 0)"
    using check_rate_step [OF assms(1,2) stored] by blast
  have n: "counted_in l (rc_key c) ?W = min ?lim (checked_in w past (rc_key c) ?W)" using Cons.prems(4) [OF uW] by simp
  have "counted_in l1 key v = min (limits (fst key)) (checked_in w (past @ [c]) key v)" if "?W \<le> v" for key v
    using count1 [OF that, of key] Cons.prems(4) [of v key] that uW n by (auto simp: checked_in_Cons)
  moreover have "?W \<le> window_of w (rc_now d)" if "d \<in> set cs" for d
    using Cons.prems(1) that assms(2) by (intro window_of_mono) (auto simp: sorted_append)
  moreover have "sorted (map rc_now ((past @ [c]) @ cs))" using Cons.prems(1) by simp
  ultimately obtain ds l2 where run: "run_checks limits w cs l1 = Inr (ds, l2)" "length ds = length cs"
    and all: "\<forall>i < length cs. ds ! i = the_decision (limits (rc_policy (cs ! i))) w (rc_now (cs ! i))
         (min (limits (rc_policy (cs ! i)))
            (checked_in w ((past @ [c]) @ take i cs) (rc_key (cs ! i)) (window_of w (rc_now (cs ! i)))))"
    using Cons.IH [of "past @ [c]" ?W l1] stored1 by blast
  have "run_checks limits w (c # cs) l = Inr (the_decision ?lim w (rc_now c) (counted_in l (rc_key c) ?W) # ds, l2)"
    by (simp add: step run(1))
  then show ?case using run(2) all n by (intro exI conjI) (auto simp: nth_Cons split: nat.split)
qed simp

section \<open>What the limiter guarantees\<close>

text \<open>
  C28: While the clock readings of the checks do not go back, a new limiter never fails and allows the
  check of a key exactly when fewer checks of this key than its limit came before it in the same
  window, reports what then remains, and asks a client to wait for at least a second and at most the
  window, until a moment at or after the end of the window.
\<close>

theorem window_limit_exact:
  assumes "\<And>p. 1 \<le> limits p" and "1 \<le> w" and "sorted (map rc_now cs)" and "list_all (\<lambda>c. 0 \<le> rc_now c) cs"
  shows "\<exists>ds l. run_checks limits w cs new_limiter = Inr (ds, l)
    \<and> list_all2 (\<lambda>i d. let c = cs ! i; window = window_of w (rc_now c); limit = limits (rc_policy c);
           before = checked_in w (take i cs) (rc_policy c, rc_subject c) window in
         rd_allowed d = (before < limit) \<and> rd_limit d = limit \<and> rd_remaining d = max 0 (limit - before - 1)
         \<and> of_int (rd_reset_at d - w) \<le> rc_now c \<and> rc_now c < of_int (rd_reset_at d)
         \<and> 1 \<le> rd_retry_after d \<and> rd_retry_after d \<le> w
         \<and> of_int (rd_reset_at d) \<le> rc_now c + of_int (rd_retry_after d)) [0..<length cs] ds"
proof -
  have times: "0 \<le> rc_now (cs ! i)" if "i < length cs" for i using assms(4) that by (simp add: list_all_length)
  obtain u where u: "u = (if cs = [] then 0 else window_of w (rc_now (hd cs)))" by blast
  have first: "u \<le> window_of w (rc_now c)" if c: "c \<in> set cs" for c
  proof -
    obtain a as where cs: "cs = a # as" using c by (cases cs) auto
    then have "rc_now a \<le> rc_now c" using assms(3) c by auto
    then show ?thesis using window_of_mono [of w "rc_now a" "rc_now c"] assms(2) u cs by simp
  qed
  have empty: "stored_by u new_limiter" "\<And>key v. counted_in new_limiter key v = 0" "\<And>key v. checked_in w [] key v = 0"
    by (simp_all add: stored_by_def new_limiter_def counted_in_def checked_in_def)
  have zero: "counted_in new_limiter key v = min (limits (fst key)) (checked_in w [] key v)" for key v
    using assms(1) [of "fst key"] empty(2,3) by simp
  have "\<exists>ds l. run_checks limits w cs new_limiter = Inr (ds, l) \<and> length ds = length cs
    \<and> (\<forall>i < length cs. ds ! i = the_decision (limits (rc_policy (cs ! i))) w (rc_now (cs ! i))
         (min (limits (rc_policy (cs ! i)))
            (checked_in w ([] @ take i cs) (rc_key (cs ! i)) (window_of w (rc_now (cs ! i))))))"
    by (rule run_checks_counted [OF assms(1,2) _ empty(1) first zero]) (use assms(3) in simp_all)
  then obtain ds l where run: "run_checks limits w cs new_limiter = Inr (ds, l)" "length ds = length cs"
    and ds: "\<And>i. i < length cs \<Longrightarrow> ds ! i = the_decision (limits (rc_policy (cs ! i))) w (rc_now (cs ! i))
         (min (limits (rc_policy (cs ! i)))
            (checked_in w ([] @ take i cs) (rc_key (cs ! i)) (window_of w (rc_now (cs ! i)))))"
    by blast
  have "let c = cs ! i; window = window_of w (rc_now c); limit = limits (rc_policy c);
           before = checked_in w (take i cs) (rc_key c) window; d = ds ! i in
         rd_allowed d = (before < limit) \<and> rd_limit d = limit \<and> rd_remaining d = max 0 (limit - before - 1)
         \<and> of_int (rd_reset_at d - w) \<le> rc_now c \<and> rc_now c < of_int (rd_reset_at d)
         \<and> 1 \<le> rd_retry_after d \<and> rd_retry_after d \<le> w
         \<and> of_int (rd_reset_at d) \<le> rc_now c + of_int (rd_retry_after d)" if i: "i < length cs" for i
  proof -
    let ?t = "rc_now (cs ! i)" and ?W = "window_of w (rc_now (cs ! i))"
    have b: "of_int ?W \<le> ?t" "?t < of_int (?W + w)" using window_of_bounds [of w ?t] times [OF i] assms(2) by simp_all
    have "of_int (?W + w) - ?t \<le> of_int w" using b(1) by simp
    then have wait: "\<lceil>of_int (?W + w) - ?t\<rceil> \<le> w" by (simp only: ceiling_le_iff)
    have "of_int (?W + w) - ?t \<le> of_int \<lceil>of_int (?W + w) - ?t\<rceil>" by (rule le_of_int_ceiling)
    also have "\<dots> \<le> of_int (max 1 \<lceil>of_int (?W + w) - ?t\<rceil>)" by simp
    finally have "of_int (?W + w) \<le> ?t + of_int (max 1 \<lceil>of_int (?W + w) - ?t\<rceil>)" by (simp add: algebra_simps)
    moreover have "(min n k < n) = (k < n)" "max 0 (n - min n k - 1) = max 0 (n - k - 1)" for n k :: int
      by (auto simp: min_def)
    moreover have "max 1 \<lceil>of_int (?W + w) - ?t\<rceil> \<le> w" using wait assms(2) by simp
    ultimately show ?thesis
      using b unfolding ds [OF i] the_decision_def Let_def rate_decision.simps
      by (simp only: append_Nil diff_add_cancel add_diff_cancel simp_thms max.cobounded1)
  qed
  then show ?thesis
    unfolding Let_def list_all2_conv_all_nth using run by (intro exI [of _ ds] exI [of _ l] conjI) simp_all
qed

definition check_at :: "rat \<Rightarrow> rate_check" where
  "check_at t = \<lparr>rc_policy = ''admin'', rc_subject = ''s'', rc_now = t\<rparr>"

theorem window_limit_exact_witness:
  "\<exists>ds l. run_checks (\<lambda>_. 1) 60 [check_at 61, check_at 62, check_at 120] new_limiter = Inr (ds, l)
     \<and> map rd_allowed ds = [True, False, True]"
proof -
  have w: "window_of 60 61 = 60" "window_of 60 62 = 60" "window_of 60 120 = 120"
    by (simp_all add: window_of_def truncated_def)
  have "sorted (map rc_now [check_at 61, check_at 62, check_at 120])" by (simp add: check_at_def)
  moreover have "list_all (\<lambda>c. 0 \<le> rc_now c) [check_at 61, check_at 62, check_at 120]" by (simp add: check_at_def)
  ultimately obtain ds l where run: "run_checks (\<lambda>_. 1) 60 [check_at 61, check_at 62, check_at 120] new_limiter = Inr (ds, l)"
    and all: "list_all2 (\<lambda>i d. let c = [check_at 61, check_at 62, check_at 120] ! i; window = window_of 60 (rc_now c); limit = 1;
         before = checked_in 60 (take i [check_at 61, check_at 62, check_at 120]) (rc_policy c, rc_subject c) window in
         rd_allowed d = (before < limit) \<and> rd_limit d = limit \<and> rd_remaining d = max 0 (limit - before - 1)
         \<and> of_int (rd_reset_at d - 60) \<le> rc_now c \<and> rc_now c < of_int (rd_reset_at d)
         \<and> 1 \<le> rd_retry_after d \<and> rd_retry_after d \<le> 60
         \<and> of_int (rd_reset_at d) \<le> rc_now c + of_int (rd_retry_after d))
       [0..<length [check_at 61, check_at 62, check_at 120]] ds"
    using window_limit_exact [of "\<lambda>_. 1" 60 "[check_at 61, check_at 62, check_at 120]"] by auto
  obtain x y z where ds: "ds = [x, y, z]" using list_all2_lengthD [OF all, symmetric] by (auto simp: eval_nat_numeral length_Suc_conv)
  have "map rd_allowed ds = [True, False, True]"
    using all unfolding ds by (simp add: upt_rec Let_def check_at_def checked_in_def w)
  with run show ?thesis by (intro exI conjI)
qed

text \<open>
  A reading that goes back, which a check delayed before the lock has, makes the limiter forget
  the window it was in: with a limit of one, two checks of one window are allowed.
\<close>

theorem late_check_resets_window:
  "\<exists>ds l. run_checks (\<lambda>_. 1) 60 [check_at 120, check_at 119, check_at 121] new_limiter = Inr (ds, l)
     \<and> map rd_allowed ds = [True, True, True] \<and> window_of 60 (rc_now (check_at 120)) = window_of 60 (rc_now (check_at 121))"
  by (simp add: check_at_def check_rate_def Let_def new_limiter_def window_of_def truncated_def)

end
