(* ===== verification/Observability.thy ===== *)
theory Observability
  imports Text_Ops Complex_Main
begin

text \<open>
  The metrics registry, \<open>app/observability.py\<close>: counters, the duration histograms and their
  Prometheus text. Every operation holds the lock and is one step on the record \<open>metrics\<close>; a
  dictionary is its list of items in insertion order. Durations are doubles, so rational numbers;
  the addition of doubles and the \<open>.12g\<close> format are parameters.
\<close>

section \<open>The registry\<close>

record float_library =
  fl_add :: "rat \<Rightarrow> rat \<Rightarrow> rat"
  fl_text :: "rat \<Rightarrow> string"

definition METRIC_HTTP_METHODS :: "string list" where
  "METRIC_HTTP_METHODS = [''GET'', ''HEAD'', ''POST'', ''PUT'', ''DELETE'', ''CONNECT'', ''OPTIONS'', ''TRACE'', ''PATCH'']"

text \<open>The boundaries with their texts; each literal is the double nearest to it.\<close>

definition HTTP_DURATION_BUCKETS :: "(string \<times> rat) list" where
  "HTTP_DURATION_BUCKETS =
     [(''0.005'', 5764607523034235 / 1152921504606846976), (''0.01'', 5764607523034235 / 576460752303423488),
      (''0.025'', 3602879701896397 / 144115188075855872), (''0.05'', 3602879701896397 / 72057594037927936),
      (''0.1'', 3602879701896397 / 36028797018963968), (''0.25'', 1 / 4), (''0.5'', 1 / 2), (''1.0'', 1),
      (''2.5'', 5 / 2), (''5.0'', 5), (''10.0'', 10)]"

record histogram =
  hg_count :: int
  hg_total :: rat
  hg_bucket_counts :: "int list"

definition new_histogram :: histogram where
  "new_histogram = \<lparr>hg_count = 0, hg_total = 0, hg_bucket_counts = replicate (length HTTP_DURATION_BUCKETS) 0\<rparr>"

definition observe :: "float_library \<Rightarrow> rat \<Rightarrow> histogram \<Rightarrow> histogram" where
  "observe F value h = h\<lparr>hg_count := hg_count h + 1, hg_total := fl_add F (hg_total h) value,
     hg_bucket_counts := map2 (\<lambda>(_, boundary) n. if value \<le> boundary then n + 1 else n)
       HTTP_DURATION_BUCKETS (hg_bucket_counts h)\<rparr>"

record metrics =
  mt_started_at :: rat
  mt_in_flight :: int
  mt_ready :: int
  mt_http_requests :: "((string \<times> string \<times> string) \<times> int) list"
  mt_http_durations :: "((string \<times> string) \<times> histogram) list"
  mt_security_events :: "(string \<times> int) list"
  mt_authorization_decisions :: "(string \<times> int) list"

definition new_metrics :: "rat \<Rightarrow> metrics" where
  "new_metrics now = \<lparr>mt_started_at = now, mt_in_flight = 0, mt_ready = 0, mt_http_requests = [], mt_http_durations = [],
     mt_security_events = [], mt_authorization_decisions = []\<rparr>"

text \<open>\<open>d[key] += 1\<close> on a \<open>defaultdict(int)\<close>.\<close>

definition counted_up :: "'k \<Rightarrow> ('k \<times> int) list \<Rightarrow> ('k \<times> int) list" where
  "counted_up key d = AList.update key ((case map_of d key of None \<Rightarrow> 0 | Some n \<Rightarrow> n) + 1) d"

definition request_started :: "metrics \<Rightarrow> metrics" where
  "request_started m = m\<lparr>mt_in_flight := mt_in_flight m + 1\<rparr>"

definition metric_method :: "string \<Rightarrow> string" where
  "metric_method verb = (if verb \<in> set METRIC_HTTP_METHODS then verb else ''OTHER'')"

definition request_finished :: "float_library \<Rightarrow> string \<Rightarrow> string \<Rightarrow> int \<Rightarrow> rat \<Rightarrow> metrics \<Rightarrow> metrics" where
  "request_finished F verb route status_code duration_seconds m =
     (let key = (metric_method verb, route, show_int status_code);
          duration_key = (metric_method verb, route);
          h = (case map_of (mt_http_durations m) duration_key of None \<Rightarrow> new_histogram | Some h \<Rightarrow> h)
      in m\<lparr>mt_in_flight := max 0 (mt_in_flight m - 1),
           mt_http_requests := counted_up key (mt_http_requests m),
           mt_http_durations := AList.update duration_key (observe F duration_seconds h) (mt_http_durations m)\<rparr>)"

definition record_security_event :: "string \<Rightarrow> metrics \<Rightarrow> metrics" where
  "record_security_event event m = m\<lparr>mt_security_events := counted_up event (mt_security_events m)\<rparr>"

definition record_authorization_decision :: "string \<Rightarrow> metrics \<Rightarrow> metrics" where
  "record_authorization_decision d m = m\<lparr>mt_authorization_decisions := counted_up d (mt_authorization_decisions m)\<rparr>"

definition set_ready :: "bool \<Rightarrow> metrics \<Rightarrow> metrics" where
  "set_ready ready m = m\<lparr>mt_ready := if ready then 1 else 0\<rparr>"

definition reset_metrics :: "rat \<Rightarrow> metrics \<Rightarrow> metrics" where
  "reset_metrics now m = m\<lparr>mt_started_at := now, mt_in_flight := 0, mt_ready := 0, mt_http_requests := [],
     mt_http_durations := [], mt_security_events := [], mt_authorization_decisions := []\<rparr>"

section \<open>The Prometheus text\<close>

definition escape_label :: "string \<Rightarrow> string" where
  "escape_label value = replace_char (CHR 0x22) [CHR 0x5C, CHR 0x22]
     (replace_char (CHR 0x0A) [CHR 0x5C, CHR ''n''] (replace_char (CHR 0x5C) [CHR 0x5C, CHR 0x5C] value))"

definition label_text :: "string \<times> string \<Rightarrow> string" where
  "label_text l = fst l @ [CHR ''='', CHR 0x22] @ escape_label (snd l) @ [CHR 0x22]"

definition labels_text :: "(string \<times> string) list \<Rightarrow> string" where
  "labels_text ls = (if ls = [] then []
     else [CHR ''{''] @ join_with '','' (map label_text (sort_key fst ls)) @ [CHR ''}''])"

definition DECAUSTRUM_VERSION :: string where
  "DECAUSTRUM_VERSION = ''0.1.0''"

definition sample :: "string \<Rightarrow> (string \<times> string) list \<Rightarrow> string \<Rightarrow> string" where
  "sample name ls value = name @ labels_text ls @ '' '' @ value"

definition metric_help :: "string \<Rightarrow> string \<Rightarrow> string \<Rightarrow> string list" where
  "metric_help name kind description = [''# HELP '' @ name @ '' '' @ description, ''# TYPE '' @ name @ '' '' @ kind]"

definition histogram_lines :: "float_library \<Rightarrow> (string \<times> string) \<times> histogram \<Rightarrow> string list" where
  "histogram_lines F item = (case item of ((verb, route), h) \<Rightarrow>
     let name = ''decaustrum_http_request_duration_seconds''; ls = [(''method'', verb), (''route'', route)] in
     map2 (\<lambda>(text, _) n. sample (name @ ''_bucket'') (ls @ [(''le'', text)]) (show_int n)) HTTP_DURATION_BUCKETS (hg_bucket_counts h)
     @ [sample (name @ ''_bucket'') (ls @ [(''le'', ''+Inf'')]) (show_int (hg_count h)),
        sample (name @ ''_sum'') ls (fl_text F (hg_total h)),
        sample (name @ ''_count'') ls (show_int (hg_count h))])"

definition metrics_lines :: "float_library \<Rightarrow> metrics \<Rightarrow> string list" where
  "metrics_lines F m =
     metric_help ''decaustrum_build_info'' ''gauge'' ''DecAustrum build information.''
     @ [sample ''decaustrum_build_info'' [(''version'', DECAUSTRUM_VERSION)] ''1'']
     @ metric_help ''decaustrum_process_start_time_seconds'' ''gauge'' ''Process start time in Unix seconds.''
     @ [sample ''decaustrum_process_start_time_seconds'' [] (fl_text F (mt_started_at m))]
     @ metric_help ''decaustrum_http_in_flight_requests'' ''gauge'' ''Current in-flight HTTP requests.''
     @ [sample ''decaustrum_http_in_flight_requests'' [] (show_int (mt_in_flight m))]
     @ metric_help ''decaustrum_ready'' ''gauge'' ''Whether the API is ready to serve traffic.''
     @ [sample ''decaustrum_ready'' [] (show_int (mt_ready m))]
     @ metric_help ''decaustrum_http_requests_total'' ''counter'' ''Total HTTP requests.''
     @ map (\<lambda>((verb, route, status), n). sample ''decaustrum_http_requests_total''
            [(''method'', verb), (''route'', route), (''status'', status)] (show_int n))
         (sort_key (\<lambda>((verb, route, status), _). [verb, route, status]) (mt_http_requests m))
     @ metric_help ''decaustrum_http_request_duration_seconds'' ''histogram'' ''HTTP request duration in seconds.''
     @ concat (map (histogram_lines F)
         (sort_key (\<lambda>((verb, route), _). [verb, route]) (mt_http_durations m)))
     @ metric_help ''decaustrum_security_events_total'' ''counter'' ''Security control events.''
     @ map (\<lambda>(event, n). sample ''decaustrum_security_events_total'' [(''event'', event)] (show_int n))
         (sort_key fst (mt_security_events m))
     @ metric_help ''decaustrum_authorization_decisions_total'' ''counter'' ''Authorization responses by decision.''
     @ map (\<lambda>(d, n). sample ''decaustrum_authorization_decisions_total'' [(''decision'', d)] (show_int n))
         (sort_key fst (mt_authorization_decisions m))"

definition render_prometheus :: "float_library \<Rightarrow> metrics \<Rightarrow> string" where
  "render_prometheus F m = join_with [CHR 0x0A] (metrics_lines F m) @ [CHR 0x0A]"

section \<open>Counts\<close>

datatype metrics_event =
    Request_started
  | Request_finished string string int rat
  | Security_event string
  | Authorization_decision string
  | Ready bool

fun metrics_step :: "float_library \<Rightarrow> metrics_event \<Rightarrow> metrics \<Rightarrow> metrics" where
  "metrics_step F Request_started m = request_started m"
| "metrics_step F (Request_finished verb route status_code t) m = request_finished F verb route status_code t m"
| "metrics_step F (Security_event event) m = record_security_event event m"
| "metrics_step F (Authorization_decision d) m = record_authorization_decision d m"
| "metrics_step F (Ready b) m = set_ready b m"

definition tally :: "('k \<times> int) list \<Rightarrow> 'k \<Rightarrow> int" where
  "tally d k = (case map_of d k of None \<Rightarrow> 0 | Some n \<Rightarrow> n)"

definition histogram_at :: "metrics \<Rightarrow> string \<times> string \<Rightarrow> histogram" where
  "histogram_at m k = (case map_of (mt_http_durations m) k of None \<Rightarrow> new_histogram | Some h \<Rightarrow> h)"

definition steps_with :: "('a \<Rightarrow> bool) \<Rightarrow> 'a list \<Rightarrow> int" where
  "steps_with P steps = int (length (filter P steps))"

lemma steps_with_simps [simp]:
  "steps_with P [] = 0"
  "steps_with P (steps @ [x]) = steps_with P steps + (if P x then 1 else 0)"
  by (simp_all add: steps_with_def)

lemma tally_counted_up [simp]: "tally (counted_up k d) k' = tally d k' + (if k' = k then 1 else 0)"
  by (simp add: tally_def counted_up_def update_conv' split: option.split)

fun finished_as :: "(string \<Rightarrow> string \<Rightarrow> string \<Rightarrow> rat \<Rightarrow> bool) \<Rightarrow> metrics_event \<Rightarrow> bool" where
  "finished_as P (Request_finished verb route status_code t) = P (metric_method verb) route (show_int status_code) t"
| "finished_as P _ = False"

text \<open>No request finishes that has not started.\<close>

definition balanced :: "metrics_event list \<Rightarrow> bool" where
  "balanced steps \<longleftrightarrow> list_all (\<lambda>k. steps_with (finished_as (\<lambda>_ _ _ _. True)) (take k steps)
     \<le> steps_with (\<lambda>x. x = Request_started) (take k steps)) [0..<Suc (length steps)]"

lemma balanced_snoc: "balanced (steps @ [x]) \<Longrightarrow> balanced steps"
  unfolding balanced_def list_all_iff by fastforce

lemma balanced_all: "balanced steps \<Longrightarrow>
  steps_with (finished_as (\<lambda>_ _ _ _. True)) steps \<le> steps_with (\<lambda>x. x = Request_started) steps"
  unfolding balanced_def list_all_iff by (drule bspec [of _ _ "length steps"]) auto

lemma in_flight_step:
  assumes "steps_with (finished_as (\<lambda>_ _ _ _. True)) (steps @ [x]) \<le> steps_with (\<lambda>x. x = Request_started) (steps @ [x])"
    and "mt_in_flight m = steps_with (\<lambda>x. x = Request_started) steps - steps_with (finished_as (\<lambda>_ _ _ _. True)) steps"
  shows "mt_in_flight (metrics_step F x m)
    = steps_with (\<lambda>x. x = Request_started) (steps @ [x]) - steps_with (finished_as (\<lambda>_ _ _ _. True)) (steps @ [x])"
  using assms by (cases x) (simp_all add: request_started_def request_finished_def Let_def record_security_event_def
      record_authorization_decision_def set_ready_def)

lemma requests_step:
  "tally (mt_http_requests (metrics_step F x m)) (verb, route, status)
   = tally (mt_http_requests m) (verb, route, status)
     + (if finished_as (\<lambda>v r s _. v = verb \<and> r = route \<and> s = status) x then 1 else 0)"
  by (cases x) (auto simp: request_started_def request_finished_def Let_def record_security_event_def
      record_authorization_decision_def set_ready_def)

lemma histogram_step:
  "histogram_at (metrics_step F x m) (verb, route) =
     (case x of
        Request_finished v r _ t \<Rightarrow>
          if metric_method v = verb \<and> r = route then observe F t (histogram_at m (verb, route)) else histogram_at m (verb, route)
      | _ \<Rightarrow> histogram_at m (verb, route))"
  by (cases x) (auto simp: request_started_def request_finished_def Let_def record_security_event_def
      record_authorization_decision_def set_ready_def histogram_at_def update_conv')

lemma events_step:
  "tally (mt_security_events (metrics_step F x m)) event
   = tally (mt_security_events m) event + (if x = Security_event event then 1 else 0)"
  "tally (mt_authorization_decisions (metrics_step F x m)) d
   = tally (mt_authorization_decisions m) d + (if x = Authorization_decision d then 1 else 0)"
  by (cases x; auto simp: request_started_def request_finished_def Let_def record_security_event_def
      record_authorization_decision_def set_ready_def)+

definition counts_finished :: "metrics_event list \<Rightarrow> string \<Rightarrow> string \<Rightarrow> histogram \<Rightarrow> bool" where
  "counts_finished steps verb route h \<longleftrightarrow>
     hg_count h = steps_with (finished_as (\<lambda>v r _ _. v = verb \<and> r = route)) steps
     \<and> hg_bucket_counts h = map (\<lambda>(_, boundary).
          steps_with (finished_as (\<lambda>v r _ t. v = verb \<and> r = route \<and> t \<le> boundary)) steps) HTTP_DURATION_BUCKETS"

lemma observe_counts:
  assumes "counts_finished steps (metric_method v) r h"
  shows "counts_finished (steps @ [Request_finished v r s t]) (metric_method v) r (observe F t h)"
proof -
  have "map2 (\<lambda>(_, boundary) n. if t \<le> boundary then n + 1 else n) bs (map (\<lambda>(_, b). f b) bs)
      = map (\<lambda>(_, b). f b + (if t \<le> b then 1 else 0)) bs" for f :: "rat \<Rightarrow> int" and bs :: "(string \<times> rat) list"
    by (induction bs) auto
  then show ?thesis using assms by (simp add: counts_finished_def observe_def)
qed

lemma unobserved_counts:
  assumes "counts_finished steps verb route h" and "\<And>v r s t. x = Request_finished v r s t \<Longrightarrow> \<not> (metric_method v = verb \<and> r = route)"
  shows "counts_finished (steps @ [x]) verb route h"
  using assms by (cases x) (auto simp: counts_finished_def)

lemma histogram_counts: "counts_finished steps verb route (histogram_at (fold (metrics_step F) steps (new_metrics now)) (verb, route))"
proof (induction steps rule: rev_induct)
  case Nil
  show ?case by (simp add: counts_finished_def histogram_at_def new_metrics_def new_histogram_def HTTP_DURATION_BUCKETS_def eval_nat_numeral)
next
  case (snoc x steps)
  let ?m = "fold (metrics_step F) steps (new_metrics now)"
  show ?case
  proof (cases "\<exists>v r s t. x = Request_finished v r s t \<and> metric_method v = verb \<and> r = route")
    case True
    then obtain v r s t where x: "x = Request_finished v r s t" "metric_method v = verb" "r = route" by blast
    then show ?thesis using observe_counts [of steps v r "histogram_at ?m (verb, route)" s t F] snoc.IH
      by (simp add: histogram_step x del: metrics_step.simps)
  next
    case False
    then have "histogram_at (metrics_step F x ?m) (verb, route) = histogram_at ?m (verb, route)"
      by (cases x) (auto simp: histogram_step simp del: metrics_step.simps)
    then show ?thesis using unobserved_counts [OF snoc.IH, of x] False by auto
  qed
qed

lemma metrics_tallies:
  "tally (mt_http_requests (fold (metrics_step F) steps (new_metrics now))) (verb, route, status)
     = steps_with (finished_as (\<lambda>v r s _. v = verb \<and> r = route \<and> s = status)) steps"
  "tally (mt_security_events (fold (metrics_step F) steps (new_metrics now))) event = steps_with (\<lambda>x. x = Security_event event) steps"
  "tally (mt_authorization_decisions (fold (metrics_step F) steps (new_metrics now))) d
     = steps_with (\<lambda>x. x = Authorization_decision d) steps"
  by (induction steps rule: rev_induct) (simp_all add: requests_step events_step, simp_all add: tally_def new_metrics_def)

lemma metrics_in_flight:
  "balanced steps \<Longrightarrow> mt_in_flight (fold (metrics_step F) steps (new_metrics now))
     = steps_with (\<lambda>x. x = Request_started) steps - steps_with (finished_as (\<lambda>_ _ _ _. True)) steps"
proof (induction steps rule: rev_induct)
  case (snoc x steps)
  have "mt_in_flight (metrics_step F x (fold (metrics_step F) steps (new_metrics now)))
      = steps_with (\<lambda>x. x = Request_started) (steps @ [x]) - steps_with (finished_as (\<lambda>_ _ _ _. True)) (steps @ [x])"
    by (rule in_flight_step [OF balanced_all [OF snoc.prems] snoc.IH [OF balanced_snoc [OF snoc.prems]]])
  then show ?case by simp
qed (simp add: new_metrics_def)

text \<open>
  After any sequence of metric updates without a reset, every request counter, every event counter
  and every decision counter is the number of the updates with its labels, the histogram of a method
  and a route counts the finished requests and, in each bucket, those at most as long as its
  boundary; while no request finishes before it starts, the gauge is the number of requests in flight.
\<close>

theorem metrics_count_steps:
  "let m = fold (metrics_step F) steps (new_metrics now);
       finished = (\<lambda>P. steps_with (finished_as P) steps);
       h = histogram_at m (verb, route)
   in tally (mt_http_requests m) (verb, route, status) = finished (\<lambda>v r s _. v = verb \<and> r = route \<and> s = status)
    \<and> tally (mt_security_events m) event = steps_with (\<lambda>x. x = Security_event event) steps
    \<and> tally (mt_authorization_decisions m) d = steps_with (\<lambda>x. x = Authorization_decision d) steps
    \<and> hg_count h = finished (\<lambda>v r _ _. v = verb \<and> r = route)
    \<and> hg_bucket_counts h = map (\<lambda>(_, boundary). finished (\<lambda>v r _ t. v = verb \<and> r = route \<and> t \<le> boundary)) HTTP_DURATION_BUCKETS
    \<and> (balanced steps \<longrightarrow>
         mt_in_flight m = steps_with (\<lambda>x. x = Request_started) steps - finished (\<lambda>_ _ _ _. True))"
  using histogram_counts [of steps verb route F now] metrics_in_flight [of steps F now]
  unfolding Let_def counts_finished_def metrics_tallies by (intro conjI impI) (auto simp only:)

theorem metrics_count_steps_witness:
  "mt_in_flight (fold (metrics_step \<lparr>fl_add = (+), fl_text = (\<lambda>_. [])\<rparr>)
     [Request_started, Request_started, Request_finished ''GET'' ''/health'' 200 1] (new_metrics 0)) = 1"
proof -
  have "balanced [Request_started, Request_started, Request_finished ''GET'' ''/health'' 200 1]"
    by (simp add: balanced_def upt_rec steps_with_def)
  then show ?thesis
    using metrics_count_steps [where F = "\<lparr>fl_add = (+), fl_text = (\<lambda>_. [])\<rparr>" and now = 0
        and steps = "[Request_started, Request_started, Request_finished ''GET'' ''/health'' 200 1]"
        and verb = "''GET''" and route = "''/health''" and status = "''200''" and event = "[]" and d = "[]"]
    by (simp add: Let_def steps_with_def)
qed

section \<open>The text reads back\<close>

text \<open>A reader of the text format: comments are skipped, every other line is a sample.\<close>

fun read_quoted :: "string \<Rightarrow> (string \<times> string) option" where
  "read_quoted [] = None"
| "read_quoted (c # s) =
     (if c = CHR 0x22 then Some ([], s)
      else if c = CHR 0x5C then
        (case s of
           [] \<Rightarrow> None
         | d # t \<Rightarrow> map_option (\<lambda>(v, rest). ((if d = CHR ''n'' then CHR 0x0A else d) # v, rest)) (read_quoted t))
      else map_option (\<lambda>(v, rest). (c # v, rest)) (read_quoted s))"

fun read_labels :: "nat \<Rightarrow> string \<Rightarrow> ((string \<times> string) list \<times> string) option" where
  "read_labels 0 s = None"
| "read_labels (Suc n) s = (case partition_char (CHR ''='') s of
     (name, _, quote # s1) \<Rightarrow>
       (case read_quoted s1 of
          Some (value, c # s2) \<Rightarrow>
            if c = CHR '','' then map_option (\<lambda>(ls, rest). ((name, value) # ls, rest)) (read_labels n s2)
            else Some ([(name, value)], s2)
        | _ \<Rightarrow> None)
   | _ \<Rightarrow> None)"

definition name_char :: "char \<Rightarrow> bool" where
  "name_char c \<longleftrightarrow> c \<notin> {CHR ''{'', CHR '' '', CHR ''='', CHR ''#'', CHR 0x0A}"

definition read_sample :: "string \<Rightarrow> (string \<times> (string \<times> string) list \<times> string) option" where
  "read_sample line = (case dropWhile name_char line of
     c # s \<Rightarrow>
       if c = CHR ''{'' then
         (case read_labels (length s) s of
            Some (ls, _ # value) \<Rightarrow> Some (takeWhile name_char line, ls, value)
          | _ \<Rightarrow> None)
       else Some (takeWhile name_char line, [], s)
   | [] \<Rightarrow> None)"

definition read_metrics :: "string \<Rightarrow> (string \<times> (string \<times> string) list \<times> string) option list" where
  "read_metrics text = map read_sample (filter (\<lambda>l. l \<noteq> [] \<and> hd l \<noteq> CHR ''#'') (split_char (CHR 0x0A) text))"

definition escaped :: "char \<Rightarrow> string" where
  "escaped c = (if c = CHR 0x5C then [CHR 0x5C, CHR 0x5C] else if c = CHR 0x0A then [CHR 0x5C, CHR ''n'']
     else if c = CHR 0x22 then [CHR 0x5C, CHR 0x22] else [c])"

lemma escape_label_chars: "escape_label s = concat (map escaped s)"
  by (induction s) (simp_all add: escape_label_def escaped_def)

lemma read_escaped: "read_quoted (escape_label v @ CHR 0x22 # rest) = Some (v, rest)"
  unfolding escape_label_chars by (induction v) (simp_all add: escaped_def)

lemma escape_label_line: "CHR 0x0A \<notin> set (escape_label v)"
  unfolding escape_label_chars by (induction v) (simp_all add: escaped_def)

lemma partition_name: "list_all name_char name \<Longrightarrow> partition_char (CHR ''='') (name @ CHR ''='' # s) = (name, True, s)"
  by (induction name) (auto simp: name_char_def)

lemma read_joined:
  assumes "ls \<noteq> []" and "list_all (\<lambda>l. list_all name_char (fst l)) ls" and "length ls \<le> n"
  shows "read_labels n (join_with '','' (map label_text ls) @ CHR ''}'' # rest) = Some (ls, rest)"
  using assms
proof (induction ls arbitrary: n)
  case (Cons l ls)
  obtain name v where l: "l = (name, v)" by (cases l)
  obtain k where n: "n = Suc k" using Cons.prems(3) by (cases n) auto
  have name: "list_all name_char name" using Cons.prems(2) l by simp
  show ?case
  proof (cases ls)
    case Nil
    then show ?thesis by (simp add: n l label_text_def partition_name [OF name] read_escaped)
  next
    case (Cons a as)
    have "read_labels k (join_with '','' (map label_text ls) @ CHR ''}'' # rest) = Some (ls, rest)"
      using Cons.IH [of k] Cons.prems n Cons by simp
    then show ?thesis
      by (simp add: n l label_text_def [of "(name, v)"] partition_name [OF name] read_escaped Cons)
  qed
qed simp

lemma label_length: "length ls \<le> length (join_with '','' (map label_text ls))"
proof (induction ls)
  case (Cons l ls)
  then show ?case by (cases ls) (auto simp: label_text_def)
qed simp

lemma name_span:
  assumes "list_all name_char name" and "\<not> name_char c"
  shows "takeWhile name_char (name @ c # s) = name" and "dropWhile name_char (name @ c # s) = c # s"
  using assms by (induction name) auto

lemma read_written_sample:
  assumes name: "list_all name_char name" and ls: "list_all (\<lambda>l. list_all name_char (fst l)) ls"
  shows "read_sample (sample name ls value) = Some (name, sort_key fst ls, value)"
proof (cases "ls = []")
  case True
  have "\<not> name_char CHR '' ''" by (simp add: name_char_def)
  from name_span [OF name this] show ?thesis by (simp add: True read_sample_def sample_def labels_text_def)
next
  case False
  let ?s = "join_with '','' (map label_text (sort_key fst ls)) @ CHR ''}'' # CHR '' '' # value"
  have sorted: "sort_key fst ls \<noteq> []" "list_all (\<lambda>l. list_all name_char (fst l)) (sort_key fst ls)"
    using False ls by (simp_all add: list_all_iff) (metis set_empty set_sort)
  have "length (sort_key fst ls) \<le> length ?s" using label_length [of "sort_key fst ls"] by simp
  from read_joined [OF sorted this, of "CHR '' '' # value"]
  have "read_labels (length ?s) ?s = Some (sort_key fst ls, CHR '' '' # value)" .
  moreover have "\<not> name_char CHR ''{''" by (simp add: name_char_def)
  ultimately show ?thesis using name_span [OF name, of "CHR ''{''"] False
    by (simp add: read_sample_def sample_def labels_text_def)
qed

section \<open>The samples of a registry\<close>

type_synonym sample_value = "string \<times> (string \<times> string) list \<times> string"

definition histogram_samples :: "float_library \<Rightarrow> (string \<times> string) \<times> histogram \<Rightarrow> sample_value list" where
  "histogram_samples F item = (case item of ((verb, route), h) \<Rightarrow>
     let ls = [(''method'', verb), (''route'', route)] in
     map2 (\<lambda>(text, _) n. (''decaustrum_http_request_duration_seconds_bucket'', (''le'', text) # ls, show_int n))
       HTTP_DURATION_BUCKETS (hg_bucket_counts h)
     @ [(''decaustrum_http_request_duration_seconds_bucket'', (''le'', ''+Inf'') # ls, show_int (hg_count h)),
        (''decaustrum_http_request_duration_seconds_sum'', ls, fl_text F (hg_total h)),
        (''decaustrum_http_request_duration_seconds_count'', ls, show_int (hg_count h))])"

definition metrics_samples :: "float_library \<Rightarrow> metrics \<Rightarrow> sample_value list" where
  "metrics_samples F m =
     [(''decaustrum_build_info'', [(''version'', DECAUSTRUM_VERSION)], ''1''),
      (''decaustrum_process_start_time_seconds'', [], fl_text F (mt_started_at m)),
      (''decaustrum_http_in_flight_requests'', [], show_int (mt_in_flight m)),
      (''decaustrum_ready'', [], show_int (mt_ready m))]
     @ map (\<lambda>((verb, route, status), n). (''decaustrum_http_requests_total'',
            [(''method'', verb), (''route'', route), (''status'', status)], show_int n))
         (sort_key (\<lambda>((verb, route, status), _). [verb, route, status]) (mt_http_requests m))
     @ concat (map (histogram_samples F) (sort_key (\<lambda>((verb, route), _). [verb, route]) (mt_http_durations m)))
     @ map (\<lambda>(event, n). (''decaustrum_security_events_total'', [(''event'', event)], show_int n))
         (sort_key fst (mt_security_events m))
     @ map (\<lambda>(d, n). (''decaustrum_authorization_decisions_total'', [(''decision'', d)], show_int n))
         (sort_key fst (mt_authorization_decisions m))"

definition reads :: "string list \<Rightarrow> (string \<times> (string \<times> string) list \<times> string) option list" where
  "reads ls = map read_sample (filter (\<lambda>l. l \<noteq> [] \<and> hd l \<noteq> CHR ''#'') ls)"

lemma reads_append: "reads (xs @ ys) = reads xs @ reads ys"
  by (simp add: reads_def)

lemma reads_Nil: "reads [] = []"
  by (simp add: reads_def)

lemma reads_help: "reads (metric_help name kind description) = []"
  by (simp add: reads_def metric_help_def)

definition metric_name :: "string \<Rightarrow> bool" where
  "metric_name name \<longleftrightarrow> name \<noteq> [] \<and> list_all name_char name"

lemma reads_sample:
  assumes "metric_name name" and "list_all (\<lambda>l. list_all name_char (fst l)) ls"
  shows "reads (sample name ls value # xs) = Some (name, sort_key fst ls, value) # reads xs"
proof -
  from assms(1) obtain c s where "name = c # s" "name_char c" by (cases name) (auto simp: metric_name_def)
  then have "sample name ls value \<noteq> []" "hd (sample name ls value) \<noteq> CHR ''#''" by (auto simp: sample_def name_char_def)
  then show ?thesis using read_written_sample [of name ls] assms by (simp add: reads_def metric_name_def)
qed

lemma reads_map:
  assumes "\<And>x. reads [f x] = [Some (g x)]"
  shows "reads (map f xs) = map (\<lambda>x. Some (g x)) xs"
proof (induction xs)
  case (Cons x xs)
  then show ?case using reads_append [of "[f x]" "map f xs"] assms by simp
qed (simp add: reads_Nil)

lemma reads_concat:
  assumes "\<And>x. reads (f x) = map Some (g x)"
  shows "reads (concat (map f xs)) = map Some (concat (map g xs))"
  using assms by (induction xs) (simp_all add: reads_Nil reads_append)

lemma label_order:
  "sort_key fst [(''method'', a), (''route'', b)] = [(''method'', a), (''route'', b)]"
  "sort_key fst [(''method'', a), (''route'', b), (''status'', c)] = [(''method'', a), (''route'', b), (''status'', c)]"
  "sort_key fst [(''method'', a), (''route'', b), (''le'', c)] = [(''le'', c), (''method'', a), (''route'', b)]"
  by (simp_all add: less_char_def less_eq_char_def)

lemmas reads_rules = reads_append reads_Nil reads_help

lemma reads_one: "metric_name name \<Longrightarrow> list_all (\<lambda>l. list_all name_char (fst l)) ls
    \<Longrightarrow> reads [sample name ls value] = [Some (name, sort_key fst ls, value)]"
  by (simp add: reads_sample reads_Nil)

lemma reads_histogram: "reads (histogram_lines F item) = map Some (histogram_samples F item)"
proof -
  obtain verb route h where item: "item = ((verb, route), h)" by (metis surj_pair)
  have "reads [sample ''decaustrum_http_request_duration_seconds_bucket''
          [(''method'', verb), (''route'', route), (''le'', fst (fst x))] (show_int (snd x))]
      = [Some (''decaustrum_http_request_duration_seconds_bucket'',
          [(''le'', fst (fst x)), (''method'', verb), (''route'', route)], show_int (snd x))]" for x :: "(string \<times> rat) \<times> int"
    by (simp add: reads_one metric_name_def name_char_def label_order)
  from reads_map [where f = "\<lambda>x. sample ''decaustrum_http_request_duration_seconds_bucket''
          [(''method'', verb), (''route'', route), (''le'', fst (fst x))] (show_int (snd x))", OF this]
  have buckets: "reads (map (\<lambda>x. sample ''decaustrum_http_request_duration_seconds_bucket''
          [(''method'', verb), (''route'', route), (''le'', fst (fst x))] (show_int (snd x))) xs)
      = map Some (map (\<lambda>x. (''decaustrum_http_request_duration_seconds_bucket'',
          [(''le'', fst (fst x)), (''method'', verb), (''route'', route)], show_int (snd x))) xs)" for xs :: "((string \<times> rat) \<times> int) list"
    by simp
  show ?thesis
    unfolding item histogram_lines_def histogram_samples_def prod.case Let_def reads_append case_prod_unfold append.simps buckets
    by (simp add: buckets reads_sample reads_Nil metric_name_def name_char_def label_order)
qed

lemma reads_metrics_lines: "reads (metrics_lines F m) = map Some (metrics_samples F m)"
proof -
  have requests: "reads [(\<lambda>((verb, route, status), n). sample ''decaustrum_http_requests_total''
            [(''method'', verb), (''route'', route), (''status'', status)] (show_int n)) x]
      = [Some ((\<lambda>((verb, route, status), n). (''decaustrum_http_requests_total'',
            [(''method'', verb), (''route'', route), (''status'', status)], show_int n)) x)]"
    for x :: "(string \<times> string \<times> string) \<times> int"
    by (cases x; cases "fst x") (simp add: reads_one metric_name_def name_char_def label_order)
  have events: "reads [(\<lambda>(event, n). sample ''decaustrum_security_events_total'' [(''event'', event)] (show_int n)) x]
      = [Some ((\<lambda>(event, n). (''decaustrum_security_events_total'', [(''event'', event)], show_int n)) x)]"
    "reads [(\<lambda>(d, n). sample ''decaustrum_authorization_decisions_total'' [(''decision'', d)] (show_int n)) x]
      = [Some ((\<lambda>(d, n). (''decaustrum_authorization_decisions_total'', [(''decision'', d)], show_int n)) x)]"
    for x :: "string \<times> int"
    by (cases x; simp add: reads_one metric_name_def name_char_def)+
  show ?thesis
    unfolding metrics_lines_def metrics_samples_def reads_append reads_help append_Nil
      reads_map [of _ _, OF requests] reads_map [of _ _, OF events(1)] reads_map [of _ _, OF events(2)]
      reads_concat [of _ _, OF reads_histogram]
    by (simp add: reads_one metric_name_def name_char_def)
qed

lemma split_lines_back:
  assumes "list_all (\<lambda>l. c \<notin> set l) ls" and "ls \<noteq> []"
  shows "split_char c (join_with [c] ls @ [c]) = ls @ [[]]"
proof -
  have one: "split_char c (l @ c # s) = l # split_char c s" if "c \<notin> set l" for l s
    using that by (induction l) auto
  show ?thesis using assms
  proof (induction ls)
    case (Cons l ls)
    then show ?case by (cases ls) (simp_all add: one)
  qed simp
qed

abbreviation one_line :: "string \<Rightarrow> bool" where
  "one_line s \<equiv> CHR 0x0A \<notin> set s"

lemma one_line_number [simp]: "one_line (show_int i)"
  using show_int_chars [of "CHR 0x0A" i] by (auto simp: is_digit_def)

lemma one_line_joined: "list_all one_line ls \<Longrightarrow> one_line (join_with '','' ls)"
  by (induction "'',''" ls rule: join_with.induct) auto

lemma one_line_sample:
  assumes "one_line name" and "list_all (\<lambda>l. one_line (fst l)) ls" and "one_line value"
  shows "one_line (sample name ls value)"
proof -
  have "list_all one_line (map label_text (sort_key fst ls))"
    using assms(2) escape_label_line by (auto simp: list_all_iff label_text_def)
  from one_line_joined [OF this] assms show ?thesis by (simp add: sample_def labels_text_def)
qed

lemma sample_newline: "CHR 0x0A \<in> set (sample name ls v) \<Longrightarrow>
    CHR 0x0A \<in> set name \<or> (\<exists>l \<in> set ls. CHR 0x0A \<in> set (fst l)) \<or> CHR 0x0A \<in> set v"
  using one_line_sample [of name ls v] by (auto simp: list_all_iff)

lemma list_all_concat: "(\<And>x. list_all P (f x)) \<Longrightarrow> list_all P (concat (map f xs))"
  by (induction xs) auto

lemma list_all_image: "(\<And>x. P (f x)) \<Longrightarrow> list_all P (map f xs)"
  by (induction xs) auto

lemma metrics_lines_plain:
  assumes "\<And>x. one_line (fl_text F x)"
  shows "list_all one_line (metrics_lines F m)"
proof -
  have histogram: "list_all one_line (histogram_lines F item)" for item
  proof -
    obtain verb route h where item: "item = ((verb, route), h)" by (metis surj_pair)
    have "one_line t" if "((t, b), n) \<in> set (zip HTTP_DURATION_BUCKETS ns)" for t b n ns
      using set_zip_leftD [OF that] by (auto simp: HTTP_DURATION_BUCKETS_def)
    then have "list_all one_line (map2 (\<lambda>(text, _) n. sample ''decaustrum_http_request_duration_seconds_bucket''
        [(''method'', verb), (''route'', route), (''le'', text)] (show_int n)) HTTP_DURATION_BUCKETS ns)" for ns
      by (auto simp: list_all_iff dest!: sample_newline)
    then show ?thesis using assms
      by (auto simp: item histogram_lines_def Let_def simp del: list.pred_map dest!: sample_newline)
  qed
  show ?thesis
    using assms unfolding metrics_lines_def metric_help_def
    by (auto simp: list_all_append DECAUSTRUM_VERSION_def simp del: list.pred_map
        intro!: list_all_concat list_all_image histogram dest!: sample_newline)
qed

text \<open>
  The Prometheus text of a registry reads back as exactly its samples, each with its labels and
  its value, whatever the texts of the labels are: no method, route or event can forge a sample or end
  its line.
\<close>

theorem metrics_text_reads:
  assumes "\<And>x. CHR 0x0A \<notin> set (fl_text F x)"
  shows "read_metrics (render_prometheus F m) = map Some (metrics_samples F m)"
proof -
  have "metrics_lines F m \<noteq> []" by (simp add: metrics_lines_def metric_help_def)
  from split_lines_back [OF metrics_lines_plain [OF assms] this]
  have "read_metrics (render_prometheus F m) = reads (metrics_lines F m)"
    by (simp add: read_metrics_def render_prometheus_def reads_def)
  then show ?thesis by (simp add: reads_metrics_lines)
qed

theorem metrics_text_reads_witness:
  "read_metrics (render_prometheus \<lparr>fl_add = (+), fl_text = (\<lambda>_. ''0'')\<rparr>
      (record_security_event (''a'' @ [CHR 0x22, CHR 0x0A] @ ''b'') (new_metrics 0)))
   = map Some [(''decaustrum_build_info'', [(''version'', ''0.1.0'')], ''1''),
      (''decaustrum_process_start_time_seconds'', [], ''0''), (''decaustrum_http_in_flight_requests'', [], ''0''),
      (''decaustrum_ready'', [], ''0''),
      (''decaustrum_security_events_total'', [(''event'', ''a'' @ [CHR 0x22, CHR 0x0A] @ ''b'')], ''1'')]"
proof -
  have "show_int 0 = ''0''" "show_int 1 = ''1''" by code_simp+
  then show ?thesis
    by (subst metrics_text_reads) (simp_all add: metrics_samples_def record_security_event_def new_metrics_def
        DECAUSTRUM_VERSION_def counted_up_def)
qed

end
