(* ===== verification/Http_Middleware.thy ===== *)
theory Http_Middleware
  imports Runtime_Config Rate_Limit Observability
begin

text \<open>
  The ASGI middleware every HTTP request passes, \<open>app/http_middleware.py\<close>: its checks in their
  order, the receive and send it hands to the application, the responses it makes itself and what it
  reports to the metrics. The application is any finite interaction with its receive and send; the
  header collection of Starlette is a parameter with its documented laws. The server's send does not
  raise. The log records are left out.
\<close>

section \<open>Requests, messages and the application\<close>

type_synonym raw_headers = "(string \<times> string) list"

record header_library =
  hl_get :: "raw_headers \<Rightarrow> string \<Rightarrow> string option"
  hl_getlist :: "raw_headers \<Rightarrow> string \<Rightarrow> string list"
  hl_set :: "string \<Rightarrow> string \<Rightarrow> raw_headers \<Rightarrow> raw_headers"
  hl_append :: "string \<Rightarrow> string \<Rightarrow> raw_headers \<Rightarrow> raw_headers"

record http_scope =
  hs_type :: string
  hs_method :: "string option"
  hs_path :: "string option"
  hs_scheme :: "string option"
  hs_headers :: raw_headers
  hs_client :: "string option"

datatype incoming = Request_body string | Other_incoming string

datatype outgoing = Start int raw_headers | Part string | Other_outgoing string

text \<open>\<open>Interrupt\<close> stands for a \<open>BaseException\<close> that is no \<open>Exception\<close>, such as a cancellation.\<close>

datatype failure = RequestBodyTooLarge | Failure string | Interrupt string

text \<open>What a \<open>receive\<close> gives the application: a message, or \<open>RequestBodyTooLarge\<close> raised in it.\<close>

datatype received = Message incoming | Too_large

datatype app =
    Finished
  | Raises failure
  | Emit outgoing app
  | Await "received \<Rightarrow> app"

section \<open>Reading the request\<close>

definition REQUEST_ID_PATTERN :: "string \<Rightarrow> bool" where
  "REQUEST_ID_PATTERN s \<longleftrightarrow> 1 \<le> length s \<and> length s \<le> 128
     \<and> list_all (\<lambda>c. is_ascii_alpha c \<or> is_digit c \<or> c \<in> {CHR ''.'', CHR ''_'', CHR '':'', CHR ''-''}) s"

definition request_id :: "header_library \<Rightarrow> raw_headers \<Rightarrow> uuid \<Rightarrow> string" where
  "request_id H raw fresh = (case hl_get H raw ''x-request-id'' of
     None \<Rightarrow> uuid_text fresh
   | Some candidate \<Rightarrow> if REQUEST_ID_PATTERN candidate then candidate else uuid_text fresh)"

definition host_without_port :: "string \<Rightarrow> string" where
  "host_without_port host_header =
     (let value = rstrip_char (CHR ''.'') (py_lower (strip host_header)) in
      if starts_with ''['' value then
        (case partition_char (CHR '']'') value of
           (before, found, _) \<Rightarrow> if found then tl before else [])
      else if length (filter (\<lambda>c. c = CHR '':'') value) = 1 then
        (case rpartition_char (CHR '':'') value of
           (host, _, possible_port) \<Rightarrow> if is_digits possible_port then host else value)
      else value)"

fun host_allowed :: "string \<Rightarrow> string list \<Rightarrow> bool" where
  "host_allowed host [] = False"
| "host_allowed host (pattern # patterns) =
     (let normalized = rstrip_char (CHR ''.'') (py_lower pattern) in
      if starts_with ''*.'' normalized then
        (let suffix = tl normalized in
         if ends_with suffix host \<and> host \<noteq> tl suffix then True else host_allowed host patterns)
      else if host = normalized then True
      else host_allowed host patterns)"

definition origin_allowed :: "string \<Rightarrow> string list \<Rightarrow> bool" where
  "origin_allowed origin allowed_origins =
     list_ex (\<lambda>configured. rstrip_char (CHR ''/'') origin = rstrip_char (CHR ''/'') configured) allowed_origins"

definition early_route :: "string \<Rightarrow> string" where
  "early_route path =
     (if path = ''/v1/authorize'' then ''/v1/authorize''
      else if starts_with ''/v1/admin/'' path then ''/v1/admin/*''
      else if starts_with ''/v1/'' path then ''/v1/*''
      else if path \<in> {''/health'', ''/health/live'', ''/health/ready'', ''/metrics'', ''/docs'', ''/redoc'', ''/openapi.json''}
      then path
      else ''unmatched'')"

definition scope_path :: "http_scope \<Rightarrow> string" where
  "scope_path scope = (case hs_path scope of None \<Rightarrow> [] | Some path \<Rightarrow> path)"

definition scope_scheme :: "http_scope \<Rightarrow> string" where
  "scope_scheme scope = (case hs_scheme scope of None \<Rightarrow> ''http'' | Some scheme \<Rightarrow> scheme)"

definition scope_method :: "http_scope \<Rightarrow> string" where
  "scope_method scope = py_upper (case hs_method scope of None \<Rightarrow> ''UNKNOWN'' | Some verb \<Rightarrow> verb)"

text \<open>The path of the route the application has matched, when it has.\<close>

definition resolved_route :: "http_scope \<Rightarrow> string option \<Rightarrow> string" where
  "resolved_route scope route = (case route of Some path \<Rightarrow> path | None \<Rightarrow> early_route (scope_path scope))"

definition rate_policy :: "header_library \<Rightarrow> runtime_settings \<Rightarrow> http_scope \<Rightarrow> (string \<times> string option \<times> int) option" where
  "rate_policy H s scope =
     (let path = scope_path scope in
      if path = ''/v1/authorize''
      then Some (''authorization'', hl_get H (hs_headers scope) ''x-api-key'', rs_authorization_rate_limit s)
      else if starts_with ''/v1/admin/'' path \<or> path = ''/metrics''
      then Some (''admin'', hl_get H (hs_headers scope) ''x-admin-api-key'', rs_admin_rate_limit s)
      else if starts_with ''/v1/'' path
      then Some (''tenant'', hl_get H (hs_headers scope) ''x-api-key'', rs_tenant_rate_limit s)
      else None)"

definition JSON_BODY_METHODS :: "string list" where
  "JSON_BODY_METHODS = [''POST'', ''PUT'', ''PATCH'']"

definition CORS_METHODS :: "string list" where
  "CORS_METHODS = [''GET'', ''POST'', ''PUT'', ''PATCH'', ''DELETE'', ''OPTIONS'']"

definition CORS_HEADERS :: "string list" where
  "CORS_HEADERS = [''accept'', ''content-type'', ''idempotency-key'', ''x-admin-actor'', ''x-admin-api-key'',
     ''x-api-key'', ''x-audit-reason'', ''x-request-id'']"

text \<open>\<open>None\<close> is \<open>InvalidContentLength\<close>.\<close>

definition content_length :: "header_library \<Rightarrow> raw_headers \<Rightarrow> int option" where
  "content_length H raw =
     (let raw_values = hl_getlist H raw ''content-length'' in
      if (case hl_get H raw ''transfer-encoding'' of
            None \<Rightarrow> False
          | Some transfer_encoding \<Rightarrow> raw_values \<noteq> [] \<or> py_lower (strip transfer_encoding) \<noteq> ''chunked'') then None
      else (case raw_values of
        [] \<Rightarrow> Some 0
      | [raw_value] \<Rightarrow>
          (case python_int raw_value of
             None \<Rightarrow> None
           | Some n \<Rightarrow> if n < 0 then None else Some n)
      | _ \<Rightarrow> None))"

definition is_json_content_type :: "header_library \<Rightarrow> raw_headers \<Rightarrow> bool" where
  "is_json_content_type H raw =
     (let content_type = (case hl_get H raw ''content-type'' of None \<Rightarrow> [] | Some v \<Rightarrow> v);
          media_type = py_lower (strip (fst (partition_char (CHR '';'') content_type)))
      in media_type = ''application/json'' \<or> ends_with ''+json'' media_type)"

section \<open>Responses\<close>

definition rate_headers :: "rate_decision option \<Rightarrow> raw_headers" where
  "rate_headers d = (case d of
     None \<Rightarrow> []
   | Some d \<Rightarrow> [(''RateLimit-Limit'', show_int (rd_limit d)), (''RateLimit-Remaining'', show_int (rd_remaining d)),
       (''RateLimit-Reset'', show_int (rd_reset_at d))])"

definition set_headers :: "header_library \<Rightarrow> raw_headers \<Rightarrow> raw_headers \<Rightarrow> raw_headers" where
  "set_headers H = fold (\<lambda>(name, v). hl_set H name v)"

definition apply_response_headers ::
  "header_library \<Rightarrow> string \<Rightarrow> string \<Rightarrow> string option \<Rightarrow> rate_decision option \<Rightarrow> raw_headers \<Rightarrow> raw_headers" where
  "apply_response_headers H rid scheme origin decision raw =
     (let raw = set_headers H ([(''X-Request-ID'', rid), (''X-Content-Type-Options'', ''nosniff''),
            (''X-Frame-Options'', ''DENY''), (''Referrer-Policy'', ''no-referrer''), (''Cache-Control'', ''no-store''),
            (''Permissions-Policy'', ''camera=(), microphone=(), geolocation=()'')]
          @ (if scheme = ''https'' then [(''Strict-Transport-Security'', ''max-age=31536000; includeSubDomains'')] else [])
          @ rate_headers decision) raw
      in case origin of
        None \<Rightarrow> raw
      | Some origin \<Rightarrow> hl_append H ''Vary'' ''Origin'' (set_headers H [(''Access-Control-Allow-Origin'', origin),
            (''Access-Control-Expose-Headers'', ''X-Request-ID, RateLimit-Limit, RateLimit-Remaining, RateLimit-Reset'')] raw))"

definition error_body :: "string \<Rightarrow> string \<Rightarrow> string" where
  "error_body code message =
     print_json (\<lambda>_ _. []) (JObj [(''detail'', JObj [(''code'', JStr code), (''message'', JStr message)])])"

definition send_json_error :: "header_library \<Rightarrow> string \<Rightarrow> string \<Rightarrow> string option \<Rightarrow> int \<Rightarrow> string \<Rightarrow> string
    \<Rightarrow> rate_decision option \<Rightarrow> raw_headers \<Rightarrow> outgoing list" where
  "send_json_error H rid scheme origin status_code code message decision extra_headers =
     (let body = error_body code message;
          raw = [(''content-type'', ''application/json''), (''content-length'', show_int (int (length body)))]
      in [Start status_code (set_headers H extra_headers (apply_response_headers H rid scheme origin decision raw)),
          Part body])"

definition send_empty :: "header_library \<Rightarrow> string \<Rightarrow> string \<Rightarrow> string \<Rightarrow> int \<Rightarrow> outgoing list" where
  "send_empty H rid scheme origin status_code =
     [Start status_code (set_headers H [(''Access-Control-Allow-Methods'', join_with '', '' (sort CORS_METHODS)),
         (''Access-Control-Allow-Headers'', join_with '', '' (sort CORS_HEADERS)), (''Access-Control-Max-Age'', ''600'')]
       (apply_response_headers H rid scheme (Some origin) None [(''content-length'', ''0'')])),
      Part []]"

section \<open>The checks\<close>

text \<open>
  What the checks before the rate limit come to: a refusal with its status, its code (also the name
  of the security event) and its message, the answer to a preflight, or none.
\<close>

datatype verdict = Refused int string string | Preflight | Accepted

definition allowed_origin :: "header_library \<Rightarrow> runtime_settings \<Rightarrow> http_scope \<Rightarrow> string option" where
  "allowed_origin H s scope = (case hl_get H (hs_headers scope) ''origin'' of
     None \<Rightarrow> None
   | Some origin \<Rightarrow> if origin_allowed origin (rs_cors_allowed_origins s) then Some origin else None)"

definition preflight_denied :: "header_library \<Rightarrow> raw_headers \<Rightarrow> bool" where
  "preflight_denied H raw =
     (let requested_method = py_upper (case hl_get H raw ''access-control-request-method'' of None \<Rightarrow> [] | Some v \<Rightarrow> v);
          requested_headers = [py_lower (strip v). v \<leftarrow> split_char (CHR '','')
              (case hl_get H raw ''access-control-request-headers'' of None \<Rightarrow> [] | Some v \<Rightarrow> v), strip v \<noteq> []]
      in requested_method \<notin> set CORS_METHODS \<or> \<not> set requested_headers \<subseteq> set CORS_HEADERS)"

definition screen_request :: "header_library \<Rightarrow> runtime_settings \<Rightarrow> http_scope \<Rightarrow> verdict" where
  "screen_request H s scope =
     (let raw = hs_headers scope;
          host = host_without_port (case hl_getlist H raw ''host'' of [v] \<Rightarrow> v | _ \<Rightarrow> [])
      in if \<not> host_allowed host (rs_trusted_hosts s)
      then Refused 400 ''invalid_host'' ''Request host is not trusted.''
      else if rs_enforce_https s \<and> hs_scheme scope \<noteq> Some ''https''
      then Refused 400 ''https_required'' ''HTTPS is required.''
      else if hl_get H raw ''origin'' \<noteq> None \<and> allowed_origin H s scope = None
      then Refused 403 ''cors_origin_denied'' ''Request origin is not allowed.''
      else if scope_method scope = ''OPTIONS'' \<and> allowed_origin H s scope \<noteq> None
        \<and> hl_get H raw ''access-control-request-method'' \<noteq> None
      then (if preflight_denied H raw then Refused 403 ''cors_preflight_denied'' ''CORS preflight is not allowed.''
            else Preflight)
      else (case content_length H raw of
        None \<Rightarrow> Refused 400 ''invalid_content_length'' ''Content-Length must be a non-negative integer.''
      | Some n \<Rightarrow>
          if n > rs_max_request_body_bytes s
          then Refused 413 ''request_body_too_large'' ''Request body exceeds the configured limit.''
          else if starts_with ''/v1/'' (scope_path scope) \<and> scope_method scope \<in> set JSON_BODY_METHODS
            \<and> (n > 0 \<or> hl_get H raw ''transfer-encoding'' \<noteq> None) \<and> \<not> is_json_content_type H raw
          then Refused 415 ''unsupported_content_type'' ''Request body must use application/json.''
          else Accepted))"

text \<open>The rate limit, with the two clock readings of its two checks.\<close>

definition limit_request :: "header_library \<Rightarrow> externals \<Rightarrow> runtime_settings \<Rightarrow> http_scope \<Rightarrow> rat \<Rightarrow> rat \<Rightarrow> limiter
    \<Rightarrow> exn + rate_decision option \<times> limiter" where
  "limit_request H X s scope t1 t2 l =
     (if \<not> rs_rate_limit_enabled s then Inr (None, l)
      else (case rate_policy H s scope of
        None \<Rightarrow> Inr (None, l)
      | Some (policy_name, credential, limit) \<Rightarrow>
          bindE (check_rate (policy_name @ '':client'') (rate_limit_subject X None (hs_client scope)) limit
              (rs_rate_limit_window_seconds s) t1 l) (\<lambda>(client_decision, l1).
          if rd_allowed client_decision \<and> credential \<noteq> None \<and> credential \<noteq> Some []
          then bindE (check_rate (policy_name @ '':credential'') (rate_limit_subject X credential (hs_client scope)) limit
              (rs_rate_limit_window_seconds s) t2 l1) (\<lambda>(credential_decision, l2).
            Inr (Some (if \<not> rd_allowed credential_decision \<or> rd_remaining credential_decision < rd_remaining client_decision
                       then credential_decision else client_decision), l2))
          else Inr (Some client_decision, l1))))"

section \<open>The application and its messages\<close>

record exchange =
  ex_received_bytes :: int
  ex_response_started :: bool
  ex_status_code :: int
  ex_incoming :: "incoming list"
  ex_delivered :: "received list"
  ex_sent :: "outgoing list"

text \<open>After the last message of the client every receive tells that it has disconnected.\<close>

definition limited_receive :: "int \<Rightarrow> exchange \<Rightarrow> received \<times> exchange" where
  "limited_receive maximum e =
     (let (message, rest) = (case ex_incoming e of [] \<Rightarrow> (Other_incoming ''http.disconnect'', []) | m # ms \<Rightarrow> (m, ms));
          received_bytes = ex_received_bytes e + (case message of Request_body body \<Rightarrow> int (length body) | _ \<Rightarrow> 0);
          r = (case message of Request_body _ \<Rightarrow> if received_bytes > maximum then Too_large else Message message
               | _ \<Rightarrow> Message message)
      in (r, e\<lparr>ex_received_bytes := received_bytes, ex_incoming := rest, ex_delivered := ex_delivered e @ [r]\<rparr>))"

definition secured_send :: "(raw_headers \<Rightarrow> raw_headers) \<Rightarrow> outgoing \<Rightarrow> exchange \<Rightarrow> exchange" where
  "secured_send secure message e = (case message of
     Start status raw \<Rightarrow> e\<lparr>ex_response_started := True, ex_status_code := status,
       ex_sent := ex_sent e @ [Start status (secure raw)]\<rparr>
   | _ \<Rightarrow> e\<lparr>ex_sent := ex_sent e @ [message]\<rparr>)"

primrec run_app :: "int \<Rightarrow> (raw_headers \<Rightarrow> raw_headers) \<Rightarrow> app \<Rightarrow> exchange \<Rightarrow> failure option \<times> exchange" where
  "run_app maximum secure Finished = (\<lambda>e. (None, e))"
| "run_app maximum secure (Raises failure) = (\<lambda>e. (Some failure, e))"
| "run_app maximum secure (Emit message rest) = (\<lambda>e. run_app maximum secure rest (secured_send secure message e))"
| "run_app maximum secure (Await continue) = (\<lambda>e.
     let (r, e') = limited_receive maximum e in (run_app maximum secure (continue r)) e')"

section \<open>The middleware\<close>

record outcome =
  oc_sent :: "outgoing list"
  oc_delivered :: "received list"
  oc_reached :: bool
  oc_failure :: "failure option"
  oc_events :: "metrics_event list"
  oc_limiter :: limiter

text \<open>What is read while the request runs: clocks, a fresh identifier, the route the application matched.\<close>

record readings =
  rg_fresh :: uuid
  rg_started_at :: rat
  rg_ended_at :: rat
  rg_client_check :: rat
  rg_credential_check :: rat
  rg_route :: "string option"

definition finish :: "http_scope \<Rightarrow> readings \<Rightarrow> int \<Rightarrow> metrics_event list" where
  "finish scope g status_code =
     (if status_code = 401 then [Security_event ''authentication_failed''] else [])
     @ [Request_finished (scope_method scope) (resolved_route scope (rg_route g)) status_code
          (max 0 (rg_ended_at g - rg_started_at g))]"

definition start_exchange :: "incoming list \<Rightarrow> exchange" where
  "start_exchange messages = \<lparr>ex_received_bytes = 0, ex_response_started = False, ex_status_code = 500,
     ex_incoming = messages, ex_delivered = [], ex_sent = []\<rparr>"

text \<open>The application behind the checks, and what its exceptions become.\<close>

definition serve :: "header_library \<Rightarrow> runtime_settings \<Rightarrow> http_scope \<Rightarrow> string \<Rightarrow> rate_decision option \<Rightarrow> app
    \<Rightarrow> incoming list \<Rightarrow> failure option \<times> int \<times> string list \<times> exchange" where
  "serve H s scope rid decision app messages =
     (let secure = apply_response_headers H rid (scope_scheme scope) (allowed_origin H s scope) decision;
          (failure, e) = run_app (rs_max_request_body_bytes s) secure app (start_exchange messages);
          answer = (\<lambda>status_code code message. e\<lparr>ex_sent := ex_sent e
            @ send_json_error H rid (scope_scheme scope) (allowed_origin H s scope) status_code code message decision []\<rparr>)
      in case failure of
        None \<Rightarrow> (None, ex_status_code e, [], e)
      | Some RequestBodyTooLarge \<Rightarrow>
          if ex_response_started e then (Some RequestBodyTooLarge, 500, [], e)
          else (None, 413, [''request_body_too_large''],
            answer 413 ''request_body_too_large'' ''Request body exceeds the configured limit.'')
      | Some (Failure f) \<Rightarrow>
          if ex_response_started e then (Some (Failure f), 500, [''unhandled_exception''], e)
          else (None, 500, [''unhandled_exception''], answer 500 ''internal_server_error'' ''An unexpected error occurred.'')
      | Some (Interrupt f) \<Rightarrow> (Some (Interrupt f), ex_status_code e, [], e))"

definition handle_http :: "header_library \<Rightarrow> externals \<Rightarrow> runtime_settings \<Rightarrow> http_scope \<Rightarrow> readings \<Rightarrow> app
    \<Rightarrow> incoming list \<Rightarrow> limiter \<Rightarrow> outcome" where
  "handle_http H X s scope g app messages l =
     (let rid = request_id H (hs_headers scope) (rg_fresh g);
          scheme = scope_scheme scope;
          origin = allowed_origin H s scope;
          refuse = (\<lambda>status_code code message decision extra l.
            \<lparr>oc_sent = send_json_error H rid scheme origin status_code code message decision extra,
             oc_delivered = [], oc_reached = False, oc_failure = None,
             oc_events = [Request_started, Security_event code] @ finish scope g status_code, oc_limiter = l\<rparr>)
      in case screen_request H s scope of
        Refused status_code code message \<Rightarrow> refuse status_code code message None [] l
      | Preflight \<Rightarrow> \<lparr>oc_sent = send_empty H rid scheme (the origin) 204, oc_delivered = [], oc_reached = False,
          oc_failure = None, oc_events = [Request_started] @ finish scope g 204, oc_limiter = l\<rparr>
      | Accepted \<Rightarrow> (case limit_request H X s scope (rg_client_check g) (rg_credential_check g) l of
          Inl _ \<Rightarrow> \<lparr>oc_sent = [], oc_delivered = [], oc_reached = False, oc_failure = Some (Failure ''ValueError''),
            oc_events = [Request_started] @ finish scope g 500, oc_limiter = l\<rparr>
        | Inr (decision, l') \<Rightarrow>
            if (case decision of None \<Rightarrow> False | Some d \<Rightarrow> \<not> rd_allowed d)
            then refuse 429 ''rate_limit_exceeded'' ''Request rate limit exceeded.'' decision
              [(''Retry-After'', show_int (rd_retry_after (the decision)))] l'
            else (case serve H s scope rid decision app messages of
              (failure, status_code, events, e) \<Rightarrow>
                \<lparr>oc_sent = ex_sent e, oc_delivered = ex_delivered e, oc_reached = True, oc_failure = failure,
                 oc_events = [Request_started] @ map Security_event events @ finish scope g status_code,
                 oc_limiter = l'\<rparr>)))"

text \<open>Anything but an HTTP request goes to the application as it is.\<close>

primrec run_plain :: "app \<Rightarrow> exchange \<Rightarrow> failure option \<times> exchange" where
  "run_plain Finished = (\<lambda>e. (None, e))"
| "run_plain (Raises failure) = (\<lambda>e. (Some failure, e))"
| "run_plain (Emit message rest) = (\<lambda>e. run_plain rest (e\<lparr>ex_sent := ex_sent e @ [message]\<rparr>))"
| "run_plain (Await continue) = (\<lambda>e. let (message, rest) = (case ex_incoming e of
       [] \<Rightarrow> (Other_incoming ''http.disconnect'', []) | m # ms \<Rightarrow> (m, ms)) in
     (run_plain (continue (Message message)))
       (e\<lparr>ex_incoming := rest, ex_delivered := ex_delivered e @ [Message message]\<rparr>))"

definition call :: "header_library \<Rightarrow> externals \<Rightarrow> runtime_settings \<Rightarrow> http_scope \<Rightarrow> readings \<Rightarrow> app
    \<Rightarrow> incoming list \<Rightarrow> limiter \<Rightarrow> outcome" where
  "call H X s scope g app messages l =
     (if hs_type scope \<noteq> ''http'' then
        (case run_plain app (start_exchange messages) of
           (failure, e) \<Rightarrow> \<lparr>oc_sent = ex_sent e, oc_delivered = ex_delivered e, oc_reached = True,
             oc_failure = failure, oc_events = [], oc_limiter = l\<rparr>)
      else handle_http H X s scope g app messages l)"

section \<open>Every response is secured\<close>

text \<open>The documented laws of a mutable multi-dictionary whose names are compared without case.\<close>

definition header_laws :: "header_library \<Rightarrow> bool" where
  "header_laws H \<longleftrightarrow> (\<forall>name v raw other.
     hl_getlist H (hl_set H name v raw) other = (if py_lower other = py_lower name then [v] else hl_getlist H raw other)
     \<and> hl_getlist H (hl_append H name v raw) other
         = hl_getlist H raw other @ (if py_lower other = py_lower name then [v] else []))"

text \<open>The value a list of settings leaves for a name: the last one.\<close>

fun last_set :: "raw_headers \<Rightarrow> string \<Rightarrow> string option" where
  "last_set [] other = None"
| "last_set ((name, v) # hs) other = (case last_set hs other of
     Some w \<Rightarrow> Some w | None \<Rightarrow> if py_lower other = py_lower name then Some v else None)"

lemma getlist_set_headers:
  assumes "header_laws H"
  shows "hl_getlist H (set_headers H hs raw) other = (case last_set hs other of None \<Rightarrow> hl_getlist H raw other | Some v \<Rightarrow> [v])"
proof (induction hs arbitrary: raw)
  case (Cons h hs)
  obtain name v where h: "h = (name, v)" by (cases h)
  from Cons [of "hl_set H name v raw"] assms show ?case
    by (auto simp: h set_headers_def header_laws_def split: option.split)
qed (simp add: set_headers_def)

lemma last_set_append: "last_set (xs @ ys) k = (case last_set ys k of Some v \<Rightarrow> Some v | None \<Rightarrow> last_set xs k)"
  by (induction xs) (auto split: option.split)

declare py_lower.simps [simp del]

text \<open>Names in small letters, for headers whose name is known.\<close>

lemma lower_names:
  "py_lower ''X-Request-ID'' = ''x-request-id''" "py_lower ''X-Content-Type-Options'' = ''x-content-type-options''"
  "py_lower ''X-Frame-Options'' = ''x-frame-options''" "py_lower ''Referrer-Policy'' = ''referrer-policy''"
  "py_lower ''Cache-Control'' = ''cache-control''" "py_lower ''Permissions-Policy'' = ''permissions-policy''"
  "py_lower ''Strict-Transport-Security'' = ''strict-transport-security''"
  "py_lower ''RateLimit-Limit'' = ''ratelimit-limit''" "py_lower ''RateLimit-Remaining'' = ''ratelimit-remaining''"
  "py_lower ''RateLimit-Reset'' = ''ratelimit-reset''" "py_lower ''Vary'' = ''vary''"
  "py_lower ''Access-Control-Allow-Origin'' = ''access-control-allow-origin''"
  "py_lower ''Access-Control-Expose-Headers'' = ''access-control-expose-headers''"
  "py_lower ''Access-Control-Allow-Methods'' = ''access-control-allow-methods''"
  "py_lower ''Access-Control-Allow-Headers'' = ''access-control-allow-headers''"
  "py_lower ''Access-Control-Max-Age'' = ''access-control-max-age''"
  "py_lower ''Retry-After'' = ''retry-after''"
  by code_simp+

definition secured :: "header_library \<Rightarrow> string \<Rightarrow> string \<Rightarrow> string option \<Rightarrow> raw_headers \<Rightarrow> bool" where
  "secured H rid scheme origin raw \<longleftrightarrow>
     hl_getlist H raw ''X-Request-ID'' = [rid]
     \<and> hl_getlist H raw ''X-Content-Type-Options'' = [''nosniff'']
     \<and> hl_getlist H raw ''X-Frame-Options'' = [''DENY'']
     \<and> hl_getlist H raw ''Referrer-Policy'' = [''no-referrer'']
     \<and> hl_getlist H raw ''Cache-Control'' = [''no-store'']
     \<and> hl_getlist H raw ''Permissions-Policy'' = [''camera=(), microphone=(), geolocation=()'']
     \<and> (scheme = ''https'' \<longrightarrow> hl_getlist H raw ''Strict-Transport-Security'' = [''max-age=31536000; includeSubDomains''])
     \<and> (case origin of None \<Rightarrow> True | Some o' \<Rightarrow> hl_getlist H raw ''Access-Control-Allow-Origin'' = [o'])"

lemma applied_secured:
  assumes "header_laws H"
  shows "secured H rid scheme origin (apply_response_headers H rid scheme origin decision raw)"
proof -
  have append: "hl_getlist H (hl_append H name v raw) other
      = hl_getlist H raw other @ (if py_lower other = py_lower name then [v] else [])" for name v raw other
    using assms by (simp add: header_laws_def)
  have rate: "last_set (rate_headers decision) other = None"
    if "py_lower other \<notin> {''ratelimit-limit'', ''ratelimit-remaining'', ''ratelimit-reset''}" for other
    using that by (auto simp: rate_headers_def lower_names split: option.split)
  show ?thesis
    by (cases origin; cases "scheme = ''https''")
      (simp_all add: secured_def apply_response_headers_def Let_def append getlist_set_headers [OF assms] last_set_append
        rate lower_names)
qed

lemma more_headers_secured:
  assumes "header_laws H" and "secured H rid scheme origin raw"
    and "list_all (\<lambda>h. py_lower (fst h) \<in> {''access-control-allow-methods'', ''access-control-allow-headers'',
      ''access-control-max-age'', ''retry-after''}) hs"
  shows "secured H rid scheme origin (set_headers H hs raw)"
proof -
  have "last_set hs other = None" if "py_lower other \<notin> {''access-control-allow-methods'', ''access-control-allow-headers'',
      ''access-control-max-age'', ''retry-after''}" for other
    using assms(3) that by (induction hs other rule: last_set.induct) auto
  then show ?thesis using assms(2)
    by (simp add: secured_def getlist_set_headers [OF assms(1)] lower_names split: option.splits)
qed

fun start_secured :: "(raw_headers \<Rightarrow> bool) \<Rightarrow> outgoing \<Rightarrow> bool" where
  "start_secured P (Start status raw) = P raw"
| "start_secured P _ = True"

lemma run_app_secured:
  assumes "\<And>raw. P (secure raw)" and "list_all (start_secured P) (ex_sent e)"
  shows "list_all (start_secured P) (ex_sent (snd (run_app maximum secure app e)))"
  using assms(2)
proof (induction app arbitrary: e)
  case (Emit m app)
  have "list_all (start_secured P) (ex_sent (secured_send secure m e))"
    using Emit.prems assms(1) by (simp add: secured_send_def split: outgoing.split)
  then show ?case using Emit.IH by simp
next
  case (Await f)
  have "ex_sent (snd (limited_receive maximum e)) = ex_sent e" by (simp add: limited_receive_def Let_def split: prod.split)
  then show ?case using Await.IH [OF rangeI] Await.prems by (simp split: prod.split) (metis snd_conv)
qed simp_all

lemma error_secured:
  assumes "header_laws H" and "list_all (\<lambda>h. fst h = ''Retry-After'') extra"
  shows "list_all (start_secured (secured H rid scheme origin)) (send_json_error H rid scheme origin status code message decision extra)"
proof -
  have "list_all (\<lambda>h. py_lower (fst h) \<in> {''access-control-allow-methods'', ''access-control-allow-headers'',
      ''access-control-max-age'', ''retry-after''}) extra"
    using assms(2) by (auto simp: list_all_iff lower_names)
  from more_headers_secured [OF assms(1) applied_secured [OF assms(1)] this] show ?thesis
    by (simp add: send_json_error_def Let_def)
qed

lemma empty_secured:
  assumes "header_laws H"
  shows "list_all (start_secured (secured H rid scheme (Some origin))) (send_empty H rid scheme origin status)"
  using more_headers_secured [OF assms applied_secured [OF assms], of
      "[(''Access-Control-Allow-Methods'', join_with '', '' (sort CORS_METHODS)),
         (''Access-Control-Allow-Headers'', join_with '', '' (sort CORS_HEADERS)), (''Access-Control-Max-Age'', ''600'')]"]
  by (simp add: send_empty_def lower_names)

lemma serve_secured:
  assumes "header_laws H" and "serve H s scope rid decision app messages = (failure, status, events, e)"
  shows "list_all (start_secured (secured H rid (scope_scheme scope) (allowed_origin H s scope))) (ex_sent e)"
proof -
  let ?P = "secured H rid (scope_scheme scope) (allowed_origin H s scope)"
  let ?secure = "apply_response_headers H rid (scope_scheme scope) (allowed_origin H s scope) decision"
  obtain f e' where run: "run_app (rs_max_request_body_bytes s) ?secure app (start_exchange messages) = (f, e')" by fastforce
  have "list_all (start_secured ?P) (ex_sent (start_exchange messages))" by (simp add: start_exchange_def)
  from run_app_secured [of ?P ?secure, OF applied_secured [OF assms(1)] this]
  have "list_all (start_secured ?P) (ex_sent e')" by (metis run snd_conv)
  then show ?thesis using assms(2) error_secured [OF assms(1), of "[]"]
    by (auto simp: serve_def Let_def run split: option.splits failure.splits if_splits)
qed

lemma preflight_origin: "screen_request H s scope = Preflight \<Longrightarrow> allowed_origin H s scope \<noteq> None"
  by (auto simp: screen_request_def Let_def split: if_splits option.splits)

lemma handle_secured:
  assumes "header_laws H"
  shows "list_all (start_secured (secured H (request_id H (hs_headers scope) (rg_fresh g)) (scope_scheme scope)
      (allowed_origin H s scope))) (oc_sent (handle_http H X s scope g app messages l))"
proof (cases "screen_request H s scope")
  case (Refused status code message)
  then show ?thesis using error_secured [OF assms, of "[]"] by (simp add: handle_http_def Let_def)
next
  case Preflight
  then obtain origin where "allowed_origin H s scope = Some origin" using preflight_origin by blast
  then show ?thesis using empty_secured [OF assms] Preflight by (simp add: handle_http_def Let_def)
next
  case Accepted
  show ?thesis
  proof (cases "limit_request H X s scope (rg_client_check g) (rg_credential_check g) l")
    case (Inl e)
    then show ?thesis using Accepted by (simp add: handle_http_def Let_def)
  next
    case (Inr r)
    obtain decision l' where r: "r = (decision, l')" by (cases r)
    obtain failure status events e where served: "serve H s scope (request_id H (hs_headers scope) (rg_fresh g)) decision app messages
        = (failure, status, events, e)" by (metis prod_cases4)
    show ?thesis
      using Accepted Inr r served serve_secured [OF assms served]
        error_secured [OF assms, of "[(''Retry-After'', show_int (rd_retry_after (the decision)))]"]
      by (simp add: handle_http_def Let_def)
  qed
qed

text \<open>An application that starts at most one response, whatever it receives.\<close>

primrec starts_once :: "app \<Rightarrow> bool \<Rightarrow> bool" where
  "starts_once Finished = (\<lambda>started. True)"
| "starts_once (Raises failure) = (\<lambda>started. True)"
| "starts_once (Emit message rest) = (\<lambda>started. case message of
     Start _ _ \<Rightarrow> \<not> started \<and> starts_once rest True | _ \<Rightarrow> starts_once rest started)"
| "starts_once (Await continue) = (\<lambda>started. \<forall>r. starts_once (continue r) started)"

fun starts :: "outgoing list \<Rightarrow> nat" where
  "starts [] = 0"
| "starts (Start status raw # ms) = Suc (starts ms)"
| "starts (m # ms) = starts ms"

lemma starts_append [simp]: "starts (xs @ ys) = starts xs + starts ys"
  by (induction xs rule: starts.induct) auto

lemma starts_error [simp]: "starts (send_json_error H rid scheme origin status code message decision extra) = 1"
  by (simp add: send_json_error_def Let_def)

lemma run_app_starts:
  assumes "starts_once app (ex_response_started e)" and "starts (ex_sent e) = of_bool (ex_response_started e)"
  shows "starts (ex_sent (snd (run_app maximum secure app e)))
    = of_bool (ex_response_started (snd (run_app maximum secure app e)))"
  using assms
proof (induction app arbitrary: e)
  case (Emit m app)
  then show ?case by (cases m) (auto simp: secured_send_def)
next
  case (Await f)
  obtain r e' where r: "limited_receive maximum e = (r, e')" by fastforce
  then have "ex_sent e' = ex_sent e" "ex_response_started e' = ex_response_started e"
    by (auto simp: limited_receive_def Let_def split: prod.splits)
  then show ?case using Await.IH [OF rangeI, of r e'] Await.prems r by simp
qed simp_all

lemma serve_starts:
  assumes "starts_once app False" and "serve H s scope rid decision app messages = (failure, status, events, e)"
  shows "starts (ex_sent e) \<le> 1"
proof -
  let ?secure = "apply_response_headers H rid (scope_scheme scope) (allowed_origin H s scope) decision"
  obtain f e' where run: "run_app (rs_max_request_body_bytes s) ?secure app (start_exchange messages) = (f, e')" by fastforce
  have "starts (ex_sent e') = of_bool (ex_response_started e')"
    using run_app_starts [of app "start_exchange messages" "rs_max_request_body_bytes s" ?secure] assms(1) run
    by (simp add: start_exchange_def)
  then show ?thesis using assms(2)
    by (auto simp: serve_def Let_def run split: option.splits failure.splits if_splits)
qed

lemma handle_starts:
  assumes "starts_once app False"
  shows "starts (oc_sent (handle_http H X s scope g app messages l)) \<le> 1"
proof (cases "screen_request H s scope")
  case (Refused status code message)
  then show ?thesis by (simp add: handle_http_def Let_def)
next
  case Preflight
  then show ?thesis by (simp add: handle_http_def Let_def send_empty_def)
next
  case Accepted
  show ?thesis
  proof (cases "limit_request H X s scope (rg_client_check g) (rg_credential_check g) l")
    case (Inl e)
    then show ?thesis using Accepted by (simp add: handle_http_def Let_def)
  next
    case (Inr r)
    obtain decision l' where r: "r = (decision, l')" by (cases r)
    obtain failure status events e where served: "serve H s scope (request_id H (hs_headers scope) (rg_fresh g)) decision app messages
        = (failure, status, events, e)" by (metis prod_cases4)
    show ?thesis using Accepted Inr r served serve_starts [OF assms served] by (simp add: handle_http_def Let_def)
  qed
qed

text \<open>
  C32: Every response that leaves the middleware, made by the application or by the middleware, carries
  the request identifier and the security headers exactly once, HSTS on HTTPS and the allowed origin
  when the request has one; and a second response is never started when the application does not.
\<close>

theorem responses_secured:
  assumes "header_laws H" and "hs_type scope = ''http''" and "starts_once app False"
  shows "list_all (start_secured (secured H (request_id H (hs_headers scope) (rg_fresh g)) (scope_scheme scope)
      (allowed_origin H s scope))) (oc_sent (call H X s scope g app messages l))
    \<and> starts (oc_sent (call H X s scope g app messages l)) \<le> 1"
  using handle_secured [OF assms(1)] handle_starts [OF assms(3)] assms(2) by (simp add: call_def)

text \<open>A header collection, for the witnesses.\<close>

definition plain_headers :: header_library where
  "plain_headers = \<lparr>hl_get = (\<lambda>raw name. map_option snd (List.find (\<lambda>h. py_lower (fst h) = py_lower name) raw)),
     hl_getlist = (\<lambda>raw name. map snd (filter (\<lambda>h. py_lower (fst h) = py_lower name) raw)),
     hl_set = (\<lambda>name v raw. filter (\<lambda>h. py_lower (fst h) \<noteq> py_lower name) raw @ [(name, v)]),
     hl_append = (\<lambda>name v raw. raw @ [(name, v)])\<rparr>"

lemma plain_headers_laws: "header_laws plain_headers"
proof -
  have "map snd (filter (\<lambda>h. py_lower (fst h) = py_lower other) (filter (\<lambda>h. py_lower (fst h) \<noteq> py_lower name) raw))
      = (if py_lower other = py_lower name then [] else map snd (filter (\<lambda>h. py_lower (fst h) = py_lower other) raw))"
    for other name and raw :: raw_headers
    by (induction raw) auto
  then show ?thesis by (auto simp: header_laws_def plain_headers_def)
qed

definition plain_externals :: externals where
  "plain_externals = \<lparr>x_float = (\<lambda>_ _. []), x_time = show_int, x_strip = (\<lambda>s. s), x_sha256 = (\<lambda>s. s),
     x_hmac = (\<lambda>_ s. s), x_scrypt = (\<lambda>s _. s), x_load_grant = (\<lambda>_. None)\<rparr>"

definition sample_settings :: runtime_settings where
  "sample_settings = \<lparr>rs_environment = ''production'', rs_trusted_hosts = [''example.com''], rs_cors_allowed_origins = [],
     rs_enforce_https = True, rs_expose_docs = False, rs_rate_limit_enabled = True, rs_max_request_body_bytes = 4,
     rs_rate_limit_window_seconds = 60, rs_authorization_rate_limit = 1, rs_tenant_rate_limit = 1, rs_admin_rate_limit = 1,
     rs_approval_ttl_seconds = 60, rs_execution_grant_ttl_seconds = 30, rs_log_level = ''INFO''\<rparr>"

definition sample_scope :: http_scope where
  "sample_scope = \<lparr>hs_type = ''http'', hs_method = Some ''POST'', hs_path = Some ''/v1/authorize'', hs_scheme = Some ''https'',
     hs_headers = [(''host'', ''example.com''), (''content-type'', ''application/json'')], hs_client = Some ''10.0.0.1''\<rparr>"

definition sample_readings :: readings where
  "sample_readings = \<lparr>rg_fresh = 0, rg_started_at = 0, rg_ended_at = 1, rg_client_check = 61, rg_credential_check = 61,
     rg_route = None\<rparr>"

text \<open>An application that answers 200 to a first message and fails on a second answer.\<close>

definition sample_app :: app where
  "sample_app = Await (\<lambda>r. case r of
     Message _ \<Rightarrow> Emit (Start 200 []) (Emit (Part ''{}'') Finished)
   | Too_large \<Rightarrow> Raises RequestBodyTooLarge)"

lemma sample_app_once: "starts_once sample_app False"
  by (simp add: sample_app_def split: received.split)

theorem responses_secured_witness:
  "starts (oc_sent (call plain_headers plain_externals sample_settings sample_scope sample_readings sample_app [Request_body ''12345''] new_limiter)) \<le> 1"
  using responses_secured [OF plain_headers_laws _ sample_app_once, of sample_scope] by (simp add: sample_scope_def)

section \<open>Bodies are limited\<close>

definition delivered_bytes :: "received list \<Rightarrow> int" where
  "delivered_bytes rs = sum_list (map (\<lambda>r. case r of Message (Request_body body) \<Rightarrow> int (length body) | _ \<Rightarrow> 0) rs)"

lemma limited_receive_bytes:
  assumes "delivered_bytes (ex_delivered e) \<le> ex_received_bytes e" and "delivered_bytes (ex_delivered e) \<le> maximum"
    and "limited_receive maximum e = (r, e')"
  shows "delivered_bytes (ex_delivered e') \<le> ex_received_bytes e' \<and> delivered_bytes (ex_delivered e') \<le> maximum"
  using assms by (auto simp: limited_receive_def Let_def delivered_bytes_def split: list.splits incoming.splits if_splits)

lemma run_app_bytes:
  assumes "delivered_bytes (ex_delivered e) \<le> ex_received_bytes e" and "delivered_bytes (ex_delivered e) \<le> maximum"
  shows "delivered_bytes (ex_delivered (snd (run_app maximum secure app e))) \<le> maximum"
  using assms
proof (induction app arbitrary: e)
  case (Emit m app)
  have "ex_delivered (secured_send secure m e) = ex_delivered e" "ex_received_bytes (secured_send secure m e) = ex_received_bytes e"
    by (simp_all add: secured_send_def split: outgoing.split)
  then show ?case using Emit by simp
next
  case (Await f)
  obtain r e' where r: "limited_receive maximum e = (r, e')" by fastforce
  from limited_receive_bytes [OF Await.prems r] Await.IH [OF rangeI, of e' r] r show ?case by simp
qed simp_all

text \<open>An application that does not handle \<open>RequestBodyTooLarge\<close>.\<close>

primrec lets_through :: "app \<Rightarrow> bool" where
  "lets_through Finished = True"
| "lets_through (Raises failure) = True"
| "lets_through (Emit message rest) = lets_through rest"
| "lets_through (Await continue) = ((continue Too_large = Raises RequestBodyTooLarge)
     \<and> (\<forall>m. lets_through (continue (Message m))))"

lemma run_app_too_large:
  assumes "lets_through app" and "Too_large \<notin> set (ex_delivered e)"
    and "Too_large \<in> set (ex_delivered (snd (run_app maximum secure app e)))"
  shows "fst (run_app maximum secure app e) = Some RequestBodyTooLarge"
  using assms
proof (induction app arbitrary: e)
  case (Emit m app)
  have "ex_delivered (secured_send secure m e) = ex_delivered e" by (simp add: secured_send_def split: outgoing.split)
  then show ?case using Emit by simp
next
  case (Await f)
  obtain r e' where r: "limited_receive maximum e = (r, e')" by fastforce
  then have e': "ex_delivered e' = ex_delivered e @ [r]" by (auto simp: limited_receive_def Let_def split: prod.splits)
  show ?case
  proof (cases r)
    case (Message m)
    then show ?thesis using Await.IH [OF rangeI, of r e'] Await.prems r e' by simp
  next
    case Too_large
    then show ?thesis using Await.prems(1) r by simp
  qed
qed simp_all

lemma run_app_started:
  assumes "ex_response_started e = (0 < starts (ex_sent e))"
  shows "ex_response_started (snd (run_app maximum secure app e)) = (0 < starts (ex_sent (snd (run_app maximum secure app e))))"
  using assms
proof (induction app arbitrary: e)
  case (Emit m app)
  have "ex_response_started (secured_send secure m e) = (0 < starts (ex_sent (secured_send secure m e)))"
    using Emit.prems by (cases m) (simp_all add: secured_send_def)
  then show ?case using Emit.IH by simp
next
  case (Await f)
  obtain r e' where r: "limited_receive maximum e = (r, e')" by fastforce
  then have "ex_response_started e' = (0 < starts (ex_sent e'))"
    using Await.prems by (auto simp: limited_receive_def Let_def split: prod.splits)
  then show ?case using Await.IH [OF rangeI, of e' r] r by simp
qed simp_all

definition answered_413 :: "header_library \<Rightarrow> runtime_settings \<Rightarrow> http_scope \<Rightarrow> readings \<Rightarrow> outcome \<Rightarrow> bool" where
  "answered_413 H s scope g out \<longleftrightarrow> (\<exists>sent decision. starts sent = 0 \<and> oc_failure out = None
     \<and> oc_sent out = sent @ send_json_error H (request_id H (hs_headers scope) (rg_fresh g)) (scope_scheme scope)
         (allowed_origin H s scope) 413 ''request_body_too_large'' ''Request body exceeds the configured limit.'' decision [])"

lemma handle_reached:
  assumes "oc_reached (handle_http H X s scope g app messages l)"
  obtains decision l' failure status events e where "screen_request H s scope = Accepted"
    and "limit_request H X s scope (rg_client_check g) (rg_credential_check g) l = Inr (decision, l')"
    and "\<And>d. decision = Some d \<Longrightarrow> rd_allowed d"
    and "serve H s scope (request_id H (hs_headers scope) (rg_fresh g)) decision app messages = (failure, status, events, e)"
    and "handle_http H X s scope g app messages l = \<lparr>oc_sent = ex_sent e, oc_delivered = ex_delivered e, oc_reached = True,
      oc_failure = failure, oc_events = [Request_started] @ map Security_event events @ finish scope g status, oc_limiter = l'\<rparr>"
proof -
  have "screen_request H s scope = Accepted"
    using assms by (cases "screen_request H s scope") (simp_all add: handle_http_def Let_def)
  moreover obtain decision l' where "limit_request H X s scope (rg_client_check g) (rg_credential_check g) l = Inr (decision, l')"
    using assms calculation
    by (cases "limit_request H X s scope (rg_client_check g) (rg_credential_check g) l") (auto simp: handle_http_def Let_def)
  moreover obtain failure status events e where
    "serve H s scope (request_id H (hs_headers scope) (rg_fresh g)) decision app messages = (failure, status, events, e)"
    by (metis prod_cases4)
  moreover have "rd_allowed d" if "decision = Some d" for d
    using assms calculation that by (auto simp: handle_http_def Let_def split: if_splits)
  moreover from this have "\<not> (case decision of None \<Rightarrow> False | Some d \<Rightarrow> \<not> rd_allowed d)" by (cases decision) auto
  ultimately show thesis using that by (simp add: handle_http_def Let_def)
qed

lemma accepted_length: "screen_request H s scope = Accepted \<Longrightarrow>
    \<exists>n. content_length H (hs_headers scope) = Some n \<and> n \<le> rs_max_request_body_bytes s"
  by (auto simp: screen_request_def Let_def split: if_splits option.splits)

lemma not_reached_delivered: "\<not> oc_reached (handle_http H X s scope g app messages l) \<Longrightarrow>
    oc_delivered (handle_http H X s scope g app messages l) = []"
  by (auto simp: handle_http_def Let_def split: verdict.split sum.split prod.split)

lemma served_bytes:
  assumes "serve H s scope rid decision app messages = (failure, status, events, e)" and "0 \<le> rs_max_request_body_bytes s"
  shows "delivered_bytes (ex_delivered e) \<le> rs_max_request_body_bytes s"
proof -
  let ?secure = "apply_response_headers H rid (scope_scheme scope) (allowed_origin H s scope) decision"
  obtain f e' where run: "run_app (rs_max_request_body_bytes s) ?secure app (start_exchange messages) = (f, e')" by fastforce
  have "delivered_bytes (ex_delivered e') \<le> rs_max_request_body_bytes s"
    using run_app_bytes [of "start_exchange messages" "rs_max_request_body_bytes s" ?secure app] assms(2) run
    by (simp add: start_exchange_def delivered_bytes_def)
  then show ?thesis using assms(1)
    by (auto simp: serve_def Let_def run split: option.splits failure.splits if_splits)
qed

lemma served_too_large:
  assumes "serve H s scope rid decision app messages = (failure, status, events, e)"
    and "lets_through app" and "Too_large \<in> set (ex_delivered e)"
  shows "failure = Some RequestBodyTooLarge \<and> 0 < starts (ex_sent e)
    \<or> failure = None \<and> (\<exists>sent. starts sent = 0 \<and> ex_sent e = sent @ send_json_error H rid (scope_scheme scope)
         (allowed_origin H s scope) 413 ''request_body_too_large'' ''Request body exceeds the configured limit.'' decision [])"
proof -
  let ?secure = "apply_response_headers H rid (scope_scheme scope) (allowed_origin H s scope) decision"
  obtain f e' where run: "run_app (rs_max_request_body_bytes s) ?secure app (start_exchange messages) = (f, e')" by fastforce
  have d: "ex_delivered e = ex_delivered e'" using assms(1)
    by (auto simp: serve_def Let_def run split: option.splits failure.splits if_splits)
  have f: "f = Some RequestBodyTooLarge"
    using run_app_too_large [OF assms(2), of "start_exchange messages" "rs_max_request_body_bytes s" ?secure] assms(3) d run
    by (simp add: start_exchange_def)
  have "ex_response_started e' = (0 < starts (ex_sent e'))"
    using run_app_started [of "start_exchange messages" "rs_max_request_body_bytes s" ?secure app] run
    by (simp add: start_exchange_def)
  then show ?thesis using assms(1) by (auto simp: serve_def Let_def run f split: if_splits)
qed


lemma sample_settings_valid: "validate_settings U sample_settings = Inr ()"
  by (simp add: validate_settings_iff sample_settings_def numbers_valid_def LEVEL_NAMES_def host_pattern_ok_def)


section \<open>What reaches the application\<close>

text \<open>A host matches a pattern: it is the pattern, or a subdomain of the pattern's domain.\<close>

definition pattern_matches :: "string \<Rightarrow> string \<Rightarrow> bool" where
  "pattern_matches host pattern \<longleftrightarrow>
     (let normalized = rstrip_char (CHR ''.'') (py_lower pattern) in
      host = normalized \<or> (\<exists>sub domain. normalized = ''*.'' @ domain \<and> host = sub @ ''.'' @ domain))"

lemma ends_with_append: "ends_with suffix host \<Longrightarrow> \<exists>sub. host = sub @ suffix"
  unfolding ends_with_def by (metis append_take_drop_id)

lemma host_allowed_matches: "host_allowed host patterns \<Longrightarrow> \<exists>p \<in> set patterns. pattern_matches host p"
proof (induction patterns)
  case (Cons p patterns)
  let ?n = "rstrip_char (CHR ''.'') (py_lower p)"
  show ?case
  proof (cases "starts_with ''*.'' ?n \<and> ends_with (tl ?n) host")
    case True
    then obtain domain where n: "?n = ''*.'' @ domain"
      unfolding starts_with_def by (metis (no_types, lifting) append_take_drop_id conjunct1)
    with True have "ends_with (''.'' @ domain) host" by simp
    then obtain sub where "host = sub @ ''.'' @ domain" using ends_with_append by blast
    then show ?thesis using n by (auto simp: pattern_matches_def Let_def)
  next
    case False
    then show ?thesis using Cons by (auto simp: Let_def pattern_matches_def split: if_splits)
  qed
qed simp

lemma accepted_checks:
  assumes "screen_request H s scope = Accepted"
  shows "host_allowed (host_without_port (case hl_getlist H (hs_headers scope) ''host'' of [v] \<Rightarrow> v | _ \<Rightarrow> [])) (rs_trusted_hosts s)"
    and "rs_enforce_https s \<Longrightarrow> hs_scheme scope = Some ''https''"
    and "hl_get H (hs_headers scope) ''origin'' = Some origin \<Longrightarrow> origin_allowed origin (rs_cors_allowed_origins s)"
  using assms by (auto simp: screen_request_def Let_def allowed_origin_def split: if_splits option.splits)

lemma origin_https:
  assumes "validate_origin U s c = Inr ()" and "rs_environment s = ''production''"
  shows "\<exists>u. urlsplit U c = Inr u \<and> su_scheme u = ''https'' \<and> url_userinfo u = (None, None)"
  using assms by (auto simp: validate_origin_def bindE_Inr_iff prod_eq_iff split: if_splits)

text \<open>
  C29: With settings read from a production environment, a request reaches the application only
  over HTTPS, for a host that is or is below a trusted host, from no foreign origin or one configured
  as an HTTPS URL without credentials, declaring at most 100 MiB.
\<close>

theorem production_requests_screened:
  assumes "from_environment U env = Inr s" and "rs_environment s = ''production''"
    and "hs_type scope = ''http''" and "oc_reached (call H X s scope g app messages l)"
  shows "hs_scheme scope = Some ''https''
    \<and> list_ex (pattern_matches (host_without_port (case hl_getlist H (hs_headers scope) ''host'' of [v] \<Rightarrow> v | _ \<Rightarrow> [])))
        (rs_trusted_hosts s)
    \<and> (case hl_get H (hs_headers scope) ''origin'' of
         None \<Rightarrow> True
       | Some origin \<Rightarrow> list_ex (\<lambda>c. rstrip_char (CHR ''/'') origin = rstrip_char (CHR ''/'') c
           \<and> (\<exists>u. urlsplit U c = Inr u \<and> su_scheme u = ''https'' \<and> url_userinfo u = (None, None))) (rs_cors_allowed_origins s))
    \<and> (\<exists>n. content_length H (hs_headers scope) = Some n \<and> n \<le> 104857600)"
proof -
  note valid = from_environment_valid [OF assms(1), unfolded validate_settings_iff]
  have https: "rs_enforce_https s" using valid assms(2) by simp
  have origins: "validate_origin U s c = Inr ()" if "c \<in> set (rs_cors_allowed_origins s)" for c
    using valid that by (simp add: list_all_iff)
  have maximum: "rs_max_request_body_bytes s \<le> 104857600" using valid by (simp add: numbers_valid_def)
  have "oc_reached (handle_http H X s scope g app messages l)" using assms(3,4) by (simp add: call_def)
  then have acc: "screen_request H s scope = Accepted" by (rule handle_reached)
  obtain p where "p \<in> set (rs_trusted_hosts s)"
    "pattern_matches (host_without_port (case hl_getlist H (hs_headers scope) ''host'' of [v] \<Rightarrow> v | _ \<Rightarrow> [])) p"
    using host_allowed_matches [OF accepted_checks(1) [OF acc]] by blast
  moreover obtain n where "content_length H (hs_headers scope) = Some n" "n \<le> rs_max_request_body_bytes s"
    using accepted_length [OF acc] by blast
  moreover have "list_ex (\<lambda>c. rstrip_char (CHR ''/'') origin = rstrip_char (CHR ''/'') c
      \<and> (\<exists>u. urlsplit U c = Inr u \<and> su_scheme u = ''https'' \<and> url_userinfo u = (None, None))) (rs_cors_allowed_origins s)"
    if "hl_get H (hs_headers scope) ''origin'' = Some origin" for origin
    using accepted_checks(3) [OF acc that] origin_https [OF origins assms(2)]
    unfolding origin_allowed_def list_ex_iff by blast
  ultimately show ?thesis
    using accepted_checks(2) [OF acc https] maximum by (auto simp: list_ex_iff split: option.split)
qed

definition sample_environment :: environment where
  "sample_environment = [''DECAUSTRUM_ENVIRONMENT'' \<mapsto> '' Production'', ''DECAUSTRUM_TRUSTED_HOSTS'' \<mapsto> ''example.com, *.example.com'']"

definition production_settings :: runtime_settings where
  "production_settings = \<lparr>rs_environment = ''production'', rs_trusted_hosts = [''example.com'', ''*.example.com''],
     rs_cors_allowed_origins = [], rs_enforce_https = True, rs_expose_docs = False, rs_rate_limit_enabled = True,
     rs_max_request_body_bytes = 1048576, rs_rate_limit_window_seconds = 60, rs_authorization_rate_limit = 300,
     rs_tenant_rate_limit = 600, rs_admin_rate_limit = 300, rs_approval_ttl_seconds = 86400,
     rs_execution_grant_ttl_seconds = 300, rs_log_level = ''INFO''\<rparr>"

lemma sample_environment_settings: "from_environment U sample_environment = Inr production_settings"
proof -
  have "py_lower (strip '' Production'') = ''production''" "py_upper (strip ''INFO'') = ''INFO''"
    "from_keys [strip item. item \<leftarrow> split_char (CHR '','') ''example.com, *.example.com'', strip item \<noteq> []]
      = [''example.com'', ''*.example.com'']"
    by code_simp+
  moreover have "validate_settings U production_settings = Inr ()"
    by (simp add: validate_settings_iff production_settings_def numbers_valid_def LEVEL_NAMES_def host_pattern_ok_def starts_with_def)
  ultimately show ?thesis
    by (simp add: from_environment_def sample_environment_def parse_csv_def parse_bool_def parse_int_def
        production_settings_def [symmetric])
qed

definition health_scope :: http_scope where
  "health_scope = \<lparr>hs_type = ''http'', hs_method = Some ''GET'', hs_path = Some ''/health'', hs_scheme = Some ''https'',
     hs_headers = [(''host'', ''api.Example.com:8443'')], hs_client = None\<rparr>"

lemma health_reached: "oc_reached (call plain_headers X production_settings health_scope sample_readings Finished [] l)"
proof -
  have screen: "screen_request plain_headers production_settings health_scope = Accepted" by code_simp
  have "rate_policy plain_headers production_settings health_scope = None" by code_simp
  then have "limit_request plain_headers X production_settings health_scope t1 t2 l = Inr (None, l)" for t1 t2
    by (simp add: limit_request_def)
  then show ?thesis by (simp add: call_def health_scope_def [THEN arg_cong, of hs_type] handle_http_def screen serve_def Let_def)
qed

theorem production_requests_screened_witness:
  "hs_scheme health_scope = Some ''https'' \<and> pattern_matches ''api.example.com'' ''*.example.com''"
proof -
  have host: "host_without_port (case hl_getlist plain_headers (hs_headers health_scope) ''host'' of [v] \<Rightarrow> v | _ \<Rightarrow> [])
      = ''api.example.com''" by code_simp
  have "\<not> pattern_matches ''api.example.com'' ''example.com''"
  proof -
    have "rstrip_char (CHR ''.'') (py_lower ''example.com'') = ''example.com''" by code_simp
    then show ?thesis by (simp add: pattern_matches_def)
  qed
  then show ?thesis
    using production_requests_screened [OF sample_environment_settings _ _ health_reached]
    by (simp add: host) (simp add: production_settings_def health_scope_def)
qed

end
