(* ===== verification/Request_Limits.thy ===== *)
theory Request_Limits
  imports Http_Middleware
begin

text \<open>
  The middleware and its rate limiter together: a sequence of requests makes a sequence of checks of
  the limiter, at most two each, and every request that reaches the application has passed all of its
  checks. So the limits of a window hold for the requests the application sees.
\<close>

section \<open>Requests in sequence\<close>

record http_request =
  hr_scope :: http_scope
  hr_readings :: readings
  hr_app :: app
  hr_messages :: "incoming list"

fun serve_all :: "header_library \<Rightarrow> externals \<Rightarrow> runtime_settings \<Rightarrow> http_request list \<Rightarrow> limiter \<Rightarrow> outcome list" where
  "serve_all H X s [] l = []"
| "serve_all H X s (r # rs) l =
     (let out = call H X s (hr_scope r) (hr_readings r) (hr_app r) (hr_messages r) l in
      out # serve_all H X s rs (oc_limiter out))"

definition policy_limit :: "runtime_settings \<Rightarrow> string \<Rightarrow> int" where
  "policy_limit s policy =
     (if policy \<in> {''authorization:client'', ''authorization:credential''} then rs_authorization_rate_limit s
      else if policy \<in> {''admin:client'', ''admin:credential''} then rs_admin_rate_limit s
      else rs_tenant_rate_limit s)"

text \<open>The checks a request has to pass: of its client, and of its credential when it has one.\<close>

definition request_checks :: "header_library \<Rightarrow> externals \<Rightarrow> runtime_settings \<Rightarrow> http_scope \<Rightarrow> readings \<Rightarrow> rate_check list" where
  "request_checks H X s scope g =
     (if \<not> rs_rate_limit_enabled s then []
      else (case rate_policy H s scope of
        None \<Rightarrow> []
      | Some (policy_name, credential, _) \<Rightarrow>
          \<lparr>rc_policy = policy_name @ '':client'', rc_subject = rate_limit_subject X None (hs_client scope), rc_now = rg_client_check g\<rparr>
          # (if credential \<noteq> None \<and> credential \<noteq> Some [] then
               [\<lparr>rc_policy = policy_name @ '':credential'', rc_subject = rate_limit_subject X credential (hs_client scope),
                 rc_now = rg_credential_check g\<rparr>] else [])))"

lemma rate_policy_limit: "rate_policy H s scope = Some (policy_name, credential, limit) \<Longrightarrow>
    limit = policy_limit s (policy_name @ '':client'') \<and> limit = policy_limit s (policy_name @ '':credential'')"
  by (auto simp: rate_policy_def Let_def policy_limit_def split: if_splits)

lemma limit_request_checks:
  assumes "limit_request H X s scope (rg_client_check g) (rg_credential_check g) l = Inr (decision, l')"
  obtains cs ds where "run_checks (policy_limit s) (rs_rate_limit_window_seconds s) cs l = Inr (ds, l')"
    and "map rc_now cs = take (length cs) [rg_client_check g, rg_credential_check g]"
    and "(case decision of None \<Rightarrow> True | Some d \<Rightarrow> rd_allowed d) \<Longrightarrow> cs = request_checks H X s scope g \<and> list_all rd_allowed ds"
proof (cases "rs_rate_limit_enabled s \<and> rate_policy H s scope \<noteq> None")
  case False
  then have "decision = None" "l' = l" "request_checks H X s scope g = []"
    using assms by (auto simp: limit_request_def request_checks_def split: if_splits option.splits)
  then show thesis using that [of "[]" "[]"] by simp
next
  case True
  then obtain name credential limit where policy: "rate_policy H s scope = Some (name, credential, limit)" by auto
  let ?w = "rs_rate_limit_window_seconds s"
  let ?c1 = "\<lparr>rc_policy = name @ '':client'', rc_subject = rate_limit_subject X None (hs_client scope), rc_now = rg_client_check g\<rparr>"
  let ?c2 = "\<lparr>rc_policy = name @ '':credential'', rc_subject = rate_limit_subject X credential (hs_client scope),
    rc_now = rg_credential_check g\<rparr>"
  have limit: "policy_limit s (name @ '':client'') = limit" "policy_limit s (name @ '':credential'') = limit"
    using rate_policy_limit [OF policy] by simp_all
  obtain d1 l1 where first: "check_rate (name @ '':client'') (rate_limit_subject X None (hs_client scope)) limit ?w (rg_client_check g) l
      = Inr (d1, l1)"
    using assms True policy by (auto simp: limit_request_def bindE_Inr_iff)
  show thesis
  proof (cases "rd_allowed d1 \<and> credential \<noteq> None \<and> credential \<noteq> Some []")
    case second: True
    then obtain d2 where check: "check_rate (name @ '':credential'') (rate_limit_subject X credential (hs_client scope)) limit ?w
        (rg_credential_check g) l1 = Inr (d2, l')"
      and decision: "decision = Some (if \<not> rd_allowed d2 \<or> rd_remaining d2 < rd_remaining d1 then d2 else d1)"
      using assms True policy first by (auto simp: limit_request_def bindE_Inr_iff)
    have "rd_allowed d2" if "case decision of None \<Rightarrow> True | Some d \<Rightarrow> rd_allowed d"
      using that by (auto simp: decision split: if_splits)
    then show thesis
      using that [of "[?c1, ?c2]" "[d1, d2]"] first check second True policy
      by (simp add: limit request_checks_def)
  next
    case False
    then have "decision = Some d1" "l' = l1"
      using assms True policy first by (auto simp: limit_request_def)
    then show thesis
      using that [of "[?c1]" "[d1]"] first False True policy by (auto simp: limit request_checks_def)
  qed
qed

lemma run_checks_append:
  "run_checks limits w (cs @ cs') l = bindE (run_checks limits w cs l) (\<lambda>(ds, l1).
     bindE (run_checks limits w cs' l1) (\<lambda>(ds', l2). Inr (ds @ ds', l2)))"
proof (induction cs arbitrary: l)
  case (Cons c cs)
  then show ?case by (cases "check_rate (rc_policy c) (rc_subject c) (limits (rc_policy c)) w (rc_now c) l")
      (auto simp: bindE_def split: sum.splits)
next
  case Nil
  show ?case by (cases "run_checks limits w cs' l") auto
qed

lemma run_checks_length: "run_checks limits w cs l = Inr (ds, l') \<Longrightarrow> length ds = length cs"
  by (induction cs arbitrary: l ds l') (auto simp: bindE_Inr_iff)

text \<open>The checks of a key in a window that were allowed.\<close>

definition allowed_in :: "int \<Rightarrow> rate_check list \<Rightarrow> rate_decision list \<Rightarrow> rate_key \<Rightarrow> int \<Rightarrow> nat" where
  "allowed_in w cs ds key window = length (filter (\<lambda>(c, d). rd_allowed d \<and> rc_key c = key \<and> window_of w (rc_now c) = window) (zip cs ds))"

lemma allowed_in_append: "length ds = length cs \<Longrightarrow>
    allowed_in w (cs @ cs') (ds @ ds') key window = allowed_in w cs ds key window + allowed_in w cs' ds' key window"
  by (simp add: allowed_in_def)

lemma allowed_bound:
  assumes "length ds = length cs" and "1 \<le> limits (fst key)"
    and "\<And>i. i < length cs \<Longrightarrow> rd_allowed (ds ! i) =
      (checked_in w (take i cs) (rc_key (cs ! i)) (window_of w (rc_now (cs ! i))) < limits (rc_policy (cs ! i)))"
  shows "int (allowed_in w cs ds key window) \<le> min (limits (fst key)) (checked_in w cs key window)"
  using assms
proof (induction cs arbitrary: ds rule: rev_induct)
  case Nil
  then show ?case by (simp add: allowed_in_def checked_in_def)
next
  case (snoc c cs)
  obtain ds' d where ds: "ds = ds' @ [d]" "length ds' = length cs"
    using snoc.prems(1) by (cases ds rule: rev_cases) auto
  have "rd_allowed (ds' ! i) = (checked_in w (take i cs) (rc_key (cs ! i)) (window_of w (rc_now (cs ! i))) < limits (rc_policy (cs ! i)))"
    if "i < length cs" for i
    using snoc.prems(3) [of i] that by (simp add: ds nth_append)
  from snoc.IH [OF ds(2) snoc.prems(2) this]
  have IH: "int (allowed_in w cs ds' key window) \<le> min (limits (fst key)) (checked_in w cs key window)" .
  have d: "rd_allowed d = (checked_in w cs (rc_key c) (window_of w (rc_now c)) < limits (rc_policy c))"
    using snoc.prems(3) [of "length cs"] by (simp add: ds nth_append)
  show ?case
    using IH d by (auto simp: ds(1) allowed_in_append [OF ds(2)] checked_in_Cons) (auto simp: allowed_in_def)
qed

lemma run_checks_new:
  assumes "\<And>p. 1 \<le> limits p" and "1 \<le> w" and "sorted (map rc_now cs)"
    and "run_checks limits w cs new_limiter = Inr (ds, l)"
  shows "int (allowed_in w cs ds key window) \<le> limits (fst key)"
proof -
  obtain u where u: "u = (if cs = [] then 0 else window_of w (rc_now (hd cs)))" by blast
  have first: "u \<le> window_of w (rc_now c)" if c: "c \<in> set cs" for c
  proof -
    obtain a as where cs: "cs = a # as" using c by (cases cs) auto
    then have "rc_now a \<le> rc_now c" using assms(3) c by auto
    then show ?thesis using window_of_mono [of w "rc_now a" "rc_now c"] assms(2) u cs by simp
  qed
  have empty: "stored_by u new_limiter" "\<And>key v. counted_in new_limiter key v = 0" "\<And>key v. checked_in w [] key v = 0"
    by (simp_all add: stored_by_def new_limiter_def counted_in_def checked_in_def)
  have zero: "counted_in new_limiter key v = min (limits (fst key)) (checked_in w [] key v)" for key v
    using assms(1) [of "fst key"] empty(2,3) by simp
  have "\<exists>ds l. run_checks limits w cs new_limiter = Inr (ds, l) \<and> length ds = length cs
    \<and> (\<forall>i < length cs. ds ! i = the_decision (limits (rc_policy (cs ! i))) w (rc_now (cs ! i))
         (min (limits (rc_policy (cs ! i)))
            (checked_in w ([] @ take i cs) (rc_key (cs ! i)) (window_of w (rc_now (cs ! i))))))"
    by (rule run_checks_counted [OF assms(1,2) _ empty(1) first zero]) (use assms(3) in simp_all)
  then have len: "length ds = length cs" and all: "\<And>i. i < length cs \<Longrightarrow> ds ! i = the_decision (limits (rc_policy (cs ! i))) w (rc_now (cs ! i))
         (min (limits (rc_policy (cs ! i))) (checked_in w (take i cs) (rc_key (cs ! i)) (window_of w (rc_now (cs ! i)))))"
    using assms(4) by auto
  have "rd_allowed (ds ! i) = (checked_in w (take i cs) (rc_key (cs ! i)) (window_of w (rc_now (cs ! i))) < limits (rc_policy (cs ! i)))"
    if "i < length cs" for i
    using all [OF that] by (simp add: the_decision_def min_def)
  from allowed_bound [where limits = limits, OF len assms(1) this, of key window] show ?thesis by simp
qed

section \<open>The limits hold for what reaches the application\<close>

definition charged :: "header_library \<Rightarrow> externals \<Rightarrow> runtime_settings \<Rightarrow> http_request \<Rightarrow> (rate_key \<times> int) list" where
  "charged H X s r = (if hs_type (hr_scope r) = ''http''
     then map (\<lambda>c. (rc_key c, window_of (rs_rate_limit_window_seconds s) (rc_now c)))
       (request_checks H X s (hr_scope r) (hr_readings r))
     else [])"

definition check_times :: "http_request \<Rightarrow> rat list" where
  "check_times r = [rg_client_check (hr_readings r), rg_credential_check (hr_readings r)]"

lemma call_checks:
  obtains cs ds where "run_checks (policy_limit s) (rs_rate_limit_window_seconds s) cs l
      = Inr (ds, oc_limiter (call H X s (hr_scope r) (hr_readings r) (hr_app r) (hr_messages r) l))"
    and "map rc_now cs = take (length cs) (check_times r)"
    and "oc_reached (call H X s (hr_scope r) (hr_readings r) (hr_app r) (hr_messages r) l) \<and> hs_type (hr_scope r) = ''http''
      \<longrightarrow> cs = request_checks H X s (hr_scope r) (hr_readings r) \<and> list_all rd_allowed ds"
proof -
  let ?out = "handle_http H X s (hr_scope r) (hr_readings r) (hr_app r) (hr_messages r) l"
  note none = that [of "[]" "[]", simplified]
  show thesis
  proof (cases "hs_type (hr_scope r) = ''http''")
    case False
    then show thesis using none by (simp add: call_def split: prod.split)
  next
    case True
    then have call: "call H X s (hr_scope r) (hr_readings r) (hr_app r) (hr_messages r) l = ?out" by (simp add: call_def)
    show thesis
    proof (cases "screen_request H s (hr_scope r) = Accepted")
      case False
      then have "oc_limiter ?out = l" "\<not> oc_reached ?out"
        by (cases "screen_request H s (hr_scope r)"; simp add: handle_http_def Let_def)+
      then show thesis using none call by simp
    next
      case acc: True
      show thesis
      proof (cases "limit_request H X s (hr_scope r) (rg_client_check (hr_readings r)) (rg_credential_check (hr_readings r)) l")
        case (Inl e)
        then have "oc_limiter ?out = l" "\<not> oc_reached ?out" using acc by (simp_all add: handle_http_def Let_def)
        then show thesis using none call by simp
      next
        case (Inr res)
        obtain decision l' where res: "res = (decision, l')" by (cases res)
        have out: "oc_limiter ?out = l'"
          using acc Inr res by (auto simp: handle_http_def Let_def split: prod.split)
        have reached: "case decision of None \<Rightarrow> True | Some d \<Rightarrow> rd_allowed d" if "oc_reached ?out"
          using acc Inr res that by (cases decision) (auto simp: handle_http_def Let_def split: if_splits)
        show thesis
          by (rule limit_request_checks [OF Inr [unfolded res]]) (use that call out reached in \<open>auto simp: check_times_def\<close>)
      qed
    qed
  qed
qed

lemma charged_allowed:
  assumes "run_checks limits w (request_checks H X s scope g) l = Inr (ds, l')" and "list_all rd_allowed ds"
    and "(key, window) \<in> (\<lambda>c. (rc_key c, window_of w (rc_now c))) ` set (request_checks H X s scope g)"
  shows "1 \<le> allowed_in w (request_checks H X s scope g) ds key window"
proof -
  let ?cs = "request_checks H X s scope g"
  have len: "length ds = length ?cs" by (rule run_checks_length [OF assms(1)])
  obtain i where i: "i < length ?cs" "rc_key (?cs ! i) = key" "window_of w (rc_now (?cs ! i)) = window"
    using assms(3) by (auto simp: in_set_conv_nth)
  have "(?cs ! i, ds ! i) \<in> set (zip ?cs ds)" using i(1) len by (auto simp: in_set_zip)
  moreover have "rd_allowed (ds ! i)" using assms(2) i(1) len by (simp add: list_all_length)
  ultimately have "(?cs ! i, ds ! i) \<in> set (filter (\<lambda>(c, d). rd_allowed d \<and> rc_key c = key \<and> window_of w (rc_now c) = window) (zip ?cs ds))"
    using i by simp
  then show ?thesis unfolding allowed_in_def using length_pos_if_in_set by (fastforce simp: Suc_le_eq)
qed

definition reached_with :: "header_library \<Rightarrow> externals \<Rightarrow> runtime_settings \<Rightarrow> http_request list \<Rightarrow> limiter \<Rightarrow> rate_key \<Rightarrow> int \<Rightarrow> nat" where
  "reached_with H X s rs l key window =
     length (filter (\<lambda>(r, out). oc_reached out \<and> (key, window) \<in> set (charged H X s r)) (zip rs (serve_all H X s rs l)))"

lemma serve_all_checks:
  assumes "sorted (concat (map check_times rs))"
  shows "\<exists>cs ds l'. run_checks (policy_limit s) (rs_rate_limit_window_seconds s) cs l = Inr (ds, l')
    \<and> sorted (map rc_now cs) \<and> set (map rc_now cs) \<subseteq> set (concat (map check_times rs))
    \<and> (\<forall>key window. reached_with H X s rs l key window \<le> allowed_in (rs_rate_limit_window_seconds s) cs ds key window)"
  using assms
proof (induction rs arbitrary: l)
  case Nil
  show ?case by (intro exI [of _ "[]"]) (simp add: reached_with_def)
next
  case (Cons r rs)
  let ?w = "rs_rate_limit_window_seconds s"
  let ?out = "call H X s (hr_scope r) (hr_readings r) (hr_app r) (hr_messages r) l"
  obtain cs ds where one: "run_checks (policy_limit s) ?w cs l = Inr (ds, oc_limiter ?out)"
    and times: "map rc_now cs = take (length cs) (check_times r)"
    and all: "oc_reached ?out \<and> hs_type (hr_scope r) = ''http''
      \<longrightarrow> cs = request_checks H X s (hr_scope r) (hr_readings r) \<and> list_all rd_allowed ds"
    by (rule call_checks)
  have sorted: "sorted (check_times r)" "sorted (concat (map check_times rs))"
    "\<And>a b. a \<in> set (check_times r) \<Longrightarrow> b \<in> set (concat (map check_times rs)) \<Longrightarrow> a \<le> b"
    using Cons.prems by (auto simp: sorted_append)
  obtain cs' ds' l' where rest: "run_checks (policy_limit s) ?w cs' (oc_limiter ?out) = Inr (ds', l')"
    and rest_times: "sorted (map rc_now cs')" "set (map rc_now cs') \<subseteq> set (concat (map check_times rs))"
    and rest_le: "\<And>key window. reached_with H X s rs (oc_limiter ?out) key window \<le> allowed_in ?w cs' ds' key window"
    using Cons.IH [OF sorted(2), of "oc_limiter ?out"] by blast
  have len: "length ds = length cs" by (rule run_checks_length [OF one])
  have here: "set (map rc_now cs) \<subseteq> set (check_times r)" "sorted (map rc_now cs)"
    unfolding times by (rule set_take_subset, rule sorted_wrt_take [OF sorted(1)])
  have "run_checks (policy_limit s) ?w (cs @ cs') l = Inr (ds @ ds', l')" by (simp add: run_checks_append one rest)
  moreover have "sorted (map rc_now (cs @ cs'))"
    using here rest_times sorted(3) by (auto simp: sorted_append simp del: set_map) blast
  moreover have "set (map rc_now (cs @ cs')) \<subseteq> set (concat (map check_times (r # rs)))"
    using here(1) rest_times(2) by auto
  moreover have "reached_with H X s (r # rs) l key window \<le> allowed_in ?w (cs @ cs') (ds @ ds') key window" for key window
  proof -
    have head: "(if oc_reached ?out \<and> (key, window) \<in> set (charged H X s r) then 1 else 0) \<le> allowed_in ?w cs ds key window"
    proof (cases "oc_reached ?out \<and> (key, window) \<in> set (charged H X s r)")
      case True
      then have http: "hs_type (hr_scope r) = ''http''" by (auto simp: charged_def split: if_splits)
      with True all have cs: "cs = request_checks H X s (hr_scope r) (hr_readings r)" "list_all rd_allowed ds" by auto
      show ?thesis
        using charged_allowed [OF one [unfolded cs(1)] cs(2), of key window] True http cs(1)
        by (simp add: charged_def)
    qed auto
    have "reached_with H X s (r # rs) l key window
        = (if oc_reached ?out \<and> (key, window) \<in> set (charged H X s r) then 1 else 0)
          + reached_with H X s rs (oc_limiter ?out) key window"
      by (simp add: reached_with_def Let_def)
    then show ?thesis using head rest_le [of key window] by (simp add: allowed_in_append [OF len])
  qed
  ultimately show ?case by blast
qed

lemma policy_limit_positive: "numbers_valid s \<Longrightarrow> 1 \<le> policy_limit s p"
  by (simp add: numbers_valid_def policy_limit_def)

text \<open>
  C30: While the clock does not go back, at most as many requests reach the application in a window of
  the rate limit as the policy of their path allows, for every client and, separately, for every
  credential, whatever the applications do and whichever other requests come between.
\<close>

theorem requests_limited:
  assumes "validate_settings U s = Inr ()" and "sorted (concat (map check_times rs))"
  shows "int (length (filter (\<lambda>(r, out). oc_reached out \<and> (key, window) \<in> set (charged H X s r))
      (zip rs (serve_all H X s rs new_limiter)))) \<le> policy_limit s (fst key)"
proof -
  have valid: "numbers_valid s" using assms(1) by (simp add: validate_settings_iff)
  have w: "1 \<le> rs_rate_limit_window_seconds s" using valid by (simp add: numbers_valid_def)
  obtain cs ds l' where run: "run_checks (policy_limit s) (rs_rate_limit_window_seconds s) cs new_limiter = Inr (ds, l')"
    and sorted: "sorted (map rc_now cs)"
    and le: "reached_with H X s rs new_limiter key window \<le> allowed_in (rs_rate_limit_window_seconds s) cs ds key window"
    using serve_all_checks [OF assms(2), of s new_limiter H X] by blast
  show ?thesis
    using run_checks_new [OF policy_limit_positive [OF valid] w sorted run, of key window] le
    by (simp add: reached_with_def)
qed

definition sample_request :: http_request where
  "sample_request = \<lparr>hr_scope = sample_scope, hr_readings = sample_readings, hr_app = sample_app, hr_messages = [Request_body ''{}'']\<rparr>"

lemma sample_charged:
  "charged plain_headers X sample_settings sample_request = [((''authorization:client'', rate_limit_subject X None (Some ''10.0.0.1'')), 60)]"
proof -
  have "rate_policy plain_headers sample_settings sample_scope = Some (''authorization'', None, 1)" by code_simp
  then show ?thesis
    by (simp add: charged_def request_checks_def sample_request_def sample_scope_def sample_readings_def sample_settings_def
        window_of_def truncated_def)
qed

theorem requests_limited_witness:
  "length (filter oc_reached (serve_all plain_headers plain_externals sample_settings [sample_request, sample_request] new_limiter)) \<le> 1"
proof -
  have "sorted (concat (map check_times [sample_request, sample_request]))"
    by (simp add: check_times_def sample_request_def sample_readings_def)
  from requests_limited [OF sample_settings_valid this, where H = plain_headers and X = plain_externals
      and key = "(''authorization:client'', rate_limit_subject plain_externals None (Some ''10.0.0.1''))" and window = 60]
  moreover have "policy_limit sample_settings ''authorization:client'' = 1" by (simp add: policy_limit_def sample_settings_def)
  ultimately show ?thesis by (simp add: sample_charged Let_def split: if_splits)
qed

end
