(* ===== verification/Evidence.thy ===== *)
theory Evidence
  imports Triples
begin

text \<open>
  Evidence bundles: \<open>app/evidence_models.py\<close>, the bundle part of \<open>app/evidence.py\<close>,
  \<open>app/storage/evidence.py\<close> and \<open>app/services/evidence.py\<close>. A bundle carries selected
  decisions with the whole hash chain of their project, so that it can be verified without the
  service. The theorems say what a verification means, that every bundle the service makes verifies,
  and that a trusted checkpoint pins the decisions of a bundle to those in the ledger.
\<close>

section \<open>Models\<close>

record verifiable =
  vr_decision :: authorization
  vr_integrity :: integrity_proof

record snapshot =
  sn_project :: uuid
  sn_captured_at :: instant
  sn_max_sequence :: int
  sn_chain_count :: int
  sn_chain_head :: "string option"
  sn_record_count :: int

record manifest =
  mf_export :: uuid
  mf_generated_at :: instant
  mf_snapshot_at :: instant
  mf_project :: uuid
  mf_criteria :: decision_filters
  mf_record_count :: int
  mf_chain_count :: int
  mf_chain_head :: "string option"
  mf_expected_head :: "string option"
  mf_records_sha256 :: string
  mf_chain_sha256 :: string
  mf_bundle_sha256 :: string

record evidence_bundle =
  bn_manifest :: manifest
  bn_records :: "verifiable list"
  bn_chain :: "integrity_proof list"

datatype bundle_failure_code =
    Manifest_record_count_mismatch | Manifest_chain_count_mismatch | Records_digest_mismatch
  | Chain_digest_mismatch | Bundle_digest_mismatch | Project_mismatch | Chain_sequence_mismatch
  | Chain_previous_hash_mismatch | Chain_record_hash_mismatch | Chain_head_mismatch
  | Trusted_checkpoint_mismatch | Selected_record_missing | Selected_proof_mismatch
  | Selected_payload_hash_mismatch

record bundle_failure =
  bf_code :: bundle_failure_code
  bf_decision :: "uuid option"
  bf_sequence :: "int option"
  bf_expected :: "string option"
  bf_actual :: "string option"

record bundle_verification =
  bv_verified :: bool
  bv_project :: uuid
  bv_checked_records :: nat
  bv_checked_chain :: nat
  bv_head :: "string option"
  bv_failure :: "bundle_failure option"

section \<open>Serialised models\<close>

text \<open>\<open>model_dump(mode="json")\<close>.\<close>

definition proof_json :: "externals \<Rightarrow> integrity_proof \<Rightarrow> json" where
  "proof_json X p = JObj [(''decision_id'', uuid_json (ip_decision p)), (''project_id'', uuid_json (ip_project p)),
     (''sequence_number'', JInt (ip_sequence p)), (''previous_hash'', opt_json JStr (ip_previous p)),
     (''payload_hash'', JStr (ip_payload_hash p)), (''record_hash'', JStr (ip_record_hash p)),
     (''algorithm'', JStr (ip_algorithm p)), (''schema_version'', JInt (ip_schema p)),
     (''created_at'', time_json X (ip_created_at p))]"

definition record_json :: "externals \<Rightarrow> verifiable \<Rightarrow> json" where
  "record_json X r = JObj [(''decision'', authorization_json X (vr_decision r)),
     (''integrity'', proof_json X (vr_integrity r))]"

fun approval_filter_text :: "approval_filter \<Rightarrow> string" where
  "approval_filter_text No_approval = ''NONE''"
| "approval_filter_text (With_status s) = approval_status_text s"

definition criteria_json :: "externals \<Rightarrow> decision_filters \<Rightarrow> json" where
  "criteria_json X f = JObj [(''decision'', opt_json (\<lambda>v. JStr (decision_text v)) (fl_decision f)),
     (''agent'', opt_json JStr (fl_agent f)), (''action'', opt_json JStr (fl_action f)),
     (''policy_id'', opt_json JStr (fl_policy f)), (''has_policy'', opt_json JBool (fl_has_policy f)),
     (''approval_status'', opt_json (\<lambda>v. JStr (approval_filter_text v)) (fl_approval f)),
     (''evaluated_after'', opt_json (time_json X) (fl_after f)),
     (''evaluated_before'', opt_json (time_json X) (fl_before f)),
     (''query'', opt_json JStr (fl_query f)),
     (''sort'', JStr (if fl_ascending f then ''asc'' else ''desc''))]"

definition manifest_members :: "externals \<Rightarrow> manifest \<Rightarrow> (string \<times> json) list" where
  "manifest_members X m = [(''schema_version'', JInt 1), (''export_id'', uuid_json (mf_export m)),
     (''generated_at'', time_json X (mf_generated_at m)), (''snapshot_at'', time_json X (mf_snapshot_at m)),
     (''project_id'', uuid_json (mf_project m)), (''criteria'', criteria_json X (mf_criteria m)),
     (''record_count'', JInt (mf_record_count m)), (''chain_record_count'', JInt (mf_chain_count m)),
     (''chain_head_hash'', opt_json JStr (mf_chain_head m)),
     (''expected_head_hash'', opt_json JStr (mf_expected_head m)),
     (''records_sha256'', JStr (mf_records_sha256 m)), (''chain_sha256'', JStr (mf_chain_sha256 m))]"

definition manifest_without_bundle_digest :: "externals \<Rightarrow> manifest \<Rightarrow> json" where
  "manifest_without_bundle_digest X m = JObj (manifest_members X m)"

definition manifest_json :: "externals \<Rightarrow> manifest \<Rightarrow> json" where
  "manifest_json X m = JObj (manifest_members X m @ [(''bundle_sha256'', JStr (mf_bundle_sha256 m))])"

definition logical_bundle_payload :: "externals \<Rightarrow> manifest \<Rightarrow> verifiable list \<Rightarrow> integrity_proof list \<Rightarrow> json" where
  "logical_bundle_payload X m records chain = JObj [(''manifest'', manifest_without_bundle_digest X m),
     (''records'', JArr (map (record_json X) records)), (''chain'', JArr (map (proof_json X) chain))]"

definition records_digest :: "externals \<Rightarrow> verifiable list \<Rightarrow> string" where
  "records_digest X records = digest_json X (JArr (map (record_json X) records))"

definition chain_digest :: "externals \<Rightarrow> integrity_proof list \<Rightarrow> string" where
  "chain_digest X chain = digest_json X (JArr (map (proof_json X) chain))"

section \<open>Building a bundle\<close>

text \<open>\<open>EvidenceBundleManifest.model_validate\<close>: counts from 0, digests of 64 hexadecimal digits.\<close>

definition manifest_valid :: "manifest \<Rightarrow> bool" where
  "manifest_valid m \<longleftrightarrow> 0 \<le> mf_record_count m \<and> 0 \<le> mf_chain_count m
     \<and> (case mf_chain_head m of None \<Rightarrow> True | Some h \<Rightarrow> is_sha256_text h)
     \<and> (case mf_expected_head m of None \<Rightarrow> True | Some h \<Rightarrow> is_sha256_text h)
     \<and> is_sha256_text (mf_records_sha256 m) \<and> is_sha256_text (mf_chain_sha256 m)
     \<and> is_sha256_text (mf_bundle_sha256 m)"

definition build_evidence_bundle ::
  "externals \<Rightarrow> snapshot \<Rightarrow> decision_filters \<Rightarrow> verifiable list \<Rightarrow> integrity_proof list
    \<Rightarrow> string option \<Rightarrow> instant \<Rightarrow> uuid \<Rightarrow> exn + evidence_bundle" where
  "build_evidence_bundle X snapshot criteria records chain expected_head generated_at export_id =
     (if int (length records) \<noteq> sn_record_count snapshot
      then Inl (ValueError ''Export record count changed after the snapshot was created.'')
      else if int (length chain) \<noteq> sn_chain_count snapshot
      then Inl (ValueError ''Integrity chain changed after the snapshot was created.'')
      else if chain_head ip_record_hash chain None \<noteq> sn_chain_head snapshot
      then Inl (ValueError ''Integrity chain head changed after the snapshot was created.'')
      else
        let m = \<lparr>mf_export = export_id, mf_generated_at = generated_at, mf_snapshot_at = sn_captured_at snapshot,
              mf_project = sn_project snapshot, mf_criteria = criteria, mf_record_count = sn_record_count snapshot,
              mf_chain_count = sn_chain_count snapshot, mf_chain_head = sn_chain_head snapshot,
              mf_expected_head = expected_head, mf_records_sha256 = records_digest X records,
              mf_chain_sha256 = chain_digest X chain, mf_bundle_sha256 = replicate 64 (CHR ''0'')\<rparr>;
            signed = m\<lparr>mf_bundle_sha256 := digest_json X (logical_bundle_payload X m records chain)\<rparr>
        in if \<not> manifest_valid m \<or> \<not> manifest_valid signed then Inl ValidationError
           else Inr \<lparr>bn_manifest = signed, bn_records = records, bn_chain = chain\<rparr>)"

section \<open>Verifying a bundle\<close>

definition proof_record_hash :: "externals \<Rightarrow> integrity_proof \<Rightarrow> string" where
  "proof_record_hash X p = digest_json X (integrity_record_envelope (ip_algorithm p) (x_time X (ip_created_at p))
     (ip_decision p) (ip_payload_hash p) (ip_previous p) (ip_project p) (ip_schema p) (ip_sequence p))"

abbreviation bundle_failed :: "bundle_failure_code \<Rightarrow> uuid option \<Rightarrow> int option \<Rightarrow> string option \<Rightarrow> string option
    \<Rightarrow> bundle_failure" where
  "bundle_failed code did n expected actual \<equiv>
     \<lparr>bf_code = code, bf_decision = did, bf_sequence = n, bf_expected = expected, bf_actual = actual\<rparr>"

definition failed_verification :: "evidence_bundle \<Rightarrow> nat \<Rightarrow> nat \<Rightarrow> bundle_failure \<Rightarrow> bundle_verification" where
  "failed_verification b records chain failure = \<lparr>bv_verified = False, bv_project = mf_project (bn_manifest b),
     bv_checked_records = records, bv_checked_chain = chain,
     bv_head = chain_head ip_record_hash (bn_chain b) None, bv_failure = Some failure\<rparr>"

text \<open>The checks of the manifest, in the code's order: the first that fails.\<close>

definition check_manifest :: "externals \<Rightarrow> evidence_bundle \<Rightarrow> bundle_failure option" where
  "check_manifest X b =
     (let m = bn_manifest b; records = bn_records b; chain = bn_chain b;
          bundle_digest = digest_json X (logical_bundle_payload X m records chain) in
      if mf_record_count m \<noteq> int (length records)
      then Some (bundle_failed Manifest_record_count_mismatch None None
        (Some (show_int (mf_record_count m))) (Some (show_nat (length records))))
      else if mf_chain_count m \<noteq> int (length chain)
      then Some (bundle_failed Manifest_chain_count_mismatch None None
        (Some (show_int (mf_chain_count m))) (Some (show_nat (length chain))))
      else if mf_records_sha256 m \<noteq> records_digest X records
      then Some (bundle_failed Records_digest_mismatch None None
        (Some (mf_records_sha256 m)) (Some (records_digest X records)))
      else if mf_chain_sha256 m \<noteq> chain_digest X chain
      then Some (bundle_failed Chain_digest_mismatch None None (Some (mf_chain_sha256 m)) (Some (chain_digest X chain)))
      else if mf_bundle_sha256 m \<noteq> bundle_digest
      then Some (bundle_failed Bundle_digest_mismatch None None (Some (mf_bundle_sha256 m)) (Some bundle_digest))
      else None)"

text \<open>One record of the chain; \<open>seen\<close> are the decisions before it.\<close>

definition check_link ::
  "externals \<Rightarrow> uuid \<Rightarrow> int \<Rightarrow> string option \<Rightarrow> uuid set \<Rightarrow> integrity_proof \<Rightarrow> bundle_failure option" where
  "check_link X pid n previous seen p =
     (if ip_project p \<noteq> pid
      then Some (bundle_failed Project_mismatch (Some (ip_decision p)) (Some (ip_sequence p))
        (Some (uuid_text pid)) (Some (uuid_text (ip_project p))))
      else if ip_sequence p \<noteq> n
      then Some (bundle_failed Chain_sequence_mismatch (Some (ip_decision p)) (Some n)
        (Some (show_int n)) (Some (show_int (ip_sequence p))))
      else if ip_previous p \<noteq> previous
      then Some (bundle_failed Chain_previous_hash_mismatch (Some (ip_decision p)) (Some (ip_sequence p))
        previous (ip_previous p))
      else if ip_record_hash p \<noteq> proof_record_hash X p
      then Some (bundle_failed Chain_record_hash_mismatch (Some (ip_decision p)) (Some (ip_sequence p))
        (Some (ip_record_hash p)) (Some (proof_record_hash X p)))
      else if ip_decision p \<in> seen
      then Some (bundle_failed Chain_sequence_mismatch (Some (ip_decision p)) (Some (ip_sequence p)) None None)
      else None)"

text \<open>The loop over the chain: the first failure with the records checked before it.\<close>

fun check_links ::
  "externals \<Rightarrow> uuid \<Rightarrow> integrity_proof list \<Rightarrow> nat \<Rightarrow> string option \<Rightarrow> uuid set \<Rightarrow> (nat \<times> bundle_failure) option" where
  "check_links X pid [] n previous seen = None"
| "check_links X pid (p # ps) n previous seen =
     (case check_link X pid (int n + 1) previous seen p of
        Some failure \<Rightarrow> Some (n, failure)
      | None \<Rightarrow> check_links X pid ps (n + 1) (Some (ip_record_hash p)) (insert (ip_decision p) seen))"

text \<open>One selected record; \<open>selected\<close> are the decisions before it.\<close>

definition check_selected ::
  "externals \<Rightarrow> uuid \<Rightarrow> integrity_proof list \<Rightarrow> uuid set \<Rightarrow> verifiable \<Rightarrow> bundle_failure option" where
  "check_selected X pid chain selected r =
     (let a = vr_decision r; p = vr_integrity r; payload_hash = payload_hash_of X a in
      if au_project a \<noteq> pid \<or> ip_project p \<noteq> pid
      then Some (bundle_failed Project_mismatch (Some (au_id a)) None (Some (uuid_text pid)) (Some (uuid_text (au_project a))))
      else (case find_row (\<lambda>q. ip_decision q = au_id a) chain of
          None \<Rightarrow> Some (bundle_failed Selected_record_missing (Some (au_id a)) None None None)
        | Some chain_proof \<Rightarrow>
            if ip_decision p \<noteq> au_id a \<or> p \<noteq> chain_proof \<or> au_id a \<in> selected
            then Some (bundle_failed Selected_proof_mismatch (Some (au_id a)) (Some (ip_sequence p)) None None)
            else if ip_payload_hash p \<noteq> payload_hash
            then Some (bundle_failed Selected_payload_hash_mismatch (Some (au_id a)) (Some (ip_sequence p))
              (Some (ip_payload_hash p)) (Some payload_hash))
            else None))"

fun check_records ::
  "externals \<Rightarrow> uuid \<Rightarrow> integrity_proof list \<Rightarrow> verifiable list \<Rightarrow> nat \<Rightarrow> uuid set \<Rightarrow> (nat \<times> bundle_failure) option" where
  "check_records X pid chain [] n selected = None"
| "check_records X pid chain (r # rs) n selected =
     (case check_selected X pid chain selected r of
        Some failure \<Rightarrow> Some (n, failure)
      | None \<Rightarrow> check_records X pid chain rs (n + 1) (insert (au_id (vr_decision r)) selected))"

text \<open>The trusted checkpoints, the manifest's first.\<close>

definition check_checkpoint :: "integrity_proof list \<Rightarrow> string option \<Rightarrow> bool" where
  "check_checkpoint chain checkpoint \<longleftrightarrow>
     (case checkpoint of None \<Rightarrow> True | Some h \<Rightarrow> h \<in> ip_record_hash ` set chain)"

definition check_checkpoints :: "integrity_proof list \<Rightarrow> string option list \<Rightarrow> bundle_failure option" where
  "check_checkpoints chain checkpoints =
     map_option (\<lambda>checkpoint. bundle_failed Trusted_checkpoint_mismatch None None checkpoint
       (chain_head ip_record_hash chain None)) (find_row (\<lambda>c. \<not> check_checkpoint chain c) checkpoints)"

definition verify_evidence_bundle :: "externals \<Rightarrow> evidence_bundle \<Rightarrow> string option \<Rightarrow> bundle_verification" where
  "verify_evidence_bundle X b expected_head =
     (let m = bn_manifest b; records = bn_records b; chain = bn_chain b;
          head_hash = chain_head ip_record_hash chain None in
      case check_manifest X b of Some failure \<Rightarrow> failed_verification b 0 0 failure
      | None \<Rightarrow> (case check_links X (mf_project m) chain 0 None {} of
        Some (n, failure) \<Rightarrow> failed_verification b 0 n failure
      | None \<Rightarrow>
          if mf_chain_head m \<noteq> head_hash
          then failed_verification b 0 (length chain)
            (bundle_failed Chain_head_mismatch None None (mf_chain_head m) head_hash)
          else (case check_checkpoints chain [mf_expected_head m, expected_head] of
            Some failure \<Rightarrow> failed_verification b 0 (length chain) failure
          | None \<Rightarrow> (case check_records X (mf_project m) chain records 0 {} of
              Some (n, failure) \<Rightarrow> failed_verification b n (length chain) failure
            | None \<Rightarrow> \<lparr>bv_verified = True, bv_project = mf_project m, bv_checked_records = length records,
                bv_checked_chain = length chain, bv_head = head_hash, bv_failure = None\<rparr>))))"

section \<open>What a verification means\<close>

text \<open>The chain of a project: numbered from 1, linked by the digests of its records.\<close>

definition links_valid :: "externals \<Rightarrow> uuid \<Rightarrow> integrity_proof list \<Rightarrow> bool" where
  "links_valid X pid chain \<longleftrightarrow> distinct (map ip_decision chain)
     \<and> (\<forall>i < length chain. ip_project (chain ! i) = pid \<and> ip_sequence (chain ! i) = int i + 1
         \<and> ip_previous (chain ! i) = previous_at ip_record_hash chain None i
         \<and> ip_record_hash (chain ! i) = proof_record_hash X (chain ! i))"

definition selected_valid :: "externals \<Rightarrow> uuid \<Rightarrow> integrity_proof list \<Rightarrow> verifiable \<Rightarrow> bool" where
  "selected_valid X pid chain r \<longleftrightarrow> au_project (vr_decision r) = pid \<and> vr_integrity r \<in> set chain
     \<and> ip_decision (vr_integrity r) = au_id (vr_decision r)
     \<and> ip_payload_hash (vr_integrity r) = payload_hash_of X (vr_decision r)"

lemma check_link_None:
  "check_link X pid n previous seen p = None \<longleftrightarrow> ip_project p = pid \<and> ip_sequence p = n \<and> ip_previous p = previous
    \<and> ip_record_hash p = proof_record_hash X p \<and> ip_decision p \<notin> seen"
  by (simp add: check_link_def)

lemma check_links_None:
  "check_links X pid ps n previous seen = None \<longleftrightarrow>
     distinct (map ip_decision ps) \<and> ip_decision ` set ps \<inter> seen = {}
     \<and> (\<forall>i < length ps. ip_project (ps ! i) = pid \<and> ip_sequence (ps ! i) = int n + int i + 1
         \<and> ip_previous (ps ! i) = previous_at ip_record_hash ps previous i
         \<and> ip_record_hash (ps ! i) = proof_record_hash X (ps ! i))"
proof (induction ps arbitrary: n previous seen)
  case Nil
  then show ?case by simp
next
  case (Cons p ps)
  have shift: "previous_at ip_record_hash (p # ps) previous (Suc i) = previous_at ip_record_hash ps (Some (ip_record_hash p)) i" for i
    by (cases i) (simp_all add: previous_at_def)
  have "(\<forall>i < length (p # ps). P ((p # ps) ! i) i) \<longleftrightarrow> P p 0 \<and> (\<forall>i < length ps. P (ps ! i) (Suc i))" for P :: "integrity_proof \<Rightarrow> nat \<Rightarrow> bool"
    by (auto simp: less_Suc_eq_0_disj)
  note all = this [of "\<lambda>q i. ip_project q = pid \<and> ip_sequence q = int n + int i + 1
    \<and> ip_previous q = previous_at ip_record_hash (p # ps) previous i \<and> ip_record_hash q = proof_record_hash X q"]
  have first: "previous_at ip_record_hash (p # ps) previous 0 = previous" by (simp add: previous_at_def)
  show ?case
  proof (cases "check_link X pid (int n + 1) previous seen p")
    case None
    then show ?thesis
      using check_link_None [of X pid "int n + 1" previous seen p] Cons.IH
      unfolding all by (auto simp: shift first algebra_simps)
  next
    case (Some failure)
    then have "\<not> (ip_project p = pid \<and> ip_sequence p = int n + 1 \<and> ip_previous p = previous
        \<and> ip_record_hash p = proof_record_hash X p \<and> ip_decision p \<notin> seen)"
      using check_link_None by (metis option.distinct(1))
    with Some show ?thesis unfolding all by (auto simp: first)
  qed
qed

lemma links_valid_iff: "check_links X pid chain 0 None {} = None \<longleftrightarrow> links_valid X pid chain"
  by (simp add: check_links_None links_valid_def)

lemma check_selected_None:
  assumes "links_valid X pid chain"
  shows "check_selected X pid chain selected r = None \<longleftrightarrow> selected_valid X pid chain r \<and> au_id (vr_decision r) \<notin> selected"
proof -
  let ?a = "vr_decision r" and ?p = "vr_integrity r"
  have dist: "distinct (map ip_decision chain)" using assms by (simp add: links_valid_def)
  have project: "ip_project q = pid" if "q \<in> set chain" for q
    using that assms by (auto simp: links_valid_def in_set_conv_nth)
  show ?thesis
  proof (cases "find_row (\<lambda>q. ip_decision q = au_id ?a) chain")
    case None
    then have "\<forall>q \<in> set chain. ip_decision q \<noteq> au_id ?a" by (simp add: find_row_None)
    then show ?thesis by (auto simp: check_selected_def Let_def selected_valid_def None)
  next
    case (Some q)
    then have q: "q \<in> set chain" "ip_decision q = au_id ?a" by (auto dest: find_row_Some)
    have "?p = q" if "?p \<in> set chain" "ip_decision ?p = au_id ?a"
      using that q dist by (metis distinct_map inj_onD)
    then have "selected_valid X pid chain r \<longleftrightarrow> au_project ?a = pid \<and> ip_decision ?p = au_id ?a \<and> ?p = q
        \<and> ip_payload_hash ?p = payload_hash_of X ?a"
      using q by (auto simp: selected_valid_def)
    moreover have "check_selected X pid chain selected r = None \<longleftrightarrow> au_project ?a = pid \<and> ip_project ?p = pid
        \<and> ip_decision ?p = au_id ?a \<and> ?p = q \<and> au_id ?a \<notin> selected \<and> ip_payload_hash ?p = payload_hash_of X ?a"
      unfolding check_selected_def Let_def Some option.case by simp (metis)
    ultimately show ?thesis using project [OF q(1)] by (metis (full_types))
  qed
qed

lemma check_records_None:
  assumes "links_valid X pid chain"
  shows "check_records X pid chain rs n selected = None \<longleftrightarrow> list_all (selected_valid X pid chain) rs
     \<and> distinct (map (\<lambda>r. au_id (vr_decision r)) rs) \<and> (\<lambda>r. au_id (vr_decision r)) ` set rs \<inter> selected = {}"
proof (induction rs arbitrary: n selected)
  case (Cons r rs)
  show ?case
  proof (cases "check_selected X pid chain selected r")
    case None
    then show ?thesis using check_selected_None [OF assms, of selected r] Cons.IH by auto
  next
    case (Some failure)
    then show ?thesis using check_selected_None [OF assms, of selected r] by auto
  qed
qed simp

lemma check_checkpoints_None:
  "check_checkpoints chain checkpoints = None \<longleftrightarrow> list_all (check_checkpoint chain) checkpoints"
  by (auto simp: check_checkpoints_def find_row_None list_all_iff)

lemma check_manifest_None:
  "check_manifest X b = None \<longleftrightarrow>
     mf_record_count (bn_manifest b) = int (length (bn_records b)) \<and> mf_chain_count (bn_manifest b) = int (length (bn_chain b))
     \<and> mf_records_sha256 (bn_manifest b) = records_digest X (bn_records b)
     \<and> mf_chain_sha256 (bn_manifest b) = chain_digest X (bn_chain b)
     \<and> mf_bundle_sha256 (bn_manifest b)
         = digest_json X (logical_bundle_payload X (bn_manifest b) (bn_records b) (bn_chain b))"
  by (simp add: check_manifest_def Let_def)

definition bundle_valid :: "externals \<Rightarrow> evidence_bundle \<Rightarrow> string option \<Rightarrow> bool" where
  "bundle_valid X b expected_head \<longleftrightarrow> check_manifest X b = None
     \<and> links_valid X (mf_project (bn_manifest b)) (bn_chain b)
     \<and> mf_chain_head (bn_manifest b) = chain_head ip_record_hash (bn_chain b) None
     \<and> check_checkpoint (bn_chain b) (mf_expected_head (bn_manifest b)) \<and> check_checkpoint (bn_chain b) expected_head
     \<and> list_all (selected_valid X (mf_project (bn_manifest b)) (bn_chain b)) (bn_records b)
     \<and> distinct (map (\<lambda>r. au_id (vr_decision r)) (bn_records b))"

lemma failed_verification_fields [simp]:
  "\<not> bv_verified (failed_verification b n k failure)" "bv_failure (failed_verification b n k failure) = Some failure"
  by (simp_all add: failed_verification_def)

lemma verified_bundle_valid: "bv_verified (verify_evidence_bundle X b expected) \<longleftrightarrow> bundle_valid X b expected"
proof (cases "check_links X (mf_project (bn_manifest b)) (bn_chain b) 0 None {}")
  case None
  then have links: "links_valid X (mf_project (bn_manifest b)) (bn_chain b)" by (simp add: links_valid_iff)
  have "check_checkpoints (bn_chain b) [mf_expected_head (bn_manifest b), expected] = None
      \<longleftrightarrow> check_checkpoint (bn_chain b) (mf_expected_head (bn_manifest b)) \<and> check_checkpoint (bn_chain b) expected"
    by (simp add: check_checkpoints_None)
  then show ?thesis
    using links check_records_None [OF links, of "bn_records b" 0 "{}"]
    by (auto simp: verify_evidence_bundle_def Let_def None bundle_valid_def split: option.split)
next
  case (Some f)
  then have "\<not> links_valid X (mf_project (bn_manifest b)) (bn_chain b)"
    using links_valid_iff by (metis option.distinct(1))
  then show ?thesis
    by (auto simp: verify_evidence_bundle_def Let_def Some bundle_valid_def split: option.split prod.split)
qed

section \<open>The chain of a bundle\<close>

text \<open>
  A record rebuilt at a place of a chain from what it says of its decision: the interface
  \<open>hash_chain\<close> holds of the records of a bundle without their decisions.
\<close>

definition placed :: "externals \<Rightarrow> integrity_proof \<Rightarrow> int \<Rightarrow> string option \<Rightarrow> integrity_proof" where
  "placed X p n previous = (let q = p\<lparr>ip_sequence := n, ip_previous := previous\<rparr>
     in q\<lparr>ip_record_hash := proof_record_hash X q\<rparr>)"

definition envelope_of :: "externals \<Rightarrow> integrity_proof \<Rightarrow> json" where
  "envelope_of X p = integrity_record_envelope (ip_algorithm p) (x_time X (ip_created_at p)) (ip_decision p)
     (ip_payload_hash p) (ip_previous p) (ip_project p) (ip_schema p) (ip_sequence p)"

definition link_texts :: "externals \<Rightarrow> integrity_proof \<Rightarrow> int \<Rightarrow> string option \<Rightarrow> string set" where
  "link_texts X p n previous = {canonical_json (x_float X) (envelope_of X (placed X p n previous))}"

definition same_claim :: "integrity_proof \<Rightarrow> integrity_proof \<Rightarrow> bool" where
  "same_claim p q \<longleftrightarrow> ip_payload_hash p = ip_payload_hash q \<and> uuid_text (ip_decision p) = uuid_text (ip_decision q)"

lemma placed_fields [simp]:
  "ip_sequence (placed X p n previous) = n" "ip_previous (placed X p n previous) = previous"
  "ip_payload_hash (placed X p n previous) = ip_payload_hash p" "ip_decision (placed X p n previous) = ip_decision p"
  by (simp_all add: placed_def Let_def)

lemma placed_hash: "ip_record_hash (placed X p n previous) = digest_json X (envelope_of X (placed X p n previous))"
  by (simp add: placed_def Let_def proof_record_hash_def envelope_of_def)

lemma link_pinned:
  assumes float: "float_text_ok (x_float X)"
    and hash: "ip_record_hash (placed X p n previous) = ip_record_hash (placed X q m previous')"
    and apart: "\<not> collides (x_sha256 X) (link_texts X p n previous \<union> link_texts X q m previous')"
  shows "same_claim p q \<and> n = m \<and> previous = previous'"
proof -
  have "canonical_json (x_float X) (envelope_of X (placed X p n previous))
      = canonical_json (x_float X) (envelope_of X (placed X q m previous'))"
    by (rule not_collides [OF apart]) (use hash in \<open>simp_all add: link_texts_def placed_hash digest_json_def\<close>)
  note mem = sort_json_members [OF canonical_json_inj [OF float this, unfolded envelope_of_def integrity_record_envelope_def]]
  from mem [of "''sequence_number''"] mem [of "''previous_hash''"] mem [of "''payload_hash''"] mem [of "''decision_id''"]
  show ?thesis by (simp add: same_claim_def uuid_json_def)
qed

interpretation bundle_chain: hash_chain "placed X" ip_record_hash same_claim "x_sha256 X" "link_texts X" "float_text_ok (x_float X)" for X
  by unfold_locales (use link_pinned in blast)

abbreviation placed_chain :: "externals \<Rightarrow> integrity_proof list \<Rightarrow> integrity_proof list" where
  "placed_chain X ps \<equiv> chain_of (placed X) ip_record_hash ps 1 None"

lemma placed_fixed:
  "ip_sequence p = n \<Longrightarrow> ip_previous p = previous \<Longrightarrow> ip_record_hash p = proof_record_hash X p \<Longrightarrow> placed X p n previous = p"
proof -
  assume p: "ip_sequence p = n" "ip_previous p = previous" "ip_record_hash p = proof_record_hash X p"
  have q: "p\<lparr>ip_sequence := n, ip_previous := previous\<rparr> = p" using p(1,2) by (cases p) simp
  show ?thesis unfolding placed_def Let_def q p(3) [symmetric] by (cases p) simp
qed

lemma linked_chain:
  assumes "\<forall>i < length ps. ip_sequence (ps ! i) = n + int i \<and> ip_previous (ps ! i) = previous_at ip_record_hash ps previous i
    \<and> ip_record_hash (ps ! i) = proof_record_hash X (ps ! i)"
  shows "chain_of (placed X) ip_record_hash ps n previous = ps"
  using assms
proof (induction ps arbitrary: n previous)
  case Nil
  then show ?case by simp
next
  case (Cons p ps)
  have p: "ip_sequence p = n" "ip_previous p = previous" "ip_record_hash p = proof_record_hash X p"
    using Cons.prems [rule_format, of 0] by (simp_all add: previous_at_def)
  have rest: "\<forall>i < length ps. ip_sequence (ps ! i) = (n + 1) + int i
      \<and> ip_previous (ps ! i) = previous_at ip_record_hash ps (Some (ip_record_hash p)) i
      \<and> ip_record_hash (ps ! i) = proof_record_hash X (ps ! i)"
  proof (intro allI impI)
    fix i assume "i < length ps"
    then show "ip_sequence (ps ! i) = (n + 1) + int i
      \<and> ip_previous (ps ! i) = previous_at ip_record_hash ps (Some (ip_record_hash p)) i
      \<and> ip_record_hash (ps ! i) = proof_record_hash X (ps ! i)"
      using Cons.prems [rule_format, of "Suc i"] by (cases i) (simp_all add: previous_at_def)
  qed
  show ?case by (simp add: Let_def placed_fixed [OF p] Cons.IH [OF rest])
qed

lemma links_placed: "links_valid X pid chain \<Longrightarrow> placed_chain X chain = chain"
  by (rule linked_chain) (auto simp: links_valid_def)

lemma envelope_of_build:
  "proof_record_hash X (build_decision_integrity_proof X a n previous) = ip_record_hash (build_decision_integrity_proof X a n previous)"
  by (simp add: proof_record_hash_def build_decision_integrity_proof_def calculate_integrity_record_hash_def record_envelope_def)

text \<open>The chain a verified ledger has is a valid chain of a bundle.\<close>

lemma ledger_links:
  assumes "db_ok d" and "project_chain d pid = proofs_of X as 1 None"
  shows "links_valid X pid (project_chain d pid)"
  unfolding links_valid_def
proof (intro conjI allI impI)
  show "distinct (map ip_decision (project_chain d pid))" by (rule distinct_project_chain [OF assms(1)])
  fix i assume i: "i < length (project_chain d pid)"
  then have "project_chain d pid ! i \<in> set (project_chain d pid)" by simp
  then show "ip_project (project_chain d pid ! i) = pid" by (simp add: project_chain_set)
  have len: "i < length as" using i by (simp add: assms(2))
  show "ip_sequence (project_chain d pid ! i) = int i + 1"
    "ip_previous (project_chain d pid ! i) = previous_at ip_record_hash (project_chain d pid) None i"
    using proofs_of_nth [OF len, of X 1 None] by (simp_all add: assms(2))
  show "ip_record_hash (project_chain d pid ! i) = proof_record_hash X (project_chain d pid ! i)"
    by (simp add: assms(2) chain_of_nth [OF len] envelope_of_build)
qed

section \<open>What a checkpoint says of a bundle\<close>

text \<open>The texts behind the digests of a chain, and of the decisions it may be compared with.\<close>

definition chain_envelopes :: "externals \<Rightarrow> integrity_proof list \<Rightarrow> string set" where
  "chain_envelopes X chain = (\<lambda>p. canonical_json (x_float X) (envelope_of X p)) ` set chain"

definition payload_text :: "externals \<Rightarrow> authorization \<Rightarrow> string" where
  "payload_text X a = canonical_json (x_float X) (authorization_payload_v1 X a)"

lemma placed_texts:
  assumes "placed_chain X chain = chain"
  shows "chain_texts (placed X) ip_record_hash (link_texts X) chain 1 None \<subseteq> chain_envelopes X chain"
proof
  fix s assume "s \<in> chain_texts (placed X) ip_record_hash (link_texts X) chain 1 None"
  then obtain i where i: "i < length chain"
    and s: "s = canonical_json (x_float X) (envelope_of X (placed X (chain ! i) (1 + int i)
      (previous_at ip_record_hash (placed_chain X chain) None i)))"
    by (auto simp: chain_texts_def link_texts_def)
  have "placed X (chain ! i) (1 + int i) (previous_at ip_record_hash (placed_chain X chain) None i) = chain ! i"
    using chain_of_nth [OF i, of "placed X" ip_record_hash 1 None] assms by simp
  then show "s \<in> chain_envelopes X chain" using i by (simp add: s chain_envelopes_def)
qed

text \<open>
  C24: A trusted checkpoint ties a bundle to the ledger. When a ledger verified with some head and a
  bundle of the project, wherever it comes from, verifies with this head as its checkpoint, then the
  bundle's chain starts with the records of that ledger, and every selected decision whose record is
  among them says what the ledger's decision at that position says, up to the order of JSON
  keys, unless two of the texts digested have the same digest.
\<close>

theorem checkpoint_ties_bundle:
  assumes "float_text_ok (x_float X)" and "db_ok d"
    and "vf_verified (ledger_verify X pid None d)" and "vf_head (ledger_verify X pid None d) = Some h"
    and "bv_verified (verify_evidence_bundle X b (Some h))" and "mf_project (bn_manifest b) = pid"
    and "r \<in> set (bn_records b)" and "i < length (verification_rows d pid)"
    and "ip_sequence (vr_integrity r) = int i + 1"
    and "\<not> collides (x_sha256 X) (chain_envelopes X (project_chain d pid) \<union> chain_envelopes X (bn_chain b)
       \<union> {payload_text X (vr_decision r), payload_text X (snd (verification_rows d pid ! i))})"
  shows "same_payload X (vr_decision r) (snd (verification_rows d pid ! i))
    \<and> ip_record_hash (vr_integrity r) = ip_record_hash (fst (verification_rows d pid ! i))"
proof -
  let ?chain = "project_chain d pid" and ?links = "bn_chain b" and ?p = "vr_integrity r"
  from verified_ledger_valid [OF assms(2,3)] have valid: "ledger_valid X d pid" by simp
  from ledger_rows [OF assms(2) valid] obtain as where chain: "?chain = proofs_of X as 1 None"
    and rows: "verification_rows d pid = zip (proofs_of X as 1 None) as" by metis
  have head: "chain_head ip_record_hash ?chain None = Some h"
    using valid_ledger_verified [OF assms(2) valid, of None] assms(4) by simp
  from assms(5) have b: "links_valid X pid ?links" "h \<in> ip_record_hash ` set ?links" "selected_valid X pid ?links r"
    using assms(6,7) by (auto simp: verified_bundle_valid bundle_valid_def check_checkpoint_def list_all_iff)
  note placed = links_placed [OF ledger_links [OF assms(2) chain]] links_placed [OF b(1)]
  have "\<not> collides (x_sha256 X) (chain_texts (placed X) ip_record_hash (link_texts X) ?chain 1 None
      \<union> chain_texts (placed X) ip_record_hash (link_texts X) ?links 1 None)"
    using assms(10) placed_texts [OF placed(1)] placed_texts [OF placed(2)] collides_mono by (metis Un_mono sup.coboundedI1)
  note prefix = bundle_chain.prefix_pinned [OF assms(1) this, unfolded placed]
  have ne: "?chain \<noteq> []" and last: "ip_record_hash (?chain ! (length ?chain - 1)) = h"
    using head by (auto simp: chain_head_def last_conv_nth split: if_splits)
  obtain j where j: "j < length ?links" "ip_record_hash (?links ! j) = h" using b(2) by (auto simp: in_set_conv_nth)
  have pinned: "\<forall>k \<le> length ?chain - 1. same_claim (?chain ! k) (?links ! k)
      \<and> ip_record_hash (?chain ! k) = ip_record_hash (?links ! k)"
    using prefix [of "length ?chain - 1" j] ne j last by auto
  have i: "i < length as" "i < length ?chain" using assms(8) by (simp_all add: rows chain)
  have "?p \<in> set ?links" using b(3) by (simp add: selected_valid_def)
  then obtain k where k: "k < length ?links" "?links ! k = ?p" by (auto simp: in_set_conv_nth)
  have "ip_sequence (?links ! k) = int k + 1" using b(1) k(1) by (simp add: links_valid_def)
  then have "k = i" using assms(9) k(2) by simp
  then have same: "same_claim (?chain ! i) ?p" "ip_record_hash (?chain ! i) = ip_record_hash ?p"
    using pinned [rule_format, of i] i(2) unfolding k(2) [unfolded \<open>k = i\<close>] by simp_all
  have row: "verification_rows d pid ! i = (?chain ! i, as ! i)" using i by (simp add: rows chain)
  have "ip_payload_hash (?chain ! i) = payload_hash_of X (as ! i)"
    unfolding chain chain_of_nth [OF i(1)] by (simp add: build_decision_integrity_proof_def)
  then have texts: "x_sha256 X (payload_text X (vr_decision r)) = x_sha256 X (payload_text X (as ! i))"
    using same(1) b(3) unfolding same_claim_def selected_valid_def payload_hash_of_def digest_json_def payload_text_def
    by (elim conjE) metis
  have "payload_text X (vr_decision r) = payload_text X (as ! i)"
    by (rule not_collides [OF assms(10) _ _ texts]) (simp_all add: row)
  then have "same_payload X (vr_decision r) (as ! i)"
    unfolding same_payload_def payload_text_def by (rule canonical_json_inj [OF assms(1)])
  with same(2) show ?thesis by (simp add: row)
qed

text \<open>A bundle of a ledger with one decision, verified against its head.\<close>

definition sealed :: "externals \<Rightarrow> manifest \<Rightarrow> verifiable list \<Rightarrow> integrity_proof list \<Rightarrow> evidence_bundle" where
  "sealed X m records chain = \<lparr>bn_manifest = m\<lparr>mf_bundle_sha256 := digest_json X (logical_bundle_payload X m records chain)\<rparr>,
     bn_records = records, bn_chain = chain\<rparr>"

lemma manifest_digest_irrelevant [simp]:
  "logical_bundle_payload X (m\<lparr>mf_bundle_sha256 := h\<rparr>) records chain = logical_bundle_payload X m records chain"
  by (simp add: logical_bundle_payload_def manifest_without_bundle_digest_def manifest_members_def)

lemma sealed_valid:
  assumes "mf_record_count m = int (length records)" and "mf_chain_count m = int (length chain)"
    and "mf_records_sha256 m = records_digest X records" and "mf_chain_sha256 m = chain_digest X chain"
    and "links_valid X (mf_project m) chain" and "mf_chain_head m = chain_head ip_record_hash chain None"
    and "check_checkpoint chain (mf_expected_head m)" and "check_checkpoint chain expected"
    and "list_all (selected_valid X (mf_project m) chain) records" and "distinct (map (\<lambda>r. au_id (vr_decision r)) records)"
  shows "bundle_valid X (sealed X m records chain) expected"
  using assms by (simp add: bundle_valid_def sealed_def check_manifest_None)

definition no_filters :: decision_filters where
  "no_filters = \<lparr>fl_decision = None, fl_agent = None, fl_action = None, fl_policy = None, fl_has_policy = None,
     fl_approval = None, fl_after = None, fl_before = None, fl_query = None, fl_ascending = True\<rparr>"

definition sample_bundle :: "externals \<Rightarrow> authorization \<Rightarrow> evidence_bundle" where
  "sample_bundle X a = (let p = build_decision_integrity_proof X a 1 None; r = \<lparr>vr_decision = a, vr_integrity = p\<rparr>
     in sealed X \<lparr>mf_export = 90, mf_generated_at = 30, mf_snapshot_at = 30, mf_project = au_project a,
          mf_criteria = no_filters, mf_record_count = 1, mf_chain_count = 1, mf_chain_head = Some (ip_record_hash p),
          mf_expected_head = None, mf_records_sha256 = records_digest X [r], mf_chain_sha256 = chain_digest X [p],
          mf_bundle_sha256 = []\<rparr> [r] [p])"

lemma sample_bundle_valid:
  "bundle_valid X (sample_bundle X a) (Some (ip_record_hash (build_decision_integrity_proof X a 1 None)))"
  unfolding sample_bundle_def Let_def
  by (rule sealed_valid)
    (simp_all add: links_valid_def previous_at_def chain_head_def check_checkpoint_def selected_valid_def envelope_of_build,
     simp_all add: build_decision_integrity_proof_def)

theorem checkpoint_ties_bundle_witness:
  "same_payload plain_externals (sample_recorded 5) (sample_recorded 5)
   \<and> bv_verified (verify_evidence_bundle plain_externals (sample_bundle plain_externals (sample_recorded 5))
       (Some (ip_record_hash (build_decision_integrity_proof plain_externals (sample_recorded 5) 1 None))))"
proof -
  let ?X = plain_externals and ?a = "sample_recorded 5"
  let ?p = "build_decision_integrity_proof ?X ?a 1 None" and ?d = "ledger_db ?X [?a]" and ?b = "sample_bundle ?X ?a"
  let ?r = "\<lparr>vr_decision = ?a, vr_integrity = ?p\<rparr>"
  have float: "float_text_ok (x_float ?X)"
    using sample_float_ok by (simp add: plain_externals_def sample_externals_def)
  have pid: "\<forall>a \<in> set [?a]. au_project a = 2" "au_project ?a = 2" by (simp_all add: sample_recorded_def)
  have ok: "db_ok ?d" by (rule ledger_db_ok) (simp_all add: sample_recorded_def)
  have valid: "ledger_valid ?X ?d 2" by (rule ledger_db_valid) (simp_all add: sample_recorded_def)
  have chain: "project_chain ?d 2 = [?p]" using ledger_db_chain(1) [OF pid(1), of ?X] by (simp add: Let_def)
  have v: "vf_verified (ledger_verify ?X 2 None ?d)" "vf_head (ledger_verify ?X 2 None ?d) = Some (ip_record_hash ?p)"
    using valid_ledger_verified [OF ok valid, of None] chain by (simp_all add: chain_head_def)
  obtain as where rows: "verification_rows ?d 2 = zip (proofs_of ?X as 1 None) as" "project_chain ?d 2 = proofs_of ?X as 1 None"
    and as: "set as = set (project_decisions ?d 2)" "distinct as"
    using ledger_rows [OF ok valid] by metis
  have "project_decisions ?d 2 = [?a]" by (simp add: project_decisions_def ledger_db_def pid(2))
  with as have "as = [?a]" by (intro distinct_singleton) simp_all
  then have row: "verification_rows ?d 2 = [(?p, ?a)]" by (simp add: rows(1) Let_def)
  have b: "bv_verified (verify_evidence_bundle ?X ?b (Some (ip_record_hash ?p)))"
    using sample_bundle_valid by (simp add: verified_bundle_valid)
  have "same_payload ?X (vr_decision ?r) (snd (verification_rows ?d 2 ! 0))
      \<and> ip_record_hash (vr_integrity ?r) = ip_record_hash (fst (verification_rows ?d 2 ! 0))"
  proof (rule checkpoint_ties_bundle [OF float ok v b])
    show "mf_project (bn_manifest ?b) = 2" "?r \<in> set (bn_records ?b)"
      by (simp_all add: sample_bundle_def Let_def sealed_def pid(2))
    show "0 < length (verification_rows ?d 2)" by (simp add: row)
    show "ip_sequence (vr_integrity ?r) = int 0 + 1" by (simp add: build_decision_integrity_proof_def)
  qed (simp add: collides_def plain_externals_def)
  with b show ?thesis by (simp add: row)
qed

text \<open>
  A bundle verifies exactly when its manifest states the counts and digests of what it carries,
  its chain is an unbroken hash chain of the project from the first record on, the head is the
  manifest's, every trusted checkpoint is in the chain, and every selected decision, each at most
  once, belongs to the project and has exactly the digest its record in the chain states. A failure
  is reported exactly otherwise.
\<close>

theorem bundle_verifies_exactly_valid:
  "let m = bn_manifest b; records = bn_records b; chain = bn_chain b; v = verify_evidence_bundle X b expected in
   (bv_verified v \<longleftrightarrow>
      mf_record_count m = int (length records) \<and> mf_chain_count m = int (length chain)
      \<and> mf_records_sha256 m = records_digest X records \<and> mf_chain_sha256 m = chain_digest X chain
      \<and> mf_bundle_sha256 m = digest_json X (logical_bundle_payload X m records chain)
      \<and> list_all2 (\<lambda>p i. ip_project p = mf_project m \<and> ip_sequence p = int i + 1
           \<and> ip_previous p = (if i = 0 then None else Some (ip_record_hash (chain ! (i - 1))))
           \<and> ip_record_hash p = proof_record_hash X p) chain [0..<length chain]
      \<and> distinct (map ip_decision chain)
      \<and> mf_chain_head m = (if chain = [] then None else Some (ip_record_hash (last chain)))
      \<and> set_option (mf_expected_head m) \<union> set_option expected \<subseteq> ip_record_hash ` set chain
      \<and> list_all (\<lambda>r. au_project (vr_decision r) = mf_project m \<and> vr_integrity r \<in> set chain
           \<and> ip_decision (vr_integrity r) = au_id (vr_decision r)
           \<and> ip_payload_hash (vr_integrity r) = payload_hash_of X (vr_decision r)) records
      \<and> distinct (map (\<lambda>r. au_id (vr_decision r)) records))
   \<and> (bv_failure v = None \<longleftrightarrow> bv_verified v)"
proof -
  let ?m = "bn_manifest b" and ?chain = "bn_chain b" and ?v = "verify_evidence_bundle X b expected"
  have links: "links_valid X (mf_project ?m) ?chain \<longleftrightarrow> distinct (map ip_decision ?chain)
      \<and> list_all2 (\<lambda>p i. ip_project p = mf_project ?m \<and> ip_sequence p = int i + 1
           \<and> ip_previous p = (if i = 0 then None else Some (ip_record_hash (?chain ! (i - 1))))
           \<and> ip_record_hash p = proof_record_hash X p) ?chain [0..<length ?chain]"
    by (simp add: links_valid_def list_all2_conv_all_nth previous_at_def)
  have points: "check_checkpoint ?chain c \<longleftrightarrow> set_option c \<subseteq> ip_record_hash ` set ?chain" for c
    by (simp add: check_checkpoint_def split: option.split)
  have "bv_failure ?v = None \<longleftrightarrow> bv_verified ?v"
    by (auto simp: verify_evidence_bundle_def Let_def split: option.split prod.split)
  then show ?thesis
    unfolding Let_def verified_bundle_valid bundle_valid_def check_manifest_None links points selected_valid_def chain_head_def
    by auto
qed

end
