(* ===== verification/Evidence_Service.thy ===== *)
theory Evidence_Service
  imports Evidence
begin

text \<open>
  The export of evidence: \<open>app/storage/evidence.py\<close>, its operations in
  \<open>app/evidence_store.py\<close> and \<open>app/services/evidence.py\<close>, with \<open>app/services/integrity.py\<close>.
  Every bundle the service builds from a ledger that verifies passes its own verification, even when
  decisions were recorded between its two steps.
\<close>

section \<open>The repository\<close>

text \<open>The join of decisions with their ledger records up to a sequence number.\<close>

definition evidence_rows :: "uuid \<Rightarrow> decision_filters \<Rightarrow> int \<Rightarrow> db \<Rightarrow> verifiable list" where
  "evidence_rows pid f max_sequence d = concat (map (\<lambda>a. map (\<lambda>p. \<lparr>vr_decision = a, vr_integrity = p\<rparr>)
     (filter (\<lambda>p. ip_decision p = au_id a \<and> ip_project p = au_project a \<and> ip_sequence p \<le> max_sequence) (t_integrity d)))
     (searched pid f d))"

definition record_query :: "uuid \<Rightarrow> decision_filters \<Rightarrow> int \<Rightarrow> db \<Rightarrow> verifiable list" where
  "record_query pid f max_sequence d =
     (let key = (\<lambda>r. (au_evaluated_at (vr_decision r), au_id (vr_decision r)));
          rows = evidence_rows pid f max_sequence d
      in if fl_ascending f then sort_key key rows else sort_desc key rows)"

text \<open>The size of a serialised value with its line end.\<close>

definition line_bytes :: "externals \<Rightarrow> json \<Rightarrow> int" where
  "line_bytes X j = int (length (canonical_json (x_float X) j)) + 1"

text \<open>The loops that collect rows until they exceed the byte limit.\<close>

fun within_bytes :: "string \<Rightarrow> int \<Rightarrow> ('a \<Rightarrow> int) \<Rightarrow> 'a list \<Rightarrow> int \<Rightarrow> exn + 'a list" where
  "within_bytes scope maximum_bytes size_of [] serialized_bytes = Inr []"
| "within_bytes scope maximum_bytes size_of (r # rs) serialized_bytes =
     (if maximum_bytes < serialized_bytes + size_of r then Inl (EvidenceExportSizeLimit scope maximum_bytes)
      else bindE (within_bytes scope maximum_bytes size_of rs (serialized_bytes + size_of r)) (\<lambda>rest. Inr (r # rest)))"

definition create_snapshot :: "uuid \<Rightarrow> decision_filters \<Rightarrow> instant \<Rightarrow> db \<Rightarrow> snapshot" where
  "create_snapshot pid f captured_at d =
     (let chain = project_chain d pid;
          max_sequence = (if chain = [] then 0 else ip_sequence (last chain))
      in \<lparr>sn_project = pid, sn_captured_at = captured_at, sn_max_sequence = max_sequence,
          sn_chain_count = max_sequence, sn_chain_head = chain_head ip_record_hash chain None,
          sn_record_count = int (length (evidence_rows pid f max_sequence d))\<rparr>)"

definition list_records :: "externals \<Rightarrow> uuid \<Rightarrow> decision_filters \<Rightarrow> int \<Rightarrow> int \<Rightarrow> db \<Rightarrow> exn + verifiable list" where
  "list_records X pid f max_sequence maximum_bytes d =
     within_bytes ''records'' maximum_bytes (\<lambda>r. line_bytes X (record_json X r)) (record_query pid f max_sequence d) 0"

definition capture_records ::
  "externals \<Rightarrow> uuid \<Rightarrow> decision_filters \<Rightarrow> int \<Rightarrow> int \<Rightarrow> instant \<Rightarrow> db \<Rightarrow> exn + snapshot \<times> verifiable list" where
  "capture_records X pid f maximum_records maximum_bytes captured_at d =
     (let snapshot = create_snapshot pid f captured_at d in
      if maximum_records < sn_record_count snapshot then Inr (snapshot, [])
      else bindE (list_records X pid f (sn_max_sequence snapshot) maximum_bytes d) (\<lambda>records. Inr (snapshot, records)))"

definition list_chain :: "externals \<Rightarrow> uuid \<Rightarrow> int \<Rightarrow> int \<Rightarrow> db \<Rightarrow> exn + integrity_proof list" where
  "list_chain X pid max_sequence maximum_bytes d =
     within_bytes ''chain'' maximum_bytes (\<lambda>p. line_bytes X (proof_json X p))
       (filter (\<lambda>p. ip_sequence p \<le> max_sequence) (project_chain d pid)) 0"

text \<open>The store expires the due approvals first: a filter may ask for their status.\<close>

definition capture_evidence_export_records ::
  "externals \<Rightarrow> uuid \<Rightarrow> decision_filters \<Rightarrow> int \<Rightarrow> int \<Rightarrow> instant \<Rightarrow> (snapshot \<times> verifiable list) operation" where
  "capture_evidence_export_records X pid f maximum_records maximum_bytes now =
     andThen (expire_due_approvals X pid now) (\<lambda>_.
       reading (capture_records X pid f maximum_records maximum_bytes now))"

section \<open>Services\<close>

definition get_decision_integrity_or_404 :: "uuid \<Rightarrow> uuid \<Rightarrow> integrity_proof operation" where
  "get_decision_integrity_or_404 did pid = reading (\<lambda>d.
     case ledger_get did pid d of
       None \<Rightarrow> Inl (http_error 404 ''decision_integrity_not_found'' [])
     | Some p \<Rightarrow> Inr p)"

definition get_verifiable_decision_or_404 :: "uuid \<Rightarrow> uuid \<Rightarrow> verifiable operation" where
  "get_verifiable_decision_or_404 did pid =
     andThen (reading (\<lambda>d. case decisions_get did pid d of
         None \<Rightarrow> Inl (http_error 404 ''decision_not_found'' [])
       | Some a \<Rightarrow> Inr a)) (\<lambda>decision.
     andThen (get_decision_integrity_or_404 did pid) (\<lambda>integrity.
       returning \<lparr>vr_decision = decision, vr_integrity = integrity\<rparr>))"

definition MAX_EVIDENCE_EXPORT_RECORDS :: int where "MAX_EVIDENCE_EXPORT_RECORDS = 2000"
definition MAX_EVIDENCE_EXPORT_BYTES :: int where "MAX_EVIDENCE_EXPORT_BYTES = 32 * 1024 * 1024"
definition MAX_EVIDENCE_BUNDLE_CHAIN_RECORDS :: int where "MAX_EVIDENCE_BUNDLE_CHAIN_RECORDS = 10000"
definition MAX_EVIDENCE_BUNDLE_CHAIN_BYTES :: int where "MAX_EVIDENCE_BUNDLE_CHAIN_BYTES = 32 * 1024 * 1024"
definition MAX_EVIDENCE_BUNDLE_BYTES :: int where "MAX_EVIDENCE_BUNDLE_BYTES = 64 * 1024 * 1024"

record prepared_export =
  pe_filters :: decision_filters
  pe_snapshot :: snapshot
  pe_records :: "verifiable list"

text \<open>The \<open>verification\<close> entry of the detail is left out.\<close>

definition integrity_conflict :: exn where
  "integrity_conflict = http_error 409 ''evidence_integrity_verification_failed'' []"

definition size_limit_response :: "string \<Rightarrow> int \<Rightarrow> exn" where
  "size_limit_response scope maximum_bytes =
     http_error 413 (if scope = ''bundle'' then ''evidence_bundle_too_large''
       else if scope = ''chain'' then ''evidence_chain_too_large''
       else ''evidence_export_too_large'') [(''maximum_bytes'', JInt maximum_bytes)]"

fun export_http_error :: "exn \<Rightarrow> exn" where
  "export_http_error (EvidenceExportSizeLimit scope maximum_bytes) = size_limit_response scope maximum_bytes"
| "export_http_error e = e"

definition require_verified :: "externals \<Rightarrow> uuid \<Rightarrow> string option \<Rightarrow> unit operation" where
  "require_verified X pid expected_head = reading (\<lambda>d.
     if vf_verified (ledger_verify X pid expected_head d) then Inr () else Inl integrity_conflict)"

definition prepare_evidence_export ::
  "externals \<Rightarrow> uuid \<Rightarrow> decision_filters \<Rightarrow> string option \<Rightarrow> bool \<Rightarrow> instant \<Rightarrow> prepared_export operation" where
  "prepare_evidence_export X pid f expected_head include_chain now =
     andThen (catching (capture_evidence_export_records X pid f MAX_EVIDENCE_EXPORT_RECORDS MAX_EVIDENCE_EXPORT_BYTES now)
       (\<lambda>e. raising (export_http_error e))) (\<lambda>(snapshot, records).
     if MAX_EVIDENCE_EXPORT_RECORDS < sn_record_count snapshot
     then raising (http_error 413 ''evidence_export_too_large''
       [(''record_count'', JInt (sn_record_count snapshot)), (''maximum'', JInt MAX_EVIDENCE_EXPORT_RECORDS)])
     else if include_chain \<and> MAX_EVIDENCE_BUNDLE_CHAIN_RECORDS < sn_chain_count snapshot
     then raising (http_error 413 ''evidence_chain_too_large''
       [(''chain_record_count'', JInt (sn_chain_count snapshot)), (''maximum'', JInt MAX_EVIDENCE_BUNDLE_CHAIN_RECORDS)])
     else
       andThen (require_verified X pid (sn_chain_head snapshot)) (\<lambda>_.
       andThen (if expected_head \<noteq> None \<and> expected_head \<noteq> sn_chain_head snapshot
           then require_verified X pid expected_head else returning ()) (\<lambda>_.
         returning \<lparr>pe_filters = f, pe_snapshot = snapshot, pe_records = records\<rparr>)))"

definition create_evidence_bundle ::
  "externals \<Rightarrow> prepared_export \<Rightarrow> string option \<Rightarrow> instant \<Rightarrow> evidence_bundle operation" where
  "create_evidence_bundle X prepared expected_head generated_at =
     andThen (catching (reading (list_chain X (sn_project (pe_snapshot prepared)) (sn_max_sequence (pe_snapshot prepared))
         MAX_EVIDENCE_BUNDLE_CHAIN_BYTES)) (\<lambda>e. raising (export_http_error e))) (\<lambda>chain.
     andThen new_uuid (\<lambda>export_id.
       case build_evidence_bundle X (pe_snapshot prepared) (pe_filters prepared) (pe_records prepared) chain
           expected_head generated_at export_id of
         Inl e \<Rightarrow> raising e
       | Inr bundle_made \<Rightarrow>
           if bv_verified (verify_evidence_bundle X bundle_made expected_head) then returning bundle_made
           else raising (RuntimeError ''DecAustrum generated an evidence bundle that failed verification.'')))"

definition evidence_response_headers :: "snapshot \<Rightarrow> (string \<times> string) list" where
  "evidence_response_headers s =
     [(''X-DecAustrum-Project-ID'', uuid_text (sn_project s)),
      (''X-DecAustrum-Snapshot-At'', isoformat (sn_captured_at s)),
      (''X-DecAustrum-Record-Count'', show_int (sn_record_count s)),
      (''X-DecAustrum-Max-Sequence'', show_int (sn_max_sequence s)),
      (''X-DecAustrum-Chain-Head'', (case sn_chain_head s of None \<Rightarrow> [] | Some h \<Rightarrow> h))]"

section \<open>What an export collects\<close>

lemma within_bytes_Inr: "within_bytes scope m size_of rs n = Inr ys \<Longrightarrow> ys = rs"
  by (induction rs arbitrary: n ys) (auto simp: bindE_Inr_iff split: if_splits)

lemma within_bytes_total:
  "within_bytes scope m size_of rs n = Inr rs \<or> within_bytes scope m size_of rs n = Inl (EvidenceExportSizeLimit scope m)"
proof (induction rs arbitrary: n)
  case (Cons r rs)
  then show ?case by (cases "within_bytes scope m size_of rs (n + size_of r)") (auto, (metis sum.distinct(1) sum.inject)+)
qed simp

lemma evidence_row:
  "r \<in> set (evidence_rows pid f k d) \<longleftrightarrow> vr_decision r \<in> set (searched pid f d) \<and> vr_integrity r \<in> set (t_integrity d)
    \<and> ip_decision (vr_integrity r) = au_id (vr_decision r) \<and> ip_project (vr_integrity r) = au_project (vr_decision r)
    \<and> ip_sequence (vr_integrity r) \<le> k"
  by (cases r) (auto simp: evidence_rows_def)

lemma searched_project: "a \<in> set (searched pid f d) \<Longrightarrow> a \<in> set (t_decisions d) \<and> au_project a = pid"
  by (auto simp: searched_def search_where_def)

lemma distinct_evidence_rows:
  assumes "db_ok d"
  shows "distinct (map (\<lambda>r. au_id (vr_decision r)) (evidence_rows pid f k d))"
proof -
  have one: "length (filter (\<lambda>p. ip_decision p = u \<and> Q p) (t_integrity d)) \<le> 1" for u Q
  proof -
    let ?ids = "map ip_decision (filter (\<lambda>p. ip_decision p = u \<and> Q p) (t_integrity d))"
    have "distinct ?ids"
      by (rule distinct_map_filter) (use assms in \<open>simp add: db_ok_def unique_by_def\<close>)
    moreover have "card (set ?ids) \<le> card {u}" by (rule card_mono) auto
    ultimately show ?thesis using distinct_card [of ?ids] by simp
  qed
  have "distinct (map au_id (searched pid f d))"
    unfolding searched_def by (rule distinct_map_filter) (use assms in \<open>simp add: db_ok_def unique_by_def\<close>)
  then have "distinct (map (\<lambda>r. au_id (vr_decision r)) (concat (map (\<lambda>a. map (\<lambda>p. \<lparr>vr_decision = a, vr_integrity = p\<rparr>)
     (filter (\<lambda>p. ip_decision p = au_id a \<and> ip_project p = au_project a \<and> ip_sequence p \<le> k) (t_integrity d))) as)))"
    if "set as \<subseteq> set (searched pid f d)" "distinct (map au_id as)" for as
    using that
  proof (induction as)
    case (Cons a as)
    let ?ps = "filter (\<lambda>p. ip_decision p = au_id a \<and> ip_project p = au_project a \<and> ip_sequence p \<le> k) (t_integrity d)"
    have "length ?ps \<le> 1" by (rule one)
    then have "distinct (map (\<lambda>p. au_id a) ?ps)" by (cases ?ps) auto
    with Cons show ?case by (auto simp: comp_def)
  qed simp
  with \<open>distinct (map au_id (searched pid f d))\<close> show ?thesis by (simp add: evidence_rows_def)
qed

lemma record_query_rows: "set (record_query pid f k d) = set (evidence_rows pid f k d)"
  by (simp add: record_query_def Let_def)

lemma distinct_record_query:
  assumes "db_ok d"
  shows "distinct (map (\<lambda>r. au_id (vr_decision r)) (record_query pid f k d))"
    and "length (record_query pid f k d) = length (evidence_rows pid f k d)"
proof -
  have "distinct (evidence_rows pid f k d)" "inj_on (\<lambda>r. au_id (vr_decision r)) (set (evidence_rows pid f k d))"
    using distinct_evidence_rows [OF assms, of pid f k] by (simp_all add: distinct_map)
  then show "distinct (map (\<lambda>r. au_id (vr_decision r)) (record_query pid f k d))"
    by (auto simp: distinct_map record_query_def Let_def sort_desc_def)
  show "length (record_query pid f k d) = length (evidence_rows pid f k d)"
    by (simp add: record_query_def Let_def)
qed

text \<open>In a valid ledger every selected decision has exactly the digest its record states.\<close>

lemma evidence_rows_selected:
  assumes ok: "db_ok d" and valid: "ledger_valid X d pid" and r: "r \<in> set (evidence_rows pid f k d)"
  shows "selected_valid X pid (project_chain d pid) r"
proof -
  let ?a = "vr_decision r" and ?p = "vr_integrity r"
  from r have row: "?a \<in> set (t_decisions d)" "au_project ?a = pid" "?p \<in> set (t_integrity d)"
    "ip_decision ?p = au_id ?a" "ip_project ?p = au_project ?a"
    using searched_project by (auto simp: evidence_row)
  then have p: "?p \<in> set (project_chain d pid)" by (simp add: project_chain_set)
  from valid obtain as where chain: "project_chain d pid = proofs_of X as 1 None"
    and as: "set as = set (project_decisions d pid)" by (auto simp: ledger_valid_def)
  from p obtain i where i: "i < length as" "?p = proofs_of X as 1 None ! i" by (auto simp: chain in_set_conv_nth)
  have "as ! i \<in> set (t_decisions d)" using i(1) as by (metis filter_is_subset nth_mem project_decisions_def subsetD)
  moreover have "au_id (as ! i) = au_id ?a" using proofs_of_nth(3) [OF i(1), of X 1 None] i(2) row(4) by simp
  moreover have "unique_by au_id (t_decisions d)" using ok by (simp add: db_ok_def)
  ultimately have "as ! i = ?a" using unique_by_eq [of au_id "t_decisions d"] row(1) by blast
  then have "ip_payload_hash ?p = payload_hash_of X ?a"
    unfolding i(2) chain_of_nth [OF i(1)] by (simp add: build_decision_integrity_proof_def)
  with p row show ?thesis by (simp add: selected_valid_def)
qed

lemma snapshot_fields [simp]:
  "sn_project (create_snapshot pid f t d) = pid" "sn_captured_at (create_snapshot pid f t d) = t"
  "sn_chain_head (create_snapshot pid f t d) = chain_head ip_record_hash (project_chain d pid) None"
  "sn_chain_count (create_snapshot pid f t d) = sn_max_sequence (create_snapshot pid f t d)"
  "sn_record_count (create_snapshot pid f t d) = int (length (evidence_rows pid f (sn_max_sequence (create_snapshot pid f t d)) d))"
  by (simp_all add: create_snapshot_def Let_def)

lemma snapshot_sequence:
  assumes "ledger_valid X d pid"
  shows "sn_max_sequence (create_snapshot pid f t d) = int (length (project_chain d pid))"
proof -
  from assms obtain as where chain: "project_chain d pid = proofs_of X as 1 None" by (auto simp: ledger_valid_def)
  show ?thesis using last_sequence [of as X] by (simp add: create_snapshot_def Let_def chain)
qed

text \<open>The chain up to the snapshot, whatever was recorded since.\<close>

lemma chain_prefix:
  assumes "ledger_valid X d pid"
  shows "filter (\<lambda>p. ip_sequence p \<le> int n) (project_chain d pid) = take n (project_chain d pid)"
proof -
  from assms obtain as where chain: "project_chain d pid = proofs_of X as 1 None" by (auto simp: ledger_valid_def)
  have "filter (\<lambda>p. ip_sequence p \<le> int n) ps = take n ps"
    if "\<forall>i < length ps. ip_sequence (ps ! i) = int i + k" "k = 1" for ps k
  proof -
    have "filter (\<lambda>p. ip_sequence p \<le> int m + k - 1) ps = take m ps" if "\<forall>i < length ps. ip_sequence (ps ! i) = int i + k" for m k
      using that
    proof (induction ps arbitrary: m k)
      case (Cons p ps)
      have p: "ip_sequence p = k" using Cons.prems [rule_format, of 0] by simp
      have rest: "\<forall>i < length ps. ip_sequence (ps ! i) = int i + (k + 1)"
        using Cons.prems by (auto dest: spec [where x = "Suc _"])
      have none: "filter (\<lambda>q. ip_sequence q \<le> k - 1) ps = []"
        using rest by (auto simp: filter_empty_conv in_set_conv_nth)
      show ?case
      proof (cases m)
        case 0
        then show ?thesis using p none by simp
      next
        case (Suc j)
        then show ?thesis using p Cons.IH [OF rest, of j] by (simp add: algebra_simps)
      qed
    qed simp
    from this [of k n] that show ?thesis by simp
  qed
  moreover have "\<forall>i < length (project_chain d pid). ip_sequence (project_chain d pid ! i) = int i + 1"
    using proofs_of_nth(1) [of _ as X 1 None] by (simp add: chain)
  ultimately show ?thesis by blast
qed

text \<open>What a preparation that goes through has established.\<close>

lemma prepared_facts:
  assumes "prepare_evidence_export X pid f expected include_chain now d = (Inr p, d1)" and "db_ok d1"
  shows "ledger_valid X d1 pid" and "pe_filters p = f" and "pe_snapshot p = create_snapshot pid f now d1"
    and "pe_records p = record_query pid f (sn_max_sequence (pe_snapshot p)) d1"
    and "check_checkpoint (project_chain d1 pid) expected"
proof -
  let ?s = "create_snapshot pid f now d1"
  from assms(1) obtain s rs where cap: "capture_evidence_export_records X pid f MAX_EVIDENCE_EXPORT_RECORDS MAX_EVIDENCE_EXPORT_BYTES now d
      = (Inr (s, rs), d1)" and size: "sn_record_count s \<le> MAX_EVIDENCE_EXPORT_RECORDS"
    and v: "vf_verified (ledger_verify X pid (sn_chain_head s) d1)"
    and v2: "expected = None \<or> expected = sn_chain_head s \<or> vf_verified (ledger_verify X pid expected d1)"
    and p: "p = \<lparr>pe_filters = f, pe_snapshot = s, pe_records = rs\<rparr>"
    by (auto simp: prepare_evidence_export_def andThen_def catching_def raising_def returning_def require_verified_def
        reading_def split: prod.splits sum.splits if_splits)
  from cap have "capture_records X pid f MAX_EVIDENCE_EXPORT_RECORDS MAX_EVIDENCE_EXPORT_BYTES now d1 = Inr (s, rs)"
    by (auto simp: capture_evidence_export_records_def andThen_def reading_def split: prod.splits sum.splits)
  then have s: "s = ?s" and rs: "rs = record_query pid f (sn_max_sequence s) d1"
    using size within_bytes_Inr by (auto simp: capture_records_def Let_def bindE_Inr_iff list_records_def split: if_splits)
  show valid: "ledger_valid X d1 pid" using verified_ledger_valid [OF assms(2) v] by simp
  show "pe_filters p = f" "pe_snapshot p = ?s" "pe_records p = record_query pid f (sn_max_sequence (pe_snapshot p)) d1"
    by (simp_all add: p s [symmetric] rs)
  have "marked d1 pid expected"
    using v2
  proof (elim disjE)
    assume "expected = sn_chain_head s"
    then show ?thesis using verified_ledger_valid [OF assms(2) v] by simp
  next
    assume "vf_verified (ledger_verify X pid expected d1)"
    then show ?thesis using verified_ledger_valid [OF assms(2)] by simp
  qed simp
  then show "check_checkpoint (project_chain d1 pid) expected" by (simp add: check_checkpoint_def)
qed

text \<open>
  Every bundle the service makes verifies. After an export was prepared, building its bundle in
  any later state, in which the ledger is valid and extends the prepared one, gives 413 when the
  chain is too large, and else a bundle with the prepared records and the prepared chain that passes
  the verification with the same trusted checkpoint. It never fails for an internal reason.
\<close>

theorem service_bundle_verifies:
  assumes "prepare_evidence_export X pid f expected include_chain now d = (Inr p, d1)" and "db_ok d1"
    and "ledger_valid X d2 pid" and "take (length (project_chain d1 pid)) (project_chain d2 pid) = project_chain d1 pid"
    and "\<And>s. is_sha256_text (x_sha256 X s)"
  shows "create_evidence_bundle X p expected t d2 = (Inl (size_limit_response ''chain'' MAX_EVIDENCE_BUNDLE_CHAIN_BYTES), d2)
    \<or> (\<exists>b d3. create_evidence_bundle X p expected t d2 = (Inr b, d3) \<and> bv_verified (verify_evidence_bundle X b expected)
         \<and> bn_records b = pe_records p \<and> bn_chain b = project_chain d1 pid)"
proof -
  note p = prepared_facts [OF assms(1,2)]
  let ?s = "pe_snapshot p" and ?chain = "project_chain d1 pid" and ?u = "t_uuids d2 0"
  have seq: "sn_max_sequence ?s = int (length ?chain)" using snapshot_sequence [OF p(1)] p(3) by simp
  have chain: "filter (\<lambda>q. ip_sequence q \<le> sn_max_sequence ?s) (project_chain d2 pid) = ?chain"
    unfolding seq chain_prefix [OF assms(3)] by (rule assms(4))
  have pid: "sn_project ?s = pid" by (simp add: p(3))
  consider "list_chain X pid (sn_max_sequence ?s) MAX_EVIDENCE_BUNDLE_CHAIN_BYTES d2 = Inr ?chain"
    | "list_chain X pid (sn_max_sequence ?s) MAX_EVIDENCE_BUNDLE_CHAIN_BYTES d2
        = Inl (EvidenceExportSizeLimit ''chain'' MAX_EVIDENCE_BUNDLE_CHAIN_BYTES)"
    using within_bytes_total unfolding list_chain_def chain by blast
  then show ?thesis
  proof cases
    case 1
    let ?m = "\<lparr>mf_export = ?u, mf_generated_at = t, mf_snapshot_at = now, mf_project = pid, mf_criteria = f,
      mf_record_count = sn_record_count ?s, mf_chain_count = sn_chain_count ?s, mf_chain_head = sn_chain_head ?s,
      mf_expected_head = expected, mf_records_sha256 = records_digest X (pe_records p),
      mf_chain_sha256 = chain_digest X ?chain, mf_bundle_sha256 = replicate 64 (CHR ''0'')\<rparr>"
    let ?b = "sealed X ?m (pe_records p) ?chain"
    from p(1) obtain as where as: "?chain = proofs_of X as 1 None" by (auto simp: ledger_valid_def)
    have counts: "sn_record_count ?s = int (length (pe_records p))" "sn_chain_count ?s = int (length ?chain)"
      using distinct_record_query(2) [OF assms(2)] seq p(3,4) by simp_all
    have head: "sn_chain_head ?s = chain_head ip_record_hash ?chain None" by (simp add: p(3))
    have hashes: "is_sha256_text (ip_record_hash q)" if "q \<in> set ?chain" for q
    proof -
      obtain i where i: "i < length as" "q = proofs_of X as 1 None ! i" using \<open>q \<in> set ?chain\<close> as by (auto simp: in_set_conv_nth)
      show ?thesis
        unfolding i(2) chain_of_nth [OF i(1)]
        by (simp add: build_decision_integrity_proof_def calculate_integrity_record_hash_def digest_json_def assms(5))
    qed
    have zero: "is_sha256_text (replicate 64 (CHR ''0''))" by (simp add: is_sha256_text_def list_all_iff)
    have heads: "case sn_chain_head ?s of None \<Rightarrow> True | Some h \<Rightarrow> is_sha256_text h"
      using hashes by (auto simp: head chain_head_def)
    have marks: "case expected of None \<Rightarrow> True | Some h \<Rightarrow> is_sha256_text h"
      using hashes p(5) by (auto simp: check_checkpoint_def split: option.splits)
    have valid: "manifest_valid ?m" "manifest_valid (?m\<lparr>mf_bundle_sha256 := digest_json X j\<rparr>)" for j
      using counts zero heads marks assms(5)
      by (simp_all add: manifest_valid_def records_digest_def chain_digest_def digest_json_def)
    have "list_all (selected_valid X pid ?chain) (pe_records p)"
      using evidence_rows_selected [OF assms(2) p(1)] by (auto simp: list_all_iff p(4) record_query_rows)
    moreover have "links_valid X pid ?chain" by (rule ledger_links [OF assms(2) as])
    moreover have "distinct (map (\<lambda>r. au_id (vr_decision r)) (pe_records p))"
      using distinct_record_query(1) [OF assms(2)] p(4) by simp
    ultimately have "bundle_valid X ?b expected"
      by (intro sealed_valid) (simp_all add: counts head p(5))
    then have verified: "bv_verified (verify_evidence_bundle X ?b expected)" by (simp add: verified_bundle_valid)
    have "build_evidence_bundle X ?s (pe_filters p) (pe_records p) ?chain expected t ?u = Inr ?b"
      unfolding build_evidence_bundle_def Let_def using counts head valid
      by (simp add: p(2) pid sealed_def p(3) [symmetric]) (simp add: p(3))
    then have "create_evidence_bundle X p expected t d2 = (Inr ?b, snd (uuid4 d2))"
      by (simp add: create_evidence_bundle_def andThen_def catching_def reading_def pid 1 new_uuid_def uuid4_def verified returning_def)
    then show ?thesis using verified by (auto simp: sealed_def)
  next
    case 2
    then show ?thesis
      by (simp add: create_evidence_bundle_def andThen_def catching_def reading_def pid raising_def)
  qed
qed

theorem service_bundle_verifies_witness:
  "\<exists>p d1. prepare_evidence_export sample_externals 2 (no_filters\<lparr>fl_agent := Some ''nobody''\<rparr>) None True 30
       (ledger_db sample_externals [sample_recorded 5]) = (Inr p, d1)
     \<and> (create_evidence_bundle sample_externals p None 40 d1 = (Inl (size_limit_response ''chain'' MAX_EVIDENCE_BUNDLE_CHAIN_BYTES), d1)
        \<or> (\<exists>b d3. create_evidence_bundle sample_externals p None 40 d1 = (Inr b, d3)
             \<and> bv_verified (verify_evidence_bundle sample_externals b None) \<and> length (bn_chain b) = 1))"
proof -
  let ?X = sample_externals and ?a = "sample_recorded 5" and ?f = "no_filters\<lparr>fl_agent := Some ''nobody''\<rparr>"
  let ?d = "ledger_db ?X [?a]"
  have pid: "\<forall>a \<in> set [?a]. au_project a = 2" by (simp add: sample_recorded_def)
  have ok: "db_ok ?d" by (rule ledger_db_ok) (simp add: sample_recorded_def)
  have valid: "ledger_valid ?X ?d 2" by (rule ledger_db_valid) (simp_all add: sample_recorded_def)
  have chain: "length (project_chain ?d 2) = 1" using ledger_db_chain(1) [OF pid, of ?X] by simp
  have none: "searched 2 ?f ?d = []"
    by (simp add: searched_def search_where_def ledger_db_def no_filters_def equals_filter_def sample_recorded_def)
  have rows: "evidence_rows 2 ?f k ?d = []" for k by (simp add: evidence_rows_def none)
  have asc: "fl_ascending ?f" by (simp add: no_filters_def)
  have query: "record_query 2 ?f k ?d = []" for k by (simp add: record_query_def rows asc Let_def)
  have "vf_verified (ledger_verify ?X 2 (chain_head ip_record_hash (project_chain ?d 2) None) ?d)"
    using ledger_verify_valid [OF ok] valid by (auto simp: chain_head_def)
  moreover have "expire_due_approvals ?X 2 30 ?d = (Inr [], ?d)"
    by (simp add: expire_due_approvals_def transaction_def expire_due_block_def approvals_expire_due_def due_approvals_def
        ledger_db_def sample_db_def empty_db_def)
  ultimately obtain p where prep: "prepare_evidence_export ?X 2 ?f None True 30 ?d = (Inr p, ?d)"
    by (simp add: prepare_evidence_export_def capture_evidence_export_records_def capture_records_def Let_def andThen_def
        catching_def reading_def require_verified_def returning_def rows query list_records_def snapshot_sequence [OF valid] chain
        MAX_EVIDENCE_EXPORT_RECORDS_def MAX_EVIDENCE_BUNDLE_CHAIN_RECORDS_def)
  have "take (length (project_chain ?d 2)) (project_chain ?d 2) = project_chain ?d 2" by simp
  from service_bundle_verifies [OF prep ok valid this sample_digests, of 40] prep chain show ?thesis by auto
qed

end
