(* ===== verification/Evidence_Archive.thy ===== *)
theory Evidence_Archive
  imports Evidence_Service Text_Lines
begin

text \<open>
  The serialisations of evidence: the exports and the archive of \<open>app/evidence.py\<close>, with the
  command \<open>app/evidence_verifier.py\<close>. The zip container, the text of a float read as a number and
  the validation of \<open>EvidenceBundle\<close> by Pydantic are parameters. The theorems say which archives
  the verifier accepts, and that no cell of a CSV export is a formula.
\<close>

section \<open>JSON and NDJSON exports\<close>

definition LF :: string where "LF = [CHR 0x0A]"

definition snapshot_json :: "externals \<Rightarrow> snapshot \<Rightarrow> json" where
  "snapshot_json X s = JObj [(''project_id'', uuid_json (sn_project s)), (''captured_at'', time_json X (sn_captured_at s)),
     (''max_sequence_number'', JInt (sn_max_sequence s)), (''chain_record_count'', JInt (sn_chain_count s)),
     (''chain_head_hash'', opt_json JStr (sn_chain_head s)), (''record_count'', JInt (sn_record_count s))]"

definition export_metadata :: "externals \<Rightarrow> snapshot \<Rightarrow> decision_filters \<Rightarrow> json" where
  "export_metadata X s criteria = JObj [(''schema_version'', JInt 1), (''project_id'', uuid_json (sn_project s)),
     (''criteria'', criteria_json X criteria), (''snapshot'', snapshot_json X s)]"

text \<open>The chunks the generator yields.\<close>

fun json_chunks :: "externals \<Rightarrow> bool \<Rightarrow> verifiable list \<Rightarrow> string list" where
  "json_chunks X first [] = []"
| "json_chunks X first (r # rs) =
     (if first then [] else ['','']) @ canonical_json (x_float X) (record_json X r) # json_chunks X False rs"

definition iter_json_export :: "externals \<Rightarrow> snapshot \<Rightarrow> decision_filters \<Rightarrow> verifiable list \<Rightarrow> string list" where
  "iter_json_export X s criteria records =
     (let prefix = canonical_json (x_float X) (export_metadata X s criteria) in
      (butlast prefix @ '','' @ print_string ''records'' @ '':['') # json_chunks X True records @ ['']}''])"

definition iter_ndjson_export :: "externals \<Rightarrow> verifiable list \<Rightarrow> string list" where
  "iter_ndjson_export X records = map (\<lambda>r. canonical_json (x_float X) (record_json X r) @ LF) records"

section \<open>CSV export\<close>

definition CSV_COLUMNS :: "string list" where
  "CSV_COLUMNS = [''decision_id'', ''project_id'', ''evaluated_at'', ''decision'', ''policy_id'', ''policy_version'',
     ''reason'', ''agent'', ''action'', ''context_json'', ''evidence_json'', ''trace_json'', ''sequence_number'',
     ''previous_hash'', ''payload_hash'', ''record_hash'', ''algorithm'', ''integrity_schema_version'',
     ''integrity_created_at'']"

definition CSV_FORMULA_PREFIXES :: string where
  "CSV_FORMULA_PREFIXES = [CHR ''='', CHR ''+'', CHR ''-'', CHR ''@'', CHR 0x09, CHR 0x0D, CHR 0x0A]"

text \<open>The cells are \<open>None\<close>, integers and strings: the JSON values that occur.\<close>

fun spreadsheet_safe_csv_value :: "json \<Rightarrow> json" where
  "spreadsheet_safe_csv_value (JStr value) =
     (if value = [] then JStr value
      else if hd value \<in> set CSV_FORMULA_PREFIXES \<or> space_length value \<noteq> 0
        \<or> lstrip value \<noteq> [] \<and> hd (lstrip value) \<in> set CSV_FORMULA_PREFIXES
      then JStr (CHR 0x27 # value) else JStr value)"
| "spreadsheet_safe_csv_value value = value"

definition csv_row :: "externals \<Rightarrow> verifiable \<Rightarrow> (string \<times> json) list" where
  "csv_row X r = (let a = vr_decision r; p = vr_integrity r; text = (\<lambda>j. JStr (canonical_json (x_float X) j)) in
     map (\<lambda>(column, v). (column, spreadsheet_safe_csv_value v))
      [(''decision_id'', uuid_json (au_id a)), (''project_id'', uuid_json (au_project a)),
       (''evaluated_at'', time_json X (au_evaluated_at a)), (''decision'', JStr (decision_text (au_decision a))),
       (''policy_id'', opt_json JStr (au_policy a)), (''policy_version'', opt_json JInt (au_version a)),
       (''reason'', JStr (au_reason a)), (''agent'', JStr (au_agent a)), (''action'', JStr (au_action a)),
       (''context_json'', text (JObj (au_context a))),
       (''evidence_json'', (case au_evidence a of None \<Rightarrow> JStr [] | Some e \<Rightarrow> text (evidence_json e))),
       (''trace_json'', text (JArr (map trace_json (au_trace a)))), (''sequence_number'', JInt (ip_sequence p)),
       (''previous_hash'', opt_json JStr (ip_previous p)), (''payload_hash'', JStr (ip_payload_hash p)),
       (''record_hash'', JStr (ip_record_hash p)), (''algorithm'', JStr (ip_algorithm p)),
       (''integrity_schema_version'', JInt (ip_schema p)), (''integrity_created_at'', time_json X (ip_created_at p))])"

text \<open>\<open>csv.writer\<close> with minimal quoting, a comma and the line feed: the text of a value and its field.\<close>

fun cell_text :: "json \<Rightarrow> string" where
  "cell_text (JStr s) = s"
| "cell_text (JInt i) = show_int i"
| "cell_text v = []"

definition csv_special :: "char \<Rightarrow> bool" where
  "csv_special c \<longleftrightarrow> c = CHR '','' \<or> c = CHR 0x22 \<or> c = CHR 0x0A \<or> c = CHR 0x0D"

definition csv_field :: "string \<Rightarrow> string" where
  "csv_field s = (if list_ex csv_special s
     then CHR 0x22 # concat (map (\<lambda>c. if c = CHR 0x22 then [c, c] else [c]) s) @ [CHR 0x22] else s)"

fun join_fields :: "string list \<Rightarrow> string" where
  "join_fields [] = []"
| "join_fields [f] = csv_field f"
| "join_fields (f # fs) = csv_field f @ CHR '','' # join_fields fs"

definition csv_line :: "string list \<Rightarrow> string" where
  "csv_line fs = join_fields fs @ LF"

text \<open>\<open>DictWriter\<close> takes the values of a row in the order of the columns.\<close>

definition iter_csv_export :: "externals \<Rightarrow> verifiable list \<Rightarrow> string list" where
  "iter_csv_export X records = csv_line CSV_COLUMNS
     # map (\<lambda>r. csv_line (map (\<lambda>column. cell_text (the (map_of (csv_row X r) column))) CSV_COLUMNS)) records"

section \<open>The archive\<close>

definition MAX_EVIDENCE_ARCHIVE_BYTES :: int where "MAX_EVIDENCE_ARCHIVE_BYTES = 64 * 1024 * 1024"

definition EVIDENCE_BUNDLE_FILES :: "string set" where
  "EVIDENCE_BUNDLE_FILES = {''manifest.json'', ''records.ndjson'', ''chain.ndjson''}"

text \<open>
  The container: \<open>z_write\<close> makes an archive of named members, \<open>z_open\<close> reads its directory
  (\<open>None\<close> is a \<open>BadZipFile\<close> or an \<open>OSError\<close>). Reading a member may fail with one of
  these, or with another exception.
\<close>

datatype read_failure = Malformed_member | Other_failure

record zip_member =
  zm_name :: string
  zm_size :: int
  zm_content :: "read_failure + string"

record archive_tools =
  z_write :: "(string \<times> string) list \<Rightarrow> string"
  z_open :: "string \<Rightarrow> zip_member list option"
  z_float :: float_reader
  z_validate :: "json \<Rightarrow> evidence_bundle option"

text \<open>The lines of a member, counted against the limit of the whole archive.\<close>

fun write_zip_lines :: "string list \<Rightarrow> int \<Rightarrow> int \<Rightarrow> exn + int" where
  "write_zip_lines [] written_bytes maximum_bytes = Inr written_bytes"
| "write_zip_lines (l # ls) written_bytes maximum_bytes =
     (let written = written_bytes + int (length l) in
      if maximum_bytes < written then Inl (EvidenceExportSizeLimit ''bundle'' maximum_bytes)
      else write_zip_lines ls written maximum_bytes)"

definition manifest_lines :: "externals \<Rightarrow> evidence_bundle \<Rightarrow> string list" where
  "manifest_lines X b = [canonical_json (x_float X) (manifest_json X (bn_manifest b)) @ LF]"

definition record_lines :: "externals \<Rightarrow> evidence_bundle \<Rightarrow> string list" where
  "record_lines X b = map (\<lambda>r. canonical_json (x_float X) (record_json X r) @ LF) (bn_records b)"

definition chain_lines :: "externals \<Rightarrow> evidence_bundle \<Rightarrow> string list" where
  "chain_lines X b = map (\<lambda>p. canonical_json (x_float X) (proof_json X p) @ LF) (bn_chain b)"

definition build_evidence_bundle_archive :: "externals \<Rightarrow> archive_tools \<Rightarrow> evidence_bundle \<Rightarrow> int \<Rightarrow> exn + string" where
  "build_evidence_bundle_archive X Z b maximum_bytes =
     bindE (write_zip_lines (manifest_lines X b) 0 maximum_bytes) (\<lambda>written.
     bindE (write_zip_lines (record_lines X b) written maximum_bytes) (\<lambda>written.
     bindE (write_zip_lines (chain_lines X b) written maximum_bytes) (\<lambda>_.
       let archive_bytes = z_write Z [(''manifest.json'', concat (manifest_lines X b)),
             (''records.ndjson'', concat (record_lines X b)), (''chain.ndjson'', concat (chain_lines X b))]
       in if maximum_bytes < int (length archive_bytes) then Inl (EvidenceExportSizeLimit ''bundle'' maximum_bytes)
          else Inr archive_bytes)))"

definition create_evidence_bundle_archive ::
  "externals \<Rightarrow> archive_tools \<Rightarrow> prepared_export \<Rightarrow> string option \<Rightarrow> instant \<Rightarrow> (evidence_bundle \<times> string) operation" where
  "create_evidence_bundle_archive X Z prepared expected_head generated_at =
     andThen (create_evidence_bundle X prepared expected_head generated_at) (\<lambda>b.
       case build_evidence_bundle_archive X Z b MAX_EVIDENCE_BUNDLE_BYTES of
         Inl e \<Rightarrow> raising (export_http_error e)
       | Inr archive \<Rightarrow> returning (b, archive))"

section \<open>Loading an archive\<close>

text \<open>
  What reading a bundle raises: an \<open>EvidenceBundleArchiveError\<close> with its message, or what
  reading a member raised and nothing catches.
\<close>

datatype load_error = EvidenceBundleArchiveError string | Uncaught

text \<open>A path: its size and content, each read with a possible \<open>OSError\<close>.\<close>

datatype archive_source =
    Source_bytes string
  | Source_path "(int \<times> string option) option"

definition too_large :: load_error where
  "too_large = EvidenceBundleArchiveError ''Evidence archive exceeds the verification size limit.''"

definition cannot_be_read :: load_error where
  "cannot_be_read = EvidenceBundleArchiveError ''Evidence archive cannot be read''"

definition malformed :: load_error where
  "malformed = EvidenceBundleArchiveError ''Evidence archive is malformed.''"

fun read_archive_bytes :: "archive_source \<Rightarrow> load_error + string" where
  "read_archive_bytes (Source_bytes source) =
     (if MAX_EVIDENCE_ARCHIVE_BYTES < int (length source) then Inl too_large else Inr source)"
| "read_archive_bytes (Source_path None) = Inl cannot_be_read"
| "read_archive_bytes (Source_path (Some (file_size, content))) =
     (if MAX_EVIDENCE_ARCHIVE_BYTES < file_size then Inl too_large
      else (case content of None \<Rightarrow> Inl cannot_be_read | Some bytes \<Rightarrow> Inr bytes))"

definition not_json :: "string \<Rightarrow> nat \<Rightarrow> load_error" where
  "not_json filename line_number =
     EvidenceBundleArchiveError (filename @ '':'' @ show_nat line_number @ '' is not valid JSON.'')"

fun parse_lines :: "float_reader \<Rightarrow> string \<Rightarrow> nat \<Rightarrow> string list \<Rightarrow> load_error + json list" where
  "parse_lines rd filename line_number [] = Inr []"
| "parse_lines rd filename line_number (line # rest) =
     (if blank line then parse_lines rd filename (line_number + 1) rest
      else (case json_loads rd line of
          None \<Rightarrow> Inl (not_json filename line_number)
        | Some v \<Rightarrow> bindE (parse_lines rd filename (line_number + 1) rest) (\<lambda>vs. Inr (v # vs))))"

definition parse_ndjson :: "float_reader \<Rightarrow> string \<Rightarrow> string \<Rightarrow> load_error + json list" where
  "parse_ndjson rd content filename =
     (if utf8_ok content then parse_lines rd filename 1 (splitlines content) else Inl malformed)"

definition archive_read :: "zip_member list \<Rightarrow> string \<Rightarrow> load_error + string" where
  "archive_read ms name = (case find_row (\<lambda>z. zm_name z = name) ms of
     None \<Rightarrow> Inl Uncaught
   | Some z \<Rightarrow> (case zm_content z of
         Inr content \<Rightarrow> Inr content
       | Inl Malformed_member \<Rightarrow> Inl malformed
       | Inl Other_failure \<Rightarrow> Inl Uncaught))"

definition load_manifest :: "float_reader \<Rightarrow> string \<Rightarrow> load_error + json" where
  "load_manifest rd content = (if utf8_ok content
     then (case json_loads rd content of None \<Rightarrow> Inl malformed | Some v \<Rightarrow> Inr v) else Inl malformed)"

definition load_evidence_bundle_archive :: "archive_tools \<Rightarrow> archive_source \<Rightarrow> load_error + evidence_bundle" where
  "load_evidence_bundle_archive Z source =
     bindE (read_archive_bytes source) (\<lambda>archive_bytes.
     case z_open Z archive_bytes of
       None \<Rightarrow> Inl malformed
     | Some ms \<Rightarrow>
         if \<not> distinct (map zm_name ms) \<or> set (map zm_name ms) \<noteq> EVIDENCE_BUNDLE_FILES
         then Inl (EvidenceBundleArchiveError
           ''Evidence archive must contain exactly manifest.json, records.ndjson, and chain.ndjson.'')
         else if MAX_EVIDENCE_ARCHIVE_BYTES < sum_list (map zm_size ms) then Inl too_large
         else
           bindE (bindE (archive_read ms ''manifest.json'') (load_manifest (z_float Z))) (\<lambda>manifest_data.
           bindE (bindE (archive_read ms ''records.ndjson'') (\<lambda>c. parse_ndjson (z_float Z) c ''records.ndjson'')) (\<lambda>records_data.
           bindE (bindE (archive_read ms ''chain.ndjson'') (\<lambda>c. parse_ndjson (z_float Z) c ''chain.ndjson'')) (\<lambda>chain_data.
             case z_validate Z (JObj [(''manifest'', manifest_data), (''records'', JArr records_data),
                 (''chain'', JArr chain_data)]) of
               None \<Rightarrow> Inl (EvidenceBundleArchiveError ''Evidence archive contains invalid DecAustrum data.'')
             | Some b \<Rightarrow> Inr b))))"

section \<open>The verifier command\<close>

text \<open>
  The exit code: an argument that is no digest is refused by \<open>argparse\<close> with 2, an archive that
  cannot be loaded with 2; \<open>None\<close> is an exception that leaves \<open>main\<close>.
\<close>

definition verifier_main :: "externals \<Rightarrow> archive_tools \<Rightarrow> archive_source \<Rightarrow> string option \<Rightarrow> int option" where
  "verifier_main X Z archive expected_head_hash =
     (if (case expected_head_hash of None \<Rightarrow> False | Some h \<Rightarrow> \<not> is_sha256_text h) then Some 2
      else (case load_evidence_bundle_archive Z archive of
          Inl Uncaught \<Rightarrow> None
        | Inl (EvidenceBundleArchiveError _) \<Rightarrow> Some 2
        | Inr b \<Rightarrow> Some (if bv_verified (verify_evidence_bundle X b expected_head_hash) then 0 else 1)))"

section \<open>Lines of a member\<close>

text \<open>Values whose dictionaries have distinct keys and whose strings are UTF-8 text.\<close>

definition portable :: "json \<Rightarrow> bool" where
  "portable v \<longleftrightarrow> json_wf v \<and> json_texts utf8_ok v"

definition line_of :: "externals \<Rightarrow> json \<Rightarrow> string" where
  "line_of X v = canonical_json (x_float X) v"

lemma LF_printable [simp]: "utf8_ok (s @ LF) \<longleftrightarrow> utf8_ok s" if "s = canonical_json fr v" "float_text_ok fr" for s
  using that canonical_decodable [of fr v LF] canonical_decodable [of fr v "[]"] by (simp add: LF_def utf8_ok.simps(2))

lemma utf8_lines:
  assumes "float_text_ok (x_float X)" and "list_all portable vs"
  shows "utf8_ok (concat (map (\<lambda>v. line_of X v @ LF) vs))"
  using assms(2)
proof (induction vs)
  case (Cons v vs)
  then have "utf8_ok (LF @ concat (map (\<lambda>v. line_of X v @ LF) vs))" "json_texts utf8_ok v"
    by (simp_all add: LF_def utf8_ok.simps(2) portable_def)
  then show ?case using canonical_decodable [OF assms(1)] by (simp add: line_of_def)
qed simp

text \<open>Objects without separators, one per line, are read back.\<close>

lemma parse_good_lines:
  assumes fr: "float_text_ok (x_float X)" "float_reads rd (x_float X)"
    and "list_all (\<lambda>v. portable v \<and> (\<exists>kvs. v = JObj kvs)) vs"
  shows "parse_lines rd filename n (map (line_of X) vs @ ls)
    = bindE (parse_lines rd filename (n + length vs) ls) (\<lambda>ws. Inr (map sort_json vs @ ws))"
  using assms(3)
proof (induction vs arbitrary: n)
  case Nil
  then show ?case by (cases "parse_lines rd filename n ls") simp_all
next
  case (Cons v vs)
  then obtain kvs where v: "v = JObj kvs" "json_wf v" by (auto simp: portable_def)
  obtain s where "line_of X v = CHR ''{'' # s" using canonical_object [of "x_float X" kvs] by (auto simp: v(1) line_of_def)
  then have "\<not> blank (line_of X v)" by (simp add: not_blank)
  moreover have "json_loads rd (line_of X v) = Some (sort_json v)"
    unfolding line_of_def by (rule loads_canonical [OF fr v(2)])
  moreover have "parse_lines rd filename (n + 1) (map (line_of X) vs @ ls)
    = bindE (parse_lines rd filename (n + 1 + length vs) ls) (\<lambda>ws. Inr (map sort_json vs @ ws))"
    using Cons by simp
  ultimately show ?case
    by (cases "parse_lines rd filename (n + 1 + length vs) ls") (simp_all add: add.assoc)
qed

definition whole :: "json \<Rightarrow> bool" where
  "whole v \<longleftrightarrow> json_texts separator_free v"

lemma parse_ndjson_lines:
  assumes fr: "float_text_ok (x_float X)" "float_reads rd (x_float X)"
    and vs: "list_all (\<lambda>v. portable v \<and> (\<exists>kvs. v = JObj kvs)) vs"
  shows "parse_ndjson rd (concat (map (\<lambda>v. line_of X v @ LF) vs)) filename
    = (case find_row (\<lambda>i. \<not> whole (vs ! i)) [0..<length vs] of
         None \<Rightarrow> Inr (map sort_json vs)
       | Some i \<Rightarrow> Inl (not_json filename (i + 1)))"
proof -
  have utf8: "utf8_ok (concat (map (\<lambda>v. line_of X v @ LF) vs))"
    by (rule utf8_lines [OF fr(1)]) (use vs in \<open>auto simp: list_all_iff\<close>)
  have joined: "splitlines (concat (map (\<lambda>v. line_of X v @ LF) us) @ r) = map (line_of X) us @ splitlines r"
    if "list_all whole us" for us r
    using that splitlines_joined [of "map (line_of X) us" r] canonical_one_line [OF fr(1)]
    by (simp add: LF_def list_all_iff line_of_def whole_def comp_def)
  show ?thesis
  proof (cases "find_row (\<lambda>i. \<not> whole (vs ! i)) [0..<length vs]")
    case None
    then have "list_all whole vs" by (auto simp: find_row_None list_all_iff in_set_conv_nth)
    then show ?thesis
      using joined [of vs "[]"] parse_good_lines [OF fr vs, of filename 1 "[]"]
      by (simp add: parse_ndjson_def utf8 None)
  next
    case (Some i)
    have i: "i < length vs" "\<not> whole (vs ! i)" "\<And>j. j < i \<Longrightarrow> whole (vs ! j)"
      using Some by (auto simp: find_row_def find_Some_iff)
    have "\<exists>kvs. vs ! i = JObj kvs" using vs i(1) unfolding list_all_iff by (metis nth_mem)
    then obtain kvs where v: "vs ! i = JObj kvs" by blast
    have split: "vs = take i vs @ vs ! i # drop (Suc i) vs" using i(1) by (rule id_take_nth_drop)
    let ?rest = "concat (map (\<lambda>v. line_of X v @ LF) (drop (Suc i) vs))"
    obtain p more where p: "splitlines (line_of X (vs ! i) @ CHR 0x0A # ?rest) = p # more" "json_loads rd p = None" "\<not> blank p"
      using separator_splits [OF fr(1), of kvs ?rest rd] i(2) by (auto simp: v whole_def line_of_def)
    have "list_all whole (take i vs)" using i by (auto simp: list_all_length)
    then have "splitlines (concat (map (\<lambda>v. line_of X v @ LF) vs)) = map (line_of X) (take i vs) @ p # more"
      using joined [of "take i vs" "line_of X (vs ! i) @ CHR 0x0A # ?rest"] p(1) by (subst split) (simp add: LF_def)
    moreover have "list_all (\<lambda>v. portable v \<and> (\<exists>kvs. v = JObj kvs)) (take i vs)" using vs by (auto simp: list_all_iff dest: in_set_takeD)
    ultimately show ?thesis
      using parse_good_lines [OF fr, of "take i vs" filename 1 "p # more"] p(2,3) i(1)
      by (simp add: parse_ndjson_def utf8 Some)
  qed
qed

section \<open>What the verifier accepts\<close>

text \<open>The container gives back the members written, and their sizes.\<close>

definition zip_faithful :: "archive_tools \<Rightarrow> bool" where
  "zip_faithful Z \<longleftrightarrow> (\<forall>ms. distinct (map fst ms) \<longrightarrow> z_open Z (z_write Z ms)
     = Some (map (\<lambda>(n, c). \<lparr>zm_name = n, zm_size = int (length c), zm_content = Inr c\<rparr>) ms))"

text \<open>
  Validating the JSON a model was dumped to gives the model back, but for the order of the keys of its
  dictionaries, which the canonical text has lost.
\<close>

definition same_bundle :: "externals \<Rightarrow> evidence_bundle \<Rightarrow> evidence_bundle \<Rightarrow> bool" where
  "same_bundle X b c \<longleftrightarrow> bn_manifest c = bn_manifest b \<and> bn_chain c = bn_chain b
     \<and> list_all2 (\<lambda>r s. vr_integrity s = vr_integrity r \<and> au_id (vr_decision s) = au_id (vr_decision r)
          \<and> au_project (vr_decision s) = au_project (vr_decision r)
          \<and> sort_json (authorization_json X (vr_decision s)) = sort_json (authorization_json X (vr_decision r)))
        (bn_records b) (bn_records c)"

definition dumped :: "externals \<Rightarrow> evidence_bundle \<Rightarrow> json" where
  "dumped X b = JObj [(''manifest'', sort_json (manifest_json X (bn_manifest b))),
     (''records'', JArr (map (\<lambda>r. sort_json (record_json X r)) (bn_records b))),
     (''chain'', JArr (map (\<lambda>p. sort_json (proof_json X p)) (bn_chain b)))]"

definition reads_back :: "externals \<Rightarrow> archive_tools \<Rightarrow> evidence_bundle \<Rightarrow> bool" where
  "reads_back X Z b \<longleftrightarrow> (case z_validate Z (dumped X b) of None \<Rightarrow> False | Some c \<Rightarrow> same_bundle X b c)"

lemma authorization_json_payload: "authorization_json X a = authorization_payload_v1 X a"
proof -
  have "evidence_json = evidence_payload_v1"
    by (simp add: fun_eq_iff evidence_json_def evidence_payload_v1_def condition_evidence_json_def)
  then show ?thesis by (simp add: authorization_json_def authorization_payload_v1_def trace_json_def)
qed

lemma same_bundle_verifies:
  assumes "same_bundle X b c"
  shows "bundle_valid X c expected \<longleftrightarrow> bundle_valid X b expected"
proof -
  from assms have m: "bn_manifest c = bn_manifest b" "bn_chain c = bn_chain b"
    and r: "list_all2 (\<lambda>r s. vr_integrity s = vr_integrity r \<and> au_id (vr_decision s) = au_id (vr_decision r)
          \<and> au_project (vr_decision s) = au_project (vr_decision r)
          \<and> sort_json (authorization_json X (vr_decision s)) = sort_json (authorization_json X (vr_decision r)))
        (bn_records b) (bn_records c)"
    by (simp_all add: same_bundle_def)
  from r have len: "length (bn_records c) = length (bn_records b)" by (simp add: list_all2_lengthD)
  have texts: "map (\<lambda>r. sort_json (record_json X r)) (bn_records c) = map (\<lambda>r. sort_json (record_json X r)) (bn_records b)"
    using r by (induction rule: list_all2_induct) (simp_all add: record_json_def)
  have ids: "map (\<lambda>r. au_id (vr_decision r)) (bn_records c) = map (\<lambda>r. au_id (vr_decision r)) (bn_records b)"
    using r by (induction rule: list_all2_induct) simp_all
  have selected: "list_all (selected_valid X pid chain) (bn_records c) = list_all (selected_valid X pid chain) (bn_records b)" for pid chain
    using r by (induction rule: list_all2_induct)
      (simp_all add: selected_valid_def payload_hash_of_def digest_json_def canonical_json_def authorization_json_payload)
  have sorted: "sort_json (JArr (map (record_json X) (bn_records c))) = sort_json (JArr (map (record_json X) (bn_records b)))"
    using texts by (simp add: comp_def)
  have digest: "records_digest X (bn_records c) = records_digest X (bn_records b)"
    unfolding records_digest_def digest_json_def canonical_json_def sorted by (rule refl)
  have "sort_json (logical_bundle_payload X m (bn_records c) chain) = sort_json (logical_bundle_payload X m (bn_records b) chain)" for m chain
    using sorted by (simp add: logical_bundle_payload_def)
  then have bundle_digest: "digest_json X (logical_bundle_payload X m (bn_records c) chain)
      = digest_json X (logical_bundle_payload X m (bn_records b) chain)" for m chain
    by (simp add: digest_json_def canonical_json_def)
  show ?thesis
    by (simp add: bundle_valid_def m len ids selected digest bundle_digest check_manifest_None)
qed

lemma write_zip_lines_Inr:
  "write_zip_lines ls n m = Inr k \<Longrightarrow> k = n + int (length (concat ls)) \<and> (ls \<noteq> [] \<or> n \<le> m \<longrightarrow> k \<le> m)"
proof (induction ls arbitrary: n)
  case (Cons l ls)
  then have n: "n + int (length l) \<le> m" and rest: "write_zip_lines ls (n + int (length l)) m = Inr k"
    by (auto simp: Let_def split: if_splits)
  from Cons.IH [OF rest] n show ?case by simp
qed simp

lemma archive_bytes:
  assumes "build_evidence_bundle_archive X Z b m = Inr bytes"
  shows "bytes = z_write Z [(''manifest.json'', concat (manifest_lines X b)),
      (''records.ndjson'', concat (record_lines X b)), (''chain.ndjson'', concat (chain_lines X b))]"
    and "int (length bytes) \<le> m"
    and "int (length (concat (manifest_lines X b))) + int (length (concat (record_lines X b)))
      + int (length (concat (chain_lines X b))) \<le> m"
proof -
  from assms obtain k l n where k: "write_zip_lines (manifest_lines X b) 0 m = Inr k"
    and l: "write_zip_lines (record_lines X b) k m = Inr l" and n: "write_zip_lines (chain_lines X b) l m = Inr n"
    by (auto simp: build_evidence_bundle_archive_def bindE_Inr_iff)
  with assms show "bytes = z_write Z [(''manifest.json'', concat (manifest_lines X b)),
      (''records.ndjson'', concat (record_lines X b)), (''chain.ndjson'', concat (chain_lines X b))]"
    and "int (length bytes) \<le> m"
    by (simp_all add: build_evidence_bundle_archive_def Let_def split: if_splits)
  have "k \<le> m" using write_zip_lines_Inr [OF k] by (simp add: manifest_lines_def)
  then show "int (length (concat (manifest_lines X b))) + int (length (concat (record_lines X b)))
      + int (length (concat (chain_lines X b))) \<le> m"
    using write_zip_lines_Inr [OF k] write_zip_lines_Inr [OF l] write_zip_lines_Inr [OF n] by simp
qed

text \<open>The values of an archive, in its three members.\<close>

definition archive_values :: "externals \<Rightarrow> evidence_bundle \<Rightarrow> json list" where
  "archive_values X b = manifest_json X (bn_manifest b) # map (record_json X) (bn_records b) @ map (proof_json X) (bn_chain b)"

lemma load_manifest_line:
  assumes "float_text_ok (x_float X)" "float_reads rd (x_float X)" and "portable v"
  shows "load_manifest rd (canonical_json (x_float X) v @ LF) = Inr (sort_json v)"
proof -
  let ?s = "canonical_json (x_float X) v"
  have "utf8_ok (?s @ LF)" using canonical_decodable [OF assms(1), of v LF] assms(3) by (simp add: LF_def utf8_ok.simps(2) portable_def)
  moreover have "json_loads rd (?s @ LF) = Some (sort_json v)"
    by (rule loads_canonical_ws [OF assms(1,2)]) (use assms(3) in \<open>simp_all add: portable_def LF_def is_space_def\<close>)
  ultimately show ?thesis by (simp add: load_manifest_def)
qed

lemma record_json_object: "\<exists>kvs. record_json X r = JObj kvs" "\<exists>kvs. proof_json X p = JObj kvs"
  by (simp_all add: record_json_def proof_json_def)

lemma load_archive:
  assumes fr: "float_text_ok (x_float X)" "float_reads (z_float Z) (x_float X)" and zip: "zip_faithful Z"
    and "build_evidence_bundle_archive X Z b m = Inr bytes" and "m \<le> MAX_EVIDENCE_ARCHIVE_BYTES"
    and vals: "list_all portable (archive_values X b)" and "list_all whole (map (proof_json X) (bn_chain b))"
  shows "load_evidence_bundle_archive Z (Source_bytes bytes) =
    (case find_row (\<lambda>i. \<not> whole (map (record_json X) (bn_records b) ! i)) [0..<length (bn_records b)] of
       Some i \<Rightarrow> Inl (not_json ''records.ndjson'' (i + 1))
     | None \<Rightarrow> (case z_validate Z (dumped X b) of
           None \<Rightarrow> Inl (EvidenceBundleArchiveError ''Evidence archive contains invalid DecAustrum data.'')
         | Some c \<Rightarrow> Inr c))"
proof -
  note a = archive_bytes [OF assms(4)]
  let ?ms = "[(''manifest.json'', concat (manifest_lines X b)), (''records.ndjson'', concat (record_lines X b)),
    (''chain.ndjson'', concat (chain_lines X b))]"
  let ?zs = "map (\<lambda>(n, c). \<lparr>zm_name = n, zm_size = int (length c), zm_content = Inr c :: read_failure + string\<rparr>) ?ms"
  have "distinct (map fst ?ms)" by simp
  then have opened: "z_open Z bytes = Some ?zs" using zip a(1) unfolding zip_faithful_def by blast
  have names: "distinct (map zm_name ?zs)" "set (map zm_name ?zs) = EVIDENCE_BUNDLE_FILES"
    by (auto simp: EVIDENCE_BUNDLE_FILES_def)
  have size: "\<not> MAX_EVIDENCE_ARCHIVE_BYTES < sum_list (map zm_size ?zs)" "\<not> MAX_EVIDENCE_ARCHIVE_BYTES < int (length bytes)"
    using a(2,3) assms(5) by simp_all
  have read: "archive_read ?zs ''manifest.json'' = Inr (concat (manifest_lines X b))"
    "archive_read ?zs ''records.ndjson'' = Inr (concat (record_lines X b))"
    "archive_read ?zs ''chain.ndjson'' = Inr (concat (chain_lines X b))"
    by (simp_all add: archive_read_def row_simps)
  have m: "load_manifest (z_float Z) (concat (manifest_lines X b)) = Inr (sort_json (manifest_json X (bn_manifest b)))"
    using load_manifest_line [OF fr, of "manifest_json X (bn_manifest b)"] vals
    by (simp add: manifest_lines_def archive_values_def)
  have r: "parse_ndjson (z_float Z) (concat (record_lines X b)) ''records.ndjson'' =
    (case find_row (\<lambda>i. \<not> whole (map (record_json X) (bn_records b) ! i)) [0..<length (bn_records b)] of
       None \<Rightarrow> Inr (map (\<lambda>r. sort_json (record_json X r)) (bn_records b)) | Some i \<Rightarrow> Inl (not_json ''records.ndjson'' (i + 1)))"
    using parse_ndjson_lines [OF fr, of "map (record_json X) (bn_records b)" "''records.ndjson''"] vals
    by (simp add: record_lines_def line_of_def comp_def archive_values_def list.pred_map record_json_object split: option.split)
  have "find_row (\<lambda>i. \<not> whole (map (proof_json X) (bn_chain b) ! i)) [0..<length (bn_chain b)] = None"
    using assms(7) by (auto simp: find_row_None list_all_length)
  then have c: "parse_ndjson (z_float Z) (concat (chain_lines X b)) ''chain.ndjson'' = Inr (map (\<lambda>p. sort_json (proof_json X p)) (bn_chain b))"
    using parse_ndjson_lines [OF fr, of "map (proof_json X) (bn_chain b)" "''chain.ndjson''"] vals
    by (simp add: chain_lines_def line_of_def comp_def archive_values_def list.pred_map record_json_object)
  show ?thesis
    unfolding load_evidence_bundle_archive_def
    by (simp only: read_archive_bytes.simps size if_False bindE_simps opened option.case names not_True_eq_False simp_thms
        read m r c) (simp add: dumped_def split: option.split)
qed

lemma load_path:
  "int (length bytes) \<le> MAX_EVIDENCE_ARCHIVE_BYTES \<Longrightarrow>
     load_evidence_bundle_archive Z (Source_path (Some (int (length bytes), Some bytes)))
       = load_evidence_bundle_archive Z (Source_bytes bytes)"
  by (simp add: load_evidence_bundle_archive_def)

text \<open>
  C26: The verifier decides the archive of every bundle as the service's own verification does,
  except when a text of a selected decision contains one of the Unicode line breaks NEL, LS and PS:
  then it refuses the archive (exit code 2), although the bundle may be genuine. The archive's
  members hold canonical JSON, which keeps these characters, and the loader splits the member there. Else
  the exit code is 0 when the bundle verifies and 1 when it does not.
\<close>

theorem archive_verifies_unless_separator:
  assumes "float_text_ok (x_float X)" and "float_reads (z_float Z) (x_float X)" and "zip_faithful Z" and "reads_back X Z b"
    and "build_evidence_bundle_archive X Z b maximum_bytes = Inr bytes" and "maximum_bytes \<le> MAX_EVIDENCE_ARCHIVE_BYTES"
    and "list_all portable (archive_values X b)" and "list_all whole (map (proof_json X) (bn_chain b))"
    and "pred_option is_sha256_text expected"
  shows "verifier_main X Z (Source_path (Some (int (length bytes), Some bytes))) expected =
    Some (if list_ex (\<lambda>r. \<not> json_texts separator_free (record_json X r)) (bn_records b) then 2
          else if bv_verified (verify_evidence_bundle X b expected) then 0 else 1)"
proof -
  let ?rs = "bn_records b"
  have expected: "\<not> (case expected of None \<Rightarrow> False | Some h \<Rightarrow> \<not> is_sha256_text h)"
    using assms(9) by (cases expected) simp_all
  have path: "load_evidence_bundle_archive Z (Source_path (Some (int (length bytes), Some bytes)))
      = load_evidence_bundle_archive Z (Source_bytes bytes)"
    by (rule load_path) (use archive_bytes(2) [OF assms(5)] assms(6) in simp)
  note load = load_archive [OF assms(1-3,5-8)]
  show ?thesis
  proof (cases "find_row (\<lambda>i. \<not> whole (map (record_json X) ?rs ! i)) [0..<length ?rs]")
    case None
    then have "\<not> list_ex (\<lambda>r. \<not> json_texts separator_free (record_json X r)) ?rs"
      by (auto simp: find_row_None list_ex_length whole_def)
    moreover from assms(4) obtain c where c: "z_validate Z (dumped X b) = Some c" "same_bundle X b c"
      by (auto simp: reads_back_def split: option.splits)
    ultimately show ?thesis
      using same_bundle_verifies [OF c(2)] by (simp add: verifier_main_def expected path load None c(1) verified_bundle_valid)
  next
    case (Some i)
    then have "i < length ?rs" "\<not> whole (map (record_json X) ?rs ! i)" using find_row_Some [OF Some] by auto
    then have "list_ex (\<lambda>r. \<not> json_texts separator_free (record_json X r)) ?rs"
      by (auto simp: list_ex_length whole_def)
    then show ?thesis by (simp add: verifier_main_def expected path load Some not_json_def)
  qed
qed

text \<open>Externals and tools for the witnesses.\<close>

definition read_int :: "string \<Rightarrow> int" where
  "read_int s = (case s of c # t \<Rightarrow> if c = CHR ''-'' then - int (read_nat t) else int (read_nat s) | [] \<Rightarrow> 0)"

definition sample_reader :: float_reader where
  "sample_reader s = Some (read_int (takeWhile (\<lambda>c. c \<noteq> CHR ''e'') s), read_int (tl (dropWhile (\<lambda>c. c \<noteq> CHR ''e'') s)))"

lemma read_show_int: "read_int (show_int i) = i"
proof (cases "i < 0")
  case False
  then obtain c t where s: "show_nat (nat i) = c # t" by (cases "show_nat (nat i)") auto
  have "c \<noteq> CHR ''-''" using show_nat_not_minus [of "nat i"] s by metis
  then have "read_int (show_nat (nat i)) = int (read_nat (show_nat (nat i)))" unfolding s by (simp add: read_int_def)
  then show ?thesis using False by (simp add: show_int_def read_show_nat)
qed (simp add: show_int_def read_int_def read_show_nat)

lemma sample_reader_text: "sample_reader (show_int m @ ''e'' @ show_int k) = Some (m, k)"
proof -
  have "CHR ''e'' \<notin> set (show_int m)" by (auto dest!: show_int_chars simp: is_digit_def)
  then have "takeWhile (\<lambda>c. c \<noteq> CHR ''e'') (show_int m @ CHR ''e'' # s) = show_int m"
    "dropWhile (\<lambda>c. c \<noteq> CHR ''e'') (show_int m @ CHR ''e'' # s) = CHR ''e'' # s" for s
    by (simp_all add: takeWhile_append dropWhile_append)
  then show ?thesis by (simp add: sample_reader_def read_show_int)
qed

lemma show_int_parts:
  obtains n where "0 \<le> i" "show_int i = show_nat n" | n where "i < 0" "show_int i = CHR ''-'' # show_nat n"
  by (cases "i < 0") (auto simp: show_int_def)

lemma exponent_show_int: "ends_value r \<Longrightarrow> exponent_text (CHR ''e'' # show_int k @ r) = CHR ''e'' # show_int k"
proof (cases k rule: show_int_parts)
  case (1 n)
  assume "ends_value r"
  then show ?thesis using digits_show_nat [OF digits_ending, of r n] by (simp add: exponent_text_def 1(2))
next
  case (2 n)
  assume "ends_value r"
  moreover have "digits (CHR ''-'' # show_nat n @ r) = []" by (simp add: digits_def is_digit_def)
  ultimately show ?thesis using digits_show_nat [OF digits_ending, of r n] by (simp add: exponent_text_def 2(2))
qed

lemma sample_float_reads: "float_reads sample_reader (\<lambda>m k. show_int m @ ''e'' @ show_int k)"
  unfolding float_reads_def
proof (intro allI impI)
  fix m k r assume r: "ends_value r"
  show "parse_number sample_reader ((show_int m @ ''e'' @ show_int k) @ r) = Some (JFloat m k, r)"
  proof -
    have "digits (CHR ''e'' # show_int k @ r) = []" by (simp add: digits_def is_digit_def)
    moreover have "fraction_text (CHR ''e'' # show_int k @ r) = []" by (simp add: fraction_text_def)
    ultimately show ?thesis
      using parse_number_start [of "CHR ''e'' # show_int k @ r" sample_reader m] exponent_show_int [OF r, of k]
        sample_reader_text [of m k]
      by (simp add: Let_def)
  qed
qed

lemma plain_string: "list_all printable s \<Longrightarrow> separator_free s \<and> utf8_ok s"
proof (induction s)
  case (Cons c s)
  then show ?case using separator_printable [of c s] by simp
qed simp

text \<open>A predicate that holds of printable ASCII texts holds of identifiers, digests and numbers.\<close>

lemma hex_pad_plain: "list_all printable (hex_pad w n)"
  by (induction w arbitrary: n) (simp_all add: hex_char_plain)

lemma uuid_text_plain: "list_all printable (uuid_text u)"
proof -
  have "list_all printable (take k (drop j (hex_pad 32 u)))" "list_all printable (drop j (hex_pad 32 u))"
    "list_all printable (take k (hex_pad 32 u))" for k j
    using hex_pad_plain [of 32 u] by (auto simp: list_all_iff dest!: in_set_takeD in_set_dropD)
  then show ?thesis by (simp add: uuid_text_def Let_def printable_def)
qed

definition archive_externals :: externals where
  "archive_externals = sample_externals\<lparr>x_time := show_int, x_sha256 := (\<lambda>s. replicate 64 (CHR ''a''))\<rparr>"

text \<open>A container whose archives are JSON texts, and a validation that knows one bundle.\<close>

definition sample_tools :: "evidence_bundle \<Rightarrow> archive_tools" where
  "sample_tools b = \<lparr>z_write = (\<lambda>ms. print_json (x_float archive_externals) (JObj (map (\<lambda>(n, c). (n, JStr c)) ms))),
     z_open = (\<lambda>s. case json_loads sample_reader s of
        Some (JObj kvs) \<Rightarrow> Some (map (\<lambda>(n, v). case v of JStr c \<Rightarrow> \<lparr>zm_name = n, zm_size = int (length c), zm_content = Inr c\<rparr>
          | _ \<Rightarrow> \<lparr>zm_name = n, zm_size = 0, zm_content = Inl Other_failure\<rparr>) kvs)
      | _ \<Rightarrow> None),
     z_float = sample_reader, z_validate = (\<lambda>v. Some b)\<rparr>"

lemma archive_float: "x_float archive_externals = (\<lambda>m e. show_int m @ ''e'' @ show_int e)"
  by (simp add: archive_externals_def sample_externals_def)

lemma archive_float_ok: "float_text_ok (x_float archive_externals)" "float_reads sample_reader (x_float archive_externals)"
  unfolding archive_float using sample_float_ok sample_float_reads by simp_all

lemma loads_printed:
  assumes "float_text_ok fr" and "float_reads rd fr" and "json_wf v"
  shows "json_loads rd (print_json fr v) = Some v"
proof -
  let ?s = "print_json fr v"
  have "skip_ws (?s @ []) = ?s @ []" by (rule skip_printed [OF assms(1)])
  moreover have "parse_value rd (Suc (2 * length ?s)) (?s @ []) = Some (v, [])"
    by (rule value_readsD [OF reads_printed(1) assms(1,2,3)]) (simp_all add: ends_value_def)
  ultimately show ?thesis by (simp add: json_loads_def skip_empty)
qed

lemma sample_tools_faithful: "zip_faithful (sample_tools b)"
  unfolding zip_faithful_def
proof (intro allI impI)
  fix ms :: "(string \<times> string) list" assume d: "distinct (map fst ms)"
  let ?v = "JObj (map (\<lambda>(n, c). (n, JStr c)) ms)"
  have "map fst (map (\<lambda>(n, c). (n, JStr c)) ms) = map fst ms" by (induction ms) auto
  then have "distinct (map fst (map (\<lambda>(n, c). (n, JStr c)) ms))" using d by (simp only:)
  then have "json_wf ?v" by (auto simp: list_all_iff simp del: map_map)
  from loads_printed [OF archive_float_ok this]
  show "z_open (sample_tools b) (z_write (sample_tools b) ms)
      = Some (map (\<lambda>(n, c). \<lparr>zm_name = n, zm_size = int (length c), zm_content = Inr c\<rparr>) ms)"
    by (simp add: sample_tools_def comp_def split_beta)
qed

lemma same_bundle_refl: "same_bundle X b b"
  by (simp add: same_bundle_def list.rel_refl)

definition sample_spoken :: "string \<Rightarrow> authorization" where
  "sample_spoken agent = (sample_recorded 5)\<lparr>au_agent := agent\<rparr>"

abbreviation archived :: "string \<Rightarrow> evidence_bundle" where
  "archived agent \<equiv> sample_bundle archive_externals (sample_spoken agent)"

lemma archived_values:
  assumes "utf8_ok agent"
  shows "list_all portable (archive_values archive_externals (archived agent))"
    and "list_all whole (map (proof_json archive_externals) (bn_chain (archived agent)))"
    and "list_ex (\<lambda>r. \<not> json_texts separator_free (record_json archive_externals r)) (bn_records (archived agent))
      \<longleftrightarrow> \<not> separator_free agent"
proof -
  have plain: "separator_free s" "utf8_ok s" if "list_all printable s" for s using plain_string [OF that] by simp_all
  note texts = plain [OF uuid_text_plain] plain [OF show_int_printable]
  have digest: "list_all printable (replicate 64 (CHR ''a''))" by (simp add: list_all_iff printable_def)
  note simps = portable_def archive_values_def whole_def manifest_json_def manifest_members_def record_json_def proof_json_def
    authorization_json_def criteria_json_def no_filters_def uuid_json_def time_json_def opt_json_def sample_bundle_def Let_def sealed_def
    sample_spoken_def sample_recorded_def build_decision_integrity_proof_def digest_json_def records_digest_def chain_digest_def
    archive_externals_def calculate_integrity_record_hash_def payload_hash_of_def
  have literals: "separator_free ''SHA-256''" "utf8_ok ''SHA-256''" "separator_free ''ok''" "utf8_ok ''ok''"
    "separator_free ''read''" "utf8_ok ''read''" "separator_free ''ALLOW''" "utf8_ok ''ALLOW''"
    "separator_free ''desc''" "utf8_ok ''desc''" "separator_free ''asc''" "utf8_ok ''asc''"
    by (rule plain; simp add: printable_def)+
  show "list_all portable (archive_values archive_externals (archived agent))"
    by (simp add: simps texts literals plain [OF digest] assms printable_def)
  show "list_all whole (map (proof_json archive_externals) (bn_chain (archived agent)))"
    by (simp add: simps texts literals plain [OF digest] assms printable_def)
  show "list_ex (\<lambda>r. \<not> json_texts separator_free (record_json archive_externals r)) (bn_records (archived agent))
      \<longleftrightarrow> \<not> separator_free agent"
    by (simp add: simps texts literals plain [OF digest] assms printable_def)
qed

text \<open>A bound for the length of a text, enough to see that an archive is small.\<close>

fun weight :: "float_text \<Rightarrow> json \<Rightarrow> nat" where
  "weight fr (JStr s) = 2 + 6 * length s"
| "weight fr (JArr xs) = 2 + sum_list (map (\<lambda>x. 1 + weight fr x) xs)"
| "weight fr (JObj kvs) = 2 + sum_list (map (\<lambda>kv. 4 + 6 * length (fst kv) + weight fr (snd kv)) kvs)"
| "weight fr (JInt i) = length (show_int i)"
| "weight fr (JFloat m e) = length (fr m e)"
| "weight fr (JBool b) = 5"
| "weight fr JNull = 4"

lemma print_string_length: "length (print_string s) \<le> 2 + 6 * length s"
proof -
  have "length (escape_char c) \<le> 6" for c by (simp add: escape_char_def)
  then have "length (concat (map escape_char s)) \<le> 6 * length s"
    by (induction s) (simp_all add: add_le_mono)
  then show ?thesis by (simp add: print_string_def)
qed

lemma print_json_length: "length (print_json fr v) \<le> weight fr v"
proof (induction v)
  case (JArr xs)
  have "length (print_items fr ys) \<le> 1 + sum_list (map (\<lambda>x. 1 + weight fr x) ys)" if "set ys \<subseteq> set xs" for ys
    using that
  proof (induction ys)
    case (Cons y ys)
    with JArr [of y] show ?case by simp
  qed simp
  note items = this
  show ?case
  proof (cases xs)
    case (Cons y ys)
    then have "set ys \<subseteq> set xs" by auto
    from items [OF this] show ?thesis using JArr [of y] by (simp add: Cons)
  qed simp
next
  case (JObj kvs)
  have "length (print_members fr ms) \<le> 1 + sum_list (map (\<lambda>kv. 4 + 6 * length (fst kv) + weight fr (snd kv)) ms)"
    if "set ms \<subseteq> set kvs" for ms
    using that
  proof (induction ms)
    case (Cons m ms)
    obtain k v where m: "m = (k, v)" by (cases m)
    have "length (print_json fr v) \<le> weight fr v" by (rule JObj [of m]) (use Cons.prems m in auto)
    with Cons print_string_length [of k] show ?case by (simp add: m)
  qed simp
  note members = this
  show ?case
  proof (cases kvs)
    case (Cons m ms)
    obtain k v where m: "m = (k, v)" by (cases m)
    have "length (print_json fr v) \<le> weight fr v" by (rule JObj [of m]) (use Cons m in auto)
    moreover have "set ms \<subseteq> set kvs" using Cons by auto
    ultimately show ?thesis using members [of ms] print_string_length [of k] by (simp add: Cons m)
  qed simp
next
  case (JStr s)
  show ?case using print_string_length [of s] by simp
qed simp_all

lemma sum_list_sort_key: "sum_list (map f (sort_key g xs)) = (sum_list (map f xs) :: nat)"
proof -
  have "sum_list (map f (insort_key g x ys)) = f x + sum_list (map f ys)" for x ys by (induction ys) simp_all
  then show ?thesis by (induction xs) simp_all
qed

lemma sort_json_weight: "weight fr (sort_json v) = weight fr v"
proof (induction v rule: sort_json.induct)
  case (1 xs)
  then show ?case by (simp add: comp_def cong: map_cong)
next
  case (2 kvs)
  let ?f = "\<lambda>kv. 4 + 6 * length (fst kv) + weight fr (snd kv)" and ?s = "map (\<lambda>(k, v). (k, sort_json v)) kvs"
  have "sum_list (map ?f (sort_key fst ?s)) = sum_list (map ?f ?s)"
    by (rule sum_list_sort_key)
  also have "map ?f ?s = map ?f kvs" using 2 by (auto simp: case_prod_beta)
  finally show ?case by simp
qed simp_all

lemma canonical_length: "length (canonical_json fr v @ LF) \<le> Suc (weight fr v)"
  using print_json_length [of fr "sort_json v"] by (simp add: canonical_json_def LF_def sort_json_weight)

lemma write_zip_lines_fits:
  "n + int (length (concat ls)) \<le> m \<Longrightarrow> write_zip_lines ls n m = Inr (n + int (length (concat ls)))"
  by (induction ls arbitrary: n) (simp_all add: Let_def)

lemma archive_fits:
  assumes "length (concat (manifest_lines X b)) \<le> k" and "length (concat (record_lines X b)) \<le> k"
    and "length (concat (chain_lines X b)) \<le> k" and "int (18 * k + 3 * k + 1000) \<le> m"
  shows "\<exists>bytes. build_evidence_bundle_archive X (sample_tools c) b m = Inr bytes"
proof -
  let ?ms = "[(''manifest.json'', concat (manifest_lines X b)), (''records.ndjson'', concat (record_lines X b)),
    (''chain.ndjson'', concat (chain_lines X b))]"
  have "length (z_write (sample_tools c) ?ms) \<le> 18 * k + 1000"
    using print_json_length [of "x_float archive_externals" "JObj (map (\<lambda>(n, c). (n, JStr c)) ?ms)"] assms(1-3)
    by (simp add: sample_tools_def)
  then show ?thesis
    using assms by (simp add: build_evidence_bundle_archive_def write_zip_lines_fits Let_def)
qed

lemma archived_fits:
  assumes "length agent \<le> 100"
  shows "\<exists>bytes. build_evidence_bundle_archive archive_externals (sample_tools c) (archived agent) MAX_EVIDENCE_ARCHIVE_BYTES = Inr bytes"
proof (rule archive_fits [where k = 20000])
  let ?b = "archived agent"
  have ints: "length (show_int 1) = 1" "length (show_int 10) = 2" "length (show_int 30) = 2" "length (show_int 900) = 3"
    by (simp_all add: show_int_def show_nat.simps)
  note simps = manifest_json_def manifest_members_def record_json_def proof_json_def
    authorization_json_def criteria_json_def no_filters_def uuid_json_def time_json_def opt_json_def sample_bundle_def Let_def sealed_def
    sample_spoken_def sample_recorded_def build_decision_integrity_proof_def digest_json_def records_digest_def chain_digest_def
    archive_externals_def calculate_integrity_record_hash_def payload_hash_of_def ints
  have "weight (x_float archive_externals) (manifest_json archive_externals (bn_manifest ?b)) < 20000"
    by (simp add: simps)
  then show "length (concat (manifest_lines archive_externals ?b)) \<le> 20000"
    using canonical_length [of "x_float archive_externals" "manifest_json archive_externals (bn_manifest ?b)"]
    by (simp add: manifest_lines_def)
  obtain r p where r: "bn_records ?b = [r]" and p: "bn_chain ?b = [p]"
    and w: "weight (x_float archive_externals) (record_json archive_externals r) < 20000"
      "weight (x_float archive_externals) (proof_json archive_externals p) < 20000"
    using assms by (simp add: simps)
  show "length (concat (record_lines archive_externals ?b)) \<le> 20000"
    using canonical_length [of "x_float archive_externals" "record_json archive_externals r"] w(1)
    by (simp add: record_lines_def r)
  show "length (concat (chain_lines archive_externals ?b)) \<le> 20000"
    using canonical_length [of "x_float archive_externals" "proof_json archive_externals p"] w(2)
    by (simp add: chain_lines_def p)
qed (simp add: MAX_EVIDENCE_ARCHIVE_BYTES_def)

text \<open>Said by an agent whose name is plain, and by one with a line separator in its name.\<close>

definition separator_agent :: string where
  "separator_agent = [CHR ''a'', CHR 0xE2, CHR 0x80, CHR 0xA8, CHR ''b'']"

theorem archive_verifies_unless_separator_witness:
  "\<exists>plain odd. verifier_main archive_externals (sample_tools (archived ''agent''))
       (Source_path (Some (int (length plain), Some plain))) None = Some 0
     \<and> verifier_main archive_externals (sample_tools (archived separator_agent))
       (Source_path (Some (int (length odd), Some odd))) None = Some 2
     \<and> bv_verified (verify_evidence_bundle archive_externals (archived separator_agent) None)"
proof -
  let ?X = archive_externals
  have agents: "utf8_ok ''agent''" "utf8_ok separator_agent" "separator_free ''agent''" "\<not> separator_free separator_agent"
    by (simp_all add: separator_agent_def utf8_ok.simps(2) continuation_def)
  have verified: "bv_verified (verify_evidence_bundle ?X (archived a) None)" for a
    using sample_bundle_valid [of ?X "sample_spoken a"] by (simp add: verified_bundle_valid bundle_valid_def check_checkpoint_def)
  have validated: "reads_back ?X (sample_tools b) b" for b by (simp add: reads_back_def sample_tools_def same_bundle_refl)
  have reads: "float_reads (z_float (sample_tools b)) (x_float ?X)" for b using archive_float_ok by (simp add: sample_tools_def)
  have "length ''agent'' \<le> 100" "length separator_agent \<le> 100" by (simp_all add: separator_agent_def)
  then obtain plain odd where made:
    "build_evidence_bundle_archive ?X (sample_tools (archived ''agent'')) (archived ''agent'') MAX_EVIDENCE_ARCHIVE_BYTES = Inr plain"
    "build_evidence_bundle_archive ?X (sample_tools (archived separator_agent)) (archived separator_agent) MAX_EVIDENCE_ARCHIVE_BYTES = Inr odd"
    using archived_fits by blast
  note v = archive_verifies_unless_separator [OF archive_float_ok(1) reads sample_tools_faithful validated _ order_refl, of _ _ None]
  have "verifier_main ?X (sample_tools (archived ''agent'')) (Source_path (Some (int (length plain), Some plain))) None = Some 0"
    using v [OF made(1) archived_values(1,2) [OF agents(1)]] archived_values(3) [OF agents(1)] agents(3) verified by simp
  moreover have "verifier_main ?X (sample_tools (archived separator_agent)) (Source_path (Some (int (length odd), Some odd))) None = Some 2"
    using v [OF made(2) archived_values(1,2) [OF agents(2)]] archived_values(3) [OF agents(2)] agents(4) verified by simp
  ultimately show ?thesis using verified by blast
qed

section \<open>What the exports say\<close>

lemma print_members_append:
  "print_members fr (kvs @ ms) = butlast (print_members fr kvs) @ print_members fr ms"
proof (induction kvs)
  case (Cons kv kvs)
  obtain k v where "kv = (k, v)" by (cases kv)
  moreover have "print_members fr kvs \<noteq> []" by (cases kvs) auto
  ultimately show ?case using Cons by (simp add: butlast_append)
qed simp

lemma print_object_append:
  assumes "kvs \<noteq> []"
  shows "butlast (print_json fr (JObj kvs)) @ print_members fr ms = print_json fr (JObj (kvs @ ms))"
proof -
  obtain k v rest where kvs: "kvs = (k, v) # rest" using assms by (cases kvs) auto
  have "print_members fr rest \<noteq> []" by (cases rest) auto
  then show ?thesis by (simp add: kvs print_members_append butlast_append)
qed

lemma json_chunks_later:
  "concat (json_chunks X False rs) @ CHR '']'' # s = print_items (x_float X) (map (\<lambda>r. sort_json (record_json X r)) rs) @ s"
  by (induction rs) (simp_all add: canonical_json_def)

lemma json_chunks_array:
  "CHR ''['' # concat (json_chunks X True rs) @ CHR '']'' # s
     = print_json (x_float X) (JArr (map (\<lambda>r. sort_json (record_json X r)) rs)) @ s"
  by (cases rs) (simp_all add: canonical_json_def json_chunks_later)

definition export_document :: "externals \<Rightarrow> snapshot \<Rightarrow> decision_filters \<Rightarrow> verifiable list \<Rightarrow> json" where
  "export_document X s criteria records = JObj [(''criteria'', sort_json (criteria_json X criteria)),
     (''project_id'', uuid_json (sn_project s)), (''schema_version'', JInt 1), (''snapshot'', sort_json (snapshot_json X s)),
     (''records'', JArr (map (\<lambda>r. sort_json (record_json X r)) records))]"

lemma sorted_metadata:
  "sort_json (export_metadata X s criteria) = JObj [(''criteria'', sort_json (criteria_json X criteria)),
     (''project_id'', uuid_json (sn_project s)), (''schema_version'', JInt 1), (''snapshot'', sort_json (snapshot_json X s))]"
  by (simp add: export_metadata_def uuid_json_def)

lemma json_export_text:
  "concat (iter_json_export X s criteria records) = print_json (x_float X) (export_document X s criteria records)"
proof -
  let ?meta = "sort_json (export_metadata X s criteria)" and ?rs = "JArr (map (\<lambda>r. sort_json (record_json X r)) records)"
  have "concat (iter_json_export X s criteria records)
      = butlast (print_json (x_float X) ?meta) @ '','' @ print_string ''records'' @ CHR '':'' # CHR ''[''
          # concat (json_chunks X True records) @ CHR '']'' # ''}''"
    by (simp add: iter_json_export_def Let_def canonical_json_def)
  also have "\<dots> = butlast (print_json (x_float X) ?meta) @ print_members (x_float X) [(''records'', ?rs)]"
    using json_chunks_array [of X records "''}''"] by simp
  also have "\<dots> = print_json (x_float X) (export_document X s criteria records)"
    unfolding sorted_metadata export_document_def by (subst print_object_append) simp_all
  finally show ?thesis .
qed

text \<open>
  The chunks of a JSON export form one JSON document, which reads back as the schema version, the
  project, the criteria and the snapshot of the export, followed by every record in order.
\<close>

theorem json_export_reads:
  assumes "float_text_ok (x_float X)" and "float_reads rd (x_float X)"
    and "list_all (\<lambda>r. json_wf (record_json X r)) records"
  shows "json_loads rd (concat (iter_json_export X s criteria records)) =
    Some (JObj [(''criteria'', sort_json (criteria_json X criteria)), (''project_id'', JStr (uuid_text (sn_project s))),
      (''schema_version'', JInt 1), (''snapshot'', sort_json (snapshot_json X s)),
      (''records'', JArr (map (\<lambda>r. sort_json (record_json X r)) records))])"
proof -
  have "json_wf (criteria_json X criteria)" "json_wf (snapshot_json X s)"
    by (simp_all add: criteria_json_def snapshot_json_def uuid_json_def time_json_def opt_json_def split: option.split)
  then have "json_wf (export_document X s criteria records)"
    using assms(3) by (simp add: export_document_def sort_json_wf list.pred_map comp_def uuid_json_def list_all_iff)
  from loads_printed [OF assms(1,2) this] show ?thesis
    by (simp add: json_export_text export_document_def uuid_json_def)
qed

theorem json_export_reads_witness:
  "json_loads sample_reader (concat (iter_json_export archive_externals
       \<lparr>sn_project = 2, sn_captured_at = 30, sn_max_sequence = 1, sn_chain_count = 1, sn_chain_head = None, sn_record_count = 1\<rparr>
       no_filters (bn_records (archived ''agent'')))) \<noteq> None"
proof -
  have "list_all (\<lambda>r. json_wf (record_json archive_externals r)) (bn_records (archived ''agent''))"
    using archived_values(1) [of "''agent''"] by (simp add: archive_values_def portable_def list_all_iff utf8_ok.simps(2))
  from json_export_reads [OF archive_float_ok this] show ?thesis by simp
qed

text \<open>A reader of CSV as RFC 4180 describes it: what a spreadsheet makes of the text.\<close>

datatype csv_mode = Field_start | Unquoted | Quoted | Quote_seen

fun read_csv :: "csv_mode \<Rightarrow> string \<Rightarrow> string list \<Rightarrow> string \<Rightarrow> string list list" where
  "read_csv m cell row [] = (if m = Field_start \<and> row = [] then [] else [row @ [cell]])"
| "read_csv m cell row (c # s) =
     (if m = Quoted then (if c = CHR 0x22 then read_csv Quote_seen cell row s else read_csv Quoted (cell @ [c]) row s)
      else if m = Quote_seen \<and> c = CHR 0x22 then read_csv Quoted (cell @ [c]) row s
      else if c = CHR '','' then read_csv Field_start [] (row @ [cell]) s
      else if c = CHR 0x0A then (row @ [cell]) # read_csv Field_start [] [] s
      else if m = Field_start \<and> c = CHR 0x22 then read_csv Quoted [] row s
      else read_csv Unquoted (cell @ [c]) row s)"

lemma read_quoted:
  "read_csv Quoted cell row (concat (map (\<lambda>c. if c = CHR 0x22 then [c, c] else [c]) s) @ CHR 0x22 # r)
     = read_csv Quote_seen (cell @ s) row r"
  by (induction s arbitrary: cell) simp_all

lemma read_unquoted:
  "\<not> list_ex csv_special s \<Longrightarrow> read_csv Unquoted cell row (s @ r) = read_csv Unquoted (cell @ s) row r"
  by (induction s arbitrary: cell) (simp_all add: csv_special_def)

lemma read_field:
  assumes "c = CHR '','' \<or> c = CHR 0x0A"
  shows "read_csv Field_start [] row (csv_field s @ c # r)
    = (if c = CHR '','' then read_csv Field_start [] (row @ [s]) r else (row @ [s]) # read_csv Field_start [] [] r)"
proof (cases "list_ex csv_special s")
  case True
  then have "csv_field s @ c # r
      = CHR 0x22 # (concat (map (\<lambda>c. if c = CHR 0x22 then [c, c] else [c]) s) @ CHR 0x22 # (c # r))"
    by (simp add: csv_field_def)
  moreover have "read_csv Field_start [] row (CHR 0x22 # t) = read_csv Quoted [] row t" for t by simp
  ultimately have "read_csv Field_start [] row (csv_field s @ c # r) = read_csv Quote_seen s row (c # r)"
    using read_quoted [of "[]" row s "c # r"] by (simp only: append_Nil)
  with assms show ?thesis by auto
next
  case False
  show ?thesis
  proof (cases s)
    case (Cons a t)
    with False have a: "\<not> csv_special a" "\<not> list_ex csv_special t" by simp_all
    then have "read_csv Field_start [] row (a # t @ c # r) = read_csv Unquoted [a] row (t @ c # r)"
      by (simp add: csv_special_def)
    also have "\<dots> = read_csv Unquoted (a # t) row (c # r)" using read_unquoted [OF a(2)] by simp
    finally show ?thesis using assms False by (auto simp: Cons csv_field_def)
  qed (use assms in \<open>auto simp: csv_field_def\<close>)
qed

lemma read_line:
  "fs \<noteq> [] \<Longrightarrow> read_csv Field_start [] row (csv_line fs @ r) = (row @ fs) # read_csv Field_start [] [] r"
proof (induction fs arbitrary: row)
  case (Cons f fs)
  show ?case
  proof (cases fs)
    case Nil
    then show ?thesis by (simp add: csv_line_def LF_def read_field)
  next
    case (Cons g gs)
    then have "csv_line (f # fs) @ r = csv_field f @ CHR '','' # (csv_line fs @ r)" by (simp add: csv_line_def)
    then show ?thesis using Cons.IH [of "row @ [f]"] Cons by (simp add: read_field)
  qed
qed simp

lemma csv_row_columns: "map fst (csv_row X r) = CSV_COLUMNS"
  by (simp add: csv_row_def Let_def CSV_COLUMNS_def)

lemma map_of_columns:
  assumes "distinct (map fst kvs)"
  shows "map (\<lambda>k. the (map_of kvs k)) (map fst kvs) = map snd kvs"
proof -
  have "the (map_of kvs (fst kv)) = snd kv" if "kv \<in> set kvs" for kv
    using map_of_is_SomeI [OF assms, of "fst kv" "snd kv"] that by simp
  then show ?thesis by simp
qed

definition formula_free :: "json \<Rightarrow> bool" where
  "formula_free v \<longleftrightarrow> (case v of JStr s \<Rightarrow> s = [] \<or> hd s \<notin> set CSV_FORMULA_PREFIXES \<and> space_length s = 0 | _ \<Rightarrow> True)"

lemma safe_value: "formula_free (spreadsheet_safe_csv_value v)"
  by (cases v) (auto simp: formula_free_def CSV_FORMULA_PREFIXES_def space_length_def split: list.split)

text \<open>
  C27: A spreadsheet that opens the CSV export finds the columns and one row per record, with exactly
  the values of the row, and no cell it could take for a formula: every text cell is empty or starts
  with a character that is neither a formula prefix nor white space, with an apostrophe put
  before the texts that did.
\<close>

theorem csv_export_reads:
  "read_csv Field_start [] [] (concat (iter_csv_export X records))
     = CSV_COLUMNS # map (\<lambda>r. map (\<lambda>(column, v). cell_text v) (csv_row X r)) records
   \<and> list_all (\<lambda>r. map fst (csv_row X r) = CSV_COLUMNS \<and> list_all (\<lambda>(column, v). formula_free v) (csv_row X r)) records"
proof
  let ?cells = "\<lambda>r. map (\<lambda>column. cell_text (the (map_of (csv_row X r) column))) CSV_COLUMNS"
  have distinct: "distinct CSV_COLUMNS" by (simp add: CSV_COLUMNS_def)
  have cells: "?cells r = map (\<lambda>(column, v). cell_text v) (csv_row X r)" for r
  proof -
    have "map (\<lambda>column. the (map_of (csv_row X r) column)) CSV_COLUMNS = map snd (csv_row X r)"
      using map_of_columns [of "csv_row X r"] distinct by (simp add: csv_row_columns)
    then have "map cell_text (map (\<lambda>column. the (map_of (csv_row X r) column)) CSV_COLUMNS) = map cell_text (map snd (csv_row X r))"
      by simp
    then show ?thesis by (simp add: comp_def split_beta)
  qed
  have "read_csv Field_start [] [] (concat (map (\<lambda>r. csv_line (?cells r)) records)) = map ?cells records"
    by (induction records) (simp_all add: read_line CSV_COLUMNS_def)
  moreover have "CSV_COLUMNS \<noteq> []" by (simp add: CSV_COLUMNS_def)
  ultimately show "read_csv Field_start [] [] (concat (iter_csv_export X records))
     = CSV_COLUMNS # map (\<lambda>r. map (\<lambda>(column, v). cell_text v) (csv_row X r)) records"
    by (simp add: iter_csv_export_def read_line cells)
  have "list_all (\<lambda>(column, v). formula_free v) (map (\<lambda>(column, v). (column, spreadsheet_safe_csv_value v)) vs)"
    for vs :: "(string \<times> json) list"
    by (induction vs) (auto simp: safe_value)
  then have "list_all (\<lambda>(column, v). formula_free v) (csv_row X r)" for r unfolding csv_row_def Let_def .
  then show "list_all (\<lambda>r. map fst (csv_row X r) = CSV_COLUMNS \<and> list_all (\<lambda>(column, v). formula_free v) (csv_row X r)) records"
    by (simp add: csv_row_columns list_all_iff)
qed

end
