(* ===== verification/Services.thy ===== *)
theory Services
  imports Webhook_Transport Request_Limits Evidence_Archive
begin

text \<open>
  The services around the store that the endpoints call: the policy services
  (\<open>app/services/policies.py\<close>), authentication and the configured secrets (\<open>app/security.py\<close>,
  \<open>app/dependencies.py\<close>), the searches of the audit trail (\<open>app/storage/audit.py\<close>) and the bootstrap
  of the default project (\<open>app/bootstrap.py\<close>). A request authenticates and then works on the database
  in one uninterrupted sequence of steps here; the revocation between the two looks of an
  authentication is the subject of \<open>Api_Keys\<close>.
\<close>

section \<open>Policy services\<close>

definition get_project_policy_or_404 :: "uuid \<Rightarrow> string \<Rightarrow> policy_configuration operation" where
  "get_project_policy_or_404 pid i = andThen (reading (get_configuration pid i)) (\<lambda>configuration.
     case configuration of
       None \<Rightarrow> raising (http_error 404 ''policy_not_found'' [])
     | Some c \<Rightarrow> returning c)"

fun policy_service_error :: "exn \<Rightarrow> exn" where
  "policy_service_error (PolicyVersionNotFound i n) =
     http_error 404 ''policy_version_not_found'' [(''policy_id'', JStr i), (''version'', JInt n)]"
| "policy_service_error (PolicyVersionAlreadyCurrent i n) =
     http_error 409 ''policy_version_already_current'' [(''policy_id'', JStr i), (''version'', JInt n)]"
| "policy_service_error (PolicyVersionConflict i expected provided) =
     http_error 409 ''policy_version_conflict'' [(''expected_version'', JInt expected), (''provided_version'', JInt provided)]"
| "policy_service_error e = e"

fun policy_conflict_error :: "exn \<Rightarrow> exn" where
  "policy_conflict_error (PolicyVersionConflict i expected provided) =
     http_error 409 ''policy_version_conflict'' [(''expected_version'', JInt expected), (''provided_version'', JInt provided)]"
| "policy_conflict_error e = e"

definition configure_policy :: "externals \<Rightarrow> uuid \<Rightarrow> string \<Rightarrow> policy \<Rightarrow> audit_context \<Rightarrow> instant \<Rightarrow> policy_configuration operation" where
  "configure_policy X pid i p ctx now =
     andThen (get_project_or_404 pid) (\<lambda>_.
       if p_id p \<noteq> i
       then raising (http_error 422 ''policy_id_mismatch'' [(''path_policy_id'', JStr i), (''body_policy_id'', JStr (p_id p))])
       else catching (save_project_policy X pid p now (Some ctx)) (\<lambda>e. raising (policy_conflict_error e)))"

definition get_project_policy_version_or_404 :: "uuid \<Rightarrow> string \<Rightarrow> int \<Rightarrow> policy_version operation" where
  "get_project_policy_version_or_404 pid i n =
     andThen (get_project_or_404 pid) (\<lambda>_.
     andThen (get_project_policy_or_404 pid i) (\<lambda>_.
     andThen (reading (get_version pid i n)) (\<lambda>v. case v of
         None \<Rightarrow> raising (http_error 404 ''policy_version_not_found'' [(''policy_id'', JStr i), (''version'', JInt n)])
       | Some v \<Rightarrow> returning v)))"

definition rollback_policy :: "externals \<Rightarrow> uuid \<Rightarrow> string \<Rightarrow> int \<Rightarrow> audit_context \<Rightarrow> instant \<Rightarrow> policy_configuration operation" where
  "rollback_policy X pid i source ctx now =
     andThen (get_project_or_404 pid) (\<lambda>_.
     andThen (get_project_policy_or_404 pid i) (\<lambda>_.
       catching (rollback_project_policy X pid i source now (Some ctx)) (\<lambda>e. raising (policy_service_error e))))"

definition disable_policy :: "externals \<Rightarrow> uuid \<Rightarrow> string \<Rightarrow> audit_context \<Rightarrow> instant \<Rightarrow> policy_configuration operation" where
  "disable_policy X pid i ctx now =
     andThen (get_project_or_404 pid) (\<lambda>_.
     andThen (disable_project_policy X pid i now (Some ctx)) (\<lambda>configuration. case configuration of
         None \<Rightarrow> raising (http_error 404 ''policy_not_found'' [])
       | Some c \<Rightarrow> returning c))"

section \<open>Configured secrets\<close>

definition configured :: "environment \<Rightarrow> string \<Rightarrow> exn + string" where
  "configured env name = (case env name of
     Some (c # cs) \<Rightarrow> Inr (c # cs)
   | _ \<Rightarrow> Inl (RuntimeError name))"

definition get_configured_api_key :: "environment \<Rightarrow> exn + string" where
  "get_configured_api_key env = bindE (configured env ''DECAUSTRUM_API_KEY'') (\<lambda>api_key.
     case get_api_key_prefix api_key of
       Inl _ \<Rightarrow> Inl (RuntimeError ''DECAUSTRUM_API_KEY'')
     | Inr _ \<Rightarrow> Inr api_key)"

definition get_configured_admin_api_key :: "environment \<Rightarrow> exn + string" where
  "get_configured_admin_api_key env = configured env ''DECAUSTRUM_ADMIN_API_KEY''"

definition get_configured_webhook_master_secret :: "environment \<Rightarrow> exn + string" where
  "get_configured_webhook_master_secret env =
     bindE (configured env ''DECAUSTRUM_WEBHOOK_MASTER_SECRET'') (\<lambda>secret.
     bindE (validate_webhook_master_secret secret (env ''DECAUSTRUM_API_KEY'') (env ''DECAUSTRUM_ADMIN_API_KEY'')
       (env ''DECAUSTRUM_EXECUTION_GRANT_SECRET'')) (\<lambda>_. Inr secret))"

definition get_configured_execution_grant_secret :: "environment \<Rightarrow> exn + string" where
  "get_configured_execution_grant_secret env =
     bindE (configured env ''DECAUSTRUM_EXECUTION_GRANT_SECRET'') (\<lambda>secret.
       if length secret < 32 then Inl (RuntimeError ''DECAUSTRUM_EXECUTION_GRANT_SECRET'') else Inr secret)"

section \<open>Authentication\<close>

definition authenticate_admin :: "string option \<Rightarrow> string \<Rightarrow> exn + unit" where
  "authenticate_admin provided_api_key configured_api_key = (case provided_api_key of
     Some (c # cs) \<Rightarrow> bindE (compare_digest_str (c # cs) configured_api_key) (\<lambda>same.
       if same then Inr () else Inl (http_error 401 ''invalid_admin_api_key'' []))
   | _ \<Rightarrow> Inl (http_error 401 ''invalid_admin_api_key'' []))"

definition authenticate_project_api_key :: "externals \<Rightarrow> string option \<Rightarrow> principal operation" where
  "authenticate_project_api_key X provided_api_key = reading (\<lambda>d. case provided_api_key of
     Some (c # cs) \<Rightarrow> (case get_active_principal_by_api_key X (c # cs) d d of
         None \<Rightarrow> Inl (http_error 401 ''invalid_api_key'' [])
       | Some p \<Rightarrow> Inr p)
   | _ \<Rightarrow> Inl (http_error 401 ''invalid_api_key'' []))"

definition require_project_api_key_role :: "principal \<Rightarrow> api_key_role list \<Rightarrow> exn + unit" where
  "require_project_api_key_role p allowed_roles =
     (if pl_role p \<in> set allowed_roles then Inr () else Inl (http_error 403 ''insufficient_api_key_role'' []))"

definition get_authenticated_project :: "externals \<Rightarrow> string option \<Rightarrow> project operation" where
  "get_authenticated_project X key = andThen (authenticate_project_api_key X key) (\<lambda>p. returning (pl_project p))"

definition get_runtime_project :: "externals \<Rightarrow> string option \<Rightarrow> project operation" where
  "get_runtime_project X key = andThen (authenticate_project_api_key X key) (\<lambda>p.
     andThen (reading (\<lambda>_. require_project_api_key_role p [RUNTIME])) (\<lambda>_. returning (pl_project p)))"

definition get_reviewer_principal :: "externals \<Rightarrow> string option \<Rightarrow> principal operation" where
  "get_reviewer_principal X key = andThen (authenticate_project_api_key X key) (\<lambda>p.
     andThen (reading (\<lambda>_. require_project_api_key_role p [REVIEWER])) (\<lambda>_. returning p))"

definition require_admin_access :: "environment \<Rightarrow> string option \<Rightarrow> string option \<Rightarrow> string option \<Rightarrow> audit_context operation" where
  "require_admin_access env provided_api_key admin_actor audit_reason = reading (\<lambda>_.
     bindE (get_configured_admin_api_key env) (\<lambda>configured_api_key.
     bindE (authenticate_admin provided_api_key configured_api_key) (\<lambda>_.
       Inr \<lparr>ac_type = ADMIN, ac_actor = (case admin_actor of Some (c # cs) \<Rightarrow> c # cs | _ \<Rightarrow> ''admin-api-key''),
            ac_reason = audit_reason\<rparr>)))"

section \<open>Searching the audit trail\<close>

record audit_filters =
  af_project :: "uuid option"
  af_action :: "audit_action option"
  af_resource_type :: "resource_type option"
  af_resource :: "string option"
  af_actor_type :: "actor_type option"
  af_actor :: "string option"
  af_after :: "instant option"
  af_before :: "instant option"

definition audit_where :: "audit_filters \<Rightarrow> audit_event \<Rightarrow> bool" where
  "audit_where f e \<longleftrightarrow>
     (case af_project f of None \<Rightarrow> True | Some v \<Rightarrow> ae_project e = v)
     \<and> (case af_action f of None \<Rightarrow> True | Some v \<Rightarrow> ae_action e = v)
     \<and> (case af_resource_type f of None \<Rightarrow> True | Some v \<Rightarrow> ae_resource_type e = v)
     \<and> (case af_resource f of None \<Rightarrow> True | Some v \<Rightarrow> ae_resource e = v)
     \<and> (case af_actor_type f of None \<Rightarrow> True | Some v \<Rightarrow> ae_actor_type e = v)
     \<and> (case af_actor f of None \<Rightarrow> True | Some v \<Rightarrow> ae_actor e = v)
     \<and> (case af_after f of None \<Rightarrow> True | Some v \<Rightarrow> v \<le> ae_occurred_at e)
     \<and> (case af_before f of None \<Rightarrow> True | Some v \<Rightarrow> ae_occurred_at e \<le> v)"

definition get_audit_event :: "uuid \<Rightarrow> db \<Rightarrow> audit_event option" where
  "get_audit_event eid d = find_row (\<lambda>e. ae_id e = eid) (t_audit d)"

definition list_audit_events :: "audit_filters \<Rightarrow> nat \<Rightarrow> nat \<Rightarrow> db \<Rightarrow> audit_event list" where
  "list_audit_events f limit offset d =
     page limit offset (sort_desc (\<lambda>e. (ae_occurred_at e, ae_id e)) (filter (audit_where f) (t_audit d)))"

definition count_audit_events :: "audit_filters \<Rightarrow> db \<Rightarrow> nat" where
  "count_audit_events f d = row_count (audit_where f) (t_audit d)"

section \<open>The default project\<close>

definition DEFAULT_PROJECT_NAME :: string where
  "DEFAULT_PROJECT_NAME = ''Default Project''"

definition SYSTEM_BOOTSTRAP_AUDIT_CONTEXT :: audit_context where
  "SYSTEM_BOOTSTRAP_AUDIT_CONTEXT = \<lparr>ac_type = SYSTEM, ac_actor = ''decaustrum-bootstrap'',
     ac_reason = Some ''DecAustrum system bootstrap.''\<rparr>"

definition bootstrap_default_project :: "externals \<Rightarrow> string \<Rightarrow> instant \<Rightarrow> string \<Rightarrow> project operation" where
  "bootstrap_default_project X api_key timestamp salt =
     (case get_api_key_prefix api_key of
        Inl e \<Rightarrow> raising e
      | Inr key_prefix \<Rightarrow>
          andThen (reading (\<lambda>d. Inr (get_active_project_by_api_key X api_key d d))) (\<lambda>authenticated_project.
          case authenticated_project of
            Some p \<Rightarrow> returning p
          | None \<Rightarrow>
              andThen (reading (\<lambda>d. Inr (get_project DEFAULT_PROJECT_ID d))) (\<lambda>project.
              andThen new_uuid (\<lambda>kid.
              case new_key_record X kid DEFAULT_PROJECT_ID RUNTIME timestamp api_key salt of
                Inl e \<Rightarrow> raising e
              | Inr record_ \<Rightarrow>
                  (case project of
                     None \<Rightarrow>
                       let project = \<lparr>pr_id = DEFAULT_PROJECT_ID, pr_name = DEFAULT_PROJECT_NAME, pr_status = Project_ACTIVE,
                         pr_created_at = timestamp, pr_updated_at = timestamp\<rparr>
                       in andThen (save_project_with_api_key X project record_ [] (Some SYSTEM_BOOTSTRAP_AUDIT_CONTEXT))
                            (\<lambda>_. returning project)
                   | Some p \<Rightarrow>
                       if pr_status p \<noteq> Project_ACTIVE then raising (RuntimeError ''Default project is disabled.'')
                       else andThen (save_project_api_key X record_ (Some SYSTEM_BOOTSTRAP_AUDIT_CONTEXT)) (\<lambda>_. returning p))))))"

text \<open>
  \<open>load_policies\<close>: the policies of the YAML files in the order of their names, each read and
  validated by \<open>load_policy\<close>, a parameter.
\<close>

fun load_policies_from :: "(string \<Rightarrow> exn + policy) \<Rightarrow> string list \<Rightarrow> string list \<Rightarrow> policy list \<Rightarrow> exn + policy list" where
  "load_policies_from load_policy [] seen_policy_ids policies = Inr policies"
| "load_policies_from load_policy (path # paths) seen_policy_ids policies =
     bindE (load_policy path) (\<lambda>policy.
       if p_id policy \<in> set seen_policy_ids then Inl (DuplicatePolicyId (p_id policy))
       else load_policies_from load_policy paths (p_id policy # seen_policy_ids) (policies @ [policy]))"

definition load_policies :: "(string \<Rightarrow> exn + policy) \<Rightarrow> string list \<Rightarrow> exn + policy list" where
  "load_policies load_policy yaml_files = load_policies_from load_policy (sort yaml_files) [] []"

lemma load_policies_from_distinct:
  assumes "load_policies_from load_policy paths seen policies = Inr result"
    and "set seen = p_id ` set policies" and "distinct (map p_id policies)"
  shows "distinct (map p_id result) \<and> length result = length policies + length paths"
  using assms
proof (induction paths arbitrary: seen policies)
  case (Cons path paths)
  from Cons.prems(1) obtain p where new: "p_id p \<notin> set seen"
    and rest: "load_policies_from load_policy paths (p_id p # seen) (policies @ [p]) = Inr result"
    by (auto simp: bindE_Inr_iff split: if_splits)
  have "set (p_id p # seen) = p_id ` set (policies @ [p])" "distinct (map p_id (policies @ [p]))"
    using Cons.prems(2,3) new by auto
  from Cons.IH [OF rest this] show ?case by simp
qed simp

lemma load_policies_distinct:
  "load_policies load_policy files = Inr result \<Longrightarrow> distinct (map p_id result) \<and> length result = length files"
  using load_policies_from_distinct [of load_policy "sort files" "[]" "[]" result] by (simp add: load_policies_def)

end
