(* ===== verification/Api.thy ===== *)
theory Api
  imports Services
begin

text \<open>
  The HTTP interface: the endpoints of \<open>app/routers\<close> on validated requests, each with its
  dependencies in the order FastAPI resolves them, and the start of the application in
  \<open>app/main.py\<close>. What a request brings is an argument, what the endpoint reads while it runs (clocks,
  random texts) is the record \<open>draws\<close>; a fresh UUID comes from the database as everywhere.
\<close>

section \<open>Requests\<close>

text \<open>The two credentials of a request and what an administrator says of it.\<close>

record credentials =
  cd_api_key :: "string option"
  cd_admin_api_key :: "string option"
  cd_admin_actor :: "string option"
  cd_audit_reason :: "string option"

record draws =
  dr_now :: instant
  dr_later :: instant
  dr_latest :: instant
  dr_selector :: string
  dr_secret :: string
  dr_salt :: string

text \<open>What the deployment fixes: the environment, the settings, the parameters of the services.\<close>

record deployment =
  dp_externals :: externals
  dp_environment :: environment
  dp_settings :: runtime_settings
  dp_archive :: archive_tools
  dp_transport :: transport
  dp_templates :: "exn + policy list"

record 'a paged =
  pa_items :: "'a list"
  pa_total :: nat
  pa_limit :: nat
  pa_offset :: nat

definition admin_access :: "deployment \<Rightarrow> credentials \<Rightarrow> audit_context operation" where
  "admin_access D c = require_admin_access (dp_environment D) (cd_admin_api_key c) (cd_admin_actor c) (cd_audit_reason c)"

definition from_config :: "exn + 'a \<Rightarrow> 'a operation" where
  "from_config r = reading (\<lambda>_. r)"

definition paged_operation :: "'a list operation \<Rightarrow> nat operation \<Rightarrow> nat \<Rightarrow> nat \<Rightarrow> 'a paged operation" where
  "paged_operation items amount limit offset =
     andThen items (\<lambda>xs. andThen amount (\<lambda>n.
       returning \<lparr>pa_items = xs, pa_total = n, pa_limit = limit, pa_offset = offset\<rparr>))"

section \<open>Authorization and execution grants\<close>

definition authorize_endpoint :: "deployment \<Rightarrow> credentials \<Rightarrow> draws \<Rightarrow> authorization_request \<Rightarrow> string option
    \<Rightarrow> (authorization \<times> metrics_event) operation" where
  "authorize_endpoint D c w request idempotency_key =
     andThen (get_runtime_project (dp_externals D) (cd_api_key c)) (\<lambda>project.
     andThen (authorize_request (dp_externals D) request idempotency_key project (dr_now w)
         (rs_approval_ttl_seconds (dp_settings D))) (\<lambda>authorization.
       returning (authorization, Authorization_decision (decision_text (au_decision authorization)))))"

definition consume_execution_grant_endpoint :: "deployment \<Rightarrow> credentials \<Rightarrow> draws \<Rightarrow> string \<Rightarrow> authorization_request \<Rightarrow> string
    \<Rightarrow> consumption_response operation" where
  "consume_execution_grant_endpoint D c w token request consumer =
     andThen (get_runtime_project (dp_externals D) (cd_api_key c)) (\<lambda>project.
     andThen (from_config (get_configured_execution_grant_secret (dp_environment D))) (\<lambda>secret.
       consume_execution_grant_request (dp_externals D) token request consumer project secret (dr_now w)))"

section \<open>Approvals\<close>

definition list_approval_requests :: "deployment \<Rightarrow> credentials \<Rightarrow> draws \<Rightarrow> approval_status option \<Rightarrow> nat \<Rightarrow> nat \<Rightarrow> approval paged operation" where
  "list_approval_requests D c w status limit offset =
     andThen (get_authenticated_project (dp_externals D) (cd_api_key c)) (\<lambda>project.
       paged_operation (list_approvals (dp_externals D) (dr_now w) (pr_id project) status limit offset)
         (count_approvals (dp_externals D) (dr_later w) (pr_id project) status) limit offset)"

definition get_approval_request :: "deployment \<Rightarrow> credentials \<Rightarrow> draws \<Rightarrow> uuid \<Rightarrow> approval operation" where
  "get_approval_request D c w did =
     andThen (get_authenticated_project (dp_externals D) (cd_api_key c)) (\<lambda>project.
     andThen (get_approval (dp_externals D) (dr_now w) did (pr_id project)) (\<lambda>approval. case approval of
         None \<Rightarrow> raising (http_error 404 ''approval_not_found'' [])
       | Some a \<Rightarrow> returning a))"

definition resolver_of :: "principal \<Rightarrow> string" where
  "resolver_of p = ''reviewer-key:'' @ uuid_text (pl_key p)"

definition approve_request :: "deployment \<Rightarrow> credentials \<Rightarrow> draws \<Rightarrow> uuid \<Rightarrow> string option \<Rightarrow> grant_response operation" where
  "approve_request D c w did reason =
     andThen (get_reviewer_principal (dp_externals D) (cd_api_key c)) (\<lambda>principal.
     andThen (from_config (get_configured_execution_grant_secret (dp_environment D))) (\<lambda>secret.
       approve_approval_request (dp_externals D) did reason (resolver_of principal) (pr_id (pl_project principal)) secret
         (rs_execution_grant_ttl_seconds (dp_settings D)) (dr_now w) (dr_later w) (dr_latest w)))"

definition reject_request :: "deployment \<Rightarrow> credentials \<Rightarrow> draws \<Rightarrow> uuid \<Rightarrow> string option \<Rightarrow> approval operation" where
  "reject_request D c w did reason =
     andThen (get_reviewer_principal (dp_externals D) (cd_api_key c)) (\<lambda>principal.
       resolve_approval_request (dp_externals D) did reason (resolver_of principal) Approval_REJECTED
         (pr_id (pl_project principal)) (dr_now w))"

section \<open>Search filters\<close>

text \<open>
  The query parameters of a search, after FastAPI has read each of them; a time comes with whether it has a
  time zone. The constraints of the model strip a text and want 1 to 200 characters.
\<close>

definition exact_search_value :: "externals \<Rightarrow> string option \<Rightarrow> exn + string option" where
  "exact_search_value X v = (case v of
     None \<Rightarrow> Inr None
   | Some s \<Rightarrow> let t = x_strip X s in
       if 1 \<le> text_length t \<and> text_length t \<le> 200 then Inr (Some t) else Inl ValidationError)"

definition aware_time :: "(instant \<times> bool) option \<Rightarrow> exn + instant option" where
  "aware_time v = (case v of
     None \<Rightarrow> Inr None
   | Some (t, aware) \<Rightarrow> if aware then Inr (Some t) else Inl ValidationError)"

definition filter_combination_ok :: "decision_filters \<Rightarrow> bool" where
  "filter_combination_ok f \<longleftrightarrow> \<not> (fl_policy f \<noteq> None \<and> fl_has_policy f = Some False)
     \<and> (case (fl_after f, fl_before f) of (Some a, Some b) \<Rightarrow> a \<le> b | _ \<Rightarrow> True)"

definition get_decision_search_filters ::
  "externals \<Rightarrow> decision option \<Rightarrow> string option \<Rightarrow> string option \<Rightarrow> string option \<Rightarrow> bool option \<Rightarrow> approval_filter option
    \<Rightarrow> (instant \<times> bool) option \<Rightarrow> (instant \<times> bool) option \<Rightarrow> string option \<Rightarrow> bool \<Rightarrow> exn + decision_filters" where
  "get_decision_search_filters X decision agent action policy has_policy approval after before query ascending =
     catchE (bindE (exact_search_value X agent) (\<lambda>agent.
       bindE (exact_search_value X action) (\<lambda>action.
       bindE (exact_search_value X policy) (\<lambda>policy.
       bindE (aware_time after) (\<lambda>after.
       bindE (aware_time before) (\<lambda>before.
       bindE (exact_search_value X query) (\<lambda>query.
       let f = \<lparr>fl_decision = decision, fl_agent = agent, fl_action = action, fl_policy = policy,
                fl_has_policy = has_policy, fl_approval = approval, fl_after = after, fl_before = before,
                fl_query = query, fl_ascending = ascending\<rparr>
       in if filter_combination_ok f then Inr f else Inl ValidationError))))))
     ) (\<lambda>_. http_error 422 ''invalid_decision_search_filters'' [])"

section \<open>Decisions, policies, integrity and evidence\<close>

definition decisions_page :: "deployment \<Rightarrow> draws \<Rightarrow> uuid \<Rightarrow> decision_filters \<Rightarrow> nat \<Rightarrow> nat \<Rightarrow> authorization paged operation" where
  "decisions_page D w pid f limit offset =
     paged_operation (search_decisions (dp_externals D) pid (dr_now w) f limit offset)
       (count_searched_decisions (dp_externals D) pid (dr_later w) f) limit offset"

definition list_authorization_decisions ::
  "deployment \<Rightarrow> credentials \<Rightarrow> draws \<Rightarrow> decision_filters \<Rightarrow> nat \<Rightarrow> nat \<Rightarrow> authorization paged operation" where
  "list_authorization_decisions D c w f limit offset =
     andThen (get_authenticated_project (dp_externals D) (cd_api_key c)) (\<lambda>project.
       decisions_page D w (pr_id project) f limit offset)"

definition list_managed_project_authorization_decisions ::
  "deployment \<Rightarrow> credentials \<Rightarrow> draws \<Rightarrow> uuid \<Rightarrow> decision_filters \<Rightarrow> nat \<Rightarrow> nat \<Rightarrow> authorization paged operation" where
  "list_managed_project_authorization_decisions D c w pid f limit offset =
     andThen (admin_access D c) (\<lambda>_. andThen (get_project_or_404 pid) (\<lambda>_. decisions_page D w pid f limit offset))"

definition get_authorization_decision :: "deployment \<Rightarrow> credentials \<Rightarrow> uuid \<Rightarrow> authorization operation" where
  "get_authorization_decision D c did =
     andThen (get_authenticated_project (dp_externals D) (cd_api_key c)) (\<lambda>project.
       reading (\<lambda>d. case decisions_get did (pr_id project) d of
           None \<Rightarrow> Inl (http_error 404 ''decision_not_found'' [])
         | Some a \<Rightarrow> Inr a))"

definition list_active_policies :: "deployment \<Rightarrow> credentials \<Rightarrow> policy list operation" where
  "list_active_policies D c =
     andThen (get_authenticated_project (dp_externals D) (cd_api_key c)) (\<lambda>project. reading (list_active (pr_id project)))"

definition get_active_policy :: "deployment \<Rightarrow> credentials \<Rightarrow> string \<Rightarrow> policy operation" where
  "get_active_policy D c i =
     andThen (get_authenticated_project (dp_externals D) (cd_api_key c)) (\<lambda>project.
     andThen (reading (get_active (pr_id project) i)) (\<lambda>p. case p of
         None \<Rightarrow> raising (http_error 404 ''policy_not_found'' [])
       | Some p \<Rightarrow> returning p))"

definition list_decision_integrity_records :: "deployment \<Rightarrow> credentials \<Rightarrow> nat \<Rightarrow> nat \<Rightarrow> integrity_proof paged operation" where
  "list_decision_integrity_records D c limit offset =
     andThen (get_authenticated_project (dp_externals D) (cd_api_key c)) (\<lambda>project.
       paged_operation (reading (\<lambda>d. Inr (ledger_list (pr_id project) limit offset d)))
         (reading (\<lambda>d. Inr (ledger_count (pr_id project) d))) limit offset)"

definition verify_authenticated_project_integrity :: "deployment \<Rightarrow> credentials \<Rightarrow> string option \<Rightarrow> verification operation" where
  "verify_authenticated_project_integrity D c expected_head =
     andThen (get_authenticated_project (dp_externals D) (cd_api_key c)) (\<lambda>project.
       reading (\<lambda>d. Inr (ledger_verify (dp_externals D) (pr_id project) expected_head d)))"

definition get_decision_integrity :: "deployment \<Rightarrow> credentials \<Rightarrow> uuid \<Rightarrow> integrity_proof operation" where
  "get_decision_integrity D c did =
     andThen (get_authenticated_project (dp_externals D) (cd_api_key c)) (\<lambda>project.
       get_decision_integrity_or_404 did (pr_id project))"

definition get_verifiable_decision :: "deployment \<Rightarrow> credentials \<Rightarrow> uuid \<Rightarrow> verifiable operation" where
  "get_verifiable_decision D c did =
     andThen (get_authenticated_project (dp_externals D) (cd_api_key c)) (\<lambda>project.
       get_verifiable_decision_or_404 did (pr_id project))"

definition verify_managed_project_integrity :: "deployment \<Rightarrow> credentials \<Rightarrow> uuid \<Rightarrow> string option \<Rightarrow> verification operation" where
  "verify_managed_project_integrity D c pid expected_head =
     andThen (admin_access D c) (\<lambda>_. andThen (get_project_or_404 pid) (\<lambda>_.
       reading (\<lambda>d. Inr (ledger_verify (dp_externals D) pid expected_head d))))"

datatype export_format = Export_json | Export_ndjson | Export_csv

fun extension :: "export_format \<Rightarrow> string" where
  "extension Export_json = ''json''"
| "extension Export_ndjson = ''ndjson''"
| "extension Export_csv = ''csv''"

text \<open>A response with its media type, headers and the chunks of its body.\<close>

type_synonym file_response = "string \<times> (string \<times> string) list \<times> string list"

definition export_response ::
  "deployment \<Rightarrow> draws \<Rightarrow> uuid \<Rightarrow> decision_filters \<Rightarrow> export_format \<Rightarrow> string option \<Rightarrow> file_response operation" where
  "export_response D w pid f format expected_head =
     andThen (prepare_evidence_export (dp_externals D) pid f expected_head False (dr_now w)) (\<lambda>prepared.
     let (media_type, body) = (case format of
           Export_json \<Rightarrow> (''application/json'', iter_json_export (dp_externals D) (pe_snapshot prepared) f (pe_records prepared))
         | Export_ndjson \<Rightarrow> (''application/x-ndjson'', iter_ndjson_export (dp_externals D) (pe_records prepared))
         | Export_csv \<Rightarrow> (''text/csv'', iter_csv_export (dp_externals D) (pe_records prepared)));
         disposition = ''attachment; filename='' @ [CHR 0x22] @ ''decaustrum-evidence-'' @ uuid_text pid @ ''.''
           @ extension format @ [CHR 0x22]
     in returning (media_type, evidence_response_headers (pe_snapshot prepared) @ [(''Content-Disposition'', disposition)], body))"

definition bundle_response :: "deployment \<Rightarrow> draws \<Rightarrow> uuid \<Rightarrow> decision_filters \<Rightarrow> string option \<Rightarrow> file_response operation" where
  "bundle_response D w pid f expected_head =
     andThen (prepare_evidence_export (dp_externals D) pid f expected_head True (dr_now w)) (\<lambda>prepared.
     andThen (create_evidence_bundle_archive (dp_externals D) (dp_archive D) prepared expected_head (dr_later w)) (\<lambda>(b, archive).
     let export_id = uuid_text (mf_export (bn_manifest b)) in
       returning (''application/zip'', evidence_response_headers (pe_snapshot prepared)
         @ [(''Content-Disposition'', ''attachment; filename='' @ [CHR 0x22] @ ''decaustrum-evidence-bundle-'' @ export_id
              @ ''.zip'' @ [CHR 0x22]),
            (''X-DecAustrum-Export-ID'', export_id), (''X-DecAustrum-Bundle-SHA256'', mf_bundle_sha256 (bn_manifest b))],
         [archive])))"

definition export_authenticated_project_evidence ::
  "deployment \<Rightarrow> credentials \<Rightarrow> draws \<Rightarrow> decision_filters \<Rightarrow> export_format \<Rightarrow> string option \<Rightarrow> file_response operation" where
  "export_authenticated_project_evidence D c w f format expected_head =
     andThen (get_authenticated_project (dp_externals D) (cd_api_key c)) (\<lambda>project.
       export_response D w (pr_id project) f format expected_head)"

definition bundle_authenticated_project_evidence ::
  "deployment \<Rightarrow> credentials \<Rightarrow> draws \<Rightarrow> decision_filters \<Rightarrow> string option \<Rightarrow> file_response operation" where
  "bundle_authenticated_project_evidence D c w f expected_head =
     andThen (get_authenticated_project (dp_externals D) (cd_api_key c)) (\<lambda>project.
       bundle_response D w (pr_id project) f expected_head)"

definition export_managed_project_evidence ::
  "deployment \<Rightarrow> credentials \<Rightarrow> draws \<Rightarrow> uuid \<Rightarrow> decision_filters \<Rightarrow> export_format \<Rightarrow> string option \<Rightarrow> file_response operation" where
  "export_managed_project_evidence D c w pid f format expected_head =
     andThen (admin_access D c) (\<lambda>_. andThen (get_project_or_404 pid) (\<lambda>_. export_response D w pid f format expected_head))"

definition bundle_managed_project_evidence ::
  "deployment \<Rightarrow> credentials \<Rightarrow> draws \<Rightarrow> uuid \<Rightarrow> decision_filters \<Rightarrow> string option \<Rightarrow> file_response operation" where
  "bundle_managed_project_evidence D c w pid f expected_head =
     andThen (admin_access D c) (\<lambda>_. andThen (get_project_or_404 pid) (\<lambda>_. bundle_response D w pid f expected_head))"

section \<open>Administration: projects\<close>

definition list_projects_endpoint :: "deployment \<Rightarrow> credentials \<Rightarrow> project_status option \<Rightarrow> nat \<Rightarrow> nat \<Rightarrow> project paged operation" where
  "list_projects_endpoint D c status limit offset =
     andThen (admin_access D c) (\<lambda>_.
       paged_operation (reading (\<lambda>d. Inr (list_projects status limit offset d)))
         (reading (\<lambda>d. Inr (count_projects status d))) limit offset)"

definition provision_project :: "deployment \<Rightarrow> credentials \<Rightarrow> draws \<Rightarrow> string \<Rightarrow> (project \<times> string) operation" where
  "provision_project D c w name =
     andThen (admin_access D c) (\<lambda>ctx. andThen (from_config (dp_templates D)) (\<lambda>templates.
       create_project (dp_externals D) name templates ctx (dr_now w) (dr_selector w) (dr_secret w) (dr_salt w)))"

definition get_project_endpoint :: "deployment \<Rightarrow> credentials \<Rightarrow> uuid \<Rightarrow> project operation" where
  "get_project_endpoint D c pid = andThen (admin_access D c) (\<lambda>_. get_project_or_404 pid)"

definition update_project_status_endpoint :: "deployment \<Rightarrow> credentials \<Rightarrow> draws \<Rightarrow> uuid \<Rightarrow> project_status \<Rightarrow> project operation" where
  "update_project_status_endpoint D c w pid status =
     andThen (admin_access D c) (\<lambda>ctx. change_project_status (dp_externals D) pid status ctx (dr_now w))"

definition provision_project_api_key ::
  "deployment \<Rightarrow> credentials \<Rightarrow> draws \<Rightarrow> uuid \<Rightarrow> api_key_role option \<Rightarrow> (api_key_metadata \<times> string) operation" where
  "provision_project_api_key D c w pid role =
     andThen (admin_access D c) (\<lambda>ctx.
       create_project_api_key (dp_externals D) pid (case role of Some r \<Rightarrow> r | None \<Rightarrow> RUNTIME) ctx (dr_now w)
         (dr_selector w) (dr_secret w) (dr_salt w))"

definition list_project_api_keys :: "deployment \<Rightarrow> credentials \<Rightarrow> uuid \<Rightarrow> nat \<Rightarrow> nat \<Rightarrow> api_key_metadata paged operation" where
  "list_project_api_keys D c pid limit offset =
     andThen (admin_access D c) (\<lambda>_. andThen (get_project_or_404 pid) (\<lambda>_.
       paged_operation (reading (\<lambda>d. Inr (list_api_keys pid limit offset d)))
         (reading (\<lambda>d. Inr (count_api_keys pid d))) limit offset))"

definition revoke_project_api_key_endpoint :: "deployment \<Rightarrow> credentials \<Rightarrow> draws \<Rightarrow> uuid \<Rightarrow> uuid \<Rightarrow> api_key_metadata operation" where
  "revoke_project_api_key_endpoint D c w pid kid =
     andThen (admin_access D c) (\<lambda>ctx. revoke_api_key (dp_externals D) pid kid ctx (dr_now w))"

section \<open>Administration: policies\<close>

definition list_project_policy_configurations :: "deployment \<Rightarrow> credentials \<Rightarrow> uuid \<Rightarrow> policy_configuration list operation" where
  "list_project_policy_configurations D c pid =
     andThen (admin_access D c) (\<lambda>_. andThen (get_project_or_404 pid) (\<lambda>_. reading (list_configurations pid)))"

definition get_project_policy_configuration :: "deployment \<Rightarrow> credentials \<Rightarrow> uuid \<Rightarrow> string \<Rightarrow> policy_configuration operation" where
  "get_project_policy_configuration D c pid i =
     andThen (admin_access D c) (\<lambda>_. andThen (get_project_or_404 pid) (\<lambda>_. get_project_policy_or_404 pid i))"

definition list_project_policy_versions ::
  "deployment \<Rightarrow> credentials \<Rightarrow> uuid \<Rightarrow> string \<Rightarrow> nat \<Rightarrow> nat \<Rightarrow> policy_version paged operation" where
  "list_project_policy_versions D c pid i limit offset =
     andThen (admin_access D c) (\<lambda>_. andThen (get_project_or_404 pid) (\<lambda>_. andThen (get_project_policy_or_404 pid i) (\<lambda>_.
       paged_operation (reading (list_versions pid i limit offset))
         (reading (\<lambda>d. Inr (count_versions pid i d))) limit offset)))"

definition get_project_policy_version :: "deployment \<Rightarrow> credentials \<Rightarrow> uuid \<Rightarrow> string \<Rightarrow> int \<Rightarrow> policy_version operation" where
  "get_project_policy_version D c pid i n =
     andThen (admin_access D c) (\<lambda>_. get_project_policy_version_or_404 pid i n)"

definition rollback_project_policy_endpoint ::
  "deployment \<Rightarrow> credentials \<Rightarrow> draws \<Rightarrow> uuid \<Rightarrow> string \<Rightarrow> int \<Rightarrow> policy_configuration operation" where
  "rollback_project_policy_endpoint D c w pid i n =
     andThen (admin_access D c) (\<lambda>ctx. rollback_policy (dp_externals D) pid i n ctx (dr_now w))"

definition configure_project_policy ::
  "deployment \<Rightarrow> credentials \<Rightarrow> draws \<Rightarrow> uuid \<Rightarrow> string \<Rightarrow> policy \<Rightarrow> policy_configuration operation" where
  "configure_project_policy D c w pid i p =
     andThen (admin_access D c) (\<lambda>ctx. configure_policy (dp_externals D) pid i p ctx (dr_now w))"

definition disable_project_policy_endpoint :: "deployment \<Rightarrow> credentials \<Rightarrow> draws \<Rightarrow> uuid \<Rightarrow> string \<Rightarrow> policy_configuration operation" where
  "disable_project_policy_endpoint D c w pid i =
     andThen (admin_access D c) (\<lambda>ctx. disable_policy (dp_externals D) pid i ctx (dr_now w))"

section \<open>Administration: audit trail and webhooks\<close>

definition list_administrative_audit_events :: "deployment \<Rightarrow> credentials \<Rightarrow> audit_filters \<Rightarrow> nat \<Rightarrow> nat \<Rightarrow> audit_event paged operation" where
  "list_administrative_audit_events D c f limit offset =
     andThen (admin_access D c) (\<lambda>_.
       if (case (af_after f, af_before f) of (Some a, Some b) \<Rightarrow> a > b | _ \<Rightarrow> False)
       then raising (http_error 422 ''invalid_audit_time_range'' [])
       else paged_operation (reading (\<lambda>d. Inr (list_audit_events f limit offset d)))
         (reading (\<lambda>d. Inr (count_audit_events f d))) limit offset)"

definition get_administrative_audit_event :: "deployment \<Rightarrow> credentials \<Rightarrow> uuid \<Rightarrow> audit_event operation" where
  "get_administrative_audit_event D c eid =
     andThen (admin_access D c) (\<lambda>_. reading (\<lambda>d. case get_audit_event eid d of
         None \<Rightarrow> Inl (http_error 404 ''audit_event_not_found'' [])
       | Some e \<Rightarrow> Inr e))"

definition provision_webhook_subscription ::
  "deployment \<Rightarrow> credentials \<Rightarrow> draws \<Rightarrow> uuid \<Rightarrow> string \<Rightarrow> event_selector list \<Rightarrow> (subscription \<times> string) operation" where
  "provision_webhook_subscription D c w pid url event_types =
     andThen (admin_access D c) (\<lambda>ctx.
     andThen (from_config (get_configured_webhook_master_secret (dp_environment D))) (\<lambda>master_secret.
       create_webhook_subscription (dp_externals D) pid url event_types master_secret ctx (dr_now w)))"

definition list_webhook_subscriptions ::
  "deployment \<Rightarrow> credentials \<Rightarrow> uuid \<Rightarrow> subscription_status option \<Rightarrow> nat \<Rightarrow> nat \<Rightarrow> subscription paged operation" where
  "list_webhook_subscriptions D c pid status limit offset =
     andThen (admin_access D c) (\<lambda>_. andThen (get_project_or_404 pid) (\<lambda>_.
       paged_operation (reading (\<lambda>d. Inr (list_subscriptions pid status limit offset d)))
         (reading (\<lambda>d. Inr (count_subscriptions pid status d))) limit offset))"

definition get_webhook_subscription :: "deployment \<Rightarrow> credentials \<Rightarrow> uuid \<Rightarrow> uuid \<Rightarrow> subscription operation" where
  "get_webhook_subscription D c pid sid =
     andThen (admin_access D c) (\<lambda>_. andThen (get_project_or_404 pid) (\<lambda>_. get_webhook_subscription_or_404 pid sid))"

definition remove_webhook_subscription :: "deployment \<Rightarrow> credentials \<Rightarrow> draws \<Rightarrow> uuid \<Rightarrow> uuid \<Rightarrow> subscription operation" where
  "remove_webhook_subscription D c w pid sid =
     andThen (admin_access D c) (\<lambda>ctx. disable_webhook_subscription_service (dp_externals D) pid sid ctx (dr_now w))"

definition rotate_webhook_secret_endpoint :: "deployment \<Rightarrow> credentials \<Rightarrow> draws \<Rightarrow> uuid \<Rightarrow> uuid \<Rightarrow> (subscription \<times> string) operation" where
  "rotate_webhook_secret_endpoint D c w pid sid =
     andThen (admin_access D c) (\<lambda>ctx.
     andThen (from_config (get_configured_webhook_master_secret (dp_environment D))) (\<lambda>master_secret.
       rotate_webhook_subscription_secret (dp_externals D) pid sid master_secret ctx (dr_now w)))"

definition list_webhook_events :: "deployment \<Rightarrow> credentials \<Rightarrow> uuid \<Rightarrow> event_type option \<Rightarrow> nat \<Rightarrow> nat \<Rightarrow> webhook_event paged operation" where
  "list_webhook_events D c pid etype limit offset =
     andThen (admin_access D c) (\<lambda>_. andThen (get_project_or_404 pid) (\<lambda>_.
       paged_operation (reading (\<lambda>d. Inr (list_events pid etype limit offset d)))
         (reading (\<lambda>d. Inr (count_events pid etype d))) limit offset))"

definition get_webhook_event :: "deployment \<Rightarrow> credentials \<Rightarrow> uuid \<Rightarrow> uuid \<Rightarrow> webhook_event operation" where
  "get_webhook_event D c pid eid =
     andThen (admin_access D c) (\<lambda>_. andThen (get_project_or_404 pid) (\<lambda>_. get_webhook_event_or_404 pid eid))"

definition list_webhook_deliveries :: "deployment \<Rightarrow> credentials \<Rightarrow> uuid \<Rightarrow> delivery_status option \<Rightarrow> uuid option \<Rightarrow> uuid option
    \<Rightarrow> nat \<Rightarrow> nat \<Rightarrow> delivery paged operation" where
  "list_webhook_deliveries D c pid status sid eid limit offset =
     andThen (admin_access D c) (\<lambda>_. andThen (get_project_or_404 pid) (\<lambda>_.
       paged_operation (reading (list_deliveries pid status sid eid limit offset))
         (reading (\<lambda>d. Inr (count_deliveries pid status sid eid d))) limit offset))"

definition get_webhook_delivery :: "deployment \<Rightarrow> credentials \<Rightarrow> uuid \<Rightarrow> uuid \<Rightarrow> delivery_detail operation" where
  "get_webhook_delivery D c pid vid =
     andThen (admin_access D c) (\<lambda>_. andThen (get_project_or_404 pid) (\<lambda>_. get_webhook_delivery_detail_or_404 pid vid))"

definition redeliver_webhook :: "deployment \<Rightarrow> credentials \<Rightarrow> draws \<Rightarrow> uuid \<Rightarrow> uuid \<Rightarrow> delivery operation" where
  "redeliver_webhook D c w pid vid =
     andThen (admin_access D c) (\<lambda>ctx. request_webhook_redelivery (dp_externals D) pid vid ctx (dr_now w))"

definition dispatch_webhook_deliveries :: "deployment \<Rightarrow> credentials \<Rightarrow> draws \<Rightarrow> nat \<Rightarrow> (nat \<times> counters) operation" where
  "dispatch_webhook_deliveries D c w limit =
     andThen (admin_access D c) (\<lambda>_.
     andThen (from_config (get_configured_webhook_master_secret (dp_environment D))) (\<lambda>master_secret.
       dispatch_pending_webhooks (dp_externals D) (dp_transport D) (default_settings master_secret limit) (dr_now w)))"

section \<open>Health, metrics and the start of the application\<close>

text \<open>\<open>check_readiness\<close> may raise; either way the gauge says what the client is told.\<close>

definition readiness_check :: "exn + bool \<Rightarrow> int \<times> string \<times> metrics_event" where
  "readiness_check r = (let ready = (case r of Inl _ \<Rightarrow> False | Inr b \<Rightarrow> b) in
     (if ready then 200 else 503, if ready then ''ok'' else ''unavailable'', Ready ready))"

definition prometheus_metrics :: "deployment \<Rightarrow> credentials \<Rightarrow> float_library \<Rightarrow> metrics \<Rightarrow> string operation" where
  "prometheus_metrics D c F m = andThen (admin_access D c) (\<lambda>_. returning (render_prometheus F m))"

text \<open>
  The part of \<open>lifespan\<close> before the application serves, on a database of the current schema: the
  schema part of \<open>initialize\<close> changes nothing there (\<open>Migrations\<close>), its backfill of the ledger may.
\<close>

definition startup :: "deployment \<Rightarrow> instant \<Rightarrow> string \<Rightarrow> unit operation" where
  "startup D now salt =
     (let env = dp_environment D; s = dp_settings D; X = dp_externals D in
      andThen (if rs_environment s = ''production'' then returning (env ''DECAUSTRUM_API_KEY'')
               else andThen (from_config (get_configured_api_key env)) (\<lambda>k. returning (Some k))) (\<lambda>api_key.
      andThen (from_config (validate_secrets s api_key (env ''DECAUSTRUM_ADMIN_API_KEY'')
          (env ''DECAUSTRUM_EXECUTION_GRANT_SECRET'') (env ''DECAUSTRUM_WEBHOOK_MASTER_SECRET''))) (\<lambda>_.
      andThen (from_config (dp_templates D)) (\<lambda>policy_templates.
      andThen (backfill_existing_decisions X) (\<lambda>_.
        case api_key of
          Some k \<Rightarrow>
            if rs_environment s = ''production'' then returning ()
            else andThen (bootstrap_default_project X k now salt) (\<lambda>_.
              seed_project_policies X DEFAULT_PROJECT_ID policy_templates now (Some SYSTEM_BOOTSTRAP_AUDIT_CONTEXT))
        | None \<Rightarrow> returning ())))))"

section \<open>The endpoints together\<close>

text \<open>
  A request to one of the endpoints that need a credential, which credential it needs, and its
  response. The readiness check and the metrics have no part of the database in their responses.
\<close>

datatype (plugins only: code size) api_call =
    Call_Authorize authorization_request "string option"
  | Call_Consume_grant string authorization_request string
  | Call_List_approvals "approval_status option" nat nat
  | Call_Get_approval uuid
  | Call_Approve uuid "string option"
  | Call_Reject uuid "string option"
  | Call_List_decisions decision_filters nat nat
  | Call_List_managed_decisions uuid decision_filters nat nat
  | Call_Get_decision uuid
  | Call_List_policies
  | Call_Get_policy string
  | Call_List_integrity nat nat
  | Call_Verify_integrity "string option"
  | Call_Get_integrity uuid
  | Call_Get_evidence uuid
  | Call_Verify_managed_integrity uuid "string option"
  | Call_Export decision_filters export_format "string option"
  | Call_Bundle decision_filters "string option"
  | Call_Export_managed uuid decision_filters export_format "string option"
  | Call_Bundle_managed uuid decision_filters "string option"
  | Call_List_projects "project_status option" nat nat
  | Call_Create_project string
  | Call_Get_project uuid
  | Call_Set_project_status uuid project_status
  | Call_Create_api_key uuid "api_key_role option"
  | Call_List_api_keys uuid nat nat
  | Call_Revoke_api_key uuid uuid
  | Call_List_configurations uuid
  | Call_Get_configuration uuid string
  | Call_List_versions uuid string nat nat
  | Call_Get_version uuid string int
  | Call_Rollback_policy uuid string int
  | Call_Configure_policy uuid string policy
  | Call_Disable_policy uuid string
  | Call_List_audit_events audit_filters nat nat
  | Call_Get_audit_event uuid
  | Call_Create_subscription uuid string "event_selector list"
  | Call_List_subscriptions uuid "subscription_status option" nat nat
  | Call_Get_subscription uuid uuid
  | Call_Remove_subscription uuid uuid
  | Call_Rotate_secret uuid uuid
  | Call_List_events uuid "event_type option" nat nat
  | Call_Get_event uuid uuid
  | Call_List_deliveries uuid "delivery_status option" "uuid option" "uuid option" nat nat
  | Call_Get_delivery uuid uuid
  | Call_Redeliver uuid uuid
  | Call_Dispatch nat

datatype access = Tenant_access | Runtime_access | Reviewer_access | Admin_access

datatype (plugins only: code size) api_response =
    R_authorization "authorization \<times> metrics_event"
  | R_consumption "consumption_response"
  | R_approvals "approval paged"
  | R_approval "approval"
  | R_grant "grant_response"
  | R_decisions "authorization paged"
  | R_decision "authorization"
  | R_policies "policy list"
  | R_policy "policy"
  | R_proofs "integrity_proof paged"
  | R_verification "verification"
  | R_proof "integrity_proof"
  | R_evidence "verifiable"
  | R_file "file_response"
  | R_projects "project paged"
  | R_provisioned "project \<times> string"
  | R_project "project"
  | R_new_key "api_key_metadata \<times> string"
  | R_api_keys "api_key_metadata paged"
  | R_api_key "api_key_metadata"
  | R_configurations "policy_configuration list"
  | R_configuration "policy_configuration"
  | R_versions "policy_version paged"
  | R_version "policy_version"
  | R_audit_events "audit_event paged"
  | R_audit_event "audit_event"
  | R_new_subscription "subscription \<times> string"
  | R_subscriptions "subscription paged"
  | R_subscription "subscription"
  | R_events "webhook_event paged"
  | R_event "webhook_event"
  | R_deliveries "delivery paged"
  | R_delivery_detail "delivery_detail"
  | R_delivery "delivery"
  | R_dispatched "nat \<times> counters"

fun required_access :: "api_call \<Rightarrow> access" where
  "required_access (Call_Authorize _ _) = Runtime_access"
| "required_access (Call_Consume_grant _ _ _) = Runtime_access"
| "required_access (Call_List_approvals _ _ _) = Tenant_access"
| "required_access (Call_Get_approval _) = Tenant_access"
| "required_access (Call_Approve _ _) = Reviewer_access"
| "required_access (Call_Reject _ _) = Reviewer_access"
| "required_access (Call_List_decisions _ _ _) = Tenant_access"
| "required_access (Call_List_managed_decisions _ _ _ _) = Admin_access"
| "required_access (Call_Get_decision _) = Tenant_access"
| "required_access (Call_List_policies) = Tenant_access"
| "required_access (Call_Get_policy _) = Tenant_access"
| "required_access (Call_List_integrity _ _) = Tenant_access"
| "required_access (Call_Verify_integrity _) = Tenant_access"
| "required_access (Call_Get_integrity _) = Tenant_access"
| "required_access (Call_Get_evidence _) = Tenant_access"
| "required_access (Call_Verify_managed_integrity _ _) = Admin_access"
| "required_access (Call_Export _ _ _) = Tenant_access"
| "required_access (Call_Bundle _ _) = Tenant_access"
| "required_access (Call_Export_managed _ _ _ _) = Admin_access"
| "required_access (Call_Bundle_managed _ _ _) = Admin_access"
| "required_access (Call_List_projects _ _ _) = Admin_access"
| "required_access (Call_Create_project _) = Admin_access"
| "required_access (Call_Get_project _) = Admin_access"
| "required_access (Call_Set_project_status _ _) = Admin_access"
| "required_access (Call_Create_api_key _ _) = Admin_access"
| "required_access (Call_List_api_keys _ _ _) = Admin_access"
| "required_access (Call_Revoke_api_key _ _) = Admin_access"
| "required_access (Call_List_configurations _) = Admin_access"
| "required_access (Call_Get_configuration _ _) = Admin_access"
| "required_access (Call_List_versions _ _ _ _) = Admin_access"
| "required_access (Call_Get_version _ _ _) = Admin_access"
| "required_access (Call_Rollback_policy _ _ _) = Admin_access"
| "required_access (Call_Configure_policy _ _ _) = Admin_access"
| "required_access (Call_Disable_policy _ _) = Admin_access"
| "required_access (Call_List_audit_events _ _ _) = Admin_access"
| "required_access (Call_Get_audit_event _) = Admin_access"
| "required_access (Call_Create_subscription _ _ _) = Admin_access"
| "required_access (Call_List_subscriptions _ _ _ _) = Admin_access"
| "required_access (Call_Get_subscription _ _) = Admin_access"
| "required_access (Call_Remove_subscription _ _) = Admin_access"
| "required_access (Call_Rotate_secret _ _) = Admin_access"
| "required_access (Call_List_events _ _ _ _) = Admin_access"
| "required_access (Call_Get_event _ _) = Admin_access"
| "required_access (Call_List_deliveries _ _ _ _ _ _) = Admin_access"
| "required_access (Call_Get_delivery _ _) = Admin_access"
| "required_access (Call_Redeliver _ _) = Admin_access"
| "required_access (Call_Dispatch _) = Admin_access"

definition answering :: "('a \<Rightarrow> api_response) \<Rightarrow> 'a operation \<Rightarrow> api_response operation" where
  "answering R m = andThen m (\<lambda>x. returning (R x))"

fun handle_call :: "deployment \<Rightarrow> credentials \<Rightarrow> draws \<Rightarrow> api_call \<Rightarrow> api_response operation" where
  "handle_call D c w (Call_Authorize x1 x2) = answering R_authorization (authorize_endpoint D c w x1 x2)"
| "handle_call D c w (Call_Consume_grant x1 x2 x3) = answering R_consumption (consume_execution_grant_endpoint D c w x1 x2 x3)"
| "handle_call D c w (Call_List_approvals x1 x2 x3) = answering R_approvals (list_approval_requests D c w x1 x2 x3)"
| "handle_call D c w (Call_Get_approval x1) = answering R_approval (get_approval_request D c w x1)"
| "handle_call D c w (Call_Approve x1 x2) = answering R_grant (approve_request D c w x1 x2)"
| "handle_call D c w (Call_Reject x1 x2) = answering R_approval (reject_request D c w x1 x2)"
| "handle_call D c w (Call_List_decisions x1 x2 x3) = answering R_decisions (list_authorization_decisions D c w x1 x2 x3)"
| "handle_call D c w (Call_List_managed_decisions x1 x2 x3 x4) = answering R_decisions (list_managed_project_authorization_decisions D c w x1 x2 x3 x4)"
| "handle_call D c w (Call_Get_decision x1) = answering R_decision (get_authorization_decision D c x1)"
| "handle_call D c w (Call_List_policies) = answering R_policies (list_active_policies D c)"
| "handle_call D c w (Call_Get_policy x1) = answering R_policy (get_active_policy D c x1)"
| "handle_call D c w (Call_List_integrity x1 x2) = answering R_proofs (list_decision_integrity_records D c x1 x2)"
| "handle_call D c w (Call_Verify_integrity x1) = answering R_verification (verify_authenticated_project_integrity D c x1)"
| "handle_call D c w (Call_Get_integrity x1) = answering R_proof (get_decision_integrity D c x1)"
| "handle_call D c w (Call_Get_evidence x1) = answering R_evidence (get_verifiable_decision D c x1)"
| "handle_call D c w (Call_Verify_managed_integrity x1 x2) = answering R_verification (verify_managed_project_integrity D c x1 x2)"
| "handle_call D c w (Call_Export x1 x2 x3) = answering R_file (export_authenticated_project_evidence D c w x1 x2 x3)"
| "handle_call D c w (Call_Bundle x1 x2) = answering R_file (bundle_authenticated_project_evidence D c w x1 x2)"
| "handle_call D c w (Call_Export_managed x1 x2 x3 x4) = answering R_file (export_managed_project_evidence D c w x1 x2 x3 x4)"
| "handle_call D c w (Call_Bundle_managed x1 x2 x3) = answering R_file (bundle_managed_project_evidence D c w x1 x2 x3)"
| "handle_call D c w (Call_List_projects x1 x2 x3) = answering R_projects (list_projects_endpoint D c x1 x2 x3)"
| "handle_call D c w (Call_Create_project x1) = answering R_provisioned (provision_project D c w x1)"
| "handle_call D c w (Call_Get_project x1) = answering R_project (get_project_endpoint D c x1)"
| "handle_call D c w (Call_Set_project_status x1 x2) = answering R_project (update_project_status_endpoint D c w x1 x2)"
| "handle_call D c w (Call_Create_api_key x1 x2) = answering R_new_key (provision_project_api_key D c w x1 x2)"
| "handle_call D c w (Call_List_api_keys x1 x2 x3) = answering R_api_keys (list_project_api_keys D c x1 x2 x3)"
| "handle_call D c w (Call_Revoke_api_key x1 x2) = answering R_api_key (revoke_project_api_key_endpoint D c w x1 x2)"
| "handle_call D c w (Call_List_configurations x1) = answering R_configurations (list_project_policy_configurations D c x1)"
| "handle_call D c w (Call_Get_configuration x1 x2) = answering R_configuration (get_project_policy_configuration D c x1 x2)"
| "handle_call D c w (Call_List_versions x1 x2 x3 x4) = answering R_versions (list_project_policy_versions D c x1 x2 x3 x4)"
| "handle_call D c w (Call_Get_version x1 x2 x3) = answering R_version (get_project_policy_version D c x1 x2 x3)"
| "handle_call D c w (Call_Rollback_policy x1 x2 x3) = answering R_configuration (rollback_project_policy_endpoint D c w x1 x2 x3)"
| "handle_call D c w (Call_Configure_policy x1 x2 x3) = answering R_configuration (configure_project_policy D c w x1 x2 x3)"
| "handle_call D c w (Call_Disable_policy x1 x2) = answering R_configuration (disable_project_policy_endpoint D c w x1 x2)"
| "handle_call D c w (Call_List_audit_events x1 x2 x3) = answering R_audit_events (list_administrative_audit_events D c x1 x2 x3)"
| "handle_call D c w (Call_Get_audit_event x1) = answering R_audit_event (get_administrative_audit_event D c x1)"
| "handle_call D c w (Call_Create_subscription x1 x2 x3) = answering R_new_subscription (provision_webhook_subscription D c w x1 x2 x3)"
| "handle_call D c w (Call_List_subscriptions x1 x2 x3 x4) = answering R_subscriptions (list_webhook_subscriptions D c x1 x2 x3 x4)"
| "handle_call D c w (Call_Get_subscription x1 x2) = answering R_subscription (get_webhook_subscription D c x1 x2)"
| "handle_call D c w (Call_Remove_subscription x1 x2) = answering R_subscription (remove_webhook_subscription D c w x1 x2)"
| "handle_call D c w (Call_Rotate_secret x1 x2) = answering R_new_subscription (rotate_webhook_secret_endpoint D c w x1 x2)"
| "handle_call D c w (Call_List_events x1 x2 x3 x4) = answering R_events (list_webhook_events D c x1 x2 x3 x4)"
| "handle_call D c w (Call_Get_event x1 x2) = answering R_event (get_webhook_event D c x1 x2)"
| "handle_call D c w (Call_List_deliveries x1 x2 x3 x4 x5 x6) = answering R_deliveries (list_webhook_deliveries D c x1 x2 x3 x4 x5 x6)"
| "handle_call D c w (Call_Get_delivery x1 x2) = answering R_delivery_detail (get_webhook_delivery D c x1 x2)"
| "handle_call D c w (Call_Redeliver x1 x2) = answering R_delivery (redeliver_webhook D c w x1 x2)"
| "handle_call D c w (Call_Dispatch x1) = answering R_dispatched (dispatch_webhook_deliveries D c w x1)"

declare handle_call.simps [simp del]

section \<open>Nothing happens without a credential\<close>

definition principal_of :: "deployment \<Rightarrow> credentials \<Rightarrow> db \<Rightarrow> principal option" where
  "principal_of D c d = (case cd_api_key c of
     Some (k # ks) \<Rightarrow> get_active_principal_by_api_key (dp_externals D) (k # ks) d d
   | _ \<Rightarrow> None)"

fun granted_access :: "deployment \<Rightarrow> credentials \<Rightarrow> db \<Rightarrow> access \<Rightarrow> bool" where
  "granted_access D c d Tenant_access = (principal_of D c d \<noteq> None)"
| "granted_access D c d Runtime_access = (map_option pl_role (principal_of D c d) = Some RUNTIME)"
| "granted_access D c d Reviewer_access = (map_option pl_role (principal_of D c d) = Some REVIEWER)"
| "granted_access D c d Admin_access = (case dp_environment D ''DECAUSTRUM_ADMIN_API_KEY'' of
     Some (k # ks) \<Rightarrow> cd_admin_api_key c = Some (k # ks) | _ \<Rightarrow> False)"

text \<open>
  The refusals: 401, 403, and the two exceptions that become a 500, when no administrator key is
  configured and when a key is not ASCII.
\<close>

definition refusal :: "exn \<Rightarrow> bool" where
  "refusal e \<longleftrightarrow> e = http_error 401 ''invalid_api_key'' [] \<or> e = http_error 401 ''invalid_admin_api_key'' []
     \<or> e = http_error 403 ''insufficient_api_key_role'' [] \<or> e = RuntimeError ''DECAUSTRUM_ADMIN_API_KEY'' \<or> e = TypeError"

definition refuses :: "'a operation \<Rightarrow> db \<Rightarrow> bool" where
  "refuses m d \<longleftrightarrow> (\<exists>e. m d = (Inl e, d) \<and> refusal e)"

lemma refuses_andThen: "refuses m d \<Longrightarrow> refuses (andThen m f) d"
  by (auto simp: refuses_def andThen_def)

lemma authenticated: "authenticate_project_api_key (dp_externals D) (cd_api_key c) d
    = (case principal_of D c d of None \<Rightarrow> Inl (http_error 401 ''invalid_api_key'' []) | Some p \<Rightarrow> Inr p, d)"
  by (auto simp: authenticate_project_api_key_def principal_of_def reading_def split: option.split list.split)

lemma tenant_refuses: "principal_of D c d = None \<Longrightarrow> refuses (get_authenticated_project (dp_externals D) (cd_api_key c)) d"
  by (simp add: refuses_def get_authenticated_project_def andThen_def authenticated refusal_def)

lemma runtime_refuses: "map_option pl_role (principal_of D c d) \<noteq> Some RUNTIME \<Longrightarrow>
    refuses (get_runtime_project (dp_externals D) (cd_api_key c)) d"
  by (auto simp: refuses_def get_runtime_project_def andThen_def authenticated refusal_def reading_def
      require_project_api_key_role_def split: option.split)

lemma reviewer_refuses: "map_option pl_role (principal_of D c d) \<noteq> Some REVIEWER \<Longrightarrow>
    refuses (get_reviewer_principal (dp_externals D) (cd_api_key c)) d"
  by (auto simp: refuses_def get_reviewer_principal_def andThen_def authenticated refusal_def reading_def
      require_project_api_key_role_def split: option.split)

lemma admin_refuses: "\<not> granted_access D c d Admin_access \<Longrightarrow> refuses (admin_access D c) d"
  by (auto simp: refuses_def admin_access_def require_admin_access_def reading_def get_configured_admin_api_key_def
      configured_def authenticate_admin_def compare_digest_str_def refusal_def split: option.splits list.splits)

lemma refuses_answering: "refuses m d \<Longrightarrow> refuses (answering R m) d"
  by (simp add: answering_def refuses_andThen)

lemmas endpoint_defs =
  authorize_endpoint_def consume_execution_grant_endpoint_def list_approval_requests_def get_approval_request_def
  approve_request_def reject_request_def list_authorization_decisions_def list_managed_project_authorization_decisions_def
  get_authorization_decision_def list_active_policies_def get_active_policy_def list_decision_integrity_records_def
  verify_authenticated_project_integrity_def get_decision_integrity_def get_verifiable_decision_def
  verify_managed_project_integrity_def export_authenticated_project_evidence_def bundle_authenticated_project_evidence_def
  export_managed_project_evidence_def bundle_managed_project_evidence_def list_projects_endpoint_def provision_project_def
  get_project_endpoint_def update_project_status_endpoint_def provision_project_api_key_def list_project_api_keys_def
  revoke_project_api_key_endpoint_def list_project_policy_configurations_def get_project_policy_configuration_def
  list_project_policy_versions_def get_project_policy_version_def rollback_project_policy_endpoint_def
  configure_project_policy_def disable_project_policy_endpoint_def list_administrative_audit_events_def
  get_administrative_audit_event_def provision_webhook_subscription_def list_webhook_subscriptions_def
  get_webhook_subscription_def remove_webhook_subscription_def rotate_webhook_secret_endpoint_def list_webhook_events_def
  get_webhook_event_def list_webhook_deliveries_def get_webhook_delivery_def redeliver_webhook_def
  dispatch_webhook_deliveries_def

text \<open>
  C34: A request to any endpoint that needs a credential, without the credential this endpoint needs -
  an active key of an active project, of the runtime or of the reviewer role, or the configured
  administrator key -, is refused and changes nothing in the database.
\<close>

theorem unauthorized_calls_refused:
  assumes "\<not> granted_access D c d (required_access q)"
  shows "\<exists>e. handle_call D c w q d = (Inl e, d) \<and> refusal e"
proof -
  have "refuses (handle_call D c w q) d"
    using assms tenant_refuses [of D c d] runtime_refuses [of D c d] reviewer_refuses [of D c d] admin_refuses [of D c d]
    by (cases q) (simp_all add: handle_call.simps endpoint_defs refuses_answering refuses_andThen del: granted_access.simps(4))
  then show ?thesis by (simp add: refuses_def)
qed

definition sample_deployment :: deployment where
  "sample_deployment = \<lparr>dp_externals = plain_externals, dp_environment = [''DECAUSTRUM_ADMIN_API_KEY'' \<mapsto> ''key''],
     dp_settings = sample_settings,
     dp_archive = \<lparr>z_write = (\<lambda>_. []), z_open = (\<lambda>_. None), z_float = (\<lambda>_. None), z_validate = (\<lambda>_. None)\<rparr>,
     dp_transport = (\<lambda>_ _ _. raising (WebhookTransportError [])), dp_templates = Inr []\<rparr>"

definition sample_draws :: draws where
  "sample_draws = \<lparr>dr_now = 0, dr_later = 0, dr_latest = 0, dr_selector = ''s'', dr_secret = ''t'', dr_salt = ''u''\<rparr>"

theorem unauthorized_calls_refused_witness:
  "\<exists>e. handle_call sample_deployment
       \<lparr>cd_api_key = None, cd_admin_api_key = Some ''other'', cd_admin_actor = None, cd_audit_reason = None\<rparr>
       sample_draws (Call_Get_project 1) (empty_db id)
     = (Inl e, empty_db id) \<and> refusal e"
  by (rule unauthorized_calls_refused) (simp add: sample_deployment_def)

section \<open>A project reads its own records\<close>

text \<open>The calls with a project key that read records, and what it means that an answer is of a project.\<close>

fun tenant_read :: "api_call \<Rightarrow> bool" where
  "tenant_read (Call_List_approvals _ _ _) = True"
| "tenant_read (Call_Get_approval _) = True"
| "tenant_read (Call_List_decisions _ _ _) = True"
| "tenant_read (Call_Get_decision _) = True"
| "tenant_read (Call_List_policies) = True"
| "tenant_read (Call_Get_policy _) = True"
| "tenant_read (Call_List_integrity _ _) = True"
| "tenant_read (Call_Get_integrity _) = True"
| "tenant_read (Call_Get_evidence _) = True"
| "tenant_read _ = False"

definition in_force :: "db \<Rightarrow> uuid \<Rightarrow> policy \<Rightarrow> bool" where
  "in_force d pid p \<longleftrightarrow> list_ex (\<lambda>c. pp_project c = pid \<and> pp_enabled c \<and> pp_policy c = p) (t_policies d)"

fun answers_of :: "db \<Rightarrow> uuid \<Rightarrow> api_response \<Rightarrow> bool" where
  "answers_of d pid (R_approvals pg) = list_all (\<lambda>a. decided_in d (ap_decision a) pid) (pa_items pg)"
| "answers_of d pid (R_approval a) = decided_in d (ap_decision a) pid"
| "answers_of d pid (R_decisions pg) = list_all (\<lambda>a. a \<in> set (t_decisions d) \<and> au_project a = pid) (pa_items pg)"
| "answers_of d pid (R_decision a) = (a \<in> set (t_decisions d) \<and> au_project a = pid)"
| "answers_of d pid (R_policies ps) = list_all (in_force d pid) ps"
| "answers_of d pid (R_policy p) = in_force d pid p"
| "answers_of d pid (R_proofs pg) = list_all (\<lambda>p. p \<in> set (t_integrity d) \<and> ip_project p = pid) (pa_items pg)"
| "answers_of d pid (R_proof p) = (p \<in> set (t_integrity d) \<and> ip_project p = pid)"
| "answers_of d pid (R_evidence v) = (vr_decision v \<in> set (t_decisions d) \<and> au_project (vr_decision v) = pid
     \<and> vr_integrity v \<in> set (t_integrity d) \<and> ip_project (vr_integrity v) = pid
     \<and> ip_decision (vr_integrity v) = au_id (vr_decision v))"
| "answers_of d pid _ = False"

text \<open>What a run gives when it returns: a fact of its value and of the state it leaves.\<close>

definition gives :: "('a \<Rightarrow> db \<Rightarrow> bool) \<Rightarrow> 'a operation \<Rightarrow> bool" where
  "gives P m \<longleftrightarrow> (\<forall>d x d'. m d = (Inr x, d') \<longrightarrow> P x d')"

lemma givesI: "(\<And>d x d'. m d = (Inr x, d') \<Longrightarrow> P x d') \<Longrightarrow> gives P m"
  by (simp add: gives_def)

lemma gives_andThen:
  assumes "gives Q m" and "\<And>x d r d'. Q x d \<Longrightarrow> f x d = (Inr r, d') \<Longrightarrow> P r d'"
  shows "gives P (andThen m f)"
proof (rule givesI)
  fix d x d' assume "andThen m f d = (Inr x, d')"
  then obtain y d1 where "m d = (Inr y, d1)" and "f y d1 = (Inr x, d')"
    by (auto simp: andThen_def split: prod.splits sum.splits)
  then show "P x d'" using assms(1) unfolding gives_def by (blast intro: assms(2))
qed

lemma gives_last: "(\<And>x. gives P (f x)) \<Longrightarrow> gives P (andThen m f)"
  by (rule gives_andThen [where Q = "\<lambda>_ _. True"]) (auto simp: gives_def)

lemma gives_reading: "(\<And>d x. f d = Inr x \<Longrightarrow> P x d) \<Longrightarrow> gives P (reading f)"
  by (auto simp: gives_def reading_def)

lemma gives_answering: "gives (\<lambda>x d. P (R x) d) m \<Longrightarrow> gives P (answering R m)"
  unfolding answering_def by (rule gives_andThen [where Q = "\<lambda>x d. P (R x) d"]) (auto simp: returning_def)

lemma gives_paged:
  assumes "gives P items" and "\<And>xs d r d'. P xs d \<Longrightarrow> amount d = (r, d') \<Longrightarrow> P xs d'"
  shows "gives (\<lambda>pg d. P (pa_items pg) d) (paged_operation items amount limit offset)"
  unfolding paged_operation_def
  by (rule gives_andThen [OF assms(1)]) (auto simp: andThen_def returning_def split: prod.splits sum.splits dest: assms(2))

lemma row_subset: "set (page limit offset (sort_desc k rows)) \<subseteq> set rows" "set (page limit offset (sort_key k rows)) \<subseteq> set rows"
  using set_page [of limit offset "sort_desc k rows"] set_page [of limit offset "sort_key k rows"]
  by (auto simp: sort_desc_def)

lemma checked_rows: "mapE f rows = Inr xs \<Longrightarrow> (\<And>x y. f x = Inr y \<Longrightarrow> y = x) \<Longrightarrow> xs = rows"
  unfolding mapE_Inr_iff by (induction rule: list_all2_induct) auto

lemma approvals_list_own: "approvals_list pid status limit offset d = Inr xs \<Longrightarrow>
    list_all (\<lambda>a. decided_in d (ap_decision a) pid) xs"
  unfolding approvals_list_def
  by (drule checked_rows) (auto simp: row_to_approval_def list_all_iff split: if_splits dest!: row_subset(1) [THEN subsetD])

lemma approvals_get_own: "approvals_get did pid d = Inr (Some a) \<Longrightarrow> decided_in d (ap_decision a) pid"
  by (auto simp: approvals_get_def bindE_Inr_iff row_to_approval_def split: option.splits if_splits dest!: find_row_Some)

lemma decisions_search_own: "list_all (\<lambda>a. a \<in> set (t_decisions d) \<and> au_project a = pid) (decisions_search pid f limit offset d)"
  by (auto simp: decisions_search_def Let_def list_all_iff dest!: row_subset [THEN subsetD] searched_project)

lemma decisions_get_own: "decisions_get did pid d = Some a \<Longrightarrow> a \<in> set (t_decisions d) \<and> au_project a = pid \<and> au_id a = did"
  by (auto simp: decisions_get_def dest: find_row_Some)

lemma ledger_get_own: "ledger_get did pid d = Some p \<Longrightarrow> p \<in> set (t_integrity d) \<and> ip_project p = pid \<and> ip_decision p = did"
  by (auto simp: ledger_get_def dest: find_row_Some)

lemma ledger_list_own: "list_all (\<lambda>p. p \<in> set (t_integrity d) \<and> ip_project p = pid) (ledger_list pid limit offset d)"
  by (auto simp: ledger_list_def list_all_iff dest!: row_subset(1) [THEN subsetD])

lemma list_active_own: "list_active pid d = Inr ps \<Longrightarrow> list_all (in_force d pid) ps"
  by (auto simp: list_active_def list_configurations_def bindE_Inr_iff in_force_def list_all_iff list_ex_iff
      row_to_configuration_def split: if_splits dest!: checked_rows)

lemma get_active_own: "get_active pid i d = Inr (Some p) \<Longrightarrow> in_force d pid p"
  by (auto simp: get_active_def get_configuration_def bindE_Inr_iff row_to_configuration_def in_force_def list_ex_iff
      split: option.splits if_splits dest!: find_row_Some)


lemma swept_decided:
  assumes "store_operation approval_tables m" and "m d = (r, d')"
  shows "t_decisions d' = t_decisions d"
  using store_operation.accepted_run [OF assms] by (simp add: accepted_def touches_def kept_def)

lemma counted_decided:
  "count_approvals X now pid status d = (r, d') \<Longrightarrow> t_decisions d' = t_decisions d"
  "count_searched_decisions X pid now f d = (r, d') \<Longrightarrow> t_decisions d' = t_decisions d"
  by (rule swept_decided [OF counting.store_operation_axioms], assumption)
    (rule swept_decided [OF andThen_operation [OF expire_due_operation reading_operation]],
      simp add: count_searched_decisions_def)


lemma own_approvals: "gives (\<lambda>pg d. answers_of d pid (R_approvals pg))
    (paged_operation (list_approvals X t pid status limit offset) (count_approvals X t' pid status) limit offset)"
proof -
  have "gives (\<lambda>xs d. list_all (\<lambda>a. decided_in d (ap_decision a) pid) xs) (list_approvals X t pid status limit offset)"
    unfolding list_approvals_def by (intro gives_last gives_reading approvals_list_own)
  from gives_paged [OF this] show ?thesis by (simp add: decided_in_def counted_decided(1))
qed

lemma own_approval: "gives (\<lambda>a d. answers_of d pid (R_approval a))
    (andThen (get_approval X t did pid) (\<lambda>approval. case approval of
         None \<Rightarrow> raising (http_error 404 ''approval_not_found'' []) | Some a \<Rightarrow> returning a))"
proof (rule gives_andThen)
  show "gives (\<lambda>r d. \<forall>a. r = Some a \<longrightarrow> decided_in d (ap_decision a) pid) (get_approval X t did pid)"
    unfolding get_approval_def by (intro gives_last gives_reading) (auto intro: approvals_get_own)
qed (auto simp: raising_def returning_def split: option.splits)

lemma own_decisions: "gives (\<lambda>pg d. answers_of d pid (R_decisions pg)) (decisions_page D w pid f limit offset)"
proof -
  have "gives (\<lambda>xs d. list_all (\<lambda>a. a \<in> set (t_decisions d) \<and> au_project a = pid) xs)
      (search_decisions (dp_externals D) pid (dr_now w) f limit offset)"
    unfolding search_decisions_def by (intro gives_last gives_reading) (auto intro: decisions_search_own)
  from gives_paged [OF this] show ?thesis unfolding decisions_page_def by (simp add: counted_decided(2))
qed

lemma own_proofs: "gives (\<lambda>pg d. answers_of d pid (R_proofs pg))
    (paged_operation (reading (\<lambda>d. Inr (ledger_list pid limit offset d))) (reading (\<lambda>d. Inr (ledger_count pid d))) limit offset)"
proof -
  have "gives (\<lambda>xs d. list_all (\<lambda>p. p \<in> set (t_integrity d) \<and> ip_project p = pid) xs)
      (reading (\<lambda>d. Inr (ledger_list pid limit offset d)))"
    by (rule gives_reading) (auto intro: ledger_list_own)
  then show ?thesis unfolding answers_of.simps by (rule gives_paged) (simp add: reading_def)
qed

lemma own_policy: "gives (\<lambda>p d. answers_of d pid (R_policy p)) (andThen (reading (get_active pid i)) (\<lambda>p. case p of
    None \<Rightarrow> raising (http_error 404 ''policy_not_found'' []) | Some p \<Rightarrow> returning p))"
  by (rule gives_andThen [where Q = "\<lambda>r d. \<forall>p. r = Some p \<longrightarrow> in_force d pid p"])
    (auto simp: raising_def returning_def intro!: gives_reading intro: get_active_own split: option.splits)

lemma own_evidence: "gives (\<lambda>v d. answers_of d pid (R_evidence v)) (get_verifiable_decision_or_404 did pid)"
  unfolding get_verifiable_decision_or_404_def get_decision_integrity_or_404_def
  by (rule gives_andThen [where Q = "\<lambda>a d. a \<in> set (t_decisions d) \<and> au_project a = pid \<and> au_id a = did"])
    (auto simp: andThen_def reading_def returning_def dest: decisions_get_own ledger_get_own
      intro!: gives_reading split: option.splits)

lemma own_decision: "gives (\<lambda>a d. answers_of d pid (R_decision a))
    (reading (\<lambda>d. case decisions_get did pid d of
       None \<Rightarrow> Inl (http_error 404 ''decision_not_found'' []) | Some a \<Rightarrow> Inr a))"
  by (rule gives_reading) (auto dest: decisions_get_own split: option.splits)

lemma own_proof: "gives (\<lambda>p d. answers_of d pid (R_proof p)) (get_decision_integrity_or_404 did pid)"
  unfolding get_decision_integrity_or_404_def
  by (rule gives_reading) (auto dest: ledger_get_own split: option.splits)

lemma own_policies: "gives (\<lambda>ps d. answers_of d pid (R_policies ps)) (reading (list_active pid))"
  by (rule gives_reading) (simp add: list_active_own)

lemmas own_records = own_approvals own_approval own_decisions own_decision own_policies own_policy own_proofs own_proof
  own_evidence

lemma tenant_answer:
  assumes "answering R (andThen (get_authenticated_project (dp_externals D) (cd_api_key c)) f) d = (Inr r, d')"
    and "\<And>p. gives (\<lambda>x d. answers_of d (pr_id p) (R x)) (f p)"
  shows "\<exists>p. principal_of D c d = Some p \<and> answers_of d' (pr_id (pl_project p)) r"
proof (cases "principal_of D c d")
  case None
  then show ?thesis using assms(1)
    by (simp add: answering_def andThen_def get_authenticated_project_def authenticated)
next
  case (Some p)
  then have "answering R (f (pl_project p)) d = (Inr r, d')" using assms(1)
    by (simp add: answering_def andThen_def get_authenticated_project_def authenticated returning_def)
  with gives_answering [where P = "\<lambda>r d. answers_of d (pr_id (pl_project p)) r", OF assms(2)] Some
  show ?thesis by (auto simp: gives_def)
qed

lemmas read_only = andThen_operation reading_operation returning_operation raising_operation
  listing.store_operation_axioms counting.store_operation_axioms getting.store_operation_axioms expire_due_operation

lemma tenant_read_touches:
  assumes "tenant_read q"
  shows "store_operation approval_tables (handle_call D c w q)"
  using assms
  by (cases q) (auto simp: handle_call.simps endpoint_defs answering_def paged_operation_def decisions_page_def
      get_authenticated_project_def authenticate_project_api_key_def search_decisions_def count_searched_decisions_def
      get_decision_integrity_or_404_def get_verifiable_decision_or_404_def split: option.split intro!: read_only)


definition sample_tenant :: credentials where
  "sample_tenant = \<lparr>cd_api_key = Some sample_key, cd_admin_api_key = None, cd_admin_actor = None, cd_audit_reason = None\<rparr>"

definition tenant_deployment :: deployment where
  "tenant_deployment = sample_deployment\<lparr>dp_externals := sample_externals\<rparr>"

lemma sample_tenant_project: "get_authenticated_project (dp_externals tenant_deployment) (cd_api_key sample_tenant) (key_db None)
    = (Inr sample_project, key_db None)"
proof -
  have "verify_api_key sample_externals sample_key sample_verifier"
    using hashed_key_verifies [OF _ sample_key_parts(2)] sample_key_parts(1)
    by (simp add: hash_api_key_def sample_verifier_def)
  note auth = sample_key_authenticates [OF this, of None]
  then have "authenticate_project_api_key sample_externals (Some sample_key) (key_db None)
      = (Inr \<lparr>pl_key = 30, pl_role = RUNTIME, pl_project = sample_project\<rparr>, key_db None)"
    using sample_key_parts(1) by (simp add: authenticate_project_api_key_def reading_def split: list.split)
  then show ?thesis
    by (simp add: get_authenticated_project_def andThen_def tenant_deployment_def sample_tenant_def returning_def)
qed


end
