(* ===== verification/Sdk_Models.thy ===== *)
theory Sdk_Models
  imports Request_Limits Grant_Tokens
begin

text \<open>
  The response models of the Python SDK, \<open>sdk/python/src/decaustrum/models.py\<close>: how a client
  reads the JSON of the service's answers. The dataclasses of the SDK have the fields of the service's
  models, so the records of \<open>Domain\<close>, \<open>Policy_Engine\<close> and \<open>Grant_Tokens\<close> serve for both.
  A reader returns the value or the \<open>ValueError\<close> of the first field that is wrong, in the order in which
  the code evaluates the fields.
\<close>

section \<open>UUID texts\<close>

text \<open>\<open>uuid.UUID(text)\<close>: prefixes, braces and dashes are dropped, 32 characters remain, and \<open>int(_, 16)\<close> reads them.\<close>

function remove_text :: "string \<Rightarrow> string \<Rightarrow> string" where
  "remove_text p [] = []"
| "remove_text p (c # s) =
     (if p \<noteq> [] \<and> starts_with p (c # s) then remove_text p (drop (length p) (c # s)) else c # remove_text p s)"
  by pat_completeness auto
termination by (relation "measure (\<lambda>(p, s). length s)") (auto simp: Suc_le_eq)

fun base16_digits :: "string \<Rightarrow> nat list option" where
  "base16_digits [] = None"
| "base16_digits [c] = map_option (\<lambda>n. [n]) (Json_Parse.hex_digit c)"
| "base16_digits (c # d # s) = (case Json_Parse.hex_digit c of
     None \<Rightarrow> None
   | Some n \<Rightarrow> map_option (Cons n) (base16_digits (if d = CHR ''_'' then s else d # s)))"

definition base16_value :: "nat list \<Rightarrow> nat" where
  "base16_value = foldl (\<lambda>a n. 16 * a + n) 0"

text \<open>The sign, of which a minus has been dropped with the dashes, and the prefix with its optional underscore.\<close>

definition read_base16 :: "string \<Rightarrow> nat option" where
  "read_base16 text =
     (let s = strip text;
          s = (case s of c # t \<Rightarrow> if c = CHR ''+'' then t else s | [] \<Rightarrow> []);
          s = (if take 2 s \<in> {''0x'', ''0X''} then (if take 1 (drop 2 s) = ''_'' then drop 3 s else drop 2 s) else s)
      in map_option base16_value (base16_digits s))"

definition strip_braces :: "string \<Rightarrow> string" where
  "strip_braces s = (let brace = (\<lambda>c. c = CHR ''{'' \<or> c = CHR ''}'') in
     rev (dropWhile brace (rev (dropWhile brace s))))"

definition read_uuid_text :: "string \<Rightarrow> uuid option" where
  "read_uuid_text text =
     (let h = filter (\<lambda>c. c \<noteq> CHR ''-'') (strip_braces (remove_text ''uuid:'' (remove_text ''urn:'' text))) in
      if text_length h \<noteq> 32 then None else read_base16 h)"

section \<open>Readers of fields\<close>

type_synonym 'a reader = "string \<Rightarrow> json \<Rightarrow> exn + 'a"

text \<open>
  \<open>datetime.fromisoformat\<close> is a parameter: the time a text denotes, and whether it has a time zone.
\<close>

type_synonym time_reader = "string \<Rightarrow> (instant \<times> bool) option"

fun read_mapping :: "(string \<times> json) list reader" where
  "read_mapping name (JObj ms) = Inr ms"
| "read_mapping name v = Inl (ValueError name)"

fun read_sequence :: "json list reader" where
  "read_sequence name (JArr vs) = Inr vs"
| "read_sequence name v = Inl (ValueError name)"

definition required :: "(string \<times> json) list \<Rightarrow> string \<Rightarrow> exn + json" where
  "required data name = (case map_of data name of None \<Rightarrow> Inl (ValueError name) | Some v \<Rightarrow> Inr v)"

definition field :: "'a reader \<Rightarrow> (string \<times> json) list \<Rightarrow> string \<Rightarrow> exn + 'a" where
  "field read data name = bindE (required data name) (read name)"

text \<open>\<open>_optional_...(data.get(name), name)\<close>: a missing member counts as null.\<close>

definition optional_field :: "'a reader \<Rightarrow> (string \<times> json) list \<Rightarrow> string \<Rightarrow> exn + 'a option" where
  "optional_field read data name = (case map_of data name of
     None \<Rightarrow> Inr None
   | Some JNull \<Rightarrow> Inr None
   | Some v \<Rightarrow> bindE (read name v) (\<lambda>x. Inr (Some x)))"

fun read_text :: "string reader" where
  "read_text name (JStr s) = (if s = [] then Inl (ValueError name) else Inr s)"
| "read_text name v = Inl (ValueError name)"

fun read_integer :: "int reader" where
  "read_integer name (JInt i) = Inr i"
| "read_integer name v = Inl (ValueError name)"

fun read_boolean :: "bool reader" where
  "read_boolean name (JBool b) = Inr b"
| "read_boolean name v = Inl (ValueError name)"

text \<open>\<open>UUID(str(value))\<close>: the text of a number may be one, that of the other values never is.\<close>

fun read_uuid :: "uuid reader" where
  "read_uuid name (JStr s) = (case read_uuid_text s of None \<Rightarrow> Inl (ValueError name) | Some u \<Rightarrow> Inr u)"
| "read_uuid name (JInt i) = (case read_uuid_text (show_int i) of None \<Rightarrow> Inl (ValueError name) | Some u \<Rightarrow> Inr u)"
| "read_uuid name v = Inl (ValueError name)"

definition with_offset :: "string \<Rightarrow> string" where
  "with_offset s = (if ends_with ''Z'' s then butlast s @ ''+00:00'' else s)"

fun read_timestamp :: "time_reader \<Rightarrow> instant reader" where
  "read_timestamp T name (JStr s) = (case T (with_offset s) of
     None \<Rightarrow> Inl (ValueError name)
   | Some (t, aware) \<Rightarrow> if aware then Inr t else Inl (ValueError name))"
| "read_timestamp T name v = Inl (ValueError name)"

definition read_choice :: "(string \<times> 'a) list \<Rightarrow> 'a reader" where
  "read_choice choices name v = bindE (read_text name v) (\<lambda>parsed. case map_of choices parsed of
     None \<Rightarrow> Inl (ValueError name)
   | Some x \<Rightarrow> Inr x)"

definition json_object :: "(string \<times> json) list reader" where
  "json_object name v = read_mapping name v"

definition operators :: "(string \<times> operator) list" where
  "operators = map (\<lambda>x. (operator_text x, x)) [Greater_than, Less_than, Equals, Not_equals]"

definition decisions :: "(string \<times> decision) list" where
  "decisions = map (\<lambda>x. (decision_text x, x)) [ALLOW, REQUIRE_APPROVAL, DENY]"

definition matches :: "(string \<times> condition_match) list" where
  "matches = map (\<lambda>x. (match_text x, x)) [Match_all, Match_any]"

definition approval_statuses :: "(string \<times> approval_status) list" where
  "approval_statuses = map (\<lambda>x. (approval_status_text x, x))
     [Approval_PENDING, Approval_APPROVED, Approval_REJECTED, Approval_EXPIRED]"

section \<open>The models\<close>

definition condition_evidence_from :: "condition_evidence reader" where
  "condition_evidence_from name v =
     bindE (read_mapping name v) (\<lambda>data.
     bindE (field read_text data ''field'') (\<lambda>f.
     bindE (field (read_choice operators) data ''operator'') (\<lambda>operator.
     bindE (required data ''actual_value'') (\<lambda>actual.
     bindE (required data ''expected_value'') (\<lambda>expected.
     bindE (field read_boolean data ''matched'') (\<lambda>matched.
       Inr \<lparr>ce_field = f, ce_operator = operator, ce_actual = actual, ce_expected = expected, ce_matched = matched\<rparr>))))))"

definition policy_evidence_from :: "policy_evidence reader" where
  "policy_evidence_from name v =
     bindE (read_mapping name v) (\<lambda>data.
     bindE (field read_sequence data ''conditions'') (\<lambda>conditions.
     bindE (field (read_choice matches) data ''match'') (\<lambda>match.
     bindE (mapE (condition_evidence_from ''condition evidence'') conditions) (\<lambda>cs.
       Inr \<lparr>pe_match = match, pe_conditions = cs\<rparr>))))"

definition trace_entry_from :: "trace_entry reader" where
  "trace_entry_from name v =
     bindE (read_mapping name v) (\<lambda>data.
     bindE (field read_text data ''policy_id'') (\<lambda>policy_id.
     bindE (field read_integer data ''policy_version'') (\<lambda>policy_version.
     bindE (field (read_choice decisions) data ''decision'') (\<lambda>decision.
     bindE (field read_text data ''reason'') (\<lambda>reason.
     bindE (field read_boolean data ''matched'') (\<lambda>matched.
     bindE (field policy_evidence_from data ''evidence'') (\<lambda>evidence.
       Inr \<lparr>te_policy = policy_id, te_version = policy_version, te_decision = decision, te_reason = reason,
            te_matched = matched, te_evidence = evidence\<rparr>)))))))"

definition authorization_from :: "time_reader \<Rightarrow> authorization reader" where
  "authorization_from T name v =
     bindE (read_mapping name v) (\<lambda>data.
     bindE (field read_sequence data ''trace'') (\<lambda>raw_trace.
     bindE (field read_uuid data ''decision_id'') (\<lambda>decision_id.
     bindE (field read_uuid data ''project_id'') (\<lambda>project_id.
     bindE (field (read_timestamp T) data ''evaluated_at'') (\<lambda>evaluated_at.
     bindE (field (read_choice decisions) data ''decision'') (\<lambda>decision.
     bindE (optional_field read_text data ''policy'') (\<lambda>policy.
     bindE (optional_field read_integer data ''policy_version'') (\<lambda>policy_version.
     bindE (field read_text data ''reason'') (\<lambda>reason.
     bindE (optional_field policy_evidence_from data ''evidence'') (\<lambda>evidence.
     bindE (field read_text data ''agent'') (\<lambda>agent.
     bindE (field read_text data ''action'') (\<lambda>action.
     bindE (field json_object data ''context'') (\<lambda>context.
     bindE (mapE (trace_entry_from ''policy trace entry'') raw_trace) (\<lambda>trace.
       Inr \<lparr>au_id = decision_id, au_project = project_id, au_evaluated_at = evaluated_at, au_decision = decision,
            au_policy = policy, au_version = policy_version, au_reason = reason, au_evidence = evidence,
            au_agent = agent, au_action = action, au_context = context, au_trace = trace\<rparr>))))))))))))))"

definition approval_from :: "time_reader \<Rightarrow> approval reader" where
  "approval_from T name v =
     bindE (read_mapping name v) (\<lambda>data.
     bindE (field read_uuid data ''decision_id'') (\<lambda>decision_id.
     bindE (field (read_choice approval_statuses) data ''status'') (\<lambda>status.
     bindE (field (read_timestamp T) data ''requested_at'') (\<lambda>requested_at.
     bindE (optional_field (read_timestamp T) data ''expires_at'') (\<lambda>expires_at.
     bindE (optional_field (read_timestamp T) data ''resolved_at'') (\<lambda>resolved_at.
     bindE (optional_field read_text data ''resolved_by'') (\<lambda>resolved_by.
       Inr \<lparr>ap_decision = decision_id, ap_status = status, ap_requested_at = requested_at, ap_expires_at = expires_at,
            ap_resolved_at = resolved_at, ap_resolved_by = resolved_by\<rparr>)))))))"

definition approval_grant_from :: "time_reader \<Rightarrow> grant_response reader" where
  "approval_grant_from T name v =
     bindE (read_mapping name v) (\<lambda>data.
     bindE (approval_from T name v) (\<lambda>approval.
     bindE (field read_text data ''execution_grant'') (\<lambda>execution_grant.
     bindE (field read_uuid data ''grant_id'') (\<lambda>grant_id.
     bindE (field (read_timestamp T) data ''grant_expires_at'') (\<lambda>grant_expires_at.
       Inr \<lparr>gs_approval = approval, gs_token = execution_grant, gs_grant = grant_id, gs_expires_at = grant_expires_at\<rparr>)))))"

record approval_page =
  ag_items :: "approval list"
  ag_total :: int
  ag_limit :: int
  ag_offset :: int

definition approval_page_from :: "time_reader \<Rightarrow> approval_page reader" where
  "approval_page_from T name v =
     bindE (read_mapping name v) (\<lambda>data.
     bindE (field read_sequence data ''items'') (\<lambda>items.
     bindE (mapE (approval_from T ''approval'') items) (\<lambda>approvals.
     bindE (field read_integer data ''total'') (\<lambda>amount.
     bindE (field read_integer data ''limit'') (\<lambda>limit.
     bindE (field read_integer data ''offset'') (\<lambda>offset.
       Inr \<lparr>ag_items = approvals, ag_total = amount, ag_limit = limit, ag_offset = offset\<rparr>))))))"

definition consumption_from :: "time_reader \<Rightarrow> consumption_response reader" where
  "consumption_from T name v =
     bindE (read_mapping name v) (\<lambda>data.
     bindE (field read_boolean data ''authorized'') (\<lambda>authorized.
     if \<not> authorized then Inl (ValueError ''authorized'') else
     bindE (field read_uuid data ''grant_id'') (\<lambda>grant_id.
     bindE (field read_uuid data ''decision_id'') (\<lambda>decision_id.
     bindE (field (read_timestamp T) data ''consumed_at'') (\<lambda>consumed_at.
     bindE (field read_text data ''consumed_by'') (\<lambda>consumer.
     bindE (field read_text data ''agent'') (\<lambda>agent.
     bindE (field read_text data ''action'') (\<lambda>action.
       Inr \<lparr>cr_grant = grant_id, cr_decision = decision_id, cr_consumed_at = consumed_at, cr_consumed_by = consumer,
            cr_agent = agent, cr_action = action\<rparr>))))))))"

datatype health_status = Health_ok | Health_unavailable

definition health_from :: "health_status reader" where
  "health_from name v =
     bindE (read_mapping name v) (\<lambda>data.
       field (read_choice [(''ok'', Health_ok), (''unavailable'', Health_unavailable)]) data ''status'')"

section \<open>Reading what the service prints\<close>

lemma remove_text_absent: "p \<noteq> [] \<Longrightarrow> hd p \<notin> set s \<Longrightarrow> remove_text p s = s"
  by (induction p s rule: remove_text.induct) (auto simp: starts_with_def neq_Nil_conv)

definition hex_lower :: "char \<Rightarrow> bool" where
  "hex_lower c \<longleftrightarrow> is_digit c \<or> 97 \<le> (of_char c :: nat) \<and> (of_char c :: nat) \<le> 102"

lemma hex_lower_char: "n < 16 \<Longrightarrow> hex_lower (hex_char n)"
  by (auto simp: hex_lower_def hex_char_def is_digit_def)

lemma hex_lower_pad: "c \<in> set (hex_pad w n) \<Longrightarrow> hex_lower c"
  by (induction w arbitrary: n) (auto simp: hex_lower_char)

lemma hex_lower_facts:
  "hex_lower c \<Longrightarrow> 32 < (of_char c :: nat) \<and> (of_char c :: nat) < 128"
  "hex_lower c \<Longrightarrow> c \<notin> {CHR ''u'', CHR ''{'', CHR ''}'', CHR ''-'', CHR ''+'', CHR ''x'', CHR ''X'', CHR ''_''}"
  by (auto simp: hex_lower_def is_digit_def)

lemma hex_lower_digit: "hex_lower c \<Longrightarrow> \<exists>n. Json_Parse.hex_digit c = Some n"
  by (auto simp: hex_lower_def is_digit_def Json_Parse.hex_digit_def Let_def)

lemma set_uuid_text: "c \<in> set (uuid_text u) \<Longrightarrow> hex_lower c \<or> c = CHR ''-''"
  unfolding uuid_text_def Let_def
  by (auto dest!: in_set_takeD in_set_dropD hex_lower_pad)

lemma filter_uuid_text: "filter (\<lambda>c. c \<noteq> CHR ''-'') (uuid_text u) = hex_pad 32 u"
proof -
  let ?h = "hex_pad 32 u"
  have keep: "filter (\<lambda>c. c \<noteq> CHR ''-'') s = s" if "set s \<subseteq> set ?h" for s
    using that hex_lower_facts(2) hex_lower_pad by (intro filter_True) blast
  have sub: "set (take m (drop n ?h)) \<subseteq> set ?h" "set (take m ?h) \<subseteq> set ?h" "set (drop n ?h) \<subseteq> set ?h" for m n
    by (auto dest: in_set_takeD in_set_dropD)
  have "filter (\<lambda>c. c \<noteq> CHR ''-'') (uuid_text u) = take 8 ?h @ take 4 (drop 8 ?h) @ take 4 (drop 12 ?h) @ take 4 (drop 16 ?h) @ drop 20 ?h"
    unfolding uuid_text_def Let_def filter_append by (simp add: keep sub del: hex_pad.simps)
  also have "\<dots> = without_dashes (uuid_text u)"
    by (simp add: without_dashes_def uuid_text_def Let_def del: hex_pad.simps)
  finally show ?thesis by (simp add: without_dashes_uuid_text)
qed

lemma strip_visible: "(\<And>c. c \<in> set s \<Longrightarrow> 32 < (of_char c :: nat) \<and> (of_char c :: nat) < 128) \<Longrightarrow> strip s = s"
proof -
  assume visible: "\<And>c. c \<in> set s \<Longrightarrow> 32 < (of_char c :: nat) \<and> (of_char c :: nat) < 128"
  have "rstrip t = t" if "set t \<subseteq> set s" for t
    using that visible by (induction t) (auto simp: not_blank)
  moreover have "lstrip s = s"
  proof (cases s)
    case Nil
    then show ?thesis by (simp add: lstrip.simps [of "[]"] space_length_def)
  next
    case (Cons c t)
    then have "\<not> blank s" using visible by (auto simp: not_blank)
    from Cons visible have c: "32 < (of_char c :: nat)" "(of_char c :: nat) < 128" by auto
    then have "c \<noteq> CHR 0xC2" "c \<noteq> CHR 0xE1" "c \<noteq> CHR 0xE2" "c \<noteq> CHR 0xE3" by auto
    with c have "space_length (c # t) = 0" by (simp add: space_length_def Let_def split: list.split)
    with Cons show ?thesis by (simp add: lstrip.simps [of "c # t"])
  qed
  ultimately show ?thesis by (simp add: strip_def)
qed

lemma base16_digits_plain:
  "s \<noteq> [] \<Longrightarrow> (\<And>c. c \<in> set s \<Longrightarrow> hex_lower c) \<Longrightarrow>
   base16_digits s = Some (map (\<lambda>c. the (Json_Parse.hex_digit c)) s)"
proof (induction s rule: base16_digits.induct)
  case (2 c)
  then show ?case using hex_lower_digit [of c] by auto
next
  case (3 c d s)
  have "d \<noteq> CHR ''_''" using hex_lower_facts(2) [of d] "3.prems"(2) [of d] by auto
  with 3 show ?case using hex_lower_digit [of c] by auto
qed simp

lemma base16_value_pad: "base16_value (map (\<lambda>c. the (Json_Parse.hex_digit c)) (hex_pad w n)) = n mod 16 ^ w"
proof (induction w arbitrary: n)
  case 0
  then show ?case by (simp add: base16_value_def)
next
  case (Suc w)
  have "16 * (n div 16 mod 16 ^ w) + n mod 16 = n mod 16 ^ Suc w"
    by (simp add: mod_mult2_eq)
  then show ?case using Suc.IH [of "n div 16"] hex_digit_hex_char [of "n mod 16"]
    by (simp add: base16_value_def)
qed

lemma read_uuid_text [simp]: "u < 2 ^ 128 \<Longrightarrow> read_uuid_text (uuid_text u) = Some u"
proof -
  assume u: "u < 2 ^ 128"
  let ?h = "hex_pad 32 u"
  have chars: "c \<notin> {CHR ''u'', CHR ''{'', CHR ''}''}" if "c \<in> set (uuid_text u)" for c
    using set_uuid_text [OF that] hex_lower_facts(2) [of c] by auto
  have "dropWhile (\<lambda>c. c = CHR ''{'' \<or> c = CHR ''}'') s = s" if "set s \<subseteq> set (uuid_text u)" for s
    using that chars by (cases s) auto
  then have "strip_braces (uuid_text u) = uuid_text u" by (simp add: strip_braces_def Let_def)
  moreover have "remove_text ''urn:'' (uuid_text u) = uuid_text u" "remove_text ''uuid:'' (uuid_text u) = uuid_text u"
    using chars [of "CHR ''u''"] by (intro remove_text_absent; fastforce)+
  moreover have "text_length ?h = 32"
  proof -
    have "filter (\<lambda>c. (of_char c :: nat) < 128 \<or> 192 \<le> (of_char c :: nat)) ?h = ?h"
      using hex_lower_facts(1) hex_lower_pad by (intro filter_True) blast
    then show ?thesis by (simp add: text_length_def del: hex_pad.simps)
  qed
  moreover have "read_base16 ?h = Some u"
  proof -
    have stripped: "strip ?h = ?h" using hex_lower_facts(1) hex_lower_pad by (intro strip_visible) blast
    have "?h \<noteq> []" using length_hex_pad [of 32 u] by (metis list.size(3) zero_neq_numeral)
    then obtain c t where ct: "?h = c # t" by (cases ?h) auto
    have "c \<noteq> CHR ''+''" using hex_lower_pad [of c 32 u] hex_lower_facts(2) [of c] ct by auto
    with ct have plus: "(case ?h of c # t \<Rightarrow> if c = CHR ''+'' then t else ?h | [] \<Rightarrow> []) = ?h" by simp
    have "\<not> take 2 ?h \<in> {''0x'', ''0X''}"
    proof
      assume "take 2 ?h \<in> {''0x'', ''0X''}"
      then have "\<exists>x \<in> {CHR ''x'', CHR ''X''}. x \<in> set (take 2 ?h)" by auto
      then show False using hex_lower_pad [of _ 32 u] hex_lower_facts(2) by (auto dest!: in_set_takeD)
    qed
    then have "read_base16 ?h = map_option base16_value (base16_digits ?h)"
      unfolding read_base16_def Let_def stripped plus by (rule arg_cong [OF if_not_P])
    moreover have "base16_digits ?h = Some (map (\<lambda>c. the (Json_Parse.hex_digit c)) ?h)"
      using ct by (intro base16_digits_plain) (simp, erule hex_lower_pad)
    ultimately show ?thesis using u base16_value_pad [of 32 u] by (simp del: hex_pad.simps)
  qed
  ultimately show ?thesis by (simp add: read_uuid_text_def filter_uuid_text Let_def)
qed

text \<open>\<open>readable ok x r\<close>: the reading \<open>r\<close> gives \<open>x\<close> when \<open>ok\<close>, and else fails on some field.\<close>

definition readable :: "bool \<Rightarrow> 'a \<Rightarrow> exn + 'a \<Rightarrow> bool" where
  "readable ok x r \<longleftrightarrow> (if ok then r = Inr x else \<exists>name. r = Inl (ValueError name))"

lemma readable_simps [simp]: "readable ok x (Inr x) \<longleftrightarrow> ok" "readable True x r \<longleftrightarrow> r = Inr x"
  by (auto simp: readable_def)

lemma readable_bind:
  "readable ok x r \<Longrightarrow> (ok \<Longrightarrow> readable ok' y (f x)) \<Longrightarrow> readable (ok \<and> ok') y (bindE r f)"
  by (auto simp: readable_def split: if_splits)

lemma readable_mapE: "(\<And>x. readable (ok x) x (f (g x))) \<Longrightarrow> readable (list_all ok xs) xs (mapE f (map g xs))"
proof (induction xs)
  case (Cons x xs)
  have "readable (ok x \<and> list_all ok xs) (x # xs) (bindE (f (g x)) (\<lambda>y. bindE (mapE f (map g xs)) (\<lambda>ys. Inr (y # ys))))"
  proof (rule readable_bind [OF Cons.prems])
    have "readable (list_all ok xs \<and> True) (x # xs) (bindE (mapE f (map g xs)) (\<lambda>ys. Inr (x # ys)))"
      by (rule readable_bind [OF Cons.IH [OF Cons.prems]]) simp
    then show "readable (list_all ok xs) (x # xs) (bindE (mapE f (map g xs)) (\<lambda>ys. Inr (x # ys)))" by simp
  qed
  then show ?case by simp
qed simp

lemma readable_text: "readable (s \<noteq> []) s (read_text name (JStr s))"
  by (simp add: readable_def)

lemma read_choice_text [simp]:
  "read_choice operators name (JStr (operator_text x)) = Inr x"
  "read_choice decisions name (JStr (decision_text y)) = Inr y"
  "read_choice matches name (JStr (match_text z)) = Inr z"
  "read_choice approval_statuses name (JStr (approval_status_text w)) = Inr w"
  by (cases x, simp_all add: read_choice_def operators_def, cases y, simp_all add: decisions_def,
    cases z, simp_all add: matches_def, cases w, simp_all add: approval_statuses_def)

lemma read_uuid_json [simp]: "u < 2 ^ 128 \<Longrightarrow> read_uuid name (uuid_json u) = Inr u"
  by (simp add: uuid_json_def)

text \<open>The texts that the SDK requires not to be empty.\<close>

definition evidence_texts :: "policy_evidence \<Rightarrow> bool" where
  "evidence_texts e \<longleftrightarrow> list_all (\<lambda>c. ce_field c \<noteq> []) (pe_conditions e)"

definition trace_texts :: "trace_entry \<Rightarrow> bool" where
  "trace_texts t \<longleftrightarrow> te_policy t \<noteq> [] \<and> te_reason t \<noteq> [] \<and> evidence_texts (te_evidence t)"

definition authorization_texts :: "authorization \<Rightarrow> bool" where
  "authorization_texts a \<longleftrightarrow> au_policy a \<noteq> Some [] \<and> au_reason a \<noteq> []
     \<and> (case au_evidence a of None \<Rightarrow> True | Some e \<Rightarrow> evidence_texts e)
     \<and> au_agent a \<noteq> [] \<and> au_action a \<noteq> [] \<and> list_all trace_texts (au_trace a)"

lemma readable_condition: "readable (ce_field c \<noteq> []) c (condition_evidence_from name (condition_evidence_json c))"
  by (simp add: condition_evidence_from_def condition_evidence_json_def field_def required_def readable_def)

lemma readable_evidence: "readable (evidence_texts e) e (policy_evidence_from name (evidence_json e))"
proof -
  have "readable (evidence_texts e \<and> True) e (bindE (mapE (condition_evidence_from ''condition evidence'')
      (map condition_evidence_json (pe_conditions e))) (\<lambda>cs. Inr \<lparr>pe_match = pe_match e, pe_conditions = cs\<rparr>))"
    unfolding evidence_texts_def by (rule readable_bind [OF readable_mapE]) (simp_all add: readable_condition)
  then show ?thesis by (simp add: policy_evidence_from_def evidence_json_def field_def required_def)
qed

lemma readable_trace: "readable (trace_texts t) t (trace_entry_from name (trace_json t))"
proof -
  have "readable (te_policy t \<noteq> [] \<and> te_reason t \<noteq> [] \<and> evidence_texts (te_evidence t) \<and> True) t
    (bindE (read_text ''policy_id'' (JStr (te_policy t))) (\<lambda>policy_id.
     bindE (read_text ''reason'' (JStr (te_reason t))) (\<lambda>reason.
     bindE (policy_evidence_from ''evidence'' (evidence_json (te_evidence t))) (\<lambda>evidence.
       Inr \<lparr>te_policy = policy_id, te_version = te_version t, te_decision = te_decision t, te_reason = reason,
            te_matched = te_matched t, te_evidence = evidence\<rparr>))))"
    by (rule readable_bind [OF readable_text], rule readable_bind [OF readable_text], rule readable_bind [OF readable_evidence]) simp
  then show ?thesis
    by (simp add: trace_entry_from_def trace_json_def field_def required_def trace_texts_def)
qed

lemma readable_next: "r = Inr x \<Longrightarrow> readable ok y (f x) \<Longrightarrow> readable ok y (bindE r f)"
  by simp

lemma readable_optional:
  assumes "map_of data name = Some (opt_json g v)" and "\<And>x. readable (ok x) x (read name (g x))" and "\<And>x. g x \<noteq> JNull"
  shows "readable (case v of None \<Rightarrow> True | Some x \<Rightarrow> ok x) v (optional_field read data name)"
proof (cases v)
  case None
  then show ?thesis using assms(1) by (simp add: optional_field_def opt_json_def)
next
  case (Some x)
  have "readable (ok x \<and> True) (Some x) (bindE (read name (g x)) (\<lambda>y. Inr (Some y)))"
    by (rule readable_bind [OF assms(2)]) simp
  then show ?thesis using assms(1) assms(3) [of x] Some
    by (cases "g x") (simp_all add: optional_field_def opt_json_def)
qed

text \<open>
  C38: The SDK reads the JSON of a stored decision back as exactly that decision when the texts it
  reports - policy, reason, agent, action, the fields of the conditions and the texts of the trace - are
  not empty, and otherwise refuses the whole answer; the service stores policies with empty texts.
\<close>

theorem sdk_reads_decisions:
  assumes "au_id a < 2 ^ 128" and "au_project a < 2 ^ 128"
    and "T (with_offset (x_time X (au_evaluated_at a))) = Some (au_evaluated_at a, True)"
  shows "if authorization_texts a then authorization_from T name (authorization_json X a) = Inr a
    else \<exists>f. authorization_from T name (authorization_json X a) = Inl (ValueError f)"
proof -
  define data where "data = [(''decision_id'', uuid_json (au_id a)),
     (''project_id'', uuid_json (au_project a)), (''evaluated_at'', time_json X (au_evaluated_at a)),
     (''decision'', JStr (decision_text (au_decision a))), (''policy'', opt_json JStr (au_policy a)),
     (''policy_version'', opt_json JInt (au_version a)), (''reason'', JStr (au_reason a)),
     (''evidence'', opt_json evidence_json (au_evidence a)), (''agent'', JStr (au_agent a)),
     (''action'', JStr (au_action a)), (''context'', JObj (au_context a)),
     (''trace'', JArr (map trace_json (au_trace a)))]"
  have version: "optional_field read_integer data ''policy_version'' = Inr (au_version a)"
    using readable_optional [of data "''policy_version''" JInt "au_version a" "\<lambda>_. True" read_integer]
    by (cases "au_version a") (simp_all add: data_def)
  have policy: "readable (case au_policy a of None \<Rightarrow> True | Some s \<Rightarrow> s \<noteq> []) (au_policy a) (optional_field read_text data ''policy'')"
    by (rule readable_optional [where g = JStr]) (simp_all add: data_def readable_text del: read_text.simps)
  have evidence: "readable (case au_evidence a of None \<Rightarrow> True | Some e \<Rightarrow> evidence_texts e) (au_evidence a)
      (optional_field policy_evidence_from data ''evidence'')"
    by (rule readable_optional [where g = evidence_json]) (simp_all add: data_def readable_evidence, simp add: evidence_json_def)
  have fields: "field read_sequence data ''trace'' = Inr (map trace_json (au_trace a))"
    "field read_uuid data ''decision_id'' = Inr (au_id a)" "field read_uuid data ''project_id'' = Inr (au_project a)"
    "field (read_timestamp T) data ''evaluated_at'' = Inr (au_evaluated_at a)"
    "field (read_choice decisions) data ''decision'' = Inr (au_decision a)"
    "field json_object data ''context'' = Inr (au_context a)"
    using assms by (simp_all add: data_def field_def required_def time_json_def json_object_def)
  have texts: "readable (s \<noteq> []) s (field read_text data n)" if "map_of data n = Some (JStr s)" for s n
    using that by (simp add: field_def required_def readable_text del: read_text.simps)
  have "readable ((case au_policy a of None \<Rightarrow> True | Some s \<Rightarrow> s \<noteq> []) \<and> au_reason a \<noteq> []
      \<and> (case au_evidence a of None \<Rightarrow> True | Some e \<Rightarrow> evidence_texts e)
      \<and> au_agent a \<noteq> [] \<and> au_action a \<noteq> [] \<and> list_all trace_texts (au_trace a) \<and> True)
    a (authorization_from T name (JObj data))"
    unfolding authorization_from_def
    by (rule readable_next, rule read_mapping.simps, rule readable_next [OF fields(1)], rule readable_next [OF fields(2)],
      rule readable_next [OF fields(3)], rule readable_next [OF fields(4)], rule readable_next [OF fields(5)],
      rule readable_bind [OF policy], rule readable_next [OF version], rule readable_bind [OF texts], simp add: data_def,
      rule readable_bind [OF evidence], rule readable_bind [OF texts], simp add: data_def,
      rule readable_bind [OF texts], simp add: data_def, rule readable_next [OF fields(6)],
      rule readable_bind [OF readable_mapE], rule readable_trace) simp
  moreover have "authorization_json X a = JObj data" by (simp add: authorization_json_def data_def)
  moreover have "(case au_policy a of None \<Rightarrow> True | Some s \<Rightarrow> s \<noteq> []) \<longleftrightarrow> au_policy a \<noteq> Some []"
    by (auto split: option.split)
  ultimately show ?thesis by (simp add: readable_def authorization_texts_def)
qed

definition answered :: "string \<Rightarrow> authorization" where
  "answered reason = \<lparr>au_id = 7, au_project = 2, au_evaluated_at = 0, au_decision = ALLOW, au_policy = Some ''p'',
     au_version = Some 1, au_reason = reason, au_evidence = None, au_agent = ''agent'', au_action = ''pay'',
     au_context = [], au_trace = []\<rparr>"

theorem sdk_reads_decisions_witness:
  "authorization_from (\<lambda>_. Some (0, True)) [] (authorization_json sample_externals (answered ''covered'')) = Inr (answered ''covered'')
   \<and> (\<exists>f. authorization_from (\<lambda>_. Some (0, True)) [] (authorization_json sample_externals (answered [])) = Inl (ValueError f))"
proof -
  have "authorization_texts (answered ''covered'')" "\<not> authorization_texts (answered [])"
    by (simp_all add: authorization_texts_def answered_def)
  then show ?thesis
    using sdk_reads_decisions [of "answered ''covered''" "\<lambda>_. Some (0, True)" sample_externals "[]"]
      sdk_reads_decisions [of "answered []" "\<lambda>_. Some (0, True)" sample_externals "[]"]
    by (simp add: answered_def)
qed

end
