(* ===== verification/Sdk_Client.thy ===== *)
theory Sdk_Client
  imports Sdk_Models
begin

text \<open>
  The synchronous client of the Python SDK and its guard, \<open>sdk/python/src/decaustrum\<close>: \<open>_http.py\<close>,
  \<open>client.py\<close>, \<open>errors.py\<close> and \<open>guard.py\<close>. What is outside - the HTTP transport, the monotonic clock,
  \<open>sleep\<close>, \<open>uuid4\<close>, and the operation a guard runs - acts on a world of an arbitrary type, so that a step
  says exactly what it does to the world and in which order. Durations are rationals; a float that is not
  finite and an argument of another type than its annotation are not represented.
\<close>

section \<open>Errors\<close>

datatype api_error_type = DecAustrumAPIError | AuthenticationError | NotFoundError | ConflictError
  | RequestValidationError | RateLimitError | ServerError

record api_error =
  er_type :: api_error_type
  er_status :: int
  er_code :: string
  er_message :: string
  er_request :: "string option"
  er_details :: json
  er_retry_after :: "string option"

text \<open>\<open>Raised_outside\<close>: what the transport or the guarded operation raises on its own.\<close>

datatype sdk_exn =
    Bad_argument string
  | Client_closed
  | Transport_timeout
  | Transport_unreachable
  | Protocol_error string
  | Api_error api_error
  | Action_denied authorization
  | Approval_required authorization
  | Approval_wait_timeout uuid
  | Raised_outside string

section \<open>Actions on the world\<close>

type_synonym ('w, 'a) action = "'w \<Rightarrow> (sdk_exn + 'a) \<times> 'w"

definition thenW :: "('w, 'a) action \<Rightarrow> ('a \<Rightarrow> ('w, 'b) action) \<Rightarrow> ('w, 'b) action" where
  "thenW m f w = (case m w of (Inl e, w') \<Rightarrow> (Inl e, w') | (Inr x, w') \<Rightarrow> f x w')"

definition pureW :: "sdk_exn + 'a \<Rightarrow> ('w, 'a) action" where
  "pureW r w = (r, w)"

record wire_request =
  wq_method :: string
  wq_url :: string
  wq_headers :: "(string \<times> string) list"
  wq_json :: "json option"
  wq_params :: "(string \<times> json) list option"

text \<open>\<open>response.json()\<close> is None when the body is not JSON.\<close>

record wire_response =
  wr_status :: int
  wr_reason :: string
  wr_header :: "string \<Rightarrow> string option"
  wr_json :: "json option"

datatype wire_failure = Wire_timeout | Wire_request_error | Wire_other string

record 'w outside =
  ou_send :: "wire_request \<Rightarrow> 'w \<Rightarrow> (wire_failure + wire_response) \<times> 'w"
  ou_clock :: "'w \<Rightarrow> rat \<times> 'w"
  ou_sleep :: "rat \<Rightarrow> 'w \<Rightarrow> 'w"
  ou_uuid :: "'w \<Rightarrow> uuid \<times> 'w"

record sdk_library =
  sl_urls :: url_library
  sl_loopback :: "string \<Rightarrow> bool option"
  sl_time :: time_reader

section \<open>Arguments\<close>

definition is_loopback_host :: "sdk_library \<Rightarrow> string option \<Rightarrow> bool" where
  "is_loopback_host L hostname = (case hostname of
     None \<Rightarrow> False
   | Some h \<Rightarrow>
       let normalized = py_lower (rstrip_char (CHR ''.'') h) in
       if normalized = ''localhost'' then True
       else (case sl_loopback L normalized of None \<Rightarrow> False | Some b \<Rightarrow> b))"

definition normalize_base_url :: "sdk_library \<Rightarrow> string \<Rightarrow> sdk_exn + string" where
  "normalize_base_url L base_url =
     (if strip base_url = [] then Inl (Bad_argument ''base_url'')
      else let normalized = rstrip_char (CHR ''/'') (strip base_url) in
        case urlsplit (sl_urls L) normalized of
          Inl e \<Rightarrow> Inl (Bad_argument ''base_url'')
        | Inr parsed \<Rightarrow>
            if su_scheme parsed \<notin> {''http'', ''https''} \<or> su_netloc parsed = []
               \<or> fst (url_userinfo parsed) \<noteq> None \<or> snd (url_userinfo parsed) \<noteq> None
               \<or> su_query parsed \<noteq> [] \<or> su_fragment parsed \<noteq> []
            then Inl (Bad_argument ''base_url'')
            else if su_scheme parsed = ''http'' \<and> \<not> is_loopback_host L (url_hostname parsed)
            then Inl (Bad_argument ''base_url must use HTTPS'')
            else Inr normalized)"

definition normalize_api_key :: "string \<Rightarrow> sdk_exn + string" where
  "normalize_api_key api_key = (if api_key = [] then Inl (Bad_argument ''api_key'') else Inr api_key)"

definition normalize_identifier :: "string \<Rightarrow> string \<Rightarrow> sdk_exn + string" where
  "normalize_identifier v name = (if strip v = [] then Inl (Bad_argument name) else Inr (strip v))"

definition normalize_limited :: "nat \<Rightarrow> string \<Rightarrow> string option \<Rightarrow> sdk_exn + string option" where
  "normalize_limited maximum name v = (case v of
     None \<Rightarrow> Inr None
   | Some s \<Rightarrow> bindE (normalize_identifier s name) (\<lambda>normalized.
       if maximum < text_length normalized then Inl (Bad_argument name) else Inr (Some normalized)))"

definition normalize_optional_reason :: "string option \<Rightarrow> sdk_exn + string option" where
  "normalize_optional_reason = normalize_limited 500 ''reason''"

definition normalize_idempotency_key :: "string option \<Rightarrow> sdk_exn + string option" where
  "normalize_idempotency_key = normalize_limited 255 ''idempotency_key''"

text \<open>A UUID object or its text.\<close>

definition normalize_uuid :: "uuid + string \<Rightarrow> string \<Rightarrow> sdk_exn + uuid" where
  "normalize_uuid v name = (case v of
     Inl u \<Rightarrow> Inr u
   | Inr s \<Rightarrow> (case read_uuid_text s of None \<Rightarrow> Inl (Bad_argument name) | Some u \<Rightarrow> Inr u))"

definition normalize_timeout :: "rat \<Rightarrow> sdk_exn + rat" where
  "normalize_timeout t = (if t \<le> 0 then Inl (Bad_argument ''timeout'') else Inr t)"

definition normalize_page :: "int \<Rightarrow> int \<Rightarrow> sdk_exn + int \<times> int" where
  "normalize_page limit offset =
     (if \<not> (1 \<le> limit \<and> limit \<le> 100) then Inl (Bad_argument ''limit'')
      else if offset < 0 then Inl (Bad_argument ''offset'')
      else Inr (limit, offset))"

definition build_url :: "string \<Rightarrow> string \<Rightarrow> string" where
  "build_url base_url path = base_url @ ''/'' @ dropWhile (\<lambda>c. c = CHR ''/'') path"

definition build_headers :: "string \<Rightarrow> uuid \<Rightarrow> (string \<times> string) list \<Rightarrow> (string \<times> string) list" where
  "build_headers api_key request extra =
     [(''Accept'', ''application/json''), (''User-Agent'', ''decaustrum-python/0.1.0''), (''X-API-Key'', api_key),
      (''X-Request-ID'', uuid_text request)] @ extra"

section \<open>Responses\<close>

definition error_payload :: "wire_response \<Rightarrow> string \<times> string \<times> json" where
  "error_payload response =
     (let rejected = ''DecAustrum rejected the request.'';
          detail = (case wr_json response of
            Some (JObj payload) \<Rightarrow> (case map_of payload ''detail'' of Some v \<Rightarrow> v | None \<Rightarrow> JNull)
          | _ \<Rightarrow> JNull)
      in case detail of
           JObj ms \<Rightarrow>
             ((case map_of ms ''code'' of Some (JStr (c # cs)) \<Rightarrow> c # cs | _ \<Rightarrow> ''api_error''),
              (case map_of ms ''message'' of Some (JStr (c # cs)) \<Rightarrow> c # cs | _ \<Rightarrow> rejected), detail)
         | JArr vs \<Rightarrow> (''validation_error'', ''DecAustrum rejected the request as invalid.'', detail)
         | _ \<Rightarrow> (''http_error'', (if wr_reason response = [] then rejected else wr_reason response), detail))"

definition error_type :: "int \<Rightarrow> api_error_type" where
  "error_type status =
     (if status \<in> {401, 403} then AuthenticationError
      else if status = 404 then NotFoundError
      else if status = 409 then ConflictError
      else if status = 422 then RequestValidationError
      else if status = 429 then RateLimitError
      else if 500 \<le> status then ServerError
      else DecAustrumAPIError)"

definition raise_for_status :: "wire_response \<Rightarrow> sdk_exn + unit" where
  "raise_for_status response =
     (if wr_status response < 400 then Inr ()
      else (case error_payload response of (code, message, details) \<Rightarrow>
        Inl (Api_error \<lparr>er_type = error_type (wr_status response), er_status = wr_status response, er_code = code,
          er_message = message, er_request = wr_header response ''X-Request-ID'', er_details = details,
          er_retry_after = wr_header response ''Retry-After''\<rparr>)))"

definition parse_response :: "wire_response \<Rightarrow> 'a reader \<Rightarrow> sdk_exn + 'a" where
  "parse_response response parser =
     bindE (raise_for_status response) (\<lambda>_. case wr_json response of
       None \<Rightarrow> Inl (Protocol_error ''non-JSON success response'')
     | Some (JObj payload) \<Rightarrow> (case parser ''payload'' (JObj payload) of
           Inl e \<Rightarrow> Inl (Protocol_error ''does not match the SDK contract'')
         | Inr x \<Rightarrow> Inr x)
     | Some _ \<Rightarrow> Inl (Protocol_error ''success response that is not an object''))"

section \<open>The client\<close>

record sdk_client =
  cl_api_key :: string
  cl_base_url :: string
  cl_timeout :: rat
  cl_owns_http_client :: bool
  cl_closed :: bool

definition DEFAULT_BASE_URL :: string where
  "DEFAULT_BASE_URL = ''http://localhost:8000''"

text \<open>The client is given an HTTP client or creates its own.\<close>

definition new_client :: "sdk_library \<Rightarrow> string \<Rightarrow> string \<Rightarrow> rat \<Rightarrow> bool \<Rightarrow> sdk_exn + sdk_client" where
  "new_client L api_key base_url timeout given =
     bindE (normalize_api_key api_key) (\<lambda>key.
     bindE (normalize_base_url L base_url) (\<lambda>url.
     bindE (normalize_timeout timeout) (\<lambda>t.
       Inr \<lparr>cl_api_key = key, cl_base_url = url, cl_timeout = t, cl_owns_http_client = \<not> given, cl_closed = False\<rparr>)))"

definition client_from_environment :: "sdk_library \<Rightarrow> environment \<Rightarrow> rat \<Rightarrow> bool \<Rightarrow> sdk_exn + sdk_client" where
  "client_from_environment L env timeout given = (case env ''DECAUSTRUM_API_KEY'' of
     Some (k # ks) \<Rightarrow> new_client L (k # ks)
       (case env ''DECAUSTRUM_BASE_URL'' of Some u \<Rightarrow> u | None \<Rightarrow> DEFAULT_BASE_URL) timeout given
   | _ \<Rightarrow> Inl (Bad_argument ''DECAUSTRUM_API_KEY must be configured''))"

text \<open>The closed client, and whether the HTTP client is closed with it.\<close>

definition close_client :: "sdk_client \<Rightarrow> sdk_client \<times> bool" where
  "close_client c = (if cl_closed c then (c, False) else (c\<lparr>cl_closed := True\<rparr>, cl_owns_http_client c))"

definition ensure_open :: "sdk_client \<Rightarrow> sdk_exn + unit" where
  "ensure_open c = (if cl_closed c then Inl Client_closed else Inr ())"

definition send_request :: "'w outside \<Rightarrow> sdk_client \<Rightarrow> string \<Rightarrow> string \<Rightarrow> json option \<Rightarrow> (string \<times> json) list option
    \<Rightarrow> (string \<times> string) list \<Rightarrow> ('w, wire_response) action" where
  "send_request W c request_method path body params extra =
     thenW (pureW (ensure_open c)) (\<lambda>_ w.
       case ou_uuid W w of (request, w1) \<Rightarrow>
       case ou_send W \<lparr>wq_method = request_method, wq_url = build_url (cl_base_url c) path,
           wq_headers = build_headers (cl_api_key c) request extra, wq_json = body, wq_params = params\<rparr> w1 of
         (Inr response, w2) \<Rightarrow> (Inr response, w2)
       | (Inl Wire_timeout, w2) \<Rightarrow> (Inl Transport_timeout, w2)
       | (Inl Wire_request_error, w2) \<Rightarrow> (Inl Transport_unreachable, w2)
       | (Inl (Wire_other e), w2) \<Rightarrow> (Inl (Raised_outside e), w2))"

definition requesting :: "'w outside \<Rightarrow> sdk_client \<Rightarrow> string \<Rightarrow> string \<Rightarrow> json option \<Rightarrow> (string \<times> json) list option
    \<Rightarrow> (string \<times> string) list \<Rightarrow> 'a reader \<Rightarrow> ('w, 'a) action" where
  "requesting W c request_method path body params extra parser =
     thenW (send_request W c request_method path body params extra) (\<lambda>response. pureW (parse_response response parser))"

definition client_health :: "'w outside \<Rightarrow> sdk_client \<Rightarrow> ('w, health_status) action" where
  "client_health W c = requesting W c ''GET'' ''/health'' None None [] health_from"

definition client_authorize :: "'w outside \<Rightarrow> sdk_library \<Rightarrow> sdk_client \<Rightarrow> string \<Rightarrow> string \<Rightarrow> context_object
    \<Rightarrow> string option \<Rightarrow> ('w, authorization) action" where
  "client_authorize W L c agent action context idempotency_key =
     thenW (pureW (normalize_idempotency_key idempotency_key)) (\<lambda>normalized_key.
     thenW (pureW (normalize_identifier agent ''agent'')) (\<lambda>agent.
     thenW (pureW (normalize_identifier action ''action'')) (\<lambda>action.
       requesting W c ''POST'' ''/v1/authorize''
         (Some (JObj [(''agent'', JStr agent), (''action'', JStr action), (''context'', JObj context)])) None
         (case normalized_key of None \<Rightarrow> [] | Some k \<Rightarrow> [(''Idempotency-Key'', k)])
         (authorization_from (sl_time L)))))"

definition client_get_decision :: "'w outside \<Rightarrow> sdk_library \<Rightarrow> sdk_client \<Rightarrow> uuid + string \<Rightarrow> ('w, authorization) action" where
  "client_get_decision W L c did =
     thenW (pureW (normalize_uuid did ''decision_id'')) (\<lambda>u.
       requesting W c ''GET'' (''/v1/decisions/'' @ uuid_text u) None None [] (authorization_from (sl_time L)))"

text \<open>The status is text of the caller's: None, or one that must be one of the four.\<close>

definition client_list_approvals :: "'w outside \<Rightarrow> sdk_library \<Rightarrow> sdk_client \<Rightarrow> string option \<Rightarrow> int \<Rightarrow> int
    \<Rightarrow> ('w, approval_page) action" where
  "client_list_approvals W L c status limit offset =
     thenW (pureW (normalize_page limit offset)) (\<lambda>(limit, offset).
       if status \<noteq> None \<and> map_of approval_statuses (the status) = None then pureW (Inl (Bad_argument ''status''))
       else requesting W c ''GET'' ''/v1/approvals'' None
         (Some ([(''limit'', JInt limit), (''offset'', JInt offset)]
            @ (case status of None \<Rightarrow> [] | Some s \<Rightarrow> [(''status'', JStr s)]))) []
         (approval_page_from (sl_time L)))"

definition client_get_approval :: "'w outside \<Rightarrow> sdk_library \<Rightarrow> sdk_client \<Rightarrow> uuid + string \<Rightarrow> ('w, approval) action" where
  "client_get_approval W L c did =
     thenW (pureW (normalize_uuid did ''decision_id'')) (\<lambda>u.
       requesting W c ''GET'' (''/v1/approvals/'' @ uuid_text u) None None [] (approval_from (sl_time L)))"

text \<open>The loop need not end: a clock may stand still.\<close>

partial_function (option) wait_loop :: "'w outside \<Rightarrow> ('w, approval) action \<Rightarrow> uuid \<Rightarrow> rat \<Rightarrow> rat \<Rightarrow> 'w
    \<Rightarrow> ((sdk_exn + approval) \<times> 'w) option" where
  "wait_loop W poll did interval deadline w =
     (case poll w of
        (Inl e, w1) \<Rightarrow> Some (Inl e, w1)
      | (Inr approval, w1) \<Rightarrow>
          if ap_status approval \<noteq> Approval_PENDING then Some (Inr approval, w1)
          else (case ou_clock W w1 of (t, w2) \<Rightarrow>
            if deadline - t \<le> 0 then Some (Inl (Approval_wait_timeout did), w2)
            else wait_loop W poll did interval deadline (ou_sleep W (min interval (deadline - t)) w2)))"

definition client_wait_for_approval :: "'w outside \<Rightarrow> sdk_library \<Rightarrow> sdk_client \<Rightarrow> uuid + string \<Rightarrow> rat \<Rightarrow> rat \<Rightarrow> 'w
    \<Rightarrow> ((sdk_exn + approval) \<times> 'w) option" where
  "client_wait_for_approval W L c did timeout poll_interval w =
     (case bindE (normalize_uuid did ''decision_id'') (\<lambda>u. bindE (normalize_timeout timeout) (\<lambda>t.
         bindE (normalize_timeout poll_interval) (\<lambda>i. Inr (u, t, i)))) of
        Inl e \<Rightarrow> Some (Inl e, w)
      | Inr (u, t, i) \<Rightarrow> (case ou_clock W w of (started, w1) \<Rightarrow>
          wait_loop W (client_get_approval W L c (Inl u)) u i (started + t) w1))"

definition reason_body :: "string option \<Rightarrow> json" where
  "reason_body reason = JObj [(''reason'', opt_json JStr reason)]"

definition client_approve :: "'w outside \<Rightarrow> sdk_library \<Rightarrow> sdk_client \<Rightarrow> uuid + string \<Rightarrow> string option \<Rightarrow> ('w, grant_response) action" where
  "client_approve W L c did reason =
     thenW (pureW (normalize_uuid did ''decision_id'')) (\<lambda>u.
     thenW (pureW (normalize_optional_reason reason)) (\<lambda>reason.
       requesting W c ''POST'' (''/v1/approvals/'' @ uuid_text u @ ''/approve'') (Some (reason_body reason)) None []
         (approval_grant_from (sl_time L))))"

definition client_reject :: "'w outside \<Rightarrow> sdk_library \<Rightarrow> sdk_client \<Rightarrow> uuid + string \<Rightarrow> string option \<Rightarrow> ('w, approval) action" where
  "client_reject W L c did reason =
     thenW (pureW (normalize_uuid did ''decision_id'')) (\<lambda>u.
     thenW (pureW (normalize_optional_reason reason)) (\<lambda>reason.
       requesting W c ''POST'' (''/v1/approvals/'' @ uuid_text u @ ''/reject'') (Some (reason_body reason)) None []
         (approval_from (sl_time L))))"

definition client_consume_execution_grant :: "'w outside \<Rightarrow> sdk_library \<Rightarrow> sdk_client \<Rightarrow> string \<Rightarrow> string \<Rightarrow> string
    \<Rightarrow> context_object \<Rightarrow> string \<Rightarrow> ('w, consumption_response) action" where
  "client_consume_execution_grant W L c execution_grant agent action context consumer =
     thenW (pureW (normalize_identifier execution_grant ''execution_grant'')) (\<lambda>execution_grant.
     thenW (pureW (normalize_identifier agent ''agent'')) (\<lambda>agent.
     thenW (pureW (normalize_identifier action ''action'')) (\<lambda>action.
     thenW (pureW (normalize_identifier consumer ''consumed_by'')) (\<lambda>consumer.
       requesting W c ''POST'' ''/v1/execution-grants/consume''
         (Some (JObj [(''execution_grant'', JStr execution_grant), (''agent'', JStr agent), (''action'', JStr action),
            (''context'', JObj context), (''consumed_by'', JStr consumer)])) None []
         (consumption_from (sl_time L))))))"

section \<open>The guard\<close>

record 'v guarded_execution =
  ge_value :: 'v
  ge_authorization :: "authorization option"
  ge_consumption :: "consumption_response option"

text \<open>\<open>__post_init__\<close> wants exactly one of the two records.\<close>

definition guarded :: "'v \<Rightarrow> authorization option \<Rightarrow> consumption_response option \<Rightarrow> sdk_exn + 'v guarded_execution" where
  "guarded v a s =
     (if (a = None) = (s = None) then Inl (Bad_argument ''exactly one authorization or grant consumption record'')
      else Inr \<lparr>ge_value = v, ge_authorization = a, ge_consumption = s\<rparr>)"

definition guard_execute :: "'w outside \<Rightarrow> sdk_library \<Rightarrow> sdk_client \<Rightarrow> string \<Rightarrow> string \<Rightarrow> context_object \<Rightarrow> string option
    \<Rightarrow> ('w, 'v) action \<Rightarrow> ('w, 'v guarded_execution) action" where
  "guard_execute W L c agent action context idempotency_key operation =
     thenW (client_authorize W L c agent action context idempotency_key) (\<lambda>decision.
       if au_decision decision = DENY then pureW (Inl (Action_denied decision))
       else if au_decision decision = REQUIRE_APPROVAL then pureW (Inl (Approval_required decision))
       else thenW operation (\<lambda>v. pureW (guarded v (Some decision) None)))"

definition guard_execute_approved :: "'w outside \<Rightarrow> sdk_library \<Rightarrow> sdk_client \<Rightarrow> string \<Rightarrow> string \<Rightarrow> string \<Rightarrow> context_object
    \<Rightarrow> string \<Rightarrow> ('w, 'v) action \<Rightarrow> ('w, 'v guarded_execution) action" where
  "guard_execute_approved W L c execution_grant agent action context consumer operation =
     thenW (client_consume_execution_grant W L c execution_grant agent action context consumer) (\<lambda>consumption.
       thenW operation (\<lambda>v. pureW (guarded v None (Some consumption))))"

section \<open>What a success says\<close>

text \<open>One exchange with the service: the request that is sent and the success that answers it.\<close>

definition answered_by :: "'w outside \<Rightarrow> sdk_client \<Rightarrow> string \<Rightarrow> json \<Rightarrow> (string \<times> json) list \<Rightarrow> 'w \<Rightarrow> 'w \<Rightarrow> bool" where
  "answered_by W c path body payload w w1 \<longleftrightarrow> \<not> cl_closed c \<and> (\<exists>request response extra.
     ou_send W request (snd (ou_uuid W w)) = (Inr response, w1) \<and> wq_method request = ''POST''
     \<and> wq_url request = build_url (cl_base_url c) path \<and> wq_json request = Some body
     \<and> wq_headers request = build_headers (cl_api_key c) (fst (ou_uuid W w)) extra
     \<and> wr_status response < 400 \<and> wr_json response = Some (JObj payload))"

lemma thenW_Inr: "thenW m f w = (Inr y, w2) \<longleftrightarrow> (\<exists>x w1. m w = (Inr x, w1) \<and> f x w1 = (Inr y, w2))"
  by (auto simp: thenW_def split: prod.split sum.split)

lemma thenW_pure [simp]: "thenW (pureW (Inl e)) f w = (Inl e, w)" "thenW (pureW (Inr x)) f w = f x w"
  by (simp_all add: thenW_def pureW_def)

lemma parse_response_Inr: "parse_response response parser = Inr x \<longleftrightarrow>
    wr_status response < 400 \<and> (\<exists>payload. wr_json response = Some (JObj payload) \<and> parser ''payload'' (JObj payload) = Inr x)"
  by (auto simp: parse_response_def raise_for_status_def bindE_Inr_iff split: option.splits json.splits sum.splits prod.splits)

lemma send_request_Inr:
  assumes "send_request W c ''POST'' path (Some body) params extra w = (Inr response, w2)"
    and "wr_status response < 400" and "wr_json response = Some (JObj payload)"
  shows "answered_by W c path body payload w w2"
proof -
  obtain request w1 where id: "ou_uuid W w = (request, w1)" by force
  have opened: "\<not> cl_closed c" using assms(1) by (auto simp: send_request_def ensure_open_def)
  define q where "q = \<lparr>wq_method = ''POST'', wq_url = build_url (cl_base_url c) path,
    wq_headers = build_headers (cl_api_key c) request extra, wq_json = Some body, wq_params = params\<rparr>"
  have "ou_send W q w1 = (Inr response, w2)"
    using assms(1) opened id
    by (auto simp: send_request_def ensure_open_def q_def split: prod.splits sum.splits wire_failure.splits)
  moreover have "wq_method q = ''POST''" "wq_url q = build_url (cl_base_url c) path" "wq_json q = Some body"
    "wq_headers q = build_headers (cl_api_key c) request extra"
    by (simp_all add: q_def)
  ultimately show ?thesis using opened assms(2,3) unfolding answered_by_def id fst_conv snd_conv by blast
qed

lemma requesting_Inr:
  assumes "requesting W c ''POST'' path (Some body) params extra parser w = (Inr x, w2)"
  shows "\<exists>payload. answered_by W c path body payload w w2 \<and> parser ''payload'' (JObj payload) = Inr x"
proof -
  obtain response where "send_request W c ''POST'' path (Some body) params extra w = (Inr response, w2)"
      and "parse_response response parser = Inr x"
    using assms by (auto simp: requesting_def thenW_Inr pureW_def)
  then show ?thesis unfolding parse_response_Inr by (blast dest: send_request_Inr)
qed

lemma choice_text: "field (read_choice decisions) data n = Inr x \<Longrightarrow> map_of data n = Some (JStr (decision_text x))"
  by (cases "map_of data n")
    (auto simp: field_def required_def read_choice_def decisions_def bindE_Inr_iff elim!: read_text.elims
      split: option.splits if_splits)

lemma authorization_from_decision: "authorization_from T name (JObj payload) = Inr a \<Longrightarrow>
    map_of payload ''decision'' = Some (JStr (decision_text (au_decision a)))"
  by (auto simp: authorization_from_def bindE_Inr_iff dest!: choice_text)

lemma boolean_true: "field read_boolean data n = Inr b \<Longrightarrow> map_of data n = Some (JBool b)"
  by (cases "map_of data n") (auto simp: field_def required_def elim!: read_boolean.elims)

lemma consumption_from_authorized: "consumption_from T name (JObj payload) = Inr s \<Longrightarrow>
    map_of payload ''authorized'' = Some (JBool True)"
  by (auto simp: consumption_from_def bindE_Inr_iff dest!: boolean_true split: if_splits)

section \<open>The guard runs nothing that is not allowed\<close>

text \<open>
  \<open>runs_only_after P guard operation w\<close>: either the operation plays no part in the outcome, or it runs once,
  in a world with \<open>P\<close>, and the outcome is its value or its exception.
\<close>

definition ran :: "('w, 'v) action \<Rightarrow> ('v \<Rightarrow> 'v guarded_execution) \<Rightarrow> 'w \<Rightarrow> (sdk_exn + 'v guarded_execution) \<times> 'w" where
  "ran operation result w1 = (case operation w1 of
     (Inl e, w2) \<Rightarrow> (Inl e, w2) | (Inr v, w2) \<Rightarrow> (Inr (result v), w2))"

definition runs_only_after :: "('w \<Rightarrow> bool) \<Rightarrow> (('w, 'v) action \<Rightarrow> ('w, 'v guarded_execution) action) \<Rightarrow> ('w, 'v) action
    \<Rightarrow> 'w \<Rightarrow> bool" where
  "runs_only_after P guard operation w \<longleftrightarrow> (\<forall>other. guard other w = guard operation w)
     \<or> (\<exists>w1 result. P w1 \<and> guard operation w = ran operation result w1 \<and> (\<forall>v. ge_value (result v) = v))"

definition request_members :: "string \<Rightarrow> string \<Rightarrow> context_object \<Rightarrow> (string \<times> json) list" where
  "request_members agent action context =
     [(''agent'', JStr (strip agent)), (''action'', JStr (strip action)), (''context'', JObj context)]"

definition allowed_by :: "'w outside \<Rightarrow> sdk_client \<Rightarrow> (string \<times> json) list \<Rightarrow> 'w \<Rightarrow> 'w \<Rightarrow> bool" where
  "allowed_by W c members w w1 \<longleftrightarrow> (\<exists>payload. answered_by W c ''/v1/authorize'' (JObj members) payload w w1
     \<and> map_of payload ''decision'' = Some (JStr ''ALLOW''))"

definition consumption_said :: "'w outside \<Rightarrow> sdk_client \<Rightarrow> (string \<times> json) list \<Rightarrow> 'w \<Rightarrow> 'w \<Rightarrow> bool" where
  "consumption_said W c members w w1 \<longleftrightarrow> (\<exists>payload. answered_by W c ''/v1/execution-grants/consume'' (JObj members) payload w w1
     \<and> map_of payload ''authorized'' = Some (JBool True))"

lemma normalized: "normalize_identifier v name = Inr x \<Longrightarrow> x = strip v"
  by (simp add: normalize_identifier_def split: if_splits)

lemma authorize_answered:
  assumes "client_authorize W L c agent action context key w = (Inr a, w1)" and "au_decision a = ALLOW"
  shows "allowed_by W c (request_members agent action context) w w1"
proof -
  obtain extra where "requesting W c ''POST'' ''/v1/authorize'' (Some (JObj (request_members agent action context))) None
      extra (authorization_from (sl_time L)) w = (Inr a, w1)"
    using assms(1) unfolding client_authorize_def request_members_def
    by (auto simp: thenW_Inr pureW_def dest!: normalized)
  then show ?thesis using assms(2) unfolding allowed_by_def
    by (auto dest!: requesting_Inr authorization_from_decision)
qed

lemma consume_answered:
  assumes "client_consume_execution_grant W L c g agent action context consumer w = (Inr s, w1)"
  shows "consumption_said W c ((''execution_grant'', JStr (strip g)) # request_members agent action context
    @ [(''consumed_by'', JStr (strip consumer))]) w w1"
proof -
  have "requesting W c ''POST'' ''/v1/execution-grants/consume'' (Some (JObj ((''execution_grant'', JStr (strip g))
      # request_members agent action context @ [(''consumed_by'', JStr (strip consumer))]))) None []
      (consumption_from (sl_time L)) w = (Inr s, w1)"
    using assms unfolding client_consume_execution_grant_def request_members_def
    by (auto simp: thenW_Inr pureW_def dest!: normalized)
  then show ?thesis unfolding consumption_said_def
    by (auto dest!: requesting_Inr consumption_from_authorized)
qed

lemma guard_allowed:
  assumes "client_authorize W L c agent action context key w = (Inr a, w1)" and "au_decision a = ALLOW"
  shows "guard_execute W L c agent action context key operation w
    = ran operation (\<lambda>v. \<lparr>ge_value = v, ge_authorization = Some a, ge_consumption = None\<rparr>) w1"
  using assms by (simp add: guard_execute_def thenW_def ran_def guarded_def pureW_def split: prod.split sum.split)

lemma guard_refused:
  assumes "\<not> (\<exists>a w1. client_authorize W L c agent action context key w = (Inr a, w1) \<and> au_decision a = ALLOW)"
  shows "runs_only_after P (guard_execute W L c agent action context key) operation w"
proof -
  obtain r w1 where auth: "client_authorize W L c agent action context key w = (r, w1)" by force
  have "guard_execute W L c agent action context key other w
      = guard_execute W L c agent action context key operation w" for other
    using assms auth decision.exhaust by (cases r) (auto simp: guard_execute_def thenW_def)
  then show ?thesis by (simp add: runs_only_after_def)
qed

text \<open>
  C37: A guard runs its operation only after a success of the service answers exactly this request: for
  execute an answer with the decision ALLOW, for execute_approved one that says the grant has been
  consumed. Then the operation runs once, in the world this answer leaves, and the guard returns its value or
  raises its exception. In all other cases the outcome is the same whatever the operation is.
\<close>

theorem guards_run_only_when_allowed:
  "runs_only_after (allowed_by W c (request_members agent action context) w)
     (guard_execute W L c agent action context key) operation w
   \<and> runs_only_after (consumption_said W c ((''execution_grant'', JStr (strip grant))
       # request_members agent action context @ [(''consumed_by'', JStr (strip consumer))]) w)
     (guard_execute_approved W L c grant agent action context consumer) operation w"
proof
  show "runs_only_after (allowed_by W c (request_members agent action context) w)
     (guard_execute W L c agent action context key) operation w"
  proof (cases "\<exists>a w1. client_authorize W L c agent action context key w = (Inr a, w1) \<and> au_decision a = ALLOW")
    case True
    then obtain a w1 where a: "client_authorize W L c agent action context key w = (Inr a, w1)" "au_decision a = ALLOW" by blast
    from authorize_answered [OF a] guard_allowed [OF a, of operation]
    show ?thesis unfolding runs_only_after_def by fastforce
  qed (rule guard_refused)
  obtain r w1 where used: "client_consume_execution_grant W L c grant agent action context consumer w = (r, w1)" by force
  show "runs_only_after (consumption_said W c ((''execution_grant'', JStr (strip grant))
       # request_members agent action context @ [(''consumed_by'', JStr (strip consumer))]) w)
     (guard_execute_approved W L c grant agent action context consumer) operation w"
  proof (cases r)
    case (Inl e)
    then show ?thesis using used by (simp add: runs_only_after_def guard_execute_approved_def thenW_def)
  next
    case (Inr s)
    then have "guard_execute_approved W L c grant agent action context consumer operation w
        = ran operation (\<lambda>v. \<lparr>ge_value = v, ge_authorization = None, ge_consumption = Some s\<rparr>) w1"
      using used by (simp add: guard_execute_approved_def thenW_def ran_def guarded_def pureW_def split: prod.split sum.split)
    with used Inr show ?thesis unfolding runs_only_after_def by (fastforce dest: consume_answered)
  qed
qed

section \<open>Waiting ends\<close>

text \<open>
  \<open>paced W time polls\<close>: the monotonic clock reads \<open>time\<close>, which nothing sets back; a sleep takes at least
  its argument; \<open>polls\<close> counts the requests sent.
\<close>

definition paced :: "'w outside \<Rightarrow> ('w \<Rightarrow> rat) \<Rightarrow> ('w \<Rightarrow> nat) \<Rightarrow> bool" where
  "paced W time polls \<longleftrightarrow>
     (\<forall>w. fst (ou_clock W w) = time w \<and> time w \<le> time (snd (ou_clock W w)) \<and> polls (snd (ou_clock W w)) = polls w)
     \<and> (\<forall>t w. time w + t \<le> time (ou_sleep W t w) \<and> polls (ou_sleep W t w) = polls w)
     \<and> (\<forall>w. time w \<le> time (snd (ou_uuid W w)) \<and> polls (snd (ou_uuid W w)) = polls w)
     \<and> (\<forall>q w. time w \<le> time (snd (ou_send W q w)) \<and> polls (snd (ou_send W q w)) = Suc (polls w))"

lemma pacedD:
  assumes "paced W time polls"
  shows "ou_clock W w = (t, w1) \<Longrightarrow> t = time w \<and> time w \<le> time w1 \<and> polls w1 = polls w"
    and "time w + t \<le> time (ou_sleep W t w) \<and> polls (ou_sleep W t w) = polls w"
    and "ou_uuid W w = (u, w1) \<Longrightarrow> time w \<le> time w1 \<and> polls w1 = polls w"
    and "ou_send W q w = (r, w1) \<Longrightarrow> time w \<le> time w1 \<and> polls w1 = Suc (polls w)"
  using assms unfolding paced_def by (metis fst_conv snd_conv)+

lemma poll_paced:
  assumes "paced W time polls" and "client_get_approval W L c (Inl u) w = (r, w1)"
  shows "time w \<le> time w1 \<and> polls w1 \<le> Suc (polls w)"
proof (cases "cl_closed c")
  case True
  then show ?thesis using assms(2)
    by (simp add: client_get_approval_def normalize_uuid_def requesting_def send_request_def ensure_open_def thenW_def pureW_def)
next
  case False
  obtain request w2 where id: "ou_uuid W w = (request, w2)" by force
  obtain answer w3 where sent: "ou_send W \<lparr>wq_method = ''GET'', wq_url = build_url (cl_base_url c) (''/v1/approvals/'' @ uuid_text u),
      wq_headers = build_headers (cl_api_key c) request [], wq_json = None, wq_params = None\<rparr> w2 = (answer, w3)" by force
  have "w1 = w3" using assms(2) False id sent
    by (auto simp: client_get_approval_def normalize_uuid_def requesting_def send_request_def ensure_open_def thenW_def pureW_def
        split: sum.splits wire_failure.splits)
  then show ?thesis using pacedD(3) [OF assms(1) id] pacedD(4) [OF assms(1) sent] by auto
qed

lemma wait_loop_ends:
  assumes "paced W time polls" and "0 < interval"
    and "\<And>w r w1. poll w = (r, w1) \<Longrightarrow> time w \<le> time w1 \<and> polls w1 \<le> Suc (polls w)"
    and "deadline - time w \<le> of_nat k * interval"
  shows "\<exists>r w1. wait_loop W poll did interval deadline w = Some (r, w1) \<and> polls w1 \<le> polls w + Suc k
    \<and> (\<forall>a. r = Inr a \<longrightarrow> ap_status a \<noteq> Approval_PENDING)"
  using assms(4)
proof (induction k arbitrary: w)
  case (0 w)
  obtain r w1 where p: "poll w = (r, w1)" by force
  obtain t w2 where t: "ou_clock W w1 = (t, w2)" by force
  have "deadline - t \<le> 0" using 0 assms(3) [OF p] pacedD(1) [OF assms(1) t] by auto
  then show ?case using p t assms(3) [OF p] pacedD(1) [OF assms(1) t]
    by (subst wait_loop.simps) (auto split: sum.split)
next
  case (Suc k w)
  obtain r w1 where p: "poll w = (r, w1)" by force
  obtain t w2 where t: "ou_clock W w1 = (t, w2)" by force
  let ?w3 = "ou_sleep W (min interval (deadline - t)) w2"
  show ?case
  proof (cases "\<exists>a. r = Inr a \<and> ap_status a = Approval_PENDING \<and> 0 < deadline - t")
    case True
    have "deadline - time ?w3 \<le> of_nat k * interval"
    proof -
      have "time w2 + min interval (deadline - t) \<le> time ?w3" "time w \<le> t" "t \<le> time w2"
        using pacedD(2) [OF assms(1)] pacedD(1) [OF assms(1) t] assms(3) [OF p] by auto
      moreover have "0 \<le> of_nat k * interval" using assms(2) by simp
      ultimately show ?thesis using Suc.prems by (auto simp: min_def algebra_simps split: if_splits)
    qed
    from Suc.IH [OF this] True p t show ?thesis
      using assms(3) [OF p] pacedD(1) [OF assms(1) t] pacedD(2) [OF assms(1), of w2 "min interval (deadline - t)"]
      by (subst wait_loop.simps) fastforce
  next
    case False
    then show ?thesis using p t assms(3) [OF p] pacedD(1) [OF assms(1) t]
      by (subst wait_loop.simps) (auto split: sum.split)
  qed
qed

text \<open>
  C39: Waiting for an approval always ends, on a clock that sleeping moves on: after at most one poll more
  than the poll interval fits, begun, into the timeout, with an approval that is no longer pending or an
  error.
\<close>

theorem waiting_ends:
  assumes "paced W time polls"
  shows "\<exists>r w'. client_wait_for_approval W L c did timeout interval w = Some (r, w')
    \<and> polls w' \<le> polls w + Suc (nat \<lceil>timeout / interval\<rceil>)
    \<and> \<not> (\<exists>a. r = Inr a \<and> ap_status a = Approval_PENDING)"
proof (cases "bindE (normalize_uuid did ''decision_id'') (\<lambda>u. bindE (normalize_timeout timeout) (\<lambda>t.
         bindE (normalize_timeout interval) (\<lambda>i. Inr (u, t, i))))")
  case (Inl e)
  then show ?thesis by (simp add: client_wait_for_approval_def)
next
  case (Inr x)
  then obtain u where x: "x = (u, timeout, interval)" and pos: "0 < interval"
    by (auto simp: bindE_Inr_iff normalize_timeout_def split: if_splits)
  obtain started w1 where t: "ou_clock W w = (started, w1)" by force
  have "timeout / interval \<le> of_nat (nat \<lceil>timeout / interval\<rceil>)" by linarith
  then have "timeout \<le> of_nat (nat \<lceil>timeout / interval\<rceil>) * interval" using pos by (simp add: pos_divide_le_eq)
  moreover have "started + timeout - time w1 \<le> timeout" using pacedD(1) [OF assms t] by simp
  ultimately have "started + timeout - time w1 \<le> of_nat (nat \<lceil>timeout / interval\<rceil>) * interval" by simp
  from wait_loop_ends [OF assms pos poll_paced [OF assms] this]
  show ?thesis using Inr x t pacedD(1) [OF assms t] by (simp add: client_wait_for_approval_def)
qed

text \<open>A service where an approval stays pending, seconds that pass, and a count of the requests.\<close>

definition pending_world :: "(rat \<times> nat) outside" where
  "pending_world = \<lparr>ou_send = (\<lambda>q (t, n). (Inr \<lparr>wr_status = 200, wr_reason = ''OK'', wr_header = (\<lambda>_. None),
       wr_json = Some (JObj (approval_members sample_externals \<lparr>ap_decision = 7, ap_status = Approval_PENDING,
         ap_requested_at = 0, ap_expires_at = None, ap_resolved_at = None, ap_resolved_by = None\<rparr>))\<rparr>, (t + 1, Suc n))),
     ou_clock = (\<lambda>(t, n). (t, (t, n))), ou_sleep = (\<lambda>d (t, n). (t + d, n)), ou_uuid = (\<lambda>w. (0, w))\<rparr>"

definition sample_library :: sdk_library where
  "sample_library = \<lparr>sl_urls = \<lparr>ul_bracketed_ok = (\<lambda>_. True), ul_normalized_ok = (\<lambda>_. True)\<rparr>,
     sl_loopback = (\<lambda>_. None), sl_time = (\<lambda>_. Some (0, True))\<rparr>"

definition sample_client :: sdk_client where
  "sample_client = \<lparr>cl_api_key = ''key'', cl_base_url = ''https://example.com'', cl_timeout = 10,
     cl_owns_http_client = True, cl_closed = False\<rparr>"

theorem waiting_ends_witness:
  "\<exists>r w'. client_wait_for_approval pending_world sample_library sample_client (Inl 7) 3 2 (0, 0) = Some (r, w')
    \<and> snd w' \<le> snd (0 :: rat, 0) + Suc (nat \<lceil>(3 :: rat) / 2\<rceil>)
    \<and> \<not> (\<exists>a. r = Inr a \<and> ap_status a = Approval_PENDING)"
  by (rule waiting_ends [where time = fst]) (auto simp: paced_def pending_world_def)

section \<open>Where the key goes\<close>

lemma partition_char_append: "partition_char c s = (a, True, b) \<Longrightarrow> partition_char c (s @ t) = (a, True, b @ t)"
  by (induction s arbitrary: a) (auto split: prod.splits if_splits)

lemma without_controls_append:
  "without_controls s \<noteq> [] \<Longrightarrow> without_controls (s @ t) = without_controls s @ filter (\<lambda>c. c \<notin> {CHR 0x09, CHR 0x0A, CHR 0x0D}) t"
  unfolding without_controls_def by (induction s) auto

lemma takeWhile_append_stop: "\<not> P c \<Longrightarrow> takeWhile P (s @ c # t) = takeWhile P s"
  by (induction s) auto

text \<open>What is appended after a slash changes neither the scheme nor the authority of a URL.\<close>

lemma urlsplit_appended:
  assumes "urlsplit U base = Inr u" and "su_scheme u \<noteq> []" and "su_netloc u \<noteq> []"
  shows "\<exists>v. urlsplit U (base @ CHR ''/'' # t) = Inr v \<and> su_scheme v = su_scheme u \<and> su_netloc v = su_netloc u"
proof -
  obtain scheme s where scheme: "split_scheme (without_controls base) = (scheme, s)" by force
  obtain netloc r where netloc: "split_netloc s = (netloc, r)" by force
  have parts: "su_scheme u = scheme" "su_netloc u = netloc"
    using assms(1) scheme netloc by (auto simp: urlsplit_def Let_def split: prod.splits if_splits)
  obtain p where p: "partition_char (CHR '':'') (without_controls base) = (p, True, s)"
      "p \<noteq> []" "is_ascii_alpha (hd p)" "list_all scheme_char p" "scheme = py_lower p"
    using scheme assms(2) parts(1) by (auto simp: split_scheme_def split: prod.splits if_splits)
  define t' where "t' = filter (\<lambda>c. c \<notin> {CHR 0x09, CHR 0x0A, CHR 0x0D}) t"
  have "without_controls base \<noteq> []" using p(1) by auto
  then have "without_controls (base @ CHR ''/'' # t) = without_controls base @ CHR ''/'' # t'"
    by (simp add: without_controls_append t'_def)
  then have scheme': "split_scheme (without_controls (base @ CHR ''/'' # t)) = (scheme, s @ CHR ''/'' # t')"
    using partition_char_append [OF p(1)] p(2-5) by (simp add: split_scheme_def)
  have slashes: "take 2 s = ''//''" and rest: "netloc = takeWhile (\<lambda>c. c \<noteq> CHR ''/'' \<and> c \<noteq> CHR ''?'' \<and> c \<noteq> CHR ''#'') (drop 2 s)"
    using netloc assms(3) parts(2) by (auto simp: split_netloc_def Let_def split: if_splits)
  have long: "2 \<le> length s" using slashes by (cases s; cases "tl s") auto
  then have netloc': "fst (split_netloc (s @ CHR ''/'' # t')) = netloc"
    using slashes rest by (simp add: split_netloc_def Let_def takeWhile_append_stop)
  show ?thesis using assms(1) scheme netloc scheme' netloc' parts
    by (auto simp: urlsplit_def Let_def split: prod.splits if_splits)
qed

lemma url_hostname_netloc: "su_netloc u = su_netloc v \<Longrightarrow> url_hostname u = url_hostname v \<and> url_userinfo u = url_userinfo v"
  by (simp add: url_hostname_def url_hostinfo_def url_userinfo_def)

text \<open>
  C40: Every URL a new client sends its requests, and with them its API key, to is HTTPS, or plain HTTP of a
  loopback host, and carries no user or password.
\<close>

theorem key_goes_to_https_or_loopback:
  assumes "new_client L api_key base_url timeout given = Inr c"
  shows "\<exists>u. urlsplit (sl_urls L) (build_url (cl_base_url c) path) = Inr u \<and> su_netloc u \<noteq> [] \<and> url_userinfo u = (None, None)
    \<and> (su_scheme u = ''https'' \<or> su_scheme u = ''http'' \<and> is_loopback_host L (url_hostname u))"
proof -
  have "normalize_base_url L base_url = Inr (cl_base_url c)"
    using assms by (auto simp: new_client_def bindE_Inr_iff)
  then obtain v where v: "urlsplit (sl_urls L) (cl_base_url c) = Inr v" "su_netloc v \<noteq> []" "url_userinfo v = (None, None)"
      "su_scheme v = ''https'' \<or> su_scheme v = ''http'' \<and> is_loopback_host L (url_hostname v)"
    by (auto simp: normalize_base_url_def Let_def prod_eq_iff split: if_splits sum.splits)
  let ?path = "dropWhile (\<lambda>c. c = CHR ''/'') path"
  have "su_scheme v \<noteq> []" using v(4) by auto
  from urlsplit_appended [OF v(1) this v(2), of ?path] obtain w where
    w: "urlsplit (sl_urls L) (cl_base_url c @ CHR ''/'' # ?path) = Inr w" "su_scheme w = su_scheme v" "su_netloc w = su_netloc v"
    by blast
  with v url_hostname_netloc [OF w(3)] show ?thesis
    by (intro exI [of _ w]) (simp add: build_url_def)
qed

theorem key_goes_to_https_or_loopback_witness:
  "\<exists>u. urlsplit (sl_urls sample_library) (build_url (cl_base_url sample_client) ''/v1/authorize'') = Inr u \<and> su_netloc u \<noteq> []
    \<and> url_userinfo u = (None, None)
    \<and> (su_scheme u = ''https'' \<or> su_scheme u = ''http'' \<and> is_loopback_host sample_library (url_hostname u))"
proof (rule key_goes_to_https_or_loopback)
  show "new_client sample_library ''key'' ''https://example.com/'' 10 False = Inr sample_client"
    by code_simp
qed

end
