(* ===== verification/Sdk_Service.thy ===== *)
theory Sdk_Service
  imports Api Sdk_Client
begin

text \<open>
  The SDK and the service together: a client whose transport ends at the endpoint \<open>POST /v1/authorize\<close>
  of the service, and what a guard in front of a business operation then promises. The world is the database
  of the service and any other state of the business operation, which may use the service itself too.
\<close>

section \<open>The service behind the transport\<close>

text \<open>
  The endpoint for a request of the client: the validated body, the key and the idempotency key of its
  headers, and the JSON of the answer. Validation and serialization are FastAPI's; a refused body is a 422.
\<close>

definition text_member :: "(string \<times> json) list \<Rightarrow> string \<Rightarrow> string" where
  "text_member ms name = (case map_of ms name of Some (JStr s) \<Rightarrow> s | _ \<Rightarrow> [])"

definition received_request :: "externals \<Rightarrow> json option \<Rightarrow> authorization_request option" where
  "received_request X body = (case body of
     Some (JObj ms) \<Rightarrow>
       let agent = x_strip X (text_member ms ''agent''); action = x_strip X (text_member ms ''action'') in
       (case map_of ms ''context'' of
          Some (JObj context) \<Rightarrow>
            if agent = [] \<or> action = [] then None
            else Some \<lparr>rq_agent = agent, rq_action = action, rq_context = context\<rparr>
        | _ \<Rightarrow> None)
   | _ \<Rightarrow> None)"

definition answer :: "int \<Rightarrow> json \<Rightarrow> wire_failure + wire_response" where
  "answer status body = Inr \<lparr>wr_status = status, wr_reason = [], wr_header = (\<lambda>_. None), wr_json = Some body\<rparr>"

definition header_credentials :: "(string \<times> string) list \<Rightarrow> credentials" where
  "header_credentials headers = \<lparr>cd_api_key = map_of headers ''X-API-Key'', cd_admin_api_key = None,
     cd_admin_actor = None, cd_audit_reason = None\<rparr>"

definition service_answers :: "deployment \<Rightarrow> draws \<Rightarrow> wire_request \<Rightarrow> db \<times> 'b \<Rightarrow> (wire_failure + wire_response) \<times> (db \<times> 'b)" where
  "service_answers D clock q w = (case w of (d, b) \<Rightarrow>
     case received_request (dp_externals D) (wq_json q) of
       None \<Rightarrow> (answer 422 JNull, (d, b))
     | Some request \<Rightarrow>
         (case handle_call D (header_credentials (wq_headers q)) clock
             (Call_Authorize request (map_of (wq_headers q) ''Idempotency-Key'')) d of
            (Inr (R_authorization (a, _)), d') \<Rightarrow> (answer 200 (authorization_json (dp_externals D) a), (d', b))
          | (Inl (HTTPException status detail), d') \<Rightarrow> (answer (int status) (JObj [(''detail'', JObj detail)]), (d', b))
          | (_, d') \<Rightarrow> (answer 500 JNull, (d', b))))"

text \<open>Any other part of the outside: the clock, sleeping, the identifiers of the requests.\<close>

definition served :: "deployment \<Rightarrow> draws \<Rightarrow> (db \<times> 'b \<Rightarrow> uuid) \<Rightarrow> (db \<times> 'b) outside \<Rightarrow> (db \<times> 'b) outside" where
  "served D clock ids W = W\<lparr>ou_send := service_answers D clock, ou_uuid := (\<lambda>w. (ids w, w))\<rparr>"

section \<open>Guarded operations are on record\<close>

text \<open>A success of the service is a stored decision of the project, for a request with this fingerprint.\<close>

lemma success_stored:
  assumes ok: "service_ok X d" and run: "authorize_request X request key project now ttl d = (Inr a, d')"
  shows "a \<in> set (t_decisions d') \<and> au_project a = pr_id project
    \<and> build_request_fingerprint X (request_of a) = build_request_fingerprint X request"
proof (cases key)
  case (Some k)
  from success_recorded [OF ok run [unfolded Some]] obtain r where
    a: "a \<in> set (t_decisions d')" "au_project a = pr_id project" and
    r: "r \<in> set (t_idempotency d')" "im_fingerprint r = build_request_fingerprint X request" "im_decision r = au_id a"
    by blast
  have ok': "service_ok X d'" using keepsD [OF authorize_keeps run ok] .
  then obtain b where b: "b \<in> set (t_decisions d')" "au_id b = im_decision r"
      "im_fingerprint r = build_request_fingerprint X (request_of b)"
    using r(1) by (auto simp: service_ok_def idempotency_ok_def)
  have "b = a" using a(1) b(1,2) r(3) service_ok_db [OF ok'] by (auto simp: db_ok_def unique_by_def distinct_map dest: inj_onD)
  with a b r show ?thesis by simp
next
  case None
  let ?fp = "build_request_fingerprint X request" and ?pid = "pr_id project"
  let ?d1 = "d\<lparr>t_uuids := (\<lambda>n. t_uuids d (Suc n))\<rparr>"
  obtain ev where ev: "evaluate_request request ?pid d = Inr ev"
    using run None by (cases "evaluate_request request ?pid d")
      (simp_all add: authorize_request_def Let_def andThen_def reading_def returning_def)
  let ?a = "new_authorization (t_uuids d 0) ?pid now request ev"
  obtain approval where approval: "new_approval ?a ttl = Inr approval"
    using run None by (cases "new_approval ?a ttl")
      (simp_all add: authorize_request_def Let_def andThen_def reading_def returning_def ev new_uuid_def uuid4_def raising_def)
  have run': "save_or_reuse X ?a approval None ?fp ?d1 = (Inr a, d')"
    using run None by (simp add: authorize_request_def Let_def andThen_def reading_def returning_def ev new_uuid_def uuid4_def approval)
  let ?save = "save_authorization_with_approval X ?a approval (new_idempotency None ?fp ?a)"
  obtain r1 d2 where s: "?save ?d1 = (r1, d2)" by force
  with run' obtain u where r1: "r1 = Inr u" "a = ?a" "d' = d2"
    by (cases r1) (auto simp: save_or_reuse_def split: if_splits)
  with s have "save_authorization_block X ?a approval (new_idempotency None ?fp ?a) ?d1 = Inr (u, d2)"
    by (auto simp: save_authorization_with_approval_def raising_def transaction_def split: if_splits sum.splits)
  moreover have "au_project ?a = ?pid" by (simp add: new_authorization_def)
  ultimately show ?thesis using save_tables(1) r1 by fastforce
qed

lemma authorize_call_stored:
  assumes ok: "service_ok (dp_externals D) d"
    and run: "handle_call D c clock (Call_Authorize request key) d = (Inr (R_authorization (a, m)), d')"
  shows "a \<in> set (t_decisions d') \<and> build_request_fingerprint (dp_externals D) (request_of a)
      = build_request_fingerprint (dp_externals D) request
    \<and> (\<exists>p. principal_of D c d = Some p \<and> pl_role p = RUNTIME \<and> au_project a = pr_id (pl_project p))"
proof (cases "granted_access D c d Runtime_access")
  case False
  then have "refuses (handle_call D c clock (Call_Authorize request key)) d"
    by (simp add: handle_call.simps endpoint_defs refuses_answering refuses_andThen runtime_refuses)
  with run show ?thesis by (simp add: refuses_def)
next
  case True
  then obtain p where p: "principal_of D c d = Some p" "pl_role p = RUNTIME" by auto
  then have "get_runtime_project (dp_externals D) (cd_api_key c) d = (Inr (pl_project p), d)"
    by (simp add: get_runtime_project_def andThen_def authenticated reading_def require_project_api_key_role_def returning_def)
  with run have "authorize_request (dp_externals D) request key (pl_project p) (dr_now clock)
      (rs_approval_ttl_seconds (dp_settings D)) d = (Inr a, d')"
    by (auto simp: handle_call.simps answering_def authorize_endpoint_def andThen_def returning_def split: prod.splits sum.splits)
  from success_stored [OF ok this] p show ?thesis by blast
qed

text \<open>The operation has a stored decision ALLOW of the project of the key, for a request like this one.\<close>

definition on_record :: "externals \<Rightarrow> project \<Rightarrow> authorization_request \<Rightarrow> db \<Rightarrow> bool" where
  "on_record X project request d \<longleftrightarrow> list_ex (\<lambda>a. au_decision a = ALLOW \<and> au_project a = pr_id project
     \<and> build_request_fingerprint X (request_of a) = build_request_fingerprint X request) (t_decisions d)"

lemma service_answer_allows:
  assumes ok: "service_ok (dp_externals D) d" and key: "map_of (wq_headers q) ''X-API-Key'' = Some api_key"
    and body: "wq_json q = Some (JObj (request_members agent action context))"
    and sent: "service_answers D clock q (d, b) = (Inr response, (d1, b1))"
    and payload: "wr_json response = Some (JObj payload)" "map_of payload ''decision'' = Some (JStr ''ALLOW'')"
  shows "\<exists>p. get_active_principal_by_api_key (dp_externals D) api_key d d = Some p \<and> pl_role p = RUNTIME
    \<and> on_record (dp_externals D) (pl_project p) \<lparr>rq_agent = x_strip (dp_externals D) (strip agent),
        rq_action = x_strip (dp_externals D) (strip action), rq_context = context\<rparr> d1"
proof -
  let ?X = "dp_externals D" and ?c = "header_credentials (wq_headers q)"
  let ?request = "\<lparr>rq_agent = x_strip ?X (strip agent), rq_action = x_strip ?X (strip action), rq_context = context\<rparr>"
  have received: "received_request ?X (wq_json q) \<in> {None, Some ?request}"
    by (simp add: body received_request_def text_member_def request_members_def Let_def)
  moreover have "received_request ?X (wq_json q) \<noteq> None"
  proof
    assume "received_request ?X (wq_json q) = None"
    then have "wr_json response = Some JNull" using sent by (auto simp: service_answers_def answer_def)
    with payload(1) show False by simp
  qed
  ultimately have "received_request ?X (wq_json q) = Some ?request" by auto
  moreover obtain r d' where run: "handle_call D ?c clock (Call_Authorize ?request (map_of (wq_headers q) ''Idempotency-Key'')) d = (r, d')"
    by force
  ultimately obtain a m where r: "r = Inr (R_authorization (a, m))" and a: "payload = (case authorization_json ?X a of JObj ms \<Rightarrow> ms)" "d1 = d'"
    using sent payload
    by (auto simp: service_answers_def answer_def authorization_json_def split: sum.splits exn.splits api_response.splits if_splits)
  have "decision_text (au_decision a) = ''ALLOW''" using a payload(2) by (simp add: authorization_json_def)
  then have allow: "au_decision a = ALLOW" by (cases "au_decision a") simp_all
  from authorize_call_stored [OF ok run [unfolded r]] obtain p where
    p: "principal_of D ?c d = Some p" "pl_role p = RUNTIME" "au_project a = pr_id (pl_project p)" and
    stored: "a \<in> set (t_decisions d')" "build_request_fingerprint ?X (request_of a) = build_request_fingerprint ?X ?request"
    by blast
  have "get_active_principal_by_api_key ?X api_key d d = Some p"
    using p(1) key by (simp add: principal_of_def header_credentials_def split: list.splits)
  with p stored allow a(2) show ?thesis by (auto simp: on_record_def list_ex_iff)
qed

text \<open>
  C36: Behind a guard whose client reaches the service, a business operation runs only when the database of
  the service then holds a decision ALLOW, of the project whose active runtime key the client has, for a
  request with the fingerprint of the guarded one - whatever other state the operation has, and however often
  the request is retried.
\<close>

theorem guarded_operations_on_record:
  assumes "service_ok (dp_externals D) d"
  shows "runs_only_after (\<lambda>(d1, b1). \<exists>p. get_active_principal_by_api_key (dp_externals D) (cl_api_key c) d d = Some p
      \<and> pl_role p = RUNTIME \<and> on_record (dp_externals D) (pl_project p) \<lparr>rq_agent = x_strip (dp_externals D) (strip agent),
        rq_action = x_strip (dp_externals D) (strip action), rq_context = context\<rparr> d1)
    (guard_execute (served D clock ids W) L c agent action context key) operation (d, b)"
proof (cases "\<exists>a w1. client_authorize (served D clock ids W) L c agent action context key (d, b) = (Inr a, w1) \<and> au_decision a = ALLOW")
  case True
  then obtain a d1 b1 where run: "client_authorize (served D clock ids W) L c agent action context key (d, b) = (Inr a, (d1, b1))"
      and allow: "au_decision a = ALLOW" by force
  from authorize_answered [OF this] obtain payload q response extra where
    sent: "service_answers D clock q (d, b) = (Inr response, (d1, b1))" and
    body: "wq_json q = Some (JObj (request_members agent action context))" and
    headers: "wq_headers q = build_headers (cl_api_key c) (ids (d, b)) extra" and
    payload: "wr_json response = Some (JObj payload)" "map_of payload ''decision'' = Some (JStr ''ALLOW'')"
    by (auto simp: allowed_by_def answered_by_def served_def)
  have "map_of (wq_headers q) ''X-API-Key'' = Some (cl_api_key c)" by (simp add: headers build_headers_def)
  from service_answer_allows [OF assms this body sent payload] guard_allowed [OF run allow, of operation]
  show ?thesis unfolding runs_only_after_def by fastforce
next
  case False
  then show ?thesis by (intro guard_refused) blast
qed

definition still_world :: "(db \<times> nat) outside" where
  "still_world = \<lparr>ou_send = (\<lambda>q w. (Inl Wire_timeout, w)), ou_clock = (\<lambda>w. (0, w)), ou_sleep = (\<lambda>t w. w),
     ou_uuid = (\<lambda>w. (0, w))\<rparr>"

theorem guarded_operations_on_record_witness:
  "runs_only_after (\<lambda>(d1, b1). \<exists>p. get_active_principal_by_api_key (dp_externals tenant_deployment) (cl_api_key sample_client)
        policy_db policy_db = Some p
      \<and> pl_role p = RUNTIME \<and> on_record (dp_externals tenant_deployment) (pl_project p)
        \<lparr>rq_agent = x_strip (dp_externals tenant_deployment) (strip ''agent''),
         rq_action = x_strip (dp_externals tenant_deployment) (strip ''pay''), rq_context = []\<rparr> d1)
    (guard_execute (served tenant_deployment sample_draws (\<lambda>_. 0) still_world) sample_library sample_client ''agent'' ''pay'' [] None)
    (\<lambda>(d, n). (Inr (), (d, Suc n))) (policy_db, 0)"
  by (rule guarded_operations_on_record) (simp add: tenant_deployment_def)

end
