(* ===== verification/Migrations.thy ===== *)
theory Migrations
  imports Authorize
begin

text \<open>
  The migrations of \<open>SQLiteDatabase.initialize\<close> (\<open>app/storage/database.py\<close>): how a database file of
  an earlier version becomes one of the current schema. \<open>stored_db\<close> is what a file may hold: a table in
  an earlier layout, or in the current one, with the columns and the CHECK constraints that tell them apart;
  an absent table is an empty one. The tables, indexes and triggers that are created are those of
  \<open>Database\<close>. A statement that violates a constraint raises \<open>IntegrityError\<close>.
\<close>

section \<open>Stored databases\<close>

datatype ('old, 'new) layout = Earlier "'old list" | Current "'new list"

text \<open>Projects without \<open>updated_at\<close>, keys without \<open>role\<close>, idempotency records without a project.\<close>

record legacy_project =
  lp_id :: uuid
  lp_name :: string
  lp_status :: project_status
  lp_created_at :: instant

record legacy_api_key =
  ly_id :: uuid
  ly_project :: uuid
  ly_prefix :: string
  ly_hash :: string
  ly_created_at :: instant
  ly_revoked_at :: "instant option"

record legacy_idempotency =
  li_key :: string
  li_fingerprint :: string
  li_decision :: uuid
  li_created_at :: instant

text \<open>
  For the other tables the rows are given in the current layout, and flags say which columns the stored
  table lacks (their values in the rows are not stored) and which constants its CHECK does not know yet.
\<close>

record stored_db =
  so_projects :: "(legacy_project, project) layout"
  so_api_keys :: "(legacy_api_key, api_key) layout"
  so_subscriptions :: "subscription list"
  so_grant_events_known :: bool
  so_events :: "event_row list"
  so_deliveries :: "delivery list"
  so_attempts :: "attempt list"
  so_policies :: "policy_configuration list"
  so_versions :: "policy_version list"
  so_consumption_known :: bool
  so_audit :: "audit_event list"
  so_trace_column :: bool
  so_project_column :: bool
  so_decisions :: "authorization list"
  so_schema_column :: bool
  so_integrity :: "integrity_proof list"
  so_expiry_column :: bool
  so_expired_known :: bool
  so_approvals :: "approval list"
  so_grants :: "grant list"
  so_idempotency :: "(legacy_idempotency, idempotency_record) layout"

section \<open>The migrations\<close>

fun migrate_projects :: "(legacy_project, project) layout \<Rightarrow> project list" where
  "migrate_projects (Current rows) = rows"
| "migrate_projects (Earlier rows) = map (\<lambda>p. \<lparr>pr_id = lp_id p, pr_name = lp_name p, pr_status = lp_status p,
     pr_created_at = lp_created_at p, pr_updated_at = lp_created_at p\<rparr>) rows"

fun keys_with_role :: "(legacy_api_key, api_key) layout \<Rightarrow> api_key list" where
  "keys_with_role (Current rows) = rows"
| "keys_with_role (Earlier rows) = map (\<lambda>k. \<lparr>ak_id = ly_id k, ak_project = ly_project k, ak_prefix = ly_prefix k,
     ak_hash = ly_hash k, ak_role = RUNTIME, ak_created_at = ly_created_at k, ak_revoked_at = ly_revoked_at k\<rparr>) rows"

text \<open>A verifier of 64 hexadecimal digits is an unsalted SHA-256: the key is retired. \<open>now\<close> is SQLite's clock.\<close>

definition retire_key :: "instant \<Rightarrow> api_key \<Rightarrow> api_key" where
  "retire_key now k = (if is_sha256_text (ak_hash k)
     then k\<lparr>ak_revoked_at := Some (case ak_revoked_at k of Some t \<Rightarrow> t | None \<Rightarrow> now),
            ak_hash := ''retired$'' @ uuid_text (ak_id k), ak_prefix := ''retired_'' @ uuid_text (ak_id k)\<rparr>
     else k)"

text \<open>The verifiers are unique; the index makes the prefixes unique too.\<close>

definition migrate_project_api_keys :: "instant \<Rightarrow> (legacy_api_key, api_key) layout \<Rightarrow> exn + api_key list" where
  "migrate_project_api_keys now stored =
     (let keys = map (retire_key now) (keys_with_role stored) in
      if distinct (map ak_hash keys) \<and> distinct (map ak_prefix keys) then Inr keys else Inl IntegrityError)"

text \<open>The rows are copied while the triggers of the deliveries are dropped.\<close>

definition copy_delivery :: "delivery \<Rightarrow> db \<Rightarrow> exn + db" where
  "copy_delivery v d =
     (if delivery_check v \<and> project_exists d (de_project v)
         \<and> list_all (\<lambda>w. de_id w \<noteq> de_id v \<and> \<not> (de_event w = de_event v \<and> de_subscription w = de_subscription v)) (t_deliveries d)
         \<and> list_ex (\<lambda>r. we_id (er_event r) = de_event v) (t_events d)
         \<and> list_ex (\<lambda>s. su_id s = de_subscription v) (t_subscriptions d)
      then Inr (d\<lparr>t_deliveries := t_deliveries d @ [v]\<rparr>) else Inl IntegrityError)"

definition migrate_webhook_events :: "stored_db \<Rightarrow> db \<Rightarrow> exn + db" where
  "migrate_webhook_events S d =
     (if so_grant_events_known S
      then Inr (d\<lparr>t_events := so_events S, t_deliveries := so_deliveries S, t_attempts := so_attempts S\<rparr>)
      else bindE (foldE (\<lambda>r. insert_event (er_event r) (er_payload r)) (so_events S) d) (\<lambda>d.
        bindE (foldE copy_delivery (so_deliveries S) d) (foldE insert_attempt (so_attempts S))))"

text \<open>\<open>INSERT OR IGNORE\<close>: a version that is there, or a failing CHECK, is passed over.\<close>

definition backfill_version :: "policy_configuration \<Rightarrow> db \<Rightarrow> exn + db" where
  "backfill_version c d =
     (if list_ex (\<lambda>v. pv_project v = pp_project c \<and> p_id (pv_policy v) = p_id (pp_policy c)
           \<and> p_version (pv_policy v) = p_version (pp_policy c)) (t_versions d) \<or> p_version (pp_policy c) < 1
      then Inr d
      else insert_version (pp_project c) (pp_policy c) Change_MIGRATED (pp_updated_at c) None d)"

definition backfill_project_policy_versions :: "db \<Rightarrow> exn + db" where
  "backfill_project_policy_versions d = foldE backfill_version (t_policies d) d"

definition migrate_audit_events :: "stored_db \<Rightarrow> db \<Rightarrow> exn + db" where
  "migrate_audit_events S d =
     (if so_consumption_known S then Inr (d\<lparr>t_audit := so_audit S\<rparr>) else foldE insert_audit (so_audit S) d)"

definition migrate_decisions :: "stored_db \<Rightarrow> authorization list" where
  "migrate_decisions S = map (\<lambda>a.
     let a = (if so_trace_column S then a else a\<lparr>au_trace := []\<rparr>)
     in (if so_project_column S then a else a\<lparr>au_project := DEFAULT_PROJECT_ID\<rparr>)) (so_decisions S)"

definition migrate_integrity_records :: "stored_db \<Rightarrow> integrity_proof list" where
  "migrate_integrity_records S = map (\<lambda>p. if so_schema_column S then p else p\<lparr>ip_schema := 1\<rparr>) (so_integrity S)"

definition migrate_approval_requests :: "stored_db \<Rightarrow> db \<Rightarrow> exn + db" where
  "migrate_approval_requests S d =
     (if so_expiry_column S \<and> so_expired_known S then Inr (d\<lparr>t_approvals := so_approvals S\<rparr>)
      else foldE insert_approval (map (\<lambda>a. if so_expiry_column S then a else a\<lparr>ap_expires_at := None\<rparr>) (so_approvals S)) d)"

text \<open>The join with the decisions gives each record its project; a record without a decision is dropped.\<close>

fun migrate_idempotency_records :: "(legacy_idempotency, idempotency_record) layout \<Rightarrow> db \<Rightarrow> exn + db" where
  "migrate_idempotency_records (Current rows) d = Inr (d\<lparr>t_idempotency := rows\<rparr>)"
| "migrate_idempotency_records (Earlier rows) d =
     foldE insert_idempotency
       (concat (map (\<lambda>r. map (\<lambda>a. \<lparr>im_project = au_project a, im_key = li_key r, im_fingerprint = li_fingerprint r,
            im_decision = li_decision r, im_created_at = li_created_at r\<rparr>)
          (filter (\<lambda>a. au_id a = li_decision r) (t_decisions d))) rows)) d"

definition initialize_database :: "instant \<Rightarrow> (nat \<Rightarrow> uuid) \<Rightarrow> stored_db \<Rightarrow> exn + db" where
  "initialize_database now uuids S =
     bindE (migrate_project_api_keys now (so_api_keys S)) (\<lambda>keys.
     bindE (migrate_webhook_events S ((empty_db uuids)\<lparr>t_projects := migrate_projects (so_projects S), t_api_keys := keys,
        t_subscriptions := so_subscriptions S\<rparr>)) (\<lambda>d.
     bindE (backfill_project_policy_versions (d\<lparr>t_policies := so_policies S, t_versions := so_versions S\<rparr>)) (\<lambda>d.
     bindE (migrate_audit_events S d) (\<lambda>d.
     bindE (migrate_approval_requests S (d\<lparr>t_decisions := migrate_decisions S, t_integrity := migrate_integrity_records S\<rparr>)) (\<lambda>d.
       migrate_idempotency_records (so_idempotency S) (d\<lparr>t_grants := so_grants S\<rparr>))))))"

text \<open>\<open>EvidenceStore.initialize\<close>: the schema, then the ledger of the decisions that have none.\<close>

definition initialize_store :: "externals \<Rightarrow> instant \<Rightarrow> (nat \<Rightarrow> uuid) \<Rightarrow> stored_db \<Rightarrow> exn + db" where
  "initialize_store X now uuids S =
     bindE (initialize_database now uuids S) (\<lambda>d. case backfill_existing_decisions X d of
       (Inl e, _) \<Rightarrow> Inl e | (Inr _, d') \<Rightarrow> Inr d')"

definition stored :: "db \<Rightarrow> stored_db" where
  "stored d = \<lparr>so_projects = Current (t_projects d), so_api_keys = Current (t_api_keys d),
     so_subscriptions = t_subscriptions d, so_grant_events_known = True, so_events = t_events d,
     so_deliveries = t_deliveries d, so_attempts = t_attempts d, so_policies = t_policies d, so_versions = t_versions d,
     so_consumption_known = True, so_audit = t_audit d, so_trace_column = True, so_project_column = True,
     so_decisions = t_decisions d, so_schema_column = True, so_integrity = t_integrity d, so_expiry_column = True,
     so_expired_known = True, so_approvals = t_approvals d, so_grants = t_grants d,
     so_idempotency = Current (t_idempotency d)\<rparr>"

section \<open>Readiness\<close>

text \<open>What \<open>check_readiness\<close> sees of the file: whether it is there, its pragmas and its tables.\<close>

record file_state =
  fs_is_file :: bool
  fs_selects :: bool
  fs_foreign_keys :: "int option"
  fs_journal_mode :: "string option"
  fs_tables :: "string list"

definition check_readiness :: "file_state \<Rightarrow> bool" where
  "check_readiness s \<longleftrightarrow> fs_is_file s \<and> fs_selects s \<and> fs_foreign_keys s = Some 1
     \<and> (case fs_journal_mode s of None \<Rightarrow> False
        | Some mode \<Rightarrow> map (\<lambda>c. if 65 \<le> (of_char c :: nat) \<and> (of_char c :: nat) \<le> 90 then char_of ((of_char c :: nat) + 32) else c) mode = ''wal'')
     \<and> {''projects'', ''authorization_decisions'', ''decision_integrity_records'', ''approval_requests'',
        ''execution_grants''} \<subseteq> set (fs_tables s)"

section \<open>What a migration leaves\<close>

text \<open>The tables that the later steps of the initialization do not touch.\<close>

definition settled_tables :: "db \<Rightarrow> api_key list \<times> policy_configuration list \<times> policy_version list" where
  "settled_tables d = (t_api_keys d, t_policies d, t_versions d)"

lemma foldE_keeps:
  assumes "foldE f xs d = Inr d'" and "\<And>x d d'. f x d = Inr d' \<Longrightarrow> g d' = g d"
  shows "g d' = g d"
  using foldE_invariant [where I = "\<lambda>s. g s = g d", OF assms(1)] assms(2) by metis

lemma insert_settled:
  "insert_audit e d = Inr d' \<Longrightarrow> settled_tables d' = settled_tables d"
  "insert_approval a d = Inr d' \<Longrightarrow> settled_tables d' = settled_tables d"
  "insert_idempotency r d = Inr d' \<Longrightarrow> settled_tables d' = settled_tables d"
  by (auto simp: insert_defs settled_tables_def split: if_splits)

lemma webhooks_keep_keys: "migrate_webhook_events S d = Inr d' \<Longrightarrow> t_api_keys d' = t_api_keys d"
proof -
  assume run: "migrate_webhook_events S d = Inr d'"
  show ?thesis
  proof (cases "so_grant_events_known S")
    case False
    then obtain d1 d2 where steps: "foldE (\<lambda>r. insert_event (er_event r) (er_payload r)) (so_events S) d = Inr d1"
        "foldE copy_delivery (so_deliveries S) d1 = Inr d2" "foldE insert_attempt (so_attempts S) d2 = Inr d'"
      using run by (auto simp: migrate_webhook_events_def bindE_Inr_iff)
    have "t_api_keys d1 = t_api_keys d"
      by (rule foldE_keeps [OF steps(1)]) (auto simp: insert_event_def split: if_splits)
    moreover have "t_api_keys d2 = t_api_keys d1"
      by (rule foldE_keeps [OF steps(2)]) (auto simp: copy_delivery_def split: if_splits)
    moreover have "t_api_keys d' = t_api_keys d2"
      by (rule foldE_keeps [OF steps(3)]) (auto simp: insert_attempt_def split: if_splits)
    ultimately show ?thesis by simp
  qed (use run in \<open>auto simp: migrate_webhook_events_def\<close>)
qed

lemma later_steps_settled:
  "migrate_audit_events S d = Inr d' \<Longrightarrow> settled_tables d' = settled_tables d"
  "migrate_approval_requests S d = Inr d' \<Longrightarrow> settled_tables d' = settled_tables d"
  "migrate_idempotency_records l d = Inr d' \<Longrightarrow> settled_tables d' = settled_tables d"
proof -
  show "migrate_audit_events S d = Inr d' \<Longrightarrow> settled_tables d' = settled_tables d"
    using foldE_keeps [where g = settled_tables and f = insert_audit] insert_settled(1)
    by (auto simp: migrate_audit_events_def settled_tables_def split: if_splits)
  show "migrate_approval_requests S d = Inr d' \<Longrightarrow> settled_tables d' = settled_tables d"
    using foldE_keeps [where g = settled_tables and f = insert_approval] insert_settled(2)
    by (auto simp: migrate_approval_requests_def settled_tables_def split: if_splits)
  show "migrate_idempotency_records l d = Inr d' \<Longrightarrow> settled_tables d' = settled_tables d"
    using foldE_keeps [where g = settled_tables and f = insert_idempotency] insert_settled(3)
    by (cases l) (auto simp: settled_tables_def)
qed

definition version_kept :: "policy_version list \<Rightarrow> policy_configuration \<Rightarrow> bool" where
  "version_kept versions c \<longleftrightarrow> list_ex (\<lambda>v. pv_project v = pp_project c \<and> p_id (pv_policy v) = p_id (pp_policy c)
     \<and> p_version (pv_policy v) = p_version (pp_policy c)) versions \<or> p_version (pp_policy c) < 1"

lemma backfill_version_keeps:
  assumes "backfill_version c d = Inr d'"
  shows "t_api_keys d' = t_api_keys d \<and> t_policies d' = t_policies d \<and> version_kept (t_versions d') c
    \<and> (\<forall>b. version_kept (t_versions d) b \<longrightarrow> version_kept (t_versions d') b)"
  using assms by (auto simp: backfill_version_def insert_version_def insert_version_row_def version_kept_def split: if_splits)

lemma backfill_versions_done:
  assumes "foldE backfill_version cs d = Inr d'"
  shows "t_api_keys d' = t_api_keys d \<and> t_policies d' = t_policies d \<and> (\<forall>c \<in> set cs. version_kept (t_versions d') c)
    \<and> (\<forall>b. version_kept (t_versions d) b \<longrightarrow> version_kept (t_versions d') b)"
  using assms
proof (induction cs arbitrary: d)
  case (Cons c cs)
  then obtain d1 where "backfill_version c d = Inr d1" "foldE backfill_version cs d1 = Inr d'"
    by (auto simp: bindE_Inr_iff)
  with Cons.IH [of d1] backfill_version_keeps [of c d d1] show ?case by auto
qed simp

lemma backfill_versions_again: "(\<And>c. c \<in> set cs \<Longrightarrow> version_kept (t_versions d) c) \<Longrightarrow> foldE backfill_version cs d = Inr d"
  by (induction cs) (auto simp: backfill_version_def version_kept_def)

text \<open>The keys after a migration, and the versions of its policies.\<close>

lemma initialize_database_done:
  assumes "initialize_database now uuids S = Inr d"
  shows "t_api_keys d = map (retire_key now) (keys_with_role (so_api_keys S))
    \<and> distinct (map ak_hash (t_api_keys d)) \<and> distinct (map ak_prefix (t_api_keys d))
    \<and> (\<forall>c \<in> set (t_policies d). version_kept (t_versions d) c)"
proof -
  obtain keys d1 d2 d3 d4 where keys: "migrate_project_api_keys now (so_api_keys S) = Inr keys"
    and webhooks: "migrate_webhook_events S ((empty_db uuids)\<lparr>t_projects := migrate_projects (so_projects S), t_api_keys := keys,
        t_subscriptions := so_subscriptions S\<rparr>) = Inr d1"
    and versions: "backfill_project_policy_versions (d1\<lparr>t_policies := so_policies S, t_versions := so_versions S\<rparr>) = Inr d2"
    and audit: "migrate_audit_events S d2 = Inr d3"
    and approvals: "migrate_approval_requests S (d3\<lparr>t_decisions := migrate_decisions S, t_integrity := migrate_integrity_records S\<rparr>) = Inr d4"
    and idem: "migrate_idempotency_records (so_idempotency S) (d4\<lparr>t_grants := so_grants S\<rparr>) = Inr d"
    using assms by (auto simp: initialize_database_def bindE_Inr_iff)
  have after: "t_api_keys d = t_api_keys d2" "t_policies d = t_policies d2" "t_versions d = t_versions d2"
    using later_steps_settled(1) [OF audit] later_steps_settled(2) [OF approvals] later_steps_settled(3) [OF idem]
    by (auto simp: settled_tables_def)
  have "t_api_keys d1 = keys" using webhooks_keep_keys [OF webhooks] by simp
  with backfill_versions_done [OF versions [unfolded backfill_project_policy_versions_def]] after keys
  show ?thesis by (auto simp: migrate_project_api_keys_def Let_def simp del: map_map split: if_splits)
qed

lemma retired_not_legacy: "\<not> is_sha256_text (ak_hash (retire_key now k))"
  by (auto simp: retire_key_def is_sha256_text_def)

lemma retire_again: "retire_key now' (retire_key now k) = retire_key now k"
  using retired_not_legacy [of now k] by (simp add: retire_key_def [of now'])

lemma initialize_stored:
  assumes "map (retire_key now) (t_api_keys d) = t_api_keys d"
    and "distinct (map ak_hash (t_api_keys d))" and "distinct (map ak_prefix (t_api_keys d))"
    and versions: "\<And>c. c \<in> set (t_policies d) \<Longrightarrow> version_kept (t_versions d) c"
  shows "initialize_database now uuids (stored d) = Inr (d\<lparr>t_uuids := uuids\<rparr>)"
proof -
  have "migrate_project_api_keys now (so_api_keys (stored d)) = Inr (t_api_keys d)"
    using assms(1-3) by (simp add: migrate_project_api_keys_def stored_def)
  moreover have "backfill_project_policy_versions e = Inr e"
    if "t_policies e = t_policies d" "t_versions e = t_versions d" for e
    unfolding backfill_project_policy_versions_def that(1) by (rule backfill_versions_again) (simp add: versions that(2))
  ultimately show ?thesis
    by (cases d) (simp add: initialize_database_def migrate_webhook_events_def migrate_audit_events_def
        migrate_approval_requests_def migrate_decisions_def migrate_integrity_records_def stored_def empty_db_def Let_def)
qed

text \<open>
  C0: A start of the service on a database it has already initialized changes nothing in it: all
  migrations are done, once and for all, and only the random identifiers to come may differ.
\<close>

theorem migration_settles:
  assumes "initialize_database now uuids S = Inr d"
  shows "initialize_database later uuids' (stored d) = Inr (d\<lparr>t_uuids := uuids'\<rparr>)"
proof -
  from initialize_database_done [OF assms] have keys: "t_api_keys d = map (retire_key now) (keys_with_role (so_api_keys S))"
    and unique: "distinct (map ak_hash (t_api_keys d))" "distinct (map ak_prefix (t_api_keys d))"
    and versions: "\<And>c. c \<in> set (t_policies d) \<Longrightarrow> version_kept (t_versions d) c" by auto
  have "map (retire_key later) (t_api_keys d) = t_api_keys d"
    unfolding keys by (simp add: retire_again)
  from initialize_stored [OF this unique versions] show ?thesis .
qed

text \<open>A database of an earlier version: a project, a key with a SHA-256 verifier and one with a salted one.\<close>

definition earlier_key :: api_key where
  "earlier_key = (sample_key_row None)\<lparr>ak_id := 31, ak_prefix := ''dak_old'', ak_hash := replicate 64 (CHR ''0'')\<rparr>"

definition earlier_db :: stored_db where
  "earlier_db = (stored (empty_db id))\<lparr>
     so_projects := Earlier [\<lparr>lp_id = 2, lp_name = pr_name sample_project, lp_status = Project_ACTIVE, lp_created_at = 0\<rparr>],
     so_api_keys := Current [sample_key_row None, earlier_key]\<rparr>"

definition migrated_project :: project where
  "migrated_project = \<lparr>pr_id = 2, pr_name = pr_name sample_project, pr_status = Project_ACTIVE, pr_created_at = 0, pr_updated_at = 0\<rparr>"

definition migrated_db :: db where
  "migrated_db = (empty_db id)\<lparr>t_projects := [migrated_project],
     t_api_keys := [sample_key_row None, retire_key 9 earlier_key]\<rparr>"

lemma salted_not_legacy: "\<not> is_sha256_text sample_verifier"
  by (simp add: sample_verifier_def HASH_PREFIX_def is_sha256_text_def)

lemma bare_digest: "is_sha256_text (replicate 64 (CHR ''0''))"
  by (simp add: is_sha256_text_def list_all_iff)

lemma retired_sample: "retire_key 9 (sample_key_row None) = sample_key_row None"
  by (simp add: retire_key_def sample_key_row_def salted_not_legacy)

lemma earlier_migrated: "initialize_database 9 id earlier_db = Inr migrated_db"
proof -
  have keys: "map (retire_key 9) (keys_with_role (so_api_keys earlier_db)) = [sample_key_row None, retire_key 9 earlier_key]"
    by (simp add: earlier_db_def retired_sample)
  have new: "ak_hash (retire_key 9 earlier_key) = ''retired$'' @ uuid_text 31" "ak_prefix (retire_key 9 earlier_key) = ''retired_'' @ uuid_text 31"
    using bare_digest by (simp_all add: retire_key_def earlier_key_def sample_key_row_def)
  have "migrate_project_api_keys 9 (so_api_keys earlier_db) = Inr [sample_key_row None, retire_key 9 earlier_key]"
    unfolding migrate_project_api_keys_def keys Let_def list.map new
    by (simp add: sample_key_row_def sample_verifier_def HASH_PREFIX_def)
  then show ?thesis
    by (simp add: initialize_database_def migrate_webhook_events_def backfill_project_policy_versions_def migrate_audit_events_def
        migrate_approval_requests_def migrate_decisions_def migrate_integrity_records_def stored_def earlier_db_def
        migrated_db_def migrated_project_def sample_db_def empty_db_def)
qed

theorem migration_settles_witness:
  "initialize_database 20 id (stored migrated_db) = Inr (migrated_db\<lparr>t_uuids := id\<rparr>)"
  by (rule migration_settles [OF earlier_migrated])

text \<open>
  C0: After a migration a key authenticates only if it was stored with a salted verifier and not revoked
  before: every key with an unsalted SHA-256 verifier is revoked for good. Every key keeps its
  identity, its project, its role and its revocation.
\<close>

theorem migration_retires_legacy_keys:
  assumes "initialize_database now uuids S = Inr d"
    and "get_active_principal_by_api_key X key d d = Some pr"
  shows "(\<exists>k \<in> set (keys_with_role (so_api_keys S)). pl_key pr = ak_id k \<and> pl_role pr = ak_role k
      \<and> pr_id (pl_project pr) = ak_project k \<and> \<not> is_sha256_text (ak_hash k) \<and> ak_revoked_at k = None
      \<and> verify_api_key X key (ak_hash k))
    \<and> list_all2 (\<lambda>k k'. ak_id k' = ak_id k \<and> ak_project k' = ak_project k \<and> ak_role k' = ak_role k
        \<and> ak_revoked_at k' = (case ak_revoked_at k of Some t \<Rightarrow> Some t
            | None \<Rightarrow> if is_sha256_text (ak_hash k) then Some now else None))
      (keys_with_role (so_api_keys S)) (t_api_keys d)"
proof
  have keys: "t_api_keys d = map (retire_key now) (keys_with_role (so_api_keys S))"
    using initialize_database_done [OF assms(1)] by blast
  from principal_key [OF assms(2)] obtain k where k: "k \<in> set (t_api_keys d)" "ak_revoked_at k = None"
      "pl_key pr = ak_id k" "pl_role pr = ak_role k" "pr_id (pl_project pr) = ak_project k" "authenticates X key k d" .
  then obtain k0 where k0: "k0 \<in> set (keys_with_role (so_api_keys S))" "k = retire_key now k0" using keys by auto
  with k(2) have "k = k0" "\<not> is_sha256_text (ak_hash k0)" "ak_revoked_at k0 = None"
    by (auto simp: retire_key_def split: if_splits)
  with k k0(1) show "\<exists>k \<in> set (keys_with_role (so_api_keys S)). pl_key pr = ak_id k \<and> pl_role pr = ak_role k
      \<and> pr_id (pl_project pr) = ak_project k \<and> \<not> is_sha256_text (ak_hash k) \<and> ak_revoked_at k = None
      \<and> verify_api_key X key (ak_hash k)"
    unfolding authenticates_def by blast
  show "list_all2 (\<lambda>k k'. ak_id k' = ak_id k \<and> ak_project k' = ak_project k \<and> ak_role k' = ak_role k
        \<and> ak_revoked_at k' = (case ak_revoked_at k of Some t \<Rightarrow> Some t
            | None \<Rightarrow> if is_sha256_text (ak_hash k) then Some now else None))
      (keys_with_role (so_api_keys S)) (t_api_keys d)"
    unfolding keys by (auto simp: list_all2_map2 list_all2_same retire_key_def split: option.split)
qed

theorem migration_retires_legacy_keys_witness:
  "(\<exists>k \<in> set (keys_with_role (so_api_keys earlier_db)). 30 = ak_id k \<and> RUNTIME = ak_role k
      \<and> pr_id migrated_project = ak_project k \<and> \<not> is_sha256_text (ak_hash k) \<and> ak_revoked_at k = None
      \<and> verify_api_key sample_externals sample_key (ak_hash k))
   \<and> map ak_revoked_at (t_api_keys migrated_db) = [None, Some 9]"
proof -
  have ok: "verify_api_key sample_externals sample_key sample_verifier"
    using hashed_key_verifies [OF _ sample_key_parts(2)] sample_key_parts(1)
    by (simp add: hash_api_key_def sample_verifier_def)
  have "get_active_principal_by_api_key sample_externals sample_key migrated_db migrated_db
      = Some \<lparr>pl_key = 30, pl_role = RUNTIME, pl_project = migrated_project\<rparr>"
    using ok by (simp add: get_active_principal_by_api_key_def sample_key_parts(3) active_key_row_def row_simps
        migrated_db_def empty_db_def sample_key_row_def migrated_project_def still_active_def)
  from migration_retires_legacy_keys [OF earlier_migrated this]
  show ?thesis by (simp add: migrated_db_def earlier_db_def earlier_key_def sample_key_row_def salted_not_legacy
        bare_digest migrated_project_def ok)
qed

end
