(* ===== verification/Spec2Isabelle.thy ===== *)
theory Spec2Isabelle
  imports Sdk_Service Migrations
begin

text \<open>
  A verification development of the authorization service. The theories follow the code:
  values and exceptions (\<open>Json\<close>, \<open>Errors\<close>), the policy engine (\<open>Policy_Engine\<close>),
  the data and the database (\<open>Domain\<close>, \<open>Tables\<close>, \<open>Database\<close>, \<open>Storage\<close>),
  the audit trail and the outbox (\<open>Snapshots\<close>, \<open>Outbox\<close>), approvals and execution grants
  (\<open>Contracts\<close>, \<open>Approvals\<close>, \<open>Grants\<close>).
\<close>

end
